(* ===== verification/Prelude.thy ===== *)
theory Prelude
  imports Main "HOL-Library.AList" "HOL-Library.Sublist" "HOL-Library.Char_ord"
    "HOL-Library.List_Lexorder" "HOL-Library.Code_Target_Numeral"
begin

text \<open>
  Shared vocabulary of the development: theorem collections, generic lemmas on lists and
  association lists, and the interfaces (locales) that several components of the
  desktop shell have in common.

  \<^item> \<open>invariant_system\<close>: a step relation with a state invariant; \<open>event_machine\<close> is its
    deterministic form (a transition function driven by a list of events).
  \<^item> \<open>bounded_log\<close>: an append-only log that evicts its oldest entry at capacity (the
    broker's retired jobs, the maintenance outcomes, the network histories).
  \<^item> \<open>key_value\<close>: what the services rely on of a finite map (\<open>HashMap\<close>, \<open>BTreeMap\<close>).
  \<^item> \<open>codec\<close>: an encoder with a partial decoder that inverts it.
\<close>

named_theorems broker_defs \<open>definitions of the inference broker\<close>
named_theorems inbox_defs \<open>definitions of the maintenance inbox\<close>
named_theorems json_defs \<open>definitions of the JSON accessors\<close>

section \<open>Lists\<close>

lemma distinct_fresh:
  assumes "distinct (map key xs)" "distinct (map h xs)" "n \<notin> h ` set xs"
  shows "distinct (map (\<lambda>x. if key x = i then n else h x) xs)"
  using assms by (auto simp: distinct_map inj_on_def)

lemma map_update_distinct:
  "distinct (map key xs) \<Longrightarrow> x \<in> set xs \<Longrightarrow> y \<in> set xs \<Longrightarrow> key x = key y \<Longrightarrow> x = y"
  by (auto simp: distinct_map inj_on_def)

lemma update_fresh: "k \<notin> fst ` set m \<Longrightarrow> AList.update k v m = m @ [(k, v)]"
  by (induction m) auto

lemma length_update_absent: "k \<notin> fst ` set m \<Longrightarrow> length (AList.update k v m) = Suc (length m)"
  by (simp add: update_fresh)

lemma length_update_present: "k \<in> fst ` set m \<Longrightarrow> length (AList.update k v m) = length m"
  by (induction m) auto

lemma map_of_Some_key: "map_of m k = Some v \<Longrightarrow> k \<in> fst ` set m"
  by (force dest: map_of_SomeD)

section \<open>State machines\<close>

locale invariant_system =
  fixes init :: "'s \<Rightarrow> bool"
    and step :: "'s \<Rightarrow> 's \<Rightarrow> bool"
    and inv :: "'s \<Rightarrow> bool"
  assumes inv_init: "init s \<Longrightarrow> inv s"
    and inv_step: "inv s \<Longrightarrow> step s t \<Longrightarrow> inv t"
begin

lemma path_inv: "step\<^sup>*\<^sup>* s t \<Longrightarrow> inv s \<Longrightarrow> inv t"
  by (induction rule: rtranclp_induct) (auto intro: inv_step)

lemma reach_inv: "init s \<Longrightarrow> step\<^sup>*\<^sup>* s t \<Longrightarrow> inv t"
  by (blast intro: path_inv inv_init)

end

locale event_machine =
  fixes event :: "'s \<Rightarrow> 'e \<Rightarrow> 's"
    and inv :: "'s \<Rightarrow> bool"
  assumes inv_event: "inv s \<Longrightarrow> inv (event s e)"

sublocale event_machine \<subseteq> invariant_system inv "\<lambda>s t. \<exists>e. t = event s e" inv
  by unfold_locales (auto intro: inv_event)

context event_machine begin

lemma run_inv: "inv s \<Longrightarrow> inv (foldl event s es)"
  by (induction es arbitrary: s) (auto intro: inv_event)

end

section \<open>Bounded logs\<close>

locale bounded_log =
  fixes cap :: nat
    and push :: "'a list \<Rightarrow> 'a \<Rightarrow> 'a list"
  assumes cap_pos: "0 < cap"
    and push_room: "length xs < cap \<Longrightarrow> push xs x = xs @ [x]"
    and push_full: "length xs = cap \<Longrightarrow> push xs x = tl (xs @ [x])"
begin

lemma push_bound: "length xs \<le> cap \<Longrightarrow> length (push xs x) \<le> cap"
  by (cases "length xs = cap") (auto simp: push_room push_full)

lemma push_last: "length xs \<le> cap \<Longrightarrow> push xs x \<noteq> [] \<and> last (push xs x) = x"
  using cap_pos by (cases "length xs = cap"; cases xs) (auto simp: push_room push_full)

lemma push_set: "length xs \<le> cap \<Longrightarrow> set (push xs x) \<subseteq> insert x (set xs)"
  by (cases "length xs = cap"; cases xs) (auto simp: push_room push_full)

lemma run_eq: "foldl push [] ys = drop (length ys - cap) ys"
proof (induction ys rule: rev_induct)
  case Nil
  show ?case by simp
next
  case (snoc y ys)
  show ?case
  proof (cases "length ys < cap")
    case True
    with snoc show ?thesis by (simp add: push_room)
  next
    case False
    then have "length (drop (length ys - cap) ys) = cap" by simp
    then have "foldl push [] (ys @ [y]) = tl (drop (length ys - cap) ys @ [y])"
      using snoc by (simp add: push_full)
    also have "\<dots> = drop (Suc (length ys - cap)) ys @ [y]"
      using False cap_pos by (simp add: tl_append2 tl_drop drop_Suc)
    also have "\<dots> = drop (Suc (length ys - cap)) (ys @ [y])"
      using False cap_pos by simp
    finally show ?thesis using False by (simp add: Suc_diff_le)
  qed
qed

lemma run_bound: "length (foldl push [] ys) \<le> cap"
  by (simp add: run_eq)

end

section \<open>Encoders and decoders\<close>

locale codec =
  fixes valid :: "'a \<Rightarrow> bool"
    and enc :: "'a \<Rightarrow> 'b"
    and dec :: "'b \<Rightarrow> 'a option"
  assumes dec_enc: "valid x \<Longrightarrow> dec (enc x) = Some x"
begin

lemma enc_inject: "valid x \<Longrightarrow> valid y \<Longrightarrow> enc x = enc y \<longleftrightarrow> x = y"
  by (metis dec_enc option.inject)

lemma enc_inj_on: "inj_on enc {x. valid x}"
  by (auto simp: inj_on_def enc_inject)

end

section \<open>Finite maps\<close>

text \<open>
  A Rust map is an association list whose keys are distinct. \<open>HashMap\<close> iterates in an
  unspecified order, which the association list's own order stands for; \<open>BTreeMap\<close> keeps
  its keys sorted.
\<close>

locale key_value =
  fixes get :: "'m \<Rightarrow> 'k \<Rightarrow> 'v option"
    and put :: "'k \<Rightarrow> 'v \<Rightarrow> 'm \<Rightarrow> 'm"
    and del :: "'k \<Rightarrow> 'm \<Rightarrow> 'm"
    and ok :: "'m \<Rightarrow> bool"
  assumes get_put: "ok m \<Longrightarrow> get (put k v m) = (get m)(k \<mapsto> v)"
    and get_del: "ok m \<Longrightarrow> get (del k m) = (get m)(k := None)"
    and ok_put: "ok m \<Longrightarrow> ok (put k v m)"
    and ok_del: "ok m \<Longrightarrow> ok (del k m)"
begin

lemma get_put_same: "ok m \<Longrightarrow> get (put k v m) k = Some v"
  by (simp add: get_put)

lemma get_put_other: "ok m \<Longrightarrow> j \<noteq> k \<Longrightarrow> get (put k v m) j = get m j"
  by (simp add: get_put)

lemma put_put: "ok m \<Longrightarrow> get (put k w (put k v m)) = get (put k w m)"
  by (simp add: get_put ok_put)

lemma del_put: "ok m \<Longrightarrow> get m k = None \<Longrightarrow> get (del k (put k v m)) = get m"
  by (auto simp: get_put get_del ok_put)

end

abbreviation keys_distinct :: "('k \<times> 'v) list \<Rightarrow> bool" where
  "keys_distinct m \<equiv> distinct (map fst m)"

interpretation hash: key_value map_of AList.update AList.delete keys_distinct
proof unfold_locales
  fix m :: "('k \<times> 'v) list" and k v
  show "keys_distinct m \<Longrightarrow> map_of (AList.update k v m) = (map_of m)(k \<mapsto> v)"
    by (simp add: update_conv')
  show "keys_distinct m \<Longrightarrow> map_of (AList.delete k m) = (map_of m)(k := None)"
    by (simp add: delete_conv')
  show "keys_distinct m \<Longrightarrow> keys_distinct (AList.update k v m)"
    by (simp add: distinct_update)
  show "keys_distinct m \<Longrightarrow> keys_distinct (AList.delete k m)"
    by (simp add: distinct_delete)
qed

fun bt_insert :: "'k::linorder \<Rightarrow> 'v \<Rightarrow> ('k \<times> 'v) list \<Rightarrow> ('k \<times> 'v) list" where
  "bt_insert k v [] = [(k, v)]"
| "bt_insert k v ((j, w) # m) =
     (if k < j then (k, v) # (j, w) # m
      else if k = j then (k, v) # m
      else (j, w) # bt_insert k v m)"

abbreviation keys_sorted :: "('k::linorder \<times> 'v) list \<Rightarrow> bool" where
  "keys_sorted m \<equiv> sorted_wrt (<) (map fst m)"

lemma set_keys_bt_insert [simp]: "fst ` set (bt_insert k v m) = insert k (fst ` set m)"
  by (induction k v m rule: bt_insert.induct) auto

lemma set_bt_insert: "set (bt_insert k v m) \<subseteq> insert (k, v) (set m)"
  by (induction k v m rule: bt_insert.induct) auto

lemma keys_sorted_bt_insert [simp]: "keys_sorted m \<Longrightarrow> keys_sorted (bt_insert k v m)"
  by (induction k v m rule: bt_insert.induct) (auto simp: less_le)

lemma keys_sorted_distinct [simp, dest]: "keys_sorted m \<Longrightarrow> keys_distinct m"
  by (simp add: strict_sorted_iff)

lemma map_of_bt_insert [simp]:
  "keys_sorted m \<Longrightarrow> map_of (bt_insert k v m) = (map_of m)(k \<mapsto> v)"
  by (induction k v m rule: bt_insert.induct)
    (auto simp: fun_eq_iff dest: map_of_SomeD split: if_splits)

lemma length_bt_insert_le: "length (bt_insert k v m) \<le> Suc (length m)"
  by (induction k v m rule: bt_insert.induct) auto

lemma length_bt_insert_present:
  "keys_sorted m \<Longrightarrow> k \<in> fst ` set m \<Longrightarrow> length (bt_insert k v m) = length m"
  by (induction k v m rule: bt_insert.induct) force+

lemma keys_sorted_filter [simp]: "keys_sorted m \<Longrightarrow> keys_sorted (filter P m)"
  by (induction m) auto

lemma keys_distinct_filter [simp]: "keys_distinct m \<Longrightarrow> keys_distinct (filter P m)"
  by (induction m) auto

lemma keys_sorted_delete [simp]: "keys_sorted m \<Longrightarrow> keys_sorted (AList.delete k m)"
  by (simp add: AList.delete_eq split_def)

lemma bt_insert_present: "keys_sorted m \<Longrightarrow> map_of m k = Some v \<Longrightarrow> bt_insert k v m = m"
  by (induction k v m rule: bt_insert.induct) (auto split: if_splits dest: map_of_SomeD)

lemma keys_sorted_map: "(\<And>k v. fst (h (k, v)) = k) \<Longrightarrow> keys_sorted (map h m) = keys_sorted m"
proof -
  assume "\<And>k v. fst (h (k, v)) = k"
  then have "map fst (map h m) = map fst m" by auto
  then show ?thesis by metis
qed

lemma map_of_map_same:
  "map_of (map (\<lambda>(k, v). (k, if k = i then g v else v)) m) j
     = (if j = i then map_option g (map_of m j) else map_of m j)"
  by (induction m) auto

lemma map_of_filter_keys: "map_of (filter (\<lambda>(k, v). P k) m) j = (if P j then map_of m j else None)"
  by (induction m) auto

interpretation btree: key_value map_of bt_insert AList.delete keys_sorted
  by unfold_locales (simp_all add: delete_conv')

end
