(* ===== verification/Rust_Str.thy ===== *)
theory Rust_Str
  imports Prelude
begin

text \<open>
  Rust strings. A \<open>String\<close> is its UTF-8 bytes, so it is modelled by Isabelle's \<open>string\<close>
  (a list of 8-bit characters): \<open>length\<close> is \<open>str::len\<close>, the order of
  \<open>HOL-Library.List_Lexorder\<close> is the byte order of \<open>Ord for str\<close>, and the byte
  predicates of \<open>u8\<close> apply to its elements. \<open>chars\<close> decodes the Unicode scalar values;
  the other functions are the parts of the standard library the sources use
  (\<open>split\<close>, \<open>split_once\<close>, \<open>strip_prefix\<close>, \<open>parse\<close>, \<open>to_string\<close>, \<open>trim\<close>).
\<close>

section \<open>ASCII classes\<close>

definition is_ascii_digit :: "char \<Rightarrow> bool" where
  "is_ascii_digit c \<longleftrightarrow> 48 \<le> (of_char c :: nat) \<and> (of_char c :: nat) \<le> 57"

definition is_ascii_upper :: "char \<Rightarrow> bool" where
  "is_ascii_upper c \<longleftrightarrow> 65 \<le> (of_char c :: nat) \<and> (of_char c :: nat) \<le> 90"

definition is_ascii_lower :: "char \<Rightarrow> bool" where
  "is_ascii_lower c \<longleftrightarrow> 97 \<le> (of_char c :: nat) \<and> (of_char c :: nat) \<le> 122"

definition is_ascii_alphabetic :: "char \<Rightarrow> bool" where
  "is_ascii_alphabetic c \<longleftrightarrow> is_ascii_upper c \<or> is_ascii_lower c"

definition is_ascii_alphanumeric :: "char \<Rightarrow> bool" where
  "is_ascii_alphanumeric c \<longleftrightarrow> is_ascii_alphabetic c \<or> is_ascii_digit c"

definition is_ascii_hexdigit :: "char \<Rightarrow> bool" where
  "is_ascii_hexdigit c \<longleftrightarrow> is_ascii_digit c
     \<or> (65 \<le> (of_char c :: nat) \<and> (of_char c :: nat) \<le> 70)
     \<or> (97 \<le> (of_char c :: nat) \<and> (of_char c :: nat) \<le> 102)"

definition to_ascii_lower :: "char \<Rightarrow> char" where
  "to_ascii_lower c = (if is_ascii_upper c then char_of ((of_char c :: nat) + 32) else c)"

abbreviation to_ascii_lowercase :: "string \<Rightarrow> string" where
  "to_ascii_lowercase \<equiv> map to_ascii_lower"

lemmas ascii_defs = is_ascii_digit_def is_ascii_upper_def is_ascii_lower_def
  is_ascii_alphabetic_def is_ascii_alphanumeric_def is_ascii_hexdigit_def

section \<open>UTF-8\<close>

text \<open>Unicode scalar values: code points outside the surrogate range.\<close>

definition scalar :: "nat \<Rightarrow> bool" where
  "scalar c \<longleftrightarrow> c < 0x110000 \<and> \<not> (0xD800 \<le> c \<and> c \<le> 0xDFFF)"

definition utf8_char :: "nat \<Rightarrow> nat list" where
  "utf8_char c =
     (if c < 0x80 then [c]
      else if c < 0x800 then [0xC0 + c div 64, 0x80 + c mod 64]
      else if c < 0x10000 then [0xE0 + c div 4096, 0x80 + c div 64 mod 64, 0x80 + c mod 64]
      else [0xF0 + c div 262144, 0x80 + c div 4096 mod 64, 0x80 + c div 64 mod 64, 0x80 + c mod 64])"

definition utf8_encode :: "nat list \<Rightarrow> nat list" where
  "utf8_encode cs = concat (map utf8_char cs)"

text \<open>
  The decoder reads well-formed UTF-8, which every Rust string is; a truncated sequence
  at the end of a malformed list is dropped.
\<close>

fun utf8_decode :: "nat list \<Rightarrow> nat list" where
  "utf8_decode [] = []"
| "utf8_decode (b # bs) =
     (if b < 0xC0 then b # utf8_decode bs
      else if b < 0xE0 then
        (case bs of c # r \<Rightarrow> ((b mod 32) * 64 + c mod 64) # utf8_decode r | _ \<Rightarrow> [])
      else if b < 0xF0 then
        (case bs of c # d # r \<Rightarrow> ((b mod 16) * 4096 + (c mod 64) * 64 + d mod 64) # utf8_decode r
         | _ \<Rightarrow> [])
      else
        (case bs of c # d # e # r \<Rightarrow>
           ((b mod 8) * 262144 + (c mod 64) * 4096 + (d mod 64) * 64 + e mod 64) # utf8_decode r
         | _ \<Rightarrow> []))"

definition chars :: "string \<Rightarrow> nat list" where
  "chars s = utf8_decode (map of_char s)"

definition char_count :: "string \<Rightarrow> nat" where
  "char_count s = length (chars s)"

definition of_chars :: "nat list \<Rightarrow> string" where
  "of_chars cs = map char_of (utf8_encode cs)"

lemma utf8_char_byte: "scalar c \<Longrightarrow> b \<in> set (utf8_char c) \<Longrightarrow> b < 256"
  by (auto simp: utf8_char_def scalar_def split: if_splits)

lemma cont_mod [simp]: "(128 + c mod 64) mod 64 = c mod (64::nat)"
  using mod_mult_self3 [of 2 64 "c mod 64"] by simp

lemma lead_mod:
  "x < 32 \<Longrightarrow> (192 + x) mod 32 = (x::nat)"
  "y < 16 \<Longrightarrow> (224 + y) mod 16 = (y::nat)"
  "z < 8 \<Longrightarrow> (240 + z) mod 8 = (z::nat)"
  using mod_mult_self3 [of 6 32 x] mod_mult_self3 [of 14 16 y] mod_mult_self3 [of 30 8 z]
  by simp_all

lemma base64_split: "c div 64 * 64 + c mod 64 = (c::nat)"
  by simp

lemma base64_split3: "c div 4096 * 4096 + (c div 64 mod 64) * 64 + c mod 64 = (c::nat)"
proof -
  have "c div 4096 = c div 64 div 64" by (simp add: div_mult2_eq [symmetric])
  with base64_split [of c] base64_split [of "c div 64"] show ?thesis by linarith
qed

lemma base64_split4:
  "c div 262144 * 262144 + (c div 4096 mod 64) * 4096 + (c div 64 mod 64) * 64 + c mod 64 = (c::nat)"
proof -
  have "c div 262144 = c div 4096 div 64" by (simp add: div_mult2_eq [symmetric])
  with base64_split3 [of c] base64_split [of "c div 4096"] show ?thesis by linarith
qed

lemma utf8_decode_char: "scalar c \<Longrightarrow> utf8_decode (utf8_char c @ bs) = c # utf8_decode bs"
proof -
  assume c: "scalar c"
  consider "c < 0x80" | "0x80 \<le> c" "c < 0x800" | "0x800 \<le> c" "c < 0x10000"
    | "0x10000 \<le> c" "c < 0x110000"
    using c by (fastforce simp: scalar_def)
  then show ?thesis
  proof cases
    case 1
    then show ?thesis by (simp add: utf8_char_def)
  next
    case 2
    then have "c div 64 < 32" by auto
    with 2 show ?thesis by (simp add: utf8_char_def lead_mod)
  next
    case 3
    then have "c div 4096 < 16" by auto
    with 3 base64_split3 [of c] show ?thesis
      by (simp add: utf8_char_def lead_mod)
  next
    case 4
    then have "c div 262144 < 8" by auto
    with 4 base64_split4 [of c] show ?thesis
      by (simp add: utf8_char_def lead_mod)
  qed
qed

lemma utf8_decode_encode: "list_all scalar cs \<Longrightarrow> utf8_decode (utf8_encode cs) = cs"
  by (induction cs) (simp_all add: utf8_encode_def utf8_decode_char)

lemma chars_of_chars: "list_all scalar cs \<Longrightarrow> chars (of_chars cs) = cs"
proof -
  assume cs: "list_all scalar cs"
  then have "\<forall>b \<in> set (utf8_encode cs). b < 256"
    by (auto simp: utf8_encode_def list_all_iff dest: utf8_char_byte)
  then have "map (of_char \<circ> char_of) (utf8_encode cs) = utf8_encode cs"
    by (simp add: map_idI)
  with cs show ?thesis by (simp add: chars_def of_chars_def utf8_decode_encode)
qed

interpretation utf8: codec "list_all scalar" of_chars "\<lambda>s. Some (chars s)"
  by unfold_locales (simp add: chars_of_chars)

text \<open>On ASCII text a character is a byte.\<close>

abbreviation ascii :: "string \<Rightarrow> bool" where
  "ascii s \<equiv> list_all (\<lambda>c. (of_char c :: nat) < 128) s"

lemma chars_ascii: "ascii s \<Longrightarrow> chars s = map of_char s"
  by (induction s) (auto simp: chars_def)

lemma char_count_ascii: "ascii s \<Longrightarrow> char_count s = length s"
  by (simp add: char_count_def chars_ascii)

lemma length_utf8_decode: "length (utf8_decode bs) \<le> length bs"
proof (induction bs rule: utf8_decode.induct)
  case 1
  show ?case by simp
next
  case (2 b bs)
  note IH = 2
  consider "b < 0xC0" | "0xC0 \<le> b" "b < 0xE0" | "0xE0 \<le> b" "b < 0xF0" | "0xF0 \<le> b"
    by linarith
  then show ?case
  proof cases
    case 1
    with IH(1) show ?thesis by simp
  next
    case 2
    with IH(2) show ?thesis by (cases bs) (simp_all add: le_SucI)
  next
    case 3
    with IH(3) show ?thesis by (cases bs; cases "tl bs") (simp_all add: le_SucI)
  next
    case 4
    with IH(4) show ?thesis
      by (cases bs; cases "tl bs"; cases "tl (tl bs)") (simp_all add: le_SucI)
  qed
qed

lemma char_count_le: "char_count s \<le> length s"
  using length_utf8_decode [of "map of_char s"] by (simp add: char_count_def chars_def)

section \<open>Unicode classes\<close>

text \<open>\<open>char::is_control\<close> is the general category Cc; \<open>char::is_whitespace\<close> the property
  White\_Space.\<close>

definition is_control :: "nat \<Rightarrow> bool" where
  "is_control c \<longleftrightarrow> c < 32 \<or> (127 \<le> c \<and> c < 160)"

definition is_whitespace :: "nat \<Rightarrow> bool" where
  "is_whitespace c \<longleftrightarrow> (9 \<le> c \<and> c \<le> 13) \<or> c = 32 \<or> c = 0x85 \<or> c = 0xA0 \<or> c = 0x1680
     \<or> (0x2000 \<le> c \<and> c \<le> 0x200A) \<or> c = 0x2028 \<or> c = 0x2029 \<or> c = 0x202F \<or> c = 0x205F
     \<or> c = 0x3000"

definition trim_chars :: "(nat \<Rightarrow> bool) \<Rightarrow> nat list \<Rightarrow> nat list" where
  "trim_chars p cs = rev (dropWhile p (rev (dropWhile p cs)))"

definition trim :: "string \<Rightarrow> string" where
  "trim s = of_chars (trim_chars is_whitespace (chars s))"

text \<open>\<open>v.trim().is_empty()\<close>.\<close>

definition trim_is_empty :: "string \<Rightarrow> bool" where
  "trim_is_empty s = list_all is_whitespace (chars s)"

lemma trim_chars_Nil: "trim_chars p cs = [] \<longleftrightarrow> list_all p cs"
proof -
  have "trim_chars p cs = [] \<longleftrightarrow> list_all p (dropWhile p cs)"
    by (simp add: trim_chars_def dropWhile_eq_Nil_conv list_all_iff)
  also have "\<dots> \<longleftrightarrow> dropWhile p cs = []"
    by (induction cs) auto
  finally show ?thesis by (simp add: dropWhile_eq_Nil_conv list_all_iff)
qed

section \<open>Splitting\<close>

fun split_once :: "char \<Rightarrow> string \<Rightarrow> (string \<times> string) option" where
  "split_once d [] = None"
| "split_once d (c # s) =
     (if c = d then Some ([], s)
      else map_option (\<lambda>(a, b). (c # a, b)) (split_once d s))"

definition rsplit_once :: "char \<Rightarrow> string \<Rightarrow> (string \<times> string) option" where
  "rsplit_once d s = map_option (\<lambda>(a, b). (rev b, rev a)) (split_once d (rev s))"

fun split_on :: "char \<Rightarrow> string \<Rightarrow> string list" where
  "split_on d [] = [[]]"
| "split_on d (c # s) =
     (if c = d then [] # split_on d s
      else (case split_on d s of f # fs \<Rightarrow> (c # f) # fs | [] \<Rightarrow> [[c]]))"

text \<open>Splitting at the characters of a class, and \<open>split_whitespace\<close>.\<close>

fun split_chars :: "(nat \<Rightarrow> bool) \<Rightarrow> nat list \<Rightarrow> nat list list" where
  "split_chars p [] = [[]]"
| "split_chars p (c # cs) =
     (if p c then [] # split_chars p cs
      else (case split_chars p cs of w # ws \<Rightarrow> (c # w) # ws | [] \<Rightarrow> [[c]]))"

definition split_whitespace :: "string \<Rightarrow> string list" where
  "split_whitespace s = map of_chars (filter (\<lambda>w. w \<noteq> []) (split_chars is_whitespace (chars s)))"

fun strip_pre :: "string \<Rightarrow> string \<Rightarrow> string option" where
  "strip_pre [] s = Some s"
| "strip_pre (p # ps) [] = None"
| "strip_pre (p # ps) (c # s) = (if p = c then strip_pre ps s else None)"

definition starts_with :: "string \<Rightarrow> string \<Rightarrow> bool" where
  "starts_with p s \<longleftrightarrow> strip_pre p s \<noteq> None"

definition ends_with :: "string \<Rightarrow> string \<Rightarrow> bool" where
  "ends_with p s \<longleftrightarrow> strip_pre (rev p) (rev s) \<noteq> None"

fun contains_str :: "string \<Rightarrow> string \<Rightarrow> bool" where
  "contains_str p [] = (p = [])"
| "contains_str p (c # s) = (starts_with p (c # s) \<or> contains_str p s)"

lemma strip_pre_Some: "strip_pre p s = Some r \<longleftrightarrow> s = p @ r"
  by (induction p s rule: strip_pre.induct) auto

lemma starts_with_prefix: "starts_with p s \<longleftrightarrow> prefix p s"
  by (auto simp: starts_with_def prefix_def strip_pre_Some)

lemma ends_with_suffix: "ends_with p s \<longleftrightarrow> suffix p s"
  using starts_with_prefix [of "rev p" "rev s"]
  by (simp add: ends_with_def starts_with_def suffix_to_prefix)

lemma contains_str_sublist: "contains_str p s \<longleftrightarrow> sublist p s"
  by (induction s) (auto simp: starts_with_prefix sublist_Cons_right)

lemma split_once_Some:
  "split_once d s = Some (a, b) \<longleftrightarrow> s = a @ d # b \<and> d \<notin> set a"
proof (induction s arbitrary: a)
  case Nil
  show ?case by simp
next
  case (Cons c s)
  then show ?case by (cases a) auto
qed

lemma split_once_None: "split_once d s = None \<longleftrightarrow> d \<notin> set s"
  by (induction s) auto

lemma split_on_nonempty [simp]: "split_on d s \<noteq> []"
  by (induction s) (auto split: list.splits)

lemma split_on_notin: "d \<notin> set s \<Longrightarrow> split_on d s = [s]"
  by (induction s) auto

lemma split_on_append: "d \<notin> set a \<Longrightarrow> split_on d (a @ d # s) = a # split_on d s"
  by (induction a) (auto split: list.splits)

section \<open>Numbers\<close>

fun nat_digits :: "nat \<Rightarrow> string" where
  "nat_digits n = (if n < 10 then [char_of (48 + n)]
     else nat_digits (n div 10) @ [char_of (48 + n mod 10)])"

declare nat_digits.simps [simp del]

definition digit_value :: "char \<Rightarrow> nat" where
  "digit_value c = of_char c - 48"

definition digits_value :: "string \<Rightarrow> nat" where
  "digits_value s = foldl (\<lambda>n c. 10 * n + digit_value c) 0 s"

text \<open>
  \<open>str::parse::<uN>()\<close>: an optional plus sign, at least one digit, no overflow of the
  width (\<open>m\<close> is the largest value).
\<close>

definition parse_uint :: "nat \<Rightarrow> string \<Rightarrow> nat option" where
  "parse_uint m s =
     (let d = (case s of c # r \<Rightarrow> if c = CHR ''+'' then r else s | [] \<Rightarrow> s)
      in if d \<noteq> [] \<and> list_all is_ascii_digit d \<and> digits_value d \<le> m
         then Some (digits_value d) else None)"

abbreviation u16_max :: nat where "u16_max \<equiv> 65535"
abbreviation u32_max :: nat where "u32_max \<equiv> 4294967295"
abbreviation u64_max :: nat where "u64_max \<equiv> 18446744073709551615"

text \<open>Saturating and checked addition at width 64.\<close>

definition sat_add64 :: "nat \<Rightarrow> nat \<Rightarrow> nat" where
  "sat_add64 a b = min (a + b) u64_max"

definition checked_add64 :: "nat \<Rightarrow> nat \<Rightarrow> nat option" where
  "checked_add64 a b = (if a + b \<le> u64_max then Some (a + b) else None)"

lemma of_char_digit [simp]: "n < 10 \<Longrightarrow> of_char (char_of (48 + n) :: char) = (48 + n :: nat)"
  by simp

lemma nat_digits_digit: "list_all is_ascii_digit (nat_digits n)"
proof (induction n rule: nat_digits.induct)
  case (1 n)
  then show ?case by (subst nat_digits.simps) (auto simp: is_ascii_digit_def [of "char_of x" for x])
qed

lemma nat_digits_nonempty [simp]: "nat_digits n \<noteq> []"
  by (subst nat_digits.simps) simp

lemma digits_value_snoc: "digits_value (s @ [c]) = 10 * digits_value s + digit_value c"
  by (simp add: digits_value_def)

lemma digits_value_nat_digits [simp]: "digits_value (nat_digits n) = n"
proof (induction n rule: nat_digits.induct)
  case (1 n)
  show ?case
  proof (cases "n < 10")
    case True
    then show ?thesis
      by (subst nat_digits.simps) (simp add: digits_value_def digit_value_def)
  next
    case False
    with 1 show ?thesis
      by (subst nat_digits.simps) (simp add: digits_value_snoc digit_value_def)
  qed
qed

lemma nat_digits_no_plus: "c \<in> set (nat_digits n) \<Longrightarrow> is_ascii_digit c"
  using nat_digits_digit [of n] by (simp add: list_all_iff)

lemma parse_uint_digits:
  "s \<noteq> [] \<Longrightarrow> list_all is_ascii_digit s \<Longrightarrow>
   parse_uint m s = (if digits_value s \<le> m then Some (digits_value s) else None)"
  by (cases s) (auto simp: parse_uint_def is_ascii_digit_def)

lemma parse_nat_digits [simp]: "parse_uint m (nat_digits n) = (if n \<le> m then Some n else None)"
  by (simp add: parse_uint_digits nat_digits_digit)

lemma parse_uint_bound: "parse_uint m s = Some n \<Longrightarrow> n \<le> m"
  by (auto simp: parse_uint_def Let_def split: if_splits)

interpretation decimal: codec "\<lambda>n. n \<le> u64_max" nat_digits "parse_uint u64_max"
  by unfold_locales simp

end
