(* ===== verification/Json.thy ===== *)
theory Json
  imports Rust_Str
begin

text \<open>
  \<open>serde_json::Value\<close> as the services read it. The workspace builds serde\_json with
  arbitrary precision, so a number is its literal text; an object is a \<open>BTreeMap\<close>, an
  association list in key order. The accessors below are the ones the sources call; parsing
  and printing JSON belong to serde\_json and stay parameters of the definitions that use
  them.
\<close>

datatype json =
    JNull
  | JBool bool
  | JNum string
  | JStr string
  | JArr "json list"
  | JObj "(string \<times> json) list"

fun obj_get :: "(string \<times> json) list \<Rightarrow> string \<Rightarrow> json option" where
  "obj_get m k = map_of m k"

text \<open>\<open>value.get(key)\<close>, and \<open>value[key]\<close>, which is null for a missing key and for a value
  that is no object.\<close>

fun json_get :: "json \<Rightarrow> string \<Rightarrow> json option" where
  "json_get (JObj m) k = map_of m k"
| "json_get _ k = None"

definition json_index :: "json \<Rightarrow> string \<Rightarrow> json" where
  "json_index v k = (case json_get v k of Some x \<Rightarrow> x | None \<Rightarrow> JNull)"

fun as_str :: "json \<Rightarrow> string option" where
  "as_str (JStr s) = Some s"
| "as_str _ = None"

fun as_u64 :: "json \<Rightarrow> nat option" where
  "as_u64 (JNum t) = parse_uint u64_max t"
| "as_u64 _ = None"

fun as_bool :: "json \<Rightarrow> bool option" where
  "as_bool (JBool b) = Some b"
| "as_bool _ = None"

fun as_array :: "json \<Rightarrow> json list option" where
  "as_array (JArr xs) = Some xs"
| "as_array _ = None"

fun as_object :: "json \<Rightarrow> (string \<times> json) list option" where
  "as_object (JObj m) = Some m"
| "as_object _ = None"

definition is_object :: "json \<Rightarrow> bool" where
  "is_object v \<longleftrightarrow> as_object v \<noteq> None"

lemmas [json_defs] = json_index_def is_object_def

lemma as_str_Some [simp]: "as_str v = Some s \<longleftrightarrow> v = JStr s"
  by (cases v) auto

lemma as_array_Some [simp]: "as_array v = Some xs \<longleftrightarrow> v = JArr xs"
  by (cases v) auto

lemma as_object_Some [simp]: "as_object v = Some m \<longleftrightarrow> v = JObj m"
  by (cases v) auto

lemma json_index_null [simp]: "json_index JNull k = JNull"
  by (simp add: json_index_def)

lemma json_index_str: "json_index v k = JStr s \<Longrightarrow> json_get v k = Some (JStr s)"
  by (auto simp: json_index_def split: option.splits)

text \<open>The object a \<open>json!\<close> literal builds.\<close>

definition json_obj :: "(string \<times> json) list \<Rightarrow> json" where
  "json_obj kvs = JObj (foldl (\<lambda>m (k, v). bt_insert k v m) [] kvs)"

text \<open>\<open>value[key] = v\<close>. serde\_json panics on a value that is neither an object nor null; the
  sources write into objects only, so the last equation is never reached.\<close>

fun json_put :: "string \<Rightarrow> json \<Rightarrow> json \<Rightarrow> json" where
  "json_put k v (JObj m) = JObj (bt_insert k v m)"
| "json_put k v JNull = JObj [(k, v)]"
| "json_put k v j = j"

lemma map_of_bt_insert_any [simp]: "map_of (bt_insert k v m) j = (if j = k then Some v else map_of m j)"
  by (induction k v m rule: bt_insert.induct) auto

lemma json_get_put [simp]:
  "is_object e \<Longrightarrow> json_get (json_put k v e) j = (if j = k then Some v else json_get e j)"
  by (cases e) (auto simp: is_object_def)

lemma is_object_put [simp]: "is_object e \<Longrightarrow> is_object (json_put k v e)"
  by (cases e) (auto simp: is_object_def)

lemma json_obj_fold:
  "map_of (foldl (\<lambda>m (k, v). bt_insert k v m) m kvs) j =
     (case map_of (rev kvs) j of Some v \<Rightarrow> Some v | None \<Rightarrow> map_of m j)"
  by (induction kvs arbitrary: m) (auto simp: map_add_def split: option.splits)

lemma json_get_obj [simp]: "json_get (json_obj kvs) k = map_of (rev kvs) k"
  by (simp add: json_obj_def json_obj_fold split: option.splits)

lemma is_object_obj [simp]: "is_object (json_obj kvs)"
  by (simp add: json_obj_def is_object_def)

text \<open>The number of nodes of a value and its depth, the quantities the validators bound.\<close>

fun json_nodes :: "json \<Rightarrow> nat" where
  "json_nodes (JArr xs) = Suc (sum_list (map json_nodes xs))"
| "json_nodes (JObj m) = Suc (sum_list (map (\<lambda>(k, v). json_nodes v) m))"
| "json_nodes _ = 1"

fun json_depth :: "json \<Rightarrow> nat" where
  "json_depth (JArr xs) = foldr max (map (Suc \<circ> json_depth) xs) 0"
| "json_depth (JObj m) = foldr max (map (\<lambda>(k, v). Suc (json_depth v)) m) 0"
| "json_depth _ = 0"

text \<open>\<open>sub_value v w\<close>: \<open>w\<close> occurs in \<open>v\<close>.\<close>

inductive sub_value :: "json \<Rightarrow> json \<Rightarrow> bool" where
  here: "sub_value v v"
| arr: "x \<in> set xs \<Longrightarrow> sub_value x w \<Longrightarrow> sub_value (JArr xs) w"
| obj: "(k, x) \<in> set m \<Longrightarrow> sub_value x w \<Longrightarrow> sub_value (JObj m) w"

inductive_cases sub_value_arrE: "sub_value (JArr xs) w"
inductive_cases sub_value_objE: "sub_value (JObj m) w"

inductive_simps sub_value_simps [simp]:
  "sub_value JNull w" "sub_value (JBool b) w" "sub_value (JNum t) w" "sub_value (JStr s) w"

end
