(* ===== verification/Broker_Validation.thy ===== *)
theory Broker_Validation
  imports Json
begin

text \<open>
  \<open>projects/broker/src/validation.rs\<close>: admission of inference requests. The structural
  bounds (\<open>inspect\<close>: depth, node budget, number literals, no references), the count of
  regular expressions in a schema, the identifier alphabet and the request check itself.

  The JSON Schema compiler (crate jsonschema) and the serialized size of a value
  (serde\_json) are parameters: \<open>compile\<close> gives the compiled validator of a schema document,
  or none when it is rejected, and \<open>size_of\<close> the length of \<open>serde_json::to_vec\<close>.
\<close>

datatype failure =
    Invalid_input
  | Capacity
  | Superseded_revision
  | Invalid_state
  | Unknown_job
  | Broker_restarted
  | Broker_unavailable
  | Model_failure
  | Runtime_failure
  | Isolation_failure
  | Authentication_unavailable
  | Invalid_output
  | Cancelled_run

definition max_message :: nat where
  "max_message = 256 * 1024"

record request =
  req_value :: json
  req_validator :: "json \<Rightarrow> bool"

definition consumer :: "request \<Rightarrow> string" where
  "consumer r = the (as_str (json_index (req_value r) ''consumer''))"

definition item :: "request \<Rightarrow> (string \<times> nat) option" where
  "item r = (case json_get (req_value r) ''item'' of
     None \<Rightarrow> None
   | Some v \<Rightarrow> Some (the (as_str v), the (as_u64 (json_index (req_value r) ''revision''))))"

definition interactive :: "request \<Rightarrow> bool" where
  "interactive r \<longleftrightarrow> json_index (req_value r) ''class'' = JStr ''interactive''"

section \<open>Structural inspection\<close>

text \<open>\<open>split_once(['e', 'E'])\<close> and the exponent as an \<open>i32\<close>.\<close>

fun exponent_of :: "string \<Rightarrow> string option" where
  "exponent_of [] = None"
| "exponent_of (c # s) = (if c = CHR ''e'' \<or> c = CHR ''E'' then Some s else exponent_of s)"

definition parse_i32 :: "string \<Rightarrow> int option" where
  "parse_i32 s = (case s of
      c # r \<Rightarrow>
        if c = CHR ''-'' then
          (if r \<noteq> [] \<and> list_all is_ascii_digit r \<and> digits_value r \<le> 2147483648
           then Some (- int (digits_value r)) else None)
        else map_option int (parse_uint 2147483647 s)
    | [] \<Rightarrow> None)"

definition number_rejected :: "string \<Rightarrow> bool" where
  "number_rejected t \<longleftrightarrow> length t > 128
     \<or> (case exponent_of t of
          None \<Rightarrow> False
        | Some e \<Rightarrow> (case parse_i32 e of None \<Rightarrow> True | Some n \<Rightarrow> \<bar>n\<bar> > 308))"

definition reference_keys :: "string list" where
  "reference_keys = [''$ref'', ''$dynamicRef'', ''$recursiveRef'']"

text \<open>
  \<open>inspect\<close> threads the remaining node budget through the traversal: the result is the
  budget left, or none for the error. A reference keyword is refused before its value is
  visited.
\<close>

fun inspect :: "bool \<Rightarrow> nat \<Rightarrow> nat \<Rightarrow> json \<Rightarrow> nat option"
  and inspect_fields :: "bool \<Rightarrow> nat \<Rightarrow> nat \<Rightarrow> (string \<times> json) list \<Rightarrow> nat option"
  and inspect_items :: "bool \<Rightarrow> nat \<Rightarrow> nat \<Rightarrow> json list \<Rightarrow> nat option" where
  "inspect schema depth remaining v =
     (if depth > (if schema then 32 else 64) \<or> remaining = 0 then None
      else (case v of
          JObj m \<Rightarrow> inspect_fields schema (Suc depth) (remaining - 1) m
        | JArr xs \<Rightarrow> inspect_items schema (Suc depth) (remaining - 1) xs
        | JNum t \<Rightarrow> if number_rejected t then None else Some (remaining - 1)
        | _ \<Rightarrow> Some (remaining - 1)))"
| "inspect_fields schema depth remaining [] = Some remaining"
| "inspect_fields schema depth remaining ((k, v) # m) =
     (if schema \<and> k \<in> set reference_keys then None
      else (case inspect schema depth remaining v of
          None \<Rightarrow> None
        | Some left \<Rightarrow> inspect_fields schema depth left m))"
| "inspect_items schema depth remaining [] = Some remaining"
| "inspect_items schema depth remaining (v # vs) =
     (case inspect schema depth remaining v of
          None \<Rightarrow> None
        | Some left \<Rightarrow> inspect_items schema depth left vs)"

declare inspect.simps [simp del]

definition bounded_instance :: "json \<Rightarrow> bool" where
  "bounded_instance v \<longleftrightarrow> inspect False 0 16384 v \<noteq> None"

fun pattern_count :: "json \<Rightarrow> nat" where
  "pattern_count (JObj m) =
     (if map_of m ''pattern'' \<noteq> None then 1 else 0)
     + (case map_of m ''patternProperties'' of Some (JObj p) \<Rightarrow> length p | _ \<Rightarrow> 0)
     + sum_list (map (\<lambda>(k, v). pattern_count v) m)"
| "pattern_count (JArr xs) = sum_list (map pattern_count xs)"
| "pattern_count _ = 0"

section \<open>Requests\<close>

type_synonym compiler = "json \<Rightarrow> (json \<Rightarrow> bool) option"
type_synonym sizer = "json \<Rightarrow> nat"

definition schema :: "compiler \<Rightarrow> sizer \<Rightarrow> json \<Rightarrow> failure + (json \<Rightarrow> bool)" where
  "schema compile size_of v =
     (case as_str (json_index v ''version'') of
        None \<Rightarrow> Inl Invalid_input
      | Some version \<Rightarrow>
        (case json_get v ''schema'' of
           None \<Rightarrow> Inl Invalid_input
         | Some document \<Rightarrow>
           if length version > 100 \<or> size_of document > 64 * 1024 then Inl Invalid_input
           else if inspect True 0 4096 document = None then Inl Invalid_input
           else if pattern_count document > 32 then Inl Invalid_input
           else (case compile document of
                   None \<Rightarrow> Inl Invalid_input
                 | Some validator \<Rightarrow> Inr validator)))"

definition identifier_ok :: "string \<Rightarrow> bool" where
  "identifier_ok s \<longleftrightarrow> s \<noteq> [] \<and> length s \<le> 100
     \<and> list_all (\<lambda>b. is_ascii_alphanumeric b \<or> b \<in> set ''_.:-'') s"

definition allowed_keys :: "string list" where
  "allowed_keys = [''consumer'', ''label'', ''prompt'', ''context'', ''input'', ''output'',
     ''class'', ''item'', ''revision'']"

definition blank_field :: "json \<Rightarrow> string \<Rightarrow> bool" where
  "blank_field v key = (case as_str (json_index v key) of None \<Rightarrow> True | Some s \<Rightarrow> trim_is_empty s)"

definition item_rejected :: "json \<Rightarrow> json \<Rightarrow> bool" where
  "item_rejected v it \<longleftrightarrow>
     (case as_str it of None \<Rightarrow> True | Some s \<Rightarrow> char_count s > 200)
     \<or> (case as_u64 (json_index v ''revision'') of None \<Rightarrow> True | Some n \<Rightarrow> n \<ge> 2 ^ 63)"

definition keys_rejected :: "(string \<times> json) list \<Rightarrow> bool" where
  "keys_rejected m \<longleftrightarrow> (\<exists>k \<in> set (map fst m). k \<notin> set allowed_keys)"

definition names_rejected :: "json \<Rightarrow> bool" where
  "names_rejected v \<longleftrightarrow>
     (let label = the (as_str (json_index v ''label'')) in
      \<not> identifier_ok (the (as_str (json_index v ''consumer'')))
      \<or> char_count label > 120 \<or> (\<exists>c \<in> set (chars label). is_control c))"

definition class_rejected :: "json \<Rightarrow> bool" where
  "class_rejected v \<longleftrightarrow>
     (case json_get v ''class'' of
        None \<Rightarrow> False
      | Some class \<Rightarrow> class \<noteq> JStr ''interactive'' \<and> class \<noteq> JStr ''background'')"

definition request_of :: "compiler \<Rightarrow> sizer \<Rightarrow> json \<Rightarrow> failure + request" where
  "request_of compile size_of v =
     (case as_object v of
        None \<Rightarrow> Inl Invalid_input
      | Some m \<Rightarrow>
        if keys_rejected m \<or> size_of v > max_message then Inl Invalid_input
        else if \<exists>key \<in> set [''consumer'', ''label'', ''prompt'']. blank_field v key
        then Inl Invalid_input
        else if names_rejected v then Inl Invalid_input
        else if class_rejected v then Inl Invalid_input
        else if (''item'' \<in> set (map fst m)) \<noteq> (''revision'' \<in> set (map fst m))
        then Inl Invalid_input
        else if (case json_get v ''item'' of None \<Rightarrow> False | Some it \<Rightarrow> item_rejected v it)
        then Inl Invalid_input
        else if inspect False 0 16384 (json_index v ''context'') = None then Inl Invalid_input
        else
          (case schema compile size_of (json_index v ''input'') of
             Inl e \<Rightarrow> Inl e
           | Inr input \<Rightarrow>
             if \<not> input (json_index v ''context'') then Inl Invalid_input
             else
               (case schema compile size_of (json_index v ''output'') of
                  Inl e \<Rightarrow> Inl e
                | Inr validator \<Rightarrow> Inr \<lparr>req_value = v, req_validator = validator\<rparr>)))"

section \<open>What an accepted value satisfies\<close>

text \<open>
  The declarative reading of \<open>inspect\<close>: a bound on depth, on the number of nodes, on every
  number literal, and (for schemas) the absence of reference keywords.
\<close>

fun numbers_ok :: "json \<Rightarrow> bool" where
  "numbers_ok (JNum t) \<longleftrightarrow> \<not> number_rejected t"
| "numbers_ok (JArr xs) \<longleftrightarrow> (\<forall>x \<in> set xs. numbers_ok x)"
| "numbers_ok (JObj m) \<longleftrightarrow> (\<forall>(k, x) \<in> set m. numbers_ok x)"
| "numbers_ok _ \<longleftrightarrow> True"

fun refless :: "json \<Rightarrow> bool" where
  "refless (JArr xs) \<longleftrightarrow> (\<forall>x \<in> set xs. refless x)"
| "refless (JObj m) \<longleftrightarrow> (\<forall>(k, x) \<in> set m. k \<notin> set reference_keys \<and> refless x)"
| "refless _ \<longleftrightarrow> True"

definition depth_limit :: "bool \<Rightarrow> nat" where
  "depth_limit sch = (if sch then 32 else 64)"

definition within_bounds :: "bool \<Rightarrow> nat \<Rightarrow> json \<Rightarrow> bool" where
  "within_bounds sch depth v \<longleftrightarrow>
     depth + json_depth v \<le> depth_limit sch \<and> numbers_ok v \<and> (sch \<longrightarrow> refless v)"

lemma foldr_max_le: "foldr max ns (0::nat) \<le> k \<longleftrightarrow> (\<forall>n \<in> set ns. n \<le> k)"
  by (induction ns) auto

lemma json_nodes_pos [simp]: "0 < json_nodes v"
  by (cases v) auto

lemma within_bounds_arr:
  "within_bounds sch d (JArr xs) \<longleftrightarrow>
     d \<le> depth_limit sch \<and> (\<forall>x \<in> set xs. within_bounds sch (Suc d) x)"
proof -
  have "d + json_depth (JArr xs) \<le> depth_limit sch \<longleftrightarrow>
      d \<le> depth_limit sch \<and> json_depth (JArr xs) \<le> depth_limit sch - d"
    by linarith
  also have "\<dots> \<longleftrightarrow> d \<le> depth_limit sch \<and> (\<forall>x \<in> set xs. Suc d + json_depth x \<le> depth_limit sch)"
    by (fastforce simp: foldr_max_le)
  finally show ?thesis by (auto simp: within_bounds_def)
qed

lemma within_bounds_obj:
  "within_bounds sch d (JObj m) \<longleftrightarrow> d \<le> depth_limit sch
     \<and> (\<forall>(k, x) \<in> set m. (sch \<longrightarrow> k \<notin> set reference_keys) \<and> within_bounds sch (Suc d) x)"
proof -
  have "d + json_depth (JObj m) \<le> depth_limit sch \<longleftrightarrow>
      d \<le> depth_limit sch \<and> json_depth (JObj m) \<le> depth_limit sch - d"
    by linarith
  also have "\<dots> \<longleftrightarrow> d \<le> depth_limit sch \<and> (\<forall>(k, x) \<in> set m. Suc d + json_depth x \<le> depth_limit sch)"
    by (fastforce simp: foldr_max_le)
  finally show ?thesis by (fastforce simp: within_bounds_def)
qed

lemma within_bounds_num:
  "within_bounds sch d (JNum t) \<longleftrightarrow> d \<le> depth_limit sch \<and> \<not> number_rejected t"
  by (auto simp: within_bounds_def)

lemmas within_bounds_simps = within_bounds_arr within_bounds_obj within_bounds_num

lemma inspect_mutual:
  "inspect sch d n v =
     (if within_bounds sch d v \<and> json_nodes v \<le> n then Some (n - json_nodes v) else None)"
  "inspect_fields sch d n m =
     (if (\<forall>(k, x) \<in> set m. (sch \<longrightarrow> k \<notin> set reference_keys) \<and> within_bounds sch d x)
         \<and> sum_list (map (\<lambda>(k, x). json_nodes x) m) \<le> n
      then Some (n - sum_list (map (\<lambda>(k, x). json_nodes x) m)) else None)"
  "inspect_items sch d n xs =
     (if (\<forall>x \<in> set xs. within_bounds sch d x) \<and> sum_list (map json_nodes xs) \<le> n
      then Some (n - sum_list (map json_nodes xs)) else None)"
proof (induction sch d n v and sch d n m and sch d n xs
    rule: inspect_inspect_fields_inspect_items.induct)
  case (1 sch d n v)
  show ?case
  proof (cases "d > depth_limit sch \<or> n = 0")
    case True
    then have "inspect sch d n v = None"
      by (subst inspect.simps) (auto simp: depth_limit_def)
    moreover have "\<not> (within_bounds sch d v \<and> json_nodes v \<le> n)"
      using True json_nodes_pos [of v] by (auto simp: within_bounds_def simp del: json_nodes_pos)
    ultimately show ?thesis by simp
  next
    case False
    then have c: "\<not> (d > (if sch then 32 else 64) \<or> n = 0)" "d \<le> depth_limit sch" "0 < n"
      by (auto simp: depth_limit_def)
    show ?thesis
    proof (cases v)
      case (JArr xs)
      with c "1.IH"(1) [OF c(1) JArr] show ?thesis
        by (subst inspect.simps) (auto simp: within_bounds_simps)
    next
      case (JObj m)
      with c "1.IH"(2) [OF c(1) JObj] show ?thesis
        by (subst inspect.simps) (auto simp: within_bounds_simps)
    qed (use c in \<open>subst inspect.simps; auto simp: within_bounds_def\<close>)+
  qed
next
  case (3 sch d n k v m)
  show ?case using "3.IH"(1) "3.IH"(2) by (auto split: option.splits)
next
  case (5 sch d n v vs)
  show ?case using "5.IH"(1) "5.IH"(2) by (auto split: option.splits)
qed simp_all

lemma inspect_eq:
  "inspect sch d n v =
     (if within_bounds sch d v \<and> json_nodes v \<le> n then Some (n - json_nodes v) else None)"
  by (rule inspect_mutual)

lemma bounded_instance_iff:
  "bounded_instance v \<longleftrightarrow> json_depth v \<le> 64 \<and> json_nodes v \<le> 16384 \<and> numbers_ok v"
  by (auto simp: bounded_instance_def inspect_eq within_bounds_def depth_limit_def)

lemma sub_value_numbers_ok: "sub_value v w \<Longrightarrow> numbers_ok v \<Longrightarrow> numbers_ok w"
  by (induction rule: sub_value.induct) auto

lemma sub_value_refless: "sub_value v w \<Longrightarrow> refless v \<Longrightarrow> refless w"
  by (induction rule: sub_value.induct) auto

lemma schema_Inr:
  "schema compile size_of v = Inr validator \<Longrightarrow>
     \<exists>document. json_get v ''schema'' = Some document \<and> compile document = Some validator
       \<and> json_nodes document \<le> 4096 \<and> json_depth document \<le> 32 \<and> refless document
       \<and> pattern_count document \<le> 32 \<and> size_of document \<le> 64 * 1024"
  by (auto simp: schema_def inspect_eq within_bounds_def depth_limit_def
      split: option.splits if_splits)

lemma schema_Inl: "schema compile size_of v = Inl e \<Longrightarrow> e = Invalid_input"
  by (auto simp: schema_def split: option.splits if_splits)

text \<open>The facts an accepted request carries, as the rest of the broker relies on them.\<close>

definition wf_request :: "request \<Rightarrow> bool" where
  "wf_request r \<longleftrightarrow>
     (\<exists>c. as_str (json_index (req_value r) ''consumer'') = Some c \<and> identifier_ok c)
     \<and> (\<exists>l. as_str (json_index (req_value r) ''label'') = Some l \<and> char_count l \<le> 120
          \<and> (\<forall>c \<in> set (chars l). \<not> is_control c))
     \<and> (\<forall>it. json_get (req_value r) ''item'' = Some it \<longrightarrow>
          (\<exists>s n. as_str it = Some s \<and> char_count s \<le> 200
             \<and> as_u64 (json_index (req_value r) ''revision'') = Some n \<and> n < 2 ^ 63))
     \<and> bounded_instance (json_index (req_value r) ''context'')"

lemma blank_field_False:
  "\<not> blank_field v key \<longleftrightarrow> (\<exists>s. json_index v key = JStr s \<and> \<not> trim_is_empty s)"
  by (auto simp: blank_field_def split: option.splits)

lemma request_of_Inr:
  assumes "request_of compile size_of v = Inr r"
  shows "req_value r = v" "\<forall>key \<in> {''consumer'', ''label'', ''prompt''}. \<not> blank_field v key"
    and "\<not> names_rejected v" "\<not> class_rejected v"
    and "\<forall>it. json_get v ''item'' = Some it \<longrightarrow> \<not> item_rejected v it"
    and "bounded_instance (json_index v ''context'')"
    and "schema compile size_of (json_index v ''output'') = Inr (req_validator r)"
  using assms unfolding request_of_def bounded_instance_def
  by (auto split: option.split_asm if_split_asm sum.split_asm)

lemma request_of_wf:
  assumes "request_of compile size_of v = Inr r"
  shows "wf_request r"
proof -
  note f = request_of_Inr [OF assms]
  from f(2) obtain c l where c: "json_index v ''consumer'' = JStr c" and l: "json_index v ''label'' = JStr l"
    by (auto simp: blank_field_False)
  with f(3) have "identifier_ok c" "char_count l \<le> 120" "\<forall>x \<in> set (chars l). \<not> is_control x"
    by (auto simp: names_rejected_def)
  moreover have "\<exists>s n. as_str it = Some s \<and> char_count s \<le> 200
      \<and> as_u64 (json_index v ''revision'') = Some n \<and> n < 2 ^ 63"
    if "json_get v ''item'' = Some it" for it
    using f(5) that by (auto simp: item_rejected_def not_le split: option.splits)
  ultimately show ?thesis
    using c l f(1,6) by (simp add: wf_request_def)
qed

lemma request_of_Inl: "request_of compile size_of v = Inl e \<Longrightarrow> e = Invalid_input"
  unfolding request_of_def
  by (auto dest: schema_Inl split: option.split_asm if_split_asm sum.split_asm)

lemma wf_request_item:
  "wf_request r \<Longrightarrow> item r = Some (s, n) \<Longrightarrow> n < 2 ^ 63 \<and> char_count s \<le> 200"
  by (auto simp: wf_request_def item_def split: option.splits)

end
