(* ===== verification/Broker_Lifecycle.thy ===== *)
theory Broker_Lifecycle
  imports Complex_Main "HOL-Library.Product_Lexorder" Broker_Validation
begin

text \<open>
  \<open>projects/broker/src/lifecycle.rs\<close>: the broker's job table and its two kinds of critical
  sections, the worker loop (\<open>work\<close>) and the protocol (\<open>call\<close>). Every definition below is
  one region the source runs under the state mutex, as a function of the state.

  Conventions. \<open>Instant\<close> and \<open>Duration\<close> are nanoseconds (\<open>nat\<close>); \<open>now()\<close>, an \<open>f64\<close> of
  seconds, is an exact rational, read once per critical section. The static strings of a
  job's state and of the failures are the constructors of \<open>phase\<close> and \<open>failure\<close>; no error is
  \<open>None\<close>. The cancellation flags (\<open>Arc<AtomicUsize>\<close>) are shared between the table and the
  workers, so they live in an explicit store: \<open>j_cancel\<close> is an address, \<open>b_flags\<close> the store
  and \<open>b_next_flag\<close> the allocator. A reply's JSON object is a record.
\<close>

datatype phase = Queued | Running | Retrying | Succeeded | Failed | Cancelled | Superseded

record selection =
  sel_model :: string
  sel_reason :: string

record config =
  cfg_model :: string
  cfg_concurrency :: nat
  cfg_capacity :: nat
  cfg_backoff :: nat
  cfg_schema_attempts :: nat

definition second :: nat where
  "second = 1000000000"

definition default_config :: config where
  "default_config = \<lparr>cfg_model = ''gpt-5.6-luna'', cfg_concurrency = 2, cfg_capacity = 128,
     cfg_backoff = second, cfg_schema_attempts = 8\<rparr>"

record job =
  j_request :: request
  j_sequence :: nat
  j_id :: string
  j_phase :: phase
  j_created :: rat
  j_updated :: rat
  j_started :: rat
  j_attempts :: nat
  j_transient :: nat
  j_invalid :: nat
  j_tokens :: "nat \<times> nat"
  j_selection :: "selection option"
  j_error :: "failure option"
  j_result :: "json option"
  j_promoted :: bool
  j_ready :: nat
  j_cancel :: nat

definition terminal :: "job \<Rightarrow> bool" where
  "terminal j \<longleftrightarrow> j_phase j \<in> {Succeeded, Failed, Cancelled, Superseded}"

record metadata =
  m_id :: string
  m_consumer :: json
  m_label :: json
  m_state :: phase
  m_created :: rat
  m_updated :: rat
  m_started :: rat
  m_model :: string
  m_selection_reason :: string
  m_attempts :: nat
  m_queue_duration :: rat
  m_tokens :: "nat \<times> nat"
  m_error :: "failure option"

definition metadata_of :: "rat \<Rightarrow> string \<Rightarrow> job \<Rightarrow> metadata" where
  "metadata_of t model j =
     \<lparr>m_id = j_id j,
      m_consumer = json_index (req_value (j_request j)) ''consumer'',
      m_label = json_index (req_value (j_request j)) ''label'',
      m_state = j_phase j,
      m_created = j_created j, m_updated = j_updated j, m_started = j_started j,
      m_model = (case j_selection j of Some s \<Rightarrow> sel_model s | None \<Rightarrow> model),
      m_selection_reason = (case j_selection j of Some s \<Rightarrow> sel_reason s | None \<Rightarrow> ''pending''),
      m_attempts = j_attempts j,
      m_queue_duration = max ((if j_started j = 0 then t else j_started j) - j_created j) 0,
      m_tokens = j_tokens j,
      m_error = j_error j\<rparr>"

definition finish_job :: "phase \<Rightarrow> failure option \<Rightarrow> rat \<Rightarrow> job \<Rightarrow> job" where
  "finish_job p e t j =
     j\<lparr>j_phase := p, j_error := e, j_updated := t,
       j_result := (if p \<noteq> Succeeded then None else j_result j)\<rparr>"

record bstate =
  b_jobs :: "(string \<times> job) list"
  b_retired :: "metadata list"
  b_revisions :: "((string \<times> string) \<times> nat) list"
  b_sequence :: nat
  b_activity :: nat
  b_closed :: bool
  b_flags :: "nat \<Rightarrow> bool"
  b_next_flag :: nat

definition new_broker :: "nat \<Rightarrow> bstate" where
  "new_broker inst = \<lparr>b_jobs = [], b_retired = [], b_revisions = [], b_sequence = 0,
     b_activity = inst, b_closed = False, b_flags = (\<lambda>_. False), b_next_flag = 0\<rparr>"

definition jobs_of :: "bstate \<Rightarrow> job list" where
  "jobs_of st = map snd (b_jobs st)"

definition find_job :: "string \<Rightarrow> bstate \<Rightarrow> job option" where
  "find_job i st = map_of (b_jobs st) i"

text \<open>\<open>state.jobs.get_mut(id)\<close> followed by an update of the job in place.\<close>

definition update_job :: "string \<Rightarrow> (job \<Rightarrow> job) \<Rightarrow> bstate \<Rightarrow> bstate" where
  "update_job i f st = st\<lparr>b_jobs := map (\<lambda>(k, j). (k, if k = i then f j else j)) (b_jobs st)\<rparr>"

text \<open>\<open>job.finish(state, error)\<close> on every job that satisfies \<open>p\<close>, storing 1 in its flag.\<close>

definition finish_where :: "(job \<Rightarrow> bool) \<Rightarrow> phase \<Rightarrow> failure option \<Rightarrow> rat \<Rightarrow> bstate \<Rightarrow> bstate" where
  "finish_where p ph e t st =
     st\<lparr>b_jobs := map (\<lambda>(k, j). (k, if p j then finish_job ph e t j else j)) (b_jobs st),
        b_flags := (\<lambda>a. b_flags st a \<or> (\<exists>j \<in> set (jobs_of st). p j \<and> j_cancel j = a))\<rparr>"

definition finish :: "string \<Rightarrow> phase \<Rightarrow> failure option \<Rightarrow> rat \<Rightarrow> bstate \<Rightarrow> bstate" where
  "finish i ph e t st =
     (case find_job i st of
        None \<Rightarrow> st
      | Some j \<Rightarrow> (update_job i (finish_job ph e t) st)\<lparr>b_flags := (b_flags st)(j_cancel j := True)\<rparr>)"

text \<open>The queue: promoted first, then interactive, then by sequence.\<close>

definition queue_key :: "job \<Rightarrow> bool \<times> bool \<times> nat" where
  "queue_key j = (\<not> j_promoted j, \<not> interactive (j_request j), j_sequence j)"

definition queue :: "bstate \<Rightarrow> job list" where
  "queue st = sort_key queue_key (filter (\<lambda>j. j_phase j = Queued) (jobs_of st))"

definition worker_count :: "config \<Rightarrow> nat" where
  "worker_count cfg = min 8 (max 1 (cfg_concurrency cfg))"

definition idle :: "nat \<Rightarrow> nat \<Rightarrow> bstate \<Rightarrow> bool" where
  "idle duration inst st \<longleftrightarrow>
     inst - b_activity st \<ge> duration \<and> (\<forall>j \<in> set (jobs_of st). terminal j)"

definition close :: "rat \<Rightarrow> bstate \<Rightarrow> bstate" where
  "close t st = finish_where (\<lambda>j. \<not> terminal j) Cancelled None t (st\<lparr>b_closed := True\<rparr>)"

definition clear :: "bstate \<Rightarrow> bstate" where
  "clear st = st\<lparr>b_jobs := [], b_retired := [], b_revisions := []\<rparr>"

section \<open>The worker\<close>

text \<open>First critical section of an iteration: requeue what is due, then pick.\<close>

definition due :: "nat \<Rightarrow> bstate \<Rightarrow> string list" where
  "due inst st =
     map (\<lambda>(_, _, i). i)
       (sort (map (\<lambda>j. (j_ready j, j_sequence j, j_id j))
          (filter (\<lambda>j. j_phase j = Retrying \<and> j_ready j \<le> inst) (jobs_of st))))"

definition requeue :: "string \<Rightarrow> bstate \<Rightarrow> bstate" where
  "requeue i st =
     (let n = Suc (b_sequence st) in
      update_job i (\<lambda>j. j\<lparr>j_phase := Queued, j_sequence := n\<rparr>) (st\<lparr>b_sequence := n\<rparr>))"

definition requeue_due :: "nat \<Rightarrow> bstate \<Rightarrow> bstate" where
  "requeue_due inst st = fold requeue (due inst st) st"

definition retry_delay :: "nat \<Rightarrow> bstate \<Rightarrow> nat" where
  "retry_delay inst st =
     (case map (\<lambda>j. j_ready j - inst) (filter (\<lambda>j. j_phase j = Retrying) (jobs_of st)) of
        [] \<Rightarrow> 300 * second
      | d # ds \<Rightarrow> fold min ds d)"

definition start_job :: "rat \<Rightarrow> job \<Rightarrow> job" where
  "start_job t j =
     j\<lparr>j_phase := Running, j_selection := None, j_promoted := False,
       j_started := (if j_started j = 0 then t else j_started j), j_updated := t,
       j_attempts := Suc (j_attempts j)\<rparr>"

datatype pick = Exit | Sleep nat | Picked string request nat

definition work_pick :: "rat \<Rightarrow> nat \<Rightarrow> bstate \<Rightarrow> bstate \<times> pick" where
  "work_pick t inst st =
     (if b_closed st then (st, Exit)
      else
        (let st1 = requeue_due inst st; delay = retry_delay inst st1 in
         case queue st1 of
           [] \<Rightarrow> (st1, Sleep delay)
         | j # _ \<Rightarrow> (update_job (j_id j) (start_job t) st1,
                    Picked (j_id j) (j_request j) (j_cancel j))))"

text \<open>Second: record the selected model, unless the job is gone or cancelled.\<close>

definition work_select ::
  "string \<Rightarrow> nat \<Rightarrow> selection \<Rightarrow> rat \<Rightarrow> bstate \<Rightarrow> failure + bstate" where
  "work_select i cancel sel t st =
     (case find_job i st of
        None \<Rightarrow> Inl Cancelled_run
      | Some j \<Rightarrow>
        if terminal j \<or> b_flags st cancel then Inl Cancelled_run
        else Inr (update_job i (\<lambda>j. j\<lparr>j_selection := Some sel, j_updated := t\<rparr>) st))"

text \<open>
  Between the second and the third, outside the lock, the runner infers; its answer is
  admitted only when it is bounded and the request's output schema accepts it.
\<close>

type_synonym answer = "failure + json \<times> json"
type_synonym outcome = "failure + (failure + json) \<times> json"

definition check_answer :: "request \<Rightarrow> answer \<Rightarrow> outcome" where
  "check_answer r a =
     (case a of
        Inl e \<Rightarrow> Inl e
      | Inr (v, usage) \<Rightarrow>
        Inr (if bounded_instance v \<and> req_validator r v then Inr v else Inl Invalid_output, usage))"

definition count_tokens :: "json \<Rightarrow> nat \<times> nat \<Rightarrow> nat \<times> nat" where
  "count_tokens usage tokens =
     ((case as_u64 (json_index usage ''input'') of
         Some n \<Rightarrow> sat_add64 (fst tokens) n | None \<Rightarrow> fst tokens),
      (case as_u64 (json_index usage ''output'') of
         Some n \<Rightarrow> sat_add64 (snd tokens) n | None \<Rightarrow> snd tokens))"

definition absorb_usage :: "json \<Rightarrow> job \<Rightarrow> job" where
  "absorb_usage usage j =
     j\<lparr>j_selection :=
         (case as_str (json_index usage ''model'') of
            Some m \<Rightarrow>
              if identifier_ok m then map_option (\<lambda>s. s\<lparr>sel_model := m\<rparr>) (j_selection j)
              else j_selection j
          | None \<Rightarrow> j_selection j),
       j_tokens := count_tokens usage (j_tokens j)\<rparr>"

definition count_failure :: "failure \<Rightarrow> job \<Rightarrow> job" where
  "count_failure code j =
     (if code = Invalid_output then j\<lparr>j_invalid := Suc (j_invalid j)\<rparr>
      else j\<lparr>j_transient := Suc (j_transient j)\<rparr>)"

definition gives_up :: "config \<Rightarrow> failure \<Rightarrow> job \<Rightarrow> bool" where
  "gives_up cfg code j \<longleftrightarrow>
     code = Isolation_failure \<or> code = Authentication_unavailable
     \<or> j_transient j > 2 \<or> j_invalid j \<ge> cfg_schema_attempts cfg"

definition backoff :: "config \<Rightarrow> nat \<Rightarrow> nat" where
  "backoff cfg transient = min (cfg_backoff cfg * 2 ^ min transient 5) (30 * second)"

text \<open>Third: account for the outcome. A job that vanished or ended meanwhile is left alone.\<close>

definition settle :: "config \<Rightarrow> string \<Rightarrow> failure + json \<Rightarrow> rat \<Rightarrow> nat \<Rightarrow> bstate \<Rightarrow> bstate" where
  "settle cfg i r t inst st =
     (case r of
        Inr v \<Rightarrow> finish i Succeeded None t (update_job i (\<lambda>j. j\<lparr>j_result := Some v\<rparr>) st)
      | Inl code \<Rightarrow>
        (let st1 = update_job i (count_failure code) st in
         case find_job i st1 of
           None \<Rightarrow> st1
         | Some j \<Rightarrow>
           if gives_up cfg code j then finish i Failed (Some code) t st1
           else update_job i (\<lambda>j. j\<lparr>j_phase := Retrying, j_updated := t,
                  j_ready := inst + backoff cfg (j_transient j)\<rparr>) st1))"

definition work_finish :: "config \<Rightarrow> string \<Rightarrow> outcome \<Rightarrow> rat \<Rightarrow> nat \<Rightarrow> bstate \<Rightarrow> bstate" where
  "work_finish cfg i outcome t inst st0 =
     (let st = st0\<lparr>b_activity := inst\<rparr> in
      case find_job i st of
        None \<Rightarrow> st
      | Some j \<Rightarrow>
        if terminal j then st
        else
          (case outcome of
             Inl e \<Rightarrow> settle cfg i (Inl e) t inst st
           | Inr (r, usage) \<Rightarrow> settle cfg i r t inst (update_job i (absorb_usage usage) st)))"

section \<open>The protocol\<close>

datatype reply =
    Reply_job metadata "json option"
  | Reply_jobs "metadata list"
  | Reply_configuration string
  | Reply_empty

definition allowed_fields :: "string \<Rightarrow> string list option" where
  "allowed_fields operation =
     (if operation = ''submit'' then Some [''op'', ''request'']
      else if operation = ''list'' \<or> operation = ''configuration'' then Some [''op'']
      else if operation \<in> {''status'', ''wait'', ''cancel'', ''retry'', ''next'', ''release''}
      then Some [''op'', ''id'', ''epoch'']
      else None)"

definition call_check :: "json \<Rightarrow> failure + string" where
  "call_check message =
     (case as_object message of
        None \<Rightarrow> Inl Invalid_input
      | Some m \<Rightarrow>
        (case as_str (json_index message ''op'') of
           None \<Rightarrow> Inl Invalid_input
         | Some operation \<Rightarrow>
           (case allowed_fields operation of
              None \<Rightarrow> Inl Invalid_input
            | Some allowed \<Rightarrow>
              if \<exists>k \<in> set (map fst m). k \<notin> set allowed then Inl Invalid_input
              else Inr operation)))"

definition revision_limit :: nat where
  "revision_limit = 8192"

definition same_item :: "request \<Rightarrow> string \<Rightarrow> request \<Rightarrow> bool" where
  "same_item r it s \<longleftrightarrow> consumer s = consumer r \<and> (case item s of Some (old, _) \<Rightarrow> old = it | None \<Rightarrow> False)"

text \<open>The watermark check of an item revision, and what accepting it does.\<close>

definition admit_item :: "request \<Rightarrow> rat \<Rightarrow> bstate \<Rightarrow> failure + bstate" where
  "admit_item r t st =
     (case item r of
        None \<Rightarrow> Inr st
      | Some (it, revision) \<Rightarrow>
        (let key = (consumer r, it) in
         if (case map_of (b_revisions st) key of Some w \<Rightarrow> w \<ge> revision | None \<Rightarrow> False)
         then Inl Superseded_revision
         else if map_of (b_revisions st) key = None \<and> length (b_revisions st) \<ge> revision_limit
         then Inl Capacity
         else Inr (finish_where (\<lambda>j. same_item r it (j_request j)) Superseded None t
                    (st\<lparr>b_revisions := AList.update key revision (b_revisions st)\<rparr>))))"

definition new_job :: "string \<Rightarrow> request \<Rightarrow> nat \<Rightarrow> nat \<Rightarrow> rat \<Rightarrow> nat \<Rightarrow> job" where
  "new_job uid r n flag t inst =
     \<lparr>j_request = r, j_sequence = n, j_id = uid, j_phase = Queued, j_created = t, j_updated = t,
      j_started = 0, j_attempts = 0, j_transient = 0, j_invalid = 0, j_tokens = (0, 0),
      j_selection = None, j_error = None, j_result = None, j_promoted = False, j_ready = inst,
      j_cancel = flag\<rparr>"

definition submit ::
  "config \<Rightarrow> request \<Rightarrow> string \<Rightarrow> rat \<Rightarrow> nat \<Rightarrow> bstate \<Rightarrow> (failure + reply option) \<times> bstate" where
  "submit cfg r uid t inst st =
     (if length (b_jobs st) \<ge> cfg_capacity cfg then (Inl Capacity, st)
      else
        (case admit_item r t st of
           Inl e \<Rightarrow> (Inl e, st)
         | Inr st1 \<Rightarrow>
           (let n = Suc (b_sequence st1); j = new_job uid r n (b_next_flag st1) t inst in
            (Inr (Some (Reply_job (metadata_of t (cfg_model cfg) j) None)),
             st1\<lparr>b_sequence := n, b_jobs := AList.update uid j (b_jobs st1),
                 b_flags := (b_flags st1)(b_next_flag st1 := False),
                 b_next_flag := Suc (b_next_flag st1)\<rparr>))))"

definition list_jobs :: "config \<Rightarrow> rat \<Rightarrow> bstate \<Rightarrow> reply option \<times> bstate" where
  "list_jobs cfg t st0 =
     (let st = st0\<lparr>b_retired := filter (\<lambda>m. t - m_updated m < 5) (b_retired st0)\<rparr>;
          running = sort_key j_sequence (filter (\<lambda>j. j_phase j \<in> {Running, Retrying}) (jobs_of st));
          ended = sort_key (\<lambda>j. (- j_updated j, - int (j_sequence j))) (filter terminal (jobs_of st))
      in (Some (Reply_jobs (map (metadata_of t (cfg_model cfg)) (running @ queue st @ ended)
            @ b_retired st)), st))"

definition retired_limit :: nat where
  "retired_limit = 128"

definition retire :: "metadata list \<Rightarrow> metadata \<Rightarrow> metadata list" where
  "retire ms m = (let ms' = ms @ [m] in if length ms' > retired_limit then tl ms' else ms')"

definition release :: "config \<Rightarrow> string \<Rightarrow> job \<Rightarrow> rat \<Rightarrow> bstate \<Rightarrow> bstate" where
  "release cfg i j t st =
     st\<lparr>b_jobs := AList.delete i (b_jobs st),
        b_retired := (if j_phase j \<noteq> Failed
          then retire (b_retired st) (metadata_of t (cfg_model cfg) j) else b_retired st)\<rparr>"

definition retry_job :: "nat \<Rightarrow> rat \<Rightarrow> job \<Rightarrow> job" where
  "retry_job flag t j =
     j\<lparr>j_phase := Queued, j_selection := None, j_transient := 0, j_invalid := 0, j_error := None,
       j_cancel := flag, j_updated := t\<rparr>"

definition promote :: "string \<Rightarrow> rat \<Rightarrow> bstate \<Rightarrow> bstate" where
  "promote i t st =
     update_job i (\<lambda>j. j\<lparr>j_promoted := True, j_updated := t\<rparr>)
       (st\<lparr>b_jobs := map (\<lambda>(k, j). (k, j\<lparr>j_promoted := False\<rparr>)) (b_jobs st)\<rparr>)"

definition refused :: "string \<Rightarrow> job \<Rightarrow> bool" where
  "refused operation j \<longleftrightarrow>
     (operation = ''cancel'' \<and> terminal j)
     \<or> (operation = ''retry'' \<and> j_phase j \<noteq> Failed)
     \<or> (operation = ''next'' \<and> j_phase j \<noteq> Queued)
     \<or> (operation = ''release'' \<and> \<not> terminal j)"

definition apply_op :: "string \<Rightarrow> string \<Rightarrow> rat \<Rightarrow> bstate \<Rightarrow> bstate" where
  "apply_op operation i t st =
     (if operation = ''cancel'' then finish i Cancelled None t st
      else if operation = ''retry'' then
        (update_job i (retry_job (b_next_flag st) t) st)
          \<lparr>b_flags := (b_flags st)(b_next_flag st := False), b_next_flag := Suc (b_next_flag st)\<rparr>
      else if operation = ''next'' then promote i t st
      else st)"

definition job_reply :: "config \<Rightarrow> string \<Rightarrow> string \<Rightarrow> rat \<Rightarrow> bstate \<Rightarrow> reply option" where
  "job_reply cfg operation i t st =
     map_option (\<lambda>j. Reply_job (metadata_of t (cfg_model cfg) j)
       (if j_phase j = Succeeded \<and> (operation = ''status'' \<or> operation = ''wait'')
        then j_result j else None)) (find_job i st)"

definition job_call ::
  "config \<Rightarrow> string \<Rightarrow> string \<Rightarrow> json \<Rightarrow> rat \<Rightarrow> bstate \<Rightarrow> (failure + reply option) \<times> bstate" where
  "job_call cfg epoch operation message t st =
     (if json_index message ''epoch'' \<noteq> JStr epoch then (Inl Broker_restarted, st)
      else
        (case as_str (json_index message ''id'') of
           None \<Rightarrow> (Inl Unknown_job, st)
         | Some i \<Rightarrow>
           (case find_job i st of
              None \<Rightarrow> (Inl Unknown_job, st)
            | Some j \<Rightarrow>
              if operation = ''wait'' \<and> \<not> terminal j then (Inr None, st)
              else if refused operation j then (Inl Invalid_state, st)
              else if operation = ''release'' then (Inr (Some Reply_empty), release cfg i j t st)
              else
                (let st1 = apply_op operation i t st in
                 (Inr (job_reply cfg operation i t st1), st1)))))"

text \<open>
  One pass of the loop of \<open>call\<close>: an answer \<open>Inr None\<close> means that the caller waits for the
  next change and repeats the pass. \<open>validated\<close> is the compiled request of a submission,
  produced before the lock is taken.
\<close>

definition call_pass ::
  "config \<Rightarrow> string \<Rightarrow> string \<Rightarrow> json \<Rightarrow> request option \<Rightarrow> string \<Rightarrow> rat \<Rightarrow> nat \<Rightarrow> bstate
     \<Rightarrow> (failure + reply option) \<times> bstate" where
  "call_pass cfg epoch operation message validated uid t inst st0 =
     (let st = st0\<lparr>b_activity := inst\<rparr> in
      if b_closed st then (Inl Broker_unavailable, st)
      else
        (case validated of
           Some r \<Rightarrow> submit cfg r uid t inst st
         | None \<Rightarrow>
           if operation = ''list'' then (let (r, st1) = list_jobs cfg t st in (Inr r, st1))
           else job_call cfg epoch operation message t st))"

definition call ::
  "config \<Rightarrow> compiler \<Rightarrow> sizer \<Rightarrow> string \<Rightarrow> json \<Rightarrow> string \<Rightarrow> rat \<Rightarrow> nat \<Rightarrow> bstate
     \<Rightarrow> (failure + reply option) \<times> bstate" where
  "call cfg compile size_of epoch message uid t inst st =
     (case call_check message of
        Inl e \<Rightarrow> (Inl e, st)
      | Inr operation \<Rightarrow>
        if operation = ''configuration'' then (Inr (Some (Reply_configuration (cfg_model cfg))), st)
        else if operation = ''submit'' then
          (case request_of compile size_of (json_index message ''request'') of
             Inl e \<Rightarrow> (Inl e, st)
           | Inr r \<Rightarrow> call_pass cfg epoch operation message (Some r) uid t inst st)
        else call_pass cfg epoch operation message None uid t inst st)"

lemmas [broker_defs] = update_job_def find_job_def jobs_of_def finish_job_def

end
