(* ===== verification/Broker_Safety.thy ===== *)
theory Broker_Safety
  imports Broker_Lifecycle
begin

text \<open>
  The broker as a concurrent system: the state behind the mutex together with the workers
  that are outside it with a picked job (\<open>flight\<close>), stepping by whole critical sections in
  any order. The invariant of the job table is stated in parts, each part is preserved by
  the primitive updates, and the system's invariant follows for every reachable state.
\<close>

section \<open>The system\<close>

record flight =
  f_id :: string
  f_request :: request
  f_cancel :: nat

record system =
  s_state :: bstate
  s_flights :: "flight list"

record environment =
  e_config :: config
  e_compile :: compiler
  e_size :: sizer
  e_epoch :: string

text \<open>
  Steps. A worker that is free picks or sleeps; one with a job records the selection, and
  later reports the runner's answer; a client call runs one pass (a version-4 UUID is new to
  the table and to the workers); the server closes the broker and, once no worker is left,
  clears it.
\<close>

inductive broker_step :: "environment \<Rightarrow> system \<Rightarrow> system \<Rightarrow> bool" for env where
  pick: "work_pick t inst (s_state s) = (st', Picked i r c)
     \<Longrightarrow> length (s_flights s) < worker_count (e_config env)
     \<Longrightarrow> broker_step env s \<lparr>s_state = st', s_flights = \<lparr>f_id = i, f_request = r, f_cancel = c\<rparr> # s_flights s\<rparr>"
| sleep: "work_pick t inst (s_state s) = (st', Sleep d)
     \<Longrightarrow> broker_step env s (s\<lparr>s_state := st'\<rparr>)"
| select: "f \<in> set (s_flights s)
     \<Longrightarrow> work_select (f_id f) (f_cancel f) sel t (s_state s) = Inr st'
     \<Longrightarrow> broker_step env s (s\<lparr>s_state := st'\<rparr>)"
| report: "f \<in> set (s_flights s)
     \<Longrightarrow> st' = work_finish (e_config env) (f_id f) (check_answer (f_request f) a) t inst (s_state s)
     \<Longrightarrow> broker_step env s \<lparr>s_state = st', s_flights = remove1 f (s_flights s)\<rparr>"
| client: "uid \<notin> fst ` set (b_jobs (s_state s)) \<Longrightarrow> uid \<notin> f_id ` set (s_flights s)
     \<Longrightarrow> call (e_config env) (e_compile env) (e_size env) (e_epoch env) message uid t inst (s_state s)
           = (answer, st')
     \<Longrightarrow> broker_step env s (s\<lparr>s_state := st'\<rparr>)"
| shutdown: "broker_step env s (s\<lparr>s_state := close t (s_state s)\<rparr>)"
| erase: "b_closed (s_state s) \<Longrightarrow> s_flights s = []
     \<Longrightarrow> broker_step env s (s\<lparr>s_state := clear (s_state s)\<rparr>)"

definition initial :: "system \<Rightarrow> bool" where
  "initial s \<longleftrightarrow> (\<exists>inst. s = \<lparr>s_state = new_broker inst, s_flights = []\<rparr>)"

section \<open>The invariant of the job table\<close>

definition ids_ok :: "bstate \<Rightarrow> bool" where
  "ids_ok st \<longleftrightarrow> b_jobs st = map (\<lambda>j. (j_id j, j)) (jobs_of st) \<and> distinct (map j_id (jobs_of st))"

definition seq_ok :: "bstate \<Rightarrow> bool" where
  "seq_ok st \<longleftrightarrow> distinct (map j_sequence (jobs_of st))
     \<and> (\<forall>j \<in> set (jobs_of st). j_sequence j \<le> b_sequence st)"

definition flag_ok :: "bstate \<Rightarrow> bool" where
  "flag_ok st \<longleftrightarrow> distinct (map j_cancel (jobs_of st))
     \<and> (\<forall>j \<in> set (jobs_of st). j_cancel j < b_next_flag st \<and> (\<not> terminal j \<longrightarrow> \<not> b_flags st (j_cancel j)))"

definition promo_ok :: "bstate \<Rightarrow> bool" where
  "promo_ok st \<longleftrightarrow> (\<forall>j \<in> set (jobs_of st). \<forall>j' \<in> set (jobs_of st).
     j_promoted j \<and> j_promoted j' \<longrightarrow> j_id j = j_id j')"

text \<open>
  Per job: exactly the succeeded jobs hold a result, a result is bounded and accepted by the
  request's own output schema, and a live job has not used up its retries.
\<close>

definition job_ok :: "config \<Rightarrow> job \<Rightarrow> bool" where
  "job_ok cfg j \<longleftrightarrow> wf_request (j_request j)
     \<and> (j_result j \<noteq> None \<longleftrightarrow> j_phase j = Succeeded)
     \<and> (\<forall>v. j_result j = Some v \<longrightarrow> bounded_instance v \<and> req_validator (j_request j) v)
     \<and> (\<not> terminal j \<longrightarrow> j_transient j \<le> 2
          \<and> (j_invalid j = 0 \<or> j_invalid j < cfg_schema_attempts cfg))"

definition jobs_ok :: "config \<Rightarrow> bstate \<Rightarrow> bool" where
  "jobs_ok cfg st \<longleftrightarrow> (\<forall>j \<in> set (jobs_of st). job_ok cfg j)"

definition bounds_ok :: "config \<Rightarrow> bstate \<Rightarrow> bool" where
  "bounds_ok cfg st \<longleftrightarrow> length (b_jobs st) \<le> cfg_capacity cfg
     \<and> length (b_retired st) \<le> retired_limit
     \<and> length (b_revisions st) \<le> revision_limit \<and> keys_distinct (b_revisions st)"

text \<open>
  Item revisions: every job is at or below its item's watermark, and the jobs of one item
  that are not superseded are at the watermark, so there is at most one of them.
\<close>

definition watermark :: "bstate \<Rightarrow> request \<Rightarrow> nat option" where
  "watermark st r = (case item r of None \<Rightarrow> None | Some (it, _) \<Rightarrow> map_of (b_revisions st) (consumer r, it))"

definition rev_ok :: "bstate \<Rightarrow> bool" where
  "rev_ok st \<longleftrightarrow>
     (\<forall>j \<in> set (jobs_of st). \<forall>it n. item (j_request j) = Some (it, n) \<longrightarrow>
        (\<exists>w. map_of (b_revisions st) (consumer (j_request j), it) = Some w \<and> n \<le> w
           \<and> (j_phase j \<noteq> Superseded \<longrightarrow> n = w)))
     \<and> (\<forall>j \<in> set (jobs_of st). \<forall>j' \<in> set (jobs_of st). \<forall>it n.
        item (j_request j) = Some (it, n) \<and> same_item (j_request j) it (j_request j')
        \<and> j_phase j \<noteq> Superseded \<and> j_phase j' \<noteq> Superseded \<longrightarrow> j_id j = j_id j')"

definition table_ok :: "config \<Rightarrow> bstate \<Rightarrow> bool" where
  "table_ok cfg st \<longleftrightarrow> ids_ok st \<and> seq_ok st \<and> flag_ok st \<and> promo_ok st \<and> jobs_ok cfg st
     \<and> bounds_ok cfg st \<and> rev_ok st"

lemmas table_defs = table_ok_def ids_ok_def seq_ok_def flag_ok_def promo_ok_def jobs_ok_def
  bounds_ok_def rev_ok_def

text \<open>
  Workers: at most the configured number; a worker's job is gone, running with the worker's
  own request and flag, or already ended by a cancellation or a newer revision; every running
  job has its worker.
\<close>

definition flight_ok :: "bstate \<Rightarrow> flight \<Rightarrow> bool" where
  "flight_ok st f \<longleftrightarrow> (\<forall>j. find_job (f_id f) st = Some j \<longrightarrow>
     j_phase j = Running \<and> j_request j = f_request f \<and> j_cancel j = f_cancel f
     \<or> j_phase j = Cancelled \<or> j_phase j = Superseded)"

definition flights_ok :: "config \<Rightarrow> system \<Rightarrow> bool" where
  "flights_ok cfg s \<longleftrightarrow> distinct (map f_id (s_flights s))
     \<and> length (s_flights s) \<le> worker_count cfg
     \<and> (\<forall>f \<in> set (s_flights s). flight_ok (s_state s) f)
     \<and> (\<forall>j \<in> set (jobs_of (s_state s)). j_phase j = Running \<longrightarrow> j_id j \<in> f_id ` set (s_flights s))"

definition broker_inv :: "environment \<Rightarrow> system \<Rightarrow> bool" where
  "broker_inv env s \<longleftrightarrow> table_ok (e_config env) (s_state s) \<and> flights_ok (e_config env) s"

section \<open>Primitive updates\<close>

lemma ids_ok_keys: "ids_ok st \<Longrightarrow> map fst (b_jobs st) = map j_id (jobs_of st)"
proof -
  assume "ids_ok st"
  then have "map fst (b_jobs st) = map fst (map (\<lambda>j. (j_id j, j)) (jobs_of st))"
    by (simp only: ids_ok_def)
  then show ?thesis by (simp add: comp_def)
qed

lemma ids_ok_distinct: "ids_ok st \<Longrightarrow> keys_distinct (b_jobs st)"
  unfolding ids_ok_keys by (simp add: ids_ok_def)

lemma find_job_Some:
  assumes "ids_ok st"
  shows "find_job i st = Some j \<longleftrightarrow> j \<in> set (jobs_of st) \<and> j_id j = i"
proof -
  have "find_job i st = Some j \<longleftrightarrow> (i, j) \<in> set (b_jobs st)"
    using assms by (simp add: find_job_def ids_ok_distinct)
  also have "\<dots> \<longleftrightarrow> (i, j) \<in> set (map (\<lambda>j. (j_id j, j)) (jobs_of st))"
    using assms by (simp add: ids_ok_def)
  finally show ?thesis by auto
qed

lemma find_job_None: "ids_ok st \<Longrightarrow> find_job i st = None \<longleftrightarrow> i \<notin> j_id ` set (jobs_of st)"
  by (auto simp: find_job_Some image_iff simp flip: not_Some_eq)

lemma ids_ok_unique:
  "ids_ok st \<Longrightarrow> j \<in> set (jobs_of st) \<Longrightarrow> j' \<in> set (jobs_of st) \<Longrightarrow> j_id j = j_id j' \<Longrightarrow> j = j'"
  by (auto simp: ids_ok_def distinct_map inj_on_def)

text \<open>Every update of jobs in place is a map over the table that keeps identities.\<close>

definition map_jobs :: "(job \<Rightarrow> job) \<Rightarrow> bstate \<Rightarrow> bstate" where
  "map_jobs g st = st\<lparr>b_jobs := map (\<lambda>(k, j). (k, g j)) (b_jobs st)\<rparr>"

definition on_id :: "string \<Rightarrow> (job \<Rightarrow> job) \<Rightarrow> job \<Rightarrow> job" where
  "on_id i f j = (if j_id j = i then f j else j)"

lemma jobs_of_map_jobs [simp]: "jobs_of (map_jobs g st) = map g (jobs_of st)"
  by (simp add: map_jobs_def jobs_of_def comp_def split_def)

lemma map_jobs_frame [simp]:
  "b_retired (map_jobs g st) = b_retired st" "b_revisions (map_jobs g st) = b_revisions st"
  "b_sequence (map_jobs g st) = b_sequence st" "b_flags (map_jobs g st) = b_flags st"
  "b_next_flag (map_jobs g st) = b_next_flag st" "b_closed (map_jobs g st) = b_closed st"
  "b_activity (map_jobs g st) = b_activity st"
  "length (b_jobs (map_jobs g st)) = length (b_jobs st)"
  by (simp_all add: map_jobs_def)

lemma update_job_eq: "ids_ok st \<Longrightarrow> update_job i f st = map_jobs (on_id i f) st"
proof -
  assume ok: "ids_ok st"
  have "(case p of (k, j) \<Rightarrow> (k, if k = i then f j else j)) = (case p of (k, j) \<Rightarrow> (k, on_id i f j))"
    if "p \<in> set (b_jobs st)" for p
    using that ok by (auto simp: ids_ok_def on_id_def)
  then show ?thesis by (simp add: update_job_def map_jobs_def)
qed

lemma finish_where_eq:
  "finish_where p ph e t st =
     (map_jobs (\<lambda>j. if p j then finish_job ph e t j else j) st)
       \<lparr>b_flags := (\<lambda>a. b_flags st a \<or> (\<exists>j \<in> set (jobs_of st). p j \<and> j_cancel j = a))\<rparr>"
  by (simp add: finish_where_def map_jobs_def)

lemma jobs_of_fields [simp]:
  "jobs_of (st\<lparr>b_flags := a\<rparr>) = jobs_of st" "jobs_of (st\<lparr>b_next_flag := b\<rparr>) = jobs_of st"
  "jobs_of (st\<lparr>b_sequence := c\<rparr>) = jobs_of st" "jobs_of (st\<lparr>b_activity := d\<rparr>) = jobs_of st"
  "jobs_of (st\<lparr>b_closed := e\<rparr>) = jobs_of st" "jobs_of (st\<lparr>b_retired := f\<rparr>) = jobs_of st"
  "jobs_of (st\<lparr>b_revisions := g\<rparr>) = jobs_of st"
  by (simp_all add: jobs_of_def)

lemma ids_ok_fields [simp]:
  "ids_ok (st\<lparr>b_flags := a\<rparr>) = ids_ok st" "ids_ok (st\<lparr>b_next_flag := b\<rparr>) = ids_ok st"
  "ids_ok (st\<lparr>b_sequence := c\<rparr>) = ids_ok st" "ids_ok (st\<lparr>b_activity := d\<rparr>) = ids_ok st"
  "ids_ok (st\<lparr>b_closed := e\<rparr>) = ids_ok st" "ids_ok (st\<lparr>b_retired := f\<rparr>) = ids_ok st"
  "ids_ok (st\<lparr>b_revisions := g\<rparr>) = ids_ok st"
  by (simp_all add: ids_ok_def)

lemma promo_ok_fields [simp]:
  "promo_ok (st\<lparr>b_flags := a\<rparr>) = promo_ok st" "promo_ok (st\<lparr>b_next_flag := b\<rparr>) = promo_ok st"
  "promo_ok (st\<lparr>b_sequence := c\<rparr>) = promo_ok st" "promo_ok (st\<lparr>b_activity := d\<rparr>) = promo_ok st"
  "promo_ok (st\<lparr>b_closed := e\<rparr>) = promo_ok st" "promo_ok (st\<lparr>b_retired := f\<rparr>) = promo_ok st"
  "promo_ok (st\<lparr>b_revisions := g\<rparr>) = promo_ok st"
  by (simp_all add: promo_ok_def)

lemma rev_ok_fields [simp]:
  "rev_ok (st\<lparr>b_flags := a\<rparr>) = rev_ok st" "rev_ok (st\<lparr>b_next_flag := b\<rparr>) = rev_ok st"
  "rev_ok (st\<lparr>b_sequence := c\<rparr>) = rev_ok st" "rev_ok (st\<lparr>b_activity := d\<rparr>) = rev_ok st"
  "rev_ok (st\<lparr>b_closed := e\<rparr>) = rev_ok st" "rev_ok (st\<lparr>b_retired := f\<rparr>) = rev_ok st"
  by (simp_all add: rev_ok_def)

lemma find_job_fields [simp]:
  "find_job i (st\<lparr>b_flags := a\<rparr>) = find_job i st" "find_job i (st\<lparr>b_next_flag := b\<rparr>) = find_job i st"
  "find_job i (st\<lparr>b_sequence := c\<rparr>) = find_job i st" "find_job i (st\<lparr>b_activity := d\<rparr>) = find_job i st"
  "find_job i (st\<lparr>b_closed := e\<rparr>) = find_job i st" "find_job i (st\<lparr>b_retired := f\<rparr>) = find_job i st"
  "find_job i (st\<lparr>b_revisions := g\<rparr>) = find_job i st"
  by (simp_all add: find_job_def)

definition keeps_id :: "(job \<Rightarrow> job) \<Rightarrow> bool" where
  "keeps_id g \<longleftrightarrow> (\<forall>j. j_id (g j) = j_id j \<and> j_request (g j) = j_request j)"

lemma keeps_idD: "keeps_id g \<Longrightarrow> j_id (g j) = j_id j" "keeps_id g \<Longrightarrow> j_request (g j) = j_request j"
  by (auto simp: keeps_id_def)

lemma ids_ok_map_jobs: "keeps_id g \<Longrightarrow> ids_ok st \<Longrightarrow> ids_ok (map_jobs g st)"
proof -
  assume g: "keeps_id g" and ok: "ids_ok st"
  from ok have b: "b_jobs st = map (\<lambda>j. (j_id j, j)) (jobs_of st)" by (simp add: ids_ok_def)
  have "b_jobs (map_jobs g st) = map (\<lambda>(k, j). (k, g j)) (b_jobs st)" by (simp add: map_jobs_def)
  also have "\<dots> = map (\<lambda>j. (j_id j, j)) (map g (jobs_of st))"
    using g by (subst b) (simp add: comp_def keeps_idD)
  finally show ?thesis using g ok by (simp add: ids_ok_def comp_def keeps_idD)
qed

lemma find_job_map_jobs: "keeps_id g \<Longrightarrow> ids_ok st \<Longrightarrow> find_job i (map_jobs g st) = map_option g (find_job i st)"
  by (simp add: find_job_def map_jobs_def map_of_map)

lemma map_jobs_map_jobs: "map_jobs g (map_jobs f st) = map_jobs (\<lambda>j. g (f j)) st"
  by (simp add: map_jobs_def comp_def split_def)

lemma on_id_compose: "keeps_id f \<Longrightarrow> on_id i g (on_id i f j) = on_id i (\<lambda>j. g (f j)) j"
  by (simp add: on_id_def keeps_idD)

lemma keeps_on_id: "keeps_id f \<Longrightarrow> keeps_id (on_id i f)"
  by (simp add: keeps_id_def on_id_def)

lemma keeps_id_steps [simp]:
  "keeps_id (finish_job ph e t)" "keeps_id (start_job t)" "keeps_id (absorb_usage u)"
  "keeps_id (count_failure c)" "keeps_id (retry_job n t)"
  by (simp_all add: keeps_id_def finish_job_def start_job_def absorb_usage_def count_failure_def
      retry_job_def)

section \<open>Preservation of the table invariant\<close>

text \<open>
  The parts of the invariant that any in-place update keeps, as long as it does not bring a
  superseded job back; the remaining parts depend on the fields it assigns.
\<close>

lemma table_ok_map:
  assumes ok: "table_ok cfg st" and g: "keeps_id g"
    and st': "b_jobs st' = b_jobs (map_jobs g st)" "b_retired st' = b_retired st"
      "b_revisions st' = b_revisions st"
    and parts: "seq_ok st'" "flag_ok st'" "promo_ok st'"
    and job: "\<And>j. j \<in> set (jobs_of st) \<Longrightarrow> job_ok cfg (g j)"
    and sup: "\<And>j. j \<in> set (jobs_of st) \<Longrightarrow> j_phase (g j) \<noteq> Superseded \<Longrightarrow> j_phase j \<noteq> Superseded"
  shows "table_ok cfg st'"
proof -
  have jobs: "jobs_of st' = map g (jobs_of st)"
    using st' by (simp add: jobs_of_def map_jobs_def comp_def split_def)
  have "ids_ok st'"
    using ids_ok_map_jobs [OF g, of st] ok jobs st' by (simp add: table_ok_def ids_ok_def)
  moreover have "jobs_ok cfg st'"
    using job jobs by (simp add: jobs_ok_def)
  moreover have "bounds_ok cfg st'"
    using ok st' by (simp add: table_ok_def bounds_ok_def)
  moreover have "rev_ok st'"
  proof -
    have r: "rev_ok st" using ok by (simp add: table_ok_def)
    have "\<forall>j \<in> set (jobs_of st). j_phase (g j) \<noteq> Superseded \<longrightarrow> j_phase j \<noteq> Superseded" using sup by blast
    then show ?thesis using r st'(3)
      unfolding rev_ok_def jobs set_map ball_simps keeps_idD [OF g] by simp blast
  qed
  ultimately show ?thesis using parts by (simp add: table_ok_def)
qed

lemma jobs_of_map_eq: "b_jobs st' = b_jobs (map_jobs g st) \<Longrightarrow> jobs_of st' = map g (jobs_of st)"
  by (simp add: jobs_of_def map_jobs_def comp_def split_def)

lemma promo_ok_map:
  assumes "promo_ok st" "keeps_id g" "jobs_of st' = map g (jobs_of st)"
    and pro: "\<And>j. j \<in> set (jobs_of st) \<Longrightarrow> j_promoted (g j) \<Longrightarrow> j_promoted j"
  shows "promo_ok st'"
proof -
  have "j_id (g j) = j_id (g j')"
    if "j \<in> set (jobs_of st)" "j' \<in> set (jobs_of st)" "j_promoted (g j)" "j_promoted (g j')" for j j'
    using that pro assms(1) unfolding keeps_idD [OF assms(2)] promo_ok_def by blast
  then show ?thesis unfolding promo_ok_def assms(3) set_map ball_simps by blast
qed

text \<open>
  One lemma covers every in-place update that keeps sequences and flags' addresses: the
  worker's transitions, cancellation, completion and supersession.
\<close>

lemma table_ok_update:
  assumes ok: "table_ok cfg st" and g: "keeps_id g"
    and seq: "\<And>j. j \<in> set (jobs_of st) \<Longrightarrow> j_sequence (g j) = j_sequence j"
    and can: "\<And>j. j \<in> set (jobs_of st) \<Longrightarrow> j_cancel (g j) = j_cancel j"
    and pro: "\<And>j. j \<in> set (jobs_of st) \<Longrightarrow> j_promoted (g j) \<Longrightarrow> j_promoted j"
    and job: "\<And>j. j \<in> set (jobs_of st) \<Longrightarrow> job_ok cfg (g j)"
    and sup: "\<And>j. j \<in> set (jobs_of st) \<Longrightarrow> j_phase (g j) \<noteq> Superseded \<Longrightarrow> j_phase j \<noteq> Superseded"
    and fla: "\<And>j. j \<in> set (jobs_of st) \<Longrightarrow> \<not> terminal (g j) \<Longrightarrow> \<not> fl (j_cancel j)"
  shows "table_ok cfg ((map_jobs g st)\<lparr>b_flags := fl\<rparr>)"
proof (rule table_ok_map [OF ok g])
  let ?st = "(map_jobs g st)\<lparr>b_flags := fl\<rparr>"
  have s: "map (j_sequence \<circ> g) (jobs_of st) = map j_sequence (jobs_of st)"
    and c: "map (j_cancel \<circ> g) (jobs_of st) = map j_cancel (jobs_of st)"
    using seq can by simp_all
  have "distinct (map (j_sequence \<circ> g) (jobs_of st))" "distinct (map (j_cancel \<circ> g) (jobs_of st))"
    unfolding s c using ok by (simp_all add: table_ok_def seq_ok_def flag_ok_def)
  moreover have "\<forall>j \<in> set (jobs_of st). j_sequence (g j) \<le> b_sequence st"
    using ok seq by (simp add: table_ok_def seq_ok_def)
  moreover have "\<forall>j \<in> set (jobs_of st). j_cancel (g j) < b_next_flag st
      \<and> (\<not> terminal (g j) \<longrightarrow> \<not> fl (j_cancel (g j)))"
    using ok can fla by (simp add: table_ok_def flag_ok_def)
  ultimately show "seq_ok ?st" "flag_ok ?st"
    by (simp_all add: seq_ok_def flag_ok_def)
  show "promo_ok ?st"
    by (rule promo_ok_map [OF _ g _ pro]) (use ok in \<open>simp_all add: table_ok_def\<close>)
qed (simp_all add: job sup)

lemma table_ok_activity [simp]: "table_ok cfg (st\<lparr>b_activity := d\<rparr>) = table_ok cfg st"
  by (simp add: table_defs)

lemma table_ok_closed [simp]: "table_ok cfg (st\<lparr>b_closed := d\<rparr>) = table_ok cfg st"
  by (simp add: table_defs)

lemma map_jobs_id [simp]: "(map_jobs g st)\<lparr>b_flags := b_flags st\<rparr> = map_jobs g st"
  by (simp add: map_jobs_def)

lemma table_okD:
  assumes "table_ok cfg st"
  shows "ids_ok st" "seq_ok st" "flag_ok st" "promo_ok st" "jobs_ok cfg st" "bounds_ok cfg st" "rev_ok st"
  using assms by (simp_all add: table_ok_def)

text \<open>Updating one job with a function that keeps its addresses and does not revive it.\<close>

lemma table_ok_update_one:
  assumes ok: "table_ok cfg st" and f: "keeps_id f" and j: "find_job i st = Some j"
    and one: "j_sequence (f j) = j_sequence j" "j_cancel (f j) = j_cancel j"
      "j_promoted (f j) \<Longrightarrow> j_promoted j" "job_ok cfg (f j)"
      "j_phase (f j) \<noteq> Superseded \<Longrightarrow> j_phase j \<noteq> Superseded"
      "\<not> terminal (f j) \<Longrightarrow> \<not> terminal j"
    and fl: "fl = b_flags st \<or> (fl = (b_flags st)(j_cancel j := True) \<and> terminal (f j))"
  shows "table_ok cfg ((map_jobs (on_id i f) st)\<lparr>b_flags := fl\<rparr>)"
proof (rule table_ok_update [OF ok])
  note ids = table_okD(1) [OF ok]
  have jj: "x = j" if "x \<in> set (jobs_of st)" "j_id x = i" for x
    using that j ids by (metis find_job_Some option.inject)
  have live: "\<not> b_flags st (j_cancel x)" if "x \<in> set (jobs_of st)" "\<not> terminal x" for x
    using that table_okD(3) [OF ok] by (auto simp: flag_ok_def)
  have inj: "x = j" if "x \<in> set (jobs_of st)" "j_cancel x = j_cancel j" for x
    using that table_okD(3) [OF ok] j ids
    by (auto simp: flag_ok_def distinct_map inj_on_def find_job_Some)
  show "keeps_id (on_id i f)" by (rule keeps_on_id [OF f])
  fix x assume x: "x \<in> set (jobs_of st)"
  show "j_sequence (on_id i f x) = j_sequence x" using jj [OF x] one by (auto simp: on_id_def)
  show "j_cancel (on_id i f x) = j_cancel x" using jj [OF x] one by (auto simp: on_id_def)
  show "j_promoted x" if "j_promoted (on_id i f x)"
    using that jj [OF x] one by (auto simp: on_id_def split: if_splits)
  show "job_ok cfg (on_id i f x)"
    using jj [OF x] one table_okD(5) [OF ok] x by (auto simp: on_id_def jobs_ok_def)
  show "j_phase x \<noteq> Superseded" if "j_phase (on_id i f x) \<noteq> Superseded"
    using that jj [OF x] one by (auto simp: on_id_def split: if_splits)
  show "\<not> fl (j_cancel x)" if "\<not> terminal (on_id i f x)"
    using that fl jj [OF x] inj [OF x] live [OF x] one j ids
    by (auto simp: on_id_def find_job_Some split: if_splits)
qed

end
