(* ===== verification/Broker_Steps.thy ===== *)
theory Broker_Steps
  imports Broker_Safety
begin

text \<open>
  Every step of the broker preserves its invariant. The worker's last critical section is
  first shown to be one function of the job (\<open>outcome_job\<close>); then each operation preserves
  the table (\<open>table_ok\<close>) and disturbs no worker (\<open>calm\<close>).
\<close>

section \<open>The worker's accounting as a function of the job\<close>

definition settle_job :: "config \<Rightarrow> failure + json \<Rightarrow> rat \<Rightarrow> nat \<Rightarrow> job \<Rightarrow> job" where
  "settle_job cfg r t inst j =
     (case r of
        Inr v \<Rightarrow> finish_job Succeeded None t (j\<lparr>j_result := Some v\<rparr>)
      | Inl code \<Rightarrow>
        (let j1 = count_failure code j in
         if gives_up cfg code j1 then finish_job Failed (Some code) t j1
         else j1\<lparr>j_phase := Retrying, j_updated := t, j_ready := inst + backoff cfg (j_transient j1)\<rparr>))"

definition outcome_job :: "config \<Rightarrow> outcome \<Rightarrow> rat \<Rightarrow> nat \<Rightarrow> job \<Rightarrow> job" where
  "outcome_job cfg out t inst j =
     (case out of Inl e \<Rightarrow> settle_job cfg (Inl e) t inst j
      | Inr (r, usage) \<Rightarrow> settle_job cfg r t inst (absorb_usage usage j))"

lemma count_failure_cancel: "j_cancel (count_failure code j) = j_cancel j"
  by (simp add: count_failure_def)

lemma map_jobs_only:
  assumes ok: "ids_ok st" and j: "find_job i st = Some j" and eq: "f j = g j"
  shows "map_jobs (on_id i f) st = map_jobs (on_id i g) st"
proof -
  have "on_id i f x = on_id i g x" if "x \<in> set (jobs_of st)" for x
    using that ok j eq find_job_Some [OF ok, of i j] ids_ok_unique [OF ok, of x j]
    by (auto simp: on_id_def)
  then have "map (\<lambda>(k, x). (k, on_id i f x)) (b_jobs st) = map (\<lambda>(k, x). (k, on_id i g x)) (b_jobs st)"
    by (simp add: jobs_of_def split_def)
  then show ?thesis by (simp add: map_jobs_def)
qed

lemma finish_map_jobs:
  assumes "ids_ok st" "keeps_id f" "find_job i st = Some j"
  shows "finish i ph e t (map_jobs (on_id i f) st)
    = (map_jobs (on_id i (\<lambda>j. finish_job ph e t (f j))) st)\<lparr>b_flags := (b_flags st)(j_cancel (f j) := True)\<rparr>"
proof -
  have ok: "ids_ok (map_jobs (on_id i f) st)"
    by (rule ids_ok_map_jobs [OF keeps_on_id [OF assms(2)] assms(1)])
  have j: "j_id j = i" using assms find_job_Some by blast
  show ?thesis
    using assms ok j
    by (simp add: finish_def find_job_map_jobs keeps_on_id update_job_eq map_jobs_map_jobs
        on_id_compose) (simp add: on_id_def [abs_def])
qed

lemma settle_eq:
  assumes ok: "ids_ok st" and j: "find_job i st = Some j"
  shows "settle cfg i r t inst st =
    (map_jobs (on_id i (settle_job cfg r t inst)) st)
      \<lparr>b_flags := if terminal (settle_job cfg r t inst j) then (b_flags st)(j_cancel j := True) else b_flags st\<rparr>"
proof (cases r)
  case (Inr v)
  have k: "keeps_id (\<lambda>j. j\<lparr>j_result := Some v\<rparr>)" by (simp add: keeps_id_def)
  have *: "settle_job cfg r t inst = (\<lambda>j. finish_job Succeeded None t (j\<lparr>j_result := Some v\<rparr>))"
    by (simp add: Inr settle_job_def fun_eq_iff)
  have "terminal (settle_job cfg r t inst j)"
    by (simp add: * terminal_def finish_job_def)
  then show ?thesis
    unfolding settle_def Inr sum.case update_job_eq [OF ok] finish_map_jobs [OF ok k j]
    using * Inr by simp
next
  case (Inl code)
  let ?j = "count_failure code j"
  have k: "keeps_id (count_failure code)" by simp
  have id: "j_id j = i" using ok j find_job_Some by blast
  have ok1: "ids_ok (map_jobs (on_id i (count_failure code)) st)"
    by (rule ids_ok_map_jobs [OF keeps_on_id [OF k] ok])
  have find: "find_job i (map_jobs (on_id i (count_failure code)) st) = Some ?j"
    using j id by (simp add: find_job_map_jobs [OF keeps_on_id [OF k] ok] on_id_def)
  show ?thesis
  proof (cases "gives_up cfg code ?j")
    case True
    have sj: "settle_job cfg r t inst j = finish_job Failed (Some code) t ?j"
      by (simp add: Inl True settle_job_def)
    then have ended: "terminal (settle_job cfg r t inst j)"
      by (simp add: terminal_def finish_job_def)
    have "settle cfg i r t inst st = finish i Failed (Some code) t (map_jobs (on_id i (count_failure code)) st)"
      by (simp add: Inl True settle_def update_job_eq ok find)
    also have "\<dots> = (map_jobs (on_id i (settle_job cfg r t inst)) st)\<lparr>b_flags := (b_flags st)(j_cancel j := True)\<rparr>"
      unfolding finish_map_jobs [OF ok k j] using sj map_jobs_only [OF ok j] by (metis count_failure_cancel)
    finally show ?thesis using ended by simp
  next
    case False
    let ?f = "\<lambda>j. j\<lparr>j_phase := Retrying, j_updated := t, j_ready := inst + backoff cfg (j_transient j)\<rparr>"
    have sj: "settle_job cfg r t inst j = ?f ?j"
      by (simp add: Inl False settle_job_def Let_def)
    have "settle cfg i r t inst st = map_jobs (on_id i (\<lambda>x. ?f (count_failure code x))) st"
      by (simp add: Inl False settle_def update_job_eq ok ok1 find map_jobs_map_jobs on_id_compose)
    also have "\<dots> = map_jobs (on_id i (settle_job cfg r t inst)) st"
      using sj by (intro map_jobs_only [OF ok j]) simp
    finally show ?thesis
      using sj by (simp add: terminal_def)
  qed
qed

definition ended_flags :: "job \<Rightarrow> job \<Rightarrow> bstate \<Rightarrow> nat \<Rightarrow> bool" where
  "ended_flags j' j st = (if terminal j' then (b_flags st)(j_cancel j := True) else b_flags st)"

text \<open>The worker's last critical section is one function of its job.\<close>

lemma work_finish_eq:
  assumes ok: "ids_ok st" and j: "find_job i st = Some j" and live: "\<not> terminal j"
  shows "work_finish cfg i out t inst st =
    (map_jobs (on_id i (outcome_job cfg out t inst)) st)
      \<lparr>b_activity := inst, b_flags := ended_flags (outcome_job cfg out t inst j) j st\<rparr>"
proof -
  let ?st = "st\<lparr>b_activity := inst\<rparr>"
  have ok1: "ids_ok ?st" and j1: "find_job i ?st = Some j" using ok j by simp_all
  have id: "j_id j = i" using ok j find_job_Some by blast
  show ?thesis
  proof (cases out)
    case (Inl e)
    have "outcome_job cfg out t inst = settle_job cfg (Inl e) t inst"
      by (simp add: Inl outcome_job_def fun_eq_iff)
    then show ?thesis
      using live settle_eq [OF ok1 j1, of cfg "Inl e" t inst]
      by (simp add: Inl work_finish_def j ended_flags_def map_jobs_def)
  next
    case (Inr p)
    obtain r usage where p: "p = (r, usage)" by (cases p)
    let ?st1 = "map_jobs (on_id i (absorb_usage usage)) ?st" and ?a = "absorb_usage usage j"
    have k: "keeps_id (absorb_usage usage)" by simp
    have ok2: "ids_ok ?st1" by (rule ids_ok_map_jobs [OF keeps_on_id [OF k] ok1])
    have j2: "find_job i ?st1 = Some ?a"
      using j1 id by (simp add: find_job_map_jobs [OF keeps_on_id [OF k] ok1] on_id_def)
    have eq: "outcome_job cfg out t inst = (\<lambda>j. settle_job cfg r t inst (absorb_usage usage j))"
      by (simp add: Inr p outcome_job_def fun_eq_iff)
    have "work_finish cfg i out t inst st = settle cfg i r t inst ?st1"
      using live by (simp add: Inr p work_finish_def j update_job_eq ok)
    also have "\<dots> = (map_jobs (on_id i (settle_job cfg r t inst)) ?st1)
        \<lparr>b_flags := ended_flags (settle_job cfg r t inst ?a) j st\<rparr>"
      using settle_eq [OF ok2 j2, of cfg r t inst] by (simp add: ended_flags_def absorb_usage_def)
    also have "map_jobs (on_id i (settle_job cfg r t inst)) ?st1
        = map_jobs (on_id i (outcome_job cfg out t inst)) ?st"
      by (simp add: map_jobs_map_jobs on_id_compose eq)
    finally show ?thesis by (simp add: eq map_jobs_def)
  qed
qed

lemma work_finish_skip:
  "(\<forall>j. find_job i st = Some j \<longrightarrow> terminal j) \<Longrightarrow> work_finish cfg i out t inst st = st\<lparr>b_activity := inst\<rparr>"
  by (simp add: work_finish_def Let_def split: option.splits)

section \<open>Jobs\<close>

lemmas job_steps = finish_job_def start_job_def absorb_usage_def count_failure_def retry_job_def
  terminal_def

lemma job_ok_cancel: "job_ok cfg j \<Longrightarrow> ph \<in> {Failed, Cancelled, Superseded} \<Longrightarrow> job_ok cfg (finish_job ph e t j)"
  by (auto simp: job_ok_def job_steps)

lemma job_ok_start: "job_ok cfg j \<Longrightarrow> j_phase j = Queued \<Longrightarrow> job_ok cfg (start_job t j)"
  by (auto simp: job_ok_def job_steps)

lemma job_ok_retry: "job_ok cfg j \<Longrightarrow> j_phase j = Failed \<Longrightarrow> job_ok cfg (retry_job n t j)"
  by (auto simp: job_ok_def job_steps)

lemma absorb_fields [simp]:
  "j_phase (absorb_usage u j) = j_phase j" "j_result (absorb_usage u j) = j_result j"
  "j_request (absorb_usage u j) = j_request j" "j_transient (absorb_usage u j) = j_transient j"
  "j_invalid (absorb_usage u j) = j_invalid j" "j_id (absorb_usage u j) = j_id j"
  "j_sequence (absorb_usage u j) = j_sequence j" "j_cancel (absorb_usage u j) = j_cancel j"
  "j_promoted (absorb_usage u j) = j_promoted j" "terminal (absorb_usage u j) = terminal j"
  by (simp_all add: absorb_usage_def terminal_def)

lemma settle_job_fields [simp]:
  "j_id (settle_job cfg r t inst j) = j_id j" "j_request (settle_job cfg r t inst j) = j_request j"
  "j_sequence (settle_job cfg r t inst j) = j_sequence j"
  "j_cancel (settle_job cfg r t inst j) = j_cancel j"
  "j_promoted (settle_job cfg r t inst j) = j_promoted j"
  by (auto simp: settle_job_def job_steps Let_def split: sum.splits)

lemma outcome_job_fields [simp]:
  "j_id (outcome_job cfg out t inst j) = j_id j" "j_request (outcome_job cfg out t inst j) = j_request j"
  "j_sequence (outcome_job cfg out t inst j) = j_sequence j"
  "j_cancel (outcome_job cfg out t inst j) = j_cancel j"
  "j_promoted (outcome_job cfg out t inst j) = j_promoted j"
  by (auto simp: outcome_job_def split: sum.splits)

lemma keeps_outcome_job [simp]: "keeps_id (outcome_job cfg out t inst)"
  by (simp add: keeps_id_def)

lemma settle_job_phase:
  "j_phase (settle_job cfg r t inst j) =
     (case r of Inr _ \<Rightarrow> Succeeded
      | Inl code \<Rightarrow> if gives_up cfg code (count_failure code j) then Failed else Retrying)"
  by (auto simp: settle_job_def job_steps Let_def split: sum.splits)

lemma outcome_job_phase: "j_phase (outcome_job cfg out t inst j) \<in> {Succeeded, Failed, Retrying}"
  by (auto simp: outcome_job_def settle_job_phase split: sum.splits)

lemma job_ok_settle:
  assumes "job_ok cfg j" "\<not> terminal j"
    and "\<And>v. r = Inr v \<Longrightarrow> bounded_instance v \<and> req_validator (j_request j) v"
  shows "job_ok cfg (settle_job cfg r t inst j)"
proof (cases r)
  case (Inr v)
  then show ?thesis using assms by (auto simp: job_ok_def settle_job_def job_steps)
next
  case (Inl code)
  have "j_result j = None" using assms by (auto simp: job_ok_def terminal_def)
  then show ?thesis using assms Inl
    by (auto simp: job_ok_def settle_job_def job_steps Let_def gives_up_def)
qed

lemma job_ok_outcome:
  assumes "job_ok cfg j" "\<not> terminal j" "out = check_answer (j_request j) a"
  shows "job_ok cfg (outcome_job cfg out t inst j)"
proof (cases a)
  case (Inl e)
  then show ?thesis using assms by (auto simp: check_answer_def outcome_job_def intro!: job_ok_settle)
next
  case (Inr p)
  then obtain v usage where a: "a = Inr (v, usage)" by (cases p) auto
  have "job_ok cfg (absorb_usage usage j)" using assms by (simp add: job_ok_def)
  then show ?thesis using assms a
    by (auto simp: check_answer_def outcome_job_def intro!: job_ok_settle)
qed

section \<open>Steps that disturb no worker\<close>

text \<open>
  \<open>calm N st st'\<close>: outside the new jobs \<open>N\<close>, no job appears or starts running, a running job
  keeps its request and flag or ends, and what a cancellation or a revision ended stays so.
\<close>

definition calm_job :: "job \<Rightarrow> job \<Rightarrow> bool" where
  "calm_job j j' \<longleftrightarrow> j_request j' = j_request j \<and>
     (j_phase j' = j_phase j \<and> j_cancel j' = j_cancel j
      \<or> j_phase j' \<in> {Cancelled, Superseded}
      \<or> j_phase j \<notin> {Running, Cancelled, Superseded} \<and> j_phase j' \<noteq> Running)"

definition calm :: "string set \<Rightarrow> bstate \<Rightarrow> bstate \<Rightarrow> bool" where
  "calm N st st' \<longleftrightarrow> (\<forall>i j'. find_job i st' = Some j' \<longrightarrow>
     (i \<in> N \<and> j_phase j' \<noteq> Running) \<or> (\<exists>j. find_job i st = Some j \<and> calm_job j j'))"

lemma calm_job_refl [simp]: "calm_job j j"
  by (simp add: calm_job_def)

lemma calm_job_trans: "calm_job j k \<Longrightarrow> calm_job k l \<Longrightarrow> calm_job j l"
  by (auto simp: calm_job_def)

lemma calm_refl: "(\<And>i. find_job i st' = find_job i st) \<Longrightarrow> calm N st st'"
  by (simp add: calm_def)

lemma calm_trans: "calm {} st st1 \<Longrightarrow> calm N st1 st2 \<Longrightarrow> calm N st st2"
  unfolding calm_def by (blast intro: calm_job_trans)

lemma calm_map:
  assumes "ids_ok st" "keeps_id g" "\<And>i. find_job i st' = find_job i (map_jobs g st)"
    and "\<And>j. j \<in> set (jobs_of st) \<Longrightarrow> calm_job j (g j)"
  shows "calm {} st st'"
  using assms(1,2,4) by (auto simp: calm_def assms(3) find_job_map_jobs find_job_Some)

lemma calm_flight:
  assumes "calm N st st'" "flight_ok st f" "f_id f \<notin> N"
  shows "flight_ok st' f"
  using assms by (force simp: calm_def flight_ok_def calm_job_def)

lemma calm_flights:
  assumes fl: "flights_ok cfg s" and c: "calm N (s_state s) st'" and N: "N \<inter> f_id ` set (s_flights s) = {}"
    and ids: "ids_ok (s_state s)" "ids_ok st'"
  shows "flights_ok cfg (s\<lparr>s_state := st'\<rparr>)"
proof -
  have "flight_ok st' f" if "f \<in> set (s_flights s)" for f
    using that fl N by (intro calm_flight [OF c]) (auto simp: flights_ok_def)
  moreover have "j_id j' \<in> f_id ` set (s_flights s)" if r: "j' \<in> set (jobs_of st')" "j_phase j' = Running" for j'
  proof -
    have "find_job (j_id j') st' = Some j'" using r ids by (simp add: find_job_Some)
    then obtain j where j: "find_job (j_id j') (s_state s) = Some j" "calm_job j j'"
      using c r by (auto simp: calm_def)
    then have "j_phase j = Running" using r by (auto simp: calm_job_def)
    then show ?thesis using j ids fl unfolding flights_ok_def by (metis find_job_Some)
  qed
  ultimately show ?thesis using fl by (simp add: flights_ok_def)
qed

section \<open>Preservation by the operations\<close>

text \<open>A step keeps the table's invariant and is calm.\<close>

definition sound :: "config \<Rightarrow> string set \<Rightarrow> bstate \<Rightarrow> bstate \<Rightarrow> bool" where
  "sound cfg N st st' \<longleftrightarrow> table_ok cfg st' \<and> calm N st st'"

lemma sound_refl: "table_ok cfg st \<Longrightarrow> sound cfg N st st"
  by (simp add: sound_def calm_refl)

lemma sound_trans: "sound cfg {} st st1 \<Longrightarrow> sound cfg N st1 st2 \<Longrightarrow> sound cfg N st st2"
  by (auto simp: sound_def intro: calm_trans)

lemma sound_activity: "table_ok cfg st \<Longrightarrow> sound cfg N st (st\<lparr>b_activity := d\<rparr>)"
  by (simp add: sound_def calm_refl)

lemma terminal_not_flagged:
  "table_ok cfg st \<Longrightarrow> j \<in> set (jobs_of st) \<Longrightarrow> \<not> terminal j \<Longrightarrow> \<not> b_flags st (j_cancel j)"
  by (auto simp: table_ok_def flag_ok_def)

lemma cancel_address_unique:
  "table_ok cfg st \<Longrightarrow> j \<in> set (jobs_of st) \<Longrightarrow> j' \<in> set (jobs_of st) \<Longrightarrow> j_cancel j = j_cancel j' \<Longrightarrow> j = j'"
  by (auto simp: table_ok_def flag_ok_def dest: map_update_distinct)

lemma sound_finish_where:
  assumes ok: "table_ok cfg st" and ph: "ph \<in> {Cancelled, Superseded}"
    and sup: "\<And>j. p j \<Longrightarrow> ph = Cancelled \<Longrightarrow> j_phase j \<noteq> Superseded"
  shows "sound cfg {} st (finish_where p ph e t st)"
proof -
  let ?g = "\<lambda>j. if p j then finish_job ph e t j else j"
  have k: "keeps_id ?g" by (simp add: keeps_id_def finish_job_def)
  have "table_ok cfg (finish_where p ph e t st)"
    unfolding finish_where_eq
  proof (rule table_ok_update [OF ok k])
    fix j assume j: "j \<in> set (jobs_of st)"
    show "j_sequence (?g j) = j_sequence j" "j_cancel (?g j) = j_cancel j"
      by (simp_all add: finish_job_def)
    show "j_promoted j" if "j_promoted (?g j)"
      using that by (simp add: finish_job_def split: if_splits)
    show "job_ok cfg (?g j)"
      using j ok ph by (simp add: table_ok_def jobs_ok_def job_ok_cancel)
    show "j_phase j \<noteq> Superseded" if "j_phase (?g j) \<noteq> Superseded"
      using that sup ph by (auto simp: finish_job_def split: if_splits)
    show "\<not> (b_flags st (j_cancel j) \<or> (\<exists>j'\<in>set (jobs_of st). p j' \<and> j_cancel j' = j_cancel j))"
      if "\<not> terminal (?g j)"
    proof -
      have "\<not> p j" using that ph by (auto simp: finish_job_def terminal_def split: if_splits)
      then show ?thesis
        using that terminal_not_flagged [OF ok j] cancel_address_unique [OF ok _ j] by auto
    qed
  qed
  moreover have "calm {} st (finish_where p ph e t st)"
    using ok ph k
    by (intro calm_map [where g = ?g]) (auto simp: table_ok_def finish_where_eq calm_job_def finish_job_def)
  ultimately show ?thesis by (simp add: sound_def)
qed

lemma sound_close: "table_ok cfg st \<Longrightarrow> sound cfg {} st (close t st)"
proof -
  assume ok: "table_ok cfg st"
  have "sound cfg {} st (st\<lparr>b_closed := True\<rparr>)" using ok by (simp add: sound_def calm_refl)
  moreover have "sound cfg {} (st\<lparr>b_closed := True\<rparr>) (close t st)"
    unfolding close_def using ok by (intro sound_finish_where) (auto simp: terminal_def)
  ultimately show ?thesis by (rule sound_trans)
qed

lemma sound_update_one:
  assumes ok: "table_ok cfg st" and f: "keeps_id f" and j: "find_job i st = Some j"
    and one: "j_sequence (f j) = j_sequence j" "j_cancel (f j) = j_cancel j"
      "j_promoted (f j) \<Longrightarrow> j_promoted j" "job_ok cfg (f j)"
      "j_phase (f j) \<noteq> Superseded \<Longrightarrow> j_phase j \<noteq> Superseded"
      "\<not> terminal (f j) \<Longrightarrow> \<not> terminal j"
    and fl: "fl = b_flags st \<or> (fl = (b_flags st)(j_cancel j := True) \<and> terminal (f j))"
    and calm: "calm_job j (f j)"
  shows "sound cfg {} st ((map_jobs (on_id i f) st)\<lparr>b_flags := fl\<rparr>)"
proof -
  have "table_ok cfg ((map_jobs (on_id i f) st)\<lparr>b_flags := fl\<rparr>)"
    by (rule table_ok_update_one [OF ok f j one fl])
  moreover have "calm {} st ((map_jobs (on_id i f) st)\<lparr>b_flags := fl\<rparr>)"
  proof (rule calm_map [OF table_okD(1) [OF ok] keeps_on_id [OF f]])
    fix x assume "x \<in> set (jobs_of st)"
    then show "calm_job x (on_id i f x)"
      using calm j ids_ok_unique [OF table_okD(1) [OF ok], of x j] table_okD(1) [OF ok]
      by (auto simp: on_id_def find_job_Some)
  qed simp
  ultimately show ?thesis by (simp add: sound_def)
qed

lemma finish_eq:
  "ids_ok st \<Longrightarrow> find_job i st = Some j \<Longrightarrow> finish i ph e t st
    = (map_jobs (on_id i (finish_job ph e t)) st)\<lparr>b_flags := (b_flags st)(j_cancel j := True)\<rparr>"
  by (simp add: finish_def update_job_eq)

lemma sound_cancel:
  assumes ok: "table_ok cfg st" and j: "find_job i st = Some j" "\<not> terminal j"
  shows "sound cfg {} st (finish i Cancelled None t st)"
proof -
  have "job_ok cfg j" using ok j by (auto simp: table_ok_def jobs_ok_def find_job_Some)
  then have jo: "job_ok cfg (finish_job Cancelled None t j)" by (simp add: job_ok_cancel)
  show ?thesis
    unfolding finish_eq [OF table_okD(1) [OF ok] j(1)]
    by (rule sound_update_one [OF ok keeps_id_steps(1) j(1) _ _ _ jo])
      (use j(2) in \<open>auto simp: finish_job_def calm_job_def terminal_def\<close>)
qed

lemma keeps_simple [simp]:
  "keeps_id (\<lambda>j. j\<lparr>j_selection := s, j_updated := t\<rparr>)"
  "keeps_id (\<lambda>j. j\<lparr>j_phase := p, j_sequence := n\<rparr>)"
  "keeps_id (\<lambda>j. j\<lparr>j_promoted := b, j_updated := t\<rparr>)"
  "keeps_id (\<lambda>j. j\<lparr>j_promoted := b\<rparr>)"
  by (simp_all add: keeps_id_def)

lemma work_select_Inr:
  "work_select i c sel t st = Inr st' \<longleftrightarrow>
     (\<exists>j. find_job i st = Some j \<and> \<not> terminal j \<and> \<not> b_flags st c
        \<and> st' = update_job i (\<lambda>j. j\<lparr>j_selection := Some sel, j_updated := t\<rparr>) st)"
  by (auto simp: work_select_def split: option.splits)

lemma sound_select:
  assumes ok: "table_ok cfg st" and s: "work_select i c sel t st = Inr st'"
  shows "sound cfg {} st st'"
proof -
  obtain j where j: "find_job i st = Some j" and st': "st' = update_job i (\<lambda>j. j\<lparr>j_selection := Some sel, j_updated := t\<rparr>) st"
    using s by (auto simp: work_select_Inr)
  have jo: "job_ok cfg j" using ok j by (auto simp: table_ok_def jobs_ok_def find_job_Some)
  show ?thesis
    using sound_update_one [OF ok keeps_simple(1) j, where fl = "b_flags st"] jo
    by (simp add: st' update_job_eq table_okD(1) [OF ok] job_ok_def terminal_def calm_job_def)
qed

lemma table_ok_activity_flags [simp]:
  "table_ok cfg (st\<lparr>b_activity := d, b_flags := f\<rparr>) = table_ok cfg (st\<lparr>b_flags := f\<rparr>)"
  by (simp add: table_defs)

lemma find_on_id:
  assumes "ids_ok st" "keeps_id f"
  shows "find_job k (map_jobs (on_id i f) st) = (if k = i then map_option f (find_job k st) else find_job k st)"
proof (cases "find_job k st")
  case None
  then show ?thesis using assms by (auto simp: find_job_map_jobs keeps_on_id)
next
  case (Some j)
  then have "j_id j = k" using assms find_job_Some by blast
  then show ?thesis using assms Some by (auto simp: find_job_map_jobs keeps_on_id on_id_def)
qed

lemma work_finish_table:
  assumes ok: "table_ok cfg st" and f: "flight_ok st f"
    and out: "out = check_answer (f_request f) a"
  shows "table_ok cfg (work_finish cfg (f_id f) out t inst st)"
proof (cases "\<exists>j. find_job (f_id f) st = Some j \<and> \<not> terminal j")
  case False
  then show ?thesis using ok by (simp add: work_finish_skip)
next
  case True
  then obtain j where j: "find_job (f_id f) st = Some j" "\<not> terminal j" by blast
  then have "j_request j = f_request f" using f by (auto simp: flight_ok_def terminal_def)
  then have jo: "job_ok cfg (outcome_job cfg out t inst j)"
    using ok j out by (intro job_ok_outcome) (auto simp: table_ok_def jobs_ok_def find_job_Some)
  have "table_ok cfg ((map_jobs (on_id (f_id f) (outcome_job cfg out t inst)) st)
      \<lparr>b_flags := ended_flags (outcome_job cfg out t inst j) j st\<rparr>)"
    using j jo outcome_job_phase [of cfg out t inst j]
    by (intro table_ok_update_one [OF ok keeps_outcome_job j(1)])
      (auto simp: ended_flags_def terminal_def)
  then show ?thesis by (simp add: work_finish_eq [OF table_okD(1) [OF ok] j])
qed

lemma find_work_finish:
  assumes ok: "ids_ok st"
  shows "find_job k (work_finish cfg i out t inst st) =
    (case find_job k st of
       None \<Rightarrow> None
     | Some j \<Rightarrow> Some (if k = i \<and> \<not> terminal j then outcome_job cfg out t inst j else j))"
proof (cases "\<exists>j. find_job i st = Some j \<and> \<not> terminal j")
  case False
  then show ?thesis by (auto simp: work_finish_skip split: option.split)
next
  case True
  then obtain j where j: "find_job i st = Some j" "\<not> terminal j" by blast
  then show ?thesis
    by (simp add: work_finish_eq [OF ok j] find_on_id [OF ok] split: option.split)
qed

text \<open>Requeueing what is due.\<close>

lemma sound_requeue:
  assumes ok: "table_ok cfg st" and j: "find_job i st = Some j" "j_phase j \<in> {Retrying, Queued}"
  shows "sound cfg {} st (requeue i st)"
proof -
  let ?n = "Suc (b_sequence st)"
  let ?f = "\<lambda>j. j\<lparr>j_phase := Queued, j_sequence := ?n\<rparr>"
  note ids = table_okD(1) [OF ok]
  have st': "requeue i st = (map_jobs (on_id i ?f) st)\<lparr>b_sequence := ?n\<rparr>"
    using ids update_job_eq [of "st\<lparr>b_sequence := ?n\<rparr>" i ?f]
    by (simp add: requeue_def Let_def map_jobs_def)
  have only: "x = j" if "x \<in> set (jobs_of st)" "j_id x = i" for x
    using that j ids by (metis find_job_Some option.inject)
  have jo: "job_ok cfg j" and jin: "j \<in> set (jobs_of st)"
    using ok j by (auto simp: table_ok_def jobs_ok_def find_job_Some)
  have "table_ok cfg (requeue i st)"
    unfolding st'
  proof (rule table_ok_map [OF ok keeps_on_id [OF keeps_simple(2)]])
    have "distinct (map (\<lambda>x. if j_id x = i then ?n else j_sequence x) (jobs_of st))"
      using table_okD(1,2) [OF ok] by (intro distinct_fresh) (auto simp: ids_ok_def seq_ok_def)
    then show "seq_ok ((map_jobs (on_id i ?f) st)\<lparr>b_sequence := ?n\<rparr>)"
      using table_okD(2) [OF ok]
      by (auto simp: seq_ok_def comp_def on_id_def if_distrib [of j_sequence] cong: if_cong)
    have "map (j_cancel \<circ> on_id i ?f) (jobs_of st) = map j_cancel (jobs_of st)"
      by (simp add: on_id_def)
    moreover have "terminal (on_id i ?f x) = terminal x" if "x \<in> set (jobs_of st)" for x
      using only [OF that] j by (auto simp: on_id_def terminal_def)
    moreover have "j_cancel (on_id i ?f x) = j_cancel x" for x by (simp add: on_id_def)
    ultimately show "flag_ok ((map_jobs (on_id i ?f) st)\<lparr>b_sequence := ?n\<rparr>)"
      using table_okD(3) [OF ok] by (simp add: flag_ok_def comp_def)
    show "promo_ok ((map_jobs (on_id i ?f) st)\<lparr>b_sequence := ?n\<rparr>)"
      by (rule promo_ok_map [OF table_okD(4) [OF ok] keeps_on_id [OF keeps_simple(2)]])
        (auto simp: on_id_def split: if_splits)
    have jq: "job_ok cfg (?f j)" using jo j by (auto simp: job_ok_def terminal_def)
    fix x assume x: "x \<in> set (jobs_of st)"
    show "job_ok cfg (on_id i ?f x)"
      using only [OF x] jq x table_okD(5) [OF ok] by (cases "j_id x = i") (simp_all add: on_id_def jobs_ok_def)
    show "j_phase x \<noteq> Superseded" if "j_phase (on_id i ?f x) \<noteq> Superseded"
      using that only [OF x] j by (auto simp: on_id_def split: if_splits)
  qed (simp_all add: map_jobs_def)
  moreover have "calm {} st (requeue i st)"
    by (rule calm_map [OF ids keeps_on_id [OF keeps_simple(2)]])
      (use only j in \<open>auto simp: st' on_id_def calm_job_def\<close>)
  ultimately show ?thesis by (simp add: sound_def)
qed

lemma find_requeue:
  assumes ok: "ids_ok st"
  shows "find_job k (requeue i st) = (if k = i then map_option (\<lambda>j. j\<lparr>j_phase := Queued,
    j_sequence := Suc (b_sequence st)\<rparr>) (find_job k st) else find_job k st)"
proof -
  let ?f = "\<lambda>j. j\<lparr>j_phase := Queued, j_sequence := Suc (b_sequence st)\<rparr>"
  have "requeue i st = (map_jobs (on_id i ?f) st)\<lparr>b_sequence := Suc (b_sequence st)\<rparr>"
    using ok update_job_eq [of "st\<lparr>b_sequence := Suc (b_sequence st)\<rparr>" i ?f]
    by (simp add: requeue_def Let_def map_jobs_def)
  then show ?thesis by (simp add: find_on_id [OF ok keeps_simple(2)])
qed

lemma sound_requeue_list:
  "table_ok cfg st \<Longrightarrow> (\<And>i. i \<in> set is \<Longrightarrow> \<exists>j. find_job i st = Some j \<and> j_phase j \<in> {Retrying, Queued})
     \<Longrightarrow> sound cfg {} st (fold requeue is st)"
proof (induction "is" arbitrary: st)
  case Nil
  then show ?case by (simp add: sound_refl)
next
  case (Cons i "is")
  obtain j where j: "find_job i st = Some j" "j_phase j \<in> {Retrying, Queued}"
    using Cons.prems(2) [of i] by auto
  have s: "sound cfg {} st (requeue i st)" by (rule sound_requeue [OF Cons.prems(1) j])
  have "sound cfg {} (requeue i st) (fold requeue is (requeue i st))"
  proof (rule Cons.IH)
    show "table_ok cfg (requeue i st)" using s by (simp add: sound_def)
    fix k assume "k \<in> set is"
    then show "\<exists>j. find_job k (requeue i st) = Some j \<and> j_phase j \<in> {Retrying, Queued}"
      using Cons.prems(2) [of k] by (auto simp: find_requeue [OF table_okD(1) [OF Cons.prems(1)]])
  qed
  with s show ?case by (simp add: sound_trans [OF s])
qed

lemma set_due: "set (due inst st) = {j_id j | j. j \<in> set (jobs_of st) \<and> j_phase j = Retrying \<and> j_ready j \<le> inst}"
  by (auto simp: due_def image_image split_def)

lemma sound_requeue_due: "table_ok cfg st \<Longrightarrow> sound cfg {} st (requeue_due inst st)"
  unfolding requeue_due_def
  by (rule sound_requeue_list) (auto simp: set_due find_job_Some table_okD(1))

lemma work_pick_Picked:
  assumes "work_pick t inst st = (st', Picked i r c)"
  obtains j where "\<not> b_closed st" "j \<in> set (jobs_of (requeue_due inst st))" "j_phase j = Queued"
    "hd (queue (requeue_due inst st)) = j" "queue (requeue_due inst st) \<noteq> []"
    "i = j_id j" "r = j_request j" "c = j_cancel j"
    "st' = update_job i (start_job t) (requeue_due inst st)"
proof -
  have cl: "\<not> b_closed st" using assms by (auto simp: work_pick_def)
  then obtain j js where q: "queue (requeue_due inst st) = j # js"
    using assms by (auto simp: work_pick_def Let_def split: list.splits)
  have "j \<in> set (queue (requeue_due inst st))" by (simp add: q)
  then have "j \<in> set (jobs_of (requeue_due inst st)) \<and> j_phase j = Queued" by (simp add: queue_def)
  moreover have "(st', Picked i r c)
      = (update_job (j_id j) (start_job t) (requeue_due inst st), Picked (j_id j) (j_request j) (j_cancel j))"
    using assms cl by (auto simp: work_pick_def Let_def q)
  ultimately show thesis using cl q by (intro that [of j]) auto
qed

lemma work_pick_Sleep:
  "work_pick t inst st = (st', Sleep d) \<Longrightarrow> st' = requeue_due inst st"
  by (auto simp: work_pick_def Let_def split: list.splits if_splits)

text \<open>Picking starts a queued job that no worker holds.\<close>

lemma pick_table:
  assumes ok: "table_ok cfg st" and j: "find_job i st = Some j" "j_phase j = Queued"
  shows "table_ok cfg (update_job i (start_job t) st)"
proof -
  have "job_ok cfg j" using ok j by (auto simp: table_ok_def jobs_ok_def find_job_Some)
  then have jo: "job_ok cfg (start_job t j)" using j by (simp add: job_ok_start)
  have "table_ok cfg ((map_jobs (on_id i (start_job t)) st)\<lparr>b_flags := b_flags st\<rparr>)"
    by (rule table_ok_update_one [OF ok keeps_id_steps(2) j(1) _ _ _ jo])
      (use j in \<open>auto simp: start_job_def terminal_def\<close>)
  then show ?thesis by (simp add: update_job_eq [OF table_okD(1) [OF ok]])
qed

lemma pick_flights:
  assumes ok: "table_ok cfg st" and fl: "flights_ok cfg \<lparr>s_state = st, s_flights = fs\<rparr>"
    and j: "find_job i st = Some j" "j_phase j = Queued" and room: "length fs < worker_count cfg"
  shows "flights_ok cfg \<lparr>s_state = update_job i (start_job t) st,
    s_flights = \<lparr>f_id = i, f_request = j_request j, f_cancel = j_cancel j\<rparr> # fs\<rparr>"
proof -
  note ids = table_okD(1) [OF ok]
  let ?st = "map_jobs (on_id i (start_job t)) st"
  have ids': "ids_ok ?st" by (rule ids_ok_map_jobs [OF keeps_on_id [OF keeps_id_steps(2)] ids])
  have find: "find_job k ?st = (if k = i then Some (start_job t j) else find_job k st)" for k
    using find_on_id [OF ids keeps_id_steps(2), of k i t] j by simp
  have new: "i \<notin> f_id ` set fs"
    using fl j by (auto simp: flights_ok_def flight_ok_def)
  have "flight_ok ?st f" if "f \<in> set fs" for f
    using that fl new by (auto simp: flights_ok_def flight_ok_def find)
  moreover have "flight_ok ?st \<lparr>f_id = i, f_request = j_request j, f_cancel = j_cancel j\<rparr>"
    by (simp add: flight_ok_def find start_job_def)
  moreover have "j_id x \<in> insert i (f_id ` set fs)" if x: "x \<in> set (jobs_of ?st)" "j_phase x = Running" for x
  proof (cases "j_id x = i")
    case False
    have "find_job (j_id x) ?st = Some x" using x ids' find_job_Some by blast
    then have "find_job (j_id x) st = Some x" using False by (simp add: find)
    then show ?thesis using fl x ids by (simp add: flights_ok_def find_job_Some)
  qed simp
  ultimately show ?thesis
    using fl new room by (simp add: flights_ok_def update_job_eq ids)
qed

text \<open>Retrying a failed job gives it a fresh flag.\<close>

definition retried :: "string \<Rightarrow> rat \<Rightarrow> bstate \<Rightarrow> bstate" where
  "retried i t st = (map_jobs (on_id i (retry_job (b_next_flag st) t)) st)
     \<lparr>b_flags := (b_flags st)(b_next_flag st := False), b_next_flag := Suc (b_next_flag st)\<rparr>"

lemma sound_retry:
  assumes ok: "table_ok cfg st" and j: "find_job i st = Some j" "j_phase j = Failed"
  shows "sound cfg {} st (retried i t st)"
proof -
  let ?n = "b_next_flag st"
  let ?f = "retry_job ?n t"
  note ids = table_okD(1) [OF ok]
  have only: "x = j" if "x \<in> set (jobs_of st)" "j_id x = i" for x
    using that j ids by (metis find_job_Some option.inject)
  have jin: "j \<in> set (jobs_of st)" and jo: "job_ok cfg (retry_job ?n t j)"
    using ok j by (auto simp: table_ok_def jobs_ok_def find_job_Some job_ok_retry)
  have below: "j_cancel x < ?n" if "x \<in> set (jobs_of st)" for x
    using that table_okD(3) [OF ok] by (simp add: flag_ok_def)
  have "table_ok cfg (retried i t st)"
  proof (rule table_ok_map [OF ok keeps_on_id [OF keeps_id_steps(5)]])
    have "map (j_sequence \<circ> on_id i ?f) (jobs_of st) = map j_sequence (jobs_of st)"
      by (simp add: on_id_def retry_job_def)
    moreover have "j_sequence (on_id i ?f x) = j_sequence x" for x by (simp add: on_id_def retry_job_def)
    ultimately show "seq_ok (retried i t st)"
      using table_okD(2) [OF ok] by (simp add: seq_ok_def retried_def comp_def)
    have "?n \<notin> j_cancel ` set (jobs_of st)" using below by force
    then have "distinct (map (\<lambda>x. if j_id x = i then ?n else j_cancel x) (jobs_of st))"
      using table_okD(1,3) [OF ok] by (intro distinct_fresh) (simp_all add: ids_ok_def flag_ok_def)
    moreover have c: "j_cancel (on_id i ?f x) = (if j_id x = i then ?n else j_cancel x)" for x
      by (simp add: on_id_def retry_job_def)
    moreover have "terminal (on_id i ?f x) \<or> j_id x = i \<or> \<not> b_flags st (j_cancel x)"
      if "x \<in> set (jobs_of st)" for x
      using terminal_not_flagged [OF ok that] by (auto simp: on_id_def)
    ultimately show "flag_ok (retried i t st)"
      using below by (fastforce simp: flag_ok_def retried_def comp_def)
    show "promo_ok (retried i t st)"
      by (rule promo_ok_map [OF table_okD(4) [OF ok] keeps_on_id [OF keeps_id_steps(5)]])
        (auto simp: retried_def on_id_def retry_job_def split: if_splits)
    fix x assume x: "x \<in> set (jobs_of st)"
    show "job_ok cfg (on_id i ?f x)"
      using only [OF x] jo x table_okD(5) [OF ok] by (auto simp: on_id_def jobs_ok_def)
    show "j_phase x \<noteq> Superseded" if "j_phase (on_id i ?f x) \<noteq> Superseded"
      using that only [OF x] j by (auto simp: on_id_def split: if_splits)
  qed (simp_all add: map_jobs_def retried_def)
  moreover have "calm {} st (retried i t st)"
    by (rule calm_map [OF ids keeps_on_id [OF keeps_id_steps(5)]])
      (use only j in \<open>auto simp: retried_def on_id_def calm_job_def retry_job_def\<close>)
  ultimately show ?thesis by (simp add: sound_def)
qed

text \<open>Promotion clears the other jobs' marks first.\<close>

definition promoted_job :: "string \<Rightarrow> rat \<Rightarrow> job \<Rightarrow> job" where
  "promoted_job i t j = (if j_id j = i then j\<lparr>j_promoted := True, j_updated := t\<rparr> else j\<lparr>j_promoted := False\<rparr>)"

lemma keeps_promoted [simp]: "keeps_id (promoted_job i t)"
  by (simp add: keeps_id_def promoted_job_def)

lemma promote_eq:
  assumes ok: "ids_ok st"
  shows "promote i t st = map_jobs (promoted_job i t) st"
proof -
  let ?st = "map_jobs (\<lambda>j. j\<lparr>j_promoted := False\<rparr>) st"
  have "ids_ok ?st" by (rule ids_ok_map_jobs [OF keeps_simple(4) ok])
  then have "promote i t st = map_jobs (on_id i (\<lambda>j. j\<lparr>j_promoted := True, j_updated := t\<rparr>)) ?st"
    by (simp add: promote_def update_job_eq map_jobs_def)
  also have "\<dots> = map_jobs (promoted_job i t) st"
    unfolding map_jobs_map_jobs by (rule arg_cong [of _ _ "\<lambda>g. map_jobs g st"])
      (simp add: on_id_def promoted_job_def fun_eq_iff)
  finally show ?thesis .
qed

lemma sound_promote:
  assumes ok: "table_ok cfg st"
  shows "sound cfg {} st (promote i t st)"
proof -
  note ids = table_okD(1) [OF ok]
  have "table_ok cfg (promote i t st)"
    unfolding promote_eq [OF ids]
  proof (rule table_ok_map [OF ok keeps_promoted])
    have f: "j_sequence (promoted_job i t x) = j_sequence x" "j_cancel (promoted_job i t x) = j_cancel x"
      "terminal (promoted_job i t x) = terminal x" for x
      by (simp_all add: promoted_job_def terminal_def)
    show "seq_ok (map_jobs (promoted_job i t) st)"
      using table_okD(2) [OF ok] by (simp add: seq_ok_def comp_def f)
    show "flag_ok (map_jobs (promoted_job i t) st)"
      using table_okD(3) [OF ok] by (simp add: flag_ok_def comp_def f)
    have "j_promoted (promoted_job i t x) \<longleftrightarrow> j_id x = i" "j_id (promoted_job i t x) = j_id x" for x
      by (simp_all add: promoted_job_def)
    then show "promo_ok (map_jobs (promoted_job i t) st)"
      by (auto simp: promo_ok_def)
    fix x assume x: "x \<in> set (jobs_of st)"
    show "job_ok cfg (promoted_job i t x)"
      using x table_okD(5) [OF ok] by (simp add: promoted_job_def jobs_ok_def job_ok_def terminal_def)
    show "j_phase x \<noteq> Superseded" if "j_phase (promoted_job i t x) \<noteq> Superseded"
      using that by (simp add: promoted_job_def split: if_splits)
  qed (simp_all add: map_jobs_def)
  moreover have "calm {} st (promote i t st)"
    unfolding promote_eq [OF ids]
    by (rule calm_map [OF ids keeps_promoted]) (auto simp: promoted_job_def calm_job_def)
  ultimately show ?thesis by (simp add: sound_def)
qed

text \<open>Releasing a job removes it; its metadata goes to the bounded log of retired jobs.\<close>

interpretation retired: bounded_log retired_limit retire
  by unfold_locales (simp_all add: retired_limit_def retire_def)

lemma jobs_of_delete: "ids_ok st \<Longrightarrow> map snd (AList.delete i (b_jobs st)) = filter (\<lambda>j. i \<noteq> j_id j) (jobs_of st)"
proof -
  assume "ids_ok st"
  then have "AList.delete i (b_jobs st) = AList.delete i (map (\<lambda>j. (j_id j, j)) (jobs_of st))"
    by (simp only: ids_ok_def)
  also have "\<dots> = map (\<lambda>j. (j_id j, j)) (filter (\<lambda>j. i \<noteq> j_id j) (jobs_of st))"
    by (simp add: AList.delete_eq filter_map comp_def)
  finally show ?thesis by (simp add: comp_def)
qed

lemma find_job_delete:
  "ids_ok st \<Longrightarrow> find_job k (st\<lparr>b_jobs := AList.delete i (b_jobs st)\<rparr>) = (if k = i then None else find_job k st)"
  by (simp add: find_job_def hash.get_del ids_ok_distinct)

lemma table_ok_remove:
  assumes ok: "table_ok cfg st" and len: "length ms \<le> retired_limit"
  shows "table_ok cfg (st\<lparr>b_jobs := AList.delete i (b_jobs st), b_retired := ms\<rparr>)"
proof -
  let ?st = "st\<lparr>b_jobs := AList.delete i (b_jobs st), b_retired := ms\<rparr>"
  note ids = table_okD(1) [OF ok]
  have jobs1: "jobs_of (st\<lparr>b_jobs := AList.delete i (b_jobs st)\<rparr>) = filter (\<lambda>j. i \<noteq> j_id j) (jobs_of st)"
    using jobs_of_delete [OF ids] by (simp add: jobs_of_def)
  then have jobs: "jobs_of ?st = filter (\<lambda>j. i \<noteq> j_id j) (jobs_of st)" by simp
  have b: "b_jobs st = map (\<lambda>j. (j_id j, j)) (jobs_of st)" using ids by (simp add: ids_ok_def)
  have "b_jobs ?st = map (\<lambda>j. (j_id j, j)) (filter (\<lambda>j. i \<noteq> j_id j) (jobs_of st))"
    by (simp add: AList.delete_eq b filter_map comp_def)
  then have "ids_ok ?st" using ids unfolding ids_ok_def jobs by (simp add: distinct_map_filter)
  moreover have "seq_ok ?st" "flag_ok ?st" "jobs_ok cfg ?st"
    using ok by (simp_all add: table_ok_def seq_ok_def flag_ok_def jobs_ok_def jobs1 distinct_map_filter)
  moreover have "promo_ok ?st"
    using table_okD(4) [OF ok] unfolding promo_ok_def jobs by auto
  moreover have "bounds_ok cfg ?st"
    using table_okD(6) [OF ok] len by (auto simp: bounds_ok_def intro: order.trans [OF length_delete_le])
  moreover have "rev_ok ?st"
  proof -
    have "b_revisions ?st = b_revisions st" by simp
    then show ?thesis using table_okD(7) [OF ok] unfolding rev_ok_def jobs by simp
  qed
  ultimately show ?thesis by (simp add: table_ok_def)
qed

lemma sound_release:
  assumes ok: "table_ok cfg st"
  shows "sound cfg {} st (release cfg i j t st)"
proof -
  have "length (b_retired st) \<le> retired_limit" using ok by (simp add: table_ok_def bounds_ok_def)
  then have "table_ok cfg (release cfg i j t st)"
    unfolding release_def by (intro table_ok_remove [OF ok]) (simp add: retired.push_bound)
  moreover have "calm {} st (release cfg i j t st)"
    unfolding release_def calm_def by (simp add: find_job_delete table_okD(1) [OF ok])
  ultimately show ?thesis by (simp add: sound_def)
qed

lemma list_jobs_state: "snd (list_jobs cfg t st) = st\<lparr>b_retired := filter (\<lambda>m. t - m_updated m < 5) (b_retired st)\<rparr>"
  by (simp add: list_jobs_def Let_def)

lemma sound_list: "table_ok cfg st \<Longrightarrow> sound cfg {} st (snd (list_jobs cfg t st))"
proof -
  assume ok: "table_ok cfg st"
  have "length (filter (\<lambda>m. t - m_updated m < 5) (b_retired st)) \<le> retired_limit"
    using table_okD(6) [OF ok] by (simp add: bounds_ok_def order.trans [OF length_filter_le])
  then show ?thesis
    using table_okD [OF ok]
    by (simp add: list_jobs_state sound_def calm_refl table_ok_def seq_ok_def flag_ok_def jobs_ok_def bounds_ok_def)
qed

text \<open>Accepting an item revision supersedes the older jobs of the item.\<close>

lemma rev_ok_raise:
  assumes r: "rev_ok st" and sup: "\<And>j. j \<in> set (jobs_of st) \<Longrightarrow> same_item rq it (j_request j) \<Longrightarrow> j_phase j = Superseded"
    and w: "\<And>w. map_of (b_revisions st) (consumer rq, it) = Some w \<Longrightarrow> w \<le> n"
  shows "rev_ok (st\<lparr>b_revisions := AList.update (consumer rq, it) n (b_revisions st)\<rparr>)"
proof -
  let ?st = "st\<lparr>b_revisions := AList.update (consumer rq, it) n (b_revisions st)\<rparr>"
  have "\<exists>w. map_of (b_revisions ?st) (consumer (j_request j), it') = Some w \<and> m \<le> w
      \<and> (j_phase j \<noteq> Superseded \<longrightarrow> m = w)"
    if j: "j \<in> set (jobs_of st)" "item (j_request j) = Some (it', m)" for j it' m
  proof -
    obtain w' where w': "map_of (b_revisions st) (consumer (j_request j), it') = Some w'" "m \<le> w'"
      "j_phase j \<noteq> Superseded \<Longrightarrow> m = w'"
      using r j unfolding rev_ok_def by blast
    show ?thesis
    proof (cases "consumer (j_request j) = consumer rq \<and> it' = it")
      case True
      then have "j_phase j = Superseded" using j sup [of j] by (simp add: same_item_def)
      moreover have "m \<le> n" using True w w' by fastforce
      ultimately show ?thesis using True by (simp add: update_conv')
    next
      case False
      then show ?thesis using w' by (auto simp: update_conv')
    qed
  qed
  moreover have "\<forall>j\<in>set (jobs_of st). \<forall>j'\<in>set (jobs_of st). \<forall>it n.
      item (j_request j) = Some (it, n) \<and> same_item (j_request j) it (j_request j')
      \<and> j_phase j \<noteq> Superseded \<and> j_phase j' \<noteq> Superseded \<longrightarrow> j_id j = j_id j'"
    using r by (simp add: rev_ok_def)
  ultimately show ?thesis unfolding rev_ok_def jobs_of_fields by blast
qed

lemma admit_item_ok:
  assumes ok: "table_ok cfg st" and adm: "admit_item r t st = Inr st1"
  shows "sound cfg {} st st1"
    and "\<And>it n. item r = Some (it, n) \<Longrightarrow> map_of (b_revisions st1) (consumer r, it) = Some n
      \<and> (\<forall>j \<in> set (jobs_of st1). same_item r it (j_request j) \<longrightarrow> j_phase j = Superseded)"
    and "map fst (b_jobs st1) = map fst (b_jobs st)"
proof -
  have main: "sound cfg {} st st1 \<and> map fst (b_jobs st1) = map fst (b_jobs st) \<and>
    (case item r of None \<Rightarrow> True | Some (it, n) \<Rightarrow> map_of (b_revisions st1) (consumer r, it) = Some n
      \<and> (\<forall>j \<in> set (jobs_of st1). same_item r it (j_request j) \<longrightarrow> j_phase j = Superseded))"
  proof (cases "item r")
    case None
    then show ?thesis using ok adm by (simp add: admit_item_def sound_refl)
  next
    case (Some p)
    obtain it n where p: "p = (it, n)" by (cases p)
    let ?key = "(consumer r, it)" and ?p = "\<lambda>j. same_item r it (j_request j)"
    let ?st = "finish_where ?p Superseded None t st"
    have st1: "st1 = ?st\<lparr>b_revisions := AList.update ?key n (b_revisions ?st)\<rparr>"
      and fresh: "\<And>w. map_of (b_revisions st) ?key = Some w \<Longrightarrow> w < n"
      and room: "map_of (b_revisions st) ?key = None \<Longrightarrow> length (b_revisions st) < revision_limit"
      using adm by (auto simp: admit_item_def Some p Let_def finish_where_def jobs_of_def split: if_splits option.splits)
    have s: "sound cfg {} st ?st" using ok by (intro sound_finish_where) auto
    then have ok1: "table_ok cfg ?st" by (simp add: sound_def)
    have sup: "j_phase j = Superseded" if "j \<in> set (jobs_of ?st)" "?p j" for j
      using that by (auto simp: finish_where_eq finish_job_def same_item_def split: if_splits)
    have rev: "b_revisions ?st = b_revisions st" by (simp add: finish_where_def)
    have "rev_ok st1"
      unfolding st1 using fresh by (intro rev_ok_raise [OF table_okD(7) [OF ok1] sup]) (auto simp: rev less_imp_le)
    moreover have "bounds_ok cfg st1"
    proof -
      have len: "length (AList.update ?key n (b_revisions st)) \<le> revision_limit"
      proof (cases "map_of (b_revisions st) ?key")
        case None
        then have "length (AList.update ?key n (b_revisions st)) = Suc (length (b_revisions st))"
          by (intro length_update_absent) (simp add: map_of_eq_None_iff)
        then show ?thesis using room None by simp
      next
        case (Some w)
        then have "length (AList.update ?key n (b_revisions st)) = length (b_revisions st)"
          by (intro length_update_present map_of_Some_key)
        then show ?thesis using table_okD(6) [OF ok] by (simp add: bounds_ok_def)
      qed
      show ?thesis using table_okD(6) [OF ok1] len by (simp add: st1 bounds_ok_def rev distinct_update)
    qed
    moreover have "ids_ok st1" "seq_ok st1" "flag_ok st1" "promo_ok st1" "jobs_ok cfg st1"
      using table_okD(1-5) [OF ok1] by (simp_all add: st1 seq_ok_def flag_ok_def jobs_ok_def)
    ultimately have "table_ok cfg st1" by (simp add: table_ok_def)
    moreover have "calm {} st st1"
      using s unfolding sound_def calm_def st1 by simp
    moreover have "map fst (b_jobs st1) = map fst (b_jobs st)"
      by (simp add: st1 finish_where_def comp_def split_def)
    moreover have "\<forall>j \<in> set (jobs_of st1). ?p j \<longrightarrow> j_phase j = Superseded"
      using sup unfolding st1 jobs_of_fields by blast
    moreover have "map_of (b_revisions st1) ?key = Some n" by (simp add: st1 update_conv')
    ultimately have "sound cfg {} st st1 \<and> map fst (b_jobs st1) = map fst (b_jobs st)
      \<and> map_of (b_revisions st1) ?key = Some n \<and> (\<forall>j \<in> set (jobs_of st1). ?p j \<longrightarrow> j_phase j = Superseded)"
      unfolding sound_def by (intro conjI)
    then show ?thesis unfolding Some p option.case prod.case .
  qed
  then show "sound cfg {} st st1" "map fst (b_jobs st1) = map fst (b_jobs st)" by blast+
  show "map_of (b_revisions st1) (consumer r, it) = Some n
      \<and> (\<forall>j \<in> set (jobs_of st1). same_item r it (j_request j) \<longrightarrow> j_phase j = Superseded)"
    if "item r = Some (it, n)" for it n
    using main unfolding that option.case prod.case by blast
qed

end
