(* ===== verification/Broker_Invariant.thy ===== *)
theory Broker_Invariant
  imports Broker_Steps
begin

text \<open>
  Submissions and client calls preserve the table, and the steps of the broker preserve the
  invariant of the whole system: the interpretation of \<open>invariant_system\<close> on \<open>broker_step\<close>.
\<close>

section \<open>Submission\<close>

definition appended :: "string \<Rightarrow> job \<Rightarrow> bstate \<Rightarrow> bstate" where
  "appended uid j st = st\<lparr>b_sequence := Suc (b_sequence st), b_jobs := b_jobs st @ [(uid, j)],
     b_flags := (b_flags st)(b_next_flag st := False), b_next_flag := Suc (b_next_flag st)\<rparr>"

lemma jobs_of_appended [simp]: "jobs_of (appended uid j st) = jobs_of st @ [j]"
  by (simp add: appended_def jobs_of_def)

lemma appended_frame [simp]:
  "b_sequence (appended uid j st) = Suc (b_sequence st)"
  "b_next_flag (appended uid j st) = Suc (b_next_flag st)"
  "b_flags (appended uid j st) = (b_flags st)(b_next_flag st := False)"
  by (simp_all add: appended_def)

lemma find_job_appended:
  "uid \<notin> fst ` set (b_jobs st) \<Longrightarrow> find_job k (appended uid j st) = (if k = uid then Some j else find_job k st)"
  using map_of_eq_None_iff [of "b_jobs st" uid]
  by (auto simp: find_job_def appended_def map_add_def split: option.split)

lemma rev_ok_append:
  assumes r: "rev_ok st" and j: "j_phase j = Queued"
    and new: "\<And>it n. item (j_request j) = Some (it, n) \<Longrightarrow>
      map_of (b_revisions st) (consumer (j_request j), it) = Some n
      \<and> (\<forall>x \<in> set (jobs_of st). same_item (j_request j) it (j_request x) \<longrightarrow> j_phase x = Superseded)"
  shows "rev_ok (appended uid j st)"
proof -
  have rev: "b_revisions (appended uid j st) = b_revisions st" by (simp add: appended_def)
  have old: "j_phase x = Superseded"
    if x: "x \<in> set (jobs_of st)" "item (j_request x) = Some (it, n)"
      "same_item (j_request x) it (j_request j)" for x it n
  proof -
    obtain m where "item (j_request j) = Some (it, m)" "consumer (j_request j) = consumer (j_request x)"
      using x(3) by (auto simp: same_item_def split: option.splits)
    then show ?thesis using new [of it m] x by (simp add: same_item_def)
  qed
  have "\<exists>w. map_of (b_revisions st) (consumer (j_request x), it) = Some w \<and> n \<le> w
      \<and> (j_phase x \<noteq> Superseded \<longrightarrow> n = w)"
    if "x \<in> insert j (set (jobs_of st))" "item (j_request x) = Some (it, n)" for x it n
    using that r new [of it n] unfolding rev_ok_def by blast
  moreover have "j_id x = j_id y"
    if "x \<in> insert j (set (jobs_of st))" "y \<in> insert j (set (jobs_of st))"
      "item (j_request x) = Some (it, n)" "same_item (j_request x) it (j_request y)"
      "j_phase x \<noteq> Superseded" "j_phase y \<noteq> Superseded" for x y it n
  proof (cases "x = j \<or> y = j")
    case True
    then show ?thesis using that new [of it n] old [of x it n] by auto
  next
    case False
    then show ?thesis using that r unfolding rev_ok_def by blast
  qed
  moreover have "set (jobs_of (appended uid j st)) = insert j (set (jobs_of st))" by simp
  ultimately show ?thesis unfolding rev_ok_def rev by blast
qed

lemma table_ok_append:
  assumes ok: "table_ok cfg st" and room: "length (b_jobs st) < cfg_capacity cfg"
    and uid: "uid \<notin> fst ` set (b_jobs st)" and wf: "wf_request r"
    and j: "j = new_job uid r (Suc (b_sequence st)) (b_next_flag st) t inst"
    and new: "\<And>it n. item r = Some (it, n) \<Longrightarrow> map_of (b_revisions st) (consumer r, it) = Some n
      \<and> (\<forall>x \<in> set (jobs_of st). same_item r it (j_request x) \<longrightarrow> j_phase x = Superseded)"
  shows "table_ok cfg (appended uid j st)"
proof -
  let ?st = "appended uid j st"
  note ids = table_okD(1) [OF ok]
  have f: "j_id j = uid" "j_sequence j = Suc (b_sequence st)" "j_cancel j = b_next_flag st"
    "j_request j = r" "j_phase j = Queued" "\<not> j_promoted j"
    by (simp_all add: j new_job_def)
  have b: "b_jobs st = map (\<lambda>j. (j_id j, j)) (jobs_of st)" using ids by (simp add: ids_ok_def)
  have "fst ` set (b_jobs st) = j_id ` set (jobs_of st)"
    using arg_cong [OF ids_ok_keys [OF ids], of set] by simp
  then have "uid \<notin> j_id ` set (jobs_of st)" using uid by simp
  moreover have "b_jobs ?st = map (\<lambda>j. (j_id j, j)) (jobs_of ?st)"
    unfolding jobs_of_appended using b f(1) by (simp add: appended_def)
  ultimately have "ids_ok ?st" using ids f by (simp add: ids_ok_def)
  moreover have "seq_ok ?st"
    using table_okD(2) [OF ok] f by (auto simp: seq_ok_def)
  moreover have "flag_ok ?st"
    using table_okD(3) [OF ok] f by (auto simp: flag_ok_def)
  moreover have "promo_ok ?st"
    using table_okD(4) [OF ok] f(6) unfolding promo_ok_def jobs_of_appended set_append list.set by blast
  moreover have "jobs_ok cfg ?st"
    using table_okD(5) [OF ok] wf
    by (auto simp: jobs_ok_def job_ok_def j new_job_def terminal_def)
  moreover have "bounds_ok cfg ?st"
    using table_okD(6) [OF ok] room by (simp add: bounds_ok_def appended_def)
  moreover have "rev_ok ?st"
    by (rule rev_ok_append [OF table_okD(7) [OF ok] f(5)]) (simp add: f new)
  ultimately show ?thesis by (simp add: table_ok_def)
qed

lemma submit_sound:
  assumes ok: "table_ok cfg st" and wf: "wf_request r" and uid: "uid \<notin> fst ` set (b_jobs st)"
  shows "sound cfg {uid} st (snd (submit cfg r uid t inst st))"
proof (cases "length (b_jobs st) \<ge> cfg_capacity cfg")
  case True
  then show ?thesis using ok by (simp add: submit_def sound_refl)
next
  case room: False
  show ?thesis
  proof (cases "admit_item r t st")
    case (Inl e)
    then show ?thesis using ok room by (simp add: submit_def sound_refl)
  next
    case (Inr st1)
    let ?j = "new_job uid r (Suc (b_sequence st1)) (b_next_flag st1) t inst"
    note adm = admit_item_ok [OF ok Inr]
    have ok1: "table_ok cfg st1" using adm(1) by (simp add: sound_def)
    have keys: "fst ` set (b_jobs st1) = fst ` set (b_jobs st)" "length (b_jobs st1) = length (b_jobs st)"
      using arg_cong [OF adm(3), of set] arg_cong [OF adm(3), of length] by simp_all
    have uid1: "uid \<notin> fst ` set (b_jobs st1)" using uid keys by simp
    have st': "snd (submit cfg r uid t inst st) = appended uid ?j st1"
      using room Inr uid1 by (simp add: submit_def appended_def update_fresh Let_def)
    have "table_ok cfg (appended uid ?j st1)"
      using room keys adm(2) by (intro table_ok_append [OF ok1 _ uid1 wf refl]) auto
    moreover have "calm {uid} st1 (appended uid ?j st1)"
      by (simp add: calm_def find_job_appended [OF uid1] new_job_def)
    ultimately show ?thesis
      unfolding st' by (intro sound_trans [OF adm(1)]) (simp add: sound_def)
  qed
qed

section \<open>Calls\<close>

lemma apply_op_sound:
  assumes ok: "table_ok cfg st" and j: "find_job i st = Some j" and legal: "\<not> refused operation j"
  shows "sound cfg {} st (apply_op operation i t st)"
proof -
  have r: "update_job i (retry_job (b_next_flag st) t) st
      \<lparr>b_flags := (b_flags st)(b_next_flag st := False), b_next_flag := Suc (b_next_flag st)\<rparr> = retried i t st"
    by (simp add: retried_def update_job_eq table_okD(1) [OF ok])
  show ?thesis
    using legal sound_cancel [OF ok j] sound_retry [OF ok j] sound_promote [OF ok] sound_refl [OF ok]
    unfolding apply_op_def r by (auto simp: refused_def)
qed

lemma job_call_sound:
  assumes ok: "table_ok cfg st"
  shows "sound cfg {} st (snd (job_call cfg epoch operation message t st))"
  using apply_op_sound [OF ok] sound_release [OF ok] sound_refl [OF ok]
  by (auto simp: job_call_def Let_def split: option.splits)

lemma call_pass_sound:
  assumes ok: "table_ok cfg st" and uid: "uid \<notin> fst ` set (b_jobs st)"
    and wf: "\<And>r. validated = Some r \<Longrightarrow> wf_request r"
  shows "sound cfg {uid} st (snd (call_pass cfg epoch operation message validated uid t inst st))"
proof -
  let ?st = "st\<lparr>b_activity := inst\<rparr>"
  have ok1: "table_ok cfg ?st" and uid1: "uid \<notin> fst ` set (b_jobs ?st)" using ok uid by simp_all
  have weaken: "sound cfg {} ?st st' \<Longrightarrow> sound cfg {uid} ?st st'" for st'
    by (simp add: sound_def calm_def)
  have "sound cfg {uid} ?st (snd (call_pass cfg epoch operation message validated uid t inst st))"
    using submit_sound [OF ok1 wf uid1] weaken [OF sound_list [OF ok1]]
      weaken [OF job_call_sound [OF ok1]] sound_refl [OF ok1]
    by (auto simp: call_pass_def Let_def split_def split: option.splits)
  then show ?thesis by (rule sound_trans [OF sound_activity [OF ok]])
qed

lemma call_sound:
  assumes ok: "table_ok cfg st" and uid: "uid \<notin> fst ` set (b_jobs st)"
  shows "sound cfg {uid} st (snd (call cfg compile size_of epoch message uid t inst st))"
proof -
  have "sound cfg {uid} st (snd (call_pass cfg epoch operation message (Some r) uid t inst st))"
    if "request_of compile size_of m = Inr r" for operation r m
    using request_of_wf [OF that] by (intro call_pass_sound [OF ok uid]) auto
  moreover have "sound cfg {uid} st (snd (call_pass cfg epoch operation message None uid t inst st))" for operation
    by (intro call_pass_sound [OF ok uid]) auto
  ultimately show ?thesis
    using sound_refl [OF ok]
    by (auto simp: call_def split: sum.split)
qed

section \<open>The system\<close>

lemma initial_inv: "initial s \<Longrightarrow> broker_inv env s"
  by (auto simp: initial_def broker_inv_def new_broker_def table_defs flights_ok_def jobs_of_def)

lemma sound_inv:
  assumes "broker_inv env s" "sound (e_config env) N (s_state s) st'" "N \<inter> f_id ` set (s_flights s) = {}"
  shows "broker_inv env (s\<lparr>s_state := st'\<rparr>)"
  using assms by (auto simp: broker_inv_def sound_def table_ok_def intro!: calm_flights)

lemma report_inv:
  assumes inv: "broker_inv env s" and f: "f \<in> set (s_flights s)"
    and st': "st' = work_finish (e_config env) (f_id f) (check_answer (f_request f) a) t inst (s_state s)"
  shows "broker_inv env \<lparr>s_state = st', s_flights = remove1 f (s_flights s)\<rparr>"
proof -
  let ?fs = "s_flights s" and ?st = "s_state s" and ?cfg = "e_config env"
  have ok: "table_ok ?cfg ?st" and fl: "flights_ok ?cfg s" using inv by (simp_all add: broker_inv_def)
  have fok: "flight_ok ?st f" using fl f by (simp add: flights_ok_def)
  have ok': "table_ok ?cfg st'" unfolding st' by (rule work_finish_table [OF ok fok refl])
  note ids = table_okD(1) [OF ok] and ids' = table_okD(1) [OF ok']
  note find = find_work_finish [OF ids, where i = "f_id f", folded st']
  have dist: "distinct (map f_id ?fs)" using fl by (simp add: flights_ok_def)
  have rest: "f_id g \<noteq> f_id f" if "g \<in> set (remove1 f ?fs)" for g
    using that dist f by (auto simp: distinct_map inj_on_def)
  have ids_rest: "f_id ` set (remove1 f ?fs) = f_id ` set ?fs - {f_id f}"
    using dist f by (auto simp: distinct_map inj_on_def)
  have "flight_ok st' g" if g: "g \<in> set (remove1 f ?fs)" for g
  proof -
    have "flight_ok ?st g" using g fl notin_set_remove1 by (fastforce simp: flights_ok_def)
    moreover have "find_job (f_id g) st' = find_job (f_id g) ?st"
      using rest [OF g] unfolding st' by (simp add: find_work_finish [OF ids] split: option.split)
    ultimately show ?thesis by (simp add: flight_ok_def)
  qed
  moreover have "j_id j' \<in> f_id ` set (remove1 f ?fs)" if j': "j' \<in> set (jobs_of st')" "j_phase j' = Running" for j'
  proof -
    have "find_job (j_id j') st' = Some j'" using j' ids' by (simp add: find_job_Some)
    then obtain j where j: "find_job (j_id j') ?st = Some j"
      "j' = (if j_id j' = f_id f \<and> \<not> terminal j
         then outcome_job ?cfg (check_answer (f_request f) a) t inst j else j)"
      unfolding st' by (auto simp: find_work_finish [OF ids] split: option.splits)
    have "\<not> (j_id j' = f_id f \<and> \<not> terminal j)"
    proof
      assume "j_id j' = f_id f \<and> \<not> terminal j"
      then have "j' = outcome_job ?cfg (check_answer (f_request f) a) t inst j" using j(2) by presburger
      then show False
        using j'(2) outcome_job_phase [of ?cfg "check_answer (f_request f) a" t inst j] by force
    qed
    then have eq: "j' = j" using j(2) by metis
    then have "j_id j' \<noteq> f_id f" using \<open>\<not> (j_id j' = f_id f \<and> \<not> terminal j)\<close> j'(2) by (auto simp: terminal_def)
    moreover have "j_id j' \<in> f_id ` set ?fs"
      using j(1) eq j'(2) fl ids unfolding flights_ok_def by (metis find_job_Some)
    ultimately show ?thesis by (simp add: ids_rest)
  qed
  moreover have "distinct (map f_id (remove1 f ?fs))"
    using dist by (simp add: distinct_map inj_on_def)
  moreover have "length (remove1 f ?fs) \<le> worker_count ?cfg"
    using fl by (auto simp: flights_ok_def length_remove1)
  ultimately show ?thesis using ok' by (simp add: broker_inv_def flights_ok_def)
qed

lemma pick_inv:
  assumes inv: "broker_inv env s" and p: "work_pick t inst (s_state s) = (st', Picked i r c)"
    and room: "length (s_flights s) < worker_count (e_config env)"
  shows "broker_inv env \<lparr>s_state = st', s_flights = \<lparr>f_id = i, f_request = r, f_cancel = c\<rparr> # s_flights s\<rparr>"
proof -
  let ?cfg = "e_config env" and ?st1 = "requeue_due inst (s_state s)"
  obtain j where j: "j \<in> set (jobs_of ?st1)" "j_phase j = Queued" "i = j_id j" "r = j_request j"
    "c = j_cancel j" "st' = update_job i (start_job t) ?st1"
    by (rule work_pick_Picked [OF p])
  have ok: "table_ok ?cfg (s_state s)" using inv by (simp add: broker_inv_def)
  have s: "sound ?cfg {} (s_state s) ?st1" by (rule sound_requeue_due [OF ok])
  then have ok1: "table_ok ?cfg ?st1" by (simp add: sound_def)
  have "broker_inv env (s\<lparr>s_state := ?st1\<rparr>)" by (rule sound_inv [OF inv s]) simp
  then have "flights_ok ?cfg \<lparr>s_state = ?st1, s_flights = s_flights s\<rparr>"
    by (simp add: broker_inv_def flights_ok_def)
  moreover have find: "find_job i ?st1 = Some j"
    using j table_okD(1) [OF ok1] by (simp add: find_job_Some)
  ultimately have "flights_ok ?cfg \<lparr>s_state = update_job i (start_job t) ?st1,
      s_flights = \<lparr>f_id = i, f_request = j_request j, f_cancel = j_cancel j\<rparr> # s_flights s\<rparr>"
    by (intro pick_flights [OF ok1 _ _ j(2) room])
  moreover have "table_ok ?cfg (update_job i (start_job t) ?st1)"
    by (rule pick_table [OF ok1 find j(2)])
  ultimately show ?thesis by (simp add: broker_inv_def j(4-6))
qed

lemma step_inv:
  assumes inv: "broker_inv env s" and step: "broker_step env s s'"
  shows "broker_inv env s'"
proof -
  have ok: "table_ok (e_config env) (s_state s)" using inv by (simp add: broker_inv_def)
  from step show ?thesis
  proof cases
    case (pick t inst st' i r c)
    then show ?thesis using pick_inv [OF inv] by simp
  next
    case (sleep t inst st' d)
    then show ?thesis
      using sound_inv [OF inv sound_requeue_due [OF ok]] by (simp add: work_pick_Sleep [OF sleep(2)])
  next
    case (select f sel t st')
    then show ?thesis using sound_inv [OF inv sound_select [OF ok]] by simp
  next
    case (report f st' a t inst)
    then show ?thesis using report_inv [OF inv] by simp
  next
    case (client uid message t inst answer st')
    have "snd (call (e_config env) (e_compile env) (e_size env) (e_epoch env) message uid t inst (s_state s)) = st'"
      using client by simp
    then have "sound (e_config env) {uid} (s_state s) st'"
      using call_sound [OF ok client(2)] by metis
    then show ?thesis using client(1,3) by (simp add: sound_inv [OF inv])
  next
    case (shutdown t)
    then show ?thesis using sound_inv [OF inv sound_close [OF ok]] by simp
  next
    case erase
    then show ?thesis using ok
      by (simp add: broker_inv_def flights_ok_def clear_def table_defs jobs_of_def)
  qed
qed

interpretation broker: invariant_system initial "broker_step env" "broker_inv env" for env
  by unfold_locales (auto intro: initial_inv step_inv)

end
