(* ===== verification/Broker_Interface.thy ===== *)
theory Broker_Interface
  imports Broker_Theorems
begin

text \<open>
  The broker as its clients see it: the life cycle of a job over any step of the system, what
  a refused call changes, what the listing reveals, and what an admitted request satisfies.
\<close>

section \<open>The life of a job\<close>

definition life_graph :: "(phase \<times> phase) set" where
  "life_graph =
     {(Queued, Running), (Retrying, Queued), (Retrying, Running), (Running, Succeeded),
      (Running, Failed), (Running, Retrying), (Failed, Queued), (Queued, Cancelled),
      (Running, Cancelled), (Retrying, Cancelled)}"

definition life :: "job \<Rightarrow> job \<Rightarrow> bool" where
  "life j j' \<longleftrightarrow> j_request j' = j_request j
     \<and> (j_phase j' = j_phase j \<or> j_phase j' = Superseded \<or> (j_phase j, j_phase j') \<in> life_graph)"

definition evolves :: "bstate \<Rightarrow> bstate \<Rightarrow> bool" where
  "evolves st st' \<longleftrightarrow> (\<forall>i j. find_job i st = Some j \<longrightarrow> (\<exists>j'. find_job i st' = Some j' \<and> life j j'))"

lemma life_refl [simp]: "life j j"
  by (simp add: life_def)

lemma evolves_same: "(\<And>i. find_job i st' = find_job i st) \<Longrightarrow> evolves st st'"
  by (simp add: evolves_def)

lemma evolves_map:
  assumes "ids_ok st" "keeps_id g" "\<And>i. find_job i st' = find_job i (map_jobs g st)"
    and "\<And>j. j \<in> set (jobs_of st) \<Longrightarrow> life j (g j)"
  shows "evolves st st'"
  using assms(1,2,4) by (auto simp: evolves_def assms(3) find_job_map_jobs find_job_Some)

lemma evolves_finish_where:
  assumes ok: "ids_ok st" and ph: "ph = Superseded \<or> ph = Cancelled \<and> (\<forall>j. p j \<longrightarrow> \<not> terminal j)"
  shows "evolves st (finish_where p ph e t st)"
proof (rule evolves_map [OF ok])
  show "keeps_id (\<lambda>j. if p j then finish_job ph e t j else j)"
    by (simp add: keeps_id_def finish_job_def)
  show "find_job i (finish_where p ph e t st)
      = find_job i (map_jobs (\<lambda>j. if p j then finish_job ph e t j else j) st)" for i
    by (simp add: finish_where_eq)
  show "life j (if p j then finish_job ph e t j else j)" for j
    using ph by (cases "j_phase j") (auto simp: life_def finish_job_def life_graph_def terminal_def)
qed

lemma evolves_update:
  assumes ok: "ids_ok st" and f: "keeps_id f" and j: "find_job i st = Some j" and l: "life j (f j)"
    and st': "\<And>k. find_job k st' = find_job k (map_jobs (on_id i f) st)"
  shows "evolves st st'"
  using j l by (auto simp: evolves_def st' find_on_id [OF ok f])

lemma evolves_admit:
  assumes ok: "table_ok cfg st" and adm: "admit_item r t st = Inr st1"
  shows "evolves st st1"
proof (cases "item r")
  case None
  then show ?thesis using adm by (simp add: admit_item_def evolves_same)
next
  case (Some p)
  have "st1 = finish_where (\<lambda>j. same_item r (fst p) (j_request j)) Superseded None t
      (st\<lparr>b_revisions := AList.update (consumer r, fst p) (snd p) (b_revisions st)\<rparr>)"
    using adm Some by (auto simp: admit_item_def Let_def split_def split: if_splits)
  moreover have "ids_ok (st\<lparr>b_revisions := AList.update (consumer r, fst p) (snd p) (b_revisions st)\<rparr>)"
    using ok by (simp add: table_ok_def)
  ultimately have "evolves (st\<lparr>b_revisions := AList.update (consumer r, fst p) (snd p) (b_revisions st)\<rparr>) st1"
    using evolves_finish_where by auto
  then show ?thesis by (simp add: evolves_def)
qed

lemma evolves_submit:
  assumes ok: "table_ok cfg st" and uid: "uid \<notin> fst ` set (b_jobs st)"
  shows "evolves st (snd (submit cfg r uid t inst st))"
proof (cases "length (b_jobs st) \<ge> cfg_capacity cfg")
  case True
  then show ?thesis by (simp add: submit_def evolves_same)
next
  case room: False
  show ?thesis
  proof (cases "admit_item r t st")
    case (Inl e)
    then show ?thesis using room by (simp add: submit_def evolves_same)
  next
    case (Inr st1)
    have e: "evolves st st1" by (rule evolves_admit [OF ok Inr])
    have uid1: "uid \<notin> fst ` set (b_jobs st1)"
      using uid arg_cong [OF admit_item_ok(3) [OF ok Inr], of set] by simp
    have "snd (submit cfg r uid t inst st)
        = appended uid (new_job uid r (Suc (b_sequence st1)) (b_next_flag st1) t inst) st1"
      using room Inr uid1 by (simp add: submit_def appended_def update_fresh Let_def)
    moreover have "\<exists>j'. find_job i (appended uid x st1) = Some j' \<and> life j j'"
      if j: "find_job i st = Some j" for i j x
    proof -
      have "i \<noteq> uid" using j uid map_of_Some_key by (metis find_job_def)
      then show ?thesis using e j by (simp add: evolves_def find_job_appended [OF uid1])
    qed
    ultimately show ?thesis unfolding evolves_def by simp
  qed
qed

lemma evolves_apply:
  assumes ok: "table_ok cfg st" and j: "find_job i st = Some j" and legal: "\<not> refused operation j"
  shows "evolves st (apply_op operation i t st)"
proof -
  note ids = table_okD(1) [OF ok]
  have cancel: "evolves st (finish i Cancelled None t st)" if live: "\<not> terminal j"
  proof (rule evolves_update [OF ids keeps_id_steps(1) j])
    show "life j (finish_job Cancelled None t j)"
      using live by (cases "j_phase j") (auto simp: life_def finish_job_def life_graph_def terminal_def)
  qed (simp add: finish_eq [OF ids j])
  have retry: "evolves st (update_job i (retry_job (b_next_flag st) t) st
      \<lparr>b_flags := fl, b_next_flag := n\<rparr>)" if "j_phase j = Failed" for fl n
    by (rule evolves_update [OF ids keeps_id_steps(5) j])
      (use that in \<open>simp_all add: life_def retry_job_def life_graph_def update_job_eq [OF ids]\<close>)
  have "evolves st (promote i t st)"
    unfolding promote_eq [OF ids]
    by (rule evolves_map [OF ids keeps_promoted refl]) (simp add: promoted_job_def life_def)
  then show ?thesis
    using legal cancel retry unfolding apply_op_def by (auto simp: refused_def evolves_same)
qed

definition kept_live :: "bstate \<Rightarrow> bstate \<Rightarrow> bool" where
  "kept_live st st' \<longleftrightarrow> (\<forall>i j. find_job i st = Some j \<longrightarrow>
     (find_job i st' = None \<and> terminal j) \<or> (\<exists>j'. find_job i st' = Some j' \<and> life j j'))"

lemma evolves_kept: "evolves st st' \<Longrightarrow> kept_live st st'"
  by (auto simp: evolves_def kept_live_def)

lemma kept_job_call:
  assumes ok: "table_ok cfg st"
  shows "kept_live st (snd (job_call cfg epoch operation message t st))"
proof -
  have rel: "kept_live st (release cfg i j t st)" if "find_job i st = Some j" "terminal j" for i j
    using that by (auto simp: kept_live_def release_def find_job_delete table_okD(1) [OF ok])
  show ?thesis
    using evolves_kept [OF evolves_apply [OF ok]] rel evolves_kept [OF evolves_same [of st st]]
    by (auto simp: job_call_def Let_def refused_def split: option.splits)
qed

lemma kept_call:
  assumes ok: "table_ok cfg st" and uid: "uid \<notin> fst ` set (b_jobs st)"
  shows "kept_live st (snd (call cfg compile size_of epoch message uid t inst st))"
proof -
  let ?st = "st\<lparr>b_activity := inst\<rparr>"
  have ok1: "table_ok cfg ?st" and uid1: "uid \<notin> fst ` set (b_jobs ?st)" using ok uid by simp_all
  have same: "kept_live st st'" if "kept_live ?st st'" for st' using that by (simp add: kept_live_def)
  have refl: "kept_live st' st'" for st' by (rule evolves_kept [OF evolves_same]) simp
  have l: "kept_live ?st (snd (list_jobs cfg t ?st))"
    by (rule evolves_kept [OF evolves_same]) (simp add: list_jobs_state)
  have pass: "kept_live st (snd (call_pass cfg epoch operation message validated uid t inst st))"
    for operation validated
    by (rule same) (auto simp: call_pass_def Let_def split_def l refl evolves_kept [OF evolves_submit [OF ok1 uid1]]
      kept_job_call [OF ok1] split: option.split)
  then show ?thesis
    using refl by (auto simp: call_def split: sum.split)
qed

lemma find_requeue_list:
  "table_ok cfg st \<Longrightarrow> (\<And>i. i \<in> set is \<Longrightarrow> \<exists>j. find_job i st = Some j \<and> j_phase j \<in> {Retrying, Queued})
     \<Longrightarrow> find_job k st = Some j
     \<Longrightarrow> \<exists>j'. find_job k (fold requeue is st) = Some j' \<and> j_request j' = j_request j
          \<and> (j_phase j' = j_phase j \<or> j_phase j = Retrying \<and> j_phase j' = Queued)"
proof (induction "is" arbitrary: st j)
  case (Cons i "is")
  note find = find_requeue [OF table_okD(1) [OF Cons.prems(1)]]
  obtain x where x: "find_job i st = Some x" "j_phase x \<in> {Retrying, Queued}"
    using Cons.prems(2) [of i] by auto
  have ok: "table_ok cfg (requeue i st)"
    using sound_requeue [OF Cons.prems(1) x] by (simp add: sound_def)
  have rest: "\<exists>j. find_job l (requeue i st) = Some j \<and> j_phase j \<in> {Retrying, Queued}" if "l \<in> set is" for l
    using that Cons.prems(2) [of l] by (auto simp: find)
  obtain y where y: "find_job k (requeue i st) = Some y" "j_request y = j_request j"
    "j_phase y = j_phase j \<or> j_phase j = Retrying \<and> j_phase y = Queued"
    using Cons.prems(3) x by (cases "k = i") (auto simp: find)
  show ?case using Cons.IH [OF ok rest y(1)] y by auto
qed auto

lemma evolves_requeue_due:
  assumes ok: "table_ok cfg st" and j: "find_job k st = Some j"
  shows "\<exists>j'. find_job k (requeue_due inst st) = Some j' \<and> j_request j' = j_request j
    \<and> (j_phase j' = j_phase j \<or> j_phase j = Retrying \<and> j_phase j' = Queued)"
  unfolding requeue_due_def
  by (rule find_requeue_list [OF ok _ j]) (auto simp: set_due find_job_Some table_okD(1) [OF ok])

lemma kept_pick:
  assumes ok: "table_ok cfg st" and p: "work_pick t inst st = (st', Picked i r c)"
  shows "kept_live st st'"
proof -
  let ?st1 = "requeue_due inst st"
  obtain x where x: "x \<in> set (jobs_of ?st1)" "j_phase x = Queued" "i = j_id x"
    "st' = update_job i (start_job t) ?st1"
    by (rule work_pick_Picked [OF p])
  have ids: "ids_ok ?st1" using sound_requeue_due [OF ok] by (simp add: sound_def table_ok_def)
  have find: "find_job k st' = (if k = i then map_option (start_job t) (find_job k ?st1) else find_job k ?st1)" for k
    unfolding x(4) update_job_eq [OF ids] by (rule find_on_id [OF ids keeps_id_steps(2)])
  have ix: "find_job i ?st1 = Some x" using x ids by (simp add: find_job_Some)
  have "\<exists>j'. find_job k st' = Some j' \<and> life j j'" if j: "find_job k st = Some j" for k j
  proof -
    obtain y where y: "find_job k ?st1 = Some y" "j_request y = j_request j"
      "j_phase y = j_phase j \<or> j_phase j = Retrying \<and> j_phase y = Queued"
      using evolves_requeue_due [OF ok j] by blast
    show ?thesis
      using y ix x(2) by (cases "k = i") (auto simp: find life_def start_job_def life_graph_def)
  qed
  then show ?thesis by (simp add: kept_live_def)
qed

lemma kept_step:
  assumes inv: "broker_inv env s" and step: "broker_step env s s'" and open_: "\<not> b_closed (s_state s)"
  shows "kept_live (s_state s) (s_state s')"
proof -
  have ok: "table_ok (e_config env) (s_state s)" using inv by (simp add: broker_inv_def)
  note ids = table_okD(1) [OF ok]
  from step show ?thesis
  proof cases
    case (pick t inst st' i r c)
    then show ?thesis using kept_pick [OF ok] by simp
  next
    case (sleep t inst st' d)
    have "evolves (s_state s) (requeue_due inst (s_state s))"
      using evolves_requeue_due [OF ok, of _ _ inst] by (fastforce simp: evolves_def life_def life_graph_def)
    then show ?thesis using sleep(1) by (simp add: work_pick_Sleep [OF sleep(2)] evolves_kept)
  next
    case (select f sel t st')
    then obtain j where j: "find_job (f_id f) (s_state s) = Some j"
      and st': "st' = update_job (f_id f) (\<lambda>j. j\<lparr>j_selection := Some sel, j_updated := t\<rparr>) (s_state s)"
      by (auto simp: work_select_Inr)
    have "evolves (s_state s) st'"
      unfolding st' update_job_eq [OF ids]
      by (rule evolves_update [OF ids keeps_simple(1) j _ refl]) (simp add: life_def)
    then show ?thesis using select by (simp add: evolves_kept)
  next
    case (report f st' a t inst)
    have fl: "flight_ok (s_state s) f" using inv report(2) by (simp add: broker_inv_def flights_ok_def)
    have "life j (outcome_job (e_config env) out t inst j)"
      if "find_job (f_id f) (s_state s) = Some j" "\<not> terminal j" for j out
      using that fl outcome_job_phase [of "e_config env" out t inst j]
      by (auto simp: flight_ok_def life_def life_graph_def terminal_def)
    then have "evolves (s_state s) st'"
      unfolding report(3) evolves_def find_work_finish [OF ids] by auto
    then show ?thesis using report by (simp add: evolves_kept)
  next
    case (client uid message t inst answer st')
    have "snd (call (e_config env) (e_compile env) (e_size env) (e_epoch env) message uid t inst (s_state s)) = st'"
      using client by simp
    then show ?thesis using kept_call [OF ok client(2)] client(1) by simp metis
  next
    case (shutdown t)
    have i1: "ids_ok ((s_state s)\<lparr>b_closed := True\<rparr>)" using ids by simp
    have "evolves ((s_state s)\<lparr>b_closed := True\<rparr>) (close t (s_state s))"
      unfolding close_def by (rule evolves_finish_where [OF i1]) auto
    then have "evolves (s_state s) (close t (s_state s))" by (simp add: evolves_def)
    then show ?thesis using shutdown by (simp add: evolves_kept)
  next
    case erase
    then show ?thesis using open_ by simp
  qed
qed

text \<open>C4: While the broker is open no step loses a live job or changes its request, and the
  state of a job only moves along the documented life cycle: a job that is not listed any more
  had ended (its client released it).\<close>

theorem job_lifecycle:
  assumes "reachable env s" "broker_step env s s'" "\<not> b_closed (s_state s)"
    and "find_job i (s_state s) = Some j"
  shows "(find_job i (s_state s') = None \<and> terminal j)
    \<or> (\<exists>j'. find_job i (s_state s') = Some j' \<and> j_request j' = j_request j
        \<and> (j_phase j' = j_phase j \<or> j_phase j' = Superseded \<or> (j_phase j, j_phase j') \<in> life_graph))"
  using kept_step [OF reachable_inv [OF assms(1)] assms(2,3)] assms(4)
  by (simp add: kept_live_def life_def)

theorem job_lifecycle_witness:
  "\<exists>j'. find_job ''u1'' (close 9 demo_state) = Some j' \<and> j_request j' = demo_req"
proof -
  have f: "find_job ''u1'' (s_state demo_system) = Some demo_job" "\<not> b_closed (s_state demo_system)"
    by (simp_all add: demo_system_def demo_state_def find_job_def)
  have "\<not> terminal demo_job" "j_request demo_job = demo_req"
    by (simp_all add: terminal_def demo_jobs) (simp add: demo_job_def new_job_def)
  then show ?thesis
    using job_lifecycle [OF demo_reachable broker_step.shutdown f(2,1), of 9]
    by (auto simp: demo_system_def)
qed

section \<open>Refusals\<close>

lemma refused_pass:
  "call_pass cfg epoch operation message validated uid t inst st = (Inl e, st')
     \<Longrightarrow> st' = st\<lparr>b_activity := inst\<rparr>"
  by (auto simp: call_pass_def submit_def list_jobs_def job_call_def Let_def
      split: option.splits if_splits sum.splits)

text \<open>A refused call changes no job, no watermark, no retired entry and no flag; only the
  activity stamp may move.\<close>

theorem refusal_changes_nothing:
  assumes "call cfg compile size_of epoch message uid t inst st = (Inl e, st')"
  shows "st' = st \<or> st' = st\<lparr>b_activity := inst\<rparr>"
  using assms refused_pass
  by (auto simp: call_def split: sum.splits if_splits)

definition demo_stale :: json where
  "demo_stale = JObj [(''op'', JStr ''cancel''), (''id'', JStr ''u1''), (''epoch'', JStr ''old'')]"

theorem refusal_changes_nothing_witness:
  "\<exists>st'. demo_call demo_stale ''u2'' demo_state = (Inl Broker_restarted, st')
     \<and> (st' = demo_state \<or> st' = demo_state\<lparr>b_activity := 7\<rparr>)"
proof -
  have c: "call_check demo_stale = Inr ''cancel''" by code_simp
  have e: "json_index demo_stale ''epoch'' = JStr ''old''" by code_simp
  have "demo_call demo_stale ''u2'' demo_state = (Inl Broker_restarted, demo_state\<lparr>b_activity := 7\<rparr>)"
    by (simp add: demo_call_def call_def c call_pass_def job_call_def e demo_state_def)
  then show ?thesis
    using refusal_changes_nothing [of default_config _ _ "''e''" demo_stale] by (simp add: demo_call_def)
qed

section \<open>The listing\<close>

text \<open>
  What the listing may reveal of a job: its metadata. \<open>redacted\<close> erases the prompt, the
  context, the schemas, the item and the result.
\<close>

definition redacted :: "job \<Rightarrow> job" where
  "redacted j = j\<lparr>j_result := None, j_request := \<lparr>req_value = JObj
     (map (\<lambda>k. (k, json_index (req_value (j_request j)) k)) [''consumer'', ''label'', ''class'']),
     req_validator = (\<lambda>_. False)\<rparr>\<rparr>"

lemma insort_key_map: "insort_key f (g x) (map g xs) = map g (insort_key (\<lambda>y. f (g y)) x xs)"
  by (induction xs) auto

lemma sort_key_map: "sort_key f (map g xs) = map g (sort_key (\<lambda>y. f (g y)) xs)"
  by (induction xs) (simp_all add: insort_key_map)

lemma redacted_index: "k \<in> {''consumer'', ''label'', ''class''} \<Longrightarrow>
    json_index (req_value (j_request (redacted j))) k = json_index (req_value (j_request j)) k"
  by (auto simp: redacted_def json_index_def)

lemma redacted_view:
  "metadata_of t m (redacted j) = metadata_of t m j" "queue_key (redacted j) = queue_key j"
  "j_phase (redacted j) = j_phase j" "terminal (redacted j) = terminal j"
  "j_sequence (redacted j) = j_sequence j" "j_updated (redacted j) = j_updated j"
proof -
  show a: "j_phase (redacted j) = j_phase j" "terminal (redacted j) = terminal j"
    "j_sequence (redacted j) = j_sequence j" "j_updated (redacted j) = j_updated j"
    by (simp_all add: redacted_def terminal_def)
  have "interactive (j_request (redacted j)) = interactive (j_request j)"
    by (simp add: interactive_def redacted_index)
  then show "queue_key (redacted j) = queue_key j"
    by (simp add: queue_key_def a) (simp add: redacted_def)
  show "metadata_of t m (redacted j) = metadata_of t m j"
    by (simp add: metadata_of_def redacted_index) (simp add: redacted_def)
qed

text \<open>The listing reveals no prompt, context, schema or result: erasing them from every
  job leaves the reply unchanged.\<close>

theorem list_private:
  "fst (list_jobs cfg t (map_jobs redacted st)) = fst (list_jobs cfg t st)"
proof -
  have jobs: "jobs_of (map_jobs redacted (st\<lparr>b_retired := ms\<rparr>)) = map redacted (jobs_of st)" for ms
    by simp
  have retired: "(map_jobs redacted st)\<lparr>b_retired := ms\<rparr> = map_jobs redacted (st\<lparr>b_retired := ms\<rparr>)" for ms
    by (simp add: map_jobs_def)
  show ?thesis
    unfolding list_jobs_def Let_def retired queue_def jobs
    by (simp add: filter_map sort_key_map comp_def redacted_view map_jobs_def)
qed

section \<open>Admission\<close>

text \<open>The inspection of a value succeeds exactly when the value is within its depth limit
  and node budget, every number literal is in range and, in a schema, no object holds a
  reference keyword; on success it has spent exactly one unit of budget per node.\<close>

theorem inspect_exact:
  "inspect sch d n v =
     (if d + json_depth v \<le> (if sch then 32 else 64) \<and> numbers_ok v \<and> (sch \<longrightarrow> refless v)
         \<and> json_nodes v \<le> n then Some (n - json_nodes v) else None)"
  by (simp add: inspect_eq within_bounds_def depth_limit_def)

theorem inspect_exact_witness:
  "inspect True 0 4 (JObj [(''a'', JArr [JNull, JBool True])]) = Some 0
   \<and> inspect True 0 4 (JObj [(''$ref'', JNull)]) = None"
  by (simp add: inspect_exact reference_keys_def)

lemma request_of_input:
  "request_of compile size_of v = Inr r \<Longrightarrow>
     \<exists>input. schema compile size_of (json_index v ''input'') = Inr input \<and> input (json_index v ''context'')"
  unfolding request_of_def by (auto split: option.split_asm if_split_asm sum.split_asm)

text \<open>An admitted request names its consumer by a short plain identifier, has a label free
  of control characters, an item only with a revision below 2 to the 63, a context within the
  structural bounds that its input schema accepts, and an output validator compiled from a
  schema document within the limits.\<close>

theorem request_admitted:
  assumes "request_of compile size_of v = Inr r"
  shows "wf_request r \<and> req_value r = v
    \<and> (\<exists>input. schema compile size_of (json_index v ''input'') = Inr input \<and> input (json_index v ''context''))
    \<and> (\<exists>document. json_get (json_index v ''output'') ''schema'' = Some document
        \<and> compile document = Some (req_validator r) \<and> json_nodes document \<le> 4096
        \<and> json_depth document \<le> 32 \<and> refless document \<and> pattern_count document \<le> 32
        \<and> size_of document \<le> 64 * 1024)"
  using request_of_wf [OF assms] request_of_input [OF assms] request_of_Inr(1) [OF assms]
    schema_Inr [OF request_of_Inr(7) [OF assms]] by blast

theorem request_admitted_witness: "wf_request demo_req"
  using request_admitted [OF demo_request_of] by blast

end
