(* ===== verification/Broker_Runner.thy ===== *)
theory Broker_Runner
  imports Complex_Main Broker_Validation
begin

text \<open>
  What the broker accepts from a model process: the event streams of Codex
  (\<open>broker/src/runner.rs\<close>, with the tool policy of \<open>runtime/src/codex.rs\<close>) and of Claude
  (\<open>broker/src/routing.rs\<close>), the choice of the provider from the quota probe, the fallback over
  the Claude tiers, and the health snapshot (\<open>broker/src/health.rs\<close>).

  Parsing of a line (\<open>serde_json::from_slice\<close>) and the reading of a number as an \<open>f64\<close> are
  parameters; \<open>f64\<close> values are exact rationals.
\<close>

type_synonym parser = "string \<Rightarrow> json option"

definition event_lines :: "string \<Rightarrow> string list" where
  "event_lines bytes = filter (\<lambda>l. l \<noteq> []) (split_on (CHR 0x0A) bytes)"

definition is_type :: "json \<Rightarrow> string \<Rightarrow> string \<Rightarrow> bool" where
  "is_type event key s \<longleftrightarrow> json_index event key = JStr s"

section \<open>Codex events\<close>

definition tool_kinds :: "string list" where
  "tool_kinds = [''command_execution'', ''mcp_tool_call'', ''web_search'', ''file_change'',
     ''image_generation'', ''tool_call'', ''collab_tool_call'']"

definition tool_event :: "json \<Rightarrow> bool" where
  "tool_event event = (case as_str (json_index (json_index event ''item'') ''type'') of
     None \<Rightarrow> False | Some k \<Rightarrow> k \<in> set tool_kinds)"

record stream =
  st_answer :: "string option"
  st_usage :: json
  st_completed :: bool

definition usage_of :: "json \<Rightarrow> json" where
  "usage_of event = JObj
     [(''input'', json_index (json_index event ''usage'') ''input_tokens''),
      (''output'', json_index (json_index event ''usage'') ''output_tokens'')]"

definition codex_answer :: "json \<Rightarrow> string option \<Rightarrow> failure + string option" where
  "codex_answer event old =
     (case json_get event ''item'' of
        None \<Rightarrow> Inr old
      | Some it \<Rightarrow>
        if is_type it ''type'' ''agent_message'' \<and> is_type event ''type'' ''item.completed''
        then (case as_str (json_index it ''text'') of
                None \<Rightarrow> Inl Invalid_output | Some t \<Rightarrow> Inr (Some t))
        else Inr old)"

definition codex_event :: "json \<Rightarrow> stream \<Rightarrow> failure + stream" where
  "codex_event event s =
     (if \<not> is_object event then Inl Runtime_failure
      else if tool_event event then Inl Isolation_failure
      else
        (case codex_answer event (st_answer s) of
           Inl e \<Rightarrow> Inl e
         | Inr a \<Rightarrow>
           (let s1 = s\<lparr>st_answer := a\<rparr>;
                s2 = (if is_type event ''type'' ''turn.completed''
                      then s1\<lparr>st_completed := True, st_usage := usage_of event\<rparr> else s1)
            in if is_type event ''type'' ''turn.failed'' \<or> is_type event ''type'' ''error''
               then Inl Model_failure else Inr s2)))"

fun codex_stream :: "parser \<Rightarrow> string list \<Rightarrow> stream \<Rightarrow> failure + stream" where
  "codex_stream parse [] s = Inr s"
| "codex_stream parse (l # ls) s =
     (if length l > max_message * 2 then Inl Runtime_failure
      else
        (case parse l of
           None \<Rightarrow> Inl Runtime_failure
         | Some event \<Rightarrow>
           (case codex_event event s of
              Inl e \<Rightarrow> Inl e
            | Inr s1 \<Rightarrow> codex_stream parse ls s1)))"

definition codex_result :: "parser \<Rightarrow> stream \<Rightarrow> failure + json \<times> json" where
  "codex_result parse s =
     (if \<not> st_completed s then Inl Model_failure
      else
        (case st_answer s of
           None \<Rightarrow> Inl Model_failure
         | Some a \<Rightarrow>
           if length a > max_message then Inl Invalid_output
           else (case parse a of None \<Rightarrow> Inl Invalid_output | Some v \<Rightarrow> Inr (v, st_usage s))))"

definition parse_events :: "parser \<Rightarrow> string \<Rightarrow> failure + json \<times> json" where
  "parse_events parse bytes =
     (case codex_stream parse (event_lines bytes)
        \<lparr>st_answer = None, st_usage = JObj [], st_completed = False\<rparr> of
        Inl e \<Rightarrow> Inl e
      | Inr s \<Rightarrow> codex_result parse s)"

section \<open>Claude events\<close>

record claude_stream =
  cs_answer :: "(json \<times> json) option"
  cs_isolated :: bool

definition non_empty_list :: "json \<Rightarrow> bool" where
  "non_empty_list v = (case as_array v of None \<Rightarrow> True | Some xs \<Rightarrow> xs \<noteq> [])"

definition tool_part :: "json \<Rightarrow> bool" where
  "tool_part part = (case as_str (json_index part ''type'') of
     None \<Rightarrow> False | Some k \<Rightarrow> k \<in> {''tool_use'', ''server_tool_use'', ''tool_result''})"

definition claude_tools :: "json \<Rightarrow> bool" where
  "claude_tools event =
     (case as_array (json_index (json_index event ''message'') ''content'') of
        None \<Rightarrow> False | Some parts \<Rightarrow> list_ex tool_part parts)"

definition claude_init :: "json \<Rightarrow> bool" where
  "claude_init event \<longleftrightarrow> is_type event ''type'' ''system'' \<and> is_type event ''subtype'' ''init''"

definition claude_answer :: "parser \<Rightarrow> json \<Rightarrow> failure + json \<times> json" where
  "claude_answer parse event =
     (if json_index event ''is_error'' \<noteq> JBool False \<or> \<not> is_type event ''subtype'' ''success''
      then Inl Model_failure
      else
        (case as_str (json_index event ''result'') of
           None \<Rightarrow> Inl Invalid_output
         | Some t \<Rightarrow>
           if length t > max_message then Inl Invalid_output
           else (case parse t of None \<Rightarrow> Inl Invalid_output | Some v \<Rightarrow> Inr (v, usage_of event))))"

definition claude_event :: "parser \<Rightarrow> json \<Rightarrow> claude_stream \<Rightarrow> failure + claude_stream" where
  "claude_event parse event s =
     (if claude_init event
         \<and> (non_empty_list (json_index event ''tools'') \<or> non_empty_list (json_index event ''mcp_servers''))
      then Inl Isolation_failure
      else
        (let s1 = s\<lparr>cs_isolated := cs_isolated s \<or> claude_init event\<rparr> in
         if claude_tools event then Inl Isolation_failure
         else if is_type event ''type'' ''result'' then
           (case claude_answer parse event of
              Inl e \<Rightarrow> Inl e
            | Inr a \<Rightarrow> Inr (s1\<lparr>cs_answer := Some a\<rparr>))
         else Inr s1))"

fun claude_run :: "parser \<Rightarrow> string list \<Rightarrow> claude_stream \<Rightarrow> failure + claude_stream" where
  "claude_run parse [] s = Inr s"
| "claude_run parse (l # ls) s =
     (if length l > max_message * 2 then Inl Runtime_failure
      else
        (case parse l of
           None \<Rightarrow> Inl Runtime_failure
         | Some event \<Rightarrow>
           (case claude_event parse event s of
              Inl e \<Rightarrow> Inl e
            | Inr s1 \<Rightarrow> claude_run parse ls s1)))"

definition claude_events :: "parser \<Rightarrow> string \<Rightarrow> failure + json \<times> json" where
  "claude_events parse bytes =
     (case claude_run parse (event_lines bytes) \<lparr>cs_answer = None, cs_isolated = False\<rparr> of
        Inl e \<Rightarrow> Inl e
      | Inr s \<Rightarrow>
        if \<not> cs_isolated s then Inl Isolation_failure
        else (case cs_answer s of None \<Rightarrow> Inl Model_failure | Some a \<Rightarrow> Inr a))"

section \<open>Routing\<close>

type_synonym number_of = "json \<Rightarrow> rat option"

definition window_used :: "number_of \<Rightarrow> json \<Rightarrow> rat option" where
  "window_used num window =
     (if json_index window ''usageKnown'' = JBool False then None
      else
        (case num (json_index window ''usedPercent'') of
           None \<Rightarrow> None
         | Some n \<Rightarrow> if 0 \<le> n \<and> n \<le> 100 then Some n else None))"

fun quota_windows :: "rat option list \<Rightarrow> bool option \<Rightarrow> bool option" where
  "quota_windows [] remaining = remaining"
| "quota_windows (None # ws) remaining = quota_windows ws remaining"
| "quota_windows (Some used # ws) remaining =
     (if used = 100 then Some False else quota_windows ws (Some True))"

definition codex_record :: "json \<Rightarrow> bool" where
  "codex_record r \<longleftrightarrow> is_type r ''provider'' ''codex'' \<and> json_get r ''error'' = None"

definition quota_records :: "json \<Rightarrow> json list" where
  "quota_records v = (case as_array v of Some xs \<Rightarrow> xs | None \<Rightarrow> [v])"

definition windows :: "number_of \<Rightarrow> json \<Rightarrow> rat option list" where
  "windows num v =
     concat (map (\<lambda>r. map (\<lambda>key. window_used num (json_index (json_index r ''usage'') key))
         [''primary'', ''secondary'', ''tertiary''])
       (filter codex_record (quota_records v)))"

definition quota_remaining :: "number_of \<Rightarrow> json \<Rightarrow> bool option" where
  "quota_remaining num v = quota_windows (windows num v) None"

text \<open>\<open>Routing::select\<close> on the answer of the probe, as model and reason.\<close>

definition route :: "bool option \<Rightarrow> string \<Rightarrow> string \<times> string" where
  "route remaining model =
     (case remaining of
        Some False \<Rightarrow> (''claude:haiku'', ''codex_quota_exhausted'')
      | Some True \<Rightarrow> (model, ''codex_quota_available'')
      | None \<Rightarrow> (model, ''codex_quota_unknown''))"

text \<open>\<open>usage["model"] = ...\<close> on an object.\<close>

fun json_set :: "json \<Rightarrow> string \<Rightarrow> json \<Rightarrow> json" where
  "json_set (JObj m) k v = JObj (AList.update k v m)"
| "json_set _ k v = JObj [(k, v)]"

fun infer_tiers :: "(string \<Rightarrow> failure + json \<times> json) \<Rightarrow> string list \<Rightarrow> failure + json \<times> json" where
  "infer_tiers run [] = Inl Model_failure"
| "infer_tiers run (tier # tiers) =
     (case run tier of
        Inr (v, usage) \<Rightarrow> Inr (v, json_set usage ''model'' (JStr (''claude:'' @ tier)))
      | Inl e \<Rightarrow> if e = Model_failure then infer_tiers run tiers else Inl e)"

definition infer ::
  "failure + json \<times> json \<Rightarrow> (string \<Rightarrow> failure + json \<times> json) \<Rightarrow> string \<Rightarrow> failure + json \<times> json" where
  "infer codex claude model =
     (if model \<noteq> ''claude:haiku'' then codex
      else infer_tiers claude [''haiku'', ''sonnet'', ''opus''])"

section \<open>Health\<close>

record health =
  h_state :: string
  h_summary :: string
  h_detail :: string
  h_success :: nat

definition health_snapshot :: "bool \<Rightarrow> int option \<Rightarrow> rat \<Rightarrow> health" where
  "health_snapshot available code clock =
     (let down = \<lparr>h_state = ''disconnected'', h_summary = ''Broker unavailable'',
        h_detail = ''The inference service is not responding.'', h_success = 0\<rparr> in
      if \<not> available then down
      else (case code of
          None \<Rightarrow> down\<lparr>h_summary := ''Codex unavailable'',
            h_detail := ''The configured Codex application could not be checked.''\<rparr>
        | Some c \<Rightarrow>
          if c = 0 then down\<lparr>h_state := ''healthy'', h_summary := ''Ready for requests'',
            h_detail := [], h_success := min u64_max (nat \<lfloor>clock * 1000\<rfloor>)\<rparr>
          else down\<lparr>h_state := ''setup-required'', h_summary := ''Sign in to Codex'',
            h_detail := ''Open a terminal and run codex login to connect your account.''\<rparr>))"

section \<open>Isolation\<close>

lemma codex_event_Inr:
  "codex_event event s = Inr s1 \<Longrightarrow> is_object event \<and> \<not> tool_event event
     \<and> \<not> is_type event ''type'' ''turn.failed'' \<and> \<not> is_type event ''type'' ''error''
     \<and> codex_answer event (st_answer s) = Inr (st_answer s1)
     \<and> st_completed s1 = (st_completed s \<or> is_type event ''type'' ''turn.completed'')"
  by (auto simp: codex_event_def Let_def split: if_splits sum.splits)

lemma codex_stream_Cons:
  "codex_stream parse (l # ls) s = Inr s' \<longleftrightarrow> length l \<le> max_message * 2
     \<and> (\<exists>event s1. parse l = Some event \<and> codex_event event s = Inr s1 \<and> codex_stream parse ls s1 = Inr s')"
  by (auto split: option.splits sum.splits)

lemma codex_answer_source:
  "codex_answer event old = Inr (Some a) \<Longrightarrow> old = Some a
     \<or> is_type event ''type'' ''item.completed''
       \<and> json_index (json_index event ''item'') ''text'' = JStr a"
  by (auto simp: codex_answer_def json_index_def split: option.splits if_splits)

text \<open>What a completed stream shows of each of its lines, of its end and of its answer.\<close>

lemma codex_stream_Inr:
  "codex_stream parse ls s = Inr s' \<Longrightarrow>
     (\<forall>l \<in> set ls. length l \<le> max_message * 2 \<and> (\<exists>event. parse l = Some event \<and> is_object event
        \<and> \<not> tool_event event \<and> \<not> is_type event ''type'' ''turn.failed''
        \<and> \<not> is_type event ''type'' ''error''))
     \<and> (st_completed s' \<longrightarrow> st_completed s
        \<or> (\<exists>l \<in> set ls. \<exists>event. parse l = Some event \<and> is_type event ''type'' ''turn.completed''))
     \<and> (\<forall>a. st_answer s' = Some a \<longrightarrow> st_answer s = Some a
        \<or> (\<exists>l \<in> set ls. \<exists>event. parse l = Some event \<and> is_type event ''type'' ''item.completed''
             \<and> json_index (json_index event ''item'') ''text'' = JStr a))"
proof (induction ls arbitrary: s)
  case (Cons l ls)
  then obtain event s1 where e: "length l \<le> max_message * 2" "parse l = Some event"
    "codex_event event s = Inr s1" "codex_stream parse ls s1 = Inr s'"
    unfolding codex_stream_Cons by blast
  note ev = codex_event_Inr [OF e(3)] and rest = Cons.IH [OF e(4)]
  have "st_answer s1 = Some a \<Longrightarrow> st_answer s = Some a \<or> is_type event ''type'' ''item.completed''
      \<and> json_index (json_index event ''item'') ''text'' = JStr a" for a
    using ev codex_answer_source [of event "st_answer s" a] by simp
  then show ?case using e(1,2) ev rest by (intro conjI) (simp; blast)+
qed simp

lemma claude_event_Inr:
  "claude_event parse event s = Inr s1 \<Longrightarrow> \<not> claude_tools event
     \<and> (claude_init event \<longrightarrow> as_array (json_index event ''tools'') = Some []
          \<and> as_array (json_index event ''mcp_servers'') = Some [])
     \<and> cs_isolated s1 = (cs_isolated s \<or> claude_init event)"
  by (auto simp: claude_event_def non_empty_list_def Let_def split: if_splits option.splits sum.splits)

lemma claude_run_Cons:
  "claude_run parse (l # ls) s = Inr s' \<longleftrightarrow> length l \<le> max_message * 2
     \<and> (\<exists>event s1. parse l = Some event \<and> claude_event parse event s = Inr s1 \<and> claude_run parse ls s1 = Inr s')"
  by (auto split: option.splits sum.splits)

lemma claude_run_Inr:
  "claude_run parse ls s = Inr s' \<Longrightarrow>
     (\<forall>l \<in> set ls. length l \<le> max_message * 2 \<and> (\<exists>event. parse l = Some event \<and> \<not> claude_tools event
        \<and> (claude_init event \<longrightarrow> as_array (json_index event ''tools'') = Some []
             \<and> as_array (json_index event ''mcp_servers'') = Some [])))
     \<and> (cs_isolated s' \<longrightarrow> cs_isolated s
        \<or> (\<exists>l \<in> set ls. \<exists>event. parse l = Some event \<and> claude_init event))"
proof (induction ls arbitrary: s)
  case (Cons l ls)
  then obtain event s1 where e: "length l \<le> max_message * 2" "parse l = Some event"
    "claude_event parse event s = Inr s1" "claude_run parse ls s1 = Inr s'"
    unfolding claude_run_Cons by blast
  note ev = claude_event_Inr [OF e(3)] and rest = Cons.IH [OF e(4)]
  show ?case using e(1,2) ev rest by (intro conjI) (simp; blast)+
qed simp

section \<open>Properties\<close>

text \<open>Codex's answer is admitted only from a stream in which every line is a bounded JSON
  object without a tool call or a failure, the turn completed, and the answer's text is the
  text of a completed item that parses as JSON; anything else is an error.\<close>

theorem codex_isolated:
  assumes "parse_events parse bytes = Inr (v, usage)"
  shows "(\<forall>l \<in> set (event_lines bytes). length l \<le> 512 * 1024 \<and> (\<exists>event. parse l = Some event
        \<and> is_object event \<and> \<not> tool_event event))
    \<and> (\<exists>l \<in> set (event_lines bytes). \<exists>event. parse l = Some event \<and> is_type event ''type'' ''turn.completed'')
    \<and> (\<exists>l \<in> set (event_lines bytes). \<exists>event a. parse l = Some event \<and> is_type event ''type'' ''item.completed''
        \<and> json_index (json_index event ''item'') ''text'' = JStr a \<and> length a \<le> 256 * 1024 \<and> parse a = Some v)"
proof -
  let ?s0 = "\<lparr>st_answer = None, st_usage = JObj [], st_completed = False\<rparr>"
  obtain s where s: "codex_stream parse (event_lines bytes) ?s0 = Inr s" "codex_result parse s = Inr (v, usage)"
    using assms by (auto simp: parse_events_def split: sum.splits)
  from s(2) obtain a where a: "st_completed s" "st_answer s = Some a" "length a \<le> max_message" "parse a = Some v"
    by (auto simp: codex_result_def split: if_splits option.splits)
  note i = codex_stream_Inr [OF s(1)]
  have m: "max_message = 256 * 1024" by (simp add: max_message_def)
  have "\<exists>l \<in> set (event_lines bytes). \<exists>event. parse l = Some event \<and> is_type event ''type'' ''item.completed''
      \<and> json_index (json_index event ''item'') ''text'' = JStr a"
    using i a(2) by simp
  moreover have "\<exists>l \<in> set (event_lines bytes). \<exists>event. parse l = Some event \<and> is_type event ''type'' ''turn.completed''"
    using i a(1) by simp
  moreover have "\<forall>l \<in> set (event_lines bytes). length l \<le> 512 * 1024 \<and> (\<exists>event. parse l = Some event
      \<and> is_object event \<and> \<not> tool_event event)"
    using i by (auto simp: m)
  ultimately show ?thesis using a(3,4) m by metis
qed

text \<open>A toy parser over one-letter lines, for the examples.\<close>

definition demo_parse :: "string \<Rightarrow> json option" where
  "demo_parse s =
     (if s = ''A'' then Some (JObj [(''type'', JStr ''item.completed''),
         (''item'', JObj [(''type'', JStr ''agent_message''), (''text'', JStr ''4'')])])
      else if s = ''T'' then Some (JObj [(''type'', JStr ''turn.completed''), (''usage'', JNull)])
      else if s = ''I'' then Some (JObj [(''type'', JStr ''system''), (''subtype'', JStr ''init''),
         (''tools'', JArr []), (''mcp_servers'', JArr [])])
      else if s = ''R'' then Some (JObj [(''type'', JStr ''result''), (''subtype'', JStr ''success''),
         (''is_error'', JBool False), (''result'', JStr ''4'')])
      else if s = ''4'' then Some (JNum ''4'')
      else None)"

theorem codex_isolated_witness:
  "fst (projr (parse_events demo_parse (''A'' @ [CHR 0x0A] @ ''T''))) = JNum ''4''
    \<and> (\<exists>l \<in> set (event_lines (''A'' @ [CHR 0x0A] @ ''T'')). \<exists>event. demo_parse l = Some event
        \<and> is_type event ''type'' ''turn.completed'')"
proof -
  have "parse_events demo_parse (''A'' @ [CHR 0x0A] @ ''T'')
      = Inr (JNum ''4'', JObj [(''input'', JNull), (''output'', JNull)])"
    by code_simp
  from codex_isolated [OF this] this show ?thesis by simp
qed

text \<open>Claude's answer is admitted only if an initial event announced no tool and no MCP
  server, no event of the stream used a tool, and every line was bounded and parsed.\<close>

theorem claude_isolated:
  assumes "claude_events parse bytes = Inr (v, usage)"
  shows "(\<forall>l \<in> set (event_lines bytes). length l \<le> 512 * 1024
        \<and> (\<exists>event. parse l = Some event \<and> \<not> claude_tools event))
    \<and> (\<exists>l \<in> set (event_lines bytes). \<exists>event. parse l = Some event \<and> claude_init event
        \<and> as_array (json_index event ''tools'') = Some []
        \<and> as_array (json_index event ''mcp_servers'') = Some [])"
proof -
  obtain s where s: "claude_run parse (event_lines bytes) \<lparr>cs_answer = None, cs_isolated = False\<rparr> = Inr s"
    "cs_isolated s"
    using assms by (auto simp: claude_events_def split: sum.splits if_splits)
  note i = claude_run_Inr [OF s(1)]
  have m: "max_message * 2 = 512 * 1024" by (simp add: max_message_def)
  show ?thesis using i s(2) unfolding m by simp (metis option.inject)
qed

theorem claude_isolated_witness:
  "claude_events demo_parse (''I'' @ [CHR 0x0A] @ ''R'')
      = Inr (JNum ''4'', JObj [(''input'', JNull), (''output'', JNull)])
    \<and> (\<exists>l \<in> set (event_lines (''I'' @ [CHR 0x0A] @ ''R'')). \<exists>event. demo_parse l = Some event \<and> claude_init event)
    \<and> claude_events demo_parse ''R'' = Inl Isolation_failure"
proof -
  have *: "claude_events demo_parse (''I'' @ [CHR 0x0A] @ ''R'')
      = Inr (JNum ''4'', JObj [(''input'', JNull), (''output'', JNull)])"
    "claude_events demo_parse ''R'' = Inl Isolation_failure"
    by code_simp+
  from claude_isolated [OF *(1)] * show ?thesis by blast
qed

lemma quota_windows_False:
  "quota_windows ws r = Some False \<longleftrightarrow> Some 100 \<in> set ws \<or> (set ws \<subseteq> {None} \<and> r = Some False)"
  by (induction ws r rule: quota_windows.induct) auto

text \<open>Work moves to Claude exactly when a codex record of the probe, before any other
  verdict, shows a known window at a hundred percent; tiers are tried upwards only on a model
  failure, so every other failure of a tier is the answer.\<close>

theorem claude_exactly_when_exhausted:
  "(fst (route (quota_remaining num v) model) = ''claude:haiku'') =
     (model = ''claude:haiku'' \<or> (\<exists>r \<in> set (quota_records v). codex_record r
        \<and> (\<exists>key \<in> {''primary'', ''secondary'', ''tertiary''}.
             window_used num (json_index (json_index r ''usage'') key) = Some 100)))"
proof -
  have "quota_remaining num v = Some False \<longleftrightarrow> Some 100 \<in> set (windows num v)"
    by (simp add: quota_remaining_def quota_windows_False)
  also have "\<dots> \<longleftrightarrow> (\<exists>r \<in> set (quota_records v). codex_record r
      \<and> (\<exists>key \<in> {''primary'', ''secondary'', ''tertiary''}.
           window_used num (json_index (json_index r ''usage'') key) = Some 100))"
    by (force simp: windows_def)
  finally show ?thesis
    by (auto simp: route_def split: option.split bool.split)
qed

end
