(* ===== verification/Maintenance_Inbox.thy ===== *)
theory Maintenance_Inbox
  imports Complex_Main "HOL-Library.Product_Lexorder" Json
begin

text \<open>
  \<open>projects/maintenance/src/model.rs\<close>: the maintenance inbox. Publishers report findings,
  which become rows with a revision; rows are resolved, snoozed and given outcomes; the whole
  inbox is persisted and shown as a snapshot.

  Conventions. \<open>f64\<close> times are exact rationals. The redaction of secrets (regular expressions)
  is the parameter \<open>secrets\<close>, the JSON quoting of a string (serde\_json) \<open>quote\<close> and SHA-256
  \<open>digest\<close>; the private file is read and written outside, so its outcome is a parameter.
  \<open>BTreeMap\<close>s are sorted association lists.
\<close>

datatype merr =
    Unregistered_source | Invalid_finding | Diagnostic_too_large | Capacity_reached
  | Revision_limit | Stale_finding | Publisher_owned | Invalid_duration | Invalid_operation
  | State_unavailable | State_capacity | Invalid_publisher | Duplicate_key | Check_failed | Closing
  | Invalid_request | Busy | Unregistered_action | Confirmation_required | No_diagnostic
  | Cancelled_action | Operation_failed | Invalid_scope | Invalid_unit | Invalid_analysis
  | Analysis_unavailable | Analysis_failed | Execution_failed

datatype urgency = Now | Soon | Eventually | Informational

fun urgency_rank :: "urgency \<Rightarrow> nat" where
  "urgency_rank Now = 0"
| "urgency_rank Soon = 1"
| "urgency_rank Eventually = 2"
| "urgency_rank Informational = 3"

instantiation urgency :: linorder
begin

definition less_eq_urgency :: "urgency \<Rightarrow> urgency \<Rightarrow> bool" where
  "less_eq_urgency a b \<longleftrightarrow> urgency_rank a \<le> urgency_rank b"

definition less_urgency :: "urgency \<Rightarrow> urgency \<Rightarrow> bool" where
  "less_urgency a b \<longleftrightarrow> urgency_rank a < urgency_rank b"

instance
proof
  fix a b c :: urgency
  show "(a < b) = (a \<le> b \<and> \<not> b \<le> a)" by (auto simp: less_eq_urgency_def less_urgency_def)
  show "a \<le> a" by (simp add: less_eq_urgency_def)
  show "a \<le> b \<Longrightarrow> b \<le> c \<Longrightarrow> a \<le> c" by (simp add: less_eq_urgency_def)
  show "a \<le> b \<Longrightarrow> b \<le> a \<Longrightarrow> a = b" by (cases a; cases b; simp add: less_eq_urgency_def)
  show "a \<le> b \<or> b \<le> a" by (auto simp: less_eq_urgency_def)
qed

end

datatype lifecycle = Ongoing | Notice

record finding =
  f_key :: string
  f_title :: string
  f_explanation :: string
  f_details :: string
  f_urgency :: urgency
  f_lifecycle :: lifecycle
  f_actions :: "string list"
  f_diagnostic :: "string option"

record outcome =
  o_action :: string
  o_at :: rat
  o_result :: string
  o_revision :: "nat option"

record row =
  r_id :: string
  r_source :: string
  r_key :: string
  r_title :: string
  r_explanation :: string
  r_details :: string
  r_urgency :: urgency
  r_lifecycle :: lifecycle
  r_actions :: "string list"
  r_first_seen :: rat
  r_updated :: rat
  r_revision :: nat
  r_recurrence :: nat
  r_snoozed_until :: rat
  r_resolved :: rat
  r_outcomes :: "outcome list"
  r_fingerprint :: string
  r_busy :: string

record action =
  a_label :: string
  a_disruptive :: bool

type_synonym registry = "(string \<times> action) list"
type_synonym registrations = "(string \<times> registry) list"

definition week :: rat where
  "week = 7 * 86400"

definition inbox_capacity :: nat where
  "inbox_capacity = 4096"

definition sources :: "string list" where
  "sources = [''systemd'', ''backups'', ''disk'', ''flake'', ''certificates'', ''inputs'', ''restart'']"

text \<open>The regular expression of a key, matched over the bytes.\<close>

definition key_char :: "char \<Rightarrow> bool" where
  "key_char c \<longleftrightarrow> is_ascii_alphanumeric c \<or> c \<in> set ''_.:@/-''"

definition valid_key :: "string \<Rightarrow> bool" where
  "valid_key k \<longleftrightarrow> 1 \<le> length k \<and> length k \<le> 200 \<and> list_all key_char k"

definition visible :: "nat \<Rightarrow> bool" where
  "visible c \<longleftrightarrow> \<not> (c = 0x061C \<or> (0x200B \<le> c \<and> c \<le> 0x200F) \<or> (0x202A \<le> c \<and> c \<le> 0x202E)
     \<or> (0x2060 \<le> c \<and> c \<le> 0x206F) \<or> c = 0xFEFF)"

definition clean :: "(string \<Rightarrow> string) \<Rightarrow> string \<Rightarrow> nat \<Rightarrow> string" where
  "clean secrets value limit =
     of_chars (take limit (filter (\<lambda>c. (\<not> is_control c \<or> c = 10) \<and> visible c) (chars (secrets value))))"

section \<open>Fingerprints\<close>

definition hex_digit :: "nat \<Rightarrow> char" where
  "hex_digit n = (if n < 10 then char_of (48 + n) else char_of (87 + n))"

definition hex4 :: "nat \<Rightarrow> string" where
  "hex4 n = [hex_digit (n div 4096 mod 16), hex_digit (n div 256 mod 16),
     hex_digit (n div 16 mod 16), hex_digit (n mod 16)]"

definition utf16 :: "nat \<Rightarrow> nat list" where
  "utf16 c = (if c < 0x10000 then [c]
     else [0xD800 + (c - 0x10000) div 0x400, 0xDC00 + (c - 0x10000) mod 0x400])"

definition escape_char :: "nat \<Rightarrow> string" where
  "escape_char c = (if c < 128 then [char_of c]
     else concat (map (\<lambda>unit. CHR 0x5C # ''u'' @ hex4 unit) (utf16 c)))"

fun join :: "string \<Rightarrow> string list \<Rightarrow> string" where
  "join sep [] = []"
| "join sep [s] = s"
| "join sep (s # ss) = s @ sep @ join sep ss"

definition encode_string :: "(string \<Rightarrow> string) \<Rightarrow> string \<Rightarrow> string" where
  "encode_string quote s = concat (map escape_char (chars (quote s)))"

fun encode :: "(string \<Rightarrow> string) \<Rightarrow> json \<Rightarrow> string" where
  "encode quote (JArr xs) = ''['' @ join '', '' (map (encode quote) xs) @ '']''"
| "encode quote (JObj m) =
     ''{'' @ join '', '' (map (\<lambda>(k, v). encode_string quote k @ '': '' @ encode quote v) m) @ ''}''"
| "encode quote (JStr s) = encode_string quote s"
| "encode quote (JNum t) = t"
| "encode quote (JBool b) = (if b then ''true'' else ''false'')"
| "encode quote JNull = ''null''"

fun urgency_name :: "urgency \<Rightarrow> string" where
  "urgency_name Now = ''now''"
| "urgency_name Soon = ''soon''"
| "urgency_name Eventually = ''eventually''"
| "urgency_name Informational = ''informational''"

fun lifecycle_name :: "lifecycle \<Rightarrow> string" where
  "lifecycle_name Ongoing = ''ongoing''"
| "lifecycle_name Notice = ''notice''"

text \<open>The object's keys are in the order of serde\_json's map, which is sorted.\<close>

definition canonical :: "finding \<Rightarrow> json" where
  "canonical f = JArr
     [JObj [(''actions'', JArr (map JStr (f_actions f))), (''details'', JStr (f_details f)),
        (''explanation'', JStr (f_explanation f)),
        (''lifecycle'', JStr (lifecycle_name (f_lifecycle f))),
        (''title'', JStr (f_title f)), (''urgency'', JStr (urgency_name (f_urgency f)))],
      (case f_diagnostic f of None \<Rightarrow> JNull | Some d \<Rightarrow> JStr d)]"

definition fingerprint :: "(string \<Rightarrow> string) \<Rightarrow> (string \<Rightarrow> string) \<Rightarrow> finding \<Rightarrow> string" where
  "fingerprint quote digest f = digest (encode quote (canonical f))"

section \<open>The registry\<close>

definition recheck_action :: "string \<times> action" where
  "recheck_action = (''recheck'', \<lparr>a_label = ''Recheck'', a_disruptive = False\<rparr>)"

text \<open>The actions of a source, in the order of the map's keys.\<close>

definition source_actions :: "string \<Rightarrow> registry" where
  "source_actions source =
     (if source = ''systemd'' \<or> source = ''backups''
      then [(''open-logs'', \<lparr>a_label = ''Open logs'', a_disruptive = False\<rparr>)] else [])
     @ (if source = ''restart'' then [(''open-power'', \<lparr>a_label = ''Open Power'', a_disruptive = False\<rparr>)] else [])
     @ [recheck_action]
     @ (if source = ''backups'' then [(''retry'', \<lparr>a_label = ''Retry backup'', a_disruptive = True\<rparr>)] else [])"

definition registrations_of :: "json \<Rightarrow> registrations" where
  "registrations_of config =
     fold (\<lambda>source m. bt_insert source (source_actions source) m)
       (filter (\<lambda>source. json_index (json_index config source) ''enabled'' \<noteq> JBool False) sources) []"

section \<open>The inbox\<close>

record inbox =
  i_registrations :: registrations
  i_path :: bool
  i_items :: "(string \<times> row) list"
  i_diagnostics :: "(string \<times> string) list"
  i_analysis :: "(string \<times> json) list"

definition has_key :: "('k \<times> 'v) list \<Rightarrow> 'k \<Rightarrow> bool" where
  "has_key m k \<longleftrightarrow> map_of m k \<noteq> None"

definition recent :: "rat \<Rightarrow> outcome \<Rightarrow> bool" where
  "recent t o' \<longleftrightarrow> o_at o' \<ge> t - week"

definition prune :: "rat \<Rightarrow> inbox \<Rightarrow> inbox" where
  "prune t b =
     (let kept = filter (\<lambda>(i, r). has_key (i_registrations b) (r_source r)
            \<and> (r_resolved r = 0 \<or> r_resolved r \<ge> t - week)) (i_items b);
          items = map (\<lambda>(i, r). (i, r\<lparr>r_outcomes := filter (recent t) (r_outcomes r)\<rparr>)) kept in
      b\<lparr>i_items := items,
        i_diagnostics := filter (\<lambda>(i, _). has_key items i) (i_diagnostics b),
        i_analysis := filter (\<lambda>(i, _). has_key items i) (i_analysis b)\<rparr>)"

text \<open>\<open>row.actions.dedup()\<close> removes equal neighbours.\<close>

definition row_id :: "string \<Rightarrow> string \<Rightarrow> string" where
  "row_id source key = source @ '':'' @ key"

definition restore_row :: "(string \<Rightarrow> string) \<Rightarrow> rat \<Rightarrow> registry \<Rightarrow> row \<Rightarrow> row" where
  "restore_row secrets t registry r =
     (let outs = filter (\<lambda>o'. (has_key registry (o_action o') \<or> o_action o' = ''analyze'')
            \<and> o_at o' \<ge> 0 \<and> o_at o' \<ge> t - week) (r_outcomes r);
          kept = drop (length outs - 20) outs in
      r\<lparr>r_id := row_id (r_source r) (r_key r),
        r_title := clean secrets (r_title r) 160,
        r_explanation := clean secrets (r_explanation r) 500,
        r_details := clean secrets (r_details r) 2000,
        r_actions := remdups_adj (filter (has_key registry) (r_actions r)),
        r_outcomes := map (\<lambda>o'. o'\<lparr>o_result := clean secrets (o_result o') 160\<rparr>) kept,
        r_fingerprint := (if length (r_fingerprint r) \<noteq> 64 \<or> \<not> list_all is_ascii_hexdigit (r_fingerprint r)
           then [] else r_fingerprint r)\<rparr>)"

definition restore_one :: "(string \<Rightarrow> string) \<Rightarrow> rat \<Rightarrow> row option \<Rightarrow> inbox \<Rightarrow> inbox" where
  "restore_one secrets t v b =
     (case v of
        None \<Rightarrow> b
      | Some r \<Rightarrow>
        (case map_of (i_registrations b) (r_source r) of
           None \<Rightarrow> b
         | Some registry \<Rightarrow>
           if \<not> valid_key (r_key r)
              \<or> (\<exists>n \<in> set [r_first_seen r, r_updated r, r_snoozed_until r, r_resolved r]. n < 0)
           then b
           else (let r' = restore_row secrets t registry r in
                 b\<lparr>i_items := bt_insert (r_id r') r' (i_items b)\<rparr>)))"

text \<open>The state file: absent, unreadable, or its rows (each absent if it does not deserialize;
  no rows at all if the file is not an array).\<close>

datatype saved = Missing | Unreadable | Rows "row option list option"

definition new_inbox ::
  "(string \<Rightarrow> string) \<Rightarrow> registrations \<Rightarrow> bool \<Rightarrow> saved \<Rightarrow> rat \<Rightarrow> merr + inbox" where
  "new_inbox secrets regs path file t =
     (let empty = \<lparr>i_registrations = regs, i_path = path, i_items = [], i_diagnostics = [], i_analysis = []\<rparr> in
      if \<not> path then Inr (prune t empty)
      else (case file of
          Missing \<Rightarrow> Inr (prune t empty)
        | Unreadable \<Rightarrow> Inl State_unavailable
        | Rows None \<Rightarrow> Inr (prune t empty)
        | Rows (Some rows) \<Rightarrow>
          Inr (prune t (if length rows \<le> inbox_capacity then fold (restore_one secrets t) rows empty else empty))))"

text \<open>Persisting prunes first; \<open>size_of\<close> is the length of the serialized rows and \<open>written\<close>
  whether the atomic write succeeds.\<close>

definition persist :: "((string \<times> row) list \<Rightarrow> nat) \<Rightarrow> bool \<Rightarrow> rat \<Rightarrow> inbox \<Rightarrow> merr option \<times> inbox" where
  "persist size_of written t b0 =
     (let b = prune t b0 in
      if \<not> i_path b then (None, b)
      else if size_of (i_items b) > 16 * 1024 * 1024 then (Some State_capacity, b)
      else if \<not> written then (Some State_unavailable, b)
      else (None, b))"

definition finding_rejected :: "registry \<Rightarrow> finding \<Rightarrow> merr option" where
  "finding_rejected registry f =
     (if \<not> valid_key (f_key f) \<or> length (f_actions f) > length registry
         \<or> (\<exists>a \<in> set (f_actions f). \<not> has_key registry a)
      then Some Invalid_finding
      else if \<not> distinct (f_actions f) then Some Invalid_finding
      else if (case f_diagnostic f of None \<Rightarrow> False | Some d \<Rightarrow> length d > 16384)
      then Some Diagnostic_too_large
      else None)"

definition clean_finding :: "(string \<Rightarrow> string) \<Rightarrow> finding \<Rightarrow> finding" where
  "clean_finding secrets f =
     f\<lparr>f_title := clean secrets (f_title f) 160,
       f_explanation := clean secrets (f_explanation f) 500,
       f_details := clean secrets (f_details f) 2000,
       f_diagnostic := map_option (\<lambda>d. clean secrets d 16384) (f_diagnostic f)\<rparr>"

definition fresh_row :: "string \<Rightarrow> finding \<Rightarrow> rat \<Rightarrow> row" where
  "fresh_row source f t =
     \<lparr>r_id = row_id source (f_key f), r_source = source, r_key = f_key f, r_title = [],
      r_explanation = [], r_details = [], r_urgency = f_urgency f, r_lifecycle = f_lifecycle f,
      r_actions = [], r_first_seen = t, r_updated = t, r_revision = 0, r_recurrence = 0,
      r_snoozed_until = 0, r_resolved = 0, r_outcomes = [], r_fingerprint = [], r_busy = []\<rparr>"

text \<open>The row after a report: \<open>None\<close> when a counter would overflow.\<close>

definition merge_row :: "finding \<Rightarrow> string \<Rightarrow> bool \<Rightarrow> rat \<Rightarrow> row \<Rightarrow> row option" where
  "merge_row f signature changed t r =
     (let recurrence = (if r_resolved r \<noteq> 0 then checked_add64 (r_recurrence r) 1 else Some (r_recurrence r));
          revision = (if changed then checked_add64 (r_revision r) 1 else Some (r_revision r)) in
      case (recurrence, revision) of
        (Some c, Some n) \<Rightarrow> Some (r\<lparr>r_recurrence := c,
           r_snoozed_until := (if f_urgency f < r_urgency r then 0 else r_snoozed_until r),
           r_title := f_title f, r_explanation := f_explanation f, r_details := f_details f,
           r_urgency := f_urgency f, r_lifecycle := f_lifecycle f, r_actions := f_actions f,
           r_fingerprint := signature, r_resolved := 0,
           r_updated := (if changed then t else r_updated r), r_revision := n\<rparr>)
      | _ \<Rightarrow> None)"

record published =
  p_row :: row
  p_notify :: bool
  p_changed :: bool

definition publish ::
  "(string \<Rightarrow> string) \<Rightarrow> (finding \<Rightarrow> string) \<Rightarrow> string \<Rightarrow> finding \<Rightarrow> rat \<Rightarrow> inbox
     \<Rightarrow> merr + inbox \<times> published" where
  "publish secrets fp source f0 t b =
     (case map_of (i_registrations b) source of
        None \<Rightarrow> Inl Unregistered_source
      | Some registry \<Rightarrow>
        (case finding_rejected registry f0 of
           Some e \<Rightarrow> Inl e
         | None \<Rightarrow>
           (let f = clean_finding secrets f0; i = row_id source (f_key f); previous = map_of (i_items b) i;
                signature = fp f;
                changed = (case previous of None \<Rightarrow> True
                   | Some r \<Rightarrow> r_fingerprint r \<noteq> signature \<or> r_resolved r \<noteq> 0) in
            if f_title f = [] then Inl Invalid_finding
            else if previous = None \<and> length (i_items b) \<ge> inbox_capacity then Inl Capacity_reached
            else
              (case merge_row f signature changed t
                      (case previous of Some r \<Rightarrow> r | None \<Rightarrow> fresh_row source f t) of
                 None \<Rightarrow> Inl Revision_limit
               | Some r \<Rightarrow>
                 Inr (b\<lparr>i_items := bt_insert i r (i_items b),
                        i_diagnostics := (case f_diagnostic f of
                            Some d \<Rightarrow> bt_insert i d (i_diagnostics b)
                          | None \<Rightarrow> AList.delete i (i_diagnostics b))\<rparr>,
                      \<lparr>p_row = r, p_notify = (changed \<and> r_urgency r \<le> Soon \<and> r_snoozed_until r \<le> t),
                       p_changed = changed\<rparr>)))))"

definition resolve :: "string \<Rightarrow> string \<Rightarrow> rat \<Rightarrow> inbox \<Rightarrow> merr + inbox \<times> bool" where
  "resolve source key t b =
     (if \<not> has_key (i_registrations b) source then Inl Unregistered_source
      else if \<not> valid_key key then Inl Invalid_finding
      else
        (let i = row_id source key in
         case map_of (i_items b) i of
           None \<Rightarrow> Inr (b, False)
         | Some r \<Rightarrow>
           if r_resolved r = 0
           then Inr (b\<lparr>i_items := bt_insert i (r\<lparr>r_resolved := t, r_busy := []\<rparr>) (i_items b),
                       i_diagnostics := AList.delete i (i_diagnostics b),
                       i_analysis := AList.delete i (i_analysis b)\<rparr>, True)
           else Inr (b, False)))"

definition current :: "string \<Rightarrow> nat \<Rightarrow> inbox \<Rightarrow> merr + row" where
  "current i revision b =
     (case map_of (i_items b) i of
        None \<Rightarrow> Inl Stale_finding
      | Some r \<Rightarrow> if r_resolved r = 0 \<and> r_revision r = revision then Inr r else Inl Stale_finding)"

text \<open>\<open>self.items.get_mut(id)\<close> with an update in place.\<close>

definition update_row :: "string \<Rightarrow> (row \<Rightarrow> row) \<Rightarrow> inbox \<Rightarrow> inbox" where
  "update_row i g b = b\<lparr>i_items := map (\<lambda>(k, r). (k, if k = i then g r else r)) (i_items b)\<rparr>"

definition operation ::
  "string \<Rightarrow> nat \<Rightarrow> string \<Rightarrow> nat option \<Rightarrow> rat \<Rightarrow> inbox \<Rightarrow> merr + inbox" where
  "operation i revision op' seconds t b =
     (case current i revision b of
        Inl e \<Rightarrow> Inl e
      | Inr r \<Rightarrow>
        if op' = ''done'' then
          (if r_lifecycle r \<noteq> Notice then Inl Publisher_owned
           else (case resolve (r_source r) (r_key r) t b of Inl e \<Rightarrow> Inl e | Inr (b', _) \<Rightarrow> Inr b'))
        else if op' = ''snooze'' then
          (case seconds of
             None \<Rightarrow> Inl Invalid_duration
           | Some s \<Rightarrow>
             if 60 \<le> s \<and> s \<le> 30 * 86400
             then Inr (update_row i (\<lambda>r. r\<lparr>r_snoozed_until := t + of_nat s\<rparr>) b)
             else Inl Invalid_duration)
        else if op' = ''unsnooze'' then Inr (update_row i (\<lambda>r. r\<lparr>r_snoozed_until := 0\<rparr>) b)
        else Inl Invalid_operation)"

definition outcome_limit :: nat where
  "outcome_limit = 20"

definition push_outcome :: "outcome list \<Rightarrow> outcome \<Rightarrow> outcome list" where
  "push_outcome os o' = (let os' = os @ [o'] in if length os' > outcome_limit then tl os' else os')"

definition record_outcome :: "string \<Rightarrow> nat \<Rightarrow> string \<Rightarrow> string \<Rightarrow> rat \<Rightarrow> inbox \<Rightarrow> inbox" where
  "record_outcome i revision act res t b =
     update_row i (\<lambda>r. r\<lparr>r_busy := [],
       r_outcomes := push_outcome (r_outcomes r)
         \<lparr>o_action = act, o_at = t, o_result = res, o_revision = Some revision\<rparr>\<rparr>) b"

section \<open>The snapshot\<close>

record view =
  v_row :: row
  v_busy :: string
  v_can_analyze :: bool
  v_analysis :: json
  v_stale :: bool
  v_actions :: "(string \<times> action) list"

record snapshot =
  s_count :: nat
  s_urgency :: "urgency option"
  s_active :: "view list"
  s_snoozed :: "view list"
  s_history :: "view list"

text \<open>\<open>self.registrations[&row.source]\<close> panics for a source without registration.\<close>

definition view_of :: "inbox \<Rightarrow> row \<Rightarrow> view" where
  "view_of b r =
     \<lparr>v_row = r\<lparr>r_fingerprint := []\<rparr>, v_busy = r_busy r,
      v_can_analyze = (has_key (i_diagnostics b) (r_id r) \<and> r_resolved r = 0),
      v_analysis = (case map_of (i_analysis b) (r_id r) of Some a \<Rightarrow> a | None \<Rightarrow> JNull),
      v_stale = (case map_of (i_analysis b) (r_id r) of None \<Rightarrow> False
         | Some a \<Rightarrow> as_u64 (json_index a ''revision'') \<noteq> Some (r_revision r)),
      v_actions = List.map_filter (\<lambda>i. map_option (Pair i)
         (map_of (the (map_of (i_registrations b) (r_source r))) i)) (r_actions r)\<rparr>"

definition rows :: "inbox \<Rightarrow> row list" where
  "rows b = map snd (i_items b)"

definition is_history :: "row \<Rightarrow> bool" where
  "is_history r \<longleftrightarrow> r_resolved r \<noteq> 0"

definition is_snoozed :: "rat \<Rightarrow> row \<Rightarrow> bool" where
  "is_snoozed t r \<longleftrightarrow> r_resolved r = 0 \<and> r_snoozed_until r > t"

definition is_active :: "rat \<Rightarrow> row \<Rightarrow> bool" where
  "is_active t r \<longleftrightarrow> r_resolved r = 0 \<and> \<not> r_snoozed_until r > t"

definition active_rows :: "rat \<Rightarrow> inbox \<Rightarrow> row list" where
  "active_rows t b = sort_key (\<lambda>r. (r_urgency r, - r_updated r)) (filter (is_active t) (rows b))"

definition snapshot_of :: "rat \<Rightarrow> inbox \<Rightarrow> snapshot \<times> inbox" where
  "snapshot_of t b0 =
     (let b = prune t b0;
          active = active_rows t b;
          snoozed = sort_key r_snoozed_until (filter (is_snoozed t) (rows b));
          history = sort_key (\<lambda>r. - r_resolved r) (filter is_history (rows b));
          attention = filter (\<lambda>r. r_urgency r \<noteq> Informational) active in
      (\<lparr>s_count = length attention,
        s_urgency = (case attention of [] \<Rightarrow> None | r # _ \<Rightarrow> Some (r_urgency r)),
        s_active = map (view_of b) active, s_snoozed = map (view_of b) snoozed,
        s_history = map (view_of b) history\<rparr>, b))"

end
