(* ===== verification/Maintenance_Facts.thy ===== *)
theory Maintenance_Facts
  imports Maintenance_Inbox "HOL-Library.Multiset"
begin

text \<open>
  The inbox keeps its invariant under every event (interpretation of \<open>event_machine\<close>), reports
  are idempotent, revisions and notifications follow the documented rules, and the snapshot
  shows every row exactly once.
\<close>

section \<open>The invariant\<close>

definition row_ok :: "registrations \<Rightarrow> string \<Rightarrow> row \<Rightarrow> bool" where
  "row_ok regs i r \<longleftrightarrow> i = row_id (r_source r) (r_key r) \<and> r_id r = i \<and> valid_key (r_key r)
     \<and> has_key regs (r_source r) \<and> length (r_outcomes r) \<le> outcome_limit"

definition inbox_ok :: "inbox \<Rightarrow> bool" where
  "inbox_ok b \<longleftrightarrow> keys_sorted (i_items b) \<and> length (i_items b) \<le> inbox_capacity
     \<and> (\<forall>i r. (i, r) \<in> set (i_items b) \<longrightarrow> row_ok (i_registrations b) i r)
     \<and> keys_sorted (i_diagnostics b) \<and> fst ` set (i_diagnostics b) \<subseteq> fst ` set (i_items b)
     \<and> keys_sorted (i_analysis b) \<and> fst ` set (i_analysis b) \<subseteq> fst ` set (i_items b)"

lemma has_key_iff: "has_key m k \<longleftrightarrow> k \<in> fst ` set m"
  by (simp add: has_key_def map_of_eq_None_iff)

lemma inbox_ok_row: "inbox_ok b \<Longrightarrow> map_of (i_items b) i = Some r \<Longrightarrow> row_ok (i_registrations b) i r"
  by (auto simp: inbox_ok_def dest: map_of_SomeD)

lemma keys_map_pair: "fst ` (\<lambda>(k, v). (k, g k v)) ` A = fst ` A"
  by force

lemma filter_has_key: "fst ` set (filter (\<lambda>(i, _). has_key xs i) m) \<subseteq> fst ` set xs"
  by (auto simp: has_key_iff) force

lemma pruned_ok:
  assumes "inbox_ok b" "keys_sorted xs" "length xs \<le> inbox_capacity"
    and "\<forall>i r. (i, r) \<in> set xs \<longrightarrow> row_ok (i_registrations b) i r"
  shows "inbox_ok (b\<lparr>i_items := xs, i_diagnostics := filter (\<lambda>(i, _). has_key xs i) (i_diagnostics b),
    i_analysis := filter (\<lambda>(i, _). has_key xs i) (i_analysis b)\<rparr>)"
  using assms filter_has_key [of xs "i_diagnostics b"] filter_has_key [of xs "i_analysis b"]
  unfolding inbox_ok_def by simp

lemma prune_ok: "inbox_ok b \<Longrightarrow> inbox_ok (prune t b)"
proof -
  assume ok: "inbox_ok b"
  let ?keep = "\<lambda>(i, r). has_key (i_registrations b) (r_source r) \<and> (r_resolved r = 0 \<or> r_resolved r \<ge> t - week)"
  let ?cut = "\<lambda>(i, r). (i, r\<lparr>r_outcomes := filter (recent t) (r_outcomes r)\<rparr>)"
  let ?items = "map ?cut (filter ?keep (i_items b))"
  have sorted: "keys_sorted ?items"
    using ok by (subst keys_sorted_map) (auto simp: inbox_ok_def)
  have len: "length ?items \<le> inbox_capacity"
  proof -
    have "length ?items \<le> length (i_items b)" by simp
    also have "\<dots> \<le> inbox_capacity" using ok by (simp add: inbox_ok_def)
    finally show ?thesis .
  qed
  have cut: "row_ok (i_registrations b) i (r\<lparr>r_outcomes := filter (recent t) (r_outcomes r)\<rparr>)"
    if "row_ok (i_registrations b) i r" for i r
    using that by (simp add: row_ok_def order_trans [OF length_filter_le])
  have rows: "\<forall>i r. (i, r) \<in> set ?items \<longrightarrow> row_ok (i_registrations b) i r"
  proof (intro allI impI)
    fix i r assume "(i, r) \<in> set ?items"
    then obtain r0 where "(i, r0) \<in> set (i_items b)" "r = r0\<lparr>r_outcomes := filter (recent t) (r_outcomes r0)\<rparr>"
      by auto
    then show "row_ok (i_registrations b) i r" using ok cut [of i r0] unfolding inbox_ok_def by simp
  qed
  show ?thesis
    unfolding prune_def Let_def by (rule pruned_ok [OF ok sorted len rows])
qed

lemma update_row_ok:
  assumes ok: "inbox_ok b"
    and g: "\<And>r. row_ok (i_registrations b) i r \<Longrightarrow> row_ok (i_registrations b) i (g r)"
  shows "inbox_ok (update_row i g b)"
proof -
  let ?h = "\<lambda>(k, r). (k, if k = i then g r else r)"
  have "keys_sorted (map ?h (i_items b)) = keys_sorted (i_items b)"
    by (rule keys_sorted_map) simp
  moreover have "fst ` set (map ?h (i_items b)) = fst ` set (i_items b)" by force
  moreover have "\<forall>k r. (k, r) \<in> set (map ?h (i_items b)) \<longrightarrow> row_ok (i_registrations b) k r"
    using ok g unfolding inbox_ok_def by auto
  ultimately show ?thesis
    using ok by (simp add: inbox_ok_def update_row_def)
qed

lemma insert_item_ok:
  assumes ok: "inbox_ok b" and r: "row_ok (i_registrations b) i r"
    and room: "map_of (i_items b) i = None \<Longrightarrow> length (i_items b) < inbox_capacity"
    and d: "keys_sorted d" "fst ` set d \<subseteq> insert i (fst ` set (i_items b))"
    and a: "keys_sorted a" "fst ` set a \<subseteq> insert i (fst ` set (i_items b))"
  shows "inbox_ok (b\<lparr>i_items := bt_insert i r (i_items b), i_diagnostics := d, i_analysis := a\<rparr>)"
proof -
  have "length (bt_insert i r (i_items b)) \<le> inbox_capacity"
  proof (cases "map_of (i_items b) i")
    case None
    then show ?thesis using room length_bt_insert_le [of i r "i_items b"] by simp
  next
    case (Some x)
    then have "i \<in> fst ` set (i_items b)" by (rule map_of_Some_key)
    then show ?thesis using ok by (simp add: inbox_ok_def length_bt_insert_present)
  qed
  moreover have "\<forall>k x. (k, x) \<in> set (bt_insert i r (i_items b)) \<longrightarrow> row_ok (i_registrations b) k x"
    using ok r set_bt_insert [of i r "i_items b"] unfolding inbox_ok_def by blast
  ultimately show ?thesis
    using ok d a by (simp add: inbox_ok_def)
qed

lemma merge_row_fields:
  "merge_row f s c t r = Some r' \<Longrightarrow> r_source r' = r_source r \<and> r_key r' = r_key r \<and> r_id r' = r_id r
     \<and> r_outcomes r' = r_outcomes r \<and> r_first_seen r' = r_first_seen r"
  by (auto simp: merge_row_def Let_def split: option.splits)

lemma publish_cases:
  assumes "publish secrets fp source f0 t b = Inr (b', p)"
  obtains registry f previous changed r where
    "map_of (i_registrations b) source = Some registry" "finding_rejected registry f0 = None"
    "f = clean_finding secrets f0" "f_title f \<noteq> []"
    "previous = map_of (i_items b) (row_id source (f_key f))"
    "previous = None \<longrightarrow> length (i_items b) < inbox_capacity"
    "changed = (case previous of None \<Rightarrow> True | Some r \<Rightarrow> r_fingerprint r \<noteq> fp f \<or> r_resolved r \<noteq> 0)"
    "merge_row f (fp f) changed t (case previous of Some r \<Rightarrow> r | None \<Rightarrow> fresh_row source f t) = Some r"
    "b' = b\<lparr>i_items := bt_insert (row_id source (f_key f)) r (i_items b),
       i_diagnostics := (case f_diagnostic f of Some d \<Rightarrow> bt_insert (row_id source (f_key f)) d (i_diagnostics b)
         | None \<Rightarrow> AList.delete (row_id source (f_key f)) (i_diagnostics b))\<rparr>"
    "p = \<lparr>p_row = r, p_notify = (changed \<and> r_urgency r \<le> Soon \<and> r_snoozed_until r \<le> t), p_changed = changed\<rparr>"
  using assms unfolding publish_def Let_def
  by (force split: option.split_asm if_split_asm simp: not_le)

lemma finding_rejected_None:
  "finding_rejected registry f = None \<Longrightarrow> valid_key (f_key f) \<and> distinct (f_actions f)
     \<and> set (f_actions f) \<subseteq> fst ` set registry"
  by (auto simp: finding_rejected_def has_key_iff split: if_splits option.splits)

lemma clean_finding_key [simp]: "f_key (clean_finding secrets f) = f_key f"
  "f_actions (clean_finding secrets f) = f_actions f" "f_urgency (clean_finding secrets f) = f_urgency f"
  by (simp_all add: clean_finding_def)

lemma publish_ok:
  assumes ok: "inbox_ok b" and p: "publish secrets fp source f0 t b = Inr (b', q)"
  shows "inbox_ok b'"
proof -
  obtain registry f previous changed r where
    reg: "map_of (i_registrations b) source = Some registry" "finding_rejected registry f0 = None"
    and f: "f = clean_finding secrets f0"
    and prev: "previous = map_of (i_items b) (row_id source (f_key f))"
      "previous = None \<longrightarrow> length (i_items b) < inbox_capacity"
    and m: "merge_row f (fp f) changed t (case previous of Some r \<Rightarrow> r | None \<Rightarrow> fresh_row source f t) = Some r"
    and b': "b' = b\<lparr>i_items := bt_insert (row_id source (f_key f)) r (i_items b),
       i_diagnostics := (case f_diagnostic f of Some d \<Rightarrow> bt_insert (row_id source (f_key f)) d (i_diagnostics b)
         | None \<Rightarrow> AList.delete (row_id source (f_key f)) (i_diagnostics b))\<rparr>"
    by (rule publish_cases [OF p]) (rule that; assumption)
  let ?i = "row_id source (f_key f)"
  have key: "valid_key (f_key f)" using finding_rejected_None [OF reg(2)] f by simp
  have src: "has_key (i_registrations b) source" using reg by (simp add: has_key_def)
  have old: "row_ok (i_registrations b) ?i (case previous of Some r \<Rightarrow> r | None \<Rightarrow> fresh_row source f t)"
  proof (cases previous)
    case None
    then show ?thesis using key src by (simp add: row_ok_def fresh_row_def outcome_limit_def)
  next
    case (Some x)
    then show ?thesis using inbox_ok_row [OF ok] prev by simp
  qed
  have r: "row_ok (i_registrations b) ?i r"
    using old merge_row_fields [OF m] by (simp add: row_ok_def)
  have d: "keys_sorted (case f_diagnostic f of Some d \<Rightarrow> bt_insert ?i d (i_diagnostics b)
      | None \<Rightarrow> AList.delete ?i (i_diagnostics b))"
    "fst ` set (case f_diagnostic f of Some d \<Rightarrow> bt_insert ?i d (i_diagnostics b)
      | None \<Rightarrow> AList.delete ?i (i_diagnostics b)) \<subseteq> insert ?i (fst ` set (i_items b))"
    using ok by (auto simp: inbox_ok_def AList.delete_eq split: option.split)
  have a: "keys_sorted (i_analysis b)" "fst ` set (i_analysis b) \<subseteq> insert ?i (fst ` set (i_items b))"
    using ok by (auto simp: inbox_ok_def)
  have "inbox_ok (b\<lparr>i_items := bt_insert ?i r (i_items b),
      i_diagnostics := (case f_diagnostic f of Some d \<Rightarrow> bt_insert ?i d (i_diagnostics b)
         | None \<Rightarrow> AList.delete ?i (i_diagnostics b)), i_analysis := i_analysis b\<rparr>)"
    by (rule insert_item_ok [OF ok r prev(2) [unfolded prev(1), rule_format] d a])
  then show ?thesis by (simp add: b')
qed

lemma resolve_ok:
  assumes ok: "inbox_ok b" and p: "resolve source key t b = Inr (b', d)"
  shows "inbox_ok b'"
proof (cases "d")
  case False
  then show ?thesis using ok p by (auto simp: resolve_def Let_def split: if_splits option.splits)
next
  case True
  let ?i = "row_id source key"
  obtain r where r: "map_of (i_items b) ?i = Some r"
    and b': "b' = b\<lparr>i_items := bt_insert ?i (r\<lparr>r_resolved := t, r_busy := []\<rparr>) (i_items b),
      i_diagnostics := AList.delete ?i (i_diagnostics b), i_analysis := AList.delete ?i (i_analysis b)\<rparr>"
    using p True by (auto simp: resolve_def Let_def split: if_splits option.splits)
  have "row_ok (i_registrations b) ?i (r\<lparr>r_resolved := t, r_busy := []\<rparr>)"
    using inbox_ok_row [OF ok r] by (simp add: row_ok_def)
  moreover have "fst ` set (AList.delete ?i (i_diagnostics b)) \<subseteq> insert ?i (fst ` set (i_items b))"
    "fst ` set (AList.delete ?i (i_analysis b)) \<subseteq> insert ?i (fst ` set (i_items b))"
    using ok by (auto simp: inbox_ok_def AList.delete_eq)
  ultimately show ?thesis
    using ok r unfolding b' by (intro insert_item_ok) (auto simp: inbox_ok_def)
qed

interpretation outcomes: bounded_log outcome_limit push_outcome
  by unfold_locales (simp_all add: outcome_limit_def push_outcome_def)

lemma operation_ok:
  assumes ok: "inbox_ok b" and p: "operation i revision op' seconds t b = Inr b'"
  shows "inbox_ok b'"
proof -
  have u: "inbox_ok (update_row i (\<lambda>r. r\<lparr>r_snoozed_until := s\<rparr>) b)" for s
    by (rule update_row_ok [OF ok]) (simp add: row_ok_def)
  show ?thesis
    using p resolve_ok [OF ok] u by (auto simp: operation_def split: sum.splits if_splits option.splits)
qed

lemma record_outcome_ok: "inbox_ok b \<Longrightarrow> inbox_ok (record_outcome i revision act res t b)"
  unfolding record_outcome_def
  by (rule update_row_ok) (auto simp: row_ok_def outcomes.push_bound)

section \<open>The inbox as an event machine\<close>

text \<open>Whatever the service does to its inbox is one of these events; a refused one changes
  nothing.\<close>

datatype inbox_event =
    Ev_publish string finding rat
  | Ev_resolve string string rat
  | Ev_operation string nat string "nat option" rat
  | Ev_outcome string nat string string rat
  | Ev_busy string string
  | Ev_analysis string json
  | Ev_prune rat

definition set_analysis :: "string \<Rightarrow> json \<Rightarrow> inbox \<Rightarrow> inbox" where
  "set_analysis i a b =
     (case map_of (i_items b) i of
        None \<Rightarrow> b
      | Some r \<Rightarrow> if r_resolved r = 0 then b\<lparr>i_analysis := bt_insert i a (i_analysis b)\<rparr> else b)"

definition set_busy :: "string \<Rightarrow> string \<Rightarrow> inbox \<Rightarrow> inbox" where
  "set_busy i act b = update_row i (\<lambda>r. r\<lparr>r_busy := act\<rparr>) b"

fun inbox_step :: "(string \<Rightarrow> string) \<Rightarrow> (finding \<Rightarrow> string) \<Rightarrow> inbox \<Rightarrow> inbox_event \<Rightarrow> inbox" where
  "inbox_step secrets fp b (Ev_publish s f t) = (case publish secrets fp s f t b of Inr (b', _) \<Rightarrow> b' | Inl _ \<Rightarrow> b)"
| "inbox_step secrets fp b (Ev_resolve s k t) = (case resolve s k t b of Inr (b', _) \<Rightarrow> b' | Inl _ \<Rightarrow> b)"
| "inbox_step secrets fp b (Ev_operation i n op' s t) = (case operation i n op' s t b of Inr b' \<Rightarrow> b' | Inl _ \<Rightarrow> b)"
| "inbox_step secrets fp b (Ev_outcome i n a r t) = record_outcome i n a r t b"
| "inbox_step secrets fp b (Ev_busy i a) = set_busy i a b"
| "inbox_step secrets fp b (Ev_analysis i a) = set_analysis i a b"
| "inbox_step secrets fp b (Ev_prune t) = prune t b"

lemma set_busy_ok: "inbox_ok b \<Longrightarrow> inbox_ok (set_busy i a b)"
  unfolding set_busy_def by (rule update_row_ok) (simp_all add: row_ok_def)

lemma set_analysis_ok: "inbox_ok b \<Longrightarrow> inbox_ok (set_analysis i a b)"
  using map_of_Some_key [of "i_items b" i]
  by (auto simp: set_analysis_def inbox_ok_def split: option.split)

interpretation inbox: event_machine "inbox_step secrets fp" inbox_ok for secrets fp
proof unfold_locales
  fix b :: inbox and e
  assume "inbox_ok b"
  then show "inbox_ok (inbox_step secrets fp b e)"
    by (cases e) (auto split: sum.split intro: publish_ok resolve_ok operation_ok
        record_outcome_ok set_busy_ok set_analysis_ok prune_ok)
qed

lemma restore_ok: "inbox_ok b \<Longrightarrow> length (i_items b) < inbox_capacity \<Longrightarrow> inbox_ok (restore_one secrets t v b)
    \<and> length (i_items (restore_one secrets t v b)) \<le> Suc (length (i_items b))"
proof (cases v)
  case (Some r)
  assume ok: "inbox_ok b" and room: "length (i_items b) < inbox_capacity"
  show ?thesis
  proof (cases "map_of (i_registrations b) (r_source r)")
    case None
    then show ?thesis using ok Some by (simp add: restore_one_def)
  next
    case (Some registry)
    let ?r = "restore_row secrets t registry r"
    have r: "row_ok (i_registrations b) (r_id ?r) ?r" if "valid_key (r_key r)"
      using that Some by (simp add: row_ok_def restore_row_def Let_def has_key_def outcome_limit_def)
    have a: "keys_sorted (i_diagnostics b)" "fst ` set (i_diagnostics b) \<subseteq> insert j (fst ` set (i_items b))"
      "keys_sorted (i_analysis b)" "fst ` set (i_analysis b) \<subseteq> insert j (fst ` set (i_items b))" for j
      using ok by (auto simp: inbox_ok_def)
    have "inbox_ok (b\<lparr>i_items := bt_insert (r_id ?r) ?r (i_items b), i_diagnostics := i_diagnostics b,
        i_analysis := i_analysis b\<rparr>)" if "valid_key (r_key r)"
      by (rule insert_item_ok [OF ok r [OF that] room a])
    then show ?thesis
      using ok \<open>v = Some r\<close> Some length_bt_insert_le by (auto simp: restore_one_def Let_def)
  qed
qed (simp add: restore_one_def)

lemma restore_fold:
  "inbox_ok b \<Longrightarrow> length (i_items b) + length vs \<le> inbox_capacity \<Longrightarrow> inbox_ok (fold (restore_one secrets t) vs b)"
proof (induction vs arbitrary: b)
  case (Cons v vs)
  have "inbox_ok (restore_one secrets t v b)
      \<and> length (i_items (restore_one secrets t v b)) \<le> Suc (length (i_items b))"
    using Cons.prems by (intro restore_ok) auto
  then show ?case using Cons.IH Cons.prems by simp
qed simp

lemma new_inbox_ok: "new_inbox secrets regs path file t = Inr b \<Longrightarrow> inbox_ok b"
proof -
  assume n: "new_inbox secrets regs path file t = Inr b"
  let ?e = "\<lparr>i_registrations = regs, i_path = path, i_items = [], i_diagnostics = [], i_analysis = []\<rparr>"
  have e: "inbox_ok ?e" by (simp add: inbox_ok_def)
  have "inbox_ok (fold (restore_one secrets t) vs ?e)" if "length vs \<le> inbox_capacity" for vs
    using that by (intro restore_fold e) simp
  then show ?thesis
    using n prune_ok [OF e] prune_ok
    by (auto simp: new_inbox_def Let_def split: if_splits saved.splits option.splits)
qed

section \<open>Properties\<close>

text \<open>C6: From any state file, through any sequence of reports, resolutions, user operations,
  outcomes and prunings, the inbox keeps one row per source and key under its derived id, within
  capacity, each row registered with a valid key and at most twenty outcomes, and no diagnostic
  or analysis outlives its row.\<close>

theorem inbox_invariant:
  "new_inbox secrets regs path file t = Inr b \<Longrightarrow> inbox_ok (foldl (inbox_step secrets fp) b es)"
  by (rule inbox.run_inv [OF new_inbox_ok])

definition demo_finding :: "urgency \<Rightarrow> finding" where
  "demo_finding u = \<lparr>f_key = ''root'', f_title = ''Disk'', f_explanation = [], f_details = [],
     f_urgency = u, f_lifecycle = Ongoing, f_actions = [''recheck''], f_diagnostic = Some ''full''\<rparr>"

definition demo_regs :: registrations where
  "demo_regs = [(''disk'', source_actions ''disk'')]"

definition demo_inbox :: inbox where
  "demo_inbox = \<lparr>i_registrations = demo_regs, i_path = False, i_items = [], i_diagnostics = [], i_analysis = []\<rparr>"

definition demo_fp :: "finding \<Rightarrow> string" where
  "demo_fp f = urgency_name (f_urgency f) @ f_title f"

lemma demo_new: "new_inbox id demo_regs False Missing 100 = Inr demo_inbox"
  by (simp add: new_inbox_def prune_def demo_inbox_def)

theorem inbox_invariant_witness:
  "inbox_ok (foldl (inbox_step id demo_fp) demo_inbox [Ev_publish ''disk'' (demo_finding Soon) 100, Ev_prune 200])"
  by (rule inbox_invariant [OF demo_new])

lemma clean_key_id: "row_id source (f_key (clean_finding secrets f)) = row_id source (f_key f)"
  by simp

lemma publish_again:
  assumes ok: "inbox_ok b" and p: "publish secrets fp source f0 t b = Inr (b', q)"
  shows "map_of (i_items b') (row_id source (f_key f0)) = Some (p_row q)
    \<and> r_fingerprint (p_row q) = fp (clean_finding secrets f0) \<and> r_resolved (p_row q) = 0
    \<and> r_urgency (p_row q) = f_urgency f0"
proof -
  obtain f previous changed r where
    f: "f = clean_finding secrets f0"
    and m: "merge_row f (fp f) changed t (case previous of Some r \<Rightarrow> r | None \<Rightarrow> fresh_row source f t) = Some r"
    and b': "b' = b\<lparr>i_items := bt_insert (row_id source (f_key f)) r (i_items b),
       i_diagnostics := (case f_diagnostic f of Some d \<Rightarrow> bt_insert (row_id source (f_key f)) d (i_diagnostics b)
         | None \<Rightarrow> AList.delete (row_id source (f_key f)) (i_diagnostics b))\<rparr>"
    and q: "q = \<lparr>p_row = r, p_notify = (changed \<and> r_urgency r \<le> Soon \<and> r_snoozed_until r \<le> t), p_changed = changed\<rparr>"
    by (rule publish_cases [OF p]) (rule that; assumption)
  have "r_fingerprint r = fp f \<and> r_resolved r = 0 \<and> r_urgency r = f_urgency f"
    using m by (auto simp: merge_row_def Let_def split: option.splits)
  then show ?thesis
    using ok f by (simp add: b' q inbox_ok_def)
qed

text \<open>Reporting an unchanged finding again changes nothing: no new revision, no
  notification, the same row and the same inbox, however much time has passed.\<close>

theorem republish_idempotent:
  assumes "inbox_ok b" "publish secrets fp source f t b = Inr (b1, p)"
    and "publish secrets fp source f t' b1 = Inr (b2, q)"
  shows "b2 = b1 \<and> p_row q = p_row p \<and> \<not> p_changed q \<and> \<not> p_notify q"
proof -
  let ?f = "clean_finding secrets f" and ?i = "row_id source (f_key f)"
  note one = publish_again [OF assms(1,2)]
  have ok1: "inbox_ok b1" by (rule publish_ok [OF assms(1,2)])
  obtain f' previous changed r where
    f': "f' = ?f" and prev: "previous = map_of (i_items b1) (row_id source (f_key f'))"
    and ch: "changed = (case previous of None \<Rightarrow> True | Some r \<Rightarrow> r_fingerprint r \<noteq> fp f' \<or> r_resolved r \<noteq> 0)"
    and m: "merge_row f' (fp f') changed t' (case previous of Some r \<Rightarrow> r | None \<Rightarrow> fresh_row source f' t') = Some r"
    and b2: "b2 = b1\<lparr>i_items := bt_insert (row_id source (f_key f')) r (i_items b1),
       i_diagnostics := (case f_diagnostic f' of Some d \<Rightarrow> bt_insert (row_id source (f_key f')) d (i_diagnostics b1)
         | None \<Rightarrow> AList.delete (row_id source (f_key f')) (i_diagnostics b1))\<rparr>"
    and q: "q = \<lparr>p_row = r, p_notify = (changed \<and> r_urgency r \<le> Soon \<and> r_snoozed_until r \<le> t'), p_changed = changed\<rparr>"
    by (rule publish_cases [OF assms(3)]) (rule that; assumption)
  have p1: "previous = Some (p_row p)" "\<not> changed"
    using one by (simp_all add: prev ch f')
  obtain f1 pr1 c1 r1 where m1: "f1 = ?f"
    "merge_row f1 (fp f1) c1 t (case pr1 of Some r \<Rightarrow> r | None \<Rightarrow> fresh_row source f1 t) = Some r1"
    "b1 = b\<lparr>i_items := bt_insert (row_id source (f_key f1)) r1 (i_items b),
       i_diagnostics := (case f_diagnostic f1 of Some d \<Rightarrow> bt_insert (row_id source (f_key f1)) d (i_diagnostics b)
         | None \<Rightarrow> AList.delete (row_id source (f_key f1)) (i_diagnostics b))\<rparr>"
    "p = \<lparr>p_row = r1, p_notify = (c1 \<and> r_urgency r1 \<le> Soon \<and> r_snoozed_until r1 \<le> t), p_changed = c1\<rparr>"
    by (rule publish_cases [OF assms(2)]) (rule that; assumption)
  have r: "r = p_row p"
    using m p1 m1(2) one unfolding m1(1,4) f'
    by (auto simp: merge_row_def Let_def split: option.splits)
  have items: "bt_insert ?i r (i_items b1) = i_items b1"
    using ok1 one by (simp add: r bt_insert_present inbox_ok_def)
  have sd: "keys_sorted (i_diagnostics b)" using assms(1) by (simp add: inbox_ok_def)
  have "map_of (i_diagnostics b1) ?i = f_diagnostic ?f"
    using sd by (simp add: m1(1,3) split: option.split) (simp add: delete_conv')
  moreover have "keys_sorted (i_diagnostics b1)" using ok1 by (simp add: inbox_ok_def)
  ultimately have "(case f_diagnostic ?f of Some d \<Rightarrow> bt_insert ?i d (i_diagnostics b1)
      | None \<Rightarrow> AList.delete ?i (i_diagnostics b1)) = i_diagnostics b1"
    by (cases "f_diagnostic ?f")
      (auto simp: bt_insert_present map_of_eq_None_iff intro: delete_id)
  then have "b2 = b1" unfolding b2 f' clean_finding_key using items by simp
  then show ?thesis using p1 r by (simp add: q)
qed

definition demo_published :: "inbox \<times> published" where
  "demo_published = projr (publish id demo_fp ''disk'' (demo_finding Soon) 100 demo_inbox)"

lemma demo_publish:
  "publish id demo_fp ''disk'' (demo_finding Soon) 100 demo_inbox = Inr (fst demo_published, snd demo_published)"
proof -
  have "case publish id demo_fp ''disk'' (demo_finding Soon) 100 demo_inbox of Inl _ \<Rightarrow> False | Inr _ \<Rightarrow> True"
    by code_simp
  then show ?thesis by (auto simp: demo_published_def split: sum.splits)
qed

lemma demo_inbox_ok: "inbox_ok demo_inbox"
  using new_inbox_ok [OF demo_new] .

theorem republish_idempotent_witness:
  "\<exists>b q. publish id demo_fp ''disk'' (demo_finding Soon) 500 (fst demo_published) = Inr (b, q)
     \<and> b = fst demo_published \<and> \<not> p_notify q"
proof -
  have "case publish id demo_fp ''disk'' (demo_finding Soon) 500 (fst demo_published) of Inl _ \<Rightarrow> False | Inr _ \<Rightarrow> True"
    by code_simp
  then obtain b q where bq: "publish id demo_fp ''disk'' (demo_finding Soon) 500 (fst demo_published) = Inr (b, q)"
    by (auto split: sum.splits)
  show ?thesis
    using republish_idempotent [OF demo_inbox_ok demo_publish bq] bq by blast
qed

text \<open>The rules of a report: the revision grows by one exactly when the finding is new,
  changed or had been resolved; a resolved row counts a recurrence; a more urgent finding ends
  a snooze; and a notification is due exactly when the report is a change that is at least soon
  and not snoozed.\<close>

theorem publish_rules:
  assumes "inbox_ok b" "publish secrets fp source f t b = Inr (b', p)"
    and "map_of (i_items b) (row_id source (f_key f)) = Some r"
  shows "(p_changed p = (r_fingerprint r \<noteq> fp (clean_finding secrets f) \<or> r_resolved r \<noteq> 0))
    \<and> r_revision (p_row p) = r_revision r + (if p_changed p then 1 else 0)
    \<and> r_recurrence (p_row p) = r_recurrence r + (if r_resolved r \<noteq> 0 then 1 else 0)
    \<and> r_snoozed_until (p_row p) = (if f_urgency f < r_urgency r then 0 else r_snoozed_until r)
    \<and> p_notify p = (p_changed p \<and> f_urgency f \<le> Soon \<and> r_snoozed_until (p_row p) \<le> t)
    \<and> r_outcomes (p_row p) = r_outcomes r \<and> r_first_seen (p_row p) = r_first_seen r"
proof -
  obtain f' previous changed x where
    f': "f' = clean_finding secrets f" and prev: "previous = map_of (i_items b) (row_id source (f_key f'))"
    and ch: "changed = (case previous of None \<Rightarrow> True | Some r \<Rightarrow> r_fingerprint r \<noteq> fp f' \<or> r_resolved r \<noteq> 0)"
    and m: "merge_row f' (fp f') changed t (case previous of Some r \<Rightarrow> r | None \<Rightarrow> fresh_row source f' t) = Some x"
    and q: "p = \<lparr>p_row = x, p_notify = (changed \<and> r_urgency x \<le> Soon \<and> r_snoozed_until x \<le> t), p_changed = changed\<rparr>"
    by (rule publish_cases [OF assms(2)]) (rule that; assumption)
  have "previous = Some r" using assms(3) by (simp add: prev f')
  with ch m have c: "changed = (r_fingerprint r \<noteq> fp f' \<or> r_resolved r \<noteq> 0)"
    "merge_row f' (fp f') changed t r = Some x" by simp_all
  have "r_revision x = r_revision r + (if changed then 1 else 0)
      \<and> r_recurrence x = r_recurrence r + (if r_resolved r \<noteq> 0 then 1 else 0)
      \<and> r_snoozed_until x = (if f_urgency f' < r_urgency r then 0 else r_snoozed_until r)
      \<and> r_urgency x = f_urgency f' \<and> r_outcomes x = r_outcomes r \<and> r_first_seen x = r_first_seen r"
    using c(2) by (auto simp: merge_row_def Let_def checked_add64_def split: option.splits if_splits)
  then show ?thesis using c(1) by (simp add: q f')
qed

theorem publish_rules_witness:
  "\<exists>b' p. publish id demo_fp ''disk'' (demo_finding Now) 600 (fst demo_published) = Inr (b', p)
     \<and> p_changed p \<and> p_notify p \<and> r_revision (p_row p) = 2"
proof -
  have c: "case publish id demo_fp ''disk'' (demo_finding Now) 600 (fst demo_published) of
      Inl _ \<Rightarrow> False | Inr (_, p) \<Rightarrow> p_changed p \<and> r_snoozed_until (p_row p) \<le> 600"
    by code_simp
  then obtain b' p where p: "publish id demo_fp ''disk'' (demo_finding Now) 600 (fst demo_published) = Inr (b', p)"
    "p_changed p" "r_snoozed_until (p_row p) \<le> 600"
    by (auto split: sum.splits)
  have ok: "inbox_ok (fst demo_published)" by (rule publish_ok [OF demo_inbox_ok demo_publish])
  have k: "f_key (demo_finding Soon) = f_key (demo_finding Now)" by (simp add: demo_finding_def)
  have m: "map_of (i_items (fst demo_published)) (row_id ''disk'' (f_key (demo_finding Now)))
      = Some (p_row (snd demo_published))"
    using publish_again [OF demo_inbox_ok demo_publish] by (simp add: k)
  have rev: "r_revision (p_row (snd demo_published)) = 1" by code_simp
  show ?thesis
    using publish_rules [OF ok p(1) m] p rev
    by (auto simp: demo_finding_def less_eq_urgency_def)
qed

lemma mset_partition3:
  "mset (filter (is_active t) xs) + mset (filter (is_snoozed t) xs) + mset (filter is_history xs) = mset xs"
  by (induction xs) (auto simp: is_active_def is_snoozed_def is_history_def)

text \<open>The snapshot shows every retained row in exactly one of its three lists, the active
  ones most urgent first, counts the active rows that are more than informational, and never
  meets a row whose source has no registration.\<close>

theorem snapshot_partition:
  assumes "inbox_ok b" "snapshot_of t b = (s, b')"
  shows "mset (map v_row (s_active s @ s_snoozed s @ s_history s))
      = mset (map (\<lambda>r. r\<lparr>r_fingerprint := []\<rparr>) (rows (prune t b)))
    \<and> sorted (map (\<lambda>v. r_urgency (v_row v)) (s_active s))
    \<and> s_count s = length (filter (\<lambda>r. is_active t r \<and> r_urgency r \<noteq> Informational) (rows (prune t b)))
    \<and> (\<forall>r \<in> set (rows (prune t b)). has_key (i_registrations (prune t b)) (r_source r)) \<and> b' = prune t b"
proof -
  let ?b = "prune t b"
  have s: "s_active s = map (view_of ?b) (active_rows t ?b)"
    "s_snoozed s = map (view_of ?b) (sort_key r_snoozed_until (filter (is_snoozed t) (rows ?b)))"
    "s_history s = map (view_of ?b) (sort_key (\<lambda>r. - r_resolved r) (filter is_history (rows ?b)))"
    "s_count s = length (filter (\<lambda>r. r_urgency r \<noteq> Informational) (active_rows t ?b))" "b' = ?b"
    using assms(2) by (auto simp: snapshot_of_def Let_def)
  let ?v = "\<lambda>r. r\<lparr>r_fingerprint := []\<rparr>"
  have v: "v_row \<circ> view_of ?b = ?v" by (simp add: fun_eq_iff view_of_def)
  have "mset (map v_row (s_active s @ s_snoozed s @ s_history s))
      = image_mset ?v (mset (filter (is_active t) (rows ?b)) + mset (filter (is_snoozed t) (rows ?b))
          + mset (filter is_history (rows ?b)))"
    by (simp add: s v active_rows_def)
  also have "\<dots> = mset (map ?v (rows ?b))" by (simp only: mset_partition3 mset_map)
  finally have parts: "mset (map v_row (s_active s @ s_snoozed s @ s_history s)) = mset (map ?v (rows ?b))" .
  have "sorted (map (\<lambda>r. (r_urgency r, - r_updated r)) (active_rows t ?b))"
    by (simp add: active_rows_def)
  then have "sorted (map r_urgency (active_rows t ?b))"
    by (auto simp: sorted_iff_nth_mono less_eq_prod_def intro: less_imp_le)
  moreover have "map (\<lambda>v. r_urgency (v_row v)) (s_active s) = map r_urgency (active_rows t ?b)"
    by (simp add: s view_of_def)
  moreover have "s_count s = length (filter (\<lambda>r. is_active t r \<and> r_urgency r \<noteq> Informational) (rows ?b))"
  proof -
    have "mset (filter (\<lambda>r. r_urgency r \<noteq> Informational) (active_rows t ?b))
        = mset (filter (\<lambda>r. is_active t r \<and> r_urgency r \<noteq> Informational) (rows ?b))"
      by (simp add: active_rows_def mset_filter flip: filter_filter)
    then show ?thesis unfolding s(4) by (rule mset_eq_length)
  qed
  moreover have "\<forall>r \<in> set (rows ?b). has_key (i_registrations ?b) (r_source r)"
    using prune_ok [OF assms(1), of t] by (auto simp: rows_def inbox_ok_def row_ok_def)
  ultimately show ?thesis using parts s(5) by simp
qed

theorem snapshot_partition_witness:
  "s_count (fst (snapshot_of 200 (fst demo_published))) = 1"
proof -
  have ok: "inbox_ok (fst demo_published)" by (rule publish_ok [OF demo_inbox_ok demo_publish])
  have "length (filter (\<lambda>r. is_active 200 r \<and> r_urgency r \<noteq> Informational) (rows (prune 200 (fst demo_published)))) = 1"
    by code_simp
  then show ?thesis
    using snapshot_partition [OF ok, of 200 _ "prune 200 (fst demo_published)"]
    by (simp add: snapshot_of_def Let_def)
qed

end
