(* ===== verification/Maintenance_Theorems.thy ===== *)
theory Maintenance_Theorems
  imports Maintenance_Service
begin

text \<open>
  What the maintenance service promises: a check replaces the state of its source in one
  transaction, requests are refused without effect when they are stale or unregistered, tasks
  are bounded and confirmed, and the argument vectors of actions are fixed.
\<close>

section \<open>The transaction of a check\<close>

lemma row_id_inject [simp]: "row_id s k = row_id s k' \<longleftrightarrow> k = k'"
  by (simp add: row_id_def)

lemma publish_frame:
  assumes ok: "inbox_ok b" and p: "publish secrets fp source f t b = Inr (b', q)"
    and i: "i \<noteq> row_id source (f_key f)"
  shows "map_of (i_items b') i = map_of (i_items b) i"
proof -
  obtain f' r where f': "f' = clean_finding secrets f"
    and b': "b' = b\<lparr>i_items := bt_insert (row_id source (f_key f')) r (i_items b),
       i_diagnostics := (case f_diagnostic f' of Some d \<Rightarrow> bt_insert (row_id source (f_key f')) d (i_diagnostics b)
         | None \<Rightarrow> AList.delete (row_id source (f_key f')) (i_diagnostics b))\<rparr>"
    by (rule publish_cases [OF p]) (rule that; assumption)
  show ?thesis using ok i by (simp add: b' f' inbox_ok_def)
qed

lemma stage_findings_Inr:
  "stage_findings io source t fs g = Inr g' \<Longrightarrow> inbox_ok (g_inbox g) \<Longrightarrow>
   (\<forall>k \<in> set (g_seen g). \<exists>r. map_of (i_items (g_inbox g)) (row_id source k) = Some r \<and> r_resolved r = 0) \<Longrightarrow>
     inbox_ok (g_inbox g') \<and> set (g_seen g') = set (g_seen g) \<union> f_key ` set fs
     \<and> (\<forall>k \<in> set (g_seen g'). \<exists>r. map_of (i_items (g_inbox g')) (row_id source k) = Some r \<and> r_resolved r = 0)
     \<and> (\<forall>i. i \<notin> row_id source ` (f_key ` set fs) \<longrightarrow> map_of (i_items (g_inbox g')) i = map_of (i_items (g_inbox g)) i)"
proof (induction fs arbitrary: g)
  case (Cons f fs)
  obtain b p where new: "f_key f \<notin> set (g_seen g)"
    and pub: "publish (io_secrets io) (io_fp io) source f t (g_inbox g) = Inr (b, p)"
    and rest: "stage_findings io source t fs \<lparr>g_inbox = b, g_seen = f_key f # g_seen g,
             g_notify = (if p_notify p then g_notify g @ [p_row p] else g_notify g),
             g_dirty = (g_dirty g \<or> p_changed p)\<rparr> = Inr g'"
    using Cons.prems(1) by (auto simp: stage_finding_def split: if_splits sum.splits)
  have okb: "inbox_ok b" by (rule publish_ok [OF Cons.prems(2) pub])
  have here: "\<exists>r. map_of (i_items b) (row_id source (f_key f)) = Some r \<and> r_resolved r = 0"
    using publish_again [OF Cons.prems(2) pub] by blast
  have other: "map_of (i_items b) i = map_of (i_items (g_inbox g)) i" if "i \<noteq> row_id source (f_key f)" for i
    by (rule publish_frame [OF Cons.prems(2) pub that])
  have seen: "\<exists>r. map_of (i_items b) (row_id source k) = Some r \<and> r_resolved r = 0" if "k \<in> set (f_key f # g_seen g)" for k
    using that here other [of "row_id source k"] Cons.prems(3) by (cases "k = f_key f") auto
  show ?case using Cons.IH [OF rest] okb seen other by simp
qed simp

lemma resolve_facts:
  assumes ok: "inbox_ok b" and r: "resolve source key t b = Inr (b', d)"
  shows "inbox_ok b' \<and> (\<forall>i. map_of (i_items b') i = (if i = row_id source key
    then map_option (\<lambda>r. if r_resolved r = 0 then r\<lparr>r_resolved := t, r_busy := []\<rparr> else r) (map_of (i_items b) i)
    else map_of (i_items b) i))"
proof -
  have sorted: "keys_sorted (i_items b)" using ok by (simp add: inbox_ok_def)
  have "map_of (i_items b') i = (if i = row_id source key
    then map_option (\<lambda>r. if r_resolved r = 0 then r\<lparr>r_resolved := t, r_busy := []\<rparr> else r) (map_of (i_items b) i)
    else map_of (i_items b) i)" for i
  proof (cases "map_of (i_items b) (row_id source key)")
    case None
    then have "b' = b" using r by (simp add: resolve_def Let_def split: if_splits)
    then show ?thesis using None by simp
  next
    case (Some x)
    show ?thesis
    proof (cases "r_resolved x = 0")
      case True
      then have "i_items b' = bt_insert (row_id source key) (x\<lparr>r_resolved := t, r_busy := []\<rparr>) (i_items b)"
        using r Some by (auto simp: resolve_def Let_def split: if_splits)
      then show ?thesis using sorted Some True by simp
    next
      case False
      then have "b' = b" using r Some by (auto simp: resolve_def Let_def split: if_splits)
      then show ?thesis using Some False by simp
    qed
  qed
  then show ?thesis using resolve_ok [OF ok r] by blast
qed

lemma resolve_keys_Inr:
  "resolve_keys source t ks (b, d) = Inr (b', d') \<Longrightarrow> inbox_ok b \<Longrightarrow> t \<noteq> 0 \<Longrightarrow>
     inbox_ok b' \<and> (\<forall>i. i \<notin> row_id source ` set ks \<longrightarrow> map_of (i_items b') i = map_of (i_items b) i)
     \<and> (\<forall>k \<in> set ks. \<forall>r. map_of (i_items b') (row_id source k) = Some r \<longrightarrow> r_resolved r \<noteq> 0)"
proof (induction ks arbitrary: b d)
  case (Cons k ks)
  obtain b1 d1 where r: "resolve source k t b = Inr (b1, d1)"
    and rest: "resolve_keys source t ks (b1, d \<or> d1) = Inr (b', d')"
    using Cons.prems(1) by (auto split: sum.splits)
  note f = resolve_facts [OF Cons.prems(2) r]
  have ih: "inbox_ok b'" "\<forall>i. i \<notin> row_id source ` set ks \<longrightarrow> map_of (i_items b') i = map_of (i_items b1) i"
    "\<forall>k \<in> set ks. \<forall>r. map_of (i_items b') (row_id source k) = Some r \<longrightarrow> r_resolved r \<noteq> 0"
    using Cons.IH [OF rest] f Cons.prems(3) by blast+
  have e: "map_of (i_items b1) (row_id source k) = map_option (\<lambda>r. if r_resolved r = 0
      then r\<lparr>r_resolved := t, r_busy := []\<rparr> else r) (map_of (i_items b) (row_id source k))"
    using f by simp
  have "r_resolved x \<noteq> 0" if x: "map_of (i_items b1) (row_id source k) = Some x" for x
  proof -
    obtain y where "x = (if r_resolved y = 0 then y\<lparr>r_resolved := t, r_busy := []\<rparr> else y)"
      using e x by (cases "map_of (i_items b) (row_id source k)") auto
    then show ?thesis using Cons.prems(3) by simp
  qed
  then have "r_resolved x \<noteq> 0" if "map_of (i_items b') (row_id source k) = Some x" for x
  proof (cases "k \<in> set ks")
    case True
    then show ?thesis using ih(3) that by blast
  next
    case False
    then have "row_id source k \<notin> row_id source ` set ks" by auto
    then show ?thesis using ih(2) that \<open>\<And>x. map_of (i_items b1) (row_id source k) = Some x \<Longrightarrow> r_resolved x \<noteq> 0\<close> by metis
  qed
  then show ?case using ih f by simp
qed simp

lemma commit_inbox:
  "commit io staged t dirty st = Inr st' \<Longrightarrow> m_inbox st' = staged \<or> m_inbox st' = prune t (prune t staged)"
  by (auto simp: commit_def snapshot_of_def persist_def Let_def split: if_splits option.splits prod.splits)

lemma rows_prune: "r \<in> set (rows (prune t b)) \<Longrightarrow> \<exists>r0 \<in> set (rows b). r_source r = r_source r0
    \<and> r_key r = r_key r0 \<and> r_resolved r = r_resolved r0"
  by (force simp: rows_def prune_def Let_def)

lemma rows_committed:
  assumes "commit io staged t dirty st = Inr st'" "r \<in> set (rows (m_inbox st'))"
  shows "\<exists>r0 \<in> set (rows staged). r_source r = r_source r0 \<and> r_key r = r_key r0 \<and> r_resolved r = r_resolved r0"
  using commit_inbox [OF assms(1)]
proof
  assume "m_inbox st' = prune t (prune t staged)"
  then obtain r1 where "r1 \<in> set (rows (prune t staged))" "r_source r = r_source r1"
    "r_key r = r_key r1" "r_resolved r = r_resolved r1"
    using rows_prune assms(2) by metis
  then show ?thesis using rows_prune by metis
qed (use assms(2) in auto)

lemma rows_iff: "inbox_ok b \<Longrightarrow> r \<in> set (rows b) \<longleftrightarrow> map_of (i_items b) (row_id (r_source r) (r_key r)) = Some r"
proof -
  assume ok: "inbox_ok b"
  have d: "keys_distinct (i_items b)" using ok by (simp add: inbox_ok_def)
  show ?thesis
  proof
    assume "r \<in> set (rows b)"
    then obtain i where "(i, r) \<in> set (i_items b)" by (auto simp: rows_def)
    then show "map_of (i_items b) (row_id (r_source r) (r_key r)) = Some r"
      using ok d by (auto simp: inbox_ok_def row_ok_def)
  next
    assume "map_of (i_items b) (row_id (r_source r) (r_key r)) = Some r"
    then show "r \<in> set (rows b)" by (force simp: rows_def dest: map_of_SomeD)
  qed
qed

text \<open>A completed check leaves exactly the reported findings of its source unresolved: every
  unresolved row of the source was reported, every other row of the source is resolved.\<close>

theorem check_exact:
  assumes "inbox_ok (m_inbox st)" "t \<noteq> 0"
    and "check_transaction io source (Inr fs) t st = Inr (st', notices)"
    and "r \<in> set (rows (m_inbox st'))" "r_source r = source"
  shows "(r_resolved r = 0) = (r_key r \<in> f_key ` set fs)"
proof -
  let ?g0 = "\<lparr>g_inbox = m_inbox st, g_seen = [], g_notify = [], g_dirty = False\<rparr>"
  obtain g b dirty st1 where g: "stage_findings io source t fs ?g0 = Inr g"
    and b: "resolve_keys source t (absent source (g_seen g) (g_inbox g)) (g_inbox g, g_dirty g) = Inr (b, dirty)"
    and c: "commit io b t dirty st = Inr st1" and st': "m_inbox st' = m_inbox st1"
    using assms(3) by (auto simp: check_transaction_def split: if_splits sum.splits)
  have s: "inbox_ok (g_inbox g)" "set (g_seen g) = f_key ` set fs"
    "\<forall>k \<in> set (g_seen g). \<exists>r. map_of (i_items (g_inbox g)) (row_id source k) = Some r \<and> r_resolved r = 0"
    using stage_findings_Inr [OF g] assms(1) by simp_all
  have k: "inbox_ok b" "\<forall>i. i \<notin> row_id source ` set (absent source (g_seen g) (g_inbox g))
        \<longrightarrow> map_of (i_items b) i = map_of (i_items (g_inbox g)) i"
    "\<forall>k \<in> set (absent source (g_seen g) (g_inbox g)).
        \<forall>r. map_of (i_items b) (row_id source k) = Some r \<longrightarrow> r_resolved r \<noteq> 0"
    using resolve_keys_Inr [OF b s(1) assms(2)] by blast+
  obtain r0 where r0: "r0 \<in> set (rows b)" "r_source r0 = source" "r_key r = r_key r0" "r_resolved r = r_resolved r0"
    using rows_committed [OF c, of r] assms(4,5) st' by metis
  have m: "map_of (i_items b) (row_id source (r_key r0)) = Some r0"
    using r0(1,2) rows_iff [OF k(1)] by metis
  have abs: "r_key r0 \<in> set (absent source (g_seen g) (g_inbox g)) \<Longrightarrow> r_key r0 \<notin> set (g_seen g)"
    by (auto simp: absent_def)
  show ?thesis
  proof (cases "r_key r0 \<in> set (absent source (g_seen g) (g_inbox g))")
    case True
    then show ?thesis using k(3) m abs s(2) r0(3,4) by auto
  next
    case False
    then have same: "map_of (i_items (g_inbox g)) (row_id source (r_key r0)) = Some r0"
    proof -
      have "row_id source (r_key r0) \<notin> row_id source ` set (absent source (g_seen g) (g_inbox g))"
        using False by auto
      then show ?thesis using k(2) m by metis
    qed
    then have "r0 \<in> set (rows (g_inbox g))" using rows_iff [OF s(1), of r0] r0(2) by simp
    then have "r_key r0 \<in> set (g_seen g)" using False r0(2) by (auto simp: absent_def)
    then show ?thesis using same s(2,3) r0(3,4) by fastforce
  qed
qed

definition demo_io :: mio where
  "demo_io = \<lparr>io_secrets = id, io_fp = demo_fp, io_snapshot_size = (\<lambda>_. 0), io_rows_size = (\<lambda>_. 0), io_written = True\<rparr>"

definition demo_mstate :: mstate where
  "demo_mstate = \<lparr>m_inbox = fst demo_published, m_errors = [], m_checking = [''disk''], m_tasks = [], m_stop = False\<rparr>"

lemma demo_mstate_ok: "inbox_ok (m_inbox demo_mstate)"
  using publish_ok [OF demo_inbox_ok demo_publish] by (simp add: demo_mstate_def)

theorem check_exact_witness:
  "case check_transaction demo_io ''disk'' (Inr []) 900 demo_mstate of
     Inl _ \<Rightarrow> False
   | Inr (st', _) \<Rightarrow> rows (m_inbox st') \<noteq> [] \<and> (\<forall>r \<in> set (rows (m_inbox st')). r_resolved r \<noteq> 0)"
proof -
  have c: "case check_transaction demo_io ''disk'' (Inr []) 900 demo_mstate of
     Inl _ \<Rightarrow> False | Inr (st', _) \<Rightarrow> map r_source (rows (m_inbox st')) = [''disk'']"
    by code_simp
  then obtain st' notices where t: "check_transaction demo_io ''disk'' (Inr []) 900 demo_mstate = Inr (st', notices)"
    and src: "map r_source (rows (m_inbox st')) = [''disk'']"
    by (auto split: sum.splits)
  have "r_source r = ''disk''" if "r \<in> set (rows (m_inbox st'))" for r
    using that src by (cases "rows (m_inbox st')") auto
  then have "r_resolved r \<noteq> 0" if "r \<in> set (rows (m_inbox st'))" for r
    using check_exact [OF demo_mstate_ok _ t that] that by auto
  then show ?thesis using t src by auto
qed

section \<open>Requests and tasks\<close>

text \<open>The service's own invariant: a sound inbox and at most eight tasks, one per row.\<close>

definition service_ok :: "mstate \<Rightarrow> bool" where
  "service_ok st \<longleftrightarrow> inbox_ok (m_inbox st) \<and> distinct (m_tasks st) \<and> length (m_tasks st) \<le> 8"

lemma service_ok_inbox:
  "service_ok st \<Longrightarrow> inbox_ok b \<Longrightarrow> service_ok (st\<lparr>m_inbox := b\<rparr>)"
  by (simp add: service_ok_def)

lemma commit_ok:
  assumes "service_ok st" "inbox_ok staged" "commit io staged t dirty st = Inr st'"
  shows "service_ok st'"
proof -
  have "m_tasks st' = m_tasks st"
    using assms(3) by (auto simp: commit_def snapshot_of_def Let_def split: if_splits option.splits prod.splits)
  moreover have "inbox_ok (m_inbox st')"
    using commit_inbox [OF assms(3)] assms(2) prune_ok by metis
  ultimately show ?thesis using assms(1) by (simp add: service_ok_def)
qed

lemma publish_or_resolve_commits:
  assumes ok: "inbox_ok (m_inbox st)" and p: "publish_or_resolve io op' message t st = Inr (reply, st')"
  shows "\<exists>b dirty. inbox_ok b \<and> commit io b t dirty st = Inr st'"
proof (cases "as_str (json_index message ''source'')")
  case None
  then show ?thesis using p by (simp add: publish_or_resolve_def)
next
  case src: (Some source)
  show ?thesis
  proof (cases "op' = ''publish''")
    case True
    then obtain f b q where "publish (io_secrets io) (io_fp io) source f t (m_inbox st) = Inr (b, q)"
      "commit io b t (p_changed q) st = Inr st'"
      using p src by (auto simp: publish_or_resolve_def Let_def split: option.splits sum.splits)
    then show ?thesis using publish_ok [OF ok] by metis
  next
    case False
    then obtain key b d where "resolve source key t (m_inbox st) = Inr (b, d)" "commit io b t d st = Inr st'"
      using p src by (auto simp: publish_or_resolve_def Let_def split: option.splits sum.splits)
    then show ?thesis using resolve_ok [OF ok] by metis
  qed
qed

lemma publish_or_resolve_ok:
  assumes "service_ok st" "publish_or_resolve io op' message t st = Inr (reply, st')"
  shows "service_ok st'"
proof -
  have "inbox_ok (m_inbox st)" using assms(1) by (simp add: service_ok_def)
  from publish_or_resolve_commits [OF this assms(2)] show ?thesis using commit_ok [OF assms(1)] by blast
qed

lemma start_task_ok:
  assumes "service_ok st"
  shows "service_ok (snd (start_task message op' i r spawned st))"
  using assms set_busy_ok
  by (auto simp: start_task_def service_ok_def Let_def distinct_insort set_insort_key length_remove1
      split: sum.split)

lemma row_request_ok:
  assumes "service_ok st"
  shows "service_ok (snd (case current i revision (m_inbox st) of
      Inl e \<Rightarrow> (Inl e, st)
    | Inr r \<Rightarrow>
      if op' = ''done'' \<or> op' = ''snooze'' \<or> op' = ''unsnooze'' then
        (case operation i revision op' s t (m_inbox st) of
           Inl e \<Rightarrow> (Inl e, st)
         | Inr b \<Rightarrow> (case commit io b t True st of Inl e \<Rightarrow> (Inl e, st) | Inr st' \<Rightarrow> (Inr Done, st')))
      else start_task message op' i r spawned st))"
proof -
  have "inbox_ok (m_inbox st)" using assms by (simp add: service_ok_def)
  then have op_ok: "service_ok st'" if "operation i revision op' s t (m_inbox st) = Inr b" "commit io b t True st = Inr st'"
    for b st'
    using that by (intro commit_ok [OF assms operation_ok that(2)])
  show ?thesis
    using assms op_ok start_task_ok [OF assms, of message op' i _ spawned] by (simp split: sum.split)
qed

text \<open>Every request keeps the service consistent: a sound inbox, and at most eight running
  tasks, never two for one row.\<close>

theorem service_invariant:
  assumes "service_ok st"
  shows "service_ok (snd (mcall io message t spawned st))"
proof (cases "request_check message")
  case (Inl e)
  then show ?thesis using assms by (simp add: mcall_def)
next
  case (Inr op')
  have snap: "service_ok (st\<lparr>m_inbox := snd (snapshot_of t (m_inbox st))\<rparr>)"
    using assms prune_ok by (simp add: snapshot_of_def Let_def service_ok_def)
  consider "m_stop st" | "\<not> m_stop st" "op' = ''list''"
    | "\<not> m_stop st" "op' = ''publish'' \<or> op' = ''resolve''"
    | "\<not> m_stop st" "op' \<noteq> ''list''" "\<not> (op' = ''publish'' \<or> op' = ''resolve'')" by blast
  then show ?thesis
  proof cases
    case 1
    then show ?thesis using assms Inr by (simp add: mcall_def)
  next
    case 2
    then show ?thesis using snap Inr by (simp add: mcall_def split_def Let_def)
  next
    case 3
    then show ?thesis
      using assms Inr publish_or_resolve_ok [OF assms, of io op' message t]
      by (auto simp: mcall_def split: sum.split)
  next
    case 4
    then show ?thesis
      using assms Inr row_request_ok [OF assms] by (simp add: mcall_def split: option.split)
  qed
qed

theorem service_invariant_witness:
  "service_ok (snd (mcall demo_io (JObj [(''op'', JStr ''list'')]) 900 True demo_mstate))"
  by (rule service_invariant) (simp add: service_ok_def demo_mstate_ok, simp add: demo_mstate_def)

lemma set_busy_undo:
  "map_of (i_items b) i = Some r \<Longrightarrow> r_busy r = [] \<Longrightarrow> keys_distinct (i_items b) \<Longrightarrow>
     set_busy i [] (set_busy i act b) = b"
proof -
  assume r: "map_of (i_items b) i = Some r" "r_busy r = []" and d: "keys_distinct (i_items b)"
  have "(k, if k = i then x\<lparr>r_busy := []\<rparr> else x) = (k, x)" if "(k, x) \<in> set (i_items b)" for k x
    using that r d by (cases "k = i") auto
  then have "map (\<lambda>(k, x). (k, if k = i then x\<lparr>r_busy := []\<rparr> else x)) (i_items b) = i_items b"
    by (intro map_idI) auto
  then show ?thesis
    by (simp add: set_busy_def update_row_def comp_def split_def if_distrib cong: if_cong)
qed


definition demo_retry_row :: row where
  "demo_retry_row = \<lparr>r_id = ''backups:home'', r_source = ''backups'', r_key = ''home'', r_title = ''Backup'',
     r_explanation = [], r_details = [], r_urgency = Soon, r_lifecycle = Ongoing, r_actions = [''retry''],
     r_first_seen = 1, r_updated = 1, r_revision = 1, r_recurrence = 0, r_snoozed_until = 0, r_resolved = 0,
     r_outcomes = [], r_fingerprint = [], r_busy = []\<rparr>"

definition demo_backups :: mstate where
  "demo_backups = \<lparr>m_inbox = \<lparr>i_registrations = [(''backups'', source_actions ''backups'')], i_path = False,
     i_items = [(''backups:home'', demo_retry_row)], i_diagnostics = [], i_analysis = []\<rparr>,
     m_errors = [], m_checking = [], m_tasks = [], m_stop = False\<rparr>"

lemma demo_backups_ok: "service_ok demo_backups"
proof -
  have "valid_key ''home''" by code_simp
  then show ?thesis
    by (simp add: service_ok_def inbox_ok_def demo_backups_def demo_retry_row_def row_ok_def row_id_def
        has_key_def inbox_capacity_def outcome_limit_def)
qed


lemma unit_kinds_chars: "k \<in> set unit_kinds \<Longrightarrow> list_all unit_char k"
proof -
  have "list_all (list_all unit_char) unit_kinds" by code_simp
  then show "k \<in> set unit_kinds \<Longrightarrow> list_all unit_char k" by (simp add: list_all_iff)
qed

lemma valid_unit_chars: "valid_unit s \<Longrightarrow> s \<noteq> [] \<and> hd s \<noteq> CHR ''-'' \<and> list_all unit_char s \<and> length s \<le> 200"
proof -
  assume "valid_unit s"
  then obtain k where k: "k \<in> set unit_kinds" "length s > length k + 1" "drop (length s - length k) s = k"
    "s ! (length s - length k - 1) = CHR ''.''" "is_ascii_alphanumeric (hd s) \<or> hd s = CHR ''_''"
    "list_all unit_char (tl (take (length s - length k - 1) s))" "length s \<le> 200"
    by (auto simp: valid_unit_def)
  let ?n = "length s - length k - 1"
  have split: "s = take ?n s @ s ! ?n # drop (Suc ?n) s"
    using k(2) by (intro id_take_nth_drop) simp
  have n: "Suc ?n = length s - length k" using k(2) by simp
  have dot: "unit_char (CHR ''.'')" by code_simp
  have head: "take ?n s \<noteq> []" using k(2) by auto
  obtain a ts where ts: "take ?n s = a # ts" using head by (cases "take ?n s") auto
  have "hd (take ?n s) = hd s" using k(2) by (intro hd_take) simp
  then have "unit_char a" using k(5) ts by (auto simp: unit_char_def)
  then have "list_all unit_char (take ?n s)" using k(6) unfolding ts by simp
  moreover have "list_all unit_char (drop (Suc ?n) s)" using unit_kinds_chars [OF k(1)] k(3) n by simp
  ultimately have "list_all unit_char s"
    using dot k(4) by (subst split) simp
  moreover have "s \<noteq> []" using k(2) by auto
  moreover have "\<not> is_ascii_alphanumeric (CHR ''-'')" by code_simp
  then have "hd s \<noteq> CHR ''-''" using k(5) by auto
  ultimately show ?thesis using k(7) by blast
qed

text \<open>An action runs one of five fixed commands; its only variable argument is a unit name
  that begins with a letter, digit or underscore, has at most 200 characters and no slash or
  space, so it can be read neither as an option nor as a path.\<close>

theorem action_commands:
  assumes "action_args config r act = Inr args"
  shows "args = [''seele-shellctl'', ''power''] \<or>
    (\<exists>unit. unit \<noteq> [] \<and> hd unit \<noteq> CHR ''-'' \<and> list_all unit_char unit \<and> length unit \<le> 200
      \<and> args \<in> {[''systemctl'', ''--user'', ''restart'', ''--'', unit],
         [''/run/current-system/sw/bin/run0'', ''/run/current-system/sw/bin/systemctl'', ''restart'', ''--'', unit],
         [''systemd-run'', ''--user'', ''--collect'', ''--quiet'', ''--'', ''ghostty'', ''-e'', ''journalctl'',
          ''--unit='' @ unit, ''--no-hostname''],
         [''systemd-run'', ''--user'', ''--collect'', ''--quiet'', ''--'', ''ghostty'', ''-e'', ''journalctl'',
          ''--user'', ''--unit='' @ unit, ''--no-hostname'']})"
proof (cases "act = ''open-power''")
  case True
  then show ?thesis using assms by (auto simp: action_args_def split: if_splits)
next
  case False
  then obtain user unit where u: "action_unit config r act = Inr (user, unit)" "valid_unit unit"
  proof (cases "action_unit config r act")
    case (Inl e)
    then show ?thesis using assms False by (simp add: action_args_def split: if_splits)
  next
    case (Inr q)
    then show ?thesis
      using assms False that [of "fst q" "snd q"] by (cases "valid_unit (snd q)")
        (simp_all add: action_args_def split_def split: if_splits)
  qed
  have "args \<in> {[''systemctl'', ''--user'', ''restart'', ''--'', unit],
         [''/run/current-system/sw/bin/run0'', ''/run/current-system/sw/bin/systemctl'', ''restart'', ''--'', unit],
         [''systemd-run'', ''--user'', ''--collect'', ''--quiet'', ''--'', ''ghostty'', ''-e'', ''journalctl'',
          ''--unit='' @ unit, ''--no-hostname''],
         [''systemd-run'', ''--user'', ''--collect'', ''--quiet'', ''--'', ''ghostty'', ''-e'', ''journalctl'',
          ''--user'', ''--unit='' @ unit, ''--no-hostname'']}"
  proof (cases "act = ''retry''")
    case True
    then have "args = (if user then [''systemctl'', ''--user'', ''restart'', ''--'', unit]
        else [''/run/current-system/sw/bin/run0'', ''/run/current-system/sw/bin/systemctl'', ''restart'', ''--'', unit])"
      using assms u by (simp add: action_args_def split: if_splits)
    then show ?thesis by simp
  next
    case nr: False
    then have "act = ''open-logs''" using assms False by (simp add: action_args_def split: if_splits)
    then have "args = [''systemd-run'', ''--user'', ''--collect'', ''--quiet'', ''--'', ''ghostty'', ''-e'', ''journalctl'']
        @ (if user then [''--user''] else []) @ [''--unit='' @ unit, ''--no-hostname'']"
      using assms u by (simp add: action_args_def)
    then show ?thesis by simp
  qed
  then show ?thesis
    using valid_unit_chars [OF u(2)] by (intro disjI2 exI [of _ unit]) (simp only: simp_thms)
qed

definition demo_config :: json where
  "demo_config = JObj [(''backups'', JObj [(''items'', JArr
     [JObj [(''id'', JStr ''home''), (''unit'', JStr ''restic-home.service'')]])])]"

theorem action_commands_witness:
  "action_args demo_config demo_retry_row ''retry'' = Inr [''systemctl'', ''--user'', ''restart'', ''--'', ''restic-home.service'']
   \<and> list_all unit_char ''restic-home.service''"
proof -
  have a: "action_args demo_config demo_retry_row ''retry''
      = Inr [''systemctl'', ''--user'', ''restart'', ''--'', ''restic-home.service'']"
    by code_simp
  from action_commands [OF a] a show ?thesis by auto
qed

text \<open>An analysis is shown only if it has exactly the four agreed fields, a cause of at most
  1500 characters, at most eight entries per list of at most 500 characters, and proposes
  nothing but actions of the row.\<close>

theorem analysis_accepted:
  "validate_analysis v allowed \<Longrightarrow>
     (\<exists>m. v = JObj m \<and> length m = 4 \<and> set (map fst m) \<subseteq> {''cause'', ''evidence'', ''nextSteps'', ''actions''})
     \<and> (\<exists>c. json_index v ''cause'' = JStr c \<and> char_count c \<le> 1500)
     \<and> (\<exists>xs. json_index v ''actions'' = JArr xs \<and> length xs \<le> 8 \<and> (\<forall>x \<in> set xs. \<exists>a \<in> set allowed. x = JStr a))
     \<and> (\<forall>key \<in> {''evidence'', ''nextSteps''}. \<exists>xs. json_index v key = JArr xs \<and> length xs \<le> 8
          \<and> (\<forall>x \<in> set xs. \<exists>s. x = JStr s \<and> char_count s \<le> 500))"
  by (auto simp: validate_analysis_def analysis_texts_def analysis_keys_def list_all_iff split: option.splits if_splits)

theorem analysis_accepted_witness:
  "validate_analysis (JObj [(''cause'', JStr ''c''), (''evidence'', JArr [JStr ''e'']), (''nextSteps'', JArr []),
     (''actions'', JArr [JStr ''retry''])]) [''retry''] \<and>
   (\<exists>xs. xs = [JStr ''retry''] \<and> (\<forall>x \<in> set xs. \<exists>a \<in> set [''retry'']. x = JStr a))"
proof -
  let ?v = "JObj [(''cause'', JStr ''c''), (''evidence'', JArr [JStr ''e'']), (''nextSteps'', JArr []),
     (''actions'', JArr [JStr ''retry''])]"
  have "validate_analysis ?v [''retry'']" by code_simp
  from analysis_accepted [OF this] this show ?thesis by (simp add: json_index_def)
qed

end
