(* ===== verification/Qml_Value.thy ===== *)
theory Qml_Value
  imports Json Complex_Main "HOL-Library.Word"
begin

text \<open>
  \<open>qml-core/src/value.rs\<close>: the coercions of ECMAScript at the boundary to QML (\<open>number\<close>,
  \<open>truthy\<close>, \<open>string\<close>, \<open>text\<close>, \<open>array\<close>, \<open>finite\<close>, \<open>utf16_len\<close>, \<open>number_text\<close>) and the
  exact \<open>toFixed\<close>.

  An \<open>f64\<close> is a rational or one of the three special values. Arithmetic is exact with
  overflow to the infinities; the rounding of a finite result and the sign of zero are
  abstracted. Printing a fractional or very large number is the standard library's shortest
  representation, a parameter (\<open>host\<close>), as are the lower-case mapping of non-ASCII
  characters and serde\_json's printing of floats.
\<close>

unbundle bit_operations_syntax

named_theorems f64_defs \<open>operations on floats\<close>

section \<open>Floats\<close>

datatype f64 = Fin rat | PosInf | NegInf | NaN

text \<open>Values from half an ulp above the largest finite float on round to infinity.\<close>

definition f64_overflow :: rat where
  "f64_overflow = 2 ^ 1024 - 2 ^ 970"

text \<open>The literal, for evaluation.\<close>

lemma f64_overflow_code [code]: "f64_overflow = of_int 0xFFFFFFFFFFFFFC00000000000000000000000000000000000000000000000000000000000000000000000000000000000000000000000000000000000000000000000000000000000000000000000000000000000000000000000000000000000000000000000000000000000000000000000000000000000000000000000000"
  by (simp add: f64_overflow_def)

definition f64_of_rat :: "rat \<Rightarrow> f64" where
  "f64_of_rat x = (if f64_overflow \<le> x then PosInf else if x \<le> - f64_overflow then NegInf else Fin x)"

fun f_finite :: "f64 \<Rightarrow> bool" where
  "f_finite (Fin x) = True"
| "f_finite _ = False"

fun f_less :: "f64 \<Rightarrow> f64 \<Rightarrow> bool" where
  "f_less (Fin x) (Fin y) = (x < y)"
| "f_less NaN _ = False"
| "f_less _ NaN = False"
| "f_less NegInf y = (y \<noteq> NegInf)"
| "f_less x PosInf = (x \<noteq> PosInf)"
| "f_less _ _ = False"

definition f_le :: "f64 \<Rightarrow> f64 \<Rightarrow> bool" where
  "f_le x y \<longleftrightarrow> f_less x y \<or> x = y \<and> x \<noteq> NaN"

definition f_eq :: "f64 \<Rightarrow> f64 \<Rightarrow> bool" where
  "f_eq x y \<longleftrightarrow> x = y \<and> x \<noteq> NaN"

fun f_neg :: "f64 \<Rightarrow> f64" where
  "f_neg (Fin x) = Fin (- x)"
| "f_neg PosInf = NegInf"
| "f_neg NegInf = PosInf"
| "f_neg NaN = NaN"

fun f_add :: "f64 \<Rightarrow> f64 \<Rightarrow> f64" where
  "f_add (Fin x) (Fin y) = f64_of_rat (x + y)"
| "f_add NaN _ = NaN"
| "f_add _ NaN = NaN"
| "f_add PosInf y = (if y = NegInf then NaN else PosInf)"
| "f_add NegInf y = (if y = PosInf then NaN else NegInf)"
| "f_add _ y = y"

definition f_sub :: "f64 \<Rightarrow> f64 \<Rightarrow> f64" where
  "f_sub x y = f_add x (f_neg y)"

text \<open>Multiplication by and division by a positive finite constant.\<close>

fun f_scale :: "rat \<Rightarrow> f64 \<Rightarrow> f64" where
  "f_scale k (Fin x) = f64_of_rat (k * x)"
| "f_scale k v = v"

text \<open>\<open>f64::max\<close> and \<open>f64::min\<close> return the operand that is a number.\<close>

definition f_max :: "f64 \<Rightarrow> f64 \<Rightarrow> f64" where
  "f_max x y = (if x = NaN then y else if y = NaN then x else if f_less x y then y else x)"

fun f_abs :: "f64 \<Rightarrow> f64" where
  "f_abs (Fin x) = Fin \<bar>x\<bar>"
| "f_abs NaN = NaN"
| "f_abs _ = PosInf"

fun f_ceil :: "f64 \<Rightarrow> f64" where
  "f_ceil (Fin x) = Fin (of_int \<lceil>x\<rceil>)"
| "f_ceil v = v"

text \<open>\<open>f64::clamp\<close>, which keeps NaN.\<close>

definition f_clamp :: "f64 \<Rightarrow> f64 \<Rightarrow> f64 \<Rightarrow> f64" where
  "f_clamp lo hi v = (if f_less v lo then lo else if f_less hi v then hi else v)"

text \<open>The saturating cast \<open>v as u64\<close>.\<close>

fun f_to_u64 :: "f64 \<Rightarrow> nat" where
  "f_to_u64 (Fin x) = min (nat \<lfloor>x\<rfloor>) u64_max"
| "f_to_u64 PosInf = u64_max"
| "f_to_u64 _ = 0"

lemmas [f64_defs] = f_le_def f_eq_def f_sub_def f_max_def f_clamp_def

lemma f_less_Fin_NaN [simp]: "\<not> f_less v NaN"
  by (cases v) auto

lemma f_le_Fin [simp]: "f_le (Fin x) (Fin y) \<longleftrightarrow> x \<le> y"
  by (auto simp: f_le_def)

lemma f_less_not_le: "f_less x y \<Longrightarrow> \<not> f_le y x"
  by (cases x; cases y) (auto simp: f_le_def)

lemma f_finite_iff: "f_finite v \<longleftrightarrow> (\<exists>x. v = Fin x)"
  by (cases v) auto

section \<open>The host\<close>

record host =
  lower_char :: "nat \<Rightarrow> nat list"   \<comment> \<open>Unicode lower case of a non-ASCII character\<close>
  show_plain :: "rat \<Rightarrow> string"     \<comment> \<open>\<open>{}\<close> of a float that is no integer\<close>
  show_exp :: "rat \<Rightarrow> string"       \<comment> \<open>\<open>{:e}\<close> of a float\<close>
  json_num :: "rat \<Rightarrow> string"       \<comment> \<open>serde\_json's text of a float\<close>

definition ascii_lower_char :: "nat \<Rightarrow> nat" where
  "ascii_lower_char c = (if 65 \<le> c \<and> c \<le> 90 then c + 32 else c)"

text \<open>\<open>str::to_lowercase\<close>.\<close>

definition to_lowercase :: "host \<Rightarrow> string \<Rightarrow> string" where
  "to_lowercase h s =
     of_chars (concat (map (\<lambda>c. if c < 128 then [ascii_lower_char c] else lower_char h c) (chars s)))"

definition json_of_f64 :: "host \<Rightarrow> f64 \<Rightarrow> json" where
  "json_of_f64 h v = (case v of Fin x \<Rightarrow> JNum (json_num h x) | _ \<Rightarrow> JNull)"

section \<open>Numbers from text\<close>

definition is_space :: "nat \<Rightarrow> bool" where
  "is_space c \<longleftrightarrow> c = 9 \<or> c = 10 \<or> c = 11 \<or> c = 12 \<or> c = 13 \<or> c = 32 \<or> c = 0xA0 \<or> c = 0x1680
     \<or> (0x2000 \<le> c \<and> c \<le> 0x200A) \<or> c = 0x2028 \<or> c = 0x2029 \<or> c = 0x202F \<or> c = 0x205F
     \<or> c = 0x3000 \<or> c = 0xFEFF"

definition js_trim :: "string \<Rightarrow> string" where
  "js_trim s = of_chars (trim_chars is_space (chars s))"

text \<open>The sign of a decimal literal and what follows it.\<close>

definition split_sign :: "string \<Rightarrow> bool \<times> string" where
  "split_sign s = (case s of
       c # r \<Rightarrow> if c = CHR ''-'' then (True, r) else if c = CHR ''+'' then (False, r) else (False, s)
     | [] \<Rightarrow> (False, s))"

definition exponent_value :: "string \<Rightarrow> int option" where
  "exponent_value s = (case s of
       [] \<Rightarrow> Some 0
     | c # r \<Rightarrow>
         (case split_sign r of (neg, d) \<Rightarrow>
            if (c = CHR ''e'' \<or> c = CHR ''E'') \<and> d \<noteq> [] \<and> list_all is_ascii_digit d
            then Some ((if neg then -1 else 1) * int (digits_value d)) else None))"

definition pow10 :: "int \<Rightarrow> rat" where
  "pow10 e = (if 0 \<le> e then 10 ^ nat e else 1 / 10 ^ nat (- e))"

text \<open>
  The regular expression \<open>DECIMAL\<close> of \<open>number\<close> and the value the standard library parses
  from a match.
\<close>

definition parse_decimal :: "string \<Rightarrow> f64 option" where
  "parse_decimal s =
     (case split_sign s of (neg, r) \<Rightarrow>
        if r = ''Infinity'' then Some (if neg then NegInf else PosInf)
        else
          (let ip = takeWhile is_ascii_digit r;
               r1 = dropWhile is_ascii_digit r;
               dot = (r1 \<noteq> [] \<and> hd r1 = CHR ''.'');
               fp = (if dot then takeWhile is_ascii_digit (tl r1) else []);
               r2 = (if dot then dropWhile is_ascii_digit (tl r1) else r1)
           in if ip = [] \<and> fp = [] then None
              else map_option (\<lambda>e. f64_of_rat ((if neg then -1 else 1)
                       * of_nat (digits_value (ip @ fp)) * pow10 (e - int (length fp))))
                     (exponent_value r2)))"

text \<open>\<open>Value::as_f64\<close>: the literal's value if it is finite.\<close>

fun as_f64 :: "json \<Rightarrow> f64 option" where
  "as_f64 (JNum t) = (case parse_decimal t of Some (Fin x) \<Rightarrow> Some (Fin x) | _ \<Rightarrow> None)"
| "as_f64 _ = None"

definition to_digit :: "nat \<Rightarrow> nat \<Rightarrow> nat option" where
  "to_digit radix c =
     (let d = (if 48 \<le> c \<and> c \<le> 57 then Some (c - 48)
               else if 97 \<le> c \<and> c \<le> 122 then Some (c - 87)
               else if 65 \<le> c \<and> c \<le> 90 then Some (c - 55) else None)
      in case d of Some n \<Rightarrow> if n < radix then Some n else None | None \<Rightarrow> None)"

fun radix_fold :: "nat \<Rightarrow> f64 \<Rightarrow> nat list \<Rightarrow> f64 option" where
  "radix_fold radix acc [] = Some acc"
| "radix_fold radix acc (c # cs) =
     (case to_digit radix c of
        Some d \<Rightarrow> radix_fold radix (f_add (f_scale (of_nat radix) acc) (Fin (of_nat d))) cs
      | None \<Rightarrow> None)"

definition radices :: "(string \<times> nat) list" where
  "radices = [(''0x'', 16), (''0X'', 16), (''0o'', 8), (''0O'', 8), (''0b'', 2), (''0B'', 2)]"

fun radix_number :: "(string \<times> nat) list \<Rightarrow> string \<Rightarrow> f64 option" where
  "radix_number [] v = None"
| "radix_number ((p, radix) # ps) v =
     (case strip_pre p v of
        Some digits \<Rightarrow>
          Some (if digits = [] then NaN
                else case radix_fold radix (Fin 0) (chars digits) of Some x \<Rightarrow> x | None \<Rightarrow> NaN)
      | None \<Rightarrow> radix_number ps v)"

definition number_of_string :: "string \<Rightarrow> f64" where
  "number_of_string s =
     (let v = js_trim s
      in if v = [] then Fin 0
         else case radix_number radices v of
                Some x \<Rightarrow> x
              | None \<Rightarrow> (case parse_decimal v of Some x \<Rightarrow> x | None \<Rightarrow> NaN))"

section \<open>Coercions\<close>

definition is_truthy :: "json \<Rightarrow> bool" where
  "is_truthy v = (case v of
       JNull \<Rightarrow> False
     | JBool b \<Rightarrow> b
     | JStr s \<Rightarrow> s \<noteq> []
     | JNum t \<Rightarrow> (case as_f64 v of Some x \<Rightarrow> \<not> f_eq x (Fin 0) \<and> x \<noteq> NaN | None \<Rightarrow> False)
     | _ \<Rightarrow> True)"

definition truthy :: "json option \<Rightarrow> bool" where
  "truthy v = (case v of None \<Rightarrow> False | Some x \<Rightarrow> is_truthy x)"

definition show_int :: "int \<Rightarrow> string" where
  "show_int i = (if i < 0 then CHR ''-'' # nat_digits (nat (- i)) else nat_digits (nat i))"

text \<open>\<open>f64::to_string\<close>: an integer prints its digits.\<close>

definition show_f64 :: "host \<Rightarrow> rat \<Rightarrow> string" where
  "show_f64 h x = (if of_int \<lfloor>x\<rfloor> = x then show_int \<lfloor>x\<rfloor> else show_plain h x)"

definition show_scientific :: "host \<Rightarrow> rat \<Rightarrow> string" where
  "show_scientific h x = (case split_once (CHR ''e'') (show_exp h x) of
       Some (mantissa, exponent) \<Rightarrow>
         mantissa @ ''e'' @ (if starts_with ''-'' exponent then [] else ''+'') @ exponent
     | None \<Rightarrow> [])"

fun number_text :: "host \<Rightarrow> f64 \<Rightarrow> string" where
  "number_text h NaN = ''NaN''"
| "number_text h NegInf = ''-Infinity''"
| "number_text h PosInf = ''Infinity''"
| "number_text h (Fin x) =
     (if x = 0 then ''0''
      else if 10 ^ 21 \<le> \<bar>x\<bar> \<or> \<bar>x\<bar> < 1 / 10 ^ 6 then show_scientific h x
      else show_f64 h x)"

fun join_with :: "string \<Rightarrow> string list \<Rightarrow> string" where
  "join_with sep [] = []"
| "join_with sep [x] = x"
| "join_with sep (x # y # ys) = x @ sep @ join_with sep (y # ys)"

fun js_str :: "host \<Rightarrow> json \<Rightarrow> string" where
  "js_str h JNull = ''null''"
| "js_str h (JStr s) = s"
| "js_str h (JArr xs) = join_with '','' (map (\<lambda>x. if x = JNull then [] else js_str h x) xs)"
| "js_str h (JObj m) = ''[object Object]''"
| "js_str h (JNum t) = number_text h (case as_f64 (JNum t) of Some x \<Rightarrow> x | None \<Rightarrow> NaN)"
| "js_str h (JBool b) = (if b then ''true'' else ''false'')"

definition js_string :: "host \<Rightarrow> json option \<Rightarrow> string" where
  "js_string h v = (case v of None \<Rightarrow> ''undefined'' | Some x \<Rightarrow> js_str h x)"

definition js_text :: "host \<Rightarrow> json option \<Rightarrow> string" where
  "js_text h v = (if truthy v then js_string h v else [])"

definition number :: "host \<Rightarrow> json option \<Rightarrow> f64" where
  "number h v = (case v of
       None \<Rightarrow> NaN
     | Some JNull \<Rightarrow> Fin 0
     | Some (JBool b) \<Rightarrow> Fin (if b then 1 else 0)
     | Some (JNum t) \<Rightarrow> (case as_f64 (JNum t) of Some x \<Rightarrow> x | None \<Rightarrow> NaN)
     | Some (JStr s) \<Rightarrow> number_of_string s
     | Some (JArr xs) \<Rightarrow>
         (case xs of
            [] \<Rightarrow> Fin 0
          | [x] \<Rightarrow> number_of_string (if x = JNull then [] else js_str h x)
          | _ \<Rightarrow> NaN)
     | Some (JObj m) \<Rightarrow> NaN)"

definition js_array :: "json option \<Rightarrow> json list" where
  "js_array v = (case v of Some (JArr xs) \<Rightarrow> xs | _ \<Rightarrow> [])"

definition finite_or :: "host \<Rightarrow> json option \<Rightarrow> f64 \<Rightarrow> f64" where
  "finite_or h v fallback = (let x = number h v in if f_finite x then x else fallback)"

text \<open>A character outside the basic plane takes two UTF-16 units.\<close>

definition utf16_len :: "string \<Rightarrow> nat" where
  "utf16_len s = sum_list (map (\<lambda>c. if c < 0x10000 then 1 else 2) (chars s))"

section \<open>Exact decimal rounding\<close>

definition bits_exponent :: "64 word \<Rightarrow> nat" where
  "bits_exponent w = unat (drop_bit 52 (w AND mask 63) AND 0x7FF)"

definition bits_mantissa :: "64 word \<Rightarrow> nat" where
  "bits_mantissa w = unat ((w AND mask 63) AND mask 52) + (if bits_exponent w = 0 then 0 else 2 ^ 52)"

text \<open>The value of a bit pattern.\<close>

definition f64_of_bits :: "64 word \<Rightarrow> f64" where
  "f64_of_bits w =
     (if bits_exponent w = 0x7FF then
        (if w AND mask 52 \<noteq> 0 then NaN else if bit w 63 then NegInf else PosInf)
      else
        (let mag = (if bits_exponent w = 0 then of_nat (bits_mantissa w) / 2 ^ 1074
                    else if 1075 \<le> bits_exponent w
                    then of_nat (bits_mantissa w) * 2 ^ (bits_exponent w - 1075)
                    else of_nat (bits_mantissa w) / 2 ^ (1075 - bits_exponent w))
         in Fin (if bit w 63 then - mag else mag)))"

definition u128_mod :: nat where
  "u128_mod = 2 ^ 128"

text \<open>The 128-bit arithmetic of \<open>fixed\<close>, with the wrap-around of each operation.\<close>

definition fixed_rounded :: "64 word \<Rightarrow> nat \<Rightarrow> nat" where
  "fixed_rounded w digits =
     (let scale = 10 ^ digits mod u128_mod;
          exponent = bits_exponent w;
          binary_shift = (if exponent = 0 then - 1074 else int exponent - 1023 - 52);
          numerator = bits_mantissa w * scale mod u128_mod
      in if 0 \<le> binary_shift then numerator * 2 ^ nat binary_shift mod u128_mod
         else if binary_shift \<le> -128 then 0
         else let shift = nat (- binary_shift)
              in (numerator + 2 ^ (shift - 1) mod u128_mod) mod u128_mod div 2 ^ shift)"

definition pad_zeros :: "nat \<Rightarrow> string \<Rightarrow> string" where
  "pad_zeros n s = replicate (n - length s) (CHR ''0'') @ s"

text \<open>\<open>None\<close> is the failed assertion on the precision.\<close>

definition fixed :: "host \<Rightarrow> 64 word \<Rightarrow> nat \<Rightarrow> string option" where
  "fixed h w digits =
     (let v = f64_of_bits w
      in if 6 < digits then None
         else if \<not> f_finite v \<or> f_le (Fin (10 ^ 21)) (f_abs v) then Some (number_text h v)
         else let rounded = fixed_rounded w digits;
                  scale = 10 ^ digits;
                  sign = (if f_less v (Fin 0) then ''-'' else [])
              in Some (if digits = 0 then sign @ nat_digits rounded
                          else sign @ nat_digits (rounded div scale) @ ''.''
                                 @ pad_zeros digits (nat_digits (rounded mod scale))))"

text \<open>A host for the examples of the development.\<close>

definition demo_host :: host where
  "demo_host = \<lparr>lower_char = (\<lambda>c. [c]), show_plain = (\<lambda>x. []), show_exp = (\<lambda>x. []),
     json_num = (\<lambda>x. show_int \<lfloor>x\<rfloor>)\<rparr>"

end
