(* ===== verification/Qml_Value_Theorems.thy ===== *)
theory Qml_Value_Theorems
  imports Qml_Value
begin

text \<open>
  What the coercions promise: \<open>fixed\<close> rounds the exact value of the float half up and its
  128-bit arithmetic never wraps, and the text of an integer converts back to it.
\<close>

section \<open>Exact rounding\<close>

lemma word_and_mask_less: "unat ((w :: 64 word) AND mask n) < 2 ^ n"
proof -
  have "w AND mask n = take_bit n w" by (rule take_bit_eq_mask [symmetric])
  then have "unat (w AND mask n) = take_bit n (unat w)"
    by (simp only: unsigned_take_bit_eq)
  then show ?thesis by (simp add: take_bit_eq_mod)
qed

lemma bits_mantissa_less: "bits_mantissa w < 2 ^ 53"
proof -
  have "unat ((w AND mask 63) AND mask 52) < 2 ^ 52" by (rule word_and_mask_less)
  then show ?thesis by (simp add: bits_mantissa_def)
qed

lemma bits_numerator_less:
  assumes "d \<le> 6"
  shows "bits_mantissa w * 10 ^ d < 2 ^ 73"
proof -
  have "(10::nat) ^ d \<le> 10 ^ 6"
    using assms by (intro power_increasing) auto
  then have "bits_mantissa w * 10 ^ d \<le> bits_mantissa w * 10 ^ 6"
    by (rule mult_le_mono2)
  also have "\<dots> < 2 ^ 53 * 10 ^ 6"
    using bits_mantissa_less [of w] by simp
  finally show ?thesis by simp
qed

lemma shift_round:
  assumes "0 < k"
  shows "int ((n + 2 ^ (k - 1)) div 2 ^ k) = \<lfloor>of_nat n / 2 ^ k + (1 / 2 :: rat)\<rfloor>"
proof -
  obtain j where k: "k = Suc j" using assms by (cases k) auto
  have "(of_nat n / 2 ^ k + 1 / 2 :: rat) = of_nat (n + 2 ^ j) / of_nat (2 ^ k)"
    by (simp add: k field_simps)
  then have "\<lfloor>of_nat n / 2 ^ k + (1 / 2 :: rat)\<rfloor> = int ((n + 2 ^ j) div 2 ^ k)"
    by (simp only: floor_divide_of_nat_eq)
  then show ?thesis by (simp add: k)
qed

lemma shift_round_small:
  assumes "n < 2 ^ 73" "128 \<le> k"
  shows "(n + 2 ^ (k - 1)) div 2 ^ k = (0::nat)"
proof -
  have "(2::nat) ^ 73 \<le> 2 ^ (k - 1)"
    using assms by (intro power_increasing) auto
  moreover have "(2::nat) ^ k = 2 * 2 ^ (k - 1)"
    using assms(2) by (metis power_Suc Suc_diff_1 less_le_trans zero_less_numeral)
  ultimately show ?thesis using assms(1) by simp
qed

lemma fixed_rounded_shift:
  assumes d: "d \<le> 6" and k: "0 < k" "k = (if bits_exponent w = 0 then 1074 else 1075 - bits_exponent w)"
  shows "fixed_rounded w d = (bits_mantissa w * 10 ^ d + 2 ^ (k - 1)) div 2 ^ k"
proof -
  let ?n = "bits_mantissa w * 10 ^ d"
  have n: "?n < 2 ^ 73" by (rule bits_numerator_less [OF d])
  have scale: "(10::nat) ^ d mod u128_mod = 10 ^ d"
  proof -
    have "(10::nat) ^ d \<le> 10 ^ 6" using d by (intro power_increasing) auto
    then show ?thesis by (simp add: u128_mod_def)
  qed
  have num: "?n mod u128_mod = ?n" using n by (simp add: u128_mod_def)
  have shift: "(if bits_exponent w = 0 then - 1074 else int (bits_exponent w) - 1023 - 52) = - int k"
    using k by (auto split: if_splits)
  show ?thesis
  proof (cases "128 \<le> k")
    case True
    then show ?thesis
      using shift_round_small [OF n True] by (simp add: fixed_rounded_def shift scale num)
  next
    case False
    then have "(2::nat) ^ (k - 1) \<le> 2 ^ 127" by (intro power_increasing) auto
    then have "((?n + 2 ^ (k - 1) mod u128_mod) mod u128_mod) = ?n + 2 ^ (k - 1)"
      using n by (simp add: u128_mod_def)
    with False k(1) show ?thesis by (simp add: fixed_rounded_def shift scale num Let_def)
  qed
qed

lemma fixed_rounded_integer:
  assumes d: "d \<le> 6" and e: "1075 \<le> bits_exponent w"
    and bound: "bits_mantissa w * 2 ^ (bits_exponent w - 1075) < 10 ^ 21"
  shows "fixed_rounded w d = bits_mantissa w * 2 ^ (bits_exponent w - 1075) * 10 ^ d"
proof -
  let ?n = "bits_mantissa w * 10 ^ d" and ?s = "bits_exponent w - 1075"
  have ten: "(10::nat) ^ d \<le> 10 ^ 6" using d by (intro power_increasing) auto
  then have scale: "(10::nat) ^ d mod u128_mod = 10 ^ d" by (simp add: u128_mod_def)
  have num: "?n mod u128_mod = ?n"
    using bits_numerator_less [OF d, of w] by (simp add: u128_mod_def)
  have "bits_mantissa w * 2 ^ ?s * 10 ^ d \<le> 10 ^ 21 * 10 ^ 6"
    using bound ten by (intro mult_le_mono) auto
  then have "?n * 2 ^ ?s < u128_mod"
    by (simp add: u128_mod_def mult_ac)
  then have whole: "?n * 2 ^ ?s mod u128_mod = ?n * 2 ^ ?s" by simp
  have shift: "(if bits_exponent w = 0 then - 1074 else int (bits_exponent w) - 1023 - 52) = int ?s"
    using e by simp
  have "fixed_rounded w d = ?n * 2 ^ ?s mod u128_mod"
    by (simp only: fixed_rounded_def Let_def shift scale num) simp
  with whole show ?thesis by (simp add: mult_ac)
qed

lemma f64_of_bits_abs:
  assumes "f64_of_bits w = Fin v"
  shows "\<bar>v\<bar> = (if 1075 \<le> bits_exponent w
               then of_nat (bits_mantissa w * 2 ^ (bits_exponent w - 1075))
               else of_nat (bits_mantissa w)
                      / 2 ^ (if bits_exponent w = 0 then 1074 else 1075 - bits_exponent w))"
  using assms by (auto simp: f64_of_bits_def Let_def split: if_splits)

text \<open>Decimal rounding is exact. For every finite float below 1e21 in magnitude and
  every precision up to six digits, the integer that \<open>fixed\<close> prints is the exact value
  scaled by the power of ten, rounded half up - so no intermediate 128-bit operation
  wraps, and no binary rounding error of the scaling shows.\<close>

theorem fixed_exact:
  assumes "f64_of_bits w = Fin v" "\<bar>v\<bar> < 10 ^ 21" "d \<le> 6"
  shows "int (fixed_rounded w d) = \<lfloor>\<bar>v\<bar> * 10 ^ d + 1 / 2\<rfloor>"
proof (cases "1075 \<le> bits_exponent w")
  case True
  let ?m = "bits_mantissa w * 2 ^ (bits_exponent w - 1075)"
  have v: "\<bar>v\<bar> = of_nat ?m" using f64_of_bits_abs [OF assms(1)] True by simp
  then have "(of_nat ?m :: rat) < of_nat (10 ^ 21)" using assms(2) by simp
  then have "?m < 10 ^ 21" by (simp only: of_nat_less_iff)
  from fixed_rounded_integer [OF assms(3) True this]
  have "fixed_rounded w d = ?m * 10 ^ d" .
  moreover have "\<bar>v\<bar> * 10 ^ d = of_int (int (?m * 10 ^ d))" by (simp add: v)
  then have "\<lfloor>\<bar>v\<bar> * 10 ^ d + 1 / 2\<rfloor> = int (?m * 10 ^ d)"
    by (intro floor_unique) simp_all
  ultimately show ?thesis by simp
next
  case False
  let ?k = "if bits_exponent w = 0 then 1074 else 1075 - bits_exponent w"
  have k: "0 < ?k" using False by simp
  have "\<bar>v\<bar> * 10 ^ d = of_nat (bits_mantissa w * 10 ^ d) / 2 ^ ?k"
    using f64_of_bits_abs [OF assms(1)] False by simp
  with fixed_rounded_shift [OF assms(3) k refl] shift_round [OF k, of "bits_mantissa w * 10 ^ d"]
  show ?thesis by (simp only:)
qed

lemma bits_demo: "f64_of_bits 0x4002000000000000 = Fin (9 / 4)"
  by code_simp

lemma fixed_demo: "fixed_rounded 0x4002000000000000 1 = 23"
  by code_simp

theorem fixed_exact_witness:
  "int (fixed_rounded 0x4002000000000000 1) = \<lfloor>\<bar>9 / 4 :: rat\<bar> * 10 ^ 1 + 1 / 2\<rfloor>
    \<and> fixed_rounded 0x4002000000000000 1 = 23"
  using fixed_exact [OF bits_demo, of 1] fixed_demo by simp

section \<open>Integers\<close>

lemma takeWhile_digits [simp]: "list_all P s \<Longrightarrow> takeWhile P s = s"
  "list_all P s \<Longrightarrow> dropWhile P s = []"
  by (simp_all add: list_all_iff)

lemma nat_digits_head: "\<exists>c r. nat_digits n = c # r \<and> is_ascii_digit c"
  using nat_digits_digit [of n] nat_digits_nonempty [of n] by (cases "nat_digits n") auto

lemma parse_decimal_digits:
  assumes "of_nat n < f64_overflow"
  shows "parse_decimal (nat_digits n) = Some (Fin (of_nat n))"
    "parse_decimal (CHR ''-'' # nat_digits n) = Some (Fin (- of_nat n))"
proof -
  obtain c r where cr: "nat_digits n = c # r" "is_ascii_digit c" using nat_digits_head by blast
  have plain: "split_sign (nat_digits n) = (False, nat_digits n)"
    using cr by (auto simp: split_sign_def is_ascii_digit_def)
  have inf: "nat_digits n \<noteq> ''Infinity''" using cr by (auto simp: is_ascii_digit_def)
  have small: "of_nat n < f64_overflow" "- of_nat n > - f64_overflow" "\<not> of_nat n \<le> - f64_overflow"
    "\<not> f64_overflow \<le> - of_nat n"
    using assms by (auto simp: f64_overflow_def)
  show "parse_decimal (nat_digits n) = Some (Fin (of_nat n))"
    using inf small
    by (simp add: parse_decimal_def plain nat_digits_digit exponent_value_def pow10_def f64_of_rat_def
        not_le)
  show "parse_decimal (CHR ''-'' # nat_digits n) = Some (Fin (- of_nat n))"
    using inf small
    by (simp add: parse_decimal_def split_sign_def nat_digits_digit exponent_value_def pow10_def
        f64_of_rat_def not_le)
qed

text \<open>Text without white space outside ASCII is its own trim.\<close>

lemma of_chars_ascii: "ascii s \<Longrightarrow> of_chars (map of_char s) = s"
  by (induction s) (auto simp: of_chars_def utf8_encode_def utf8_char_def)

lemma js_trim_id: "ascii s \<Longrightarrow> list_all (\<lambda>c. \<not> is_space (of_char c)) s \<Longrightarrow> js_trim s = s"
proof -
  assume a: "ascii s" and n: "list_all (\<lambda>c. \<not> is_space (of_char c)) s"
  have keep: "trim_chars P cs = cs" if "list_all (\<lambda>c. \<not> P c) cs" for P and cs :: "nat list"
  proof -
    have "list_all (\<lambda>c. \<not> P c) (rev cs)" using that by (simp add: list_all_iff)
    moreover have "dropWhile P ds = ds" if "list_all (\<lambda>c. \<not> P c) ds" for ds
      using that by (cases ds) auto
    ultimately show ?thesis using that by (simp add: trim_chars_def)
  qed
  from n have "list_all (\<lambda>c. \<not> is_space c) (map of_char s)" by (simp add: list_all_iff)
  from keep [OF this] a show ?thesis by (simp add: js_trim_def chars_ascii of_chars_ascii)
qed

definition numeric_char :: "char \<Rightarrow> bool" where
  "numeric_char c \<longleftrightarrow> is_ascii_digit c \<or> c = CHR ''-''"

lemma show_int_chars: "list_all numeric_char (show_int i)"
  using nat_digits_digit by (auto simp: show_int_def numeric_char_def list_all_iff)

lemma show_int_nonempty: "show_int i \<noteq> []"
  by (simp add: show_int_def)

lemma js_trim_show_int: "js_trim (show_int i) = show_int i"
  using show_int_chars [of i]
  by (intro js_trim_id) (auto simp: list_all_iff numeric_char_def is_ascii_digit_def is_space_def)

lemma radix_number_numeric: "list_all numeric_char v \<Longrightarrow> radix_number radices v = None"
proof -
  assume v: "list_all numeric_char v"
  have "strip_pre [a, b] v = None" if "\<not> numeric_char b" for a b
  proof (cases "strip_pre [a, b] v")
    case (Some r)
    with v that show ?thesis by (simp add: strip_pre_Some)
  qed simp
  then show ?thesis by (simp add: radices_def numeric_char_def is_ascii_digit_def)
qed

lemma parse_show_int:
  assumes "\<bar>i\<bar> < 10 ^ 21"
  shows "parse_decimal (show_int i) = Some (Fin (of_int i))"
proof -
  have "(of_nat (nat \<bar>i\<bar>) :: rat) < 10 ^ 21"
    using assms by (simp add: of_nat_nat)
  also have "(10 :: rat) ^ 21 < f64_overflow" by (simp add: f64_overflow_def)
  finally have "of_nat (nat \<bar>i\<bar>) < f64_overflow" .
  from parse_decimal_digits [OF this] show ?thesis
    by (auto simp: show_int_def of_nat_nat)
qed

text \<open>Identifiers survive the boundary. An integer below 1e21 in magnitude - every
  notification identity and timestamp in whole seconds - printed as ECMAScript prints
  numbers and coerced back to a number is the same number.\<close>

theorem integer_text_roundtrip:
  assumes "\<bar>i\<bar> < 10 ^ 21"
  shows "number h (Some (JStr (number_text h (Fin (of_int i))))) = Fin (of_int i)"
proof -
  have small: "\<not> (10 ^ 21 \<le> \<bar>of_int i :: rat\<bar>)"
    using assms by (simp add: not_le)
  have printed: "number_text h (Fin (of_int i)) = show_int i"
  proof (cases "i = 0")
    case True
    moreover have "nat_digits 0 = ''0''" by code_simp
    ultimately show ?thesis by (simp add: show_int_def)
  next
    case False
    then have "1 \<le> \<bar>of_int i :: rat\<bar>" by simp
    then have "\<not> \<bar>of_int i :: rat\<bar> < 1 / 10 ^ 6" by simp
    with False small show ?thesis by (simp add: show_f64_def)
  qed
  show ?thesis
    using show_int_nonempty [of i]
    by (simp del: number_text.simps add: number_def printed number_of_string_def js_trim_show_int
        radix_number_numeric [OF show_int_chars] parse_show_int [OF assms])
qed

theorem integer_text_roundtrip_witness:
  "number demo_host (Some (JStr (number_text demo_host (Fin (of_int (- 42)))))) = Fin (of_int (- 42))"
  using integer_text_roundtrip [of "- 42" demo_host] by simp

end
