(* ===== verification/Notifications.thy ===== *)
theory Notifications
  imports Qml_Value
begin

text \<open>
  \<open>qml-core/src/notifications.rs\<close>: the presentation policy of notifications. Entries are JSON
  objects; \<open>nrec\<close> is a retained notification (\<open>Record\<close>) and \<open>nstate\<close> the policy's state
  (\<open>State\<close>). Each event of \<open>transition\<close> is a definition of its own; an effect for the Qt host is
  a value of \<open>effect\<close>. The regular expressions of \<open>verification_code\<close> and \<open>body_markup\<close> are not
  modelled.
\<close>

named_theorems notification_defs \<open>definitions of the notification policy\<close>

section \<open>JSON updates\<close>

text \<open>\<open>entry.as_object_mut()\<close> and \<open>remove(key)\<close>.\<close>

fun json_remove :: "string \<Rightarrow> json \<Rightarrow> json" where
  "json_remove k (JObj m) = JObj (AList.delete k m)"
| "json_remove k j = j"

section \<open>Groups and stable application keys\<close>

definition strip_suf :: "string \<Rightarrow> string \<Rightarrow> string option" where
  "strip_suf p s = map_option rev (strip_pre (rev p) (rev s))"

definition group_key :: "host \<Rightarrow> json \<Rightarrow> string" where
  "group_key h entry =
     (let desktop = trim (js_text h (json_get entry ''desktop_entry''));
          desktop = to_lowercase h
            (case strip_suf ''.desktop'' desktop of Some d \<Rightarrow> d | None \<Rightarrow> desktop)
      in if desktop \<noteq> [] then ''desktop:'' @ desktop
         else
           (let app = to_lowercase h (trim (js_text h (json_get entry ''app_name'')))
            in if app \<noteq> [] then ''app:'' @ app
               else ''id:'' @ js_string h (json_get entry ''id'')))"

definition max_quiet_apps :: nat where "max_quiet_apps = 256"
definition max_app_key_bytes :: nat where "max_app_key_bytes = 512"

definition valid_app_key :: "string \<Rightarrow> bool" where
  "valid_app_key key \<longleftrightarrow>
     length key \<le> max_app_key_bytes
     \<and> list_ex (\<lambda>p. case strip_pre p key of Some name \<Rightarrow> \<not> trim_is_empty name | None \<Rightarrow> False)
         [''desktop:'', ''app:'']
     \<and> \<not> list_ex is_control (chars key)"

definition app_key :: "host \<Rightarrow> json \<Rightarrow> string" where
  "app_key h entry = (let key = group_key h entry in if valid_app_key key then key else [])"

text \<open>\<open>stacked_rows\<close>: the groups in the order of their first entry, each with its entries in
  order.\<close>

record stack =
  s_key :: string
  s_items :: "json list"
  s_expanded :: bool
  s_depth :: nat

fun add_to_group :: "string \<Rightarrow> 'a \<Rightarrow> (string \<times> 'a list) list \<Rightarrow> (string \<times> 'a list) list" where
  "add_to_group key x [] = [(key, [x])]"
| "add_to_group key x ((k, xs) # gs) =
     (if k = key then (k, xs @ [x]) # gs else (k, xs) # add_to_group key x gs)"

definition stack_groups :: "host \<Rightarrow> json list \<Rightarrow> (string \<times> json list) list" where
  "stack_groups h entries = foldl (\<lambda>gs e. add_to_group (group_key h e) e gs) [] entries"

definition stack_row :: "json \<Rightarrow> string \<times> json list \<Rightarrow> stack" where
  "stack_row expanded g = (case g of (key, items) \<Rightarrow>
     (let n = length items;
          open_group = (1 < n \<and> truthy (json_get expanded key))
      in \<lparr>s_key = key, s_items = items, s_expanded = open_group,
          s_depth = (if open_group then 0 else min (n - 1) 2)\<rparr>))"

definition stacked_rows :: "host \<Rightarrow> json list \<Rightarrow> json \<Rightarrow> stack list" where
  "stacked_rows h entries expanded = map (stack_row expanded) (stack_groups h entries)"

section \<open>The keyboard cursor\<close>

record stop =
  c_id :: string
  c_row :: nat
  c_child :: nat
  c_group :: json
  c_stacked :: bool

text \<open>One row's stops after \<open>lead\<close> earlier ones, and the position of the wanted entry.\<close>

fun cursor_items :: "host \<Rightarrow> string \<Rightarrow> nat \<Rightarrow> nat \<Rightarrow> json \<Rightarrow> bool \<Rightarrow> nat \<Rightarrow> nat \<Rightarrow> json list
    \<Rightarrow> stop list \<times> nat option \<Rightarrow> stop list \<times> nat option" where
  "cursor_items h sought lead row grp is_open n child [] acc = acc"
| "cursor_items h sought lead row grp is_open n child (x # xs) (stops, current_stop) =
     (let item_id = js_string h (json_get x ''id'');
          current_stop = (if item_id = sought \<and> sought \<noteq> []
                     then Some (if is_open then length stops else lead) else current_stop);
          stops = (if child = 0 \<or> is_open
                   then stops @ [\<lparr>c_id = item_id, c_row = row, c_child = child, c_group = grp,
                                  c_stacked = (\<not> is_open \<and> 1 < n)\<rparr>] else stops)
      in cursor_items h sought lead row grp is_open n (Suc child) xs (stops, current_stop))"

fun cursor_rows :: "host \<Rightarrow> string \<Rightarrow> nat \<Rightarrow> json list \<Rightarrow> stop list \<times> nat option
    \<Rightarrow> stop list \<times> nat option" where
  "cursor_rows h sought row [] acc = acc"
| "cursor_rows h sought row (r # rs) acc =
     (let items = js_array (json_get r ''items'')
      in cursor_rows h sought (Suc row) rs
           (cursor_items h sought (length (fst acc)) row (json_index r ''group'')
              (truthy (json_get r ''expanded'')) (length items) 0 items acc))"

text \<open>The truncating cast of a step between -2 and 2.\<close>

definition trunc_step :: "f64 \<Rightarrow> int" where
  "trunc_step v = (case v of Fin x \<Rightarrow> (if 0 \<le> x then \<lfloor>x\<rfloor> else \<lceil>x\<rceil>) | _ \<Rightarrow> 0)"

text \<open>\<open>None\<close> is the empty cursor (\<open>position: -1\<close>).\<close>

definition cursor :: "host \<Rightarrow> json list \<Rightarrow> string \<Rightarrow> f64 \<Rightarrow> f64 \<Rightarrow> (nat \<times> stop) option" where
  "cursor h rows sought position step =
     (case cursor_rows h sought 0 rows ([], None) of (stops, current_stop) \<Rightarrow>
        if stops = [] \<or> (sought = [] \<and> f_eq step (Fin 0)) then None
        else
          (let last_stop = length stops - 1;
               old = (if f_finite position then f_to_u64 (f_max position (Fin 0)) else 0);
               start = (case current_stop of Some i \<Rightarrow> i | None \<Rightarrow> min old last_stop);
               index = (if f_le step (Fin (-2)) then 0
                        else if f_le (Fin 2) step then last_stop
                        else if sought = [] then (if f_less step (Fin 0) then last_stop else 0)
                        else nat (max 0 (min (int start + trunc_step step) (int last_stop))))
           in Some (index, stops ! index)))"

section \<open>Quiet periods\<close>

definition quiet_minutes :: "f64 \<Rightarrow> nat" where
  "quiet_minutes remaining =
     (if f_finite remaining
      then f_to_u64 (f_max (f_ceil (f_scale (1 / 60) remaining)) (Fin 0)) else 0)"

definition quiet_span :: "f64 \<Rightarrow> string" where
  "quiet_span remaining =
     (let minutes = quiet_minutes remaining
      in if minutes = 0 then []
         else if minutes \<le> 59 then nat_digits minutes @ ''m''
         else if minutes mod 60 = 0 then nat_digits (minutes div 60) @ ''h''
         else nat_digits (minutes div 60) @ ''h '' @ nat_digits (minutes mod 60) @ ''m'')"

definition quiet_label :: "f64 \<Rightarrow> string" where
  "quiet_label remaining =
     (if quiet_minutes remaining = 0 then ''Ending'' else quiet_span remaining @ '' left'')"

record period =
  p_state :: string
  p_minutes :: f64
  p_remaining :: f64
  p_label :: string
  p_compact :: string

definition quiet_period :: "bool \<Rightarrow> f64 \<Rightarrow> f64 \<Rightarrow> f64 \<Rightarrow> period" where
  "quiet_period dnd until minutes now =
     (let span = f_scale 60 minutes;
          timed = (dnd \<and> f_less (Fin 0) until \<and> f_less (Fin 0) span \<and> f_finite now)
      in if \<not> timed then
           \<lparr>p_state = (if dnd then ''held'' else ''off''), p_minutes = Fin 0, p_remaining = Fin 0,
            p_label = (if dnd then ''Until switched off'' else []), p_compact = []\<rparr>
         else
           (let remaining = f_clamp (Fin 0) span (f_sub until now)
            in \<lparr>p_state = ''timed'', p_minutes = minutes, p_remaining = remaining,
                p_label = quiet_label remaining, p_compact = quiet_span remaining\<rparr>))"

section \<open>Entries\<close>

definition permanent :: "json \<Rightarrow> bool" where
  "permanent entry \<longleftrightarrow>
     truthy (json_get entry ''pinned'')
     \<or> truthy (json_get entry ''reminder'')
     \<or> Option.bind (json_get entry ''timeout'') as_f64 = Some (Fin 0)
     \<or> Option.bind (json_get entry ''urgency'') as_f64 = Some (Fin 2)"

definition popup_duration :: "host \<Rightarrow> json \<Rightarrow> f64" where
  "popup_duration h entry =
     (if permanent entry then Fin (-1)
      else let timeout = number h (json_get entry ''timeout'')
           in if f_less (Fin 0) timeout then f_scale (1 / 1000) timeout else Fin 30)"

definition local_image :: "host \<Rightarrow> json option \<Rightarrow> string" where
  "local_image h v =
     (let source = js_text h v
      in if \<not> starts_with ''//'' source
            \<and> (starts_with ''image://'' source \<or> starts_with ''file:///'' source
               \<or> starts_with ''/'' source)
         then source else [])"

record nrec =
  entry :: json
  remaining :: f64
  clock :: f64
  popup :: bool
  deferred :: bool
  skip_history :: bool

record nstate =
  current :: "nrec list"
  history :: "json list"
  dnd :: bool
  quiet_apps :: "string list"
  dnd_until :: f64
  dnd_minutes :: f64
  pr_focus :: bool
  dnd_reason :: string
  focus_sync :: bool
  focus_hold :: bool
  focus_active :: bool
  meeting_hold :: bool
  meeting_key :: string
  meeting_end :: f64
  holding :: bool
  saved_dnd :: bool
  saved_until :: f64
  saved_minutes :: f64
  paused :: bool
  last_tick :: f64
  restored :: "(string \<times> json) list"

datatype effect =
    Dismiss json
  | Expire json
  | Arrived json bool
  | Publish

abbreviation rec_id :: "host \<Rightarrow> nrec \<Rightarrow> string" where
  "rec_id h r \<equiv> js_string h (json_get (entry r) ''id'')"

text \<open>The characters before and after an at sign that make it a mention.\<close>

definition mention_boundary :: "nat \<Rightarrow> bool" where
  "mention_boundary c \<longleftrightarrow> \<not> ((c < 128 \<and> is_ascii_alphanumeric (char_of c)) \<or> c \<in> {46, 95, 45, 43})"

fun mention_in :: "nat option \<Rightarrow> nat list \<Rightarrow> bool" where
  "mention_in prev [] = False"
| "mention_in prev (c # cs) =
     ((c = 64 \<and> (case prev of None \<Rightarrow> True | Some p \<Rightarrow> mention_boundary p)
       \<and> (case cs of n # _ \<Rightarrow> n < 128 \<and> is_ascii_alphanumeric (char_of n) | [] \<Rightarrow> False))
      \<or> mention_in (Some c) cs)"

definition mentions :: "host \<Rightarrow> json \<Rightarrow> bool" where
  "mentions h e =
     (let summary = js_text h (json_get e ''summary'');
          body = js_text h (json_get e ''body'');
          combined = summary @ [char_of (10::nat)] @ body
      in contains_str ''mentioned you'' (to_ascii_lowercase combined)
         \<or> mention_in None (chars combined))"

definition hold_for_focus :: "host \<Rightarrow> nstate \<Rightarrow> json \<Rightarrow> bool \<Rightarrow> bool" where
  "hold_for_focus h s e generation \<longleftrightarrow> pr_focus s \<and> \<not> generation \<and> \<not> mentions h e"

definition max_entries :: nat where "max_entries = 4096"
definition max_entry_bytes :: nat where "max_entry_bytes = 256 * 1024"
definition max_retained_bytes :: nat where "max_retained_bytes = 4 * 1024 * 1024"
definition max_reminder_delay :: f64 where "max_reminder_delay = Fin (7 * 86400)"

definition reminder_keys :: "string list" where
  "reminder_keys = [''remind_at'', ''reminder'']"

definition positive_time :: "f64 option \<Rightarrow> f64 option" where
  "positive_time v = (case v of
     Some x \<Rightarrow> if f_finite x \<and> f_less (Fin 0) x then Some x else None | None \<Rightarrow> None)"

definition reminder_at :: "json \<Rightarrow> f64 option" where
  "reminder_at e = positive_time (Option.bind (json_get e ''remind_at'') as_f64)"

definition forget_reminder :: "json \<Rightarrow> json" where
  "forget_reminder e = foldl (\<lambda>v k. json_remove k v) e reminder_keys"

definition sat_mul64 :: "nat \<Rightarrow> nat \<Rightarrow> nat" where
  "sat_mul64 a b = min (a * b) u64_max"

fun weight :: "json \<Rightarrow> nat" where
  "weight (JStr t) = sat_add64 32 (sat_mul64 (length t) 6)"
| "weight (JArr xs) = sat_add64 32 (foldl sat_add64 0 (map weight xs))"
| "weight (JObj m) = sat_add64 32 (foldl sat_add64 0
     (map (\<lambda>(k, v). sat_add64 (sat_mul64 (length k) 6) (weight v)) m))"
| "weight _ = 32"

end
