(* ===== verification/Notification_State.thy ===== *)
theory Notification_State
  imports Notifications
begin

text \<open>
  The methods of \<open>State\<close> in \<open>qml-core/src/notifications.rs\<close>: eviction, the clock, the
  automatic silences (\<open>begin_hold\<close>, \<open>present_hold\<close>, \<open>finish_hold\<close>) and one definition per
  event of \<open>transition\<close>. A handler returns the effects it emits, its result and the new
  state; an error leaves the state as it was.
\<close>

section \<open>Eviction\<close>

text \<open>The first loop of \<open>make_room\<close> drops the oldest history entries, here on the reversed
  history.\<close>

fun drop_history :: "nat \<Rightarrow> json list \<Rightarrow> nat \<times> json list" where
  "drop_history bytes [] = (bytes, [])"
| "drop_history bytes (old # rest) =
     (if max_retained_bytes < bytes then drop_history (bytes - weight old) rest
      else (bytes, old # rest))"

fun rposition :: "('a \<Rightarrow> bool) \<Rightarrow> 'a list \<Rightarrow> nat option" where
  "rposition P [] = None"
| "rposition P (x # xs) =
     (case rposition P xs of Some i \<Rightarrow> Some (Suc i) | None \<Rightarrow> if P x then Some 0 else None)"

definition remove_at :: "nat \<Rightarrow> 'a list \<Rightarrow> 'a list" where
  "remove_at i xs = take i xs @ drop (Suc i) xs"

lemma rposition_Some: "rposition P xs = Some i \<Longrightarrow> i < length xs \<and> P (xs ! i)"
  by (induction xs arbitrary: i) (auto split: option.splits if_splits)

lemma rposition_None: "rposition P xs = None \<longleftrightarrow> list_all (\<lambda>x. \<not> P x) xs"
  by (induction xs) (auto split: option.splits)

lemma length_remove_at: "i < length xs \<Longrightarrow> length (remove_at i xs) = length xs - 1"
  by (simp add: remove_at_def)

function evict :: "host \<Rightarrow> string \<Rightarrow> nat \<Rightarrow> nat \<Rightarrow> nrec list \<Rightarrow> effect list
    \<Rightarrow> nrec list \<times> effect list" where
  "evict h own bytes count cur effs =
     (if max_retained_bytes < bytes \<or> max_entries \<le> count then
        (case rposition (\<lambda>r. rec_id h r \<noteq> own) cur of
           None \<Rightarrow> (cur, effs)
         | Some i \<Rightarrow>
             evict h own (bytes - weight (entry (cur ! i))) (count - 1) (remove_at i cur)
               (effs @ [Dismiss (json_index (entry (cur ! i)) ''id'')]))
      else (cur, effs))"
  by pat_completeness auto

termination
  by (relation "measure (\<lambda>(h, own, bytes, count, cur, effs). length cur)")
    (auto dest!: rposition_Some simp: length_remove_at)

definition make_room :: "host \<Rightarrow> json \<Rightarrow> nstate \<Rightarrow> nstate \<times> effect list" where
  "make_room h e s =
     (let own = js_string h (json_get e ''id'');
          others = filter (\<lambda>r. rec_id h r \<noteq> own) (current s);
          bytes = sum_list (map (weight \<circ> entry) others) + sum_list (map weight (history s)) + weight e
      in case drop_history bytes (rev (history s)) of (bytes, hist) \<Rightarrow>
         case evict h own bytes (length others) (current s) [] of (cur, effs) \<Rightarrow>
           (s\<lparr>history := rev hist, current := cur\<rparr>, effs))"

fun position :: "('a \<Rightarrow> bool) \<Rightarrow> 'a list \<Rightarrow> nat option" where
  "position P [] = None"
| "position P (x # xs) = (if P x then Some 0 else map_option Suc (position P xs))"

definition find_id :: "host \<Rightarrow> json option \<Rightarrow> nstate \<Rightarrow> nat option" where
  "find_id h v s = position (\<lambda>r. rec_id h r = js_string h v) (current s)"

section \<open>Automatic silence\<close>

definition silence_popups :: "nstate \<Rightarrow> nstate" where
  "silence_popups s = s\<lparr>current := map (\<lambda>r. r\<lparr>popup := False\<rparr>) (current s)\<rparr>"

definition begin_hold :: "nstate \<Rightarrow> nstate" where
  "begin_hold s =
     (if holding s then s
      else s\<lparr>saved_dnd := dnd s, saved_until := dnd_until s, saved_minutes := dnd_minutes s,
             holding := True\<rparr>)"

definition manual_override :: "nstate \<Rightarrow> nstate" where
  "manual_override s =
     s\<lparr>focus_sync := False, focus_hold := False, meeting_hold := False, meeting_key := [],
       meeting_end := Fin 0, holding := False, dnd_reason := []\<rparr>"

definition present_hold :: "nstate \<Rightarrow> nstate" where
  "present_hold s =
     (if meeting_hold s then
        (let span = f_max (f_sub (meeting_end s) (last_tick s)) (Fin 0)
         in s\<lparr>dnd := True, dnd_until := meeting_end s,
              dnd_minutes := f_clamp (Fin 1) (Fin 100000) (f_ceil (f_scale (1 / 60) span)),
              dnd_reason := ''meeting''\<rparr>)
      else if focus_hold s then
        s\<lparr>dnd := True, dnd_until := Fin 0, dnd_minutes := Fin 0, dnd_reason := ''focus''\<rparr>
      else s)"

definition finish_hold :: "nstate \<Rightarrow> nstate" where
  "finish_hold s =
     (if meeting_hold s \<or> focus_hold s then present_hold s
      else
        (let until = (if saved_dnd s then saved_until s else Fin 0)
         in s\<lparr>dnd := saved_dnd s, dnd_until := until,
              dnd_minutes := (if f_less (Fin 0) until then saved_minutes s else Fin 0),
              dnd_reason := [], holding := False\<rparr>))"

definition expire_manual :: "f64 \<Rightarrow> nstate \<Rightarrow> nstate \<times> bool" where
  "expire_manual timestamp s =
     (if holding s \<or> f_le (dnd_until s) (Fin 0) \<or> f_less timestamp (dnd_until s) then (s, False)
      else (s\<lparr>dnd := False, dnd_until := Fin 0, dnd_minutes := Fin 0, dnd_reason := []\<rparr>, True))"

definition release_meeting :: "nstate \<Rightarrow> nstate" where
  "release_meeting s =
     finish_hold (s\<lparr>meeting_hold := False, meeting_key := [], meeting_end := Fin 0\<rparr>)"

section \<open>The clock\<close>

definition is_due :: "nstate \<Rightarrow> f64 \<Rightarrow> nrec \<Rightarrow> bool" where
  "is_due s timestamp r \<longleftrightarrow>
     \<not> dnd s \<and> (case reminder_at (entry r) of Some t \<Rightarrow> f_le t timestamp | None \<Rightarrow> False)"

definition return_record :: "host \<Rightarrow> f64 \<Rightarrow> nrec \<Rightarrow> nrec" where
  "return_record h timestamp r =
     (let e = json_put ''reminder'' (JBool True) (forget_reminder (entry r))
      in r\<lparr>entry := e, popup := True, remaining := popup_duration h e, clock := timestamp\<rparr>)"

definition tick_record :: "bool \<Rightarrow> f64 \<Rightarrow> nrec \<Rightarrow> nrec \<times> bool \<times> effect list" where
  "tick_record is_paused timestamp r =
     (let elapsed = f_max (f_sub timestamp (clock r)) (Fin 0);
          transient = truthy (json_get (entry r) ''transient'');
          r = r\<lparr>clock := timestamp\<rparr>
      in if deferred r then (r, False, [])
         else if is_paused \<or> f_less (remaining r) (Fin 0) \<or> \<not> popup r \<and> \<not> transient
         then (r, False, [])
         else
           (let r = r\<lparr>remaining := f_sub (remaining r) elapsed\<rparr>
            in if f_less (Fin 0) (remaining r) then (r, False, [])
               else (r\<lparr>popup := False\<rparr>, True,
                     if transient then [Expire (json_index (entry r) ''id'')] else [])))"

definition advance :: "host \<Rightarrow> f64 \<Rightarrow> nstate \<Rightarrow> nstate \<times> effect list" where
  "advance h timestamp s =
     (let s = s\<lparr>last_tick := timestamp\<rparr>;
          released = (meeting_hold s \<and> f_le (meeting_end s) timestamp);
          s = (if released then release_meeting s else s)
      in case expire_manual timestamp s of (s, expired) \<Rightarrow>
        (let due = filter (is_due s timestamp) (current s);
             rest = filter (\<lambda>r. \<not> is_due s timestamp r) (current s);
             cur = foldl (\<lambda>cur r. return_record h timestamp r # cur) rest (rev due);
             arrived = map (\<lambda>r. Arrived (entry r) False) (take (length due) cur);
             ticks = map (tick_record (paused s) timestamp) cur;
             hist = filter (\<lambda>e. f_less (f_sub timestamp (Fin 86400)) (number h (json_get e ''time'')))
                      (history s);
             changed = (released \<or> expired \<or> due \<noteq> [] \<or> list_ex (fst \<circ> snd) ticks)
         in (s\<lparr>current := map fst ticks, history := hist\<rparr>,
             arrived @ concat (map (snd \<circ> snd) ticks)
               @ (if changed \<or> length hist \<noteq> length (history s) then [Publish] else []))))"

definition retire_at :: "nat \<Rightarrow> nstate \<Rightarrow> nstate \<times> effect list" where
  "retire_at i s =
     (let r = current s ! i;
          r = r\<lparr>popup := False, entry := json_remove ''reminder'' (entry r)\<rparr>
      in (s\<lparr>current := (current s)[i := r]\<rparr>,
          (if truthy (json_get (entry r) ''transient'')
           then [Dismiss (json_index (entry r) ''id'')] else []) @ [Publish]))"

section \<open>Restoring saved state\<close>

definition arg :: "nat \<Rightarrow> json list \<Rightarrow> json option" where
  "arg i xs = (if i < length xs then Some (xs ! i) else None)"

definition timestamp_of :: "host \<Rightarrow> json option \<Rightarrow> string + f64" where
  "timestamp_of h v =
     (let x = number h v in if f_finite x then Inr x else Inl ''invalid notification timestamp'')"

definition set_insert :: "string \<Rightarrow> string list \<Rightarrow> string list" where
  "set_insert k ks = insort_insert k ks"

definition restore_quiet :: "json list \<Rightarrow> string list" where
  "restore_quiet vs =
     foldl (\<lambda>ks k. set_insert k ks) []
       (filter valid_app_key (List.map_filter as_str (take max_quiet_apps vs)))"

fun restore_history :: "nat \<Rightarrow> json list \<Rightarrow> json list" where
  "restore_history bytes [] = []"
| "restore_history bytes (e # es) =
     (let size = weight e
      in if \<not> is_object e \<or> max_entry_bytes < size \<or> max_retained_bytes < sat_add64 bytes size
         then restore_history bytes es
         else e # restore_history (bytes + size) es)"

definition restore_silence :: "host \<Rightarrow> json \<Rightarrow> nstate \<Rightarrow> nstate" where
  "restore_silence h saved s =
     (let dnd' = truthy (json_get saved ''dnd'');
          until = (case Option.bind (json_get saved ''dndUntil'') as_f64 of
                     Some u \<Rightarrow> if dnd' \<and> f_less (Fin 0) u then u else Fin 0 | None \<Rightarrow> Fin 0);
          minutes = number h (json_get saved ''dndMinutes'');
          minutes = (if f_less (Fin 0) until \<and> f_finite minutes then minutes else Fin 0);
          passed = (f_less (Fin 0) until \<and> f_le until (last_tick s))
      in s\<lparr>dnd := dnd' \<and> \<not> passed, dnd_until := (if passed then Fin 0 else until),
           dnd_minutes := (if passed then Fin 0 else minutes)\<rparr>)"

definition restore_saved :: "host \<Rightarrow> json \<Rightarrow> nstate \<Rightarrow> nstate" where
  "restore_saved h saved s =
     (let sync = truthy (json_get saved ''focusSync'');
          until = (case positive_time (Option.bind (json_get saved ''savedUntil'') as_f64) of
                     Some u \<Rightarrow> u | None \<Rightarrow> Fin 0);
          minutes = number h (json_get saved ''savedMinutes'')
      in s\<lparr>focus_sync := sync,
           focus_hold := sync \<and> truthy (json_get saved ''focusHold''),
           saved_dnd := truthy (json_get saved ''savedDnd''),
           saved_until := until,
           saved_minutes := (if f_less (Fin 0) until \<and> f_finite minutes then minutes else Fin 0),
           holding := truthy (json_get saved ''holding'')\<rparr>)"

definition restore_meeting :: "host \<Rightarrow> json \<Rightarrow> nstate \<Rightarrow> nstate" where
  "restore_meeting h saved s =
     (let key = trim (js_text h (json_get saved ''meetingKey''));
          end_time = number h (json_get saved ''meetingEnd'')
      in if truthy (json_get saved ''meetingHold'') \<and> key \<noteq> [] \<and> length key \<le> 512
            \<and> f_finite end_time \<and> f_less (last_tick s) end_time
         then s\<lparr>meeting_hold := True, meeting_key := key, meeting_end := end_time\<rparr>
         else s\<lparr>meeting_hold := False, meeting_key := [], meeting_end := Fin 0\<rparr>)"

definition restore_holds :: "nstate \<Rightarrow> nstate" where
  "restore_holds s =
     (if meeting_hold s \<or> focus_hold s then present_hold (s\<lparr>holding := True\<rparr>)
      else if holding s then fst (expire_manual (last_tick s) (finish_hold s))
      else s)"

definition restore_entry :: "host \<Rightarrow> json \<Rightarrow> json option" where
  "restore_entry h e =
     (case Option.bind (json_get e ''time'') as_f64 of
        Some time \<Rightarrow>
          if f_finite time then
            Some (json_obj
              [(''time'', json_of_f64 h time), (''pinned'', JBool (truthy (json_get e ''pinned''))),
               (''popup'', JBool (truthy (json_get e ''popup''))),
               (''remindAt'', (case positive_time (Option.bind (json_get e ''remindAt'') as_f64) of
                               Some t \<Rightarrow> json_of_f64 h t | None \<Rightarrow> JNull)),
               (''reminder'', JBool (truthy (json_get e ''reminder'')))])
          else None
      | None \<Rightarrow> None)"

fun restore_metadata :: "host \<Rightarrow> (string \<times> json) list \<Rightarrow> (string \<times> json) list
    \<Rightarrow> (string \<times> json) list" where
  "restore_metadata h [] acc = acc"
| "restore_metadata h ((k, e) # m) acc =
     restore_metadata h m
       (if parse_uint u32_max k = None then acc
        else case restore_entry h e of Some v \<Rightarrow> bt_insert k v acc | None \<Rightarrow> acc)"

definition metadata_entries :: "json \<Rightarrow> (string \<times> json) list" where
  "metadata_entries saved =
     (case Option.bind (json_get saved ''metadata'') as_object of
        Some m \<Rightarrow> take max_entries m | None \<Rightarrow> [])"

definition restore_event :: "host \<Rightarrow> json \<Rightarrow> nstate \<Rightarrow> nstate \<times> effect list" where
  "restore_event h saved s =
     (if \<not> is_truthy saved then (s, [])
      else
        (let s = s\<lparr>quiet_apps := restore_quiet (js_array (json_get saved ''quietApps'')),
                   history := restore_history (sum_list (map (weight \<circ> entry) (current s)))
                                (take 100 (js_array (json_get saved ''history'')))\<rparr>;
             s = restore_silence h saved s;
             s = restore_saved h saved s;
             s = restore_meeting h saved s;
             s = restore_holds s
         in (s\<lparr>restored := restore_metadata h (metadata_entries saved) []\<rparr>, [Publish])))"

end
