(* ===== verification/Notification_Events.thy ===== *)
theory Notification_Events
  imports Notification_State
begin

text \<open>
  The events of \<open>transition\<close> in \<open>qml-core/src/notifications.rs\<close>, their dispatch and the
  views \<open>view\<close> and \<open>save\<close>.
\<close>

section \<open>Arrivals\<close>

definition keep_reminder :: "json \<Rightarrow> json \<Rightarrow> json" where
  "keep_reminder old e =
     foldl (\<lambda>e k. case json_get old k of Some v \<Rightarrow> json_put k v e | None \<Rightarrow> e) e reminder_keys"

text \<open>A notification replaced in place by its sender.\<close>

definition receive_update :: "host \<Rightarrow> json \<Rightarrow> f64 \<Rightarrow> bool \<Rightarrow> nat \<Rightarrow> nstate \<Rightarrow> nstate \<times> effect list" where
  "receive_update h e time suppress i s =
     (let r = current s ! i;
          rest = remove_at i (current s);
          old = entry r;
          e = keep_reminder old (json_put ''pinned'' (json_index old ''pinned'') e);
          fresh = (json_index e ''summary'' \<noteq> json_index old ''summary''
                   \<or> json_index e ''body'' \<noteq> json_index old ''body'');
          duration = (json_index e ''timeout'' \<noteq> json_index old ''timeout''
                      \<or> json_index e ''urgency'' \<noteq> json_index old ''urgency'');
          e = json_put ''time'' (if fresh then json_of_f64 h time else json_index old ''time'') e;
          r = r\<lparr>entry := e\<rparr>;
          held = hold_for_focus h s e False;
          popup' = (\<not> held \<and> \<not> dnd s \<and> \<not> suppress \<and> group_key h e \<notin> set (quiet_apps s));
          r = (if fresh then
                 r\<lparr>deferred := held, popup := popup', remaining := popup_duration h e, clock := time\<rparr>
               else if duration then r\<lparr>remaining := popup_duration h e, clock := time\<rparr>
               else r)
      in (s\<lparr>current := (if fresh then r # rest else take i rest @ r # drop i rest)\<rparr>,
          if fresh \<and> popup' then [Arrived e False] else []))"

definition supersede_tag :: "host \<Rightarrow> json \<Rightarrow> nrec \<Rightarrow> bool" where
  "supersede_tag h e r \<longleftrightarrow>
     json_index (entry r) ''tag'' = json_index e ''tag'' \<and> group_key h (entry r) = group_key h e"

definition apply_restored :: "host \<Rightarrow> json \<Rightarrow> json \<Rightarrow> json" where
  "apply_restored h saved e =
     (let e = json_put ''time'' (json_index saved ''time'') e;
          e = json_put ''pinned'' (JBool (truthy (json_get saved ''pinned''))) e;
          e = (case Option.bind (json_get saved ''remindAt'') as_f64 of
                 Some t \<Rightarrow> json_put ''remind_at'' (json_of_f64 h t) e | None \<Rightarrow> e)
      in if truthy (json_get saved ''reminder'') then json_put ''reminder'' (JBool True) e else e)"

text \<open>A notification that is not in the inbox yet.\<close>

definition receive_new :: "host \<Rightarrow> json \<Rightarrow> f64 \<Rightarrow> bool \<Rightarrow> bool \<Rightarrow> nstate \<Rightarrow> nstate \<times> effect list" where
  "receive_new h e time generation suppress s =
     (let tagged = truthy (json_get e ''tag'');
          cur = (if tagged
                 then map (\<lambda>r. if supersede_tag h e r then r\<lparr>skip_history := True\<rparr> else r) (current s)
                 else current s);
          dismissed = (if tagged
                       then map (\<lambda>r. Dismiss (json_index (entry r) ''id''))
                              (filter (supersede_tag h e) (current s))
                       else []);
          key = js_string h (json_get e ''id'');
          saved = (if generation then map_of (restored s) key else None);
          s = s\<lparr>current := cur,
                restored := (if generation then AList.delete key (restored s) else restored s)\<rparr>;
          e = (case saved of Some v \<Rightarrow> apply_restored h v e | None \<Rightarrow> e);
          held = hold_for_focus h s e generation;
          popup' = (\<not> held \<and> \<not> dnd s \<and> \<not> suppress
                    \<and> (if generation
                       then (case saved of Some v \<Rightarrow> truthy (json_get v ''popup'') | None \<Rightarrow> False)
                       else group_key h e \<notin> set (quiet_apps s)))
      in (s\<lparr>current := \<lparr>entry = e, remaining = popup_duration h e, clock = time, popup = popup',
                        deferred = held, skip_history = False\<rparr> # current s\<rparr>,
          dismissed @ (if popup' then [Arrived e True] else [])))"

definition receive :: "host \<Rightarrow> json list \<Rightarrow> nstate \<Rightarrow> string + (effect list \<times> json \<times> nstate)" where
  "receive h args s =
     (case arg 0 args of
        None \<Rightarrow> Inl ''invalid notification entry''
      | Some e \<Rightarrow>
          if \<not> is_object e then Inl ''invalid notification entry''
          else if max_entry_bytes < weight e then
            Inr ([Dismiss (json_index e ''id'')], JBool False, s)
          else
            (case timestamp_of h (arg 1 args) of
               Inl err \<Rightarrow> Inl err
             | Inr time \<Rightarrow>
                 (let generation = truthy (arg 2 args);
                      suppress = truthy (arg 3 args)
                  in case make_room h e s of (s, evicted) \<Rightarrow>
                     case (case find_id h (json_get e ''id'') s of
                             Some i \<Rightarrow> receive_update h e time suppress i s
                           | None \<Rightarrow> receive_new h e time generation suppress s) of
                       (s, effs) \<Rightarrow> Inr (evicted @ effs @ [Publish], JNull, s))))"

section \<open>Departures\<close>

definition close_entry :: "json \<Rightarrow> json" where
  "close_entry e =
     forget_reminder (json_put ''pinned'' (JBool False) (json_put ''image'' (JStr [])
       (json_put ''actions'' (JObj []) e)))"

text \<open>\<open>as_i64\<close> of the close reason; only the literal 2 (dismissed by the user) matters.\<close>

definition is_reason_two :: "json option \<Rightarrow> bool" where
  "is_reason_two v \<longleftrightarrow> Option.bind v as_u64 = Some 2"

definition closed_event :: "host \<Rightarrow> json list \<Rightarrow> nstate \<Rightarrow> nstate \<times> effect list" where
  "closed_event h args s =
     (case find_id h (arg 0 args) s of
        None \<Rightarrow> (s, [])
      | Some i \<Rightarrow>
          (let r = current s ! i;
               s = s\<lparr>current := remove_at i (current s)\<rparr>;
               s = (if \<not> skip_history r \<and> \<not> truthy (json_get (entry r) ''transient'')
                       \<and> is_reason_two (arg 1 args)
                    then s\<lparr>history := take 100 (close_entry (entry r) # history s)\<rparr> else s)
           in (s, [Publish])))"

section \<open>Choices on one notification\<close>

definition pin_at :: "host \<Rightarrow> nat \<Rightarrow> nstate \<Rightarrow> nstate \<times> effect list" where
  "pin_at h i s =
     (let r = current s ! i;
          pinned = (\<not> truthy (json_get (entry r) ''pinned''));
          e = json_put ''pinned'' (JBool pinned) (entry r);
          shown = (pinned \<and> \<not> dnd s);
          r = r\<lparr>entry := e, remaining := popup_duration h e, popup := popup r \<or> shown\<rparr>
      in (s\<lparr>current := (current s)[i := r]\<rparr>, (if shown then [Arrived e False] else []) @ [Publish]))"

definition remind :: "host \<Rightarrow> json list \<Rightarrow> nstate \<Rightarrow> string + (effect list \<times> json \<times> nstate)" where
  "remind h args s =
     (case timestamp_of h (arg 2 args) of
        Inl err \<Rightarrow> Inl err
      | Inr now \<Rightarrow>
          (let due = (case Option.bind (arg 1 args) as_f64 of Some x \<Rightarrow> x | None \<Rightarrow> Fin 0)
           in case find_id h (arg 0 args) s of
                None \<Rightarrow> Inr ([], JBool False, s)
              | Some i \<Rightarrow>
                  (let r = current s ! i;
                       cancel = f_eq due (Fin 0);
                       valid = (f_finite due \<and> f_less now due
                                \<and> f_le (f_sub due now) max_reminder_delay)
                   in if \<not> truthy (json_get (entry r) ''transient'') \<and> (cancel \<or> valid) then
                        (let e = json_remove ''remind_at'' (entry r);
                             e = (if cancel then e else json_put ''remind_at'' (json_of_f64 h due) e)
                         in Inr ([Publish], JBool True, s\<lparr>current := (current s)[i := r\<lparr>entry := e\<rparr>]\<rparr>))
                      else Inr ([], JBool False, s))))"

definition set_app_quiet :: "host \<Rightarrow> json list \<Rightarrow> nstate \<Rightarrow> nstate \<times> json \<times> effect list" where
  "set_app_quiet h args s =
     (let key = js_text h (arg 0 args);
          quiet = truthy (arg 1 args);
          known = (list_ex (\<lambda>r. app_key h (entry r) = key) (current s)
                   \<or> list_ex (\<lambda>e. app_key h e = key) (history s));
          accepted = (valid_app_key key \<and> (\<not> quiet \<or> known)
                      \<and> (\<not> quiet \<or> key \<in> set (quiet_apps s) \<or> length (quiet_apps s) < max_quiet_apps))
      in if accepted then
           (s\<lparr>quiet_apps := (if quiet then set_insert key (quiet_apps s) else removeAll key (quiet_apps s))\<rparr>,
            JBool True, [Publish])
         else (s, JBool False, []))"

definition release_record :: "host \<Rightarrow> f64 \<Rightarrow> nstate \<Rightarrow> nrec \<Rightarrow> nrec \<times> effect list" where
  "release_record h time s r =
     (if \<not> deferred r then (r, [])
      else if dnd s \<or> group_key h (entry r) \<in> set (quiet_apps s) then (r\<lparr>deferred := False\<rparr>, [])
      else (r\<lparr>deferred := False, popup := True, remaining := popup_duration h (entry r), clock := time\<rparr>,
            [Arrived (entry r) False]))"

definition set_pr_focus :: "host \<Rightarrow> json list \<Rightarrow> nstate \<Rightarrow> string + (effect list \<times> json \<times> nstate)" where
  "set_pr_focus h args s =
     (case timestamp_of h (arg 1 args) of
        Inl err \<Rightarrow> Inl err
      | Inr time \<Rightarrow>
          (let enabled = truthy (arg 0 args)
           in if pr_focus s = enabled then Inr ([], JBool True, s)
              else if enabled then Inr ([Publish], JBool True, s\<lparr>pr_focus := True\<rparr>)
              else (let released = map (release_record h time s) (current s)
                    in Inr (concat (map snd released) @ [Publish], JBool True,
                            s\<lparr>pr_focus := False, current := map fst released\<rparr>))))"

section \<open>Silence\<close>

definition set_dnd :: "json list \<Rightarrow> nstate \<Rightarrow> nstate \<times> effect list" where
  "set_dnd args s =
     (let s = (manual_override s)\<lparr>dnd_until := Fin 0, dnd_minutes := Fin 0, dnd := truthy (arg 0 args)\<rparr>
      in (if dnd s then silence_popups s else s, [Publish]))"

text \<open>\<open>minutes.fract() == 0.0\<close>.\<close>

fun f_integral :: "f64 \<Rightarrow> bool" where
  "f_integral (Fin x) = (of_int \<lfloor>x\<rfloor> = x)"
| "f_integral _ = False"

definition snooze :: "host \<Rightarrow> json list \<Rightarrow> nstate \<Rightarrow> nstate \<times> json \<times> effect list" where
  "snooze h args s =
     (let minutes = number h (arg 0 args);
          time = number h (arg 1 args);
          ok = (f_finite minutes \<and> f_integral minutes \<and> f_le (Fin 1) minutes
                \<and> f_le minutes (Fin 1440) \<and> f_finite time \<and> f_le (Fin 0) time)
      in if ok then
           (silence_popups ((manual_override s)\<lparr>dnd := True,
              dnd_until := f_add time (f_scale 60 minutes), dnd_minutes := minutes\<rparr>),
            JBool True, [Publish])
         else (s, JBool False, []))"

definition enter_focus :: "nstate \<Rightarrow> nstate" where
  "enter_focus s = silence_popups (present_hold ((begin_hold s)\<lparr>focus_hold := True\<rparr>))"

definition leave_focus :: "nstate \<Rightarrow> nstate" where
  "leave_focus s = fst (expire_manual (last_tick s) (finish_hold (s\<lparr>focus_hold := False\<rparr>)))"

definition set_focus :: "host \<Rightarrow> json list \<Rightarrow> nstate \<Rightarrow> nstate \<times> effect list" where
  "set_focus h args s =
     (let active = truthy (arg 0 args);
          now = number h (arg 1 args);
          s = (if f_finite now \<and> f_le (Fin 0) now then s\<lparr>last_tick := now\<rparr> else s);
          enter = (active \<and> focus_sync s \<and> \<not> focus_hold s);
          leave = (\<not> active \<and> focus_hold s);
          s = s\<lparr>focus_active := active\<rparr>
      in if enter then (enter_focus s, [Publish])
         else if leave then (leave_focus s, [Publish])
         else (s, []))"

definition set_focus_sync :: "json list \<Rightarrow> nstate \<Rightarrow> nstate \<times> json \<times> effect list" where
  "set_focus_sync args s =
     (let enabled = truthy (arg 0 args)
      in if enabled \<and> \<not> focus_active s then (s, JBool False, [])
         else if enabled \<and> focus_sync s \<and> focus_hold s then (s, JBool True, [])
         else if enabled then
           (let s = s\<lparr>focus_sync := True\<rparr>
            in (if \<not> focus_hold s then enter_focus s else s, JBool True, [Publish]))
         else
           (let s = s\<lparr>focus_sync := False\<rparr>
            in (if focus_hold s then leave_focus s else s, JBool True, [Publish])))"

definition arm_meeting :: "host \<Rightarrow> json list \<Rightarrow> nstate \<Rightarrow> nstate \<times> json \<times> effect list" where
  "arm_meeting h args s =
     (let key = trim (js_text h (arg 0 args));
          end_time = number h (arg 1 args);
          now = number h (arg 2 args);
          valid = (key \<noteq> [] \<and> length key \<le> 512 \<and> f_finite end_time \<and> f_finite now
                   \<and> f_le (Fin 0) now \<and> f_less now end_time)
      in if \<not> valid then (s, JBool False, [])
         else
           (let s = s\<lparr>last_tick := now\<rparr>;
                same = (meeting_hold s \<and> meeting_key s = key
                        \<and> f_less (f_abs (f_sub (meeting_end s) end_time)) (Fin (1 / 2)))
            in if same then (s, JBool True, [])
               else (silence_popups (present_hold ((begin_hold s)\<lparr>meeting_hold := True,
                       meeting_key := key, meeting_end := end_time\<rparr>)),
                     JBool True, [Publish])))"

section \<open>Groups\<close>

definition clear_event :: "json list \<Rightarrow> nstate \<Rightarrow> nstate \<times> effect list" where
  "clear_event args s =
     (if truthy (arg 0 args) then (s\<lparr>history := []\<rparr>, [Publish])
      else (s, map (\<lambda>r. Dismiss (json_index (entry r) ''id'')) (current s)))"

fun group_loop :: "host \<Rightarrow> string \<Rightarrow> bool \<Rightarrow> nat list \<Rightarrow> nstate \<Rightarrow> nstate \<times> effect list" where
  "group_loop h key hide [] s = (s, [])"
| "group_loop h key hide (i # is) s =
     (if group_key h (entry (current s ! i)) \<noteq> key then group_loop h key hide is s
      else if hide then
        (case retire_at i s of (s, effs) \<Rightarrow>
           case group_loop h key hide is s of (s, later) \<Rightarrow> (s, effs @ later))
      else
        (case group_loop h key hide is s of (s', later) \<Rightarrow>
           (s', Dismiss (json_index (entry (current s ! i)) ''id'') # later)))"

definition group_event :: "host \<Rightarrow> json list \<Rightarrow> nstate \<Rightarrow> nstate \<times> effect list" where
  "group_event h args s =
     group_loop h (js_string h (arg 0 args)) (truthy (arg 1 args)) [0..<length (current s)] s"

section \<open>Dispatch\<close>

definition plain :: "nstate \<times> effect list \<Rightarrow> string + (effect list \<times> json \<times> nstate)" where
  "plain p = (case p of (s, effs) \<Rightarrow> Inr (effs, JNull, s))"

definition answered :: "nstate \<times> json \<times> effect list \<Rightarrow> string + (effect list \<times> json \<times> nstate)" where
  "answered p = (case p of (s, v, effs) \<Rightarrow> Inr (effs, v, s))"

text \<open>The events \<open>retire\<close>, \<open>dismiss\<close> and \<open>pin\<close> on the notification they name.\<close>

definition on_found :: "host \<Rightarrow> json list \<Rightarrow> (nat \<Rightarrow> nstate \<times> effect list) \<Rightarrow> nstate
    \<Rightarrow> string + (effect list \<times> json \<times> nstate)" where
  "on_found h args f s =
     (case find_id h (arg 0 args) s of
        None \<Rightarrow> Inr ([], JBool False, s)
      | Some i \<Rightarrow> (case f i of (s', effs) \<Rightarrow> Inr (effs, JBool True, s')))"

definition transition :: "host \<Rightarrow> string \<Rightarrow> json list \<Rightarrow> nstate
    \<Rightarrow> string + (effect list \<times> json \<times> nstate)" where
  "transition h event args s =
     (if event = ''restore'' then
        plain (restore_event h (case arg 0 args of Some v \<Rightarrow> v | None \<Rightarrow> JNull) s)
      else if event = ''receive'' then receive h args s
      else if event = ''closed'' then plain (closed_event h args s)
      else if event = ''advance'' then
        (case timestamp_of h (arg 0 args) of Inl err \<Rightarrow> Inl err | Inr t \<Rightarrow> plain (advance h t s))
      else if event = ''pause'' then
        (case timestamp_of h (arg 1 args) of
           Inl err \<Rightarrow> Inl err
         | Inr t \<Rightarrow> (case advance h t s of (s, effs) \<Rightarrow>
             Inr (effs, JNull, s\<lparr>paused := truthy (arg 0 args)\<rparr>)))
      else if event = ''retire'' then on_found h args (\<lambda>i. retire_at i s) s
      else if event = ''dismiss'' then
        on_found h args (\<lambda>i. (s, [Dismiss (json_index (entry (current s ! i)) ''id'')])) s
      else if event = ''pin'' then on_found h args (\<lambda>i. pin_at h i s) s
      else if event = ''remind'' then remind h args s
      else if event = ''setAppQuiet'' then answered (set_app_quiet h args s)
      else if event = ''resumeApps'' then Inr ([Publish], JNull, s\<lparr>quiet_apps := []\<rparr>)
      else if event = ''setPrFocus'' then set_pr_focus h args s
      else if event = ''setDnd'' then plain (set_dnd args s)
      else if event = ''snooze'' then answered (snooze h args s)
      else if event = ''setFocus'' then
        (case set_focus h args s of (s, effs) \<Rightarrow> Inr (effs, JBool True, s))
      else if event = ''setFocusSync'' then answered (set_focus_sync args s)
      else if event = ''armMeeting'' then answered (arm_meeting h args s)
      else if event = ''clear'' then plain (clear_event args s)
      else if event = ''group'' then plain (group_event h args s)
      else Inl ''unknown notification transition'')"

definition new_state :: "f64 \<Rightarrow> nstate option" where
  "new_state now =
     (if f_finite now then
        Some \<lparr>current = [], history = [], dnd = False, quiet_apps = [], dnd_until = Fin 0,
              dnd_minutes = Fin 0, pr_focus = False, dnd_reason = [], focus_sync = False,
              focus_hold = False, focus_active = False, meeting_hold = False, meeting_key = [],
              meeting_end = Fin 0, holding = False, saved_dnd = False, saved_until = Fin 0,
              saved_minutes = Fin 0, paused = False, last_tick = now, restored = []\<rparr>
      else None)"

section \<open>Views\<close>

definition state_view :: "host \<Rightarrow> nstate \<Rightarrow> json" where
  "state_view h s =
     (let items = filter (\<lambda>e. \<not> truthy (json_get e ''transient'')) (map entry (current s))
      in json_obj
           [(''count'', JNum (nat_digits (length items))), (''items'', JArr items),
            (''popups'', JArr (map entry (filter popup (current s)))),
            (''history'', JArr (history s)),
            (''dndUntil'', json_of_f64 h (dnd_until s)),
            (''dndMinutes'', json_of_f64 h (dnd_minutes s)),
            (''dndReason'', JStr (dnd_reason s)), (''focusSync'', JBool (focus_sync s)),
            (''meetingKey'', JStr (meeting_key s)), (''meetingEnd'', json_of_f64 h (meeting_end s)),
            (''quietApps'', JArr (map JStr (quiet_apps s)))])"

definition save_record :: "host \<Rightarrow> nrec \<Rightarrow> string \<times> json" where
  "save_record h r =
     (rec_id h r,
      json_obj
        [(''time'', json_index (entry r) ''time''), (''pinned'', json_index (entry r) ''pinned''),
         (''popup'', JBool (popup r \<and> permanent (entry r))),
         (''remindAt'', (case reminder_at (entry r) of Some t \<Rightarrow> json_of_f64 h t | None \<Rightarrow> JNull)),
         (''reminder'', JBool (truthy (json_get (entry r) ''reminder'')))])"

definition save :: "host \<Rightarrow> nstate \<Rightarrow> json" where
  "save h s =
     json_obj
       [(''history'', JArr (history s)), (''dnd'', JBool (dnd s)),
        (''dndUntil'', json_of_f64 h (dnd_until s)), (''dndMinutes'', json_of_f64 h (dnd_minutes s)),
        (''dndReason'', JStr (dnd_reason s)), (''focusSync'', JBool (focus_sync s)),
        (''focusHold'', JBool (focus_hold s)), (''meetingHold'', JBool (meeting_hold s)),
        (''meetingKey'', JStr (meeting_key s)), (''meetingEnd'', json_of_f64 h (meeting_end s)),
        (''holding'', JBool (holding s)), (''savedDnd'', JBool (saved_dnd s)),
        (''savedUntil'', json_of_f64 h (saved_until s)),
        (''savedMinutes'', json_of_f64 h (saved_minutes s)),
        (''metadata'', json_obj (map (save_record h) (current s))),
        (''quietApps'', JArr (map JStr (quiet_apps s)))]"

text \<open>\<open>from_native\<close>: the entry of a notification object of the notification server.\<close>

definition from_native :: "host \<Rightarrow> json \<Rightarrow> json option \<Rightarrow> json" where
  "from_native h n now =
     (let hints = json_index n ''hints'';
          progress = number h (json_get hints ''value'');
          tag = (case json_get hints ''x-dunst-stack-tag'' of
                   Some v \<Rightarrow> if is_truthy v then Some v
                             else json_get hints ''x-canonical-private-synchronous''
                 | None \<Rightarrow> json_get hints ''x-canonical-private-synchronous'');
          silent = (Option.bind (json_get hints ''suppress-sound'') as_bool = Some True)
      in json_obj
           [(''id'', json_index n ''id''), (''app_name'', json_index n ''appName''),
            (''app_icon'', json_index n ''appIcon''),
            (''desktop_entry'', json_index n ''desktopEntry''),
            (''summary'', json_index n ''summary''), (''body'', json_index n ''body''),
            (''action_icons'', JBool (truthy (json_get n ''hasActionIcons''))),
            (''image'', JStr (local_image h (json_get n ''image''))),
            (''urgency'', json_of_f64 h (number h (json_get n ''urgency''))),
            (''resident'', JBool (truthy (json_get n ''resident''))),
            (''transient'', JBool (truthy (json_get n ''transient''))),
            (''timeout'', json_of_f64 h (number h (json_get n ''expireTimeout''))),
            (''time'', (case now of Some v \<Rightarrow> v | None \<Rightarrow> JNull)),
            (''progress'', json_of_f64 h
               (if f_finite progress then f_clamp (Fin 0) (Fin 100) progress else Fin (-1))),
            (''tag'', JStr (js_text h tag)), (''pinned'', JBool False), (''silent'', JBool silent)])"

end
