(* ===== verification/Notification_Facts.thy ===== *)
theory Notification_Facts
  imports Notification_Events "HOL-Library.Multiset"
begin

text \<open>
  The invariant of the notification policy. It has four independent parts - the retained
  entries, the history, the quieted applications and the silence - each with one lemma per
  operation that touches it; \<open>notifications\<close> interprets the state-machine interface with
  \<open>transition\<close>, and the lemmas on eviction give its bounds.
\<close>

section \<open>JSON objects\<close>

lemma json_get_remove [simp]: "j \<noteq> k \<Longrightarrow> json_get (json_remove k e) j = json_get e j"
  by (cases e) (auto simp: delete_conv')

lemma is_object_remove [simp]: "is_object (json_remove k e) = is_object e"
  by (cases e) (auto simp: is_object_def)

lemma forget_reminder_get [simp]:
  "is_object (forget_reminder e) = is_object e"
  "json_get (forget_reminder e) ''id'' = json_get e ''id''"
  by (simp_all add: forget_reminder_def reminder_keys_def)

lemma keep_reminder_get [simp]:
  "is_object e \<Longrightarrow> is_object (keep_reminder old e)"
  "is_object e \<Longrightarrow> json_get (keep_reminder old e) ''id'' = json_get e ''id''"
  by (simp_all add: keep_reminder_def reminder_keys_def split: option.splits)

lemma apply_restored_get [simp]:
  "is_object e \<Longrightarrow> is_object (apply_restored h v e)"
  "is_object e \<Longrightarrow> json_get (apply_restored h v e) ''id'' = json_get e ''id''"
  by (simp_all add: apply_restored_def Let_def split: option.splits)

lemma close_entry_object [simp]: "is_object e \<Longrightarrow> is_object (close_entry e)"
  by (simp add: close_entry_def)

section \<open>Retained entries\<close>

definition entries_ok :: "host \<Rightarrow> nrec list \<Rightarrow> bool" where
  "entries_ok h cur \<longleftrightarrow>
     distinct (map (rec_id h) cur) \<and> list_all (is_object \<circ> entry) cur \<and> length cur \<le> max_entries"

lemma entries_okD:
  assumes "entries_ok h cur"
  shows "distinct (map (rec_id h) cur)" "r \<in> set cur \<Longrightarrow> is_object (entry r)"
    "length cur \<le> max_entries"
  using assms by (auto simp: entries_ok_def list_all_iff)

lemma entries_ok_map:
  assumes "entries_ok h cur"
    "\<And>r. r \<in> set cur \<Longrightarrow> is_object (entry r) \<Longrightarrow> rec_id h (f r) = rec_id h r \<and> is_object (entry (f r))"
  shows "entries_ok h (map f cur)"
proof -
  have "map (rec_id h) (map f cur) = map (rec_id h) cur"
    using assms by (auto simp: entries_ok_def list_all_iff)
  then show ?thesis
    using assms unfolding entries_ok_def by (simp only: length_map) (auto simp: list_all_iff)
qed

lemma entries_ok_update:
  assumes "entries_ok h cur" "i < length cur" "rec_id h r = rec_id h (cur ! i)" "is_object (entry r)"
  shows "entries_ok h (cur[i := r])"
proof -
  have "map (rec_id h) (cur[i := r]) = map (rec_id h) cur"
    using assms by (simp add: map_update list_update_same_conv)
  then show ?thesis
    using assms unfolding entries_ok_def
    by (auto simp: list_all_iff dest!: set_update_subset_insert [THEN subsetD])
qed

lemma entries_ok_mset: "mset xs = mset ys \<Longrightarrow> entries_ok h xs = entries_ok h ys"
proof -
  assume eq: "mset xs = mset ys"
  then have "mset (map (rec_id h) xs) = mset (map (rec_id h) ys)" by simp
  then have "distinct (map (rec_id h) xs) = distinct (map (rec_id h) ys)"
    by (rule mset_eq_imp_distinct_iff)
  with eq mset_eq_length [OF eq] mset_eq_setD [OF eq] show ?thesis
    by (simp add: entries_ok_def list_all_iff)
qed

lemma entries_ok_subseq:
  assumes "entries_ok h cur" "subseq xs cur"
  shows "entries_ok h xs"
proof -
  obtain N where xs: "xs = nths cur N" using assms(2) by (auto simp: subseq_conv_nths)
  have "distinct (map (rec_id h) xs)"
    using assms(1) unfolding xs nths_map [symmetric] by (simp add: entries_ok_def distinct_nthsI)
  moreover have "set xs \<subseteq> set cur" unfolding xs by (rule set_nths_subset)
  moreover have "length xs \<le> length cur" by (rule list_emb_length [OF assms(2)])
  ultimately show ?thesis
    using assms(1) unfolding entries_ok_def list_all_iff by (meson le_trans subsetD)
qed

lemma entries_ok_Cons:
  "entries_ok h xs \<Longrightarrow> rec_id h r \<notin> rec_id h ` set xs \<Longrightarrow> is_object (entry r)
   \<Longrightarrow> length xs < max_entries \<Longrightarrow> entries_ok h (r # xs)"
  by (auto simp: entries_ok_def)

lemma subseq_remove_at: "subseq (remove_at i xs) xs"
  by (metis append_take_drop_id drop_Suc remove_at_def list_emb_append_mono subseq_order.order_refl
      suffix_imp_subseq suffix_tl tl_drop)

lemma mset_remove_at: "i < length xs \<Longrightarrow> mset xs = add_mset (xs ! i) (mset (remove_at i xs))"
  by (subst id_take_nth_drop) (simp_all add: remove_at_def)

lemma position_Some: "position P xs = Some i \<Longrightarrow> i < length xs \<and> P (xs ! i)"
  by (induction xs arbitrary: i) (auto split: if_splits)

lemma position_None: "position P xs = None \<longleftrightarrow> (\<forall>x \<in> set xs. \<not> P x)"
  by (induction xs) auto

lemma find_idD:
  "find_id h v s = Some i \<Longrightarrow> i < length (current s) \<and> rec_id h (current s ! i) = js_string h v"
  "find_id h v s = None \<Longrightarrow> js_string h v \<notin> rec_id h ` set (current s)"
  by (auto simp: find_id_def position_None dest: position_Some)

section \<open>Eviction\<close>

declare evict.simps [simp del]

abbreviation other_recs :: "host \<Rightarrow> string \<Rightarrow> nrec list \<Rightarrow> nrec list" where
  "other_recs h own cur \<equiv> filter (\<lambda>r. rec_id h r \<noteq> own) cur"

lemma filter_remove_at:
  "i < length xs \<Longrightarrow> P (xs ! i) \<Longrightarrow> mset (filter P xs) = add_mset (xs ! i) (mset (filter P (remove_at i xs)))"
  using mset_remove_at [of i xs] by (simp only: mset_filter) simp

lemma filter_remove_at_not: "i < length xs \<Longrightarrow> \<not> P (xs ! i) \<Longrightarrow> filter P (remove_at i xs) = filter P xs"
  by (subst (3) id_take_nth_drop [of i]) (simp_all add: remove_at_def)

lemma evict_effs:
  "e \<in> set (snd (evict h own bytes cnt cur effs)) \<Longrightarrow> e \<in> set effs \<or> (\<exists>v. e = Dismiss v)"
proof (induction h own bytes cnt cur effs rule: evict.induct)
  case (1 h own bytes cnt cur effs)
  show ?case
  proof (cases "max_retained_bytes < bytes \<or> max_entries \<le> cnt")
    case False
    with 1(2) show ?thesis by (simp add: evict.simps)
  next
    case True
    show ?thesis
    proof (cases "rposition (\<lambda>r. rec_id h r \<noteq> own) cur")
      case None
      with True 1(2) show ?thesis by (simp add: evict.simps)
    next
      case (Some i)
      with 1(2) True have "e \<in> set (snd (evict h own (bytes - weight (entry (cur ! i))) (cnt - 1)
          (remove_at i cur) (effs @ [Dismiss (json_index (entry (cur ! i)) ''id'')])))"
        by (subst (asm) evict.simps) simp
      from 1(1) [OF True Some this] show ?thesis by auto
    qed
  qed
qed

text \<open>What eviction leaves: a subsequence with every own record, room for one more, and the
  byte bound unless nothing else is left.\<close>

lemma evict_spec:
  assumes "evict h own bytes cnt cur effs = (cur', effs')"
    and "cnt = length (other_recs h own cur)"
    and "sum_list (map (weight \<circ> entry) (other_recs h own cur)) + k \<le> bytes"
  shows "subseq cur' cur \<and> filter (\<lambda>r. rec_id h r = own) cur' = filter (\<lambda>r. rec_id h r = own) cur
    \<and> length (other_recs h own cur') < max_entries
    \<and> (sum_list (map (weight \<circ> entry) (other_recs h own cur')) + k \<le> max_retained_bytes
       \<or> other_recs h own cur' = [])"
  using assms
proof (induction h own bytes cnt cur effs rule: evict.induct)
  case (1 h own bytes cnt cur effs)
  show ?case
  proof (cases "max_retained_bytes < bytes \<or> max_entries \<le> cnt")
    case False
    with 1(2-4) show ?thesis by (simp add: evict.simps)
  next
    case True
    show ?thesis
    proof (cases "rposition (\<lambda>r. rec_id h r \<noteq> own) cur")
      case None
      then have "other_recs h own cur = []"
        by (auto simp: rposition_None list_all_iff filter_empty_conv)
      with None True 1(2) show ?thesis by (simp add: evict.simps max_entries_def)
    next
      case (Some i)
      let ?r = "cur ! i" and ?rest = "remove_at i cur"
      have i: "i < length cur" "rec_id h ?r \<noteq> own" using rposition_Some [OF Some] by auto
      have ms: "mset (other_recs h own cur) = add_mset ?r (mset (other_recs h own ?rest))"
        using i by (intro filter_remove_at)
      from arg_cong [OF ms, of size] have len: "length (other_recs h own cur) = Suc (length (other_recs h own ?rest))"
        by (simp only: size_mset size_add_mset)
      from arg_cong [OF ms, of "\<lambda>M. sum_mset (image_mset (weight \<circ> entry) M)"]
      have sum: "sum_list (map (weight \<circ> entry) (other_recs h own cur))
          = weight (entry ?r) + sum_list (map (weight \<circ> entry) (other_recs h own ?rest))"
        by (simp flip: sum_mset_sum_list)
      have run: "evict h own (bytes - weight (entry ?r)) (cnt - 1) ?rest
          (effs @ [Dismiss (json_index (entry ?r) ''id'')]) = (cur', effs')"
        using 1(2) True Some by (subst (asm) evict.simps) simp
      have own: "filter (\<lambda>r. rec_id h r = own) ?rest = filter (\<lambda>r. rec_id h r = own) cur"
        using i by (intro filter_remove_at_not) auto
      have "cnt - 1 = length (other_recs h own ?rest)" using len 1(3) by simp
      moreover have "sum_list (map (weight \<circ> entry) (other_recs h own ?rest)) + k
          \<le> bytes - weight (entry ?r)"
        using sum 1(4) by linarith
      ultimately have "subseq cur' ?rest
        \<and> filter (\<lambda>r. rec_id h r = own) cur' = filter (\<lambda>r. rec_id h r = own) ?rest
        \<and> length (other_recs h own cur') < max_entries
        \<and> (sum_list (map (weight \<circ> entry) (other_recs h own cur')) + k \<le> max_retained_bytes
           \<or> other_recs h own cur' = [])"
        by (rule 1(1) [OF True Some run])
      with own subseq_order.order_trans [OF _ subseq_remove_at [of i cur]] show ?thesis by metis
    qed
  qed
qed

lemma drop_history_spec:
  assumes "drop_history bytes hs = (bytes', hs')" "sum_list (map weight hs) + k \<le> bytes"
  shows "suffix hs' hs \<and> sum_list (map weight hs') + k \<le> bytes'
    \<and> (bytes' \<le> max_retained_bytes \<or> hs' = [])"
  using assms
proof (induction bytes hs rule: drop_history.induct)
  case (1 bytes)
  then show ?case by simp
next
  case (2 bytes old rest)
  then show ?case by (cases "max_retained_bytes < bytes") (auto simp: suffix_Cons)
qed

lemma make_room_spec:
  assumes room: "make_room h e s = (s', effs)" and e: "weight e \<le> max_entry_bytes"
  defines "own \<equiv> js_string h (json_get e ''id'')"
  shows "s' = s\<lparr>current := current s', history := history s'\<rparr>"
    "subseq (current s') (current s)" "prefix (history s') (history s)"
    "filter (\<lambda>r. rec_id h r = own) (current s') = filter (\<lambda>r. rec_id h r = own) (current s)"
    "length (other_recs h own (current s')) < max_entries"
    "sum_list (map (weight \<circ> entry) (other_recs h own (current s')))
       + sum_list (map weight (history s')) + weight e \<le> max_retained_bytes"
    "x \<in> set effs \<Longrightarrow> \<exists>v. x = Dismiss v"
proof -
  let ?others = "other_recs h own (current s)"
  let ?b = "sum_list (map (weight \<circ> entry) ?others) + sum_list (map weight (history s)) + weight e"
  obtain b' hs where drop: "drop_history ?b (rev (history s)) = (b', hs)" by fastforce
  obtain cur where ev: "evict h own b' (length ?others) (current s) [] = (cur, effs)"
    and s': "s' = s\<lparr>history := rev hs, current := cur\<rparr>"
    using room drop by (auto simp: make_room_def Let_def own_def split: prod.splits)
  have "suffix hs (rev (history s))"
    and left: "sum_list (map weight hs) + (sum_list (map (weight \<circ> entry) ?others) + weight e) \<le> b'"
    and bounded: "b' \<le> max_retained_bytes \<or> hs = []"
    using drop_history_spec [OF drop, of "sum_list (map (weight \<circ> entry) ?others) + weight e"]
    by (simp_all add: rev_map [symmetric] sum_list_rev del: rev_map)
  then show "prefix (history s') (history s)" by (simp add: s' suffix_to_prefix)
  have spec: "subseq cur (current s)"
    "filter (\<lambda>r. rec_id h r = own) cur = filter (\<lambda>r. rec_id h r = own) (current s)"
    "length (other_recs h own cur) < max_entries"
    "sum_list (map (weight \<circ> entry) (other_recs h own cur)) + (sum_list (map weight hs) + weight e)
       \<le> max_retained_bytes \<or> other_recs h own cur = []"
    using evict_spec [OF ev refl, of "sum_list (map weight hs) + weight e"] left by linarith+
  show "s' = s\<lparr>current := current s', history := history s'\<rparr>" by (simp add: s')
  show "subseq (current s') (current s)"
    "filter (\<lambda>r. rec_id h r = own) (current s') = filter (\<lambda>r. rec_id h r = own) (current s)"
    "length (other_recs h own (current s')) < max_entries"
    using spec(1-3) by (simp_all add: s')
  show "sum_list (map (weight \<circ> entry) (other_recs h own (current s')))
       + sum_list (map weight (history s')) + weight e \<le> max_retained_bytes"
    using spec(4) bounded
  proof (elim disjE)
    assume "other_recs h own cur = []" "hs = []"
    with e show ?thesis by (simp add: s' max_entry_bytes_def max_retained_bytes_def)
  qed (use left in \<open>simp_all add: s' sum_list_rev rev_map [symmetric] del: rev_map\<close>)
  show "x \<in> set effs \<Longrightarrow> \<exists>v. x = Dismiss v"
    using evict_effs [of x h own b' "length ?others" "current s" "[]"] by (simp add: ev)
qed

end
