(* ===== verification/Notification_Invariant.thy ===== *)
theory Notification_Invariant
  imports Notification_Facts
begin

text \<open>
  Every event of the notification policy preserves the invariant. Each operation has one
  lemma per part of the invariant it touches; the parts it leaves alone are solved by the
  simplifier.
\<close>

section \<open>The parts of the invariant\<close>

definition history_ok :: "json list \<Rightarrow> bool" where
  "history_ok hs \<longleftrightarrow> length hs \<le> 100 \<and> list_all is_object hs"

definition quiet_ok :: "string list \<Rightarrow> bool" where
  "quiet_ok ks \<longleftrightarrow> sorted ks \<and> distinct ks \<and> length ks \<le> max_quiet_apps \<and> list_all valid_app_key ks"

text \<open>Silence is held exactly while a meeting or the focus timer holds it, the readout is the
  meeting's when both do, and switched-off silence has no deadline.\<close>

definition hold_ok :: "nstate \<Rightarrow> bool" where
  "hold_ok s \<longleftrightarrow>
     (holding s \<longleftrightarrow> meeting_hold s \<or> focus_hold s)
     \<and> (focus_hold s \<longrightarrow> focus_sync s)
     \<and> (holding s \<longrightarrow> dnd s)
     \<and> (\<not> dnd s \<longrightarrow> dnd_until s = Fin 0 \<and> dnd_minutes s = Fin 0)
     \<and> (meeting_hold s \<longrightarrow> meeting_key s \<noteq> [] \<and> length (meeting_key s) \<le> 512
          \<and> f_finite (meeting_end s) \<and> dnd_until s = meeting_end s \<and> dnd_reason s = ''meeting'')
     \<and> (focus_hold s \<and> \<not> meeting_hold s \<longrightarrow> dnd_until s = Fin 0 \<and> dnd_reason s = ''focus'')"

definition notification_inv :: "host \<Rightarrow> nstate \<Rightarrow> bool" where
  "notification_inv h s \<longleftrightarrow>
     entries_ok h (current s) \<and> history_ok (history s) \<and> quiet_ok (quiet_apps s) \<and> hold_ok s"

lemma notification_invI:
  "entries_ok h (current s) \<Longrightarrow> history_ok (history s) \<Longrightarrow> quiet_ok (quiet_apps s) \<Longrightarrow> hold_ok s
   \<Longrightarrow> notification_inv h s"
  by (simp add: notification_inv_def)

lemma notification_invD:
  assumes "notification_inv h s"
  shows "entries_ok h (current s)" "history_ok (history s)" "quiet_ok (quiet_apps s)" "hold_ok s"
  using assms by (simp_all add: notification_inv_def)

section \<open>Silence\<close>

lemmas hold_defs = begin_hold_def manual_override_def present_hold_def silence_popups_def

text \<open>A state in which a hold may be presented: the flags agree and the meeting is valid.\<close>

definition hold_pre :: "nstate \<Rightarrow> bool" where
  "hold_pre s \<longleftrightarrow> (meeting_hold s \<or> focus_hold s \<longrightarrow> holding s) \<and> (focus_hold s \<longrightarrow> focus_sync s)
     \<and> (meeting_hold s \<longrightarrow> meeting_key s \<noteq> [] \<and> length (meeting_key s) \<le> 512 \<and> f_finite (meeting_end s))"

lemma present_hold_ok: "hold_pre s \<Longrightarrow> meeting_hold s \<or> focus_hold s \<Longrightarrow> hold_ok (present_hold s)"
  by (auto simp: hold_ok_def hold_pre_def present_hold_def Let_def)

lemma finish_hold_ok: "hold_pre s \<Longrightarrow> hold_ok (finish_hold s)"
proof (cases "meeting_hold s \<or> focus_hold s")
  case True
  assume "hold_pre s"
  from present_hold_ok [OF this True] True show ?thesis by (simp add: finish_hold_def)
next
  case False
  then show ?thesis by (auto simp: finish_hold_def hold_ok_def Let_def)
qed

lemma hold_ok_pre: "hold_ok s \<Longrightarrow> hold_pre s"
  by (auto simp: hold_ok_def hold_pre_def)

lemma expire_manual_ok: "hold_ok s \<Longrightarrow> hold_ok (fst (expire_manual t s))"
  by (auto simp: hold_ok_def expire_manual_def)

lemma release_meeting_ok: "hold_ok s \<Longrightarrow> hold_ok (release_meeting s)"
  unfolding release_meeting_def by (rule finish_hold_ok) (auto simp: hold_pre_def hold_ok_def)

lemma silence_popups_hold [simp]: "hold_ok (silence_popups s) = hold_ok s"
  by (simp add: hold_ok_def silence_popups_def)

lemma enter_focus_ok: "hold_ok s \<Longrightarrow> focus_sync s \<Longrightarrow> hold_ok (enter_focus s)"
proof -
  assume "hold_ok s" "focus_sync s"
  then have "hold_pre ((begin_hold s)\<lparr>focus_hold := True\<rparr>)"
    by (auto simp: hold_pre_def hold_ok_def begin_hold_def)
  from present_hold_ok [OF this] show ?thesis by (simp add: enter_focus_def)
qed

lemma leave_focus_ok: "hold_pre s \<Longrightarrow> hold_ok (leave_focus s)"
  unfolding leave_focus_def
  by (intro expire_manual_ok finish_hold_ok) (auto simp: hold_pre_def)

text \<open>The silence operations leave the other parts of the state alone.\<close>

lemma present_hold_frame [simp]:
  "current (present_hold s) = current s" "history (present_hold s) = history s"
  "quiet_apps (present_hold s) = quiet_apps s" "last_tick (present_hold s) = last_tick s"
  by (simp_all add: present_hold_def Let_def)

lemma finish_hold_frame [simp]:
  "current (finish_hold s) = current s" "history (finish_hold s) = history s"
  "quiet_apps (finish_hold s) = quiet_apps s" "last_tick (finish_hold s) = last_tick s"
  by (simp_all add: finish_hold_def Let_def)

lemma expire_manual_frame [simp]:
  "current (fst (expire_manual t s)) = current s" "history (fst (expire_manual t s)) = history s"
  "quiet_apps (fst (expire_manual t s)) = quiet_apps s"
  "paused (fst (expire_manual t s)) = paused s"
  by (simp_all add: expire_manual_def)

lemma begin_hold_frame [simp]:
  "current (begin_hold s) = current s" "history (begin_hold s) = history s"
  "quiet_apps (begin_hold s) = quiet_apps s"
  by (simp_all add: begin_hold_def)

lemma manual_override_frame [simp]:
  "current (manual_override s) = current s" "history (manual_override s) = history s"
  "quiet_apps (manual_override s) = quiet_apps s"
  by (simp_all add: manual_override_def)

lemma focus_frame [simp]:
  "history (enter_focus s) = history s" "quiet_apps (enter_focus s) = quiet_apps s"
  "current (leave_focus s) = current s" "history (leave_focus s) = history s"
  "quiet_apps (leave_focus s) = quiet_apps s"
  by (simp_all add: enter_focus_def leave_focus_def silence_popups_def)

lemma silence_popups_frame [simp]:
  "history (silence_popups s) = history s" "quiet_apps (silence_popups s) = quiet_apps s"
  "dnd (silence_popups s) = dnd s"
  by (simp_all add: silence_popups_def)

lemma silence_popups_entries: "entries_ok h (current s) \<Longrightarrow> entries_ok h (current (silence_popups s))"
  unfolding silence_popups_def by (simp, rule entries_ok_map) auto

lemma enter_focus_entries: "entries_ok h (current s) \<Longrightarrow> entries_ok h (current (enter_focus s))"
  unfolding enter_focus_def by (rule silence_popups_entries) simp

lemma manual_ok:
  "hold_ok ((manual_override s)\<lparr>dnd_until := Fin 0, dnd_minutes := Fin 0, dnd := d\<rparr>)"
  "hold_ok ((manual_override s)\<lparr>dnd := True, dnd_until := u, dnd_minutes := m\<rparr>)"
  by (simp_all add: hold_ok_def manual_override_def)

lemma silenced_inv:
  "entries_ok h (current s) \<Longrightarrow> history_ok (history s) \<Longrightarrow> quiet_ok (quiet_apps s) \<Longrightarrow> hold_ok s
   \<Longrightarrow> notification_inv h (silence_popups s)"
  by (intro notification_invI) (simp_all add: silence_popups_entries)

lemma set_dnd_inv: "notification_inv h s \<Longrightarrow> notification_inv h (fst (set_dnd args s))"
  using manual_ok(1) [where s = s and d = "truthy (arg 0 args)"]
  by (cases "truthy (arg 0 args)")
    (auto simp: set_dnd_def Let_def dest: notification_invD intro!: notification_invI silence_popups_entries)

lemma snooze_inv: "notification_inv h s \<Longrightarrow> notification_inv h (fst (snooze h args s))"
  using manual_ok(2) [where s = s]
  by (auto simp: snooze_def Let_def dest: notification_invD intro!: silenced_inv)

lemma set_focus_inv: "notification_inv h s \<Longrightarrow> notification_inv h (fst (set_focus h args s))"
proof -
  assume inv: "notification_inv h s"
  have ok: "hold_ok (s\<lparr>last_tick := t, focus_active := a\<rparr>)" "hold_ok (s\<lparr>focus_active := a\<rparr>)" for t a
    using notification_invD(4) [OF inv] by (simp_all add: hold_ok_def)
  show ?thesis
    using notification_invD(1-3) [OF inv] ok hold_ok_pre [OF ok(1)] hold_ok_pre [OF ok(2)]
    by (auto simp: set_focus_def Let_def notification_inv_def enter_focus_entries
        intro!: enter_focus_ok leave_focus_ok)
qed

lemma set_focus_sync_inv: "notification_inv h s \<Longrightarrow> notification_inv h (fst (set_focus_sync args s))"
proof -
  assume inv: "notification_inv h s"
  have on: "hold_ok (s\<lparr>focus_sync := True\<rparr>)"
    using notification_invD(4) [OF inv] by (auto simp: hold_ok_def)
  have off: "\<not> focus_hold s \<Longrightarrow> hold_ok (s\<lparr>focus_sync := False\<rparr>)"
    using notification_invD(4) [OF inv] by (auto simp: hold_ok_def)
  have leave: "hold_ok (leave_focus (s\<lparr>focus_sync := False\<rparr>))"
    unfolding leave_focus_def using notification_invD(4) [OF inv]
    by (intro expire_manual_ok finish_hold_ok) (auto simp: hold_pre_def hold_ok_def)
  show ?thesis
    using notification_invD(1-3) [OF inv] notification_invD(4) [OF inv] on off leave
    by (auto simp: set_focus_sync_def Let_def notification_inv_def enter_focus_entries
        intro!: enter_focus_ok)
qed

lemma arm_meeting_inv: "notification_inv h s \<Longrightarrow> notification_inv h (fst (arm_meeting h args s))"
proof -
  assume inv: "notification_inv h s"
  have tick: "hold_ok (s\<lparr>last_tick := t\<rparr>)" for t
    using notification_invD(4) [OF inv] by (simp add: hold_ok_def)
  have armed: "hold_ok (present_hold ((begin_hold (s\<lparr>last_tick := t\<rparr>))
      \<lparr>meeting_hold := True, meeting_key := k, meeting_end := e\<rparr>))"
    if "k \<noteq> []" "length k \<le> 512" "f_finite e" for t k e
    using that tick [of t]
    by (intro present_hold_ok) (auto simp: hold_pre_def hold_ok_def begin_hold_def)
  show ?thesis
    using inv notification_invD [OF inv] tick armed
    by (auto simp: arm_meeting_def Let_def intro!: notification_invI silence_popups_entries)
qed

section \<open>Quieted applications\<close>

lemma quiet_ok_insert:
  "quiet_ok ks \<Longrightarrow> valid_app_key k \<Longrightarrow> k \<in> set ks \<or> length ks < max_quiet_apps
   \<Longrightarrow> quiet_ok (set_insert k ks)"
  by (auto simp: quiet_ok_def set_insert_def insort_insert_key_def list_all_iff set_insort_key
      sorted_insort distinct_insort)

lemma quiet_ok_remove: "quiet_ok ks \<Longrightarrow> quiet_ok (removeAll k ks)"
  using length_filter_le [of "\<lambda>x. k \<noteq> x" ks] sorted_filter [of "\<lambda>x. x" ks "\<lambda>x. k \<noteq> x"]
  by (auto simp: quiet_ok_def list_all_iff removeAll_filter_not_eq simp del: length_filter_le)

lemma restore_quiet_ok: "quiet_ok (restore_quiet vs)"
proof -
  have fold: "sorted (foldl (\<lambda>ks k. set_insert k ks) acc xs) \<and> distinct (foldl (\<lambda>ks k. set_insert k ks) acc xs)
      \<and> length (foldl (\<lambda>ks k. set_insert k ks) acc xs) \<le> length acc + length xs
      \<and> list_all valid_app_key (foldl (\<lambda>ks k. set_insert k ks) acc xs)"
    if "sorted acc" "distinct acc" "list_all valid_app_key acc" "list_all valid_app_key xs" for acc xs
    using that
  proof (induction xs arbitrary: acc)
    case Nil
    then show ?case by simp
  next
    case (Cons x xs)
    have "length (set_insert x acc) \<le> Suc (length acc)"
      by (simp add: set_insert_def insort_insert_key_def)
    moreover have "sorted (set_insert x acc)" "distinct (set_insert x acc)"
      "list_all valid_app_key (set_insert x acc)"
      using Cons.prems by (auto simp: set_insert_def insort_insert_key_def list_all_iff set_insort_key
          sorted_insort distinct_insort)
    ultimately show ?case using Cons.IH [of "set_insert x acc"] Cons.prems(4) by auto
  qed
  let ?xs = "filter valid_app_key (List.map_filter as_str (take max_quiet_apps vs))"
  have "length ?xs \<le> max_quiet_apps"
    by (rule le_trans [OF length_filter_le])
      (simp add: List.map_filter_def, rule le_trans [OF length_filter_le], simp)
  moreover have "list_all valid_app_key ?xs" by (simp add: list_all_iff)
  ultimately show ?thesis
    using fold [of "[]" ?xs] by (simp add: restore_quiet_def quiet_ok_def)
qed

lemma set_app_quiet_inv: "notification_inv h s \<Longrightarrow> notification_inv h (fst (set_app_quiet h args s))"
  by (auto simp: set_app_quiet_def Let_def notification_inv_def hold_ok_def
      intro: quiet_ok_insert quiet_ok_remove)

section \<open>The clock\<close>

lemma foldl_cons_map: "foldl (\<lambda>acc x. f x # acc) acc (rev xs) = map f xs @ acc"
  by (induction xs arbitrary: acc rule: rev_induct) auto

lemma return_record_keeps:
  "is_object (entry r) \<Longrightarrow> rec_id h (return_record h t r) = rec_id h r
     \<and> is_object (entry (return_record h t r))"
  by (simp add: return_record_def Let_def)

lemma tick_record_keeps [simp]: "entry (fst (tick_record p t r)) = entry r"
  by (simp add: tick_record_def Let_def)

lemma entries_ok_return:
  assumes "entries_ok h cur"
  shows "entries_ok h (map (return_record h t) (filter P cur) @ filter (\<lambda>r. \<not> P r) cur)"
proof -
  let ?f = "\<lambda>r. if P r then return_record h t r else r"
  have "entries_ok h (filter P cur @ filter (\<lambda>r. \<not> P r) cur)"
    using assms entries_ok_mset [of "filter P cur @ filter (\<lambda>r. \<not> P r) cur" cur h] by simp
  then have "entries_ok h (map ?f (filter P cur @ filter (\<lambda>r. \<not> P r) cur))"
    by (rule entries_ok_map) (auto simp: return_record_keeps)
  moreover have "map ?f (filter P cur) = map (return_record h t) (filter P cur)"
    "map ?f (filter (\<lambda>r. \<not> P r) cur) = filter (\<lambda>r. \<not> P r) cur"
    by (auto intro: map_idI)
  ultimately show ?thesis by simp
qed

lemma history_ok_filter: "history_ok hs \<Longrightarrow> history_ok (filter P hs)"
  by (auto simp: history_ok_def list_all_iff intro: le_trans [OF length_filter_le])

definition clock_state :: "f64 \<Rightarrow> nstate \<Rightarrow> nstate" where
  "clock_state t s =
     fst (expire_manual t (if meeting_hold s \<and> f_le (meeting_end s) t
       then release_meeting (s\<lparr>last_tick := t\<rparr>) else s\<lparr>last_tick := t\<rparr>))"

lemma advance_eq:
  "fst (advance h t s) =
     (let c = clock_state t s; due = is_due c t in
      c\<lparr>current := map (fst \<circ> tick_record (paused c) t)
            (map (return_record h t) (filter due (current s)) @ filter (\<lambda>r. \<not> due r) (current s)),
         history := filter (\<lambda>e. f_less (f_sub t (Fin 86400)) (number h (json_get e ''time'')))
            (history s)\<rparr>)"
  by (simp add: advance_def clock_state_def Let_def foldl_cons_map case_prod_beta release_meeting_def)

lemma clock_state_frame [simp]:
  "current (clock_state t s) = current s" "history (clock_state t s) = history s"
  "quiet_apps (clock_state t s) = quiet_apps s"
  by (simp_all add: clock_state_def release_meeting_def)

lemma clock_state_ok: "hold_ok s \<Longrightarrow> hold_ok (clock_state t s)"
proof -
  assume "hold_ok s"
  then have "hold_ok (s\<lparr>last_tick := t\<rparr>)" by (simp add: hold_ok_def)
  then show ?thesis by (simp add: clock_state_def expire_manual_ok release_meeting_ok)
qed

lemma hold_ok_lists [simp]:
  "hold_ok (s\<lparr>current := c, history := hs\<rparr>) = hold_ok s" "hold_ok (s\<lparr>current := c\<rparr>) = hold_ok s"
  "hold_ok (s\<lparr>history := hs\<rparr>) = hold_ok s" "hold_ok (s\<lparr>paused := p\<rparr>) = hold_ok s"
  "hold_ok (s\<lparr>quiet_apps := q\<rparr>) = hold_ok s" "hold_ok (s\<lparr>restored := m\<rparr>) = hold_ok s"
  "hold_ok (s\<lparr>pr_focus := f\<rparr>) = hold_ok s"
  by (simp_all add: hold_ok_def)

lemma entries_ok_advance:
  "entries_ok h cur \<Longrightarrow> entries_ok h (map (fst \<circ> tick_record p t)
     (map (return_record h t) (filter P cur) @ filter (\<lambda>r. \<not> P r) cur))"
  by (rule entries_ok_map [OF entries_ok_return]) auto

lemma advance_inv: "notification_inv h s \<Longrightarrow> notification_inv h (fst (advance h t s))"
proof -
  assume "notification_inv h s"
  note inv = notification_invD [OF this]
  show ?thesis
    unfolding advance_eq Let_def
    using entries_ok_advance [OF inv(1)] history_ok_filter [OF inv(2)] inv(3) clock_state_ok [OF inv(4)]
    by (intro notification_invI) (simp_all del: map_map list.map_comp map_append)
qed

section \<open>Choices on one notification\<close>

lemma current_update_inv:
  assumes "notification_inv h s" "i < length (current s)"
    "rec_id h r = rec_id h (current s ! i)" "is_object (entry r)"
  shows "notification_inv h (s\<lparr>current := (current s)[i := r]\<rparr>)"
  using assms by (intro notification_invI) (auto dest: notification_invD intro: entries_ok_update)

lemma current_object: "notification_inv h s \<Longrightarrow> i < length (current s) \<Longrightarrow> is_object (entry (current s ! i))"
  using entries_okD(2) [OF notification_invD(1), of h s "current s ! i"] by simp

lemma retire_at_inv:
  "notification_inv h s \<Longrightarrow> i < length (current s) \<Longrightarrow> notification_inv h (fst (retire_at i s))"
  by (auto simp: retire_at_def Let_def current_object intro!: current_update_inv)

lemma pin_at_inv:
  "notification_inv h s \<Longrightarrow> i < length (current s) \<Longrightarrow> notification_inv h (fst (pin_at h i s))"
  by (auto simp: pin_at_def Let_def current_object intro!: current_update_inv)

lemma remind_inv:
  "notification_inv h s \<Longrightarrow> remind h args s = Inr (effs, v, s') \<Longrightarrow> notification_inv h s'"
  by (auto simp: remind_def Let_def current_object find_idD split: sum.splits option.splits if_splits
      intro!: current_update_inv)

lemma release_record_keeps [simp]: "entry (fst (release_record h t s r)) = entry r"
  by (simp add: release_record_def)

lemma set_pr_focus_inv:
  "notification_inv h s \<Longrightarrow> set_pr_focus h args s = Inr (effs, v, s') \<Longrightarrow> notification_inv h s'"
  by (auto simp: set_pr_focus_def Let_def split: sum.splits if_splits dest: notification_invD
      intro!: notification_invI entries_ok_map)

lemma length_retire_at [simp]: "length (current (fst (retire_at i s))) = length (current s)"
  by (simp add: retire_at_def Let_def)

lemma group_loop_inv:
  "notification_inv h s \<Longrightarrow> \<forall>i \<in> set is. i < length (current s)
   \<Longrightarrow> notification_inv h (fst (group_loop h key hide is s))"
proof (induction h key hide "is" s rule: group_loop.induct)
  case (1 h key hide s)
  then show ?case by simp
next
  case (2 h key hide i "is" s)
  obtain s' effs where r: "retire_at i s = (s', effs)" by fastforce
  have s': "notification_inv h s'" "length (current s') = length (current s)"
    using retire_at_inv [of h s i] length_retire_at [of i s] 2(4,5) by (simp_all add: r)
  show ?case
  proof (cases "group_key h (entry (current s ! i)) = key")
    case False
    with 2(1,4,5) show ?thesis by simp
  next
    case same: True
    show ?thesis
    proof (cases hide)
      case True
      with 2(2) [of s' effs] 2(5) s' same show ?thesis by (simp add: r case_prod_beta)
    next
      case False
      with 2(3,4,5) same show ?thesis by (simp add: case_prod_beta)
    qed
  qed
qed

section \<open>Arrivals and departures\<close>

lemma closed_inv: "notification_inv h s \<Longrightarrow> notification_inv h (fst (closed_event h args s))"
proof (cases "find_id h (arg 0 args) s")
  case None
  assume "notification_inv h s"
  with None show ?thesis by (simp add: closed_event_def)
next
  case (Some i)
  assume inv: "notification_inv h s"
  have obj: "is_object (entry (current s ! i))" using current_object [OF inv] find_idD(1) [OF Some] by simp
  have "entries_ok h (remove_at i (current s))"
    by (rule entries_ok_subseq [OF notification_invD(1) [OF inv] subseq_remove_at])
  moreover have "history_ok (take 100 (close_entry (entry (current s ! i)) # history s))"
    using notification_invD(2) [OF inv] obj
    by (auto simp: history_ok_def list_all_iff dest: in_set_takeD)
  ultimately show ?thesis
    using notification_invD [OF inv]
    by (simp add: closed_event_def Some Let_def notification_inv_def)
qed

lemma make_room_inv:
  assumes "make_room h e s = (s', effs)" "weight e \<le> max_entry_bytes" "notification_inv h s"
  shows "notification_inv h s'"
proof -
  note spec = make_room_spec [OF assms(1,2)]
  have "history_ok (history s')"
    using spec(3) notification_invD(2) [OF assms(3)]
    by (auto simp: history_ok_def list_all_iff prefix_def)
  moreover have "entries_ok h (current s')"
    by (rule entries_ok_subseq [OF notification_invD(1) [OF assms(3)] spec(2)])
  ultimately show ?thesis
    using notification_invD(3,4) [OF assms(3)] by (subst spec(1)) (intro notification_invI; simp)
qed

end
