(* ===== verification/Notification_Theorems.thy ===== *)
theory Notification_Theorems
  imports Notification_Invariant
begin

text \<open>
  The properties of the notification policy: the invariant of every reachable state, the
  bounds of eviction, when a notification may raise a toast, and that an automatic silence
  puts the earlier silence back.
\<close>

section \<open>Arrivals\<close>

lemma receive_update_inv:
  assumes inv: "notification_inv h s" and i: "i < length (current s)"
    and same: "js_string h (json_get e ''id'') = rec_id h (current s ! i)" and e: "is_object e"
  shows "notification_inv h (fst (receive_update h e t quiet i s))"
proof -
  let ?rest = "remove_at i (current s)"
  have ok: "entries_ok h (r # ?rest)" "entries_ok h (take i ?rest @ r # drop i ?rest)"
    if "rec_id h r = rec_id h (current s ! i)" "is_object (entry r)" for r
  proof -
    have "entries_ok h ((current s)[i := r])"
      using entries_ok_update [OF notification_invD(1) [OF inv] i] that by simp
    moreover have "mset ((current s)[i := r]) = mset (r # ?rest)"
      using i by (simp add: upd_conv_take_nth_drop remove_at_def)
    moreover have "mset (take i ?rest @ r # drop i ?rest) = mset (r # ?rest)"
      by simp (metis append_take_drop_id mset_append)
    ultimately show "entries_ok h (r # ?rest)" "entries_ok h (take i ?rest @ r # drop i ?rest)"
      using entries_ok_mset by metis+
  qed
  show ?thesis
    using notification_invD(2-4) [OF inv] e same
    by (auto simp: receive_update_def Let_def intro!: notification_invI ok)
qed

lemma entries_ok_supersede:
  "entries_ok h cur \<Longrightarrow> entries_ok h (map (\<lambda>r. if P r then r\<lparr>skip_history := True\<rparr> else r) cur)"
  by (rule entries_ok_map) auto

lemma receive_new_inv:
  assumes inv: "notification_inv h s" and e: "is_object e"
    and new: "js_string h (json_get e ''id'') \<notin> rec_id h ` set (current s)"
    and room: "length (current s) < max_entries"
  shows "notification_inv h (fst (receive_new h e t gen quiet s))"
proof -
  have ok: "entries_ok h (r # cur)"
    if "entries_ok h cur" "rec_id h ` set cur = rec_id h ` set (current s)"
      "length cur = length (current s)" "json_get (entry r) ''id'' = json_get e ''id''"
      "is_object (entry r)" for r cur
    using that new room by (intro entries_ok_Cons) auto
  let ?f = "\<lambda>r. if supersede_tag h e r then r\<lparr>skip_history := True\<rparr> else r"
  have same: "rec_id h ` set (map ?f (current s)) = rec_id h ` set (current s)"
  proof -
    have "map (rec_id h) (map ?f (current s)) = map (rec_id h) (current s)" by simp
    from arg_cong [OF this, of set] show ?thesis by (simp only: set_map)
  qed
  show ?thesis
    using notification_invD [OF inv] e ok [OF entries_ok_supersede same]
      ok [OF _ refl]
    by (auto simp: receive_new_def Let_def split: option.splits intro!: notification_invI)
qed

lemma other_recs_all: "own \<notin> rec_id h ` set cur \<Longrightarrow> other_recs h own cur = cur"
  by (auto simp: filter_id_conv)

lemma fst_inv: "notification_inv h (fst p) \<Longrightarrow> p = (s', q) \<Longrightarrow> notification_inv h s'"
  by simp

text \<open>The ways \<open>receive\<close> succeeds.\<close>

lemma receive_cases:
  assumes "receive h args s = Inr (effs, v, s')"
  obtains (heavy) e where "arg 0 args = Some e" "max_entry_bytes < weight e" "effs = [Dismiss (json_index e ''id'')]" "s' = s"
  | (update) e t s1 ev i us where "arg 0 args = Some e" "is_object e" "weight e \<le> max_entry_bytes"
      "timestamp_of h (arg 1 args) = Inr t" "make_room h e s = (s1, ev)"
      "find_id h (json_get e ''id'') s1 = Some i"
      "receive_update h e t (truthy (arg 3 args)) i s1 = (s', us)" "effs = ev @ us @ [Publish]"
  | (new) e t s1 ev us where "arg 0 args = Some e" "is_object e" "weight e \<le> max_entry_bytes"
      "timestamp_of h (arg 1 args) = Inr t" "make_room h e s = (s1, ev)"
      "find_id h (json_get e ''id'') s1 = None"
      "receive_new h e t (truthy (arg 2 args)) (truthy (arg 3 args)) s1 = (s', us)"
      "effs = ev @ us @ [Publish]"
proof -
  obtain e where e: "arg 0 args = Some e" "is_object e"
    using assms by (auto simp: receive_def split: option.splits if_splits)
  show thesis
  proof (cases "max_entry_bytes < weight e")
    case True
    with e assms heavy show thesis by (simp add: receive_def)
  next
    case False
    obtain t where t: "timestamp_of h (arg 1 args) = Inr t"
      using assms e False by (auto simp: receive_def split: sum.splits)
    obtain s1 ev where room: "make_room h e s = (s1, ev)" by fastforce
    show thesis
    proof (cases "find_id h (json_get e ''id'') s1")
      case (Some i)
      obtain s2 us where "receive_update h e t (truthy (arg 3 args)) i s1 = (s2, us)" by fastforce
      with update [OF e _ t room Some] assms e False t room Some show thesis
        by (simp add: receive_def Let_def not_less)
    next
      case None
      obtain s2 us where "receive_new h e t (truthy (arg 2 args)) (truthy (arg 3 args)) s1 = (s2, us)"
        by fastforce
      with new [OF e _ t room None] assms e False t room None show thesis
        by (simp add: receive_def Let_def not_less)
    qed
  qed
qed

lemma receive_inv:
  assumes inv: "notification_inv h s" and r: "receive h args s = Inr (effs, v, s')"
  shows "notification_inv h s'"
  using r
proof (cases rule: receive_cases)
  case heavy
  with inv show ?thesis by simp
next
  case (update e t s1 ev i us)
  from find_idD(1) [OF update(6)] have "i < length (current s1)"
    "js_string h (json_get e ''id'') = rec_id h (current s1 ! i)" by auto
  from receive_update_inv [OF make_room_inv [OF update(5,3) inv] this update(2)] update(7)
  show ?thesis by (rule fst_inv)
next
  case (new e t s1 ev us)
  have "length (current s1) < max_entries"
    using make_room_spec(5) [OF new(5,3)] find_idD(2) [OF new(6)] by (simp add: other_recs_all)
  from receive_new_inv [OF make_room_inv [OF new(5,3) inv] new(2) find_idD(2) [OF new(6)] this] new(7)
  show ?thesis by (rule fst_inv)
qed

section \<open>Restoring\<close>

lemma restore_history_spec:
  "list_all is_object (restore_history b es) \<and> length (restore_history b es) \<le> length es"
  by (induction b es rule: restore_history.induct) (auto simp: Let_def)

lemma restore_frame [simp]:
  "current (restore_silence h v s) = current s" "history (restore_silence h v s) = history s"
  "quiet_apps (restore_silence h v s) = quiet_apps s"
  "current (restore_saved h v s) = current s" "history (restore_saved h v s) = history s"
  "quiet_apps (restore_saved h v s) = quiet_apps s"
  "current (restore_meeting h v s) = current s" "history (restore_meeting h v s) = history s"
  "quiet_apps (restore_meeting h v s) = quiet_apps s"
  "current (restore_holds s) = current s" "history (restore_holds s) = history s"
  "quiet_apps (restore_holds s) = quiet_apps s"
  by (simp_all add: restore_silence_def restore_saved_def restore_meeting_def restore_holds_def Let_def)

definition off_clear :: "nstate \<Rightarrow> bool" where
  "off_clear s \<longleftrightarrow> (\<not> dnd s \<longrightarrow> dnd_until s = Fin 0 \<and> dnd_minutes s = Fin 0)"

lemma restore_silence_off: "off_clear (restore_silence h v s)"
  by (auto simp: off_clear_def restore_silence_def Let_def split: option.splits)

lemma restore_saved_off: "off_clear s \<Longrightarrow> off_clear (restore_saved h v s)"
  "focus_hold (restore_saved h v s) \<longrightarrow> focus_sync (restore_saved h v s)"
  by (simp_all add: off_clear_def restore_saved_def Let_def)

lemma restore_meeting_off:
  "off_clear s \<Longrightarrow> off_clear (restore_meeting h v s)"
  "focus_hold (restore_meeting h v s) = focus_hold s" "focus_sync (restore_meeting h v s) = focus_sync s"
  "meeting_hold (restore_meeting h v s) \<longrightarrow> meeting_key (restore_meeting h v s) \<noteq> []
     \<and> length (meeting_key (restore_meeting h v s)) \<le> 512 \<and> f_finite (meeting_end (restore_meeting h v s))"
  by (simp_all add: off_clear_def restore_meeting_def Let_def)

lemma restore_holds_ok:
  assumes "off_clear s" "focus_hold s \<longrightarrow> focus_sync s"
    "meeting_hold s \<longrightarrow> meeting_key s \<noteq> [] \<and> length (meeting_key s) \<le> 512 \<and> f_finite (meeting_end s)"
  shows "hold_ok (restore_holds s)"
proof (cases "meeting_hold s \<or> focus_hold s")
  case True
  with assms have "hold_pre (s\<lparr>holding := True\<rparr>)" by (auto simp: hold_pre_def)
  from present_hold_ok [OF this] True show ?thesis by (simp add: restore_holds_def)
next
  case False
  then have "hold_pre s" by (simp add: hold_pre_def)
  from expire_manual_ok [OF finish_hold_ok [OF this]] False assms(1) show ?thesis
    by (auto simp: restore_holds_def hold_ok_def off_clear_def)
qed

lemma restore_inv: "notification_inv h s \<Longrightarrow> notification_inv h (fst (restore_event h v s))"
proof (cases "is_truthy v")
  case False
  assume "notification_inv h s"
  with False show ?thesis by (simp add: restore_event_def)
next
  case True
  assume inv: "notification_inv h s"
  let ?hist = "restore_history (sum_list (map (weight \<circ> entry) (current s)))
    (take 100 (js_array (json_get v ''history'')))"
  have "history_ok ?hist"
    using restore_history_spec [of _ "take 100 (js_array (json_get v ''history''))"]
    by (auto simp: history_ok_def intro: le_trans)
  moreover have "hold_ok (restore_holds (restore_meeting h v (restore_saved h v (restore_silence h v x))))" for x
    by (rule restore_holds_ok, intro restore_meeting_off(1) restore_saved_off(1) restore_silence_off)
      (simp_all add: restore_meeting_off(2,3) restore_saved_off(2) restore_meeting_off(4))
  ultimately show ?thesis
    using notification_invD(1) [OF inv] True
    by (simp add: restore_event_def Let_def notification_inv_def restore_quiet_ok)
qed

section \<open>Every event\<close>

lemma on_found_inv:
  assumes "notification_inv h s" "on_found h args f s = Inr (effs, v, s')"
    "\<And>i. i < length (current s) \<Longrightarrow> notification_inv h (fst (f i))"
  shows "notification_inv h s'"
  using assms by (auto simp: on_found_def split: option.splits prod.splits dest!: find_idD(1)) force

lemma plainD: "plain p = Inr (effs, v, s') \<Longrightarrow> p = (s', effs)"
  by (simp add: plain_def split: prod.splits)

lemma answeredD: "answered p = Inr (effs, v, s') \<Longrightarrow> p = (s', v, effs)"
  by (simp add: answered_def split: prod.splits)

lemma if_InrE: "(if b then x else y) = Inr r \<Longrightarrow> (x = Inr r \<Longrightarrow> P) \<Longrightarrow> (y = Inr r \<Longrightarrow> P) \<Longrightarrow> P"
  by (simp split: if_splits)

lemma paused_inv: "notification_inv h s \<Longrightarrow> notification_inv h (s\<lparr>paused := b\<rparr>)"
  by (simp add: notification_inv_def)

lemma transition_inv:
  assumes inv: "notification_inv h s" and t: "transition h ev args s = Inr (effs, v, s')"
  shows "notification_inv h s'"
proof -
  have resumed: "notification_inv h (s\<lparr>quiet_apps := []\<rparr>)"
    using inv by (simp add: notification_inv_def quiet_ok_def)
  have cleared: "notification_inv h (fst (clear_event args s))"
    using inv by (simp add: clear_event_def notification_inv_def history_ok_def)
  have grouped: "notification_inv h (fst (group_event h args s))"
    unfolding group_event_def by (rule group_loop_inv [OF inv]) simp
  note silence = fst_inv [OF set_dnd_inv [OF inv] plainD] fst_inv [OF snooze_inv [OF inv] answeredD]
    fst_inv [OF set_focus_sync_inv [OF inv] answeredD] fst_inv [OF arm_meeting_inv [OF inv] answeredD]
  note entries = fst_inv [OF restore_inv [OF inv] plainD] receive_inv [OF inv]
    fst_inv [OF closed_inv [OF inv] plainD] remind_inv [OF inv] set_pr_focus_inv [OF inv]
    fst_inv [OF set_app_quiet_inv [OF inv] answeredD] fst_inv [OF cleared plainD]
    fst_inv [OF grouped plainD]
  have advanced: "(case timestamp_of h x of Inl err \<Rightarrow> Inl err | Inr t \<Rightarrow> plain (advance h t s))
      = Inr (effs, v, s') \<Longrightarrow> notification_inv h s'" for x
    by (auto split: sum.splits dest: fst_inv [OF advance_inv [OF inv] plainD])
  have waited: "(case timestamp_of h x of Inl err \<Rightarrow> Inl err | Inr t \<Rightarrow> (case advance h t s of (s, effs) \<Rightarrow>
      Inr (effs, JNull, s\<lparr>paused := b\<rparr>))) = Inr (effs, v, s') \<Longrightarrow> notification_inv h s'" for x b
    by (cases "timestamp_of h x") (auto simp: case_prod_beta intro: paused_inv advance_inv [OF inv])
  have focused: "(case set_focus h args s of (s, effs) \<Rightarrow> Inr (effs, JBool True, s)) = Inr (effs, v, s')
      \<Longrightarrow> notification_inv h s'"
    using set_focus_inv [OF inv, of args] by (simp split: prod.splits)
  have named: "on_found h args (\<lambda>i. retire_at i s) s = Inr (effs, v, s') \<Longrightarrow> notification_inv h s'"
    "on_found h args (\<lambda>i. pin_at h i s) s = Inr (effs, v, s') \<Longrightarrow> notification_inv h s'"
    "on_found h args (\<lambda>i. (s, g i)) s = Inr (effs, v, s') \<Longrightarrow> notification_inv h s'" for g
    using on_found_inv [OF inv] retire_at_inv [OF inv] pin_at_inv [OF inv] inv by fastforce+
  from t show ?thesis
    unfolding transition_def
    by - (elim if_InrE; (erule silence entries advanced waited focused named; fail)?; use resumed in simp)
qed

section \<open>The reachable states\<close>

definition notify :: "host \<Rightarrow> nstate \<Rightarrow> string \<times> json list \<Rightarrow> nstate" where
  "notify h s e = (case e of (event, args) \<Rightarrow>
     (case transition h event args s of Inr (effs, v, s') \<Rightarrow> s' | Inl err \<Rightarrow> s))"

interpretation notifications: event_machine "notify h" "notification_inv h" for h
  by unfold_locales (auto simp: notify_def transition_inv split: prod.splits sum.splits)

lemma new_state_inv: "new_state now = Some s \<Longrightarrow> notification_inv h s"
  by (auto simp: new_state_def notification_inv_def entries_ok_def history_ok_def quiet_ok_def
      hold_ok_def split: if_splits)

text \<open>C8: In every state the notification policy can reach, whatever events arrive in
  whatever order: no identity is retained twice, at most 4096 notifications and 100 history
  entries are kept and all are objects, the quieted applications are a sorted set of at most
  256 valid stable keys, and silence is held exactly while a meeting or the focus timer holds
  it (the meeting's deadline winning the readout), with no deadline left when it is off.\<close>

theorem notification_invariant:
  assumes "new_state now = Some s"
  shows "notification_inv h (foldl (notify h) s events)"
  by (rule notifications.run_inv [OF new_state_inv [OF assms]])

text \<open>A session: a notification, a meeting hold, and its application quieted.\<close>

definition demo_entry :: json where
  "demo_entry = JObj [(''app_name'', JStr ''Mail''), (''id'', JNum ''7''), (''summary'', JStr ''Hi'')]"

definition demo_events :: "(string \<times> json list) list" where
  "demo_events =
     [(''receive'', [demo_entry, JNum ''10'']),
      (''armMeeting'', [JStr ''standup'', JNum ''900'', JNum ''20'']),
      (''setAppQuiet'', [JStr ''app:mail'', JBool True])]"

definition demo_start :: nstate where
  "demo_start = (case new_state (Fin 5) of Some s \<Rightarrow> s | None \<Rightarrow> undefined)"

lemma demo_start_eq: "new_state (Fin 5) = Some demo_start"
  by (simp add: demo_start_def new_state_def)

lemma demo_runs:
  "map (rec_id demo_host) (current (foldl (notify demo_host) demo_start demo_events)) = [''7'']
   \<and> quiet_apps (foldl (notify demo_host) demo_start demo_events) = [''app:mail'']"
  by code_simp

theorem notification_invariant_witness:
  "notification_inv demo_host (foldl (notify demo_host) demo_start demo_events)
   \<and> quiet_apps (foldl (notify demo_host) demo_start demo_events) = [''app:mail'']"
  using notification_invariant [OF demo_start_eq, of demo_host demo_events] demo_runs by simp

section \<open>Eviction\<close>

text \<open>Making room for an admitted entry always succeeds within the bounds: what stays of
  the inbox and the history together with the new entry weighs at most 4 MiB, there is a slot
  for it below 4096, the oldest history and the oldest other notifications go first, a
  notification that is being replaced is never evicted, and every eviction is reported to the
  host as a dismissal.\<close>

theorem make_room_bounds:
  assumes "make_room h e s = (s', effs)" "weight e \<le> max_entry_bytes"
  shows "sum_list (map (weight \<circ> entry) (other_recs h (js_string h (json_get e ''id'')) (current s')))
      + sum_list (map weight (history s')) + weight e \<le> max_retained_bytes
    \<and> length (other_recs h (js_string h (json_get e ''id'')) (current s')) < max_entries
    \<and> subseq (current s') (current s) \<and> prefix (history s') (history s)
    \<and> filter (\<lambda>r. rec_id h r = js_string h (json_get e ''id'')) (current s')
        = filter (\<lambda>r. rec_id h r = js_string h (json_get e ''id'')) (current s)
    \<and> (\<forall>x. x \<in> set effs \<longrightarrow> (\<exists>v. x = Dismiss v))"
  using make_room_spec [OF assms] by blast

theorem make_room_bounds_witness:
  "weight demo_entry \<le> max_entry_bytes
   \<and> length (other_recs demo_host ''7'' (current (fst (make_room demo_host demo_entry demo_start))))
       < max_entries"
proof -
  have w: "weight demo_entry \<le> max_entry_bytes" by code_simp
  have "js_string demo_host (json_get demo_entry ''id'') = ''7''" by code_simp
  with make_room_bounds [OF prod.collapse [symmetric] w, of demo_host demo_start] w
  show ?thesis by simp
qed

section \<open>Toasts\<close>

definition silent_effs :: "effect list \<Rightarrow> bool" where
  "silent_effs effs \<longleftrightarrow> (\<forall>e f. Arrived e f \<notin> set effs)"

lemma silent_simps [simp]:
  "silent_effs []" "silent_effs (Publish # effs) = silent_effs effs"
  "silent_effs (Dismiss v # effs) = silent_effs effs" "\<not> silent_effs (Arrived e f # effs)"
  "silent_effs (xs @ ys) \<longleftrightarrow> silent_effs xs \<and> silent_effs ys"
  "silent_effs (map (\<lambda>r. Dismiss (g r)) rs)"
  by (auto simp: silent_effs_def)

lemma silent_ticks: "silent_effs (concat (map (snd \<circ> snd) (map (tick_record p t) rs)))"
  by (auto simp: silent_effs_def tick_record_def Let_def split: if_splits)

lemma advance_arrivals: "\<not> silent_effs (snd (advance h t s)) \<Longrightarrow> \<not> dnd (fst (advance h t s))"
proof -
  assume loud: "\<not> silent_effs (snd (advance h t s))"
  let ?c = "clock_state t s"
  have "filter (is_due ?c t) (current s) \<noteq> []"
  proof
    assume "filter (is_due ?c t) (current s) = []"
    with loud show False
      by (simp add: advance_def clock_state_def Let_def case_prod_beta release_meeting_def
          silent_ticks del: map_map list.map_comp split: if_splits)
  qed
  then have "\<not> dnd ?c" by (auto simp: filter_empty_conv is_due_def)
  then show ?thesis by (simp add: advance_eq Let_def)
qed

lemma make_room_dnd: "make_room h e s = (s', effs) \<Longrightarrow> dnd s' = dnd s"
  by (auto simp: make_room_def Let_def split: prod.splits)

lemma make_room_silent:
  "make_room h e s = (s', effs) \<Longrightarrow> weight e \<le> max_entry_bytes \<Longrightarrow> silent_effs effs"
  using make_room_spec(7) [of h e s s' effs] by (fastforce simp: silent_effs_def)

lemma receive_update_arrivals:
  "\<not> silent_effs (snd (receive_update h e t q i s)) \<Longrightarrow> \<not> dnd (fst (receive_update h e t q i s))"
  by (auto simp: receive_update_def Let_def split: if_splits)

lemma receive_new_arrivals:
  "\<not> silent_effs (snd (receive_new h e t g q s)) \<Longrightarrow> \<not> dnd (fst (receive_new h e t g q s))"
  by (auto simp: receive_new_def Let_def split: if_splits)

lemma receive_arrivals:
  assumes "receive h args s = Inr (effs, v, s')" "\<not> silent_effs effs"
  shows "\<not> dnd s'"
  using assms(1)
proof (cases rule: receive_cases)
  case heavy
  with assms(2) show ?thesis by simp
next
  case (update e t s1 ev i us)
  with assms(2) make_room_silent have "\<not> silent_effs us" by auto
  with receive_update_arrivals [of h e t "truthy (arg 3 args)" i s1] update(7) show ?thesis by simp
next
  case (new e t s1 ev us)
  with assms(2) make_room_silent have "\<not> silent_effs us" by auto
  with receive_new_arrivals [of h e t "truthy (arg 2 args)" "truthy (arg 3 args)" s1] new(7)
  show ?thesis by simp
qed

lemma set_pr_focus_arrivals:
  assumes "set_pr_focus h args s = Inr (effs, v, s')" "\<not> silent_effs effs"
  shows "\<not> dnd s'"
proof (rule ccontr)
  assume "\<not> \<not> dnd s'"
  then have "dnd s" using assms(1)
    by (auto simp: set_pr_focus_def Let_def split: sum.splits if_splits)
  then have "silent_effs (concat (map snd (map (release_record h t s) rs)))" for t rs
    by (auto simp: silent_effs_def release_record_def)
  with assms show False
    by (auto simp: set_pr_focus_def Let_def simp del: map_map list.map_comp split: sum.splits if_splits)
qed

lemma group_loop_silent: "silent_effs (snd (group_loop h key hide is s))"
  by (induction h key hide "is" s rule: group_loop.induct)
    (auto simp: retire_at_def Let_def split: prod.splits)

lemma silent_events:
  "silent_effs (snd (restore_event h x s))" "silent_effs (snd (closed_event h args s))"
  "silent_effs (snd (set_dnd args s))" "silent_effs (snd (clear_event args s))"
  "silent_effs (snd (group_event h args s))" "silent_effs (snd (snd (set_app_quiet h args s)))"
  "silent_effs (snd (snd (snooze h args s)))" "silent_effs (snd (snd (set_focus_sync args s)))"
  "silent_effs (snd (snd (arm_meeting h args s)))"
  subgoal by (simp add: restore_event_def Let_def)
  subgoal by (simp add: closed_event_def Let_def split: option.split)
  subgoal by (simp add: set_dnd_def Let_def)
  subgoal by (simp add: clear_event_def)
  subgoal by (simp add: group_event_def group_loop_silent)
  subgoal by (simp add: set_app_quiet_def Let_def)
  subgoal by (simp add: snooze_def Let_def)
  subgoal by (simp add: set_focus_sync_def Let_def)
  subgoal by (simp add: arm_meeting_def Let_def)
  done

text \<open>C9: Silence is kept. Whatever the event - an arrival, a due reminder, a pin, the end of
  a focus session - the host is told to show a toast only if silence is off when the event is
  over.\<close>

theorem silence_respected:
  assumes "transition h ev args s = Inr (effs, v, s')" "Arrived e f \<in> set effs"
  shows "\<not> dnd s'"
proof -
  have loud: "\<not> silent_effs effs" using assms(2) by (auto simp: silent_effs_def)
  have plain: "plain p = Inr (effs, v, s') \<Longrightarrow> silent_effs (snd p) \<Longrightarrow> \<not> dnd s'" for p
    using loud by (auto dest!: plainD)
  have answer: "answered p = Inr (effs, v, s') \<Longrightarrow> silent_effs (snd (snd p)) \<Longrightarrow> \<not> dnd s'" for p
    using loud by (auto dest!: answeredD)
  have named: "on_found h args (\<lambda>i. retire_at i s) s = Inr (effs, v, s') \<Longrightarrow> \<not> dnd s'"
    "on_found h args (\<lambda>i. (s, [Dismiss (g i)])) s = Inr (effs, v, s') \<Longrightarrow> \<not> dnd s'"
    "on_found h args (\<lambda>i. pin_at h i s) s = Inr (effs, v, s') \<Longrightarrow> \<not> dnd s'" for g
    using loud by (auto simp: on_found_def retire_at_def pin_at_def Let_def split: option.splits if_splits)
  have adv: "advance h t s = (s1, effs) \<Longrightarrow> \<not> dnd s1" for t s1
    using advance_arrivals [of h t s] loud by simp
  have advanced: "(case timestamp_of h x of Inl err \<Rightarrow> Inl err | Inr t \<Rightarrow> plain (advance h t s))
      = Inr (effs, v, s') \<Longrightarrow> \<not> dnd s'"
    "(case timestamp_of h x of Inl err \<Rightarrow> Inl err | Inr t \<Rightarrow> (case advance h t s of (s, effs) \<Rightarrow>
      Inr (effs, JNull, s\<lparr>paused := b\<rparr>))) = Inr (effs, v, s') \<Longrightarrow> \<not> dnd s'" for x b
    by (cases "timestamp_of h x"; auto split: prod.splits dest!: plainD adv)+
  have focused: "(case set_focus h args s of (s, effs) \<Rightarrow> Inr (effs, JBool True, s)) = Inr (effs, v, s')
      \<Longrightarrow> \<not> dnd s'"
    using loud by (auto simp: set_focus_def Let_def split: if_splits)
  have reminded: "remind h args s = Inr (effs, v, s') \<Longrightarrow> \<not> dnd s'"
    using loud by (auto simp: remind_def Let_def split: sum.splits option.splits if_splits)
  have resumed: "Inr ([Publish], JNull, t) = (Inr (effs, v, s') :: string + _) \<Longrightarrow> \<not> dnd s'" for t
    using loud by auto
  note arrivals = receive_arrivals [OF _ loud] set_pr_focus_arrivals [OF _ loud]
  from assms(1) show ?thesis
    unfolding transition_def
    by - (elim if_InrE; (erule arrivals named advanced focused reminded resumed; fail
        | erule plain answer, rule silent_events; fail)?; simp)
qed

end
