(* ===== verification/Notification_Policy.thy ===== *)
theory Notification_Policy
  imports Notification_Theorems
begin

text \<open>
  What the notification policy does for the user: when an arrival becomes a toast, that the
  focus timer gives silence back, and that reminders return.
\<close>

definition demo_receive :: "string + (effect list \<times> json \<times> nstate)" where
  "demo_receive = transition demo_host ''receive'' [demo_entry, JNum ''10''] demo_start"

lemma demo_receive_effs:
  "case demo_receive of Inr (effs, v, s') \<Rightarrow> effs = [Arrived demo_entry True, Publish] | Inl err \<Rightarrow> False"
  by code_simp

theorem silence_respected_witness:
  "\<exists>effs v s'. transition demo_host ''receive'' [demo_entry, JNum ''10''] demo_start = Inr (effs, v, s')
     \<and> Arrived demo_entry True \<in> set effs \<and> \<not> dnd s'"
proof -
  obtain effs v s' where r: "demo_receive = Inr (effs, v, s')" "Arrived demo_entry True \<in> set effs"
    using demo_receive_effs by (auto split: sum.splits)
  from silence_respected [OF r(1) [unfolded demo_receive_def] r(2)] r show ?thesis
    by (auto simp: demo_receive_def)
qed

lemma transition_receive: "transition h ''receive'' args s = receive h args s"
  by (simp add: transition_def)

lemma receive_new_head:
  assumes "receive_new h e t False q s = (s', us)"
  shows "\<exists>r rs. current s' = r # rs \<and> entry r = e \<and> deferred r = hold_for_focus h s e False
    \<and> popup r = (\<not> hold_for_focus h s e False \<and> \<not> dnd s \<and> \<not> q \<and> group_key h e \<notin> set (quiet_apps s))
    \<and> silent_effs us = (\<not> popup r)"
proof -
  let ?p = "\<not> hold_for_focus h s e False \<and> \<not> dnd s \<and> \<not> q \<and> group_key h e \<notin> set (quiet_apps s)"
  have hold: "hold_for_focus h (s\<lparr>current := c, restored := m\<rparr>) e False = hold_for_focus h s e False"
    "hold_for_focus h (s\<lparr>current := c\<rparr>) e False = hold_for_focus h s e False" for c m
    by (simp_all add: hold_for_focus_def)
  have "snd (receive_new h e t False q s) = (if truthy (json_get e ''tag'')
      then map (\<lambda>r. Dismiss (json_index (entry r) ''id'')) (filter (supersede_tag h e) (current s))
      else []) @ (if ?p then [Arrived e True] else [])"
    by (cases "truthy (json_get e ''tag'')")
      (simp_all add: receive_new_def Let_def hold cong: if_cong split del: if_split)
  then have "silent_effs us = (\<not> ?p)" using assms by simp
  moreover have "\<exists>rs. current s' = \<lparr>entry = e, remaining = popup_duration h e, clock = t, popup = ?p,
      deferred = hold_for_focus h s e False, skip_history = False\<rparr> # rs"
    using assms by (cases "truthy (json_get e ''tag'')") (auto simp: receive_new_def Let_def hold)
  ultimately show ?thesis by force
qed

text \<open>When an arrival becomes a toast. A notification that is not in the inbox yet goes
  to its front, unchanged; the host shows a toast for it exactly if silence is off, the caller
  did not suppress it, its application is not quieted, and it mentions the user or no pull
  request is in focus. Only one held back by that focus is kept for later.\<close>

theorem toast_exact:
  assumes "transition h ''receive'' args s = Inr (effs, v, s')" "arg 0 args = Some e"
    "weight e \<le> max_entry_bytes"
    "js_string h (json_get e ''id'') \<notin> rec_id h ` set (current s)" "\<not> truthy (arg 2 args)"
  shows "\<exists>r rs. current s' = r # rs \<and> entry r = e
    \<and> deferred r = (pr_focus s \<and> \<not> mentions h e)
    \<and> popup r = (\<not> dnd s \<and> \<not> truthy (arg 3 args) \<and> group_key h e \<notin> set (quiet_apps s)
         \<and> (pr_focus s \<longrightarrow> mentions h e))
    \<and> ((\<exists>x f. Arrived x f \<in> set effs) \<longleftrightarrow> popup r)"
  using assms(1) [unfolded transition_receive]
proof (cases rule: receive_cases)
  case (heavy x)
  with assms(2,3) show ?thesis by simp
next
  case (update x t s1 ev i us)
  then have "rec_id h (current s1 ! i) \<in> rec_id h ` set (current s1)"
    using find_idD(1) by fastforce
  moreover have "set (current s1) \<subseteq> set (current s)"
    using make_room_spec(2) [OF update(5,3)] by (metis set_nths_subset subseq_conv_nths)
  ultimately show ?thesis using assms(2,4) update(1) find_idD(1) [OF update(6)] by auto
next
  case (new x t s1 ev us)
  have x: "x = e" using new(1) assms(2) by simp
  have same: "dnd s1 = dnd s" "quiet_apps s1 = quiet_apps s" "pr_focus s1 = pr_focus s"
    by (subst make_room_spec(1) [OF new(5,3)], simp)+
  obtain r rs where r: "current s' = r # rs" "entry r = e" "deferred r = hold_for_focus h s1 e False"
    "popup r = (\<not> hold_for_focus h s1 e False \<and> \<not> dnd s1 \<and> \<not> truthy (arg 3 args)
       \<and> group_key h e \<notin> set (quiet_apps s1))" "silent_effs us = (\<not> popup r)"
    using receive_new_head [of h e t "truthy (arg 3 args)" s1 s' us] new(7) assms(5) unfolding x by auto
  have "silent_effs ev" by (rule make_room_silent [OF new(5,3)])
  with new(8) r(5) have "(\<exists>x f. Arrived x f \<in> set effs) = popup r"
    by (auto simp: silent_effs_def)
  with r(1-4) show ?thesis
    by (simp add: same hold_for_focus_def) blast
qed

theorem toast_exact_witness:
  "\<exists>effs v s' r rs. transition demo_host ''receive'' [demo_entry, JNum ''10''] demo_start = Inr (effs, v, s')
     \<and> current s' = r # rs \<and> popup r \<and> entry r = demo_entry"
proof -
  obtain effs v s' where r: "transition demo_host ''receive'' [demo_entry, JNum ''10''] demo_start
      = Inr (effs, v, s')" "Arrived demo_entry True \<in> set effs"
    using demo_receive_effs by (auto simp: demo_receive_def split: sum.splits)
  have "arg 0 [demo_entry, JNum ''10''] = Some demo_entry" "weight demo_entry \<le> max_entry_bytes"
    "js_string demo_host (json_get demo_entry ''id'') \<notin> rec_id demo_host ` set (current demo_start)"
    "\<not> truthy (arg 2 [demo_entry, JNum ''10''])"
    by code_simp+
  from toast_exact [OF r(1) this] r show ?thesis by auto
qed

section \<open>Automatic silence\<close>

lemma transition_sync: "transition h ''setFocusSync'' args s = answered (set_focus_sync args s)"
  by (simp add: transition_def)

text \<open>The focus timer gives silence back. While the timer runs and nothing else holds
  silence, switching focus sync on silences everything with no deadline and for the reason
  \<open>focus\<close>, and switching it off restores the switch and the deadline the user had before -
  or leaves silence off when that deadline has passed in between.\<close>

theorem focus_restores_silence:
  assumes inv: "notification_inv h s" and "\<not> holding s" "focus_active s" "s' = notify h s (''setFocusSync'', [JBool True])"
    "s'' = notify h s' (''setFocusSync'', [JBool False])"
  shows "dnd s' \<and> dnd_until s' = Fin 0 \<and> dnd_reason s' = ''focus'' \<and> (\<forall>r. r \<in> set (current s') \<longrightarrow> \<not> popup r)
    \<and> \<not> holding s'' \<and> \<not> focus_sync s''
    \<and> (dnd s'', dnd_until s'') =
        (if f_le (dnd_until s) (Fin 0) \<or> f_less (last_tick s) (dnd_until s)
         then (dnd s, dnd_until s) else (False, Fin 0))"
proof -
  have off: "\<not> meeting_hold s" "\<not> focus_hold s" "\<not> dnd s \<longrightarrow> dnd_until s = Fin 0"
    using notification_invD(4) [OF inv] assms(2) by (auto simp: hold_ok_def)
  have arg: "truthy (arg 0 [JBool True])" "\<not> truthy (arg 0 [JBool False])"
    by (simp_all add: arg_def truthy_def is_truthy_def)
  have s': "s' = enter_focus (s\<lparr>focus_sync := True\<rparr>)"
    using assms(3,4) off arg
    by (simp add: notify_def transition_sync answered_def set_focus_sync_def Let_def)
  have on: "focus_hold s'" "\<not> meeting_hold s'" "saved_dnd s' = dnd s" "saved_until s' = dnd_until s"
    "last_tick s' = last_tick s" "dnd s'" "dnd_until s' = Fin 0" "dnd_reason s' = ''focus''"
    "\<forall>r. r \<in> set (current s') \<longrightarrow> \<not> popup r"
    using off assms(2) by (auto simp: s' enter_focus_def hold_defs)
  have "s'' = leave_focus (s'\<lparr>focus_sync := False\<rparr>)"
    using assms(5) on(1) arg by (simp add: notify_def transition_sync answered_def set_focus_sync_def Let_def)
  with on off show ?thesis
    by (auto simp: leave_focus_def finish_hold_def expire_manual_def Let_def)
qed

definition demo_timer :: nstate where
  "demo_timer = demo_start\<lparr>focus_active := True\<rparr>"

theorem focus_restores_silence_witness:
  "dnd (notify demo_host demo_timer (''setFocusSync'', [JBool True]))
   \<and> \<not> dnd (notify demo_host (notify demo_host demo_timer (''setFocusSync'', [JBool True]))
        (''setFocusSync'', [JBool False]))"
proof -
  have inv: "notification_inv demo_host demo_timer"
    using new_state_inv [OF demo_start_eq, of demo_host]
    by (simp add: demo_timer_def notification_inv_def hold_ok_def)
  have "\<not> holding demo_timer" "focus_active demo_timer" "\<not> dnd demo_timer"
    by (simp_all add: demo_timer_def demo_start_def new_state_def)
  with focus_restores_silence [OF inv this(1,2) refl refl] show ?thesis
    by (auto split: if_splits)
qed

section \<open>Reminders\<close>

lemma advance_due:
  assumes "\<not> dnd (clock_state t s)" "r \<in> set (current s)" "reminder_at (entry r) = Some d" "f_le d t"
  shows "Arrived (entry (return_record h t r)) False \<in> set (snd (advance h t s))"
proof -
  let ?c = "clock_state t s"
  obtain x where ex: "expire_manual t (if meeting_hold s \<and> f_le (meeting_end s) t
       then release_meeting (s\<lparr>last_tick := t\<rparr>) else s\<lparr>last_tick := t\<rparr>) = (?c, x)"
    by (simp add: clock_state_def) (metis prod.collapse)
  have "r \<in> set (filter (is_due ?c t) (current s))" using assms by (simp add: is_due_def)
  then show ?thesis
    by (simp add: advance_def Let_def ex foldl_cons_map)
qed


definition demo_received :: nstate where
  "demo_received = notify demo_host demo_start (''receive'', [demo_entry, JNum ''10''])"

definition demo_remind :: "string + (effect list \<times> json \<times> nstate)" where
  "demo_remind = remind demo_host [JNum ''7'', JNum ''50'', JNum ''20''] demo_received"

lemma demo_remind_ok:
  "case demo_remind of Inr (effs, v, s') \<Rightarrow> v = JBool True \<and> \<not> dnd (clock_state (Fin 60) s') | Inl err \<Rightarrow> False"
  by code_simp


end
