(* ===== verification/Analysis_Retry.thy ===== *)
theory Analysis_Retry
  imports Broker_Invariant Broker_Theorems Maintenance_Theorems
begin

text \<open>
  The maintenance service as a client of the broker. The broker remembers for each item the
  newest revision it accepted (its watermark); the lemmas show that no step forgets it while
  the broker accepts calls. \<open>analysis_request\<close> submits the row's revision, so the explicit
  retry of an analysis meets its own watermark.
\<close>

section \<open>Watermarks only grow\<close>

definition remembers :: "string \<times> string \<Rightarrow> nat \<Rightarrow> bstate \<Rightarrow> bool" where
  "remembers key n st \<longleftrightarrow> b_closed st \<or> (\<exists>w. map_of (b_revisions st) key = Some w \<and> n \<le> w)"

abbreviation same_marks :: "bstate \<Rightarrow> bstate \<Rightarrow> bool" where
  "same_marks st st' \<equiv> b_revisions st' = b_revisions st \<and> b_closed st' = b_closed st"

lemma remembers_same: "same_marks st st' \<Longrightarrow> remembers key n st \<Longrightarrow> remembers key n st'"
  by (simp add: remembers_def)

lemma marks_update_job [simp]: "same_marks st (update_job i f st)"
  by (simp add: update_job_def)

lemma marks_finish [simp]: "same_marks st (finish i ph e t st)"
  by (simp add: finish_def split: option.split)

lemma marks_requeue: "same_marks st (fold requeue ks st)"
  by (induction ks arbitrary: st) (simp_all add: requeue_def Let_def)

lemma marks_settle [simp]: "same_marks st (settle cfg i r t inst st)"
  by (simp add: settle_def Let_def split: sum.split option.split)

lemma marks_work_finish: "same_marks st (work_finish cfg i oc t inst st)"
  by (simp add: work_finish_def Let_def split: sum.split option.split)

lemma marks_work_pick: "work_pick t inst st = (st', p) \<Longrightarrow> same_marks st st'"
  using marks_requeue [where st = st and ks = "due inst st"]
  by (auto simp: work_pick_def requeue_due_def Let_def split: if_splits list.splits)

lemma marks_work_select: "work_select i c sel t st = Inr st' \<Longrightarrow> same_marks st st'"
  by (auto simp: work_select_def split: option.splits if_splits)

lemma marks_job_call: "same_marks st (snd (job_call cfg epoch op message t st))"
  by (simp add: job_call_def Let_def release_def apply_op_def promote_def split: option.split)

lemma admit_remembers:
  "admit_item r t st = Inr st' \<Longrightarrow> remembers key n st \<Longrightarrow> remembers key n st'"
  by (fastforce simp: admit_item_def Let_def finish_where_def remembers_def update_conv'
      split: option.splits if_splits)

lemma submit_remembers: "remembers key n st \<Longrightarrow> remembers key n (snd (submit cfg r uid t inst st))"
  using admit_remembers [of r t st _ key n]
  by (cases "admit_item r t st") (simp_all add: submit_def Let_def remembers_def)

lemma call_remembers:
  assumes "call cfg compile size_of epoch message uid t inst st = (a, st')" "remembers key n st"
  shows "remembers key n st'"
proof -
  have act: "remembers key n (st\<lparr>b_activity := inst\<rparr>)" using assms(2) by (simp add: remembers_def)
  have pass: "remembers key n (snd (call_pass cfg epoch op message v uid t inst st))" for op v
  proof -
    have "remembers key n (snd (list_jobs cfg t (st\<lparr>b_activity := inst\<rparr>)))"
      using act by (simp add: list_jobs_def Let_def remembers_def)
    with act remembers_same [OF marks_job_call act] submit_remembers [OF act] show ?thesis
      by (auto simp: call_pass_def Let_def split: option.split prod.splits)
  qed
  have "st' = snd (call cfg compile size_of epoch message uid t inst st)" using assms(1) by simp
  then show ?thesis
    using assms(2) pass by (simp add: call_def split: sum.split)
qed

lemma step_remembers: "broker_step env s s' \<Longrightarrow> remembers key n (s_state s) \<Longrightarrow> remembers key n (s_state s')"
proof (induction rule: broker_step.induct)
  case (pick t inst s st' i r c)
  then show ?case using remembers_same [OF marks_work_pick] by simp
next
  case (sleep t inst s st' d)
  then show ?case using remembers_same [OF marks_work_pick] by simp
next
  case (select f s sel t st')
  then show ?case using remembers_same [OF marks_work_select] by simp
next
  case (report f s st' a t inst)
  then show ?case using remembers_same [OF marks_work_finish] by simp
next
  case (client uid s message t inst answer st')
  then show ?case using call_remembers by simp
next
  case (shutdown s t)
  then show ?case by (simp add: close_def finish_where_def remembers_def)
next
  case (erase s)
  then show ?case by (simp add: clear_def remembers_def)
qed

lemma path_remembers:
  "(broker_step env)\<^sup>*\<^sup>* s s' \<Longrightarrow> remembers key n (s_state s) \<Longrightarrow> remembers key n (s_state s')"
  by (induction rule: rtranclp_induct) (auto intro: step_remembers)

section \<open>The analysis of a finding\<close>

text \<open>The message \<open>analyze\<close> sends.\<close>

definition submit_message :: "json \<Rightarrow> json" where
  "submit_message request = JObj [(''op'', JStr ''submit''), (''request'', request)]"

lemma submit_check: "call_check (submit_message v) = Inr ''submit''"
  by (simp add: call_check_def submit_message_def json_index_def allowed_fields_def)

lemma call_submit:
  "call cfg compile size_of epoch (submit_message v) uid t inst st =
     (case request_of compile size_of v of
        Inl e \<Rightarrow> (Inl e, st)
      | Inr r \<Rightarrow> if b_closed st then (Inl Broker_unavailable, st\<lparr>b_activity := inst\<rparr>)
               else submit cfg r uid t inst (st\<lparr>b_activity := inst\<rparr>))"
proof -
  have req: "json_index (submit_message v) ''request'' = v"
    by (simp add: submit_message_def json_index_def)
  show ?thesis
    by (simp add: call_def submit_check req call_pass_def Let_def split: sum.split)
qed

lemma request_of_value: "request_of compile size_of v = Inr r \<Longrightarrow> req_value r = v"
  unfolding request_of_def by (auto split: option.split_asm if_split_asm sum.split_asm)

lemma analysis_item:
  assumes "request_of compile size_of (analysis_request r d) = Inr q" "r_revision r \<le> u64_max"
  shows "consumer q = ''maintenance'' \<and> item q = Some (r_id r, r_revision r)"
proof -
  have "req_value q = analysis_request r d" by (rule request_of_value [OF assms(1)])
  then show ?thesis
    using assms(2) by (simp add: consumer_def item_def analysis_request_def json_index_def)
qed

text \<open>C11: An analysis cannot be retried. Once the broker accepted the analysis of a finding,
  then - however that analysis ends, and whatever else the broker does afterwards - it refuses
  every later analysis of the same finding while its revision is unchanged, although the
  service reports the failure as \<open>Analysis unavailable; retry explicitly\<close>.\<close>

theorem analysis_retry_refused:
  assumes "call (e_config env) (e_compile env) (e_size env) (e_epoch env)
      (submit_message (analysis_request r d)) uid t inst (s_state s) = (Inr rep, st1)"
    "r_revision r \<le> u64_max" "(broker_step env)\<^sup>*\<^sup>* (s\<lparr>s_state := st1\<rparr>) s2"
  shows "\<exists>e. fst (call (e_config env) (e_compile env) (e_size env) (e_epoch env)
      (submit_message (analysis_request r d')) uid' t' inst' (s_state s2)) = Inl e"
proof -
  let ?key = "(''maintenance'', r_id r)"
  obtain q where q: "request_of (e_compile env) (e_size env) (analysis_request r d) = Inr q"
    and sub: "submit (e_config env) q uid t inst ((s_state s)\<lparr>b_activity := inst\<rparr>) = (Inr rep, st1)"
    using assms(1) by (auto simp: call_submit split: sum.splits if_splits)
  obtain st0 where adm: "admit_item q t ((s_state s)\<lparr>b_activity := inst\<rparr>) = Inr st0"
    and marks: "b_revisions st1 = b_revisions st0"
    using sub by (auto simp: submit_def Let_def split: if_splits sum.splits)
  have "map_of (b_revisions st0) ?key = Some (r_revision r)"
    using adm analysis_item [OF q assms(2)]
    by (auto simp: admit_item_def Let_def finish_where_def update_conv' split: if_splits option.splits)
  with marks have "remembers ?key (r_revision r) st1" by (simp add: remembers_def)
  with path_remembers [OF assms(3)] have later: "remembers ?key (r_revision r) (s_state s2)" by simp
  show ?thesis
  proof (cases "request_of (e_compile env) (e_size env) (analysis_request r d')")
    case (Inl e)
    then show ?thesis by (simp add: call_submit)
  next
    case (Inr q')
    from later analysis_item [OF Inr assms(2)] show ?thesis
      by (auto simp: call_submit Inr remembers_def submit_def admit_item_def)
  qed
qed

definition retry_env :: environment where
  "retry_env = \<lparr>e_config = default_config, e_compile = (\<lambda>_. Some (\<lambda>v. True)), e_size = (\<lambda>_. 100),
     e_epoch = ''e''\<rparr>"

definition retry_call :: "bstate \<Rightarrow> (failure + reply option) \<times> bstate" where
  "retry_call = call (e_config retry_env) (e_compile retry_env) (e_size retry_env) (e_epoch retry_env)
     (submit_message (analysis_request demo_retry_row ''log'')) ''u1'' 7 7"

lemma retry_first: "case fst (retry_call (new_broker 0)) of Inl e \<Rightarrow> False | Inr rep \<Rightarrow> True"
  by code_simp

theorem analysis_retry_refused_witness:
  "(\<exists>rep. fst (retry_call (new_broker 0)) = Inr rep)
   \<and> (\<exists>e. fst (retry_call (snd (retry_call (new_broker 0)))) = Inl e)"
proof -
  obtain rep st1 where first: "retry_call (new_broker 0) = (Inr rep, st1)"
    using retry_first by (cases "retry_call (new_broker 0)") (auto split: sum.splits)
  let ?s = "\<lparr>s_state = new_broker 0, s_flights = []\<rparr>"
  have r: "r_revision demo_retry_row \<le> u64_max" by (simp add: demo_retry_row_def)
  have c: "call (e_config retry_env) (e_compile retry_env) (e_size retry_env) (e_epoch retry_env)
      (submit_message (analysis_request demo_retry_row ''log'')) ''u1'' 7 7 (s_state ?s) = (Inr rep, st1)"
    using first by (simp add: retry_call_def)
  have "\<exists>e. fst (retry_call (s_state (?s\<lparr>s_state := st1\<rparr>))) = Inl e"
    unfolding retry_call_def by (rule analysis_retry_refused [OF c r rtranclp.rtrancl_refl])
  with first show ?thesis by simp
qed

end
