(* ===== verification/Ports_Procfs.thy ===== *)
theory Ports_Procfs
  imports Json "HOL-Library.Product_Lexorder"
begin

text \<open>
  \<open>tools/src/ports/procfs.rs\<close>: the kernel interfaces of the port inspector. \<open>proc_view\<close> is what
  one look at \<open>/proc\<close> and the password file shows: bounded file contents, directory listings
  and link targets. Everything parsed from them - listening sockets, owners, cgroup units,
  start times, user names - is a function here. An IP address is its octets in wire order and
  is printed as the standard library prints it.
\<close>

section \<open>Reading text\<close>

definition newline :: char where "newline = char_of (10::nat)"
definition carriage :: char where "carriage = char_of (13::nat)"

text \<open>\<open>str::lines\<close>: a final empty line is none, and a carriage return before a newline is
  dropped.\<close>

definition str_lines :: "string \<Rightarrow> string list" where
  "str_lines s =
     (let ls = split_on newline s
      in map (\<lambda>l. if l \<noteq> [] \<and> last l = carriage then butlast l else l) (butlast ls)
           @ (if last ls = [] then [] else [last ls]))"

definition is_ascii_space :: "char \<Rightarrow> bool" where
  "is_ascii_space c \<longleftrightarrow> (of_char c :: nat) \<in> {9, 10, 12, 13, 32}"

fun split_ascii_whitespace_aux :: "string \<Rightarrow> string \<Rightarrow> string list" where
  "split_ascii_whitespace_aux w [] = (if w = [] then [] else [rev w])"
| "split_ascii_whitespace_aux w (c # s) =
     (if is_ascii_space c
      then (if w = [] then [] else [rev w]) @ split_ascii_whitespace_aux [] s
      else split_ascii_whitespace_aux (c # w) s)"

definition split_ascii_whitespace :: "string \<Rightarrow> string list" where
  "split_ascii_whitespace s = split_ascii_whitespace_aux [] s"

definition nth_opt :: "nat \<Rightarrow> 'a list \<Rightarrow> 'a option" where
  "nth_opt i xs = (if i < length xs then Some (xs ! i) else None)"

definition hex_value :: "char \<Rightarrow> nat option" where
  "hex_value c =
     (if is_ascii_digit c then Some (of_char c - 48)
      else if is_ascii_hexdigit c
      then Some (of_char (to_ascii_lower c) - 87) else None)"

fun hex_digits :: "nat \<Rightarrow> string \<Rightarrow> nat option" where
  "hex_digits acc [] = Some acc"
| "hex_digits acc (c # s) =
     (case hex_value c of Some d \<Rightarrow> hex_digits (16 * acc + d) s | None \<Rightarrow> None)"

text \<open>\<open>uN::from_str_radix(_, 16)\<close> with largest value \<open>m\<close>.\<close>

definition parse_hex :: "nat \<Rightarrow> string \<Rightarrow> nat option" where
  "parse_hex m s =
     (let d = (case s of c # r \<Rightarrow> if c = CHR ''+'' then r else s | [] \<Rightarrow> s)
      in if d = [] then None
         else case hex_digits 0 d of Some n \<Rightarrow> if n \<le> m then Some n else None | None \<Rightarrow> None)"

section \<open>Addresses\<close>

datatype ip = V4 "nat list" | V6 "nat list"

definition be_bytes :: "nat \<Rightarrow> nat list" where
  "be_bytes x = [x div 2 ^ 24 mod 256, x div 2 ^ 16 mod 256, x div 2 ^ 8 mod 256, x mod 256]"

definition swap_bytes :: "nat \<Rightarrow> nat" where
  "swap_bytes x = (x mod 256) * 2 ^ 24 + (x div 2 ^ 8 mod 256) * 2 ^ 16
     + (x div 2 ^ 16 mod 256) * 2 ^ 8 + x div 2 ^ 24 mod 256"

definition hex_word :: "string \<Rightarrow> nat list option" where
  "hex_word s = map_option (\<lambda>w. be_bytes (swap_bytes w)) (parse_hex u32_max s)"

definition hex_address :: "string \<Rightarrow> ip option" where
  "hex_address s =
     (if length s = 8 then map_option V4 (hex_word s)
      else if length s = 32 then
        (case (hex_word (take 8 s), hex_word (take 8 (drop 8 s)),
               hex_word (take 8 (drop 16 s)), hex_word (take 8 (drop 24 s))) of
           (Some a, Some b, Some c, Some d) \<Rightarrow> Some (V6 (a @ b @ c @ d))
         | _ \<Rightarrow> None)
      else None)"

definition v4_unspecified :: "nat list \<Rightarrow> bool" where
  "v4_unspecified os \<longleftrightarrow> os = [0, 0, 0, 0]"

definition v4_loopback :: "nat list \<Rightarrow> bool" where
  "v4_loopback os \<longleftrightarrow> hd os = 127"

definition v6_mapped :: "nat list \<Rightarrow> nat list option" where
  "v6_mapped os = (if take 12 os = replicate 10 0 @ [255, 255] then Some (drop 12 os) else None)"

definition show_v4 :: "nat list \<Rightarrow> string" where
  "show_v4 os = concat (map (\<lambda>b. nat_digits b @ ''.'') (butlast os)) @ nat_digits (last os)"

definition hex_char :: "nat \<Rightarrow> char" where
  "hex_char n = char_of (if n < 10 then 48 + n else 87 + n)"

fun show_hex :: "nat \<Rightarrow> string" where
  "show_hex n = (if n < 16 then [hex_char n] else show_hex (n div 16) @ [hex_char (n mod 16)])"

declare show_hex.simps [simp del]

fun segments_of :: "nat list \<Rightarrow> nat list" where
  "segments_of (a # b # os) = (256 * a + b) # segments_of os"
| "segments_of _ = []"

text \<open>The first longest run of zero segments: position and length.\<close>

fun zero_run :: "nat \<Rightarrow> nat \<times> nat \<Rightarrow> nat \<times> nat \<Rightarrow> nat list \<Rightarrow> nat \<times> nat" where
  "zero_run i longest cur [] = longest"
| "zero_run i longest (start, len) (s # ss) =
     (if s = 0 then
        (let cur = (if len = 0 then i else start, Suc len)
         in zero_run (Suc i) (if snd longest < snd cur then cur else longest) cur ss)
      else zero_run (Suc i) longest (0, 0) ss)"

fun colon_join :: "string list \<Rightarrow> string" where
  "colon_join [] = []"
| "colon_join [x] = x"
| "colon_join (x # y # ys) = x @ '':'' @ colon_join (y # ys)"

definition show_v6 :: "nat list \<Rightarrow> string" where
  "show_v6 os =
     (case v6_mapped os of
        Some v4 \<Rightarrow> ''::ffff:'' @ show_v4 v4
      | None \<Rightarrow>
          (let ss = segments_of os
           in case zero_run 0 (0, 0) (0, 0) ss of (start, len) \<Rightarrow>
              if 1 < len
              then colon_join (map show_hex (take start ss)) @ ''::''
                     @ colon_join (map show_hex (drop (start + len) ss))
              else colon_join (map show_hex ss)))"

fun show_ip :: "ip \<Rightarrow> string" where
  "show_ip (V4 os) = show_v4 os"
| "show_ip (V6 os) = show_v6 os"

section \<open>Listeners\<close>

record listener =
  l_address :: ip
  l_port :: nat
  l_uid :: nat
  l_inode :: nat

definition listener_id :: "listener \<Rightarrow> string" where
  "listener_id l = (case l_address l of V4 _ \<Rightarrow> ''4:'' | V6 _ \<Rightarrow> ''6:'') @ nat_digits (l_inode l)"

definition family :: "listener \<Rightarrow> string" where
  "family l = (case l_address l of V4 _ \<Rightarrow> ''ipv4'' | V6 _ \<Rightarrow> ''ipv6'')"

definition wildcard :: "listener \<Rightarrow> bool" where
  "wildcard l = (case l_address l of
       V4 os \<Rightarrow> v4_unspecified os
     | V6 os \<Rightarrow> os = replicate 16 0
         \<or> (case v6_mapped os of Some v4 \<Rightarrow> v4_unspecified v4 | None \<Rightarrow> False))"

definition loopback :: "listener \<Rightarrow> bool" where
  "loopback l = (case l_address l of
       V4 os \<Rightarrow> v4_loopback os
     | V6 os \<Rightarrow> os = replicate 15 0 @ [1]
         \<or> (case v6_mapped os of Some v4 \<Rightarrow> v4_loopback v4 | None \<Rightarrow> False))"

definition listener_scope :: "listener \<Rightarrow> string" where
  "listener_scope l = (if loopback l then ''loopback'' else if wildcard l then ''wildcard'' else ''address'')"

definition destination :: "listener \<Rightarrow> string" where
  "destination l = (case l_address l of
       V4 os \<Rightarrow> if wildcard l \<or> loopback l then ''127.0.0.1'' else show_v4 os
     | V6 os \<Rightarrow>
         (case v6_mapped os of
            Some v4 \<Rightarrow> if v4_unspecified v4 \<or> v4_loopback v4 then ''127.0.0.1'' else show_v4 v4
          | None \<Rightarrow> if wildcard l \<or> loopback l then ''[::1]'' else ''['' @ show_v6 os @ '']''))"

definition binding :: "listener \<Rightarrow> string" where
  "binding l = (case l_address l of
       V4 os \<Rightarrow> show_v4 os @ '':'' @ nat_digits (l_port l)
     | V6 os \<Rightarrow> ''['' @ show_v6 os @ '']:'' @ nat_digits (l_port l))"

definition max_listeners :: nat where "max_listeners = 512"
definition max_scan_processes :: nat where "max_scan_processes = 4096"
definition max_descriptors :: nat where "max_descriptors = 1024"
definition max_owners :: nat where "max_owners = 16"
definition project_depth :: nat where "project_depth = 12"

text \<open>One line of the table: \<open>None\<close> is a line that is skipped.\<close>

definition parse_line :: "string \<Rightarrow> listener option" where
  "parse_line line =
     (case split_ascii_whitespace line of
        _ # local # _ # state # rest \<Rightarrow>
          if state \<noteq> ''0A'' then None
          else
            (case drop 3 rest of
               uid # _ # inode # _ \<Rightarrow>
                 (case split_once (CHR '':'') local of
                    None \<Rightarrow> None
                  | Some (host, port) \<Rightarrow>
                      (case (hex_address host, parse_hex u16_max port, parse_uint u32_max uid,
                             parse_uint u64_max inode) of
                         (Some a, Some p, Some u, Some i) \<Rightarrow>
                           Some \<lparr>l_address = a, l_port = p, l_uid = u, l_inode = i\<rparr>
                       | _ \<Rightarrow> None))
             | _ \<Rightarrow> None)
      | _ \<Rightarrow> None)"

definition parse_listeners :: "string \<Rightarrow> listener list" where
  "parse_listeners s = take max_listeners (List.map_filter parse_line (drop 1 (str_lines s)))"

section \<open>The process table\<close>

record proc_view =
  pv_file :: "string \<Rightarrow> string option"                \<comment> \<open>bounded contents of a file under /proc\<close>
  pv_entries :: "string list option"                  \<comment> \<open>the names in /proc\<close>
  pv_links :: "string \<Rightarrow> string option list option"    \<comment> \<open>the link targets of a process's fd directory\<close>
  pv_cwd :: "nat \<Rightarrow> string list option"               \<comment> \<open>the components of the working directory\<close>
  pv_exists :: "string list \<Rightarrow> bool"
  pv_passwd :: "string option"

definition listener_key :: "listener \<Rightarrow> nat \<times> string \<times> nat" where
  "listener_key l = (l_port l, binding l, l_inode l)"

definition listeners :: "proc_view \<Rightarrow> listener list" where
  "listeners v =
     sort_key listener_key
       (take max_listeners
          (concat (map (\<lambda>t. case pv_file v t of Some s \<Rightarrow> parse_listeners s | None \<Rightarrow> [])
             [''net/tcp'', ''net/tcp6''])))"

definition socket_inode :: "string \<Rightarrow> nat option" where
  "socket_inode target =
     (case strip_pre ''socket:['' target of
        None \<Rightarrow> None
      | Some r \<Rightarrow> if r \<noteq> [] \<and> last r = CHR '']'' then parse_uint u64_max (butlast r) else None)"

text \<open>The owners a process adds: each wanted inode gains the process at most once and at most
  sixteen processes in all.\<close>

fun add_links :: "nat list \<Rightarrow> nat \<Rightarrow> string option list \<Rightarrow> (nat \<times> nat list) list \<Rightarrow> (nat \<times> nat list) list" where
  "add_links wanted pid [] owners = owners"
| "add_links wanted pid (t # ts) owners =
     add_links wanted pid ts
       (case Option.bind t socket_inode of
          None \<Rightarrow> owners
        | Some i \<Rightarrow>
            if i \<notin> set wanted then owners
            else
              (let holders = (case map_of owners i of Some hs \<Rightarrow> hs | None \<Rightarrow> [])
               in AList.update i
                    (if pid \<notin> set holders \<and> length holders < max_owners then holders @ [pid] else holders)
                    owners))"

fun scan_entries :: "proc_view \<Rightarrow> nat list \<Rightarrow> nat \<Rightarrow> string list \<Rightarrow> (nat \<times> nat list) list
    \<Rightarrow> (nat \<times> nat list) list" where
  "scan_entries v wanted scanned [] owners = owners"
| "scan_entries v wanted scanned (name # names) owners =
     (if max_scan_processes \<le> scanned then owners
      else
        (case parse_uint u32_max name of
           None \<Rightarrow> scan_entries v wanted scanned names owners
         | Some pid \<Rightarrow>
             scan_entries v wanted (Suc scanned) names
               (case pv_links v name of
                  None \<Rightarrow> owners
                | Some links \<Rightarrow> add_links wanted pid (take max_descriptors links) owners)))"

definition socket_owners :: "proc_view \<Rightarrow> nat list \<Rightarrow> (nat \<times> nat list) list" where
  "socket_owners v wanted =
     (if wanted = [] then []
      else case pv_entries v of
             None \<Rightarrow> []
           | Some names \<Rightarrow> map (\<lambda>(i, hs). (i, sort hs)) (scan_entries v wanted 0 names []))"

definition proxy_kind :: "string \<Rightarrow> string" where
  "proxy_kind name =
     (if name \<in> set [''docker-proxy'', ''rootlessport'', ''rootlesskit'', ''slirp4netns'', ''pasta'', ''passt'']
      then ''container''
      else if name = ''systemd-socket-proxyd'' then ''socket'' else [])"

definition is_user_manager :: "string \<Rightarrow> bool" where
  "is_user_manager c \<longleftrightarrow> starts_with ''user@'' c \<and> ends_with ''.service'' c"

definition service_unit_char :: "char \<Rightarrow> bool" where
  "service_unit_char c \<longleftrightarrow> is_ascii_alphanumeric c \<or> c \<in> set ''@_.-'' \<or> (of_char c :: nat) = 92"

definition valid_service_unit :: "string \<Rightarrow> bool" where
  "valid_service_unit u \<longleftrightarrow>
     u \<noteq> [] \<and> length u \<le> 255 \<and> is_ascii_alphanumeric (hd u) \<and> list_all service_unit_char u"

record cgroup =
  g_unit :: string
  g_scope :: string
  g_service :: string
  g_user :: bool

definition cgroup_component :: "cgroup \<Rightarrow> string \<Rightarrow> cgroup" where
  "cgroup_component g c =
     (if is_user_manager c then g\<lparr>g_user := True, g_unit := c, g_scope := ''system'', g_service := []\<rparr>
      else if ends_with ''.service'' c \<or> ends_with ''.scope'' c then
        g\<lparr>g_unit := c, g_scope := (if g_user g then ''user'' else ''system''),
          g_service := (if ends_with ''.service'' c \<and> valid_service_unit c then c else [])\<rparr>
      else g)"

definition cgroup_path :: "string \<Rightarrow> string option" where
  "cgroup_path line =
     Option.bind (split_once (CHR '':'') line) (\<lambda>(_, r). map_option snd (split_once (CHR '':'') r))"

fun cgroup_lines :: "string list \<Rightarrow> string \<times> string \<times> string" where
  "cgroup_lines [] = ([], [], [])"
| "cgroup_lines (line # ls) =
     (case cgroup_path line of
        None \<Rightarrow> cgroup_lines ls
      | Some path \<Rightarrow>
          (let g = foldl cgroup_component \<lparr>g_unit = [], g_scope = [], g_service = [], g_user = False\<rparr>
                     (filter (\<lambda>c. c \<noteq> []) (split_on (CHR ''/'') path))
           in if g_unit g \<noteq> [] then (g_unit g, g_scope g, g_service g) else cgroup_lines ls))"

definition cgroup_unit :: "string \<Rightarrow> string \<times> string \<times> string" where
  "cgroup_unit s = cgroup_lines (str_lines s)"

section \<open>One process\<close>

definition path_text :: "string list \<Rightarrow> string" where
  "path_text cs = (if cs = [] then ''/'' else concat (map (\<lambda>c. ''/'' @ c) cs))"

definition named :: "string list \<Rightarrow> string \<times> string" where
  "named cs = (last cs, path_text cs)"

definition vcs_entries :: "string list" where "vcs_entries = [''.jj'', ''.git'']"
definition project_markers :: "string list" where
  "project_markers = [''flake.nix'', ''Cargo.toml'', ''package.json'', ''go.mod'', ''pyproject.toml'']"

text \<open>From the working directory (its components reversed) towards the root.\<close>

fun project_loop :: "(string list \<Rightarrow> bool) \<Rightarrow> nat \<Rightarrow> string list \<Rightarrow> string list option
    \<Rightarrow> (string \<times> string) option" where
  "project_loop exists depth [] marker = map_option named marker"
| "project_loop exists depth (c # cs) marker =
     (if project_depth \<le> depth then map_option named marker
      else
        (let dir = rev (c # cs)
         in if list_ex (\<lambda>e. exists (dir @ [e])) vcs_entries then Some (named dir)
            else project_loop exists (Suc depth) cs
              (if marker = None \<and> list_ex (\<lambda>e. exists (dir @ [e])) project_markers
               then Some dir else marker)))"

definition project :: "proc_view \<Rightarrow> string list \<Rightarrow> (string \<times> string) option" where
  "project v cwd = project_loop (pv_exists v) 0 (rev cwd) None"

record process =
  o_pid :: nat
  o_start :: nat
  o_name :: string
  o_uid :: nat
  o_user :: string
  o_unit :: string
  o_scope :: string
  o_service :: string
  o_cwd :: string
  o_project :: string
  o_project_path :: string
  o_proxy :: string

definition pid_file :: "proc_view \<Rightarrow> nat \<Rightarrow> string \<Rightarrow> string option" where
  "pid_file v pid name = pv_file v (nat_digits pid @ ''/'' @ name)"

definition start_time :: "proc_view \<Rightarrow> nat \<Rightarrow> nat option" where
  "start_time v pid =
     Option.bind (pid_file v pid ''stat'') (\<lambda>stat.
       Option.bind (rsplit_once (CHR '')'') stat) (\<lambda>(_, rest).
         Option.bind (nth_opt 19 (split_ascii_whitespace rest)) (parse_uint u64_max)))"

definition status_uid :: "string \<Rightarrow> nat option" where
  "status_uid s =
     (case List.map_filter (strip_pre ''Uid:'') (str_lines s) of
        [] \<Rightarrow> None
      | r # _ \<Rightarrow> Option.bind (nth_opt 0 (split_ascii_whitespace r)) (parse_uint u32_max))"

definition process_uid :: "proc_view \<Rightarrow> nat \<Rightarrow> nat option" where
  "process_uid v pid = Option.bind (pid_file v pid ''status'') status_uid"

definition get_or :: "'a \<Rightarrow> 'a option \<Rightarrow> 'a" where
  "get_or d x = (case x of Some v \<Rightarrow> v | None \<Rightarrow> d)"

definition process_at :: "proc_view \<Rightarrow> nat \<Rightarrow> (nat \<times> string) list \<Rightarrow> process option" where
  "process_at v pid users =
     (case start_time v pid of
        None \<Rightarrow> None
      | Some start \<Rightarrow>
          (let name = get_or [] (map_option trim (pid_file v pid ''comm''));
               uid = get_or u32_max (process_uid v pid)
           in case get_or ([], [], []) (map_option cgroup_unit (pid_file v pid ''cgroup'')) of
                (unit, scope, service) \<Rightarrow>
                  (case get_or ([], []) (Option.bind (pv_cwd v pid) (project v)) of (proj, proj_path) \<Rightarrow>
                     Some \<lparr>o_pid = pid, o_start = start, o_name = name, o_uid = uid,
                       o_user = get_or [] (map_of users uid), o_unit = unit, o_scope = scope,
                       o_service = service, o_cwd = get_or [] (map_option path_text (pv_cwd v pid)),
                       o_project = proj, o_project_path = proj_path, o_proxy = proxy_kind name\<rparr>)))"

fun user_lines :: "string list \<Rightarrow> (nat \<times> string) list \<Rightarrow> (nat \<times> string) list" where
  "user_lines [] us = us"
| "user_lines (line # ls) us =
     user_lines ls
       (case split_on (CHR '':'') line of
          name # _ # uid # _ \<Rightarrow>
            (case parse_uint u32_max uid of
               Some u \<Rightarrow> if map_of us u = None then AList.update u name us else us
             | None \<Rightarrow> us)
        | _ \<Rightarrow> us)"

definition users :: "proc_view \<Rightarrow> (nat \<times> string) list" where
  "users v = (case pv_passwd v of None \<Rightarrow> [] | Some s \<Rightarrow> user_lines (take 8192 (str_lines s)) [])"

definition user_label :: "(nat \<times> string) list \<Rightarrow> nat \<Rightarrow> string" where
  "user_label us uid =
     (if uid = u32_max then [] else get_or (''uid '' @ nat_digits uid) (map_of us uid))"

definition holds_socket :: "proc_view \<Rightarrow> nat \<Rightarrow> nat \<Rightarrow> bool" where
  "holds_socket v pid inode =
     (case pv_links v (nat_digits pid) of
        None \<Rightarrow> False
      | Some links \<Rightarrow> list_ex (\<lambda>t. Option.bind t socket_inode = Some inode) (take max_descriptors links))"

definition find_listener :: "proc_view \<Rightarrow> nat \<Rightarrow> string \<Rightarrow> nat \<Rightarrow> listener option" where
  "find_listener v inode bind_text port =
     find (\<lambda>l. l_inode l = inode \<and> l_port l = port \<and> binding l = bind_text) (listeners v)"

end
