(* ===== verification/Ports_Model.thy ===== *)
theory Ports_Model
  imports Ports_Procfs
begin

text \<open>
  \<open>tools/src/ports/model.rs\<close>: what a listener is, what Stop would act on, the review token of a
  confirmation, and the search query. A \<open>target\<close>'s kind is the source's string: \<open>service\<close>,
  \<open>process\<close>, \<open>ambiguous\<close> or \<open>none\<close>.
\<close>

record prow =
  w_listener :: listener
  w_owners :: "process list"
  w_identified :: bool
  w_user :: string

record target =
  t_kind :: string
  t_unit :: string
  t_scope :: string
  t_pid :: nat
  t_start :: nat
  t_uid :: nat
  t_privileged :: bool
  t_name :: string
  t_user :: string
  t_reason :: string

definition default_target :: target where
  "default_target = \<lparr>t_kind = [], t_unit = [], t_scope = [], t_pid = 0, t_start = 0, t_uid = 0,
     t_privileged = False, t_name = [], t_user = [], t_reason = []\<rparr>"

record review =
  v_inode :: nat
  v_binding :: string
  v_port :: nat
  v_target :: target

section \<open>The review token\<close>

definition scope_of :: "string \<Rightarrow> string option" where
  "scope_of s = (if s \<in> set [[], ''system'', ''user''] then Some s else None)"

definition kind_of :: "string \<Rightarrow> string option" where
  "kind_of s = (if s \<in> set [''service'', ''process''] then Some s else None)"

definition bar_join :: "string list \<Rightarrow> string" where
  "bar_join fs = concat (map (\<lambda>f. f @ ''|'') (butlast fs)) @ last fs"

definition token :: "review \<Rightarrow> string" where
  "token r = (let t = v_target r in bar_join
     [''1'', nat_digits (v_inode r), v_binding r, nat_digits (v_port r), t_kind t, t_unit t, t_scope t,
      nat_digits (t_pid t), nat_digits (t_start t), nat_digits (t_uid t)])"

definition parse_token :: "string \<Rightarrow> review option" where
  "parse_token s =
     (case split_on (CHR ''|'') s of
        [version, inode, bind_text, port, kind, unit, scope, pid, start, uid] \<Rightarrow>
          if version \<noteq> ''1'' \<or> (unit \<noteq> [] \<and> \<not> valid_service_unit unit) then None
          else
            (case (parse_uint u64_max inode, parse_uint u16_max port, kind_of kind, scope_of scope) of
               (Some i, Some p, Some k, Some sc) \<Rightarrow>
                 (case (parse_uint u32_max pid, parse_uint u64_max start, parse_uint u32_max uid) of
                    (Some pd, Some st, Some u) \<Rightarrow>
                      Some \<lparr>v_inode = i, v_binding = bind_text, v_port = p,
                        v_target = default_target\<lparr>t_kind := k, t_unit := unit, t_scope := sc,
                          t_pid := pd, t_start := st, t_uid := u\<rparr>\<rparr>
                  | _ \<Rightarrow> None)
             | _ \<Rightarrow> None)
      | _ \<Rightarrow> None)"

section \<open>Rows\<close>

definition scope_label :: "listener \<Rightarrow> string" where
  "scope_label l =
     (if listener_scope l = ''loopback'' then ''This machine only''
      else if listener_scope l = ''wildcard'' then ''All interfaces'' else ''One interface'')"

definition owner_of :: "nat \<Rightarrow> prow \<Rightarrow> process option" where
  "owner_of selected w =
     (case find (\<lambda>p. o_pid p = selected) (w_owners w) of
        Some p \<Rightarrow> Some p
      | None \<Rightarrow> (case w_owners w of [p] \<Rightarrow> Some p | _ \<Rightarrow> None))"

definition service_of :: "prow \<Rightarrow> (string \<times> string) option" where
  "service_of w =
     (case w_owners w of
        [] \<Rightarrow> None
      | first # _ \<Rightarrow>
          if o_service first = [] then None
          else if list_all (\<lambda>p. o_service p = o_service first \<and> o_scope p = o_scope first) (w_owners w)
          then Some (o_service first, o_scope first) else None)"

definition unavailable :: "prow \<Rightarrow> string \<Rightarrow> target" where
  "unavailable w reason =
     default_target\<lparr>t_kind := ''none'', t_reason := reason, t_uid := l_uid (w_listener w)\<rparr>"

definition target_of :: "nat \<Rightarrow> nat \<Rightarrow> prow \<Rightarrow> target" where
  "target_of selected self_uid w =
     (if w_owners w = [] then
        (if l_uid (w_listener w) = self_uid
         then unavailable w ''The owning process is no longer visible. Refresh to check again.''
         else unavailable w
           ''Another user owns this listener. Identify its owner to see what stopping it would do.'')
      else
        (case service_of w of
           Some (unit, scope) \<Rightarrow>
             default_target\<lparr>t_kind := ''service'', t_unit := unit, t_scope := scope,
               t_uid := l_uid (w_listener w), t_privileged := scope = ''system'',
               t_name := o_name (hd (w_owners w)), t_user := o_user (hd (w_owners w))\<rparr>
         | None \<Rightarrow>
             (case owner_of selected w of
                None \<Rightarrow>
                  default_target\<lparr>t_kind := ''ambiguous'',
                    t_reason := ''Several processes share this socket. Choose the one to stop.'',
                    t_uid := l_uid (w_listener w)\<rparr>
              | Some p \<Rightarrow>
                  default_target\<lparr>t_kind := ''process'', t_pid := o_pid p, t_start := o_start p,
                    t_uid := o_uid p, t_privileged := o_uid p \<noteq> self_uid, t_name := o_name p,
                    t_user := o_user p\<rparr>)))"

definition review_of :: "nat \<Rightarrow> nat \<Rightarrow> prow \<Rightarrow> review" where
  "review_of selected self_uid w =
     \<lparr>v_inode = l_inode (w_listener w), v_binding = binding (w_listener w),
      v_port = l_port (w_listener w), v_target = target_of selected self_uid w\<rparr>"

definition identifiable :: "nat \<Rightarrow> prow \<Rightarrow> bool" where
  "identifiable self_uid w \<longleftrightarrow> w_owners w = [] \<and> l_uid (w_listener w) \<noteq> self_uid"

definition haystack :: "prow \<Rightarrow> string" where
  "haystack w = to_ascii_lowercase
     (binding (w_listener w) @ '' '' @ show_ip (l_address (w_listener w)) @ '' ''
        @ nat_digits (l_port (w_listener w)) @ '' '' @ w_user w
        @ concat (map (\<lambda>p. '' '' @ o_name p @ '' '' @ o_unit p @ '' '' @ o_user p @ '' '' @ o_project p
                         @ '' '' @ o_project_path p) (w_owners w)))"

section \<open>The query\<close>

record query =
  q_text :: string
  q_port :: "nat option"
  q_host :: string
  q_scheme :: string
  q_explicit :: bool
  q_scope :: string

text \<open>The first of the schemes that the text starts with, and what follows it.\<close>

fun strip_scheme :: "string list \<Rightarrow> string \<Rightarrow> (string \<times> string) option" where
  "strip_scheme [] rest = None"
| "strip_scheme (s # ss) rest =
     (case strip_pre (s @ ''://'') rest of
        Some r \<Rightarrow> Some (s, r)
      | None \<Rightarrow> (case strip_pre (s @ '':'') rest of Some r \<Rightarrow> Some (s, r) | None \<Rightarrow> strip_scheme ss rest))"

text \<open>The host and the digits of a port.\<close>

definition split_port :: "string \<Rightarrow> string \<times> string option" where
  "split_port rest =
     (case rsplit_once (CHR '':'') rest of
        Some (host, port) \<Rightarrow>
          if port \<noteq> [] \<and> list_all is_ascii_digit port then (host, Some port)
          else if list_all is_ascii_digit rest \<and> rest \<noteq> [] then ([], Some rest) else (rest, None)
      | None \<Rightarrow> if list_all is_ascii_digit rest \<and> rest \<noteq> [] then ([], Some rest) else (rest, None))"

definition trim_host :: "string \<Rightarrow> string" where
  "trim_host host = to_ascii_lowercase
     (rev (dropWhile (\<lambda>c. c = CHR '']'') (rev (dropWhile (\<lambda>c. c = CHR ''['') host))))"

definition parse_query :: "string \<Rightarrow> query" where
  "parse_query input =
     (let trimmed = trim input;
          q = \<lparr>q_text = trimmed, q_port = None, q_host = [], q_scheme = ''http'', q_explicit = False,
               q_scope = []\<rparr>
      in if trimmed = [] then q
         else
           (let (scheme, explicit, rest) =
                  (case strip_scheme [''https'', ''http''] trimmed of
                     Some (s, r) \<Rightarrow> (s, True, r) | None \<Rightarrow> (''http'', False, trimmed));
                rest = hd (split_on (CHR ''/'') rest);
                (host, port) = split_port rest;
                number = (case Option.bind port (parse_uint u16_max) of
                            Some p \<Rightarrow> if 0 < p then Some p else None | None \<Rightarrow> None);
                host = trim_host host
            in q\<lparr>q_port := number, q_scheme := scheme, q_explicit := explicit,
                 q_host := (if number = None \<and> rest \<noteq> [] \<and> host = []
                            then to_ascii_lowercase rest else host)\<rparr>))"

definition query_matches :: "query \<Rightarrow> prow \<Rightarrow> bool" where
  "query_matches q w =
     (let sc = listener_scope (w_listener w)
      in if q_scope q = ''loopback'' \<and> sc \<noteq> ''loopback'' then False
         else if q_scope q = ''network'' \<and> sc \<notin> set [''wildcard'', ''address''] then False
         else if q_text q = [] then True
         else if (case q_port q of Some p \<Rightarrow> l_port (w_listener w) \<noteq> p | None \<Rightarrow> False) then False
         else if q_host q = [] then True
         else if q_host q = ''localhost'' then loopback (w_listener w) \<or> wildcard (w_listener w)
         else contains_str (q_host q) (haystack w))"

section \<open>One scan\<close>

text \<open>The owners of one socket: those the kernel shows, else the remembered ones whose start
  time still matches.\<close>

definition row_pids :: "proc_view \<Rightarrow> (nat \<times> (nat \<times> nat) list) list \<Rightarrow> (nat \<times> nat list) list \<Rightarrow> nat
    \<Rightarrow> nat list \<times> bool" where
  "row_pids v identities owners inode =
     (let pids = get_or [] (map_of owners inode)
      in if pids \<noteq> [] then (pids, False)
         else
           (case map_of identities inode of
              None \<Rightarrow> ([], False)
            | Some remembered \<Rightarrow>
                (let pids = map fst (filter (\<lambda>(pid, start). start_time v pid = Some start) remembered)
                 in (pids, pids \<noteq> []))))"

definition row_at :: "proc_view \<Rightarrow> (nat \<times> (nat \<times> nat) list) list \<Rightarrow> (nat \<times> nat list) list
    \<Rightarrow> (nat \<times> string) list \<Rightarrow> listener \<Rightarrow> prow" where
  "row_at v identities owners us l =
     (case row_pids v identities owners (l_inode l) of (pids, identified) \<Rightarrow>
        \<lparr>w_listener = l, w_owners = List.map_filter (\<lambda>pid. process_at v pid us) pids,
         w_identified = identified, w_user = user_label us (l_uid l)\<rparr>)"

definition scan :: "proc_view \<Rightarrow> (nat \<times> (nat \<times> nat) list) list \<Rightarrow> prow list" where
  "scan v identities =
     (let ls = listeners v; owners = socket_owners v (remdups (map l_inode ls)); us = users v
      in map (row_at v identities owners us) ls)"

section \<open>What the panel draws\<close>

definition owner_value :: "process \<Rightarrow> json" where
  "owner_value p = json_obj
     [(''pid'', JNum (nat_digits (o_pid p))), (''start'', JNum (nat_digits (o_start p))),
      (''name'', JStr (o_name p)), (''uid'', JNum (nat_digits (o_uid p))), (''user'', JStr (o_user p)),
      (''unit'', JStr (o_unit p)), (''unitScope'', JStr (o_scope p)), (''service'', JStr (o_service p)),
      (''cwd'', JStr (o_cwd p)), (''project'', JStr (o_project p)),
      (''projectPath'', JStr (o_project_path p)), (''proxy'', JStr (o_proxy p))]"

definition target_value :: "target \<Rightarrow> json" where
  "target_value t = json_obj
     [(''kind'', JStr (t_kind t)), (''unit'', JStr (t_unit t)), (''scope'', JStr (t_scope t)),
      (''pid'', JNum (nat_digits (t_pid t))), (''start'', JNum (nat_digits (t_start t))),
      (''uid'', JNum (nat_digits (t_uid t))), (''user'', JStr (t_user t)), (''name'', JStr (t_name t)),
      (''privileged'', JBool (t_privileged t)), (''reason'', JStr (t_reason t))]"

definition row_value :: "prow \<Rightarrow> query \<Rightarrow> nat \<Rightarrow> nat \<Rightarrow> json" where
  "row_value w q selected self_uid =
     (let l = w_listener w
      in json_obj
        [(''id'', JStr (listener_id l)), (''inode'', JNum (nat_digits (l_inode l))),
         (''family'', JStr (family l)), (''address'', JStr (show_ip (l_address l))),
         (''binding'', JStr (binding l)), (''port'', JNum (nat_digits (l_port l))),
         (''scope'', JStr (listener_scope l)), (''scopeLabel'', JStr (scope_label l)),
         (''uid'', JNum (nat_digits (l_uid l))), (''user'', JStr (w_user w)),
         (''destination'', JStr (destination l)), (''scheme'', JStr (q_scheme q)),
         (''explicitScheme'', JBool (q_explicit q)), (''owners'', JArr (map owner_value (w_owners w))),
         (''selected'', JNum (nat_digits (case owner_of selected w of Some p \<Rightarrow> o_pid p | None \<Rightarrow> 0))),
         (''identified'', JBool (w_identified w)), (''identifiable'', JBool (identifiable self_uid w)),
         (''target'', target_value (target_of selected self_uid w)),
         (''token'', JStr (token (review_of selected self_uid w)))])"

end
