(* ===== verification/Ports_Helper.thy ===== *)
theory Ports_Helper
  imports Ports_Model
begin

text \<open>
  \<open>tools/src/ports/privileged.rs\<close>: the helper that runs as root. Its two effects are values of
  \<open>helper_effect\<close>; the host decides whether each succeeds (\<open>helper_host\<close>). A run sees two looks
  at the process table: the one its checks read, and the later one that the pinned process is
  validated against just before it is signalled (\<open>signal_checked\<close> of the runtime).
\<close>

datatype helper_effect =
    Systemctl "string list"
  | Signalled nat nat

record helper_host =
  h_systemctl :: "string list \<Rightarrow> bool"
  h_pin :: "nat \<Rightarrow> bool"           \<comment> \<open>\<open>pidfd_open\<close> succeeds\<close>
  h_send :: "nat \<Rightarrow> nat \<Rightarrow> bool"   \<comment> \<open>\<open>pidfd_send_signal\<close> succeeds\<close>

definition sigkill :: nat where "sigkill = 9"
definition sigterm :: nat where "sigterm = 15"
definition i32_max :: nat where "i32_max = 2147483647"

section \<open>Arguments\<close>

definition decimal_arg :: "string \<Rightarrow> nat \<Rightarrow> string + nat" where
  "decimal_arg value limit =
     (if value = [] \<or> limit < length value \<or> (1 < length value \<and> hd value = CHR ''0'')
         \<or> \<not> list_all is_ascii_digit value
      then Inl ''invalid_target''
      else case parse_uint u64_max value of Some n \<Rightarrow> Inr n | None \<Rightarrow> Inl ''invalid_target'')"

definition binding_char :: "char \<Rightarrow> bool" where
  "binding_char c \<longleftrightarrow> is_ascii_hexdigit c \<or> c \<in> set ''[].:''"

definition binding_arg :: "string \<Rightarrow> string + string" where
  "binding_arg value =
     (if value = [] \<or> 64 < length value \<or> \<not> list_all binding_char value
      then Inl ''invalid_target'' else Inr value)"

definition port_arg :: "string \<Rightarrow> string + nat" where
  "port_arg value =
     (case decimal_arg value 5 of
        Inl e \<Rightarrow> Inl e
      | Inr n \<Rightarrow> if n \<le> u16_max \<and> 0 < n then Inr n else Inl ''invalid_target'')"

definition u32_arg :: "string \<Rightarrow> string + nat" where
  "u32_arg value =
     (case decimal_arg value 10 of
        Inl e \<Rightarrow> Inl e | Inr n \<Rightarrow> if n \<le> u32_max then Inr n else Inl ''invalid_target'')"

definition service_arg :: "string \<Rightarrow> string + string" where
  "service_arg value =
     (if \<not> valid_service_unit value \<or> \<not> ends_with ''.service'' value \<or> is_user_manager value
      then Inl ''invalid_target'' else Inr value)"

definition mode_arg :: "string \<Rightarrow> string + bool" where
  "mode_arg value =
     (if value = ''graceful'' then Inr False
      else if value = ''force'' then Inr True else Inl ''invalid_target'')"

section \<open>Operations\<close>

definition owners_at :: "proc_view \<Rightarrow> nat \<Rightarrow> process list" where
  "owners_at v inode =
     List.map_filter (\<lambda>pid. process_at v pid (users v))
       (take max_owners (get_or [] (map_of (socket_owners v [inode]) inode)))"

definition clip_chars :: "string \<Rightarrow> nat \<Rightarrow> string" where
  "clip_chars value limit =
     (if limit < char_count value then of_chars (take limit (chars value)) else value)"

definition helper_owner :: "process \<Rightarrow> json" where
  "helper_owner p = json_obj
     [(''pid'', JNum (nat_digits (o_pid p))), (''start'', JNum (nat_digits (o_start p))),
      (''name'', JStr (clip_chars (o_name p) 64)), (''uid'', JNum (nat_digits (o_uid p))),
      (''user'', JStr (clip_chars (o_user p) 64)), (''unit'', JStr (clip_chars (o_unit p) 256)),
      (''scope'', JStr (o_scope p)), (''service'', JStr (clip_chars (o_service p) 256)),
      (''cwd'', JStr (clip_chars (o_cwd p) 256)), (''project'', JStr (clip_chars (o_project p) 64)),
      (''projectPath'', JStr (clip_chars (o_project_path p) 256)), (''proxy'', JStr (o_proxy p))]"

type_synonym helper_answer = "helper_effect list \<times> (string + json)"

definition identify :: "proc_view \<Rightarrow> nat \<Rightarrow> string \<Rightarrow> nat \<Rightarrow> nat \<Rightarrow> helper_answer" where
  "identify v inode address number uid =
     (case find_listener v inode address number of
        None \<Rightarrow> ([], Inl ''gone'')
      | Some l \<Rightarrow>
          if l_uid l \<noteq> uid then ([], Inl ''changed'')
          else ([], Inr (json_obj [(''ok'', JBool True),
                  (''owners'', JArr (map helper_owner (owners_at v inode)))])))"

definition service_command :: "bool \<Rightarrow> string \<Rightarrow> string list" where
  "service_command force unit =
     (if force then [''kill'', ''--kill-whom=all'', ''--signal=SIGKILL'', ''--'', unit]
      else [''stop'', ''--'', unit])"

definition stop_service :: "helper_host \<Rightarrow> proc_view \<Rightarrow> bool \<Rightarrow> string \<Rightarrow> nat \<Rightarrow> string \<Rightarrow> nat
    \<Rightarrow> helper_answer" where
  "stop_service hh v force unit inode address number =
     (case find_listener v inode address number of
        None \<Rightarrow> ([], Inl ''gone'')
      | Some l \<Rightarrow>
          (let resolved = owners_at v inode
           in if resolved = [] \<or> list_ex (\<lambda>p. o_service p \<noteq> unit \<or> o_scope p \<noteq> ''system'') resolved
              then ([], Inl ''changed'')
              else
                (let command = service_command force unit
                 in ([Systemctl command],
                     if \<not> h_systemctl hh command then Inl ''failed''
                     else Inr (json_obj [(''ok'', JBool True), (''target'', JStr ''service''),
                                         (''unit'', JStr unit)])))))"

definition same_process :: "proc_view \<Rightarrow> nat \<Rightarrow> nat \<Rightarrow> nat \<Rightarrow> nat \<Rightarrow> bool" where
  "same_process v pid start uid inode \<longleftrightarrow>
     start_time v pid = Some start \<and> process_uid v pid = Some uid \<and> holds_socket v pid inode"

text \<open>\<open>signal_checked\<close>: the signal is sent only to the pinned process, after validation.\<close>

definition signal_checked :: "helper_host \<Rightarrow> nat \<Rightarrow> nat \<Rightarrow> bool \<Rightarrow> helper_effect list \<times> bool" where
  "signal_checked hh pid number valid =
     (if pid < 2 \<or> i32_max < pid \<or> \<not> h_pin hh pid \<or> \<not> valid then ([], False)
      else ([Signalled pid number], h_send hh pid number))"

definition stop_process :: "helper_host \<Rightarrow> proc_view \<Rightarrow> proc_view \<Rightarrow> bool \<Rightarrow> nat \<Rightarrow> nat \<Rightarrow> nat \<Rightarrow> nat
    \<Rightarrow> string \<Rightarrow> nat \<Rightarrow> helper_answer" where
  "stop_process hh v later force pid start uid inode address number =
     (if pid < 2 then ([], Inl ''invalid_target'')
      else
        (case find_listener v inode address number of
           None \<Rightarrow> ([], Inl ''gone'')
         | Some l \<Rightarrow>
             if \<not> same_process v pid start uid inode then ([], Inl ''changed'')
             else
               (case signal_checked hh pid (if force then sigkill else sigterm)
                       (same_process later pid start uid inode) of
                  (effs, sent) \<Rightarrow>
                    (effs, if \<not> sent then Inl ''failed''
                           else Inr (json_obj [(''ok'', JBool True), (''target'', JStr ''process''),
                                               (''pid'', JNum (nat_digits pid))])))))"

section \<open>Dispatch\<close>

definition dispatch :: "helper_host \<Rightarrow> proc_view \<Rightarrow> proc_view \<Rightarrow> string list \<Rightarrow> helper_answer" where
  "dispatch hh v later args =
     (case args of
        [op, inode, address, port, uid] \<Rightarrow>
          if op \<noteq> ''identify'' then ([], Inl ''invalid_target'')
          else
            (case (decimal_arg inode 20, binding_arg address, port_arg port, u32_arg uid) of
               (Inr i, Inr a, Inr p, Inr u) \<Rightarrow> identify v i a p u
             | _ \<Rightarrow> ([], Inl ''invalid_target''))
      | [op, mode, unit, inode, address, port] \<Rightarrow>
          if op \<noteq> ''service'' then ([], Inl ''invalid_target'')
          else
            (case (mode_arg mode, service_arg unit, decimal_arg inode 20, binding_arg address,
                   port_arg port) of
               (Inr m, Inr un, Inr i, Inr a, Inr p) \<Rightarrow> stop_service hh v m un i a p
             | _ \<Rightarrow> ([], Inl ''invalid_target''))
      | [op, mode, pid, start, uid, inode, address, port] \<Rightarrow>
          if op \<noteq> ''process'' then ([], Inl ''invalid_target'')
          else
            (case (mode_arg mode, u32_arg pid, decimal_arg start 20, u32_arg uid, decimal_arg inode 20,
                   binding_arg address, port_arg port) of
               (Inr m, Inr pd, Inr st, Inr u, Inr i, Inr a, Inr p) \<Rightarrow>
                 stop_process hh v later m pd st u i a p
             | _ \<Rightarrow> ([], Inl ''invalid_target''))
      | _ \<Rightarrow> ([], Inl ''invalid_target''))"

definition exit_code :: "string \<Rightarrow> nat" where
  "exit_code error =
     (if error = ''invalid_target'' then 64 else if error = ''changed'' then 65
      else if error = ''gone'' then 66 else 67)"

end
