(* ===== verification/Ports_Facts.thy ===== *)
theory Ports_Facts
  imports Ports_Helper
begin

text \<open>
  Facts about what a scan of \<open>/proc\<close> can contain, which the port inspector's properties share:
  every number fits the width the code gives it, every owner was listed by the kernel or
  remembered with its start time, and a service name is a stoppable unit.
\<close>

section \<open>Separated fields\<close>

lemma split_on_fields:
  "fs \<noteq> [] \<Longrightarrow> list_all (\<lambda>f. d \<notin> set f) fs \<Longrightarrow>
   split_on d (concat (map (\<lambda>f. f @ [d]) (butlast fs)) @ last fs) = fs"
proof (induction fs)
  case (Cons f fs)
  then show ?case
    by (cases fs) (auto simp: split_on_notin split_on_append)
qed simp

definition fields_ok :: "string list \<Rightarrow> bool" where
  "fields_ok fs \<longleftrightarrow> fs \<noteq> [] \<and> list_all (\<lambda>f. CHR ''|'' \<notin> set f) fs"

interpretation token_fields: codec fields_ok bar_join "\<lambda>s. Some (split_on (CHR ''|'') s)"
  by unfold_locales (simp add: bar_join_def fields_ok_def split_on_fields)

lemma split_token: "fields_ok fs \<Longrightarrow> split_on (CHR ''|'') (bar_join fs) = fs"
  using token_fields.dec_enc [of fs] by simp

section \<open>Characters of an address\<close>

definition address_char :: "char \<Rightarrow> bool" where
  "address_char c \<longleftrightarrow> is_ascii_hexdigit c \<or> c \<in> set ''[].:''"

lemma digit_address_char: "is_ascii_digit c \<Longrightarrow> address_char c"
  by (simp add: address_char_def is_ascii_hexdigit_def)

lemma nat_digits_address: "list_all address_char (nat_digits n)"
  using nat_digits_digit [of n] by (auto simp: list_all_iff intro: digit_address_char)

lemma hex_char_address: "n < 16 \<Longrightarrow> address_char (hex_char n)"
  by (auto simp: address_char_def hex_char_def ascii_defs)

lemma show_hex_address: "list_all address_char (show_hex n)"
proof (induction n rule: show_hex.induct)
  case (1 n)
  then show ?case
    by (subst show_hex.simps) (simp add: hex_char_address)
qed

lemma show_v4_address: "list_all address_char (show_v4 os)"
proof -
  have "address_char (CHR ''.'')" by (simp add: address_char_def)
  then show ?thesis
    using nat_digits_address by (auto simp: show_v4_def list_all_iff)
qed

lemma colon_join_address: "list_all (list_all address_char) fs \<Longrightarrow> list_all address_char (colon_join fs)"
  by (induction fs rule: colon_join.induct) (auto simp: address_char_def)

lemma show_v6_address: "list_all address_char (show_v6 os)"
proof -
  have h: "list_all (list_all address_char) (map show_hex ns)" for ns
    using show_hex_address by (simp add: list_all_iff)
  have "address_char (CHR '':'')" "address_char (CHR ''f'')"
    by (simp_all add: address_char_def ascii_defs)
  then show ?thesis
    using colon_join_address [OF h] show_v4_address
    by (auto simp: show_v6_def Let_def split: option.splits prod.splits)
qed

lemma binding_address: "list_all address_char (binding l)"
proof -
  have "address_char (CHR ''['')" "address_char (CHR '']'')" "address_char (CHR '':'')"
    by (simp_all add: address_char_def)
  then show ?thesis
    using show_v4_address show_v6_address nat_digits_address
    by (auto simp: binding_def split: ip.splits)
qed

lemma bar_not_address: "list_all address_char s \<Longrightarrow> CHR ''|'' \<notin> set s"
  by (auto simp: list_all_iff address_char_def ascii_defs dest!: bspec)

lemma binding_no_bar: "CHR ''|'' \<notin> set (binding l)"
  by (rule bar_not_address [OF binding_address])

lemma nat_digits_no_bar: "CHR ''|'' \<notin> set (nat_digits n)"
  by (rule bar_not_address [OF nat_digits_address])

lemma unit_no_bar: "valid_service_unit u \<Longrightarrow> CHR ''|'' \<notin> set u"
  by (auto simp: valid_service_unit_def list_all_iff service_unit_char_def ascii_defs dest!: bspec)

section \<open>Listeners fit their widths\<close>

definition listener_ok :: "listener \<Rightarrow> bool" where
  "listener_ok l \<longleftrightarrow> l_port l \<le> u16_max \<and> l_uid l \<le> u32_max \<and> l_inode l \<le> u64_max"

lemma parse_hex_bound: "parse_hex m s = Some n \<Longrightarrow> n \<le> m"
  by (auto simp: parse_hex_def Let_def split: if_splits option.splits)

lemma parse_line_ok: "parse_line line = Some l \<Longrightarrow> listener_ok l"
  by (auto simp: parse_line_def listener_ok_def dest!: parse_hex_bound parse_uint_bound
      split: list.splits if_splits option.splits)

lemma set_map_filter: "set (List.map_filter g xs) = {y. \<exists>x \<in> set xs. g x = Some y}"
  by (induction xs) (auto simp: List.map_filter_def split: option.splits)

lemma parse_listeners_ok: "l \<in> set (parse_listeners s) \<Longrightarrow> listener_ok l"
  unfolding parse_listeners_def
  by (drule in_set_takeD) (auto simp: set_map_filter dest: parse_line_ok)

lemma listeners_ok: "l \<in> set (listeners v) \<Longrightarrow> listener_ok l"
  unfolding listeners_def set_sort
  by (drule in_set_takeD) (auto dest: parse_listeners_ok split: option.splits)

section \<open>Owners\<close>

definition owners_all :: "(nat \<Rightarrow> bool) \<Rightarrow> (nat \<times> nat list) list \<Rightarrow> bool" where
  "owners_all P owners \<longleftrightarrow> list_all (\<lambda>x. list_all P (snd x)) owners"

lemma owners_all_update:
  "owners_all P owners \<Longrightarrow> list_all P hs \<Longrightarrow> owners_all P (AList.update i hs owners)"
  by (induction owners) (auto simp: owners_all_def)

lemma owners_all_lookup: "owners_all P owners \<Longrightarrow> map_of owners i = Some hs \<Longrightarrow> list_all P hs"
  by (force simp: owners_all_def list_all_iff dest!: map_of_SomeD)

lemma add_links_all: "owners_all P owners \<Longrightarrow> P pid \<Longrightarrow> owners_all P (add_links wanted pid ts owners)"
proof (induction ts arbitrary: owners)
  case (Cons t ts)
  show ?case
    unfolding add_links.simps
    by (rule Cons.IH)
      (use Cons.prems owners_all_lookup [OF Cons.prems(1)] in
        \<open>auto simp: Let_def intro!: owners_all_update split: option.splits\<close>)
qed simp

lemma scan_entries_all:
  "owners_all (\<lambda>h. h \<le> u32_max) owners \<Longrightarrow>
   owners_all (\<lambda>h. h \<le> u32_max) (scan_entries v wanted scanned names owners)"
proof (induction v wanted scanned names owners rule: scan_entries.induct)
  case (2 v wanted scanned name names owners)
  show ?case
    using 2 add_links_all [where P = "\<lambda>h. h \<le> u32_max"] parse_uint_bound [of u32_max name]
    by (simp del: add_links.simps split: option.split)
qed simp

lemma socket_owners_pids:
  assumes "map_of (socket_owners v wanted) i = Some hs" "h \<in> set hs"
  shows "h \<le> u32_max"
proof -
  have "owners_all (\<lambda>h. h \<le> u32_max) (socket_owners v wanted)"
    using scan_entries_all [of "[]" v wanted 0]
    by (auto simp: socket_owners_def owners_all_def list_all_iff split: option.splits)
  from owners_all_lookup [OF this assms(1)] assms(2) show ?thesis
    by (simp add: list_all_iff)
qed

section \<open>Services\<close>

definition stoppable :: "string \<Rightarrow> bool" where
  "stoppable u \<longleftrightarrow> valid_service_unit u \<and> ends_with ''.service'' u \<and> \<not> is_user_manager u"

definition cgroup_ok :: "string \<times> string \<times> string \<Rightarrow> bool" where
  "cgroup_ok g \<longleftrightarrow> (case g of (unit, scope, service) \<Rightarrow>
     (service \<noteq> [] \<longrightarrow> stoppable service \<and> service = unit) \<and> scope \<in> {[], ''system'', ''user''})"

lemma cgroup_component_ok:
  "cgroup_ok (g_unit g, g_scope g, g_service g) \<Longrightarrow>
   (let g' = cgroup_component g c in cgroup_ok (g_unit g', g_scope g', g_service g'))"
  by (auto simp: cgroup_component_def cgroup_ok_def stoppable_def)

lemma cgroup_fold_ok:
  "cgroup_ok (g_unit g, g_scope g, g_service g) \<Longrightarrow>
   (let g' = foldl cgroup_component g cs in cgroup_ok (g_unit g', g_scope g', g_service g'))"
proof (induction cs arbitrary: g)
  case (Cons c cs)
  then show ?case using cgroup_component_ok [of g c] by (simp add: Let_def)
qed (simp add: Let_def)

lemma cgroup_lines_ok: "cgroup_ok (cgroup_lines ls)"
proof (induction ls)
  case (Cons line ls)
  have "cgroup_ok ([], [], [])" by (simp add: cgroup_ok_def)
  then show ?case
    using Cons cgroup_fold_ok [of "\<lparr>g_unit = [], g_scope = [], g_service = [], g_user = False\<rparr>"]
    by (auto simp: Let_def split: option.splits)
qed (simp add: cgroup_ok_def)

section \<open>Processes\<close>

definition process_ok :: "process \<Rightarrow> bool" where
  "process_ok p \<longleftrightarrow> o_start p \<le> u64_max \<and> o_uid p \<le> u32_max
     \<and> (o_service p \<noteq> [] \<longrightarrow> stoppable (o_service p)) \<and> o_scope p \<in> {[], ''system'', ''user''}"

lemma start_time_bound: "start_time v pid = Some n \<Longrightarrow> n \<le> u64_max"
  by (auto simp: start_time_def Option.bind_eq_Some_conv dest: parse_uint_bound)

lemma process_uid_bound: "process_uid v pid = Some n \<Longrightarrow> n \<le> u32_max"
  by (cases "pid_file v pid ''status''")
    (auto simp: process_uid_def status_uid_def Option.bind_eq_Some_conv
      dest!: parse_uint_bound split: list.splits)

lemma process_at_Some:
  assumes "process_at v pid us = Some p"
  shows "o_pid p = pid" "start_time v pid = Some (o_start p)"
    "o_uid p = get_or u32_max (process_uid v pid)"
    "cgroup_ok (o_unit p, o_scope p, o_service p)"
proof -
  have c: "cgroup_ok (get_or ([], [], []) (map_option cgroup_unit (pid_file v pid ''cgroup'')))"
    using cgroup_lines_ok
    by (cases "pid_file v pid ''cgroup''") (auto simp: get_or_def cgroup_unit_def cgroup_ok_def)
  show "o_pid p = pid" "start_time v pid = Some (o_start p)"
    "o_uid p = get_or u32_max (process_uid v pid)"
    "cgroup_ok (o_unit p, o_scope p, o_service p)"
    using assms c by (auto simp: process_at_def Let_def split: option.splits prod.splits)
qed

lemma process_at_ok: "process_at v pid us = Some p \<Longrightarrow> process_ok p"
  using process_at_Some [of v pid us p] start_time_bound [of v pid "o_start p"]
    process_uid_bound [of v pid]
  by (auto simp: process_ok_def cgroup_ok_def get_or_def split: option.splits)

section \<open>Rows\<close>

definition prow_ok :: "prow \<Rightarrow> bool" where
  "prow_ok w \<longleftrightarrow> listener_ok (w_listener w)
     \<and> (\<forall>p \<in> set (w_owners w). process_ok p \<and> o_pid p \<le> u32_max)"

definition identities_ok :: "(nat \<times> (nat \<times> nat) list) list \<Rightarrow> bool" where
  "identities_ok ids \<longleftrightarrow> list_all (\<lambda>(i, ps). list_all (\<lambda>(pid, start). pid \<le> u32_max) ps) ids"

lemma row_pids_bound:
  assumes "row_pids v ids (socket_owners v wanted) i = (pids, b)" "identities_ok ids" "pid \<in> set pids"
  shows "pid \<le> u32_max"
proof (cases "get_or [] (map_of (socket_owners v wanted) i) = []")
  case True
  with assms obtain ps start where "map_of ids i = Some ps" "(pid, start) \<in> set ps"
    by (auto simp: row_pids_def Let_def split: option.splits)
  with assms(2) show ?thesis
    by (auto simp: identities_ok_def list_all_iff dest!: map_of_SomeD)
next
  case False
  with assms(1,3) show ?thesis
    by (auto simp: row_pids_def Let_def get_or_def split: option.splits intro: socket_owners_pids)
qed

lemma scan_rows:
  assumes "w \<in> set (scan v ids)" "identities_ok ids"
  shows "prow_ok w"
proof -
  obtain l where l: "l \<in> set (listeners v)"
    and w: "w = row_at v ids (socket_owners v (remdups (map l_inode (listeners v)))) (users v) l"
    using assms(1) by (auto simp: scan_def Let_def)
  obtain pids b where p: "row_pids v ids (socket_owners v (remdups (map l_inode (listeners v)))) (l_inode l)
      = (pids, b)"
    by fastforce
  have "process_ok q \<and> o_pid q \<le> u32_max" if "q \<in> set (w_owners w)" for q
    using that row_pids_bound [OF p assms(2)]
    by (auto simp: w row_at_def p set_map_filter dest: process_at_ok process_at_Some(1))
  then show ?thesis
    using l by (simp add: prow_ok_def w row_at_def p listeners_ok)
qed

text \<open>The target of a scanned row.\<close>

definition target_ok :: "target \<Rightarrow> bool" where
  "target_ok t \<longleftrightarrow> t_pid t \<le> u32_max \<and> t_start t \<le> u64_max \<and> t_uid t \<le> u32_max
     \<and> t_scope t \<in> {[], ''system'', ''user''} \<and> t_kind t \<in> {''service'', ''process'', ''none'', ''ambiguous''}
     \<and> (t_unit t \<noteq> [] \<longrightarrow> stoppable (t_unit t))"

lemma service_of_Some:
  "service_of w = Some (unit, scope) \<Longrightarrow>
   w_owners w \<noteq> [] \<and> unit \<noteq> [] \<and> (\<forall>p \<in> set (w_owners w). o_service p = unit \<and> o_scope p = scope)"
  by (auto simp: service_of_def list_all_iff split: list.splits if_splits)

lemma owner_of_in: "owner_of selected w = Some p \<Longrightarrow> p \<in> set (w_owners w)"
  by (auto simp: owner_of_def find_Some_iff split: option.splits list.splits)

lemma target_of_ok: "prow_ok w \<Longrightarrow> target_ok (target_of selected self_uid w)"
  by (cases "w_owners w")
    (auto simp: target_of_def target_ok_def unavailable_def default_target_def prow_ok_def listener_ok_def
      process_ok_def dest!: service_of_Some owner_of_in split: option.splits)

end
