(* ===== verification/Ports_Worker.thy ===== *)
theory Ports_Worker
  imports Ports_Facts
begin

text \<open>
  \<open>tools/src/ports/worker.rs\<close>: the resident panel. Its state is the record \<open>panel\<close>; a request
  is handled in an environment \<open>penv\<close> that holds the successive looks at \<open>/proc\<close> the handler
  takes (the scan, the revalidation, the check before acting, the validation of the pinned
  process, the looks while a stop settles, the closing scan) and the host's answers: systemctl,
  run0 and the packaged helper, pidfd, and the JSON parser. What a handler does to the outside
  is a list of \<open>panel_effect\<close>s.
\<close>

datatype panel_effect =
    Ran_systemctl "string list"
  | Elevated "string list"
  | Own_signal nat nat

record penv =
  e_scan :: proc_view
  e_check :: proc_view
  e_act :: proc_view
  e_pinned :: proc_view
  e_settle :: "nat \<Rightarrow> proc_view"
  e_final :: proc_view
  e_run :: "string list \<Rightarrow> bool"              \<comment> \<open>systemctl succeeds\<close>
  e_show :: "string list \<Rightarrow> string option"     \<comment> \<open>the captured output of systemctl show\<close>
  e_helper :: "string option"                  \<comment> \<open>the packaged helper's path\<close>
  e_run0 :: "string list \<Rightarrow> string option"     \<comment> \<open>the captured output of run0\<close>
  e_host :: helper_host                        \<comment> \<open>pidfd\<close>
  e_parse :: "string \<Rightarrow> json option"

record panel =
  pn_query :: query
  pn_selection :: "(string \<times> nat) list"
  pn_identities :: "(nat \<times> (nat \<times> nat) list) list"
  pn_rows :: "prow list"
  pn_escalations :: "string list"
  pn_action :: json
  pn_open :: bool
  pn_generation :: nat

definition max_selections :: nat where "max_selections = 256"
definition max_escalations :: nat where "max_escalations = 64"
definition grace :: nat where "grace = 12"
definition force_grace :: nat where "force_grace = 8"

definition property_of :: "string \<Rightarrow> string \<Rightarrow> string" where
  "property_of s key =
     trim (case List.map_filter (\<lambda>line. Option.bind (strip_pre key line) (strip_pre ''='')) (str_lines s) of
             x # _ \<Rightarrow> x | [] \<Rightarrow> [])"

definition mode_text :: "bool \<Rightarrow> string" where
  "mode_text force = (if force then ''force'' else ''graceful'')"

definition stop_reply :: "string \<Rightarrow> bool \<Rightarrow> string \<Rightarrow> bool \<Rightarrow> json" where
  "stop_reply error remains tok force = json_obj
     [(''type'', JStr ''stop''), (''token'', JStr tok), (''mode'', JStr (mode_text force)),
      (''ok'', JBool (error = [] \<and> \<not> remains)), (''error'', JStr error), (''remaining'', JBool remains)]"

definition new_panel :: panel where
  "new_panel = \<lparr>pn_query = (parse_query [])\<lparr>q_scope := ''all''\<rparr>, pn_selection = [], pn_identities = [],
     pn_rows = [], pn_escalations = [], pn_action = JNull, pn_open = False, pn_generation = 0\<rparr>"

section \<open>The desktop's effects\<close>

definition systemctl_args :: "bool \<Rightarrow> string list \<Rightarrow> string list" where
  "systemctl_args user args = (if user then [''--user''] else []) @ args"

definition show_args :: "string list" where
  "show_args = [''show'', ''--property=Id'', ''--property=Restart'', ''--property=TriggeredBy'',
     ''--property=ActiveState'', ''--'']"

definition desktop_show :: "penv \<Rightarrow> bool \<Rightarrow> string \<Rightarrow> string" where
  "desktop_show e user unit =
     (if \<not> valid_service_unit unit then []
      else get_or [] (e_show e (systemctl_args user (show_args @ [unit]))))"

definition elevate_error :: "string \<Rightarrow> string" where
  "elevate_error error =
     (if error = ''changed'' then ''changed'' else if error = ''gone'' then ''gone''
      else if error = ''invalid_target'' then ''invalid'' else ''failed'')"

text \<open>The helper's reply is the last line that is JSON, when it is an object.\<close>

definition elevate_answer :: "(string \<Rightarrow> json option) \<Rightarrow> string \<Rightarrow> string + json" where
  "elevate_answer parse out =
     (case List.map_filter (\<lambda>line. parse (trim line)) (rev (str_lines out)) of
        [] \<Rightarrow> Inl ''not-authorized''
      | v # _ \<Rightarrow>
          if \<not> is_object v then Inl ''not-authorized''
          else if json_index v ''ok'' = JBool True then Inr v
          else Inl (elevate_error (case as_str (json_index v ''error'') of Some s \<Rightarrow> s | None \<Rightarrow> [])))"

definition elevate :: "penv \<Rightarrow> string list \<Rightarrow> panel_effect list \<times> (string + json)" where
  "elevate e args =
     (case e_helper e of
        None \<Rightarrow> ([], Inl ''unavailable'')
      | Some path \<Rightarrow>
          ([Elevated args],
           case e_run0 e (path # args) of
             None \<Rightarrow> Inl ''failed'' | Some out \<Rightarrow> elevate_answer (e_parse e) out))"

section \<open>Rows and the snapshot\<close>

definition prow_id :: "prow \<Rightarrow> string" where "prow_id w = listener_id (w_listener w)"

definition rescan :: "proc_view \<Rightarrow> panel \<Rightarrow> panel" where
  "rescan v p =
     (let rows = scan v (pn_identities p)
      in p\<lparr>pn_rows := rows,
           pn_selection := filter (\<lambda>(ident, _). ident \<in> set (map prow_id rows)) (pn_selection p)\<rparr>)"

definition selected_of :: "panel \<Rightarrow> string \<Rightarrow> nat" where
  "selected_of p ident = get_or 0 (map_of (pn_selection p) ident)"

definition find_row :: "panel \<Rightarrow> string \<Rightarrow> prow option" where
  "find_row p ident = find (\<lambda>w. prow_id w = ident) (pn_rows p)"

definition panel_snapshot :: "nat \<Rightarrow> panel \<Rightarrow> panel \<times> json" where
  "panel_snapshot self_uid p =
     (let p = p\<lparr>pn_generation := (pn_generation p + 1) mod 2 ^ 64\<rparr>; q = pn_query p
      in (p, json_obj
        [(''version'', JNum ''1''), (''type'', JStr ''snapshot''),
         (''generation'', JNum (nat_digits (pn_generation p))), (''open'', JBool (pn_open p)),
         (''selfUid'', JNum (nat_digits self_uid)), (''total'', JNum (nat_digits (length (pn_rows p)))),
         (''limited'', JBool (list_ex (\<lambda>w. w_owners w = []) (pn_rows p))),
         (''query'', json_obj
            [(''text'', JStr (q_text q)), (''scope'', JStr (q_scope q)),
             (''port'', case q_port q of Some n \<Rightarrow> JNum (nat_digits n) | None \<Rightarrow> JNull),
             (''host'', JStr (q_host q)), (''scheme'', JStr (q_scheme q)),
             (''explicitScheme'', JBool (q_explicit q))]),
         (''rows'', JArr (map (\<lambda>w. row_value w q (selected_of p (prow_id w)) self_uid)
                          (filter (query_matches q) (pn_rows p)))),
         (''action'', pn_action p)]))"

section \<open>The plan\<close>

definition siblings :: "panel \<Rightarrow> string \<Rightarrow> target \<Rightarrow> string list" where
  "siblings p ident t =
     map (\<lambda>w. binding (w_listener w))
       (filter (\<lambda>w. prow_id w \<noteq> ident \<and>
          (if t_kind t = ''service'' then service_of w = Some (t_unit t, t_scope t)
           else if t_kind t = ''process'' then list_ex (\<lambda>o'. o_pid o' = t_pid t) (w_owners w)
           else False)) (pn_rows p))"

fun comma_join :: "string list \<Rightarrow> string" where
  "comma_join [] = []"
| "comma_join [x] = x"
| "comma_join (x # y # ys) = x @ '', '' @ comma_join (y # ys)"

definition service_disclosure :: "target \<Rightarrow> string \<Rightarrow> nat \<Rightarrow> nat \<Rightarrow> string \<Rightarrow> string \<Rightarrow> string list" where
  "service_disclosure t bind_text port owners restart triggers =
     [''Stopping '' @ t_unit t @ '' stops the service, not only the process listening on '' @ bind_text @ ''.'']
     @ (if 1 < owners then [''It currently runs '' @ nat_digits owners @ '' processes.''] else [])
     @ (if restart \<noteq> [] \<and> restart \<noteq> ''no''
        then [''Restart='' @ restart @ '': systemd starts it again on its own, so port '' @ nat_digits port
              @ '' may reopen.''] else [])
     @ (if triggers \<noteq> []
        then [triggers @ '' can activate it again. Stop does not disable anything.''] else [])"

definition process_disclosure :: "target \<Rightarrow> string list" where
  "process_disclosure t =
     [''Only process '' @ nat_digits (t_pid t) @ '' ('' @ t_name t @ '') is asked to stop.'']
     @ (if t_privileged t
        then [''It runs as '' @ (if t_user t = [] then ''uid '' @ nat_digits (t_uid t) else t_user t)
              @ '', so stopping it needs authentication.''] else [])"

definition actionable :: "target \<Rightarrow> bool" where
  "actionable t \<longleftrightarrow> t_kind t = ''service'' \<or> t_kind t = ''process''"

definition plan_target :: "target \<Rightarrow> json" where
  "plan_target t = json_obj
     [(''kind'', JStr (t_kind t)), (''unit'', JStr (t_unit t)), (''scope'', JStr (t_scope t)),
      (''pid'', JNum (nat_digits (t_pid t))), (''name'', JStr (t_name t)), (''user'', JStr (t_user t)),
      (''privileged'', JBool (t_privileged t)), (''reason'', JStr (t_reason t))]"

definition plan :: "penv \<Rightarrow> nat \<Rightarrow> panel \<Rightarrow> string \<Rightarrow> string \<Rightarrow> json" where
  "plan e self_uid p ident mode =
     (let mode = mode_text (mode = ''force'')
      in case find_row p ident of
           None \<Rightarrow> json_obj [(''type'', JStr ''plan''), (''id'', JStr ident), (''mode'', JStr mode),
                     (''ok'', JBool False), (''error'', JStr ''gone'')]
         | Some w \<Rightarrow>
             (let selected = selected_of p ident; t = target_of selected self_uid w;
                  tok = token (review_of selected self_uid w); bind_text = binding (w_listener w);
                  port = l_port (w_listener w);
                  proxy = (case owner_of selected w of Some o' \<Rightarrow> o_proxy o' | None \<Rightarrow> []);
                  also_held = siblings p ident t;
                  properties = (if t_kind t = ''service''
                                then desktop_show e (t_scope t = ''user'') (t_unit t) else []);
                  restart = (if t_kind t = ''service'' then property_of properties ''Restart'' else []);
                  triggers = (if t_kind t = ''service'' then property_of properties ''TriggeredBy'' else []);
                  disclosure =
                    (if t_kind t = ''service''
                     then service_disclosure t bind_text port (length (w_owners w)) restart triggers
                     else if t_kind t = ''process'' then process_disclosure t else [])
                    @ (if proxy \<noteq> []
                       then [''This is a host-side proxy, not the application it forwards to.''] else [])
                    @ (if also_held \<noteq> [] then [''It also holds '' @ comma_join also_held @ ''.''] else [])
              in json_obj
                [(''type'', JStr ''plan''), (''id'', JStr ident), (''mode'', JStr mode),
                 (''ok'', JBool (actionable t)),
                 (''error'', JStr (if actionable t then [] else ''unavailable'')),
                 (''token'', JStr tok), (''binding'', JStr bind_text), (''port'', JNum (nat_digits port)),
                 (''target'', plan_target t), (''restart'', JStr restart),
                 (''triggeredBy'', JStr triggers), (''also'', JArr (map JStr also_held)),
                 (''disclosure'', JArr (map JStr disclosure)),
                 (''canForce'', JBool (tok \<in> set (pn_escalations p)))]))"

section \<open>Identifying an owner\<close>

definition identify_reply :: "string \<Rightarrow> string \<Rightarrow> json" where
  "identify_reply ident error = json_obj
     [(''type'', JStr ''identify''), (''id'', JStr ident), (''ok'', JBool (error = [])),
      (''error'', JStr error)]"

definition identified_owner :: "json \<Rightarrow> (nat \<times> nat) option" where
  "identified_owner v =
     Option.bind (as_u64 (json_index v ''pid'')) (\<lambda>pid.
       if pid \<le> u32_max
       then map_option (\<lambda>start. (pid, start)) (as_u64 (json_index v ''start'')) else None)"

definition identified_owners :: "json \<Rightarrow> (nat \<times> nat) list" where
  "identified_owners v =
     List.map_filter identified_owner
       (case as_array (json_index v ''owners'') of Some xs \<Rightarrow> xs | None \<Rightarrow> [])"

definition identify_args :: "listener \<Rightarrow> string list" where
  "identify_args l = [''identify'', nat_digits (l_inode l), binding l, nat_digits (l_port l), nat_digits (l_uid l)]"

definition identify_row :: "penv \<Rightarrow> nat \<Rightarrow> panel \<Rightarrow> string \<Rightarrow> panel \<times> panel_effect list \<times> json" where
  "identify_row e self_uid p ident =
     (case find_row p ident of
        None \<Rightarrow> (p, [], identify_reply ident ''gone'')
      | Some w \<Rightarrow>
          if \<not> identifiable self_uid w then (p, [], identify_reply ident ''unavailable'')
          else
            (let inode = l_inode (w_listener w)
             in case elevate e (identify_args (w_listener w)) of
                  (effs, Inl error) \<Rightarrow> (p, effs, json_obj
                    [(''type'', JStr ''identify''), (''id'', JStr ident), (''ok'', JBool False),
                     (''error'', JStr error)])
                | (effs, Inr v) \<Rightarrow>
                    (let resolved = identified_owners v
                     in if resolved = []
                        then (p\<lparr>pn_identities := AList.delete inode (pn_identities p)\<rparr>, effs,
                              identify_reply ident ''unknown'')
                        else
                          (let p = (if length (pn_identities p) < max_selections
                                    then p\<lparr>pn_identities := AList.update inode resolved (pn_identities p)\<rparr>
                                    else p)
                           in (rescan (e_final e) p, effs, identify_reply ident [])))))"

section \<open>Stopping\<close>

definition revalidate :: "proc_view \<Rightarrow> nat \<Rightarrow> panel \<Rightarrow> review \<Rightarrow> string + (string \<times> target)" where
  "revalidate v self_uid p r =
     (case find_listener v (v_inode r) (v_binding r) (v_port r) of
        None \<Rightarrow> Inl ''gone''
      | Some l \<Rightarrow>
          (case find_row p (listener_id l) of
             None \<Rightarrow> Inl ''gone''
           | Some w \<Rightarrow>
               (let now = review_of (selected_of p (listener_id l)) self_uid w
                in Inr (token now, v_target now))))"

definition present :: "proc_view \<Rightarrow> review \<Rightarrow> bool" where
  "present v r \<longleftrightarrow> find_listener v (v_inode r) (v_binding r) (v_port r) \<noteq> None"

fun remains :: "(nat \<Rightarrow> proc_view) \<Rightarrow> review \<Rightarrow> nat \<Rightarrow> nat \<Rightarrow> bool" where
  "remains looks r i 0 = present (looks i) r"
| "remains looks r i (Suc n) = (if \<not> present (looks i) r then False else remains looks r (Suc i) n)"

definition service_args :: "review \<Rightarrow> target \<Rightarrow> bool \<Rightarrow> string list" where
  "service_args r t force =
     [''service'', mode_text force, t_unit t, nat_digits (v_inode r), v_binding r, nat_digits (v_port r)]"

definition process_args :: "review \<Rightarrow> target \<Rightarrow> bool \<Rightarrow> string list" where
  "process_args r t force =
     [''process'', mode_text force, nat_digits (t_pid t), nat_digits (t_start t), nat_digits (t_uid t),
      nat_digits (v_inode r), v_binding r, nat_digits (v_port r)]"

definition perform :: "penv \<Rightarrow> review \<Rightarrow> target \<Rightarrow> bool \<Rightarrow> panel_effect list \<times> (string + unit)" where
  "perform e r t force =
     (if t_kind t = ''service'' \<and> \<not> t_privileged t then
        (let args = systemctl_args (t_scope t = ''user'') (service_command force (t_unit t))
         in ([Ran_systemctl args], if e_run e args then Inr () else Inl ''failed''))
      else if t_kind t = ''service'' then
        (case elevate e (service_args r t force) of
           (effs, Inl error) \<Rightarrow> (effs, Inl error) | (effs, Inr _) \<Rightarrow> (effs, Inr ()))
      else if t_kind t = ''process'' \<and> \<not> t_privileged t then
        (if \<not> same_process (e_act e) (t_pid t) (t_start t) (t_uid t) (v_inode r) then ([], Inl ''changed'')
         else
           (case signal_checked (e_host e) (t_pid t) (if force then sigkill else sigterm)
                   (same_process (e_pinned e) (t_pid t) (t_start t) (t_uid t) (v_inode r)) of
              (effs, sent) \<Rightarrow>
                (map (\<lambda>x. case x of Signalled pid n \<Rightarrow> Own_signal pid n
                              | Systemctl args \<Rightarrow> Ran_systemctl args) effs,
                 if sent then Inr () else Inl ''failed'')))
      else if t_kind t = ''process'' then
        (case elevate e (process_args r t force) of
           (effs, Inl error) \<Rightarrow> (effs, Inl error) | (effs, Inr _) \<Rightarrow> (effs, Inr ()))
      else ([], Inl ''unavailable''))"

definition settle_escalations :: "string \<Rightarrow> bool \<Rightarrow> bool \<Rightarrow> string list \<Rightarrow> string list" where
  "settle_escalations tok force left_over escalations =
     (if left_over \<and> \<not> force then
        (if length escalations < max_escalations then List.insert tok escalations else escalations)
      else if \<not> left_over then removeAll tok escalations else escalations)"

definition stop_listener :: "penv \<Rightarrow> nat \<Rightarrow> panel \<Rightarrow> string \<Rightarrow> bool \<Rightarrow> panel \<times> panel_effect list \<times> json" where
  "stop_listener e self_uid p tok force =
     (case parse_token tok of
        None \<Rightarrow> (p, [], stop_reply ''invalid'' False tok force)
      | Some r \<Rightarrow>
          if force \<and> tok \<notin> set (pn_escalations p)
          then (p, [], stop_reply ''not-escalatable'' True tok force)
          else
            (let p = rescan (e_scan e) p
             in case revalidate (e_check e) self_uid p r of
                  Inl error \<Rightarrow> (p, [], stop_reply error (error = ''changed'') tok force)
                | Inr (now, t) \<Rightarrow>
                    if now \<noteq> tok then (p, [], stop_reply ''changed'' True tok force)
                    else
                      (case perform e r t force of
                         (effs, Inl error) \<Rightarrow> (p, effs, stop_reply error True tok force)
                       | (effs, Inr _) \<Rightarrow>
                           (let left_over = remains (e_settle e) r 0 (if force then force_grace else grace);
                                p = rescan (e_final e)
                                  (p\<lparr>pn_escalations := settle_escalations tok force left_over (pn_escalations p)\<rparr>)
                            in (p, effs,
                                json_put ''unit'' (JStr (t_unit (v_target r)))
                                  (json_put ''target'' (JStr (t_kind (v_target r)))
                                    (json_put ''canForce'' (JBool (tok \<in> set (pn_escalations p)))
                                      (stop_reply [] left_over tok force))))))))"

definition select :: "panel \<Rightarrow> string \<Rightarrow> nat \<Rightarrow> panel \<times> json" where
  "select p ident pid =
     (let known = (case find_row p ident of Some w \<Rightarrow> list_ex (\<lambda>o'. o_pid o' = pid) (w_owners w) | None \<Rightarrow> False);
          p = (if known \<and> length (pn_selection p) < max_selections
               then p\<lparr>pn_selection := AList.update ident pid (pn_selection p)\<rparr>
               else if pid = 0 then p\<lparr>pn_selection := AList.delete ident (pn_selection p)\<rparr> else p)
      in (p, json_obj [(''type'', JStr ''select''), (''id'', JStr ident), (''ok'', JBool (known \<or> pid = 0))]))"

section \<open>One request\<close>

definition str_or :: "string \<Rightarrow> json \<Rightarrow> string" where
  "str_or d v = (case as_str v of Some s \<Rightarrow> s | None \<Rightarrow> d)"

definition set_query :: "panel \<Rightarrow> json \<Rightarrow> panel" where
  "set_query p m =
     (let scope = as_str (json_index m ''scope'')
      in p\<lparr>pn_query := (parse_query (str_or [] (json_index m ''text'')))
             \<lparr>q_scope := (if scope = Some ''loopback'' then ''loopback''
                          else if scope = Some ''network'' then ''network'' else ''all'')\<rparr>\<rparr>)"

definition set_open :: "penv \<Rightarrow> panel \<Rightarrow> bool \<Rightarrow> panel" where
  "set_open e p b =
     (let p = p\<lparr>pn_open := b\<rparr>
      in if b then rescan (e_scan e) p
         else p\<lparr>pn_rows := [], pn_selection := [], pn_identities := [], pn_escalations := []\<rparr>)"

definition wanted_pid :: "json \<Rightarrow> nat" where
  "wanted_pid m = (let n = get_or 0 (as_u64 (json_index m ''pid'')) in if n \<le> u32_max then n else 0)"

text \<open>The operation alone: the state, the effects and the direct reply; \<open>None\<close> is an unknown
  operation, which is not answered.\<close>

definition handle :: "penv \<Rightarrow> nat \<Rightarrow> panel \<Rightarrow> json \<Rightarrow> panel \<times> (panel_effect list \<times> json list) option" where
  "handle e self_uid p m =
     (let op = str_or [] (json_index m ''op''); ident = str_or [] (json_index m ''id'');
          p = p\<lparr>pn_action := JNull\<rparr>
      in if op = ''panel'' then
           (set_open e p (get_or False (as_bool (json_index m ''open''))), Some ([], []))
         else if op = ''query'' then (set_query p m, Some ([], []))
         else if op = ''refresh'' then (rescan (e_scan e) p, Some ([], []))
         else if op = ''select'' then
           (case select p ident (wanted_pid m) of (p, v) \<Rightarrow> (p, Some ([], [v])))
         else if op = ''plan'' then
           (let p = rescan (e_scan e) p
            in (p, Some ([], [plan e self_uid p ident (str_or ''graceful'' (json_index m ''mode''))])))
         else if op = ''identify'' then
           (case identify_row e self_uid (rescan (e_scan e) p) ident of
              (p, effs, v) \<Rightarrow> (p, Some (effs, [v])))
         else if op = ''stop'' then
           (case stop_listener e self_uid p (str_or [] (json_index m ''token''))
                   (as_str (json_index m ''mode'') = Some ''force'') of
              (p, effs, v) \<Rightarrow> (p\<lparr>pn_action := v\<rparr>, Some (effs, [v])))
         else (p, None))"

definition panel_request :: "penv \<Rightarrow> nat \<Rightarrow> panel \<Rightarrow> string \<Rightarrow> panel \<times> panel_effect list \<times> json list" where
  "panel_request e self_uid p line =
     (case e_parse e line of
        None \<Rightarrow> (p, [], [])
      | Some m \<Rightarrow>
          (case handle e self_uid p m of
             (p, None) \<Rightarrow> (p, [], [])
           | (p, Some (effs, replies)) \<Rightarrow>
               (case panel_snapshot self_uid p of (p, v) \<Rightarrow> (p, effs, replies @ [v]))))"

definition tick :: "penv \<Rightarrow> nat \<Rightarrow> panel \<Rightarrow> panel \<times> json option" where
  "tick e self_uid p =
     (if \<not> pn_open p then (p, None)
      else case panel_snapshot self_uid (rescan (e_scan e) p) of (p, v) \<Rightarrow> (p, Some v))"

end
