(* ===== verification/Ports_Theorems.thy ===== *)
theory Ports_Theorems
  imports Ports_Worker
begin

text \<open>
  The properties of the port inspector: the review token is exact, the privileged helper and the
  panel act only on what was reviewed, and force is never the first attempt. The demo view is one
  socket on 127.0.0.1:8080 held by one process.
\<close>

section \<open>The review token\<close>

definition token_view :: "review \<Rightarrow> review" where
  "token_view r = (let t = v_target r
     in r\<lparr>v_target := default_target\<lparr>t_kind := t_kind t, t_unit := t_unit t, t_scope := t_scope t,
            t_pid := t_pid t, t_start := t_start t, t_uid := t_uid t\<rparr>\<rparr>)"

definition review_ok :: "review \<Rightarrow> bool" where
  "review_ok r \<longleftrightarrow> v_inode r \<le> u64_max \<and> v_port r \<le> u16_max \<and> CHR ''|'' \<notin> set (v_binding r)
     \<and> target_ok (v_target r)"

lemma split_token_of:
  assumes "review_ok r"
  shows "split_on (CHR ''|'') (token r) =
    [''1'', nat_digits (v_inode r), v_binding r, nat_digits (v_port r), t_kind (v_target r),
     t_unit (v_target r), t_scope (v_target r), nat_digits (t_pid (v_target r)),
     nat_digits (t_start (v_target r)), nat_digits (t_uid (v_target r))]"
proof -
  have "CHR ''|'' \<notin> set (t_kind (v_target r))" "CHR ''|'' \<notin> set (t_scope (v_target r))"
    "CHR ''|'' \<notin> set (t_unit (v_target r))"
    using assms unit_no_bar [of "t_unit (v_target r)"]
    by (cases "t_unit (v_target r)"; auto simp: review_ok_def target_ok_def stoppable_def)+
  then show ?thesis
    using assms
    by (simp add: token_def Let_def split_token fields_ok_def nat_digits_no_bar review_ok_def)
qed

lemma parse_token_token:
  assumes "review_ok r"
  shows "parse_token (token r) = (if actionable (v_target r) then Some (token_view r) else None)"
proof -
  have kind: "kind_of (t_kind (v_target r)) = (if actionable (v_target r) then Some (t_kind (v_target r)) else None)"
    by (auto simp: kind_of_def actionable_def)
  have scope: "scope_of (t_scope (v_target r)) = Some (t_scope (v_target r))"
    using assms by (auto simp: scope_of_def review_ok_def target_ok_def)
  have unit: "t_unit (v_target r) \<noteq> [] \<Longrightarrow> valid_service_unit (t_unit (v_target r))"
    using assms by (simp add: review_ok_def target_ok_def stoppable_def)
  have bounds: "v_inode r \<le> u64_max" "v_port r \<le> u16_max" "t_pid (v_target r) \<le> u32_max"
    "t_start (v_target r) \<le> u64_max" "t_uid (v_target r) \<le> u32_max"
    using assms by (simp_all add: review_ok_def target_ok_def)
  show ?thesis
    using unit bounds
    by (auto simp: parse_token_def split_token_of [OF assms] kind scope token_view_def Let_def)
qed

lemma review_of_ok: "prow_ok w \<Longrightarrow> review_ok (review_of selected self_uid w)"
  by (simp add: review_ok_def review_of_def target_of_ok binding_no_bar)
    (simp add: prow_ok_def listener_ok_def)

section \<open>Decimal arguments are canonical\<close>

lemma nat_digits_snoc: "0 < a \<Longrightarrow> d < 10 \<Longrightarrow> nat_digits (10 * a + d) = nat_digits a @ [char_of (48 + d)]"
  by (subst nat_digits.simps) simp

lemma char_of_digit_value: "is_ascii_digit c \<Longrightarrow> char_of (48 + digit_value c) = c \<and> digit_value c < 10"
  by (auto simp: is_ascii_digit_def digit_value_def)

lemma digits_canonical:
  "s \<noteq> [] \<Longrightarrow> list_all is_ascii_digit s \<Longrightarrow> length s = 1 \<or> hd s \<noteq> CHR ''0'' \<Longrightarrow>
   nat_digits (digits_value s) = s"
proof (induction s rule: rev_induct)
  case (snoc c s)
  have c: "char_of (48 + digit_value c) = c" "digit_value c < 10"
    using snoc.prems char_of_digit_value [of c] by auto
  show ?case
  proof (cases "s = []")
    case True
    then show ?thesis
      using c by (subst nat_digits.simps) (simp add: digits_value_def)
  next
    case False
    then have h: "hd s \<noteq> CHR ''0''" using snoc.prems by simp
    then have s: "nat_digits (digits_value s) = s" using snoc False by simp
    have "digits_value s \<noteq> 0"
    proof
      assume "digits_value s = 0"
      moreover have "hd (nat_digits 0) = CHR ''0''" by code_simp
      ultimately show False using s h by simp
    qed
    then show ?thesis
      using c s by (simp add: digits_value_snoc nat_digits_snoc)
  qed
qed simp

lemma decimal_arg_exact: "decimal_arg s limit = Inr n \<Longrightarrow> s = nat_digits n"
  using digits_canonical [of s]
  by (cases s) (auto simp: decimal_arg_def parse_uint_digits split: if_splits option.splits)

lemma typed_args:
  "port_arg s = Inr n \<Longrightarrow> s = nat_digits n \<and> 0 < n \<and> n \<le> u16_max"
  "u32_arg s = Inr n \<Longrightarrow> s = nat_digits n \<and> n \<le> u32_max"
  "service_arg s = Inr u \<Longrightarrow> s = u \<and> stoppable u"
  "binding_arg s = Inr b \<Longrightarrow> s = b"
  "mode_arg s = Inr f \<Longrightarrow> s = mode_text f"
  using decimal_arg_exact [of s 5 n] decimal_arg_exact [of s 10 n]
  by (auto simp: port_arg_def u32_arg_def service_arg_def binding_arg_def mode_arg_def mode_text_def
      stoppable_def split: sum.splits if_splits)

section \<open>The helper\<close>

lemma stop_service_effects:
  "fst (stop_service hh v force unit inode address number) = effs \<Longrightarrow> effs \<noteq> [] \<Longrightarrow>
   effs = [Systemctl (service_command force unit)] \<and> find_listener v inode address number \<noteq> None
   \<and> owners_at v inode \<noteq> []
   \<and> list_all (\<lambda>p. o_service p = unit \<and> o_scope p = ''system'') (owners_at v inode)"
  by (auto simp: stop_service_def Let_def list_ex_iff list_all_iff split: option.splits if_splits)

lemma signal_checked_effects:
  "signal_checked hh pid number valid = (effs, sent) \<Longrightarrow>
   (effs = [] \<and> \<not> sent) \<or> (effs = [Signalled pid number] \<and> valid \<and> 2 \<le> pid \<and> pid \<le> i32_max)"
  by (auto simp: signal_checked_def split: if_splits)

lemma stop_process_effects:
  "fst (stop_process hh v later force pid start uid inode address number) = effs \<Longrightarrow> effs \<noteq> [] \<Longrightarrow>
   effs = [Signalled pid (if force then sigkill else sigterm)] \<and> 2 \<le> pid \<and> pid \<le> i32_max
   \<and> find_listener v inode address number \<noteq> None
   \<and> same_process v pid start uid inode \<and> same_process later pid start uid inode"
  by (auto simp: stop_process_def split: option.splits if_splits prod.splits
      dest!: signal_checked_effects)

definition service_effect :: "proc_view \<Rightarrow> string list \<Rightarrow> bool \<Rightarrow> string \<Rightarrow> nat \<Rightarrow> string \<Rightarrow> nat
    \<Rightarrow> helper_effect list \<Rightarrow> bool" where
  "service_effect v args force unit inode address number effs \<longleftrightarrow>
     args = [''service'', mode_text force, unit, nat_digits inode, address, nat_digits number]
     \<and> effs = [Systemctl (service_command force unit)]
     \<and> stoppable unit \<and> find_listener v inode address number \<noteq> None \<and> owners_at v inode \<noteq> []
     \<and> list_all (\<lambda>p. o_service p = unit \<and> o_scope p = ''system'') (owners_at v inode)"

definition process_effect :: "proc_view \<Rightarrow> proc_view \<Rightarrow> string list \<Rightarrow> bool \<Rightarrow> nat \<Rightarrow> nat \<Rightarrow> nat \<Rightarrow> nat
    \<Rightarrow> string \<Rightarrow> nat \<Rightarrow> helper_effect list \<Rightarrow> bool" where
  "process_effect v later args force pid start uid inode address number effs \<longleftrightarrow>
     args = [''process'', mode_text force, nat_digits pid, nat_digits start, nat_digits uid,
             nat_digits inode, address, nat_digits number]
     \<and> effs = [Signalled pid (if force then sigkill else sigterm)]
     \<and> 2 \<le> pid \<and> pid \<le> i32_max \<and> find_listener v inode address number \<noteq> None
     \<and> same_process v pid start uid inode \<and> same_process later pid start uid inode"

lemma dispatch_split:
  assumes "fst (dispatch hh v later args) = effs" "effs \<noteq> []"
  shows "(\<exists>force unit inode address number.
            service_effect v args force unit inode address number effs)
       \<or> (\<exists>force pid start uid inode address number.
            process_effect v later args force pid start uid inode address number effs)"
proof -
  have lens: "length args = 5 \<or> length args = 6 \<or> length args = 8"
    using assms by (auto simp: dispatch_def split: list.splits)
  have five: "length args \<noteq> 5"
  proof
    assume "length args = 5"
    then obtain a b c d e where "args = [a, b, c, d, e]"
      by (auto simp: length_Suc_conv eval_nat_numeral)
    with assms show False
      by (auto simp: dispatch_def identify_def split: if_splits sum.splits option.splits)
  qed
  consider "length args = 6" | "length args = 8" using lens five by blast
  then show ?thesis
  proof cases
    case 1
    then obtain a b c d e f where args: "args = [a, b, c, d, e, f]"
      by (auto simp: length_Suc_conv eval_nat_numeral)
    with assms obtain m un i ad p where op: "a = ''service''" "mode_arg b = Inr m" "service_arg c = Inr un"
      "decimal_arg d 20 = Inr i" "binding_arg e = Inr ad" "port_arg f = Inr p"
      and run: "fst (stop_service hh v m un i ad p) = effs"
      by (auto simp: dispatch_def split: if_splits sum.splits)
    have "service_effect v args m un i ad p effs"
      using stop_service_effects [OF run assms(2)] typed_args op args decimal_arg_exact [OF op(4)]
      by (auto simp: service_effect_def)
    then show ?thesis by blast
  next
    case 2
    then obtain a b c d e f g h where args: "args = [a, b, c, d, e, f, g, h]"
      by (auto simp: length_Suc_conv eval_nat_numeral)
    with assms obtain m pd st u i ad p where op: "a = ''process''" "mode_arg b = Inr m" "u32_arg c = Inr pd"
      "decimal_arg d 20 = Inr st" "u32_arg e = Inr u" "decimal_arg f 20 = Inr i"
      "binding_arg g = Inr ad" "port_arg h = Inr p"
      and run: "fst (stop_process hh v later m pd st u i ad p) = effs"
      by (auto simp: dispatch_def split: if_splits sum.splits)
    have "process_effect v later args m pd st u i ad p effs"
      using stop_process_effects [OF run assms(2)] typed_args op args decimal_arg_exact [OF op(4)]
        decimal_arg_exact [OF op(6)]
      by (auto simp: process_effect_def)
    then show ?thesis by blast
  qed
qed

section \<open>The panel across requests\<close>

definition panel_step :: "nat \<Rightarrow> panel \<Rightarrow> penv \<times> string \<Rightarrow> panel" where
  "panel_step self_uid p ev = (case ev of (e, line) \<Rightarrow> fst (panel_request e self_uid p line))"

definition panel_run :: "nat \<Rightarrow> (penv \<times> string) list \<Rightarrow> panel" where
  "panel_run self_uid evs = foldl (panel_step self_uid) new_panel evs"

definition panel_inv :: "panel \<Rightarrow> bool" where
  "panel_inv p \<longleftrightarrow>
     identities_ok (pn_identities p) \<and> length (pn_identities p) \<le> max_selections
     \<and> length (pn_selection p) \<le> max_selections
     \<and> fst ` set (pn_selection p) \<subseteq> set (map prow_id (pn_rows p))
     \<and> length (pn_escalations p) \<le> max_escalations \<and> distinct (pn_escalations p)"

lemma rescan_simps [simp]:
  "pn_identities (rescan v p) = pn_identities p" "pn_escalations (rescan v p) = pn_escalations p"
  "pn_rows (rescan v p) = scan v (pn_identities p)" "pn_query (rescan v p) = pn_query p"
  "pn_open (rescan v p) = pn_open p"
  by (simp_all add: rescan_def Let_def)

lemma rescan_inv: "panel_inv p \<Longrightarrow> panel_inv (rescan v p)"
  by (auto simp: panel_inv_def rescan_def Let_def intro: le_trans [OF length_filter_le])

lemma identified_owners_ok: "list_all (\<lambda>(pid, start). pid \<le> u32_max) (identified_owners v)"
  by (auto simp: identified_owners_def identified_owner_def list_all_iff set_map_filter
      Option.bind_eq_Some_conv split: if_splits)

lemma length_AList_update: "length (AList.update k v m) \<le> Suc (length m)"
  by (induction m) auto

lemma identities_ok_update:
  "identities_ok ids \<Longrightarrow> list_all (\<lambda>(pid, start). pid \<le> u32_max) ps \<Longrightarrow>
   identities_ok (AList.update i ps ids)"
  by (induction ids) (auto simp: identities_ok_def)

lemma identities_ok_delete: "identities_ok ids \<Longrightarrow> identities_ok (AList.delete i ids)"
  by (induction ids) (auto simp: identities_ok_def)

lemma set_AList_delete: "set (AList.delete k m) \<subseteq> set m"
  by (auto simp: AList.delete_eq)

lemma identify_row_inv:
  assumes "panel_inv p"
  shows "panel_inv (fst (identify_row e self_uid p ident))"
proof -
  have drop: "panel_inv (p\<lparr>pn_identities := AList.delete i (pn_identities p)\<rparr>)" for i
    using assms length_delete_le [of i "pn_identities p"]
    by (simp add: panel_inv_def identities_ok_delete)
  have add: "panel_inv (p\<lparr>pn_identities := AList.update i (identified_owners v) (pn_identities p)\<rparr>)"
    if "length (pn_identities p) < max_selections" for i v
    using assms that length_AList_update [of i "identified_owners v" "pn_identities p"]
      identified_owners_ok [of v]
    by (simp add: panel_inv_def identities_ok_update)
  show ?thesis
    using assms drop add rescan_inv
    by (auto simp: identify_row_def Let_def split: option.split sum.split prod.split)
qed

lemma settle_escalations_inv:
  "length es \<le> max_escalations \<Longrightarrow> distinct es \<Longrightarrow>
   length (settle_escalations tok force b es) \<le> max_escalations
   \<and> distinct (settle_escalations tok force b es)"
  by (auto simp: settle_escalations_def List.insert_def distinct_removeAll
      intro: le_trans [OF length_removeAll_less_eq])

lemma stop_listener_inv:
  assumes "panel_inv p"
  shows "panel_inv (fst (stop_listener e self_uid p tok force))"
proof -
  have q: "panel_inv (rescan (e_scan e) p)" by (rule rescan_inv [OF assms])
  have "panel_inv ((rescan (e_scan e) p)\<lparr>pn_escalations := settle_escalations tok f b (pn_escalations p)\<rparr>)"
    for f b
    using q settle_escalations_inv [of "pn_escalations p" tok f b] by (simp add: panel_inv_def)
  from rescan_inv [OF this] show ?thesis
    using assms q
    by (auto simp: stop_listener_def Let_def split: option.split sum.split prod.split)
qed

lemma find_row_in: "find_row p ident = Some w \<Longrightarrow> w \<in> set (pn_rows p) \<and> prow_id w = ident"
  by (auto simp: find_row_def find_Some_iff)

lemma select_inv:
  assumes "panel_inv p"
  shows "panel_inv (fst (select p ident pid))"
proof -
  have drop: "panel_inv (p\<lparr>pn_selection := AList.delete ident (pn_selection p)\<rparr>)"
    using assms length_delete_le [of ident "pn_selection p"] set_AList_delete [of ident "pn_selection p"]
    by (auto simp: panel_inv_def)
  have add: "panel_inv (p\<lparr>pn_selection := AList.update ident pid (pn_selection p)\<rparr>)"
    if "length (pn_selection p) < max_selections" "find_row p ident = Some w" for w
    using assms that length_AList_update [of ident pid "pn_selection p"] find_row_in [OF that(2)]
    by (auto simp: panel_inv_def dom_update)
  show ?thesis
    using assms drop add by (auto simp: select_def Let_def split: option.splits)
qed

lemma panel_inv_frame [simp]:
  "panel_inv (p\<lparr>pn_action := v\<rparr>) = panel_inv p" "panel_inv (p\<lparr>pn_query := q\<rparr>) = panel_inv p"
  "panel_inv (p\<lparr>pn_open := b\<rparr>) = panel_inv p" "panel_inv (p\<lparr>pn_generation := n\<rparr>) = panel_inv p"
  by (simp_all add: panel_inv_def)

lemma set_open_inv: "panel_inv p \<Longrightarrow> panel_inv (set_open e p b)"
  by (simp add: set_open_def Let_def rescan_inv) (simp add: panel_inv_def identities_ok_def)

lemma panel_inv_results:
  "select p ident pid = (p', v) \<Longrightarrow> panel_inv p \<Longrightarrow> panel_inv p'"
  "identify_row e self_uid p ident = (p', r) \<Longrightarrow> panel_inv p \<Longrightarrow> panel_inv p'"
  "stop_listener e self_uid p tok force = (p', r) \<Longrightarrow> panel_inv p \<Longrightarrow> panel_inv p'"
  by (metis fst_conv select_inv identify_row_inv stop_listener_inv)+

lemma handle_inv: "handle e self_uid p m = (p', r) \<Longrightarrow> panel_inv p \<Longrightarrow> panel_inv p'"
  by (auto simp: handle_def set_query_def Let_def split: if_splits prod.splits
      intro!: set_open_inv rescan_inv dest!: panel_inv_results)

lemma panel_step_inv: "panel_inv p \<Longrightarrow> panel_inv (panel_step self_uid p ev)"
  by (auto simp: panel_step_def panel_request_def panel_snapshot_def Let_def
      split: prod.split option.split intro: handle_inv)

interpretation panel: event_machine "panel_step self_uid" panel_inv for self_uid
  by unfold_locales (rule panel_step_inv)

lemma panel_run_inv: "panel_inv (panel_run self_uid evs)"
  unfolding panel_run_def
  by (rule panel.run_inv) (simp add: panel_inv_def new_panel_def identities_ok_def)

section \<open>What a stop does\<close>

text \<open>The one effect that stopping a target is, and what acting on one of our own processes
  has to have seen.\<close>

definition reviewed_effect :: "bool \<Rightarrow> review \<Rightarrow> panel_effect" where
  "reviewed_effect force r = (let t = v_target r in
     if t_kind t = ''service'' then
       (if t_privileged t then Elevated (service_args r t force)
        else Ran_systemctl (systemctl_args (t_scope t = ''user'') (service_command force (t_unit t))))
     else
       (if t_privileged t then Elevated (process_args r t force)
        else Own_signal (t_pid t) (if force then sigkill else sigterm)))"

definition checked_process :: "penv \<Rightarrow> review \<Rightarrow> bool" where
  "checked_process e r = (let t = v_target r in
     2 \<le> t_pid t \<and> same_process (e_act e) (t_pid t) (t_start t) (t_uid t) (v_inode r)
     \<and> same_process (e_pinned e) (t_pid t) (t_start t) (t_uid t) (v_inode r))"

lemma elevate_effects: "elevate e args = (effs, res) \<Longrightarrow> effs = [Elevated args] \<or> (effs = [] \<and> res = Inl ''unavailable'')"
  by (auto simp: elevate_def split: option.splits)

lemma perform_effects:
  assumes "perform e (token_view r) (v_target r) force = (effs, res)" "effs \<noteq> []"
  shows "effs = [reviewed_effect force r]" "actionable (v_target r)"
    "t_kind (v_target r) = ''process'' \<Longrightarrow> \<not> t_privileged (v_target r) \<Longrightarrow> checked_process e r"
  using assms
  by (auto simp: perform_def reviewed_effect_def checked_process_def actionable_def Let_def
      token_view_def service_args_def process_args_def
      split: if_splits prod.splits sum.splits dest!: elevate_effects signal_checked_effects)

lemma perform_Inr_effects: "perform e r t force = (effs, Inr u) \<Longrightarrow> effs \<noteq> []"
  by (auto simp: perform_def Let_def split: if_splits prod.splits sum.splits
      dest!: elevate_effects signal_checked_effects)

lemma revalidate_Inr:
  "revalidate v self_uid p r = Inr (now, t) \<Longrightarrow>
   \<exists>w selected. w \<in> set (pn_rows p) \<and> now = token (review_of selected self_uid w)
     \<and> t = v_target (review_of selected self_uid w) \<and> present v r"
  by (auto simp: revalidate_def present_def Let_def split: option.splits dest!: find_row_in)

lemma stop_listener_cases:
  assumes "stop_listener e self_uid p tok force = (p', effs, v)"
  shows "(effs = [] \<and> pn_escalations p' = pn_escalations p)
    \<or> (\<exists>r t res. parse_token tok = Some r \<and> (force \<longrightarrow> tok \<in> set (pn_escalations p))
         \<and> revalidate (e_check e) self_uid (rescan (e_scan e) p) r = Inr (tok, t)
         \<and> perform e r t force = (effs, res)
         \<and> (case res of
              Inl _ \<Rightarrow> pn_escalations p' = pn_escalations p
            | Inr _ \<Rightarrow>
                (let left_over = remains (e_settle e) r 0 (if force then force_grace else grace)
                 in pn_escalations p' = settle_escalations tok force left_over (pn_escalations p)
                    \<and> json_get v ''error'' = Some (JStr [])
                    \<and> json_get v ''remaining'' = Some (JBool left_over))))"
  using assms
  by (auto simp: stop_listener_def stop_reply_def Let_def
      split: option.splits if_splits sum.splits prod.splits)

definition target_safe :: "penv \<Rightarrow> nat \<Rightarrow> prow \<Rightarrow> review \<Rightarrow> bool" where
  "target_safe e self_uid w r \<longleftrightarrow> (let t = v_target r in
     if t_kind t = ''service'' then
       stoppable (t_unit t) \<and> w_owners w \<noteq> []
       \<and> list_all (\<lambda>p. o_service p = t_unit t \<and> o_scope p = t_scope t) (w_owners w)
     else
       t_kind t = ''process'' \<and> list_ex (\<lambda>p. o_pid p = t_pid t \<and> o_start p = t_start t) (w_owners w)
       \<and> (if t_privileged t then t_uid t \<noteq> self_uid else t_uid t = self_uid \<and> checked_process e r))"

lemma target_safe_scanned:
  assumes "prow_ok w" "actionable (target_of selected self_uid w)"
    and "t_kind (target_of selected self_uid w) = ''process'' \<Longrightarrow>
         \<not> t_privileged (target_of selected self_uid w) \<Longrightarrow> checked_process e (review_of selected self_uid w)"
  shows "target_safe e self_uid w (review_of selected self_uid w)"
proof (cases "service_of w")
  case None
  then show ?thesis
    using assms(2,3)
    by (auto simp: target_safe_def review_of_def target_of_def unavailable_def default_target_def
        actionable_def list_ex_iff split: if_splits option.splits dest: owner_of_in)
next
  case (Some us)
  obtain unit scope where us: "us = (unit, scope)" by fastforce
  note svc = service_of_Some [OF Some [unfolded us]]
  then have hd_in: "hd (w_owners w) \<in> set (w_owners w)" by simp
  then have "process_ok (hd (w_owners w))" "o_service (hd (w_owners w)) = unit" "unit \<noteq> []"
    using assms(1) svc by (auto simp: prow_ok_def)
  then have "stoppable unit" by (simp add: process_ok_def)
  then show ?thesis
    using svc Some us
    by (simp add: target_safe_def review_of_def target_of_def default_target_def list_all_iff Let_def)
qed

text \<open>C14: A confirmation acts on what it disclosed or not at all. After any requests, a stop that
  has an effect has exactly one; its token is the review of a listener in the scan taken after
  the confirmation, still bound when it is revalidated; and the effect is the reviewed one: the
  valid, non-session unit that holds every owner of the socket, or the listed process with the
  listed start time, which - when it is signalled without authentication - belongs to the user
  and has passed the identity check both before acting and after being pinned.\<close>

theorem stop_acts_on_review:
  assumes "stop_listener e self_uid (panel_run self_uid evs) tok force = (p', effs, v)"
    and "effs \<noteq> []"
  shows "\<exists>w selected. w \<in> set (scan (e_scan e) (pn_identities (panel_run self_uid evs)))
     \<and> tok = token (review_of selected self_uid w)
     \<and> present (e_check e) (review_of selected self_uid w)
     \<and> effs = [reviewed_effect force (review_of selected self_uid w)]
     \<and> target_safe e self_uid w (review_of selected self_uid w)"
proof -
  obtain r t res where parsed: "parse_token tok = Some r"
    and re: "revalidate (e_check e) self_uid (rescan (e_scan e) (panel_run self_uid evs)) r = Inr (tok, t)"
    and perf: "perform e r t force = (effs, res)"
    using stop_listener_cases [OF assms(1)] assms(2) by blast
  from revalidate_Inr [OF re] obtain w selected
    where w: "w \<in> set (scan (e_scan e) (pn_identities (panel_run self_uid evs)))"
      and tok: "tok = token (review_of selected self_uid w)"
      and t: "t = v_target (review_of selected self_uid w)" and here: "present (e_check e) r"
    by auto
  have ok: "prow_ok w"
    using w panel_run_inv by (auto simp: panel_inv_def intro: scan_rows)
  have "r = token_view (review_of selected self_uid w)"
    using parsed by (simp add: tok parse_token_token [OF review_of_ok [OF ok]] split: if_splits)
  note perf = perf [unfolded this t] and r = this
  have "target_safe e self_uid w (review_of selected self_uid w)"
    using perform_effects(2,3) [OF perf assms(2)]
    by (intro target_safe_scanned [OF ok]) (simp_all add: review_of_def)
  moreover have "present (e_check e) (review_of selected self_uid w)"
    using here by (simp add: r present_def token_view_def Let_def)
  ultimately show ?thesis
    using w tok perform_effects(1) [OF perf assms(2)] by blast
qed

section \<open>Force is a second decision\<close>

definition is_stop :: "json \<Rightarrow> string \<Rightarrow> bool \<Rightarrow> bool" where
  "is_stop m tok force \<longleftrightarrow> str_or [] (json_index m ''op'') = ''stop''
     \<and> str_or [] (json_index m ''token'') = tok
     \<and> (as_str (json_index m ''mode'') = Some ''force'') = force"

text \<open>The request was a graceful stop that had an effect and reported the listener remaining.\<close>

definition left_in_place :: "nat \<Rightarrow> panel \<Rightarrow> penv \<times> string \<Rightarrow> string \<Rightarrow> bool" where
  "left_in_place self_uid p ev tok \<longleftrightarrow> (case ev of (e, line) \<Rightarrow>
     (case e_parse e line of
        None \<Rightarrow> False
      | Some m \<Rightarrow> is_stop m tok False
          \<and> (case stop_listener e self_uid (p\<lparr>pn_action := JNull\<rparr>) tok False of (p', effs, v) \<Rightarrow>
               effs \<noteq> [] \<and> json_get v ''error'' = Some (JStr [])
               \<and> json_get v ''remaining'' = Some (JBool True))))"

definition closes :: "penv \<times> string \<Rightarrow> bool" where
  "closes ev = (case ev of (e, line) \<Rightarrow>
     (case e_parse e line of
        None \<Rightarrow> False
      | Some m \<Rightarrow> str_or [] (json_index m ''op'') = ''panel''
                  \<and> \<not> get_or False (as_bool (json_index m ''open''))))"

lemma settle_escalations_new:
  "tok \<in> set (settle_escalations tok' force b es) \<Longrightarrow> tok \<notin> set es \<Longrightarrow> tok = tok' \<and> b \<and> \<not> force"
  by (auto simp: settle_escalations_def split: if_splits)

lemma stop_listener_escalates:
  assumes "stop_listener e self_uid p tok' force = (p', effs, v)"
    and "tok \<in> set (pn_escalations p')" "tok \<notin> set (pn_escalations p)"
  shows "tok' = tok \<and> \<not> force \<and> effs \<noteq> [] \<and> json_get v ''error'' = Some (JStr [])
    \<and> json_get v ''remaining'' = Some (JBool True)"
proof -
  obtain r t res where perf: "perform e r t force = (effs, res)" and res: "case res of
      Inl _ \<Rightarrow> pn_escalations p' = pn_escalations p
    | Inr _ \<Rightarrow>
        (let left_over = remains (e_settle e) r 0 (if force then force_grace else grace)
         in pn_escalations p' = settle_escalations tok' force left_over (pn_escalations p)
            \<and> json_get v ''error'' = Some (JStr [])
            \<and> json_get v ''remaining'' = Some (JBool left_over))"
    using stop_listener_cases [OF assms(1)] assms(2,3) by auto
  then obtain u where "res = Inr u" using assms(2,3) by (cases res) auto
  then show ?thesis
    using res assms(2,3) perform_Inr_effects perf by (auto simp: Let_def dest!: settle_escalations_new)
qed

lemma other_escalations:
  "select p ident pid = (p', r) \<Longrightarrow> pn_escalations p' = pn_escalations p"
  "identify_row e self_uid p ident = (p', q) \<Longrightarrow> pn_escalations p' = pn_escalations p"
  "pn_escalations (set_query p m) = pn_escalations p"
  "pn_escalations (set_open e p b) = (if b then pn_escalations p else [])"
  by (auto simp: select_def identify_row_def set_query_def set_open_def Let_def
      split: if_splits option.splits sum.splits prod.splits)

lemma step_escalates:
  assumes "tok \<in> set (pn_escalations (panel_step self_uid p ev))"
  shows "(tok \<in> set (pn_escalations p) \<and> \<not> closes ev) \<or> left_in_place self_uid p ev tok"
proof (cases ev)
  case (Pair e line)
  show ?thesis
  proof (cases "e_parse e line")
    case None
    then show ?thesis
      using assms by (simp add: Pair panel_step_def panel_request_def closes_def)
  next
    case (Some m)
    obtain p' r where h: "handle e self_uid p m = (p', r)" by fastforce
    have tok: "tok \<in> set (pn_escalations p')"
      using assms
      by (auto simp: Pair Some h panel_step_def panel_request_def panel_snapshot_def Let_def
          split: option.splits prod.splits)
    show ?thesis
    proof (cases "str_or [] (json_index m ''op'') = ''stop''")
      case True
      obtain p1 effs w where st: "stop_listener e self_uid (p\<lparr>pn_action := JNull\<rparr>)
          (str_or [] (json_index m ''token'')) (as_str (json_index m ''mode'') = Some ''force'') = (p1, effs, w)"
        by (metis prod_cases3)
      have p1: "tok \<in> set (pn_escalations p1)"
        using True h tok st by (auto simp: handle_def Let_def)
      show ?thesis
      proof (cases "tok \<in> set (pn_escalations p)")
        case False
        then have "tok \<notin> set (pn_escalations (p\<lparr>pn_action := JNull\<rparr>))" by simp
        with stop_listener_escalates [OF st p1] st True show ?thesis
          by (simp add: Pair Some left_in_place_def is_stop_def)
      qed (use True in \<open>simp add: Pair Some closes_def\<close>)
    next
      case False
      then show ?thesis
        using h tok
        by (auto simp: Pair Some handle_def Let_def closes_def other_escalations
            split: if_splits prod.splits dest!: other_escalations(1,2))
    qed
  qed
qed

lemma escalation_history:
  "tok \<in> set (pn_escalations (panel_run self_uid evs)) \<Longrightarrow>
   \<exists>before ev after. evs = before @ ev # after \<and> left_in_place self_uid (panel_run self_uid before) ev tok
     \<and> \<not> list_ex closes after"
proof (induction evs rule: rev_induct)
  case (snoc ev evs)
  from step_escalates [of tok self_uid "panel_run self_uid evs" ev] snoc.prems
  consider "tok \<in> set (pn_escalations (panel_run self_uid evs))" "\<not> closes ev"
    | "left_in_place self_uid (panel_run self_uid evs) ev tok"
    by (auto simp: panel_run_def)
  then show ?case
  proof cases
    case 1
    from snoc.IH [OF 1(1)] obtain before ev' after where
      "evs = before @ ev' # after" "left_in_place self_uid (panel_run self_uid before) ev' tok"
      "\<not> list_ex closes after" by blast
    with 1(2) have "evs @ [ev] = before @ ev' # (after @ [ev])" "\<not> list_ex closes (after @ [ev])"
      by auto
    with \<open>left_in_place self_uid (panel_run self_uid before) ev' tok\<close> show ?thesis by blast
  next
    case 2
    then show ?thesis by (intro exI [of _ evs] exI [of _ ev] exI [of _ "[]"]) simp
  qed
qed (simp add: panel_run_def new_panel_def)

text \<open>Force is never the panel's own follow-up. Whenever a forced stop has an effect, an
  earlier request was a graceful stop of the very same token that was carried out and reported
  the listener still there, and the panel was not closed in between.\<close>

theorem force_is_second_decision:
  assumes "stop_listener e self_uid (panel_run self_uid evs) tok True = (p', effs, v)"
    and "effs \<noteq> []"
  shows "\<exists>before ev after. evs = before @ ev # after
     \<and> left_in_place self_uid (panel_run self_uid before) ev tok \<and> \<not> list_ex closes after"
  using stop_listener_cases [OF assms(1)] assms(2) by (intro escalation_history) auto

text \<open>C13: The privileged helper. Whatever its arguments and whatever the process table shows, it
  does nothing, or stops - in the fixed systemctl form - a valid system service that is not a
  session manager and that holds every process found owning the reviewed listener, or sends one
  of two signals to a process above 1 that had the reviewed start time, user and socket both
  before and after it was pinned; and its arguments were the canonical spelling of that target.\<close>

theorem helper_effects_safe:
  "fst (dispatch hh v later args) = []
   \<or> (\<exists>force unit inode address number.
        service_effect v args force unit inode address number (fst (dispatch hh v later args)))
   \<or> (\<exists>force pid start uid inode address number.
        process_effect v later args force pid start uid inode address number
          (fst (dispatch hh v later args)))"
  using dispatch_split [OF refl] by blast

text \<open>C12: A review survives its token. For every row of a scan and every choice of owner, the
  token of an actionable target parses back to exactly that target - identity, unit, scope,
  process, start time and user, with only the descriptive fields reset - and the token of a target
  that cannot be stopped does not parse.\<close>

theorem review_roundtrip:
  assumes "w \<in> set (scan v identities)" and "identities_ok identities"
  shows "parse_token (token (review_of selected self_uid w)) =
    (if actionable (target_of selected self_uid w)
     then Some (token_view (review_of selected self_uid w)) else None)"
  using parse_token_token [OF review_of_ok [OF scan_rows [OF assms]]] by (simp add: review_of_def)

section \<open>A concrete panel\<close>

definition demo_view :: proc_view where
  "demo_view = \<lparr>
     pv_file = (\<lambda>f.
       if f = ''net/tcp'' then Some (''head'' @ [newline] @
         ''0: 0100007F:1F90 00000000:0000 0A 0:0 0:0 0 1000 0 55 1'' @ [newline])
       else if f = ''42/stat'' then Some ''42 (web) S 1 1 1 1 1 1 1 1 1 1 1 1 1 1 1 1 1 1 77 0''
       else if f = ''42/status'' then Some ''Uid:1000 1000''
       else if f = ''42/comm'' then Some ''web''
       else None),
     pv_entries = Some [''self'', ''42''],
     pv_links = (\<lambda>d. if d = ''42'' then Some [Some ''socket:[55]''] else None),
     pv_cwd = (\<lambda>_. None), pv_exists = (\<lambda>_. False), pv_passwd = None\<rparr>"

definition demo_penv :: penv where
  "demo_penv = \<lparr>e_scan = demo_view, e_check = demo_view, e_act = demo_view, e_pinned = demo_view,
     e_settle = (\<lambda>_. demo_view), e_final = demo_view, e_run = (\<lambda>_. True), e_show = (\<lambda>_. None),
     e_helper = None, e_run0 = (\<lambda>_. None),
     e_host = \<lparr>h_systemctl = (\<lambda>_. True), h_pin = (\<lambda>_. True), h_send = (\<lambda>_ _. True)\<rparr>,
     e_parse = (\<lambda>line. Some (JObj [(''op'', JStr ''stop''), (''token'', JStr line)]))\<rparr>"

definition demo_token :: string where
  "demo_token = ''1|55|127.0.0.1:8080|8080|process|||42|77|1000''"

definition demo_row :: prow where
  "demo_row = \<lparr>w_listener = \<lparr>l_address = V4 [127, 0, 0, 1], l_port = 8080, l_uid = 1000, l_inode = 55\<rparr>,
     w_owners = [\<lparr>o_pid = 42, o_start = 77, o_name = ''web'', o_uid = 1000, o_user = [], o_unit = [],
       o_scope = [], o_service = [], o_cwd = [], o_project = [], o_project_path = [], o_proxy = []\<rparr>],
     w_identified = False, w_user = ''uid 1000''\<rparr>"

lemma demo_scan: "scan demo_view [] = [demo_row]" by code_simp
lemma demo_listeners: "listeners demo_view = [w_listener demo_row]" by code_simp
lemma demo_same: "same_process demo_view 42 77 1000 55" by code_simp
lemma demo_token: "token (review_of 0 1000 demo_row) = demo_token" by code_simp
lemma demo_binding: "binding (w_listener demo_row) = ''127.0.0.1:8080''" by code_simp
lemma demo_id: "listener_id (w_listener demo_row) = ''4:55''" by code_simp

lemma demo_parse:
  "parse_token demo_token = Some (token_view (review_of 0 1000 demo_row))" by code_simp

lemma demo_present: "present demo_view (token_view (review_of 0 1000 demo_row))"
  by (simp add: present_def token_view_def review_of_def find_listener_def demo_listeners Let_def)

lemma demo_remains: "remains (\<lambda>_. demo_view) (token_view (review_of 0 1000 demo_row)) i n"
  by (induction n arbitrary: i) (simp_all add: demo_present)

lemma demo_revalidate:
  assumes "pn_rows p = [demo_row]" "pn_selection p = []"
  shows "revalidate demo_view 1000 p (token_view (review_of 0 1000 demo_row))
    = Inr (demo_token, target_of 0 1000 demo_row)"
  using assms demo_present
  by (simp add: revalidate_def token_view_def review_of_def find_listener_def demo_listeners find_row_def
      prow_id_def selected_of_def get_or_def demo_token [unfolded review_of_def] Let_def)

lemma demo_target: "target_of 0 1000 demo_row = default_target\<lparr>t_kind := ''process'', t_pid := 42,
    t_start := 77, t_uid := 1000, t_name := ''web''\<rparr>"
  by (simp add: target_of_def service_of_def owner_of_def demo_row_def default_target_def)

lemma panel_step_stop:
  assumes "e_parse e line = Some m" "is_stop m tok force"
    and "stop_listener e self_uid (p\<lparr>pn_action := JNull\<rparr>) tok force = (p', effs, v)"
  shows "panel_step self_uid p (e, line) =
    p'\<lparr>pn_action := v, pn_generation := (pn_generation p' + 1) mod 2 ^ 64\<rparr>"
  using assms
  by (auto simp: panel_step_def panel_request_def handle_def is_stop_def panel_snapshot_def Let_def)

lemma demo_stop:
  assumes "pn_identities p = []" "pn_selection p = []" "force \<longrightarrow> demo_token \<in> set (pn_escalations p)"
  shows "stop_listener demo_penv 1000 p demo_token force =
    (p\<lparr>pn_rows := [demo_row], pn_escalations := settle_escalations demo_token force True (pn_escalations p)\<rparr>,
     [Own_signal 42 (if force then sigkill else sigterm)],
     snd (snd (stop_listener demo_penv 1000 p demo_token force)))"
proof -
  have fields: "e_scan demo_penv = demo_view" "e_check demo_penv = demo_view" "e_act demo_penv = demo_view"
    "e_pinned demo_penv = demo_view" "e_settle demo_penv = (\<lambda>_. demo_view)" "e_final demo_penv = demo_view"
    "e_host demo_penv = \<lparr>h_systemctl = (\<lambda>_. True), h_pin = (\<lambda>_. True), h_send = (\<lambda>_ _. True)\<rparr>"
    by (simp_all add: demo_penv_def)
  have r: "rescan demo_view p = p\<lparr>pn_rows := [demo_row]\<rparr>"
    using assms by (simp add: rescan_def demo_scan)
  have again: "rescan demo_view (p\<lparr>pn_rows := [demo_row], pn_escalations := es\<rparr>)
      = p\<lparr>pn_rows := [demo_row], pn_escalations := es\<rparr>" for es
    using assms by (simp add: rescan_def demo_scan)
  have perf: "perform demo_penv (token_view (review_of 0 1000 demo_row)) (target_of 0 1000 demo_row) force
      = ([Own_signal 42 (if force then sigkill else sigterm)], Inr ())"
    by (simp add: perform_def demo_target fields signal_checked_def i32_max_def default_target_def
        token_view_def review_of_def demo_same Let_def)
      (simp add: demo_row_def demo_same)
  show ?thesis
    using assms demo_revalidate [of "p\<lparr>pn_rows := [demo_row]\<rparr>"]
    by (simp add: stop_listener_def demo_parse fields r again perf demo_remains Let_def)
qed

definition demo_requests :: "(penv \<times> string) list" where
  "demo_requests = [(demo_penv, demo_token)]"

lemma demo_escalated:
  "pn_identities (panel_run 1000 demo_requests) = []" "pn_selection (panel_run 1000 demo_requests) = []"
  "pn_escalations (panel_run 1000 demo_requests) = [demo_token]"
proof -
  have "is_stop (JObj [(''op'', JStr ''stop''), (''token'', JStr demo_token)]) demo_token False"
    by (simp add: is_stop_def str_or_def json_index_def)
  moreover have "e_parse demo_penv demo_token = Some (JObj [(''op'', JStr ''stop''), (''token'', JStr demo_token)])"
    by (simp add: demo_penv_def)
  ultimately show "pn_identities (panel_run 1000 demo_requests) = []" "pn_selection (panel_run 1000 demo_requests) = []"
    "pn_escalations (panel_run 1000 demo_requests) = [demo_token]"
    using panel_step_stop [OF _ _ demo_stop [of "new_panel\<lparr>pn_action := JNull\<rparr>" False]]
    by (simp_all add: panel_run_def demo_requests_def new_panel_def settle_escalations_def max_escalations_def)
qed

theorem stop_acts_on_review_witness:
  "\<exists>w selected. w \<in> set (scan (e_scan demo_penv) (pn_identities (panel_run 1000 [])))
     \<and> demo_token = token (review_of selected 1000 w)
     \<and> present (e_check demo_penv) (review_of selected 1000 w)
     \<and> [Own_signal 42 sigterm] = [reviewed_effect False (review_of selected 1000 w)]
     \<and> target_safe demo_penv 1000 w (review_of selected 1000 w)"
  by (rule stop_acts_on_review [OF demo_stop [of _ False, simplified if_False]])
    (simp_all add: panel_run_def new_panel_def)

theorem force_is_second_decision_witness:
  "\<exists>before ev after. demo_requests = before @ ev # after
     \<and> left_in_place 1000 (panel_run 1000 before) ev demo_token \<and> \<not> list_ex closes after"
  by (rule force_is_second_decision [OF demo_stop]) (simp_all add: demo_escalated)

theorem review_roundtrip_witness:
  "parse_token (token (review_of 0 1000 demo_row)) = Some (token_view (review_of 0 1000 demo_row))"
  using review_roundtrip [of demo_row demo_view "[]" 0 1000]
  by (simp add: demo_scan identities_ok_def demo_target actionable_def default_target_def)

end
