(* ===== verification/Row_Plan.thy ===== *)
theory Row_Plan
  imports Json "HOL-Library.Multiset"
begin

text \<open>
  \<open>qml-core/src/models.rs\<close>: edit plans for Qt list models. From the identifiers a model shows
  and the ones it should show, \<open>plan\<close> computes moves and insertions; a Fenwick tree
  (\<open>Remaining\<close>) counts the rows that have not been placed. An arithmetic underflow in the tree
  is \<open>None\<close>. \<open>exec_plan\<close> is what the host does with a plan (\<open>shared/ListModels.js\<close>): rows that
  were there carry their old index, inserted ones none.
\<close>

section \<open>The tree\<close>

text \<open>\<open>usize::isolate_lowest_one\<close>.\<close>

fun lowbit :: "nat \<Rightarrow> nat" where
  "lowbit i = (if i = 0 then 0 else if odd i then 1 else 2 * lowbit (i div 2))"

declare lowbit.simps [simp del]

lemma lowbit_0 [simp]: "lowbit 0 = 0"
  by (simp add: lowbit.simps)

lemma lowbit_odd [simp]: "odd i \<Longrightarrow> lowbit i = 1"
  by (subst lowbit.simps) (auto simp: odd_pos)

lemma lowbit_double [simp]: "lowbit (2 * i) = 2 * lowbit i"
  by (cases "i = 0") (simp_all add: lowbit.simps [of "2 * i"])

lemma lowbit_bounds: "0 < i \<Longrightarrow> 0 < lowbit i \<and> lowbit i \<le> i"
proof (induction i rule: lowbit.induct)
  case (1 i)
  then show ?case by (cases "even i") (auto elim!: evenE)
qed

definition tree_new :: "nat \<Rightarrow> nat list" where
  "tree_new n = map lowbit [0..<Suc n]"

function tree_before :: "nat list \<Rightarrow> nat \<Rightarrow> nat" where
  "tree_before t i = (if i = 0 then 0 else t ! i + tree_before t (i - lowbit i))"
  by pat_completeness auto

termination
  by (relation "measure snd") (use lowbit_bounds in \<open>fastforce+\<close>)

text \<open>The loop of \<open>remove\<close>, which starts at a positive index.\<close>

function tree_down :: "nat list \<Rightarrow> nat \<Rightarrow> nat list option" where
  "tree_down t i =
     (if i = 0 \<or> length t \<le> i then Some t
      else (case t ! i of 0 \<Rightarrow> None | Suc v \<Rightarrow> tree_down (t[i := v]) (i + lowbit i)))"
  by pat_completeness auto

termination
  by (relation "measure (\<lambda>(t, i). length t - i)") (use lowbit_bounds in \<open>fastforce+\<close>)

definition tree_remove :: "nat list \<Rightarrow> nat \<Rightarrow> nat list option" where
  "tree_remove t k = tree_down t (k + 1)"

declare tree_before.simps [simp del] tree_down.simps [simp del]

section \<open>Plans\<close>

datatype row_op = Insert nat | Move nat nat

definition queue_of :: "(string \<times> nat list) list \<Rightarrow> string \<Rightarrow> nat list" where
  "queue_of m x = (case map_of m x of Some q \<Rightarrow> q | None \<Rightarrow> [])"

definition push_position :: "(string \<times> nat list) list \<Rightarrow> nat \<times> string \<Rightarrow> (string \<times> nat list) list" where
  "push_position m kx = (case kx of (k, x) \<Rightarrow> AList.update x (queue_of m x @ [k]) m)"

definition positions_of :: "string list \<Rightarrow> (string \<times> nat list) list" where
  "positions_of prev = foldl push_position [] (List.enumerate 0 prev)"

fun plan_loop :: "nat \<Rightarrow> string list \<Rightarrow> (string \<times> nat list) list \<Rightarrow> nat list \<Rightarrow> row_op list option" where
  "plan_loop i [] positions t = Some []"
| "plan_loop i (x # next) positions t =
     (case map_of positions x of
        Some (original # q) \<Rightarrow>
          (let from = i + tree_before t original
           in case tree_remove t original of
                None \<Rightarrow> None
              | Some t' \<Rightarrow>
                  map_option (\<lambda>ops. if from \<noteq> i then Move from i # ops else ops)
                    (plan_loop (Suc i) next (AList.update x q positions) t'))
      | _ \<Rightarrow> map_option (\<lambda>ops. Insert i # ops) (plan_loop (Suc i) next positions t))"

definition row_plan :: "string list \<Rightarrow> string list \<Rightarrow> row_op list option" where
  "row_plan prev next = plan_loop 0 next (positions_of prev) (tree_new (length prev))"

fun row_op_value :: "row_op \<Rightarrow> json" where
  "row_op_value (Insert i) = json_obj [(''insert'', JNum (nat_digits i))]"
| "row_op_value (Move f t) = json_obj [(''move'', JNum (nat_digits f)), (''to'', JNum (nat_digits t))]"

definition row_id_of :: "json \<Rightarrow> string + string" where
  "row_id_of v = (case as_str v of
       Some s \<Rightarrow> if length s \<le> 4096 then Inr s else Inl ''invalid model ID''
     | None \<Rightarrow> Inl ''invalid model ID'')"

fun row_id_list :: "json list \<Rightarrow> string + string list" where
  "row_id_list [] = Inr []"
| "row_id_list (v # vs) =
     (case row_id_of v of
        Inl e \<Rightarrow> Inl e
      | Inr s \<Rightarrow> (case row_id_list vs of Inl e \<Rightarrow> Inl e | Inr ss \<Rightarrow> Inr (s # ss)))"

definition row_ids :: "json option \<Rightarrow> string + string list" where
  "row_ids v = (case Option.bind v as_array of
       Some vs \<Rightarrow> if length vs \<le> 16384 then row_id_list vs else Inl ''invalid model IDs''
     | None \<Rightarrow> Inl ''invalid model IDs'')"

text \<open>\<open>None\<close> is the panic of the tree.\<close>

definition models_call :: "string \<Rightarrow> json list \<Rightarrow> (string + json) option" where
  "models_call function args =
     (if function \<noteq> ''plan'' then Some (Inl ''unknown model function'')
      else
        (let arg = (\<lambda>i. if i < length args then Some (args ! i) else None)
         in case row_ids (arg 0) of
              Inl e \<Rightarrow> Some (Inl e)
            | Inr prev \<Rightarrow>
                (case row_ids (arg 1) of
                   Inl e \<Rightarrow> Some (Inl e)
                 | Inr next \<Rightarrow> map_option (\<lambda>ops. Inr (JArr (map row_op_value ops))) (row_plan prev next))))"

section \<open>What the host does with a plan\<close>

type_synonym row = "string \<times> nat option"

fun exec_op :: "string list \<Rightarrow> row_op \<Rightarrow> row list \<Rightarrow> row list option" where
  "exec_op next (Insert i) rows =
     (if i < length next \<and> i \<le> length rows
      then Some (take i rows @ (next ! i, None) # drop i rows) else None)"
| "exec_op next (Move f t) rows =
     (if f < length rows \<and> t < length rows
      then (let rest = take f rows @ drop (Suc f) rows
            in Some (take t rest @ rows ! f # drop t rest)) else None)"

fun exec_plan :: "string list \<Rightarrow> row_op list \<Rightarrow> row list \<Rightarrow> row list option" where
  "exec_plan next [] rows = Some rows"
| "exec_plan next (x # ops) rows = Option.bind (exec_op next x rows) (exec_plan next ops)"

definition shown_rows :: "string list \<Rightarrow> row list" where
  "shown_rows prev = zip prev (map Some [0..<length prev])"

section \<open>The tree counts\<close>

text \<open>The entries that cover a position are its own and those \<open>remove\<close> visits next.\<close>

lemma lowbit_chain:
  "0 < p \<Longrightarrow> p < i \<Longrightarrow> i - lowbit i < p \<longleftrightarrow> p + lowbit p \<le> i \<and> i - lowbit i < p + lowbit p"
proof (induction p arbitrary: i rule: lowbit.induct)
  case (1 p)
  show ?case
  proof (cases "odd p")
    case True
    have "even (i - lowbit i)"
    proof (cases "even i")
      case True
      then obtain j where "i = 2 * j" by (elim evenE)
      then show ?thesis by simp
    qed simp
    then have "i - lowbit i \<noteq> p" using True by metis
    then show ?thesis using True 1(3) by auto
  next
    case False
    then obtain q where q: "p = 2 * q" by (auto elim: evenE)
    show ?thesis
    proof (cases "odd i")
      case True
      then show ?thesis using 1(3) q by (auto elim!: oddE) presburger+
    next
      case False
      then obtain j where j: "i = 2 * j" by (auto elim: evenE)
      have "j - lowbit j < q \<longleftrightarrow> q + lowbit q \<le> j \<and> j - lowbit j < q + lowbit q"
        using 1 q j by simp
      then show ?thesis by (simp add: q j) linarith
    qed
  qed
qed

definition tree_ok :: "nat \<Rightarrow> nat set \<Rightarrow> nat list \<Rightarrow> bool" where
  "tree_ok n R t \<longleftrightarrow> length t = Suc n
     \<and> (\<forall>i. 0 < i \<longrightarrow> i \<le> n \<longrightarrow> t ! i = card (R \<inter> {i - lowbit i..<i}))"

lemma tree_new_ok: "tree_ok n {..<n} (tree_new n)"
proof -
  have "{..<n} \<inter> {i - lowbit i..<i} = {i - lowbit i..<i}" if "i \<le> n" for i
    using that by auto
  then show ?thesis
    using lowbit_bounds by (auto simp: tree_ok_def tree_new_def simp del: upt_Suc)
qed

lemma tree_before_ok: "tree_ok n R t \<Longrightarrow> i \<le> n \<Longrightarrow> tree_before t i = card (R \<inter> {..<i})"
proof (induction i rule: less_induct)
  case (less i)
  show ?case
  proof (cases "i = 0")
    case True
    then show ?thesis by (simp add: tree_before.simps)
  next
    case False
    then have b: "0 < lowbit i" "lowbit i \<le> i" using lowbit_bounds [of i] by auto
    have split: "R \<inter> {..<i} = (R \<inter> {i - lowbit i..<i}) \<union> (R \<inter> {..<i - lowbit i})"
      using b by auto
    have "card (R \<inter> {..<i}) = card (R \<inter> {i - lowbit i..<i}) + card (R \<inter> {..<i - lowbit i})"
      unfolding split by (rule card_Un_disjoint) auto
    with less False b show ?thesis
      by (subst tree_before.simps) (simp add: tree_ok_def)
  qed
qed

text \<open>The loop of \<open>remove\<close> from index \<open>i\<close> decrements exactly the later entries that cover \<open>i\<close>.\<close>

definition covers :: "nat \<Rightarrow> nat \<Rightarrow> bool" where
  "covers j i \<longleftrightarrow> i \<le> j \<and> j - lowbit j < i"

lemma covers_step: "0 < i \<Longrightarrow> covers j i \<longleftrightarrow> j = i \<or> covers j (i + lowbit i)"
  using lowbit_chain [of i j] lowbit_bounds [of i]
  by (cases "i = j") (auto simp: covers_def)

lemma tree_down_ok:
  assumes "0 < i" "\<forall>j < length t. covers j i \<longrightarrow> 0 < t ! j"
  shows "\<exists>t'. tree_down t i = Some t' \<and> length t' = length t
    \<and> (\<forall>j < length t. t' ! j = (if covers j i then t ! j - 1 else t ! j))"
  using assms
proof (induction t i rule: tree_down.induct)
  case (1 t i)
  show ?case
  proof (cases "length t \<le> i")
    case True
    then show ?thesis by (auto simp: tree_down.simps covers_def)
  next
    case False
    have self: "covers i i" using 1(2) lowbit_bounds [of i] by (simp add: covers_def)
    with 1(3) False obtain v where v: "t ! i = Suc v" by (metis gr0_conv_Suc not_le)
    have later: "\<not> covers i (i + lowbit i)" using 1(2) lowbit_bounds [of i] by (simp add: covers_def)
    have step: "covers j i \<longleftrightarrow> j = i \<or> covers j (i + lowbit i)" for j
      by (rule covers_step [OF 1(2)])
    have "\<exists>t'. tree_down (t[i := v]) (i + lowbit i) = Some t' \<and> length t' = length (t[i := v])
      \<and> (\<forall>j < length (t[i := v]). t' ! j = (if covers j (i + lowbit i) then t[i := v] ! j - 1 else t[i := v] ! j))"
      by (rule 1(1)) (use 1(2,3) False v later step in \<open>auto simp: nth_list_update\<close>)
    then obtain t' where t': "tree_down (t[i := v]) (i + lowbit i) = Some t'" "length t' = length t"
      "\<forall>j < length t. t' ! j = (if covers j (i + lowbit i) then t[i := v] ! j - 1 else t[i := v] ! j)"
      by auto
    have "tree_down t i = Some t'"
      using t'(1) v False 1(2) by (subst tree_down.simps) simp
    moreover have "t' ! j = (if covers j i then t ! j - 1 else t ! j)" if "j < length t" for j
      using t'(3) that v later step [of j] by (cases "j = i") auto
    ultimately show ?thesis using t'(2) by blast
  qed
qed

lemma tree_remove_ok:
  assumes "tree_ok n R t" "k \<in> R" "k < n"
  shows "\<exists>t'. tree_remove t k = Some t' \<and> tree_ok n (R - {k}) t'"
proof -
  have mem: "covers j (k + 1) \<longleftrightarrow> k \<in> {j - lowbit j..<j}" for j
    by (auto simp: covers_def)
  have pos: "0 < t ! j" if "j < length t" "covers j (k + 1)" for j
  proof -
    have "t ! j = card (R \<inter> {j - lowbit j..<j})" using assms(1) that by (auto simp: tree_ok_def covers_def)
    moreover have "k \<in> R \<inter> {j - lowbit j..<j}" using assms(2) that mem by simp
    ultimately show ?thesis by (metis card_gt_0_iff empty_iff finite_Int finite_atLeastLessThan)
  qed
  from tree_down_ok [of "k + 1" t] pos obtain t' where t': "tree_down t (k + 1) = Some t'"
    "length t' = length t" "\<forall>j < length t. t' ! j = (if covers j (k + 1) then t ! j - 1 else t ! j)"
    by auto
  have "t' ! j = card ((R - {k}) \<inter> {j - lowbit j..<j})" if "0 < j" "j \<le> n" for j
  proof -
    have "(R - {k}) \<inter> {j - lowbit j..<j} = R \<inter> {j - lowbit j..<j} - {k}" by auto
    then show ?thesis
      using assms(1,2) t'(3) that mem [of j]
      by (auto simp: tree_ok_def card_Diff_singleton_if)
  qed
  then show ?thesis
    using assms(1) t' by (auto simp: tree_remove_def tree_ok_def)
qed


section \<open>The plan is right\<close>

lemma queue_of_update [simp]: "queue_of (AList.update x q m) y = (if y = x then q else queue_of m y)"
  by (simp add: queue_of_def update_conv')

lemma positions_fold:
  "queue_of (foldl push_position m ks) x = queue_of m x @ map fst (filter (\<lambda>(k, y). y = x) ks)"
  by (induction ks arbitrary: m) (auto simp: push_position_def)

lemma positions_of_queue: "queue_of (positions_of prev) x = filter (\<lambda>k. prev ! k = x) [0..<length prev]"
proof -
  have "List.enumerate 0 prev = map (\<lambda>k. (k, prev ! k)) [0..<length prev]"
    by (rule nth_equalityI) (simp_all add: nth_enumerate_eq)
  then show ?thesis
    by (simp add: positions_of_def positions_fold filter_map o_def) (simp add: queue_of_def)
qed

definition left_rows :: "string list \<Rightarrow> nat set \<Rightarrow> row list" where
  "left_rows prev R = map (\<lambda>k. (prev ! k, Some k)) (filter (\<lambda>k. k \<in> R) [0..<length prev])"

text \<open>Removing a row that is left: where it is, and what remains.\<close>

lemma left_rows_split:
  assumes "k \<in> R" "k < length prev" "R \<subseteq> {..<length prev}"
  shows "\<exists>a b. left_rows prev R = a @ (prev ! k, Some k) # b \<and> left_rows prev (R - {k}) = a @ b
    \<and> length a = card (R \<inter> {..<k})"
proof -
  define a where "a = map (\<lambda>k. (prev ! k, Some k)) (filter (\<lambda>k. k \<in> R) [0..<k])"
  define b where "b = map (\<lambda>k. (prev ! k, Some k)) (filter (\<lambda>k. k \<in> R) [Suc k..<length prev])"
  have up: "[0..<length prev] = [0..<k] @ k # [Suc k..<length prev]"
    using assms(2) by (metis upt_conv_Cons upt_add_eq_append le0 less_imp_le_nat le_add_diff_inverse add_0)
  have "filter (\<lambda>j. j \<in> R - {k}) [0..<k] = filter (\<lambda>j. j \<in> R) [0..<k]"
    "filter (\<lambda>j. j \<in> R - {k}) [Suc k..<length prev] = filter (\<lambda>j. j \<in> R) [Suc k..<length prev]"
    by (auto intro!: filter_cong)
  then have "left_rows prev R = a @ (prev ! k, Some k) # b" "left_rows prev (R - {k}) = a @ b"
    using assms(1) by (simp_all add: left_rows_def a_def b_def up)
  moreover have "length a = card (R \<inter> {..<k})"
  proof -
    have "length a = card (set (filter (\<lambda>k. k \<in> R) [0..<k]))"
      by (simp add: a_def distinct_card [symmetric] del: set_filter)
    also have "set (filter (\<lambda>k. k \<in> R) [0..<k]) = R \<inter> {..<k}" by auto
    finally show ?thesis .
  qed
  ultimately show ?thesis by blast
qed

definition plan_state :: "string list \<Rightarrow> nat set \<Rightarrow> (string \<times> nat list) list \<Rightarrow> nat list \<Rightarrow> bool" where
  "plan_state prev R positions t \<longleftrightarrow>
     R \<subseteq> {..<length prev} \<and> tree_ok (length prev) R t
     \<and> (\<forall>x. queue_of positions x = filter (\<lambda>k. k \<in> R \<and> prev ! k = x) [0..<length prev])"

lemma exec_move:
  "length done = i \<Longrightarrow> exec_op next (Move (i + length a) i) (done @ a @ r # b) = Some (done @ r # a @ b)"
  by (simp add: nth_append Let_def)

lemma plan_state_take:
  assumes "plan_state prev R positions t" "queue_of positions x = k # q"
  shows "k \<in> R" "k < length prev" "prev ! k = x"
    "\<exists>t'. tree_remove t k = Some t' \<and> plan_state prev (R - {k}) (AList.update x q positions) t'"
proof -
  have q: "filter (\<lambda>k. k \<in> R \<and> prev ! k = x) [0..<length prev] = k # q"
    using assms by (simp add: plan_state_def)
  then have "k \<in> set (filter (\<lambda>k. k \<in> R \<and> prev ! k = x) [0..<length prev])" by simp
  then show k: "k \<in> R" "k < length prev" "prev ! k = x" by auto
  have "k \<notin> set q"
  proof -
    have "distinct (k # q)" unfolding q [symmetric] by simp
    then show ?thesis by simp
  qed
  have "filter (\<lambda>j. j \<in> R - {k} \<and> prev ! j = x) [0..<length prev]
      = filter (\<lambda>j. j \<noteq> k) (filter (\<lambda>j. j \<in> R \<and> prev ! j = x) [0..<length prev])"
    by (auto simp: conj_ac intro!: filter_cong)
  also have "\<dots> = q"
    using \<open>k \<notin> set q\<close> unfolding q by (auto simp: filter_id_conv)
  finally have mine: "filter (\<lambda>j. j \<in> R - {k} \<and> prev ! j = x) [0..<length prev] = q" .
  have others: "filter (\<lambda>j. j \<in> R - {k} \<and> prev ! j = y) [0..<length prev]
      = filter (\<lambda>j. j \<in> R \<and> prev ! j = y) [0..<length prev]" if "y \<noteq> x" for y
    using that k(3) by (auto intro!: filter_cong)
  obtain t' where t': "tree_remove t k = Some t'" "tree_ok (length prev) (R - {k}) t'"
    using tree_remove_ok [of "length prev" R t k] assms(1) k by (auto simp: plan_state_def)
  then show "\<exists>t'. tree_remove t k = Some t' \<and> plan_state prev (R - {k}) (AList.update x q positions) t'"
    using assms(1) mine others by (auto simp: plan_state_def)
qed

lemma plan_loop_ok:
  assumes "plan_state prev R positions t" "nx = map fst done @ rest"
    and "list_all (\<lambda>r. snd r = None \<longrightarrow> fst r \<notin> (!) prev ` R) done"
  shows "\<exists>ops rows R'. plan_loop (length done) rest positions t = Some ops
    \<and> exec_plan nx ops (done @ left_rows prev R) = Some (rows @ left_rows prev R')
    \<and> map fst rows = nx \<and> R' \<subseteq> {..<length prev}
    \<and> list_all (\<lambda>r. snd r = None \<longrightarrow> fst r \<notin> (!) prev ` R') rows"
  using assms
proof (induction rest arbitrary: R positions t "done")
  case Nil
  then show ?case by (auto simp: plan_state_def intro!: exI [of _ R] exI [of _ "done"])
next
  case (Cons x rest)
  show ?case
  proof (cases "queue_of positions x")
    case Nil
    have none: "x \<notin> (!) prev ` R"
    proof
      assume "x \<in> (!) prev ` R"
      then obtain k where "k \<in> R" "prev ! k = x" by auto
      with Cons.prems(1) have "k \<in> set (filter (\<lambda>k. k \<in> R \<and> prev ! k = x) [0..<length prev])"
        by (auto simp: plan_state_def)
      with Cons.prems(1) Nil show False by (simp add: plan_state_def)
    qed
    have "\<exists>ops rows R'. plan_loop (length (done @ [(x, None)])) rest positions t = Some ops
      \<and> exec_plan nx ops ((done @ [(x, None)]) @ left_rows prev R) = Some (rows @ left_rows prev R')
      \<and> map fst rows = nx \<and> R' \<subseteq> {..<length prev}
      \<and> list_all (\<lambda>r. snd r = None \<longrightarrow> fst r \<notin> (!) prev ` R') rows"
      by (rule Cons.IH) (use Cons.prems none in auto)
    then obtain ops rows R' where IH: "plan_loop (Suc (length done)) rest positions t = Some ops"
      "exec_plan nx ops (done @ (x, None) # left_rows prev R) = Some (rows @ left_rows prev R')"
      "map fst rows = nx" "R' \<subseteq> {..<length prev}"
      "list_all (\<lambda>r. snd r = None \<longrightarrow> fst r \<notin> (!) prev ` R') rows"
      by auto
    have "plan_loop (length done) (x # rest) positions t = Some (Insert (length done) # ops)"
      using Nil IH(1) by (auto simp: queue_of_def split: option.splits)
    moreover have "exec_op nx (Insert (length done)) (done @ left_rows prev R)
        = Some (done @ (x, None) # left_rows prev R)"
      using Cons.prems(2) by (simp add: nth_append)
    ultimately show ?thesis
      using IH by (intro exI [of _ "Insert (length done) # ops"] exI [of _ rows] exI [of _ R'])
        (simp del: exec_op.simps)
  next
    case (Cons k q)
    note take = plan_state_take [OF Cons.prems(1) Cons]
    then obtain t' where t': "tree_remove t k = Some t'"
      "plan_state prev (R - {k}) (AList.update x q positions) t'" by blast
    obtain a b where ab: "left_rows prev R = a @ (prev ! k, Some k) # b" "left_rows prev (R - {k}) = a @ b"
      "length a = card (R \<inter> {..<k})"
      using left_rows_split [of k R prev] take Cons.prems(1) by (auto simp: plan_state_def)
    have before: "tree_before t k = length a"
      using tree_before_ok [of "length prev" R t k] Cons.prems(1) take(2) ab(3) by (simp add: plan_state_def)
    have "\<exists>ops rows R'. plan_loop (length (done @ [(x, Some k)])) rest (AList.update x q positions) t' = Some ops
      \<and> exec_plan nx ops ((done @ [(x, Some k)]) @ left_rows prev (R - {k})) = Some (rows @ left_rows prev R')
      \<and> map fst rows = nx \<and> R' \<subseteq> {..<length prev}
      \<and> list_all (\<lambda>r. snd r = None \<longrightarrow> fst r \<notin> (!) prev ` R') rows"
      by (rule Cons.IH [OF t'(2)]) (use Cons.prems in \<open>auto simp: list_all_iff\<close>)
    then obtain ops rows R' where IH: "plan_loop (Suc (length done)) rest (AList.update x q positions) t' = Some ops"
      "exec_plan nx ops (done @ (x, Some k) # a @ b) = Some (rows @ left_rows prev R')"
      "map fst rows = nx" "R' \<subseteq> {..<length prev}"
      "list_all (\<lambda>r. snd r = None \<longrightarrow> fst r \<notin> (!) prev ` R') rows"
      by (auto simp: ab)
    have loop: "plan_loop (length done) (x # rest) positions t =
        Some (if length done + length a \<noteq> length done
              then Move (length done + length a) (length done) # ops else ops)"
      using Cons IH(1) t'(1) before by (auto simp: queue_of_def Let_def split: option.splits)
    have "exec_plan nx (if length done + length a \<noteq> length done
              then Move (length done + length a) (length done) # ops else ops) (done @ left_rows prev R)
        = Some (rows @ left_rows prev R')"
      using exec_move [of "done" "length done" nx a "(x, Some k)" b] IH(2) take(3) ab(1)
      by (auto simp del: exec_op.simps)
    with loop IH(3-5) show ?thesis by blast
  qed
qed

lemma mset_insert_at: "mset (take i xs @ x # drop i xs) = add_mset x (mset xs)"
proof -
  have "mset (take i xs @ x # drop i xs) = add_mset x (mset (take i xs @ drop i xs))"
    by (simp del: append_take_drop_id)
  also have "take i xs @ drop i xs = xs" by (rule append_take_drop_id)
  finally show ?thesis .
qed

lemma mset_drop_at: "i < length xs \<Longrightarrow> add_mset (xs ! i) (mset (take i xs @ drop (Suc i) xs)) = mset xs"
  by (subst (3) id_take_nth_drop [of i xs]) simp_all

lemma exec_op_originals:
  assumes "exec_op nx p rows = Some rows'"
  shows "filter_mset (\<lambda>r. snd r \<noteq> None) (mset rows') = filter_mset (\<lambda>r. snd r \<noteq> None) (mset rows)"
proof (cases p)
  case (Insert i)
  with assms have "rows' = take i rows @ (nx ! i, None) # drop i rows" by (auto split: if_splits)
  then have "mset rows' = add_mset (nx ! i, None) (mset rows)" by (simp only: mset_insert_at)
  then show ?thesis by simp
next
  case (Move f t)
  with assms have "f < length rows"
    "rows' = take t (take f rows @ drop (Suc f) rows) @ rows ! f # drop t (take f rows @ drop (Suc f) rows)"
    by (auto simp: Let_def split: if_splits)
  then have "mset rows' = mset rows" by (simp only: mset_insert_at mset_drop_at)
  then show ?thesis by simp
qed

lemma exec_plan_originals:
  "exec_plan nx ops rows = Some rows' \<Longrightarrow>
   filter_mset (\<lambda>r. snd r \<noteq> None) (mset rows') = filter_mset (\<lambda>r. snd r \<noteq> None) (mset rows)"
proof (induction ops arbitrary: rows)
  case (Cons p ops)
  then obtain mid where "exec_op nx p rows = Some mid" "exec_plan nx ops mid = Some rows'"
    by (auto simp: Option.bind_eq_Some_conv)
  with Cons.IH exec_op_originals show ?case by metis
qed simp

lemma left_rows_all: "left_rows prev {..<length prev} = shown_rows prev"
  by (auto simp: left_rows_def shown_rows_def intro!: nth_equalityI)

text \<open>C15: A list model is reconciled without losing a row that could stay. For any identifiers
  shown and wanted, with duplicates, the tree never underflows, every move and insertion of the
  plan is in range, and executing it makes the first rows show exactly the wanted identifiers, in
  order; all old rows are still there, each once, until the host cuts the rest off; and no row is
  inserted under an identifier for which an old row is being cut off.\<close>

theorem row_plan_reconciles:
  "\<exists>ops rows extra. row_plan prev next = Some ops
     \<and> exec_plan next ops (shown_rows prev) = Some (rows @ extra)
     \<and> map fst rows = next
     \<and> mset (filter (\<lambda>r. snd r \<noteq> None) (rows @ extra)) = mset (shown_rows prev)
     \<and> set (map fst (filter (\<lambda>r. snd r = None) rows)) \<inter> set (map fst extra) = {}"
proof -
  have "plan_state prev {..<length prev} (positions_of prev) (tree_new (length prev))"
    by (auto simp: plan_state_def tree_new_ok positions_of_queue intro!: filter_cong)
  from plan_loop_ok [OF this, of "next" "[]" "next"] obtain ops rows R' where
    loop: "row_plan prev next = Some ops" and
    run: "exec_plan next ops (shown_rows prev) = Some (rows @ left_rows prev R')" and
    rows: "map fst rows = next" "R' \<subseteq> {..<length prev}"
      "list_all (\<lambda>r. snd r = None \<longrightarrow> fst r \<notin> (!) prev ` R') rows"
    by (auto simp: row_plan_def left_rows_all)
  have "filter (\<lambda>r. snd r \<noteq> None) (shown_rows prev) = shown_rows prev"
    by (simp add: left_rows_all [symmetric] left_rows_def filter_map o_def)
  then have "filter_mset (\<lambda>r. snd r \<noteq> None) (mset (shown_rows prev)) = mset (shown_rows prev)"
    by (metis mset_filter)
  with exec_plan_originals [OF run]
  have "mset (filter (\<lambda>r. snd r \<noteq> None) (rows @ left_rows prev R')) = mset (shown_rows prev)"
    by (simp only: mset_filter)
  moreover have "set (map fst (filter (\<lambda>r. snd r = None) rows)) \<inter> set (map fst (left_rows prev R')) = {}"
    using rows(3) by (auto simp: left_rows_def list_all_iff)
  ultimately show ?thesis using loop run rows(1) by blast
qed

end
