(* ===== verification/Civil_Time.thy ===== *)
theory Civil_Time
  imports Qml_Value
begin

text \<open>
  \<open>qml-core/src/time.rs\<close>: civil dates, the calendar of the clock panel, UTC offsets and time
  zone search. The source computes dates in \<open>i64\<close>; every quantity is bounded by the range
  checks (years below 300000, steps of at most a million days or months), so the integers are
  unbounded here. Its truncating divisions have non-negative operands, where they are \<open>div\<close>.
\<close>

section \<open>Days and civil dates\<close>

definition days :: "int \<Rightarrow> int \<Rightarrow> int \<Rightarrow> int" where
  "days y m d =
     (let year = y - (if m \<le> 2 then 1 else 0);
          era = year div 400;
          yy = year - era * 400;
          mm = m + (if 2 < m then - 3 else 9)
      in era * 146097 + yy * 365 + yy div 4 - yy div 100 + (153 * mm + 2) div 5 + d - 1 - 719468)"

definition civil :: "int \<Rightarrow> int \<times> int \<times> int" where
  "civil day =
     (let z = day + 719468;
          era = z div 146097;
          doe = z - era * 146097;
          yoe = (doe - doe div 1460 + doe div 36524 - doe div 146096) div 365;
          y = yoe + era * 400;
          doy = doe - (365 * yoe + yoe div 4 - yoe div 100);
          mp = (5 * doy + 2) div 153;
          d = doy - (153 * mp + 2) div 5 + 1;
          m = mp + (if mp < 10 then 3 else - 9)
      in (y + (if m \<le> 2 then 1 else 0), m, d))"

definition legacy_year :: "int \<Rightarrow> int" where
  "legacy_year y = (if 0 \<le> y \<and> y \<le> 99 then y + 1900 else y)"

text \<open>An integral number in a range.\<close>

definition integer_in :: "int \<Rightarrow> int \<Rightarrow> f64 \<Rightarrow> int option" where
  "integer_in lo hi v = (case v of
       Fin x \<Rightarrow> if of_int lo \<le> x \<and> x \<le> of_int hi \<and> of_int \<lfloor>x\<rfloor> = x then Some \<lfloor>x\<rfloor> else None
     | _ \<Rightarrow> None)"

definition max_epoch :: rat where "max_epoch = 8640000000000000"

definition epoch_of :: "json \<Rightarrow> rat option" where
  "epoch_of v = (case Option.bind (json_get v ''epoch'') as_f64 of
       Some (Fin x) \<Rightarrow> if \<bar>x\<bar> \<le> max_epoch then Some x else None
     | _ \<Rightarrow> None)"

definition date_of :: "host \<Rightarrow> json \<Rightarrow> (int \<times> int \<times> int) option" where
  "date_of h v =
     (case epoch_of v of
        None \<Rightarrow> None
      | Some _ \<Rightarrow>
          (case (integer_in (- 271821) 275760 (number h (json_get v ''year'')),
                 integer_in 1 12 (number h (json_get v ''month'')),
                 integer_in 1 31 (number h (json_get v ''day''))) of
             (Some y, Some m, Some d) \<Rightarrow> Some (y, m, d)
           | _ \<Rightarrow> None))"

definition two_digits :: "int \<Rightarrow> string" where
  "two_digits n = pad_zeros 2 (nat_digits (nat n))"

definition stamp :: "int \<times> int \<times> int \<Rightarrow> string" where
  "stamp ymd = (case ymd of (y, m, d) \<Rightarrow>
     pad_zeros 4 (show_int y) @ ''-'' @ two_digits m @ ''-'' @ two_digits d)"

definition iso_week :: "int \<Rightarrow> int" where
  "iso_week day =
     (let thursday = day + 3 - (day + 3) mod 7
      in (thursday - days (fst (civil thursday)) 1 1) div 7 + 1)"

definition truncated :: "rat \<Rightarrow> int" where
  "truncated x = (if 0 \<le> x then \<lfloor>x\<rfloor> else \<lceil>x\<rceil>)"

definition month_of :: "host \<Rightarrow> json \<Rightarrow> json option \<Rightarrow> (int \<times> int) option" where
  "month_of h now off =
     (case date_of h now of
        None \<Rightarrow> None
      | Some (y, m, _) \<Rightarrow>
          (case (if truthy off then number h off else Fin 0) of
             Fin x \<Rightarrow>
               if 1000000 < \<bar>x\<bar> then None
               else (let whole = truncated (of_int m - 1 + x)
                     in Some (legacy_year y + whole div 12, whole mod 12 + 1))
           | _ \<Rightarrow> None))"

section \<open>The calendar\<close>

text \<open>The first day of the month as the date constructor sees it, the weekday of the first and
  the number of rows.\<close>

definition month_first :: "int \<Rightarrow> int \<Rightarrow> int" where
  "month_first y m = days (legacy_year y) m 1"

definition month_monday :: "int \<Rightarrow> int \<Rightarrow> int" where
  "month_monday y m = (days y m 1 + 3) mod 7"

definition month_next :: "int \<Rightarrow> int \<Rightarrow> int" where
  "month_next y m =
     (if m = 12 then days (legacy_year y + 1) 1 1 else days (legacy_year y) (m + 1) 1)"

definition month_weeks :: "int \<Rightarrow> int \<Rightarrow> int" where
  "month_weeks y m = (month_monday y m + month_next y m - month_first y m + 6) div 7"

datatype cell =
    Week_cell int
  | Day_cell bool "int \<times> int \<times> int"

definition row_cursor :: "int \<Rightarrow> int \<Rightarrow> int \<Rightarrow> int" where
  "row_cursor y m row =
     (case civil (month_first y m - month_monday y m + row * 7) of (cy, cm, cd) \<Rightarrow>
        days (legacy_year cy) cm 1 + cd - 1)"

definition row_cells :: "int \<Rightarrow> int \<Rightarrow> int \<Rightarrow> cell list" where
  "row_cells y m row =
     Week_cell (iso_week (row_cursor y m row))
     # map (\<lambda>column. let v = civil (row_cursor y m row + column)
                      in Day_cell (fst v = y \<and> fst (snd v) = m) v) [0..6]"

definition month_cells :: "int \<Rightarrow> int \<Rightarrow> cell list" where
  "month_cells y m = concat (map (row_cells y m) [0..month_weeks y m - 1])"

fun cell_value :: "(int \<times> int \<times> int) option \<Rightarrow> cell \<Rightarrow> json" where
  "cell_value today (Week_cell w) = json_obj [(''week'', JBool True), (''label'', JNum (show_int w))]"
| "cell_value today (Day_cell inside v) = json_obj
     [(''week'', JBool False), (''inMonth'', JBool inside),
      (''day'', JNum (show_int (if inside then snd (snd v) else 0))),
      (''date'', JStr (if inside then stamp v else [])),
      (''today'', JBool (inside \<and> Some v = today))]"

section \<open>Offsets and clock times\<close>

definition offset_shape :: "string \<Rightarrow> bool" where
  "offset_shape s \<longleftrightarrow> length s = 5 \<and> hd s \<in> set ''+-'' \<and> list_all is_ascii_digit (tl s)"

definition offset_minutes :: "string \<Rightarrow> int option" where
  "offset_minutes s =
     (if \<not> offset_shape s then None
      else
        (let hours = int (digit_value (s ! 1)) * 10 + int (digit_value (s ! 2));
             minutes = int (digit_value (s ! 3)) * 10 + int (digit_value (s ! 4))
         in if 23 < hours \<or> 59 < minutes then None
            else Some ((hours * 60 + minutes) * (if hd s = CHR ''-'' then - 1 else 1))))"

definition format_offset :: "string \<Rightarrow> string" where
  "format_offset s = (if offset_shape s then ''UTC'' @ take 3 s @ '':'' @ drop 3 s else [])"

definition local_offset :: "int \<Rightarrow> string" where
  "local_offset n =
     (if n < 0 then ''-'' else ''+'') @ two_digits (\<bar>n\<bar> div 60) @ two_digits (\<bar>n\<bar> mod 60)"

definition opt_arg :: "nat \<Rightarrow> json list \<Rightarrow> json option" where
  "opt_arg i args = (if i < length args then Some (args ! i) else None)"

text \<open>The offset that applies; \<open>None\<close> is the early empty answer.\<close>

definition raw_offset :: "host \<Rightarrow> bool \<Rightarrow> json \<Rightarrow> json option \<Rightarrow> string option" where
  "raw_offset h stamped now v =
     (if stamped \<and> (case v of Some x \<Rightarrow> json_index x ''local'' = JBool True | None \<Rightarrow> False) then
        (case finite_or h (json_get now ''offset'') (Fin 0) of
           Fin x \<Rightarrow> if 1439 < \<bar>x\<bar> then None else Some (local_offset (truncated x))
         | _ \<Rightarrow> None)
      else Some (js_text h v))"

definition clock_text :: "host \<Rightarrow> bool \<Rightarrow> json list \<Rightarrow> string" where
  "clock_text h stamped args =
     (let now = (case opt_arg 0 args of Some v \<Rightarrow> v | None \<Rightarrow> JNull)
      in case raw_offset h stamped now (opt_arg 1 args) of
           None \<Rightarrow> []
         | Some raw \<Rightarrow>
             (case (offset_minutes raw, epoch_of now) of
                (Some minutes, Some epoch) \<Rightarrow>
                  (let seconds = \<lfloor>epoch / 1000\<rfloor> + minutes * 60;
                       clock = seconds mod 86400;
                       hms = two_digits (clock div 3600) @ '':'' @ two_digits (clock mod 3600 div 60);
                       date = civil (seconds div 86400)
                   in if \<not> stamped then
                        hms @ (if truthy (opt_arg 2 args) then '':'' @ two_digits (clock mod 60) else [])
                      else if \<not> (0 \<le> fst date \<and> fst date \<le> 9999) then []
                      else stamp date @ ''T'' @ hms @ '':'' @ two_digits (clock mod 60)
                           @ take 3 raw @ '':'' @ drop 3 raw)
              | _ \<Rightarrow> []))"

section \<open>Moving the selected date\<close>

definition date_parts :: "string \<Rightarrow> (int \<times> int \<times> int) option" where
  "date_parts s = (case split_on (CHR ''-'') s of
       [a, b, c] \<Rightarrow>
         if length a = 4 \<and> length b = 2 \<and> length c = 2
            \<and> list_all is_ascii_digit (a @ b @ c)
         then Some (int (digits_value a), int (digits_value b), int (digits_value c)) else None
     | _ \<Rightarrow> None)"

text \<open>A date is accepted if it exists; years below 100 must exist in the century the date
  constructor maps them to as well.\<close>

definition date_exists :: "int \<times> int \<times> int \<Rightarrow> bool" where
  "date_exists ymd = (case ymd of (y, m, d) \<Rightarrow>
     1 \<le> m \<and> m \<le> 12 \<and> 1 \<le> d \<and> d \<le> 31 \<and> civil (days y m d) = (y, m, d)
     \<and> \<not> (0 \<le> y \<and> y \<le> 99 \<and> fst (snd (civil (days (y + 1900) m 1 + d - 1))) \<noteq> m))"

definition move_date :: "host \<Rightarrow> json list \<Rightarrow> (string \<times> int) option" where
  "move_date h args =
     (let now = (case opt_arg 0 args of Some v \<Rightarrow> v | None \<Rightarrow> JNull)
      in case date_of h now of
           None \<Rightarrow> None
         | Some (cy, cm, cd) \<Rightarrow>
             (let selected = (if truthy (opt_arg 1 args) then js_text h (opt_arg 1 args)
                              else stamp (cy, cm, cd))
              in case date_parts selected of
                   None \<Rightarrow> None
                 | Some (y, m, d) \<Rightarrow>
                     if \<not> date_exists (y, m, d) then None
                     else
                       (case integer_in (- 1000000) 1000000 (number h (opt_arg 2 args)) of
                          None \<Rightarrow> None
                        | Some step \<Rightarrow>
                            (let v = civil (days y m d + step);
                                 off = (fst v - cy) * 12 + fst (snd v) - cm
                             in if - 60 \<le> off \<and> off \<le> 60 then Some (stamp v, off) else None))))"

section \<open>Time zones\<close>

definition searchable :: "host \<Rightarrow> string \<Rightarrow> string" where
  "searchable h s =
     map (\<lambda>c. if c = CHR ''_'' \<or> c = CHR ''/'' then CHR '' '' else c) (to_lowercase h s)"

definition search_words :: "host \<Rightarrow> json option \<Rightarrow> string list" where
  "search_words h query =
     map of_chars (filter (\<lambda>w. w \<noteq> []) (split_chars is_space (chars (searchable h (js_text h query)))))"

definition zone_keys :: "string list" where
  "zone_keys = [''id'', ''zone'', ''label'', ''aliases'', ''flag'', ''abbreviation'']"

definition zone_haystack :: "host \<Rightarrow> json \<Rightarrow> string" where
  "zone_haystack h zone = searchable h
     (join_with '' '' (map (\<lambda>k. js_text h (json_get zone k)) zone_keys) @ '' ''
        @ format_offset (js_text h (json_get zone ''offset'')))"

definition filtered_zones :: "host \<Rightarrow> json list \<Rightarrow> json option \<Rightarrow> nat list" where
  "filtered_zones h zones query =
     filter (\<lambda>i. list_all (\<lambda>w. contains_str w (zone_haystack h (zones ! i))) (search_words h query))
       [0..<length zones]"

fun pin_zones :: "host \<Rightarrow> json list \<Rightarrow> nat list \<Rightarrow> json list \<Rightarrow> string list \<Rightarrow> nat list
    \<Rightarrow> nat list \<times> string list" where
  "pin_zones h zones selected [] seen result = (result, seen)"
| "pin_zones h zones selected (pin # pins) seen result =
     (case find (\<lambda>i. json_get (zones ! i) ''id'' = Some pin) selected of
        None \<Rightarrow> pin_zones h zones selected pins seen result
      | Some i \<Rightarrow>
          (let key = js_string h (json_get (zones ! i) ''id'')
           in if key \<in> set seen then pin_zones h zones selected pins seen result
              else pin_zones h zones selected pins (key # seen) (result @ [i])))"

definition order_zones :: "host \<Rightarrow> json list \<Rightarrow> json list \<Rightarrow> json option \<Rightarrow> nat list" where
  "order_zones h zones pins query =
     (let selected = filtered_zones h zones query
      in case pin_zones h zones selected pins [] [] of (result, seen) \<Rightarrow>
           result @ filter (\<lambda>i. js_string h (json_get (zones ! i) ''id'') \<notin> set seen) selected)"

section \<open>The calls\<close>

definition int_list :: "int list \<Rightarrow> json" where
  "int_list xs = JArr (map (\<lambda>n. JNum (show_int n)) xs)"

definition copy_date :: "host \<Rightarrow> json \<Rightarrow> json" where
  "copy_date h now = JStr (if \<not> truthy (json_get now ''week'') \<and> truthy (json_get now ''inMonth'')
     then js_text h (json_get now ''date'') else [])"

definition time_call :: "host \<Rightarrow> string \<Rightarrow> json list \<Rightarrow> string + json" where
  "time_call h function args =
     (let now = (case opt_arg 0 args of Some v \<Rightarrow> v | None \<Rightarrow> JNull);
          second = (case opt_arg 1 args of Some v \<Rightarrow> v | None \<Rightarrow> JNull)
      in if function = ''calendarDate'' then
           Inr (JStr (case date_of h now of Some v \<Rightarrow> stamp v | None \<Rightarrow> []))
         else if function = ''calendarCopyDate'' then Inr (copy_date h now)
         else if function = ''sameDay'' then
           Inr (JBool (date_of h now \<noteq> None \<and> date_of h now = date_of h second))
         else if function = ''monthDate'' then
           Inr (case month_of h now (opt_arg 1 args) of Some (y, m) \<Rightarrow> int_list [y, m] | None \<Rightarrow> JNull)
         else if function = ''isoWeek'' then
           Inr (case date_of h now of
                  Some (y, m, d) \<Rightarrow> JNum (show_int (iso_week (days (legacy_year y) m d)))
                | None \<Rightarrow> JNull)
         else if function = ''calendarWeeks'' then
           Inr (case month_of h now (opt_arg 1 args) of
                  Some (y, m) \<Rightarrow> JNum (show_int (month_weeks y m)) | None \<Rightarrow> JNull)
         else if function = ''calendarCells'' then
           Inr (JArr (case month_of h now (opt_arg 1 args) of
                        Some (y, m) \<Rightarrow> map (cell_value (date_of h now)) (month_cells y m)
                      | None \<Rightarrow> []))
         else if function = ''filterZones'' then
           Inr (int_list (map int (filtered_zones h (js_array (opt_arg 0 args)) (opt_arg 1 args))))
         else if function = ''orderZones'' then
           Inr (int_list (map int (order_zones h (js_array (opt_arg 0 args))
                                     (js_array (opt_arg 1 args)) (opt_arg 2 args))))
         else if function = ''formatOffset'' then
           Inr (JStr (format_offset (js_text h (opt_arg 0 args))))
         else if function = ''offsetTime'' then Inr (JStr (clock_text h False args))
         else if function = ''clockTimestamp'' then Inr (JStr (clock_text h True args))
         else if function = ''moveCalendarDate'' then
           Inr (case move_date h args of
                  Some (date, off) \<Rightarrow> json_obj [(''date'', JStr date), (''monthOffset'', JNum (show_int off))]
                | None \<Rightarrow> JNull)
         else Inl (''Unknown time function: '' @ function))"

end
