(* ===== verification/Civil_Theorems.thy ===== *)
theory Civil_Theorems
  imports Civil_Time
begin

text \<open>
  The calendar is the Gregorian calendar: the reference is the successor of a date
  (\<open>next_day\<close>), written from the rule for leap years and the lengths of the months.
\<close>

section \<open>The reference\<close>

definition leap :: "int \<Rightarrow> bool" where
  "leap y \<longleftrightarrow> y mod 4 = 0 \<and> (y mod 100 \<noteq> 0 \<or> y mod 400 = 0)"

definition month_length :: "int \<Rightarrow> int \<Rightarrow> int" where
  "month_length y m =
     (if m = 2 then if leap y then 29 else 28
      else if m \<in> {4, 6, 9, 11} then 30 else 31)"

definition valid_date :: "int \<times> int \<times> int \<Rightarrow> bool" where
  "valid_date ymd = (case ymd of (y, m, d) \<Rightarrow> 1 \<le> m \<and> m \<le> 12 \<and> 1 \<le> d \<and> d \<le> month_length y m)"

definition next_day :: "int \<times> int \<times> int \<Rightarrow> int \<times> int \<times> int" where
  "next_day ymd = (case ymd of (y, m, d) \<Rightarrow>
     if d < month_length y m then (y, m, d + 1)
     else if m < 12 then (y, m + 1, 1) else (y + 1, 1, 1))"

section \<open>Years of an era\<close>

definition year_start :: "int \<Rightarrow> int" where
  "year_start y = 365 * y + y div 4 - y div 100"

definition year_length :: "int \<Rightarrow> int" where
  "year_length y = (if leap (y + 1) then 366 else 365)"

definition year_of :: "int \<Rightarrow> int" where
  "year_of doe = (doe - doe div 1460 + doe div 36524 - doe div 146096) div 365"

lemma year_split: "\<exists>c q r. y = 100 * c + 4 * q + r \<and> 0 \<le> q \<and> q \<le> 24 \<and> 0 \<le> r \<and> r \<le> (3 :: int)"
  by (intro exI [of _ "y div 100"] exI [of _ "y mod 100 div 4"] exI [of _ "y mod 100 mod 4"]) auto

lemma year_start_split:
  assumes "0 \<le> q" "q \<le> 24" "0 \<le> r" "r \<le> 3"
  shows "year_start (100 * c + 4 * q + r) = 36524 * c + 1461 * q + 365 * r"
proof -
  have "100 * c + 4 * q + r = r + 4 * (25 * c + q)" by simp
  then have "(100 * c + 4 * q + r) div 4 = 25 * c + q"
    using assms(3,4) by (simp only: div_mult_self2)
  moreover have "(100 * c + 4 * q + r) div 100 = c" using assms by auto
  ultimately show ?thesis by (simp add: year_start_def)
qed

lemma leap_split:
  assumes "0 \<le> q" "q \<le> 24" "0 \<le> r" "r \<le> 3"
  shows "leap (100 * c + 4 * q + r + 1) \<longleftrightarrow> r = 3 \<and> (q = 24 \<longrightarrow> c mod 4 = 3)"
proof (cases "r = 3")
  case False
  have "100 * c + 4 * q + r + 1 = r + 1 + 4 * (25 * c + q)" by simp
  then have "(100 * c + 4 * q + r + 1) mod 4 = (r + 1) mod 4" by (simp only: mod_mult_self2)
  with False assms show ?thesis by (simp add: leap_def)
next
  case True
  have "100 * c + 4 * q + r + 1 = 0 + 4 * (25 * c + q + 1)" using True by simp
  then have four: "(100 * c + 4 * q + r + 1) mod 4 = 0" by simp
  show ?thesis
  proof (cases "q = 24")
    case True
    have h: "100 * c + 4 * q + r + 1 = 100 * (c + 1)" using True \<open>r = 3\<close> by simp
    have "100 * (c + 1) mod 400 = 100 * ((c + 1) mod 4)"
      using mult_mod_right [of 100 "c + 1" 4] by simp
    moreover have "(c + 1) mod 4 = 0 \<longleftrightarrow> c mod 4 = 3" by presburger
    ultimately have "(100 * c + 4 * q + r + 1) mod 400 = 0 \<longleftrightarrow> c mod 4 = 3" unfolding h by simp
    moreover have "(100 * c + 4 * q + r + 1) mod 100 = 0" unfolding h by simp
    ultimately show ?thesis using four True \<open>r = 3\<close> unfolding leap_def by metis
  next
    case False
    have "100 * c + 4 * q + r + 1 = 4 * q + 4 + 100 * c" using True by simp
    then have "(100 * c + 4 * q + r + 1) mod 100 = 4 * q + 4"
      using False assms by (simp only: mod_mult_self2) simp
    then show ?thesis using four True False assms by (simp add: leap_def)
  qed
qed

text \<open>With \<open>y = 100 c + 4 q + r\<close> the divisions of \<open>year_of\<close> are \<open>c\<close> and \<open>25 c + q\<close>, the latter one more
  late in a leap year.\<close>

lemma year_of_exact:
  assumes "0 \<le> y" "y < 400" "0 \<le> doy" "doy < year_length y"
  shows "year_of (year_start y + doy) = y"
proof -
  obtain c q r where y: "y = 100 * c + 4 * q + r" and q: "0 \<le> q" "q \<le> 24" and r: "0 \<le> r" "r \<le> 3"
    using year_split [of y] by blast
  have c: "0 \<le> c" "c \<le> 3" using assms(1,2) y q r by auto
  have doy: "doy \<le> 365" "doy = 365 \<longrightarrow> r = 3 \<and> (q = 24 \<longrightarrow> c = 3)"
    using assms(4) leap_split [OF q r, of c] c by (auto simp: year_length_def y split: if_splits)
  have start: "year_start y = 36524 * c + 1461 * q + 365 * r"
    unfolding y by (rule year_start_split [OF q r])
  define e where "e = 24 * c + q + 365 * r + doy"
  have e: "0 \<le> e" "e < 2920" "doy = 0 \<longrightarrow> e < 1460" "doy = 365 \<longrightarrow> 1460 \<le> e"
    using c q r doy assms(3) by (auto simp: e_def)
  have doe: "year_start y + doy = 1460 * (25 * c + q) + e" by (simp add: start e_def)
  have century: "(year_start y + doy) div 36524 - (year_start y + doy) div 146096 = c"
  proof -
    have w: "0 \<le> 1461 * q + 365 * r + doy" "1461 * q + 365 * r + doy \<le> 36524"
      "1461 * q + 365 * r + doy = 36524 \<longrightarrow> c = 3"
      using q r doy assms(3) by auto
    have "(36524 * c + w) div 36524 - (36524 * c + w) div 146096 = c"
      if "0 \<le> w" "w \<le> 36524" "w = 36524 \<longrightarrow> c = 3" for w
    proof (cases "w = 36524")
      case False
      then have "(36524 * c + w) div 36524 = c" "(36524 * c + w) div 146096 = 0"
        using that c by auto
      then show ?thesis by simp
    qed (use that in simp)
    from this [OF w] show ?thesis by (simp add: start add.assoc)
  qed
  have leaps: "(year_start y + doy) div 1460 = 25 * c + q + e div 1460"
    unfolding doe by simp
  have "year_start y + doy - (year_start y + doy) div 1460 + (year_start y + doy) div 36524
      - (year_start y + doy) div 146096 = year_start y + doy - (25 * c + q + e div 1460) + c"
    using century leaps by simp
  also have "\<dots> = 365 * y + (doy - e div 1460)" unfolding start by (simp add: y)
  finally have n: "year_start y + doy - (year_start y + doy) div 1460 + (year_start y + doy) div 36524
      - (year_start y + doy) div 146096 = 365 * y + (doy - e div 1460)" .
  have "0 \<le> doy - e div 1460" "doy - e div 1460 < 365"
    using e assms(3) doy(1) by linarith+
  then show ?thesis unfolding year_of_def n by simp
qed

lemma year_start_next:
  assumes "y mod 400 \<noteq> 399"
  shows "year_start (y + 1) = year_start y + year_length y"
proof -
  obtain c q r where y: "y = 100 * c + 4 * q + r" and q: "0 \<le> q" "q \<le> 24" and r: "0 \<le> r" "r \<le> 3"
    using year_split [of y] by blast
  note lengths = leap_split [OF q r, of c] year_start_split [OF q r, of c]
  consider "r < 3" | "r = 3" "q < 24" | "r = 3" "q = 24" using q r by linarith
  then show ?thesis
  proof cases
    case 1
    then show ?thesis
      using year_start_split [of q "r + 1" c] q r lengths by (simp add: year_length_def y add.assoc)
  next
    case 2
    then show ?thesis
      using year_start_split [of "q + 1" 0 c] q lengths by (simp add: year_length_def y algebra_simps)
  next
    case 3
    have "c mod 4 \<noteq> 3"
    proof
      assume "c mod 4 = 3"
      then have "c = 4 * (c div 4) + 3" using div_mult_mod_eq [of c 4] by simp
      then have "y = 399 + 400 * (c div 4)" using 3 y by simp
      then have "y mod 400 = 399" by simp
      then show False using assms by simp
    qed
    then show ?thesis
      using 3 year_start_split [of 0 0 "c + 1"] lengths by (simp add: year_length_def y algebra_simps)
  qed
qed

lemma year_start_ends: "year_start 0 = 0" "year_start 399 + year_length 399 = 146097"
  by (simp_all add: year_start_def year_length_def leap_def)

lemma year_exists:
  assumes "0 \<le> doe" "doe < 146097"
  shows "\<exists>y doy. 0 \<le> y \<and> y < 400 \<and> 0 \<le> doy \<and> doy < year_length y \<and> doe = year_start y + doy"
proof -
  have "doe < year_start (int n) + year_length (int n) \<Longrightarrow>
    \<exists>y doy. 0 \<le> y \<and> y \<le> int n \<and> 0 \<le> doy \<and> doy < year_length y \<and> doe = year_start y + doy"
    if "n < 400" for n
    using that
  proof (induction n)
    case 0
    then show ?case using assms(1) year_start_ends(1) by (intro exI [of _ 0] exI [of _ doe]) simp
  next
    case (Suc n)
    show ?case
    proof (cases "doe < year_start (int n) + year_length (int n)")
      case True
      then show ?thesis using Suc by force
    next
      case False
      then show ?thesis
        using Suc.prems year_start_next [of "int n"]
        by (intro exI [of _ "int n + 1"] exI [of _ "doe - year_start (int n + 1)"]) (simp add: algebra_simps)
    qed
  qed
  from this [of 399] assms(2) year_start_ends(2) show ?thesis by force
qed

section \<open>Months of a year that begins in March\<close>

definition month_start :: "int \<Rightarrow> int" where
  "month_start mp = (153 * mp + 2) div 5"

definition march_month :: "int \<Rightarrow> int" where
  "march_month m = m + (if 2 < m then - 3 else 9)"

text \<open>The length of the month \<open>mp\<close> months after March of year \<open>y\<close>.\<close>

definition march_length :: "int \<Rightarrow> int \<Rightarrow> int" where
  "march_length y mp = (if mp = 11 then if leap (y + 1) then 29 else 28
     else month_start (mp + 1) - month_start mp)"

lemma month_of_exact:
  assumes "0 \<le> mp" "mp \<le> 11" "1 \<le> d" "d \<le> march_length y mp"
  shows "(5 * (month_start mp + d - 1) + 2) div 153 = mp"
proof -
  have "5 * month_start mp \<le> 153 * mp + 2" "153 * mp + 2 < 5 * month_start mp + 5"
    by (auto simp: month_start_def)
  moreover have "5 * (month_start mp + d - 1) + 2 < 153 * (mp + 1)"
  proof (cases "mp = 11")
    case True
    then show ?thesis using assms(4) by (simp add: march_length_def month_start_def split: if_splits)
  next
    case False
    then have "month_start mp + d \<le> month_start (mp + 1)" using assms(4) by (simp add: march_length_def)
    moreover have "5 * month_start (mp + 1) \<le> 153 * (mp + 1) + 2" unfolding month_start_def by linarith
    ultimately show ?thesis by (simp add: algebra_simps)
  qed
  ultimately show ?thesis
    using assms(3)
    by (intro int_div_pos_eq [of _ _ _ "5 * (month_start mp + d - 1) + 2 - 153 * mp"])
      (simp_all add: algebra_simps)
qed

section \<open>Days and civil dates are inverse\<close>

lemma days_march:
  "days y m d = (y - (if m \<le> 2 then 1 else 0)) div 400 * 146097
     + year_start ((y - (if m \<le> 2 then 1 else 0)) mod 400) + month_start (march_month m) + d - 1 - 719468"
proof -
  define p where "p = y - (if m \<le> 2 then 1 else 0)"
  have "p - p div 400 * 400 = p mod 400" by (simp add: minus_div_mult_eq_mod)
  then show ?thesis
    unfolding days_def Let_def p_def [symmetric]
    by (simp add: year_start_def month_start_def march_month_def)
qed

text \<open>\<open>civil\<close> on a day given by its era, year of the era, month from March and day.\<close>

lemma civil_march:
  assumes "0 \<le> y" "y < 400" "0 \<le> mp" "mp \<le> 11" "1 \<le> d" "d \<le> march_length y mp"
  shows "civil (era * 146097 + year_start y + month_start mp + d - 1 - 719468)
    = (y + era * 400 + (if 10 \<le> mp then 1 else 0), mp + (if mp < 10 then 3 else - 9), d)"
proof -
  define doy where "doy = month_start mp + d - 1"
  have doy: "0 \<le> doy" "doy < year_length y"
  proof -
    show "0 \<le> doy" using assms(3,5) by (simp add: doy_def month_start_def)
    have "doy \<le> 364 + (if leap (y + 1) then 1 else 0)"
    proof (cases "mp = 11")
      case True
      then show ?thesis using assms(6) by (auto simp: doy_def march_length_def month_start_def split: if_splits)
    next
      case False
      then have "doy \<le> month_start (mp + 1) - 1" using assms(6) by (simp add: doy_def march_length_def)
      moreover have "month_start (mp + 1) \<le> month_start 11"
        using False assms(4) unfolding month_start_def by (intro zdiv_mono1) auto
      ultimately show ?thesis by (simp add: month_start_def)
    qed
    then show "doy < year_length y" by (simp add: year_length_def split: if_splits)
  qed
  have era_room: "0 \<le> year_start y + doy" "year_start y + doy < 146097"
  proof -
    show "0 \<le> year_start y + doy" using doy(1) assms(1) by (simp add: year_start_def)
    show "year_start y + doy < 146097"
    proof (cases "y = 399")
      case True
      then show ?thesis using doy(2) year_start_ends(2) by simp
    next
      case False
      then have "365 * y \<le> 365 * 398" "y div 4 \<le> 99" "0 \<le> y div 100" using assms(1,2) by auto
      then show ?thesis using doy(2) by (simp add: year_start_def year_length_def split: if_splits)
    qed
  qed
  define z where "z = era * 146097 + (year_start y + doy)"
  have z: "era * 146097 + year_start y + month_start mp + d - 1 - 719468 + 719468 = z"
    by (simp add: z_def doy_def)
  have era: "z div 146097 = era" "z - era * 146097 = year_start y + doy"
    using era_room by (simp_all add: z_def)
  have yoe: "year_of (year_start y + doy) = y" by (rule year_of_exact [OF assms(1,2) doy])
  have rest: "year_start y + doy - (365 * y + y div 4 - y div 100) = doy" by (simp add: year_start_def)
  have mp: "(5 * doy + 2) div 153 = mp"
    using month_of_exact [OF assms(3-6)] by (simp add: doy_def)
  have d: "doy - (153 * mp + 2) div 5 + 1 = d" by (simp add: doy_def month_start_def)
  show ?thesis
    unfolding civil_def Let_def z era yoe [unfolded year_of_def] rest mp d
    using assms(3,4) by auto
qed

lemma march_month_length:
  assumes "1 \<le> m" "m \<le> 12"
  shows "march_length ((y - (if m \<le> 2 then 1 else 0)) mod 400) (march_month m) = month_length y m"
    "0 \<le> march_month m" "march_month m \<le> 11"
proof -
  have "m = 1 \<or> m = 2 \<or> m = 3 \<or> m = 4 \<or> m = 5 \<or> m = 6 \<or> m = 7 \<or> m = 8 \<or> m = 9 \<or> m = 10 \<or> m = 11 \<or> m = 12"
    using assms by presburger
  moreover have "leap ((y - 1) mod 400 + 1) = leap y"
  proof -
    have "((y - 1) mod 400 + 1) mod k = y mod k" if "k dvd 400" for k
      using that by (metis diff_add_cancel mod_add_left_eq mod_mod_cancel)
    from this [of 4] this [of 100] this [of 400] show ?thesis by (simp add: leap_def)
  qed
  ultimately show "march_length ((y - (if m \<le> 2 then 1 else 0)) mod 400) (march_month m) = month_length y m"
    by (elim disjE) (simp_all add: march_length_def march_month_def month_length_def month_start_def)
  show "0 \<le> march_month m" "march_month m \<le> 11" using assms by (auto simp: march_month_def)
qed

lemma civil_days: "valid_date (y, m, d) \<Longrightarrow> civil (days y m d) = (y, m, d)"
proof -
  assume v: "valid_date (y, m, d)"
  then have m: "1 \<le> m" "m \<le> 12" by (simp_all add: valid_date_def)
  have "(y - (if m \<le> 2 then 1 else 0)) mod 400 + (y - (if m \<le> 2 then 1 else 0)) div 400 * 400
      = y - (if m \<le> 2 then 1 else 0)" by simp
  then show ?thesis
    unfolding days_march
    using v civil_march [of "(y - (if m \<le> 2 then 1 else 0)) mod 400" "march_month m" d
        "(y - (if m \<le> 2 then 1 else 0)) div 400"] march_month_length(1) [OF m, of y] march_month_length(2,3) [OF m]
    by (auto simp: valid_date_def march_month_def split: if_splits)
qed

lemma month_exists:
  assumes "0 \<le> doy" "doy < year_length y"
  shows "\<exists>mp d. 0 \<le> mp \<and> mp \<le> 11 \<and> 1 \<le> d \<and> d \<le> march_length y mp \<and> doy = month_start mp + d - 1"
proof -
  define mp where "mp = (5 * doy + 2) div 153"
  have "doy \<le> 365" "doy = 365 \<longrightarrow> leap (y + 1)"
    using assms(2) by (auto simp: year_length_def split: if_splits)
  then have "0 \<le> mp" "mp \<le> 11" using assms(1) unfolding mp_def by linarith+
  moreover have lo: "month_start mp \<le> doy"
  proof -
    have "153 * mp \<le> 5 * doy + 2" unfolding mp_def by simp
    then have "153 * mp + 2 < 5 * doy + 5" by simp
    then show ?thesis unfolding month_start_def by simp
  qed
  moreover have "doy - month_start mp + 1 \<le> march_length y mp"
  proof (cases "mp = 11")
    case True
    then show ?thesis
      using \<open>doy \<le> 365\<close> \<open>doy = 365 \<longrightarrow> leap (y + 1)\<close>
      by (auto simp: march_length_def month_start_def)
  next
    case False
    have "5 * doy + 2 < 153 * (mp + 1)" unfolding mp_def by simp
    then have "doy < month_start (mp + 1)" unfolding month_start_def by simp
    then show ?thesis using False by (simp add: march_length_def)
  qed
  ultimately show ?thesis
    by (intro exI [of _ mp] exI [of _ "doy - month_start mp + 1"]) simp
qed

lemma day_exists: "\<exists>y m d. valid_date (y, m, d) \<and> days y m d = z"
proof -
  define era where "era = (z + 719468) div 146097"
  have "0 \<le> (z + 719468) mod 146097" "(z + 719468) mod 146097 < 146097" by simp_all
  from year_exists [OF this] obtain yy doy where yy: "0 \<le> yy" "yy < 400" "0 \<le> doy" "doy < year_length yy"
    "(z + 719468) mod 146097 = year_start yy + doy" by blast
  obtain mp d where mp: "0 \<le> mp" "mp \<le> 11" "1 \<le> d" "d \<le> march_length yy mp" "doy = month_start mp + d - 1"
    using month_exists [OF yy(3,4)] by blast
  define m where "m = mp + (if mp < 10 then 3 else - 9)"
  define y where "y = yy + era * 400 + (if m \<le> 2 then 1 else 0)"
  have m: "1 \<le> m" "m \<le> 12" "march_month m = mp" using mp by (auto simp: m_def march_month_def)
  have year: "(y - (if m \<le> 2 then 1 else 0)) mod 400 = yy" "(y - (if m \<le> 2 then 1 else 0)) div 400 = era"
    using yy(1,2) by (simp_all add: y_def)
  have "z = era * 146097 + year_start yy + doy - 719468"
    using yy(5) div_mult_mod_eq [of "z + 719468" 146097] by (simp add: era_def)
  then have "days y m d = z"
    unfolding days_march year m(3) by (simp add: mp(5))
  moreover have "valid_date (y, m, d)"
    using m mp march_month_length(1) [OF m(1,2), of y] year by (simp add: valid_date_def)
  ultimately show ?thesis by blast
qed

lemma days_civil: "days (fst (civil z)) (fst (snd (civil z))) (snd (snd (civil z))) = z"
  and civil_valid: "valid_date (civil z)"
  using day_exists [of z] civil_days by (metis fst_conv snd_conv)+

section \<open>The calendar is Gregorian\<close>

lemma days_shift: "days y m d = days y m 1 + d - 1"
  by (simp add: days_def Let_def)

lemma days_next_year: "days (y + 1) 1 1 = days y 12 31 + 1"
proof -
  have "march_month 1 = 10" "march_month 12 = 9" by (simp_all add: march_month_def)
  then show ?thesis by (simp add: days_march month_start_def)
qed

lemma div_mod_unique: "x = r + k * q \<Longrightarrow> 0 \<le> r \<Longrightarrow> r < k \<Longrightarrow> x mod k = r \<and> x div k = q"
  for x r k q :: int
  by simp

lemma days_next_month:
  assumes "1 \<le> m" "m < 12"
  shows "days y (m + 1) 1 = days y m (month_length y m) + 1"
proof (cases "m = 2")
  case True
  have mm: "march_month 2 = 11" "march_month 3 = 0" "march_month (2 + 1) = 0"
    by (simp_all add: march_month_def)
  have lp: "leap ((y - 1) mod 400 + 1) = leap y"
    using march_month_length(1) [of 2 y] by (auto simp: mm march_length_def month_length_def split: if_splits)
  have ml: "month_length y 2 = (if leap y then 29 else 28)" by (simp add: month_length_def)
  have room: "0 \<le> (y - 1) mod 400" "(y - 1) mod 400 < 400" by simp_all
  have y: "y = (y - 1) div 400 * 400 + (y - 1) mod 400 + 1" by simp
  show ?thesis
  proof (cases "(y - 1) mod 400 = 399")
    case True
    then have "y = ((y - 1) div 400 + 1) * 400" using y by simp
    then have "y mod 400 = 0" "y div 400 = (y - 1) div 400 + 1"
      by (metis mod_mult_self2_is_0, metis nonzero_mult_div_cancel_right zero_neq_numeral)
    moreover have "leap y" using lp True by (simp add: leap_def)
    ultimately show ?thesis
      using True year_start_ends \<open>m = 2\<close> by (simp add: days_march mm ml month_start_def year_length_def leap_def)
  next
    case False
    then have "(y - 1) mod 400 + 1 < 400" using room by linarith
    moreover have "y = (y - 1) mod 400 + 1 + 400 * ((y - 1) div 400)" using y by simp
    ultimately have "y mod 400 = (y - 1) mod 400 + 1" "y div 400 = (y - 1) div 400"
      using div_mod_unique [of y "(y - 1) mod 400 + 1" 400 "(y - 1) div 400"] room by simp_all
    moreover have "year_start ((y - 1) mod 400 + 1) = year_start ((y - 1) mod 400) + year_length ((y - 1) mod 400)"
      using False by (intro year_start_next) simp
    ultimately show ?thesis
      using lp \<open>m = 2\<close> by (simp add: days_march mm ml month_start_def year_length_def)
  qed
next
  case False
  have "m = 1 \<or> m = 3 \<or> m = 4 \<or> m = 5 \<or> m = 6 \<or> m = 7 \<or> m = 8 \<or> m = 9 \<or> m = 10 \<or> m = 11"
    using assms False by presburger
  then show ?thesis
    by (elim disjE) (simp_all add: days_march march_month_def month_start_def month_length_def)
qed

lemma days_next: "valid_date v \<Longrightarrow> valid_date (next_day v)
    \<and> (case next_day v of (y, m, d) \<Rightarrow> days y m d) = (case v of (y, m, d) \<Rightarrow> days y m d) + 1"
proof -
  assume v: "valid_date v"
  obtain y m d where [simp]: "v = (y, m, d)" by (cases v)
  have len: "28 \<le> month_length y' m'" for y' m' by (simp add: month_length_def)
  show ?thesis
  proof (cases "d < month_length y m")
    case True
    then show ?thesis using v days_shift [of y m "d + 1"] days_shift [of y m d] by (simp add: valid_date_def next_day_def)
  next
    case False
    then have d: "d = month_length y m" using v by (simp add: valid_date_def)
    show ?thesis
    proof (cases "m < 12")
      case True
      then show ?thesis
        using v d days_next_month [of m y] len [of y "m + 1"] by (simp add: valid_date_def next_day_def)
    next
      case False
      then have "m = 12" using v by (simp add: valid_date_def)
      then show ?thesis
        using d days_next_year [of y] by (simp add: valid_date_def next_day_def month_length_def)
    qed
  qed
qed

lemma civil_next: "civil (z + 1) = next_day (civil z)"
proof -
  obtain y m d where c: "civil z = (y, m, d)" by (cases "civil z")
  then have v: "valid_date (y, m, d)" "days y m d = z"
    using civil_valid [of z] days_civil [of z] by simp_all
  obtain y' m' d' where n: "next_day (y, m, d) = (y', m', d')" by (cases "next_day (y, m, d)")
  with days_next [OF v(1)] v(2) have "valid_date (y', m', d')" "days y' m' d' = z + 1" by simp_all
  from civil_days [OF this(1)] this(2) n c show ?thesis by simp
qed

text \<open>C16: The date arithmetic is the Gregorian calendar, for all days before and after the epoch.
  Day 0 is 1 January 1970, the day after a day is the next date by the leap-year rule and the
  lengths of the months, \<open>days\<close> inverts \<open>civil\<close>, and \<open>civil\<close> inverts \<open>days\<close> on every existing
  date.\<close>

theorem civil_gregorian:
  "civil 0 = (1970, 1, 1) \<and> civil (z + 1) = next_day (civil z)
   \<and> (case civil z of (y, m, d) \<Rightarrow> days y m d) = z
   \<and> (civil (days y m d) = (y, m, d)) = valid_date (y, m, d)"
proof -
  have "civil 0 = (1970, 1, 1)" by code_simp
  moreover have "(case civil z of (y, m, d) \<Rightarrow> days y m d) = z"
    using days_civil [of z] by (simp add: split_beta)
  moreover have "(civil (days y m d) = (y, m, d)) = valid_date (y, m, d)"
    using civil_days [of y m d] civil_valid [of "days y m d"] by metis
  ultimately show ?thesis using civil_next [of z] by blast
qed

section \<open>The month grid\<close>

lemma days_month:
  assumes "1 \<le> m" "m \<le> 12"
  shows "days y m 1 = days y 1 1
    + (if m = 1 then 0 else if m = 2 then 31 else 31 + month_length y 2 + month_start (m - 3))"
proof -
  have two: "days y 2 1 = days y 1 1 + 31"
    using days_next_month [of 1 y] days_shift [of y 1 31] by (simp add: month_length_def)
  have three: "days y 3 1 = days y 2 1 + month_length y 2"
    using days_next_month [of 2 y] days_shift [of y 2 "month_length y 2"] by simp
  show ?thesis
  proof (cases "m \<le> 3")
    case True
    then have "m = 1 \<or> m = 2 \<or> m = 3" using assms by presburger
    then show ?thesis using two three by (auto simp: month_start_def)
  next
    case False
    then have "days y m 1 = days y 3 1 + month_start (m - 3)"
      by (simp add: days_march march_month_def month_start_def)
    then show ?thesis using two three False by simp
  qed
qed

lemma days_year: "days (y + 1) 1 1 = days y 1 1 + (if leap y then 366 else 365)"
  using days_next_year [of y] days_month [of 12 y] days_shift [of y 12 31]
  by (simp add: month_length_def month_start_def)

lemma month_length_bounds: "28 \<le> month_length y m" "month_length y m \<le> 31"
  by (auto simp: month_length_def)

lemma days_in_year:
  assumes "valid_date (y, m, d)"
  shows "days y 1 1 \<le> days y m d" "days y m d < days (y + 1) 1 1"
proof -
  have m: "1 \<le> m" "m \<le> 12" "1 \<le> d" "d \<le> month_length y m" using assms by (simp_all add: valid_date_def)
  then have "m = 1 \<or> m = 2 \<or> m = 3 \<or> m = 4 \<or> m = 5 \<or> m = 6 \<or> m = 7 \<or> m = 8 \<or> m = 9 \<or> m = 10
      \<or> m = 11 \<or> m = 12" by presburger
  then show "days y 1 1 \<le> days y m d" "days y m d < days (y + 1) 1 1"
    using m days_month [OF m(1,2), of y] days_shift [of y m d] days_year [of y]
    by (auto simp: month_length_def month_start_def split: if_splits)
qed

lemma days_years_mono: "a \<le> b \<Longrightarrow> days a 1 1 + 365 * (b - a) \<le> days b 1 1"
proof -
  have "days a 1 1 + 365 * int n \<le> days (a + int n) 1 1" for n
  proof (induction n)
    case (Suc n)
    then show ?case using days_year [of "a + int n"] by (simp add: algebra_simps split: if_splits)
  qed simp
  from this [of "nat (b - a)"] show "a \<le> b \<Longrightarrow> ?thesis" by simp
qed

text \<open>Within six days of a month outside the years 0 to 100 no remapped year occurs.\<close>

lemma legacy_near:
  assumes "valid_date (y, m, 1)" "y < 0 \<or> 100 < y" "days y m 1 - 6 \<le> z" "z < days y m 1 + month_length y m"
  shows "legacy_year (fst (civil z)) = fst (civil z)"
proof (rule ccontr)
  assume "legacy_year (fst (civil z)) \<noteq> fst (civil z)"
  then have c: "0 \<le> fst (civil z)" "fst (civil z) \<le> 99" by (simp_all add: legacy_year_def split: if_splits)
  obtain cy cm cd where civ: "civil z = (cy, cm, cd)" by (cases "civil z")
  have v: "valid_date (cy, cm, cd)" "days cy cm cd = z" using civil_valid [of z] days_civil [of z] civ by simp_all
  have z: "days cy 1 1 \<le> z" "z < days (cy + 1) 1 1" using days_in_year [OF v(1)] v(2) by simp_all
  have last: "valid_date (y, m, month_length y m)"
    using assms(1) month_length_bounds [of y m] by (simp add: valid_date_def)
  from assms(2) show False
  proof
    assume "y < 0"
    then have "days (y + 1) 1 1 \<le> days cy 1 1" using days_years_mono [of "y + 1" cy] c civ by simp
    then show False
      using z(1) assms(4) days_in_year(2) [OF last] days_shift [of y m "month_length y m"] by simp
  next
    assume "100 < y"
    then have "days (cy + 1) 1 1 + 365 \<le> days y 1 1" using days_years_mono [of "cy + 1" y] c civ by simp
    then show False using z(2) assms(3) days_in_year(1) [OF assms(1)] by simp
  qed
qed

lemma in_month:
  assumes "1 \<le> m" "m \<le> 12"
  shows "fst (civil z) = y \<and> fst (snd (civil z)) = m \<longleftrightarrow> days y m 1 \<le> z \<and> z < days y m 1 + month_length y m"
    (is "?in \<longleftrightarrow> ?range")
proof
  assume ?in
  then obtain d where "civil z = (y, m, d)" by (cases "civil z") simp
  then show ?range
    using civil_valid [of z] days_civil [of z] days_shift [of y m d] by (simp add: valid_date_def)
next
  assume r: ?range
  then have "valid_date (y, m, z - days y m 1 + 1)" using assms by (simp add: valid_date_def)
  from civil_days [OF this] show ?in using days_shift [of y m "z - days y m 1 + 1"] by simp
qed

lemma upto_join: "a \<le> b \<Longrightarrow> b \<le> e \<Longrightarrow> [a..e - 1] = [a..b - 1] @ [b..e - 1]"
  using upto_split1 [of a b "e - 1"] by (cases "b = e") auto

lemma concat_map_concat: "concat (map concat xsss) = concat (concat xsss)"
  by (induction xsss) simp_all

lemma concat_rows: "concat (map (\<lambda>row. map (\<lambda>c. g (7 * row + c)) [0..6]) [0..int n - 1]) = map g [0..7 * int n - 1]"
proof (induction n)
  case (Suc n)
  have "[0..int (Suc n) - 1] = [0..int n - 1] @ [int n]" by (simp add: upto_rec2)
  moreover have "[0..7 * int (Suc n) - 1] = [0..7 * int n - 1] @ map (\<lambda>c. 7 * int n + c) [0..6]"
  proof -
    have "[0..7 * int (Suc n) - 1] = [0..7 * int n - 1] @ [7 * int n..7 * int n + 6]"
      using upto_join [of 0 "7 * int n" "7 * int n + 7"] by (simp add: algebra_simps)
    moreover have "[7 * int n..7 * int n + 6] = map (\<lambda>c. 7 * int n + c) [0..6]"
      by (rule nth_equalityI) simp_all
    ultimately show ?thesis by simp
  qed
  ultimately show ?case using Suc by (simp add: o_def)
qed simp

lemma filter_upto:
  assumes "a \<le> b" "b \<le> c" "c \<le> e"
  shows "filter (\<lambda>z. b \<le> z \<and> z < c) [a..e - 1] = [b..c - 1]"
proof -
  have "[a..e - 1] = [a..b - 1] @ [b..c - 1] @ [c..e - 1]"
    using upto_join [of a b e] upto_join [of b c e] assms by simp
  moreover have "filter (\<lambda>z. b \<le> z \<and> z < c) [a..b - 1] = []" "filter (\<lambda>z. b \<le> z \<and> z < c) [c..e - 1] = []"
    "filter (\<lambda>z. b \<le> z \<and> z < c) [b..c - 1] = [b..c - 1]"
    by (auto simp: filter_empty_conv filter_id_conv)
  ultimately show ?thesis by simp
qed

definition inside_date :: "cell \<Rightarrow> (int \<times> int \<times> int) option" where
  "inside_date c = (case c of Day_cell True v \<Rightarrow> Some v | _ \<Rightarrow> None)"

lemma map_filter_concat: "List.map_filter f (concat xss) = concat (map (List.map_filter f) xss)"
  by (induction xss) (simp_all add: List.map_filter_def)

text \<open>The month grid. For every month outside the years 0 to 100, where the date constructor
  remaps, the panel's grid has whole weeks, and its cells inside the month are exactly the days of
  that month, in order, each once.\<close>

theorem month_cells_exact:
  assumes "1 \<le> m" "m \<le> 12" "y < 0 \<or> 100 < y"
  shows "List.map_filter inside_date (month_cells y m) = map (\<lambda>d. (y, m, d)) [1..month_length y m]"
proof -
  define F where "F = days y m 1"
  define M where "M = (F + 3) mod 7"
  define L where "L = month_length y m"
  have valid: "valid_date (y, m, 1)"
    using assms month_length_bounds [of y m] by (simp add: valid_date_def)
  have keep: "legacy_year y = y" using assms(3) by (auto simp: legacy_year_def)
  have nxt: "month_next y m = F + L"
  proof (cases "m = 12")
    case True
    then show ?thesis
      using days_next_year [of y] days_shift [of y 12 31]
      by (simp add: month_next_def keep F_def L_def month_length_def)
  next
    case False
    then show ?thesis
      using days_next_month [of m y] assms(1,2) days_shift [of y m L]
      by (simp add: month_next_def keep F_def L_def)
  qed
  have M: "0 \<le> M" "M \<le> 6" by (auto simp: M_def)
  have L: "28 \<le> L" "L \<le> 31" using month_length_bounds by (auto simp: L_def)
  define W where "W = (M + L + 6) div 7"
  have W: "month_weeks y m = W"
    by (simp add: month_weeks_def month_monday_def nxt month_first_def keep W_def F_def [symmetric] M_def [symmetric])
  have W_bounds: "M + L \<le> 7 * W" "7 * W \<le> M + L + 6" "0 \<le> W"
    using M L unfolding W_def by linarith+
  have cursor: "row_cursor y m row = F - M + row * 7" if "0 \<le> row" "row \<le> W - 1" for row
  proof -
    have "7 * row \<le> 7 * W - 7" using that by simp
    then have "legacy_year (fst (civil (F - M + row * 7))) = fst (civil (F - M + row * 7))"
      using M L that W_bounds by (intro legacy_near [OF valid assms(3)]) (simp_all add: F_def L_def)
    then show ?thesis
      using days_civil [of "F - M + row * 7"]
        days_shift [of "fst (civil (F - M + row * 7))" "fst (snd (civil (F - M + row * 7)))"
          "snd (snd (civil (F - M + row * 7)))"]
      by (simp add: row_cursor_def month_first_def month_monday_def keep F_def [symmetric] M_def [symmetric]
          split_beta)
  qed
  define here where "here z = (if F \<le> z \<and> z < F + L then [civil z] else [])" for z
  have row: "List.map_filter inside_date (row_cells y m row) = concat (map (\<lambda>c. here (F - M + (7 * row + c))) [0..6])"
    if "0 \<le> row" "row \<le> W - 1" for row
  proof -
    have cell: "(case inside_date (let v = civil (row_cursor y m row + c)
          in Day_cell (fst v = y \<and> fst (snd v) = m) v) of None \<Rightarrow> [] | Some v \<Rightarrow> [v])
        = here (F - M + (7 * row + c))" for c
      using in_month [OF assms(1,2), of "row_cursor y m row + c" y]
      by (simp add: inside_date_def here_def cursor [OF that] F_def [symmetric] L_def [symmetric]
          mult.commute add.assoc split: bool.split)
    have "List.map_filter f (map g xs) = concat (map (\<lambda>x. case f (g x) of None \<Rightarrow> [] | Some v \<Rightarrow> [v]) xs)"
      for f :: "cell \<Rightarrow> (int \<times> int \<times> int) option" and g and xs :: "int list"
      by (induction xs) (auto simp: List.map_filter_def split: option.split)
    moreover have "List.map_filter inside_date (Week_cell w # cs) = List.map_filter inside_date cs" for w cs
      by (simp add: List.map_filter_def inside_date_def)
    ultimately show ?thesis by (simp add: row_cells_def cell)
  qed
  have "List.map_filter inside_date (month_cells y m)
      = concat (map (\<lambda>row. List.map_filter inside_date (row_cells y m row)) [0..W - 1])"
    by (simp add: month_cells_def W map_filter_concat o_def)
  also have "\<dots> = concat (map (\<lambda>row. concat (map (\<lambda>c. here (F - M + (7 * row + c))) [0..6])) [0..W - 1])"
    using row by (intro arg_cong [of _ _ concat] map_cong) auto
  also have "\<dots> = concat (concat (map (\<lambda>row. map (\<lambda>c. here (F - M + (7 * row + c))) [0..6]) [0..W - 1]))"
    by (simp add: concat_map_concat [symmetric] o_def)
  also have "\<dots> = concat (map (\<lambda>k. here (F - M + k)) [0..7 * W - 1])"
    using concat_rows [of "\<lambda>k. here (F - M + k)" "nat W"] W_bounds(3) by simp
  also have "\<dots> = concat (map here [F - M..F - M + 7 * W - 1])"
  proof -
    have "[F - M..F - M + 7 * W - 1] = map (\<lambda>k. F - M + k) [0..7 * W - 1]"
      by (rule nth_equalityI) simp_all
    then show ?thesis by (simp add: o_def)
  qed
  also have "\<dots> = map civil (filter (\<lambda>z. F \<le> z \<and> z < F + L) [F - M..F - M + 7 * W - 1])"
  proof -
    have "concat (map here zs) = map civil (filter (\<lambda>z. F \<le> z \<and> z < F + L) zs)" for zs
      by (induction zs) (simp_all add: here_def)
    then show ?thesis .
  qed
  also have "filter (\<lambda>z. F \<le> z \<and> z < F + L) [F - M..F - M + 7 * W - 1] = [F..F + L - 1]"
    using filter_upto [of "F - M" F "F + L" "F - M + 7 * W"] M L W_bounds by simp
  also have "map civil [F..F + L - 1] = map (\<lambda>d. (y, m, d)) [1..L]"
  proof (rule nth_equalityI)
    fix i
    assume i: "i < length (map civil [F..F + L - 1])"
    then have "valid_date (y, m, 1 + int i)" using assms(1,2) by (simp add: valid_date_def L_def)
    from civil_days [OF this] i show "map civil [F..F + L - 1] ! i = map (\<lambda>d. (y, m, d)) [1..L] ! i"
      using days_shift [of y m "1 + int i"] by (simp add: F_def)
  qed simp
  finally show ?thesis by (simp add: L_def)
qed

theorem month_cells_exact_witness:
  "List.map_filter inside_date (month_cells 2024 2) = map (\<lambda>d. (2024, 2, d)) [1..29]"
  using month_cells_exact [of 2 2024] by (simp add: month_length_def leap_def)

end
