(* ===== verification/Durations.thy ===== *)
theory Durations
  imports Qml_Value_Theorems
begin

text \<open>
  \<open>qml-core/src/caffeinate.rs\<close>: the duration policy of Caffeinate and the one projection of a
  session that the bar, the panel and the launcher draw. Lengths are seconds.
\<close>

section \<open>Typed durations\<close>

definition min_seconds :: nat where "min_seconds = 60"
definition max_seconds :: nat where "max_seconds = 86400"

definition failure_text :: "string \<Rightarrow> string" where
  "failure_text code =
     (if code = ''service-unavailable'' then ''Caffeinate is unavailable. Check its user service.''
      else if code = ''inhibit-unavailable'' then ''The session manager refused the idle inhibitor.''
      else if code = ''task-unavailable'' then ''That task has already ended. Refresh and choose another.''
      else if code = ''task-unknown'' then ''That task is no longer listed. Refresh and choose another.''
      else if code = ''invalid-duration'' then ''Enter a duration such as 45m, 2h or 1h30.''
      else if code = ''duration-out-of-range'' then ''Choose between 1 minute and 24 hours.''
      else if code = ''no-session'' then ''No Caffeinate session is active.''
      else if code = ''invalid-request'' then ''That request is not valid.''
      else if code = [] then [] else ''The action failed. Try again.'')"

definition seconds_of :: "host \<Rightarrow> json option \<Rightarrow> nat" where
  "seconds_of h v =
     (let x = number h v
      in if f_finite x \<and> f_less (Fin 0) x then min (f_to_u64 x) (max_seconds * 2) else 0)"

definition long_label :: "nat \<Rightarrow> string" where
  "long_label amt =
     (let hours = amt div 3600; minutes = amt mod 3600 div 60
      in if 0 < hours \<and> 0 < minutes then nat_digits hours @ '' h '' @ nat_digits minutes @ '' min''
         else if 0 < hours then nat_digits hours @ '' h''
         else if 0 < minutes then nat_digits minutes @ '' min''
         else nat_digits amt @ '' s'')"

definition short_label :: "nat \<Rightarrow> string" where
  "short_label amt =
     (let hours = amt div 3600; minutes = amt mod 3600 div 60
      in if 0 < hours then nat_digits hours @ ''h'' @ pad_zeros 2 (nat_digits minutes)
         else if 0 < minutes then nat_digits minutes @ ''m''
         else nat_digits amt @ ''s'')"

definition bounded :: "nat option \<Rightarrow> string + nat" where
  "bounded amt = (case amt of
       Some n \<Rightarrow> if min_seconds \<le> n \<and> n \<le> max_seconds then Inr n else Inl ''duration-out-of-range''
     | None \<Rightarrow> Inl ''duration-out-of-range'')"

definition checked_mul64 :: "nat \<Rightarrow> nat \<Rightarrow> nat option" where
  "checked_mul64 a b = (if a * b \<le> u64_max then Some (a * b) else None)"

definition clock_duration :: "string \<Rightarrow> string \<Rightarrow> string + nat" where
  "clock_duration hours minutes =
     (let minutes = trim minutes
      in if length minutes \<noteq> 2 \<or> \<not> list_all is_ascii_digit minutes then Inl ''invalid-duration''
         else
           (case (parse_uint u64_max (trim hours), parse_uint u64_max minutes) of
              (Some hrs, Some mins) \<Rightarrow>
                if 59 < mins then Inl ''invalid-duration''
                else bounded (Option.bind (checked_mul64 hrs 3600) (\<lambda>t. checked_add64 t (mins * 60)))
            | _ \<Rightarrow> Inl ''invalid-duration''))"

text \<open>\<open>None\<close> is a unit that is not known; \<open>Some None\<close> an overflow.\<close>

definition unit_step :: "string \<Rightarrow> nat \<Rightarrow> nat option option" where
  "unit_step unit n =
     (if unit \<in> set [''h'', ''hr'', ''hrs'', ''hour'', ''hours''] then Some (checked_mul64 n 3600)
      else if unit \<in> set ['''', ''m'', ''min'', ''mins'', ''minute'', ''minutes'']
      then Some (checked_mul64 n 60)
      else if unit \<in> set [''s'', ''sec'', ''secs'', ''second'', ''seconds''] then Some (Some n)
      else None)"

definition skip_blanks :: "string \<Rightarrow> string" where
  "skip_blanks = dropWhile (\<lambda>c. c = CHR '' '')"

lemma skip_blanks_length: "length (skip_blanks s) \<le> length s"
  by (simp add: skip_blanks_def length_dropWhile_le)

function duration_parts :: "string \<Rightarrow> nat \<Rightarrow> nat \<Rightarrow> string + (nat \<times> nat)" where
  "duration_parts s amt parts =
     (let s = skip_blanks s; digits = takeWhile is_ascii_digit s
      in if s = [] then Inr (amt, parts)
         else if digits = [] \<or> 6 < length digits then Inl ''invalid-duration''
         else
           (let rest = skip_blanks (dropWhile is_ascii_digit s);
                unit = takeWhile is_ascii_alphabetic rest
            in case parse_uint u64_max digits of
                 None \<Rightarrow> Inl ''invalid-duration''
               | Some n \<Rightarrow>
                   (case unit_step unit n of
                      None \<Rightarrow> Inl ''invalid-duration''
                    | Some step \<Rightarrow>
                        (case Option.bind step (checked_add64 amt) of
                           None \<Rightarrow> Inl ''duration-out-of-range''
                         | Some amt \<Rightarrow>
                             if 3 < parts + 1 then Inl ''invalid-duration''
                             else duration_parts (dropWhile is_ascii_alphabetic rest) amt (parts + 1)))))"
  by pat_completeness auto

termination
proof (relation "measure (\<lambda>(s, amt, parts). length s)")
  fix s :: string and s' digits rest :: string
  assume "s' = skip_blanks s" "digits = takeWhile is_ascii_digit s'" "\<not> (digits = [] \<or> 6 < length digits)"
    "rest = skip_blanks (dropWhile is_ascii_digit s')"
  moreover have "length (takeWhile is_ascii_digit s') + length (dropWhile is_ascii_digit s') = length s'"
    by (metis length_append takeWhile_dropWhile_id)
  moreover have "length (dropWhile is_ascii_alphabetic rest) \<le> length rest"
    by (rule length_dropWhile_le)
  moreover have "length s' \<le> length s" "length rest \<le> length (dropWhile is_ascii_digit s')"
    using skip_blanks_length calculation by auto
  moreover have "0 < length (takeWhile is_ascii_digit s')" using calculation(2,3) by simp
  ultimately have "length (dropWhile is_ascii_alphabetic rest) < length s" by linarith
  then show "((dropWhile is_ascii_alphabetic rest, amt, parts'), (s, amt', parts)) \<in>
      measure (\<lambda>(s, amt, parts). length s)" for amt parts' amt' parts
    by simp
qed simp

declare duration_parts.simps [simp del]

definition parse_duration :: "string \<Rightarrow> string + nat" where
  "parse_duration value =
     (let value = to_ascii_lowercase (js_trim value)
      in if value = [] \<or> 32 < length value then Inl ''invalid-duration''
         else
           (case split_once (CHR '':'') value of
              Some (hours, minutes) \<Rightarrow> clock_duration hours minutes
            | None \<Rightarrow>
                (case duration_parts value 0 0 of
                   Inl e \<Rightarrow> Inl e
                 | Inr (amt, parts) \<Rightarrow>
                     if parts = 0 then Inl ''invalid-duration'' else bounded (Some amt))))"

section \<open>The projection\<close>

definition mode_label :: "string \<Rightarrow> string" where
  "mode_label mode =
     (if mode = ''duration'' then ''For a set time''
      else if mode = ''task'' then ''Until a task ends''
      else if mode = ''manual'' then ''Until stopped'' else ''Caffeinate'')"

definition coffee :: string where "coffee = of_chars [0xF0176]"
definition middle_dot :: string where "middle_dot = '' '' @ of_chars [0xB7] @ '' ''"

definition session_detail :: "host \<Rightarrow> json \<Rightarrow> string" where
  "session_detail h snapshot =
     (let mode = js_string h (json_get snapshot ''mode'');
          task = (case json_get snapshot ''task'' of Some v \<Rightarrow> v | None \<Rightarrow> JNull);
          label = js_string h (json_get task ''label'')
      in if \<not> truthy (json_get snapshot ''active'') then []
         else if mode = ''duration''
         then long_label (seconds_of h (json_get snapshot ''remaining'')) @ '' remaining''
         else if mode = ''task'' \<and> label \<noteq> [] then label
         else ''Active for '' @ long_label (seconds_of h (json_get snapshot ''elapsed'')))"

definition bar_text :: "host \<Rightarrow> json \<Rightarrow> string" where
  "bar_text h snapshot =
     (if \<not> truthy (json_get snapshot ''active'') then []
      else if js_string h (json_get snapshot ''mode'') = ''duration''
      then coffee @ '' '' @ short_label (seconds_of h (json_get snapshot ''remaining''))
      else coffee)"

definition project_session :: "host \<Rightarrow> json \<Rightarrow> json" where
  "project_session h snapshot =
     (let active = truthy (json_get snapshot ''active'');
          detail = session_detail h snapshot;
          headline = (if active then mode_label (js_string h (json_get snapshot ''mode'')) else ''Caffeinate'')
      in json_obj
        [(''active'', JBool active), (''barText'', JStr (bar_text h snapshot)),
         (''headline'', JStr headline), (''detail'', JStr detail),
         (''task'', case json_get snapshot ''task'' of Some v \<Rightarrow> v | None \<Rightarrow> JNull),
         (''hoverText'', JStr
            (if \<not> active then ''Caffeinate''
             else if detail = [] then ''Caffeinate'' @ middle_dot @ headline
             else ''Caffeinate'' @ middle_dot @ headline @ middle_dot @ detail))])"

definition caffeinate_call :: "host \<Rightarrow> string \<Rightarrow> json list \<Rightarrow> string + json" where
  "caffeinate_call h function args =
     (let first = (case args of v # _ \<Rightarrow> v | [] \<Rightarrow> JNull)
      in if function = ''project'' then Inr (project_session h first)
         else if function = ''parseDuration'' then
           Inr (case parse_duration (js_string h (Some first)) of
                  Inr n \<Rightarrow> json_obj [(''seconds'', JNum (nat_digits n))]
                | Inl e \<Rightarrow> json_obj [(''error'', JStr e)])
         else if function = ''duration'' then Inr (JStr (long_label (seconds_of h (Some first))))
         else if function = ''failure'' then Inr (JStr (failure_text (js_string h (Some first))))
         else Inl ''unknown Caffeinate UI function'')"

section \<open>What is printed can be typed\<close>

lemma js_trim_ends:
  assumes "ascii s" "s \<noteq> []" "\<not> is_space (of_char (hd s))" "\<not> is_space (of_char (last s))"
  shows "js_trim s = s"
proof -
  have keep: "dropWhile P cs = cs" if "cs \<noteq> []" "\<not> P (hd cs)" for P and cs :: "nat list"
    using that by (cases cs) auto
  have "trim_chars is_space (map of_char s) = map of_char s"
    using assms(2-4) by (simp add: trim_chars_def keep hd_map hd_rev last_map)
  then show ?thesis by (simp add: js_trim_def chars_ascii [OF assms(1)] of_chars_ascii [OF assms(1)])
qed

lemma skip_blanks_simps [simp]:
  "skip_blanks [] = []" "skip_blanks (replicate i (CHR '' '') @ s) = skip_blanks s"
  "c \<noteq> CHR '' '' \<Longrightarrow> skip_blanks (c # s) = c # s" "skip_blanks (CHR '' '' # s) = skip_blanks s"
  by (induction i) (auto simp: skip_blanks_def)

lemma takeWhile_run:
  "list_all P d \<Longrightarrow> rest = [] \<or> \<not> P (hd rest) \<Longrightarrow> takeWhile P (d @ rest) = d \<and> dropWhile P (d @ rest) = rest"
  by (induction d) (cases rest; auto)+

lemma duration_step:
  assumes d: "list_all is_ascii_digit d" "d \<noteq> []" "length d \<le> 6"
    and u: "list_all is_ascii_alphabetic u" "t = [] \<or> \<not> is_ascii_alphabetic (hd t)" "u = [] \<longrightarrow> t = []"
    and step: "unit_step u (digits_value d) = Some (Some k)" "acc + k \<le> u64_max" "parts < 3"
  shows "duration_parts (replicate i (CHR '' '') @ d @ replicate j (CHR '' '') @ u @ t) acc parts
    = duration_parts t (acc + k) (parts + 1)"
proof -
  obtain c r where c: "d = c # r" "is_ascii_digit c" using d(1,2) by (cases d) auto
  have blank: "c \<noteq> CHR '' ''" using c(2) by (auto simp: is_ascii_digit_def)
  have next_part: "replicate j (CHR '' '') @ u @ t = [] \<or> \<not> is_ascii_digit (hd (replicate j (CHR '' '') @ u @ t))"
    using u(1,3) by (cases j; cases u) (auto simp: ascii_defs)
  have runs: "takeWhile is_ascii_digit (d @ replicate j (CHR '' '') @ u @ t) = d"
    "dropWhile is_ascii_digit (d @ replicate j (CHR '' '') @ u @ t) = replicate j (CHR '' '') @ u @ t"
    using takeWhile_run [OF d(1) next_part] by simp_all
  have rest: "skip_blanks (replicate j (CHR '' '') @ u @ t) = u @ t"
  proof (cases u)
    case Nil
    then show ?thesis using u(3) skip_blanks_simps(2) [of j "[]"] by simp
  next
    case (Cons a u')
    then have "a \<noteq> CHR '' ''" using u(1) by (auto simp: ascii_defs)
    with Cons show ?thesis by simp
  qed
  have start: "skip_blanks (replicate i (CHR '' '') @ d @ replicate j (CHR '' '') @ u @ t)
      = d @ replicate j (CHR '' '') @ u @ t"
    using blank by (simp add: c(1))
  have val: "parse_uint u64_max d = Some (digits_value d)"
  proof -
    have "digits_value d < 10 ^ length d"
      using d(1)
    proof (induction d rule: rev_induct)
      case (snoc x xs)
      then have "digit_value x < 10" by (auto simp: is_ascii_digit_def digit_value_def)
      with snoc show ?case by (simp add: digits_value_snoc)
    qed (simp add: digits_value_def)
    also have "(10 :: nat) ^ length d \<le> 10 ^ 6" using d(3) by (intro power_increasing) auto
    finally show ?thesis using d(1,2) by (simp add: parse_uint_digits)
  qed
  have unit_runs: "takeWhile is_ascii_alphabetic (u @ t) = u" "dropWhile is_ascii_alphabetic (u @ t) = t"
    using takeWhile_run [OF u(1,2)] by simp_all
  show ?thesis
    using d(2,3) step
    by (subst duration_parts.simps)
      (simp only: Let_def start runs rest unit_runs val, simp add: checked_add64_def)
qed

lemma duration_end: "duration_parts [] acc parts = Inr (acc, parts)"
  by (subst duration_parts.simps) simp

lemma nat_digits_length: "n < 100 \<Longrightarrow> length (nat_digits n) \<le> 2"
  by (subst nat_digits.simps, subst nat_digits.simps) auto

lemma digits_value_zero: "digits_value (CHR ''0'' # s) = digits_value s"
  by (simp add: digits_value_def digit_value_def)

lemma pad_two:
  "n < 100 \<Longrightarrow> list_all is_ascii_digit (pad_zeros 2 (nat_digits n)) \<and> pad_zeros 2 (nat_digits n) \<noteq> []
     \<and> length (pad_zeros 2 (nat_digits n)) = 2 \<and> digits_value (pad_zeros 2 (nat_digits n)) = n"
proof -
  assume n: "n < 100"
  have "length (nat_digits n) = 1 \<or> length (nat_digits n) = 2"
    using nat_digits_length [OF n] nat_digits_nonempty [of n]
    by (cases "nat_digits n"; cases "tl (nat_digits n)") auto
  then show ?thesis
    using nat_digits_digit [of n]
    by (auto simp: pad_zeros_def numeral_2_eq_2 digits_value_zero is_ascii_digit_def)
qed

text \<open>A text of lower-case words, numbers and blanks reaches the loop unchanged.\<close>

definition label_char :: "char \<Rightarrow> bool" where
  "label_char c \<longleftrightarrow> is_ascii_digit c \<or> c \<in> set '' hmins''"

lemma parse_label:
  assumes "list_all label_char s" "s \<noteq> []" "hd s \<noteq> CHR '' ''" "last s \<noteq> CHR '' ''" "length s \<le> 32"
    and "duration_parts s 0 0 = Inr (n, Suc p)" "min_seconds \<le> n" "n \<le> max_seconds"
  shows "parse_duration s = Inr n"
proof -
  have chr: "of_char c < (128 :: nat)" "to_ascii_lower c = c" "c \<noteq> CHR '':''"
    "c \<noteq> CHR '' '' \<Longrightarrow> \<not> is_space (of_char c)" if "label_char c" for c
    using that by (auto simp: label_char_def is_ascii_digit_def to_ascii_lower_def is_ascii_upper_def is_space_def)
  have all: "label_char c" if "c \<in> set s" for c using assms(1) that by (simp add: list_all_iff)
  have "js_trim s = s"
    using assms(2-4) chr all by (intro js_trim_ends) (auto simp: list_all_iff)
  moreover have "map to_ascii_lower s = s" using chr(2) all by (intro map_idI) auto
  moreover have "split_once (CHR '':'') s = None" using chr(3) all by (auto simp: split_once_None)
  ultimately show ?thesis
    using assms(2,5-8) by (simp add: parse_duration_def bounded_def)
qed

lemma digit_label: "list_all is_ascii_digit s \<Longrightarrow> list_all label_char s"
  by (simp add: list_all_iff label_char_def)

lemma digit_ends: "list_all is_ascii_digit s \<Longrightarrow> s \<noteq> [] \<Longrightarrow> hd s \<noteq> CHR '' '' \<and> last s \<noteq> CHR '' ''"
proof -
  assume d: "list_all is_ascii_digit s" "s \<noteq> []"
  then have "is_ascii_digit (hd s)" "is_ascii_digit (last s)" by (simp_all add: list_all_iff)
  then show ?thesis by (auto simp: is_ascii_digit_def)
qed

lemma duration_step_one:
  assumes "list_all is_ascii_digit d" "d \<noteq> []" "length d \<le> 6"
    and "list_all is_ascii_alphabetic u" "t = [] \<or> \<not> is_ascii_alphabetic (hd t)" "u = [] \<longrightarrow> t = []"
    and "unit_step u (digits_value d) = Some (Some k)" "acc + k \<le> u64_max" "parts < 3"
  shows "duration_parts (d @ u @ t) acc parts = duration_parts t (acc + k) (parts + 1)"
    "duration_parts (d @ CHR '' '' # u @ t) acc parts = duration_parts t (acc + k) (parts + 1)"
    "duration_parts (CHR '' '' # d @ CHR '' '' # u @ t) acc parts = duration_parts t (acc + k) (parts + 1)"
  using duration_step [OF assms, of 0 0] duration_step [OF assms, of 0 1] duration_step [OF assms, of 1 1]
  by simp_all

lemma unit_steps:
  "n < 10 ^ 6 \<Longrightarrow> unit_step ''h'' n = Some (Some (n * 3600))"
  "n < 10 ^ 6 \<Longrightarrow> unit_step ''min'' n = Some (Some (n * 60))"
  "n < 10 ^ 6 \<Longrightarrow> unit_step ''m'' n = Some (Some (n * 60))"
  "n < 10 ^ 6 \<Longrightarrow> unit_step [] n = Some (Some (n * 60))"
  by (simp_all add: unit_step_def checked_mul64_def)

text \<open>What Caffeinate prints can be typed back. For every whole number of minutes between one
  minute and a day, both the panel's spelling and the bar's are accepted as a duration and mean
  that many seconds.\<close>

theorem duration_labels_parse:
  assumes "min_seconds \<le> n" "n \<le> max_seconds" "n mod 60 = 0"
  shows "parse_duration (long_label n) = Inr n \<and> parse_duration (short_label n) = Inr n"
proof -
  define hrs where "hrs = n div 3600"
  define mins where "mins = n mod 3600 div 60"
  have n: "n = hrs * 3600 + mins * 60"
  proof -
    have "n mod 3600 mod 60 = 0" using assms(3) by (simp add: mod_mod_cancel)
    then show ?thesis
      using div_mult_mod_eq [of n 3600] div_mult_mod_eq [of "n mod 3600" 60] by (simp add: hrs_def mins_def)
  qed
  have b: "hrs < 100" "mins < 100" "hrs \<le> 24" "mins < 60"
    using assms(2) by (auto simp: hrs_def mins_def max_seconds_def)
  have dig: "list_all is_ascii_digit (nat_digits k)" "nat_digits k \<noteq> []" "k < 100 \<Longrightarrow> length (nat_digits k) \<le> 6"
    "k < 100 \<Longrightarrow> length (nat_digits k) \<le> 2" for k
    using nat_digits_digit nat_digits_length [of k] by auto
  have lens: "length (nat_digits hrs) + length (nat_digits mins) \<le> 25" "length (nat_digits hrs) \<le> 30"
    "length (nat_digits mins) \<le> 28" "length (nat_digits mins) \<le> 31" "length (nat_digits hrs) \<le> 29"
    using dig(4) [OF b(1)] dig(4) [OF b(2)] by linarith+
  note two = pad_two [OF b(2)]
  note ends = digit_ends [OF dig(1,2)]
  have alpha: "list_all is_ascii_alphabetic ''h''" "list_all is_ascii_alphabetic ''min''"
    "list_all is_ascii_alphabetic ''m''" "\<not> is_ascii_alphabetic (CHR '' '')"
    by (simp_all add: ascii_defs)
  have hours: "duration_parts (nat_digits hrs @ ''h'' @ t) 0 0 = duration_parts t (0 + hrs * 3600) (0 + 1)"
    "duration_parts (nat_digits hrs @ CHR '' '' # ''h'' @ t) 0 0 = duration_parts t (0 + hrs * 3600) (0 + 1)"
    if "t = [] \<or> \<not> is_ascii_alphabetic (hd t)" for t
    by (rule duration_step_one(1,2); use dig b alpha unit_steps that in simp)+
  have minutes: "duration_parts (nat_digits mins @ ''m'' @ []) 0 0 = duration_parts [] (0 + mins * 60) (0 + 1)"
    "duration_parts (nat_digits mins @ CHR '' '' # ''min'' @ []) 0 0 = duration_parts [] (0 + mins * 60) (0 + 1)"
    "duration_parts (CHR '' '' # nat_digits mins @ CHR '' '' # ''min'' @ []) (hrs * 3600) 1
      = duration_parts [] (hrs * 3600 + mins * 60) (1 + 1)"
    "duration_parts (pad_zeros 2 (nat_digits mins) @ [] @ []) (hrs * 3600) 1
      = duration_parts [] (hrs * 3600 + mins * 60) (1 + 1)"
    by (rule duration_step_one; use dig b alpha unit_steps two in simp)+
  have two_head: "\<not> is_ascii_alphabetic (hd (pad_zeros 2 (nat_digits mins)))"
    using two by (cases "pad_zeros 2 (nat_digits mins)") (auto simp: ascii_defs)
  have long_both: "duration_parts (nat_digits hrs @ '' h '' @ nat_digits mins @ '' min'') 0 0 = Inr (n, Suc 1)"
    using hours(2) [of "CHR '' '' # nat_digits mins @ '' min''"] minutes(3) alpha(4) by (simp add: duration_end n)
  have long_h: "duration_parts (nat_digits hrs @ '' h'') 0 0 = Inr (hrs * 3600, Suc 0)"
    using hours(2) [of "[]"] by (simp add: duration_end)
  have long_m: "duration_parts (nat_digits mins @ '' min'') 0 0 = Inr (mins * 60, Suc 0)"
    using minutes(2) by (simp add: duration_end)
  have short_h: "duration_parts (nat_digits hrs @ ''h'' @ pad_zeros 2 (nat_digits mins)) 0 0 = Inr (n, Suc 1)"
    using hours(1) [of "pad_zeros 2 (nat_digits mins)"] minutes(4) two_head by (simp add: duration_end n)
  have short_m: "duration_parts (nat_digits mins @ ''m'') 0 0 = Inr (mins * 60, Suc 0)"
    using minutes(1) by (simp add: duration_end)
  have label: "label_char (CHR '' '')" "label_char (CHR ''h'')" "label_char (CHR ''m'')" "label_char (CHR ''i'')"
    "label_char (CHR ''n'')" by (simp_all add: label_char_def)
  have pos: "0 < hrs \<or> 0 < mins" using n assms(1) by (auto simp: min_seconds_def)
  have "parse_duration (long_label n) = Inr n"
  proof -
    consider "0 < hrs" "0 < mins" | "0 < hrs" "mins = 0" | "hrs = 0" "0 < mins" using pos by auto
    then show ?thesis
    proof cases
      case 1
      then show ?thesis
        using assms(1,2) long_both dig b ends label digit_label
        by (simp add: long_label_def Let_def hrs_def [symmetric] mins_def [symmetric])
          (rule parse_label; simp add: dig hd_append lens)
    next
      case 2
      then show ?thesis
        using assms(1,2) long_h dig b ends label digit_label n
        by (simp add: long_label_def Let_def hrs_def [symmetric] mins_def [symmetric])
          (rule parse_label; simp add: dig hd_append lens)
    next
      case 3
      then show ?thesis
        using assms(1,2) long_m dig b ends label digit_label n
        by (simp add: long_label_def Let_def hrs_def [symmetric] mins_def [symmetric])
          (rule parse_label; simp add: dig hd_append lens)
    qed
  qed
  moreover have "parse_duration (short_label n) = Inr n"
  proof (cases "0 < hrs")
    case True
    have "pad_zeros 2 (nat_digits mins) \<noteq> []" "last (pad_zeros 2 (nat_digits mins)) \<noteq> CHR '' ''"
      using two digit_ends by auto
    with True show ?thesis
      using assms(1,2) short_h dig b ends label digit_label two
      by (simp add: short_label_def Let_def hrs_def [symmetric] mins_def [symmetric])
        (rule parse_label; simp add: dig hd_append lens)
  next
    case False
    then show ?thesis
      using assms(1,2) short_m dig b ends label digit_label n pos
      by (simp add: short_label_def Let_def hrs_def [symmetric] mins_def [symmetric])
        (rule parse_label; simp add: dig hd_append lens)
  qed
  ultimately show ?thesis ..
qed

theorem duration_labels_parse_witness:
  "parse_duration (long_label 5400) = Inr 5400 \<and> parse_duration (short_label 5400) = Inr 5400"
  using duration_labels_parse [of 5400] by (simp add: min_seconds_def max_seconds_def)

end
