(* ===== verification/Transfers.thy ===== *)
theory Transfers
  imports Qml_Value
begin

text \<open>
  \<open>integrations/src/transfers\<close>: the history of file transfers (\<open>model.rs\<close>), what the service
  reads from the provider (\<open>provider.rs\<close>) and the operations on the history (\<open>service.rs\<close>). The
  jobs that move the files are in \<open>Transfer_Jobs\<close>. A function here is one region under the state
  mutex; it reads the clock, the file system and the provider through a \<open>world\<close>, one for each
  region, so the clock has one value in a region. A path is its UTF-8 text.
\<close>

section \<open>Data\<close>

record file_id =
  fi_device :: nat
  fi_inode :: nat
  fi_size :: nat
  fi_modified :: int
  fi_modified_ns :: int
  fi_changed :: int
  fi_changed_ns :: int

record entry =
  en_identity :: "file_id option"
  en_name :: string
  en_path :: string
  en_remote :: "string option"
  en_pending :: bool
  en_size :: int
  en_bytes :: nat
  en_state :: string
  en_error :: string
  en_attempts :: nat

record tgroup =
  g_id :: string
  g_direction :: string
  g_device :: string
  g_files :: "entry list"
  g_state :: string
  g_created :: rat
  g_updated :: rat
  g_error :: string
  g_seen :: bool
  g_source :: string
  g_destination :: string
  g_target :: "string option"

text \<open>Where a job is; see \<open>Transfer_Jobs\<close>. A \<open>place\<close> is the file, the attempt and the copy of the
  group the loop took when it came to the file.\<close>

record place =
  pl_count :: nat
  pl_index :: nat
  pl_attempt :: nat
  pl_group :: tgroup

datatype stage =
    Acknowledging string
  | Attempting
  | Resolving
  | Sending
  | Receiving string
  | Forgetting string
  | Settling
  | Failing string
  | Sleeping

datatype job_pc =
    Begin
  | Next_file nat nat
  | At_stage stage place
  | Over "string + unit"

record transfer_job =
  tj_id :: string
  tj_cancelled :: bool
  tj_pc :: job_pc

text \<open>The state under the mutex, the tasks (each holds a permit and its cancellation token), the
  shutdown token, and the history file. \<open>ts_used\<close> is the set of identifiers ever issued; no
  operation reads it.\<close>

record transfer_state =
  ts_saved :: string
  ts_groups :: "tgroup list"
  ts_controls :: "(string \<times> nat) list"
  ts_selection :: "string list"
  ts_targets :: "json list"
  ts_focus :: string
  ts_focus_revision :: nat
  ts_error :: string
  ts_jobs :: "(nat \<times> transfer_job) list"
  ts_next :: nat
  ts_stopping :: bool
  ts_disk :: string
  ts_action :: "(string \<times> string \<times> nat) option"   \<comment> \<open>file action under the operations lock\<close>
  ts_used :: "string list"

text \<open>How an atomic write of the history ends: the new text is in place, the old one is, or the new
  one is but its directory could not be synchronised, which is an error as well.\<close>

datatype write_outcome = Written | Kept | Landed

record world =
  w_now :: rat
  w_write :: write_outcome
  w_uuid :: string
  w_regular :: "string \<Rightarrow> string + string"     \<comment> \<open>\<open>files::regular\<close>\<close>
  w_source :: "string \<Rightarrow> string + file_id"     \<comment> \<open>\<open>files::open_source\<close> and its metadata\<close>
  w_status :: "string + json"                   \<comment> \<open>replies of the provider\<close>
  w_file_targets :: "string + json"
  w_waiting :: "string + json"
  w_done :: "string + unit"                     \<comment> \<open>reply to a deletion or an upload\<close>
  w_received :: "string + (string \<times> nat)"
  w_moved :: "string + string"                  \<comment> \<open>\<open>files::move_file\<close>\<close>

datatype transfer_effect =
    Put string string "file_id option"          \<comment> \<open>upload to a device: path and expected identity\<close>
  | Get string
  | Forget string
  | Desktop string string                       \<comment> \<open>open, reveal or trash a path\<close>
  | Move string string
  | Notify tgroup

type_synonym 'a result = "string + 'a"

definition max_groups :: nat where "max_groups = 4096"
definition max_history :: nat where "max_history = 8388608"
definition job_permits :: nat where "job_permits = 8"
definition i64_max :: nat where "i64_max = 9223372036854775807"

section \<open>The history\<close>

definition transfer_active :: "string \<Rightarrow> bool" where
  "transfer_active st \<longleftrightarrow> st \<in> set [''sending'', ''receiving'', ''retrying'']"

text \<open>\<open>State::group\<close> finds the first group with an identifier; \<open>alter_group\<close> writes through it.\<close>

definition find_group :: "string \<Rightarrow> tgroup list \<Rightarrow> tgroup option" where
  "find_group i gs = find (\<lambda>g. g_id g = i) gs"

fun alter_group :: "string \<Rightarrow> (tgroup \<Rightarrow> tgroup) \<Rightarrow> tgroup list \<Rightarrow> tgroup list" where
  "alter_group i f [] = []"
| "alter_group i f (g # gs) = (if g_id g = i then f g # gs else g # alter_group i f gs)"

definition alter_file :: "nat \<Rightarrow> (entry \<Rightarrow> entry) \<Rightarrow> tgroup \<Rightarrow> tgroup" where
  "alter_file k f g =
     (if k < length (g_files g) then g\<lparr>g_files := (g_files g)[k := f (g_files g ! k)]\<rparr> else g)"

definition set_groups :: "tgroup list \<Rightarrow> transfer_state \<Rightarrow> transfer_state" where
  "set_groups gs s = s\<lparr>ts_groups := gs\<rparr>"

definition prune_groups :: "rat \<Rightarrow> tgroup list \<Rightarrow> tgroup list" where
  "prune_groups now gs =
     filter (\<lambda>g. transfer_active (g_state g) \<or> g_state g = ''failed'' \<or> now - 7 * 86400 < g_updated g) gs"

definition new_transfer :: "world \<Rightarrow> string \<Rightarrow> string \<Rightarrow> entry list \<Rightarrow> tgroup" where
  "new_transfer w direction device files =
     \<lparr>g_id = w_uuid w, g_direction = direction, g_device = device, g_files = files,
      g_state = (if direction = ''outgoing'' then ''sending'' else ''receiving''),
      g_created = w_now w, g_updated = w_now w, g_error = [], g_seen = (direction = ''outgoing''),
      g_source = (if direction = ''incoming'' then device else ''This device''),
      g_destination = (if direction = ''incoming'' then ''This device'' else device),
      g_target = None\<rparr>"

definition new_group :: "world \<Rightarrow> string \<Rightarrow> string \<Rightarrow> entry list \<Rightarrow> transfer_state
    \<Rightarrow> string result \<times> transfer_state" where
  "new_group w direction device files s =
     (let s = set_groups (prune_groups (w_now w) (ts_groups s)) s
      in if max_groups \<le> length (ts_groups s) then (Inl ''history-full'', s)
         else (Inr (w_uuid w),
               s\<lparr>ts_groups := new_transfer w direction device files # ts_groups s,
                 ts_used := w_uuid w # ts_used s\<rparr>))"

text \<open>\<open>Service::save\<close>; \<open>ser\<close> is the JSON text of the groups.\<close>

definition save_history :: "(tgroup list \<Rightarrow> string) \<Rightarrow> world \<Rightarrow> transfer_state
    \<Rightarrow> unit result \<times> transfer_state" where
  "save_history ser w s =
     (let s = set_groups (prune_groups (w_now w) (ts_groups s)) s; data = ser (ts_groups s)
      in if max_history < length data then (Inl ''history-full'', s)
         else if ts_saved s = data then (Inr (), s)
         else (case w_write w of
                 Written \<Rightarrow> (Inr (), s\<lparr>ts_saved := data, ts_disk := data\<rparr>)
               | Kept \<Rightarrow> (Inl ''history-unavailable'', s)
               | Landed \<Rightarrow> (Inl ''history-unavailable'', s\<lparr>ts_disk := data\<rparr>)))"

text \<open>A region that saves last returns the error of the save.\<close>

definition saved_ok :: "unit result \<times> transfer_state \<Rightarrow> json result \<times> transfer_state" where
  "saved_ok r = (case r of
       (Inl e, s) \<Rightarrow> (Inl e, s)
     | (Inr _, s) \<Rightarrow> (Inr (json_obj [(''ok'', JBool True)]), s))"

section \<open>Restoring the history\<close>

definition filename_ok :: "string \<Rightarrow> bool" where
  "filename_ok v \<longleftrightarrow> v \<noteq> [] \<and> length v \<le> 255 \<and> v \<noteq> ''.'' \<and> v \<noteq> ''..''
     \<and> CHR ''/'' \<notin> set v \<and> CHR 0x5C \<notin> set v \<and> CHR 0x00 \<notin> set v"

definition entry_rejected :: "entry \<Rightarrow> string option" where
  "entry_rejected e =
     (if \<not> filename_ok (en_name e) then Some ''invalid-filename''
      else if 32768 < length (en_path e)
        \<or> (case en_remote e of Some n \<Rightarrow> \<not> filename_ok n | None \<Rightarrow> False) then Some ''invalid-history''
      else None)"

definition group_rejected :: "(string \<Rightarrow> bool) \<Rightarrow> tgroup \<Rightarrow> string option" where
  "group_rejected uuid g =
     (if \<not> uuid (g_id g) \<or> g_direction g \<notin> set [''incoming'', ''outgoing'']
        \<or> 256 < length (g_files g) \<or> 1024 < length (g_device g) then Some ''invalid-history''
      else (case List.map_filter entry_rejected (g_files g) of [] \<Rightarrow> None | e # _ \<Rightarrow> Some e))"

definition interrupt :: "tgroup \<Rightarrow> tgroup" where
  "interrupt g =
     (if transfer_active (g_state g) then g\<lparr>g_state := ''failed'', g_error := ''interrupted''\<rparr> else g)"

text \<open>The history file: \<open>None\<close> is a file that does not exist; times are finite by type.\<close>

definition restore_groups :: "(string \<Rightarrow> bool) \<Rightarrow> (string \<Rightarrow> tgroup list option) \<Rightarrow> string option
    \<Rightarrow> tgroup list result" where
  "restore_groups uuid deser file = (case file of
       None \<Rightarrow> Inr []
     | Some bytes \<Rightarrow>
         if max_history < length bytes then Inl ''history-too-large''
         else (case deser bytes of
                 None \<Rightarrow> Inl ''invalid-history''
               | Some gs \<Rightarrow>
                   if max_groups < length gs then Inl ''history-too-large''
                   else (case List.map_filter (group_rejected uuid) gs of
                           e # _ \<Rightarrow> Inl e
                         | [] \<Rightarrow> Inr (map interrupt gs))))"

definition empty_state :: "string \<Rightarrow> tgroup list \<Rightarrow> transfer_state" where
  "empty_state disk gs =
     \<lparr>ts_saved = [], ts_groups = gs, ts_controls = [], ts_selection = [], ts_targets = [],
      ts_focus = [], ts_focus_revision = 0, ts_error = [], ts_jobs = [], ts_next = 0,
      ts_stopping = False, ts_disk = disk, ts_action = None, ts_used = map g_id gs\<rparr>"

definition new_service :: "(tgroup list \<Rightarrow> string) \<Rightarrow> (string \<Rightarrow> bool)
    \<Rightarrow> (string \<Rightarrow> tgroup list option) \<Rightarrow> world \<Rightarrow> string option \<Rightarrow> transfer_state result" where
  "new_service ser uuid deser w file =
     (case restore_groups uuid deser file of
        Inl e \<Rightarrow> Inl e
      | Inr gs \<Rightarrow>
          (case save_history ser w (empty_state (case file of Some b \<Rightarrow> b | None \<Rightarrow> []) gs) of
             (Inl e, _) \<Rightarrow> Inl e
           | (Inr _, s) \<Rightarrow> Inr s))"

end
