(* ===== verification/Transfer_Service.thy ===== *)
theory Transfer_Service
  imports Transfers
begin

text \<open>
  The requests and the background sections of the transfer service (\<open>service.rs\<close>), and what it
  reads from the provider's replies (\<open>provider.rs\<close>). \<open>clean\<close> is the text projection
  \<open>common::clean\<close>, \<open>float\<close> the JSON form of a time.
\<close>

section \<open>The provider\<close>

text \<open>\<open>Provider::targets\<close>: online devices of the same user. The second request is not made when the
  status names no user.\<close>

definition trim_dots :: "string \<Rightarrow> string" where
  "trim_dots s = rev (dropWhile (\<lambda>c. c = CHR ''.'') (rev s))"

definition target_of :: "(string \<Rightarrow> string) \<Rightarrow> json \<Rightarrow> json \<Rightarrow> json option" where
  "target_of clean owner e =
     (let node = json_index e ''Node''
      in case as_str (json_index node ''StableID'') of
           None \<Rightarrow> None
         | Some i \<Rightarrow>
             if json_index node ''User'' \<noteq> owner \<or> json_index node ''Online'' \<noteq> JBool True
               \<or> i = [] \<or> 256 < length i then None
             else
               (let name = (case as_str (json_index node ''ComputedName'') of
                              Some n \<Rightarrow> n
                            | None \<Rightarrow> (case as_str (json_index node ''Name'') of
                                        Some n \<Rightarrow> n | None \<Rightarrow> ''Personal device''))
                in Some (json_obj [(''id'', JStr i), (''name'', JStr (clean (trim_dots name)))])))"

definition provider_targets :: "(string \<Rightarrow> string) \<Rightarrow> world \<Rightarrow> json list result" where
  "provider_targets clean w = (case w_status w of
       Inl e \<Rightarrow> Inl e
     | Inr status \<Rightarrow>
         (let owner = json_index (json_index status ''Self'') ''UserID''
          in if owner = JNull then Inr []
             else (case w_file_targets w of
                     Inl e \<Rightarrow> Inl e
                   | Inr ts \<Rightarrow>
                       Inr (List.map_filter (target_of clean owner)
                         (take 4096 (case as_array ts of Some xs \<Rightarrow> xs | None \<Rightarrow> []))))))"

definition waiting_of :: "json \<Rightarrow> (string \<times> nat) result" where
  "waiting_of v = (case as_str (json_index v ''Name'') of
       None \<Rightarrow> Inl ''invalid-filename''
     | Some n \<Rightarrow>
         if \<not> filename_ok n then Inl ''invalid-filename''
         else (case as_u64 (json_index v ''Size'') of
                 None \<Rightarrow> Inl ''invalid-response'' | Some k \<Rightarrow> Inr (n, k)))"

fun collect_results :: "'a result list \<Rightarrow> 'a list result" where
  "collect_results [] = Inr []"
| "collect_results (Inl e # rs) = Inl e"
| "collect_results (Inr x # rs) = (case collect_results rs of Inl e \<Rightarrow> Inl e | Inr xs \<Rightarrow> Inr (x # xs))"

definition provider_waiting :: "world \<Rightarrow> (string \<times> nat) list result" where
  "provider_waiting w = (case w_waiting w of
       Inl e \<Rightarrow> Inl e
     | Inr v \<Rightarrow>
         if v = JNull then Inr []
         else (case as_array v of
                 None \<Rightarrow> Inl ''invalid-response''
               | Some xs \<Rightarrow> collect_results (map waiting_of (take 4096 xs))))"

section \<open>The snapshot\<close>

definition entry_value :: "bool \<Rightarrow> entry \<Rightarrow> json" where
  "entry_value outgoing e = json_obj
     ([(''name'', JStr (en_name e))] @ (if outgoing then [] else [(''path'', JStr (en_path e))])
      @ [(''size'', JNum (show_int (en_size e))), (''bytes'', JNum (nat_digits (en_bytes e))),
         (''state'', JStr (en_state e)), (''error'', JStr (en_error e)),
         (''attempts'', JNum (nat_digits (en_attempts e)))])"

definition group_value :: "(rat \<Rightarrow> json) \<Rightarrow> tgroup \<Rightarrow> json" where
  "group_value float g = json_obj
     ([(''id'', JStr (g_id g)), (''direction'', JStr (g_direction g)), (''device'', JStr (g_device g)),
       (''files'', JArr (map (entry_value (g_direction g = ''outgoing'')) (g_files g))),
       (''state'', JStr (g_state g)), (''created'', float (g_created g)),
       (''updated'', float (g_updated g)), (''error'', JStr (g_error g)), (''seen'', JBool (g_seen g)),
       (''source'', JStr (g_source g)), (''destination'', JStr (g_destination g))]
      @ (case g_target g of Some t \<Rightarrow> [(''target'', JStr t)] | None \<Rightarrow> [])
      @ [(''size'', JNum (nat_digits (foldl (\<lambda>a e. sat_add64 a (nat (max 0 (en_size e)))) 0 (g_files g)))),
         (''bytes'', JNum (nat_digits (foldl (\<lambda>a e. sat_add64 a (en_bytes e)) 0 (g_files g))))])"

definition base_name :: "string \<Rightarrow> string" where
  "base_name p = last (split_on (CHR ''/'') p)"

definition transfer_capabilities :: json where
  "transfer_capabilities = json_obj
     [(''send'', JBool True), (''receive'', JBool True), (''resume'', JStr ''provider-managed''),
      (''cancelSend'', JBool True), (''cancelRemoteReceive'', JBool False),
      (''incomingSourceIdentity'', JBool False)]"

definition transfer_snapshot :: "(rat \<Rightarrow> json) \<Rightarrow> world \<Rightarrow> transfer_state \<Rightarrow> json \<times> transfer_state" where
  "transfer_snapshot float w s =
     (let s = set_groups (prune_groups (w_now w) (ts_groups s)) s
      in (json_obj
            [(''version'', JNum ''1''), (''groups'', JArr (map (group_value float) (ts_groups s))),
             (''targets'', JArr (ts_targets s)),
             (''selection'', JArr (map (JStr \<circ> base_name) (ts_selection s))),
             (''focus'', JStr (ts_focus s)), (''focusRevision'', JNum (nat_digits (ts_focus_revision s))),
             (''capabilities'', transfer_capabilities), (''error'', JStr (ts_error s))], s))"

section \<open>Starting a job\<close>

definition start_state :: "world \<Rightarrow> tgroup \<Rightarrow> tgroup" where
  "start_state w g = g\<lparr>g_state := (if g_direction g = ''outgoing'' then ''sending'' else ''receiving''),
     g_error := [], g_updated := w_now w\<rparr>"

definition start_locked :: "(tgroup list \<Rightarrow> string) \<Rightarrow> world \<Rightarrow> string \<Rightarrow> transfer_state
    \<Rightarrow> unit result \<times> transfer_state" where
  "start_locked ser w i s =
     (if i \<in> fst ` set (ts_controls s) then (Inl ''already-active'', s)
      else if job_permits \<le> length (ts_jobs s) then (Inl ''too-many-transfers'', s)
      else (case find_group i (ts_groups s) of
              None \<Rightarrow> (Inl ''transfer-missing'', s)
            | Some g \<Rightarrow>
                (case save_history ser w (set_groups (alter_group i (start_state w) (ts_groups s)) s) of
                   (Inl e, s) \<Rightarrow> (Inl e, s)
                 | (Inr _, s) \<Rightarrow>
                     (Inr (), s\<lparr>ts_controls := AList.update i (ts_next s) (ts_controls s),
                        ts_jobs := (ts_next s, \<lparr>tj_id = i, tj_cancelled = ts_stopping s, tj_pc = Begin\<rparr>)
                                   # ts_jobs s,
                        ts_next := Suc (ts_next s)\<rparr>))))"

section \<open>Requests\<close>

text \<open>Request \<open>select\<close>: every path must resolve; a path is kept once.\<close>

definition selected_path :: "world \<Rightarrow> json \<Rightarrow> string result" where
  "selected_path w v = (case as_str v of
       Some p \<Rightarrow> if length p \<le> 32768 then w_regular w p else Inl ''invalid-selection''
     | None \<Rightarrow> Inl ''invalid-selection'')"

fun keep_first :: "string list \<Rightarrow> string list \<Rightarrow> string list" where
  "keep_first seen [] = []"
| "keep_first seen (p # ps) = (if p \<in> set seen then keep_first seen ps else p # keep_first (p # seen) ps)"

definition select_paths :: "world \<Rightarrow> json \<Rightarrow> string list result" where
  "select_paths w request = (case as_array (json_index request ''paths'') of
       None \<Rightarrow> Inl ''invalid-selection''
     | Some ps \<Rightarrow>
         if 256 < length ps then Inl ''invalid-selection''
         else (case collect_results (map (selected_path w) ps) of
                 Inl e \<Rightarrow> Inl e | Inr paths \<Rightarrow> Inr (keep_first [] paths)))"

text \<open>Request \<open>send\<close>. The operations lock keeps the selection while the devices are asked for.\<close>

definition source_entry :: "world \<Rightarrow> string \<Rightarrow> entry result" where
  "source_entry w p = (case w_regular w p of
       Inl e \<Rightarrow> Inl e
     | Inr path \<Rightarrow>
         (case w_source w path of
            Inl e \<Rightarrow> Inl e
          | Inr m \<Rightarrow>
              if i64_max < fi_size m then Inl ''source-too-large''
              else Inr \<lparr>en_identity = Some m, en_name = base_name path, en_path = path,
                     en_remote = None, en_pending = False, en_size = int (fi_size m), en_bytes = 0,
                     en_state = ''pending'', en_error = [], en_attempts = 0\<rparr>))"

definition send_selection :: "(tgroup list \<Rightarrow> string) \<Rightarrow> world \<Rightarrow> string \<Rightarrow> string \<Rightarrow> transfer_state
    \<Rightarrow> json result \<times> transfer_state" where
  "send_selection ser w target name s =
     (case collect_results (map (source_entry w) (ts_selection s)) of
        Inl e \<Rightarrow> (Inl e, s)
      | Inr entries \<Rightarrow>
          if job_permits \<le> length (ts_jobs s) then (Inl ''too-many-transfers'', s)
          else (case new_group w ''outgoing'' name entries s of
                  (Inl e, s) \<Rightarrow> (Inl e, s)
                | (Inr i, s) \<Rightarrow>
                    (case start_locked ser w i
                            (set_groups (alter_group i (\<lambda>g. g\<lparr>g_target := Some target\<rparr>) (ts_groups s)) s) of
                       (Inl e, s) \<Rightarrow> (Inl e, set_groups (filter (\<lambda>g. g_id g \<noteq> i) (ts_groups s)) s)
                     | (Inr _, s) \<Rightarrow> (Inr (json_obj [(''ok'', JBool True), (''id'', JStr i)]),
                                     s\<lparr>ts_selection := []\<rparr>))))"

definition send_request :: "(tgroup list \<Rightarrow> string) \<Rightarrow> (string \<Rightarrow> string) \<Rightarrow> world \<Rightarrow> json \<Rightarrow> transfer_state
    \<Rightarrow> json result \<times> transfer_state" where
  "send_request ser clean w request s =
     (if ts_selection s = [] then (Inl ''choose-files'', s)
      else (case provider_targets clean w of
              Inl e \<Rightarrow> (Inl e, s)
            | Inr ts \<Rightarrow>
                (case find (\<lambda>t. json_index t ''id'' = json_index request ''target'') ts of
                   None \<Rightarrow> (Inl ''target-unavailable'', s)
                 | Some t \<Rightarrow>
                     (case (as_str (json_index t ''id''), as_str (json_index t ''name'')) of
                        (Some i, Some name) \<Rightarrow> send_selection ser w i name s
                      | _ \<Rightarrow> (Inl ''target-unavailable'', s)))))"

text \<open>Request \<open>seen\<close>.\<close>

definition seen_id :: "json \<Rightarrow> string result" where
  "seen_id v = (case as_str v of
       Some i \<Rightarrow> if i \<noteq> [] \<and> length i \<le> 128 then Inr i else Inl ''invalid-request''
     | None \<Rightarrow> Inl ''invalid-request'')"

definition seen_ids :: "json \<Rightarrow> string list result" where
  "seen_ids request = (case json_get request ''ids'' of
       Some v \<Rightarrow>
         (case as_array v of
            Some vs \<Rightarrow> if vs \<noteq> [] \<and> length vs \<le> max_groups then collect_results (map seen_id vs)
                       else Inl ''invalid-request''
          | None \<Rightarrow> Inl ''invalid-request'')
     | None \<Rightarrow> (case as_str (json_index request ''id'') of
                  Some i \<Rightarrow> Inr [i] | None \<Rightarrow> Inl ''transfer-missing''))"

definition set_seen :: "string list \<Rightarrow> bool \<Rightarrow> tgroup list \<Rightarrow> tgroup list" where
  "set_seen ids b gs = map (\<lambda>g. if g_id g \<in> set ids then g\<lparr>g_seen := b\<rparr> else g) gs"

definition mark_seen :: "(tgroup list \<Rightarrow> string) \<Rightarrow> world \<Rightarrow> string list \<Rightarrow> transfer_state
    \<Rightarrow> json result \<times> transfer_state" where
  "mark_seen ser w ids s =
     (if \<not> set ids \<subseteq> g_id ` set (ts_groups s) then (Inl ''transfer-missing'', s)
      else
        (let changed = map g_id (filter (\<lambda>g. \<not> g_seen g \<and> g_id g \<in> set ids) (ts_groups s))
         in case save_history ser w (set_groups (set_seen changed True (ts_groups s)) s) of
              (Inl e, s) \<Rightarrow> (Inl e, set_groups (set_seen changed False (ts_groups s)) s)
            | r \<Rightarrow> saved_ok r))"

text \<open>Requests on one transfer.\<close>

definition cancel_job :: "nat \<Rightarrow> transfer_state \<Rightarrow> transfer_state" where
  "cancel_job k s = s\<lparr>ts_jobs := map (\<lambda>(j, x). (j, if j = k then x\<lparr>tj_cancelled := True\<rparr> else x)) (ts_jobs s)\<rparr>"

definition cancel_transfer :: "string \<Rightarrow> transfer_state \<Rightarrow> unit result \<times> transfer_state" where
  "cancel_transfer i s = (case map_of (ts_controls s) i of
       None \<Rightarrow> (Inl ''cancel-at-sender'', s)
     | Some k \<Rightarrow> (Inr (), cancel_job k s))"

definition retry_transfer :: "(tgroup list \<Rightarrow> string) \<Rightarrow> world \<Rightarrow> string \<Rightarrow> transfer_state
    \<Rightarrow> unit result \<times> transfer_state" where
  "retry_transfer ser w i s = (case find_group i (ts_groups s) of
       None \<Rightarrow> (Inl ''transfer-missing'', s)
     | Some g \<Rightarrow>
         if g_state g \<noteq> ''failed'' \<and> g_state g \<noteq> ''cancelled'' then (Inl ''already-active'', s)
         else start_locked ser w i s)"

definition dismiss_transfer :: "string \<Rightarrow> transfer_state \<Rightarrow> unit result \<times> transfer_state" where
  "dismiss_transfer i s = (case find_group i (ts_groups s) of
       None \<Rightarrow> (Inl ''transfer-missing'', s)
     | Some g \<Rightarrow>
         if transfer_active (g_state g) then (Inl ''already-active'', s)
         else (Inr (), set_groups (filter (\<lambda>g. g_id g \<noteq> i) (ts_groups s)) s))"

definition focus_transfer :: "string \<Rightarrow> transfer_state \<Rightarrow> unit result \<times> transfer_state" where
  "focus_transfer i s = (case find_group i (ts_groups s) of
       None \<Rightarrow> (Inl ''transfer-missing'', s)
     | Some g \<Rightarrow> (Inr (), s\<lparr>ts_focus := i,
         ts_focus_revision := (ts_focus_revision s + 1) mod (u64_max + 1)\<rparr>))"

definition transfer_op :: "(tgroup list \<Rightarrow> string) \<Rightarrow> world \<Rightarrow> string \<Rightarrow> string \<Rightarrow> transfer_state
    \<Rightarrow> json result \<times> transfer_state" where
  "transfer_op ser w op i s =
     (case (if op = ''cancel'' then cancel_transfer i s
            else if op = ''retry'' then retry_transfer ser w i s
            else if op = ''dismiss'' then dismiss_transfer i s
            else if op = ''focus'' then focus_transfer i s
            else (Inl ''unknown-operation'', s)) of
        (Inl e, s) \<Rightarrow> (Inl e, s)
      | (Inr _, s) \<Rightarrow> saved_ok (save_history ser w s))"

section \<open>Actions on a received file\<close>

text \<open>\<open>file_action\<close> is two regions with the desktop in between: \<open>file_request\<close> decides on the effect,
  \<open>file_done\<close> records its success. The directory of a move is read after the path.\<close>

definition received_path :: "world \<Rightarrow> string \<Rightarrow> json \<Rightarrow> transfer_state \<Rightarrow> (nat \<times> string) result" where
  "received_path w i request s = (case as_u64 (json_index request ''file'') of
       None \<Rightarrow> Inl ''file-missing''
     | Some k \<Rightarrow>
         (case find_group i (ts_groups s) of
            None \<Rightarrow> Inl ''transfer-missing''
          | Some g \<Rightarrow>
              if g_direction g \<noteq> ''incoming'' then Inl ''not-incoming''
              else if length (g_files g) \<le> k then Inl ''file-missing''
              else if en_state (g_files g ! k) \<noteq> ''completed'' then Inl ''file-unavailable''
              else (case w_regular w (en_path (g_files g ! k)) of
                      Inl e \<Rightarrow> Inl e | Inr p \<Rightarrow> Inr (k, p))))"

definition file_request :: "world \<Rightarrow> string \<Rightarrow> string \<Rightarrow> json \<Rightarrow> transfer_state
    \<Rightarrow> (nat \<times> transfer_effect) result" where
  "file_request w op i request s = (case received_path w i request s of
       Inl e \<Rightarrow> Inl e
     | Inr (k, p) \<Rightarrow>
         if op = ''move'' then
           (case as_str (json_index request ''directory'') of
              None \<Rightarrow> Inl ''destination-unavailable''
            | Some d \<Rightarrow> Inr (k, Move p d))
         else Inr (k, Desktop op p))"

definition file_done :: "(tgroup list \<Rightarrow> string) \<Rightarrow> world \<Rightarrow> string \<Rightarrow> string \<Rightarrow> nat \<Rightarrow> transfer_state
    \<Rightarrow> json result \<times> transfer_state" where
  "file_done ser w op i k s =
     (if op = ''move'' then
        (case w_moved w of
           Inl e \<Rightarrow> (Inl e, s)
         | Inr p \<Rightarrow>
             (case find_group i (ts_groups s) of
                None \<Rightarrow> (Inl ''transfer-missing'', s)
              | Some _ \<Rightarrow> saved_ok (save_history ser w
                  (set_groups (alter_group i (alter_file k (\<lambda>e. e\<lparr>en_path := p\<rparr>)) (ts_groups s)) s))))
      else
        (case w_done w of
           Inl _ \<Rightarrow> (Inl ''desktop-action-failed'', s)
         | Inr _ \<Rightarrow>
             if op = ''trash'' then
               (case find_group i (ts_groups s) of
                  None \<Rightarrow> (Inl ''transfer-missing'', s)
                | Some _ \<Rightarrow> saved_ok (save_history ser w
                    (set_groups (alter_group i
                       (alter_file k (\<lambda>e. e\<lparr>en_state := ''trashed'', en_path := []\<rparr>)) (ts_groups s)) s)))
             else (Inr (json_obj [(''ok'', JBool True)]), s)))"

section \<open>Dispatch\<close>

text \<open>A request is answered, or it waits for the desktop to act on file \<open>k\<close> of a transfer.\<close>

datatype dispatch_reply = Answer "json result" | Action string string nat transfer_effect

definition file_ops :: "string list" where
  "file_ops = [''open'', ''reveal'', ''trash'', ''move'']"

definition answer :: "json result \<times> transfer_state \<Rightarrow> dispatch_reply \<times> transfer_state" where
  "answer r = (Answer (fst r), snd r)"

definition dispatch_transfer :: "(tgroup list \<Rightarrow> string) \<Rightarrow> (string \<Rightarrow> string) \<Rightarrow> (rat \<Rightarrow> json) \<Rightarrow> world
    \<Rightarrow> json \<Rightarrow> transfer_state \<Rightarrow> dispatch_reply \<times> transfer_state" where
  "dispatch_transfer ser clean float w request s =
     (if \<not> is_object request then answer (Inl ''invalid-request'', s)
      else (case as_str (json_index request ''op'') of
        None \<Rightarrow> answer (Inl ''invalid-request'', s)
      | Some op \<Rightarrow>
          if op = ''snapshot'' then (case transfer_snapshot float w s of (v, s) \<Rightarrow> answer (Inr v, s))
          else if op = ''select'' then
            (case select_paths w request of
               Inl e \<Rightarrow> answer (Inl e, s)
             | Inr paths \<Rightarrow> answer (Inr (json_obj [(''ok'', JBool True)]), s\<lparr>ts_selection := paths\<rparr>))
          else if op = ''send'' then answer (send_request ser clean w request s)
          else if op = ''seen'' then
            (case seen_ids request of
               Inl e \<Rightarrow> answer (Inl e, s) | Inr ids \<Rightarrow> answer (mark_seen ser w ids s))
          else (case as_str (json_index request ''id'') of
                  None \<Rightarrow> answer (Inl ''transfer-missing'', s)
                | Some i \<Rightarrow>
                    if op \<in> set file_ops then
                      (case file_request w op i request s of
                         Inl e \<Rightarrow> answer (Inl e, s) | Inr (k, eff) \<Rightarrow> (Action op i k eff, s))
                    else answer (transfer_op ser w op i s))))"

section \<open>Waiting files\<close>

definition waiting_entry :: "string \<Rightarrow> int \<Rightarrow> string \<Rightarrow> entry" where
  "waiting_entry name len st =
     \<lparr>en_identity = None, en_name = name, en_path = [], en_remote = Some name, en_pending = False,
      en_size = len, en_bytes = 0, en_state = st, en_error = [], en_attempts = 0\<rparr>"

text \<open>One file of \<open>receive_waiting\<close>. The flag tells whether the loop goes on.\<close>

definition receive_one :: "(tgroup list \<Rightarrow> string) \<Rightarrow> world \<Rightarrow> string \<times> nat \<Rightarrow> transfer_state
    \<Rightarrow> bool result \<times> transfer_state" where
  "receive_one ser w remote s = (case remote of (name, len) \<Rightarrow>
     (case find (\<lambda>g. g_direction g = ''incoming'' \<and> (\<exists>e \<in> set (g_files g). en_remote e = Some name)) (ts_groups s) of
        Some g \<Rightarrow>
          if g_id g \<in> fst ` set (ts_controls s) then (Inr True, s)
          else (case find_group (g_id g) (ts_groups s) of
                  None \<Rightarrow> (Inl ''transfer-missing'', s)
                | Some g \<Rightarrow>
                    if (\<exists>e \<in> set (g_files g). en_pending e) \<or> g_state g = ''receiving''
                    then (Inr True, snd (start_locked ser w (g_id g) s))
                    else (Inr True, s))
      | None \<Rightarrow>
          if job_permits \<le> length (ts_jobs s) then (Inr False, s)
          else if i64_max < len then (Inl ''invalid-response'', s)
          else (case new_group w ''incoming'' ''Personal device'' [waiting_entry name (int len) ''pending''] s of
                  (Inl e, s) \<Rightarrow> (Inl e, s)
                | (Inr i, s) \<Rightarrow>
                    (case start_locked ser w i s of
                       (Inl e, s) \<Rightarrow> (Inl e, s) | (Inr _, s) \<Rightarrow> (Inr True, s)))))"

section \<open>Provider events and progress\<close>

definition progress_file :: "nat \<Rightarrow> nat option \<Rightarrow> entry \<Rightarrow> entry" where
  "progress_file cnt len e = (case len of
       Some k \<Rightarrow> e\<lparr>en_size := int (min k i64_max), en_bytes := cnt\<rparr>
     | None \<Rightarrow> e\<lparr>en_bytes := min cnt (nat (max 0 (en_size e)))\<rparr>)"

definition transfer_progress :: "world \<Rightarrow> string \<Rightarrow> nat \<Rightarrow> nat \<Rightarrow> nat option \<Rightarrow> transfer_state \<Rightarrow> transfer_state" where
  "transfer_progress w i k cnt len s =
     set_groups (alter_group i (\<lambda>g. if k < length (g_files g)
        then (alter_file k (progress_file cnt len) g)\<lparr>g_updated := w_now w\<rparr> else g) (ts_groups s)) s"

definition outgoing_group :: "world \<Rightarrow> json \<Rightarrow> tgroup \<Rightarrow> tgroup" where
  "outgoing_group w v g =
     (let bytes = (case as_u64 (json_index v ''Sent'') of Some b \<Rightarrow> b | None \<Rightarrow> 0);
          hit = (\<lambda>e. en_state e = ''active'' \<and> Some (en_name e) = as_str (json_index v ''Name''))
      in if g_state g = ''sending'' \<and> g_target g = as_str (json_index v ''PeerID'')
         then g\<lparr>g_files := map (\<lambda>e. if hit e then e\<lparr>en_bytes := min bytes (nat (max 0 (en_size e)))\<rparr> else e) (g_files g),
                g_updated := (if \<exists>e \<in> set (g_files g). hit e then w_now w else g_updated g)\<rparr>
         else g)"

definition outgoing_event :: "world \<Rightarrow> json \<Rightarrow> transfer_state \<Rightarrow> transfer_state" where
  "outgoing_event w v s =
     (if json_index v ''Finished'' = JBool True then s
      else set_groups (map (outgoing_group w v) (ts_groups s)) s)"

definition as_i64 :: "json \<Rightarrow> int option" where
  "as_i64 v = (case v of
       JNum (c # t) \<Rightarrow>
         if c = CHR ''-'' then map_option (\<lambda>n. - int n) (parse_uint (i64_max + 1) t)
         else map_option int (parse_uint i64_max (c # t))
     | _ \<Rightarrow> None)"

definition note_incoming :: "world \<Rightarrow> int \<Rightarrow> nat \<Rightarrow> string \<Rightarrow> transfer_state \<Rightarrow> transfer_state" where
  "note_incoming w len bytes i s =
     (if i \<in> fst ` set (ts_controls s) then s
      else set_groups (alter_group i (\<lambda>g. (alter_file 0 (\<lambda>e. e\<lparr>en_bytes := bytes, en_size := len\<rparr>) g)
             \<lparr>g_updated := w_now w\<rparr>) (ts_groups s)) s)"

definition incoming_event :: "world \<Rightarrow> json \<Rightarrow> transfer_state \<Rightarrow> transfer_state" where
  "incoming_event w v s = (case as_str (json_index v ''Name'') of
       None \<Rightarrow> s
     | Some name \<Rightarrow>
         if \<not> filename_ok name then s
         else
           (let len = (case as_i64 (json_index v ''DeclaredSize'') of Some k \<Rightarrow> k | None \<Rightarrow> - 1);
                bytes = (case as_u64 (json_index v ''Received'') of Some b \<Rightarrow> b | None \<Rightarrow> 0)
            in case find (\<lambda>g. g_direction g = ''incoming'' \<and>
                      (case g_files g of e # _ \<Rightarrow> en_remote e = Some name | [] \<Rightarrow> False)) (ts_groups s) of
                 Some g \<Rightarrow>
                   if g_state g \<in> set [''failed'', ''cancelled''] then s
                   else note_incoming w len bytes (g_id g) s
               | None \<Rightarrow>
                   (case new_group w ''incoming'' ''Personal device'' [waiting_entry name len ''active''] s of
                      (Inl e, s) \<Rightarrow> s
                    | (Inr i, s) \<Rightarrow> note_incoming w len bytes i s)))"

text \<open>A message of the provider: every group it announces gets an identifier of its own.\<close>

definition message_items :: "json \<Rightarrow> string \<Rightarrow> json list" where
  "message_items msg k = take 4096 (case as_array (json_index msg k) of Some xs \<Rightarrow> xs | None \<Rightarrow> [])"

definition transfer_event :: "(nat \<Rightarrow> world) \<Rightarrow> json \<Rightarrow> transfer_state \<Rightarrow> transfer_state" where
  "transfer_event ws msg s =
     foldl (\<lambda>s (k, v). incoming_event (ws (Suc k)) v s)
       (foldl (\<lambda>s v. outgoing_event (ws 0) v s) s (message_items msg ''OutgoingFiles''))
       (List.enumerate 0 (message_items msg ''IncomingFiles''))"

section \<open>The poll\<close>

text \<open>\<open>poll\<close>: the targets, an error of the pass, and groups that lost their sender.\<close>

definition poll_targets :: "json list \<Rightarrow> transfer_state \<Rightarrow> transfer_state" where
  "poll_targets ts s = s\<lparr>ts_targets := ts, ts_error := []\<rparr>"

definition poll_failed :: "string \<Rightarrow> transfer_state \<Rightarrow> transfer_state" where
  "poll_failed e s = s\<lparr>ts_targets := [], ts_error := e\<rparr>"

definition lost_sender :: "world \<Rightarrow> transfer_state \<Rightarrow> tgroup \<Rightarrow> bool" where
  "lost_sender w s g \<longleftrightarrow> g_state g = ''receiving'' \<and> g_id g \<notin> fst ` set (ts_controls s)
     \<and> g_updated g < w_now w - 90"

definition expire_group :: "world \<Rightarrow> tgroup \<Rightarrow> tgroup" where
  "expire_group w g = g\<lparr>g_state := ''failed'', g_error := ''interrupted'', g_updated := w_now w\<rparr>"

definition poll_expire :: "(tgroup list \<Rightarrow> string) \<Rightarrow> world \<Rightarrow> transfer_state
    \<Rightarrow> transfer_effect list result \<times> transfer_state" where
  "poll_expire ser w s =
     (let lost = filter (lost_sender w s) (ts_groups s);
          s = set_groups (map (\<lambda>g. if lost_sender w s g then expire_group w g else g) (ts_groups s)) s
      in case save_history ser w s of
           (Inl e, s) \<Rightarrow> (Inl e, s)
         | (Inr _, s) \<Rightarrow> (Inr (map (Notify \<circ> expire_group w) lost), s))"

definition shutdown_service :: "transfer_state \<Rightarrow> transfer_state" where
  "shutdown_service s = s\<lparr>ts_stopping := True,
     ts_jobs := map (\<lambda>(k, j). (k, j\<lparr>tj_cancelled := True\<rparr>)) (ts_jobs s)\<rparr>"

end
