(* ===== verification/Transfer_Jobs.thy ===== *)
theory Transfer_Jobs
  imports Transfer_Service
begin

text \<open>
  The jobs of the transfer service: \<open>run\<close> and \<open>run_files\<close> of \<open>service.rs\<close> with the checks of
  \<open>Provider::send\<close>, \<open>receive\<close> and \<open>forget\<close>. A job is a state machine; one step is the region between
  two moments at which another task can run, and it starts with the reply the job waited for.
  \<open>transfer_step\<close> composes jobs, requests and background work.
\<close>

section \<open>The loop over the files\<close>

definition fatal_error :: "string \<Rightarrow> bool" where
  "fatal_error e \<longleftrightarrow> e \<in> set [''source-missing'', ''source-changed'', ''target-unavailable'',
     ''not-a-file'', ''history-unavailable'', ''history-full'']"

text \<open>A deletion is only requested under a valid name.\<close>

definition ask_forget :: "string \<Rightarrow> stage \<Rightarrow> place \<Rightarrow> (string \<Rightarrow> job_pc) \<Rightarrow> job_pc \<times> transfer_effect list" where
  "ask_forget n st p err =
     (if filename_ok n then (At_stage st p, [Forget n]) else (err ''invalid-filename'', []))"

definition next_file :: "nat \<Rightarrow> nat \<Rightarrow> string \<Rightarrow> transfer_state \<Rightarrow> job_pc \<times> transfer_effect list" where
  "next_file n k i s =
     (if n \<le> k then (Over (Inr ()), [])
      else (case find_group i (ts_groups s) of
              None \<Rightarrow> (Over (Inl ''transfer-missing''), [])
            | Some g \<Rightarrow>
                (let e = g_files g ! k; p = \<lparr>pl_count = n, pl_index = k, pl_attempt = 0, pl_group = g\<rparr>
                 in if en_pending e then
                      (case en_remote e of
                         None \<Rightarrow> (Over (Inl ''invalid-history''), [])
                       | Some r \<Rightarrow> ask_forget r (Acknowledging r) p (\<lambda>e. Over (Inl e)))
                    else if en_state e \<in> set [''completed'', ''trashed''] then (Next_file n (Suc k), [])
                    else (At_stage Attempting p, []))))"

text \<open>A region that writes through the file of a place and, if \<open>saves\<close>, saves.\<close>

definition edit_file :: "(tgroup list \<Rightarrow> string) \<Rightarrow> bool \<Rightarrow> world \<Rightarrow> string \<Rightarrow> nat \<Rightarrow> (entry \<Rightarrow> entry)
    \<Rightarrow> transfer_state \<Rightarrow> unit result \<times> transfer_state" where
  "edit_file ser saves w i k f s = (case find_group i (ts_groups s) of
       None \<Rightarrow> (Inl ''transfer-missing'', s)
     | Some _ \<Rightarrow>
         (let s = set_groups (alter_group i (alter_file k f) (ts_groups s)) s
          in if saves then save_history ser w s else (Inr (), s)))"

definition acknowledged_file :: "entry \<Rightarrow> entry" where
  "acknowledged_file e = e\<lparr>en_pending := False, en_remote := None, en_error := []\<rparr>"

definition forgotten_file :: "entry \<Rightarrow> entry" where
  "forgotten_file e = e\<lparr>en_pending := False, en_remote := None\<rparr>"

definition received_file :: "string \<Rightarrow> nat \<Rightarrow> entry \<Rightarrow> entry" where
  "received_file path len e = e\<lparr>en_path := path, en_size := int (min len i64_max), en_bytes := len,
     en_state := ''completed'', en_pending := True\<rparr>"

definition settled_file :: "entry \<Rightarrow> entry" where
  "settled_file e = e\<lparr>en_state := ''completed'', en_bytes := nat (max 0 (en_size e)), en_error := []\<rparr>"

definition attempted_file :: "entry \<Rightarrow> entry" where
  "attempted_file e = e\<lparr>en_state := ''active'', en_error := [], en_bytes := 0,
     en_attempts := sat_add64 (en_attempts e) 1\<rparr>"

definition failed_file :: "string \<Rightarrow> entry \<Rightarrow> entry" where
  "failed_file err e = (if en_pending e then e else e\<lparr>en_error := err, en_state := ''failed''\<rparr>)"

text \<open>The start of an attempt, up to its first request.\<close>

definition attempt_group :: "nat \<Rightarrow> tgroup \<Rightarrow> tgroup" where
  "attempt_group k g =
     alter_file k attempted_file (g\<lparr>g_state := (if g_direction g = ''outgoing'' then ''sending'' else ''receiving'')\<rparr>)"

definition place_file :: "place \<Rightarrow> entry" where
  "place_file p = g_files (pl_group p) ! pl_index p"

definition first_request :: "place \<Rightarrow> job_pc \<times> transfer_effect list" where
  "first_request p =
     (if g_direction (pl_group p) = ''outgoing'' then
        (case g_target (pl_group p) of
           None \<Rightarrow> (At_stage (Failing ''target-unavailable'') p, [])
         | Some _ \<Rightarrow> (At_stage Resolving p, []))
      else
        (case en_remote (place_file p) of
           None \<Rightarrow> (At_stage (Failing ''receive-unavailable'') p, [])
         | Some r \<Rightarrow>
             if filename_ok r then (At_stage (Receiving r) p, [Get r])
             else (At_stage (Failing ''invalid-filename'') p, [])))"

text \<open>The device must be listed and the file must be the one that was chosen. The upload is asked for
  with the descriptor whose metadata was compared.\<close>

definition ask_put :: "(string \<Rightarrow> string) \<Rightarrow> world \<Rightarrow> place \<Rightarrow> job_pc \<times> transfer_effect list" where
  "ask_put clean w p =
     (let fails = (\<lambda>e. (At_stage (Failing e) p, [])); e = place_file p
      in case (g_target (pl_group p), provider_targets clean w) of
           (None, _) \<Rightarrow> fails ''target-unavailable''
         | (_, Inl err) \<Rightarrow> fails err
         | (Some t, Inr ts) \<Rightarrow>
             if \<forall>v \<in> set ts. json_index v ''id'' \<noteq> JStr t then fails ''target-unavailable''
             else (case w_regular w (en_path e) of
                     Inl err \<Rightarrow> fails err
                   | Inr path \<Rightarrow>
                       (case w_source w path of
                          Inl err \<Rightarrow> fails err
                        | Inr m \<Rightarrow>
                            if fi_size m \<noteq> nat (max 0 (en_size e)) \<or> en_identity e \<notin> {None, Some m}
                            then fails ''source-changed''
                            else (At_stage Sending p, [Put t path (Some m)]))))"

definition at_failure :: "transfer_job \<Rightarrow> place \<Rightarrow> string \<Rightarrow> transfer_state \<Rightarrow> job_pc \<times> transfer_state" where
  "at_failure j p err s =
     (if tj_cancelled j then (Over (Inl ''cancelled''), s)
      else (case find_group (tj_id j) (ts_groups s) of
              None \<Rightarrow> (Over (Inl ''transfer-missing''), s)
            | Some g \<Rightarrow>
                (if en_pending (g_files g ! pl_index p) \<or> pl_attempt p = 2 \<or> fatal_error err
                 then Over (Inl err) else At_stage Sleeping p,
                 set_groups (alter_group (tj_id j)
                   (\<lambda>g. (alter_file (pl_index p) (failed_file err) g)\<lparr>g_state := ''retrying''\<rparr>)
                   (ts_groups s)) s)))"

definition then_pc :: "job_pc \<Rightarrow> (string \<Rightarrow> job_pc) \<Rightarrow> unit result \<times> transfer_state
    \<Rightarrow> job_pc \<times> transfer_state \<times> transfer_effect list" where
  "then_pc ok err r = (case r of (Inl e, s) \<Rightarrow> (err e, s, []) | (Inr _, s) \<Rightarrow> (ok, s, []))"

section \<open>One step of a job\<close>

fun job_stage :: "(tgroup list \<Rightarrow> string) \<Rightarrow> (string \<Rightarrow> string) \<Rightarrow> world \<Rightarrow> transfer_job \<Rightarrow> stage \<Rightarrow> place
    \<Rightarrow> transfer_state \<Rightarrow> job_pc \<times> transfer_state \<times> transfer_effect list" where
  "job_stage ser clean w j (Acknowledging r) p s =
     (case w_done w of
        Inl e \<Rightarrow> (Over (Inl e), s, [])
      | Inr _ \<Rightarrow> then_pc (Next_file (pl_count p) (Suc (pl_index p))) (\<lambda>e. Over (Inl e))
                   (edit_file ser True w (tj_id j) (pl_index p) acknowledged_file s))"
| "job_stage ser clean w j Attempting p s =
     (if tj_cancelled j then (Over (Inl ''cancelled''), s, [])
      else (case find_group (tj_id j) (ts_groups s) of
              None \<Rightarrow> (Over (Inl ''transfer-missing''), s, [])
            | Some _ \<Rightarrow>
                (case first_request p of (pc, effs) \<Rightarrow>
                   (pc, set_groups (alter_group (tj_id j) (attempt_group (pl_index p)) (ts_groups s)) s, effs))))"
| "job_stage ser clean w j Resolving p s = (case ask_put clean w p of (pc, effs) \<Rightarrow> (pc, s, effs))"
| "job_stage ser clean w j Sending p s =
     (case w_done w of
        Inl e \<Rightarrow> (At_stage (Failing e) p, s, []) | Inr _ \<Rightarrow> (At_stage Settling p, s, []))"
| "job_stage ser clean w j (Receiving r) p s =
     (case w_received w of
        Inl e \<Rightarrow> (At_stage (Failing e) p, s, [])
      | Inr (path, len) \<Rightarrow>
          (case edit_file ser True w (tj_id j) (pl_index p) (received_file path len) s of
             (Inl e, s) \<Rightarrow> (At_stage (Failing e) p, s, [])
           | (Inr _, s) \<Rightarrow>
               (case ask_forget r (Forgetting r) p (\<lambda>e. At_stage (Failing e) p) of
                  (pc, effs) \<Rightarrow> (pc, s, effs))))"
| "job_stage ser clean w j (Forgetting r) p s =
     (case w_done w of
        Inl e \<Rightarrow> (At_stage (Failing e) p, s, [])
      | Inr _ \<Rightarrow> then_pc (At_stage Settling p) (\<lambda>e. At_stage (Failing e) p)
                   (edit_file ser False w (tj_id j) (pl_index p) forgotten_file s))"
| "job_stage ser clean w j Settling p s =
     then_pc (Next_file (pl_count p) (Suc (pl_index p))) (\<lambda>e. At_stage (Failing e) p)
       (edit_file ser True w (tj_id j) (pl_index p) settled_file s)"
| "job_stage ser clean w j (Failing err) p s =
     (case at_failure j p err s of (pc, s) \<Rightarrow> (pc, s, []))"
| "job_stage ser clean w j Sleeping p s = (At_stage Attempting (p\<lparr>pl_attempt := Suc (pl_attempt p)\<rparr>), s, [])"

text \<open>The last region of \<open>run\<close>. A group that is gone ends the task before its control is removed.\<close>

definition closed_group :: "world \<Rightarrow> bool \<Rightarrow> unit result \<Rightarrow> tgroup \<Rightarrow> tgroup" where
  "closed_group w cancelled r g = (case r of
       Inr _ \<Rightarrow> g\<lparr>g_state := ''completed'', g_error := [], g_updated := w_now w\<rparr>
     | Inl e \<Rightarrow>
         if cancelled \<or> e = ''cancelled''
         then g\<lparr>g_state := ''cancelled'', g_error := ''cancelled'', g_updated := w_now w\<rparr>
         else g\<lparr>g_state := ''failed'', g_error := e, g_updated := w_now w\<rparr>)"

definition close_notice :: "tgroup \<Rightarrow> transfer_effect list" where
  "close_notice g =
     (if g_state g = ''failed'' \<or> g_state g = ''completed'' \<and> g_direction g = ''incoming''
      then [Notify g] else [])"

definition drop_job :: "nat \<Rightarrow> transfer_state \<Rightarrow> transfer_state" where
  "drop_job k s = s\<lparr>ts_jobs := AList.delete k (ts_jobs s)\<rparr>"

definition close_job :: "(tgroup list \<Rightarrow> string) \<Rightarrow> world \<Rightarrow> nat \<Rightarrow> transfer_job \<Rightarrow> unit result \<Rightarrow> transfer_state
    \<Rightarrow> transfer_state \<times> transfer_effect list" where
  "close_job ser w k j r s = (case find_group (tj_id j) (ts_groups s) of
       None \<Rightarrow> (drop_job k s, [])
     | Some g \<Rightarrow>
         (let f = closed_group w (tj_cancelled j) r;
              s = (case save_history ser w (set_groups (alter_group (tj_id j) f (ts_groups s)) s) of
                     (Inl e, s) \<Rightarrow> s\<lparr>ts_error := e\<rparr> | (Inr _, s) \<Rightarrow> s)
          in (drop_job k (s\<lparr>ts_controls := AList.delete (tj_id j) (ts_controls s)\<rparr>), close_notice (f g))))"

definition set_pc :: "nat \<Rightarrow> job_pc \<Rightarrow> transfer_state \<Rightarrow> transfer_state" where
  "set_pc k pc s = s\<lparr>ts_jobs := map (\<lambda>(i, j). (i, if i = k then j\<lparr>tj_pc := pc\<rparr> else j)) (ts_jobs s)\<rparr>"

definition job_step :: "(tgroup list \<Rightarrow> string) \<Rightarrow> (string \<Rightarrow> string) \<Rightarrow> world \<Rightarrow> nat \<Rightarrow> transfer_job
    \<Rightarrow> transfer_state \<Rightarrow> transfer_state \<times> transfer_effect list" where
  "job_step ser clean w k j s = (case tj_pc j of
       Begin \<Rightarrow>
         (case find_group (tj_id j) (ts_groups s) of
            None \<Rightarrow> (set_pc k (Over (Inl ''transfer-missing'')) s, [])
          | Some g \<Rightarrow> (set_pc k (Next_file (length (g_files g)) 0) s, []))
     | Next_file n m \<Rightarrow> (case next_file n m (tj_id j) s of (pc, effs) \<Rightarrow> (set_pc k pc s, effs))
     | At_stage st p \<Rightarrow> (case job_stage ser clean w j st p s of (pc, s, effs) \<Rightarrow> (set_pc k pc s, effs))
     | Over r \<Rightarrow> close_job ser w k j r s)"

text \<open>The moments at which the cancellation may drop the loop: its first poll and every wait.\<close>

fun awaiting :: "job_pc \<Rightarrow> bool" where
  "awaiting Begin = True"
| "awaiting (At_stage (Acknowledging r) p) = True"
| "awaiting (At_stage Resolving p) = True"
| "awaiting (At_stage Sending p) = True"
| "awaiting (At_stage (Receiving r) p) = True"
| "awaiting (At_stage (Forgetting r) p) = True"
| "awaiting (At_stage Sleeping p) = True"
| "awaiting _ = False"

section \<open>The service\<close>

text \<open>One step: its effects and the state after it. A fresh identifier was never issued before.\<close>

definition fresh_world :: "world \<Rightarrow> transfer_state \<Rightarrow> bool" where
  "fresh_world w s \<longleftrightarrow> w_uuid w \<notin> set (ts_used s)"

inductive transfer_step :: "(tgroup list \<Rightarrow> string) \<Rightarrow> (string \<Rightarrow> string) \<Rightarrow> (rat \<Rightarrow> json) \<Rightarrow> transfer_state
    \<Rightarrow> transfer_effect list \<Rightarrow> transfer_state \<Rightarrow> bool"
  for ser :: "tgroup list \<Rightarrow> string" and clean :: "string \<Rightarrow> string" and float :: "rat \<Rightarrow> json" where
  request: "fresh_world w s \<Longrightarrow> ts_action s = None \<or> as_str (json_index req ''op'') = Some ''snapshot''
    \<Longrightarrow> dispatch_transfer ser clean float w req s = (Answer r, t) \<Longrightarrow> transfer_step ser clean float s [] t"
| action: "ts_action s = None \<Longrightarrow> dispatch_transfer ser clean float w req s = (Action op i k eff, t)
    \<Longrightarrow> transfer_step ser clean float s [eff] (t\<lparr>ts_action := Some (op, i, k)\<rparr>)"
| acted: "ts_action s = Some (op, i, k) \<Longrightarrow> file_done ser w op i k s = (r, t)
    \<Longrightarrow> transfer_step ser clean float s [] (t\<lparr>ts_action := None\<rparr>)"
| job: "map_of (ts_jobs s) k = Some j \<Longrightarrow> job_step ser clean w k j s = (t, effs)
    \<Longrightarrow> transfer_step ser clean float s effs t"
| dropped: "map_of (ts_jobs s) k = Some j \<Longrightarrow> tj_cancelled j \<Longrightarrow> awaiting (tj_pc j)
    \<Longrightarrow> transfer_step ser clean float s [] (set_pc k (Over (Inl ''cancelled'')) s)"
| progress: "map_of (ts_jobs s) k = Some j \<Longrightarrow> tj_pc j = At_stage (Receiving r) p
    \<Longrightarrow> transfer_step ser clean float s [] (transfer_progress w (tj_id j) (pl_index p) n len s)"
| receive: "fresh_world w s \<Longrightarrow> receive_one ser w remote s = (r, t)
    \<Longrightarrow> transfer_step ser clean float s [] t"
| outgoing: "transfer_step ser clean float s [] (outgoing_event w v s)"
| incoming: "fresh_world w s \<Longrightarrow> transfer_step ser clean float s [] (incoming_event w v s)"
| targets: "provider_targets clean w = Inr ts \<Longrightarrow> transfer_step ser clean float s [] (poll_targets ts s)"
| expire: "poll_expire ser w s = (Inr effs, t) \<Longrightarrow> transfer_step ser clean float s effs t"
| expire_failed: "poll_expire ser w s = (Inl e, t) \<Longrightarrow> transfer_step ser clean float s [] t"
| pass_failed: "transfer_step ser clean float s [] (poll_failed e s)"
| shutdown: "transfer_step ser clean float s [] (shutdown_service s)"

text \<open>The states a service can be in: it starts without a history or, after a stop at any moment, with
  the file the last one left.\<close>

inductive transfer_reach :: "(tgroup list \<Rightarrow> string) \<Rightarrow> (string \<Rightarrow> bool) \<Rightarrow> (string \<Rightarrow> tgroup list option)
    \<Rightarrow> (string \<Rightarrow> string) \<Rightarrow> (rat \<Rightarrow> json) \<Rightarrow> transfer_state \<Rightarrow> bool"
  for ser uuid deser clean float where
  created: "new_service ser uuid deser w None = Inr s \<Longrightarrow> transfer_reach ser uuid deser clean float s"
| restarted: "transfer_reach ser uuid deser clean float s
    \<Longrightarrow> new_service ser uuid deser w (Some (ts_disk s)) = Inr t
    \<Longrightarrow> transfer_reach ser uuid deser clean float t"
| stepped: "transfer_reach ser uuid deser clean float s \<Longrightarrow> transfer_step ser clean float s effs t
    \<Longrightarrow> transfer_reach ser uuid deser clean float t"

inductive_cases transfer_stepE: "transfer_step ser clean float s effs t"

end
