(* ===== verification/Transfer_Facts.thy ===== *)
theory Transfer_Facts
  imports Transfer_Jobs
begin

text \<open>
  What holds in every state of the transfer service. Every operation is first shown to be a
  sequence of few primitive edits (\<open>edit_step\<close>), so the invariant is checked once per edit; a job
  first gives up its place in the loop and takes its next one at the end of its region.
\<close>

section \<open>Groups\<close>

definition acks :: "tgroup \<Rightarrow> (string option \<times> bool) list" where
  "acks g = map (\<lambda>e. (en_remote e, en_pending e)) (g_files g)"

definition entry_ok :: "entry \<Rightarrow> bool" where
  "entry_ok e \<longleftrightarrow> (en_pending e \<longrightarrow> en_remote e \<noteq> None \<and> en_state e \<in> {''completed'', ''trashed''})"

definition groups_ok :: "tgroup list \<Rightarrow> bool" where
  "groups_ok gs \<longleftrightarrow> distinct (map g_id gs) \<and> (\<forall>g \<in> set gs. \<forall>e \<in> set (g_files g). entry_ok e)"

text \<open>The file \<open>m\<close> of transfer \<open>i\<close> is recorded as received under the name \<open>r\<close>.\<close>

definition pends :: "tgroup list \<Rightarrow> string \<Rightarrow> nat \<Rightarrow> string \<Rightarrow> bool" where
  "pends gs i m r \<longleftrightarrow> (\<exists>g \<in> set gs. g_id g = i \<and> m < length (acks g) \<and> acks g ! m = (Some r, True))"

definition ack_later :: "string option \<times> bool \<Rightarrow> string option \<times> bool \<Rightarrow> bool" where
  "ack_later x y \<longleftrightarrow> (fst y = fst x \<or> fst y = None) \<and> (snd x \<longrightarrow> snd y \<or> fst y = None)"

abbreviation acks_later :: "tgroup \<Rightarrow> tgroup \<Rightarrow> bool" where
  "acks_later g h \<equiv> list_all2 ack_later (acks g) (acks h)"

lemma length_acks [simp]: "length (acks g) = length (g_files g)"
  by (simp add: acks_def)

lemma ack_later_refl [simp]: "ack_later x x"
  by (simp add: ack_later_def)

lemma acks_later_refl [simp]: "acks_later g g"
  by (simp add: list_all2_conv_all_nth)

lemma acks_later_trans: "acks_later a b \<Longrightarrow> acks_later b c \<Longrightarrow> acks_later a c"
  by (rule list_all2_trans [of ack_later ack_later ack_later, rotated]) (auto simp: ack_later_def)

lemma acks_later_eq: "acks_later a b \<Longrightarrow> acks c = acks b \<Longrightarrow> acks_later a c"
  by simp

lemma alter_group_map:
  "distinct (map g_id gs) \<Longrightarrow> alter_group i f gs = map (\<lambda>g. if g_id g = i then f g else g) gs"
proof (induction gs)
  case (Cons g gs)
  then show ?case
    by (auto intro!: map_idI [symmetric] simp: image_iff)
qed simp

lemma find_group_Some:
  "distinct (map g_id gs) \<Longrightarrow> find_group i gs = Some g \<longleftrightarrow> g \<in> set gs \<and> g_id g = i"
proof (induction gs)
  case (Cons h gs)
  then show ?case by (auto simp: find_group_def image_iff)
qed (simp add: find_group_def)

lemma find_group_None: "find_group i gs = None \<longleftrightarrow> i \<notin> g_id ` set gs"
  by (auto simp: find_group_def find_None_iff)

lemma group_unique:
  "distinct (map g_id gs) \<Longrightarrow> g \<in> set gs \<Longrightarrow> h \<in> set gs \<Longrightarrow> g_id g = g_id h \<Longrightarrow> g = h"
  by (rule map_update_distinct)

lemma alter_file_simps [simp]:
  "g_id (alter_file k f g) = g_id g" "g_state (alter_file k f g) = g_state g"
  "g_direction (alter_file k f g) = g_direction g" "g_target (alter_file k f g) = g_target g"
  "length (g_files (alter_file k f g)) = length (g_files g)"
  by (simp_all add: alter_file_def)

lemma acks_alter_file:
  "acks (alter_file k f g) = (if k < length (g_files g)
     then (acks g)[k := (en_remote (f (g_files g ! k)), en_pending (f (g_files g ! k)))] else acks g)"
  by (simp add: acks_def alter_file_def map_update)

lemma acks_same [simp]:
  "acks (g\<lparr>g_state := a\<rparr>) = acks g" "acks (g\<lparr>g_updated := b\<rparr>) = acks g"
  "acks (g\<lparr>g_error := c\<rparr>) = acks g" "acks (g\<lparr>g_seen := d\<rparr>) = acks g"
  "acks (g\<lparr>g_target := t\<rparr>) = acks g"
  by (simp_all add: acks_def)

lemma files_alter_file: "e \<in> set (g_files (alter_file k f g)) \<Longrightarrow>
    e \<in> set (g_files g) \<or> k < length (g_files g) \<and> e = f (g_files g ! k)"
  by (auto simp: alter_file_def split: if_splits dest!: subsetD [OF set_update_subset_insert])

section \<open>Primitive edits\<close>

definition same_jobs :: "(nat \<times> transfer_job) list \<Rightarrow> (nat \<times> transfer_job) list \<Rightarrow> bool" where
  "same_jobs js ks \<longleftrightarrow> map (\<lambda>(k, j). (k, tj_id j, tj_pc j)) js = map (\<lambda>(k, j). (k, tj_id j, tj_pc j)) ks"

text \<open>An edit of a group that leaves alone what the jobs rely on.\<close>

definition gentle :: "string set \<Rightarrow> (tgroup \<Rightarrow> tgroup) \<Rightarrow> tgroup \<Rightarrow> bool" where
  "gentle ctl f g \<longleftrightarrow> g_id (f g) = g_id g \<and> acks (f g) = acks g
     \<and> (g_id g \<in> ctl \<longrightarrow> transfer_active (g_state g) \<longrightarrow> transfer_active (g_state (f g)))
     \<and> ((\<forall>e \<in> set (g_files g). entry_ok e) \<longrightarrow> (\<forall>e \<in> set (g_files (f g)). entry_ok e))"

abbreviation controlled :: "transfer_state \<Rightarrow> string set" where
  "controlled s \<equiv> fst ` set (ts_controls s)"

text \<open>A job that is over or not yet placed relies on its group only.\<close>

definition unplaced :: "string \<Rightarrow> transfer_state \<Rightarrow> bool" where
  "unplaced i s \<longleftrightarrow> (\<forall>(k, j) \<in> set (ts_jobs s). tj_id j = i \<longrightarrow> (\<exists>r. tj_pc j = Over r))"

definition own_edit :: "string \<Rightarrow> nat \<Rightarrow> (entry \<Rightarrow> entry) \<Rightarrow> tgroup list \<Rightarrow> bool" where
  "own_edit i m f gs \<longleftrightarrow> (\<forall>g \<in> set gs. g_id g = i \<longrightarrow> m < length (g_files g) \<longrightarrow>
     (let e = g_files g ! m in ack_later (en_remote e, en_pending e) (en_remote (f e), en_pending (f e))
        \<and> (entry_ok e \<longrightarrow> entry_ok (f e))))"

inductive edit_step :: "(tgroup list \<Rightarrow> string) \<Rightarrow> transfer_state \<Rightarrow> transfer_state \<Rightarrow> bool"
  for ser :: "tgroup list \<Rightarrow> string" where
  shrink: "(\<And>g. g \<in> set (ts_groups s) \<Longrightarrow> \<not> P g \<Longrightarrow> \<not> transfer_active (g_state g) \<or> g_id g \<notin> controlled s)
    \<Longrightarrow> edit_step ser s (set_groups (filter P (ts_groups s)) s)"
| amend: "(\<And>g. g \<in> set (ts_groups s) \<Longrightarrow> gentle (controlled s) f g)
    \<Longrightarrow> edit_step ser s (set_groups (map f (ts_groups s)) s)"
| alter: "(\<And>g. g \<in> set (ts_groups s) \<Longrightarrow> g_id g = i \<Longrightarrow> gentle (controlled s) f g)
    \<Longrightarrow> edit_step ser s (set_groups (alter_group i f (ts_groups s)) s)"
| own: "unplaced i s \<Longrightarrow> own_edit i m f (ts_groups s)
    \<Longrightarrow> edit_step ser s (set_groups (alter_group i (alter_file m f) (ts_groups s)) s)"
| add: "g_id g \<notin> set (ts_used s) \<Longrightarrow> length (ts_groups s) < max_groups
    \<Longrightarrow> (\<And>e. e \<in> set (g_files g) \<Longrightarrow> \<not> en_pending e)
    \<Longrightarrow> edit_step ser s (s\<lparr>ts_groups := g # ts_groups s, ts_used := g_id g # ts_used s\<rparr>)"
| wrote: "edit_step ser s (s\<lparr>ts_saved := ser (ts_groups s), ts_disk := ser (ts_groups s)\<rparr>)"
| landed: "edit_step ser s (s\<lparr>ts_disk := ser (ts_groups s)\<rparr>)"
| start: "i \<notin> controlled s \<Longrightarrow> length (ts_jobs s) < job_permits \<Longrightarrow> find_group i (ts_groups s) = Some g
    \<Longrightarrow> transfer_active (g_state g) \<Longrightarrow> ts_saved s = ser (ts_groups s)
    \<Longrightarrow> edit_step ser s (s\<lparr>ts_controls := AList.update i (ts_next s) (ts_controls s),
          ts_jobs := (ts_next s, \<lparr>tj_id = i, tj_cancelled = ts_stopping s, tj_pc = Begin\<rparr>) # ts_jobs s,
          ts_next := Suc (ts_next s)\<rparr>)"
| other: "ts_groups t = ts_groups s \<Longrightarrow> ts_saved t = ts_saved s \<Longrightarrow> ts_disk t = ts_disk s
    \<Longrightarrow> ts_controls t = ts_controls s \<Longrightarrow> ts_used t = ts_used s \<Longrightarrow> ts_next t = ts_next s
    \<Longrightarrow> same_jobs (ts_jobs s) (ts_jobs t) \<Longrightarrow> edit_step ser s t"

abbreviation edits :: "(tgroup list \<Rightarrow> string) \<Rightarrow> transfer_state \<Rightarrow> transfer_state \<Rightarrow> bool" where
  "edits ser \<equiv> (edit_step ser)\<^sup>*\<^sup>*"

section \<open>The invariant\<close>

fun stage_ok :: "(string option \<times> bool) \<Rightarrow> stage \<Rightarrow> place \<Rightarrow> bool" where
  "stage_ok x (Acknowledging r) p = (x = (Some r, True))"
| "stage_ok x (Receiving r) p = (x = (Some r, False) \<and> en_remote (place_file p) = Some r)"
| "stage_ok x (Forgetting r) p = (x = (Some r, True))"
| "stage_ok x Settling p = (\<not> snd x)"
| "stage_ok x (Failing err) p = (snd x \<or> fatal_error err \<or> fst x = en_remote (place_file p))"
| "stage_ok x st p = (\<not> snd x \<and> fst x = en_remote (place_file p))"

fun pc_ok :: "tgroup \<Rightarrow> job_pc \<Rightarrow> bool" where
  "pc_ok g (Next_file n k) = (n = length (g_files g))"
| "pc_ok g (At_stage st p) = (pl_count p = length (g_files g) \<and> pl_index p < length (g_files g)
     \<and> stage_ok (acks g ! pl_index p) st p)"
| "pc_ok g _ = True"

text \<open>The files whose record the job relies on having been written.\<close>

fun relies :: "job_pc \<Rightarrow> nat \<Rightarrow> bool" where
  "relies (Over r) m = False"
| "relies (At_stage (Failing err) p) m = (m \<noteq> pl_index p)"
| "relies _ m = True"

definition place_ok :: "tgroup list \<Rightarrow> tgroup list \<Rightarrow> string \<Rightarrow> job_pc \<Rightarrow> bool" where
  "place_ok saved gs i pc \<longleftrightarrow> (\<exists>g \<in> set gs. g_id g = i \<and> transfer_active (g_state g) \<and> pc_ok g pc
     \<and> (\<forall>m r. m < length (g_files g) \<longrightarrow> acks g ! m = (Some r, True) \<longrightarrow> relies pc m \<longrightarrow> pends saved i m r))"

definition jobs_ok :: "transfer_state \<Rightarrow> bool" where
  "jobs_ok s \<longleftrightarrow> keys_distinct (ts_controls s) \<and> keys_distinct (ts_jobs s)
     \<and> (\<forall>i k. map_of (ts_controls s) i = Some k \<longleftrightarrow> (\<exists>j. map_of (ts_jobs s) k = Some j \<and> tj_id j = i))
     \<and> (\<forall>(k, j) \<in> set (ts_jobs s). k < ts_next s) \<and> length (ts_jobs s) \<le> job_permits"

definition transfer_ok :: "(string \<Rightarrow> tgroup list) \<Rightarrow> transfer_state \<Rightarrow> bool" where
  "transfer_ok dec s \<longleftrightarrow> groups_ok (ts_groups s) \<and> groups_ok (dec (ts_disk s))
     \<and> length (ts_groups s) \<le> max_groups
     \<and> g_id ` (set (ts_groups s) \<union> set (dec (ts_saved s)) \<union> set (dec (ts_disk s))) \<subseteq> set (ts_used s)
     \<and> (\<forall>g0 \<in> set (dec (ts_saved s)) \<union> set (dec (ts_disk s)). \<forall>g \<in> set (ts_groups s).
          g_id g0 = g_id g \<longrightarrow> acks_later g0 g)
     \<and> (\<forall>i m r. pends (ts_groups s) i m r \<longrightarrow> pends (dec (ts_saved s)) i m r \<longrightarrow> pends (dec (ts_disk s)) i m r)
     \<and> jobs_ok s
     \<and> (\<forall>(k, j) \<in> set (ts_jobs s). place_ok (dec (ts_saved s)) (ts_groups s) (tj_id j) (tj_pc j))"

text \<open>The decoder restores identifiers and files from the text the encoder writes.\<close>

definition journal :: "(tgroup list \<Rightarrow> string) \<Rightarrow> (string \<Rightarrow> tgroup list option) \<Rightarrow> bool" where
  "journal ser deser \<longleftrightarrow> (\<forall>gs. ser gs \<noteq> [] \<and>
     map_option (map (\<lambda>g. (g_id g, g_files g))) (deser (ser gs)) = Some (map (\<lambda>g. (g_id g, g_files g)) gs))"

definition history :: "(string \<Rightarrow> tgroup list option) \<Rightarrow> string \<Rightarrow> tgroup list" where
  "history deser bytes = (case deser bytes of Some gs \<Rightarrow> gs | None \<Rightarrow> [])"

lemma journal_history:
  "journal ser deser \<Longrightarrow> map (\<lambda>g. (g_id g, g_files g)) (history deser (ser gs)) = map (\<lambda>g. (g_id g, g_files g)) gs"
proof -
  assume "journal ser deser"
  then obtain hs where "deser (ser gs) = Some hs"
    "map (\<lambda>g. (g_id g, g_files g)) hs = map (\<lambda>g. (g_id g, g_files g)) gs"
    unfolding journal_def by blast
  then show ?thesis by (simp add: history_def)
qed

section \<open>Primitive edits preserve it\<close>

text \<open>Only identifiers and files count.\<close>

lemma signature_sim:
  assumes "map (\<lambda>g. (g_id g, g_files g)) gs = map (\<lambda>g. (g_id g, g_files g)) hs" "g \<in> set gs"
  shows "\<exists>h \<in> set hs. g_id h = g_id g \<and> g_files h = g_files g"
proof -
  have "(g_id g, g_files g) \<in> (\<lambda>g. (g_id g, g_files g)) ` set hs"
    using assms by (metis (mono_tags, lifting) image_eqI image_set)
  then show ?thesis by auto
qed

lemma signature_facts:
  assumes "map (\<lambda>g. (g_id g, g_files g)) gs = map (\<lambda>g. (g_id g, g_files g)) hs"
  shows "groups_ok gs = groups_ok hs" "pends gs = pends hs" "g_id ` set gs = g_id ` set hs"
    "(\<forall>g \<in> set gs. \<forall>h \<in> set xs. g_id g = g_id h \<longrightarrow> acks_later g h)
      = (\<forall>g \<in> set hs. \<forall>h \<in> set xs. g_id g = g_id h \<longrightarrow> acks_later g h)"
proof -
  note sim = signature_sim [OF assms] signature_sim [OF assms [symmetric]]
  have "map fst (map (\<lambda>g. (g_id g, g_files g)) gs) = map fst (map (\<lambda>g. (g_id g, g_files g)) hs)"
    using assms by simp
  then have ids: "map g_id gs = map g_id hs" by (simp add: o_def)
  then show "g_id ` set gs = g_id ` set hs" by (metis image_set)
  have files: "(\<forall>g \<in> set gs. \<forall>e \<in> set (g_files g). entry_ok e) = (\<forall>g \<in> set hs. \<forall>e \<in> set (g_files g). entry_ok e)"
    using sim by metis
  with ids show "groups_ok gs = groups_ok hs" by (simp add: groups_ok_def)
  have acks: "acks g = acks h" if "g_files g = g_files h" for g h using that by (simp add: acks_def)
  have "pends gs i m r" if "pends hs i m r" for i m r
    using that sim(2) acks unfolding pends_def by metis
  moreover have "pends hs i m r" if "pends gs i m r" for i m r
    using that sim(1) acks unfolding pends_def by metis
  ultimately show "pends gs = pends hs" by (auto simp: fun_eq_iff)
  have *: "\<forall>g \<in> set bs. \<forall>h \<in> set xs. g_id g = g_id h \<longrightarrow> acks_later g h"
    if *: "\<forall>g \<in> set as. \<forall>h \<in> set xs. g_id g = g_id h \<longrightarrow> acks_later g h"
      and sim: "\<And>g. g \<in> set bs \<Longrightarrow> \<exists>h \<in> set as. g_id h = g_id g \<and> g_files h = g_files g" for as bs
  proof (intro ballI impI)
    fix g h assume gh: "g \<in> set bs" "h \<in> set xs" "g_id g = g_id h"
    from sim [OF gh(1)] obtain k where k: "k \<in> set as" "g_id k = g_id g" "g_files k = g_files g" by auto
    then have "acks_later k h" using * gh by simp
    then show "acks_later g h" using acks [OF k(3)] by simp
  qed
  show "(\<forall>g \<in> set gs. \<forall>h \<in> set xs. g_id g = g_id h \<longrightarrow> acks_later g h)
      = (\<forall>g \<in> set hs. \<forall>h \<in> set xs. g_id g = g_id h \<longrightarrow> acks_later g h)"
    using * [OF _ sim(1)] * [OF _ sim(2)] by blast
qed

lemma pends_sub:
  "(\<And>h. h \<in> set hs \<Longrightarrow> \<exists>g \<in> set gs. g_id g = g_id h \<and> acks g = acks h) \<Longrightarrow> pends hs i m r \<Longrightarrow> pends gs i m r"
  unfolding pends_def by (metis length_acks)

text \<open>Edits of the groups only, seen from the rest of the state.\<close>

lemma groups_edit_ok:
  assumes ok: "transfer_ok dec s" and gs: "groups_ok gs" "length gs \<le> max_groups"
    and origin: "\<And>h. h \<in> set gs \<Longrightarrow> \<exists>g \<in> set (ts_groups s). g_id g = g_id h \<and> acks g = acks h"
    and keep: "\<And>g. g \<in> set (ts_groups s) \<Longrightarrow> g_id g \<in> controlled s \<Longrightarrow> transfer_active (g_state g) \<Longrightarrow>
      \<exists>h \<in> set gs. g_id h = g_id g \<and> transfer_active (g_state h) \<and> acks h = acks g"
  shows "transfer_ok dec (set_groups gs s)"
proof -
  have jobs: "place_ok (dec (ts_saved s)) gs (tj_id j) (tj_pc j)" if "(k, j) \<in> set (ts_jobs s)" for k j
  proof -
    have "place_ok (dec (ts_saved s)) (ts_groups s) (tj_id j) (tj_pc j)"
      using ok that by (auto simp: transfer_ok_def)
    then obtain g where g: "g \<in> set (ts_groups s)" "g_id g = tj_id j" "transfer_active (g_state g)"
      "pc_ok g (tj_pc j)"
      "\<forall>m r. m < length (g_files g) \<longrightarrow> acks g ! m = (Some r, True) \<longrightarrow> relies (tj_pc j) m
         \<longrightarrow> pends (dec (ts_saved s)) (tj_id j) m r"
      by (auto simp: place_ok_def)
    have "jobs_ok s" using ok by (simp add: transfer_ok_def)
    then have "map_of (ts_controls s) (tj_id j) = Some k"
      using that by (auto simp: jobs_ok_def)
    then have "g_id g \<in> controlled s" using g(2) by (metis map_of_Some_key)
    from keep [OF g(1) this g(3)] obtain h where h: "h \<in> set gs" "g_id h = g_id g"
      "transfer_active (g_state h)" "acks h = acks g" by auto
    have len: "length (g_files h) = length (g_files g)" using h(4) by (metis length_acks)
    have "pc_ok h (tj_pc j)" using g(4) h(4) len by (cases "tj_pc j") auto
    with h g len show ?thesis by (auto simp: place_ok_def)
  qed
  have "pends (ts_groups s) i m r" if "pends gs i m r" for i m r
    using pends_sub [OF origin that] .
  moreover have "acks_later g0 h" if "h \<in> set gs" "g0 \<in> set (dec (ts_saved s)) \<union> set (dec (ts_disk s))"
      "g_id g0 = g_id h" for g0 h
    using origin [OF that(1)] ok that(2,3) unfolding transfer_ok_def by metis
  moreover have "g_id h \<in> set (ts_used s)" if "h \<in> set gs" for h
  proof -
    from origin [OF that] obtain g where "g \<in> set (ts_groups s)" "g_id g = g_id h" by auto
    with ok show ?thesis by (auto simp: transfer_ok_def)
  qed
  ultimately show ?thesis
    using ok gs jobs unfolding transfer_ok_def set_groups_def jobs_ok_def by (auto simp: image_Un)
qed

lemma map_edit_ok:
  assumes ok: "transfer_ok dec s" and f: "\<And>g. g \<in> set (ts_groups s) \<Longrightarrow> gentle (controlled s) f g"
  shows "transfer_ok dec (set_groups (map f (ts_groups s)) s)"
proof (rule groups_edit_ok [OF ok])
  have g: "groups_ok (ts_groups s)" using ok by (simp add: transfer_ok_def)
  have "map g_id (map f (ts_groups s)) = map g_id (ts_groups s)"
    using f by (auto simp: gentle_def)
  moreover have "\<forall>e \<in> set (g_files (f g)). entry_ok e" if "g \<in> set (ts_groups s)" for g
    using g f [OF that] that by (simp add: groups_ok_def gentle_def)
  ultimately show "groups_ok (map f (ts_groups s))"
    using g unfolding groups_ok_def by (metis (no_types, lifting) imageE list.set_map)
  show "length (map f (ts_groups s)) \<le> max_groups" using ok by (simp add: transfer_ok_def)
next
  fix h assume "h \<in> set (map f (ts_groups s))"
  then show "\<exists>g \<in> set (ts_groups s). g_id g = g_id h \<and> acks g = acks h"
    using f by (auto simp: gentle_def)
next
  fix g assume "g \<in> set (ts_groups s)" "g_id g \<in> controlled s" "transfer_active (g_state g)"
  then show "\<exists>h \<in> set (map f (ts_groups s)). g_id h = g_id g \<and> transfer_active (g_state h) \<and> acks h = acks g"
    using f [of g] by (auto simp: gentle_def)
qed

lemma filter_edit_ok:
  assumes ok: "transfer_ok dec s"
    and P: "\<And>g. g \<in> set (ts_groups s) \<Longrightarrow> \<not> P g \<Longrightarrow> \<not> transfer_active (g_state g) \<or> g_id g \<notin> controlled s"
  shows "transfer_ok dec (set_groups (filter P (ts_groups s)) s)"
proof (rule groups_edit_ok [OF ok])
  have "groups_ok (ts_groups s)" "length (ts_groups s) \<le> max_groups"
    using ok by (simp_all add: transfer_ok_def)
  then show "groups_ok (filter P (ts_groups s))" "length (filter P (ts_groups s)) \<le> max_groups"
    using length_filter_le [of P "ts_groups s"]
    by (auto simp: groups_ok_def distinct_map intro: inj_on_subset elim: order_trans [rotated])
qed (use P in auto)

lemma alter_edit_ok:
  assumes ok: "transfer_ok dec s"
    and f: "\<And>g. g \<in> set (ts_groups s) \<Longrightarrow> g_id g = i \<Longrightarrow> gentle (controlled s) f g"
  shows "transfer_ok dec (set_groups (alter_group i f (ts_groups s)) s)"
proof -
  have "distinct (map g_id (ts_groups s))" using ok by (simp add: transfer_ok_def groups_ok_def)
  then have "alter_group i f (ts_groups s) = map (\<lambda>g. if g_id g = i then f g else g) (ts_groups s)"
    by (rule alter_group_map)
  moreover have "gentle (controlled s) (\<lambda>g. if g_id g = i then f g else g) g" if "g \<in> set (ts_groups s)" for g
    using f [OF that] by (simp add: gentle_def)
  ultimately show ?thesis using map_edit_ok [OF ok] by simp
qed

lemma place_ok_saved:
  "place_ok saved gs i pc \<Longrightarrow> (\<And>m r. pends gs i m r \<Longrightarrow> pends saved' i m r) \<Longrightarrow> place_ok saved' gs i pc"
  unfolding place_ok_def pends_def by (metis length_acks)

lemma place_ok_over: "place_ok saved gs i pc \<Longrightarrow> place_ok saved gs i (Over r)"
  by (auto simp: place_ok_def)

lemma written_ok:
  assumes j: "journal ser deser" and ok: "transfer_ok (history deser) s"
  shows "transfer_ok (history deser) (s\<lparr>ts_saved := ser (ts_groups s), ts_disk := ser (ts_groups s)\<rparr>)"
    and "transfer_ok (history deser) (s\<lparr>ts_disk := ser (ts_groups s)\<rparr>)"
proof -
  note sig = signature_facts [OF journal_history [OF j, of "ts_groups s"]]
  have later: "\<forall>g \<in> set (ts_groups s). \<forall>h \<in> set (ts_groups s). g_id g = g_id h \<longrightarrow> acks_later g h"
    using ok group_unique by (fastforce simp: transfer_ok_def groups_ok_def)
  have place: "place_ok (history deser (ser (ts_groups s))) (ts_groups s) (tj_id j) (tj_pc j)"
    if "(k, j) \<in> set (ts_jobs s)" for k j
    using ok that sig(2) by (auto simp: transfer_ok_def intro: place_ok_saved)
  show "transfer_ok (history deser) (s\<lparr>ts_saved := ser (ts_groups s), ts_disk := ser (ts_groups s)\<rparr>)"
    using ok sig(1,2,3) sig(4) [of "ts_groups s"] later place
    by (auto simp: transfer_ok_def jobs_ok_def image_Un)
  show "transfer_ok (history deser) (s\<lparr>ts_disk := ser (ts_groups s)\<rparr>)"
    using ok sig(1,2,3) sig(4) [of "ts_groups s"] later
    by (auto simp: transfer_ok_def jobs_ok_def image_Un)
qed

lemma add_edit_ok:
  assumes ok: "transfer_ok dec s" and new: "g_id g \<notin> set (ts_used s)" "length (ts_groups s) < max_groups"
    "\<And>e. e \<in> set (g_files g) \<Longrightarrow> \<not> en_pending e"
  shows "transfer_ok dec (s\<lparr>ts_groups := g # ts_groups s, ts_used := g_id g # ts_used s\<rparr>)"
proof -
  have ids: "g_id ` (set (ts_groups s) \<union> set (dec (ts_saved s)) \<union> set (dec (ts_disk s))) \<subseteq> set (ts_used s)"
    using ok by (simp add: transfer_ok_def)
  then have fresh: "g_id g \<notin> g_id ` set (ts_groups s)" "\<And>h. h \<in> set (dec (ts_saved s)) \<union> set (dec (ts_disk s)) \<Longrightarrow> g_id h \<noteq> g_id g"
    using new(1) by force+
  have entry: "entry_ok e" if "e \<in> set (g_files g)" for e using new(3) [OF that] by (simp add: entry_ok_def)
  have "\<not> pends [g] i m r" for i m r
    using new(3) by (auto simp: pends_def acks_def)
  then have pends: "pends (g # ts_groups s) i m r = pends (ts_groups s) i m r" for i m r
    by (auto simp: pends_def)
  have place: "place_ok (dec (ts_saved s)) (g # ts_groups s) (tj_id j) (tj_pc j)" if "(k, j) \<in> set (ts_jobs s)" for k j
    using ok that by (auto simp: transfer_ok_def place_ok_def)
  show ?thesis
    using ok fresh entry new(2) pends place ids
    by (auto simp: transfer_ok_def jobs_ok_def groups_ok_def)
qed

lemma start_edit_ok:
  assumes j: "journal ser deser" and ok: "transfer_ok (history deser) s"
    and i: "i \<notin> controlled s" "length (ts_jobs s) < job_permits" "find_group i (ts_groups s) = Some g"
      "transfer_active (g_state g)" "ts_saved s = ser (ts_groups s)"
  shows "transfer_ok (history deser) (s\<lparr>ts_controls := AList.update i (ts_next s) (ts_controls s),
     ts_jobs := (ts_next s, \<lparr>tj_id = i, tj_cancelled = ts_stopping s, tj_pc = Begin\<rparr>) # ts_jobs s,
     ts_next := Suc (ts_next s)\<rparr>)"
proof -
  have jobs: "jobs_ok s" using ok by (simp add: transfer_ok_def)
  have none: "map_of (ts_controls s) i = None" using i(1) by (simp add: map_of_eq_None_iff)
  have next_free: "ts_next s \<notin> fst ` set (ts_jobs s)" using jobs by (auto simp: jobs_ok_def)
  then have free: "map_of (ts_jobs s) (ts_next s) = None" by (simp add: map_of_eq_None_iff)
  have maps: "map_of (ts_controls s) i' = Some k \<longleftrightarrow> (\<exists>j. map_of (ts_jobs s) k = Some j \<and> tj_id j = i')" for i' k
    using jobs unfolding jobs_ok_def by blast
  have other: "\<not> (\<exists>j. map_of (ts_jobs s) k = Some j \<and> tj_id j = i)" for k
    using maps [of i k] none by simp
  let ?c = "AList.update i (ts_next s) (ts_controls s)"
  let ?js = "(ts_next s, \<lparr>tj_id = i, tj_cancelled = ts_stopping s, tj_pc = Begin\<rparr>) # ts_jobs s"
  have "map_of ?c i' = Some k \<longleftrightarrow> (\<exists>j. map_of ?js k = Some j \<and> tj_id j = i')" for i' k
    using maps [of i' k] other [of k] free by (auto simp: update_conv')
  moreover have "keys_distinct ?c" "keys_distinct ?js" "length ?js \<le> job_permits"
    using jobs i(2) next_free by (simp_all add: jobs_ok_def distinct_update)
  moreover have "\<forall>(k, j) \<in> set ?js. k < Suc (ts_next s)"
    using jobs by (auto simp: jobs_ok_def less_Suc_eq)
  ultimately have new: "jobs_ok (s\<lparr>ts_controls := ?c, ts_jobs := ?js, ts_next := Suc (ts_next s)\<rparr>)"
    unfolding jobs_ok_def by simp
  have "place_ok (history deser (ts_saved s)) (ts_groups s) i Begin"
  proof -
    have "g \<in> set (ts_groups s)" "g_id g = i"
      using i(3) ok by (auto simp: find_group_Some transfer_ok_def groups_ok_def)
    moreover have "pends (history deser (ts_saved s)) = pends (ts_groups s)"
      using signature_facts(2) [OF journal_history [OF j, of "ts_groups s"]] i(5) by simp
    ultimately show ?thesis using i(4) by (fastforce simp: place_ok_def pends_def)
  qed
  then show ?thesis using ok new by (auto simp: transfer_ok_def)
qed

lemma same_jobs_keys: "same_jobs js ks \<Longrightarrow> map fst js = map fst ks"
  unfolding same_jobs_def by (drule arg_cong [of _ _ "map fst"]) (simp add: o_def split_def)

lemma same_jobs_map_of:
  "same_jobs js ks \<Longrightarrow> map_option (\<lambda>j. (tj_id j, tj_pc j)) (map_of js k) = map_option (\<lambda>j. (tj_id j, tj_pc j)) (map_of ks k)"
proof -
  assume "same_jobs js ks"
  moreover have "map_option h (map_of xs k) = map_of (map (\<lambda>(k, j). (k, h j)) xs) k"
    for h :: "transfer_job \<Rightarrow> string \<times> job_pc" and xs
    by (induction xs) auto
  ultimately show ?thesis by (simp add: same_jobs_def)
qed

lemma same_jobs_in:
  assumes "same_jobs js ks" "(k, j) \<in> set ks"
  shows "\<exists>j'. (k, j') \<in> set js \<and> tj_id j' = tj_id j \<and> tj_pc j' = tj_pc j"
proof -
  have "(k, tj_id j, tj_pc j) \<in> set (map (\<lambda>(k, j). (k, tj_id j, tj_pc j)) ks)"
    using assms(2) by force
  then have "(k, tj_id j, tj_pc j) \<in> set (map (\<lambda>(k, j). (k, tj_id j, tj_pc j)) js)"
    using assms(1) by (simp add: same_jobs_def)
  then show ?thesis by auto
qed

lemma same_jobs_length: "same_jobs js ks \<Longrightarrow> length js = length ks"
  unfolding same_jobs_def by (drule arg_cong [of _ _ length]) simp

lemma other_edit_ok:
  assumes ok: "transfer_ok dec s"
    and eq: "ts_groups t = ts_groups s" "ts_saved t = ts_saved s" "ts_disk t = ts_disk s"
      "ts_controls t = ts_controls s" "ts_used t = ts_used s" "ts_next t = ts_next s"
    and same: "same_jobs (ts_jobs s) (ts_jobs t)"
  shows "transfer_ok dec t"
proof -
  have key: "(\<exists>j. map_of (ts_jobs t) k = Some j \<and> tj_id j = i) = (\<exists>j. map_of (ts_jobs s) k = Some j \<and> tj_id j = i)" for k i
    using same_jobs_map_of [OF same, of k] by (cases "map_of (ts_jobs s) k"; cases "map_of (ts_jobs t) k") auto
  have "keys_distinct (ts_jobs t) = keys_distinct (ts_jobs s)" "length (ts_jobs t) = length (ts_jobs s)"
    using same_jobs_keys [OF same] same_jobs_length [OF same] by simp_all
  moreover have "(\<forall>(k, j) \<in> set (ts_jobs t). k < ts_next s)"
    using ok same_jobs_in [OF same] by (fastforce simp: transfer_ok_def jobs_ok_def)
  ultimately have "jobs_ok t" using ok key eq unfolding transfer_ok_def jobs_ok_def by simp
  moreover have "place_ok (dec (ts_saved s)) (ts_groups s) (tj_id j) (tj_pc j)" if "(k, j) \<in> set (ts_jobs t)" for k j
    using same_jobs_in [OF same that] ok by (fastforce simp: transfer_ok_def)
  ultimately show ?thesis using ok eq by (auto simp: transfer_ok_def)
qed

lemma own_edit_later:
  assumes "own_edit i m f gs" "g \<in> set gs" "g_id g = i"
  shows "acks_later g (alter_file m f g)"
proof (cases "m < length (g_files g)")
  case True
  then have "ack_later (acks g ! m) (en_remote (f (g_files g ! m)), en_pending (f (g_files g ! m)))"
    using assms by (simp add: own_edit_def acks_def Let_def)
  then show ?thesis
    using True by (auto simp: acks_alter_file list_all2_conv_all_nth nth_list_update)
qed (simp add: acks_alter_file)

lemma own_edit_ok:
  assumes ok: "transfer_ok dec s" and free: "unplaced i s" and f: "own_edit i m f (ts_groups s)"
  shows "transfer_ok dec (set_groups (alter_group i (alter_file m f) (ts_groups s)) s)"
proof -
  let ?f = "\<lambda>g. if g_id g = i then alter_file m f g else g"
  let ?gs = "map ?f (ts_groups s)"
  have groups: "groups_ok (ts_groups s)" using ok by (simp add: transfer_ok_def)
  then have dist: "distinct (map g_id (ts_groups s))" by (simp add: groups_ok_def)
  have step: "acks_later g (?f g)" if "g \<in> set (ts_groups s)" for g
    using own_edit_later [OF f that] by simp
  have ids: "map g_id ?gs = map g_id (ts_groups s)" by auto
  have entries: "entry_ok e" if g: "g \<in> set (ts_groups s)" and e: "e \<in> set (g_files (?f g))" for g e
  proof -
    have old: "\<forall>e \<in> set (g_files g). entry_ok e" using groups g by (simp add: groups_ok_def)
    show ?thesis
    proof (cases "g_id g = i")
      case True
      with e files_alter_file [of e m f g] consider "e \<in> set (g_files g)"
        | "m < length (g_files g)" "e = f (g_files g ! m)" by auto
      then show ?thesis
        using old f g True by cases (auto simp: own_edit_def Let_def)
    qed (use e old in simp)
  qed
  have "distinct (map g_id ?gs)" unfolding ids by (rule dist)
  then have new: "groups_ok ?gs"
    using entries unfolding groups_ok_def by auto
  have later: "acks_later g0 h"
    if "h \<in> set ?gs" "g0 \<in> set (dec (ts_saved s)) \<union> set (dec (ts_disk s))" "g_id g0 = g_id h" for g0 h
  proof -
    from that(1) obtain g where g: "g \<in> set (ts_groups s)" "h = ?f g" by auto
    then have "g_id g0 = g_id g" using that(3) by (auto split: if_splits)
    then have "acks_later g0 g" using ok g(1) that(2) unfolding transfer_ok_def by blast
    then show ?thesis using acks_later_trans step [OF g(1)] g(2) by blast
  qed
  have stale: "pends (dec (ts_disk s)) i' m' r"
    if now: "pends ?gs i' m' r" and saved: "pends (dec (ts_saved s)) i' m' r" for i' m' r
  proof -
    from now obtain g where g: "g \<in> set (ts_groups s)" "g_id g = i'" "m' < length (g_files g)"
      "acks (?f g) ! m' = (Some r, True)"
      by (auto simp: pends_def split: if_splits)
    from saved obtain g0 where g0: "g0 \<in> set (dec (ts_saved s))" "g_id g0 = i'"
      "m' < length (acks g0)" "acks g0 ! m' = (Some r, True)" by (auto simp: pends_def)
    have "acks_later g0 g" using ok g0(1,2) g(1,2) by (simp add: transfer_ok_def)
    then have "ack_later (Some r, True) (acks g ! m')" using g0(3,4) by (auto simp: list_all2_conv_all_nth)
    moreover have "ack_later (acks g ! m') (Some r, True)"
      using step [OF g(1)] g(3,4) by (auto simp: list_all2_conv_all_nth)
    ultimately have "acks g ! m' = (Some r, True)" by (cases "acks g ! m'") (auto simp: ack_later_def)
    then have "pends (ts_groups s) i' m' r" using g by (auto simp: pends_def)
    then show ?thesis using ok saved by (auto simp: transfer_ok_def)
  qed
  have place: "place_ok (dec (ts_saved s)) ?gs (tj_id j) (tj_pc j)" if j: "(k, j) \<in> set (ts_jobs s)" for k j
  proof -
    have old: "place_ok (dec (ts_saved s)) (ts_groups s) (tj_id j) (tj_pc j)"
      using ok j by (auto simp: transfer_ok_def)
    then obtain g where g: "g \<in> set (ts_groups s)" "g_id g = tj_id j" "transfer_active (g_state g)"
      "pc_ok g (tj_pc j)"
      "\<forall>m r. m < length (g_files g) \<longrightarrow> acks g ! m = (Some r, True) \<longrightarrow> relies (tj_pc j) m
         \<longrightarrow> pends (dec (ts_saved s)) (tj_id j) m r"
      by (auto simp: place_ok_def)
    have fg: "?f g \<in> set ?gs" using g(1) by simp
    show ?thesis
    proof (cases "tj_id j = i")
      case True
      then obtain r where "tj_pc j = Over r" using free j by (fastforce simp: unplaced_def)
      then show ?thesis using g fg True unfolding place_ok_def by (intro bexI [of _ "?f g"]) auto
    next
      case False
      then show ?thesis using g fg unfolding place_ok_def by (intro bexI [of _ "?f g"]) auto
    qed
  qed
  have "g_id ` set ?gs = g_id ` set (ts_groups s)" using ids by (metis image_set)
  then have "transfer_ok dec (set_groups ?gs s)"
    using ok new later stale place unfolding transfer_ok_def set_groups_def jobs_ok_def
    by (auto simp: image_Un)
  then show ?thesis by (simp add: alter_group_map [OF dist])
qed

lemma edit_step_ok:
  assumes "journal ser deser" "edit_step ser s t" "transfer_ok (history deser) s"
  shows "transfer_ok (history deser) t"
  using assms(2)
proof cases
  case (shrink P)
  then show ?thesis using filter_edit_ok [OF assms(3)] by blast
next
  case (amend f)
  then show ?thesis using map_edit_ok [OF assms(3)] by blast
next
  case (alter i f)
  then show ?thesis using alter_edit_ok [OF assms(3)] by blast
next
  case (own i m f)
  then show ?thesis using own_edit_ok [OF assms(3)] by blast
next
  case (add g)
  then show ?thesis using add_edit_ok [OF assms(3)] by blast
next
  case wrote
  then show ?thesis using written_ok(1) [OF assms(1,3)] by simp
next
  case landed
  then show ?thesis using written_ok(2) [OF assms(1,3)] by simp
next
  case (start i g)
  then show ?thesis using start_edit_ok [OF assms(1,3)] by blast
next
  case other
  then show ?thesis using other_edit_ok [OF assms(3)] by blast
qed

lemma edits_ok:
  "edits ser s t \<Longrightarrow> journal ser deser \<Longrightarrow> transfer_ok (history deser) s \<Longrightarrow> transfer_ok (history deser) t"
  by (induction rule: rtranclp_induct) (auto intro: edit_step_ok)

end
