(* ===== verification/Transfer_Steps.thy ===== *)
theory Transfer_Steps
  imports Transfer_Facts
begin

text \<open>
  Every operation of the transfer service is a sequence of primitive edits, every step of a job
  fits its next place in the loop, and so every reachable state satisfies \<open>transfer_ok\<close>.
\<close>

section \<open>Saving and starting\<close>

lemma edits_step: "edit_step ser s t \<Longrightarrow> edits ser s t"
  by (rule r_into_rtranclp)

lemma set_groups_simps [simp]:
  "ts_groups (set_groups gs s) = gs" "ts_saved (set_groups gs s) = ts_saved s"
  "ts_disk (set_groups gs s) = ts_disk s" "ts_controls (set_groups gs s) = ts_controls s"
  "ts_jobs (set_groups gs s) = ts_jobs s" "ts_next (set_groups gs s) = ts_next s"
  "ts_used (set_groups gs s) = ts_used s" "ts_stopping (set_groups gs s) = ts_stopping s"
  "ts_selection (set_groups gs s) = ts_selection s" "ts_action (set_groups gs s) = ts_action s"
  "set_groups hs (set_groups gs s) = set_groups hs s"
  by (simp_all add: set_groups_def)

lemma same_jobs_refl [simp]: "same_jobs js js"
  by (simp add: same_jobs_def)

lemma prune_edit: "edit_step ser s (set_groups (prune_groups now (ts_groups s)) s)"
  unfolding prune_groups_def by (rule edit_step.shrink) blast

lemma find_group_filter:
  "find_group i gs = Some g \<Longrightarrow> P g \<Longrightarrow> find_group i (filter P gs) = Some g"
  by (induction gs) (auto simp: find_group_def split: if_splits)

lemma find_group_alter:
  "(\<And>g. g_id (f g) = g_id g) \<Longrightarrow> find_group i (alter_group i f gs) = map_option f (find_group i gs)"
  by (induction gs) (auto simp: find_group_def)

lemma find_group_id: "find_group i gs = Some g \<Longrightarrow> g \<in> set gs \<and> g_id g = i"
  by (induction gs) (auto simp: find_group_def split: if_splits)

lemma find_group_prune:
  "find_group i gs = Some g \<Longrightarrow> transfer_active (g_state g) \<Longrightarrow> find_group i (prune_groups now gs) = Some g"
  unfolding prune_groups_def by (rule find_group_filter) auto

definition same_tasks :: "transfer_state \<Rightarrow> transfer_state \<Rightarrow> bool" where
  "same_tasks s t \<longleftrightarrow> ts_controls t = ts_controls s \<and> ts_jobs t = ts_jobs s \<and> ts_next t = ts_next s
     \<and> ts_used t = ts_used s \<and> ts_stopping t = ts_stopping s \<and> ts_selection t = ts_selection s"

lemma same_tasks_refl [simp]: "same_tasks s s"
  by (simp add: same_tasks_def)

lemma save_history_cases:
  assumes "save_history ser w s = (r, t)"
  shows "ts_groups t = prune_groups (w_now w) (ts_groups s)" "same_tasks s t" "ts_action t = ts_action s"
    "edits ser s t" "r = Inr () \<Longrightarrow> ts_saved t = ser (ts_groups t)"
proof -
  let ?s = "set_groups (prune_groups (w_now w) (ts_groups s)) s"
  note start = edits_step [OF prune_edit, of ser s "w_now w"]
  have wrote: "edits ser s (?s\<lparr>ts_saved := ser (ts_groups ?s), ts_disk := ser (ts_groups ?s)\<rparr>)"
    by (rule rtranclp.rtrancl_into_rtrancl [OF start edit_step.wrote])
  have landed: "edits ser s (?s\<lparr>ts_disk := ser (ts_groups ?s)\<rparr>)"
    by (rule rtranclp.rtrancl_into_rtrancl [OF start edit_step.landed])
  show "ts_groups t = prune_groups (w_now w) (ts_groups s)" "same_tasks s t" "ts_action t = ts_action s"
    "r = Inr () \<Longrightarrow> ts_saved t = ser (ts_groups t)"
    using assms by (auto simp: save_history_def Let_def same_tasks_def split: if_splits write_outcome.splits)
  show "edits ser s t"
    using assms start wrote landed
    by (auto simp: save_history_def Let_def split: if_splits write_outcome.splits)
qed

lemma active_start [simp]: "transfer_active (g_state (start_state w g))"
  by (simp add: start_state_def transfer_active_def)

lemma gentle_start: "gentle ctl (start_state w) g"
proof -
  have "transfer_active (g_state (start_state w g))" by simp
  then show ?thesis unfolding gentle_def by (simp add: start_state_def acks_def)
qed

lemma start_locked_edits:
  assumes "start_locked ser w i s = (r, t)"
  shows "edits ser s t"
proof -
  let ?s = "set_groups (alter_group i (start_state w) (ts_groups s)) s"
  have first: "edits ser s ?s"
    by (rule edits_step, rule edit_step.alter) (rule gentle_start)
  obtain q u where save: "save_history ser w ?s = (q, u)" by (cases "save_history ser w ?s")
  note sv = save_history_cases [OF save]
  have upto: "edits ser s u" using first sv(4) by (rule rtranclp_trans)
  show ?thesis
  proof (cases "i \<in> controlled s \<or> job_permits \<le> length (ts_jobs s) \<or> find_group i (ts_groups s) = None")
    case True
    then have "t = s"
      using assms by (cases "find_group i (ts_groups s)") (simp_all add: start_locked_def split: if_splits)
    then show ?thesis by simp
  next
    case False
    then obtain g where g: "find_group i (ts_groups s) = Some g" by auto
    have "g_id (start_state w h) = g_id h" for h by (simp add: start_state_def)
    then have "find_group i (ts_groups ?s) = Some (start_state w g)"
      using g by (simp add: find_group_alter)
    then have "find_group i (ts_groups u) = Some (start_state w g)"
      unfolding sv(1) by (rule find_group_prune) simp
    moreover have "i \<notin> controlled u" "length (ts_jobs u) < job_permits"
      using False sv(2) by (auto simp: same_tasks_def)
    ultimately have "q = Inr () \<Longrightarrow> edit_step ser u (u\<lparr>ts_controls := AList.update i (ts_next u) (ts_controls u),
       ts_jobs := (ts_next u, \<lparr>tj_id = i, tj_cancelled = ts_stopping u, tj_pc = Begin\<rparr>) # ts_jobs u,
       ts_next := Suc (ts_next u)\<rparr>)"
      using sv(5) by (intro edit_step.start) auto
    then show ?thesis
      using assms False g save upto
      by (auto simp: start_locked_def split: sum.splits intro: rtranclp.rtrancl_into_rtrancl)
  qed
qed

lemma new_group_edits:
  assumes "new_group w dir dev files s = (r, t)" "fresh_world w s" "\<And>e. e \<in> set files \<Longrightarrow> \<not> en_pending e"
  shows "edits ser s t" "ts_controls t = ts_controls s" "ts_jobs t = ts_jobs s" "ts_selection t = ts_selection s"
    "r = Inr i \<Longrightarrow> i = w_uuid w"
proof -
  let ?s = "set_groups (prune_groups (w_now w) (ts_groups s)) s"
  note start = edits_step [OF prune_edit, of ser s "w_now w"]
  have "length (ts_groups ?s) < max_groups \<Longrightarrow> edit_step ser ?s
      (?s\<lparr>ts_groups := new_transfer w dir dev files # ts_groups ?s,
          ts_used := g_id (new_transfer w dir dev files) # ts_used ?s\<rparr>)"
    using assms(2,3) by (intro edit_step.add) (auto simp: new_transfer_def fresh_world_def)
  moreover have "g_id (new_transfer w dir dev files) = w_uuid w" by (simp add: new_transfer_def)
  ultimately show "edits ser s t"
    using assms(1) start
    by (auto simp: new_group_def Let_def split: if_splits intro: rtranclp.rtrancl_into_rtrancl)
  show "ts_controls t = ts_controls s" "ts_jobs t = ts_jobs s" "ts_selection t = ts_selection s"
    "r = Inr i \<Longrightarrow> i = w_uuid w"
    using assms(1) by (auto simp: new_group_def Let_def split: if_splits)
qed

section \<open>Requests and background work\<close>

lemmas other_edit = edits_step [OF edit_step.other]

lemma saved_ok_state [simp]: "snd (saved_ok r) = snd r"
  by (cases r) (auto simp: saved_ok_def split: sum.splits)

lemma snapshot_edits: "edits ser s (snd (transfer_snapshot float w s))"
  by (simp add: transfer_snapshot_def Let_def edits_step [OF prune_edit])

lemma set_seen_gentle: "gentle ctl (\<lambda>g. if g_id g \<in> set ids then g\<lparr>g_seen := b\<rparr> else g) g"
  by (simp add: gentle_def)

lemma seen_edit: "edit_step ser s (set_groups (set_seen ids b (ts_groups s)) s)"
  unfolding set_seen_def by (rule edit_step.amend) (rule set_seen_gentle)

lemma mark_seen_edits: "edits ser s (snd (mark_seen ser w ids s))"
proof (cases "set ids \<subseteq> g_id ` set (ts_groups s)")
  case True
  let ?ids = "map g_id (filter (\<lambda>g. \<not> g_seen g \<and> g_id g \<in> set ids) (ts_groups s))"
  obtain r t where save: "save_history ser w (set_groups (set_seen ?ids True (ts_groups s)) s) = (r, t)"
    by (cases "save_history ser w (set_groups (set_seen ?ids True (ts_groups s)) s)")
  have "edits ser s t"
    using edits_step [OF seen_edit] save_history_cases(4) [OF save] by (rule rtranclp_trans)
  then show ?thesis
    using True save by (auto simp: mark_seen_def Let_def split: sum.splits
        intro: rtranclp.rtrancl_into_rtrancl seen_edit)
qed (simp add: mark_seen_def)

lemma cancel_job_same: "same_jobs (ts_jobs s) (ts_jobs (cancel_job k s))"
  by (auto simp: same_jobs_def cancel_job_def)

lemma save_edits: "edits ser s u \<Longrightarrow> edits ser s (snd (save_history ser w u))"
  using save_history_cases(4) [of ser w u] by (cases "save_history ser w u") (auto intro: rtranclp_trans)

lemma transfer_op_edits:
  assumes dist: "distinct (map g_id (ts_groups s))"
  shows "edits ser s (snd (transfer_op ser w op i s))"
proof -
  have cancel: "edits ser s (snd (cancel_transfer i s))"
  proof -
    have "edits ser s (cancel_job k s)" for k
      by (rule other_edit) (simp_all add: cancel_job_same, simp_all add: cancel_job_def)
    then show ?thesis by (auto simp: cancel_transfer_def split: option.splits)
  qed
  have retry: "edits ser s (snd (retry_transfer ser w i s))"
    by (auto simp: retry_transfer_def split: option.splits)
      (rule start_locked_edits [of ser w i s "fst (start_locked ser w i s)"]; simp)+
  have dismiss: "edits ser s (snd (dismiss_transfer i s))"
  proof -
    have "edit_step ser s (set_groups (filter (\<lambda>g. g_id g \<noteq> i) (ts_groups s)) s)"
      if "find_group i (ts_groups s) = Some g" "\<not> transfer_active (g_state g)" for g
      using that find_group_Some [OF dist, of i] group_unique [OF dist]
      by (intro edit_step.shrink) blast
    then show ?thesis by (auto simp: dismiss_transfer_def split: option.splits)
  qed
  have focus: "edits ser s (snd (focus_transfer i s))"
    by (auto simp: focus_transfer_def split: option.splits intro!: other_edit)
  let ?q = "if op = ''cancel'' then cancel_transfer i s
            else if op = ''retry'' then retry_transfer ser w i s
            else if op = ''dismiss'' then dismiss_transfer i s
            else if op = ''focus'' then focus_transfer i s
            else (Inl ''unknown-operation'', s)"
  have q: "edits ser s (snd ?q)" using cancel retry dismiss focus by simp
  obtain r u where ru: "?q = (r, u)" by (cases ?q)
  with q have "edits ser s u" by simp
  then show ?thesis
    unfolding transfer_op_def ru using save_edits [of ser s u w] by (cases r) simp_all
qed

lemma start_locked_failed: "start_locked ser w i s = (Inl e, t) \<Longrightarrow> ts_controls t = ts_controls s"
  using save_history_cases(2) by (fastforce simp: start_locked_def same_tasks_def split: if_splits option.splits prod.splits sum.splits)

lemma collect_results_in: "collect_results rs = Inr xs \<Longrightarrow> x \<in> set xs \<Longrightarrow> Inr x \<in> set rs"
  by (induction rs arbitrary: xs rule: collect_results.induct) (auto split: sum.splits)

lemma send_edits:
  assumes "fresh_world w s" "controlled s \<subseteq> set (ts_used s)"
  shows "edits ser s (snd (send_selection ser w target name s))"
proof (cases "collect_results (map (source_entry w) (ts_selection s))")
  case (Inl e)
  then show ?thesis by (simp add: send_selection_def)
next
  case entries: (Inr entries)
  have "\<not> en_pending e" if "source_entry w p = Inr e" for p e
    using that by (auto simp: source_entry_def split: sum.splits if_splits)
  then have new: "\<not> en_pending e" if "e \<in> set entries" for e
    using collect_results_in [OF entries that] by auto
  obtain r t where g: "new_group w ''outgoing'' name entries s = (r, t)" by force
  have ng: "edits ser s t" "ts_controls t = ts_controls s" "r = Inr i \<Longrightarrow> i = w_uuid w" for i
    using new_group_edits [OF g assms(1) new] by auto
  show ?thesis
  proof (cases r)
    case (Inl e)
    then show ?thesis using g entries ng(1) by (simp add: send_selection_def)
  next
    case (Inr i)
    let ?t = "set_groups (alter_group i (\<lambda>g. g\<lparr>g_target := Some target\<rparr>) (ts_groups t)) t"
    obtain q u where start: "start_locked ser w i ?t = (q, u)" by force
    have "edit_step ser t ?t" by (rule edit_step.alter) (simp add: gentle_def)
    then have st: "edits ser s ?t" using ng(1) by (rule rtranclp.rtrancl_into_rtrancl [rotated])
    have su: "edits ser s u" using st start_locked_edits [OF start] by (rule rtranclp_trans)
    have "edit_step ser u (set_groups (filter (\<lambda>g. g_id g \<noteq> i) (ts_groups u)) u)" if "q = Inl e" for e
    proof (rule edit_step.shrink)
      have "i \<notin> controlled s" using ng(3) [OF Inr] assms by (auto simp: fresh_world_def)
      then show "\<not> transfer_active (g_state h) \<or> g_id h \<notin> controlled u" if "\<not> g_id h \<noteq> i" for h
        using that start_locked_failed start \<open>q = Inl e\<close> ng(2) by fastforce
    qed
    then have fail: "edits ser s (set_groups (filter (\<lambda>g. g_id g \<noteq> i) (ts_groups u)) u)" if "q = Inl e" for e
      using su that by (blast intro: rtranclp.rtrancl_into_rtrancl)
    have clear: "edits ser s (u\<lparr>ts_selection := []\<rparr>)"
      by (rule rtranclp.rtrancl_into_rtrancl [OF su edit_step.other]) simp_all
    show ?thesis
      using entries g Inr start su fail clear ng(1)
      by (cases q) (auto simp: send_selection_def split: if_splits)
  qed
qed

lemma controlled_group:
  assumes "transfer_ok dec s" "i \<in> controlled s"
  shows "\<exists>g \<in> set (ts_groups s). g_id g = i \<and> transfer_active (g_state g)"
proof -
  obtain k where "map_of (ts_controls s) i = Some k"
    using assms(2) by (cases "map_of (ts_controls s) i") (simp_all add: map_of_eq_None_iff)
  then obtain j where "map_of (ts_jobs s) k = Some j" "tj_id j = i"
    using assms(1) unfolding transfer_ok_def jobs_ok_def by blast
  then have "(k, j) \<in> set (ts_jobs s)" "tj_id j = i" by (auto dest: map_of_SomeD)
  then have "place_ok (dec (ts_saved s)) (ts_groups s) i (tj_pc j)"
    using assms(1) by (auto simp: transfer_ok_def)
  then show ?thesis by (auto simp: place_ok_def)
qed

lemma controlled_used: "transfer_ok dec s \<Longrightarrow> controlled s \<subseteq> set (ts_used s)"
proof
  fix i assume ok: "transfer_ok dec s" and "i \<in> controlled s"
  from controlled_group [OF this] obtain g where "g \<in> set (ts_groups s)" "g_id g = i" by blast
  with ok show "i \<in> set (ts_used s)" by (auto simp: transfer_ok_def)
qed

lemma send_request_edits:
  assumes "fresh_world w s" "transfer_ok dec s"
  shows "edits ser s (snd (send_request ser clean w req s))"
  using send_edits [OF assms(1) controlled_used [OF assms(2)]]
  by (auto simp: send_request_def split: sum.splits option.splits prod.splits)

lemma dispatch_edits:
  assumes d: "dispatch_transfer ser clean float w req s = (r, t)" and fresh: "\<And>q. r = Answer q \<Longrightarrow> fresh_world w s"
    and ok: "transfer_ok dec s"
  shows "edits ser s t"
proof (cases "is_object req \<and> (\<exists>op. as_str (json_index req ''op'') = Some op)")
  case False
  then show ?thesis using d by (auto simp: dispatch_transfer_def answer_def split: if_splits option.splits)
next
  case True
  then obtain op where op: "is_object req" "json_index req ''op'' = JStr op" by auto
  have dist: "distinct (map g_id (ts_groups s))"
    using ok by (simp add: transfer_ok_def groups_ok_def)
  have select: "edits ser s (s\<lparr>ts_selection := paths\<rparr>)" for paths
    by (rule other_edit) simp_all
  consider "op = ''snapshot''" | "op = ''select''" | "op = ''send''" | "op = ''seen''"
    | "op \<notin> {''snapshot'', ''select'', ''send'', ''seen''}" by blast
  then show ?thesis
  proof cases
    case 1
    then show ?thesis
      using d op snapshot_edits [of ser s float w]
      by (auto simp: dispatch_transfer_def answer_def split: prod.splits)
  next
    case 2
    then show ?thesis
      using d op select by (auto simp: dispatch_transfer_def answer_def split: sum.splits)
  next
    case 3
    then have "t = snd (send_request ser clean w req s)" "\<exists>q. r = Answer q"
      using d op by (auto simp: dispatch_transfer_def answer_def)
    then show ?thesis using send_request_edits [OF _ ok] fresh by blast
  next
    case 4
    then show ?thesis
      using d op mark_seen_edits by (auto simp: dispatch_transfer_def answer_def split: sum.splits)
  next
    case 5
    then show ?thesis
      using d op transfer_op_edits [OF dist]
      by (auto simp: dispatch_transfer_def answer_def split: option.splits sum.splits if_splits prod.splits)
  qed
qed

lemma alter_save_edits:
  assumes "\<And>g. gentle (controlled s) f g"
  shows "edits ser s (snd (saved_ok (save_history ser w (set_groups (alter_group i f (ts_groups s)) s))))"
proof -
  have "edit_step ser s (set_groups (alter_group i f (ts_groups s)) s)"
    by (rule edit_step.alter) (rule assms)
  then show ?thesis using save_edits by (simp add: edits_step)
qed

lemma gentle_alter_file:
  assumes "\<And>e. en_remote (f e) = en_remote e \<and> en_pending (f e) = en_pending e"
    and "\<And>e. entry_ok e \<Longrightarrow> entry_ok (f e)"
  shows "gentle ctl (alter_file k f) g"
proof -
  have "acks (alter_file k f g) = acks g"
    using assms(1) by (simp add: acks_alter_file) (simp add: acks_def list_update_same_conv nth_map)
  moreover have "entry_ok e" if "\<forall>e \<in> set (g_files g). entry_ok e" "e \<in> set (g_files (alter_file k f g))" for e
    using files_alter_file [OF that(2)] that(1) assms(2) nth_mem by blast
  ultimately show ?thesis by (simp add: gentle_def)
qed

lemma file_done_edits: "edits ser s (snd (file_done ser w op i k s))"
proof -
  have "gentle (controlled s) (alter_file k (\<lambda>e. e\<lparr>en_path := p\<rparr>)) g" for p g
    by (rule gentle_alter_file) (auto simp: entry_ok_def)
  moreover have "gentle (controlled s) (alter_file k (\<lambda>e. e\<lparr>en_state := ''trashed'', en_path := []\<rparr>)) g" for g
    by (rule gentle_alter_file) (auto simp: entry_ok_def)
  ultimately show ?thesis
    using alter_save_edits by (auto simp: file_done_def split: sum.splits option.splits)
qed

lemma receive_edits:
  assumes "fresh_world w s"
  shows "edits ser s (snd (receive_one ser w remote s))"
proof -
  obtain name len where remote: "remote = (name, len)" by force
  have start: "edits ser u (snd (start_locked ser w i u))" for i u
    using start_locked_edits [of ser w i u] by (cases "start_locked ser w i u") auto
  obtain r t where new: "new_group w ''incoming'' ''Personal device'' [waiting_entry name (int len) ''pending''] s = (r, t)"
    by force
  have "edits ser s t"
    by (rule new_group_edits(1) [OF new assms]) (simp add: waiting_entry_def)
  then show ?thesis
    using start new
    by (auto simp: receive_one_def remote split: option.splits sum.splits prod.splits
        intro: rtranclp_trans) (metis rtranclp_trans snd_conv)+
qed

lemma gentle_updated: "gentle ctl f g \<Longrightarrow> gentle ctl (\<lambda>g. (f g)\<lparr>g_updated := t\<rparr>) g"
  by (simp add: gentle_def)

lemma progress_edits: "edits ser s (transfer_progress w i k n len s)"
proof -
  have "gentle ctl (alter_file k (progress_file n len)) g" for ctl g
    by (rule gentle_alter_file) (auto simp: progress_file_def entry_ok_def split: option.splits)
  then have "gentle ctl (\<lambda>g. (alter_file k (progress_file n len) g)\<lparr>g_updated := w_now w\<rparr>) g" for ctl g
    by (rule gentle_updated)
  then have "gentle ctl (\<lambda>g. if k < length (g_files g)
      then (alter_file k (progress_file n len) g)\<lparr>g_updated := w_now w\<rparr> else g) g" for ctl g
    by (simp add: gentle_def)
  then show ?thesis
    unfolding transfer_progress_def by (intro edits_step edit_step.alter) blast
qed

lemma outgoing_edits: "edits ser s (outgoing_event w v s)"
proof -
  have "acks (outgoing_group w v g) = acks g" for g
    by (simp add: outgoing_group_def acks_def)
  moreover have "entry_ok e" if "\<forall>e \<in> set (g_files g). entry_ok e" "e \<in> set (g_files (outgoing_group w v g))" for e g
    using that by (auto simp: outgoing_group_def entry_ok_def split: if_splits)
  moreover have "g_id (outgoing_group w v g) = g_id g" "g_state (outgoing_group w v g) = g_state g" for g
    by (simp_all add: outgoing_group_def)
  ultimately have "gentle ctl (outgoing_group w v) g" for ctl g by (simp add: gentle_def)
  then show ?thesis
    unfolding outgoing_event_def by (auto intro: edits_step edit_step.amend)
qed

lemma note_incoming_edits: "edits ser s (note_incoming w len bytes i s)"
proof -
  have "gentle ctl (alter_file 0 (\<lambda>e. e\<lparr>en_bytes := bytes, en_size := len\<rparr>)) g" for ctl g
    by (rule gentle_alter_file) (auto simp: entry_ok_def)
  then show ?thesis
    unfolding note_incoming_def by (auto intro!: edits_step edit_step.alter gentle_updated)
qed

lemma incoming_edits:
  assumes "fresh_world w s"
  shows "edits ser s (incoming_event w v s)"
proof (cases "as_str (json_index v ''Name'')")
  case (Some name)
  let ?len = "case as_i64 (json_index v ''DeclaredSize'') of Some k \<Rightarrow> k | None \<Rightarrow> - 1"
  obtain r t where new: "new_group w ''incoming'' ''Personal device'' [waiting_entry name ?len ''active''] s = (r, t)"
    by force
  have "edits ser s t"
    by (rule new_group_edits(1) [OF new assms]) (simp add: waiting_entry_def)
  then show ?thesis
    using Some new note_incoming_edits
    by (auto simp: incoming_event_def Let_def split: option.splits sum.splits intro: rtranclp_trans)
qed (simp add: incoming_event_def)

lemma expire_edits: "edits ser s (snd (poll_expire ser w s))"
proof -
  have "gentle (controlled s) (\<lambda>g. if lost_sender w s g then expire_group w g else g) g" for g
    by (simp add: gentle_def lost_sender_def expire_group_def acks_def)
  then have "edit_step ser s (set_groups (map (\<lambda>g. if lost_sender w s g then expire_group w g else g) (ts_groups s)) s)"
    by (intro edit_step.amend)
  then have "edits ser s (snd (save_history ser w
      (set_groups (map (\<lambda>g. if lost_sender w s g then expire_group w g else g) (ts_groups s)) s)))"
    by (intro save_edits edits_step)
  then show ?thesis
    by (auto simp: poll_expire_def Let_def split: prod.splits sum.splits)
qed

lemma shutdown_edits: "edits ser s (shutdown_service s)"
  by (rule other_edit) (auto simp: shutdown_service_def same_jobs_def)

section \<open>Places of a job\<close>

definition loosen :: "nat \<Rightarrow> transfer_state \<Rightarrow> transfer_state" where
  "loosen k s = set_pc k (Over (Inr ())) s"

lemma set_pc_simps [simp]:
  "ts_groups (set_pc k pc s) = ts_groups s" "ts_saved (set_pc k pc s) = ts_saved s"
  "ts_disk (set_pc k pc s) = ts_disk s" "ts_controls (set_pc k pc s) = ts_controls s"
  "ts_used (set_pc k pc s) = ts_used s" "ts_next (set_pc k pc s) = ts_next s"
  "ts_action (set_pc k pc s) = ts_action s"
  by (simp_all add: set_pc_def)

lemma set_pc_set_pc [simp]: "set_pc k pc (set_pc k pc' s) = set_pc k pc s"
  by (auto simp: set_pc_def intro!: arg_cong [of _ _ "\<lambda>js. s\<lparr>ts_jobs := js\<rparr>"])

lemma set_pc_groups: "set_pc k pc (set_groups gs s) = set_groups gs (set_pc k pc s)"
  by (simp add: set_pc_def set_groups_def)

lemma set_pc_save:
  "save_history ser w (set_pc k pc s) = map_prod id (set_pc k pc) (save_history ser w s)"
  by (simp add: save_history_def Let_def set_pc_groups [symmetric])
    (simp add: set_pc_def set_groups_def split: write_outcome.split)

lemma set_pc_map_of:
  "map_of (ts_jobs (set_pc k pc s)) i = map_option (\<lambda>j. if i = k then j\<lparr>tj_pc := pc\<rparr> else j) (map_of (ts_jobs s) i)"
proof -
  have "map_of (map (\<lambda>(i, j). (i, if i = k then j\<lparr>tj_pc := pc\<rparr> else j)) js) i
      = map_option (\<lambda>j. if i = k then j\<lparr>tj_pc := pc\<rparr> else j) (map_of js i)" for js :: "(nat \<times> transfer_job) list"
    by (induction js) auto
  then show ?thesis by (simp add: set_pc_def)
qed

lemma set_pc_jobs_ok: "jobs_ok s \<Longrightarrow> jobs_ok (set_pc k pc s)"
proof -
  assume ok: "jobs_ok s"
  have "map fst (ts_jobs (set_pc k pc s)) = map fst (ts_jobs s)"
    by (simp add: set_pc_def o_def split_def)
  moreover have "(\<exists>j. map_of (ts_jobs (set_pc k pc s)) n = Some j \<and> tj_id j = i)
      = (\<exists>j. map_of (ts_jobs s) n = Some j \<and> tj_id j = i)" for n i
    by (cases "map_of (ts_jobs s) n") (auto simp: set_pc_map_of)
  moreover have "length (ts_jobs (set_pc k pc s)) = length (ts_jobs s)"
    "\<forall>(n, j) \<in> set (ts_jobs (set_pc k pc s)). n < ts_next s"
    using ok by (auto simp: set_pc_def jobs_ok_def)
  ultimately show ?thesis using ok unfolding jobs_ok_def by simp
qed

text \<open>A job takes a place that fits its group.\<close>

lemma set_pc_ok:
  assumes ok: "transfer_ok dec s" and j: "map_of (ts_jobs s) k = Some j"
    and place: "place_ok (dec (ts_saved s)) (ts_groups s) (tj_id j) pc"
  shows "transfer_ok dec (set_pc k pc s)"
proof -
  have "jobs_ok s" using ok by (simp add: transfer_ok_def)
  then have dist: "keys_distinct (ts_jobs s)" by (simp add: jobs_ok_def)
  have "place_ok (dec (ts_saved s)) (ts_groups s) (tj_id x) (tj_pc x)"
    if "(n, x) \<in> set (ts_jobs (set_pc k pc s))" for n x
  proof -
    from that obtain y where y: "(n, y) \<in> set (ts_jobs s)" "x = (if n = k then y\<lparr>tj_pc := pc\<rparr> else y)"
      by (auto simp: set_pc_def)
    show ?thesis
    proof (cases "n = k")
      case True
      then have "y = j" using y(1) j dist by auto
      then show ?thesis using place y True by simp
    next
      case False
      then show ?thesis using y ok by (auto simp: transfer_ok_def)
    qed
  qed
  then show ?thesis
    using ok set_pc_jobs_ok [of s k pc] unfolding transfer_ok_def by auto
qed

lemma loosen_ok:
  assumes ok: "transfer_ok dec s"
  shows "transfer_ok dec (set_pc k (Over r) s)"
proof (cases "map_of (ts_jobs s) k")
  case None
  then have "k \<notin> fst ` set (ts_jobs s)" by (simp add: map_of_eq_None_iff)
  then have "ts_jobs (set_pc k (Over r) s) = ts_jobs s"
    unfolding set_pc_def by (simp, intro map_idI) (force split: prod.split)
  then have "set_pc k (Over r) s = s" by (simp add: set_pc_def)
  then show ?thesis using ok by simp
next
  case (Some j)
  then have "(k, j) \<in> set (ts_jobs s)" by (rule map_of_SomeD)
  then have "place_ok (dec (ts_saved s)) (ts_groups s) (tj_id j) (tj_pc j)"
    using ok by (auto simp: transfer_ok_def)
  then show ?thesis using set_pc_ok [OF ok Some] place_ok_over by blast
qed

end
