(* ===== verification/Transfer_Invariant.thy ===== *)
theory Transfer_Invariant
  imports Transfer_Steps
begin

text \<open>
  Every step of a job ends at a place that fits its group, and a deletion is only requested for a
  file whose receipt is on disk. With the operations of \<open>Transfer_Steps\<close> this gives the invariant of
  every reachable state.
\<close>

section \<open>The group of a job\<close>

lemma job_place:
  assumes ok: "transfer_ok dec s" and j: "map_of (ts_jobs s) k = Some j"
  obtains g where "find_group (tj_id j) (ts_groups s) = Some g" "transfer_active (g_state g)"
    "pc_ok g (tj_pc j)"
    "\<And>m r. m < length (g_files g) \<Longrightarrow> acks g ! m = (Some r, True) \<Longrightarrow> relies (tj_pc j) m
      \<Longrightarrow> pends (dec (ts_saved s)) (tj_id j) m r"
proof -
  have "place_ok (dec (ts_saved s)) (ts_groups s) (tj_id j) (tj_pc j)"
    using ok map_of_SomeD [OF j] by (auto simp: transfer_ok_def)
  moreover have "distinct (map g_id (ts_groups s))" using ok by (simp add: transfer_ok_def groups_ok_def)
  ultimately show thesis
    using that by (fastforce simp: place_ok_def find_group_Some)
qed

lemma place_okI:
  "find_group i gs = Some g \<Longrightarrow> transfer_active (g_state g) \<Longrightarrow> pc_ok g pc
    \<Longrightarrow> (\<And>m r. m < length (g_files g) \<Longrightarrow> acks g ! m = (Some r, True) \<Longrightarrow> relies pc m \<Longrightarrow> pends saved i m r)
    \<Longrightarrow> place_ok saved gs i pc"
  using find_group_id unfolding place_ok_def by blast

lemma unplaced_loosen:
  assumes ok: "transfer_ok dec s" and j: "map_of (ts_jobs s) k = Some j"
  shows "unplaced (tj_id j) (set_pc k (Over r) s)"
proof -
  have jobs: "jobs_ok s" using ok by (simp add: transfer_ok_def)
  have "n = k" if "(n, x) \<in> set (ts_jobs s)" "tj_id x = tj_id j" for n x
  proof -
    have "keys_distinct (ts_jobs s)" using jobs by (simp add: jobs_ok_def)
    then have "map_of (ts_jobs s) n = Some x" using that(1) by (rule map_of_is_SomeI)
    with jobs that(2) have "map_of (ts_controls s) (tj_id j) = Some n" unfolding jobs_ok_def by metis
    moreover from jobs j have "map_of (ts_controls s) (tj_id j) = Some k" unfolding jobs_ok_def by metis
    ultimately show ?thesis by simp
  qed
  then show ?thesis
    unfolding unplaced_def set_pc_def by clarsimp
qed

text \<open>The region of a job on its own file.\<close>

lemma edit_file_cases:
  assumes "edit_file ser saves w i m f s = (q, u)" "find_group i (ts_groups s) = Some g"
    "transfer_active (g_state g)"
  shows "find_group i (ts_groups u) = Some (alter_file m f g)" "ts_jobs u = ts_jobs s"
    "q = Inr () \<Longrightarrow> saves \<Longrightarrow> ts_saved u = ser (ts_groups u)"
    "q = Inl e \<Longrightarrow> ts_saved u = ts_saved s \<and> fatal_error e"
    "\<not> saves \<Longrightarrow> q = Inr () \<and> ts_saved u = ts_saved s"
proof -
  let ?s = "set_groups (alter_group i (alter_file m f) (ts_groups s)) s"
  have alter: "find_group i (ts_groups ?s) = Some (alter_file m f g)"
    using assms(2) by (simp add: find_group_alter)
  have e: "edit_file ser saves w i m f s = (if saves then save_history ser w ?s else (Inr (), ?s))"
    using assms(2) by (simp add: edit_file_def)
  show "find_group i (ts_groups u) = Some (alter_file m f g)"
  proof (cases saves)
    case True
    then have save: "save_history ser w ?s = (q, u)" using assms(1) e by simp
    then show ?thesis
      using save_history_cases(1) [OF save] alter assms(3) by (simp add: find_group_prune)
  qed (use assms(1) e alter in auto)
  have "ts_jobs u = ts_jobs s \<and> (q = Inr () \<longrightarrow> saves \<longrightarrow> ts_saved u = ser (ts_groups u))"
  proof (cases saves)
    case True
    then have save: "save_history ser w ?s = (q, u)" using assms(1) e by simp
    show ?thesis using save_history_cases(2,5) [OF save] by (auto simp: same_tasks_def)
  next
    case False
    then have "u = ?s" using assms(1) e by simp
    then show ?thesis using False by simp
  qed
  then show "ts_jobs u = ts_jobs s" "q = Inr () \<Longrightarrow> saves \<Longrightarrow> ts_saved u = ser (ts_groups u)"
    by simp_all
  show "q = Inl e \<Longrightarrow> ts_saved u = ts_saved s \<and> fatal_error e"
    using assms(1) unfolding e
    by (cases saves) (auto simp: save_history_def Let_def fatal_error_def split: if_splits write_outcome.splits)
  show "\<not> saves \<Longrightarrow> q = Inr () \<and> ts_saved u = ts_saved s" using assms(1) e by auto
qed

lemma set_pc_edit_file:
  "edit_file ser saves w i m f (set_pc k pc s) = map_prod id (set_pc k pc) (edit_file ser saves w i m f s)"
  by (simp add: edit_file_def Let_def set_pc_groups [symmetric] set_pc_save split: option.split)

lemma edit_file_ok:
  assumes jr: "journal ser deser" and ok: "transfer_ok (history deser) s"
    and j: "map_of (ts_jobs s) k = Some j" and edit: "edit_file ser saves w (tj_id j) m f s = (q, u)"
    and own: "own_edit (tj_id j) m f (ts_groups s)"
  shows "transfer_ok (history deser) (set_pc k (Over (Inr ())) u)"
proof -
  let ?s = "set_pc k (Over (Inr ())) s" and ?i = "tj_id j"
  let ?t = "set_groups (alter_group ?i (alter_file m f) (ts_groups ?s)) ?s"
  have "edit_step ser ?s ?t"
    by (rule edit_step.own [OF unplaced_loosen [OF ok j]]) (simp add: own)
  then have t: "edits ser ?s ?t" by (rule edits_step)
  have e: "edit_file ser saves w ?i m f ?s = (q, set_pc k (Over (Inr ())) u)"
    by (simp add: set_pc_edit_file edit)
  then have "edits ser ?s (set_pc k (Over (Inr ())) u)"
    using t save_edits [OF t, of w]
    by (auto simp: edit_file_def Let_def split: option.splits if_splits)
  then show ?thesis using edits_ok [OF _ jr loosen_ok [OF ok]] by blast
qed

lemma own_editI:
  assumes "distinct (map g_id gs)" "find_group i gs = Some g"
    "m < length (g_files g) \<Longrightarrow> ack_later (acks g ! m) (en_remote (f (g_files g ! m)), en_pending (f (g_files g ! m)))"
    "m < length (g_files g) \<Longrightarrow> entry_ok (g_files g ! m) \<Longrightarrow> entry_ok (f (g_files g ! m))"
  shows "own_edit i m f gs"
proof -
  have "h = g" if "h \<in> set gs" "g_id h = i" for h
    using that assms(1,2) find_group_id group_unique by metis
  then show ?thesis using assms(3,4) by (auto simp: own_edit_def acks_def Let_def)
qed

section \<open>Steps of a job\<close>

text \<open>What a region has to show: the state is fine with the job placed at \<open>pc\<close>, and what it asks the
  provider to delete is on disk.\<close>

definition region_ok :: "(string \<Rightarrow> tgroup list option) \<Rightarrow> nat \<Rightarrow> string \<Rightarrow> job_pc \<times> transfer_state \<times> transfer_effect list \<Rightarrow> bool" where
  "region_ok deser k i r = (case r of (pc, t, effs) \<Rightarrow>
     transfer_ok (history deser) (set_pc k pc t)
     \<and> (\<forall>r. Forget r \<in> set effs \<longrightarrow> (\<exists>m. pends (history deser (ts_disk t)) i m r)))"

lemma region_okI:
  assumes ok: "transfer_ok (history deser) (set_pc k (Over q) t)" and j: "map_of (ts_jobs t) k = Some j"
    and g: "find_group (tj_id j) (ts_groups t) = Some g" "transfer_active (g_state g)" "pc_ok g pc"
      "\<And>m r. m < length (g_files g) \<Longrightarrow> acks g ! m = (Some r, True) \<Longrightarrow> relies pc m
        \<Longrightarrow> pends (history deser (ts_saved t)) (tj_id j) m r"
    and effs: "\<And>r. Forget r \<in> set effs \<Longrightarrow> \<exists>m. m < length (g_files g) \<and> acks g ! m = (Some r, True) \<and> relies pc m"
  shows "region_ok deser k (tj_id j) (pc, t, effs)"
proof -
  let ?j = "j\<lparr>tj_pc := Over q\<rparr>"
  have "map_of (ts_jobs (set_pc k (Over q) t)) k = Some ?j" using j by (simp add: set_pc_map_of)
  moreover have "place_ok (history deser (ts_saved t)) (ts_groups t) (tj_id ?j) pc"
    using g by (intro place_okI) auto
  ultimately have "transfer_ok (history deser) (set_pc k pc t)"
    using set_pc_ok [OF ok, of k ?j pc] by simp
  moreover have "\<exists>m. pends (history deser (ts_disk t)) (tj_id j) m r" if "Forget r \<in> set effs" for r
  proof -
    from effs [OF that] obtain m where m: "m < length (g_files g)" "acks g ! m = (Some r, True)" "relies pc m" by auto
    have "pends (ts_groups t) (tj_id j) m r" using g(1) m(1,2) find_group_id by (auto simp: pends_def)
    then have "pends (history deser (ts_disk t)) (tj_id j) m r"
      using ok g(4) [OF m] by (auto simp: transfer_ok_def)
    then show ?thesis ..
  qed
  ultimately show ?thesis by (simp add: region_ok_def)
qed

text \<open>A region that changes neither the groups nor the history.\<close>

lemma region_same:
  assumes ok: "transfer_ok (history deser) s" and j: "map_of (ts_jobs s) k = Some j"
    and g: "find_group (tj_id j) (ts_groups s) = Some g" and pc: "pc_ok g pc"
      "\<And>m r. m < length (g_files g) \<Longrightarrow> acks g ! m = (Some r, True) \<Longrightarrow> relies pc m \<Longrightarrow> relies (tj_pc j) m"
    and effs: "\<And>r. Forget r \<in> set effs \<Longrightarrow> \<exists>m. m < length (g_files g) \<and> acks g ! m = (Some r, True) \<and> relies pc m"
  shows "region_ok deser k (tj_id j) (pc, s, effs)"
proof -
  obtain h where h: "find_group (tj_id j) (ts_groups s) = Some h" "transfer_active (g_state h)"
    "\<And>m r. m < length (g_files h) \<Longrightarrow> acks h ! m = (Some r, True) \<Longrightarrow> relies (tj_pc j) m
      \<Longrightarrow> pends (history deser (ts_saved s)) (tj_id j) m r"
    using job_place [OF ok j] by metis
  then have "h = g" using g by simp
  with h show ?thesis
    using pc effs by (intro region_okI [OF loosen_ok [OF ok] j g]) auto
qed

text \<open>A region that edits its own file; \<open>q\<close> tells whether the history was saved after it.\<close>

lemma region_edit:
  assumes jr: "journal ser deser" and ok: "transfer_ok (history deser) s"
    and j: "map_of (ts_jobs s) k = Some j" and edit: "edit_file ser saves w (tj_id j) m f s = (q, u)"
    and g: "find_group (tj_id j) (ts_groups s) = Some g" "m < length (g_files g)"
    and own: "ack_later (acks g ! m) (en_remote (f (g_files g ! m)), en_pending (f (g_files g ! m)))"
      "entry_ok (g_files g ! m) \<Longrightarrow> entry_ok (f (g_files g ! m))"
    and pc: "pc_ok (alter_file m f g) pc"
    and rel: "saves \<and> q = Inr () \<or> (\<forall>n. relies pc n \<longrightarrow> relies (tj_pc j) n)
       \<and> (en_pending (f (g_files g ! m)) \<longrightarrow> \<not> relies pc m \<or> en_pending (g_files g ! m) \<and> en_remote (f (g_files g ! m)) = en_remote (g_files g ! m))"
    and effs: "\<And>r. Forget r \<in> set effs \<Longrightarrow> en_remote (f (g_files g ! m)) = Some r
       \<and> en_pending (f (g_files g ! m)) \<and> relies pc m"
  shows "region_ok deser k (tj_id j) (pc, u, effs)"
proof -
  have dist: "distinct (map g_id (ts_groups s))" using ok by (simp add: transfer_ok_def groups_ok_def)
  obtain h where h: "find_group (tj_id j) (ts_groups s) = Some h" "transfer_active (g_state h)"
    "\<And>m r. m < length (g_files h) \<Longrightarrow> acks h ! m = (Some r, True) \<Longrightarrow> relies (tj_pc j) m
      \<Longrightarrow> pends (history deser (ts_saved s)) (tj_id j) m r"
    using job_place [OF ok j] by metis
  with g have [simp]: "h = g" by simp
  note ef = edit_file_cases [OF edit g(1) h(2) [simplified]]
  have own': "own_edit (tj_id j) m f (ts_groups s)"
    by (rule own_editI [OF dist g(1)]) (use own in auto)
  have u: "transfer_ok (history deser) (set_pc k (Over (Inr ())) u)"
    by (rule edit_file_ok [OF jr ok j edit own'])
  have x: "acks (alter_file m f g) ! m = (en_remote (f (g_files g ! m)), en_pending (f (g_files g ! m)))"
    using g(2) by (simp add: acks_alter_file)
  have saved: "pends (history deser (ts_saved u)) (tj_id j) n r"
    if n: "n < length (g_files (alter_file m f g))" "acks (alter_file m f g) ! n = (Some r, True)" "relies pc n" for n r
  proof (cases "saves \<and> q = Inr ()")
    case True
    then have "ts_saved u = ser (ts_groups u)" using ef(3) by simp
    then have "pends (history deser (ts_saved u)) = pends (ts_groups u)"
      using signature_facts(2) [OF journal_history [OF jr, of "ts_groups u"]] by simp
    then show ?thesis
      using find_group_id [OF ef(1)] n(1,2) by (auto simp: pends_def intro!: bexI [of _ "alter_file m f g"])
  next
    case False
    then have same: "ts_saved u = ts_saved s"
      using ef(4) ef(5) by (cases q) auto
    from False rel have r: "relies (tj_pc j) n" "en_pending (f (g_files g ! m)) \<longrightarrow> \<not> relies pc m
        \<or> en_pending (g_files g ! m) \<and> en_remote (f (g_files g ! m)) = en_remote (g_files g ! m)"
      using n(3) by auto
    have "acks g ! n = (Some r, True)"
    proof (cases "n = m")
      case True
      then show ?thesis using n(2,3) r(2) x g(2) by (auto simp: acks_def)
    qed (use n(2) g(2) in \<open>simp add: acks_alter_file\<close>)
    then show ?thesis using h(3) [of n r] n(1) r(1) same by simp
  qed
  have ju: "map_of (ts_jobs u) k = Some j" using ef(2) j by simp
  show ?thesis
  proof (rule region_okI [OF u ju ef(1)])
    show "transfer_active (g_state (alter_file m f g))" using h(2) by simp
    show "pc_ok (alter_file m f g) pc" by (rule pc)
    show "\<exists>n. n < length (g_files (alter_file m f g)) \<and> acks (alter_file m f g) ! n = (Some r, True) \<and> relies pc n"
      if "Forget r \<in> set effs" for r
      using effs [OF that] x g(2) by (intro exI [of _ m]) simp
  qed (rule saved)
qed

lemma acks_nth: "m < length (g_files g) \<Longrightarrow> acks g ! m = (en_remote (g_files g ! m), en_pending (g_files g ! m))"
  by (simp add: acks_def)

lemma acknowledging_ok:
  assumes jr: "journal ser deser" and ok: "transfer_ok (history deser) s"
    and j: "map_of (ts_jobs s) k = Some j" and pc: "tj_pc j = At_stage (Acknowledging r) p"
  shows "region_ok deser k (tj_id j) (job_stage ser clean w j (Acknowledging r) p s)"
proof -
  obtain g where g: "find_group (tj_id j) (ts_groups s) = Some g" "pc_ok g (tj_pc j)"
    using job_place [OF ok j] by metis
  then have p: "pl_count p = length (g_files g)" "pl_index p < length (g_files g)" using pc by simp_all
  show ?thesis
  proof (cases "w_done w")
    case (Inl e)
    then show ?thesis using region_same [OF ok j g(1), of "Over (Inl e)" "[]"] by simp
  next
    case (Inr v)
    obtain q u where e: "edit_file ser True w (tj_id j) (pl_index p) acknowledged_file s = (q, u)" by force
    note region = region_edit [OF jr ok j e g(1) p(2)]
    have "region_ok deser k (tj_id j) (Over (Inl x), u, [])" for x
      by (rule region) (simp_all add: acknowledged_file_def ack_later_def entry_ok_def)
    moreover have "region_ok deser k (tj_id j) (Next_file (pl_count p) (Suc (pl_index p)), u, [])" if "q = Inr ()"
      by (rule region) (use that p in \<open>simp_all add: acknowledged_file_def ack_later_def entry_ok_def\<close>)
    ultimately show ?thesis using Inr e by (cases q) (simp_all add: then_pc_def)
  qed
qed

lemma receiving_ok:
  assumes jr: "journal ser deser" and ok: "transfer_ok (history deser) s"
    and j: "map_of (ts_jobs s) k = Some j" and pc: "tj_pc j = At_stage (Receiving r) p"
  shows "region_ok deser k (tj_id j) (job_stage ser clean w j (Receiving r) p s)"
proof -
  obtain g where g: "find_group (tj_id j) (ts_groups s) = Some g" "pc_ok g (tj_pc j)"
    using job_place [OF ok j] by metis
  then have p: "pl_count p = length (g_files g)" "pl_index p < length (g_files g)"
    "en_remote (g_files g ! pl_index p) = Some r" "\<not> en_pending (g_files g ! pl_index p)"
    "en_remote (place_file p) = Some r"
    using pc by (auto simp: acks_nth)
  show ?thesis
  proof (cases "w_received w")
    case (Inl e)
    then show ?thesis
      using region_same [OF ok j g(1), of "At_stage (Failing e) p" "[]"] pc p by (simp add: acks_nth)
  next
    case (Inr v)
    obtain path len where v: "v = (path, len)" by force
    obtain q u where e: "edit_file ser True w (tj_id j) (pl_index p) (received_file path len) s = (q, u)" by force
    note region = region_edit [OF jr ok j e g(1) p(2)]
    have fail: "region_ok deser k (tj_id j) (At_stage (Failing x) p, u, [])" for x
      by (rule region) (use p pc in \<open>simp_all add: received_file_def ack_later_def entry_ok_def acks_alter_file acks_nth\<close>)
    have forget: "region_ok deser k (tj_id j) (At_stage (Forgetting r) p, u, [Forget r])" if "q = Inr ()"
      by (rule region) (use that p pc in \<open>simp_all add: received_file_def ack_later_def entry_ok_def acks_alter_file acks_nth\<close>)
    show ?thesis
      using Inr v e fail forget by (cases q) (simp_all add: ask_forget_def)
  qed
qed

lemma forgetting_ok:
  assumes jr: "journal ser deser" and ok: "transfer_ok (history deser) s"
    and j: "map_of (ts_jobs s) k = Some j" and pc: "tj_pc j = At_stage (Forgetting r) p"
  shows "region_ok deser k (tj_id j) (job_stage ser clean w j (Forgetting r) p s)"
proof -
  obtain g where g: "find_group (tj_id j) (ts_groups s) = Some g" "pc_ok g (tj_pc j)" "transfer_active (g_state g)"
    using job_place [OF ok j] by metis
  then have p: "pl_count p = length (g_files g)" "pl_index p < length (g_files g)"
    "acks g ! pl_index p = (Some r, True)"
    using pc by auto
  show ?thesis
  proof (cases "w_done w")
    case (Inl e)
    then show ?thesis
      using region_same [OF ok j g(1), of "At_stage (Failing e) p" "[]"] pc p by simp
  next
    case (Inr v)
    obtain q u where e: "edit_file ser False w (tj_id j) (pl_index p) forgotten_file s = (q, u)" by force
    have q: "q = Inr ()" using edit_file_cases(5) [OF e g(1,3)] by simp
    have "region_ok deser k (tj_id j) (At_stage Settling p, u, [])"
      by (rule region_edit [OF jr ok j e g(1) p(2)])
        (use p pc in \<open>simp_all add: forgotten_file_def ack_later_def entry_ok_def acks_alter_file\<close>)
    then show ?thesis using Inr e q by (simp add: then_pc_def)
  qed
qed

lemma settling_ok:
  assumes jr: "journal ser deser" and ok: "transfer_ok (history deser) s"
    and j: "map_of (ts_jobs s) k = Some j" and pc: "tj_pc j = At_stage Settling p"
  shows "region_ok deser k (tj_id j) (job_stage ser clean w j Settling p s)"
proof -
  obtain g where g: "find_group (tj_id j) (ts_groups s) = Some g" "pc_ok g (tj_pc j)" "transfer_active (g_state g)"
    using job_place [OF ok j] by metis
  then have p: "pl_count p = length (g_files g)" "pl_index p < length (g_files g)"
    "\<not> en_pending (g_files g ! pl_index p)"
    using pc by (auto simp: acks_nth)
  obtain q u where e: "edit_file ser True w (tj_id j) (pl_index p) settled_file s = (q, u)" by force
  note region = region_edit [OF jr ok j e g(1) p(2)]
  note facts = settled_file_def ack_later_def entry_ok_def acks_alter_file acks_nth
  show ?thesis
  proof (cases q)
    case (Inl x)
    then have "fatal_error x" using edit_file_cases(4) [OF e g(1,3)] by simp
    then have "region_ok deser k (tj_id j) (At_stage (Failing x) p, u, [])"
      by (intro region) (use p pc in \<open>simp_all add: facts\<close>)
    then show ?thesis using Inl e by (simp add: then_pc_def)
  next
    case (Inr v)
    then have "region_ok deser k (tj_id j) (Next_file (pl_count p) (Suc (pl_index p)), u, [])"
      by (intro region) (use p pc in \<open>simp_all add: facts\<close>)
    then show ?thesis using Inr e by (simp add: then_pc_def)
  qed
qed

text \<open>A region that edits its group and leaves the receipts alone.\<close>

lemma region_gentle:
  assumes jr: "journal ser deser" and ok: "transfer_ok (history deser) s"
    and j: "map_of (ts_jobs s) k = Some j" and g: "find_group (tj_id j) (ts_groups s) = Some g"
    and gentle: "gentle (controlled s) f g" "\<And>h. g_id (f h) = g_id h" "transfer_active (g_state (f g))"
    and pc: "pc_ok (f g) pc" "\<And>m r. relies pc m \<Longrightarrow> acks g ! m = (Some r, True) \<Longrightarrow> relies (tj_pc j) m"
    and effs: "\<And>r. Forget r \<notin> set effs"
  shows "region_ok deser k (tj_id j) (pc, set_groups (alter_group (tj_id j) f (ts_groups s)) s, effs)"
proof -
  let ?t = "set_groups (alter_group (tj_id j) f (ts_groups s)) s"
  have dist: "distinct (map g_id (ts_groups s))" using ok by (simp add: transfer_ok_def groups_ok_def)
  obtain h where h: "find_group (tj_id j) (ts_groups s) = Some h" "transfer_active (g_state h)"
    "\<And>m r. m < length (g_files h) \<Longrightarrow> acks h ! m = (Some r, True) \<Longrightarrow> relies (tj_pc j) m
      \<Longrightarrow> pends (history deser (ts_saved s)) (tj_id j) m r"
    using job_place [OF ok j] by metis
  with g have [simp]: "h = g" by simp
  have "edit_step ser s ?t"
  proof (rule edit_step.alter)
    fix x assume "x \<in> set (ts_groups s)" "g_id x = tj_id j"
    then have "x = g" using find_group_id [OF g] group_unique [OF dist] by metis
    then show "gentle (controlled s) f x" using gentle(1) by simp
  qed
  then have t: "transfer_ok (history deser) ?t" using edit_step_ok [OF jr _ ok] by blast
  have len: "acks (f g) = acks g" "length (g_files (f g)) = length (g_files g)"
    using gentle(1) by (auto simp: gentle_def dest: arg_cong [of _ _ length])
  show ?thesis
  proof (rule region_okI [OF loosen_ok [OF t]])
    show "find_group (tj_id j) (ts_groups ?t) = Some (f g)"
      using g gentle(2) by (simp add: find_group_alter)
  qed (use j gentle(3) pc h effs len in auto)
qed

lemma attempting_ok:
  assumes jr: "journal ser deser" and ok: "transfer_ok (history deser) s"
    and j: "map_of (ts_jobs s) k = Some j" and pc: "tj_pc j = At_stage Attempting p"
  shows "region_ok deser k (tj_id j) (job_stage ser clean w j Attempting p s)"
proof -
  obtain g where g: "find_group (tj_id j) (ts_groups s) = Some g" "pc_ok g (tj_pc j)"
    using job_place [OF ok j] by metis
  then have p: "pl_count p = length (g_files g)" "pl_index p < length (g_files g)"
    "\<not> en_pending (g_files g ! pl_index p)" "en_remote (g_files g ! pl_index p) = en_remote (place_file p)"
    using pc by (auto simp: acks_nth)
  show ?thesis
  proof (cases "tj_cancelled j")
    case True
    then show ?thesis using region_same [OF ok j g(1), of "Over (Inl ''cancelled'')" "[]"] by simp
  next
    case False
    let ?f = "attempt_group (pl_index p)"
    obtain pc' effs where first: "first_request p = (pc', effs)" by force
    have acks: "acks (?f g) = acks g"
      using p(2) by (simp add: attempt_group_def acks_alter_file)
        (simp add: acks_def attempted_file_def list_update_same_conv)
    have active: "transfer_active (g_state (?f h))" for h
      by (simp add: attempt_group_def transfer_active_def)
    have entries: "entry_ok e" if "\<forall>e \<in> set (g_files g). entry_ok e" "e \<in> set (g_files (?f g))" for e
      using that(1) files_alter_file [OF that(2) [unfolded attempt_group_def]] p(3)
      by (auto simp: entry_ok_def attempted_file_def)
    have "gentle (controlled s) ?f g"
      unfolding gentle_def using acks active entries by (auto simp: attempt_group_def)
    moreover have "pc_ok (?f g) pc'" "\<And>m. relies pc' m \<Longrightarrow> relies (tj_pc j) m" "\<And>r. Forget r \<notin> set effs"
      using first p pc acks
      by (auto simp: first_request_def attempt_group_def acks_nth fatal_error_def
          split: option.splits if_splits)
    ultimately have "region_ok deser k (tj_id j) (pc', set_groups (alter_group (tj_id j) ?f (ts_groups s)) s, effs)"
      using active by (intro region_gentle [OF jr ok j g(1)]) (auto simp: attempt_group_def)
    then show ?thesis using False g(1) first by simp
  qed
qed

lemma failing_ok:
  assumes jr: "journal ser deser" and ok: "transfer_ok (history deser) s"
    and j: "map_of (ts_jobs s) k = Some j" and pc: "tj_pc j = At_stage (Failing err) p"
  shows "region_ok deser k (tj_id j) (job_stage ser clean w j (Failing err) p s)"
proof -
  obtain g where g: "find_group (tj_id j) (ts_groups s) = Some g" "pc_ok g (tj_pc j)"
    using job_place [OF ok j] by metis
  let ?e = "g_files g ! pl_index p"
  have p: "pl_count p = length (g_files g)" "pl_index p < length (g_files g)"
    "en_pending ?e \<or> fatal_error err \<or> en_remote ?e = en_remote (place_file p)"
    using g pc by (auto simp: acks_nth)
  show ?thesis
  proof (cases "tj_cancelled j")
    case True
    then show ?thesis
      using region_same [OF ok j g(1), of "Over (Inl ''cancelled'')" "[]"] by (simp add: at_failure_def)
  next
    case False
    let ?f = "\<lambda>g. (alter_file (pl_index p) (failed_file err) g)\<lparr>g_state := ''retrying''\<rparr>"
    let ?pc = "if en_pending ?e \<or> pl_attempt p = 2 \<or> fatal_error err then Over (Inl err) else At_stage Sleeping p"
    have acks: "acks (?f g) = acks g"
      using p(2) by (simp add: acks_alter_file) (simp add: acks_def failed_file_def list_update_same_conv)
    have entries: "entry_ok e" if "\<forall>e \<in> set (g_files g). entry_ok e" "e \<in> set (g_files (?f g))" for e
      using that(1) files_alter_file [of e "pl_index p" "failed_file err" g] that(2)
      by (auto simp: entry_ok_def failed_file_def split: if_splits)
    have "gentle (controlled s) ?f g"
      unfolding gentle_def using acks entries by (auto simp: transfer_active_def)
    moreover have "pc_ok (?f g) ?pc" using p acks by (auto simp: acks_nth)
    moreover have "relies (tj_pc j) m" if "relies ?pc m" "acks g ! m = (Some r, True)" for m r
      using that p pc by (auto simp: acks_nth split: if_splits)
    ultimately have "region_ok deser k (tj_id j) (?pc, set_groups (alter_group (tj_id j) ?f (ts_groups s)) s, [])"
      by (intro region_gentle [OF jr ok j g(1)]) (auto simp: transfer_active_def)
    then show ?thesis using False g(1) by (simp add: at_failure_def)
  qed
qed

lemma job_stage_ok:
  assumes jr: "journal ser deser" and ok: "transfer_ok (history deser) s"
    and j: "map_of (ts_jobs s) k = Some j" and pc: "tj_pc j = At_stage st p"
  shows "region_ok deser k (tj_id j) (job_stage ser clean w j st p s)"
proof (cases st)
  case (Acknowledging r)
  then show ?thesis using acknowledging_ok [OF jr ok j] pc by blast
next
  case Attempting
  then show ?thesis using attempting_ok [OF jr ok j] pc by blast
next
  case (Receiving r)
  then show ?thesis using receiving_ok [OF jr ok j] pc by blast
next
  case (Forgetting r)
  then show ?thesis using forgetting_ok [OF jr ok j] pc by blast
next
  case Settling
  then show ?thesis using settling_ok [OF jr ok j] pc by blast
next
  case (Failing err)
  then show ?thesis using failing_ok [OF jr ok j] pc by blast
next
  case Resolving
  obtain g where g: "find_group (tj_id j) (ts_groups s) = Some g" "pc_ok g (tj_pc j)"
    using job_place [OF ok j] by metis
  obtain pc' effs where ask: "ask_put clean w p = (pc', effs)" by force
  have "pc_ok g pc'" "\<And>m. relies pc' m \<Longrightarrow> relies (tj_pc j) m" "\<And>r. Forget r \<notin> set effs"
    using ask g(2) pc Resolving
    by (auto simp: ask_put_def Let_def split: option.splits sum.splits if_splits)
  then have "region_ok deser k (tj_id j) (pc', s, effs)"
    by (intro region_same [OF ok j g(1)]) auto
  then show ?thesis using Resolving ask by simp
next
  case Sending
  obtain g where g: "find_group (tj_id j) (ts_groups s) = Some g" "pc_ok g (tj_pc j)"
    using job_place [OF ok j] by metis
  then have "region_ok deser k (tj_id j) (At_stage (Failing e) p, s, [])" for e
    using pc Sending by (intro region_same [OF ok j g(1)]) auto
  moreover have "region_ok deser k (tj_id j) (At_stage Settling p, s, [])"
    using g pc Sending by (intro region_same [OF ok j g(1)]) auto
  ultimately show ?thesis using Sending by (simp split: sum.split)
next
  case Sleeping
  obtain g where g: "find_group (tj_id j) (ts_groups s) = Some g" "pc_ok g (tj_pc j)"
    using job_place [OF ok j] by metis
  then have "region_ok deser k (tj_id j) (At_stage Attempting (p\<lparr>pl_attempt := Suc (pl_attempt p)\<rparr>), s, [])"
    using pc Sleeping by (intro region_same [OF ok j g(1)]) (auto simp: place_file_def)
  then show ?thesis using Sleeping by simp
qed

lemma next_file_ok:
  assumes ok: "transfer_ok (history deser) s" and j: "map_of (ts_jobs s) k = Some j"
    and pc: "tj_pc j = Next_file n m" and nf: "next_file n m (tj_id j) s = (pc', effs)"
  shows "region_ok deser k (tj_id j) (pc', s, effs)"
proof -
  obtain g where g: "find_group (tj_id j) (ts_groups s) = Some g" "pc_ok g (tj_pc j)"
    using job_place [OF ok j] by metis
  then have n: "n = length (g_files g)" using pc by simp
  show ?thesis
  proof (rule region_same [OF ok j g(1)])
    show "pc_ok g pc'" "\<And>m r. relies pc' m \<Longrightarrow> relies (tj_pc j) m"
      using nf g(1) n pc by (auto simp: next_file_def Let_def ask_forget_def place_file_def acks_nth
          split: if_splits option.splits)
    show "\<exists>x. x < length (g_files g) \<and> acks g ! x = (Some r, True) \<and> relies pc' x" if "Forget r \<in> set effs" for r
      using nf g(1) n that by (intro exI [of _ m]) (auto simp: next_file_def Let_def ask_forget_def acks_nth
          split: if_splits option.splits)
  qed
qed

text \<open>The end of a job: its control goes first, then nothing relies on its group.\<close>

lemma remove_job_ok:
  assumes ok: "transfer_ok dec s" and j: "map_of (ts_jobs s) k = Some j"
  shows "transfer_ok dec (drop_job k (s\<lparr>ts_controls := AList.delete (tj_id j) (ts_controls s)\<rparr>))"
proof -
  have jobs: "jobs_ok s" using ok by (simp add: transfer_ok_def)
  have mine: "map_of (ts_controls s) (tj_id j) = Some k" using jobs j unfolding jobs_ok_def by metis
  have "map_of (AList.delete (tj_id j) (ts_controls s)) i = Some n
      \<longleftrightarrow> (\<exists>x. map_of (AList.delete k (ts_jobs s)) n = Some x \<and> tj_id x = i)" for i n
  proof -
    have "map_of (ts_controls s) i = Some n \<longleftrightarrow> (\<exists>x. map_of (ts_jobs s) n = Some x \<and> tj_id x = i)"
      using jobs unfolding jobs_ok_def by metis
    then show ?thesis using mine j by (auto simp: delete_conv')
  qed
  moreover have "length (AList.delete k (ts_jobs s)) \<le> job_permits"
    using jobs length_delete_le [of k "ts_jobs s"] by (simp add: jobs_ok_def)
  moreover have "\<forall>(n, x) \<in> set (AList.delete k (ts_jobs s)). n < ts_next s"
    using jobs by (auto simp: jobs_ok_def AList.delete_eq)
  ultimately have "jobs_ok (drop_job k (s\<lparr>ts_controls := AList.delete (tj_id j) (ts_controls s)\<rparr>))"
    using jobs unfolding jobs_ok_def
    by (simp add: drop_job_def distinct_delete)
  moreover have "set (AList.delete k (ts_jobs s)) \<subseteq> set (ts_jobs s)"
    by (auto simp: AList.delete_eq)
  ultimately show ?thesis using ok unfolding transfer_ok_def drop_job_def by fastforce
qed

lemma save_tasks:
  "save_history ser w (set_groups gs (s\<lparr>ts_controls := c, ts_jobs := js\<rparr>))
    = map_prod id (\<lambda>s. s\<lparr>ts_controls := c, ts_jobs := js\<rparr>) (save_history ser w (set_groups gs s))"
  by (simp add: save_history_def Let_def split: write_outcome.split) (simp add: set_groups_def)

lemma close_job_ok:
  assumes jr: "journal ser deser" and ok: "transfer_ok (history deser) s"
    and j: "map_of (ts_jobs s) k = Some j" and close: "close_job ser w k j r s = (t, effs)"
  shows "transfer_ok (history deser) t \<and> (\<forall>x. Forget x \<notin> set effs)"
proof -
  obtain g where g: "find_group (tj_id j) (ts_groups s) = Some g"
    using job_place [OF ok j] by metis
  let ?c = "AList.delete (tj_id j) (ts_controls s)" and ?js = "AList.delete k (ts_jobs s)"
  let ?f = "closed_group w (tj_cancelled j) r"
  let ?u = "s\<lparr>ts_controls := ?c, ts_jobs := ?js\<rparr>"
  have u: "transfer_ok (history deser) ?u"
    using remove_job_ok [OF ok j] by (simp add: drop_job_def)
  have "tj_id j \<notin> controlled ?u" by (auto simp: AList.delete_eq)
  moreover have "g_id (?f h) = g_id h" "g_files (?f h) = g_files h" for h
    by (auto simp: closed_group_def split: sum.split)
  ultimately have "edit_step ser ?u (set_groups (alter_group (tj_id j) ?f (ts_groups ?u)) ?u)"
    by (intro edit_step.alter) (auto simp: gentle_def acks_def)
  then have e: "edits ser ?u (snd (save_history ser w (set_groups (alter_group (tj_id j) ?f (ts_groups ?u)) ?u)))"
    by (intro save_edits edits_step)
  obtain q v where save: "save_history ser w (set_groups (alter_group (tj_id j) ?f (ts_groups s)) s) = (q, v)" by force
  have frame: "ts_controls v = ts_controls s" "ts_jobs v = ts_jobs s"
    using save_history_cases(2) [OF save] by (simp_all add: same_tasks_def)
  have "save_history ser w (set_groups (alter_group (tj_id j) ?f (ts_groups ?u)) ?u)
      = (q, v\<lparr>ts_controls := ?c, ts_jobs := ?js\<rparr>)"
    using save by (simp add: save_tasks)
  with e have v: "edits ser ?u (v\<lparr>ts_controls := ?c, ts_jobs := ?js\<rparr>)" by simp
  have err: "edit_step ser (v\<lparr>ts_controls := ?c, ts_jobs := ?js\<rparr>) (v\<lparr>ts_error := x, ts_controls := ?c, ts_jobs := ?js\<rparr>)" for x
    by (rule edit_step.other) simp_all
  have "edits ser ?u t"
    using close g save frame v err
    by (cases q) (auto simp: close_job_def Let_def drop_job_def intro: rtranclp.rtrancl_into_rtrancl)
  then have "transfer_ok (history deser) t" using edits_ok [OF _ jr u] by blast
  moreover have "Forget x \<notin> set effs" for x
    using close g by (auto simp: close_job_def Let_def close_notice_def split: if_splits)
  ultimately show ?thesis by blast
qed

definition forgets_safe :: "(string \<Rightarrow> tgroup list option) \<Rightarrow> transfer_effect list \<Rightarrow> transfer_state \<Rightarrow> bool" where
  "forgets_safe deser effs t \<longleftrightarrow> (\<forall>r. Forget r \<in> set effs \<longrightarrow> (\<exists>i m. pends (history deser (ts_disk t)) i m r))"

lemma job_step_ok:
  assumes jr: "journal ser deser" and ok: "transfer_ok (history deser) s"
    and j: "map_of (ts_jobs s) k = Some j" and step: "job_step ser clean w k j s = (t, effs)"
  shows "transfer_ok (history deser) t \<and> forgets_safe deser effs t"
proof (cases "tj_pc j")
  case Begin
  obtain g where g: "find_group (tj_id j) (ts_groups s) = Some g"
    using job_place [OF ok j] by metis
  have "region_ok deser k (tj_id j) (Next_file (length (g_files g)) 0, s, [])"
    by (rule region_same [OF ok j g]) (simp_all add: Begin)
  then show ?thesis using step g Begin by (auto simp: job_step_def region_ok_def forgets_safe_def)
next
  case (Next_file n m)
  obtain pc effs' where nf: "next_file n m (tj_id j) s = (pc, effs')" by force
  have "region_ok deser k (tj_id j) (pc, s, effs')" by (rule next_file_ok [OF ok j Next_file nf])
  then show ?thesis using step nf Next_file by (fastforce simp: job_step_def region_ok_def forgets_safe_def)
next
  case (At_stage st p)
  obtain pc u effs' where st: "job_stage ser clean w j st p s = (pc, u, effs')"
    by (cases "job_stage ser clean w j st p s")
  have "region_ok deser k (tj_id j) (pc, u, effs')"
    using job_stage_ok [OF jr ok j At_stage, of clean w] st by simp
  then show ?thesis using step st At_stage by (fastforce simp: job_step_def region_ok_def forgets_safe_def)
next
  case (Over r)
  then show ?thesis
    using step close_job_ok [OF jr ok j, of w r t effs] by (auto simp: job_step_def forgets_safe_def)
qed

section \<open>Every reachable state\<close>

lemma transfer_ok_action: "transfer_ok dec s \<Longrightarrow> transfer_ok dec (s\<lparr>ts_action := a\<rparr>)"
  by (rule other_edit_ok) (simp_all add: same_jobs_def)

lemma file_request_effect: "file_request w op i req s = Inr (k, eff) \<Longrightarrow> (\<exists>p d. eff = Move p d) \<or> (\<exists>o' p. eff = Desktop o' p)"
  by (auto simp: file_request_def split: sum.splits option.splits if_splits)

lemma dispatch_effect:
  "dispatch_transfer ser clean float w req s = (Action op i k eff, t) \<Longrightarrow> Forget r \<noteq> eff"
  by (auto simp: dispatch_transfer_def answer_def split: if_splits option.splits sum.splits prod.splits
      dest: file_request_effect)

text \<open>A step is a job's, the end of a cancelled job, or a sequence of edits that asks for no deletion.\<close>

lemma transfer_step_kinds:
  assumes ok: "transfer_ok dec s" and step: "transfer_step ser clean float s effs t"
  obtains (edits) u a where "edits ser s u" "t = u\<lparr>ts_action := a\<rparr>" "\<And>r. Forget r \<notin> set effs"
  | (job) w k j where "map_of (ts_jobs s) k = Some j" "job_step ser clean w k j s = (t, effs)"
  | (dropped) k where "t = set_pc k (Over (Inl ''cancelled'')) s" "effs = []"
proof -
  have keep: thesis if "edits ser s t" "\<And>r. Forget r \<notin> set effs"
    by (rule edits [of t "ts_action t"]) (use that in auto)
  from step show thesis
  proof cases
    case (request w req r)
    then have "edits ser s t" by (intro dispatch_edits [OF request(4) _ ok]) auto
    then show ?thesis using keep request by simp
  next
    case (action w req op i k eff u)
    then have "edits ser s u" by (intro dispatch_edits [OF action(4) _ ok]) auto
    then show ?thesis by (rule edits) (use action dispatch_effect in fastforce)+
  next
    case (acted op i k w r u)
    then show ?thesis using edits [of u None] file_done_edits [of ser s w op i k] by simp
  next
    case (receive w remote r)
    then show ?thesis using receive_edits [of w s ser remote] keep by simp
  next
    case (targets w ts)
    have "edits ser s t" unfolding targets by (rule other_edit) (simp_all add: poll_targets_def)
    then show ?thesis using keep targets by simp
  next
    case (expire w)
    moreover have "Forget r \<notin> set effs" for r
      using expire by (auto simp: poll_expire_def Let_def split: prod.splits sum.splits)
    ultimately show ?thesis using keep expire_edits [of ser s w] by simp
  next
    case (expire_failed w e)
    then show ?thesis using expire_edits [of ser s w] keep by simp
  next
    case (pass_failed e)
    have "edits ser s t" unfolding pass_failed by (rule other_edit) (simp_all add: poll_failed_def)
    then show ?thesis using keep pass_failed by simp
  qed (use keep job dropped progress_edits outgoing_edits incoming_edits shutdown_edits in simp_all)
qed

lemma transfer_step_ok:
  assumes jr: "journal ser deser" and ok: "transfer_ok (history deser) s"
    and step: "transfer_step ser clean float s effs t"
  shows "transfer_ok (history deser) t \<and> forgets_safe deser effs t"
  using ok step
proof (cases rule: transfer_step_kinds)
  case (edits u a)
  then show ?thesis using edits_ok [OF edits(1) jr ok] transfer_ok_action by (simp add: forgets_safe_def)
next
  case (job w k j)
  then show ?thesis using job_step_ok [OF jr ok] by blast
next
  case (dropped k)
  then show ?thesis using loosen_ok [OF ok] by (simp add: forgets_safe_def)
qed

lemma restore_groups_ok:
  assumes "restore_groups uuid deser file = Inr gs" "\<And>b. file = Some b \<Longrightarrow> groups_ok (history deser b)"
  shows "groups_ok gs \<and> length gs \<le> max_groups"
proof -
  have "g_id (interrupt g) = g_id g" "g_files (interrupt g) = g_files g" for g
    by (simp_all add: interrupt_def)
  then have "groups_ok (map interrupt hs) = groups_ok hs" for hs
    by (simp add: groups_ok_def o_def)
  moreover obtain hs where "gs = map interrupt hs" "length hs \<le> max_groups" "groups_ok hs"
    using assms by (fastforce simp: restore_groups_def history_def groups_ok_def split: option.splits if_splits list.splits)
  ultimately show ?thesis by simp
qed

lemma new_service_ok:
  assumes jr: "journal ser deser" and new: "new_service ser uuid deser w file = Inr s"
    and left: "\<And>b. file = Some b \<Longrightarrow> groups_ok (history deser b)"
  shows "transfer_ok (history deser) s"
proof -
  obtain gs where gs: "restore_groups uuid deser file = Inr gs"
    using new by (auto simp: new_service_def split: sum.splits)
  let ?s = "empty_state (case file of Some b \<Rightarrow> b | None \<Rightarrow> []) gs"
  obtain v where save: "save_history ser w ?s = (Inr v, s)"
    using new gs by (auto simp: new_service_def split: prod.splits sum.splits)
  let ?hs = "prune_groups (w_now w) gs"
  have "ser ?hs \<noteq> []" using jr by (simp add: journal_def)
  then have s: "ts_groups s = ?hs" "ts_saved s = ser ?hs" "ts_disk s = ser ?hs" "ts_controls s = []"
    "ts_jobs s = []" "ts_used s = map g_id gs"
    using save by (auto simp: save_history_def Let_def empty_state_def set_groups_def split: if_splits write_outcome.splits)
  have hs: "groups_ok ?hs" "length ?hs \<le> max_groups" "set ?hs \<subseteq> set gs"
    using restore_groups_ok [OF gs left] length_filter_le [of _ gs]
    by (auto simp: groups_ok_def prune_groups_def distinct_map intro: inj_on_subset elim: order_trans [rotated])
  note sig = signature_facts [OF journal_history [OF jr, of ?hs]]
  have "acks_later g0 g" if "g0 \<in> set ?hs" "g \<in> set ?hs" "g_id g0 = g_id g" for g0 g
    using hs(1) that group_unique by (fastforce simp: groups_ok_def)
  then show ?thesis
    using hs sig(1,2,3) sig(4) [of ?hs]
    by (auto simp: transfer_ok_def s jobs_ok_def image_Un)
qed

lemma transfer_reach_ok:
  assumes "journal ser deser"
  shows "transfer_reach ser uuid deser clean float s \<Longrightarrow> transfer_ok (history deser) s"
proof (induction rule: transfer_reach.induct)
  case (created w s)
  then show ?case by (rule new_service_ok [OF assms]) simp
next
  case (restarted s w t)
  then show ?case by (intro new_service_ok [OF assms restarted(2)]) (auto simp: transfer_ok_def)
next
  case (stepped s effs t)
  then show ?case using transfer_step_ok [OF assms] by blast
qed

end
