(* ===== verification/Transfer_Theorems.thy ===== *)
theory Transfer_Theorems
  imports Transfer_Invariant "HOL-Library.Countable"
begin

text \<open>
  The properties of the transfer service, over every interleaving of requests, jobs, provider
  events and restarts, and the witnesses of the ones with hypotheses.
\<close>

section \<open>Invariants and durability\<close>

text \<open>C17: In every reachable state identifiers are distinct, at most eight jobs run and at most 4096
  transfers are kept; a transfer has a control exactly if one job works on it, and it is shown
  as active for as long as the job runs.\<close>

theorem transfers_invariant:
  assumes "journal ser deser" "transfer_reach ser uuid deser clean float s"
  shows "distinct (map g_id (ts_groups s)) \<and> length (ts_jobs s) \<le> 8 \<and> length (ts_groups s) \<le> 4096
    \<and> (\<forall>i k. map_of (ts_controls s) i = Some k \<longleftrightarrow> (\<exists>j. map_of (ts_jobs s) k = Some j \<and> tj_id j = i))
    \<and> (\<forall>k j. map_of (ts_jobs s) k = Some j \<longrightarrow>
         (\<exists>g. find_group (tj_id j) (ts_groups s) = Some g \<and> transfer_active (g_state g)))"
proof -
  have ok: "transfer_ok (history deser) s" by (rule transfer_reach_ok [OF assms])
  then have "jobs_ok s" by (simp add: transfer_ok_def)
  moreover have "\<exists>g. find_group (tj_id j) (ts_groups s) = Some g \<and> transfer_active (g_state g)"
    if "map_of (ts_jobs s) k = Some j" for k j
    using job_place [OF ok that] by metis
  ultimately show ?thesis
    using ok unfolding transfer_ok_def groups_ok_def jobs_ok_def job_permits_def max_groups_def by blast
qed

text \<open>A received file is deleted at the provider only while its receipt is on disk: whenever a
  deletion is requested, the history file, as a restart would read it, records the file as
  received with the deletion outstanding, so no crash can lose it or receive it twice.\<close>

theorem forget_is_journalled:
  assumes "journal ser deser" "transfer_reach ser uuid deser clean float s"
    "transfer_step ser clean float s effs t" "Forget r \<in> set effs"
  shows "\<exists>gs g e. deser (ts_disk t) = Some gs \<and> g \<in> set gs \<and> e \<in> set (g_files g)
    \<and> en_remote e = Some r \<and> en_pending e \<and> en_state e \<in> {''completed'', ''trashed''}"
proof -
  have ok: "transfer_ok (history deser) s" by (rule transfer_reach_ok [OF assms(1,2)])
  then have t: "transfer_ok (history deser) t" "forgets_safe deser effs t"
    using transfer_step_ok [OF assms(1) ok assms(3)] by blast+
  then obtain i m where "pends (history deser (ts_disk t)) i m r"
    using assms(4) by (auto simp: forgets_safe_def)
  then obtain g where g: "g \<in> set (history deser (ts_disk t))" "m < length (g_files g)"
    "acks g ! m = (Some r, True)" by (auto simp: pends_def)
  let ?e = "g_files g ! m"
  have e: "?e \<in> set (g_files g)" "en_remote ?e = Some r" "en_pending ?e" using g by (auto simp: acks_nth)
  moreover have "entry_ok ?e" using t(1) g(1) e(1) by (auto simp: transfer_ok_def groups_ok_def)
  moreover obtain gs where "deser (ts_disk t) = Some gs" "g \<in> set gs"
    using g(1) by (cases "deser (ts_disk t)") (auto simp: history_def)
  ultimately show ?thesis unfolding entry_ok_def by blast
qed

section \<open>Uploads\<close>

lemma collect_put: "ask_put clean w p = (pc, effs) \<Longrightarrow> Put d path i \<in> set effs \<Longrightarrow>
    g_target (pl_group p) = Some d \<and> (\<exists>ts m. provider_targets clean w = Inr ts
      \<and> (\<exists>v \<in> set ts. json_index v ''id'' = JStr d) \<and> w_source w path = Inr m \<and> i = Some m
      \<and> fi_size m = nat (max 0 (en_size (place_file p))) \<and> en_identity (place_file p) \<in> {None, Some m})"
  by (auto simp: ask_put_def Let_def split: option.splits sum.splits if_splits)

lemma map_filter_in: "y \<in> set (List.map_filter f xs) \<Longrightarrow> \<exists>x \<in> set xs. f x = Some y"
  by (auto simp: List.map_filter_def)

text \<open>The provider's replies list \<open>d\<close> as an online device of the user who owns this one.\<close>

definition own_online :: "world \<Rightarrow> string \<Rightarrow> bool" where
  "own_online w d \<longleftrightarrow> (\<exists>status xs e. w_status w = Inr status \<and> w_file_targets w = Inr (JArr xs) \<and> e \<in> set xs
    \<and> json_index (json_index e ''Node'') ''StableID'' = JStr d
    \<and> json_index (json_index e ''Node'') ''User'' = json_index (json_index status ''Self'') ''UserID''
    \<and> json_index (json_index status ''Self'') ''UserID'' \<noteq> JNull
    \<and> json_index (json_index e ''Node'') ''Online'' = JBool True)"

lemma target_of_Some:
  assumes "target_of clean owner e = Some v" "json_index v ''id'' = JStr d"
  shows "json_index (json_index e ''Node'') ''StableID'' = JStr d \<and> json_index (json_index e ''Node'') ''User'' = owner
    \<and> json_index (json_index e ''Node'') ''Online'' = JBool True"
proof -
  obtain i where i: "json_index (json_index e ''Node'') ''StableID'' = JStr i"
    using assms(1) by (cases "as_str (json_index (json_index e ''Node'') ''StableID'')") (simp_all add: target_of_def Let_def)
  moreover have "json_index v ''id'' = JStr i"
  proof -
    have "\<exists>name. v = json_obj [(''id'', JStr i), (''name'', name)]"
      using assms(1) i by (simp add: target_of_def Let_def split: if_splits) blast
    then show ?thesis by (auto simp: json_index_def)
  qed
  ultimately show ?thesis
    using assms by (auto simp: target_of_def Let_def split: if_splits)
qed

lemma provider_target_own:
  assumes "provider_targets clean w = Inr ts" "v \<in> set ts" "json_index v ''id'' = JStr d"
  shows "own_online w d"
proof -
  obtain status where st: "w_status w = Inr status"
    using assms(1) by (auto simp: provider_targets_def split: sum.splits)
  let ?owner = "json_index (json_index status ''Self'') ''UserID''"
  have own: "?owner \<noteq> JNull" using assms(1,2) st by (auto simp: provider_targets_def Let_def split: if_splits)
  obtain u where u: "w_file_targets w = Inr u"
    using assms(1) st own by (auto simp: provider_targets_def Let_def split: sum.splits)
  have "ts = List.map_filter (target_of clean ?owner) (take 4096 (case as_array u of Some xs \<Rightarrow> xs | None \<Rightarrow> []))"
    using assms(1) st own u by (simp add: provider_targets_def Let_def)
  with assms(2) have "v \<in> set (List.map_filter (target_of clean ?owner)
      (take 4096 (case as_array u of Some xs \<Rightarrow> xs | None \<Rightarrow> [])))" by simp
  from map_filter_in [OF this] obtain e where
    e: "e \<in> set (take 4096 (case as_array u of Some xs \<Rightarrow> xs | None \<Rightarrow> []))" "target_of clean ?owner e = Some v"
    by blast
  then obtain xs where xs: "u = JArr xs" "e \<in> set xs"
    by (cases "as_array u") (auto dest: in_set_takeD)
  show ?thesis
    unfolding own_online_def using target_of_Some [OF e(2) assms(3)] st u own xs by blast
qed

lemma job_put:
  assumes "job_step ser clean w k j s = (t, effs)" "Put d path i \<in> set effs"
  shows "\<exists>p pc. tj_pc j = At_stage Resolving p \<and> ask_put clean w p = (pc, effs)"
proof (cases "tj_pc j")
  case (At_stage st p)
  then show ?thesis
    using assms
    by (cases st) (auto simp: job_step_def then_pc_def ask_forget_def first_request_def at_failure_def
        split: sum.splits option.splits prod.splits if_splits)
qed (use assms in \<open>auto simp: job_step_def next_file_def Let_def ask_forget_def close_job_def close_notice_def
        split: option.splits prod.splits if_splits\<close>)

lemma dispatch_put: "dispatch_transfer ser clean float w req s = (Action op i k eff, t) \<Longrightarrow> Put d p m \<noteq> eff"
  by (auto simp: dispatch_transfer_def answer_def split: if_splits option.splits sum.splits prod.splits
      dest: file_request_effect)

text \<open>C18: A file is uploaded only to the device its transfer was addressed to, only while the provider
  lists that device as online and of the same user, and only if the opened file is the one that
  was chosen: same size and, where recorded, same identity.\<close>

theorem upload_checked:
  assumes "transfer_step ser clean float s effs t" "Put d path i \<in> set effs"
  shows "\<exists>k j p w m. map_of (ts_jobs s) k = Some j \<and> tj_pc j = At_stage Resolving p
    \<and> g_target (pl_group p) = Some d
    \<and> w_source w path = Inr m \<and> i = Some m \<and> fi_size m = nat (max 0 (en_size (place_file p)))
    \<and> en_identity (place_file p) \<in> {None, Some m} \<and> own_online w d"
  using assms(1)
proof cases
  case (job k j w)
  then obtain p pc where p: "tj_pc j = At_stage Resolving p" "ask_put clean w p = (pc, effs)"
    using assms(2) job_put by metis
  from collect_put [OF p(2) assms(2)] obtain ts m v where *: "g_target (pl_group p) = Some d"
    "provider_targets clean w = Inr ts" "v \<in> set ts" "json_index v ''id'' = JStr d"
    "w_source w path = Inr m" "i = Some m" "fi_size m = nat (max 0 (en_size (place_file p)))"
    "en_identity (place_file p) \<in> {None, Some m}" by blast
  show ?thesis using job(1) p(1) * provider_target_own [OF *(2-4)] by blast
next
  case (action w req op i' k eff u)
  then show ?thesis using assms(2) dispatch_put by fastforce
next
  case (expire w)
  then show ?thesis using assms(2) by (auto simp: poll_expire_def Let_def split: prod.splits sum.splits)
qed (use assms(2) in auto)

section \<open>A job ends\<close>

fun stage_rank :: "stage \<Rightarrow> nat" where
  "stage_rank Attempting = 6"
| "stage_rank Resolving = 5"
| "stage_rank (Receiving r) = 5"
| "stage_rank Sending = 4"
| "stage_rank (Forgetting r) = 4"
| "stage_rank Settling = 3"
| "stage_rank (Failing e) = 2"
| "stage_rank Sleeping = 1"
| "stage_rank (Acknowledging r) = 1"

text \<open>An upper bound on the regions a job still runs, given its place; three attempts for each file.\<close>

fun pc_rank :: "job_pc \<Rightarrow> nat" where
  "pc_rank (Over r) = 0"
| "pc_rank Begin = 0"
| "pc_rank (Next_file n k) = 1 + (n - k) * 21"
| "pc_rank (At_stage st p) = 1 + (pl_count p - Suc (pl_index p)) * 21 + (2 - pl_attempt p) * 7 + stage_rank st"

fun pc_bounded :: "job_pc \<Rightarrow> bool" where
  "pc_bounded (At_stage st p) = (pl_index p < pl_count p \<and> pl_attempt p \<le> 2 \<and> (st = Sleeping \<longrightarrow> pl_attempt p \<le> 1))"
| "pc_bounded _ = True"

lemma job_stage_rank:
  assumes "job_stage ser clean w j st p s = (pc, t, effs)" "pc_bounded (At_stage st p)"
  shows "pc_bounded pc \<and> pc \<noteq> Begin \<and> pc_rank pc < pc_rank (At_stage st p) \<and> ts_jobs t = ts_jobs s"
proof -
  have edit: "ts_jobs u = ts_jobs s" if "edit_file ser b w i k f s = (q, u)" for b i k f q u
    using that save_history_cases(2) [of ser w _ q u]
    by (fastforce simp: edit_file_def Let_def same_tasks_def split: option.splits if_splits)
  show ?thesis
    using assms
    by (cases st) (auto simp: then_pc_def ask_forget_def first_request_def ask_put_def Let_def at_failure_def
        set_groups_def split: sum.splits option.splits prod.splits if_splits dest: edit)
qed

definition paces :: "transfer_state \<Rightarrow> bool" where
  "paces s \<longleftrightarrow> (\<forall>(k, j) \<in> set (ts_jobs s). pc_bounded (tj_pc j))"

lemma paces_at: "paces s \<Longrightarrow> map_of (ts_jobs s) k = Some j \<Longrightarrow> pc_bounded (tj_pc j)"
  by (auto simp: paces_def dest: map_of_SomeD)

lemma paces_set_pc: "paces s \<Longrightarrow> pc_bounded pc \<Longrightarrow> paces (set_pc k pc s)"
  by (auto simp: paces_def set_pc_def)

lemma paces_sub: "paces s \<Longrightarrow> set (ts_jobs t) \<subseteq> set (ts_jobs s) \<Longrightarrow> paces t"
  by (auto simp: paces_def)

lemma edits_paces: "edits ser s t \<Longrightarrow> paces s \<Longrightarrow> paces t"
proof (induction rule: rtranclp_induct)
  case (step t u)
  have "pc_bounded (tj_pc j)" if "same_jobs js ks" "(k, j) \<in> set ks"
    "\<forall>(k, j) \<in> set js. pc_bounded (tj_pc j)" for js ks k j
  proof -
    have "(k, tj_id j, tj_pc j) \<in> set (map (\<lambda>(k, j). (k, tj_id j, tj_pc j)) js)"
      using that(1,2) unfolding same_jobs_def by force
    then show ?thesis using that(3) by auto
  qed
  note same = this
  from step(2) show ?case
    by cases (use step(3,4) same in \<open>auto simp: paces_def\<close>)
qed

lemma next_file_bounded: "next_file n m i s = (pc, effs) \<Longrightarrow> pc_bounded pc \<and> pc \<noteq> Begin \<and> pc_rank pc < pc_rank (Next_file n m)"
  by (auto simp: next_file_def Let_def ask_forget_def split: if_splits option.splits)

lemma close_job_jobs: "close_job ser w k j r s = (t, effs) \<Longrightarrow> set (ts_jobs t) \<subseteq> set (ts_jobs s)"
  using save_history_cases(2) [of ser w]
  by (fastforce simp: close_job_def Let_def drop_job_def same_tasks_def AList.delete_eq
      split: option.splits prod.splits sum.splits)

lemma job_step_paces:
  assumes "job_step ser clean w k j s = (t, effs)" "pc_bounded (tj_pc j)" "paces s"
  shows "paces t"
proof (cases "tj_pc j")
  case (At_stage st p)
  obtain pc u effs' where st: "job_stage ser clean w j st p s = (pc, u, effs')"
    by (cases "job_stage ser clean w j st p s")
  then have "t = set_pc k pc u" using assms(1) At_stage by (simp add: job_step_def)
  moreover have "paces u" by (rule paces_sub [OF assms(3)]) (use job_stage_rank [OF st] assms(2) At_stage in simp)
  ultimately show ?thesis using job_stage_rank [OF st] assms(2) At_stage by (simp add: paces_set_pc)
next
  case (Next_file n m)
  obtain pc effs' where "next_file n m (tj_id j) s = (pc, effs')" by force
  then show ?thesis using assms(1,3) Next_file next_file_bounded by (auto simp: job_step_def intro: paces_set_pc)
next
  case (Over r)
  then show ?thesis using assms(1,3) close_job_jobs by (simp add: job_step_def) (metis paces_sub)
qed (use assms in \<open>auto simp: job_step_def paces_set_pc split: option.splits\<close>)

lemma reach_paces:
  assumes jr: "journal ser deser"
  shows "transfer_reach ser uuid deser clean float s \<Longrightarrow> paces s"
proof (induction rule: transfer_reach.induct)
  case (stepped s effs t)
  from transfer_reach_ok [OF jr stepped(1)] stepped(2) show ?case
  proof (cases rule: transfer_step_kinds)
    case (edits u a)
    then show ?thesis using edits_paces [OF edits(1) stepped.IH] by (simp add: paces_def)
  next
    case (job w k j)
    then show ?thesis using job_step_paces paces_at stepped.IH by blast
  next
    case (dropped k)
    then show ?thesis using stepped.IH by (simp add: paces_set_pc)
  qed
qed (auto simp: paces_def new_service_def empty_state_def same_tasks_def dest!: save_history_cases(2)
    split: sum.splits prod.splits)

text \<open>C19: A job comes to its end: it works on each file at most three times, every region of its own
  brings it closer to \<open>Over\<close> by a bounded rank, and the last one removes the job and its control
  and leaves the transfer completed, failed or cancelled.\<close>

theorem job_terminates:
  assumes "journal ser deser" "transfer_reach ser uuid deser clean float s"
    "map_of (ts_jobs s) k = Some j" "job_step ser clean w k j s = (t, effs)"
  shows "(\<exists>pc. map_of (ts_jobs t) k = Some (j\<lparr>tj_pc := pc\<rparr>) \<and> pc_bounded pc \<and> pc \<noteq> Begin
      \<and> (tj_pc j = Begin \<or> pc_rank pc < pc_rank (tj_pc j)))
    \<or> (\<exists>r. tj_pc j = Over r) \<and> map_of (ts_jobs t) k = None \<and> map_of (ts_controls t) (tj_id j) = None
      \<and> (\<forall>g. find_group (tj_id j) (ts_groups t) = Some g
           \<longrightarrow> g_state g \<in> {''completed'', ''failed'', ''cancelled''})"
proof -
  have ok: "transfer_ok (history deser) s" by (rule transfer_reach_ok [OF assms(1,2)])
  obtain g where g: "find_group (tj_id j) (ts_groups s) = Some g" using job_place [OF ok assms(3)] by metis
  have paced: "pc_bounded (tj_pc j)" by (rule paces_at [OF reach_paces [OF assms(1,2)] assms(3)])
  have moved: "map_of (ts_jobs (set_pc k pc u)) k = Some (j\<lparr>tj_pc := pc\<rparr>)" if "ts_jobs u = ts_jobs s" for pc u
    using that assms(3) by (simp add: set_pc_map_of)
  show ?thesis
  proof (cases "tj_pc j")
    case Begin
    then have "t = set_pc k (Next_file (length (g_files g)) 0) s" using assms(4) g by (simp add: job_step_def)
    then show ?thesis using moved [of s] Begin by auto
  next
    case (Next_file n m)
    obtain pc effs' where nf: "next_file n m (tj_id j) s = (pc, effs')" by force
    then have "t = set_pc k pc s" using assms(4) Next_file by (simp add: job_step_def)
    then show ?thesis using moved [of s pc] next_file_bounded [OF nf] Next_file by auto
  next
    case (At_stage st p)
    obtain pc u effs' where st: "job_stage ser clean w j st p s = (pc, u, effs')"
      by (cases "job_stage ser clean w j st p s")
    then have "t = set_pc k pc u" using assms(4) At_stage by (simp add: job_step_def)
    then show ?thesis using job_stage_rank [OF st] paced At_stage moved [of u pc] by auto
  next
    case (Over r)
    let ?f = "closed_group w (tj_cancelled j) r"
    obtain q v where save: "save_history ser w (set_groups (alter_group (tj_id j) ?f (ts_groups s)) s) = (q, v)"
      by force
    have "g_id (?f h) = g_id h" "g_state (?f h) \<in> {''completed'', ''failed'', ''cancelled''}" for h
      by (auto simp: closed_group_def split: sum.split)
    moreover have "ts_groups v = prune_groups (w_now w) (alter_group (tj_id j) ?f (ts_groups s))"
      using save_history_cases(1) [OF save] by simp
    moreover have "distinct (map g_id (ts_groups s))" using ok by (simp add: transfer_ok_def groups_ok_def)
    ultimately have "g_state h \<in> {''completed'', ''failed'', ''cancelled''}"
      if "find_group (tj_id j) (ts_groups v) = Some h" for h
      using find_group_id [OF that] by (auto simp: alter_group_map prune_groups_def split: if_splits)
    moreover have "ts_controls v = ts_controls s" "ts_jobs v = ts_jobs s"
      using save_history_cases(2) [OF save] by (simp_all add: same_tasks_def)
    ultimately have "map_of (ts_jobs t) k = None \<and> map_of (ts_controls t) (tj_id j) = None
      \<and> (\<forall>h. find_group (tj_id j) (ts_groups t) = Some h \<longrightarrow> g_state h \<in> {''completed'', ''failed'', ''cancelled''})"
      using assms(4) Over g save
      by (cases q) (auto simp: job_step_def close_job_def Let_def drop_job_def delete_conv')
    then show ?thesis using Over by blast
  qed
qed

section \<open>Where the service loses track\<close>

text \<open>C20: A retry whose history cannot be saved strands the transfer: the group is left active with no
  job and no control, so cancelling, retrying and dismissing it are all refused from then on, and
  the poll never expires an upload.\<close>

theorem failed_retry_strands:
  assumes "retry_transfer ser w i s = (Inl e, t)" "e \<in> {''history-full'', ''history-unavailable''}"
    "find_group i (ts_groups s) = Some g" "g_direction g = ''outgoing''"
  shows "\<exists>h. find_group i (ts_groups t) = Some h \<and> g_state h = ''sending'' \<and> i \<notin> fst ` set (ts_controls t)
    \<and> (\<forall>w'. cancel_transfer i t = (Inl ''cancel-at-sender'', t)
         \<and> retry_transfer ser w' i t = (Inl ''already-active'', t)
         \<and> dismiss_transfer i t = (Inl ''already-active'', t) \<and> \<not> lost_sender w' t h)"
proof -
  have start: "start_locked ser w i s = (Inl e, t)" and st: "g_state g \<in> {''failed'', ''cancelled''}"
    using assms(1,2,3) by (auto simp: retry_transfer_def split: if_splits)
  let ?s = "set_groups (alter_group i (start_state w) (ts_groups s)) s"
  have free: "i \<notin> controlled s" "\<not> job_permits \<le> length (ts_jobs s)"
    using start assms(2) by (auto simp: start_locked_def split: if_splits)
  then have save: "save_history ser w ?s = (Inl e, t)"
    using start assms(3) by (auto simp: start_locked_def split: prod.splits sum.splits)
  let ?h = "start_state w g"
  have "find_group i (ts_groups ?s) = Some ?h"
    using assms(3) by (simp add: find_group_alter start_state_def)
  then have h: "find_group i (ts_groups t) = Some ?h"
    using save_history_cases(1) [OF save] by (simp add: find_group_prune)
  moreover have "ts_controls t = ts_controls s"
    using save_history_cases(2) [OF save] by (simp add: same_tasks_def)
  moreover from this free(1) have "map_of (ts_controls t) i = None" by (simp add: map_of_eq_None_iff)
  moreover have "g_state ?h = ''sending''" using assms(4) by (simp add: start_state_def)
  ultimately show ?thesis
    using free(1) by (auto simp: cancel_transfer_def retry_transfer_def dismiss_transfer_def
        transfer_active_def lost_sender_def)
qed

text \<open>A file the user puts into the trash while its deletion at the provider is under way is shown as
  completed again when the job settles it, with no path.\<close>

lemma settling_revives_trashed:
  assumes "find_group (tj_id j) (ts_groups s) = Some g" "transfer_active (g_state g)"
    "pl_index p < length (g_files g)" "en_path (g_files g ! pl_index p) = []"
    "job_stage ser clean w j Settling p s = (pc, t, effs)"
  shows "\<exists>h. find_group (tj_id j) (ts_groups t) = Some h \<and> en_state (g_files h ! pl_index p) = ''completed''
    \<and> en_path (g_files h ! pl_index p) = []"
proof -
  obtain q where "edit_file ser True w (tj_id j) (pl_index p) settled_file s = (q, t)"
    using assms(5) by (auto simp: then_pc_def split: prod.splits sum.splits)
  from edit_file_cases(1) [OF this assms(1,2)] show ?thesis
    using assms(3,4) by (simp add: alter_file_def settled_file_def)
qed

section \<open>Witnesses\<close>

text \<open>A concrete encoder: three histories have codes of their own, the others are numbered.\<close>

definition entry_tuple :: "entry \<Rightarrow> (nat \<times> nat \<times> nat \<times> int \<times> int \<times> int \<times> int) option \<times> string \<times> string
    \<times> string option \<times> bool \<times> int \<times> nat \<times> string \<times> string \<times> nat" where
  "entry_tuple e = (map_option (\<lambda>i. (fi_device i, fi_inode i, fi_size i, fi_modified i, fi_modified_ns i,
       fi_changed i, fi_changed_ns i)) (en_identity e),
     en_name e, en_path e, en_remote e, en_pending e, en_size e, en_bytes e, en_state e, en_error e, en_attempts e)"

definition tuple_entry where
  "tuple_entry t = (case t of (i, name, path, remote, pending, len, bytes, st, err, n) \<Rightarrow>
     \<lparr>en_identity = map_option (\<lambda>(a, b, c, d, e, f, g). \<lparr>fi_device = a, fi_inode = b, fi_size = c,
        fi_modified = d, fi_modified_ns = e, fi_changed = f, fi_changed_ns = g\<rparr>) i,
      en_name = name, en_path = path, en_remote = remote, en_pending = pending, en_size = len,
      en_bytes = bytes, en_state = st, en_error = err, en_attempts = n\<rparr>)"

lemma tuple_entry [simp]: "tuple_entry (entry_tuple e) = e"
  by (cases e; cases "en_identity e") (simp_all add: tuple_entry_def entry_tuple_def)

definition group_tuple where
  "group_tuple g = (g_id g, map entry_tuple (g_files g))"

definition tuple_group where
  "tuple_group t = \<lparr>g_id = fst t, g_direction = [], g_device = [], g_files = map tuple_entry (snd t),
     g_state = [], g_created = 0, g_updated = 0, g_error = [], g_seen = False, g_source = [],
     g_destination = [], g_target = None\<rparr>"

lemma tuple_group [simp]: "g_id (tuple_group (group_tuple g)) = g_id g" "g_files (tuple_group (group_tuple g)) = g_files g"
  by (simp_all add: tuple_group_def group_tuple_def o_def)

definition wit_world :: world where
  "wit_world = \<lparr>w_now = 0, w_write = Written, w_uuid = ''u'', w_regular = Inr, w_source = (\<lambda>p. Inl ''none''),
     w_status = Inl ''none'', w_file_targets = Inl ''none'', w_waiting = Inl ''none'', w_done = Inr (),
     w_received = Inr (''/d/a'', 3), w_moved = Inl ''none''\<rparr>"

definition wit_entry :: entry where "wit_entry = waiting_entry ''a'' 3 ''pending''"
definition wit_received :: entry where "wit_received = received_file ''/d/a'' 3 (attempted_file wit_entry)"

definition wit_group :: "entry \<Rightarrow> tgroup" where
  "wit_group e = new_transfer wit_world ''incoming'' ''Personal device'' [e]"

definition wit_ser :: "tgroup list \<Rightarrow> string" where
  "wit_ser gs = (let t = map group_tuple gs in
     if t = [] then ''0'' else if t = map group_tuple [wit_group wit_entry] then ''1''
     else if t = map group_tuple [wit_group wit_received] then ''2'' else CHR ''9'' # nat_digits (to_nat t))"

definition wit_deser :: "string \<Rightarrow> tgroup list option" where
  "wit_deser s = (if s = ''0'' then Some [] else if s = ''1'' then Some [wit_group wit_entry]
     else if s = ''2'' then Some [wit_group wit_received]
     else Some (map tuple_group (from_nat (digits_value (tl s)))))"

lemma wit_journal: "journal wit_ser wit_deser"
proof -
  have sig: "map (\<lambda>g. (g_id g, g_files g)) gs = map (\<lambda>(i, ts). (i, map tuple_entry ts)) (map group_tuple gs)" for gs
    by (simp add: group_tuple_def o_def)
  have "map_option (map (\<lambda>g. (g_id g, g_files g))) (wit_deser (wit_ser gs)) = Some (map (\<lambda>g. (g_id g, g_files g)) gs)" for gs
  proof -
    consider "gs = []" | "gs \<noteq> []" "map group_tuple gs = map group_tuple [wit_group wit_entry]"
      | "map group_tuple gs \<noteq> map group_tuple [wit_group wit_entry]"
        "map group_tuple gs = map group_tuple [wit_group wit_received]"
      | "gs \<noteq> []" "map group_tuple gs \<noteq> map group_tuple [wit_group wit_entry]"
        "map group_tuple gs \<noteq> map group_tuple [wit_group wit_received]" by blast
    then show ?thesis
    proof cases
      case 1
      then show ?thesis by (simp add: wit_ser_def wit_deser_def)
    next
      case 2
      then have "wit_ser gs = ''1''" by (simp add: wit_ser_def)
      then show ?thesis using 2 unfolding sig by (simp add: wit_deser_def sig del: list.map)
    next
      case 3
      then have "wit_ser gs = ''2''" by (auto simp: wit_ser_def)
      then show ?thesis using 3 unfolding sig by (simp add: wit_deser_def sig del: list.map)
    next
      case 4
      then have "wit_ser gs = CHR ''9'' # nat_digits (to_nat (map group_tuple gs))" by (simp add: wit_ser_def)
      then show ?thesis by (simp add: wit_deser_def o_def)
    qed
  qed
  moreover have "wit_ser gs \<noteq> []" for gs by (simp add: wit_ser_def Let_def)
  ultimately show ?thesis by (simp add: journal_def)
qed

text \<open>A file is announced, a job receives it, and the deletion is requested.\<close>

definition wit_job :: "job_pc \<Rightarrow> transfer_job" where
  "wit_job pc = \<lparr>tj_id = ''u'', tj_cancelled = False, tj_pc = pc\<rparr>"

definition wit_at :: "string \<Rightarrow> entry \<Rightarrow> job_pc \<Rightarrow> transfer_state" where
  "wit_at disk e pc =
     \<lparr>ts_saved = disk, ts_groups = [wit_group e], ts_controls = [(''u'', 0)], ts_selection = [], ts_targets = [],
      ts_focus = [], ts_focus_revision = 0, ts_error = [], ts_jobs = [(0, wit_job pc)], ts_next = 1,
      ts_stopping = False, ts_disk = disk, ts_action = None, ts_used = [''u'']\<rparr>"

definition wit_empty :: transfer_state where
  "wit_empty = (empty_state [] [])\<lparr>ts_saved := ''0'', ts_disk := ''0''\<rparr>"

definition wit_place :: place where
  "wit_place = \<lparr>pl_count = 1, pl_index = 0, pl_attempt = 0, pl_group = wit_group wit_entry\<rparr>"


lemmas region_defs = save_history_def set_groups_def prune_groups_def max_history_def find_group_def
  transfer_active_def edit_file_def set_pc_def job_step_def

lemma wit_reads [simp]: "w_now wit_world = 0" "w_write wit_world = Written" "w_uuid wit_world = ''u''"
  "w_done wit_world = Inr ()" "w_received wit_world = Inr (''/d/a'', 3)"
  by (simp_all add: wit_world_def)

lemma wit_group_simps [simp]: "g_id (wit_group e) = ''u''" "g_direction (wit_group e) = ''incoming''"
  "g_files (wit_group e) = [e]" "g_state (wit_group e) = ''receiving''" "g_target (wit_group e) = None"
  "alter_file 0 f (wit_group e) = wit_group (f e)" "start_state wit_world (wit_group e) = wit_group e"
  "(wit_group e)\<lparr>g_state := ''receiving''\<rparr> = wit_group e"
  "new_transfer wit_world ''incoming'' ''Personal device'' [e] = wit_group e"
  by (simp_all add: wit_group_def new_transfer_def alter_file_def start_state_def)

lemma wit_entry_simps [simp]: "waiting_entry ''a'' 3 ''pending'' = wit_entry" "en_remote wit_entry = Some ''a''"
  "en_state wit_entry = ''pending''" "\<not> en_pending wit_entry"
  "received_file ''/d/a'' 3 (attempted_file wit_entry) = wit_received"
  by (simp_all add: wit_entry_def wit_received_def) (simp_all add: waiting_entry_def)

lemma wit_texts [simp]: "wit_ser [] = ''0''" "wit_ser [wit_group wit_entry] = ''1''"
  "wit_ser [wit_group wit_received] = ''2''"
  by (simp_all add: wit_ser_def Let_def)
    (simp add: wit_group_def wit_received_def group_tuple_def entry_tuple_def new_transfer_def wit_entry_def
      waiting_entry_def received_file_def attempted_file_def)

lemma wit_created: "new_service wit_ser (\<lambda>_. True) wit_deser wit_world None = Inr wit_empty"
  by (simp add: new_service_def restore_groups_def empty_state_def region_defs wit_empty_def Let_def wit_world_def)

lemma wit_announced: "receive_one wit_ser wit_world (''a'', 3) wit_empty = (Inr True, wit_at ''1'' wit_entry Begin)"
  by (simp add: receive_one_def new_group_def start_locked_def region_defs Let_def i64_max_def max_groups_def
      job_permits_def empty_state_def wit_at_def wit_empty_def wit_job_def)

lemma wit_begun: "job_step wit_ser id wit_world 0 (wit_job Begin) (wit_at ''1'' wit_entry Begin)
    = (wit_at ''1'' wit_entry (Next_file 1 0), [])"
  by (simp add: wit_at_def wit_job_def region_defs)

lemma wit_taken: "job_step wit_ser id wit_world 0 (wit_job (Next_file 1 0)) (wit_at ''1'' wit_entry (Next_file 1 0))
    = (wit_at ''1'' wit_entry (At_stage Attempting wit_place), [])"
  by (simp add: wit_at_def wit_job_def wit_place_def next_file_def Let_def region_defs)

lemma wit_requested: "job_step wit_ser id wit_world 0 (wit_job (At_stage Attempting wit_place))
      (wit_at ''1'' wit_entry (At_stage Attempting wit_place))
    = (wit_at ''1'' (attempted_file wit_entry) (At_stage (Receiving ''a'') wit_place), [Get ''a''])"
  by (simp add: wit_at_def wit_job_def wit_place_def first_request_def place_file_def attempt_group_def
      filename_ok_def region_defs)

lemma wit_landed: "job_step wit_ser id wit_world 0 (wit_job (At_stage (Receiving ''a'') wit_place))
      (wit_at ''1'' (attempted_file wit_entry) (At_stage (Receiving ''a'') wit_place))
    = (wit_at ''2'' wit_received (At_stage (Forgetting ''a'') wit_place), [Forget ''a''])"
  by (simp add: wit_at_def wit_job_def wit_place_def ask_forget_def filename_ok_def region_defs Let_def)

lemma wit_job_at: "map_of (ts_jobs (wit_at d e pc)) 0 = Some (wit_job pc)"
  by (simp add: wit_at_def)

abbreviation "wit_reach \<equiv> transfer_reach wit_ser (\<lambda>_. True) wit_deser id (\<lambda>_. JNull)"

lemma wit_run: "wit_reach (wit_at ''1'' (attempted_file wit_entry) (At_stage (Receiving ''a'') wit_place))"
proof -
  have "wit_reach wit_empty" by (rule transfer_reach.created [OF wit_created])
  then have "wit_reach (wit_at ''1'' wit_entry Begin)"
    by (rule transfer_reach.stepped [OF _ transfer_step.receive [OF _ wit_announced]])
      (simp add: fresh_world_def wit_empty_def empty_state_def)
  then have "wit_reach (wit_at ''1'' wit_entry (Next_file 1 0))"
    by (rule transfer_reach.stepped [OF _ transfer_step.job [OF wit_job_at wit_begun]])
  then have "wit_reach (wit_at ''1'' wit_entry (At_stage Attempting wit_place))"
    by (rule transfer_reach.stepped [OF _ transfer_step.job [OF wit_job_at wit_taken]])
  then show ?thesis
    by (rule transfer_reach.stepped [OF _ transfer_step.job [OF wit_job_at wit_requested]])
qed

theorem transfers_invariant_witness:
  "\<exists>g. find_group ''u'' (ts_groups (wit_at ''1'' (attempted_file wit_entry)
          (At_stage (Receiving ''a'') wit_place))) = Some g \<and> transfer_active (g_state g)"
proof -
  let ?s = "wit_at ''1'' (attempted_file wit_entry) (At_stage (Receiving ''a'') wit_place)"
  have "\<forall>k j. map_of (ts_jobs ?s) k = Some j \<longrightarrow>
      (\<exists>g. find_group (tj_id j) (ts_groups ?s) = Some g \<and> transfer_active (g_state g))"
    using transfers_invariant [OF wit_journal wit_run] by blast
  from this [rule_format, OF wit_job_at] show ?thesis by (simp add: wit_job_def)
qed

theorem forget_is_journalled_witness:
  "\<exists>gs g e. wit_deser ''2'' = Some gs \<and> g \<in> set gs \<and> e \<in> set (g_files g) \<and> en_remote e = Some ''a'' \<and> en_pending e"
proof -
  have "ts_disk (wit_at ''2'' wit_received (At_stage (Forgetting ''a'') wit_place)) = ''2''"
    by (simp add: wit_at_def)
  then show ?thesis
    using forget_is_journalled [OF wit_journal wit_run transfer_step.job [OF wit_job_at wit_landed], of "''a''"]
    by fastforce
qed

theorem job_terminates_witness:
  "\<exists>pc. map_of (ts_jobs (wit_at ''2'' wit_received (At_stage (Forgetting ''a'') wit_place))) 0 = Some (wit_job pc)
    \<and> pc_rank pc < pc_rank (At_stage (Receiving ''a'') wit_place)"
  using job_terminates [OF wit_journal wit_run wit_job_at wit_landed]
  by (auto simp: wit_job_def wit_place_def)

text \<open>An upload of three bytes to the device \<open>d\<close>, and a transfer that failed.\<close>

definition wit_meta :: file_id where
  "wit_meta = \<lparr>fi_device = 1, fi_inode = 2, fi_size = 3, fi_modified = 0, fi_modified_ns = 0,
     fi_changed = 0, fi_changed_ns = 0\<rparr>"

definition wit_own :: world where
  "wit_own = wit_world\<lparr>w_regular := Inr, w_source := (\<lambda>_. Inr wit_meta), w_write := Kept,
     w_status := Inr (JObj [(''Self'', JObj [(''UserID'', JNum ''7'')])]),
     w_file_targets := Inr (JArr [JObj [(''Node'', JObj [(''StableID'', JStr ''d''), (''User'', JNum ''7''),
        (''Online'', JBool True), (''Name'', JStr ''n'')])]])\<rparr>"

definition wit_upload :: place where
  "wit_upload = \<lparr>pl_count = 1, pl_index = 0, pl_attempt = 0, pl_group = (new_transfer wit_world ''outgoing'' ''n''
     [(waiting_entry ''f'' 3 ''active'')\<lparr>en_path := ''/f'', en_identity := Some wit_meta\<rparr>])\<lparr>g_target := Some ''d''\<rparr>\<rparr>"

lemma wit_put: "ask_put id wit_own wit_upload = (At_stage Sending wit_upload, [Put ''d'' ''/f'' (Some wit_meta)])"
  by (simp add: ask_put_def provider_targets_def target_of_def wit_own_def wit_upload_def wit_meta_def Let_def
      place_file_def new_transfer_def waiting_entry_def json_index_def json_obj_def List.map_filter_def)

theorem upload_checked_witness: "own_online wit_own ''d'' \<and> (\<exists>w. own_online w ''d'' \<and> w_source w ''/f'' = Inr wit_meta)"
proof -
  let ?s = "wit_at ''1'' wit_entry (At_stage Resolving wit_upload)"
  have step: "job_step wit_ser id wit_own 0 (wit_job (At_stage Resolving wit_upload)) ?s
      = (set_pc 0 (At_stage Sending wit_upload) ?s, [Put ''d'' ''/f'' (Some wit_meta)])"
    by (simp add: job_step_def wit_job_def wit_put)
  have own: "own_online wit_own ''d''"
    by (auto simp: own_online_def wit_own_def json_index_def)
  show ?thesis
    using upload_checked [OF transfer_step.job [OF wit_job_at step], where d = "''d''" and path = "''/f''"
        and i = "Some wit_meta"] own by auto
qed

definition wit_failed :: transfer_state where
  "wit_failed = (empty_state ''0'' [(pl_group wit_upload)\<lparr>g_state := ''failed''\<rparr>])\<lparr>ts_saved := ''0''\<rparr>"

theorem failed_retry_strands_witness:
  "\<exists>t h. retry_transfer (\<lambda>_. ''1'') wit_own ''u'' wit_failed = (Inl ''history-unavailable'', t)
    \<and> find_group ''u'' (ts_groups t) = Some h \<and> g_state h = ''sending''
    \<and> retry_transfer (\<lambda>_. ''1'') wit_world ''u'' t = (Inl ''already-active'', t)
    \<and> dismiss_transfer ''u'' t = (Inl ''already-active'', t)"
proof -
  have g: "find_group ''u'' (ts_groups wit_failed) = Some ((pl_group wit_upload)\<lparr>g_state := ''failed''\<rparr>)"
    "g_direction ((pl_group wit_upload)\<lparr>g_state := ''failed''\<rparr>) = ''outgoing''"
    by (simp_all add: find_group_def wit_failed_def empty_state_def wit_upload_def new_transfer_def)
  obtain t where t: "retry_transfer (\<lambda>_. ''1'') wit_own ''u'' wit_failed = (Inl ''history-unavailable'', t)"
    by (simp add: retry_transfer_def start_locked_def region_defs wit_failed_def empty_state_def wit_own_def
        job_permits_def wit_upload_def new_transfer_def Let_def)
  show ?thesis using failed_retry_strands [OF t _ g] t by blast
qed

end
