(* ===== verification/Caffeinate_Tasks.thy ===== *)
theory Caffeinate_Tasks
  imports Durations Ports_Procfs "HOL-Library.Product_Lexorder"
begin

text \<open>
  \<open>tools/src/caffeinate.rs\<close>, the tasks a session can follow: what \<open>/proc\<close> and the transfer service
  list, the rows the picker shows and the keys it sends back; and \<open>Identity::read\<close> of \<open>daemon.rs\<close>.
  Everything read from the system is a field of a \<open>caf_world\<close>. A process is named by its identifier
  and its start time.
\<close>

section \<open>What is read\<close>

record caf_world =
  cw_now :: int
  cw_inhibit :: "nat option"                  \<comment> \<open>the descriptor logind hands out\<close>
  cw_transfers :: "json option"               \<comment> \<open>snapshot of the transfer service\<close>
  cw_pidfd :: "nat \<Rightarrow> nat option"             \<comment> \<open>start time of the process a pidfd is opened on\<close>
  cw_exited :: "nat \<Rightarrow> nat \<Rightarrow> bool"            \<comment> \<open>the process with a start time has terminated\<close>
  cw_stat :: "nat \<Rightarrow> string option"           \<comment> \<open>\<open>/proc/<pid>/stat\<close> of a process of this user\<close>
  cw_cmdline :: "nat \<Rightarrow> string option"
  cw_lossy :: "string \<Rightarrow> string"              \<comment> \<open>\<open>String::from_utf8_lossy\<close>\<close>
  cw_cwd :: "nat \<Rightarrow> string list option"       \<comment> \<open>the names on the path from the root\<close>
  cw_marked :: "string list \<Rightarrow> bool"          \<comment> \<open>the directory has a \<open>.git\<close> or a \<open>.jj\<close>\<close>
  cw_entries :: "string list"                 \<comment> \<open>names in \<open>/proc\<close>\<close>
  cw_self :: nat

definition max_processes :: nat where "max_processes = 384"
definition max_scan :: nat where "max_scan = 4096"
definition max_key :: nat where "max_key = 128"
definition i32_max :: nat where "i32_max = 2147483647"

text \<open>\<open>text.get(text.rfind(p)? + p.len()..)\<close>\<close>

fun after_last :: "string \<Rightarrow> string \<Rightarrow> string option" where
  "after_last p [] = strip_pre p []"
| "after_last p (c # s) = (case after_last p s of Some r \<Rightarrow> Some r | None \<Rightarrow> strip_pre p (c # s))"

definition identity_started :: "string \<Rightarrow> nat option" where
  "identity_started stat =
     Option.bind (after_last '') '' stat) (\<lambda>rest.
       let fields = split_ascii_whitespace rest
       in if fields \<noteq> [] \<and> hd fields \<in> set [''Z'', ''X''] then None
          else Option.bind (nth_opt 19 fields) (parse_uint u64_max))"

definition identity_read :: "caf_world \<Rightarrow> nat \<Rightarrow> nat option" where
  "identity_read w pid =
     (if pid < 2 \<or> i32_max < pid then None else Option.bind (cw_stat w pid) identity_started)"

definition caf_argv :: "caf_world \<Rightarrow> nat \<Rightarrow> string list option" where
  "caf_argv w pid = (case cw_cmdline w pid of
       None \<Rightarrow> None
     | Some bytes \<Rightarrow>
         if 65536 < length bytes then None
         else Some (map (cw_lossy w) (filter (\<lambda>s. s \<noteq> []) (split_on (CHR 0x00) bytes))))"

section \<open>Labels\<close>

fun clip_end :: "string \<Rightarrow> nat \<Rightarrow> nat" where
  "clip_end s 0 = 0"
| "clip_end s (Suc n) =
     (let b = (of_char (s ! Suc n) :: nat) in if 0x80 \<le> b \<and> b < 0xC0 then clip_end s n else Suc n)"

definition clip_text :: "string \<Rightarrow> nat \<Rightarrow> string" where
  "clip_text s limit = (if length s \<le> limit then s else take (clip_end s limit) s)"

text \<open>\<open>Path::file_name\<close>: separators and dots at the end do not count.\<close>

definition path_name :: "string \<Rightarrow> string option" where
  "path_name p =
     (case rev (filter (\<lambda>c. c \<noteq> [] \<and> c \<noteq> ''.'') (split_on (CHR ''/'') p)) of
        [] \<Rightarrow> None | c # _ \<Rightarrow> if c = ''..'' then None else Some c)"

function trim_end_matches :: "string \<Rightarrow> string \<Rightarrow> string" where
  "trim_end_matches p s =
     (if p \<noteq> [] \<and> ends_with p s then trim_end_matches p (take (length s - length p) s) else s)"
  by pat_completeness auto
termination
proof (relation "measure (length \<circ> snd)")
  fix p s :: string
  assume "p \<noteq> [] \<and> ends_with p s"
  moreover from this have "0 < length s" by (auto simp: ends_with_suffix suffix_def)
  ultimately show "((p, take (length s - length p) s), (p, s)) \<in> measure (length \<circ> snd)" by simp
qed simp

declare trim_end_matches.simps [simp del]

definition program_name :: "string \<Rightarrow> string" where
  "program_name value =
     trim_end_matches ''-wrapped'' (case path_name value of Some n \<Rightarrow> n | None \<Rightarrow> value)"

definition build_programs :: "string list" where
  "build_programs =
     [''bazel'', ''cabal'', ''cmake'', ''dune'', ''esbuild'', ''gradle'', ''make'', ''mvn'', ''ninja'',
      ''nix-build'', ''nixos-rebuild'', ''pytest'', ''rollup'', ''seele-rebuild'', ''stack'', ''tox'',
      ''tsc'', ''vite'', ''webpack'']"

definition build_subcommands :: "(string \<times> string list) list" where
  "build_subcommands =
     [(''bun'', [''build'', ''install'', ''run'', ''test'']),
      (''cargo'', [''bench'', ''build'', ''check'', ''clippy'', ''doc'', ''run'', ''test'']),
      (''go'', [''build'', ''generate'', ''install'', ''test'']),
      (''meson'', [''compile'', ''setup'', ''test'']),
      (''nh'', [''darwin'', ''home'', ''os'']),
      (''nix'', [''build'', ''run'']),
      (''npm'', [''ci'', ''install'', ''run'', ''test'']),
      (''pnpm'', [''build'', ''install'', ''run'', ''test'']),
      (''swift'', [''build'', ''test'']),
      (''yarn'', [''build'', ''install'', ''run'', ''test'']),
      (''zig'', [''build'', ''test''])]"

definition subcommand_of :: "string \<Rightarrow> string \<Rightarrow> bool" where
  "subcommand_of program value \<longleftrightarrow>
     list_ex (\<lambda>(name, commands). name = program \<and> value \<in> set commands) build_subcommands"

definition is_build :: "string list \<Rightarrow> bool" where
  "is_build arguments = (case arguments of
       [] \<Rightarrow> False
     | a # rest \<Rightarrow>
         (let program = program_name a
          in program \<in> set build_programs
             \<or> (case rest of [] \<Rightarrow> False | value # _ \<Rightarrow> subcommand_of program value)))"

definition nh_actions :: "string list" where
  "nh_actions = [''switch'', ''build'', ''boot'', ''test'']"

definition command_label :: "string list \<Rightarrow> string" where
  "command_label arguments =
     (let program = (case nth_opt 0 arguments of Some a \<Rightarrow> program_name a | None \<Rightarrow> []);
          label = clip_text program 64
      in case nth_opt 1 arguments of
           None \<Rightarrow> label
         | Some value \<Rightarrow>
             if \<not> subcommand_of program value then label
             else
               (let label = label @ '' '' @ value
                in if program = ''nh''
                   then (case nth_opt 2 arguments of
                           None \<Rightarrow> label
                         | Some action \<Rightarrow> if action \<in> set nh_actions then label @ '' '' @ action else label)
                   else label))"

fun checkout_of :: "caf_world \<Rightarrow> nat \<Rightarrow> string list \<Rightarrow> string option" where
  "checkout_of w 0 dir = None"
| "checkout_of w (Suc n) dir =
     (if cw_marked w dir then (if dir = [] then None else Some (clip_text (last dir) 64))
      else if dir = [] then None else checkout_of w n (butlast dir))"

definition caf_project :: "caf_world \<Rightarrow> nat \<Rightarrow> string option" where
  "caf_project w pid = Option.bind (cw_cwd w pid) (checkout_of w 32)"

section \<open>Transfers\<close>

definition transfer_running :: "string \<Rightarrow> bool" where
  "transfer_running st \<longleftrightarrow> st \<in> set [''sending'', ''receiving'', ''retrying'']"

definition text_or :: "string \<Rightarrow> json \<Rightarrow> string" where
  "text_or d v = (case as_str v of Some s \<Rightarrow> s | None \<Rightarrow> d)"

definition transfer_label :: "json \<Rightarrow> string" where
  "transfer_label grp =
     (let files = nat_digits (case as_array (json_index grp ''files'') of Some xs \<Rightarrow> length xs | None \<Rightarrow> 0);
          device = clip_text (text_or ''a personal device'' (json_index grp ''device'')) 64
      in if json_index grp ''direction'' = JStr ''incoming''
         then ''Receiving '' @ files @ '' file(s) from '' @ device
         else ''Sending '' @ files @ '' file(s) to '' @ device)"

definition group_running :: "json \<Rightarrow> bool" where
  "group_running grp \<longleftrightarrow> transfer_running (text_or [] (json_index grp ''state''))"

section \<open>Keys and rows\<close>

datatype selector = Select_Process nat nat | Select_Transfer string

definition parse_key :: "string \<Rightarrow> selector option" where
  "parse_key key =
     (if max_key < length key then None
      else
        (case split_once (CHR '':'') key of
           None \<Rightarrow> None
         | Some (kind, rest) \<Rightarrow>
             if kind = ''process'' then
               (case split_once (CHR '':'') rest of
                  None \<Rightarrow> None
                | Some (pid, started) \<Rightarrow>
                    (case (parse_uint u32_max pid, parse_uint u64_max started) of
                       (Some p, Some s) \<Rightarrow> Some (Select_Process p s) | _ \<Rightarrow> None))
             else if kind = ''transfer'' \<and> rest \<noteq> [] then Some (Select_Transfer rest)
             else None))"

definition process_key :: "nat \<Rightarrow> nat \<Rightarrow> string" where
  "process_key pid started = ''process:'' @ nat_digits pid @ '':'' @ nat_digits started"

definition process_row :: "caf_world \<Rightarrow> nat \<Rightarrow> nat \<Rightarrow> string list \<Rightarrow> bool \<Rightarrow> json" where
  "process_row w pid started arguments build = json_obj
     [(''key'', JStr (process_key pid started)),
      (''kind'', JStr (if build then ''build'' else ''process'')),
      (''label'', JStr (command_label arguments)),
      (''project'', if build then (case caf_project w pid of Some p \<Rightarrow> JStr p | None \<Rightarrow> JNull) else JNull),
      (''pid'', JNum (nat_digits pid))]"

definition transfer_row :: "string \<Rightarrow> json \<Rightarrow> json" where
  "transfer_row key grp = json_obj
     [(''key'', JStr key), (''kind'', JStr ''transfer''), (''label'', JStr (transfer_label grp)),
      (''project'', JNull), (''pid'', JNull)]"

definition transfer_rows :: "json list \<Rightarrow> json list" where
  "transfer_rows groups = List.map_filter
     (\<lambda>grp. if \<not> group_running grp then None
        else (case as_str (json_index grp ''id'') of
                None \<Rightarrow> None
              | Some i \<Rightarrow> if length i < max_key then Some (transfer_row (''transfer:'' @ i) grp) else None))
     groups"

definition scan_process :: "caf_world \<Rightarrow> string \<Rightarrow> (nat \<times> nat \<times> string list) option" where
  "scan_process w name = (case parse_uint u32_max name of
       None \<Rightarrow> None
     | Some pid \<Rightarrow>
         if pid = cw_self w then None
         else (case identity_read w pid of
                 None \<Rightarrow> None
               | Some started \<Rightarrow>
                   (case caf_argv w pid of
                      None \<Rightarrow> None
                    | Some args \<Rightarrow> if args = [] then None else Some (pid, started, args))))"

text \<open>The scan stops when it has enough processes; the newest come first.\<close>

definition scan_all :: "caf_world \<Rightarrow> (nat \<times> nat \<times> string list) list" where
  "scan_all w =
     rev (sort_key (\<lambda>(pid, started, args). (started, pid))
       (rev (take max_scan (List.map_filter (scan_process w) (cw_entries w)))))"

definition caf_tasks :: "caf_world \<Rightarrow> json list" where
  "caf_tasks w =
     (let transfers = (case cw_transfers w of
            None \<Rightarrow> []
          | Some v \<Rightarrow> (case as_array (json_index v ''groups'') of None \<Rightarrow> [] | Some gs \<Rightarrow> transfer_rows gs));
          scanned = scan_all w;
          row = (\<lambda>build (pid, started, args). process_row w pid started args build)
      in transfers @ map (row True) (filter (\<lambda>(pid, started, args). is_build args) scanned)
         @ map (row False) (take max_processes (filter (\<lambda>(pid, started, args). \<not> is_build args) scanned)))"

end
