(* ===== verification/Caffeinate_Session.thy ===== *)
theory Caffeinate_Session
  imports Caffeinate_Tasks
begin

text \<open>
  \<open>tools/src/caffeinate.rs\<close>, the session: one idle inhibitor and the condition whose end releases
  it. A function here is one region under the state mutex or the code between two; the threads of
  \<open>serve\<close> interleave them in \<open>caf_step\<close>. Times are seconds. The generation is a \<open>u64\<close> that counts
  the sessions started and does not wrap in practice; it is an unbounded number here.
\<close>

section \<open>State\<close>

text \<open>A pidfd follows the process it was opened on, which \<open>pi_life\<close> names by its start time; the
  identity read afterwards is \<open>pi_started\<close>.\<close>

record pinned =
  pi_pid :: nat
  pi_life :: nat
  pi_started :: nat

datatype tracker = Track_Process pinned | Track_Transfer string

record csession =
  cs_generation :: nat
  cs_mode :: string
  cs_started :: int
  cs_deadline :: "int option"
  cs_task :: json
  cs_tracker :: "tracker option"
  cs_misses :: nat
  cs_inhibitor :: nat                        \<comment> \<open>the descriptor\<close>

record caf_state =
  cf_session :: "csession option"
  cf_generation :: nat

definition lost_task_tolerance :: nat where "lost_task_tolerance = 3"

definition caf_default :: caf_state where
  "caf_default = \<lparr>cf_session = None, cf_generation = 0\<rparr>"

definition caf_snapshot :: "caf_state \<Rightarrow> int \<Rightarrow> json" where
  "caf_snapshot s now = (case cf_session s of
       None \<Rightarrow> json_obj
         [(''version'', JNum ''1''), (''active'', JBool False), (''mode'', JStr []),
          (''elapsed'', JNum ''0''), (''remaining'', JNum ''0''), (''task'', JNull)]
     | Some x \<Rightarrow> json_obj
         [(''version'', JNum ''1''), (''active'', JBool True), (''mode'', JStr (cs_mode x)),
          (''since'', JNum (show_int (cs_started x))),
          (''elapsed'', JNum (show_int (max (now - cs_started x) 0))),
          (''until'', case cs_deadline x of None \<Rightarrow> JNull | Some d \<Rightarrow> JNum (show_int d)),
          (''remaining'', JNum (show_int (case cs_deadline x of None \<Rightarrow> 0 | Some d \<Rightarrow> max (d - now) 0))),
          (''task'', cs_task x)])"

section \<open>Starting\<close>

text \<open>The service asks the UI policy what a typed duration means.\<close>

definition duration_seconds :: "host \<Rightarrow> json \<Rightarrow> string + nat" where
  "duration_seconds h request = (case as_str (json_index request ''duration'') of
       None \<Rightarrow> Inl ''invalid-duration''
     | Some txt \<Rightarrow>
         if 32 < length txt then Inl ''invalid-duration''
         else (case caffeinate_call h ''parseDuration'' [JStr txt] of
                 Inl e \<Rightarrow> Inl ''invalid-duration''
               | Inr parsed \<Rightarrow>
                   (case as_str (json_index parsed ''error'') of
                      Some e \<Rightarrow> Inl (if e = ''duration-out-of-range'' then ''duration-out-of-range''
                                     else ''invalid-duration'')
                    | None \<Rightarrow>
                        (case as_u64 (json_index parsed ''seconds'') of
                           Some n \<Rightarrow> Inr n | None \<Rightarrow> Inl ''invalid-duration''))))"

definition pinned_open :: "caf_world \<Rightarrow> nat \<Rightarrow> pinned option" where
  "pinned_open w pid =
     (if pid < 2 \<or> i32_max < pid then None
      else (case cw_pidfd w pid of
              None \<Rightarrow> None
            | Some life \<Rightarrow>
                (case identity_read w pid of
                   None \<Rightarrow> None
                 | Some started \<Rightarrow> Some \<lparr>pi_pid = pid, pi_life = life, pi_started = started\<rparr>)))"

definition pinned_exited :: "caf_world \<Rightarrow> pinned \<Rightarrow> bool" where
  "pinned_exited w p = cw_exited w (pi_pid p) (pi_life p)"

definition resolve_process :: "caf_world \<Rightarrow> nat \<Rightarrow> nat \<Rightarrow> string + json \<times> tracker" where
  "resolve_process w pid started = (case pinned_open w pid of
       None \<Rightarrow> Inl ''task-unavailable''
     | Some p \<Rightarrow>
         if pi_started p \<noteq> started \<or> pinned_exited w p then Inl ''task-unavailable''
         else (case caf_argv w pid of
                 None \<Rightarrow> Inl ''task-unavailable''
               | Some args \<Rightarrow>
                   if args = [] then Inl ''task-unavailable''
                   else Inr (process_row w pid started args (is_build args), Track_Process p)))"

definition resolve_transfer :: "caf_world \<Rightarrow> string \<Rightarrow> string \<Rightarrow> string + json \<times> tracker" where
  "resolve_transfer w key i =
     (case Option.bind (cw_transfers w) (\<lambda>v. as_array (json_index v ''groups'')) of
        None \<Rightarrow> Inl ''task-unavailable''
      | Some gs \<Rightarrow>
          (case find (\<lambda>g. as_str (json_index g ''id'') = Some i) gs of
             None \<Rightarrow> Inl ''task-unavailable''
           | Some g \<Rightarrow> if group_running g then Inr (transfer_row key g, Track_Transfer i)
                       else Inl ''task-unavailable''))"

definition resolve_task :: "caf_world \<Rightarrow> string \<Rightarrow> string + json \<times> tracker" where
  "resolve_task w key = (case parse_key key of
       None \<Rightarrow> Inl ''invalid-request''
     | Some (Select_Process pid started) \<Rightarrow> resolve_process w pid started
     | Some (Select_Transfer i) \<Rightarrow> resolve_transfer w key i)"

text \<open>The session a request asks for, before an inhibitor is acquired.\<close>

record request_plan =
  rp_mode :: string
  rp_deadline :: "int option"
  rp_task :: json
  rp_tracker :: "tracker option"

definition plan_start :: "host \<Rightarrow> caf_world \<Rightarrow> json \<Rightarrow> int \<Rightarrow> string + request_plan" where
  "plan_start h w request now =
     (let mode = text_or [] (json_index request ''mode'')
      in if mode = ''manual'' then
           Inr \<lparr>rp_mode = ''manual'', rp_deadline = None, rp_task = JNull, rp_tracker = None\<rparr>
         else if mode = ''duration'' then
           (case duration_seconds h request of
              Inl e \<Rightarrow> Inl e
            | Inr n \<Rightarrow> Inr \<lparr>rp_mode = ''duration'', rp_deadline = Some (now + int n), rp_task = JNull,
                           rp_tracker = None\<rparr>)
         else if mode = ''task'' then
           (case as_str (json_index request ''task'') of
              None \<Rightarrow> Inl ''invalid-request''
            | Some key \<Rightarrow>
                (case resolve_task w key of
                   Inl e \<Rightarrow> Inl e
                 | Inr (task, tr) \<Rightarrow>
                     Inr \<lparr>rp_mode = ''task'', rp_deadline = None, rp_task = task, rp_tracker = Some tr\<rparr>))
         else Inl ''invalid-request'')"

definition acquire_start :: "host \<Rightarrow> caf_world \<Rightarrow> json \<Rightarrow> int \<Rightarrow> string + request_plan \<times> nat" where
  "acquire_start h w request now = (case plan_start h w request now of
       Inl e \<Rightarrow> Inl e
     | Inr p \<Rightarrow> (case cw_inhibit w of None \<Rightarrow> Inl ''inhibit-unavailable'' | Some fd \<Rightarrow> Inr (p, fd)))"

text \<open>The region under the mutex; the replaced session is dropped in it.\<close>

definition commit_start :: "request_plan \<Rightarrow> nat \<Rightarrow> int \<Rightarrow> caf_state \<Rightarrow> caf_state" where
  "commit_start p fd now s =
     \<lparr>cf_session = Some \<lparr>cs_generation = cf_generation s + 1, cs_mode = rp_mode p, cs_started = now,
        cs_deadline = rp_deadline p, cs_task = rp_task p, cs_tracker = rp_tracker p, cs_misses = 0,
        cs_inhibitor = fd\<rparr>,
      cf_generation = cf_generation s + 1\<rparr>"

definition caf_start :: "host \<Rightarrow> caf_world \<Rightarrow> json \<Rightarrow> int \<Rightarrow> caf_state \<Rightarrow> (string + json) \<times> caf_state" where
  "caf_start h w request now s = (case acquire_start h w request now of
       Inl e \<Rightarrow> (Inl e, s)
     | Inr (p, fd) \<Rightarrow> (let s = commit_start p fd now s in (Inr (caf_snapshot s now), s)))"

section \<open>The lifecycle pass\<close>

definition end_session :: "caf_state \<Rightarrow> caf_state" where
  "end_session s = s\<lparr>cf_session := None\<rparr>"

text \<open>The first region: the deadline, the process, or the question to ask the transfer service.\<close>

definition sweep_first :: "caf_world \<Rightarrow> int \<Rightarrow> caf_state \<Rightarrow> (nat \<times> string) option \<times> caf_state" where
  "sweep_first w now s = (case cf_session s of
       None \<Rightarrow> (None, s)
     | Some x \<Rightarrow>
         if (case cs_deadline x of None \<Rightarrow> False | Some d \<Rightarrow> d \<le> now) then (None, end_session s)
         else (case cs_tracker x of
                 None \<Rightarrow> (None, s)
               | Some (Track_Process p) \<Rightarrow> (None, if pinned_exited w p then end_session s else s)
               | Some (Track_Transfer i) \<Rightarrow> (Some (cs_generation x, i), s)))"

text \<open>The probe, without the lock; \<open>None\<close> is a service that did not answer.\<close>

definition probe_running :: "json option \<Rightarrow> string \<Rightarrow> bool option" where
  "probe_running snap i = map_option (\<lambda>v. case as_array (json_index v ''groups'') of
       None \<Rightarrow> False
     | Some gs \<Rightarrow> list_ex (\<lambda>g. as_str (json_index g ''id'') = Some i \<and> group_running g) gs) snap"

definition sweep_second :: "nat \<Rightarrow> bool option \<Rightarrow> caf_state \<Rightarrow> caf_state" where
  "sweep_second generation running s = (case cf_session s of
       None \<Rightarrow> s
     | Some x \<Rightarrow>
         if cs_generation x \<noteq> generation then s
         else (case running of
                 Some True \<Rightarrow> s\<lparr>cf_session := Some (x\<lparr>cs_misses := 0\<rparr>)\<rparr>
               | Some False \<Rightarrow> end_session s
               | None \<Rightarrow>
                   if lost_task_tolerance \<le> cs_misses x + 1 then end_session s
                   else s\<lparr>cf_session := Some (x\<lparr>cs_misses := cs_misses x + 1\<rparr>)\<rparr>))"

text \<open>A pass no other thread interferes with.\<close>

definition caf_sweep :: "caf_world \<Rightarrow> int \<Rightarrow> caf_state \<Rightarrow> caf_state" where
  "caf_sweep w now s = (case sweep_first w now s of
       (None, s) \<Rightarrow> s
     | (Some (generation, i), s) \<Rightarrow> sweep_second generation (probe_running (cw_transfers w) i) s)"

section \<open>Requests\<close>

definition caf_dispatch :: "host \<Rightarrow> caf_world \<Rightarrow> json \<Rightarrow> caf_state \<Rightarrow> (string + json) \<times> caf_state" where
  "caf_dispatch h w request s =
     (if \<not> is_object request then (Inl ''invalid-request'', s)
      else
        (let now = cw_now w; op = text_or [] (json_index request ''op'')
         in if op = ''snapshot'' then (Inr (caf_snapshot s now), s)
            else if op = ''tasks'' then
              (Inr (json_obj [(''version'', JNum ''1''), (''tasks'', JArr (caf_tasks w))]), s)
            else if op = ''start'' then caf_start h w request now s
            else if op = ''stop'' then
              (case cf_session s of
                 None \<Rightarrow> (Inl ''no-session'', s)
               | Some _ \<Rightarrow> (Inr (caf_snapshot (end_session s) now), end_session s))
            else (Inl ''invalid-request'', s)))"

definition caf_reply :: "host \<Rightarrow> caf_world \<Rightarrow> json \<Rightarrow> caf_state \<Rightarrow> json \<times> caf_state" where
  "caf_reply h w request s = (case caf_dispatch h w request s of
       (Inr v, s) \<Rightarrow> (json_put ''ok'' (JBool True) v, s)
     | (Inl e, s) \<Rightarrow> (json_obj [(''ok'', JBool False), (''error'', JStr e)], s))"

text \<open>What \<open>watch\<close> shows for a reply: the snapshot without its flag, or that the service is away.\<close>

definition watch_value :: "json \<Rightarrow> json" where
  "watch_value v =
     (let v = (if json_index v ''ok'' \<noteq> JBool True
               then json_obj [(''version'', JNum ''1''), (''active'', JBool False), (''mode'', JStr []),
                 (''elapsed'', JNum ''0''), (''remaining'', JNum ''0''), (''task'', JNull),
                 (''error'', JStr ''service-unavailable'')]
               else v)
      in case as_object v of None \<Rightarrow> v | Some m \<Rightarrow> JObj (AList.delete ''ok'' m))"

section \<open>The service\<close>

text \<open>The shared state, the starts that hold an inhibitor and wait for the mutex, the probe of the one
  lifecycle thread, and the descriptors of this process that inhibit. Dropping a session closes its
  descriptor.\<close>

record caf_system =
  cy_state :: caf_state
  cy_starts :: "(request_plan \<times> nat \<times> int) list"
  cy_probe :: "(nat \<times> string) option"
  cy_held :: "nat list"

definition close_dropped :: "caf_state \<Rightarrow> caf_state \<Rightarrow> nat list \<Rightarrow> nat list" where
  "close_dropped s t held = (case cf_session s of
       None \<Rightarrow> held
     | Some x \<Rightarrow> if map_option cs_inhibitor (cf_session t) = Some (cs_inhibitor x) then held
                 else remove1 (cs_inhibitor x) held)"

definition put_state :: "caf_state \<Rightarrow> caf_system \<Rightarrow> caf_system" where
  "put_state t y = y\<lparr>cy_state := t, cy_held := close_dropped (cy_state y) t (cy_held y)\<rparr>"

definition caf_booted :: caf_system where
  "caf_booted = \<lparr>cy_state = caf_default, cy_starts = [], cy_probe = None, cy_held = []\<rparr>"

inductive caf_step :: "host \<Rightarrow> caf_system \<Rightarrow> caf_system \<Rightarrow> bool" for h :: host where
  acquire: "acquire_start h w request now = Inr (p, fd) \<Longrightarrow> fd \<notin> set (cy_held y)
    \<Longrightarrow> caf_step h y (y\<lparr>cy_starts := (p, fd, now) # cy_starts y, cy_held := fd # cy_held y\<rparr>)"
| commit: "(p, fd, now) \<in> set (cy_starts y)
    \<Longrightarrow> caf_step h y (put_state (commit_start p fd now (cy_state y))
          (y\<lparr>cy_starts := remove1 (p, fd, now) (cy_starts y)\<rparr>))"
| stop: "cf_session (cy_state y) \<noteq> None \<Longrightarrow> caf_step h y (put_state (end_session (cy_state y)) y)"
| sweep: "cy_probe y = None \<Longrightarrow> sweep_first w now (cy_state y) = (probe, t)
    \<Longrightarrow> caf_step h y ((put_state t y)\<lparr>cy_probe := probe\<rparr>)"
| probed: "cy_probe y = Some (generation, i)
    \<Longrightarrow> caf_step h y ((put_state (sweep_second generation (probe_running (cw_transfers (w :: caf_world)) i) (cy_state y)) y)
          \<lparr>cy_probe := None\<rparr>)"
| closed: "cy_starts y = [] \<Longrightarrow> cy_probe y = None
    \<Longrightarrow> caf_step h y (put_state (end_session (cy_state y)) y)"

definition caf_reach :: "host \<Rightarrow> caf_system \<Rightarrow> bool" where
  "caf_reach h y \<longleftrightarrow> (caf_step h)\<^sup>*\<^sup>* caf_booted y"

inductive_cases caf_stepE: "caf_step h y z"

end
