(* ===== verification/Caffeinate_Theorems.thy ===== *)
theory Caffeinate_Theorems
  imports Caffeinate_Session Transfer_Theorems "HOL-Library.Multiset"
begin

text \<open>
  The properties of the Caffeinate service: its invariant over every interleaving of its threads,
  why a session ends, what it follows, and its composition with the transfer service and with the
  UI policy of durations.
\<close>

section \<open>The inhibitor\<close>

definition session_descriptors :: "caf_state \<Rightarrow> nat multiset" where
  "session_descriptors s = (case cf_session s of None \<Rightarrow> {#} | Some x \<Rightarrow> {#cs_inhibitor x#})"

definition caf_ok :: "caf_system \<Rightarrow> bool" where
  "caf_ok y \<longleftrightarrow> distinct (cy_held y)
     \<and> mset (cy_held y) = session_descriptors (cy_state y) + mset (map (fst \<circ> snd) (cy_starts y))
     \<and> (\<forall>x. cf_session (cy_state y) = Some x \<longrightarrow> cs_generation x \<le> cf_generation (cy_state y)
          \<and> cs_misses x < lost_task_tolerance)
     \<and> (\<forall>g i. cy_probe y = Some (g, i) \<longrightarrow> g \<le> cf_generation (cy_state y)
          \<and> (\<forall>x. cf_session (cy_state y) = Some x \<longrightarrow> cs_generation x = g
               \<longrightarrow> cs_tracker x = Some (Track_Transfer i)))"

text \<open>The second region keeps the session or ends it.\<close>

lemma sweep_second_cases:
  obtains "sweep_second g r s = s" | "sweep_second g r s = end_session s"
  | x m where "cf_session s = Some x" "sweep_second g r s = s\<lparr>cf_session := Some (x\<lparr>cs_misses := m\<rparr>)\<rparr>"
      "m < lost_task_tolerance"
proof (cases "cf_session s")
  case None
  then show ?thesis using that(1) by (simp add: sweep_second_def)
next
  case (Some x)
  consider "cs_generation x \<noteq> g" | "cs_generation x = g" "r = Some True" | "cs_generation x = g" "r = Some False"
    | "cs_generation x = g" "r = None" "lost_task_tolerance \<le> cs_misses x + 1"
    | "cs_generation x = g" "r = None" "cs_misses x + 1 < lost_task_tolerance"
    by (cases r) (auto simp: not_le [symmetric])
  then show ?thesis
    by cases (use that(1,2) that(3) [of x] Some in \<open>simp_all add: sweep_second_def lost_task_tolerance_def\<close>)
qed

lemma sweep_first_cases:
  assumes "sweep_first w now s = (probe, t)"
  obtains "probe = None" "t = s" | "probe = None" "t = end_session s"
  | x i where "cf_session s = Some x" "cs_tracker x = Some (Track_Transfer i)" "probe = Some (cs_generation x, i)" "t = s"
  using assms
  by (auto simp: sweep_first_def split: option.splits if_splits tracker.splits)


lemma close_same [simp]: "close_dropped s s held = held"
  by (simp add: close_dropped_def split: option.split)

lemma end_ok: "caf_ok y \<Longrightarrow> caf_ok (put_state (end_session (cy_state y)) y)"
  by (auto simp: caf_ok_def put_state_def close_dropped_def session_descriptors_def end_session_def
      split: option.splits)

lemma misses_ok:
  assumes "caf_ok y" "cf_session (cy_state y) = Some x" "m < lost_task_tolerance"
  shows "caf_ok (put_state ((cy_state y)\<lparr>cf_session := Some (x\<lparr>cs_misses := m\<rparr>)\<rparr>) y)"
  using assms by (auto simp: caf_ok_def put_state_def close_dropped_def session_descriptors_def)

lemma probe_ok: "caf_ok y \<Longrightarrow> caf_ok (y\<lparr>cy_probe := None\<rparr>)"
  by (simp add: caf_ok_def)

lemma commit_start_ok:
  assumes ok: "caf_ok y" and st: "(p, fd, now) \<in> set (cy_starts y)"
  shows "caf_ok (put_state (commit_start p fd now (cy_state y)) (y\<lparr>cy_starts := remove1 (p, fd, now) (cy_starts y)\<rparr>))"
proof -
  let ?rest = "map (fst \<circ> snd) (remove1 (p, fd, now) (cy_starts y))"
  have "mset (cy_starts y) = add_mset (p, fd, now) (mset (remove1 (p, fd, now) (cy_starts y)))"
    using st by simp
  from arg_cong [OF this, of "image_mset (fst \<circ> snd)"]
  have starts: "mset (map (fst \<circ> snd) (cy_starts y)) = {#fd#} + mset ?rest" by simp
  have held: "mset (cy_held y) = session_descriptors (cy_state y) + ({#fd#} + mset ?rest)" "distinct (cy_held y)"
    using ok starts by (simp_all add: caf_ok_def)
  let ?held = "close_dropped (cy_state y) (commit_start p fd now (cy_state y)) (cy_held y)"
  have "mset ?held = {#fd#} + mset ?rest \<and> distinct ?held"
  proof (cases "cf_session (cy_state y)")
    case (Some x)
    have "count (mset (cy_held y)) fd \<le> 1" using held(2) by (simp add: distinct_count_atmost_1)
    then have "cs_inhibitor x \<noteq> fd" unfolding held(1) using Some by (auto simp: session_descriptors_def)
    then show ?thesis using held Some by (simp add: close_dropped_def commit_start_def session_descriptors_def)
  qed (use held in \<open>simp add: close_dropped_def session_descriptors_def\<close>)
  then show ?thesis
    using ok by (fastforce simp: caf_ok_def put_state_def session_descriptors_def commit_start_def
        lost_task_tolerance_def)
qed

interpretation caf: invariant_system "\<lambda>y. y = caf_booted" "caf_step h" caf_ok for h
proof unfold_locales
  show "caf_ok y" if "y = caf_booted" for y
    by (simp add: that caf_ok_def caf_booted_def caf_default_def session_descriptors_def)
next
  fix y z assume ok: "caf_ok y" and "caf_step h y z"
  from this(2) show "caf_ok z"
  proof cases
    case (acquire w request now p fd)
    then show ?thesis using ok by (auto simp: caf_ok_def)
  next
    case (commit p fd now)
    then show ?thesis using commit_start_ok [OF ok] by simp
  next
    case stop
    then show ?thesis using end_ok [OF ok] by simp
  next
    case (sweep w now probe t)
    from sweep(3) show ?thesis
    proof (cases rule: sweep_first_cases)
      case 1
      then show ?thesis using sweep ok by (simp add: put_state_def caf_ok_def)
    next
      case 2
      then show ?thesis using sweep end_ok [OF ok] probe_ok by simp
    next
      case (3 x i)
      then show ?thesis using sweep ok by (auto simp: put_state_def caf_ok_def)
    qed
  next
    case (probed g i w)
    show ?thesis
    proof (cases rule: sweep_second_cases [of g "probe_running (cw_transfers w) i" "cy_state y"])
      case 1
      then show ?thesis using probed ok by (simp add: put_state_def probe_ok)
    next
      case 2
      then show ?thesis using probed end_ok [OF ok] probe_ok by simp
    next
      case (3 x m)
      then show ?thesis using probed misses_ok [OF ok 3(1,3)] probe_ok by simp
    qed
  next
    case closed
    then show ?thesis using end_ok [OF ok] by simp
  qed
qed

lemmas caf_reach_ok = caf.reach_inv [OF refl, folded caf_reach_def]

text \<open>C21: The process inhibits exactly while a session is active or a start is about to make it so: the
  open descriptors are the session's and those of the starts that wait for the mutex, each once,
  so when no start is under way there is one if a session is active and none otherwise.\<close>

theorem inhibitor_follows_session:
  assumes "caf_reach h y"
  shows "distinct (cy_held y)
    \<and> mset (cy_held y) = session_descriptors (cy_state y) + mset (map (fst \<circ> snd) (cy_starts y))
    \<and> (cy_starts y = [] \<longrightarrow> length (cy_held y) = (if cf_session (cy_state y) = None then 0 else 1))"
proof -
  have ok: "caf_ok y" by (rule caf_reach_ok [OF assms])
  then have "cy_starts y = [] \<Longrightarrow> size (mset (cy_held y)) = (if cf_session (cy_state y) = None then 0 else 1)"
    by (auto simp: caf_ok_def session_descriptors_def split: option.split)
  then have "cy_starts y = [] \<Longrightarrow> length (cy_held y) = (if cf_session (cy_state y) = None then 0 else 1)"
    by simp
  with ok show ?thesis by (simp only: caf_ok_def) blast
qed

section \<open>Why a session ends\<close>

text \<open>A lifecycle pass ends a session only for the reason its user chose: its deadline has passed, its
  process has terminated, or the transfer it follows - and not one of another session - was
  reported as over or could not be asked about three times in a row.\<close>

theorem session_ends_for_cause:
  assumes "caf_reach h y" "cf_session (cy_state y) = Some x"
  shows "(cf_session (snd (sweep_first w now (cy_state y))) = None \<longrightarrow>
      (\<exists>d. cs_deadline x = Some d \<and> d \<le> now)
      \<or> (\<exists>p. cs_tracker x = Some (Track_Process p) \<and> cw_exited w (pi_pid p) (pi_life p)))
    \<and> (\<forall>g i r. cy_probe y = Some (g, i) \<longrightarrow> cf_session (sweep_second g r (cy_state y)) = None \<longrightarrow>
        cs_tracker x = Some (Track_Transfer i) \<and> (r = Some False \<or> r = None \<and> cs_misses x = 2))"
proof -
  have ok: "caf_ok y" by (rule caf_reach_ok [OF assms(1)])
  have "cs_tracker x = Some (Track_Transfer i) \<and> (r = Some False \<or> r = None \<and> cs_misses x = 2)"
    if "cy_probe y = Some (g, i)" "cf_session (sweep_second g r (cy_state y)) = None" for g i r
  proof -
    have "cs_generation x = g" using that(2) assms(2) by (auto simp: sweep_second_def split: if_splits)
    moreover from this have "cs_tracker x = Some (Track_Transfer i)"
      using ok that(1) assms(2) by (auto simp: caf_ok_def)
    moreover have "cs_misses x < 3" using ok assms(2) by (simp add: caf_ok_def lost_task_tolerance_def)
    ultimately show ?thesis
      using that(2) assms(2)
      by (cases r) (auto simp: sweep_second_def lost_task_tolerance_def split: if_splits bool.splits)
  qed
  then show ?thesis
    using assms(2) by (auto simp: sweep_first_def pinned_exited_def end_session_def split: option.splits if_splits tracker.splits)
qed

text \<open>Passes without an answer end a session that follows a transfer after the third and not before.\<close>

theorem lost_transfer_released:
  assumes "cf_session s = Some x" "cs_tracker x = Some (Track_Transfer i)" "cs_deadline x = None"
    "cs_misses x = 0" "\<forall>(w, now) \<in> set ws. cw_transfers w = None"
  shows "cf_session (foldl (\<lambda>s (w, now). caf_sweep w now s) s ws) = None \<longleftrightarrow> 3 \<le> length ws"
proof -
  have pass: "caf_sweep w now t = (if 2 \<le> cs_misses u then end_session t
      else t\<lparr>cf_session := Some (u\<lparr>cs_misses := Suc (cs_misses u)\<rparr>)\<rparr>)"
    if "cf_session t = Some u" "cs_tracker u = Some (Track_Transfer i)" "cs_deadline u = None" "cw_transfers w = None"
    for w now t u
    using that by (simp add: caf_sweep_def sweep_first_def sweep_second_def probe_running_def lost_task_tolerance_def)
  have gone: "cf_session (foldl (\<lambda>s (w, now). caf_sweep w now s) t vs) = None" if "cf_session t = None" for t vs
    using that by (induction vs arbitrary: t) (auto simp: caf_sweep_def sweep_first_def)
  have "cf_session (foldl (\<lambda>s (w, now). caf_sweep w now s) t ws) = None \<longleftrightarrow> 3 \<le> cs_misses u + length ws"
    if "cf_session t = Some u" "cs_tracker u = Some (Track_Transfer i)" "cs_deadline u = None" "cs_misses u < 3" for t u
    using that assms(5)
  proof (induction ws arbitrary: t u)
    case (Cons v vs)
    obtain w now where v: "v = (w, now)" by force
    then have sweep: "caf_sweep w now t = (if 2 \<le> cs_misses u then end_session t
      else t\<lparr>cf_session := Some (u\<lparr>cs_misses := Suc (cs_misses u)\<rparr>)\<rparr>)"
      using pass [OF Cons.prems(1-3)] Cons.prems(5) by auto
    show ?case
    proof (cases "2 \<le> cs_misses u")
      case True
      then show ?thesis using sweep v gone [of "end_session t" vs] by (simp add: end_session_def)
    next
      case False
      then show ?thesis
        using sweep v Cons.IH [of "t\<lparr>cf_session := Some (u\<lparr>cs_misses := Suc (cs_misses u)\<rparr>)\<rparr>"
            "u\<lparr>cs_misses := Suc (cs_misses u)\<rparr>"] Cons.prems by simp
    qed
  qed simp
  from this [OF assms(1-3)] show ?thesis using assms(4) by simp
qed

section \<open>Following a transfer\<close>

lemma transfer_running_active: "transfer_running = transfer_active"
  by (simp add: transfer_running_def transfer_active_def fun_eq_iff)

lemma group_value_reads:
  "json_index (group_value float g) ''id'' = JStr (g_id g)" "json_index (group_value float g) ''state'' = JStr (g_state g)"
  by (auto simp: group_value_def json_index_def split: option.split)

lemma snapshot_groups: "json_index (fst (transfer_snapshot float w s)) ''groups''
    = JArr (map (group_value float) (prune_groups (w_now w) (ts_groups s)))"
  by (simp add: transfer_snapshot_def Let_def json_index_def set_groups_def)

text \<open>What the probe asks is what the transfer service means: over the snapshot the transfer service
  answers with, a transfer counts as running exactly if the service holds it as active.\<close>

theorem probe_means_active:
  "probe_running (Some (fst (transfer_snapshot float w s))) i
     = Some (\<exists>g \<in> set (ts_groups s). g_id g = i \<and> transfer_active (g_state g))"
  by (auto simp: probe_running_def snapshot_groups list_ex_iff group_value_reads group_running_def text_or_def
      transfer_running_active prune_groups_def)

text \<open>As long as a job works on a transfer, no probe ends the session that follows it.\<close>

theorem working_transfer_keeps_session:
  assumes "journal ser deser" "transfer_reach ser uuid deser clean float s"
    "map_of (ts_jobs s) k = Some j" "cf_session c = Some x"
  shows "cf_session (sweep_second g (probe_running (Some (fst (transfer_snapshot float w s))) (tj_id j)) c) \<noteq> None"
proof -
  obtain u where u: "find_group (tj_id j) (ts_groups s) = Some u" "transfer_active (g_state u)"
    using job_place [OF transfer_reach_ok [OF assms(1,2)] assms(3)] by metis
  then have "u \<in> set (ts_groups s)" "g_id u = tj_id j" by (simp_all add: find_group_id)
  with u have "probe_running (Some (fst (transfer_snapshot float w s))) (tj_id j) = Some True"
    by (auto simp: probe_running_def snapshot_groups list_ex_iff group_value_reads group_running_def text_or_def
        transfer_running_active prune_groups_def)
  then show ?thesis using assms(4) by (simp add: sweep_second_def)
qed

section \<open>Timed sessions\<close>

lemma bounded_range: "bounded v = Inr n \<Longrightarrow> 60 \<le> n \<and> n \<le> 86400"
  by (auto simp: bounded_def min_seconds_def max_seconds_def split: option.splits if_splits)

lemma parse_duration_range: "parse_duration s = Inr n \<Longrightarrow> 60 \<le> n \<and> n \<le> 86400"
  by (auto simp: parse_duration_def clock_duration_def Let_def split: if_splits option.splits sum.splits prod.splits
      dest: bounded_range)

lemma duration_seconds_range: "duration_seconds h request = Inr n \<Longrightarrow> 60 \<le> n \<and> n \<le> 86400"
  using parse_duration_range
  by (fastforce simp: duration_seconds_def caffeinate_call_def json_index_def split: option.splits if_splits sum.splits)

text \<open>A timed session ends exactly at its deadline: a start that names a duration sets the deadline
  between a minute and a day ahead, every snapshot shows what is left of it and never more than was
  asked for, and a pass ends the session if and only if the deadline has been reached.\<close>

theorem deadline_exact:
  assumes "caf_start h w request now s = (Inr v, t)" "json_index request ''mode'' = JStr ''duration''"
  shows "\<exists>x d. cf_session t = Some x \<and> cs_deadline x = Some d \<and> now + 60 \<le> d \<and> d \<le> now + 86400
    \<and> (\<forall>w' now'. (cf_session (caf_sweep w' now' t) = None) = (d \<le> now'))
    \<and> (\<forall>now'. json_index (caf_snapshot t now') ''remaining'' = JNum (show_int (max (d - now') 0)))"
proof -
  obtain n fd where n: "duration_seconds h request = Inr n" and t: "t = commit_start
      \<lparr>rp_mode = ''duration'', rp_deadline = Some (now + int n), rp_task = JNull, rp_tracker = None\<rparr> fd now s"
    using assms by (auto simp: caf_start_def acquire_start_def plan_start_def text_or_def Let_def
        split: sum.splits option.splits prod.splits)
  have "cf_session (caf_sweep w' now' t) = None \<longleftrightarrow> now + int n \<le> now'" for w' now'
    by (simp add: t commit_start_def caf_sweep_def sweep_first_def end_session_def)
  moreover have "json_index (caf_snapshot t now') ''remaining'' = JNum (show_int (max (now + int n - now') 0))" for now'
    by (simp add: t commit_start_def caf_snapshot_def json_index_def)
  ultimately show ?thesis
    using duration_seconds_range [OF n] by (intro exI [of _ "the (cf_session t)"] exI [of _ "now + int n"])
      (simp add: t commit_start_def)
qed

section \<open>Replies\<close>

definition known_errors :: "string set" where
  "known_errors = {''invalid-request'', ''invalid-duration'', ''duration-out-of-range'', ''task-unavailable'',
     ''inhibit-unavailable'', ''no-session''}"

lemma duration_errors: "duration_seconds h request = Inl e \<Longrightarrow> e \<in> known_errors"
  by (auto simp: duration_seconds_def known_errors_def split: option.splits if_splits sum.splits)

lemma resolve_errors: "resolve_task w key = Inl e \<Longrightarrow> e \<in> known_errors"
  by (auto simp: resolve_task_def resolve_process_def resolve_transfer_def known_errors_def
      split: option.splits if_splits sum.splits selector.splits)

lemma plan_errors: "plan_start h w request now = Inl e \<Longrightarrow> e \<in> known_errors"
proof -
  have "''invalid-request'' \<in> known_errors" by (simp add: known_errors_def)
  then show "plan_start h w request now = Inl e \<Longrightarrow> e \<in> known_errors"
    by (auto simp: plan_start_def Let_def dest: duration_errors resolve_errors
        split: option.splits if_splits sum.splits prod.splits)
qed

lemma dispatch_errors:
  assumes "caf_dispatch h w request s = (Inl e, t)"
  shows "e \<in> known_errors \<and> t = s"
proof -
  have "e \<in> known_errors \<and> t = s" if "caf_start h w request now s = (Inl e, t)" for now
    using that plan_errors
    by (auto simp: caf_start_def acquire_start_def Let_def known_errors_def split: sum.splits option.splits prod.splits)
  then show ?thesis
    using assms by (auto simp: caf_dispatch_def Let_def known_errors_def split: if_splits option.splits)
qed

lemma snapshot_object [simp]: "is_object (caf_snapshot s now)"
  by (simp add: caf_snapshot_def split: option.split)

lemma dispatch_object: "caf_dispatch h w request s = (Inr v, t) \<Longrightarrow> is_object v"
  by (auto simp: caf_dispatch_def caf_start_def Let_def split: if_splits option.splits sum.splits prod.splits)

text \<open>Every request gets a reply of one of two shapes: an object with \<open>ok\<close> true, or \<open>ok\<close> false with an
  error for which the UI policy has a message of its own; and an error leaves the session as it was.\<close>

theorem reply_shape:
  "(json_get (fst (caf_reply h w request s)) ''ok'' = Some (JBool True))
   \<or> snd (caf_reply h w request s) = s
     \<and> (\<exists>e. fst (caf_reply h w request s) = json_obj [(''ok'', JBool False), (''error'', JStr e)]
          \<and> failure_text e \<notin> {[], ''The action failed. Try again.''})"
proof (cases "caf_dispatch h w request s")
  case (Pair r t)
  show ?thesis
  proof (cases r)
    case (Inl e)
    then have "e \<in> known_errors" "t = s" using dispatch_errors Pair by blast+
    moreover have "failure_text e \<notin> {[], ''The action failed. Try again.''}" if "e \<in> known_errors"
      using that by (auto simp: known_errors_def failure_text_def)
    ultimately show ?thesis using Pair Inl by (auto simp: caf_reply_def)
  next
    case (Inr v)
    then show ?thesis using Pair dispatch_object [of h w request s v t] by (simp add: caf_reply_def)
  qed
qed

section \<open>What is followed\<close>

lemma nat_digits_size: "length (nat_digits n) \<le> Suc k" if "n < 10 ^ Suc k"
  using that
proof (induction k arbitrary: n)
  case (Suc k)
  show ?case
  proof (cases "n < 10")
    case False
    have "n div 10 < 10 ^ Suc k" using Suc.prems by simp
    then show ?thesis using Suc.IH [of "n div 10"] False by (subst nat_digits.simps) simp
  qed (subst nat_digits.simps, simp)
qed (subst nat_digits.simps, simp)

lemma parse_process_key:
  assumes "pid \<le> u32_max" "st \<le> u64_max"
  shows "parse_key (process_key pid st) = Some (Select_Process pid st)"
proof -
  have "length (nat_digits pid) \<le> 10" "length (nat_digits st) \<le> 20"
    using nat_digits_size [of pid 9] nat_digits_size [of st 19] assms by simp_all
  moreover have "split_once (CHR '':'') (nat_digits pid @ '':'' @ nat_digits st) = Some (nat_digits pid, nat_digits st)"
    using nat_digits_no_plus [of "CHR '':''" pid] by (auto simp: split_once_Some is_ascii_digit_def)
  moreover have "split_once (CHR '':'') (process_key pid st) = Some (''process'', nat_digits pid @ '':'' @ nat_digits st)"
    by (simp add: split_once_Some process_key_def)
  ultimately show ?thesis
    using assms by (simp add: parse_key_def max_key_def) (simp add: process_key_def)
qed

lemma parse_transfer_key: "parse_key (''transfer:'' @ i)
    = (if i = [] \<or> 119 < length i then None else Some (Select_Transfer i))"
proof -
  have "split_once (CHR '':'') (''transfer:'' @ i) = Some (''transfer'', i)" by (simp add: split_once_Some)
  then show ?thesis by (auto simp: parse_key_def max_key_def)
qed

lemma identity_bound: "identity_read w pid = Some st \<Longrightarrow> pid \<le> u32_max \<and> st \<le> u64_max"
  by (auto simp: identity_read_def identity_started_def Let_def i32_max_def bind_eq_Some_conv
      split: if_splits dest: parse_uint_bound)

lemma sort_scan: "set (scan_all w) = set (take max_scan (List.map_filter (scan_process w) (cw_entries w)))"
  by (simp add: scan_all_def)

lemma scanned: "(pid, st, args) \<in> set (scan_all w) \<Longrightarrow> identity_read w pid = Some st"
  unfolding sort_scan
  by (auto simp: scan_process_def dest!: in_set_takeD map_filter_in split: option.splits if_splits)

lemma row_key [simp]: "json_index (process_row w pid st args b) ''key'' = JStr (process_key pid st)"
  "json_index (transfer_row key g) ''key'' = JStr key"
  by (simp_all add: process_row_def transfer_row_def json_index_def)

text \<open>The picker's keys are understood: the key of every listed process selects that process and start
  time, and the key of a listed transfer selects the transfer as long as its identifier is neither
  empty nor longer than 119 bytes.\<close>

theorem listed_keys_parse:
  assumes "row \<in> set (caf_tasks w)"
  shows "\<exists>key. json_index row ''key'' = JStr key \<and>
    ((\<exists>pid st. key = process_key pid st \<and> identity_read w pid = Some st \<and> parse_key key = Some (Select_Process pid st))
     \<or> (\<exists>i. key = ''transfer:'' @ i \<and> (parse_key key = Some (Select_Transfer i) \<longleftrightarrow> i \<noteq> [] \<and> length i \<le> 119)))"
proof -
  consider (transfer) gs where "row \<in> set (transfer_rows gs)"
    | (process) pid st args b where "row = process_row w pid st args b" "(pid, st, args) \<in> set (scan_all w)"
    using assms unfolding caf_tasks_def Let_def
    by (auto split: option.splits dest!: in_set_takeD)
  then show ?thesis
  proof cases
    case transfer
    then obtain i g where "row = transfer_row (''transfer:'' @ i) g"
      by (auto simp: transfer_rows_def dest!: map_filter_in split: if_splits option.splits)
    then show ?thesis using parse_transfer_key [of i] by auto
  next
    case process
    then have "identity_read w pid = Some st" by (simp add: scanned)
    then show ?thesis using process parse_process_key identity_bound by auto
  qed
qed

text \<open>What the kernel promises about a pidfd: if the identifier names another process a moment later,
  the process it was opened on has terminated.\<close>

definition pidfd_sound :: "caf_world \<Rightarrow> bool" where
  "pidfd_sound w \<longleftrightarrow> (\<forall>pid life st. cw_pidfd w pid = Some life \<longrightarrow> identity_read w pid = Some st
     \<longrightarrow> st \<noteq> life \<longrightarrow> cw_exited w pid life)"

text \<open>A recycled process identifier is never followed: the session of a key the picker issued tracks the
  very process, by its start time, that was listed, and its row shows the same key.\<close>

theorem resolve_pins_process:
  assumes "pidfd_sound w" "resolve_task w (process_key pid st) = Inr (row, tr)" "pid \<le> u32_max" "st \<le> u64_max"
  shows "tr = Track_Process \<lparr>pi_pid = pid, pi_life = st, pi_started = st\<rparr> \<and> \<not> cw_exited w pid st
    \<and> json_index row ''key'' = JStr (process_key pid st)"
proof -
  have "resolve_process w pid st = Inr (row, tr)"
    using assms(2) parse_process_key [OF assms(3,4)] by (simp add: resolve_task_def)
  then obtain p where p: "pinned_open w pid = Some p" "pi_started p = st" "\<not> pinned_exited w p" "tr = Track_Process p"
    "json_index row ''key'' = JStr (process_key pid st)"
    by (auto simp: resolve_process_def split: option.splits if_splits)
  then obtain life where "p = \<lparr>pi_pid = pid, pi_life = life, pi_started = st\<rparr>" "cw_pidfd w pid = Some life"
    "identity_read w pid = Some st"
    by (auto simp: pinned_open_def split: option.splits if_splits)
  then show ?thesis using assms(1) p by (auto simp: pidfd_sound_def pinned_exited_def)
qed

section \<open>Labels\<close>

definition label_words :: "string list" where
  "label_words = [] # concat (map (\<lambda>(name, commands). concat (map (\<lambda>c. ('' '' @ c) #
     (if name = ''nh'' then map (\<lambda>a. '' '' @ c @ '' '' @ a) nh_actions else [])) commands)) build_subcommands)"

lemma label_wordsI:
  assumes "(name, cs) \<in> set build_subcommands" "c \<in> set cs"
    "x = '' '' @ c \<or> name = ''nh'' \<and> (\<exists>a \<in> set nh_actions. x = '' '' @ c @ '' '' @ a)"
  shows "x \<in> set label_words"
proof -
  let ?f = "\<lambda>name c. ('' '' @ c) # (if name = ''nh'' then map (\<lambda>a. '' '' @ c @ '' '' @ a) nh_actions else [])"
  have "x \<in> set (?f name c)" using assms(3) by (elim disjE conjE bexE) simp_all
  then have "x \<in> set (concat (map (?f name) cs))" unfolding set_concat set_map
    by (rule UN_I [OF imageI [OF assms(2)]])
  then have "x \<in> set (concat (map (\<lambda>(name, cs). concat (map (?f name) cs)) build_subcommands))"
    unfolding set_concat [of "map _ build_subcommands"] set_map
    by (intro UN_I [OF imageI [OF assms(1)]]) simp
  then show ?thesis unfolding label_words_def by (rule list.set_intros(2))
qed

text \<open>A row shows the program and nothing of its arguments: the label is the program's name, at most 64
  bytes of it, followed by one of the finitely many phrases the source lists.\<close>

theorem label_keeps_arguments_private:
  "\<exists>phrase \<in> set label_words. command_label arguments
     = clip_text (case arguments of [] \<Rightarrow> [] | a # _ \<Rightarrow> program_name a) 64 @ phrase"
proof -
  let ?program = "case nth_opt 0 arguments of Some a \<Rightarrow> program_name a | None \<Rightarrow> []"
  have program: "(case arguments of [] \<Rightarrow> [] | a # _ \<Rightarrow> program_name a) = ?program"
    by (cases arguments) (simp_all add: nth_opt_def)
  have phrase: "'' '' @ v \<in> set label_words" if "subcommand_of p v" for p v
  proof -
    from that obtain cs where "(p, cs) \<in> set build_subcommands" "v \<in> set cs"
      by (auto simp: subcommand_of_def list_ex_iff)
    then show ?thesis by (rule label_wordsI) simp
  qed
  have action: "'' '' @ v @ '' '' @ a \<in> set label_words" if "subcommand_of ''nh'' v" "a \<in> set nh_actions" for v a
  proof -
    from that(1) obtain cs where cs: "(''nh'', cs) \<in> set build_subcommands" "v \<in> set cs"
      by (auto simp: subcommand_of_def list_ex_iff)
    show ?thesis by (rule label_wordsI [OF cs]) (use that(2) in simp)
  qed
  have none: "[] \<in> set label_words" by (simp add: label_words_def)
  show ?thesis
  proof (cases "nth_opt 1 arguments")
    case (Some v)
    show ?thesis
    proof (cases "subcommand_of ?program v")
      case True
      define p where "p = ?program"
      have label: "command_label arguments = (let label = clip_text p 64 @ '' '' @ v in
          if p = ''nh'' then (case nth_opt 2 arguments of None \<Rightarrow> label
            | Some a \<Rightarrow> if a \<in> set nh_actions then label @ '' '' @ a else label) else label)"
        using Some True by (simp add: command_label_def Let_def p_def [symmetric])
      consider "command_label arguments = clip_text p 64 @ '' '' @ v"
        | a where "p = ''nh''" "a \<in> set nh_actions" "command_label arguments = clip_text p 64 @ '' '' @ v @ '' '' @ a"
        unfolding label Let_def
        by (cases "nth_opt 2 arguments"; cases "p = ''nh''"; cases "the (nth_opt 2 arguments) \<in> set nh_actions") auto
      then show ?thesis unfolding program p_def [symmetric] using True phrase action p_def by cases metis+
    qed (use Some none in \<open>auto simp: program command_label_def Let_def\<close>)
  qed (use none in \<open>auto simp: program command_label_def Let_def\<close>)
qed

section \<open>Witnesses\<close>

definition wit_stat :: string where
  "wit_stat = ''7 (a) S 1 1 1 1 1 1 1 1 1 1 1 1 1 1 1 1 1 1 5 0''"

definition wit_snap :: json where
  "wit_snap = JObj [(''groups'', JArr [JObj [(''id'', JStr ''u''), (''state'', JStr ''receiving'')]])]"

definition wit_caf :: caf_world where
  "wit_caf = \<lparr>cw_now = 100, cw_inhibit = Some 9, cw_transfers = Some wit_snap, cw_pidfd = (\<lambda>_. Some 5),
     cw_exited = (\<lambda>_ _. False), cw_stat = (\<lambda>p. if p = 7 then Some wit_stat else None),
     cw_cmdline = (\<lambda>_. Some ''make''), cw_lossy = id, cw_cwd = (\<lambda>_. None), cw_marked = (\<lambda>_. False),
     cw_entries = [''7'', ''self''], cw_self = 3\<rparr>"

definition wit_follow :: request_plan where
  "wit_follow = \<lparr>rp_mode = ''task'', rp_deadline = None,
     rp_task = transfer_row ''transfer:u'' (JObj [(''id'', JStr ''u''), (''state'', JStr ''receiving'')]),
     rp_tracker = Some (Track_Transfer ''u'')\<rparr>"

lemma wit_started: "identity_started wit_stat = Some 5"
  by code_simp

lemma wit_identity: "identity_read wit_caf p = (if p = 7 then Some 5 else None)"
  by (simp add: identity_read_def wit_caf_def wit_started i32_max_def)

lemma wit_acquired: "acquire_start demo_host wit_caf
    (JObj [(''mode'', JStr ''task''), (''task'', JStr ''transfer:u'')]) 100 = Inr (wit_follow, 9)"
proof -
  have "parse_key ''transfer:u'' = Some (Select_Transfer ''u'')" using parse_transfer_key [of "''u''"] by simp
  then show ?thesis
    by (simp add: acquire_start_def plan_start_def text_or_def json_index_def resolve_task_def resolve_transfer_def
        wit_caf_def wit_snap_def group_running_def transfer_running_def wit_follow_def)
qed

definition wit_following :: caf_state where
  "wit_following = commit_start wit_follow 9 100 caf_default"

lemma wit_active: "caf_reach demo_host \<lparr>cy_state = wit_following, cy_starts = [], cy_probe = None, cy_held = [9]\<rparr>"
proof -
  let ?y = "caf_booted\<lparr>cy_starts := [(wit_follow, 9, 100)], cy_held := [9]\<rparr>"
  have "caf_step demo_host caf_booted ?y"
    using caf_step.acquire [OF wit_acquired, of caf_booted] by (simp add: caf_booted_def)
  moreover have "caf_step demo_host ?y (put_state (commit_start wit_follow 9 100 (cy_state ?y))
      (?y\<lparr>cy_starts := remove1 (wit_follow, 9, 100) (cy_starts ?y)\<rparr>))"
    by (rule caf_step.commit) simp
  ultimately show ?thesis
    unfolding caf_reach_def
    by (auto simp: put_state_def close_dropped_def caf_booted_def caf_default_def wit_following_def
        intro: rtranclp.rtrancl_into_rtrancl)
qed

lemma wit_probing:
  "caf_reach demo_host \<lparr>cy_state = wit_following, cy_starts = [], cy_probe = Some (1, ''u''), cy_held = [9]\<rparr>"
proof -
  have "sweep_first wit_caf 101 wit_following = (Some (1, ''u''), wit_following)"
    by (simp add: sweep_first_def wit_following_def commit_start_def wit_follow_def caf_default_def)
  then have "caf_step demo_host \<lparr>cy_state = wit_following, cy_starts = [], cy_probe = None, cy_held = [9]\<rparr>
      \<lparr>cy_state = wit_following, cy_starts = [], cy_probe = Some (1, ''u''), cy_held = [9]\<rparr>"
    using caf_step.sweep [of "\<lparr>cy_state = wit_following, cy_starts = [], cy_probe = None, cy_held = [9]\<rparr>" wit_caf 101]
    by (simp add: put_state_def)
  then show ?thesis using wit_active unfolding caf_reach_def by (rule rtranclp.rtrancl_into_rtrancl [rotated])
qed

theorem inhibitor_follows_session_witness:
  "mset [9] = session_descriptors wit_following \<and> length [9 :: nat] = (if cf_session wit_following = None then 0 else 1)"
  using inhibitor_follows_session [OF wit_active] by simp_all

theorem session_ends_for_cause_witness:
  "\<exists>x. cf_session wit_following = Some x \<and> cf_session (sweep_second 1 (Some False) wit_following) = None
    \<and> cs_tracker x = Some (Track_Transfer ''u'')"
proof -
  obtain x where x: "cf_session wit_following = Some x" by (simp add: wit_following_def commit_start_def)
  moreover have ended: "cf_session (sweep_second 1 (Some False) wit_following) = None"
    by (simp add: wit_following_def commit_start_def sweep_second_def end_session_def caf_default_def)
  ultimately show ?thesis
    using session_ends_for_cause [OF wit_probing, of x] by simp
qed

theorem lost_transfer_released_witness:
  "cf_session (foldl (\<lambda>s (w, now). caf_sweep w now s) wit_following
     (replicate 3 (wit_caf\<lparr>cw_transfers := None\<rparr>, 200))) = None"
  using lost_transfer_released [of wit_following _ "''u''" "replicate 3 (wit_caf\<lparr>cw_transfers := None\<rparr>, 200)"]
  by (simp add: wit_following_def commit_start_def wit_follow_def)

theorem working_transfer_keeps_session_witness:
  "cf_session (sweep_second 1 (probe_running (Some (fst (transfer_snapshot (\<lambda>_. JNull) wit_world
     (wit_at ''1'' (attempted_file wit_entry) (At_stage (Receiving ''a'') wit_place))))) ''u'') wit_following) \<noteq> None"
proof -
  have "tj_id (wit_job pc) = ''u''" for pc by (simp add: wit_job_def)
  then show ?thesis
    using working_transfer_keeps_session [OF wit_journal wit_run wit_job_at, where c = wit_following and g = 1
        and w = wit_world] by (simp add: wit_following_def commit_start_def)
qed

theorem deadline_exact_witness:
  "\<exists>t x d. snd (caf_start demo_host wit_caf (JObj [(''duration'', JStr ''2h''), (''mode'', JStr ''duration'')]) 100 caf_default) = t
    \<and> cf_session t = Some x \<and> cs_deadline x = Some d \<and> d \<le> 100 + 86400"
proof -
  have "parse_duration ''2h'' = Inr 7200" by code_simp
  then have "duration_seconds demo_host (JObj [(''duration'', JStr ''2h''), (''mode'', JStr ''duration'')]) = Inr 7200"
    by (simp add: duration_seconds_def json_index_def caffeinate_call_def js_string_def)
  then obtain v t where t: "caf_start demo_host wit_caf (JObj [(''duration'', JStr ''2h''), (''mode'', JStr ''duration'')]) 100
      caf_default = (Inr v, t)"
    by (simp add: caf_start_def acquire_start_def plan_start_def text_or_def json_index_def wit_caf_def Let_def)
  show ?thesis using deadline_exact [OF t] t by (auto simp: json_index_def)
qed

theorem listed_keys_parse_witness:
  "\<exists>row \<in> set (caf_tasks wit_caf). \<exists>key. json_index row ''key'' = JStr key \<and> parse_key key \<noteq> None"
proof -
  let ?row = "transfer_row (''transfer:'' @ ''u'') (JObj [(''id'', JStr ''u''), (''state'', JStr ''receiving'')])"
  have row: "?row \<in> set (caf_tasks wit_caf)"
    by (simp add: caf_tasks_def Let_def wit_caf_def wit_snap_def json_index_def transfer_rows_def List.map_filter_def
        group_running_def text_or_def transfer_running_def max_key_def)
  from listed_keys_parse [OF this] have "parse_key (''transfer:'' @ ''u'') \<noteq> None"
    by (auto simp: process_key_def)
  then show ?thesis using row by (intro bexI [OF _ row]) simp
qed

theorem resolve_pins_process_witness:
  "\<exists>row. resolve_task wit_caf (process_key 7 5) = Inr (row, Track_Process \<lparr>pi_pid = 7, pi_life = 5, pi_started = 5\<rparr>)"
proof -
  have "caf_argv wit_caf 7 = Some [''make'']" by (simp add: caf_argv_def wit_caf_def)
  moreover have "cw_pidfd wit_caf 7 = Some 5" "\<not> cw_exited wit_caf 7 5" by (simp_all add: wit_caf_def)
  ultimately obtain row tr where r: "resolve_task wit_caf (process_key 7 5) = Inr (row, tr)"
    using parse_process_key [of 7 5]
    by (simp add: resolve_task_def resolve_process_def pinned_open_def pinned_exited_def wit_identity i32_max_def)
  have "pidfd_sound wit_caf" by (simp add: pidfd_sound_def wit_identity) (simp add: wit_caf_def)
  from resolve_pins_process [OF this r] r show ?thesis by simp
qed

end
