(* ===== verification/Drift_Model.thy ===== *)
theory Drift_Model
  imports Durations Civil_Time Ports_Helper
begin

text \<open>
  \<open>tools/src/drift.rs\<close>, reading: the catalog of checks, the output of resolvectl and systemctl, and
  the analysis of the three checks. What a check reads is a record of functions (the trait
  \<open>Reads\<close>); \<open>None\<close> is a probe that failed.
\<close>

section \<open>Catalog\<close>

definition quad9_id :: string where "quad9_id = ''quad9-dot''"
definition podman_id :: string where "podman_id = ''podman-rootless''"
definition remote_id :: string where "remote_id = ''remote-shell''"

record catalog =
  ca_dns :: "string list"
  ca_quad9 :: bool
  ca_podman :: bool
  ca_remote :: bool

definition check_enabled :: "catalog \<Rightarrow> string \<Rightarrow> bool" where
  "check_enabled c i = (if i = quad9_id then ca_quad9 c else if i = podman_id then ca_podman c
     else if i = remote_id then ca_remote c else False)"

definition dns_token :: "string \<Rightarrow> bool" where
  "dns_token t \<longleftrightarrow> t \<noteq> [] \<and> length t \<le> 80 \<and> CHR ''#'' \<in> set t
     \<and> list_all (\<lambda>c. is_ascii_alphanumeric c \<or> c \<in> set '':.#'') t"

record raw_catalog =
  rc_version :: nat
  rc_checks :: "(string \<times> string list) list"    \<comment> \<open>the resolvers of each check\<close>

definition catalog_limit :: nat where "catalog_limit = 65536"

text \<open>The text of the file, or none; \<open>decode\<close> is serde\_json.\<close>

definition load_catalog :: "(string \<Rightarrow> raw_catalog option) \<Rightarrow> string \<Rightarrow> string option \<Rightarrow> string + catalog" where
  "load_catalog decode path txt = (case txt of
       None \<Rightarrow> Inl (''This machine has no drift catalog at '' @ path @ ''.'')
     | Some t \<Rightarrow>
         if catalog_limit < length t then Inl ''The drift catalog is too large.''
         else (case decode t of
                 None \<Rightarrow> Inl ''The drift catalog is unreadable.''
               | Some raw \<Rightarrow>
                   if rc_version raw \<noteq> 1 then Inl ''The drift catalog version is not supported.''
                   else
                     (let quad9 = map_of (rc_checks raw) quad9_id;
                          c = \<lparr>ca_dns = (case quad9 of Some d \<Rightarrow> d | None \<Rightarrow> []), ca_quad9 = (quad9 \<noteq> None),
                               ca_podman = (map_of (rc_checks raw) podman_id \<noteq> None),
                               ca_remote = (map_of (rc_checks raw) remote_id \<noteq> None)\<rparr>
                      in if ca_quad9 c \<and> (ca_dns c = [] \<or> \<not> list_all dns_token (ca_dns c))
                         then Inl ''The Quad9 check has no resolvers.''
                         else if \<not> ca_quad9 c \<and> \<not> ca_podman c \<and> \<not> ca_remote c
                         then Inl ''The drift catalog has no checks.''
                         else Inr c)))"

section \<open>Units\<close>

record unit_state =
  un_present :: bool
  un_not_found :: bool
  un_active :: bool
  un_enabled :: bool

datatype unit_class = Loaded unit_state | Missing | Unreadable

definition classify :: "unit_state option \<Rightarrow> unit_class" where
  "classify p = (case p of
       None \<Rightarrow> Unreadable
     | Some u \<Rightarrow> if un_not_found u then Missing else if un_present u then Loaded u else Unreadable)"

text \<open>The last line with a key counts.\<close>

definition show_value :: "string \<Rightarrow> string \<Rightarrow> string option" where
  "show_value key txt =
     map_of (rev (List.map_filter (\<lambda>l. split_once (CHR ''='') (trim l)) (str_lines txt))) key"

definition parse_show :: "string \<Rightarrow> unit_state option" where
  "parse_show txt = (case show_value ''LoadState'' txt of
       None \<Rightarrow> None
     | Some load \<Rightarrow>
         (let active = get_or [] (show_value ''ActiveState'' txt);
              file = get_or [] (show_value ''UnitFileState'' txt)
          in Some \<lparr>un_present = (load = ''loaded''), un_not_found = (load = ''not-found''),
                un_active = (active = ''active''),
                un_enabled = (file = ''enabled'' \<or> file = ''enabled-runtime'')\<rparr>))"

record reads =
  rd_resolvectl :: "string option"
  rd_unit :: "bool \<Rightarrow> string \<Rightarrow> unit_state option"

section \<open>Operations\<close>

datatype system_op =
    Restart_Resolved
  | Revert_Link string
  | Stop_Podman_Socket
  | Disable_Podman_Socket
  | Stop_Docker_Socket
  | Disable_Docker_Socket
  | Disable_Sshd
  | Start_Tailscaled
  | Enable_Tailscaled

definition systemctl_path :: string where "systemctl_path = ''/run/current-system/sw/bin/systemctl''"
definition resolvectl_path :: string where "resolvectl_path = ''/run/current-system/sw/bin/resolvectl''"

fun op_program :: "system_op \<Rightarrow> string" where
  "op_program (Revert_Link name) = resolvectl_path"
| "op_program _ = systemctl_path"

fun op_args :: "system_op \<Rightarrow> string list" where
  "op_args Restart_Resolved = [''restart'', ''systemd-resolved.service'']"
| "op_args (Revert_Link name) = [''revert'', name]"
| "op_args Stop_Podman_Socket = [''stop'', ''podman.socket'']"
| "op_args Disable_Podman_Socket = [''disable'', ''podman.socket'']"
| "op_args Stop_Docker_Socket = [''stop'', ''docker.socket'']"
| "op_args Disable_Docker_Socket = [''disable'', ''docker.socket'']"
| "op_args Disable_Sshd = [''disable'', ''sshd.service'']"
| "op_args Start_Tailscaled = [''start'', ''tailscaled.service'']"
| "op_args Enable_Tailscaled = [''enable'', ''tailscaled.service'']"

fun op_describe :: "system_op \<Rightarrow> string" where
  "op_describe Restart_Resolved = ''Restart systemd-resolved''"
| "op_describe (Revert_Link name) = ''Revert '' @ name"
| "op_describe Stop_Podman_Socket = ''Stop the rootful podman.socket''"
| "op_describe Disable_Podman_Socket = ''Disable the rootful podman.socket at boot''"
| "op_describe Stop_Docker_Socket = ''Stop docker.socket''"
| "op_describe Disable_Docker_Socket = ''Disable docker.socket at boot''"
| "op_describe Disable_Sshd = ''Disable OpenSSH at boot''"
| "op_describe Start_Tailscaled = ''Start Tailscale''"
| "op_describe Enable_Tailscaled = ''Enable Tailscale at boot''"

section \<open>Views\<close>

record check_view =
  cv_id :: string
  cv_title :: string
  cv_drifted :: bool
  cv_unavailable :: bool
  cv_before :: string
  cv_after :: string
  cv_restore :: string

record analysis =
  an_view :: check_view
  an_ops :: "system_op list"
  an_start_user :: bool

definition sentence :: "string list \<Rightarrow> string" where
  "sentence parts = join_with middle_dot (filter (\<lambda>p. p \<noteq> []) parts)"

definition make_view :: "string \<Rightarrow> string \<Rightarrow> string \<Rightarrow> string \<Rightarrow> string \<Rightarrow> bool \<Rightarrow> bool \<Rightarrow> check_view" where
  "make_view i title before after restore drifted unread =
     \<lparr>cv_id = i, cv_title = title, cv_drifted = drifted, cv_unavailable = unread,
      cv_before = (if \<not> drifted \<and> \<not> unread then after else before), cv_after = after,
      cv_restore = (if drifted then restore else [])\<rparr>"

definition unavailable_check :: "string \<Rightarrow> string \<Rightarrow> string \<Rightarrow> analysis" where
  "unavailable_check i title detail =
     \<lparr>an_view = make_view i title detail detail [] False True, an_ops = [], an_start_user = False\<rparr>"

section \<open>The resolver\<close>

datatype last_field = No_Field | Servers_Field | Domains_Field

record scope =
  sc_global :: bool
  sc_name :: string
  sc_protocols :: string
  sc_setting :: string
  sc_servers :: "string list"
  sc_domains :: "string list"
  sc_last :: last_field

definition field_line :: "string \<Rightarrow> (string \<times> string) option" where
  "field_line line = (case split_once (CHR '':'') (trim line) of
       None \<Rightarrow> None
     | Some (key, value) \<Rightarrow>
         (let key = trim key
          in if key = [] \<or> \<not> is_ascii_alphabetic (hd key)
               \<or> list_ex (\<lambda>c. \<not> (is_ascii_alphabetic c \<or> c = CHR '' '')) key
             then None else Some (key, trim value)))"

definition line_tokens :: "string \<Rightarrow> string list" where
  "line_tokens value = take 32 (split_whitespace value)"

definition link_name :: "string \<Rightarrow> bool" where
  "link_name n \<longleftrightarrow> 1 \<le> length n \<and> length n \<le> 15 \<and> is_ascii_alphabetic (hd n)
     \<and> list_all (\<lambda>c. is_ascii_alphanumeric c \<or> c \<in> set ''-_.'') (tl n)"

definition new_scope :: "bool \<Rightarrow> string \<Rightarrow> scope" where
  "new_scope global name = \<lparr>sc_global = global, sc_name = name, sc_protocols = [], sc_setting = [],
     sc_servers = [], sc_domains = [], sc_last = No_Field\<rparr>"

text \<open>The scope a heading opens.\<close>

definition heading :: "string \<Rightarrow> scope option" where
  "heading trimmed =
     (if trimmed = ''Global'' then Some (new_scope True [])
      else (case strip_pre ''Link '' trimmed of
              None \<Rightarrow> None
            | Some rest \<Rightarrow>
                (case split_once (CHR ''('') rest of
                   None \<Rightarrow> None
                 | Some (_, after) \<Rightarrow>
                     (case split_once (CHR '')'') after of
                        None \<Rightarrow> None | Some (name, _) \<Rightarrow> Some (new_scope False (trim name))))))"

definition scope_line :: "string \<Rightarrow> scope \<Rightarrow> scope" where
  "scope_line line c = (case field_line line of
       Some (key, value) \<Rightarrow>
         if key = ''Protocols'' then c\<lparr>sc_protocols := value\<rparr>
         else if key = ''DNSOverTLS setting'' then c\<lparr>sc_setting := value\<rparr>
         else if key = ''DNS Servers'' then c\<lparr>sc_servers := line_tokens value, sc_last := Servers_Field\<rparr>
         else if key = ''DNS Domain'' then c\<lparr>sc_domains := line_tokens value, sc_last := Domains_Field\<rparr>
         else c\<lparr>sc_last := No_Field\<rparr>
     | None \<Rightarrow>
         (case sc_last c of
            Servers_Field \<Rightarrow> c\<lparr>sc_servers := sc_servers c @ line_tokens (trim line)\<rparr>
          | Domains_Field \<Rightarrow> c\<lparr>sc_domains := sc_domains c @ line_tokens (trim line)\<rparr>
          | No_Field \<Rightarrow> c))"

fun opt_list :: "'a option \<Rightarrow> 'a list" where
  "opt_list None = []"
| "opt_list (Some x) = [x]"

text \<open>The loop over the lines, with the scopes that are closed and the open one.\<close>

fun status_lines :: "string list \<Rightarrow> scope list \<Rightarrow> scope option \<Rightarrow> scope list" where
  "status_lines [] scopes cur = scopes @ opt_list cur"
| "status_lines (line # lines) scopes cur =
     (if 64 \<le> length scopes then scopes @ opt_list cur
      else (case heading (trim line) of
              Some c \<Rightarrow> status_lines lines (scopes @ opt_list cur) (Some c)
            | None \<Rightarrow> status_lines lines scopes (map_option (scope_line line) cur)))"

definition status_limit :: nat where "status_limit = 262144"

definition parse_status :: "string \<Rightarrow> scope list" where
  "parse_status txt = status_lines (str_lines (clip_chars txt status_limit)) [] None"

definition strict_dot :: "scope \<Rightarrow> bool option" where
  "strict_dot c =
     (if sc_setting c \<noteq> [] then Some (sc_setting c \<in> set [''yes'', ''true''])
      else if contains_str ''+DNSOverTLS'' (sc_protocols c) then Some True
      else if contains_str ''-DNSOverTLS'' (sc_protocols c) \<or> contains_str ''DNSOverTLS=no'' (sc_protocols c)
      then Some False
      else None)"

definition plain_text :: "string \<Rightarrow> string" where
  "plain_text t = of_chars (take 80 (filter (\<lambda>c. \<not> is_control c) (chars t)))"

definition show_server :: "string \<Rightarrow> string" where
  "show_server t = (case split_once (CHR ''#'') t of
       Some (address, name) \<Rightarrow>
         if name = ''dns.quad9.net'' then plain_text address
         else plain_text address @ '' ('' @ plain_text name @ '')''
     | None \<Rightarrow> plain_text t @ '' unauthenticated'')"

definition holds_root :: "string list \<Rightarrow> bool" where
  "holds_root domains \<longleftrightarrow> ''~.'' \<in> set domains"

definition quad9_after :: "string list \<Rightarrow> string" where
  "quad9_after dns = ''Strict DNS-over-TLS through Quad9 ('' @
     join_with '', '' (map (\<lambda>t. plain_text (case split_once (CHR ''#'') t of Some (a, _) \<Rightarrow> a | None \<Rightarrow> t)) dns)
     @ ''), with ~. routed there''"

text \<open>The problem with the setting, if any.\<close>

definition dot_problem :: "scope \<Rightarrow> string option" where
  "dot_problem c = (case strict_dot c of
       Some True \<Rightarrow> None
     | Some False \<Rightarrow> Some (if sc_setting c = ''opportunistic'' then ''DNS-over-TLS is opportunistic''
                          else ''DNS-over-TLS is off'')
     | None \<Rightarrow> Some ''DNS-over-TLS was not reported'')"

definition analyze_quad9 :: "catalog \<Rightarrow> reads \<Rightarrow> analysis" where
  "analyze_quad9 cat rd =
     (let title = ''Quad9 DNS-over-TLS''; after = quad9_after (ca_dns cat)
      in case rd_resolvectl rd of
           None \<Rightarrow> unavailable_check quad9_id title ''Could not read systemd-resolved''
         | Some status \<Rightarrow>
             (let scopes = parse_status status
              in case find sc_global scopes of
                   None \<Rightarrow> unavailable_check quad9_id title ''Could not read the system resolver''
                 | Some g \<Rightarrow>
                     (let other = set (sc_servers g) \<noteq> set (ca_dns cat);
                          shown = (if sc_servers g = [] then ''unset''
                                   else join_with '', '' (map show_server (take 8 (sc_servers g))));
                          unrouted = \<not> holds_root (sc_domains g);
                          links = filter (\<lambda>c. \<not> sc_global c \<and> holds_root (sc_domains c)) scopes;
                          problems = opt_list (dot_problem g)
                            @ (if other then [''Resolvers are '' @ shown] else [])
                            @ (if unrouted then [''Public names have no Quad9 route''] else [])
                            @ map (\<lambda>c. if link_name (sc_name c) then sc_name c @ '' holds ~.''
                                       else ''A link holds ~.'') links;
                          ops = (if dot_problem g \<noteq> None \<or> other \<or> unrouted then [Restart_Resolved] else [])
                            @ map (\<lambda>c. Revert_Link (sc_name c)) (filter (\<lambda>c. link_name (sc_name c)) links)
                      in \<lparr>an_view = make_view quad9_id title (sentence problems) after
                             (sentence (map op_describe ops)) (ops \<noteq> []) False,
                          an_ops = ops, an_start_user = False\<rparr>)))"

section \<open>Sockets\<close>

definition socket_drift :: "string \<Rightarrow> unit_state \<Rightarrow> system_op \<Rightarrow> system_op \<Rightarrow> string option \<times> system_op list" where
  "socket_drift label u stop disable =
     (if un_not_found u \<or> (\<not> un_present u \<and> \<not> un_active u \<and> \<not> un_enabled u) then (None, [])
      else
        (if un_active u \<and> un_enabled u then Some (label @ '' is running and starts at boot'')
         else if un_active u then Some (label @ '' is running'')
         else if un_enabled u then Some (label @ '' starts at boot'')
         else None,
         (if un_active u then [stop] else []) @ (if un_enabled u then [disable] else [])))"

definition missing_unit :: unit_state where
  "missing_unit = \<lparr>un_present = False, un_not_found = True, un_active = False, un_enabled = False\<rparr>"

definition socket_unit :: "unit_class \<Rightarrow> unit_state option" where
  "socket_unit c = (case c of Unreadable \<Rightarrow> None | Missing \<Rightarrow> Some missing_unit | Loaded u \<Rightarrow> Some u)"

definition podman_after :: string where
  "podman_after =
     ''Rootful Podman and Docker sockets are stopped and manual. Your Podman socket is running.''"

definition podman_title :: string where "podman_title = ''Podman stays rootless''"

text \<open>The verdict, once the two system sockets could be read.\<close>

definition podman_verdict :: "unit_state \<Rightarrow> unit_state \<Rightarrow> unit_class \<Rightarrow> analysis" where
  "podman_verdict rootful docker user =
     (let r = socket_drift ''Rootful podman.socket'' rootful Stop_Podman_Socket Disable_Podman_Socket;
          d = socket_drift ''docker.socket'' docker Stop_Docker_Socket Disable_Docker_Socket;
          ops = snd r @ snd d;
          start_user = (case user of Loaded u \<Rightarrow> \<not> un_active u | _ \<Rightarrow> False);
          problems = opt_list (fst r) @ opt_list (fst d) @
            (case user of
               Loaded u \<Rightarrow> if un_active u then [] else [''Your Podman socket is stopped'']
             | Missing \<Rightarrow> [''Your Podman socket is not installed'']
             | Unreadable \<Rightarrow> [''Your Podman socket could not be read'']);
          blocked = (case user of Loaded _ \<Rightarrow> False | _ \<Rightarrow> True)
      in if problems = [] then
           \<lparr>an_view = make_view podman_id podman_title [] podman_after [] False False, an_ops = ops,
            an_start_user = False\<rparr>
         else if ops = [] \<and> \<not> start_user \<and> blocked then
           unavailable_check podman_id podman_title (join_with middle_dot problems)
         else
           \<lparr>an_view = make_view podman_id podman_title (sentence problems) podman_after
              (sentence (map op_describe ops
                @ (if start_user then [''Start your Podman socket''] else []))) True False,
            an_ops = ops, an_start_user = start_user\<rparr>)"

definition analyze_podman :: "reads \<Rightarrow> analysis" where
  "analyze_podman rd =
     (case socket_unit (classify (rd_unit rd False ''podman.socket'')) of
        None \<Rightarrow> unavailable_check podman_id podman_title ''Could not read the rootful Podman socket''
      | Some rootful \<Rightarrow>
          (case socket_unit (classify (rd_unit rd False ''docker.socket'')) of
             None \<Rightarrow> unavailable_check podman_id podman_title ''Could not read the Docker socket''
           | Some docker \<Rightarrow> podman_verdict rootful docker (classify (rd_unit rd True ''podman.socket''))))"

section \<open>The remote shell\<close>

definition remote_after :: "bool \<Rightarrow> bool \<Rightarrow> string" where
  "remote_after active disabling = ''Tailscale is running and starts at boot. '' @
     (if disabling then ''OpenSSH is manual. This session keeps running.''
      else if active then ''OpenSSH is on for this session and is manual.''
      else ''OpenSSH is manual.'')"

definition tail_findings :: "unit_class \<Rightarrow> (string \<times> system_op option) list" where
  "tail_findings c = (case c of
       Loaded u \<Rightarrow> (if un_active u then [] else [(''Tailscale is stopped'', Some Start_Tailscaled)])
         @ (if un_enabled u then [] else [(''Tailscale is disabled at boot'', Some Enable_Tailscaled)])
     | Missing \<Rightarrow> [(''Tailscale is not installed'', None)]
     | Unreadable \<Rightarrow> [(''Tailscale could not be read'', None)])"

definition ssh_findings :: "unit_class \<Rightarrow> (string \<times> system_op option) list" where
  "ssh_findings c = (case c of
       Loaded u \<Rightarrow> if un_enabled u then [(''OpenSSH starts at boot'', Some Disable_Sshd)] else []
     | Missing \<Rightarrow> []
     | Unreadable \<Rightarrow> [(''OpenSSH could not be read'', None)])"

definition analyze_remote :: "reads \<Rightarrow> analysis" where
  "analyze_remote rd =
     (let title = ''Remote shell stays declarative'';
          tail = classify (rd_unit rd False ''tailscaled.service'');
          ssh = classify (rd_unit rd False ''sshd.service'');
          findings = tail_findings tail @ ssh_findings ssh;
          problems = map fst findings;
          ops = List.map_filter snd findings;
          active = (case ssh of Loaded u \<Rightarrow> un_active u | _ \<Rightarrow> False);
          enabled = (case ssh of Loaded u \<Rightarrow> un_enabled u | _ \<Rightarrow> False)
      in if (case tail of Loaded _ \<Rightarrow> False | _ \<Rightarrow> True) \<or> ssh = Unreadable
         then unavailable_check remote_id title (sentence problems)
         else \<lparr>an_view = make_view remote_id title (sentence problems) (remote_after active (enabled \<and> active))
                 (sentence (map op_describe ops)) (ops \<noteq> []) False,
               an_ops = ops, an_start_user = False\<rparr>)"

definition analyze_all :: "catalog \<Rightarrow> reads \<Rightarrow> analysis list" where
  "analyze_all c rd = (if ca_quad9 c then [analyze_quad9 c rd] else [])
     @ (if ca_podman c then [analyze_podman rd] else []) @ (if ca_remote c then [analyze_remote rd] else [])"

end
