(* ===== verification/Drift_Apply.thy ===== *)
theory Drift_Apply
  imports Drift_Model
begin

text \<open>
  \<open>tools/src/drift.rs\<close>, acting: the report, \<open>apply\<close> and the helper \<open>restore\<close> that run0 starts as
  root. The machine is a state of any type with the programs the code runs as functions of it
  (\<open>machine\<close>); the probes of one analysis see one state. A run returns the commands it executed.
\<close>

section \<open>The machine\<close>

record 'm machine =
  mc_resolvectl :: "'m \<Rightarrow> string option"               \<comment> \<open>\<open>resolvectl status\<close>\<close>
  mc_show :: "'m \<Rightarrow> bool \<Rightarrow> string \<Rightarrow> string option"   \<comment> \<open>\<open>systemctl [--user] show\<close> of a unit\<close>
  mc_helper :: "'m \<Rightarrow> bool"                           \<comment> \<open>the helper is there and belongs to root\<close>
  mc_authorized :: "'m \<Rightarrow> bool"                       \<comment> \<open>run0 starts it\<close>
  mc_catalog :: "'m \<Rightarrow> string option"                 \<comment> \<open>the text of the system catalog\<close>
  mc_run :: "string \<Rightarrow> string list \<Rightarrow> 'm \<Rightarrow> bool \<times> 'm"

type_synonym drift_command = "string \<times> string list"

definition unit_probe :: "'m machine \<Rightarrow> 'm \<Rightarrow> bool \<Rightarrow> string \<Rightarrow> unit_state option" where
  "unit_probe mc m user name = Option.bind (mc_show mc m user name) parse_show"

definition live_reads :: "'m machine \<Rightarrow> 'm \<Rightarrow> reads" where
  "live_reads mc m = \<lparr>rd_resolvectl = mc_resolvectl mc m, rd_unit = unit_probe mc m\<rparr>"

definition run_command :: "'m machine \<Rightarrow> string \<Rightarrow> string list \<Rightarrow> 'm \<Rightarrow> bool \<times> 'm \<times> drift_command list" where
  "run_command mc program args m = (case mc_run mc program args m of (ok, m) \<Rightarrow> (ok, m, [(program, args)]))"

section \<open>The helper\<close>

definition system_plan :: "catalog \<Rightarrow> string \<Rightarrow> reads \<Rightarrow> system_op list" where
  "system_plan c i rd =
     (case find (\<lambda>a. cv_id (an_view a) = i) (analyze_all c rd) of None \<Rightarrow> [] | Some a \<Rightarrow> an_ops a)"

fun run_ops :: "'m machine \<Rightarrow> system_op list \<Rightarrow> 'm \<Rightarrow> bool \<times> 'm \<times> drift_command list" where
  "run_ops mc [] m = (True, m, [])"
| "run_ops mc (opn # ops) m =
     (case run_command mc (op_program opn) (op_args opn) m of
        (False, m, tr) \<Rightarrow> (False, m, tr)
      | (True, m, tr) \<Rightarrow> (case run_ops mc ops m of (ok, m, tr') \<Rightarrow> (ok, m, tr @ tr')))"

definition system_catalog :: string where "system_catalog = ''/etc/seele/drift.json''"

definition drift_ids :: "string list" where "drift_ids = [quad9_id, podman_id, remote_id]"

text \<open>The result is an error message or whether anything was to be done.\<close>

definition restore_main :: "(string \<Rightarrow> raw_catalog option) \<Rightarrow> 'm machine \<Rightarrow> string list \<Rightarrow> 'm
    \<Rightarrow> (string + bool) \<times> 'm \<times> drift_command list" where
  "restore_main decode mc argv m = (case argv of
       [] \<Rightarrow> (Inl ''Name one check to restore.'', m, [])
     | i # rest \<Rightarrow>
         if rest \<noteq> [] \<or> i \<notin> set drift_ids then (Inl ''Name one of the drift checks.'', m, [])
         else (case load_catalog decode system_catalog (mc_catalog mc m) of
                 Inl e \<Rightarrow> (Inl e, m, [])
               | Inr c \<Rightarrow>
                   if \<not> check_enabled c i then (Inl ''The drift catalog has no such check.'', m, [])
                   else
                     (let ops = system_plan c i (live_reads mc m)
                      in case run_ops mc ops m of
                           (True, m, tr) \<Rightarrow> (Inr (ops \<noteq> []), m, tr)
                         | (False, m, tr) \<Rightarrow> (Inl (''Could not restore '' @ i @ ''.''), m, tr))))"

section \<open>The user's side\<close>

definition elevate :: "(string \<Rightarrow> raw_catalog option) \<Rightarrow> 'm machine \<Rightarrow> string \<Rightarrow> 'm
    \<Rightarrow> (string + unit) \<times> 'm \<times> drift_command list" where
  "elevate decode mc i m =
     (if i \<notin> set drift_ids then (Inl (''Unknown check '' @ i @ ''.''), m, [])
      else if \<not> mc_helper mc m then (Inl ''The drift helper is missing.'', m, [])
      else if \<not> mc_authorized mc m then (Inl ''The restore was not authorized.'', m, [])
      else (case restore_main decode mc [i] m of
              (Inr _, m, tr) \<Rightarrow> (Inr (), m, tr)
            | (Inl _, m, tr) \<Rightarrow> (Inl ''The restore was not authorized.'', m, tr)))"

definition start_user_podman :: "'m machine \<Rightarrow> 'm \<Rightarrow> (string + unit) \<times> 'm \<times> drift_command list" where
  "start_user_podman mc m =
     (case run_command mc ''systemctl'' [''--user'', ''start'', ''podman.socket''] m of
        (True, m, tr) \<Rightarrow> (Inr (), m, tr)
      | (False, m, tr) \<Rightarrow> (Inl ''Could not start your Podman socket.'', m, tr))"

definition user_podman_down :: "reads \<Rightarrow> string + bool" where
  "user_podman_down rd = (case classify (rd_unit rd True ''podman.socket'') of
       Loaded u \<Rightarrow> Inr (\<not> un_active u)
     | Missing \<Rightarrow> Inr False
     | Unreadable \<Rightarrow> Inl ''Could not read your Podman socket.'')"

record drift_error =
  de_message :: string
  de_mutated :: bool
  de_restored :: "string list"

definition quiet :: "string \<Rightarrow> drift_error" where
  "quiet msg = \<lparr>de_message = msg, de_mutated = False, de_restored = []\<rparr>"

record drift_report =
  dr_action :: string
  dr_mutated :: bool
  dr_restored :: "string list"
  dr_checks :: "check_view list"

definition inspect :: "catalog \<Rightarrow> reads \<Rightarrow> drift_report" where
  "inspect c rd = \<lparr>dr_action = ''diff'', dr_mutated = False, dr_restored = [],
     dr_checks = map an_view (analyze_all c rd)\<rparr>"

text \<open>The two halves of restoring one drifted check. The flag tells whether something was done.\<close>

definition apply_user :: "'m machine \<Rightarrow> analysis \<Rightarrow> string list \<Rightarrow> bool \<Rightarrow> 'm
    \<Rightarrow> (drift_error + bool) \<times> 'm \<times> drift_command list" where
  "apply_user mc item restored mutated m =
     (if \<not> an_start_user item then (Inr mutated, m, [])
      else (case user_podman_down (live_reads mc m) of
              Inl e \<Rightarrow> (Inl (quiet e), m, [])
            | Inr False \<Rightarrow> (Inr mutated, m, [])
            | Inr True \<Rightarrow>
                (case start_user_podman mc m of
                   (Inl e, m, tr) \<Rightarrow> (Inl \<lparr>de_message = e, de_mutated = True, de_restored = restored\<rparr>, m, tr)
                 | (Inr _, m, tr) \<Rightarrow> (Inr True, m, tr))))"

definition apply_system :: "(string \<Rightarrow> raw_catalog option) \<Rightarrow> 'm machine \<Rightarrow> analysis \<Rightarrow> string \<Rightarrow> string list
    \<Rightarrow> bool \<Rightarrow> 'm \<Rightarrow> (drift_error + bool) \<times> 'm \<times> drift_command list" where
  "apply_system decode mc item i restored mutated m =
     (if an_ops item = [] then (Inr mutated, m, [])
      else (case elevate decode mc i m of
              (Inl e, m, tr) \<Rightarrow> (Inl \<lparr>de_message = e, de_mutated = True, de_restored = restored\<rparr>, m, tr)
            | (Inr _, m, tr) \<Rightarrow> (Inr True, m, tr)))"

fun apply_loop :: "(string \<Rightarrow> raw_catalog option) \<Rightarrow> 'm machine \<Rightarrow> analysis list \<Rightarrow> string list \<Rightarrow> string list
    \<Rightarrow> bool \<Rightarrow> 'm \<Rightarrow> (drift_error + string list \<times> bool) \<times> 'm \<times> drift_command list" where
  "apply_loop decode mc planned [] restored mutated m = (Inr (restored, mutated), m, [])"
| "apply_loop decode mc planned (i # ids) restored mutated m =
     (case find (\<lambda>a. cv_id (an_view a) = i) planned of
        None \<Rightarrow> apply_loop decode mc planned ids restored mutated m
      | Some item \<Rightarrow>
          if \<not> cv_drifted (an_view item) then apply_loop decode mc planned ids restored mutated m
          else
            (case apply_user mc item restored mutated m of
               (Inl e, m, tr) \<Rightarrow> (Inl e, m, tr)
             | (Inr mutated, m, tr) \<Rightarrow>
                 (case apply_system decode mc item i restored mutated m of
                    (Inl e, m, tr') \<Rightarrow> (Inl e, m, tr @ tr')
                  | (Inr mutated, m, tr') \<Rightarrow>
                      (case apply_loop decode mc planned ids (restored @ [i]) mutated m of
                         (r, m, tr'') \<Rightarrow> (r, m, tr @ tr' @ tr'')))))"

definition valid_id :: "string \<Rightarrow> bool" where
  "valid_id i \<longleftrightarrow> i \<noteq> [] \<and> length i \<le> 32
     \<and> list_all (\<lambda>c. is_ascii_lower c \<or> is_ascii_digit c \<or> c = CHR ''-'') i"

definition apply_drift :: "(string \<Rightarrow> raw_catalog option) \<Rightarrow> 'm machine \<Rightarrow> catalog \<Rightarrow> string list \<Rightarrow> 'm
    \<Rightarrow> (drift_error + drift_report) \<times> 'm \<times> drift_command list" where
  "apply_drift decode mc c ids m =
     (if ids = [] then (Inl (quiet ''Name the checks to restore.''), m, [])
      else (case find (\<lambda>i. \<not> valid_id i \<or> \<not> check_enabled c i) ids of
              Some i \<Rightarrow> (Inl (quiet (''Unknown check '' @ i @ ''.'')), m, [])
            | None \<Rightarrow>
                (case apply_loop decode mc (analyze_all c (live_reads mc m)) (rev (remdups (rev ids))) [] False m of
                   (Inl e, m, tr) \<Rightarrow> (Inl e, m, tr)
                 | (Inr (restored, mutated), m, tr) \<Rightarrow>
                     (Inr ((inspect c (live_reads mc m))\<lparr>dr_action := ''apply'', dr_mutated := mutated,
                        dr_restored := restored\<rparr>), m, tr))))"

text \<open>\<open>run\<close>, with the text of the catalog it reads.\<close>

definition drift_run :: "(string \<Rightarrow> raw_catalog option) \<Rightarrow> 'm machine \<Rightarrow> string \<Rightarrow> string option \<Rightarrow> string list \<Rightarrow> 'm
    \<Rightarrow> (drift_error + drift_report) \<times> 'm \<times> drift_command list" where
  "drift_run decode mc path txt argv m =
     (let cmd = (case argv of [] \<Rightarrow> ''diff'' | c # _ \<Rightarrow> c); rest = tl argv
      in if cmd = ''diff'' then
           (if rest \<noteq> [] then (Inl (quiet ''diff takes no arguments.''), m, [])
            else (case load_catalog decode path txt of
                    Inl e \<Rightarrow> (Inl (quiet e), m, [])
                  | Inr c \<Rightarrow> (Inr (inspect c (live_reads mc m)), m, [])))
         else if cmd = ''apply'' then
           (case load_catalog decode path txt of
              Inl e \<Rightarrow> (Inl (quiet e), m, [])
            | Inr c \<Rightarrow> apply_drift decode mc c rest m)
         else (Inl (quiet ''Use diff or apply.''), m, []))"

end
