(* ===== verification/Drift_Theorems.thy ===== *)
theory Drift_Theorems
  imports Drift_Apply
begin

text \<open>
  The properties of the drift check: which commands can run, for which checks, what a verdict
  means, and that a restored check is no longer drifted.
\<close>

section \<open>Commands\<close>

text \<open>The check an operation belongs to, and the operations that may ever run.\<close>

fun op_check :: "system_op \<Rightarrow> string" where
  "op_check Restart_Resolved = quad9_id"
| "op_check (Revert_Link name) = quad9_id"
| "op_check Stop_Podman_Socket = podman_id"
| "op_check Disable_Podman_Socket = podman_id"
| "op_check Stop_Docker_Socket = podman_id"
| "op_check Disable_Docker_Socket = podman_id"
| "op_check Disable_Sshd = remote_id"
| "op_check Start_Tailscaled = remote_id"
| "op_check Enable_Tailscaled = remote_id"

definition op_safe :: "system_op \<Rightarrow> bool" where
  "op_safe opn \<longleftrightarrow> (case opn of Revert_Link name \<Rightarrow> link_name name | _ \<Rightarrow> True)"

definition user_start :: drift_command where
  "user_start = (''systemctl'', [''--user'', ''start'', ''podman.socket''])"

definition commands_of :: "string \<Rightarrow> drift_command set" where
  "commands_of i = {(op_program opn, op_args opn) |opn. op_check opn = i \<and> op_safe opn}
     \<union> (if i = podman_id then {user_start} else {})"

lemma ids_distinct [simp]: "quad9_id \<noteq> podman_id" "quad9_id \<noteq> remote_id" "podman_id \<noteq> remote_id"
  "podman_id \<noteq> quad9_id" "remote_id \<noteq> quad9_id" "remote_id \<noteq> podman_id"
  by (simp_all add: quad9_id_def podman_id_def remote_id_def)

lemma socket_ops: "snd (socket_drift label u stop disable)
    = (if un_not_found u \<or> \<not> un_present u \<and> \<not> un_active u \<and> \<not> un_enabled u then []
       else (if un_active u then [stop] else []) @ (if un_enabled u then [disable] else []))"
  "fst (socket_drift label u stop disable) = None \<longleftrightarrow> snd (socket_drift label u stop disable) = []"
  by (auto simp: socket_drift_def)

lemma remote_ops: "set (List.map_filter snd (tail_findings t @ ssh_findings s))
    \<subseteq> {Start_Tailscaled, Enable_Tailscaled, Disable_Sshd}"
  by (auto simp: tail_findings_def ssh_findings_def List.map_filter_def split: unit_class.splits if_splits)

text \<open>What every analysis satisfies.\<close>

definition analysis_ok :: "string \<Rightarrow> analysis \<Rightarrow> bool" where
  "analysis_ok i a \<longleftrightarrow> cv_id (an_view a) = i
     \<and> (\<forall>opn \<in> set (an_ops a). op_check opn = i \<and> op_safe opn)
     \<and> (an_start_user a \<longrightarrow> i = podman_id)
     \<and> (cv_drifted (an_view a) \<longleftrightarrow> an_ops a \<noteq> [] \<or> an_start_user a)
     \<and> (cv_unavailable (an_view a) \<longrightarrow> \<not> cv_drifted (an_view a))
     \<and> (\<not> cv_drifted (an_view a) \<longrightarrow> cv_before (an_view a) = cv_after (an_view a) \<and> cv_restore (an_view a) = [])"

lemma unavailable_ok: "analysis_ok i (unavailable_check i title detail)"
  by (simp add: analysis_ok_def unavailable_check_def make_view_def)

lemma view_ok:
  assumes "\<And>x. x \<in> set ops \<Longrightarrow> op_check x = i \<and> op_safe x" "start \<Longrightarrow> i = podman_id"
    "drifted \<longleftrightarrow> ops \<noteq> [] \<or> start"
  shows "analysis_ok i \<lparr>an_view = make_view i title before after restore drifted False, an_ops = ops, an_start_user = start\<rparr>"
  using assms by (auto simp: analysis_ok_def make_view_def)

lemma quad9_ok: "analysis_ok quad9_id (analyze_quad9 c rd)"
  unfolding analyze_quad9_def Let_def
  by (auto simp: unavailable_ok op_safe_def split: option.split intro!: view_ok)

lemma socket_ops_set: "set (snd (socket_drift label u stop disable)) \<subseteq> {stop, disable}"
  by (auto simp: socket_drift_def)

lemma podman_ops:
  assumes "x \<in> set (snd (socket_drift l u Stop_Podman_Socket Disable_Podman_Socket)
    @ snd (socket_drift l' u' Stop_Docker_Socket Disable_Docker_Socket))"
  shows "op_check x = podman_id \<and> op_safe x"
  using assms socket_ops_set [of l u Stop_Podman_Socket Disable_Podman_Socket]
    socket_ops_set [of l' u' Stop_Docker_Socket Disable_Docker_Socket] by (auto simp: op_safe_def)

lemma opt_list_Nil [simp]: "opt_list x = [] \<longleftrightarrow> x = None"
  by (cases x) simp_all

lemma verdict_ok: "analysis_ok podman_id (podman_verdict rootful docker user)"
proof -
  obtain rp rops where r: "socket_drift ''Rootful podman.socket'' rootful Stop_Podman_Socket Disable_Podman_Socket = (rp, rops)"
    by fastforce
  obtain dp dops where d: "socket_drift ''docker.socket'' docker Stop_Docker_Socket Disable_Docker_Socket = (dp, dops)"
    by fastforce
  have none: "rp = None \<longleftrightarrow> rops = []" "dp = None \<longleftrightarrow> dops = []"
    using socket_ops(2) [where label = "''Rootful podman.socket''"] socket_ops(2) [where label = "''docker.socket''"] r d
    by (metis fst_conv snd_conv)+
  have "op_check x = podman_id \<and> op_safe x" if "x \<in> set (rops @ dops)" for x
    using podman_ops [of x "''Rootful podman.socket''" rootful "''docker.socket''" docker] that r d by simp
  then show ?thesis
    by (cases user) (auto simp: podman_verdict_def r d Let_def none unavailable_ok intro!: view_ok)
qed

lemma podman_ok: "analysis_ok podman_id (analyze_podman rd)"
  by (auto simp: analyze_podman_def unavailable_ok verdict_ok split: option.split)

lemma remote_ok: "analysis_ok remote_id (analyze_remote rd)"
proof -
  have "op_check x = remote_id \<and> op_safe x" if "x \<in> set (List.map_filter snd (tail_findings t @ ssh_findings s))" for x t s
    using remote_ops [of t s] that by (auto simp: op_safe_def)
  then show ?thesis
    unfolding analyze_remote_def Let_def
    by (split if_split) (intro conjI impI unavailable_ok view_ok, auto)
qed

lemma analysis_id: "analysis_ok i a \<Longrightarrow> cv_id (an_view a) = i"
  by (simp add: analysis_ok_def)

lemma analyses_ok:
  assumes "a \<in> set (analyze_all c rd)"
  shows "analysis_ok (cv_id (an_view a)) a \<and> check_enabled c (cv_id (an_view a)) \<and> cv_id (an_view a) \<in> set drift_ids"
proof -
  consider "ca_quad9 c" "a = analyze_quad9 c rd" | "ca_podman c" "a = analyze_podman rd" | "ca_remote c" "a = analyze_remote rd"
    using assms by (auto simp: analyze_all_def split: if_splits)
  then have "\<exists>i. analysis_ok i a \<and> check_enabled c i \<and> i \<in> set drift_ids"
  proof cases
    case 1
    then show ?thesis using quad9_ok [of c rd]
      by (intro exI [of _ quad9_id]) (simp add: check_enabled_def drift_ids_def)
  next
    case 2
    then show ?thesis using podman_ok [of rd]
      by (intro exI [of _ podman_id]) (simp add: check_enabled_def drift_ids_def)
  next
    case 3
    then show ?thesis using remote_ok [of rd]
      by (intro exI [of _ remote_id]) (simp add: check_enabled_def drift_ids_def)
  qed
  then obtain i where i: "analysis_ok i a" "check_enabled c i" "i \<in> set drift_ids" by blast
  then have "cv_id (an_view a) = i" by (simp add: analysis_id)
  with i show ?thesis by simp
qed

lemma find_SomeD: "find P xs = Some x \<Longrightarrow> x \<in> set xs \<and> P x"
  by (induction xs) (auto split: if_splits)

lemma planned:
  assumes "find (\<lambda>a. cv_id (an_view a) = i) (analyze_all c rd) = Some a"
  shows "analysis_ok i a \<and> a \<in> set (analyze_all c rd)"
  using find_SomeD [OF assms] analyses_ok [of a c rd] by simp

lemma system_plan_ok:
  assumes "opn \<in> set (system_plan c i rd)"
  shows "op_check opn = i \<and> op_safe opn"
proof (cases "find (\<lambda>a. cv_id (an_view a) = i) (analyze_all c rd)")
  case (Some a)
  then show ?thesis using assms planned [OF Some] by (simp add: system_plan_def analysis_ok_def)
qed (use assms in \<open>simp add: system_plan_def\<close>)

lemma run_ops_trace:
  assumes "\<And>x. x \<in> set ops \<Longrightarrow> op_check x = i \<and> op_safe x" "run_ops mc ops m = (ok, m', tr)"
  shows "set tr \<subseteq> commands_of i"
  using assms
proof (induction ops arbitrary: m ok m' tr)
  case (Cons x xs)
  have x: "(op_program x, op_args x) \<in> commands_of i" using Cons.prems(1) [of x] by (auto simp: commands_of_def)
  obtain b u where run: "mc_run mc (op_program x) (op_args x) m = (b, u)" by force
  show ?case
  proof (cases b)
    case True
    obtain ok' u' tr' where rest: "run_ops mc xs u = (ok', u', tr')" by (cases "run_ops mc xs u")
    moreover have "set tr' \<subseteq> commands_of i" using Cons.IH [OF Cons.prems(1) rest] by simp
    ultimately show ?thesis using Cons.prems(2) x run True by (auto simp: run_command_def)
  next
    case False
    then show ?thesis using Cons.prems(2) x run by (auto simp: run_command_def)
  qed
qed simp

lemma restore_trace:
  assumes "restore_main decode mc argv m = (r, m', tr)" "tr \<noteq> []"
  shows "\<exists>i c. argv = [i] \<and> i \<in> set drift_ids \<and> load_catalog decode system_catalog (mc_catalog mc m) = Inr c
    \<and> check_enabled c i \<and> set tr \<subseteq> commands_of i"
proof -
  obtain i c where i: "argv = [i]" "i \<in> set drift_ids" "check_enabled c i"
    "load_catalog decode system_catalog (mc_catalog mc m) = Inr c"
    using assms by (cases argv) (simp_all add: restore_main_def split: if_splits sum.splits)
  let ?ops = "system_plan c i (live_reads mc m)"
  obtain ok u tr' where run: "run_ops mc ?ops m = (ok, u, tr')" by (cases "run_ops mc ?ops m")
  then have "tr = tr'" using assms(1) i by (cases ok) (simp_all add: restore_main_def Let_def)
  moreover have "set tr' \<subseteq> commands_of i" by (rule run_ops_trace [OF system_plan_ok run])
  ultimately show ?thesis using i by (intro exI [of _ i] exI [of _ c]) simp
qed

lemma elevate_trace: "elevate decode mc i m = (r, m', tr) \<Longrightarrow> set tr \<subseteq> commands_of i"
proof (cases "tr = []")
  case False
  assume elevate: "elevate decode mc i m = (r, m', tr)"
  obtain r' u tr' where run: "restore_main decode mc [i] m = (r', u, tr')" by (cases "restore_main decode mc [i] m")
  then have "tr = tr'" using elevate False by (auto simp: elevate_def split: if_splits sum.splits)
  then show ?thesis using restore_trace [OF run] False by auto
qed simp

lemma apply_user_trace:
  assumes "analysis_ok i a" "apply_user mc a restored mutated m = (r, m', tr)"
  shows "set tr \<subseteq> commands_of i"
  using assms
  by (auto simp: apply_user_def start_user_podman_def run_command_def commands_of_def user_start_def analysis_ok_def
      split: if_splits sum.splits bool.splits prod.splits)

lemma apply_system_trace: "apply_system decode mc a i restored mutated m = (r, m', tr) \<Longrightarrow> set tr \<subseteq> commands_of i"
  using elevate_trace [of decode mc i m]
  by (auto simp: apply_system_def split: if_splits sum.splits prod.splits)

lemma apply_loop_trace:
  assumes "\<And>i a. find (\<lambda>a. cv_id (an_view a) = i) planned = Some a \<Longrightarrow> analysis_ok i a"
    "apply_loop decode mc planned ids restored mutated m = (r, m', tr)" "cmd \<in> set tr"
  shows "\<exists>i \<in> set ids. \<exists>a \<in> set planned. cv_id (an_view a) = i \<and> cv_drifted (an_view a) \<and> cmd \<in> commands_of i"
  using assms(2,3)
proof (induction ids arbitrary: restored mutated m r m' tr)
  case (Cons i ids)
  show ?case
  proof (cases "find (\<lambda>a. cv_id (an_view a) = i) planned")
    case None
    then show ?thesis using Cons.IH Cons.prems by fastforce
  next
    case (Some a)
    note a = assms(1) [OF Some] find_SomeD [OF Some]
    obtain r1 m1 tr1 where user: "apply_user mc a restored mutated m = (r1, m1, tr1)"
      by (cases "apply_user mc a restored mutated m")
    show ?thesis
    proof (cases "cv_drifted (an_view a)")
      case True
      have here: ?thesis if "cmd \<in> commands_of i" using that a True by auto
      show ?thesis
      proof (cases r1)
        case (Inl e)
        then show ?thesis
          using Cons.prems Some True user here apply_user_trace [OF a(1) user] by auto
      next
        case (Inr mut)
        obtain r2 m2 tr2 where sys: "apply_system decode mc a i restored mut m1 = (r2, m2, tr2)"
          by (cases "apply_system decode mc a i restored mut m1")
        obtain r3 m3 tr3 where rest: "apply_loop decode mc planned ids (restored @ [i]) (case r2 of Inr b \<Rightarrow> b | Inl e \<Rightarrow> True) m2 = (r3, m3, tr3)"
          by (cases "apply_loop decode mc planned ids (restored @ [i]) (case r2 of Inr b \<Rightarrow> b | Inl e \<Rightarrow> True) m2")
        have "cmd \<in> set tr1 \<or> cmd \<in> set tr2 \<or> cmd \<in> set tr3"
          using Cons.prems Some True user Inr sys rest by (cases r2) auto
        then show ?thesis
          using here apply_user_trace [OF a(1) user] apply_system_trace [OF sys] Cons.IH [OF rest] by fastforce
      qed
    next
      case False
      then show ?thesis using Cons.IH Cons.prems Some by fastforce
    qed
  qed
qed simp

text \<open>C22: Restoring runs nothing but what the selected, drifted checks are allowed to run: whatever the
  probes, the catalogs and the programs answer, every command of an \<open>apply\<close>, the root helper's
  included, is one of the fixed commands of a check that was named, is in the catalog and was found
  drifted, and the only part of a command that comes from a probe is the name of a network link of
  at most 15 plain characters that begins with a letter.\<close>

theorem apply_commands_fixed:
  assumes "drift_run decode mc path txt (''apply'' # ids) m = (r, m', tr)" "cmd \<in> set tr"
  shows "\<exists>c a i. load_catalog decode path txt = Inr c \<and> i \<in> set ids \<and> check_enabled c i
    \<and> a \<in> set (analyze_all c (live_reads mc m)) \<and> cv_id (an_view a) = i \<and> cv_drifted (an_view a)
    \<and> (cmd \<in> {(op_program opn, op_args opn) |opn. op_check opn = i \<and> (\<forall>n. opn = Revert_Link n \<longrightarrow> link_name n)}
       \<or> i = podman_id \<and> cmd = (''systemctl'', [''--user'', ''start'', ''podman.socket'']))"
proof -
  obtain c where c: "load_catalog decode path txt = Inr c"
    using assms by (auto simp: drift_run_def split: sum.splits)
  then have applied: "apply_drift decode mc c ids m = (r, m', tr)" using assms(1) by (simp add: drift_run_def)
  let ?planned = "analyze_all c (live_reads mc m)"
  have enabled: "\<forall>i \<in> set ids. valid_id i \<and> check_enabled c i"
    using applied assms(2) by (auto simp: apply_drift_def find_None_iff split: if_splits option.splits)
  obtain r' u tr' where loop: "apply_loop decode mc ?planned (rev (remdups (rev ids))) [] False m = (r', u, tr')"
    by (cases "apply_loop decode mc ?planned (rev (remdups (rev ids))) [] False m")
  then have "cmd \<in> set tr'"
    using applied assms(2) by (auto simp: apply_drift_def split: if_splits option.splits sum.splits prod.splits)
  from apply_loop_trace [OF _ loop this] planned obtain i a where "i \<in> set ids" "a \<in> set ?planned"
    "cv_id (an_view a) = i" "cv_drifted (an_view a)" "cmd \<in> commands_of i" by fastforce
  moreover have "op_safe opn \<longleftrightarrow> (\<forall>n. opn = Revert_Link n \<longrightarrow> link_name n)" for opn
    by (auto simp: op_safe_def split: system_op.split)
  ultimately show ?thesis
    using c enabled by (intro exI [of _ c] exI [of _ a] exI [of _ i]) (auto simp: commands_of_def user_start_def split: if_splits)
qed

section \<open>Verdicts\<close>

definition healthy :: "analysis \<Rightarrow> bool" where
  "healthy a \<longleftrightarrow> \<not> cv_drifted (an_view a) \<and> \<not> cv_unavailable (an_view a)"

lemma healthy_simps [simp]: "\<not> healthy (unavailable_check i title detail)"
  "healthy \<lparr>an_view = make_view i title before after restore drifted unread, an_ops = ops, an_start_user = st\<rparr>
     \<longleftrightarrow> \<not> drifted \<and> \<not> unread"
  by (simp_all add: healthy_def unavailable_check_def make_view_def)

lemma dot_problem_None: "dot_problem c = None \<longleftrightarrow> strict_dot c = Some True"
  by (auto simp: dot_problem_def split: option.splits bool.splits)

lemma quad9_healthy: "healthy (analyze_quad9 c rd) \<longleftrightarrow>
    (\<exists>txt g. rd_resolvectl rd = Some txt \<and> find sc_global (parse_status txt) = Some g
       \<and> strict_dot g = Some True \<and> set (sc_servers g) = set (ca_dns c) \<and> ''~.'' \<in> set (sc_domains g)
       \<and> (\<forall>l \<in> set (parse_status txt). \<not> sc_global l \<and> ''~.'' \<in> set (sc_domains l) \<longrightarrow> \<not> link_name (sc_name l)))"
proof (cases "rd_resolvectl rd")
  case (Some status)
  then show ?thesis
    by (cases "find sc_global (parse_status status)")
      (auto simp: analyze_quad9_def Let_def holds_root_def filter_empty_conv dot_problem_None)
qed (simp add: analyze_quad9_def)

text \<open>A system socket in order is not there, or neither running nor started at boot.\<close>

definition socket_quiet :: "unit_class \<Rightarrow> bool" where
  "socket_quiet c = (case c of Unreadable \<Rightarrow> False | Missing \<Rightarrow> True | Loaded u \<Rightarrow> \<not> un_active u \<and> \<not> un_enabled u)"

lemma classify_Loaded: "classify p = Loaded u \<Longrightarrow> un_present u \<and> \<not> un_not_found u"
  by (auto simp: classify_def split: option.splits if_splits)

lemma socket_none: "socket_unit (classify p) = Some u \<Longrightarrow>
    fst (socket_drift l u s d) = None \<longleftrightarrow> socket_quiet (classify p)"
  using classify_Loaded [of p]
  by (cases "classify p") (auto simp: socket_unit_def socket_drift_def socket_quiet_def missing_unit_def)

lemma podman_healthy: "healthy (analyze_podman rd) \<longleftrightarrow> socket_quiet (classify (rd_unit rd False ''podman.socket''))
    \<and> socket_quiet (classify (rd_unit rd False ''docker.socket''))
    \<and> (\<exists>u. classify (rd_unit rd True ''podman.socket'') = Loaded u \<and> un_active u)"
proof -
  have gone: "socket_unit (classify p) = None \<Longrightarrow> \<not> socket_quiet (classify p)" for p
    by (cases "classify p") (simp_all add: socket_unit_def socket_quiet_def)
  have verdict: "healthy (podman_verdict r d user) \<longleftrightarrow>
      fst (socket_drift ''Rootful podman.socket'' r Stop_Podman_Socket Disable_Podman_Socket) = None
      \<and> fst (socket_drift ''docker.socket'' d Stop_Docker_Socket Disable_Docker_Socket) = None
      \<and> (\<exists>u. user = Loaded u \<and> un_active u)" for r d user
    by (cases user) (auto simp: podman_verdict_def Let_def)
  show ?thesis
    by (auto simp: analyze_podman_def verdict gone socket_none split: option.split)
qed

lemma remote_healthy: "healthy (analyze_remote rd) \<longleftrightarrow>
    (\<exists>t. classify (rd_unit rd False ''tailscaled.service'') = Loaded t \<and> un_active t \<and> un_enabled t)
    \<and> socket_quiet (case classify (rd_unit rd False ''sshd.service'') of Loaded u \<Rightarrow> Loaded (u\<lparr>un_active := False\<rparr>) | c \<Rightarrow> c)"
  unfolding analyze_remote_def Let_def
  by (cases "classify (rd_unit rd False ''tailscaled.service'')"; cases "classify (rd_unit rd False ''sshd.service'')")
    (auto simp: tail_findings_def ssh_findings_def List.map_filter_def socket_quiet_def)


section \<open>Restoring settles a check\<close>

text \<open>What systemctl promises: a command that succeeds changes the system unit it names as its verb says,
  and no other one, and not the catalog.\<close>

definition verb_effect :: "string \<Rightarrow> unit_state \<Rightarrow> unit_state" where
  "verb_effect verb u =
     (if verb = ''stop'' then u\<lparr>un_active := False\<rparr> else if verb = ''start'' then u\<lparr>un_active := True\<rparr>
      else if verb = ''disable'' then u\<lparr>un_enabled := False\<rparr> else if verb = ''enable'' then u\<lparr>un_enabled := True\<rparr>
      else u)"

definition systemctl_sound :: "'m machine \<Rightarrow> bool" where
  "systemctl_sound mc \<longleftrightarrow> (\<forall>m m' verb name. mc_run mc systemctl_path [verb, name] m = (True, m') \<longrightarrow>
     mc_catalog mc m' = mc_catalog mc m
     \<and> unit_probe mc m' False name = map_option (verb_effect verb) (unit_probe mc m False name)
     \<and> (\<forall>n. n \<noteq> name \<longrightarrow> unit_probe mc m' False n = unit_probe mc m False n))"

definition op_effect :: "system_op \<Rightarrow> (string \<Rightarrow> unit_state option) \<Rightarrow> string \<Rightarrow> unit_state option" where
  "op_effect opn f = f(op_args opn ! 1 := map_option (verb_effect (hd (op_args opn))) (f (op_args opn ! 1)))"

lemma run_ops_effect:
  assumes "systemctl_sound mc" "\<And>x. x \<in> set ops \<Longrightarrow> op_check x \<noteq> quad9_id" "run_ops mc ops m = (True, m', tr)"
  shows "mc_catalog mc m' = mc_catalog mc m \<and> unit_probe mc m' False = fold op_effect ops (unit_probe mc m False)"
  using assms(2,3)
proof (induction ops arbitrary: m tr)
  case (Cons x xs)
  obtain verb name where x: "op_program x = systemctl_path" "op_args x = [verb, name]"
    using Cons.prems(1) [of x] by (cases x) auto
  obtain u tr' where run: "mc_run mc systemctl_path [verb, name] m = (True, u)" "run_ops mc xs u = (True, m', tr')"
    using Cons.prems(2) x by (auto simp: run_command_def split: prod.splits bool.splits)
  note sound = assms(1) [unfolded systemctl_sound_def, rule_format, OF run(1)]
  have "unit_probe mc u False = op_effect x (unit_probe mc m False)"
    using sound x by (auto simp: op_effect_def fun_eq_iff)
  then show ?case using Cons.IH [OF _ run(2)] Cons.prems(1) sound by simp
qed simp

lemma fold_other: "(\<And>x. x \<in> set ops \<Longrightarrow> op_args x ! 1 \<noteq> n) \<Longrightarrow> fold op_effect ops f n = f n"
  by (induction ops arbitrary: f) (auto simp: op_effect_def)

lemma fold_own: "f n = g n \<Longrightarrow> fold op_effect ops f n = fold op_effect ops g n"
proof (induction ops arbitrary: f g)
  case (Cons x xs)
  from Cons.prems have "op_effect x f n = op_effect x g n" by (cases "n = op_args x ! 1") (auto simp: op_effect_def)
  then show ?case using Cons.IH [of "op_effect x f" "op_effect x g"] by simp
qed simp

lemma system_plan_check: "check_enabled c i \<Longrightarrow> system_plan c i rd =
    an_ops (if i = quad9_id then analyze_quad9 c rd else if i = podman_id then analyze_podman rd else analyze_remote rd)"
  using quad9_ok [of c rd, THEN analysis_id] podman_ok [of rd, THEN analysis_id] remote_ok [of rd, THEN analysis_id]
  by (auto simp: system_plan_def analyze_all_def check_enabled_def split: if_splits)

text \<open>The two sockets.\<close>

definition socket_plan :: "unit_state option \<Rightarrow> system_op \<Rightarrow> system_op \<Rightarrow> system_op list" where
  "socket_plan p stop disable = (case socket_unit (classify p) of None \<Rightarrow> [] | Some u \<Rightarrow> snd (socket_drift [] u stop disable))"

lemma socket_drift_ops: "snd (socket_drift l u s d) = snd (socket_drift [] u s d)"
  by (simp add: socket_drift_def)

lemma podman_plan: "an_ops (analyze_podman rd) =
    (if socket_unit (classify (rd_unit rd False ''podman.socket'')) = None
       \<or> socket_unit (classify (rd_unit rd False ''docker.socket'')) = None then []
     else socket_plan (rd_unit rd False ''podman.socket'') Stop_Podman_Socket Disable_Podman_Socket
       @ socket_plan (rd_unit rd False ''docker.socket'') Stop_Docker_Socket Disable_Docker_Socket)"
  by (auto simp: analyze_podman_def podman_verdict_def unavailable_check_def socket_plan_def Let_def
      socket_drift_ops [of "_ # _"] split: option.split)

lemma socket_settled:
  assumes "op_args stop = [''stop'', n]" "op_args disable = [''disable'', n]"
  shows "socket_plan (fold op_effect (socket_plan (f n) stop disable) f n) stop disable = []"
  using assms
  by (cases "f n") (auto simp: socket_plan_def classify_def socket_unit_def socket_drift_def missing_unit_def
      op_effect_def verb_effect_def)

lemma socket_plan_set: "set (socket_plan p stop disable) \<subseteq> {stop, disable}"
  using socket_ops_set by (fastforce simp: socket_plan_def split: option.splits)

lemma podman_settled:
  assumes "rd_unit rd' False = fold op_effect (an_ops (analyze_podman rd)) (rd_unit rd False)"
  shows "an_ops (analyze_podman rd') = []"
proof -
  let ?f = "rd_unit rd False"
  let ?p = "socket_plan (?f ''podman.socket'') Stop_Podman_Socket Disable_Podman_Socket"
  let ?d = "socket_plan (?f ''docker.socket'') Stop_Docker_Socket Disable_Docker_Socket"
  show ?thesis
  proof (cases "an_ops (analyze_podman rd) = ?p @ ?d")
    case True
    have "fold op_effect (?p @ ?d) ?f ''podman.socket'' = fold op_effect ?p ?f ''podman.socket''"
      using socket_plan_set [of "?f ''docker.socket''" Stop_Docker_Socket Disable_Docker_Socket]
      unfolding fold_append comp_def by (intro fold_other) auto
    moreover have "fold op_effect (?p @ ?d) ?f ''docker.socket'' = fold op_effect ?d ?f ''docker.socket''"
    proof -
      let ?g = "fold op_effect ?p ?f"
      have "?g ''docker.socket'' = ?f ''docker.socket''"
        using socket_plan_set [of "?f ''podman.socket''" Stop_Podman_Socket Disable_Podman_Socket]
        by (intro fold_other) auto
      then show ?thesis unfolding fold_append comp_def by (rule fold_own)
    qed
    ultimately show ?thesis
      using socket_settled [of Stop_Podman_Socket "''podman.socket''" Disable_Podman_Socket ?f]
        socket_settled [of Stop_Docker_Socket "''docker.socket''" Disable_Docker_Socket ?f]
      by (simp add: podman_plan [of rd'] assms True)
  next
    case False
    then have "an_ops (analyze_podman rd) = []" "socket_unit (classify (?f ''podman.socket'')) = None
       \<or> socket_unit (classify (?f ''docker.socket'')) = None"
      unfolding podman_plan by presburger+
    then show ?thesis by (auto simp: podman_plan [of rd'] assms)
  qed
qed

lemma remote_plan: "an_ops (analyze_remote rd) =
    (let t = classify (rd_unit rd False ''tailscaled.service''); s = classify (rd_unit rd False ''sshd.service'')
     in if (\<forall>u. t \<noteq> Loaded u) \<or> s = Unreadable then [] else List.map_filter snd (tail_findings t @ ssh_findings s))"
  by (cases "classify (rd_unit rd False ''tailscaled.service'')")
    (auto simp: analyze_remote_def unavailable_check_def Let_def)

lemma classify_Some: "classify p = Loaded u \<Longrightarrow> p = Some u"
  by (auto simp: classify_def split: option.splits if_splits)

lemma remote_settled:
  assumes "rd_unit rd' False = fold op_effect (an_ops (analyze_remote rd)) (rd_unit rd False)"
  shows "an_ops (analyze_remote rd') = []"
proof -
  let ?f = "rd_unit rd False"
  obtain t s where ts: "?f ''tailscaled.service'' = t" "?f ''sshd.service'' = s" by blast
  show ?thesis
  proof (cases "an_ops (analyze_remote rd) = []")
    case True
    then show ?thesis using assms by (simp add: remote_plan)
  next
    case False
    then obtain u where u: "t = Some u" "\<not> un_not_found u" "un_present u" "classify s \<noteq> Unreadable"
      using ts by (auto simp: remote_plan Let_def classify_def split: if_splits option.splits)
    then have plan: "an_ops (analyze_remote rd) = (if un_active u then [] else [Start_Tailscaled])
        @ (if un_enabled u then [] else [Enable_Tailscaled])
        @ (case classify s of Loaded v \<Rightarrow> if un_enabled v then [Disable_Sshd] else [] | _ \<Rightarrow> [])"
      using ts by (cases "classify s") (auto simp: remote_plan classify_def tail_findings_def ssh_findings_def List.map_filter_def)
    have "rd_unit rd' False ''tailscaled.service'' = Some (u\<lparr>un_active := True, un_enabled := True\<rparr>)"
      using ts u unfolding assms plan by (cases "classify s") (auto simp: op_effect_def verb_effect_def)
    moreover have "rd_unit rd' False ''sshd.service'' = (case classify s of
        Loaded v \<Rightarrow> map_option (\<lambda>v. if un_enabled v then v\<lparr>un_enabled := False\<rparr> else v) s | _ \<Rightarrow> s)"
      using ts u unfolding assms plan
      by (cases "classify s") (auto simp: op_effect_def verb_effect_def dest: classify_Some)
    moreover have "classify s \<noteq> Unreadable \<Longrightarrow> ssh_findings (classify (case classify s of
        Loaded v \<Rightarrow> map_option (\<lambda>v. if un_enabled v then v\<lparr>un_enabled := False\<rparr> else v) s | _ \<Rightarrow> s)) = []"
    proof (cases "classify s")
      case (Loaded v)
      with classify_Loaded [OF Loaded] classify_Some [OF Loaded] show ?thesis
        by (simp add: classify_def ssh_findings_def)
    qed (simp_all add: ssh_findings_def)
    ultimately show ?thesis
      using u by (simp add: remote_plan Let_def classify_def tail_findings_def List.map_filter_def)
  qed
qed


section \<open>What a report admits\<close>

definition unread_socket :: string where "unread_socket = ''Could not read your Podman socket.''"

text \<open>A result that does not hide what was done, given whether something was done before.\<close>

definition admits :: "bool \<Rightarrow> drift_command list \<Rightarrow> drift_error + bool \<Rightarrow> bool" where
  "admits mutated tr r \<longleftrightarrow> (case r of
     Inr mut \<Rightarrow> mutated \<or> tr \<noteq> [] \<longrightarrow> mut | Inl e \<Rightarrow> de_mutated e \<or> de_message e = unread_socket)"

lemma apply_user_admits: "apply_user mc a restored mutated m = (r, m', tr) \<Longrightarrow> admits mutated tr r"
  by (auto simp: apply_user_def start_user_podman_def run_command_def admits_def user_podman_down_def quiet_def
      unread_socket_def split: if_splits sum.splits bool.splits prod.splits unit_class.splits)


lemma apply_system_admits: "apply_system decode mc a i restored mutated m = (r, m', tr) \<Longrightarrow> admits mutated tr r"
  by (auto simp: apply_system_def admits_def split: if_splits sum.splits prod.splits)

lemma apply_loop_admits:
  "apply_loop decode mc planned ids restored mutated m = (r, m', tr) \<Longrightarrow> admits mutated tr (map_sum id snd r)"
proof (induction ids arbitrary: restored mutated m r m' tr)
  case (Cons i ids)
  show ?case
  proof (cases "\<exists>a. find (\<lambda>a. cv_id (an_view a) = i) planned = Some a \<and> cv_drifted (an_view a)")
    case True
    then obtain a where a: "find (\<lambda>a. cv_id (an_view a) = i) planned = Some a" "cv_drifted (an_view a)" by blast
    obtain r1 m1 tr1 where user: "apply_user mc a restored mutated m = (r1, m1, tr1)"
      by (cases "apply_user mc a restored mutated m")
    show ?thesis
    proof (cases r1)
      case (Inl e)
      then show ?thesis using Cons.prems a user apply_user_admits [OF user] by (auto simp: admits_def)
    next
      case (Inr mut)
      obtain r2 m2 tr2 where sys: "apply_system decode mc a i restored mut m1 = (r2, m2, tr2)"
        by (cases "apply_system decode mc a i restored mut m1")
      show ?thesis
      proof (cases r2)
        case (Inl e)
        then show ?thesis using Cons.prems a user Inr sys apply_system_admits [OF sys] by (auto simp: admits_def)
      next
        case (Inr mut')
        obtain r3 m3 tr3 where rest: "apply_loop decode mc planned ids (restored @ [i]) mut' m2 = (r3, m3, tr3)"
          by (cases "apply_loop decode mc planned ids (restored @ [i]) mut' m2")
        then have "r = r3" "tr = tr1 @ tr2 @ tr3" using Cons.prems a user \<open>r1 = Inr mut\<close> sys Inr by simp_all
        then show ?thesis
          using Cons.IH [OF rest] apply_user_admits [OF user] apply_system_admits [OF sys] Inr \<open>r1 = Inr mut\<close>
          by (cases r3) (auto simp: admits_def)
      qed
    qed
  next
    case False
    then have "apply_loop decode mc planned ids restored mutated m = (r, m', tr)"
      using Cons.prems by (auto split: option.splits if_splits)
    then show ?thesis by (rule Cons.IH)
  qed
qed (auto simp: admits_def)

text \<open>C25: A report admits what was done: if any command ran, the report says that the machine was changed -
  whether \<open>apply\<close> succeeded or failed, with one exception: when the user's Podman socket cannot be
  read although an earlier check was already restored, the error says that nothing was changed.\<close>

theorem apply_report_admits_changes:
  assumes "apply_drift decode mc c ids m = (r, m', tr)" "tr \<noteq> []"
  shows "case r of Inr report \<Rightarrow> dr_mutated report
    | Inl e \<Rightarrow> de_mutated e \<or> de_message e = ''Could not read your Podman socket.''"
proof -
  obtain r' u tr' where loop: "apply_loop decode mc (analyze_all c (live_reads mc m)) (rev (remdups (rev ids))) [] False m = (r', u, tr')"
    by (cases "apply_loop decode mc (analyze_all c (live_reads mc m)) (rev (remdups (rev ids))) [] False m")
  from apply_loop_admits [OF loop] show ?thesis
    using assms loop
    by (auto simp: apply_drift_def admits_def unread_socket_def split: if_splits option.splits sum.splits prod.splits)
qed

section \<open>Witnesses\<close>

text \<open>A machine with one flag: before, the rootful Podman socket runs, Tailscale is stopped and the user's
  Podman socket is stopped; a command of the helper sets the flag, and then the user's socket cannot
  be read.\<close>

definition wit_loaded :: "bool \<Rightarrow> string" where
  "wit_loaded b = ''LoadState=loaded'' @ [newline] @ (if b then ''ActiveState=active'' else ''ActiveState=dead'')
     @ [newline] @ ''UnitFileState=enabled''"

definition wit_machine :: "bool machine" where
  "wit_machine = \<lparr>mc_resolvectl = (\<lambda>_. None),
     mc_show = (\<lambda>m user name. if user then (if m then None else Some (wit_loaded False))
        else if name = ''tailscaled.service'' then Some (wit_loaded m)
        else Some ''LoadState=not-found''),
     mc_helper = (\<lambda>_. True), mc_authorized = (\<lambda>_. True), mc_catalog = (\<lambda>_. Some ''c''),
     mc_run = (\<lambda>p args m. if p = systemctl_path \<and> args = [''start'', ''tailscaled.service''] then (True, True) else (False, m))\<rparr>"

definition wit_decode :: "string \<Rightarrow> raw_catalog option" where
  "wit_decode s = Some \<lparr>rc_version = 1, rc_checks = [(podman_id, []), (remote_id, [])]\<rparr>"

definition wit_catalog :: catalog where
  "wit_catalog = \<lparr>ca_dns = [], ca_quad9 = False, ca_podman = True, ca_remote = True\<rparr>"

lemma wit_shows: "parse_show (wit_loaded True) = Some \<lparr>un_present = True, un_not_found = False, un_active = True, un_enabled = True\<rparr>"
  "parse_show (wit_loaded False) = Some \<lparr>un_present = True, un_not_found = False, un_active = False, un_enabled = True\<rparr>"
  "parse_show ''LoadState=not-found'' = Some missing_unit"
  by code_simp+

lemma wit_probe: "unit_probe wit_machine m user name =
    (if user then (if m then None else parse_show (wit_loaded False))
     else if name = ''tailscaled.service'' then parse_show (wit_loaded m) else parse_show ''LoadState=not-found'')"
  by (simp add: unit_probe_def wit_machine_def)

lemma wit_load: "load_catalog wit_decode path (Some ''c'') = Inr wit_catalog"
  by (simp add: load_catalog_def wit_decode_def wit_catalog_def catalog_limit_def)

lemma wit_checked: "mc_run wit_machine systemctl_path [''start'', ''tailscaled.service''] m = (True, True)"
  by (simp add: wit_machine_def)

lemma wit_remote: "an_ops (analyze_remote (live_reads wit_machine m)) = (if m then [] else [Start_Tailscaled])"
  by (cases m) (simp_all add: remote_plan live_reads_def wit_probe wit_shows classify_def missing_unit_def
      tail_findings_def ssh_findings_def List.map_filter_def)

lemma wit_restored: "restore_main wit_decode wit_machine [remote_id] False
    = (Inr True, True, [(systemctl_path, [''start'', ''tailscaled.service''])])"
  by (simp add: restore_main_def drift_ids_def system_plan_check check_enabled_def wit_catalog_def wit_remote
      run_command_def wit_checked wit_load [unfolded wit_catalog_def] wit_machine_def [THEN arg_cong [of _ _ mc_catalog]])

lemma wit_analyses:
  obtains p r where "analyze_all wit_catalog (live_reads wit_machine False) = [p, r]"
    "cv_id (an_view p) = podman_id" "cv_id (an_view r) = remote_id" "cv_drifted (an_view p)" "cv_drifted (an_view r)"
    "an_start_user p" "\<not> an_start_user r" "an_ops r = [Start_Tailscaled]"
proof -
  let ?rd = "live_reads wit_machine False"
  have "an_start_user (analyze_podman ?rd)"
    by (simp add: analyze_podman_def live_reads_def wit_probe wit_shows classify_def missing_unit_def socket_unit_def
        podman_verdict_def socket_drift_def)
  then show ?thesis
    using that [of "analyze_podman ?rd" "analyze_remote ?rd"] podman_ok [of ?rd] remote_ok [of ?rd] wit_remote [of False]
    by (auto simp: analyze_all_def wit_catalog_def analysis_ok_def)
qed

lemma wit_applied: "apply_drift wit_decode wit_machine wit_catalog ids False
      = (Inl (quiet ''Could not read your Podman socket.''), True, [(systemctl_path, [''start'', ''tailscaled.service''])])"
  if "ids = [remote_id, podman_id]"
proof -
  have ids: "valid_id remote_id" "valid_id podman_id" by code_simp+
  have reads: "mc_helper wit_machine m" "mc_authorized wit_machine m"
    "unit_probe wit_machine True True ''podman.socket'' = None" for m
    by (simp_all add: wit_probe) (simp_all add: wit_machine_def)
  obtain p r where pr: "analyze_all wit_catalog (live_reads wit_machine False) = [p, r]"
    "cv_id (an_view p) = podman_id" "cv_id (an_view r) = remote_id" "cv_drifted (an_view p)" "cv_drifted (an_view r)"
    "an_start_user p" "\<not> an_start_user r" "an_ops r = [Start_Tailscaled]" by (rule wit_analyses)
  then show ?thesis
    by (simp add: that apply_drift_def ids check_enabled_def wit_catalog_def [THEN arg_cong [of _ _ ca_podman]]
        wit_catalog_def [THEN arg_cong [of _ _ ca_remote]] apply_user_def apply_system_def elevate_def reads
        wit_restored drift_ids_def user_podman_down_def live_reads_def [of _ True] classify_def)
qed

text \<open>The exception does occur.\<close>

lemma apply_hides_change: "\<exists>e tr. fst (apply_drift wit_decode wit_machine wit_catalog [remote_id, podman_id] False) = Inl e
    \<and> snd (snd (apply_drift wit_decode wit_machine wit_catalog [remote_id, podman_id] False)) = tr
    \<and> tr \<noteq> [] \<and> \<not> de_mutated e \<and> de_restored e = []"
  by (simp add: wit_applied quiet_def)

theorem apply_report_admits_changes_witness:
  "\<exists>e. fst (apply_drift wit_decode wit_machine wit_catalog [remote_id, podman_id] False) = Inl e
    \<and> (de_mutated e \<or> de_message e = ''Could not read your Podman socket.'')"
  using apply_report_admits_changes [OF wit_applied [OF refl]] by (simp add: wit_applied)

theorem apply_commands_fixed_witness:
  "\<exists>opn i. (systemctl_path, [''start'', ''tailscaled.service'']) = (op_program opn, op_args opn) \<and> op_check opn = i
    \<and> i \<in> {remote_id, podman_id}"
proof -
  have "drift_run wit_decode wit_machine [] (Some ''c'') (''apply'' # [remote_id, podman_id]) False
    = (Inl (quiet ''Could not read your Podman socket.''), True, [(systemctl_path, [''start'', ''tailscaled.service''])])"
    by (simp add: drift_run_def wit_load wit_applied)
  from apply_commands_fixed [OF this, of "(systemctl_path, [''start'', ''tailscaled.service''])"] show ?thesis
    by (auto simp: systemctl_path_def)
qed


end
