(* ===== verification/Clock_Catalog.thy ===== *)
theory Clock_Catalog
  imports Ports_Procfs Civil_Time
begin

text \<open>
  \<open>tools/src/clock.rs\<close>: the catalog of time zones, the pinned zones and the bounded request lines
  of the resident clock. The time zone database is outside the program: its tables are texts and
  what libc's \<open>localtime\<close> and \<open>strftime\<close> make of a \<open>TZ\<close> value are functions of that value.
\<close>

section \<open>What the clock reads\<close>

record clock_host =
  ck_probe :: "string option \<Rightarrow> int \<Rightarrow> int \<times> string"     \<comment> \<open>offset and abbreviation under a \<open>TZ\<close> value\<close>
  ck_date :: "string option \<Rightarrow> int \<Rightarrow> int \<times> int \<times> int"   \<comment> \<open>\<open>localtime\<close>: the local date\<close>
  ck_format :: "string option \<Rightarrow> int \<Rightarrow> string \<Rightarrow> string" \<comment> \<open>\<open>strftime\<close> of the local time\<close>
  ck_timegm :: "int \<times> int \<times> int \<Rightarrow> int \<Rightarrow> int"           \<comment> \<open>\<open>timegm\<close> of a date and an hour\<close>
  ck_utc :: "int \<Rightarrow> string \<Rightarrow> string"                    \<comment> \<open>\<open>strftime\<close> of the time in UTC\<close>
  ck_tz :: "string option"                               \<comment> \<open>the variable \<open>TZ\<close>\<close>
  ck_localtime :: "string option"                        \<comment> \<open>the target of \<open>/etc/localtime\<close>\<close>
  ck_zoneinfo :: string                                  \<comment> \<open>\<open>zoneinfo()\<close>\<close>
  ck_table :: "string \<Rightarrow> string option"                  \<comment> \<open>a table in that directory\<close>
  ck_etc :: "string list"                                \<comment> \<open>the names in its directory \<open>Etc\<close>\<close>
  ck_stat :: string                                      \<comment> \<open>directory, file metadata and locale\<close>
  ck_pins :: "string option"                             \<comment> \<open>the file of pinned zones\<close>
  ck_parse :: "string \<Rightarrow> json option"                    \<comment> \<open>JSON parsing\<close>
  ck_lossy :: "string \<Rightarrow> string"                         \<comment> \<open>\<open>from_utf8_lossy\<close>\<close>
  ck_url :: "(string \<times> string) list \<Rightarrow> string"           \<comment> \<open>the calendar address with query pairs\<close>
  ck_io :: string                                        \<comment> \<open>the text of a failed read or parse\<close>

section \<open>Zones\<close>

record zone_source =
  zs_id :: string
  zs_zone :: string
  zs_label :: string
  zs_flag :: string
  zs_aliases :: string
  zs_kind :: string

definition tab :: char where "tab = char_of (9::nat)"

definition flag :: "string \<Rightarrow> string" where
  "flag code =
     (if length code \<noteq> 2 \<or> \<not> list_all is_ascii_upper code then []
      else of_chars (map (\<lambda>b. 0x1f1e6 + (of_char b - 65)) code))"

definition no_comment :: "string list \<Rightarrow> string list" where
  "no_comment ls = filter (\<lambda>l. \<not> starts_with ''#'' l) ls"

definition spaced :: "char list \<Rightarrow> string \<Rightarrow> string" where
  "spaced cs s = map (\<lambda>c. if c \<in> set cs then CHR '' '' else c) s"

text \<open>The first zone with an id gets the text; the others are untouched.\<close>

fun alias_push :: "string \<Rightarrow> string \<Rightarrow> zone_source list \<Rightarrow> zone_source list" where
  "alias_push target t [] = []"
| "alias_push target t (z # zs) =
     (if zs_id z = target then z\<lparr>zs_aliases := zs_aliases z @ t\<rparr> # zs else z # alias_push target t zs)"

definition table_line :: "(string \<rightharpoonup> string) \<Rightarrow> zone_source list \<Rightarrow> string \<Rightarrow> zone_source list" where
  "table_line countries zones line =
     (let fields = split_on tab line
      in if length fields < 3 then zones
         else
           (let codes = split_on (CHR '','') (fields ! 0);
                zid = fields ! 2;
                names = join_with '' '' (List.map_filter countries codes);
                note = (if 3 < length fields then fields ! 3 else [])
            in if list_ex (\<lambda>z. zs_id z = zid) zones
               then alias_push zid ('' '' @ names @ '' '' @ note) zones
               else zones @ [\<lparr>zs_id = zid, zs_zone = zid,
                              zs_label = spaced ''_'' (last (split_on (CHR ''/'') zid)),
                              zs_flag = flag (hd codes),
                              zs_aliases = spaced ''_/'' zid @ '' '' @ names @ '' '' @ note,
                              zs_kind = ''city''\<rparr>]))"

definition link_line :: "string \<Rightarrow> (string \<times> string) option" where
  "link_line line = (case split_whitespace line of
       f # target # name # _ \<Rightarrow> if f = ''L'' \<or> f = ''Link'' then Some (target, name) else None
     | _ \<Rightarrow> None)"

definition link_zones :: "zone_source list \<Rightarrow> string \<Rightarrow> zone_source list" where
  "link_zones zones text =
     foldl (\<lambda>zs (target, name). alias_push target ('' '' @ name @ '' '' @ spaced ''_/'' name) zs) zones
       (List.map_filter link_line (str_lines text))"

definition utc_zone :: zone_source where
  "utc_zone = \<lparr>zs_id = ''UTC'', zs_zone = ''UTC'', zs_label = ''Coordinated Universal Time'', zs_flag = [],
     zs_aliases = ''UTC GMT Zulu Coordinated Universal Time'', zs_kind = ''abbreviation''\<rparr>"

text \<open>An entry of \<open>Etc\<close>. The sign of its name is the POSIX one, which counts westwards.\<close>

definition etc_zone :: "string \<Rightarrow> zone_source option" where
  "etc_zone name = (case strip_pre ''GMT'' name of
       None \<Rightarrow> None
     | Some rest \<Rightarrow>
         (if length rest < 2 \<or> hd rest \<notin> set ''+-'' then None
          else (case parse_uint 255 (tl rest) of
                  None \<Rightarrow> None
                | Some hours \<Rightarrow>
                    (let sign = (if starts_with ''+'' rest then ''-'' else ''+'');
                         plain = sign @ nat_digits hours;
                         padded = sign @ pad_zeros 2 (nat_digits hours)
                     in Some \<lparr>zs_id = ''UTC'' @ plain, zs_zone = ''Etc/'' @ name, zs_label = ''UTC'' @ plain,
                              zs_flag = [],
                              zs_aliases = join_with '' '' [''UTC'' @ plain, ''UTC'' @ padded,
                                ''UTC'' @ plain @ '':00'', ''UTC'' @ padded @ '':00'', ''GMT'' @ plain, ''GMT'' @ padded,
                                ''GMT'' @ plain @ '':00'', ''GMT'' @ padded @ '':00'', padded @ ''00'', padded @ '':00''],
                              zs_kind = ''offset''\<rparr>))))"

definition zone_sources :: "clock_host \<Rightarrow> string + zone_source list" where
  "zone_sources h = (case ck_table h ''iso3166.tab'' of
       None \<Rightarrow> Inl (ck_io h)
     | Some text \<Rightarrow>
         (let countries = map_of (rev (List.map_filter (split_once tab) (no_comment (str_lines text))));
              geographic = (case ck_table h ''zone.tab'' of Some t \<Rightarrow> t | None \<Rightarrow> []);
              historical = (case ck_table h ''zone1970.tab'' of Some t \<Rightarrow> t | None \<Rightarrow> [])
          in if geographic = [] \<and> historical = [] then Inl ''No timezone table found in TZDIR''
             else
               (let zones = foldl (table_line countries) []
                      (no_comment (str_lines geographic @ str_lines historical));
                    zones = (case ck_table h ''tzdata.zi'' of Some t \<Rightarrow> link_zones zones t | None \<Rightarrow> zones)
                in Inr (sort_key zs_label zones @ [utc_zone] @ List.map_filter etc_zone (ck_etc h)))))"

section \<open>Zone rules and names\<close>

text \<open>\<open>Path::join\<close>, and the \<open>TZ\<close> value of a zone.\<close>

definition path_join :: "string \<Rightarrow> string \<Rightarrow> string" where
  "path_join d n =
     (if starts_with ''/'' n then n else if d = [] \<or> ends_with ''/'' d then d @ n else d @ ''/'' @ n)"

definition zone_spec :: "string \<Rightarrow> zone_source \<Rightarrow> string" where
  "zone_spec directory z =
     (if CHR ''/'' \<in> set (zs_zone z) then '':'' @ path_join directory (zs_zone z) else zs_zone z)"

fun new_words :: "string list \<Rightarrow> string list \<Rightarrow> string list" where
  "new_words seen [] = []"
| "new_words seen (w # ws) =
     (if to_ascii_lowercase w \<in> set seen then new_words seen ws
      else w # new_words (to_ascii_lowercase w # seen) ws)"

definition parse_year :: "string \<Rightarrow> int" where
  "parse_year s = (case parse_uint 2147483647 s of Some n \<Rightarrow> int n
     | None \<Rightarrow>
         (case s of c # r \<Rightarrow>
            (if c = CHR ''-'' \<and> r \<noteq> [] \<and> list_all is_ascii_digit r \<and> digits_value r \<le> 2147483648
             then - int (digits_value r) else 1970)
          | [] \<Rightarrow> 1970))"

definition seasonal :: "clock_host \<Rightarrow> int \<Rightarrow> zone_source \<Rightarrow> zone_source" where
  "seasonal h now z =
     (let year = parse_year (ck_format h (ck_tz h) now ''%Y'');
          tz = Some (zone_spec (ck_zoneinfo h) z);
          standard = ck_format h tz (ck_timegm h (year, 1, 15) 12) ''%Z'';
          daylight = ck_format h tz (ck_timegm h (year, 7, 15) 12) ''%Z''
      in z\<lparr>zs_aliases := join_with '' '' (new_words []
             (split_whitespace (zs_aliases z @ '' '' @ standard @ '' '' @ daylight)))\<rparr>)"

text \<open>The zone a name stands for: by id first, then by database name, or by an alias with a slash.\<close>

definition same_name :: "string \<Rightarrow> string \<Rightarrow> bool" where
  "same_name a b \<longleftrightarrow> to_ascii_lowercase a = to_ascii_lowercase b"

definition resolve_zone :: "string \<Rightarrow> zone_source list \<Rightarrow> string option" where
  "resolve_zone wanted zones =
     map_option zs_id
       (case find (\<lambda>z. same_name (zs_id z) wanted) zones of
          Some z \<Rightarrow> Some z
        | None \<Rightarrow> find (\<lambda>z. same_name (zs_zone z) wanted
            \<or> (CHR ''/'' \<in> set wanted \<and> list_ex (\<lambda>a. same_name a wanted) (split_whitespace (zs_aliases z)))) zones)"

section \<open>Pinned zones\<close>

fun add_new :: "'a list \<Rightarrow> 'a list \<Rightarrow> 'a list" where
  "add_new acc [] = acc"
| "add_new acc (x # xs) = add_new (if x \<in> set acc then acc else acc @ [x]) xs"

definition pins :: "clock_host \<Rightarrow> zone_source list \<Rightarrow> string list" where
  "pins h zones = (case ck_pins h of
       None \<Rightarrow> []
     | Some text \<Rightarrow>
         (case ck_parse h text of
            Some (JArr vs) \<Rightarrow>
              add_new [] (List.map_filter (\<lambda>w. resolve_zone w zones) (List.map_filter as_str vs))
          | _ \<Rightarrow> (case resolve_zone (trim text) zones of Some i \<Rightarrow> [i] | None \<Rightarrow> [])))"

text \<open>What becomes of the file: removed, or replaced by the array of these ids.\<close>

datatype pin_write = Pins_Removed | Pins_Written "string list"

definition write_pins :: "string list \<Rightarrow> pin_write" where
  "write_pins ids = (if ids = [] then Pins_Removed else Pins_Written ids)"

definition pin_command :: "clock_host \<Rightarrow> bool \<Rightarrow> string \<Rightarrow> string + pin_write" where
  "pin_command h pin wanted = (case zone_sources h of
       Inl e \<Rightarrow> Inl e
     | Inr available \<Rightarrow>
         (case resolve_zone wanted available of
            None \<Rightarrow> Inl (''Unknown timezone: '' @ wanted)
          | Some i \<Rightarrow>
              (let ids = pins h available
               in Inr (write_pins (if pin then (if i \<in> set ids then ids else ids @ [i])
                                   else filter (\<lambda>j. j \<noteq> i) ids)))))"

section \<open>Request lines\<close>

text \<open>The input is what successive \<open>fill_buf\<close> calls return; an empty buffer is its end. The loop keeps
  the line and whether it grew past the limit, and leaves the rest of the buffer behind a newline
  for the next call. \<open>None\<close> is the end of the input.\<close>

definition request_limit :: nat where "request_limit = 8192"

fun line_loop :: "string list \<Rightarrow> string \<Rightarrow> bool \<Rightarrow> string option \<times> string list" where
  "line_loop [] line oversized =
     (if line = [] \<and> \<not> oversized then None else Some (if oversized then [] else line), [])"
| "line_loop (buffer # rest) line oversized =
     (if buffer = [] then
        (if line = [] \<and> \<not> oversized then None else Some (if oversized then [] else line), rest)
      else
        (let ended = newline \<in> set buffer;
             count = (if ended then length (takeWhile (\<lambda>b. b \<noteq> newline) buffer) + 1 else length buffer);
             oversized = (oversized \<or> request_limit < length line + count);
             line = (if oversized then line else line @ take count buffer)
         in if ended then (Some (if oversized then [] else line),
                           (if drop count buffer = [] then rest else drop count buffer # rest))
            else line_loop rest line oversized))"

definition request_line :: "string list \<Rightarrow> string option \<times> string list" where
  "request_line input = line_loop input [] False"

end
