(* ===== verification/Meeting_Model.thy ===== *)
theory Meeting_Model
  imports Clock_Catalog
begin

text \<open>
  \<open>tools/src/clock/meeting.rs\<close>, first half: wall-clock readings, how an hour suits a person, the
  offsets of a zone over a window and one row of the plan. Instants are seconds since the epoch;
  the requests bound them to 1970-2100, so the source's \<open>i64\<close> is an unbounded integer here. Its
  divisions are either euclidean or of non-negative operands, where they are \<open>div\<close>.
\<close>

abbreviation MINUTE :: int where "MINUTE \<equiv> 60"
abbreviation HOUR :: int where "HOUR \<equiv> 3600"
abbreviation DAY :: int where "DAY \<equiv> 86400"
abbreviation SLOT :: int where "SLOT \<equiv> 900"
abbreviation HORIZON_DAYS :: int where "HORIZON_DAYS \<equiv> 14"
abbreviation WINDOW :: int where "WINDOW \<equiv> 1382400"

text \<open>\<open>(a..b).step_by(s)\<close>.\<close>

definition steps :: "int \<Rightarrow> int \<Rightarrow> int \<Rightarrow> int list" where
  "steps a b s = map (\<lambda>k. a + int k * s) [0..<nat ((b - a + s - 1) div s)]"

definition en_dash :: string where "en_dash = of_chars [0x2013]"
definition arrow :: string where "arrow = of_chars [0x2192]"
definition mid_dot :: string where "mid_dot = of_chars [0xB7]"

definition weekdays :: "string list" where
  "weekdays = [''Sun'', ''Mon'', ''Tue'', ''Wed'', ''Thu'', ''Fri'', ''Sat'']"

definition months :: "string list" where
  "months = [''Jan'', ''Feb'', ''Mar'', ''Apr'', ''May'', ''Jun'', ''Jul'', ''Aug'', ''Sep'', ''Oct'', ''Nov'', ''Dec'']"

section \<open>How a minute suits\<close>

text \<open>Sunday is 0; the epoch began on a Thursday.\<close>

definition weekday :: "int \<Rightarrow> int" where
  "weekday wall = (wall div DAY + 4) mod 7"

datatype fit = Work | Edge | Off

fun fit_rank :: "fit \<Rightarrow> nat" where
  "fit_rank Work = 0" | "fit_rank Edge = 1" | "fit_rank Off = 2"

instantiation fit :: linorder
begin

definition less_eq_fit :: "fit \<Rightarrow> fit \<Rightarrow> bool" where
  "less_eq_fit a b \<longleftrightarrow> fit_rank a \<le> fit_rank b"

definition less_fit :: "fit \<Rightarrow> fit \<Rightarrow> bool" where
  "less_fit a b \<longleftrightarrow> fit_rank a < fit_rank b"

instance
proof
  show "a \<le> b \<Longrightarrow> b \<le> a \<Longrightarrow> a = b" for a b :: fit
    by (cases a; cases b) (simp_all add: less_eq_fit_def)
qed (auto simp: less_eq_fit_def less_fit_def)

end

definition workday :: "int \<Rightarrow> bool" where
  "workday wall \<longleftrightarrow> 1 \<le> weekday wall \<and> weekday wall \<le> 5"

definition fit_at :: "int \<Rightarrow> fit" where
  "fit_at wall =
     (let hour = wall mod DAY div HOUR
      in if \<not> workday wall then Off
         else if 9 \<le> hour \<and> hour < 17 then Work
         else if (7 \<le> hour \<and> hour < 9) \<or> (17 \<le> hour \<and> hour < 20) then Edge
         else Off)"

definition fit_cost :: "int \<Rightarrow> nat" where
  "fit_cost wall =
     (let hour = wall mod DAY div HOUR
      in if \<not> workday wall then 5
         else if 9 \<le> hour \<and> hour \<le> 16 then 0
         else if hour = 8 \<or> hour = 17 then 1
         else if hour = 7 \<or> hour = 18 then 2
         else if hour = 19 then 3
         else if hour = 6 \<or> hour = 20 \<or> hour = 21 then 4
         else 6)"

fun fit_name :: "fit \<Rightarrow> string" where
  "fit_name Work = ''work''" | "fit_name Edge = ''edge''" | "fit_name Off = ''off''"

section \<open>Wall clock readings\<close>

record wall =
  wl_year :: int
  wl_month :: int
  wl_day :: int
  wl_hour :: int
  wl_minute :: int
  wl_weekday :: int

definition wall_new :: "int \<Rightarrow> wall" where
  "wall_new t =
     (let days = t div DAY + 719468;
          era = days div 146097;
          doe = days - era * 146097;
          yoe = (doe - doe div 1460 + doe div 36524 - doe div 146096) div 365;
          doy = doe - (365 * yoe + yoe div 4 - yoe div 100);
          shifted = (5 * doy + 2) div 153;
          month = (if shifted < 10 then shifted + 3 else shifted - 9);
          seconds = t mod DAY
      in \<lparr>wl_year = yoe + era * 400 + (if month \<le> 2 then 1 else 0), wl_month = month,
          wl_day = doy - (153 * shifted + 2) div 5 + 1,
          wl_hour = seconds div HOUR, wl_minute = seconds mod HOUR div MINUTE, wl_weekday = weekday t\<rparr>)"

definition wall_time :: "wall \<Rightarrow> string" where
  "wall_time w = two_digits (wl_hour w) @ '':'' @ two_digits (wl_minute w)"

definition wall_date :: "wall \<Rightarrow> string" where
  "wall_date w = weekdays ! nat (wl_weekday w) @ '' '' @ show_int (wl_day w) @ '' '' @ months ! nat (wl_month w - 1)"

definition wall_iso :: "wall \<Rightarrow> string" where
  "wall_iso w = pad_zeros 4 (show_int (wl_year w)) @ ''-'' @ two_digits (wl_month w) @ ''-'' @ two_digits (wl_day w)"

definition offset_label :: "int \<Rightarrow> string" where
  "offset_label offset =
     (let sign = (if offset < 0 then ''-'' else ''+''); minutes = \<bar>offset\<bar> div MINUTE
      in if minutes mod 60 = 0 then ''UTC'' @ sign @ show_int (minutes div 60)
         else ''UTC'' @ sign @ show_int (minutes div 60) @ '':'' @ two_digits (minutes mod 60))"

text \<open>\<open>abbreviation\<close>: a name that only repeats the offset is none.\<close>

definition zone_abbreviation :: "string \<Rightarrow> string option" where
  "zone_abbreviation s = (if s \<noteq> [] \<and> hd s \<notin> set ''+-'' then Some s else None)"

definition length_label :: "int \<Rightarrow> string" where
  "length_label minutes =
     (if minutes div 60 = 0 then show_int (minutes mod 60) @ '' min''
      else if minutes mod 60 = 0 then show_int (minutes div 60) @ '' h''
      else show_int (minutes div 60) @ '' h '' @ show_int (minutes mod 60) @ '' min'')"

section \<open>The offsets of a zone\<close>

text \<open>\<open>probe\<close> under one \<open>TZ\<close> value, what libc says is in force at an instant.\<close>

type_synonym zone = "int \<Rightarrow> int \<times> string"

record segment =
  sg_from :: int
  sg_offset :: int
  sg_name :: string

definition segment_at :: "zone \<Rightarrow> int \<Rightarrow> segment" where
  "segment_at z t = \<lparr>sg_from = t, sg_offset = fst (z t), sg_name = snd (z t)\<rparr>"

definition same_reading :: "segment \<Rightarrow> int \<times> string \<Rightarrow> bool" where
  "same_reading s r \<longleftrightarrow> fst r = sg_offset s \<and> snd r = sg_name s"

text \<open>The binary search for the second at which the reading changes.\<close>

function bisect :: "zone \<Rightarrow> segment \<Rightarrow> int \<Rightarrow> int \<Rightarrow> int" where
  "bisect z current low high =
     (if 1 < high - low
      then (let middle = low + (high - low) div 2
            in if same_reading current (z middle) then bisect z current middle high
               else bisect z current low middle)
      else high)"
  by auto
termination by (relation "measure (\<lambda>(z, c, low, high). nat (high - low))") auto

declare bisect.simps [simp del]

text \<open>Hourly probes; each one that differs from the last segment starts a new one.\<close>

function segment_loop :: "zone \<Rightarrow> int \<Rightarrow> int \<Rightarrow> segment list \<Rightarrow> segment list" where
  "segment_loop z here end result =
     (if here < end
      then (let coming = min (here + HOUR) end; current = last result
            in segment_loop z coming end
                 (if same_reading current (z coming) then result
                  else result @ [segment_at z (bisect z current here coming)]))
      else result)"
  by auto
termination by (relation "measure (\<lambda>(z, here, end, r). nat (end - here))") auto

declare segment_loop.simps [simp del]

definition segments :: "zone \<Rightarrow> int \<Rightarrow> int \<Rightarrow> segment list" where
  "segments z start end = segment_loop z start end [segment_at z start]"

text \<open>\<open>partition_point\<close> counts the segments that started; the list is in order of time.\<close>

definition seg_lookup :: "segment list \<Rightarrow> int \<Rightarrow> segment" where
  "seg_lookup segs t = segs ! (length (takeWhile (\<lambda>s. sg_from s \<le> t) segs) - 1)"

section \<open>A participant\<close>

record participant =
  pa_id :: string
  pa_label :: string
  pa_home :: bool
  pa_segments :: "segment list"
  pa_outside :: "nat list"
  pa_off :: "nat list"
  pa_cost :: "nat list"

text \<open>The index of the segment in force, advanced as the minutes go by.\<close>

function seg_advance :: "segment list \<Rightarrow> int \<Rightarrow> nat \<Rightarrow> nat" where
  "seg_advance segs t i = (if i + 1 < length segs \<and> sg_from (segs ! (i + 1)) \<le> t then seg_advance segs t (i + 1) else i)"
  by auto
termination by (relation "measure (\<lambda>(segs, t, i). length segs - i)") auto

declare seg_advance.simps [simp del]

text \<open>One minute of \<open>measure\<close>: the index and the three vectors of prefix sums.\<close>

definition measure_minute ::
    "segment list \<Rightarrow> int \<Rightarrow> nat \<times> nat list \<times> nat list \<times> nat list \<Rightarrow> nat \<Rightarrow> nat \<times> nat list \<times> nat list \<times> nat list" where
  "measure_minute segs origin st m =
     (case st of (i, outside, off, cost) \<Rightarrow>
        (let t = origin + int m * MINUTE;
             i = seg_advance segs t i;
             wall = t + sg_offset (segs ! i);
             fit = fit_at wall
         in (i, outside @ [last outside + (if fit \<noteq> Work then 1 else 0)],
             off @ [last off + (if fit = Off then 1 else 0)],
             cost @ [last cost + fit_cost wall])))"

definition measure_row :: "zone \<Rightarrow> string \<Rightarrow> string \<Rightarrow> bool \<Rightarrow> int \<Rightarrow> participant" where
  "measure_row z key label home origin =
     (let segs = segments z origin (origin + WINDOW)
      in case foldl (measure_minute segs origin) (0, [0], [0], [0]) [0..<nat (WINDOW div MINUTE)] of
           (_, outside, off, cost) \<Rightarrow>
             \<lparr>pa_id = key, pa_label = label, pa_home = home, pa_segments = segs,
              pa_outside = outside, pa_off = off, pa_cost = cost\<rparr>)"

definition row_segment :: "participant \<Rightarrow> int \<Rightarrow> segment" where
  "row_segment p t = seg_lookup (pa_segments p) t"

definition row_wall :: "participant \<Rightarrow> int \<Rightarrow> int" where
  "row_wall p t = t + sg_offset (row_segment p t)"

text \<open>The indices of an interval. Outside the window the source would stop with a panic.\<close>

definition row_span :: "int \<Rightarrow> int \<Rightarrow> int \<Rightarrow> nat \<times> nat" where
  "row_span origin start end = (nat ((start - origin) div MINUTE), nat ((end - origin) div MINUTE))"

definition row_minutes :: "participant \<Rightarrow> int \<Rightarrow> int \<Rightarrow> int \<Rightarrow> nat \<times> nat" where
  "row_minutes p origin start end =
     (case row_span origin start end of (lo, hi) \<Rightarrow>
        (pa_outside p ! hi - pa_outside p ! lo, pa_off p ! hi - pa_off p ! lo))"

definition row_cost :: "participant \<Rightarrow> int \<Rightarrow> int \<Rightarrow> int \<Rightarrow> nat" where
  "row_cost p origin start end =
     (case row_span origin start end of (lo, hi) \<Rightarrow> pa_cost p ! hi - pa_cost p ! lo)"

definition row_fit :: "participant \<Rightarrow> int \<Rightarrow> int \<Rightarrow> int \<Rightarrow> fit" where
  "row_fit p origin start end =
     (case row_minutes p origin start end of (outside, off) \<Rightarrow>
        if outside = 0 then Work else if off = 0 then Edge else Off)"

text \<open>Why an interval does not suit, read at its worst minute. An empty interval and one at work
  have no note; \<open>Work\<close> is the least fit.\<close>

definition row_note :: "participant \<Rightarrow> int \<Rightarrow> int \<Rightarrow> string" where
  "row_note p start end =
     (let walls = map (row_wall p) (steps start end MINUTE);
          fit = foldl max Work (map fit_at walls)
      in if fit = Work then []
         else (case find (\<lambda>w. fit_at w = fit) walls of
                 None \<Rightarrow> []
               | Some wall \<Rightarrow>
                   (if \<not> workday wall then ''weekend''
                    else if fit = Off then ''night''
                    else if wall mod DAY < 12 * HOUR then ''early'' else ''late'')))"

section \<open>The cells of a row\<close>

record hour_cell =
  hc_from :: int
  hc_to :: int
  hc_label :: string
  hc_day :: string
  hc_kind :: string

definition close_last :: "int \<Rightarrow> hour_cell list \<Rightarrow> hour_cell list" where
  "close_last t cells = (if cells = [] then [] else butlast cells @ [(last cells)\<lparr>hc_to := t\<rparr>])"

text \<open>One minute of \<open>cells\<close>: a new cell where the wall hour or the segment changes, with the day's
  name where the local date does.\<close>

definition cell_minute ::
    "participant \<Rightarrow> int \<Rightarrow> int \<Rightarrow> hour_cell list \<times> (int \<times> int) option \<times> int option \<Rightarrow> int
      \<Rightarrow> hour_cell list \<times> (int \<times> int) option \<times> int option" where
  "cell_minute p start end st t =
     (case st of (cells, key, date) \<Rightarrow>
        (let segment = row_segment p t;
             wall = t + sg_offset segment;
             next_key = (wall div HOUR, sg_from segment)
         in if key = Some next_key then st
            else
              (let reading = wall_new wall;
                   today = wall div DAY
               in (close_last ((t - start) div MINUTE) cells
                     @ [\<lparr>hc_from = (t - start) div MINUTE, hc_to = (end - start) div MINUTE,
                         hc_label = two_digits (wl_hour reading),
                         hc_day = (if date \<noteq> None \<and> date \<noteq> Some today then weekdays ! nat (wl_weekday reading) else []),
                         hc_kind = fit_name (fit_at wall)\<rparr>],
                   Some next_key, Some today))))"

definition row_cells_at :: "participant \<Rightarrow> int \<Rightarrow> int \<Rightarrow> hour_cell list" where
  "row_cells_at p start end = fst (foldl (cell_minute p start end) ([], None, None) (steps start end MINUTE))"

definition hour_cell_value :: "hour_cell \<Rightarrow> json" where
  "hour_cell_value c = json_obj
     [(''from'', JNum (show_int (hc_from c))), (''to'', JNum (show_int (hc_to c))),
      (''label'', JStr (hc_label c)), (''day'', JStr (hc_day c)), (''kind'', JStr (hc_kind c))]"

end
