(* ===== verification/Meeting_Plan.thy ===== *)
theory Meeting_Plan
  imports Meeting_Model
begin

text \<open>
  \<open>tools/src/clock/meeting.rs\<close>, second half, and the resident loop of \<open>clock.rs\<close>: the local day of a
  request, the ranking of starts, the next opening, the plan's reply, the cache of measured rows and
  the lines of \<open>watch\<close>. An error is the left of a sum.
\<close>

section \<open>Dates and local days\<close>

abbreviation EARLIEST :: int where "EARLIEST \<equiv> 86400"
abbreviation LATEST :: int where "LATEST \<equiv> 4133808000"

type_synonym date = "int \<times> int \<times> int"

definition here :: "clock_host \<Rightarrow> zone" where
  "here h = ck_probe h (ck_tz h)"

definition local_date :: "clock_host \<Rightarrow> int \<Rightarrow> date" where
  "local_date h t = ck_date h (ck_tz h) t"

definition wall_civil :: "int \<Rightarrow> date" where
  "wall_civil t = (let w = wall_new t in (wl_year w, wl_month w, wl_day w))"

definition civil_epoch :: "clock_host \<Rightarrow> date \<Rightarrow> int" where
  "civil_epoch h d = ck_timegm h d 0"

text \<open>The two bounded searches of \<open>day_start\<close>: back by hours until the date is earlier, then on by
  minutes until it is not.\<close>

fun hours_back :: "clock_host \<Rightarrow> date \<Rightarrow> nat \<Rightarrow> int \<Rightarrow> int" where
  "hours_back h d 0 t = t"
| "hours_back h d (Suc n) t = (if local_date h t < d then t else hours_back h d n (t - HOUR))"

fun minutes_on :: "clock_host \<Rightarrow> date \<Rightarrow> nat \<Rightarrow> int \<Rightarrow> int" where
  "minutes_on h d 0 t = t"
| "minutes_on h d (Suc n) t = (if d \<le> local_date h t then t else minutes_on h d n (t + MINUTE))"

definition day_start :: "clock_host \<Rightarrow> date \<Rightarrow> string + int" where
  "day_start h d =
     (let noon = civil_epoch h d + 12 * HOUR;
          t = minutes_on h d 240 (hours_back h d 48 (civil_epoch h d - fst (here h noon)))
      in if local_date h t \<noteq> d then Inl ''That date does not exist in this computer's timezone'' else Inr t)"

definition next_date :: "clock_host \<Rightarrow> date \<Rightarrow> date" where
  "next_date h d = wall_civil (civil_epoch h d + DAY)"

definition day_bounds :: "clock_host \<Rightarrow> date \<Rightarrow> string + int \<times> int" where
  "day_bounds h d = (case day_start h d of
       Inl e \<Rightarrow> Inl e
     | Inr a \<Rightarrow> (case day_start h (next_date h d) of Inl e \<Rightarrow> Inl e | Inr b \<Rightarrow> Inr (a, b)))"

definition local_day :: "clock_host \<Rightarrow> int \<Rightarrow> string + int \<times> int" where
  "local_day h t = day_bounds h (local_date h t)"

text \<open>The first slot of a date at or after a minute of the day.\<close>

definition same_time_on :: "clock_host \<Rightarrow> date \<Rightarrow> int \<Rightarrow> string + int" where
  "same_time_on h d minute_of_day = (case day_bounds h d of
       Inl e \<Rightarrow> Inl e
     | Inr (a, b) \<Rightarrow>
         (case find (\<lambda>t. minute_of_day \<le> (t + fst (here h t)) mod DAY div MINUTE) (steps a b SLOT) of
            Some t \<Rightarrow> Inr t
          | None \<Rightarrow> Inr (b - SLOT)))"

definition date_shape :: "string \<Rightarrow> bool" where
  "date_shape s \<longleftrightarrow> length s = 10
     \<and> list_all (\<lambda>i. if i = 4 \<or> i = 7 then s ! i = CHR ''-'' else is_ascii_digit (s ! i)) [0..<10]"

definition day_epoch :: "clock_host \<Rightarrow> string \<Rightarrow> string + int" where
  "day_epoch h s =
     (if \<not> date_shape s then Inl ''Enter a date as YYYY-MM-DD''
      else
        (let year = int (digits_value (take 4 s)) in
         if year < 1970 \<or> 2100 < year then Inl ''Choose a date between 1970 and 2100''
         else
           (let t = ck_timegm h (year, int (digits_value (take 2 (drop 5 s))), int (digits_value (drop 8 s))) 0
            in if ck_utc h t ''%Y-%m-%d'' \<noteq> s then Inl ''That calendar date does not exist'' else Inr t)))"

definition in_range :: "int \<Rightarrow> string + int" where
  "in_range t =
     (if EARLIEST \<le> t \<and> t \<le> LATEST then Inr t else Inl ''Choose a date between 1970 and 2100'')"

section \<open>Requests\<close>

record meeting_request =
  rq_start :: "int option"
  rq_date :: string
  rq_days :: int
  rq_duration :: int
  rq_busy :: "(int \<times> int) list"

definition blank_request :: meeting_request where
  "blank_request = \<lparr>rq_start = None, rq_date = [], rq_days = 0, rq_duration = 0, rq_busy = []\<rparr>"

definition i64_value :: "json \<Rightarrow> int option" where
  "i64_value v = (case v of
       JNum (c # t) \<Rightarrow>
         (if c = CHR ''-''
          then (if t \<noteq> [] \<and> list_all is_ascii_digit t \<and> digits_value t \<le> 9223372036854775808
                then Some (- int (digits_value t)) else None)
          else map_option int (parse_uint 9223372036854775807 (c # t)))
     | _ \<Rightarrow> None)"

fun pair_value :: "json \<Rightarrow> (int \<times> int) option" where
  "pair_value (JArr [a, b]) =
     (case (i64_value a, i64_value b) of (Some x, Some y) \<Rightarrow> Some (x, y) | _ \<Rightarrow> None)"
| "pair_value _ = None"

definition busy_value :: "json \<Rightarrow> (int \<times> int) list option" where
  "busy_value v = (case v of
       JArr vs \<Rightarrow> those (map pair_value vs)
     | _ \<Rightarrow> None)"

definition field_names :: "string list" where
  "field_names = [''start'', ''date'', ''days'', ''duration'', ''busy'']"

text \<open>One field of the derived \<open>Deserialize\<close>.\<close>

definition read_field :: "string \<Rightarrow> json \<Rightarrow> meeting_request \<Rightarrow> meeting_request option" where
  "read_field k v r =
     (if k = ''start'' then
        (if v = JNull then Some (r\<lparr>rq_start := None\<rparr>) else map_option (\<lambda>t. r\<lparr>rq_start := Some t\<rparr>) (i64_value v))
      else if k = ''date'' then map_option (\<lambda>s. r\<lparr>rq_date := s\<rparr>) (as_str v)
      else if k = ''days'' then map_option (\<lambda>n. r\<lparr>rq_days := n\<rparr>) (i64_value v)
      else if k = ''duration'' then map_option (\<lambda>n. r\<lparr>rq_duration := n\<rparr>) (i64_value v)
      else if k = ''busy'' then map_option (\<lambda>b. r\<lparr>rq_busy := b\<rparr>) (busy_value v)
      else None)"

fun read_fields :: "(string \<times> json) list \<Rightarrow> meeting_request \<Rightarrow> meeting_request option" where
  "read_fields [] r = Some r"
| "read_fields ((k, v) # kvs) r = Option.bind (read_field k v r) (read_fields kvs)"

text \<open>An object names its fields, unknown ones are refused; an array lists them in order.\<close>

definition read_request :: "json \<Rightarrow> meeting_request option" where
  "read_request v = (case v of
       JObj m \<Rightarrow> read_fields m blank_request
     | JArr vs \<Rightarrow> (if 5 < length vs then None else read_fields (zip field_names vs) blank_request)
     | _ \<Rightarrow> None)"

definition resolve_start :: "clock_host \<Rightarrow> meeting_request \<Rightarrow> int \<Rightarrow> string + int" where
  "resolve_start h r now =
     (if rq_days r < - 366 \<or> 366 < rq_days r then Inl ''Move by at most a year at a time''
      else
        (case (case rq_start r of
                 Some start \<Rightarrow>
                   (case in_range start of Inl e \<Rightarrow> Inl e
                    | Inr t \<Rightarrow> (case local_day h t of Inl e \<Rightarrow> Inl e
                        | Inr (day, _) \<Rightarrow> Inr (start - (start - day) mod SLOT)))
               | None \<Rightarrow>
                   (case in_range now of Inl e \<Rightarrow> Inl e
                    | Inr t \<Rightarrow> (case local_day h t of Inl e \<Rightarrow> Inl e
                        | Inr (day, _) \<Rightarrow> Inr (now + (day - now) mod SLOT)))) of
           Inl e \<Rightarrow> Inl e
         | Inr start \<Rightarrow>
             (if rq_date r = [] \<and> rq_days r = 0 then Inr start
              else
                (case (if rq_date r = [] then Inr (local_date h start)
                       else (case day_epoch h (rq_date r) of Inl e \<Rightarrow> Inl e | Inr t \<Rightarrow> Inr (wall_civil t))) of
                   Inl e \<Rightarrow> Inl e
                 | Inr d \<Rightarrow>
                     (case in_range (civil_epoch h d + rq_days r * DAY) of
                        Inl e \<Rightarrow> Inl e
                      | Inr t \<Rightarrow>
                          same_time_on h (wall_civil t) ((start + fst (here h start)) mod DAY div MINUTE))))))"

definition max_busy :: nat where "max_busy = 96"

definition validate_busy :: "(int \<times> int) list \<Rightarrow> string + unit" where
  "validate_busy busy =
     (if max_busy < length busy then Inl (''Send at most '' @ nat_digits max_busy @ '' busy intervals'')
      else if list_ex (\<lambda>(a, b). b \<le> a \<or> a < EARLIEST \<or> LATEST < b) busy then Inl ''A busy interval is invalid''
      else Inr ())"

section \<open>Scores and words\<close>

definition busy_seconds :: "(int \<times> int) list \<Rightarrow> int \<Rightarrow> int \<Rightarrow> int" where
  "busy_seconds busy start end = sum_list (map (\<lambda>(a, b). max 0 (min end b - max start a)) busy)"

definition score :: "participant list \<Rightarrow> (int \<times> int) list \<Rightarrow> int \<Rightarrow> int \<Rightarrow> int \<Rightarrow> int" where
  "score rows busy origin start end =
     sum_list (map (\<lambda>p. int (row_cost p origin start end)) rows) + 3 * (busy_seconds busy start end div MINUTE)"

definition worst :: "participant list \<Rightarrow> int \<Rightarrow> int \<Rightarrow> int \<Rightarrow> fit" where
  "worst rows origin start end = foldl max Work (map (\<lambda>p. row_fit p origin start end) rows)"

definition phrase :: "string \<Rightarrow> string" where
  "phrase note = (if note = ''weekend'' then ''the weekend'' else note)"

text \<open>The texts given to \<open>capitalised\<close> start with a letter of a note, an ASCII one.\<close>

definition capitalised :: "string \<Rightarrow> string" where
  "capitalised s = (case s of [] \<Rightarrow> []
     | c # r \<Rightarrow> (if is_ascii_lower c then char_of (of_char c - 32 :: nat) else c) # r)"

definition listed :: "string list \<Rightarrow> string" where
  "listed names =
     (if names = [] then [] else if length names = 1 then hd names
      else join_with '', '' (butlast names) @ '' and '' @ last names)"

fun add_note :: "string \<Rightarrow> string \<Rightarrow> (string \<times> string list) list \<Rightarrow> (string \<times> string list) list" where
  "add_note note label [] = [(note, [label])]"
| "add_note note label ((g, names) # gs) =
     (if g = note then (g, names @ [label]) # gs else (g, names) # add_note note label gs)"

definition row_notes :: "participant list \<Rightarrow> int \<Rightarrow> int \<Rightarrow> (string \<times> string list) list" where
  "row_notes rows start end =
     foldl (\<lambda>gs p. let note = row_note p start end in if note = [] then gs else add_note note (pa_label p) gs) []
       (sort_key (\<lambda>p. row_note p start end \<in> {''early'', ''late''}) rows)"

definition everyone :: "participant list \<Rightarrow> (string \<times> string list) list \<Rightarrow> bool" where
  "everyone rows groups \<longleftrightarrow> 1 < length rows \<and> length groups = 1 \<and> length (snd (hd groups)) = length rows"

definition plan_sentence :: "participant list \<Rightarrow> int \<Rightarrow> int \<Rightarrow> string" where
  "plan_sentence rows start end =
     (let groups = row_notes rows start end
      in if groups = [] then ''Working hours for everyone''
         else if everyone rows groups then capitalised (phrase (fst (hd groups)) @ '' for everyone'')
         else capitalised (join_with ('' '' @ mid_dot @ '' '')
                (map (\<lambda>(note, names). phrase note @ '' in '' @ listed names) groups)))"

definition plan_caption :: "participant list \<Rightarrow> bool \<Rightarrow> int \<Rightarrow> int \<Rightarrow> string" where
  "plan_caption rows busy start end =
     (let groups = row_notes rows start end;
          outside = sum_list (map (\<lambda>(_, names). length names) groups);
          hours = (case groups of
              [] \<Rightarrow> ''Everyone''
            | (note, names) # _ \<Rightarrow>
                (if everyone rows groups then capitalised (phrase note @ '' for everyone'')
                 else if outside = 1 then capitalised (phrase note @ '' in '' @ names ! 0)
                 else capitalised (phrase note @ '' in '' @ names ! 0 @ '' +'' @ nat_digits (outside - 1))))
      in if busy then ''Busy '' @ mid_dot @ '' '' @ hours else hours)"

section \<open>Readings\<close>

record reading =
  rd_start :: wall
  rd_end :: wall
  rd_start_zone :: string
  rd_end_zone :: string
  rd_start_offset :: int
  rd_end_offset :: int

definition reading_of :: "participant \<Rightarrow> int \<Rightarrow> int \<Rightarrow> reading" where
  "reading_of p start end =
     (let a = row_segment p start; b = row_segment p end
      in \<lparr>rd_start = wall_new (start + sg_offset a), rd_end = wall_new (end + sg_offset b),
          rd_start_zone = sg_name a, rd_end_zone = sg_name b,
          rd_start_offset = sg_offset a, rd_end_offset = sg_offset b\<rparr>)"

definition reading_range :: "reading \<Rightarrow> string" where
  "reading_range r = wall_time (rd_start r) @ en_dash @ wall_time (rd_end r)"

definition crosses_date :: "reading \<Rightarrow> bool" where
  "crosses_date r \<longleftrightarrow> wall_iso (rd_start r) \<noteq> wall_iso (rd_end r)"

definition zone_label :: "string \<Rightarrow> int \<Rightarrow> string" where
  "zone_label name offset = (case zone_abbreviation name of
       Some n \<Rightarrow> n @ '' '' @ offset_label offset | None \<Rightarrow> offset_label offset)"

definition reading_zone :: "reading \<Rightarrow> string" where
  "reading_zone r =
     (let a = zone_label (rd_start_zone r) (rd_start_offset r); b = zone_label (rd_end_zone r) (rd_end_offset r)
      in if a = b then a else a @ '' '' @ arrow @ '' '' @ b)"

definition reading_caption :: "reading \<Rightarrow> string" where
  "reading_caption r =
     (let dates = (if crosses_date r then wall_date (rd_start r) @ '' '' @ arrow @ '' '' @ wall_date (rd_end r)
                   else wall_date (rd_start r))
      in dates @ '' '' @ mid_dot @ '' '' @ reading_zone r)"

definition reading_line :: "reading \<Rightarrow> string \<Rightarrow> string \<Rightarrow> string" where
  "reading_line r label heading =
     (let range = (if crosses_date r
            then wall_date (rd_start r) @ '' '' @ wall_time (rd_start r) @ '' '' @ en_dash @ '' ''
                   @ wall_date (rd_end r) @ '' '' @ wall_time (rd_end r)
            else if wall_iso (rd_start r) \<noteq> heading then wall_date (rd_start r) @ '' '' @ reading_range r
            else reading_range r)
      in ''- '' @ label @ '': '' @ range @ '' '' @ reading_zone r)"

section \<open>The catalog and the measured rows\<close>

record meeting_cache =
  mk_origin :: int
  mk_key :: "string list"
  mk_rows :: "participant list"

record clock_catalog =
  cc_key :: "(string \<times> string) option"
  cc_zones :: "zone_source list"
  cc_meeting :: "meeting_cache option"

definition empty_catalog :: clock_catalog where
  "empty_catalog = \<lparr>cc_key = None, cc_zones = [], cc_meeting = None\<rparr>"

definition catalog_key :: "clock_host \<Rightarrow> int \<Rightarrow> string \<times> string" where
  "catalog_key h now = (ck_stat h, ck_format h (ck_tz h) now ''%Y'')"

definition catalog_load :: "clock_host \<Rightarrow> int \<Rightarrow> clock_catalog \<Rightarrow> (string + unit) \<times> clock_catalog" where
  "catalog_load h now cat =
     (let key = catalog_key h now
      in if cc_key cat = Some key then (Inr (), cat)
         else (case zone_sources h of
                 Inl e \<Rightarrow> (Inl e, cat)
               | Inr zones \<Rightarrow>
                   (Inr (), \<lparr>cc_key = Some key, cc_zones = map (seasonal h now) zones, cc_meeting = None\<rparr>)))"

text \<open>\<open>rsplit_once\<close> with a text: what follows its last occurrence.\<close>

fun text_after_last :: "string \<Rightarrow> string \<Rightarrow> string option" where
  "text_after_last p [] = strip_pre p []"
| "text_after_last p (c # s) = (case text_after_last p s of Some r \<Rightarrow> Some r | None \<Rightarrow> strip_pre p (c # s))"

definition home_zone :: "clock_host \<Rightarrow> zone_source list \<Rightarrow> zone_source option" where
  "home_zone h zones =
     (let named = (\<lambda>v. let v = dropWhile (\<lambda>c. c = CHR '':'') v;
                           v = (case text_after_last ''zoneinfo/'' v of Some n \<Rightarrow> n | None \<Rightarrow> v)
                       in Option.bind (resolve_zone v zones) (\<lambda>i. find (\<lambda>z. zs_id z = i) zones))
      in case ck_tz h of
           Some v \<Rightarrow> if v \<noteq> [] then named v else Option.bind (ck_localtime h) named
         | None \<Rightarrow> Option.bind (ck_localtime h) named)"

definition home_name :: "clock_host \<Rightarrow> zone_source list \<Rightarrow> int \<Rightarrow> string \<times> string" where
  "home_name h zones origin = (case home_zone h zones of
       Some z \<Rightarrow> (zs_id z, zs_label z)
     | None \<Rightarrow> (''local'', (case zone_abbreviation (snd (here h origin)) of
                   Some n \<Rightarrow> n | None \<Rightarrow> offset_label (fst (here h origin)))))"

definition zone_at :: "clock_host \<Rightarrow> zone_source \<Rightarrow> zone" where
  "zone_at h z = ck_probe h (Some (zone_spec (ck_zoneinfo h) z))"

definition measure_rows :: "clock_host \<Rightarrow> zone_source list \<Rightarrow> string list \<Rightarrow> int \<Rightarrow> participant list" where
  "measure_rows h zones pinned origin =
     (case home_name h zones origin of (i, label) \<Rightarrow>
        measure_row (here h) i label True origin
        # List.map_filter (\<lambda>pin. map_option
              (\<lambda>z. measure_row (zone_at h z) (zs_id z) (zs_label z) False origin) (find (\<lambda>z. zs_id z = pin) zones))
            (filter (\<lambda>pin. pin \<noteq> i) pinned))"

definition participants ::
    "clock_host \<Rightarrow> string list \<Rightarrow> int \<Rightarrow> clock_catalog \<Rightarrow> participant list \<times> clock_catalog" where
  "participants h pinned origin cat =
     (case home_name h (cc_zones cat) origin of (i, label) \<Rightarrow>
        (let key = i # label # pinned;
             measured = measure_rows h (cc_zones cat) pinned origin;
             fresh = (measured, cat\<lparr>cc_meeting := Some \<lparr>mk_origin = origin, mk_key = key, mk_rows = measured\<rparr>\<rparr>)
         in case cc_meeting cat of
              Some c \<Rightarrow> if mk_origin c = origin \<and> mk_key c = key then (mk_rows c, cat) else fresh
            | None \<Rightarrow> fresh))"

section \<open>Suggestions and the next opening\<close>

definition candidates ::
    "participant list \<Rightarrow> (int \<times> int) list \<Rightarrow> int \<Rightarrow> int \<Rightarrow> int \<Rightarrow> int \<Rightarrow> (int \<times> bool \<times> int) list" where
  "candidates rows busy origin day_end earliest len =
     map (\<lambda>slot. (score rows busy origin slot (slot + len),
                  (row_wall (rows ! 0) slot mod HOUR div MINUTE) mod 30 \<noteq> 0, slot))
       (filter (\<lambda>slot. list_ex (\<lambda>p. snd (row_minutes p origin slot (slot + len)) < nat (len div MINUTE)) rows)
         (filter (\<lambda>slot. earliest \<le> slot) (steps origin day_end SLOT)))"

definition max_suggestions :: nat where "max_suggestions = 3"

fun choose_starts :: "int \<Rightarrow> (int \<times> bool \<times> int) list \<Rightarrow> int list \<Rightarrow> int list" where
  "choose_starts spacing [] chosen = chosen"
| "choose_starts spacing ((_, _, slot) # cs) chosen =
     (if length chosen = max_suggestions then chosen
      else choose_starts spacing cs
             (if list_all (\<lambda>other. spacing \<le> \<bar>other - slot\<bar>) chosen then chosen @ [slot] else chosen))"

definition suggest ::
    "participant list \<Rightarrow> (int \<times> int) list \<Rightarrow> int \<Rightarrow> int \<Rightarrow> int \<Rightarrow> int \<Rightarrow> int list" where
  "suggest rows busy origin day_end earliest len =
     choose_starts (max len (30 * MINUTE)) (sort (candidates rows busy origin day_end earliest len)) []"

fun opening_loop :: "(int \<Rightarrow> bool) \<Rightarrow> int list \<Rightarrow> bool \<Rightarrow> int option" where
  "opening_loop opens [] inside = None"
| "opening_loop opens (slot # slots) inside =
     (if opens slot \<and> \<not> inside then Some slot else opening_loop opens slots (inside \<and> opens slot))"

definition next_slots :: "int \<Rightarrow> int \<Rightarrow> int list" where
  "next_slots selected earliest =
     filter (\<lambda>slot. earliest \<le> slot) (steps (selected + SLOT) (selected + HORIZON_DAYS * DAY + 1) SLOT)"

definition next_fit ::
    "participant list \<Rightarrow> (int \<times> int) list \<Rightarrow> int \<Rightarrow> int \<Rightarrow> int \<Rightarrow> int \<Rightarrow> int option" where
  "next_fit rows busy origin selected earliest len =
     (let slots = next_slots selected earliest;
          free = (\<lambda>slot. busy_seconds busy slot (slot + len) = 0);
          fit = (\<lambda>slot. worst rows origin slot (slot + len));
          fits = map fit (filter free slots)
      in if fits = [] \<or> foldl min Off fits = Off then None
         else (let opens = (\<lambda>slot. free slot \<and> fit slot \<le> foldl min Off fits)
               in opening_loop opens slots (earliest \<le> selected \<and> opens selected)))"

end
