(* ===== verification/Meeting_Reply.thy ===== *)
theory Meeting_Reply
  imports Meeting_Plan
begin

text \<open>
  The replies of the resident clock: \<open>plan\<close> and \<open>project\<close> of \<open>meeting.rs\<close>, the snapshot of all zones
  and the loop of \<open>watch\<close> in \<open>clock.rs\<close>. \<open>plan_meeting\<close> is what \<open>plan\<close> decides, \<open>plan_value\<close> the
  JSON text it makes of it.
\<close>

section \<open>The plan\<close>

definition meeting_durations :: "int list" where
  "meeting_durations = [15, 30, 45, 60, 90, 120]"

record meeting_plan =
  pl_start :: int
  pl_length :: int
  pl_origin :: int
  pl_day_end :: int
  pl_rows :: "participant list"
  pl_busy :: "(int \<times> int) list"
  pl_suggestions :: "int list"
  pl_next :: "int option"

definition plan_duration :: "meeting_request \<Rightarrow> int" where
  "plan_duration r = (if rq_duration r = 0 then 60 else rq_duration r)"

definition plan_meeting ::
    "clock_host \<Rightarrow> meeting_request \<Rightarrow> int \<Rightarrow> string list \<Rightarrow> clock_catalog \<Rightarrow> (string + meeting_plan) \<times> clock_catalog" where
  "plan_meeting h r now pinned cat =
     (if plan_duration r \<notin> set meeting_durations
      then (Inl ''Choose a meeting length from 15 minutes to 2 hours'', cat)
      else
        (case validate_busy (rq_busy r) of Inl e \<Rightarrow> (Inl e, cat)
         | Inr _ \<Rightarrow>
             (case resolve_start h r now of Inl e \<Rightarrow> (Inl e, cat)
              | Inr start \<Rightarrow>
                  (case local_day h start of Inl e \<Rightarrow> (Inl e, cat)
                   | Inr (origin, day_end) \<Rightarrow>
                       (let len = plan_duration r * MINUTE;
                            earliest = max origin (now + (origin - now) mod SLOT)
                        in case participants h pinned origin cat of (rows, cat) \<Rightarrow>
                             (Inr \<lparr>pl_start = start, pl_length = len, pl_origin = origin, pl_day_end = day_end,
                                   pl_rows = rows, pl_busy = rq_busy r,
                                   pl_suggestions = suggest rows (rq_busy r) origin day_end earliest len,
                                   pl_next = next_fit rows (rq_busy r) origin start earliest len\<rparr>, cat))))))"

definition suggestion_value :: "meeting_plan \<Rightarrow> int \<Rightarrow> json" where
  "suggestion_value p slot =
     (let conflict = 0 < busy_seconds (pl_busy p) slot (slot + pl_length p)
      in json_obj
        [(''start'', JNum (show_int slot)),
         (''range'', JStr (reading_range (reading_of (pl_rows p ! 0) slot (slot + pl_length p)))),
         (''fit'', JStr (fit_name (worst (pl_rows p) (pl_origin p) slot (slot + pl_length p)))),
         (''busy'', JBool conflict),
         (''caption'', JStr (plan_caption (pl_rows p) conflict slot (slot + pl_length p)))])"

definition next_value :: "meeting_plan \<Rightarrow> json" where
  "next_value p = (case pl_next p of
       None \<Rightarrow> JNull
     | Some slot \<Rightarrow>
         (let wall = wall_new (row_wall (pl_rows p ! 0) slot)
          in json_obj
            [(''start'', JNum (show_int slot)), (''label'', JStr (wall_date wall @ '' '' @ wall_time wall)),
             (''fit'', JStr (fit_name (worst (pl_rows p) (pl_origin p) slot (slot + pl_length p))))]))"

definition plan_first :: "meeting_plan \<Rightarrow> wall" where
  "plan_first p = wall_new (row_wall (pl_rows p ! 0) (pl_origin p))"

definition plan_row_value :: "meeting_plan \<Rightarrow> participant \<Rightarrow> json" where
  "plan_row_value p row =
     (let start = pl_start p; end = start + pl_length p; reading = reading_of row start end
      in json_obj
        [(''id'', JStr (pa_id row)), (''label'', JStr (pa_label row)), (''home'', JBool (pa_home row)),
         (''range'', JStr (reading_range reading)), (''caption'', JStr (reading_caption reading)),
         (''fit'', JStr (fit_name (row_fit row (pl_origin p) start end))),
         (''note'', JStr (row_note row start end)),
         (''cells'', JArr (map hour_cell_value (row_cells_at row (pl_origin p) (pl_day_end p))))])"

definition utc_range :: "meeting_plan \<Rightarrow> string" where
  "utc_range p = wall_time (wall_new (pl_start p)) @ en_dash @ wall_time (wall_new (pl_start p + pl_length p))"

definition utc_line :: "meeting_plan \<Rightarrow> string" where
  "utc_line p =
     (let a = wall_new (pl_start p); b = wall_new (pl_start p + pl_length p); heading = wall_iso (plan_first p)
      in if wall_iso a = heading \<and> wall_iso b = heading then ''- UTC: '' @ utc_range p
         else if wall_iso a = wall_iso b then ''- UTC: '' @ wall_date a @ '' '' @ utc_range p
         else ''- UTC: '' @ wall_date a @ '' '' @ wall_time a @ '' '' @ en_dash @ '' '' @ wall_date b @ '' '' @ wall_time b)"

definition plan_summary :: "meeting_plan \<Rightarrow> string" where
  "plan_summary p =
     (let first = plan_first p
      in join_with [newline]
           ((wall_date first @ '' '' @ show_int (wl_year first) @ '' '' @ mid_dot @ '' ''
               @ length_label (pl_length p div MINUTE))
            # map (\<lambda>row. reading_line (reading_of row (pl_start p) (pl_start p + pl_length p)) (pa_label row)
                     (wall_iso first)) (pl_rows p)
            @ [utc_line p]))"

text \<open>The query of the calendar's own event editor; nothing is created by it.\<close>

definition calendar_pairs :: "clock_host \<Rightarrow> meeting_plan \<Rightarrow> (string \<times> string) list" where
  "calendar_pairs h p =
     [(''action'', ''TEMPLATE''),
      (''dates'', ck_utc h (pl_start p) ''%Y%m%dT%H%M%SZ'' @ ''/''
          @ ck_utc h (pl_start p + pl_length p) ''%Y%m%dT%H%M%SZ''),
      (''details'', plan_summary p)]
     @ (if CHR ''/'' \<in> set (pa_id (pl_rows p ! 0)) then [(''ctz'', pa_id (pl_rows p ! 0))] else [])"

definition plan_conflicts :: "meeting_plan \<Rightarrow> (int \<times> int) list" where
  "plan_conflicts p = filter (\<lambda>(a, b). a < pl_start p + pl_length p \<and> pl_start p < b) (pl_busy p)"

definition plan_value :: "clock_host \<Rightarrow> int \<Rightarrow> meeting_plan \<Rightarrow> json" where
  "plan_value h now p =
     (let start = pl_start p; end = start + pl_length p; home = reading_of (pl_rows p ! 0) start end;
          first = plan_first p
      in json_obj
        [(''start'', JNum (show_int start)), (''end'', JNum (show_int end)),
         (''duration'', JNum (show_int (pl_length p div MINUTE))), (''now'', JNum (show_int now)),
         (''day'', json_obj
            [(''date'', JStr (wall_iso first)),
             (''label'', JStr (wall_date first @ '' '' @ show_int (wl_year first))),
             (''start'', JNum (show_int (pl_origin p))), (''end'', JNum (show_int (pl_day_end p))),
             (''minutes'', JNum (show_int ((pl_day_end p - pl_origin p) div MINUTE))),
             (''today'', JBool (pl_origin p \<le> now \<and> now < pl_day_end p)),
             (''past'', JBool (pl_day_end p \<le> now))]),
         (''range'', JStr (reading_range home)), (''zone'', JStr (reading_zone home)),
         (''utc'', JStr (utc_range p @ '' UTC'')),
         (''fit'', JStr (fit_name (worst (pl_rows p) (pl_origin p) start end))),
         (''status'', JStr (plan_sentence (pl_rows p) start end)),
         (''conflicts'', JArr (map (\<lambda>(a, b). JArr [JNum (show_int a), JNum (show_int b)]) (plan_conflicts p))),
         (''rows'', JArr (map (plan_row_value p) (pl_rows p))),
         (''suggestions'', JArr (map (suggestion_value p) (pl_suggestions p))),
         (''next'', next_value p),
         (''summary'', JStr (plan_summary p)),
         (''calendarUrl'', JStr (ck_url h (calendar_pairs h p)))])"

definition project_meeting :: "clock_host \<Rightarrow> meeting_request \<Rightarrow> int \<Rightarrow> clock_catalog \<Rightarrow> (string + json) \<times> clock_catalog" where
  "project_meeting h r now cat = (case catalog_load h now cat of
       (Inl e, cat) \<Rightarrow> (Inl e, cat)
     | (Inr _, cat) \<Rightarrow>
         (case plan_meeting h r now (pins h (cc_zones cat)) cat of
            (Inl e, cat) \<Rightarrow> (Inl e, cat)
          | (Inr p, cat) \<Rightarrow> (Inr (plan_value h now p), cat)))"

section \<open>The snapshot\<close>

text \<open>\<open>zone_time\<close>: one formatted text split at its newlines, or four texts where that is not four.\<close>

definition zone_time :: "clock_host \<Rightarrow> string option \<Rightarrow> int \<Rightarrow> string list" where
  "zone_time h tz t =
     (let fields = split_on newline
            (ck_format h tz t (''%H:%M'' @ [newline] @ ''%Y-%m-%d'' @ [newline] @ ''%Z'' @ [newline] @ ''%z''))
      in if length fields = 4 then fields
         else map (ck_format h tz t) [''%H:%M'', ''%Y-%m-%d'', ''%Z'', ''%z''])"

definition time_fields :: "string list \<Rightarrow> (string \<times> json) list" where
  "time_fields ts = zip [''time'', ''day'', ''abbreviation'', ''offset''] (map JStr ts)"

definition zone_value :: "clock_host \<Rightarrow> int \<Rightarrow> zone_source \<Rightarrow> json" where
  "zone_value h now z = json_obj
     ([(''id'', JStr (zs_id z)), (''zone'', JStr (zs_zone z)), (''label'', JStr (zs_label z)),
       (''flag'', JStr (zs_flag z)), (''aliases'', JStr (zs_aliases z)), (''kind'', JStr (zs_kind z))]
      @ time_fields (zone_time h (Some (zone_spec (ck_zoneinfo h) z)) now))"

definition clock_snapshot :: "clock_host \<Rightarrow> int \<Rightarrow> clock_catalog \<Rightarrow> (string + json) \<times> clock_catalog" where
  "clock_snapshot h now cat = (case catalog_load h now cat of
       (Inl e, cat) \<Rightarrow> (Inl e, cat)
     | (Inr _, cat) \<Rightarrow>
         (Inr (json_obj
            [(''pinned'', JArr (map JStr (pins h (cc_zones cat)))),
             (''zones'', JArr (map (zone_value h now) (cc_zones cat))),
             (''local'', json_obj (time_fields (zone_time h (ck_tz h) now))),
             (''epoch'', JNum (show_int now))]), cat))"

section \<open>The loop of watch\<close>

text \<open>One line: the text printed, if any, or the error that ends the process.\<close>

definition watch_line ::
    "clock_host \<Rightarrow> int \<Rightarrow> string \<Rightarrow> clock_catalog \<Rightarrow> (string + json option) \<times> clock_catalog" where
  "watch_line h now line cat =
     (if trim line = ''refresh'' then
        (case clock_snapshot h now cat of
           (Inl e, cat) \<Rightarrow> (Inl e, cat)
         | (Inr v, cat) \<Rightarrow> (Inr (Some v), cat))
      else if length line \<le> request_limit then
        (let input = (case ck_parse h line of Some v \<Rightarrow> v | None \<Rightarrow> JNull)
         in case json_get input ''meeting'' of
              None \<Rightarrow> (Inr None, cat)
            | Some request \<Rightarrow>
                (case (case read_request request of
                         None \<Rightarrow> (Inl (ck_io h), cat)
                       | Some r \<Rightarrow> project_meeting h r now cat) of
                   (Inl e, cat) \<Rightarrow>
                     (Inr (Some (json_obj [(''meetingError'', JStr e), (''requestId'', json_index input ''requestId'')])), cat)
                 | (Inr v, cat) \<Rightarrow>
                     (Inr (Some (json_obj [(''meeting'', v), (''requestId'', json_index input ''requestId'')])), cat)))
      else (Inr None, cat))"

text \<open>The loop over the moments at which it looks at its input. It returns what it printed, how it
  ended (\<open>None\<close>: still running) and the input left.\<close>

fun watch_loop ::
    "(clock_host \<times> int) list \<Rightarrow> string list \<Rightarrow> clock_catalog \<Rightarrow> json list \<times> (string + unit) option \<times> string list" where
  "watch_loop [] input cat = ([], None, input)"
| "watch_loop ((h, now) # moments) input cat =
     (case request_line input of
        (None, rest) \<Rightarrow> ([], Some (Inr ()), rest)
      | (Some line, rest) \<Rightarrow>
          (case watch_line h now (ck_lossy h line) cat of
             (Inl e, _) \<Rightarrow> ([], Some (Inl e), rest)
           | (Inr out, cat) \<Rightarrow>
               (case watch_loop moments rest cat of
                  (outs, fin, left) \<Rightarrow> ((case out of Some v \<Rightarrow> [v] | None \<Rightarrow> []) @ outs, fin, left))))"

definition watch :: "(clock_host \<times> int) list \<Rightarrow> string list \<Rightarrow> json list \<times> (string + unit) option \<times> string list" where
  "watch moments input = (case moments of
       [] \<Rightarrow> ([], None, input)
     | (h, now) # rest \<Rightarrow>
         (case clock_snapshot h now empty_catalog of
            (Inl e, _) \<Rightarrow> ([], Some (Inl e), input)
          | (Inr v, cat) \<Rightarrow>
              (case watch_loop rest input cat of (outs, fin, left) \<Rightarrow> (v # outs, fin, left))))"

end
