(* ===== verification/Meeting_Facts.thy ===== *)
theory Meeting_Facts
  imports Meeting_Reply
begin

text \<open>
  What the measured rows of the meeting planner mean: the segments of a zone reproduce its readings
  second by second, and the prefix sums count its minutes.
\<close>

section \<open>Stepping through an interval\<close>

lemma int_le_div: "0 < s \<Longrightarrow> k \<le> n div s \<longleftrightarrow> k * s \<le> (n::int)"
proof
  assume s: "0 < s" and "k \<le> n div s"
  then have "k * s \<le> n div s * s" by (simp add: mult_right_mono)
  moreover have "n div s * s + n mod s = n" "0 \<le> n mod s" using s by simp_all
  ultimately show "k * s \<le> n" by linarith
next
  assume s: "0 < s" and "k * s \<le> n"
  then have "k * s div s \<le> n div s" by (intro zdiv_mono1)
  then show "k \<le> n div s" using s by simp
qed

lemma steps_bound: "0 < s \<Longrightarrow> k < nat ((b - a + s - 1) div s) \<longleftrightarrow> a + int k * s < b"
proof -
  assume s: "0 < s"
  have "k < nat ((b - a + s - 1) div s) \<longleftrightarrow> int k + 1 \<le> (b - a + s - 1) div s" by linarith
  also have "\<dots> \<longleftrightarrow> (int k + 1) * s \<le> b - a + s - 1"
    using s by (rule int_le_div)
  finally show ?thesis by (simp add: algebra_simps) linarith
qed

lemma set_steps: "0 < s \<Longrightarrow> t \<in> set (steps a b s) \<longleftrightarrow> (\<exists>k. t = a + int k * s) \<and> t < b"
  by (auto simp: steps_def steps_bound)

lemma steps_le: "0 < s \<Longrightarrow> t \<in> set (steps a b s) \<Longrightarrow> a \<le> t"
  by (auto simp: set_steps)

lemma sorted_steps: "0 < s \<Longrightarrow> sorted_wrt (<) (steps a b s)"
  by (simp add: steps_def sorted_wrt_map)

lemma steps_aligned:
  "steps (a + int i * s) (a + int j * s) s = map (\<lambda>k. a + int k * s) [i..<j]" if "0 < s"
proof -
  have n: "nat ((int j * s - int i * s + s - 1) div s) = j - i"
  proof -
    have "(int j * s - int i * s + s - 1) div s = (s - 1 + (int j - int i) * s) div s"
      by (simp add: algebra_simps)
    also have "\<dots> = int j - int i" using that by (subst div_mult_self1) auto
    finally show ?thesis by simp
  qed
  have "map (\<lambda>k. a + int k * s) [i..<j] = map (\<lambda>k. a + int (k + i) * s) [0..<j - i]"
    by (rule nth_equalityI) (simp_all add: add.commute)
  then show ?thesis
    unfolding steps_def using n by (simp add: algebra_simps)
qed

section \<open>Segments\<close>

text \<open>The rules of a zone change at most once an hour: within an hour an instant reads as either end.\<close>

definition calm_zone :: "zone \<Rightarrow> bool" where
  "calm_zone z \<longleftrightarrow> (\<forall>a m b. a \<le> m \<longrightarrow> m \<le> b \<longrightarrow> b \<le> a + HOUR \<longrightarrow> z m = z a \<or> z m = z b)"

lemma calmD: "calm_zone z \<Longrightarrow> a \<le> m \<Longrightarrow> m \<le> b \<Longrightarrow> b \<le> a + HOUR \<Longrightarrow> z m = z a \<or> z m = z b"
  unfolding calm_zone_def by blast

definition seg_reading :: "segment \<Rightarrow> int \<times> string" where
  "seg_reading s = (sg_offset s, sg_name s)"

lemma same_reading_eq: "same_reading s r \<longleftrightarrow> r = seg_reading s"
  by (cases r) (auto simp: same_reading_def seg_reading_def)

lemma seg_reading_at [simp]: "seg_reading (segment_at z t) = z t" "sg_from (segment_at z t) = t"
  by (simp_all add: seg_reading_def segment_at_def)

lemma bisect_edge:
  "low < high \<Longrightarrow> same_reading c (z low) \<Longrightarrow> \<not> same_reading c (z high) \<Longrightarrow>
    low < bisect z c low high \<and> bisect z c low high \<le> high
    \<and> same_reading c (z (bisect z c low high - 1)) \<and> \<not> same_reading c (z (bisect z c low high))"
proof (induction z c low high rule: bisect.induct)
  case (1 z c low high)
  show ?case
  proof (cases "1 < high - low")
    case True
    let ?m = "low + (high - low) div 2"
    have m: "low < ?m" "?m < high" using True by auto
    have e: "bisect z c low high = (if same_reading c (z ?m) then bisect z c ?m high else bisect z c low ?m)"
      using True by (subst bisect.simps) (simp add: Let_def)
    show ?thesis
    proof (cases "same_reading c (z ?m)")
      case same: True
      from "1.IH"(1) [OF True refl same m(2) same "1.prems"(3)] same m(1) show ?thesis by (auto simp: e)
    next
      case other: False
      from "1.IH"(2) [OF True refl other m(1) "1.prems"(2) other] other m(2) show ?thesis by (auto simp: e)
    qed
  next
    case False
    then have "high = low + 1" using 1 by simp
    then show ?thesis using 1 by (simp add: bisect.simps)
  qed
qed

text \<open>Segments in order of time, and looking one up.\<close>

definition segs_ordered :: "segment list \<Rightarrow> bool" where
  "segs_ordered segs \<longleftrightarrow> segs \<noteq> [] \<and> sorted_wrt (<) (map sg_from segs)"

lemma seg_lookup_last:
  assumes "segs \<noteq> []" "t < sg_from s"
  shows "seg_lookup (segs @ [s]) t = seg_lookup segs t"
proof -
  let ?p = "\<lambda>s. sg_from s \<le> t"
  have "takeWhile ?p (segs @ [s]) = takeWhile ?p segs"
    using assms(2) by (induction segs) auto
  moreover have "length (takeWhile ?p segs) - 1 < length segs"
    using length_takeWhile_le [of ?p segs] assms(1) by (cases segs) auto
  ultimately show ?thesis by (simp add: seg_lookup_def nth_append)
qed

lemma seg_lookup_new: "segs_ordered (segs @ [s]) \<Longrightarrow> sg_from s \<le> t \<Longrightarrow> seg_lookup (segs @ [s]) t = s"
proof -
  assume o: "segs_ordered (segs @ [s])" and t: "sg_from s \<le> t"
  then have "\<forall>x \<in> set (segs @ [s]). sg_from x \<le> t" by (auto simp: segs_ordered_def sorted_wrt_append) 
  then have "takeWhile (\<lambda>s. sg_from s \<le> t) (segs @ [s]) = segs @ [s]" by (simp only: takeWhile_eq_all_conv)
  then show ?thesis by (simp add: seg_lookup_def)
qed

lemma seg_lookup_late: "segs_ordered segs \<Longrightarrow> sg_from (last segs) \<le> t \<Longrightarrow> seg_lookup segs t = last segs"
  using seg_lookup_new [of "butlast segs" "last segs" t] by (simp add: segs_ordered_def)

text \<open>The invariant of the hourly probes up to an instant.\<close>

definition segs_read :: "zone \<Rightarrow> int \<Rightarrow> int \<Rightarrow> segment list \<Rightarrow> bool" where
  "segs_read z start t segs \<longleftrightarrow> segs_ordered segs \<and> sg_from (hd segs) = start \<and> sg_from (last segs) \<le> t
     \<and> seg_reading (last segs) = z t \<and> (\<forall>e. start \<le> e \<and> e \<le> t \<longrightarrow> seg_reading (seg_lookup segs e) = z e)"

lemma calm_change:
  assumes "calm_zone z" "b \<le> a + HOUR" "a < x" "x \<le> b" "z (x - 1) = z a" "z x \<noteq> z a" "a \<le> e" "e \<le> b"
  shows "z e = (if e < x then z a else z b)"
proof (cases "e < x")
  case True
  then show ?thesis using calmD [OF assms(1), of a e "x - 1"] assms by simp
next
  case False
  have x: "z x = z b" using calmD [OF assms(1), of a x b] assms by simp
  have "z e = z a \<or> z e = z b" using calmD [OF assms(1), of a e b] assms by simp
  moreover have "z e \<noteq> z a" using calmD [OF assms(1), of a x e] assms False x by auto
  ultimately show ?thesis using False by simp
qed

lemma calm_constant: "calm_zone z \<Longrightarrow> b \<le> a + HOUR \<Longrightarrow> z b = z a \<Longrightarrow> a \<le> e \<Longrightarrow> e \<le> b \<Longrightarrow> z e = z a"
  using calmD [of z a e b] by auto

lemma segs_read_step:
  assumes "calm_zone z" "segs_read z start t segs" "start \<le> t" "t < b" "b \<le> t + HOUR"
  shows "segs_read z start b (if same_reading (last segs) (z b) then segs
           else segs @ [segment_at z (bisect z (last segs) t b)])"
proof (cases "same_reading (last segs) (z b)")
  case True
  have late: "seg_lookup segs e = last segs" if "t \<le> e" for e
    using assms(2) that seg_lookup_late [of segs e] by (simp add: segs_read_def)
  have zb: "z b = z t" using True assms(2) by (simp add: same_reading_eq segs_read_def)
  have level: "z e = z t" if "t \<le> e" "e \<le> b" for e
    by (rule calm_constant [OF assms(1,5) zb that])
  have "seg_reading (seg_lookup segs e) = z e" if "start \<le> e" "e \<le> b" for e
    using assms(2) late [of e] level [of e] that by (cases "e \<le> t") (simp_all add: segs_read_def)
  then show ?thesis
    using assms(2,4) True by (simp add: segs_read_def same_reading_eq)
next
  case False
  let ?x = "bisect z (last segs) t b" and ?n = "segs @ [segment_at z (bisect z (last segs) t b)]"
  have zt: "z t = seg_reading (last segs)" using assms(2) by (simp add: segs_read_def)
  have x: "t < ?x" "?x \<le> b" "z (?x - 1) = z t" "z ?x \<noteq> z t"
    using bisect_edge [of t b "last segs" z] False assms(4) zt by (simp_all add: same_reading_eq)
  have r: "z e = (if e < ?x then z t else z b)" if "t \<le> e" "e \<le> b" for e
    using calm_change [OF assms(1,5) x that] .
  have ne: "segs \<noteq> []" and last: "sg_from (last segs) \<le> t" using assms(2) by (simp_all add: segs_read_def segs_ordered_def)
  have top: "\<forall>s \<in> set segs. sg_from s \<le> sg_from (last segs)"
    using assms(2) by (cases segs rule: rev_cases) (auto simp: segs_read_def segs_ordered_def sorted_wrt_append)
  have o: "segs_ordered ?n"
    using assms(2) top last x(1) by (fastforce simp: segs_read_def segs_ordered_def sorted_wrt_append)
  have late: "seg_lookup segs e = last segs" if "t \<le> e" for e
    using assms(2) that seg_lookup_late [of segs e] by (simp add: segs_read_def)
  have "seg_reading (seg_lookup ?n e) = z e" if e: "start \<le> e" "e \<le> b" for e
  proof (cases "e < ?x")
    case True
    then have l: "seg_lookup ?n e = seg_lookup segs e" using seg_lookup_last [OF ne, of e] by simp
    show ?thesis
    proof (cases "e \<le> t")
      case True
      then show ?thesis using assms(2) e l by (simp add: segs_read_def)
    next
      case False
      then show ?thesis using r [of e] \<open>e < ?x\<close> e l late [of e] zt by simp
    qed
  next
    case False
    then have "seg_lookup ?n e = segment_at z ?x" using seg_lookup_new [OF o] by simp
    then show ?thesis using r [of e] r [of ?x] False e x by simp
  qed
  then show ?thesis
    using False o assms(2) ne x r [of ?x] r [of b] by (simp add: segs_read_def)
qed

lemma segment_loop_read:
  "calm_zone z \<Longrightarrow> start \<le> t \<Longrightarrow> t \<le> b \<Longrightarrow> segs_read z start t segs \<Longrightarrow> segs_read z start b (segment_loop z t b segs)"
proof (induction z t b segs rule: segment_loop.induct)
  case (1 z t b segs)
  show ?case
  proof (cases "t < b")
    case True
    then show ?thesis
      using 1 segs_read_step [of z start t segs "min (t + HOUR) b"]
      by (subst segment_loop.simps) (auto simp: Let_def min_def)
  next
    case False
    then show ?thesis using 1 by (simp add: segment_loop.simps)
  qed
qed

lemma segments_read: "calm_zone z \<Longrightarrow> start \<le> b \<Longrightarrow> segs_read z start b (segments z start b)"
  unfolding segments_def
  by (rule segment_loop_read) (auto simp: segs_read_def segs_ordered_def seg_lookup_def)

section \<open>Greatest and least\<close>

lemma foldl_max_le: "foldl max a xs \<le> (b::'a::linorder) \<longleftrightarrow> a \<le> b \<and> (\<forall>x \<in> set xs. x \<le> b)"
  by (induction xs arbitrary: a) auto

lemma foldl_max_in: "foldl max a xs \<in> insert (a::'a::linorder) (set xs)"
proof (induction xs arbitrary: a)
  case (Cons x xs)
  from this [of "max a x"] show ?case by (auto simp: max_def split: if_splits)
qed simp

lemma foldl_min_ge: "(b::'a::linorder) \<le> foldl min a xs \<longleftrightarrow> b \<le> a \<and> (\<forall>x \<in> set xs. b \<le> x)"
  by (induction xs arbitrary: a) auto

lemma foldl_min_in: "foldl min a xs \<in> insert (a::'a::linorder) (set xs)"
proof (induction xs arbitrary: a)
  case (Cons x xs)
  from this [of "min a x"] show ?case by (auto simp: min_def split: if_splits)
qed simp

lemma fit_order [simp]: "Work \<le> f" "f \<le> Off" "f \<le> Work \<longleftrightarrow> f = Work" "Off \<le> f \<longleftrightarrow> f = Off" "f \<le> Edge \<longleftrightarrow> f \<noteq> Off"
  by (cases f; simp add: less_eq_fit_def)+

lemma worst_fit: "foldl max Work fs = (if \<forall>f \<in> set fs. f = Work then Work else if Off \<notin> set fs then Edge else Off)"
proof -
  have w: "foldl max Work fs = Work \<longleftrightarrow> (\<forall>f \<in> set fs. f = Work)"
    using foldl_max_le [of Work fs Work] by simp
  have "foldl max Work fs \<noteq> Off \<longleftrightarrow> Off \<notin> set fs"
    using foldl_max_le [of Work fs Edge] by (auto simp del: fit_order(1))
  with w show ?thesis by (cases "foldl max Work fs") (auto split: if_splits)
qed

section \<open>Prefix sums\<close>

lemma advance_lookup:
  "segs_ordered segs \<Longrightarrow> i < length segs \<Longrightarrow> sg_from (segs ! i) \<le> t \<Longrightarrow>
    seg_advance segs t i < length segs \<and> segs ! seg_advance segs t i = seg_lookup segs t \<and> sg_from (seg_lookup segs t) \<le> t"
proof (induction segs t i rule: seg_advance.induct)
  case (1 segs t i)
  show ?case
  proof (cases "i + 1 < length segs \<and> sg_from (segs ! (i + 1)) \<le> t")
    case True
    then show ?thesis using 1 by (simp add: seg_advance.simps [of segs t i])
  next
    case False
    have mono: "sg_from (segs ! j) < sg_from (segs ! k)" if "j < k" "k < length segs" for j k
      using sorted_wrt_nth_less [of "(<)" "map sg_from segs" j k] 1(2) that by (simp add: segs_ordered_def)
    have "sg_from (segs ! j) \<le> t" if "j < i + 1" for j
      using mono [of j i] that 1 by (cases "j = i") force+
    then have "takeWhile (\<lambda>s. sg_from s \<le> t) segs = take (i + 1) segs"
      using False by (intro takeWhile_eq_take_P_nth) auto
    then have "seg_lookup segs t = segs ! i" using 1(3) by (simp add: seg_lookup_def)
    then show ?thesis using False 1 by (subst (1 2) seg_advance.simps) auto
  qed
qed

text \<open>The wall clock of minute \<open>m\<close> according to the segments, and the sums up to minute \<open>k\<close>.\<close>

definition seg_wall :: "segment list \<Rightarrow> int \<Rightarrow> nat \<Rightarrow> int" where
  "seg_wall segs origin m = origin + int m * MINUTE + sg_offset (seg_lookup segs (origin + int m * MINUTE))"

definition count_to :: "(nat \<Rightarrow> bool) \<Rightarrow> nat \<Rightarrow> nat" where
  "count_to P k = length (filter P [0..<k])"

definition sum_to :: "(nat \<Rightarrow> nat) \<Rightarrow> nat \<Rightarrow> nat" where
  "sum_to f k = sum_list (map f [0..<k])"

lemma count_to_step: "count_to P (Suc k) = count_to P k + (if P k then 1 else 0)"
  by (simp add: count_to_def)

lemma sum_to_step: "sum_to f (Suc k) = sum_to f k + f k"
  by (simp add: sum_to_def)

lemma count_to_diff: "i \<le> j \<Longrightarrow> count_to P j - count_to P i = length (filter P [i..<j])"
  using upt_add_eq_append [of 0 i "j - i"] by (simp add: count_to_def)

lemma sum_to_diff: "i \<le> j \<Longrightarrow> sum_to f j - sum_to f i = sum_list (map f [i..<j])"
  using upt_add_eq_append [of 0 i "j - i"] by (simp add: sum_to_def)

lemma push_prefix:
  "map (count_to P) [0..<Suc k] @ [last (map (count_to P) [0..<Suc k]) + (if P k then 1 else 0)]
    = map (count_to P) [0..<Suc (Suc k)]"
  "map (sum_to f) [0..<Suc k] @ [last (map (sum_to f) [0..<Suc k]) + f k] = map (sum_to f) [0..<Suc (Suc k)]"
  by (simp_all add: count_to_step sum_to_step)

lemma measure_fold:
  assumes "segs_ordered segs" "sg_from (segs ! 0) = origin"
  shows "\<exists>i. foldl (measure_minute segs origin) (0, [0], [0], [0]) [0..<n] =
      (i, map (count_to (\<lambda>m. fit_at (seg_wall segs origin m) \<noteq> Work)) [0..<Suc n],
          map (count_to (\<lambda>m. fit_at (seg_wall segs origin m) = Off)) [0..<Suc n],
          map (sum_to (\<lambda>m. fit_cost (seg_wall segs origin m))) [0..<Suc n])
    \<and> i < length segs \<and> sg_from (segs ! i) \<le> origin + int n * MINUTE"
proof (induction n)
  case 0
  then show ?case using assms by (simp add: segs_ordered_def count_to_def sum_to_def)
next
  case (Suc n)
  then obtain i where i: "foldl (measure_minute segs origin) (0, [0], [0], [0]) [0..<n] =
      (i, map (count_to (\<lambda>m. fit_at (seg_wall segs origin m) \<noteq> Work)) [0..<Suc n],
          map (count_to (\<lambda>m. fit_at (seg_wall segs origin m) = Off)) [0..<Suc n],
          map (sum_to (\<lambda>m. fit_cost (seg_wall segs origin m))) [0..<Suc n])"
      "i < length segs" "sg_from (segs ! i) \<le> origin + int n * MINUTE"
    by blast
  note a = advance_lookup [OF assms(1) i(2,3)]
  have w: "origin + int n * MINUTE + sg_offset (segs ! seg_advance segs (origin + int n * MINUTE) i) = seg_wall segs origin n"
    using a by (simp add: seg_wall_def)
  have "foldl (measure_minute segs origin) (0, [0], [0], [0]) [0..<Suc n] =
      (seg_advance segs (origin + int n * MINUTE) i,
       map (count_to (\<lambda>m. fit_at (seg_wall segs origin m) \<noteq> Work)) [0..<Suc (Suc n)],
       map (count_to (\<lambda>m. fit_at (seg_wall segs origin m) = Off)) [0..<Suc (Suc n)],
       map (sum_to (\<lambda>m. fit_cost (seg_wall segs origin m))) [0..<Suc (Suc n)])"
    unfolding upt_Suc_append [of 0 n, OF zero_le] foldl_append i(1) foldl.simps measure_minute_def Let_def w split
    by (simp only: upt_Suc_append [of 0 n, OF zero_le, symmetric]
        push_prefix(1) [of "\<lambda>m. fit_at (seg_wall segs origin m) \<noteq> Work"]
        push_prefix(1) [of "\<lambda>m. fit_at (seg_wall segs origin m) = Off"]
        push_prefix(2) [of "\<lambda>m. fit_cost (seg_wall segs origin m)"])
  then show ?case using a by simp
qed

section \<open>Measured rows\<close>

abbreviation wall_in :: "zone \<Rightarrow> int \<Rightarrow> int" where
  "wall_in z t \<equiv> t + fst (z t)"

lemma row_reads:
  assumes "calm_zone z" "origin \<le> t" "t \<le> origin + WINDOW"
  shows "row_wall (measure_row z key label home origin) t = wall_in z t"
    "sg_name (row_segment (measure_row z key label home origin) t) = snd (z t)"
proof -
  have "seg_reading (seg_lookup (segments z origin (origin + WINDOW)) t) = z t"
    using segments_read [OF assms(1), of origin "origin + WINDOW"] assms(2,3) by (simp add: segs_read_def)
  then have "sg_offset (seg_lookup (segments z origin (origin + WINDOW)) t) = fst (z t)"
    "sg_name (seg_lookup (segments z origin (origin + WINDOW)) t) = snd (z t)"
    by (simp_all add: seg_reading_def prod_eq_iff)
  then show "row_wall (measure_row z key label home origin) t = wall_in z t"
    "sg_name (row_segment (measure_row z key label home origin) t) = snd (z t)"
    by (simp_all add: row_wall_def row_segment_def measure_row_def Let_def split_beta)
qed

definition minute_wall :: "zone \<Rightarrow> int \<Rightarrow> nat \<Rightarrow> int" where
  "minute_wall z origin m = wall_in z (origin + int m * MINUTE)"

lemma row_sums:
  assumes "calm_zone z" "k \<le> nat (WINDOW div MINUTE)"
  shows "pa_outside (measure_row z key label home origin) ! k = count_to (\<lambda>m. fit_at (minute_wall z origin m) \<noteq> Work) k"
    and "pa_off (measure_row z key label home origin) ! k = count_to (\<lambda>m. fit_at (minute_wall z origin m) = Off) k"
    and "pa_cost (measure_row z key label home origin) ! k = sum_to (\<lambda>m. fit_cost (minute_wall z origin m)) k"
proof -
  define n where "n = nat (WINDOW div MINUTE)"
  define segs where "segs = segments z origin (origin + WINDOW)"
  have r: "segs_read z origin (origin + WINDOW) segs"
    unfolding segs_def by (rule segments_read [OF assms(1)]) simp
  have n: "int n * MINUTE = WINDOW" by (simp add: n_def)
  have o: "segs_ordered segs" "sg_from (segs ! 0) = origin"
    using r by (auto simp: segs_read_def segs_ordered_def hd_conv_nth)
  have w: "seg_wall segs origin m = minute_wall z origin m" if "m < k" for m
  proof -
    have "seg_reading (seg_lookup segs (origin + int m * MINUTE)) = z (origin + int m * MINUTE)"
      using r that assms(2) n unfolding segs_read_def n_def [symmetric] by (simp add: n_def)
    then show ?thesis by (simp add: seg_wall_def minute_wall_def seg_reading_def prod_eq_iff)
  qed
  have c: "count_to (\<lambda>m. P (seg_wall segs origin m)) k = count_to (\<lambda>m. P (minute_wall z origin m)) k" for P
    unfolding count_to_def by (rule arg_cong [of _ _ length], rule filter_cong) (auto simp: w)
  have s: "sum_to (\<lambda>m. fit_cost (seg_wall segs origin m)) k = sum_to (\<lambda>m. fit_cost (minute_wall z origin m)) k"
    unfolding sum_to_def by (rule arg_cong [of _ _ sum_list], rule map_cong) (auto simp: w)
  have k: "k < Suc n" using assms(2) by (simp add: n_def)
  from measure_fold [OF o, of n] k
  have "pa_outside (measure_row z key label home origin) ! k = count_to (\<lambda>m. fit_at (seg_wall segs origin m) \<noteq> Work) k
    \<and> pa_off (measure_row z key label home origin) ! k = count_to (\<lambda>m. fit_at (seg_wall segs origin m) = Off) k
    \<and> pa_cost (measure_row z key label home origin) ! k = sum_to (\<lambda>m. fit_cost (seg_wall segs origin m)) k"
    unfolding measure_row_def Let_def segs_def [symmetric] n_def [symmetric] by (auto simp del: upt_Suc)
  then show "pa_outside (measure_row z key label home origin) ! k = count_to (\<lambda>m. fit_at (minute_wall z origin m) \<noteq> Work) k"
    and "pa_off (measure_row z key label home origin) ! k = count_to (\<lambda>m. fit_at (minute_wall z origin m) = Off) k"
    and "pa_cost (measure_row z key label home origin) ! k = sum_to (\<lambda>m. fit_cost (minute_wall z origin m)) k"
    using c [of "\<lambda>x. fit_at x \<noteq> Work"] c [of "\<lambda>x. fit_at x = Off"] s by simp_all
qed

text \<open>Intervals on the minute grid of a window.\<close>

definition on_grid :: "int \<Rightarrow> int \<Rightarrow> int \<Rightarrow> bool" where
  "on_grid origin start end \<longleftrightarrow> origin \<le> start \<and> start \<le> end \<and> end \<le> origin + WINDOW
     \<and> (start - origin) mod MINUTE = 0 \<and> (end - origin) mod MINUTE = 0"

lemma grid_span:
  assumes "on_grid origin start end"
  obtains i j where "row_span origin start end = (i, j)" "i \<le> j" "j \<le> nat (WINDOW div MINUTE)"
    "start = origin + int i * MINUTE" "end = origin + int j * MINUTE"
proof -
  let ?i = "nat ((start - origin) div MINUTE)" and ?j = "nat ((end - origin) div MINUTE)"
  have "start = origin + int ?i * MINUTE" "end = origin + int ?j * MINUTE"
    using assms by (auto simp: on_grid_def)
  moreover have "?i \<le> ?j" "?j \<le> nat (WINDOW div MINUTE)"
    using assms by (auto simp: on_grid_def intro!: nat_mono zdiv_mono1)
  ultimately show thesis using that [of ?i ?j] by (simp add: row_span_def)
qed

end
