(* ===== verification/Meeting_Days.thy ===== *)
theory Meeting_Days
  imports Meeting_Facts Civil_Theorems
begin

text \<open>
  The local day of the meeting planner: for a zone that moves like real ones do, \<open>day_start\<close> finds
  the first second of a date, and the axis is exactly the set of instants with that local date.
\<close>

section \<open>Dates in order\<close>

lemma wall_civil_eq: "wall_civil t = civil (t div DAY)"
proof -
  have m: "(if x < 10 then x + 3 else x - 9) = x + (if x < 10 then 3 else - 9)" for x :: int by simp
  show ?thesis unfolding wall_civil_def wall_new_def civil_def m Let_def by (simp only: wall.select_convs)
qed

lemma next_day_greater: "valid_date d \<Longrightarrow> d < next_day d"
  by (cases d) (auto simp: next_day_def valid_date_def less_prod_def split: if_splits)

lemma civil_less: "a < b \<Longrightarrow> civil a < civil b"
proof (induction b rule: int_gr_induct [where k = a])
  case base
  have "civil (a + 1) = next_day (civil a)" using civil_next [of a] .
  then show ?case using next_day_greater [OF civil_valid [of a]] by simp
next
  case (step i)
  have "civil (i + 1) = next_day (civil i)" using civil_next [of i] .
  then show ?case using next_day_greater [OF civil_valid [of i]] step by simp
qed

lemma civil_less_iff [simp]: "civil a < civil b \<longleftrightarrow> a < b"
  by (metis civil_less less_asym linorder_neqE)

lemma civil_le_iff [simp]: "civil a \<le> civil b \<longleftrightarrow> a \<le> b"
  by (metis civil_less_iff linorder_not_less)

lemma civil_eq_iff [simp]: "civil a = civil b \<longleftrightarrow> a = b"
  by (metis civil_less less_irrefl linorder_neqE)

section \<open>What libc and a zone promise\<close>

text \<open>\<open>localtime\<close> adds the offset in force, \<open>timegm\<close> counts days and carries days beyond a month.\<close>

definition libc_sound :: "clock_host \<Rightarrow> bool" where
  "libc_sound h \<longleftrightarrow> (\<forall>t. local_date h t = civil ((t + fst (here h t)) div DAY))
     \<and> (\<forall>y m d hour. 1 \<le> m \<and> m \<le> 12 \<longrightarrow> ck_timegm h (y, m, d) hour = days y m d * DAY + hour * HOUR)"

text \<open>Offsets are whole minutes, change on whole minutes, stay within a day, move by at most four hours
  within four days, and no local date comes back after a later one.\<close>

abbreviation wall_here :: "clock_host \<Rightarrow> int \<Rightarrow> int" where
  "wall_here h t \<equiv> t + fst (here h t)"

definition zone_regular :: "clock_host \<Rightarrow> bool" where
  "zone_regular h \<longleftrightarrow>
     (\<forall>t. fst (here h t) mod MINUTE = 0 \<and> fst (here h (t div MINUTE * MINUTE)) = fst (here h t) \<and> \<bar>fst (here h t)\<bar> \<le> DAY)
     \<and> (\<forall>a b. \<bar>a - b\<bar> \<le> 4 * DAY \<longrightarrow> \<bar>fst (here h a) - fst (here h b)\<bar> \<le> 4 * HOUR)
     \<and> (\<forall>a b. a \<le> b \<longrightarrow> wall_here h a div DAY \<le> wall_here h b div DAY)"

lemma local_date_sound: "libc_sound h \<Longrightarrow> local_date h t = civil (wall_here h t div DAY)"
  by (simp add: libc_sound_def)

lemma civil_epoch_sound: "libc_sound h \<Longrightarrow> civil_epoch h (civil D) = D * DAY"
proof -
  assume s: "libc_sound h"
  obtain y m d where c: "civil D = (y, m, d)" by (cases "civil D")
  then have "days y m d = D" "1 \<le> m" "m \<le> 12"
    using days_civil [of D] civil_valid [of D] by (simp_all add: valid_date_def)
  then show ?thesis using s c by (simp add: libc_sound_def civil_epoch_def)
qed

lemma next_date_sound: "libc_sound h \<Longrightarrow> next_date h (civil D) = civil (D + 1)"
  by (simp add: next_date_def civil_epoch_sound wall_civil_eq)

lemma hours_back_run:
  "\<exists>k \<le> n. hours_back h d n t = t - int k * HOUR \<and> (\<forall>j < k. d \<le> local_date h (t - int j * HOUR))
    \<and> (k < n \<longrightarrow> local_date h (t - int k * HOUR) < d)"
proof (induction n arbitrary: t)
  case (Suc n)
  show ?case
  proof (cases "local_date h t < d")
    case True
    then show ?thesis by (intro exI [of _ 0]) simp
  next
    case False
    from Suc [of "t - HOUR"] obtain k where k: "k \<le> n" "hours_back h d n (t - HOUR) = t - HOUR - int k * HOUR"
      "\<forall>j < k. d \<le> local_date h (t - HOUR - int j * HOUR)" "k < n \<longrightarrow> local_date h (t - HOUR - int k * HOUR) < d"
      by blast
    have "d \<le> local_date h (t - int j * HOUR)" if "j < Suc k" for j
      using k(3) False that by (cases j) (auto simp: algebra_simps)
    then show ?thesis using k False by (intro exI [of _ "Suc k"]) (simp add: algebra_simps)
  qed
qed simp

lemma minutes_on_run:
  "\<exists>k \<le> n. minutes_on h d n t = t + int k * MINUTE \<and> (\<forall>j < k. local_date h (t + int j * MINUTE) < d)
    \<and> (k < n \<longrightarrow> d \<le> local_date h (t + int k * MINUTE))"
proof (induction n arbitrary: t)
  case (Suc n)
  show ?case
  proof (cases "d \<le> local_date h t")
    case True
    then show ?thesis by (intro exI [of _ 0]) simp
  next
    case False
    from Suc [of "t + MINUTE"] obtain k where k: "k \<le> n" "minutes_on h d n (t + MINUTE) = t + MINUTE + int k * MINUTE"
      "\<forall>j < k. local_date h (t + MINUTE + int j * MINUTE) < d" "k < n \<longrightarrow> d \<le> local_date h (t + MINUTE + int k * MINUTE)"
      by blast
    have "local_date h (t + int j * MINUTE) < d" if "j < Suc k" for j
      using k(3) False that by (cases j) (auto simp: algebra_simps)
    then show ?thesis using k False by (intro exI [of _ "Suc k"]) (simp add: algebra_simps)
  qed
qed simp

section \<open>The first second of a date\<close>

lemma late_iff: "libc_sound h \<Longrightarrow> civil D \<le> local_date h t \<longleftrightarrow> D * DAY \<le> wall_here h t"
  by (simp add: local_date_sound) linarith

lemma early_iff: "libc_sound h \<Longrightarrow> local_date h t < civil D \<longleftrightarrow> wall_here h t < D * DAY"
  by (simp add: local_date_sound) linarith

text \<open>The guess of \<open>day_start\<close>, and how far the searches get from it.\<close>

definition day_guess :: "clock_host \<Rightarrow> int \<Rightarrow> int" where
  "day_guess h D = D * DAY - fst (here h (D * DAY + 12 * HOUR))"

lemma near_guess:
  "zone_regular h \<Longrightarrow> \<bar>t - day_guess h D\<bar> \<le> 6 * HOUR \<Longrightarrow>
    \<bar>fst (here h t) - fst (here h (D * DAY + 12 * HOUR))\<bar> \<le> 4 * HOUR"
proof -
  assume r: "zone_regular h" and t: "\<bar>t - day_guess h D\<bar> \<le> 6 * HOUR"
  have "\<bar>fst (here h (D * DAY + 12 * HOUR))\<bar> \<le> DAY" using r unfolding zone_regular_def by blast
  then have "\<bar>t - (D * DAY + 12 * HOUR)\<bar> \<le> 4 * DAY" using t by (simp add: day_guess_def)
  then show ?thesis using r unfolding zone_regular_def by blast
qed

lemma day_search:
  assumes "libc_sound h" "zone_regular h"
  obtains y where "minutes_on h (civil D) 240 (hours_back h (civil D) 48 (day_guess h D)) = y"
    "D * DAY \<le> wall_here h y" "wall_here h (y - MINUTE) < D * DAY" "\<bar>y - day_guess h D\<bar> \<le> 5 * HOUR"
    "y mod MINUTE = 0"
proof -
  define g where "g = day_guess h D"
  define off where "off t = fst (here h t)" for t
  have g: "g = D * DAY - off (D * DAY + 12 * HOUR)" by (simp add: g_def day_guess_def off_def)
  have near: "\<bar>off t - off (D * DAY + 12 * HOUR)\<bar> \<le> 4 * HOUR" if "\<bar>t - g\<bar> \<le> 6 * HOUR" for t
    using near_guess [OF assms(2) that [unfolded g_def]] by (simp add: off_def)
  obtain k where k: "k \<le> 48" "hours_back h (civil D) 48 g = g - int k * HOUR"
    "\<forall>j < k. D * DAY \<le> g - int j * HOUR + off (g - int j * HOUR)"
    "k < 48 \<longrightarrow> g - int k * HOUR + off (g - int k * HOUR) < D * DAY"
    using hours_back_run [of 48 h "civil D" g] by (auto simp: late_iff [OF assms(1)] early_iff [OF assms(1)] off_def)
  have k5: "k \<le> 5"
  proof (rule ccontr)
    assume "\<not> k \<le> 5"
    then have "D * DAY \<le> g - 5 * HOUR + off (g - 5 * HOUR)" using k(3) [rule_format, of 5] by simp
    then show False using near [of "g - 5 * HOUR"] g by simp
  qed
  define x where "x = g - int k * HOUR"
  obtain m where m: "m \<le> 240" "minutes_on h (civil D) 240 x = x + int m * MINUTE"
    "\<forall>j < m. x + int j * MINUTE + off (x + int j * MINUTE) < D * DAY"
    "m < 240 \<longrightarrow> D * DAY \<le> x + int m * MINUTE + off (x + int m * MINUTE)"
    using minutes_on_run [of 240 h "civil D" x] by (auto simp: late_iff [OF assms(1)] early_iff [OF assms(1)] off_def)
  have m60: "m \<le> 60" if "0 < k"
  proof (rule ccontr)
    assume "\<not> m \<le> 60"
    then have "x + HOUR + off (x + HOUR) < D * DAY" using m(3) [rule_format, of 60] by simp
    moreover have "D * DAY \<le> x + HOUR + off (x + HOUR)"
      using k(3) [rule_format, of "k - 1"] that by (simp add: x_def of_nat_diff algebra_simps)
    ultimately show False by simp
  qed
  have reach: "D * DAY \<le> x + int m * MINUTE + off (x + int m * MINUTE)"
  proof (cases "m < 240")
    case False
    then have "k = 0" "m = 240" using m60 m(1) by auto
    then show ?thesis using near [of "g + 4 * HOUR"] g by (simp add: x_def)
  qed (use m(4) in simp)
  have "x + off x < D * DAY" using k(4) k5 by (simp add: x_def)
  with reach have "0 < m" by (cases m) auto
  then have before: "x + int m * MINUTE - MINUTE + off (x + int m * MINUTE - MINUTE) < D * DAY"
    using m(3) [rule_format, of "m - 1"] by (simp add: of_nat_diff algebra_simps)
  have close: "\<bar>x + int m * MINUTE - g\<bar> \<le> 5 * HOUR"
    using k5 m(1) m60 by (cases "k = 0") (simp_all add: x_def)
  have "MINUTE dvd off t" for t using assms(2) unfolding zone_regular_def off_def by (simp add: mod_eq_0_iff_dvd)
  then have "MINUTE dvd x + int m * MINUTE"
    unfolding x_def g by (intro dvd_add dvd_diff) (simp_all add: dvd_mult)
  then have "(x + int m * MINUTE) mod MINUTE = 0" by simp
  with that [of "x + int m * MINUTE"] show thesis
    using m(2) k(2) reach before close by (simp add: x_def g_def off_def)
qed

lemma same_minute: "x mod MINUTE = 0 \<Longrightarrow> 0 \<le> r \<Longrightarrow> r < MINUTE \<Longrightarrow> (x + r) div DAY = x div DAY"
proof -
  assume x: "x mod MINUTE = 0" and r: "0 \<le> r" "r < MINUTE"
  have e: "y div DAY = y div MINUTE div 1440" for y :: int
  proof -
    have d: "DAY = MINUTE * 1440" by simp
    show ?thesis unfolding d by (rule zdiv_zmult2_eq) simp
  qed
  from x obtain q where q: "x = MINUTE * q" by (auto simp: mod_eq_0_iff_dvd elim: dvdE)
  have "(x + r) div MINUTE = x div MINUTE" unfolding q using r by simp
  then show ?thesis by (simp only: e)
qed

text \<open>The first second of a date: all instants before it have an earlier date.\<close>

lemma day_start_exact:
  assumes "libc_sound h" "zone_regular h"
  obtains y where "day_start h (civil D) = Inr y" "\<And>t. civil D \<le> local_date h t \<longleftrightarrow> y \<le> t"
    "\<bar>y - day_guess h D\<bar> \<le> 5 * HOUR"
proof -
  obtain y where y: "minutes_on h (civil D) 240 (hours_back h (civil D) 48 (day_guess h D)) = y"
    "D * DAY \<le> wall_here h y" "wall_here h (y - MINUTE) < D * DAY" "\<bar>y - day_guess h D\<bar> \<le> 5 * HOUR" "y mod MINUTE = 0"
    by (rule day_search [OF assms])
  have mono: "wall_here h a div DAY \<le> wall_here h b div DAY" if "a \<le> b" for a b
    using assms(2) that unfolding zone_regular_def by blast
  have minute: "wall_here h t div DAY = wall_here h (t div MINUTE * MINUTE) div DAY" for t
  proof -
    have o: "fst (here h t) mod MINUTE = 0" "fst (here h (t div MINUTE * MINUTE)) = fst (here h t)"
      using assms(2) unfolding zone_regular_def by blast+
    have "t = t div MINUTE * MINUTE + t mod MINUTE" by simp
    then have "wall_here h t = wall_here h (t div MINUTE * MINUTE) + t mod MINUTE" using o(2) by simp
    moreover have "wall_here h (t div MINUTE * MINUTE) mod MINUTE = 0" using o by (simp add: mod_eq_0_iff_dvd)
    ultimately show ?thesis using same_minute [of "wall_here h (t div MINUTE * MINUTE)" "t mod MINUTE"] by simp
  qed
  have exact: "civil D \<le> local_date h t \<longleftrightarrow> y \<le> t" for t
  proof
    assume "y \<le> t"
    then have "wall_here h y div DAY \<le> wall_here h t div DAY" by (rule mono)
    moreover have "D \<le> wall_here h y div DAY" using y(2) by (simp add: int_le_div)
    ultimately show "civil D \<le> local_date h t" by (simp add: local_date_sound [OF assms(1)])
  next
    assume c: "civil D \<le> local_date h t"
    show "y \<le> t"
    proof (rule ccontr)
      assume "\<not> y \<le> t"
      moreover obtain q where q: "y = MINUTE * q" using y(5) by (auto simp: mod_eq_0_iff_dvd elim: dvdE)
      ultimately have "t div MINUTE < q" by (simp add: div_less_iff_less_mult)
      then have "t div MINUTE * MINUTE \<le> y - MINUTE" by (simp add: q)
      from mono [OF this] have "wall_here h t div DAY \<le> wall_here h (y - MINUTE) div DAY" using minute [of t] by simp
      moreover have "wall_here h (y - MINUTE) div DAY < D" using y(3) by (simp add: div_less_iff_less_mult)
      ultimately show False using c by (simp add: local_date_sound [OF assms(1)])
    qed
  qed
  have "\<bar>y - MINUTE - day_guess h D\<bar> \<le> 6 * HOUR" "\<bar>y - day_guess h D\<bar> \<le> 6 * HOUR" using y(4) by simp_all
  from this [THEN near_guess [OF assms(2)]] have "wall_here h y < (D + 1) * DAY" using y(3) by simp
  then have "wall_here h y div DAY = D"
    using y(2) int_le_div [of DAY D "wall_here h y"] int_le_div [of DAY "D + 1" "wall_here h y"] by simp
  then have "local_date h y = civil D" by (simp add: local_date_sound [OF assms(1)])
  then have "day_start h (civil D) = Inr y"
    using y(1) by (simp add: day_start_def civil_epoch_sound [OF assms(1)] day_guess_def Let_def)
  from that [OF this exact y(4)] show thesis .
qed

text \<open>Both ends of a local day.\<close>

lemma day_bounds_exact:
  assumes "libc_sound h" "zone_regular h"
  obtains a b where "day_bounds h (civil D) = Inr (a, b)"
    "\<And>t. local_date h t = civil D \<longleftrightarrow> a \<le> t \<and> t < b" "10 * HOUR \<le> b - a" "b - a \<le> 38 * HOUR"
proof -
  obtain a where a: "day_start h (civil D) = Inr a" "\<And>t. civil D \<le> local_date h t \<longleftrightarrow> a \<le> t"
    "\<bar>a - day_guess h D\<bar> \<le> 5 * HOUR" using day_start_exact [OF assms, of D] by blast
  obtain b where b: "day_start h (civil (D + 1)) = Inr b" "\<And>t. civil (D + 1) \<le> local_date h t \<longleftrightarrow> b \<le> t"
    "\<bar>b - day_guess h (D + 1)\<bar> \<le> 5 * HOUR" using day_start_exact [OF assms, of "D + 1"] by blast
  have o: "\<bar>fst (here h (D * DAY + 12 * HOUR)) - fst (here h ((D + 1) * DAY + 12 * HOUR))\<bar> \<le> 4 * HOUR"
    using assms(2) unfolding zone_regular_def by auto
  have "local_date h t = civil D \<longleftrightarrow> a \<le> t \<and> t < b" for t
    using a(2) [of t] b(2) [of t] by (auto simp: local_date_sound [OF assms(1)])
  moreover have "\<bar>day_guess h (D + 1) - day_guess h D - DAY\<bar> \<le> 4 * HOUR"
    using o by (simp add: day_guess_def algebra_simps)
  moreover from this a(3) b(3) have "10 * HOUR \<le> b - a" "b - a \<le> 38 * HOUR" by simp_all
  ultimately show thesis
    using that [of a b] a(1) b(1) by (simp add: day_bounds_def next_date_sound [OF assms(1)])
qed

lemma local_day_exact:
  assumes "libc_sound h" "zone_regular h"
  obtains a b where "local_day h t = Inr (a, b)" "a \<le> t" "t < b"
    "\<And>u. local_date h u = local_date h t \<longleftrightarrow> a \<le> u \<and> u < b" "10 * HOUR \<le> b - a" "b - a \<le> 38 * HOUR"
proof -
  obtain a b where ab: "day_bounds h (civil (wall_here h t div DAY)) = Inr (a, b)"
    "\<And>u. local_date h u = civil (wall_here h t div DAY) \<longleftrightarrow> a \<le> u \<and> u < b" "10 * HOUR \<le> b - a" "b - a \<le> 38 * HOUR"
    using day_bounds_exact [OF assms, of "wall_here h t div DAY"] by blast
  from that [of a b] show thesis
    using ab ab(2) [of t] by (simp add: local_day_def local_date_sound [OF assms(1)])
qed

text \<open>The axis of a plan is the local day. Under what libc and time zones promise, the two bounded
  searches of \<open>day_start\<close> succeed for the date of every instant, and the interval found is exactly the
  set of instants with that local date, however long daylight saving makes it.\<close>

theorem axis_is_local_day:
  assumes "libc_sound h" "zone_regular h"
  shows "\<exists>a b. local_day h t = Inr (a, b) \<and> a \<le> t \<and> t < b
    \<and> {u. local_date h u = local_date h t} = {a..<b} \<and> 10 * HOUR \<le> b - a \<and> b - a \<le> 38 * HOUR"
proof -
  obtain a b where "local_day h t = Inr (a, b)" "a \<le> t" "t < b"
    "\<And>u. local_date h u = local_date h t \<longleftrightarrow> a \<le> u \<and> u < b" "10 * HOUR \<le> b - a" "b - a \<le> 38 * HOUR"
    using local_day_exact [OF assms, of t] by blast
  note ab = this
  have "{u. local_date h u = local_date h t} = {a..<b}" by (rule set_eqI) (simp add: ab(4))
  then show ?thesis using ab(1-3,5,6) by blast
qed

section \<open>The start of a request\<close>

definition minute_of_day :: "clock_host \<Rightarrow> int \<Rightarrow> int" where
  "minute_of_day h t = wall_here h t mod DAY div MINUTE"

text \<open>The slot of a given start on the grid of its day.\<close>

lemma slot_of_start:
  assumes "libc_sound h" "zone_regular h"
  obtains a b s where "local_day h t = Inr (a, b)" "s = t - (t - a) mod SLOT" "s \<le> t" "t < s + SLOT"
    "local_date h s = local_date h t" "s \<in> set (steps a b SLOT)"
proof -
  obtain a b where ab: "local_day h t = Inr (a, b)" "a \<le> t" "t < b"
    "\<And>u. local_date h u = local_date h t \<longleftrightarrow> a \<le> u \<and> u < b"
    using local_day_exact [OF assms, of t] by blast
  define s where "s = t - (t - a) mod SLOT"
  have m: "0 \<le> (t - a) mod SLOT" "(t - a) mod SLOT < SLOT" "(t - a) mod SLOT \<le> t - a"
    using ab(2) by (simp_all add: zmod_le_nonneg_dividend)
  have "s = a + int (nat ((t - a) div SLOT)) * SLOT"
    using ab(2) by (simp add: s_def minus_mod_eq_div_mult [symmetric] pos_imp_zdiv_nonneg_iff)
  then have "\<exists>k. s = a + int k * SLOT" by (rule exI)
  then have "s \<in> set (steps a b SLOT)" using m ab(3) by (simp add: set_steps) (simp add: s_def)
  with that [of a b s] show thesis using ab m by (simp add: s_def)
qed

lemma same_time_first:
  assumes "libc_sound h" "zone_regular h" "same_time_on h (civil D) m = Inr s"
  obtains a b where "{u. local_date h u = civil D} = {a..<b}" "local_date h s = civil D"
    "\<And>u. u \<in> set (steps a b SLOT) \<Longrightarrow> u < s \<Longrightarrow> minute_of_day h u < m" "m \<le> minute_of_day h s \<or> s = b - SLOT"
proof -
  obtain a b where ab: "day_bounds h (civil D) = Inr (a, b)" "\<And>u. local_date h u = civil D \<longleftrightarrow> a \<le> u \<and> u < b"
    "10 * HOUR \<le> b - a"
    using day_bounds_exact [OF assms(1,2), of D] by blast
  have set: "{u. local_date h u = civil D} = {a..<b}" by (rule set_eqI) (simp add: ab(2))
  show thesis
  proof (cases "find (\<lambda>t. m \<le> minute_of_day h t) (steps a b SLOT)")
    case None
    then have "s = b - SLOT" using assms(3) ab(1) by (simp add: same_time_on_def minute_of_day_def)
    moreover have "\<forall>u \<in> set (steps a b SLOT). minute_of_day h u < m" using None by (auto simp: find_None_iff)
    ultimately show thesis using that [of a b] set ab(2) [of s] ab(3) by simp
  next
    case (Some u)
    then have s: "s = u" using assms(3) ab(1) by (simp add: same_time_on_def minute_of_day_def)
    from Some obtain i where i: "i < length (steps a b SLOT)" "m \<le> minute_of_day h u" "u = steps a b SLOT ! i"
      "\<And>j. j < i \<Longrightarrow> minute_of_day h (steps a b SLOT ! j) < m"
      by (auto simp: find_Some_iff not_le)
    have "minute_of_day h v < m" if v: "v \<in> set (steps a b SLOT)" "v < u" for v
    proof -
      obtain j where j: "j < length (steps a b SLOT)" "v = steps a b SLOT ! j" using v(1) by (auto simp: in_set_conv_nth)
      have "j < i"
      proof (rule ccontr)
        assume "\<not> j < i"
        then have "u \<le> v"
          using sorted_wrt_nth_less [OF sorted_steps [of SLOT a b], of i j] i(3) j by (cases "i = j") auto
        then show False using v(2) by simp
      qed
      then show ?thesis using i(4) [of j] j by simp
    qed
    moreover have "u \<in> set (steps a b SLOT)" using i by simp
    then have "a \<le> u" "u < b" using steps_le [of SLOT u a b] set_steps [of SLOT u a b] by simp_all
    ultimately show thesis using that [of a b] set ab(2) [of u] i(2) s by simp
  qed
qed


end
