(* ===== verification/Meeting_Theorems.thy ===== *)
theory Meeting_Theorems
  imports Meeting_Days
begin

text \<open>
  The properties of the meeting planner: measured rows are exact, the axis is the local day, what is
  suggested and which opening comes next, and the bounded request lines of the resident clock.
\<close>

section \<open>Measured rows are exact\<close>

lemma fit_of_counts:
  "(if length (filter (\<lambda>m. f m \<noteq> Work) xs) = 0 then Work
    else if length (filter (\<lambda>m. f m = Off) xs) = 0 then Edge else Off) = foldl max Work (map f xs)"
proof -
  have "length (filter (\<lambda>m. f m = Off) xs) = 0 \<longleftrightarrow> Off \<notin> set (map f xs)"
    by (induction xs) auto
  moreover have "length (filter (\<lambda>m. f m \<noteq> Work) xs) = 0 \<longleftrightarrow> (\<forall>x \<in> set (map f xs). x = Work)"
    by (induction xs) auto
  ultimately show ?thesis by (simp only: worst_fit)
qed

lemma row_walls:
  assumes "calm_zone z" "on_grid origin a b"
  shows "map (row_wall (measure_row z key label home origin)) (steps a b MINUTE)
    = map (wall_in z) (steps a b MINUTE)"
proof (rule map_cong [OF refl])
  fix t
  assume "t \<in> set (steps a b MINUTE)"
  then have "a \<le> t" "t < b" using steps_le [of MINUTE t a b] set_steps [of MINUTE t a b] by simp_all
  then show "row_wall (measure_row z key label home origin) t = wall_in z t"
    using assms(2) row_reads(1) [OF assms(1), of origin t] by (simp add: on_grid_def)
qed

lemma row_fit_exact:
  assumes "calm_zone z" "on_grid origin a b"
  shows "row_fit (measure_row z key label home origin) origin a b
    = foldl max Work (map (\<lambda>t. fit_at (wall_in z t)) (steps a b MINUTE))"
    and "row_cost (measure_row z key label home origin) origin a b
    = sum_list (map (\<lambda>t. fit_cost (wall_in z t)) (steps a b MINUTE))"
proof -
  obtain i j where s: "row_span origin a b = (i, j)" "i \<le> j" "j \<le> nat (WINDOW div MINUTE)"
    "a = origin + int i * MINUTE" "b = origin + int j * MINUTE"
    by (rule grid_span [OF assms(2)])
  have st: "steps a b MINUTE = map (\<lambda>k. origin + int k * MINUTE) [i..<j]"
    unfolding s(4,5) by (rule steps_aligned) simp
  have i: "i \<le> nat (WINDOW div MINUTE)" using s(2,3) by simp
  note sums = row_sums [OF assms(1) s(3), where origin = origin and key = key and label = label and home = home]
    row_sums [OF assms(1) i, where origin = origin and key = key and label = label and home = home]
  have "row_minutes (measure_row z key label home origin) origin a b
      = (length (filter (\<lambda>m. fit_at (minute_wall z origin m) \<noteq> Work) [i..<j]),
         length (filter (\<lambda>m. fit_at (minute_wall z origin m) = Off) [i..<j]))"
    unfolding row_minutes_def s(1) using s(2) by (simp add: sums count_to_diff)
  then show "row_fit (measure_row z key label home origin) origin a b
    = foldl max Work (map (\<lambda>t. fit_at (wall_in z t)) (steps a b MINUTE))"
    by (simp only: row_fit_def split fit_of_counts st minute_wall_def map_map o_def)
  show "row_cost (measure_row z key label home origin) origin a b
    = sum_list (map (\<lambda>t. fit_cost (wall_in z t)) (steps a b MINUTE))"
    unfolding row_cost_def s(1) using s(2) by (simp add: sums sum_to_diff st minute_wall_def o_def)
qed

lemma row_note_Nil: "row_note p a b = [] \<longleftrightarrow> foldl max Work (map fit_at (map (row_wall p) (steps a b MINUTE))) = Work"
proof (cases "foldl max Work (map fit_at (map (row_wall p) (steps a b MINUTE))) = Work")
  case True
  then show ?thesis by (simp add: row_note_def)
next
  case False
  let ?walls = "map (row_wall p) (steps a b MINUTE)"
  have "foldl max Work (map fit_at ?walls) \<in> fit_at ` set ?walls"
    using foldl_max_in [of Work "map fit_at ?walls"] False by auto
  then have "find (\<lambda>w. fit_at w = foldl max Work (map fit_at ?walls)) ?walls \<noteq> None"
    by (auto simp: find_None_iff simp del: set_map)
  then show ?thesis using False by (auto simp: row_note_def Let_def split: if_splits)
qed

text \<open>C26: A row of the planner is exact. If the rules of a zone change at most once an hour, the hourly
  probes with their binary search reproduce libc's reading at every second of the window, and the
  prefix sums give, for every interval on the minute grid, the worst fit and the total cost of its
  minutes as read minute by minute; a row has no note exactly when all its minutes are working hours.\<close>

theorem meeting_rows_exact:
  assumes "calm_zone z" "on_grid origin a b"
  shows "(\<forall>t \<in> {origin..origin + WINDOW}.
        row_wall (measure_row z key label home origin) t = t + fst (z t)
        \<and> sg_name (row_segment (measure_row z key label home origin) t) = snd (z t))
    \<and> row_fit (measure_row z key label home origin) origin a b
      = foldl max Work (map (\<lambda>t. fit_at (t + fst (z t))) (steps a b MINUTE))
    \<and> row_cost (measure_row z key label home origin) origin a b
      = sum_list (map (\<lambda>t. fit_cost (t + fst (z t))) (steps a b MINUTE))
    \<and> (row_note (measure_row z key label home origin) a b = [])
      = (row_fit (measure_row z key label home origin) origin a b = Work)"
  using row_reads [OF assms(1), of origin _ key label home] row_fit_exact [OF assms, of key label home]
    row_note_Nil [of "measure_row z key label home origin" a b, unfolded row_walls [OF assms]]
  by (simp add: o_def)

section \<open>The next opening\<close>

text \<open>A slot is a best opening when it is free, somebody works, and no free slot of the horizon fits
  better.\<close>

definition best_opening ::
    "participant list \<Rightarrow> (int \<times> int) list \<Rightarrow> int \<Rightarrow> int \<Rightarrow> int list \<Rightarrow> int \<Rightarrow> bool" where
  "best_opening rows busy origin len slots slot \<longleftrightarrow>
     busy_seconds busy slot (slot + len) = 0 \<and> worst rows origin slot (slot + len) \<noteq> Off
     \<and> (\<forall>u \<in> set slots. busy_seconds busy u (u + len) = 0 \<longrightarrow>
          worst rows origin slot (slot + len) \<le> worst rows origin u (u + len))"

lemma opening_loop_find:
  "sorted_wrt (<) slots \<Longrightarrow> opening_loop opens slots inside =
    find (\<lambda>s. opens s \<and> (\<not> inside \<or> (\<exists>u \<in> set slots. u < s \<and> \<not> opens u))) slots"
proof (induction slots arbitrary: inside)
  case (Cons x xs)
  have x: "\<forall>u \<in> set xs. x < u" "sorted_wrt (<) xs" using Cons.prems by simp_all
  show ?case
  proof (cases "opens x \<and> \<not> inside")
    case True
    then show ?thesis by simp
  next
    case False
    have "opening_loop opens (x # xs) inside
        = find (\<lambda>s. opens s \<and> (\<not> (inside \<and> opens x) \<or> (\<exists>u \<in> set xs. u < s \<and> \<not> opens u))) xs"
      using False Cons.IH [OF x(2), of "inside \<and> opens x"] by (cases "opens x"; cases inside) simp_all
    also have "\<dots> = find (\<lambda>s. opens s \<and> (\<not> inside \<or> (\<exists>u \<in> set (x # xs). u < s \<and> \<not> opens u))) xs"
      using x(1) by (intro find_cong) auto
    also have "\<dots> = find (\<lambda>s. opens s \<and> (\<not> inside \<or> (\<exists>u \<in> set (x # xs). u < s \<and> \<not> opens u))) (x # xs)"
      using False x(1) by (auto dest: order.asym)
    finally show ?thesis .
  qed
qed simp

lemma sorted_next_slots: "sorted_wrt (<) (next_slots selected earliest)"
  unfolding next_slots_def by (rule sorted_wrt_filter) (simp add: sorted_steps)

lemma next_slots_late: "s \<in> set (next_slots selected earliest) \<Longrightarrow> selected < s \<and> earliest \<le> s"
  using steps_le [of SLOT s "selected + SLOT" "selected + HORIZON_DAYS * DAY + 1"] by (simp add: next_slots_def)

text \<open>The next opening is the first best opening that is another one than the selection's own: the
  first slot within two weeks that is free, fits best among all free slots there and is not merely
  off, such that between the selection and it (the selection included) some slot is not such an
  opening. There is none exactly when no slot qualifies.\<close>

theorem next_fit_exact:
  "next_fit rows busy origin selected earliest len =
    find (\<lambda>s. best_opening rows busy origin len (next_slots selected earliest) s
        \<and> (\<exists>u \<in> insert selected (set (next_slots selected earliest)). u < s
              \<and> \<not> (earliest \<le> u \<and> best_opening rows busy origin len (next_slots selected earliest) u)))
      (next_slots selected earliest)"
proof -
  let ?slots = "next_slots selected earliest" and ?free = "\<lambda>s. busy_seconds busy s (s + len) = 0"
  let ?fit = "\<lambda>s. worst rows origin s (s + len)" and ?best = "best_opening rows busy origin len (next_slots selected earliest)"
  define fits where "fits = map ?fit (filter ?free ?slots)"
  define target where "target = foldl min Off fits"
  have le: "?fit s \<le> target \<longleftrightarrow> (\<forall>u \<in> set ?slots. ?free u \<longrightarrow> ?fit s \<le> ?fit u)" for s
    unfolding target_def foldl_min_ge by (auto simp: fits_def)
  show ?thesis
  proof (cases "target = Off")
    case True
    have "\<not> ?best s" if "s \<in> set ?slots" for s
      using le [of s] that True foldl_min_ge [of Off Off fits] unfolding best_opening_def target_def [symmetric]
      by (auto simp: fits_def)
    then have "find (\<lambda>s. ?best s \<and> (\<exists>u \<in> insert selected (set ?slots). u < s \<and> \<not> (earliest \<le> u \<and> ?best u))) ?slots = None"
      by (auto simp: find_None_iff)
    moreover have "next_fit rows busy origin selected earliest len = None"
      using True unfolding next_fit_def Let_def fits_def [symmetric] target_def [symmetric] by simp
    ultimately show ?thesis by simp
  next
    case False
    then have ne: "fits \<noteq> []" by (auto simp: target_def)
    have opens: "?free s \<and> ?fit s \<le> target \<longleftrightarrow> ?best s" for s
      using False le [of s] by (auto simp: best_opening_def)
    have "next_fit rows busy origin selected earliest len = opening_loop ?best ?slots (earliest \<le> selected \<and> ?best selected)"
      using ne False unfolding next_fit_def Let_def fits_def [symmetric] target_def [symmetric] opens by simp
    also have "\<dots> = find (\<lambda>s. ?best s \<and> (\<not> (earliest \<le> selected \<and> ?best selected) \<or> (\<exists>u \<in> set ?slots. u < s \<and> \<not> ?best u))) ?slots"
      by (rule opening_loop_find [OF sorted_next_slots])
    also have "\<dots> = find (\<lambda>s. ?best s \<and> (\<exists>u \<in> insert selected (set ?slots). u < s \<and> \<not> (earliest \<le> u \<and> ?best u))) ?slots"
      by (rule find_cong [OF refl]) (auto dest: next_slots_late)
    finally show ?thesis .
  qed
qed

section \<open>Suggestions\<close>

text \<open>What orders the candidates: cost, then whether off the half hour, then time.\<close>

definition slot_key ::
    "participant list \<Rightarrow> (int \<times> int) list \<Rightarrow> int \<Rightarrow> int \<Rightarrow> int \<Rightarrow> int \<times> bool \<times> int" where
  "slot_key rows busy origin len slot =
     (score rows busy origin slot (slot + len), (row_wall (rows ! 0) slot mod HOUR div MINUTE) mod 30 \<noteq> 0, slot)"

definition candidate_slots :: "participant list \<Rightarrow> int \<Rightarrow> int \<Rightarrow> int \<Rightarrow> int \<Rightarrow> int list" where
  "candidate_slots rows origin day_end earliest len =
     filter (\<lambda>slot. earliest \<le> slot \<and> list_ex (\<lambda>p. snd (row_minutes p origin slot (slot + len)) < nat (len div MINUTE)) rows)
       (steps origin day_end SLOT)"

lemma candidates_keys:
  "candidates rows busy origin day_end earliest len
    = map (slot_key rows busy origin len) (candidate_slots rows origin day_end earliest len)"
  by (simp add: candidates_def slot_key_def candidate_slots_def filter_filter conj_commute cong: filter_cong)

text \<open>What greedy choice gives: a few slots, best first and apart from each other, and every slot left
  out is too close to a better one chosen, or all places went to better ones.\<close>

definition greedy :: "(int \<Rightarrow> int \<times> bool \<times> int) \<Rightarrow> int \<Rightarrow> int set \<Rightarrow> int list \<Rightarrow> bool" where
  "greedy k w slots chosen \<longleftrightarrow> length chosen \<le> max_suggestions
     \<and> sorted_wrt (\<lambda>a b. k a < k b \<and> w \<le> \<bar>a - b\<bar>) chosen
     \<and> (\<forall>s \<in> slots - set chosen. (\<exists>x \<in> set chosen. k x < k s \<and> \<bar>x - s\<bar> < w)
          \<or> (length chosen = max_suggestions \<and> (\<forall>x \<in> set chosen. k x < k s)))"

lemma choose_starts_greedy:
  assumes "\<And>s. snd (snd (k s)) = s" "sorted_wrt (\<lambda>a b. k a < k b) ss" "greedy k w {} chosen"
    "\<forall>c \<in> set chosen. \<forall>s \<in> set ss. k c < k s"
  shows "\<exists>out. choose_starts w (map k ss) chosen = chosen @ out \<and> set out \<subseteq> set ss \<and> greedy k w (set ss) (chosen @ out)"
  using assms(2-4)
proof (induction ss arbitrary: chosen)
  case Nil
  then show ?case by simp
next
  case (Cons s ss)
  obtain a b where k: "k s = (a, b, s)" using assms(1) [of s] by (cases "k s") auto
  show ?case
  proof (cases "length chosen = max_suggestions")
    case True
    then show ?thesis using Cons.prems by (intro exI [of _ "[]"]) (auto simp: k greedy_def)
  next
    case room: False
    show ?thesis
    proof (cases "\<exists>c \<in> set chosen. \<bar>c - s\<bar> < w")
      case True
      then have step: "choose_starts w (map k (s # ss)) chosen = choose_starts w (map k ss) chosen"
        using room by (auto simp: k list_all_iff not_le)
      obtain out where out: "choose_starts w (map k ss) chosen = chosen @ out" "set out \<subseteq> set ss"
        "greedy k w (set ss) (chosen @ out)"
        using Cons.IH [of chosen] Cons.prems by auto
      moreover have "\<exists>x \<in> set (chosen @ out). k x < k s \<and> \<bar>x - s\<bar> < w" using True Cons.prems(3) by auto
      ultimately show ?thesis unfolding step by (intro exI [of _ out]) (auto simp: greedy_def)
    next
      case False
      then have step: "choose_starts w (map k (s # ss)) chosen = choose_starts w (map k ss) (chosen @ [s])"
        using room by (auto simp: k list_all_iff not_less)
      have "greedy k w {} (chosen @ [s])"
        using Cons.prems(2,3) room False by (auto simp: greedy_def sorted_wrt_append not_less)
      then obtain out where "choose_starts w (map k ss) (chosen @ [s]) = (chosen @ [s]) @ out" "set out \<subseteq> set ss"
        "greedy k w (set ss) ((chosen @ [s]) @ out)"
        using Cons.IH [of "chosen @ [s]"] Cons.prems by auto
      then show ?thesis unfolding step by (intro exI [of _ "s # out"]) (auto simp: greedy_def)
    qed
  qed
qed

lemma insort_map_key: "insort (k x) (map k xs) = map k (insort_key k x xs)"
  by (induction xs) simp_all

lemma sort_map_key: "sort (map k xs) = map k (sort_key k xs)"
  by (induction xs) (simp_all add: insort_map_key)

text \<open>The suggestions are a greedy choice by cost, roundness and time among the slots of the day that
  are not past and at which somebody is not off for the whole meeting: at most three, best first, at
  least the meeting or half an hour apart; a slot passed over is too close to a better suggestion, or
  three better ones were found.\<close>

theorem suggest_best:
  "set (suggest rows busy origin day_end earliest len) \<subseteq> set (candidate_slots rows origin day_end earliest len)
   \<and> greedy (slot_key rows busy origin len) (max len (30 * MINUTE))
       (set (candidate_slots rows origin day_end earliest len)) (suggest rows busy origin day_end earliest len)"
proof -
  let ?k = "slot_key rows busy origin len" and ?c = "candidate_slots rows origin day_end earliest len"
  have key: "snd (snd (?k s)) = s" for s by (simp add: slot_key_def)
  then have inj: "inj ?k" by (metis injI)
  have "distinct ?c"
    using sorted_steps [of SLOT origin day_end] unfolding candidate_slots_def
    by (intro distinct_filter) (simp add: strict_sorted_iff)
  then have "sorted_wrt (<) (map ?k (sort_key ?k ?c))"
    using inj by (simp add: strict_sorted_iff distinct_map inj_on_subset [OF _ subset_UNIV])
  then have "sorted_wrt (\<lambda>a b. ?k a < ?k b) (sort_key ?k ?c)" by (simp add: sorted_wrt_map)
  from choose_starts_greedy [of ?k, OF key this, of "max len (30 * MINUTE)" "[]"]
  show ?thesis by (simp add: suggest_def candidates_keys sort_map_key greedy_def)
qed

section \<open>Request lines\<close>

definition first_line :: "string \<Rightarrow> string" where
  "first_line s = takeWhile (\<lambda>b. b \<noteq> newline) s @ (if newline \<in> set s then [newline] else [])"

lemma first_line_split: "newline \<notin> set a \<Longrightarrow> first_line (a @ s) = a @ first_line s"
  by (simp add: first_line_def takeWhile_append)

lemma takeWhile_all: "newline \<notin> set s \<Longrightarrow> takeWhile (\<lambda>b. b \<noteq> newline) s = s"
  by (induction s) auto

lemma first_line_length: "length (first_line s) = (if newline \<in> set s then length (takeWhile (\<lambda>b. b \<noteq> newline) s) + 1 else length s)"
  by (simp add: first_line_def takeWhile_all)

lemma first_line_take: "first_line s = take (length (first_line s)) s"
proof (cases "newline \<in> set s")
  case True
  then have "dropWhile (\<lambda>b. b \<noteq> newline) s \<noteq> []" by (auto simp: dropWhile_eq_Nil_conv)
  then obtain r where r: "dropWhile (\<lambda>b. b \<noteq> newline) s = newline # r"
    using hd_dropWhile [of "\<lambda>b. b \<noteq> newline" s] by (cases "dropWhile (\<lambda>b. b \<noteq> newline) s") auto
  have "s = takeWhile (\<lambda>b. b \<noteq> newline) s @ newline # r" using r takeWhile_dropWhile_id [of "\<lambda>b. b \<noteq> newline" s] by simp
  then have "s = first_line s @ r" using True by (simp add: first_line_def)
  then show ?thesis by (metis append_eq_conv_conj)
next
  case False
  then have "first_line s = s" using takeWhile_eq_all_conv [of "\<lambda>b. b \<noteq> newline" s] by (auto simp: first_line_def)
  then show ?thesis by simp
qed

lemma first_line_chunk: "newline \<in> set s \<Longrightarrow> first_line (s @ t) = first_line s"
  by (auto simp: first_line_def takeWhile_append)

lemma line_loop_exact:
  "[] \<notin> set input \<Longrightarrow> newline \<notin> set seen \<Longrightarrow> over = (request_limit < length seen) \<Longrightarrow> (\<not> over \<Longrightarrow> line = seen) \<Longrightarrow>
    length line \<le> length seen \<Longrightarrow>
    \<exists>rest. line_loop input line over =
      (if seen @ concat input = [] then None
       else Some (if request_limit < length seen + length (first_line (concat input)) then []
                  else seen @ first_line (concat input)), rest)
      \<and> concat rest = drop (length (first_line (concat input))) (concat input) \<and> [] \<notin> set rest"
proof (induction input arbitrary: line over seen)
  case Nil
  then show ?case by (cases over) (auto simp: first_line_def)
next
  case (Cons buffer input)
  have ne: "buffer \<noteq> []" "[] \<notin> set input" using Cons.prems(1) by auto
  let ?n = "length (first_line buffer)"
  have n: "(if newline \<in> set buffer then length (takeWhile (\<lambda>b. b \<noteq> newline) buffer) + 1 else length buffer) = ?n"
    by (simp add: first_line_length)
  have over: "(over \<or> request_limit < length line + ?n) = (request_limit < length seen + ?n)"
    using Cons.prems(3-5) by (cases over) auto
  show ?case
  proof (cases "newline \<in> set buffer")
    case True
    have f: "first_line (concat (buffer # input)) = first_line buffer" using first_line_chunk [OF True] by simp
    let ?rest = "if drop ?n buffer = [] then input else drop ?n buffer # input"
    have "line_loop (buffer # input) line over
        = (Some (if request_limit < length seen + ?n then [] else seen @ first_line buffer), ?rest)"
      using ne(1) True Cons.prems(3,4) over n first_line_take [of buffer] by (auto simp: Let_def)
    moreover have "?n \<le> length buffer" by (subst first_line_take) simp
    then have "concat ?rest = drop ?n (concat (buffer # input))" by auto
    moreover have "[] \<notin> set ?rest" using ne(2) by simp
    ultimately show ?thesis using ne(1) unfolding f by (intro exI [of _ ?rest]) auto
  next
    case False
    then have len: "?n = length buffer" by (simp add: first_line_length)
    have f: "first_line (concat (buffer # input)) = buffer @ first_line (concat input)"
      using first_line_split [OF False] by simp
    let ?over = "request_limit < length (seen @ buffer)" and ?line = "if request_limit < length (seen @ buffer) then line else line @ buffer"
    have "line_loop (buffer # input) line over = line_loop input ?line ?over"
      using ne(1) False over len by (simp add: Let_def)
    moreover have "\<exists>rest. line_loop input ?line ?over =
      (if (seen @ buffer) @ concat input = [] then None
       else Some (if request_limit < length (seen @ buffer) + length (first_line (concat input)) then []
                  else (seen @ buffer) @ first_line (concat input)), rest)
      \<and> concat rest = drop (length (first_line (concat input))) (concat input) \<and> [] \<notin> set rest"
      using ne(2) False Cons.prems by (intro Cons.IH) auto
    ultimately show ?thesis unfolding f by auto
  qed
qed

text \<open>A request line does not depend on how the input arrives. Whatever buffers the reads return, the
  result is the first line of the whole input with its newline, replaced by the empty text exactly
  when it is longer than the limit; what follows it is left for the next call, so an oversized line
  cannot smuggle in a second request; and only an ended input gives none.\<close>

theorem request_line_exact:
  assumes "[] \<notin> set input" "concat input = text"
  shows "\<exists>rest. request_line input =
      (if text = [] then None
       else Some (if request_limit < length (first_line text) then [] else first_line text), rest)
    \<and> concat rest = drop (length (first_line text)) text \<and> [] \<notin> set rest"
proof -
  have p: "False = (request_limit < length ([]::string))" by simp
  from line_loop_exact [OF assms(1) _ p, of "[]"] show ?thesis unfolding assms(2) request_line_def
    by (simp only: append_Nil list.size(3) add_0 not_False_eq_True list.set(1) empty_iff le_refl simp_thms)
qed

theorem request_line_exact_witness:
  "request_line [''re'', ''fresh'' @ [newline] @ ''{'', ''}''] = (Some (''refresh'' @ [newline]), [''{'', ''}''])
   \<and> (\<exists>rest. request_line [''re'', ''fresh'' @ [newline] @ ''{'', ''}''] = (Some (''refresh'' @ [newline]), rest)
        \<and> concat rest = ''{}'')"
proof -
  have "request_line [''re'', ''fresh'' @ [newline] @ ''{'', ''}''] = (Some (''refresh'' @ [newline]), [''{'', ''}''])"
    by code_simp
  moreover have f: "first_line (''refresh'' @ [newline] @ ''{}'') = ''refresh'' @ [newline]" by code_simp
  ultimately show ?thesis
    using request_line_exact [of "[''re'', ''fresh'' @ [newline] @ ''{'', ''}'']" "''refresh'' @ [newline] @ ''{}''"]
    unfolding f by (simp add: request_limit_def)
qed

section \<open>The cache of measured rows\<close>

definition same_rules :: "clock_host \<Rightarrow> clock_host \<Rightarrow> bool" where
  "same_rules h h' \<longleftrightarrow> ck_probe h' = ck_probe h \<and> ck_tz h' = ck_tz h \<and> ck_localtime h' = ck_localtime h
     \<and> ck_zoneinfo h' = ck_zoneinfo h"

lemma measure_rows_rules:
  "same_rules h h' \<Longrightarrow> home_name h' zones origin = home_name h zones origin"
  "same_rules h h' \<Longrightarrow> measure_rows h' zones pinned origin = measure_rows h zones pinned origin"
proof -
  assume s: "same_rules h h'"
  then have "here h' = here h" "zone_at h' = zone_at h" by (auto simp: same_rules_def here_def zone_at_def fun_eq_iff)
  moreover have "home_zone h' zones = home_zone h zones" for zones
    using s unfolding same_rules_def home_zone_def by (simp only: refl)
  ultimately show "home_name h' zones origin = home_name h zones origin"
    "measure_rows h' zones pinned origin = measure_rows h zones pinned origin"
    by (simp_all only: home_name_def measure_rows_def)
qed

text \<open>What the cache holds is what would be measured for its key.\<close>

definition cache_ok :: "clock_host \<Rightarrow> clock_catalog \<Rightarrow> bool" where
  "cache_ok h cat \<longleftrightarrow> (\<forall>c. cc_meeting cat = Some c \<longrightarrow>
     (\<exists>i label pinned. home_name h (cc_zones cat) (mk_origin c) = (i, label) \<and> mk_key c = i # label # pinned
        \<and> mk_rows c = measure_rows h (cc_zones cat) pinned (mk_origin c)))"

abbreviation uncached :: "clock_catalog \<Rightarrow> clock_catalog" where
  "uncached cat \<equiv> cat\<lparr>cc_meeting := None\<rparr>"

lemma cache_ok_rules: "same_rules h h' \<Longrightarrow> cache_ok h' cat = cache_ok h cat"
  by (simp add: cache_ok_def measure_rows_rules)

lemma cache_ok_None [simp]: "cc_meeting cat = None \<Longrightarrow> cache_ok h cat"
  by (simp add: cache_ok_def)

lemma participants_measured:
  assumes "cache_ok h cat"
  shows "fst (participants h pinned origin cat) = measure_rows h (cc_zones cat) pinned origin"
    "cache_ok h (snd (participants h pinned origin cat))"
proof -
  obtain i label where n: "home_name h (cc_zones cat) origin = (i, label)" by (cases "home_name h (cc_zones cat) origin")
  have "fst (participants h pinned origin cat) = measure_rows h (cc_zones cat) pinned origin
    \<and> cache_ok h (snd (participants h pinned origin cat))"
    using assms n by (cases "cc_meeting cat") (auto simp: participants_def Let_def cache_ok_def)
  then show "fst (participants h pinned origin cat) = measure_rows h (cc_zones cat) pinned origin"
    "cache_ok h (snd (participants h pinned origin cat))" by simp_all
qed

lemma plan_meeting_uncached:
  assumes "cache_ok h cat"
  shows "fst (plan_meeting h r now pinned cat) = fst (plan_meeting h r now pinned (uncached cat))"
    "cache_ok h (snd (plan_meeting h r now pinned cat))"
  using assms participants_measured [OF assms] participants_measured [of h "uncached cat"]
  by (auto simp: plan_meeting_def Let_def split_beta split: sum.split)

lemma catalog_load_ok:
  assumes "cache_ok h cat"
  shows "fst (catalog_load h now cat) = fst (catalog_load h now (uncached cat))"
    "cache_ok h (snd (catalog_load h now cat))"
    "snd (catalog_load h now (uncached cat)) = uncached (snd (catalog_load h now cat))"
  using assms by (auto simp: catalog_load_def Let_def split: sum.split)

lemma project_uncached:
  assumes "cache_ok h cat"
  shows "fst (project_meeting h r now cat) = fst (project_meeting h r now (uncached cat))" "cache_ok h (snd (project_meeting h r now cat))"
proof -
  obtain res cat1 where l: "catalog_load h now cat = (res, cat1)" by (cases "catalog_load h now cat")
  then have u: "catalog_load h now (uncached cat) = (res, uncached cat1)" "cache_ok h cat1"
    using catalog_load_ok [OF assms, of now] by (simp_all add: prod_eq_iff)
  obtain a cat2 b cat3 where p: "plan_meeting h r now (pins h (cc_zones cat1)) cat1 = (a, cat2)"
    "plan_meeting h r now (pins h (cc_zones cat1)) (uncached cat1) = (b, cat3)" by (meson surj_pair)
  have "a = b" "cache_ok h cat2" using plan_meeting_uncached [OF u(2), of r now "pins h (cc_zones cat1)"] p by simp_all
  then show "fst (project_meeting h r now cat) = fst (project_meeting h r now (uncached cat))" "cache_ok h (snd (project_meeting h r now cat))"
    using l u p by (cases res; cases b; simp add: project_meeting_def)+
qed

lemma snapshot_uncached:
  assumes "cache_ok h cat"
  shows "fst (clock_snapshot h now cat) = fst (clock_snapshot h now (uncached cat))"
    "cache_ok h (snd (clock_snapshot h now cat))"
  using catalog_load_ok [OF assms, of now]
  by (auto simp: clock_snapshot_def split_beta split: sum.split)

text \<open>C29: The cache of measured rows is invisible. As long as the zone rules are the same, a cache that
  holds what would be measured for its key is kept so by every line the resident clock handles -
  refreshes that reload the catalog and failed requests included - and the reply to every line is
  the one an empty cache would give.\<close>

theorem cache_transparent:
  assumes "cache_ok h0 cat" "same_rules h0 h"
  shows "cache_ok h0 (snd (watch_line h now line cat))
    \<and> fst (watch_line h now line cat) = fst (watch_line h now line (uncached cat))"
proof -
  have ok: "cache_ok h cat" using assms by (simp add: cache_ok_rules)
  have "cache_ok h (snd (watch_line h now line cat))
    \<and> fst (watch_line h now line cat) = fst (watch_line h now line (uncached cat))"
    using ok snapshot_uncached [OF ok, of now] project_uncached [OF ok, of _ now]
    by (auto simp: watch_line_def Let_def split_beta split: option.split sum.split)
  then show ?thesis using cache_ok_rules [OF assms(2)] by simp
qed

section \<open>The window is long enough\<close>

lemma row_lengths:
  "length (pa_outside (measure_row z key label home origin)) = nat (WINDOW div MINUTE) + 1"
  "length (pa_off (measure_row z key label home origin)) = nat (WINDOW div MINUTE) + 1"
  "length (pa_cost (measure_row z key label home origin)) = nat (WINDOW div MINUTE) + 1"
proof -
  define n where "n = nat (WINDOW div MINUTE)"
  have "case foldl (measure_minute segs origin) (0, [0], [0], [0]) [0..<n] of
      (_, outside, off, cost) \<Rightarrow> length outside = n + 1 \<and> length off = n + 1 \<and> length cost = n + 1" for segs
    by (induction n) (auto simp: measure_minute_def Let_def split_beta)
  then show "length (pa_outside (measure_row z key label home origin)) = nat (WINDOW div MINUTE) + 1"
    "length (pa_off (measure_row z key label home origin)) = nat (WINDOW div MINUTE) + 1"
    "length (pa_cost (measure_row z key label home origin)) = nat (WINDOW div MINUTE) + 1"
    unfolding measure_row_def Let_def n_def [symmetric] by (auto simp: split_beta)
qed

lemma measure_rows_in: "p \<in> set (measure_rows h zones pinned origin) \<Longrightarrow> \<exists>z i label home. p = measure_row z i label home origin"
  unfolding measure_rows_def List.map_filter_def by (auto split: prod.splits) blast+

lemma span_in:
  assumes "origin \<le> slot" "slot + len \<le> origin + WINDOW" "0 \<le> len"
  shows "snd (row_span origin slot (slot + len)) \<le> nat (WINDOW div MINUTE)"
proof -
  have "(slot + len - origin) div MINUTE \<le> WINDOW div MINUTE" using assms by (intro zdiv_mono1) simp_all
  then show ?thesis by (simp add: row_span_def)
qed


section \<open>A zone that springs forward\<close>

text \<open>Central European time with one change, at 07:00 on 2 January 1970.\<close>

definition spring :: zone where
  "spring t = (if t < 108000 then (3600, ''CET'') else (7200, ''CEST''))"

definition spring_host :: clock_host where
  "spring_host = \<lparr>ck_probe = (\<lambda>_. spring), ck_date = (\<lambda>_ t. civil ((t + fst (spring t)) div DAY)),
     ck_format = (\<lambda>_ _ _. []), ck_timegm = (\<lambda>(y, m, d) hour. days y m d * DAY + hour * HOUR),
     ck_utc = (\<lambda>_ _. []), ck_tz = None, ck_localtime = None, ck_zoneinfo = [], ck_table = (\<lambda>_. None), ck_etc = [],
     ck_stat = [], ck_pins = None, ck_parse = (\<lambda>_. None), ck_lossy = (\<lambda>s. s), ck_url = (\<lambda>_. []), ck_io = []\<rparr>"

definition spring_request :: meeting_request where
  "spring_request = blank_request\<lparr>rq_start := Some 192600, rq_days := - 1\<rparr>"

lemma spring_calm: "calm_zone spring"
  by (simp add: calm_zone_def spring_def)

lemma spring_here [simp]: "here spring_host = spring"
  by (simp add: here_def spring_host_def)

lemma spring_sound: "libc_sound spring_host"
  by (simp add: libc_sound_def local_date_def) (simp add: spring_host_def)

lemma spring_regular: "zone_regular spring_host"
proof -
  have "t div MINUTE * MINUTE < 108000 \<longleftrightarrow> t < 108000" for t :: int by presburger
  then have "fst (spring t) mod MINUTE = 0 \<and> fst (spring (t div MINUTE * MINUTE)) = fst (spring t) \<and> \<bar>fst (spring t)\<bar> \<le> DAY" for t
    by (simp add: spring_def)
  moreover have "\<bar>fst (spring a) - fst (spring b)\<bar> \<le> 4 * HOUR" for a b by (simp add: spring_def)
  moreover have "(a + fst (spring a)) div DAY \<le> (b + fst (spring b)) div DAY" if "a \<le> b" for a b
    using that by (intro zdiv_mono1) (simp_all add: spring_def)
  ultimately show ?thesis unfolding zone_regular_def spring_here by blast
qed

text \<open>Half past seven does not exist on the second; eight o'clock is the first slot after it.\<close>

lemma spring_bounds: "day_bounds spring_host (civil 1) = Inr (82800, 165600)"
proof -
  obtain a b where ab: "day_bounds spring_host (civil 1) = Inr (a, b)"
    "\<And>u. local_date spring_host u = civil 1 \<longleftrightarrow> a \<le> u \<and> u < b"
    using day_bounds_exact [OF spring_sound spring_regular, of 1] by blast
  have l: "local_date spring_host u = civil 1 \<longleftrightarrow> (u + fst (spring u)) div DAY = 1" for u
    by (simp add: local_date_sound [OF spring_sound])
  have q: "(u + fst (spring u)) div DAY = 1 \<longleftrightarrow> a \<le> u \<and> u < b" for u
    using ab(2) [of u] unfolding l .
  have "a = 82800" "b = 165600"
    using q [of 82800] q [of 82799] q [of 165600] q [of 165599] by (simp_all add: spring_def)
  then show ?thesis using ab(1) by simp
qed

lemma spring_day: "local_day spring_host 108000 = Inr (82800, 165600)"
  using spring_bounds by (simp add: local_day_def local_date_sound [OF spring_sound]) (simp add: spring_def)

lemma spring_snapped: "local_day spring_host 192600 = Inr (165600, 252000)"
proof -
  obtain a b where ab: "local_day spring_host 192600 = Inr (a, b)"
    "\<And>u. local_date spring_host u = local_date spring_host 192600 \<longleftrightarrow> a \<le> u \<and> u < b"
    using local_day_exact [OF spring_sound spring_regular, of 192600] by blast
  have l: "local_date spring_host u = local_date spring_host 192600 \<longleftrightarrow> (u + fst (spring u)) div DAY = 2" for u
    by (simp add: local_date_sound [OF spring_sound]) (simp add: spring_def)
  have q: "(u + fst (spring u)) div DAY = 2 \<longleftrightarrow> a \<le> u \<and> u < b" for u
    using ab(2) [of u] unfolding l .
  have "a = 165600" "b = 252000"
    using q [of 165600] q [of 165599] q [of 252000] q [of 251999] by (simp_all add: spring_def)
  then show ?thesis using ab(1) by simp
qed

lemma spring_moved: "resolve_start spring_host spring_request 0 = Inr 108000"
proof -
  have d: "local_date spring_host 192600 = civil 2" by (simp add: local_date_sound [OF spring_sound]) (simp add: spring_def)
  have s: "find (\<lambda>t. 450 \<le> (t + fst (spring t)) mod DAY div MINUTE) (steps 82800 165600 SLOT) = Some 108000"
  proof -
    have "\<not> 450 \<le> (82800 + int j * SLOT + fst (spring (82800 + int j * SLOT))) mod DAY div MINUTE" if "j < 28" for j
    proof -
      have "82800 + int j * SLOT + fst (spring (82800 + int j * SLOT)) = int j * SLOT + DAY" using that by (simp add: spring_def)
      moreover have "int j * SLOT mod DAY = int j * SLOT" using that by simp
      ultimately show ?thesis using that by (simp add: div_less_iff_less_mult not_le)
    qed
    then show ?thesis
      by (simp add: find_Some_iff steps_def) (rule exI [of _ 28], simp add: spring_def)
  qed
  have "same_time_on spring_host (civil 1) 450 = Inr 108000"
    using s by (simp add: same_time_on_def spring_bounds)
  then show ?thesis
    using spring_snapped d civil_epoch_sound [OF spring_sound, of 2]
    by (simp add: resolve_start_def spring_request_def blank_request_def in_range_def wall_civil_eq) (simp add: spring_def)
qed

section \<open>Witnesses\<close>

text \<open>The hour before the change and the hour after it in one interval.\<close>

theorem meeting_rows_exact_witness:
  "row_fit (measure_row spring [] [] True 0) 0 107880 108120 = Off
   \<and> row_cost (measure_row spring [] [] True 0) 0 107880 108120 = 10"
proof -
  have g: "on_grid 0 107880 108120" by (simp add: on_grid_def)
  have s: "steps 107880 108120 MINUTE = [107880, 107940, 108000, 108060]" by (simp add: steps_def upt_rec)
  show ?thesis
    using meeting_rows_exact [OF spring_calm g, of "[]" "[]" True]
    by (simp add: s spring_def fit_at_def fit_cost_def workday_def weekday_def max_def less_eq_fit_def)
qed

theorem axis_is_local_day_witness:
  "{u. local_date spring_host u = local_date spring_host 108000} = {82800..<165600}"
  using axis_is_local_day [OF spring_sound spring_regular, of 108000] by (simp add: spring_day)


theorem cache_transparent_witness:
  "cache_ok spring_host (snd (watch_line spring_host 0 ''refresh'' empty_catalog))"
  using cache_transparent [of spring_host empty_catalog spring_host 0 "''refresh''"]
  by (simp add: empty_catalog_def same_rules_def)


end
