(* ===== verification/Maintenance_Probes.thy ===== *)
theory Maintenance_Probes
  imports Broker_Validation Maintenance_Theorems Ports_Procfs Civil_Theorems
begin

text \<open>
  \<open>projects/maintenance/src/publishers.rs\<close>: the collectors whose complete snapshots the checks of
  \<open>Maintenance_Service\<close> report; the one of \<open>restart.rs\<close> is in \<open>Maintenance_Restart\<close>. Child processes, files, the statistics of
  a file system, SHA-256 and libc's \<open>timegm\<close> and \<open>strftime\<close> are fields of \<open>probe_host\<close>; an error is the
  text the source returns. As in the inbox, \<open>f64\<close> quantities are exact rationals.
\<close>

record probe_host =
  ph_run :: "string list \<Rightarrow> nat \<Rightarrow> string + int \<times> string" \<comment> \<open>the executor: exit status and output\<close>
  ph_parse :: "string \<Rightarrow> json option"
  ph_mtime :: "string \<Rightarrow> string + rat option"            \<comment> \<open>modification time; \<open>None\<close>: no such file\<close>
  ph_statvfs :: "string \<Rightarrow> (nat \<times> nat \<times> nat \<times> nat) option"
  ph_is_file :: "string \<Rightarrow> bool"
  ph_read :: "string \<Rightarrow> string option"
  ph_sha :: "string \<Rightarrow> string"
  ph_timegm :: "int \<times> int \<times> int \<Rightarrow> int \<times> int \<times> int \<Rightarrow> int \<times> int \<times> int" \<comment> \<open>moment, and the month and day left in the struct\<close>
  ph_stamp :: "int \<Rightarrow> string option"                    \<comment> \<open>\<open>format_timestamp\<close>\<close>

section \<open>Reading the configuration\<close>

definition nul :: char where "nul = char_of (0::nat)"

definition cfg_string :: "json \<Rightarrow> string \<Rightarrow> string + string" where
  "cfg_string v key = (case json_index v key of
       JStr s \<Rightarrow> if length s \<le> 4096 \<and> nul \<notin> set s then Inr s else Inl ''invalid_configuration''
     | _ \<Rightarrow> Inl ''invalid_configuration'')"

definition cfg_number :: "json \<Rightarrow> string \<Rightarrow> rat \<Rightarrow> string + rat" where
  "cfg_number v key fallback =
     (if json_index v key = JNull then Inr fallback
      else (case as_f64 (json_index v key) of
              Some (Fin x) \<Rightarrow> if 0 \<le> x then Inr x else Inl ''invalid_configuration''
            | _ \<Rightarrow> Inl ''invalid_configuration''))"

definition cfg_items :: "json \<Rightarrow> string + json list" where
  "cfg_items cfg = (case json_index cfg ''items'' of
       JNull \<Rightarrow> Inr []
     | JArr vs \<Rightarrow> if length vs \<le> 512 then Inr vs else Inl ''invalid_configuration''
     | _ \<Rightarrow> Inl ''invalid_configuration'')"

definition cfg_scope :: "string option \<Rightarrow> string \<Rightarrow> string + string" where
  "cfg_scope v fallback =
     (let s = (case v of Some s \<Rightarrow> s | None \<Rightarrow> fallback)
      in if s = ''user'' then Inr ''--user'' else if s = ''system'' then Inr ''--system''
         else Inl ''invalid_service_scope'')"

definition probe_report ::
    "string \<Rightarrow> string \<Rightarrow> string \<Rightarrow> string \<Rightarrow> urgency \<Rightarrow> string list \<Rightarrow> string + finding" where
  "probe_report key title explanation details urgency actions =
     (if \<not> valid_key key then Inl ''invalid_source_identity''
      else Inr \<lparr>f_key = key, f_title = title, f_explanation = explanation, f_details = details,
                f_urgency = urgency, f_lifecycle = Ongoing, f_actions = actions,
                f_diagnostic = Some (of_chars (take 4096 (chars details)))\<rparr>)"

definition probe_checked :: "probe_host \<Rightarrow> string list \<Rightarrow> nat \<Rightarrow> string + string" where
  "probe_checked h arguments timeout = (case ph_run h arguments timeout of
       Inl e \<Rightarrow> Inl e
     | Inr (code, text) \<Rightarrow> if code \<noteq> 0 then Inl ''probe_failed'' else Inr text)"

definition json_output :: "probe_host \<Rightarrow> string list \<Rightarrow> nat \<Rightarrow> string + json" where
  "json_output h arguments timeout = (case probe_checked h arguments timeout of
       Inl e \<Rightarrow> Inl e
     | Inr text \<Rightarrow> (case ph_parse h text of Some v \<Rightarrow> Inr v | None \<Rightarrow> Inl ''invalid_probe_snapshot''))"

text \<open>\<open>iter().map(f).collect::<Result<Vec<_>>>()\<close>, and a loop that pushes what it finds.\<close>

fun try_map :: "('a \<Rightarrow> string + 'b) \<Rightarrow> 'a list \<Rightarrow> string + 'b list" where
  "try_map f [] = Inr []"
| "try_map f (x # xs) = (case f x of
       Inl e \<Rightarrow> Inl e
     | Inr y \<Rightarrow> (case try_map f xs of Inl e \<Rightarrow> Inl e | Inr ys \<Rightarrow> Inr (y # ys)))"

definition try_filter :: "('a \<Rightarrow> string + 'b option) \<Rightarrow> 'a list \<Rightarrow> string + 'b list" where
  "try_filter f xs = (case try_map f xs of
       Inl e \<Rightarrow> Inl e | Inr ys \<Rightarrow> Inr (List.map_filter (\<lambda>y. y) ys))"

fun item_ids :: "json list \<Rightarrow> string list \<Rightarrow> string option" where
  "item_ids [] seen = None"
| "item_ids (it # rest) seen = (case cfg_string it ''id'' of
       Inl e \<Rightarrow> Some e
     | Inr i \<Rightarrow> if \<not> valid_key i \<or> i \<in> set seen then Some ''invalid_source_identity''
               else item_ids rest (i # seen))"

definition bad_interval :: "json \<Rightarrow> bool" where
  "bad_interval v \<longleftrightarrow> v \<noteq> JNull \<and> (case as_u64 v of None \<Rightarrow> True | Some n \<Rightarrow> 365 * 86400 < n)"

definition source_error :: "json \<Rightarrow> string \<Rightarrow> string option" where
  "source_error config source =
     (let cfg = json_index config source; enabled = json_index cfg ''enabled''
      in if cfg \<noteq> JNull \<and> \<not> is_object cfg then Some ''invalid_configuration''
         else if enabled \<noteq> JNull \<and> as_bool enabled = None then Some ''invalid_configuration''
         else (case (case cfg_items cfg of Inl e \<Rightarrow> Some e | Inr items \<Rightarrow> item_ids items []) of
                 Some e \<Rightarrow> Some e
               | None \<Rightarrow>
                   (if (case as_array (json_index cfg ''paths'') of Some ps \<Rightarrow> 512 < length ps | None \<Rightarrow> False)
                    then Some ''invalid_configuration''
                    else if bad_interval (json_index cfg ''intervalSeconds'') \<or> bad_interval (json_index config ''intervalSeconds'')
                    then Some ''invalid_interval'' else None)))"

definition validate_config :: "json \<Rightarrow> string option" where
  "validate_config config =
     (if \<not> is_object config then Some ''invalid_configuration''
      else (case List.map_filter (source_error config) sources of e # _ \<Rightarrow> Some e | [] \<Rightarrow> None))"

section \<open>systemd and backups\<close>

definition systemd_args :: "string \<Rightarrow> string list" where
  "systemd_args selected =
     [''systemctl'', selected, ''list-units'', ''--all'', ''--state=failed'', ''--no-pager'', ''--json=short'']"

definition failed_unit :: "string \<Rightarrow> json \<Rightarrow> string + finding" where
  "failed_unit selected unit = (case cfg_string unit ''unit'' of
       Inl e \<Rightarrow> Inl e
     | Inr name \<Rightarrow>
         (if \<not> valid_unit name then Inl ''invalid_service_identity''
          else probe_report (drop 2 selected @ ''/'' @ name) ''Failed system service''
                 ''A systemd unit is in the failed state.''
                 (''Unit: '' @ name @ [newline] @ ''State: failed'') Soon [''recheck'', ''open-logs'']))"

definition collect_systemd :: "probe_host \<Rightarrow> json \<Rightarrow> string + finding list" where
  "collect_systemd h cfg = (case cfg_scope (as_str (json_index cfg ''scope'')) ''system'' of
       Inl e \<Rightarrow> Inl e
     | Inr selected \<Rightarrow>
         (case json_output h (systemd_args selected) 30 of
            Inl e \<Rightarrow> Inl e
          | Inr (JArr units) \<Rightarrow>
              (if length units \<le> 512 then try_map (failed_unit selected) units else Inl ''invalid_service_snapshot'')
          | Inr _ \<Rightarrow> Inl ''invalid_service_snapshot''))"

definition iso_time :: "probe_host \<Rightarrow> rat \<Rightarrow> string + string" where
  "iso_time h t =
     (if t < 0 \<or> 9223372036854775808 < t then Inl ''invalid_timestamp''
      else (case ph_stamp h (min \<lfloor>t\<rfloor> 9223372036854775807) of
              Some s \<Rightarrow> Inr (concat (map (\<lambda>c. if c = CHR ''Z'' then ''+00:00'' else [c]) s))
            | None \<Rightarrow> Inl ''invalid_timestamp''))"

definition backup_keys :: "string list" where
  "backup_keys = [''LoadState'', ''ActiveState'', ''Result'', ''ExecMainStatus'', ''ExecMainExitTimestamp'']"

definition unit_properties :: "string \<Rightarrow> string \<rightharpoonup> string" where
  "unit_properties text = map_of (rev (List.map_filter (split_once (CHR ''='')) (str_lines text)))"

definition exit_time :: "string \<Rightarrow> string + rat" where
  "exit_time text =
     (let v = (case strip_pre ''@'' text of Some r \<Rightarrow> r | None \<Rightarrow> text)
      in if v = [] \<or> v = ''n/a'' then Inr 0
         else if \<not> list_all (\<lambda>b. is_ascii_digit b \<or> b = CHR ''.'') v then Inl ''invalid_backup_timestamp''
         else (case parse_decimal v of Some (Fin x) \<Rightarrow> Inr x | _ \<Rightarrow> Inl ''invalid_backup_timestamp''))"

definition backup_actions :: "string list" where
  "backup_actions = [''recheck'', ''open-logs'', ''retry'']"

definition backup_overdue :: "probe_host \<Rightarrow> string \<Rightarrow> string \<Rightarrow> string \<Rightarrow> rat \<Rightarrow> string + finding option" where
  "backup_overdue h unit label i moment =
     (case (if moment = 0 then Inr ''No recorded successful completion.''
            else (case iso_time h moment of Inl e \<Rightarrow> Inl e | Inr s \<Rightarrow> Inr (''Last successful completion: '' @ s))) of
        Inl e \<Rightarrow> Inl e
      | Inr detail \<Rightarrow> map_sum id Some
          (probe_report i (label @ '': backup overdue'')
             ''No sufficiently recent successful backup is recorded.''
             (''Unit: '' @ unit @ [newline] @ detail) Soon backup_actions))"

definition backup_report :: "probe_host \<Rightarrow> json \<Rightarrow> string \<Rightarrow> rat option \<Rightarrow> rat \<Rightarrow> string + finding option" where
  "backup_report h it text marker now =
     (case (cfg_string it ''unit'', cfg_string it ''label'', cfg_string it ''id'') of
        (Inr unit, Inr label, Inr i) \<Rightarrow>
          (let state = unit_properties text; prop = (\<lambda>k. case state k of Some s \<Rightarrow> s | None \<Rightarrow> [])
           in if list_ex (\<lambda>k. state k = None) backup_keys then Inl ''invalid_backup_snapshot''
              else if prop ''LoadState'' \<noteq> ''loaded'' then Inl ''backup_unit_unavailable''
              else if prop ''ActiveState'' = ''failed'' \<or> (prop ''Result'' \<noteq> ''success'' \<and> prop ''Result'' \<noteq> [])
                      \<or> prop ''ExecMainStatus'' \<noteq> ''0''
              then map_sum id Some
                     (probe_report i (label @ '': backup failed'')
                        ''The configured backup service did not finish successfully.''
                        (''Unit: '' @ unit @ [newline] @ ''Latest service outcome: failed'') Soon backup_actions)
              else
                (case (case as_str (json_index it ''successFile'') of
                         Some (_ # _) \<Rightarrow> Inr (case marker of Some m \<Rightarrow> m | None \<Rightarrow> 0)
                       | _ \<Rightarrow> exit_time (prop ''ExecMainExitTimestamp'')) of
                   Inl e \<Rightarrow> Inl e
                 | Inr moment \<Rightarrow>
                     (if moment < 0 \<or> now + 300 < moment then Inl ''invalid_backup_timestamp''
                      else (case cfg_number it ''maxAgeHours'' 24 of
                              Inl e \<Rightarrow> Inl e
                            | Inr max_age \<Rightarrow>
                                (if max_age = 0 then Inl ''invalid_configuration''
                                 else if moment = 0 \<or> max_age * 3600 < now - moment
                                 then backup_overdue h unit label i moment else Inr None)))))
      | (Inl e, _, _) \<Rightarrow> Inl e
      | (Inr _, Inl e, _) \<Rightarrow> Inl e
      | (Inr _, Inr _, Inl e) \<Rightarrow> Inl e)"

definition backup_args :: "string \<Rightarrow> string \<Rightarrow> string list" where
  "backup_args selected unit =
     [''systemctl'', selected, ''show'', ''--timestamp=unix'',
      ''--property=LoadState,ActiveState,Result,ExecMainStatus,ExecMainExitTimestamp'', ''--'', unit]"

definition collect_backup :: "probe_host \<Rightarrow> rat \<Rightarrow> json \<Rightarrow> string + finding option" where
  "collect_backup h now it = (case cfg_string it ''unit'' of
       Inl e \<Rightarrow> Inl e
     | Inr unit \<Rightarrow>
         (if \<not> valid_unit unit \<or> \<not> ends_with ''.service'' unit then Inl ''invalid_backup_unit''
          else (case cfg_scope (as_str (json_index it ''scope'')) ''user'' of
                  Inl e \<Rightarrow> Inl e
                | Inr selected \<Rightarrow>
                    (case probe_checked h (backup_args selected unit) 30 of
                       Inl e \<Rightarrow> Inl e
                     | Inr text \<Rightarrow>
                         (case (case as_str (json_index it ''successFile'') of
                                  Some (c # path) \<Rightarrow> ph_mtime h (c # path) | _ \<Rightarrow> Inr None) of
                            Inl e \<Rightarrow> Inl e
                          | Inr marker \<Rightarrow> backup_report h it text marker now)))))"

definition collect_backups :: "probe_host \<Rightarrow> json \<Rightarrow> rat \<Rightarrow> string + finding list" where
  "collect_backups h cfg now = (case cfg_items cfg of
       Inl e \<Rightarrow> Inl e | Inr items \<Rightarrow> try_filter (collect_backup h now) items)"

section \<open>Disks and the flake\<close>

definition used_percent :: "nat \<Rightarrow> nat \<Rightarrow> rat" where
  "used_percent whole free = (if 0 < whole then (1 - of_nat free / of_nat whole) * 100 else 0)"

definition disk_report ::
    "probe_host \<Rightarrow> string \<Rightarrow> nat \<times> nat \<times> nat \<times> nat \<Rightarrow> rat \<Rightarrow> rat \<Rightarrow> string + finding option" where
  "disk_report h path stat soon now =
     (case stat of (blocks, available, files, inodes) \<Rightarrow>
        if \<not> (0 < soon \<and> soon < now \<and> now \<le> 100) \<or> blocks = 0 \<or> blocks < available \<or> files < inodes
        then Inl ''invalid_disk_capacity''
        else
          (let percent = used_percent blocks available; inode = used_percent files inodes; severity = max percent inode
           in if severity < soon then Inr None
              else map_sum id Some
                (probe_report (take 16 (ph_sha h path)) ''Disk space pressure''
                   ''Free filesystem capacity is below the configured threshold.''
                   (''Filesystem: '' @ path @ [newline]
                      @ (if now \<le> percent then ''Available space below critical threshold.''
                         else if soon \<le> percent then ''Available space below warning threshold.''
                         else ''Available space within threshold.'')
                      @ (if now \<le> inode then newline # ''Available inodes below critical threshold.''
                         else if soon \<le> inode then newline # ''Available inodes below warning threshold.'' else []))
                   (if now \<le> severity then Now else Soon) [''recheck''])))"

definition collect_path :: "probe_host \<Rightarrow> rat \<Rightarrow> rat \<Rightarrow> json \<Rightarrow> string + finding option" where
  "collect_path h soon now v = (case v of
       JStr path \<Rightarrow>
         (if 4096 < length path \<or> nul \<in> set path then Inl ''invalid_configuration''
          else (case ph_statvfs h path of
                  None \<Rightarrow> Inl ''probe_unavailable'' | Some stat \<Rightarrow> disk_report h path stat soon now))
     | _ \<Rightarrow> Inl ''invalid_configuration'')"

definition disk_paths :: "json \<Rightarrow> string + json list" where
  "disk_paths cfg = (case json_index cfg ''paths'' of
       JNull \<Rightarrow> Inr [JStr ''/'']
     | JArr ps \<Rightarrow> if length ps \<le> 512 then Inr ps else Inl ''invalid_configuration''
     | _ \<Rightarrow> Inl ''invalid_configuration'')"

definition collect_disk :: "probe_host \<Rightarrow> json \<Rightarrow> string + finding list" where
  "collect_disk h cfg = (case cfg_number cfg ''soonPercent'' 85 of
       Inl e \<Rightarrow> Inl e
     | Inr soon \<Rightarrow> (case cfg_number cfg ''nowPercent'' 95 of
         Inl e \<Rightarrow> Inl e
       | Inr now \<Rightarrow>
           (if \<not> (0 < soon \<and> soon < now \<and> now \<le> 100) then Inl ''invalid_disk_thresholds''
            else (case disk_paths cfg of
                    Inl e \<Rightarrow> Inl e | Inr paths \<Rightarrow> try_filter (collect_path h soon now) paths))))"

definition join_path :: "string \<Rightarrow> string \<Rightarrow> string" where
  "join_path d n = (if d = [] \<or> ends_with ''/'' d then d @ n else d @ ''/'' @ n)"

definition flake_args :: "string \<Rightarrow> string list" where
  "flake_args path = [''nix'', ''flake'', ''check'', ''--no-build'', ''--no-write-lock-file'', ''--'', path]"

definition collect_flake :: "probe_host \<Rightarrow> json \<Rightarrow> string + finding list" where
  "collect_flake h cfg = (case cfg_string cfg ''path'' of
       Inl e \<Rightarrow> Inl e
     | Inr path \<Rightarrow>
         (if \<not> ph_is_file h (join_path path ''flake.nix'') then Inl ''flake_unavailable''
          else (case ph_run h (flake_args path) 900 of
                  Inl e \<Rightarrow> Inl e
                | Inr (code, _) \<Rightarrow>
                    (if code = 0 then Inr []
                     else map_sum id (\<lambda>f. [f])
                       (probe_report ''check'' ''Flake checks failed''
                          ''The configured flake failed its evaluation checks.''
                          (''Command: nix flake check --no-build --no-write-lock-file'' @ [newline]
                             @ ''Exit status: '' @ show_int code) Soon [''recheck''])))))"

section \<open>Certificates\<close>

definition month_names :: "string list" where
  "month_names = [''Jan'', ''Feb'', ''Mar'', ''Apr'', ''May'', ''Jun'', ''Jul'', ''Aug'', ''Sep'', ''Oct'', ''Nov'', ''Dec'']"

fun index_of :: "'a \<Rightarrow> 'a list \<Rightarrow> nat option" where
  "index_of x [] = None"
| "index_of x (y # ys) = (if x = y then Some 0 else map_option Suc (index_of x ys))"

definition expiry_of :: "probe_host \<Rightarrow> string list \<Rightarrow> int option" where
  "expiry_of h parts = (case parts of
       [m, d, t, y, z] \<Rightarrow>
         (if z \<noteq> ''GMT'' then None
          else (case (index_of m month_names, parse_i32 d, parse_i32 y, those (map parse_i32 (split_on (CHR '':'') t))) of
             (Some month, Some day, Some year, Some [hh, mm, ss]) \<Rightarrow>
               (if day < 1 \<or> 31 < day \<or> year < 1970 \<or> 9999 < year
                   \<or> hh < 0 \<or> 24 \<le> hh \<or> mm < 0 \<or> 60 \<le> mm \<or> ss < 0 \<or> 60 \<le> ss then None
                else (case ph_timegm h (year, int month, day) (hh, mm, ss) of
                        (moment, month', day') \<Rightarrow>
                          (if moment < 0 \<or> day' \<noteq> day \<or> month' \<noteq> int month then None else Some moment)))
           | _ \<Rightarrow> None))
     | _ \<Rightarrow> None)"

definition expiry :: "probe_host \<Rightarrow> string \<Rightarrow> string + rat" where
  "expiry h text = (case Option.bind (strip_pre ''notAfter='' (trim text)) (\<lambda>s. expiry_of h (split_whitespace s)) of
       Some t \<Rightarrow> Inr (of_int t) | None \<Rightarrow> Inl ''invalid_certificate'')"

definition certificate_finding :: "probe_host \<Rightarrow> json \<Rightarrow> rat \<Rightarrow> urgency \<Rightarrow> string + finding option" where
  "certificate_finding h it expires level =
     (case (cfg_string it ''id'', cfg_string it ''label'', iso_time h expires) of
        (Inr i, Inr label, Inr s) \<Rightarrow> map_sum id Some
          (probe_report i (label @ '': certificate expiring'')
             ''A configured certificate is nearing or past its expiration.''
             (''Certificate expires: '' @ s) level [''recheck''])
      | (Inl e, _, _) \<Rightarrow> Inl e
      | (Inr _, Inl e, _) \<Rightarrow> Inl e
      | (Inr _, Inr _, Inl e) \<Rightarrow> Inl e)"

definition certificate_args :: "string \<Rightarrow> string list" where
  "certificate_args path = [''openssl'', ''x509'', ''-in'', path, ''-noout'', ''-enddate'']"

definition collect_certificate :: "probe_host \<Rightarrow> rat \<Rightarrow> json \<Rightarrow> string + finding option" where
  "collect_certificate h now it = (case cfg_number it ''nowDays'' 7 of
       Inl e \<Rightarrow> Inl e
     | Inr critical \<Rightarrow> (case cfg_number it ''soonDays'' 30 of
         Inl e \<Rightarrow> Inl e
       | Inr warning \<Rightarrow>
           (if warning \<le> critical then Inl ''invalid_certificate_thresholds''
            else (case cfg_string it ''path'' of
              Inl e \<Rightarrow> Inl e
            | Inr path \<Rightarrow> (case probe_checked h (certificate_args path) 30 of
                Inl e \<Rightarrow> Inl e
              | Inr text \<Rightarrow> (case expiry h text of
                  Inl e \<Rightarrow> Inl e
                | Inr expires \<Rightarrow>
                    (let remaining = (expires - now) / 86400
                     in if remaining \<le> warning
                        then certificate_finding h it expires (if remaining \<le> critical then Now else Soon)
                        else Inr None)))))))"

definition collect_certificates :: "probe_host \<Rightarrow> json \<Rightarrow> rat \<Rightarrow> string + finding list" where
  "collect_certificates h cfg now = (case cfg_items cfg of
       Inl e \<Rightarrow> Inl e | Inr items \<Rightarrow> try_filter (collect_certificate h now) items)"

section \<open>Flake inputs\<close>

definition ref_char :: "char \<Rightarrow> bool" where
  "ref_char c \<longleftrightarrow> is_ascii_alphanumeric c \<or> c \<in> set ''_.-''"

definition valid_ref :: "string \<Rightarrow> bool" where
  "valid_ref s \<longleftrightarrow> list_all (\<lambda>p. p \<noteq> [] \<and> list_all ref_char p) (split_on (CHR ''/'') s)"

definition full_text :: "json \<Rightarrow> string option" where
  "full_text v = (case as_str v of Some (c # s) \<Rightarrow> Some (c # s) | _ \<Rightarrow> None)"

definition original_ref :: "json \<Rightarrow> string + string" where
  "original_ref v = (case as_str (json_index v ''type'') of
       Some kind \<Rightarrow>
         (if kind \<noteq> ''github'' \<and> kind \<noteq> ''gitlab'' then Inl ''unsupported_input_reference''
          else if full_text (json_index v ''dir'') \<noteq> None \<or> full_text (json_index v ''host'') \<noteq> None
          then Inl ''unsupported_input_reference''
          else (case (cfg_string v ''owner'', cfg_string v ''repo'') of
             (Inr owner, Inr repo) \<Rightarrow>
               (let pieces = [owner, repo] @ (case full_text (json_index v ''rev'') of
                        Some r \<Rightarrow> [r]
                      | None \<Rightarrow> (case full_text (json_index v ''ref'') of Some r \<Rightarrow> [r] | None \<Rightarrow> []))
                in if list_ex (\<lambda>p. \<not> valid_ref p \<or> list_ex (\<lambda>q. q = ''.'' \<or> q = ''..'') (split_on (CHR ''/'') p)) pieces
                   then Inl ''unsupported_input_reference'' else Inr (kind @ '':'' @ join_with ''/'' pieces))
           | (Inl e, _) \<Rightarrow> Inl e
           | (Inr _, Inl e) \<Rightarrow> Inl e))
     | None \<Rightarrow> Inl ''unsupported_input_reference'')"

definition pinned_revision :: "json \<Rightarrow> string + string" where
  "pinned_revision v = (case v of
       JStr s \<Rightarrow> if 7 \<le> length s \<and> length s \<le> 64 \<and> list_all is_ascii_hexdigit s then Inr s
                else Inl ''input_revision_unavailable''
     | _ \<Rightarrow> Inl ''input_revision_unavailable'')"

definition input_args :: "string \<Rightarrow> string list" where
  "input_args reference =
     [''nix'', ''flake'', ''metadata'', ''--json'', ''--no-write-lock-file'', ''--refresh'', ''--'', reference]"

text \<open>An input older than its limit: the pinned and the newest revision.\<close>

definition input_finding :: "probe_host \<Rightarrow> string \<Rightarrow> json \<Rightarrow> string + finding option" where
  "input_finding h name node = (case original_ref (json_index node ''original'') of
       Inl e \<Rightarrow> Inl e
     | Inr reference \<Rightarrow> (case json_output h (input_args reference) 180 of
         Inl e \<Rightarrow> Inl e
       | Inr metadata \<Rightarrow>
           (case pinned_revision (if json_index (json_index metadata ''locked'') ''rev'' = JNull then json_index metadata ''revision''
                           else json_index (json_index metadata ''locked'') ''rev'') of
              Inl e \<Rightarrow> Inl e
            | Inr latest \<Rightarrow> (case pinned_revision (json_index (json_index node ''locked'') ''rev'') of
                Inl e \<Rightarrow> Inl e
              | Inr held \<Rightarrow>
                  (if latest = held then Inr None
                   else map_sum id Some
                     (probe_report name (name @ '': critical input outdated'')
                        ''A configured critical input exceeds its age threshold and a newer upstream revision is available.''
                        (''Input: '' @ name @ [newline] @ ''Pinned revision: '' @ held @ [newline]
                           @ ''Available revision: '' @ latest) Eventually [''recheck'']))))))"

definition collect_input :: "probe_host \<Rightarrow> (string \<times> json) list \<Rightarrow> json \<Rightarrow> rat \<Rightarrow> json \<Rightarrow> string + finding option" where
  "collect_input h nodes trunk now it = (case cfg_string it ''id'' of
       Inl e \<Rightarrow> Inl e
     | Inr name \<Rightarrow> (case as_str (json_index (json_index trunk ''inputs'') name) of
         None \<Rightarrow> Inl ''unsupported_input_follow''
       | Some target \<Rightarrow> (case map_of nodes target of
           None \<Rightarrow> Inl ''invalid_lock''
         | Some node \<Rightarrow> (case as_f64 (json_index (json_index node ''locked'') ''lastModified'') of
             Some (Fin moment) \<Rightarrow>
               (if moment \<le> 0 \<or> now + 300 < moment then Inl ''input_age_unavailable''
                else (case cfg_number it ''maxAgeDays'' 30 of
                        Inl e \<Rightarrow> Inl e
                      | Inr age \<Rightarrow> (if age = 0 then Inl ''invalid_configuration''
                                   else if now - moment \<le> age * 86400 then Inr None
                                   else input_finding h name node)))
           | _ \<Rightarrow> Inl ''input_age_unavailable''))))"

definition collect_inputs :: "probe_host \<Rightarrow> json \<Rightarrow> rat \<Rightarrow> string + finding list" where
  "collect_inputs h cfg now = (case cfg_string cfg ''path'' of
       Inl e \<Rightarrow> Inl e
     | Inr path \<Rightarrow> (case ph_read h (join_path path ''flake.lock'') of
         None \<Rightarrow> Inl ''lock_unavailable''
       | Some bytes \<Rightarrow> (case ph_parse h bytes of
           None \<Rightarrow> Inl ''invalid_lock''
         | Some lock \<Rightarrow> (case as_object (json_index lock ''nodes'') of
             None \<Rightarrow> Inl ''invalid_lock''
           | Some nodes \<Rightarrow> (case cfg_string lock ''root'' of
               Inl e \<Rightarrow> Inl e
             | Inr r \<Rightarrow> (case map_of nodes r of
                 None \<Rightarrow> Inl ''invalid_lock''
               | Some trunk \<Rightarrow> (case cfg_items cfg of
                   Inl e \<Rightarrow> Inl e
                 | Inr items \<Rightarrow> try_filter (collect_input h nodes trunk now) items)))))))"

end
