(* ===== verification/Maintenance_Restart.thy ===== *)
theory Maintenance_Restart
  imports Maintenance_Probes
begin

text \<open>
  \<open>projects/maintenance/src/restart.rs\<close>: what a restart into the current generation would still
  change, part by part, and \<open>publishers::collect\<close>, which dispatches to every collector. A generation is
  read through \<open>tree_host\<close>: the target of a link, a bounded file and the entries of a directory, by path.
  A sorted set of the source is an association list with units. The ``and so on'' of a long list, the
  arrow of a transition and the capital of a line are those of the source.
\<close>

datatype 'a tree_read = Got 'a | Gone | Unreadable

datatype entry_kind = Link_to "string option" | Folder | Leaf | Kindless

record tree_host =
  th_real :: "string \<Rightarrow> string option"                         \<comment> \<open>\<open>canonicalize\<close>\<close>
  th_link :: "string \<Rightarrow> string tree_read"                        \<comment> \<open>\<open>read_link\<close>\<close>
  th_file :: "string \<Rightarrow> string tree_read"                        \<comment> \<open>\<open>read_bounded\<close>, 64 KiB\<close>
  th_dir :: "string \<Rightarrow> (string \<times> entry_kind) option list option" \<comment> \<open>\<open>read_dir\<close>; an entry may fail\<close>
  th_json :: "string \<Rightarrow> json option"
  th_upper :: "nat \<Rightarrow> nat list"                              \<comment> \<open>\<open>char::to_uppercase\<close>\<close>

section \<open>Store names\<close>

text \<open>Bytes are UTF-8 exactly when decoding them gives scalars that encode to them again.\<close>

definition valid_utf8 :: "string \<Rightarrow> bool" where
  "valid_utf8 s \<longleftrightarrow> list_all scalar (chars s) \<and> of_chars (chars s) = s"

definition root_link :: "tree_host \<Rightarrow> string \<Rightarrow> string \<Rightarrow> string + string option" where
  "root_link h dir name = (case th_link h (join_path dir name) of
       Got t \<Rightarrow> Inr (Some t) | Gone \<Rightarrow> Inr None | Unreadable \<Rightarrow> Inl ''probe_unavailable'')"

definition root_file :: "tree_host \<Rightarrow> string \<Rightarrow> string \<Rightarrow> string + string option" where
  "root_file h dir name = (case th_file h (join_path dir name) of
       Got s \<Rightarrow> if valid_utf8 s then Inr (Some s) else Inl ''invalid_probe_snapshot''
     | Gone \<Rightarrow> Inr None | Unreadable \<Rightarrow> Inl ''probe_unavailable'')"

text \<open>\<open>Path\<close> compares by components: repeated slashes and inner dots do not count.\<close>

definition path_components :: "string \<Rightarrow> string list" where
  "path_components p =
     (let cs = split_on (CHR ''/'') p
      in (if starts_with ''/'' p then [''/''] else if hd cs = ''.'' then [''.''] else [])
         @ filter (\<lambda>c. c \<noteq> [] \<and> c \<noteq> ''.'') cs)"

definition same_target :: "string option \<Rightarrow> string option \<Rightarrow> bool" where
  "same_target a b \<longleftrightarrow> map_option path_components a = map_option path_components b"

definition hash_char :: "char \<Rightarrow> bool" where
  "hash_char c \<longleftrightarrow> is_ascii_digit c \<or> is_ascii_lower c"

definition store_char :: "char \<Rightarrow> bool" where
  "store_char c \<longleftrightarrow> is_ascii_alphanumeric c \<or> c \<in> set ''+-._?=''"

definition component_name :: "string \<Rightarrow> string option" where
  "component_name text = (case drop 32 text of
       c # name \<Rightarrow> if c = CHR ''-'' \<and> list_all hash_char (take 32 text) \<and> name \<noteq> [] \<and> length name \<le> 211
                     \<and> list_all store_char name then Some name else None
     | [] \<Rightarrow> None)"

definition store_name :: "string \<Rightarrow> string option" where
  "store_name path = (case List.map_filter component_name (path_components path) of
       n # _ \<Rightarrow> Some n | [] \<Rightarrow> None)"

fun split_name :: "string \<Rightarrow> string \<times> string" where
  "split_name [] = ([], [])"
| "split_name (c # r) =
     (if c = CHR ''-'' \<and> r \<noteq> [] \<and> is_ascii_digit (hd r) then ([], r)
      else (c # fst (split_name r), snd (split_name r)))"

definition to_arrow :: string where
  "to_arrow = '' '' @ [CHR 0xE2, CHR 0x86, CHR 0x92] @ '' ''"

definition named_version :: "string \<times> string \<Rightarrow> string" where
  "named_version p = (if snd p = [] then fst p else fst p @ '' '' @ snd p)"

definition version_step :: "string \<Rightarrow> string \<Rightarrow> string" where
  "version_step old new =
     (let a = split_name old; b = split_name new
      in if fst a \<noteq> fst b then named_version a @ to_arrow @ named_version b
         else if snd a = snd b then named_version b @ '', rebuilt''
         else if snd a = [] \<or> snd b = [] then named_version b
         else fst b @ '' '' @ snd a @ to_arrow @ snd b)"

section \<open>The kernel and the packages of a tree\<close>

definition modules_path :: string where
  "modules_path = ''kernel-modules/lib/modules''"

definition release_char :: "char \<Rightarrow> bool" where
  "release_char c \<longleftrightarrow> is_ascii_alphanumeric c \<or> c \<in> set ''+-._~''"

definition release_of :: "tree_host \<Rightarrow> string \<Rightarrow> string option" where
  "release_of h dir = (case th_dir h (join_path dir modules_path) of
       None \<Rightarrow> None
     | Some entries \<Rightarrow>
         (case filter valid_utf8 (map fst (List.map_filter (\<lambda>e. e) (take 8 entries))) of
            [name] \<Rightarrow> if length name \<le> 64 \<and> name \<noteq> [] \<and> is_ascii_digit (hd name) \<and> list_all release_char name
                      then Some name else None
          | _ \<Rightarrow> None))"

definition kernel_version :: "tree_host \<Rightarrow> string \<Rightarrow> string option \<Rightarrow> string option" where
  "kernel_version h dir kern = (case release_of h dir of
       Some r \<Rightarrow> Some r
     | None \<Rightarrow> (case Option.bind kern store_name of
         None \<Rightarrow> None
       | Some name \<Rightarrow> if snd (split_name name) = [] then None else Some (snd (split_name name))))"

definition walk_limit :: nat where "walk_limit = 16384"

type_synonym walk = "(string \<times> unit) list \<times> (string \<times> nat) list \<times> nat"

text \<open>One entry of a directory whose subdirectories may still be entered \<open>remaining\<close> deep.\<close>

definition walk_entry :: "string \<Rightarrow> nat \<Rightarrow> (string \<times> entry_kind) option \<Rightarrow> walk \<Rightarrow> walk option" where
  "walk_entry dir remaining entry w = (case w of (found, pending, visited) \<Rightarrow>
     if Suc visited > walk_limit then None
     else (case entry of
         None \<Rightarrow> None
       | Some (name, kind) \<Rightarrow> (case kind of
           Kindless \<Rightarrow> None
         | Link_to None \<Rightarrow> None
         | Link_to (Some target) \<Rightarrow>
             Some (case store_name target of Some n \<Rightarrow> bt_insert n () found | None \<Rightarrow> found, pending, Suc visited)
         | Folder \<Rightarrow>
             Some (found, if 0 < remaining then (join_path dir name, remaining - 1) # pending else pending, Suc visited)
         | Leaf \<Rightarrow> Some (found, pending, Suc visited))))"

fun walk_entries :: "string \<Rightarrow> nat \<Rightarrow> (string \<times> entry_kind) option list \<Rightarrow> walk \<Rightarrow> walk option" where
  "walk_entries dir remaining [] w = Some w"
| "walk_entries dir remaining (e # es) w = (case walk_entry dir remaining e w of
     None \<Rightarrow> None | Some w' \<Rightarrow> walk_entries dir remaining es w')"

lemma walk_entry_visits:
  "walk_entry dir remaining e (f, p, v) = Some (f', p', v') \<Longrightarrow> v' = Suc v \<and> v' \<le> walk_limit"
  by (auto simp: walk_entry_def split: if_splits option.splits entry_kind.splits)

lemma walk_entries_visits:
  "walk_entries dir remaining es (f, p, v) = Some (f', p', v')
    \<Longrightarrow> v' = v + length es \<and> (es \<noteq> [] \<longrightarrow> v' \<le> walk_limit) \<and> (es = [] \<longrightarrow> p' = p)"
proof (induction es arbitrary: f p v)
  case (Cons e es)
  then obtain g q u where s: "walk_entry dir remaining e (f, p, v) = Some (g, q, u)"
    and r: "walk_entries dir remaining es (g, q, u) = Some (f', p', v')"
    by (auto split: option.splits)
  show ?case using Cons.IH [OF r] walk_entry_visits [OF s] by (cases es) (use r in auto)
qed auto

text \<open>The stack of directories: each one costs the entries it has, and an empty one is dropped.\<close>

function walk_tree :: "tree_host \<Rightarrow> walk \<Rightarrow> (string \<times> unit) list option" where
  "walk_tree h (found, [], visited) = Some found"
| "walk_tree h (found, (dir, remaining) # pending, visited) =
     (case th_dir h dir of
        None \<Rightarrow> None
      | Some entries \<Rightarrow> (case walk_entries dir remaining entries (found, pending, visited) of
          None \<Rightarrow> None
        | Some w \<Rightarrow> walk_tree h w))"
  by pat_completeness auto

termination
proof (relation "measures [\<lambda>(h, f, p, v). walk_limit - v, \<lambda>(h, f, p, v). length p]")
  fix h :: tree_host and found dir remaining pending visited entries w
  assume e: "th_dir h dir = Some entries"
    and r: "walk_entries dir remaining entries (found, pending, visited) = Some w"
  obtain f p v where w: "w = (f, p, v)" by (cases w)
  show "((h, w), (h, (found, (dir, remaining) # pending, visited)))
      \<in> measures [\<lambda>(h, f, p, v). walk_limit - v, \<lambda>(h, f, p, v). length p]"
    using walk_entries_visits [OF r [unfolded w]] w by (cases entries) auto
qed simp

definition packages :: "tree_host \<Rightarrow> string \<Rightarrow> nat \<Rightarrow> string list option" where
  "packages h dir depth = map_option (map fst) (walk_tree h ([], [(dir, depth)], 0))"

section \<open>Versions\<close>

definition strip_end :: "string \<Rightarrow> string \<Rightarrow> string option" where
  "strip_end tail s = map_option rev (strip_pre (rev tail) (rev s))"

definition packing :: "string list" where
  "packing = [''-zstd'', ''-xz'', ''-firmware'']"

definition shorter_version :: "string list \<Rightarrow> string \<Rightarrow> string option" where
  "shorter_version kern v = (case List.map_filter (\<lambda>x. strip_end x v) (packing @ kern) of
       s # _ \<Rightarrow> if s = [] then None else Some s | [] \<Rightarrow> None)"

text \<open>Every suffix the probe passes begins with a dash (\<open>kernel_suffixes\<close>), so the loop of the source
  shortens the version each time round; an empty suffix, which would not, counts as the end.\<close>

function own_version :: "string list \<Rightarrow> string \<Rightarrow> string" where
  "own_version kern v = (case shorter_version kern v of
       Some s \<Rightarrow> if length s < length v then own_version kern s else v
     | None \<Rightarrow> v)"
  by pat_completeness auto

termination by (relation "measure (\<lambda>(k, v). length v)") auto

declare own_version.simps [simp del]

type_synonym versions = "(string \<times> string list \<times> string list) list"

definition note_removed :: "string list \<Rightarrow> string \<Rightarrow> versions \<Rightarrow> versions" where
  "note_removed kern name m =
     (let p = split_name name; entry = (case map_of m (fst p) of Some e \<Rightarrow> e | None \<Rightarrow> ([], []))
      in bt_insert (fst p) (fst entry @ [own_version kern (snd p)], snd entry) m)"

definition note_added :: "string list \<Rightarrow> string \<Rightarrow> versions \<Rightarrow> versions" where
  "note_added kern name m =
     (let p = split_name name; entry = (case map_of m (fst p) of Some e \<Rightarrow> e | None \<Rightarrow> ([], []))
      in bt_insert (fst p) (fst entry, snd entry @ [own_version kern (snd p)]) m)"

definition package_line :: "string \<times> string list \<times> string list \<Rightarrow> string option" where
  "package_line row = (case row of (package, removed, added) \<Rightarrow> (case (removed, added) of
       (old # _, new # _) \<Rightarrow> if old = new then None else Some (package @ '' '' @ old @ to_arrow @ new)
     | ([], new # _) \<Rightarrow> Some (package @ '' '' @ new @ '' added'')
     | (_ # _, []) \<Rightarrow> Some (package @ '' removed'')
     | ([], []) \<Rightarrow> None))"

definition package_changes :: "string list \<Rightarrow> string list \<Rightarrow> string list \<times> string list \<Rightarrow> string list" where
  "package_changes old new kern =
     List.map_filter package_line
       (fold (note_added (snd kern)) (filter (\<lambda>n. n \<notin> set old) new)
         (fold (note_removed (fst kern)) (filter (\<lambda>n. n \<notin> set new) old) []))"

definition list_limit :: nat where "list_limit = 4"

definition bounded_list :: "string list \<Rightarrow> string" where
  "bounded_list lines =
     join_with '', '' (take list_limit lines)
     @ (if list_limit < length lines then '', and '' @ nat_digits (length lines - list_limit) @ '' more'' else [])"

section \<open>The kernel command line\<close>

definition token_key :: "string \<Rightarrow> string" where
  "token_key token = of_chars (take 40 (chars (hd (split_on (CHR ''='') token))))"

type_synonym keyed = "(string \<times> (string \<times> unit) list) list"

definition key_token :: "string \<Rightarrow> keyed \<Rightarrow> keyed" where
  "key_token token m =
     bt_insert (token_key token)
       (bt_insert token () (case map_of m (token_key token) of Some ts \<Rightarrow> ts | None \<Rightarrow> [])) m"

definition keyed_tokens :: "string \<Rightarrow> keyed" where
  "keyed_tokens text = fold key_token (split_whitespace text) []"

definition parameter_line :: "keyed \<Rightarrow> keyed \<Rightarrow> string \<Rightarrow> string option" where
  "parameter_line old new key = (case (map_of old key, map_of new key) of
       (None, Some _) \<Rightarrow> Some (key @ '' added'')
     | (Some _, None) \<Rightarrow> Some (key @ '' removed'')
     | (Some a, Some b) \<Rightarrow> if a = b then None else Some (key @ '' changed'')
     | (None, None) \<Rightarrow> None)"

definition parameters :: "string \<Rightarrow> string \<Rightarrow> string list" where
  "parameters old new =
     (let a = keyed_tokens old; b = keyed_tokens new
      in List.map_filter (parameter_line a b)
           (map fst (fold (\<lambda>k. bt_insert k ()) (map fst a @ map fst b) [])))"

section \<open>Declared inhibitors and the bus\<close>

fun string_members :: "(string \<times> json) list \<Rightarrow> string + (string \<times> string) list" where
  "string_members [] = Inr []"
| "string_members ((k, v) # r) = (case as_str v of
       None \<Rightarrow> Inl ''invalid_probe_snapshot''
     | Some s \<Rightarrow> (case string_members r of Inl e \<Rightarrow> Inl e | Inr m \<Rightarrow> Inr ((k, s) # m)))"

definition inhibitors :: "tree_host \<Rightarrow> string \<Rightarrow> string + (string \<times> string) list" where
  "inhibitors h dir = (case root_file h dir ''switch-inhibitors'' of
       Inl e \<Rightarrow> Inl e
     | Inr None \<Rightarrow> Inr []
     | Inr (Some text) \<Rightarrow> (case Option.bind (th_json h text) as_object of
         None \<Rightarrow> Inl ''invalid_probe_snapshot''
       | Some members \<Rightarrow> (case string_members members of
           Inl e \<Rightarrow> Inl e
         | Inr m \<Rightarrow> Inr (fold (\<lambda>(k, v). bt_insert k v) m []))))"

definition bus_name :: "tree_host \<Rightarrow> string \<Rightarrow> (string \<times> string) list \<Rightarrow> string + string option" where
  "bus_name h dir declared =
     map_sum id (\<lambda>t. Option.bind t store_name)
       (root_link h dir (if map_of declared ''dbus-implementation'' = Some ''broker''
                         then ''sw/bin/dbus-broker'' else ''sw/bin/dbus-daemon''))"

section \<open>The changes, most consequential first\<close>

text \<open>What the parts share: both generations, the links to their kernels and what those say.\<close>

record boot =
  bo_old :: string
  bo_new :: string
  bo_kernels :: "string option \<times> string option"

definition root_differs :: "tree_host \<Rightarrow> boot \<Rightarrow> string \<Rightarrow> string + (string option \<times> string option) option" where
  "root_differs h b name = (case root_link h (bo_old b) name of
       Inl e \<Rightarrow> Inl e
     | Inr old \<Rightarrow> (case root_link h (bo_new b) name of
         Inl e \<Rightarrow> Inl e
       | Inr new \<Rightarrow> Inr (if same_target old new then None else Some (old, new))))"

definition kernel_replaced :: "boot \<Rightarrow> bool" where
  "kernel_replaced b \<longleftrightarrow> \<not> same_target (fst (bo_kernels b)) (snd (bo_kernels b))"

definition old_release :: "tree_host \<Rightarrow> boot \<Rightarrow> string option" where
  "old_release h b = kernel_version h (bo_old b) (fst (bo_kernels b))"

definition new_release :: "tree_host \<Rightarrow> boot \<Rightarrow> string option" where
  "new_release h b = kernel_version h (bo_new b) (snd (bo_kernels b))"

definition kernel_change :: "tree_host \<Rightarrow> boot \<Rightarrow> string + string list" where
  "kernel_change h b = Inr (if \<not> kernel_replaced b then [] else
     [case (old_release h b, new_release h b) of
        (Some old, Some new) \<Rightarrow> if old = new then ''Linux '' @ new @ '', rebuilt'' else ''Linux '' @ old @ to_arrow @ new
      | _ \<Rightarrow> ''the Linux kernel''])"

definition kernel_suffixes :: "string option \<Rightarrow> string option \<Rightarrow> string list" where
  "kernel_suffixes release own =
     map (\<lambda>v. CHR ''-'' # v)
       ((case release of Some r \<Rightarrow> [r] | None \<Rightarrow> [])
        @ (case map_option (\<lambda>n. snd (split_name n)) own of Some (c # v) \<Rightarrow> [c # v] | _ \<Rightarrow> []))"

definition boot_suffixes :: "tree_host \<Rightarrow> boot \<Rightarrow> string list \<times> string list" where
  "boot_suffixes h b =
     (kernel_suffixes (old_release h b) (Option.bind (fst (bo_kernels b)) store_name),
      kernel_suffixes (new_release h b) (Option.bind (snd (bo_kernels b)) store_name))"

definition module_packages :: "tree_host \<Rightarrow> string \<Rightarrow> string option \<Rightarrow> string list option" where
  "module_packages h dir kern =
     map_option (filter (\<lambda>n. case Option.bind kern store_name of None \<Rightarrow> True | Some own \<Rightarrow> \<not> starts_with own n))
       (packages h (join_path dir modules_path) 4)"

definition module_change :: "tree_host \<Rightarrow> boot \<Rightarrow> string + string list" where
  "module_change h b = (case root_differs h b ''kernel-modules'' of
       Inl e \<Rightarrow> Inl e
     | Inr None \<Rightarrow> Inr []
     | Inr (Some _) \<Rightarrow>
         Inr (case (module_packages h (bo_old b) (fst (bo_kernels b)), module_packages h (bo_new b) (snd (bo_kernels b))) of
            (Some old, Some new) \<Rightarrow>
              (let lines = package_changes old new (boot_suffixes h b)
               in if lines \<noteq> [] then [''kernel modules ('' @ bounded_list lines @ '')'']
                  else if \<not> kernel_replaced b then [''kernel modules, rebuilt''] else [])
          | _ \<Rightarrow> if \<not> kernel_replaced b then [''kernel modules''] else []))"

definition initrd_change :: "tree_host \<Rightarrow> boot \<Rightarrow> string + string list" where
  "initrd_change h b =
     (if kernel_replaced b then Inr []
      else map_sum id (\<lambda>d. if d = None then [] else [''early boot image (initrd)'']) (root_differs h b ''initrd''))"

definition parameter_change :: "tree_host \<Rightarrow> boot \<Rightarrow> string + string list" where
  "parameter_change h b = (case root_file h (bo_old b) ''kernel-params'' of
       Inl e \<Rightarrow> Inl e
     | Inr old \<Rightarrow> (case root_file h (bo_new b) ''kernel-params'' of
         Inl e \<Rightarrow> Inl e
       | Inr new \<Rightarrow>
           (let lines = parameters (case old of Some s \<Rightarrow> s | None \<Rightarrow> []) (case new of Some s \<Rightarrow> s | None \<Rightarrow> [])
            in Inr (if lines = [] then [] else [''kernel command line ('' @ bounded_list lines @ '')'']))))"

definition firmware_change :: "tree_host \<Rightarrow> boot \<Rightarrow> string + string list" where
  "firmware_change h b = (case root_differs h b ''firmware'' of
       Inl e \<Rightarrow> Inl e
     | Inr None \<Rightarrow> Inr []
     | Inr (Some _) \<Rightarrow>
         (let lines = (case (packages h (join_path (bo_old b) ''firmware'') 2, packages h (join_path (bo_new b) ''firmware'') 2) of
                (Some old, Some new) \<Rightarrow> package_changes old new (boot_suffixes h b) | _ \<Rightarrow> [])
          in Inr [if lines = [] then ''device firmware'' else ''device firmware ('' @ bounded_list lines @ '')'']))"

definition login_change :: "tree_host \<Rightarrow> boot \<Rightarrow> string + string list" where
  "login_change h b =
     map_sum id (\<lambda>d. case d of
         Some (Some old, Some new) \<Rightarrow> (case (store_name old, store_name new) of
             (Some m, Some n) \<Rightarrow> [''login manager ('' @ version_step m n @ '')''] | _ \<Rightarrow> [])
       | _ \<Rightarrow> [])
       (root_differs h b ''systemd'')"

definition short_text :: "string \<Rightarrow> string" where
  "short_text s = of_chars (take 60 (chars s))"

definition declared_changes :: "(string \<times> string) list \<Rightarrow> (string \<times> string) list \<Rightarrow> string list" where
  "declared_changes old new =
     List.map_filter (\<lambda>(k, a). case map_of new k of
         Some b \<Rightarrow> if b = a then None
                   else Some (short_text k @ '' ('' @ short_text a @ to_arrow @ short_text b @ '')'')
       | None \<Rightarrow> None) old"

definition bus_change :: "tree_host \<Rightarrow> boot \<Rightarrow> string + string list" where
  "bus_change h b = (case inhibitors h (bo_old b) of
       Inl e \<Rightarrow> Inl e
     | Inr old_declared \<Rightarrow> (case inhibitors h (bo_new b) of
         Inl e \<Rightarrow> Inl e
       | Inr new_declared \<Rightarrow> (case bus_name h (bo_old b) old_declared of
           Inl e \<Rightarrow> Inl e
         | Inr old \<Rightarrow> (case bus_name h (bo_new b) new_declared of
             Inl e \<Rightarrow> Inl e
           | Inr new \<Rightarrow>
               Inr ((case (old, new) of
                       (Some m, Some n) \<Rightarrow> if m \<noteq> n then [''message bus ('' @ version_step m n @ '')''] else []
                     | _ \<Rightarrow> [])
                    @ declared_changes old_declared new_declared)))))"

text \<open>The parts in the order of the source; the first that cannot be read fails the probe.\<close>

definition boot_parts :: "(tree_host \<Rightarrow> boot \<Rightarrow> string + string list) list" where
  "boot_parts = [kernel_change, module_change, initrd_change, parameter_change, firmware_change,
     login_change, bus_change]"

definition restart_changes :: "tree_host \<Rightarrow> string \<Rightarrow> string \<Rightarrow> string + string list" where
  "restart_changes h booted active = (case (th_real h booted, th_real h active) of
       (Some old, Some new) \<Rightarrow>
         (if path_components old = path_components new then Inr []
          else (case root_link h old ''kernel'' of
             Inl e \<Rightarrow> Inl e
           | Inr k \<Rightarrow> (case root_link h new ''kernel'' of
               Inl e \<Rightarrow> Inl e
             | Inr k' \<Rightarrow> map_sum id concat
                 (try_map (\<lambda>part. part h \<lparr>bo_old = old, bo_new = new, bo_kernels = (k, k')\<rparr>) boot_parts))))
     | _ \<Rightarrow> Inl ''probe_unavailable'')"

definition capitalized :: "tree_host \<Rightarrow> string \<Rightarrow> string" where
  "capitalized h s = (case chars s of c # r \<Rightarrow> of_chars (th_upper h c @ r) | [] \<Rightarrow> [])"

definition restart_key :: string where "restart_key = ''booted-system''"

definition restart_title :: "string \<Rightarrow> nat \<Rightarrow> string" where
  "restart_title first n =
     ''Restart to apply '' @ first
     @ (if n = 0 then [] else if n = 1 then '' and 1 more change''
        else '' and '' @ nat_digits n @ '' more changes'')"

definition restart_report :: "tree_host \<Rightarrow> string \<Rightarrow> string \<Rightarrow> string + finding option" where
  "restart_report h booted active = (case restart_changes h booted active of
       Inl e \<Rightarrow> Inl e
     | Inr [] \<Rightarrow> Inr None
     | Inr (first # rest) \<Rightarrow> map_sum id Some
         (probe_report restart_key (restart_title first (length rest))
            (''The running system still uses these parts of the generation it booted. Switching cannot ''
             @ ''replace them; restarting into the current generation does.'')
            (join_with [newline] (map (capitalized h) (first # rest)))
            Eventually [''open-power'', ''recheck'']))"

section \<open>Collecting a source\<close>

definition collect_restart :: "tree_host \<Rightarrow> string + finding list" where
  "collect_restart h = (case restart_report h ''/run/booted-system'' ''/run/current-system'' of
       Inl e \<Rightarrow> Inl e | Inr None \<Rightarrow> Inr [] | Inr (Some f) \<Rightarrow> Inr [f])"

definition collect_source :: "probe_host \<Rightarrow> tree_host \<Rightarrow> json \<Rightarrow> string \<Rightarrow> rat \<Rightarrow> string + finding list" where
  "collect_source h t config source now =
     (let cfg = json_index config source
      in if json_index cfg ''enabled'' = JBool False then Inr []
         else if source = ''systemd'' then collect_systemd h cfg
         else if source = ''backups'' then collect_backups h cfg now
         else if source = ''disk'' then collect_disk h cfg
         else if source = ''flake'' then collect_flake h cfg
         else if source = ''certificates'' then collect_certificates h cfg now
         else if source = ''inputs'' then collect_inputs h cfg now
         else if source = ''restart'' then collect_restart t
         else Inl ''unknown_source'')"

end
