(* ===== verification/Probe_Theorems.thy ===== *)
theory Probe_Theorems
  imports Maintenance_Restart Qml_Value_Theorems
begin

text \<open>
  What the collectors promise the inbox: findings it accepts, keys taken from the validated
  configuration, silence only on evidence, the dates openssl prints, and the two places where the
  source does not do what it means to: unit names with a backslash and quoted kernel parameters.
\<close>

section \<open>What a collector returns\<close>

lemma length_of_chars: "length (of_chars cs) \<le> 4 * length cs"
  by (induction cs) (simp_all add: of_chars_def utf8_encode_def utf8_char_def)

lemma probe_reportD:
  "probe_report k t e d u acts = Inr f \<Longrightarrow> f_key f = k \<and> valid_key k \<and> f_actions f = acts
    \<and> (\<exists>s. f_diagnostic f = Some s \<and> length s \<le> 16384)"
  using length_of_chars [of "take 4096 (chars d)"]
  by (auto simp: probe_report_def split: if_splits)

definition actions_ok :: "string \<Rightarrow> string list \<Rightarrow> bool" where
  "actions_ok source acts \<longleftrightarrow> length acts \<le> length (source_actions source)
     \<and> list_all (has_key (source_actions source)) acts \<and> distinct acts"

lemma probe_report_accepted:
  "probe_report k t e d u acts = Inr f \<Longrightarrow> actions_ok source acts
    \<Longrightarrow> finding_rejected (source_actions source) f = None"
  by (drule probe_reportD) (auto simp: finding_rejected_def actions_ok_def list_all_iff)

lemma actions_registered:
  "actions_ok ''systemd'' [''recheck'', ''open-logs'']"
  "actions_ok ''backups'' backup_actions"
  "actions_ok ''disk'' [''recheck'']" "actions_ok ''flake'' [''recheck'']"
  "actions_ok ''certificates'' [''recheck'']" "actions_ok ''inputs'' [''recheck'']"
  "actions_ok ''restart'' [''open-power'', ''recheck'']"
  by code_simp+

definition reported :: "string list \<Rightarrow> finding \<Rightarrow> bool" where
  "reported acts f \<longleftrightarrow> (\<exists>k t e d u. probe_report k t e d u acts = Inr f)"

lemma reportedI: "probe_report k t e d u acts = Inr f \<Longrightarrow> reported acts f"
  unfolding reported_def by blast

lemma map_sum_Inr: "map_sum f g x = Inr y \<longleftrightarrow> (\<exists>z. x = Inr z \<and> y = g z)"
  by (cases x) auto

lemma try_map_Inr: "try_map f xs = Inr ys \<longleftrightarrow> list_all2 (\<lambda>x y. f x = Inr y) xs ys"
proof (induction xs arbitrary: ys)
  case (Cons x xs)
  show ?case
    by (cases "f x"; cases "try_map f xs") (auto simp: list_all2_Cons1 Cons.IH [symmetric])
qed auto

lemma try_filter_Inr:
  "try_filter f xs = Inr zs \<longleftrightarrow> (\<exists>ys. list_all2 (\<lambda>x y. f x = Inr y) xs ys \<and> zs = List.map_filter (\<lambda>y. y) ys)"
  by (auto simp: try_filter_def try_map_Inr [symmetric] split: sum.splits)

lemma list_all2_back: "list_all2 P xs ys \<Longrightarrow> y \<in> set ys \<Longrightarrow> \<exists>x \<in> set xs. P x y"
  by (induction rule: list_all2_induct) auto

lemma list_all2_forth: "list_all2 P xs ys \<Longrightarrow> x \<in> set xs \<Longrightarrow> \<exists>y \<in> set ys. P x y"
  by (induction rule: list_all2_induct) auto

lemma try_map_in: "try_map f xs = Inr ys \<Longrightarrow> y \<in> set ys \<Longrightarrow> \<exists>x \<in> set xs. f x = Inr y"
  unfolding try_map_Inr by (rule list_all2_back)

lemma set_map_filter_id: "z \<in> set (List.map_filter (\<lambda>y. y) ys) \<longleftrightarrow> Some z \<in> set ys"
  by (induction ys) (auto simp: map_filter_simps split: option.splits)

lemma try_filter_in:
  assumes "try_filter f xs = Inr zs"
  shows "z \<in> set zs \<Longrightarrow> \<exists>x \<in> set xs. f x = Inr (Some z)"
    and "x \<in> set xs \<Longrightarrow> \<exists>y. f x = Inr y \<and> set_option y \<subseteq> set zs"
proof -
  obtain ys where ys: "list_all2 (\<lambda>x y. f x = Inr y) xs ys" and zs: "zs = List.map_filter (\<lambda>y. y) ys"
    using assms by (auto simp: try_filter_Inr)
  show "\<exists>x \<in> set xs. f x = Inr (Some z)" if "z \<in> set zs"
  proof -
    have "Some z \<in> set ys" using that by (simp add: zs set_map_filter_id)
    then show ?thesis by (rule list_all2_back [OF ys])
  qed
  show "\<exists>y. f x = Inr y \<and> set_option y \<subseteq> set zs" if "x \<in> set xs"
  proof -
    obtain y where "y \<in> set ys" "f x = Inr y"
      using list_all2_forth [OF ys] \<open>x \<in> set xs\<close> by blast
    then show ?thesis by (intro exI [of _ y]) (auto simp: zs set_map_filter_id)
  qed
qed

text \<open>The findings of each collector come from \<open>probe_report\<close>.\<close>

lemma collect_systemd_in:
  "collect_systemd h cfg = Inr fs \<Longrightarrow> f \<in> set fs
    \<Longrightarrow> reported [''recheck'', ''open-logs''] f"
  by (auto intro: reportedI simp: collect_systemd_def failed_unit_def dest!: try_map_in
      split: sum.splits json.splits if_splits)

lemma backup_report_in:
  "backup_report h it text marker now = Inr (Some f) \<Longrightarrow>
    cfg_string it ''id'' = Inr (f_key f) \<and> reported backup_actions f"
  by (auto intro: reportedI dest: probe_reportD simp: backup_report_def backup_overdue_def Let_def map_sum_Inr split: sum.splits if_splits)

lemma collect_backup_in:
  "collect_backup h now it = Inr (Some f) \<Longrightarrow>
    cfg_string it ''id'' = Inr (f_key f) \<and> reported backup_actions f"
  by (auto simp: collect_backup_def dest: backup_report_in split: sum.splits if_splits)

lemma disk_report_in:
  "disk_report h path stat soon now = Inr (Some f) \<Longrightarrow> reported [''recheck''] f"
  by (auto intro: reportedI simp: disk_report_def Let_def map_sum_Inr split: prod.splits if_splits)

lemma collect_path_in:
  "collect_path h soon now v = Inr (Some f) \<Longrightarrow> reported [''recheck''] f"
  by (auto simp: collect_path_def dest: disk_report_in split: json.splits if_splits option.splits)

lemma collect_certificate_in:
  "collect_certificate h now it = Inr (Some f) \<Longrightarrow>
    cfg_string it ''id'' = Inr (f_key f) \<and> reported [''recheck''] f"
  by (auto intro: reportedI dest: probe_reportD simp: collect_certificate_def certificate_finding_def Let_def map_sum_Inr
      split: sum.splits if_splits)

lemma collect_input_in:
  "collect_input h nodes trunk now it = Inr (Some f) \<Longrightarrow>
    cfg_string it ''id'' = Inr (f_key f) \<and> reported [''recheck''] f"
  by (auto intro: reportedI dest: probe_reportD simp: collect_input_def input_finding_def map_sum_Inr
      split: sum.splits if_splits option.splits f64.splits)

lemma collect_disk_in:
  "collect_disk h cfg = Inr fs \<Longrightarrow> f \<in> set fs \<Longrightarrow> reported [''recheck''] f"
  by (auto simp: collect_disk_def dest!: try_filter_in(1) collect_path_in split: sum.splits if_splits)

lemma collect_flake_in:
  "collect_flake h cfg = Inr fs \<Longrightarrow> f \<in> set fs \<Longrightarrow> reported [''recheck''] f"
  by (auto simp: collect_flake_def map_sum_Inr split: sum.splits if_splits) (erule reportedI)

lemma collect_restart_in:
  "collect_restart t = Inr fs \<Longrightarrow> f \<in> set fs
    \<Longrightarrow> reported [''open-power'', ''recheck''] f"
  by (auto intro: reportedI simp: collect_restart_def restart_report_def map_sum_Inr
      split: sum.splits option.splits list.splits)

text \<open>The items of a source whose keys are configured.\<close>

lemma collect_inputs_filter:
  "collect_inputs h cfg now = Inr fs \<Longrightarrow> \<exists>nodes trunk items. cfg_items cfg = Inr items
    \<and> try_filter (collect_input h nodes trunk now) items = Inr fs"
  by (auto simp: collect_inputs_def split: sum.splits option.splits)

lemma collect_backups_filter:
  "collect_backups h cfg now = Inr fs \<Longrightarrow> \<exists>items. cfg_items cfg = Inr items
    \<and> try_filter (collect_backup h now) items = Inr fs"
  by (auto simp: collect_backups_def split: sum.splits)

lemma collect_certificates_filter:
  "collect_certificates h cfg now = Inr fs \<Longrightarrow> \<exists>items. cfg_items cfg = Inr items
    \<and> try_filter (collect_certificate h now) items = Inr fs"
  by (auto simp: collect_certificates_def split: sum.splits)

lemma backups_in:
  "collect_backups h cfg now = Inr fs \<Longrightarrow> f \<in> set fs \<Longrightarrow> reported backup_actions f"
  by (auto dest!: collect_backups_filter try_filter_in(1) collect_backup_in)

lemma certificates_in:
  "collect_certificates h cfg now = Inr fs \<Longrightarrow> f \<in> set fs \<Longrightarrow> reported [''recheck''] f"
  by (auto dest!: collect_certificates_filter try_filter_in(1) collect_certificate_in)

lemma inputs_in:
  "collect_inputs h cfg now = Inr fs \<Longrightarrow> f \<in> set fs \<Longrightarrow> reported [''recheck''] f"
  by (auto dest!: collect_inputs_filter try_filter_in(1) collect_input_in)

lemma source_cases:
  assumes "collect_source h t config source now = Inr fs" "fs \<noteq> []"
  shows "source = ''systemd'' \<and> collect_systemd h (json_index config source) = Inr fs
    \<or> source = ''backups'' \<and> collect_backups h (json_index config source) now = Inr fs
    \<or> source = ''disk'' \<and> collect_disk h (json_index config source) = Inr fs
    \<or> source = ''flake'' \<and> collect_flake h (json_index config source) = Inr fs
    \<or> source = ''certificates'' \<and> collect_certificates h (json_index config source) now = Inr fs
    \<or> source = ''inputs'' \<and> collect_inputs h (json_index config source) now = Inr fs
    \<or> source = ''restart'' \<and> collect_restart t = Inr fs"
  using assms by (auto simp: collect_source_def Let_def split: if_splits)

text \<open>C30: The collectors and the inbox agree. A finding any collector returns - whatever systemd,
  nix, openssl, the file systems and the configuration say - passes the checks of the inbox: its key is
  well formed, its actions are distinct and registered for the source, and its diagnostic is within
  the limit, so no complete snapshot is refused as an invalid publisher's.\<close>

theorem collected_findings_accepted:
  assumes "collect_source h t config source now = Inr fs" "f \<in> set fs"
  shows "finding_rejected (source_actions source) f = None"
proof -
  have ne: "fs \<noteq> []" using assms(2) by auto
  have "\<exists>acts. actions_ok source acts \<and> reported acts f"
    using source_cases [OF assms(1) ne] assms(2)
    by (elim disjE) (auto intro: actions_registered dest: collect_systemd_in collect_disk_in
        collect_flake_in collect_restart_in backups_in certificates_in inputs_in)
  then show ?thesis by (auto simp: reported_def intro: probe_report_accepted)
qed

section \<open>Keys come from the configuration\<close>

lemma item_ids_None:
  "item_ids items seen = None \<Longrightarrow> list_all (\<lambda>it. \<exists>i. cfg_string it ''id'' = Inr i \<and> valid_key i) items
    \<and> distinct (map (\<lambda>it. cfg_string it ''id'') items)
    \<and> (\<forall>i \<in> set seen. Inr i \<notin> (\<lambda>it. cfg_string it ''id'') ` set items)"
  by (induction items seen rule: item_ids.induct) (force split: sum.splits if_splits)+

lemma validated_items:
  assumes "validate_config config = None" "source \<in> set sources"
  shows "\<exists>items. cfg_items (json_index config source) = Inr items \<and> item_ids items [] = None"
proof -
  have "source_error config source = None"
    using assms by (auto simp: validate_config_def map_filter_def filter_empty_conv split: if_splits list.splits)
  then show ?thesis by (auto simp: source_error_def Let_def split: if_splits sum.splits option.splits)
qed

lemma subseq_distinct: "subseq xs ys \<Longrightarrow> distinct ys \<Longrightarrow> distinct xs"
proof (induction rule: list_emb.induct)
  case (list_emb_Cons2 x y xs ys)
  then show ?case by (auto dest: list_emb_set)
qed auto

lemma try_filter_keys:
  assumes "try_filter g items = Inr fs"
    and "\<And>it f. g it = Inr (Some f) \<Longrightarrow> cfg_string it ''id'' = Inr (f_key f)"
  shows "subseq (map (Inr \<circ> f_key) fs) (map (\<lambda>it. cfg_string it ''id'') items)"
proof -
  obtain ys where "list_all2 (\<lambda>x y. g x = Inr y) items ys" "fs = List.map_filter (\<lambda>y. y) ys"
    using assms(1) by (auto simp: try_filter_Inr)
  then show ?thesis
  proof (induction arbitrary: fs rule: list_all2_induct)
    case (Cons it items y ys)
    then show ?case using assms(2) [of it] by (cases y) (auto simp: map_filter_simps)
  qed (simp add: map_filter_simps)
qed

text \<open>The keys of a snapshot are the configured ones. Under a configuration that passes
  validation, a complete snapshot of the backups, certificates or inputs source has at most one
  finding per configured item, under the item's own key and in the order of the configuration; so its
  keys are distinct and the check cannot fail on a duplicate.\<close>

theorem snapshot_keys_configured:
  assumes "validate_config config = None" "source \<in> {''backups'', ''certificates'', ''inputs''}"
    and "collect_source h t config source now = Inr fs"
  shows "distinct (map f_key fs)
    \<and> (\<exists>items. cfg_items (json_index config source) = Inr items
        \<and> subseq (map (Inr \<circ> f_key) fs) (map (\<lambda>it. cfg_string it ''id'') items))"
proof -
  have "source \<in> set sources" using assms(2) by (auto simp: sources_def)
  then obtain items where items: "cfg_items (json_index config source) = Inr items" "item_ids items [] = None"
    using validated_items [OF assms(1)] by blast
  have sub: "subseq (map (Inr \<circ> f_key) fs) (map (\<lambda>it. cfg_string it ''id'') items)"
  proof (cases "fs = []")
    case False
    consider "collect_backups h (json_index config source) now = Inr fs"
      | "collect_certificates h (json_index config source) now = Inr fs"
      | "collect_inputs h (json_index config source) now = Inr fs"
      using source_cases [OF assms(3) False] assms(2) by auto
    then show ?thesis
    proof cases
      case 1
      from collect_backups_filter [OF this] items(1) have "try_filter (collect_backup h now) items = Inr fs" by simp
      then show ?thesis by (rule try_filter_keys) (simp add: collect_backup_in)
    next
      case 2
      from collect_certificates_filter [OF this] items(1)
      have "try_filter (collect_certificate h now) items = Inr fs" by simp
      then show ?thesis by (rule try_filter_keys) (simp add: collect_certificate_in)
    next
      case 3
      from collect_inputs_filter [OF this] items(1) obtain nodes trunk
        where "try_filter (collect_input h nodes trunk now) items = Inr fs" by auto
      then show ?thesis by (rule try_filter_keys) (simp add: collect_input_in)
    qed
  qed simp
  have "distinct (map (Inr \<circ> f_key :: finding \<Rightarrow> string + string) fs)"
    using subseq_distinct [OF sub] item_ids_None [OF items(2)] by simp
  then have "distinct (map f_key fs)" by (simp add: distinct_map comp_inj_on_iff inj_on_def)
  then show ?thesis using items(1) sub by blast
qed

section \<open>Silence needs evidence\<close>

definition backup_evidence :: "probe_host \<Rightarrow> rat \<Rightarrow> json \<Rightarrow> bool" where
  "backup_evidence h now it \<longleftrightarrow> (\<exists>unit sel text recorded age.
     cfg_string it ''unit'' = Inr unit \<and> valid_unit unit \<and> ends_with ''.service'' unit
     \<and> ph_run h (backup_args sel unit) 30 = Inr (0, text)
     \<and> unit_properties text ''LoadState'' = Some ''loaded''
     \<and> unit_properties text ''ActiveState'' \<noteq> Some ''failed''
     \<and> unit_properties text ''Result'' \<in> {Some ''success'', Some []}
     \<and> unit_properties text ''ExecMainStatus'' = Some ''0''
     \<and> (if full_text (json_index it ''successFile'') = None
        then (\<exists>s. unit_properties text ''ExecMainExitTimestamp'' = Some s \<and> exit_time s = Inr recorded)
        else ph_mtime h (the (full_text (json_index it ''successFile''))) = Inr (Some recorded))
     \<and> cfg_number it ''maxAgeHours'' 24 = Inr age
     \<and> 0 < recorded \<and> recorded \<le> now + 300 \<and> now - recorded \<le> age * 3600)"

lemma backup_report_None:
  assumes "backup_report h it text marker now = Inr None"
  shows "\<exists>unit recorded age. cfg_string it ''unit'' = Inr unit
     \<and> unit_properties text ''LoadState'' = Some ''loaded''
     \<and> unit_properties text ''ActiveState'' \<noteq> Some ''failed''
     \<and> unit_properties text ''Result'' \<in> {Some ''success'', Some []}
     \<and> unit_properties text ''ExecMainStatus'' = Some ''0''
     \<and> (if full_text (json_index it ''successFile'') = None
        then (\<exists>s. unit_properties text ''ExecMainExitTimestamp'' = Some s \<and> exit_time s = Inr recorded)
        else marker = Some recorded)
     \<and> cfg_number it ''maxAgeHours'' 24 = Inr age
     \<and> 0 < recorded \<and> recorded \<le> now + 300 \<and> now - recorded \<le> age * 3600"
proof -
  obtain unit label i where c: "cfg_string it ''unit'' = Inr unit" "cfg_string it ''label'' = Inr label"
      "cfg_string it ''id'' = Inr i"
    using assms by (auto simp: backup_report_def split: sum.splits)
  define pv where "pv = (\<lambda>k. case unit_properties text k of Some s \<Rightarrow> s | None \<Rightarrow> [])"
  have pv: "(case unit_properties text k of Some s \<Rightarrow> s | None \<Rightarrow> []) = pv k" for k by (simp add: pv_def)
  note body = assms [unfolded backup_report_def c prod.case sum.case Let_def pv]
  have keys: "\<not> list_ex (\<lambda>k. unit_properties text k = None) backup_keys" using body by (auto split: if_splits)
  have loaded: "pv ''LoadState'' = ''loaded''" using body keys by (auto split: if_splits)
  have sound: "\<not> (pv ''ActiveState'' = ''failed'' \<or> (pv ''Result'' \<noteq> ''success'' \<and> pv ''Result'' \<noteq> [])
      \<or> pv ''ExecMainStatus'' \<noteq> ''0'')"
    using body keys loaded by (auto simp: map_sum_Inr simp del: de_Morgan_disj split: if_splits)
  define since where "since = (case as_str (json_index it ''successFile'') of
      Some (_ # _) \<Rightarrow> Inr (case marker of Some m \<Rightarrow> m | None \<Rightarrow> 0)
    | _ \<Rightarrow> exit_time (pv ''ExecMainExitTimestamp''))"
  note rest = body [unfolded if_not_P [OF keys] loaded simp_thms if_False if_not_P [OF sound], folded since_def]
  obtain recorded age where r: "since = Inr recorded" "cfg_number it ''maxAgeHours'' 24 = Inr age"
      "0 \<le> recorded" "recorded \<le> now + 300" "recorded \<noteq> 0" "now - recorded \<le> age * 3600"
    using rest by (auto simp: backup_overdue_def map_sum_Inr split: sum.splits if_splits)
  have some: "unit_properties text k = Some (pv k)" if "k \<in> set backup_keys" for k
    using that keys by (auto simp: pv_def list_ex_iff split: option.splits)
  note props = some [of "''LoadState''"] some [of "''ActiveState''"] some [of "''Result''"]
    some [of "''ExecMainStatus''"] some [of "''ExecMainExitTimestamp''"]
  have stamped: "if full_text (json_index it ''successFile'') = None
      then exit_time (pv ''ExecMainExitTimestamp'') = Inr recorded else marker = Some recorded"
    using r(1,5) by (auto simp: since_def full_text_def split: option.splits list.splits)
  show ?thesis
    using c(1) r props sound loaded stamped by (intro exI [of _ unit] exI [of _ recorded] exI [of _ age])
      (auto simp: backup_keys_def split: if_splits)
qed

lemma collect_backup_None:
  assumes "collect_backup h now it = Inr None"
  shows "backup_evidence h now it"
proof -
  obtain unit sel shown marker where u: "cfg_string it ''unit'' = Inr unit" "valid_unit unit"
      "ends_with ''.service'' unit"
    and t: "probe_checked h (backup_args sel unit) 30 = Inr shown"
    and m: "(case as_str (json_index it ''successFile'') of Some (c # path) \<Rightarrow> ph_mtime h (c # path)
        | _ \<Rightarrow> Inr None) = Inr marker"
    and b: "backup_report h it shown marker now = Inr None"
    using assms by (auto simp: collect_backup_def split: sum.splits if_splits)
  have run: "ph_run h (backup_args sel unit) 30 = Inr (0, shown)"
    using t by (auto simp: probe_checked_def split: sum.splits if_splits)
  have there: "ph_mtime h (the (full_text (json_index it ''successFile''))) = Inr marker"
    if "full_text (json_index it ''successFile'') \<noteq> None"
    using that m by (auto simp: full_text_def split: option.splits list.splits)
  obtain recorded age where r: "unit_properties shown ''LoadState'' = Some ''loaded''"
      "unit_properties shown ''ActiveState'' \<noteq> Some ''failed''"
      "unit_properties shown ''Result'' \<in> {Some ''success'', Some []}"
      "unit_properties shown ''ExecMainStatus'' = Some ''0''"
      "if full_text (json_index it ''successFile'') = None
        then (\<exists>s. unit_properties shown ''ExecMainExitTimestamp'' = Some s \<and> exit_time s = Inr recorded)
        else marker = Some recorded"
      "cfg_number it ''maxAgeHours'' 24 = Inr age"
      "0 < recorded \<and> recorded \<le> now + 300 \<and> now - recorded \<le> age * 3600"
    using backup_report_None [OF b] by blast
  have stamped: "if full_text (json_index it ''successFile'') = None
        then (\<exists>s. unit_properties shown ''ExecMainExitTimestamp'' = Some s \<and> exit_time s = Inr recorded)
        else ph_mtime h (the (full_text (json_index it ''successFile''))) = Inr (Some recorded)"
    using r(5) there by (auto split: if_splits)
  show ?thesis
    unfolding backup_evidence_def using u run r(1-4) stamped r(6,7)
    by (intro exI [of _ unit] exI [of _ sel] exI [of _ shown] exI [of _ recorded] exI [of _ age]) simp
qed

text \<open>C31: A probe failure is never recovery. When a snapshot of the backups source has no finding for a
  configured backup - the only way an earlier finding of it is resolved - systemd answered for the
  unit with status 0, reports it loaded, not failed and its last run successful, and the recorded
  completion is not older than the limit of the item, nor in the future by more than five minutes.\<close>

theorem backup_recovery_evidence:
  assumes "collect_source h t config ''backups'' now = Inr fs"
    and "json_index (json_index config ''backups'') ''enabled'' \<noteq> JBool False"
    and "cfg_items (json_index config ''backups'') = Inr items" "it \<in> set items"
    and "cfg_string it ''id'' = Inr i" "i \<notin> f_key ` set fs"
  shows "backup_evidence h now it"
proof -
  have "collect_backups h (json_index config ''backups'') now = Inr fs"
    using assms(1,2) by (simp add: collect_source_def Let_def)
  then have "try_filter (collect_backup h now) items = Inr fs"
    using assms(3) by (auto dest: collect_backups_filter)
  from try_filter_in(2) [OF this assms(4)] obtain y
    where y: "collect_backup h now it = Inr y" "set_option y \<subseteq> set fs" by blast
  then have "y = None" using assms(5,6) collect_backup_in [of h now it] by (cases y) auto
  then show ?thesis using y(1) collect_backup_None by simp
qed

section \<open>Escaped unit names\<close>

lemma key_char_backslash: "\<not> key_char (CHR 0x5C)"
  by code_simp

lemma try_map_first:
  "(\<And>x. x \<in> set xs \<Longrightarrow> \<forall>e'. g x = Inl e' \<longrightarrow> e' = e) \<Longrightarrow> x \<in> set xs \<Longrightarrow> g x = Inl e \<Longrightarrow> try_map g xs = Inl e"
proof (induction xs)
  case (Cons y ys)
  show ?case
  proof (cases "g y")
    case (Inl a)
    then show ?thesis using Cons.prems(1) [of y] by simp
  next
    case (Inr b)
    then have "x \<in> set ys" using Cons.prems(2,3) by auto
    have "try_map g ys = Inl e"
      by (rule Cons.IH [OF _ \<open>x \<in> set ys\<close> Cons.prems(3)]) (rule Cons.prems(1), simp)
    then show ?thesis by (simp add: Inr)
  qed
qed simp

lemma unit_names_read:
  assumes "json_index u ''unit'' = JStr n" "valid_unit n"
  shows "cfg_string u ''unit'' = Inr n"
proof -
  have "\<not> unit_char nul" by code_simp
  then show ?thesis
    using assms valid_unit_chars [OF assms(2)] by (auto simp: cfg_string_def list_all_iff)
qed

text \<open>C32: One failed unit with an escaped name stops the whole check. The listing may hold any number
  of well-formed unit names; as soon as one of them contains a backslash - as every device, mount
  and swap unit of a path with a dash has - the collector reports an invalid identity instead of the
  snapshot, although \<open>valid_unit\<close> admits the backslash on purpose: no failed unit is reported and
  nothing is resolved while it stays failed. The key of the finding is the unit name, and the
  alphabet of keys lacks the backslash.\<close>

theorem escaped_unit_stops_check:
  assumes "collect_source h t config ''systemd'' now = r"
    and "json_index (json_index config ''systemd'') ''enabled'' \<noteq> JBool False"
    and "cfg_scope (as_str (json_index (json_index config ''systemd'') ''scope'')) ''system'' = Inr sel"
    and "json_output h (systemd_args sel) 30 = Inr (JArr units)" "length units \<le> 512"
    and "\<And>u. u \<in> set units \<Longrightarrow> \<exists>n. json_index u ''unit'' = JStr n \<and> valid_unit n"
    and "JObj members \<in> set units" "json_index (JObj members) ''unit'' = JStr name" "CHR 0x5C \<in> set name"
  shows "r = Inl ''invalid_source_identity''"
proof -
  have "r = try_map (failed_unit sel) units"
    using assms(1-5) by (simp add: collect_source_def collect_systemd_def Let_def)
  moreover have "\<forall>e. failed_unit sel u = Inl e \<longrightarrow> e = ''invalid_source_identity''" if u: "u \<in> set units" for u
    using assms(6) [OF u] unit_names_read [of u]
    by (auto simp: failed_unit_def probe_report_def split: if_splits)
  moreover have "\<not> valid_key (drop 2 sel @ ''/'' @ name)"
    using assms(9) key_char_backslash by (auto simp: valid_key_def list_all_iff)
  then have "failed_unit sel (JObj members) = Inl ''invalid_source_identity''"
    using assms(6) [OF assms(7)] assms(8) unit_names_read [OF assms(8)]
    by (simp add: failed_unit_def probe_report_def)
  ultimately show ?thesis using try_map_first [of units "failed_unit sel"] assms(7) by blast
qed

section \<open>A machine\<close>

definition demo_items :: "json list" where
  "demo_items = [JObj [(''id'', JStr ''home''), (''unit'', JStr ''restic-home.service''), (''label'', JStr ''Home''),
       (''successFile'', JStr ''/var/home'')],
     JObj [(''id'', JStr ''root''), (''unit'', JStr ''restic-root.service''), (''label'', JStr ''Root''),
       (''successFile'', JStr ''/var/root'')]]"

definition demo_settings :: json where
  "demo_settings = JObj [(''backups'', JObj [(''items'', JArr demo_items)]), (''flake'', JObj [(''path'', JStr ''/etc/nixos'')])]"

definition demo_units :: "json list" where
  "demo_units = [JObj [(''unit'', JStr ''nginx.service'')],
     JObj [(''unit'', JStr (''systemd-fsck@dev-disk-by'' @ [CHR 0x5C] @ ''x2duuid.service''))]]"

definition demo_unit_state :: string where
  "demo_unit_state = ''LoadState=loaded'' @ [newline] @ ''ActiveState=inactive'' @ [newline] @ ''Result=success'' @ [newline]
     @ ''ExecMainStatus=0'' @ [newline] @ ''ExecMainExitTimestamp='' @ [newline]"

text \<open>The first backup completed at 1000, the second never; the flake does not evaluate; an ordinary
  unit and one with an escaped name have failed.\<close>

definition demo_probe :: probe_host where
  "demo_probe = \<lparr>
     ph_run = (\<lambda>command timeout. if hd command = ''nix'' then Inr (1, [])
       else if command = systemd_args ''--system'' then Inr (0, ''units'') else Inr (0, demo_unit_state)),
     ph_parse = (\<lambda>s. if s = ''units'' then Some (JArr demo_units) else None),
     ph_mtime = (\<lambda>p. Inr (if p = ''/var/home'' then Some 1000 else None)),
     ph_statvfs = (\<lambda>p. None), ph_is_file = (\<lambda>p. True), ph_read = (\<lambda>p. None), ph_sha = (\<lambda>p. p),
     ph_timegm = (\<lambda>date time. (0, 0, 0)), ph_stamp = (\<lambda>t. None)\<rparr>"

definition demo_generation :: tree_host where
  "demo_generation = \<lparr>th_real = (\<lambda>p. Some ''/nix/store/system''), th_link = (\<lambda>p. Gone), th_file = (\<lambda>p. Gone),
     th_dir = (\<lambda>p. None), th_json = (\<lambda>s. None), th_upper = (\<lambda>c. [c])\<rparr>"

definition single :: "string + finding list \<Rightarrow> bool" where
  "single r = (case r of Inr [f] \<Rightarrow> True | _ \<Rightarrow> False)"

lemma single_Inr: "single r \<Longrightarrow> \<exists>f. r = Inr [f]"
  by (auto simp: single_def split: sum.splits list.splits)

theorem collected_findings_accepted_witness:
  "\<exists>f. collect_source demo_probe demo_generation demo_settings ''flake'' 2000 = Inr [f]
     \<and> finding_rejected (source_actions ''flake'') f = None"
proof -
  have "single (collect_source demo_probe demo_generation demo_settings ''flake'' 2000)" by code_simp
  then show ?thesis using collected_findings_accepted by (fastforce dest: single_Inr)
qed

lemma demo_backups_collected:
  "single (collect_source demo_probe demo_generation demo_settings ''backups'' 2000)"
  by code_simp

theorem snapshot_keys_configured_witness:
  "validate_config demo_settings = None
   \<and> (\<exists>f. collect_source demo_probe demo_generation demo_settings ''backups'' 2000 = Inr [f]
        \<and> (\<exists>items. cfg_items (json_index demo_settings ''backups'') = Inr items
             \<and> subseq (map (Inr \<circ> f_key) [f]) (map (\<lambda>it. cfg_string it ''id'') items)))"
proof -
  have v: "validate_config demo_settings = None" by code_simp
  then show ?thesis
    using single_Inr [OF demo_backups_collected] snapshot_keys_configured [OF v, of "''backups''"] by blast
qed

theorem backup_recovery_evidence_witness:
  "backup_evidence demo_probe 2000 (hd demo_items)"
proof -
  obtain f where f: "collect_source demo_probe demo_generation demo_settings ''backups'' 2000 = Inr [f]"
    using single_Inr [OF demo_backups_collected] by blast
  have "map_sum id (map f_key) (collect_source demo_probe demo_generation demo_settings ''backups'' 2000) = Inr [''root'']"
    by code_simp
  then have k: "f_key f = ''root''" by (simp add: f)
  have c: "json_index (json_index demo_settings ''backups'') ''enabled'' \<noteq> JBool False"
    "cfg_items (json_index demo_settings ''backups'') = Inr demo_items" "hd demo_items \<in> set demo_items"
    "cfg_string (hd demo_items) ''id'' = Inr ''home''"
    by code_simp+
  show ?thesis by (rule backup_recovery_evidence [OF f c]) (simp add: k)
qed

theorem escaped_unit_stops_check_witness:
  "collect_source demo_probe demo_generation demo_settings ''systemd'' 2000 = Inl ''invalid_source_identity''"
proof -
  have c: "json_index (json_index demo_settings ''systemd'') ''enabled'' \<noteq> JBool False"
    "cfg_scope (as_str (json_index (json_index demo_settings ''systemd'') ''scope'')) ''system'' = Inr ''--system''"
    "json_output demo_probe (systemd_args ''--system'') 30 = Inr (JArr demo_units)" "length demo_units \<le> 512"
    by code_simp+
  let ?fsck = "''systemd-fsck@dev-disk-by'' @ [CHR 0x5C] @ ''x2duuid.service''"
  have v: "valid_unit ''nginx.service''" "valid_unit ?fsck" by code_simp+
  have j: "json_index (JObj [(''unit'', JStr s)]) ''unit'' = JStr s" for s by (simp add: json_index_def)
  have n: "\<exists>n. json_index u ''unit'' = JStr n \<and> valid_unit n" if "u \<in> set demo_units" for u
    using that v j by (auto simp: demo_units_def)
  have m: "JObj [(''unit'', JStr ?fsck)] \<in> set demo_units" "CHR 0x5C \<in> set ?fsck"
    by (simp_all add: demo_units_def)
  show ?thesis by (rule escaped_unit_stops_check [OF refl c n m(1) j m(2)])
qed

end
