(* ===== verification/Probe_Dates.thy ===== *)
theory Probe_Dates
  imports Maintenance_Restart Durations
begin

text \<open>
  \<open>expiry\<close> on what openssl prints, and \<open>split_whitespace\<close> on texts of ASCII words.
\<close>

section \<open>Words of a text\<close>

definition space :: "char \<Rightarrow> bool" where "space c \<longleftrightarrow> is_whitespace (of_char c)"

definition word :: "string \<Rightarrow> bool" where
  "word w \<longleftrightarrow> w \<noteq> [] \<and> ascii w \<and> list_all (\<lambda>c. \<not> space c) w"

lemma split_chars_word: "list_all (\<lambda>c. \<not> p c) w \<Longrightarrow> p c \<Longrightarrow> split_chars p (w @ c # s) = w # split_chars p s"
  by (induction w) (auto split: list.splits)

lemma split_chars_last: "list_all (\<lambda>c. \<not> p c) w \<Longrightarrow> split_chars p w = [w]"
  by (induction w) auto

lemma list_all_space: "list_all (\<lambda>c. \<not> space c) w \<longleftrightarrow> list_all (\<lambda>c. \<not> is_whitespace c) (map of_char w)"
  by (simp add: list_all_iff space_def)

lemma split_whitespace_word:
  assumes "word w" "space c" "ascii (c # s)"
  shows "split_whitespace (w @ c # s) = w # split_whitespace s"
proof -
  have "chars (w @ c # s) = map of_char w @ of_char c # map of_char s"
    using assms by (subst chars_ascii) (auto simp: word_def)
  moreover have "chars s = map of_char s" using assms(3) by (simp add: chars_ascii)
  ultimately show ?thesis
    using assms split_chars_word [of is_whitespace "map of_char w" "of_char c" "map of_char s"]
    by (simp add: split_whitespace_def word_def list_all_space [symmetric] of_chars_ascii space_def [symmetric])
qed

lemma split_whitespace_skip:
  assumes "space c" "ascii (c # s)"
  shows "split_whitespace (c # s) = split_whitespace s"
  using assms chars_ascii [of "c # s"] chars_ascii [of s] by (simp add: split_whitespace_def space_def)

lemma split_whitespace_last: "word w \<Longrightarrow> split_whitespace w = [w]"
  by (simp add: split_whitespace_def split_chars_last word_def list_all_space chars_ascii of_chars_ascii)

lemma trim_line:
  assumes "ascii s" "s \<noteq> []" "\<not> space (hd s)" "\<not> space (last s)" "space c" "ascii [c]"
  shows "trim (s @ [c]) = s"
proof -
  have k: "dropWhile is_whitespace (map of_char s @ [of_char c]) = map of_char s @ [of_char c]"
    using assms(2,3) by (cases s) (auto simp: space_def)
  have "dropWhile is_whitespace (rev (map of_char s)) = rev (map of_char s :: nat list)"
    using assms(2,4) by (cases s rule: rev_cases) (auto simp: space_def)
  then have "trim_chars is_whitespace (map of_char s @ [of_char c]) = map of_char s"
    using assms(5) k by (simp add: trim_chars_def space_def)
  moreover have "chars (s @ [c]) = map of_char s @ [of_char c]" using assms by (subst chars_ascii) auto
  ultimately show ?thesis using assms(1) by (simp add: trim_def of_chars_ascii)
qed

lemma digit_word: "s \<noteq> [] \<Longrightarrow> list_all is_ascii_digit s \<Longrightarrow> word s"
  by (auto simp: word_def list_all_iff is_ascii_digit_def space_def is_whitespace_def)

lemma spaces: "space (CHR '' '')" "space newline" by code_simp+

section \<open>Numbers\<close>

lemma parse_i32_digits:
  assumes "s \<noteq> []" "list_all is_ascii_digit s" "digits_value s \<le> 2147483647"
  shows "parse_i32 s = Some (int (digits_value s))"
proof -
  have "\<not> is_ascii_digit (CHR ''-'')" by code_simp
  then show ?thesis using assms by (cases s) (auto simp: parse_i32_def parse_uint_digits)
qed

lemma two_digits_word:
  assumes "0 \<le> n" "n < 60"
  shows "word (two_digits n)" "list_all is_ascii_digit (two_digits n)" "parse_i32 (two_digits n) = Some n"
proof -
  have t: "list_all is_ascii_digit (two_digits n)" "two_digits n \<noteq> []" "digits_value (two_digits n) = nat n"
    using pad_two [of "nat n"] assms by (simp_all add: two_digits_def)
  show "word (two_digits n)" by (rule digit_word [OF t(2,1)])
  show "list_all is_ascii_digit (two_digits n)" by (rule t(1))
  show "parse_i32 (two_digits n) = Some n" using parse_i32_digits [OF t(2,1)] t(3) assms by simp
qed

section \<open>What openssl prints\<close>

text \<open>The date of \<open>openssl x509 -enddate\<close>: \<open>%s %2d %02d:%02d:%02d %d GMT\<close> and a line end.\<close>

definition pad_space :: "int \<Rightarrow> string" where
  "pad_space d = (if d < 10 then '' '' else []) @ nat_digits (nat d)"

definition clock_text_of :: "int \<Rightarrow> int \<Rightarrow> int \<Rightarrow> string" where
  "clock_text_of hh mm ss = two_digits hh @ '':'' @ two_digits mm @ '':'' @ two_digits ss"

definition enddate_text :: "int \<times> int \<times> int \<Rightarrow> int \<times> int \<times> int \<Rightarrow> string" where
  "enddate_text date time = (case (date, time) of ((y, m, d), (hh, mm, ss)) \<Rightarrow>
     ''notAfter='' @ (month_names ! nat (m - 1) @ '' '' @ pad_space d @ '' ''
       @ clock_text_of hh mm ss @ '' '' @ nat_digits (nat y) @ '' GMT'') @ [newline])"

text \<open>\<open>timegm\<close> as its manual has it: the seconds since 1970 of a date of the Gregorian calendar, a day
  past the end of its month counted on, and the structure rewritten to the date that is.\<close>

definition gregorian_timegm :: "probe_host \<Rightarrow> bool" where
  "gregorian_timegm h \<longleftrightarrow> (\<forall>y m d hh mm ss. 1970 \<le> y \<and> 0 \<le> m \<and> m \<le> 11 \<and> 1 \<le> d \<and> d \<le> 31 \<longrightarrow>
     ph_timegm h (y, m, d) (hh, mm, ss) =
       (days y (m + 1) d * 86400 + hh * 3600 + mm * 60 + ss,
        fst (snd (civil (days y (m + 1) d))) - 1, snd (snd (civil (days y (m + 1) d)))))"

lemma month_words:
  "i < 12 \<Longrightarrow> word (month_names ! i) \<and> index_of (month_names ! i) month_names = Some i"
proof -
  have "list_all (\<lambda>i. word (month_names ! i) \<and> index_of (month_names ! i) month_names = Some i) [0..<12]"
    by code_simp
  then show "i < 12 \<Longrightarrow> word (month_names ! i) \<and> index_of (month_names ! i) month_names = Some i"
    by (simp add: list_all_iff)
qed

lemma split_clock:
  assumes "0 \<le> hh" "hh < 24" "0 \<le> mm" "mm < 60" "0 \<le> ss" "ss < 60"
  shows "those (map parse_i32 (split_on (CHR '':'') (clock_text_of hh mm ss))) = Some [hh, mm, ss]"
    and "word (clock_text_of hh mm ss)"
proof -
  have c: "\<not> is_ascii_digit (CHR '':'')" by code_simp
  note t = two_digits_word [of hh] two_digits_word [of mm] two_digits_word [of ss]
  have n: "CHR '':'' \<notin> set (two_digits x)" if "0 \<le> x" "x < 60" for x
    using two_digits_word(2) [OF that] c by (auto simp: list_all_iff)
  show "those (map parse_i32 (split_on (CHR '':'') (clock_text_of hh mm ss))) = Some [hh, mm, ss]"
    using assms t n by (simp add: clock_text_of_def split_on_append split_on_notin)
  have "word '':''" by code_simp
  then show "word (clock_text_of hh mm ss)"
    using assms t by (simp add: clock_text_of_def word_def)
qed

lemma digits_words: "word (nat_digits n)"
  by (rule digit_word) (simp_all add: nat_digits_digit del: nat_digits.simps)

lemma ascii_word: "word w \<Longrightarrow> ascii w" by (simp add: word_def)

lemma enddate_words:
  assumes "1 \<le> m" "m \<le> 12" "1 \<le> d" "0 \<le> hh" "hh < 24" "0 \<le> mm" "mm < 60" "0 \<le> ss" "ss < 60"
  shows "split_whitespace (month_names ! nat (m - 1) @ '' '' @ pad_space d @ '' ''
       @ clock_text_of hh mm ss @ '' '' @ nat_digits (nat y) @ '' GMT'')
    = [month_names ! nat (m - 1), nat_digits (nat d), clock_text_of hh mm ss, nat_digits (nat y), ''GMT'']"
proof -
  have m: "word (month_names ! nat (m - 1))" using month_words [of "nat (m - 1)"] assms(1,2) by simp
  note w = m split_clock(2) [OF assms(4-9)] digits_words [of "nat d"] digits_words [of "nat y"]
  have g: "word ''GMT''" by code_simp
  note a = w [THEN ascii_word] g [THEN ascii_word]
  show ?thesis
    using w g a spaces(1)
    by (cases "d < 10")
      (simp_all add: pad_space_def split_whitespace_word split_whitespace_skip split_whitespace_last
        del: nat_digits.simps)
qed

section \<open>Dates that exist\<close>

lemma days_year_strict:
  assumes "y < y'" "1 \<le> m" "m \<le> 12"
  shows "days y m d < days y' m d"
proof -
  have "days y 1 1 + 365 * (y' - y) \<le> days y' 1 1" using assms(1) by (intro days_years_mono) simp
  then show ?thesis
    using assms days_month [OF assms(2,3), of y] days_month [OF assms(2,3), of y']
      days_shift [of y m d] days_shift [of y' m d] month_length_bounds [of y' 2]
    by (auto simp: month_length_def split: if_splits)
qed

lemma missing_day_moves:
  assumes "1 \<le> m" "m \<le> 12" "\<not> valid_date (y, m, d)"
  shows "snd (civil (days y m d)) \<noteq> (m, d)"
proof
  assume e: "snd (civil (days y m d)) = (m, d)"
  obtain y' where c: "civil (days y m d) = (y', m, d)" using e by (cases "civil (days y m d)") auto
  then have v: "valid_date (y', m, d)" "days y' m d = days y m d"
    using civil_valid [of "days y m d"] days_civil [of "days y m d"] by simp_all
  then have "y' = y"
    using days_year_strict [of y y' m d] days_year_strict [of y' y m d] assms(1,2)
    by (cases y y' rule: linorder_cases) auto
  then show False using v(1) assms(3) by simp
qed

lemma days_positive:
  assumes "1970 \<le> y" "valid_date (y, m, d)"
  shows "0 \<le> days y m d"
proof -
  have "days 1970 1 1 = 0" by code_simp
  then show ?thesis using days_years_mono [OF assms(1)] days_in_year(1) [OF assms(2)] assms(1) by simp
qed

lemma expiry_of_text:
  assumes "gregorian_timegm h" "1970 \<le> y" "y \<le> 9999" "1 \<le> m" "m \<le> 12" "1 \<le> d" "d \<le> 31"
    and c: "0 \<le> hh" "hh < 24" "0 \<le> mm" "mm < 60" "0 \<le> ss" "ss < 60"
  shows "expiry_of h [month_names ! nat (m - 1), nat_digits (nat d), clock_text_of hh mm ss, nat_digits (nat y), ''GMT'']
    = (if valid_date (y, m, d) then Some (days y m d * 86400 + hh * 3600 + mm * 60 + ss) else None)"
proof -
  have parsed: "parse_i32 (nat_digits (nat d)) = Some d" "parse_i32 (nat_digits (nat y)) = Some y"
    using assms(2,3,6,7) by (simp_all add: parse_i32_digits nat_digits_digit del: nat_digits.simps)
  have month: "index_of (month_names ! nat (m - 1)) month_names = Some (nat (m - 1))"
    using month_words [of "nat (m - 1)"] assms(4,5) by simp
  have tg: "ph_timegm h (y, m - 1, d) (hh, mm, ss) =
       (days y m d * 86400 + hh * 3600 + mm * 60 + ss,
        fst (snd (civil (days y m d))) - 1, snd (snd (civil (days y m d))))"
    using assms(1-7) by (simp add: gregorian_timegm_def)
  show ?thesis
  proof (cases "valid_date (y, m, d)")
    case True
    then show ?thesis
      using parsed month tg assms(2-7) c split_clock(1) [OF c] days_positive [OF assms(2) True] civil_days [OF True]
      by (simp add: expiry_of_def del: nat_digits.simps)
  next
    case False
    then have "fst (snd (civil (days y m d))) \<noteq> m \<or> snd (snd (civil (days y m d))) \<noteq> d"
      using missing_day_moves [OF assms(4,5)] by (metis prod.collapse)
    then show ?thesis
      using parsed month tg assms(2-7) c split_clock(1) [OF c] False
      by (auto simp: expiry_of_def simp del: nat_digits.simps)
  qed
qed


definition calendar_probe :: probe_host where
  "calendar_probe = \<lparr>
     ph_run = (\<lambda>command timeout. Inl ''operation_failed''), ph_parse = (\<lambda>s. None), ph_mtime = (\<lambda>p. Inr None),
     ph_statvfs = (\<lambda>p. None), ph_is_file = (\<lambda>p. True), ph_read = (\<lambda>p. None), ph_sha = (\<lambda>p. p),
     ph_timegm = (\<lambda>(y, m, d) (hh, mm, ss).
       (days y (m + 1) d * 86400 + hh * 3600 + mm * 60 + ss,
        fst (snd (civil (days y (m + 1) d))) - 1, snd (snd (civil (days y (m + 1) d))))),
     ph_stamp = (\<lambda>t. None)\<rparr>"


end
