(* ===== verification/Restart_Theorems.thy ===== *)
theory Restart_Theorems
  imports Probe_Dates Probe_Theorems
begin

text \<open>
  The kernel command line: what \<open>parameters\<close> tells is which names differ, never a value, as long as no
  value is quoted; the words of a quoted value are told as names.
\<close>

section \<open>Sorted sets\<close>

abbreviation unit_set :: "string set \<Rightarrow> (string \<times> unit) list" where
  "unit_set A \<equiv> map (\<lambda>t. (t, ())) (sorted_list_of_set A)"

lemma unit_set_of: "keys_sorted m \<Longrightarrow> m = unit_set (fst ` set m)" for m :: "(string \<times> unit) list"
proof -
  assume "keys_sorted m"
  then have "sorted_list_of_set (set (map fst m)) = map fst m"
    by (intro sorted_list_of_set.idem_if_sorted_distinct) (auto simp: strict_sorted_iff)
  moreover have "map (\<lambda>x. (fst x, ())) m = m" by (rule map_idI) (simp add: prod_eq_iff)
  ultimately show "m = unit_set (fst ` set m)" by (simp add: comp_def)
qed

lemma keys_sorted_unit_set: "keys_sorted (unit_set A)"
  by (simp add: comp_def strict_sorted_iff)

lemma bt_insert_unit_set: "finite A \<Longrightarrow> bt_insert t () (unit_set A) = unit_set (insert t A)"
  using unit_set_of [of "bt_insert t () (unit_set A)"] keys_sorted_bt_insert [OF keys_sorted_unit_set, of t "()" A]
  by (simp add: image_image)

lemma fold_unit_set: "finite A \<Longrightarrow> fold (\<lambda>k. bt_insert k ()) ks (unit_set A) = unit_set (set ks \<union> A)"
proof (induction ks arbitrary: A)
  case (Cons k ks)
  have "set ks \<union> insert k A = set (k # ks) \<union> A" by auto
  then show ?case using Cons.IH [of "insert k A"] Cons.prems by (simp only: fold_simps bt_insert_unit_set finite_insert)
qed simp

section \<open>Tokens by key\<close>

definition tokens_of :: "string list \<Rightarrow> string \<Rightarrow> string set" where
  "tokens_of ts k = {t \<in> set ts. token_key t = k}"

lemma finite_tokens [simp]: "finite (tokens_of ts k)"
  by (simp add: tokens_of_def)

lemma keyed_fold:
  "keys_sorted (fold key_token ts [])
   \<and> map_of (fold key_token ts []) k = (if tokens_of ts k = {} then None else Some (unit_set (tokens_of ts k)))"
proof (induction ts arbitrary: k rule: rev_induct)
  case (snoc t ts)
  let ?m = "fold key_token ts []"
  have old: "(case map_of ?m (token_key t) of Some u \<Rightarrow> u | None \<Rightarrow> []) = unit_set (tokens_of ts (token_key t))"
    using snoc.IH [of "token_key t"] by auto
  have new: "tokens_of (ts @ [t]) k = (if k = token_key t then insert t (tokens_of ts k) else tokens_of ts k)"
    by (auto simp: tokens_of_def)
  show ?case
    using snoc.IH [of k] snoc.IH [of "token_key t"] old new
    by (simp add: key_token_def bt_insert_unit_set)
qed (simp add: tokens_of_def)

lemma keyed_keys: "fst ` set (fold key_token ts []) = token_key ` set ts"
proof -
  have "k \<in> fst ` set (fold key_token ts []) \<longleftrightarrow> k \<in> token_key ` set ts" for k
  proof -
    have "k \<in> fst ` set (fold key_token ts []) \<longleftrightarrow> tokens_of ts k \<noteq> {}"
      using keyed_fold [of ts k] map_of_eq_None_iff [of "fold key_token ts []" k] by (simp split: if_splits)
    then show ?thesis by (auto simp: tokens_of_def)
  qed
  then show ?thesis by blast
qed

definition difference_line :: "string list \<Rightarrow> string list \<Rightarrow> string \<Rightarrow> string option" where
  "difference_line old new k =
     (if tokens_of old k = tokens_of new k then None
      else Some (k @ (if tokens_of old k = {} then '' added''
                      else if tokens_of new k = {} then '' removed'' else '' changed'')))"

lemma unit_set_eq: "finite A \<Longrightarrow> finite B \<Longrightarrow> unit_set A = unit_set B \<longleftrightarrow> A = B"
  by (metis (no_types, lifting) list.map_comp comp_def fst_conv list.map_id0 id_apply map_idI set_sorted_list_of_set)

lemma parameters_eq:
  "parameters old new = List.map_filter (difference_line (split_whitespace old) (split_whitespace new))
     (sorted_list_of_set (token_key ` (set (split_whitespace old) \<union> set (split_whitespace new))))"
proof -
  let ?a = "split_whitespace old" and ?b = "split_whitespace new"
  have line: "parameter_line (keyed_tokens old) (keyed_tokens new) = difference_line ?a ?b"
    using keyed_fold [of ?a] keyed_fold [of ?b]
    by (auto simp: fun_eq_iff parameter_line_def difference_line_def keyed_tokens_def unit_set_eq)
  have "map fst (fold (\<lambda>k. bt_insert k ()) (map fst (keyed_tokens old) @ map fst (keyed_tokens new)) [])
      = sorted_list_of_set (token_key ` (set ?a \<union> set ?b))"
    using fold_unit_set [of "{}" "map fst (keyed_tokens old) @ map fst (keyed_tokens new)"]
      keyed_keys [of ?a] keyed_keys [of ?b]
    by (simp add: keyed_tokens_def image_Un comp_def)
  then show ?thesis by (simp add: parameters_def Let_def line)
qed

section \<open>Values stay private, unless they are quoted\<close>

lemma tokens_of_map:
  assumes "\<And>t. t \<in> set ts \<Longrightarrow> token_key (f t) = token_key t"
  shows "tokens_of (map f ts) k = f ` tokens_of ts k"
  using assms by (auto simp: tokens_of_def)

text \<open>The probe tells the names of the kernel parameters a restart would change and nothing of their
  values. Two pairs of command lines that differ only in the values - each token of one replaced by
  one of the same name, different tokens by different ones - give the same lines: of the values, only
  which are equal has any effect.\<close>

theorem parameter_values_private:
  assumes "split_whitespace old' = map f (split_whitespace old)" "split_whitespace new' = map f (split_whitespace new)"
    and names: "\<And>t. t \<in> set (split_whitespace old) \<union> set (split_whitespace new)
      \<Longrightarrow> hd (split_on (CHR ''='') (f t)) = hd (split_on (CHR ''='') t)"
    and inj: "inj_on f (set (split_whitespace old) \<union> set (split_whitespace new))"
  shows "parameters old' new' = parameters old new"
proof -
  let ?a = "split_whitespace old" and ?b = "split_whitespace new"
  have keys: "token_key (f t) = token_key t" if "t \<in> set ?a \<union> set ?b" for t
    using names [OF that] by (simp add: token_key_def)
  have sets: "tokens_of (map f ?a) k = f ` tokens_of ?a k" "tokens_of (map f ?b) k = f ` tokens_of ?b k" for k
    using keys by (auto intro!: tokens_of_map)
  have "f ` tokens_of ?a k = f ` tokens_of ?b k \<longleftrightarrow> tokens_of ?a k = tokens_of ?b k" for k
    by (rule inj_on_image_eq_iff [OF inj]) (auto simp: tokens_of_def)
  then have "difference_line (map f ?a) (map f ?b) = difference_line ?a ?b"
    by (simp add: fun_eq_iff difference_line_def sets)
  moreover have "token_key ` (set (map f ?a) \<union> set (map f ?b)) = token_key ` (set ?a \<union> set ?b)"
  proof -
    have "(\<lambda>t. token_key (f t)) ` (set ?a \<union> set ?b) = token_key ` (set ?a \<union> set ?b)"
      using keys by (intro image_cong) auto
    then show ?thesis by (simp add: image_Un image_image)
  qed
  ultimately show ?thesis by (simp add: parameters_eq assms(1,2))
qed

lemma split_chars_nonempty [simp]: "split_chars p s \<noteq> []"
  by (induction s) (auto split: list.splits)

lemma split_chars_join: "p c \<Longrightarrow> split_chars p (a @ c # b) = split_chars p a @ split_chars p b"
  by (induction a) (auto split: list.splits)

lemma split_whitespace_join:
  assumes "ascii a" "ascii b" "space c" "ascii [c]"
  shows "split_whitespace (a @ c # b) = split_whitespace a @ split_whitespace b"
proof -
  have "chars (a @ c # b) = map of_char a @ of_char c # map of_char b" using assms by (subst chars_ascii) auto
  then show ?thesis
    using assms(3) by (simp add: split_whitespace_def split_chars_join space_def chars_ascii [OF assms(1)] chars_ascii [OF assms(2)])
qed

definition quote :: char where "quote = CHR 0x22"

text \<open>The words of a quoted value are told as names. The kernel lets a value with spaces be quoted;
  the probe splits the line at every space, so of a new parameter \<open>n="v w"\<close> the finding names \<open>w"\<close>, a
  part of the value, as a parameter that was added - for every name and all words of fewer than 40
  ASCII characters without an equals sign. The comment of the function rules this out: it names
  parameters, never their values.\<close>

theorem quoted_value_named:
  assumes "ascii old" "word n" "word v" "word w" "CHR ''='' \<notin> set w" "length w < 40"
    and "w @ [quote] \<notin> token_key ` set (split_whitespace old)"
  shows "w @ [quote] @ '' added''
    \<in> set (parameters old (old @ '' '' @ n @ ''='' @ [quote] @ v @ '' '' @ w @ [quote]))"
proof -
  let ?first = "n @ ''='' @ [quote] @ v" and ?last = "w @ [quote]"
  let ?new = "old @ CHR '' '' # ?first @ CHR '' '' # ?last"
  have q: "word [quote]" "word ''=''" by code_simp+
  have w: "word ?first" "word ?last" using assms(2-4) q by (simp_all add: word_def)
  have a: "ascii ?first" "ascii ?last" using w by (auto dest: ascii_word)
  have "split_whitespace (?first @ CHR '' '' # ?last) = [?first, ?last]"
    using split_whitespace_word [OF w(1) spaces(1)] split_whitespace_last [OF w(2)] a by simp
  then have new: "split_whitespace ?new = split_whitespace old @ [?first, ?last]"
    using split_whitespace_join [OF assms(1) _ spaces(1), of "?first @ CHR '' '' # ?last"] a by simp
  have e: "CHR ''='' \<notin> set ?last" using assms(5) by (simp add: quote_def)
  have key: "token_key ?last = ?last"
    using a(2) assms(6) e by (simp add: token_key_def split_on_notin chars_ascii of_chars_ascii del: map_append)
  have "tokens_of (split_whitespace old) ?last = {}" using assms(7) by (auto simp: tokens_of_def) (metis image_eqI)
  moreover have "?last \<in> tokens_of (split_whitespace ?new) ?last"
    unfolding tokens_of_def mem_Collect_eq new using key by simp
  ultimately have "difference_line (split_whitespace old) (split_whitespace ?new) ?last = Some (?last @ '' added'')"
    by (auto simp: difference_line_def)
  moreover have "?last \<in> token_key ` (set (split_whitespace old) \<union> set (split_whitespace ?new))"
    unfolding new by (rule image_eqI [of _ _ ?last]) (use key in simp_all)
  ultimately have "?last @ '' added'' \<in> set (parameters old ?new)"
    by (force simp: parameters_eq map_filter_def)
  then show ?thesis by simp
qed

section \<open>Silence of the restart probe\<close>

lemma list_all_map_filter_None: "List.map_filter g xs = [] \<longleftrightarrow> (\<forall>x \<in> set xs. g x = None)"
  by (induction xs) (auto simp: map_filter_simps split: option.splits)

lemma parameters_Nil: "parameters old new = [] \<longleftrightarrow> set (split_whitespace old) = set (split_whitespace new)"
proof -
  let ?a = "split_whitespace old" and ?b = "split_whitespace new"
  have "parameters old new = [] \<longleftrightarrow> (\<forall>k \<in> token_key ` (set ?a \<union> set ?b). tokens_of ?a k = tokens_of ?b k)"
    by (simp add: parameters_eq list_all_map_filter_None difference_line_def)
  also have "\<dots> \<longleftrightarrow> set ?a = set ?b" by (fastforce simp: tokens_of_def set_eq_iff)
  finally show ?thesis .
qed

lemma root_differs_None:
  "root_differs h b name = Inr None \<Longrightarrow> \<exists>s t. root_link h (bo_old b) name = Inr s \<and> root_link h (bo_new b) name = Inr t
    \<and> same_target s t"
  by (auto simp: root_differs_def split: sum.splits if_splits)

definition same_link :: "tree_host \<Rightarrow> string \<Rightarrow> string \<Rightarrow> string \<Rightarrow> bool" where
  "same_link h old new name \<longleftrightarrow> (\<exists>s t. root_link h old name = Inr s \<and> root_link h new name = Inr t \<and> same_target s t)"

definition params_text :: "tree_host \<Rightarrow> string \<Rightarrow> string" where
  "params_text h dir = (case root_file h dir ''kernel-params'' of Inr (Some s) \<Rightarrow> s | _ \<Rightarrow> [])"

lemma parts_silent:
  assumes "try_map (\<lambda>part. part h b) boot_parts = Inr yss" "concat yss = []" "part \<in> set boot_parts"
  shows "part h b = Inr []"
proof -
  obtain ys where "ys \<in> set yss" "part h b = Inr ys"
    using assms(1,3) list_all2_forth [of "\<lambda>part y. part h b = Inr y" boot_parts yss part] by (auto simp: try_map_Inr)
  then show ?thesis using assms(2) by auto
qed



theorem parameter_values_private_witness:
  "parameters ''root=fstab quiet'' ''root=disk ro'' = parameters ''root=one quiet'' ''root=two ro''"
proof -
  let ?f = "\<lambda>t. if t = ''root=one'' then ''root=fstab'' else if t = ''root=two'' then ''root=disk'' else t"
  have w: "split_whitespace ''root=fstab quiet'' = map ?f (split_whitespace ''root=one quiet'')"
    "split_whitespace ''root=disk ro'' = map ?f (split_whitespace ''root=two ro'')"
    "list_all (\<lambda>t. hd (split_on (CHR ''='') (?f t)) = hd (split_on (CHR ''='') t)) (split_whitespace ''root=one quiet'' @ split_whitespace ''root=two ro'')"
    by code_simp+
  have s: "split_whitespace ''root=one quiet'' = [''root=one'', ''quiet'']"
    "split_whitespace ''root=two ro'' = [''root=two'', ''ro'']"
    by code_simp+
  have i: "inj_on ?f (set (split_whitespace ''root=one quiet'') \<union> set (split_whitespace ''root=two ro''))"
    by (simp add: s inj_on_def)
  show ?thesis by (rule parameter_values_private [OF w(1,2) _ i]) (use w(3) in \<open>auto simp: list_all_iff\<close>)
qed

theorem quoted_value_named_witness:
  "''file.c'' @ [quote] @ '' added''
    \<in> set (parameters ''quiet'' (''quiet'' @ '' '' @ ''dyndbg'' @ ''='' @ [quote] @ ''module'' @ '' '' @ ''file.c'' @ [quote]))"
proof -
  have c: "ascii ''quiet''" "word ''dyndbg''" "word ''module''" "word ''file.c''" "CHR ''='' \<notin> set ''file.c''"
    "length ''file.c'' < 40" "''file.c'' @ [quote] \<notin> token_key ` set (split_whitespace ''quiet'')"
    by code_simp+
  show ?thesis by (rule quoted_value_named [OF c])
qed

end
