(* ===== verification/Restore_Model.thy ===== *)
theory Restore_Model
  imports Maintenance_Restart
begin

text \<open>
  \<open>projects/maintenance/src/restic_files.rs\<close> with \<open>bin/seele-backup-files.rs\<close>, the privileged reader of
  single files of a restic repository, and \<open>bin/seele-restore-file.rs\<close>, the dialogs that restore a copy.
  The file system, child processes, dialogs, JSON and SHA-256 are fields of the hosts. Every I/O error
  ends either program with one fixed message, so an error is \<open>None\<close>.
\<close>

section \<open>Paths, snapshots and patterns\<close>

definition file_limit :: nat where "file_limit = 16 * 1024 * 1024"

definition backslash :: char where "backslash = CHR 0x5C"

definition valid_path :: "string \<Rightarrow> string \<Rightarrow> bool" where
  "valid_path path home \<longleftrightarrow>
     starts_with ''/'' path \<and> prefix (path_components home) (path_components path)
     \<and> path_components path \<noteq> path_components home \<and> length path \<le> 4096
     \<and> \<not> list_ex is_control (chars path)
     \<and> list_all (\<lambda>c. c \<noteq> ''.'' \<and> c \<noteq> ''..'') (path_components path)
     \<and> \<not> contains_str ''//'' path \<and> \<not> ends_with ''/'' path
     \<and> \<not> list_ex (\<lambda>s. s = ''.'' \<or> s = ''..'') (split_on (CHR ''/'') path)"

definition snapshot_id :: "string \<Rightarrow> bool" where
  "snapshot_id s \<longleftrightarrow> length s = 64 \<and> list_all is_ascii_hexdigit s"

definition glob_special :: "char \<Rightarrow> bool" where
  "glob_special c \<longleftrightarrow> c \<in> set ''*?[]'' \<or> c = backslash"

definition pattern_of :: "string \<Rightarrow> string" where
  "pattern_of path = concat (map (\<lambda>c. if glob_special c then [backslash, c] else [c]) path)"

section \<open>The backend\<close>

record file_meta =
  fm_file :: bool
  fm_dir :: bool
  fm_uid :: nat
  fm_mode :: nat
  fm_links :: nat
  fm_size :: nat

record restic_call =
  rc_program :: string
  rc_env :: "(string \<times> string) list"
  rc_args :: "string list"
  rc_limit :: nat

record backend_host =
  bk_env :: "string \<Rightarrow> string option"
  bk_meta :: "string \<Rightarrow> file_meta option"     \<comment> \<open>\<open>symlink_metadata\<close>\<close>
  bk_real :: "string \<Rightarrow> string option"        \<comment> \<open>\<open>canonicalize\<close>\<close>
  bk_uid :: nat
  bk_private :: "string \<Rightarrow> string option"     \<comment> \<open>\<open>read_private\<close>, 64 KiB\<close>
  bk_capture :: "restic_call \<Rightarrow> string option" \<comment> \<open>output of a call that exited with 0\<close>
  bk_json :: "string \<Rightarrow> json option"

definition mode_has :: "nat \<Rightarrow> nat \<Rightarrow> bool" where
  "mode_has mode bits \<longleftrightarrow> and mode bits \<noteq> 0"

fun parent_dirs :: "string \<Rightarrow> string list \<Rightarrow> string list" where
  "parent_dirs dir (c # d # r) = dir # parent_dirs (join_path dir c) (d # r)"
| "parent_dirs dir [c] = [dir]"
| "parent_dirs dir [] = []"

definition ancestors :: "string \<Rightarrow> string list" where
  "ancestors path = rev (parent_dirs ''/'' (tl (path_components path)))"

definition safe_parent :: "backend_host \<Rightarrow> string \<Rightarrow> bool" where
  "safe_parent h dir = (case bk_meta h dir of
       None \<Rightarrow> False
     | Some m \<Rightarrow>
         (let sticky_tmp = (dir = ''/tmp'' \<or> dir = ''/var/tmp'') \<and> fm_uid m = 0 \<and> mode_has (fm_mode m) 0x200
          in fm_dir m \<and> fm_uid m \<in> {0, bk_uid h} \<and> (mode_has (fm_mode m) 0x12 \<longrightarrow> sticky_tmp)))"

definition credential :: "backend_host \<Rightarrow> string \<Rightarrow> bool" where
  "credential h path = (case bk_meta h path of
       None \<Rightarrow> False
     | Some m \<Rightarrow>
         starts_with ''/'' path \<and> \<not> prefix [''/'', ''nix'', ''store''] (path_components path)
         \<and> fm_file m \<and> fm_uid m = bk_uid h \<and> \<not> mode_has (fm_mode m) 0x3F \<and> fm_links m = 1
         \<and> fm_size m \<noteq> 0 \<and> fm_size m \<le> 64 * 1024
         \<and> map_option path_components (bk_real h path) = Some (path_components path)
         \<and> list_all (safe_parent h) (ancestors path))"

record backend =
  be_restic :: string
  be_repository :: string
  be_password :: string
  be_environment :: "string option"
  be_home :: string
  be_host :: string

definition host_name_char :: "char \<Rightarrow> bool" where
  "host_name_char c \<longleftrightarrow> is_ascii_alphanumeric c \<or> c \<in> set ''._-''"

definition backend_ok :: "backend_host \<Rightarrow> backend \<Rightarrow> bool" where
  "backend_ok h b \<longleftrightarrow> starts_with ''/'' (be_restic b) \<and> starts_with ''/'' (be_home b)
     \<and> path_components (be_home b) \<noteq> [''/''] \<and> be_host b \<noteq> [] \<and> length (be_host b) \<le> 128
     \<and> list_all host_name_char (be_host b)
     \<and> credential h (be_repository b) \<and> credential h (be_password b)
     \<and> (case be_environment b of Some p \<Rightarrow> credential h p | None \<Rightarrow> True)"

definition backend_from_env :: "backend_host \<Rightarrow> backend option" where
  "backend_from_env h =
     (case (bk_env h ''SEELE_RESTIC_BIN'', bk_env h ''SEELE_BACKUP_REPOSITORY_FILE'',
            bk_env h ''SEELE_BACKUP_PASSWORD_FILE'', bk_env h ''SEELE_BACKUP_ALLOWED_HOME'', bk_env h ''SEELE_BACKUP_HOST'') of
        (Some restic, Some repository, Some password, Some home, Some hostname) \<Rightarrow>
          (let b = \<lparr>be_restic = restic, be_repository = repository, be_password = password,
                 be_environment = (case bk_env h ''SEELE_BACKUP_BACKEND_FILE'' of Some (c # p) \<Rightarrow> Some (c # p) | _ \<Rightarrow> None),
                 be_home = home, be_host = hostname\<rparr>
           in if backend_ok h b then Some b else None)
      | _ \<Rightarrow> None)"

definition allowed_secrets :: "string list" where
  "allowed_secrets = [''AWS_ACCESS_KEY_ID'', ''AWS_SECRET_ACCESS_KEY'', ''AWS_SESSION_TOKEN'', ''AWS_DEFAULT_REGION'',
     ''B2_ACCOUNT_ID'', ''B2_ACCOUNT_KEY'', ''AZURE_ACCOUNT_NAME'', ''AZURE_ACCOUNT_KEY'',
     ''GOOGLE_APPLICATION_CREDENTIALS'', ''RESTIC_REST_USERNAME'', ''RESTIC_REST_PASSWORD'']"

definition secret_line :: "string \<Rightarrow> (string \<times> string) option" where
  "secret_line line = (case split_once (CHR ''='') line of
       None \<Rightarrow> None
     | Some (key, v) \<Rightarrow>
         (if key \<notin> set allowed_secrets \<or> list_ex is_control (chars v) \<or> starts_with [CHR 0x27] v \<or> starts_with [CHR 0x22] v
          then None else Some (key, v)))"

definition secret_env :: "string \<Rightarrow> (string \<times> string) list option" where
  "secret_env text =
     (if \<not> valid_utf8 text then None
      else those (map secret_line (filter (\<lambda>l. l \<noteq> [] \<and> \<not> starts_with ''#'' l) (str_lines text))))"

definition restic_command :: "backend_host \<Rightarrow> backend \<Rightarrow> (string \<times> string) list \<Rightarrow> string list \<Rightarrow> nat \<Rightarrow> restic_call" where
  "restic_command h b secrets args limit =
     \<lparr>rc_program = be_restic b,
      rc_env = [(''LC_ALL'', ''C''), (''TZ'', ''UTC''),
        (''PATH'', case bk_env h ''SEELE_RESTIC_PATH'' of Some p \<Rightarrow> p | None \<Rightarrow> [])] @ secrets,
      rc_args = [''--no-cache'', ''--no-lock'', ''--repository-file'', be_repository b, ''--password-file'', be_password b] @ args,
      rc_limit = limit\<rparr>"

definition backend_run :: "backend_host \<Rightarrow> backend \<Rightarrow> string list \<Rightarrow> nat \<Rightarrow> string option" where
  "backend_run h b args limit =
     (case (case be_environment b of None \<Rightarrow> Some [] | Some p \<Rightarrow> Option.bind (bk_private h p) secret_env) of
        None \<Rightarrow> None
      | Some secrets \<Rightarrow> bk_capture h (restic_command h b secrets args limit))"

section \<open>Versions of a file\<close>

record version =
  ve_snapshot :: string
  ve_modified :: string
  ve_size :: nat

definition modified_char :: "char \<Rightarrow> bool" where
  "modified_char c \<longleftrightarrow> is_ascii_digit c \<or> c \<in> set ''TZtz.+:-''"

definition modified_of :: "json \<Rightarrow> string" where
  "modified_of v = (case as_str v of
       Some s \<Rightarrow> if length s \<le> 64 \<and> list_all modified_char s then s else ''Unknown modification time''
     | None \<Rightarrow> ''Unknown modification time'')"

fun match_rows :: "string \<Rightarrow> string \<Rightarrow> json list \<Rightarrow> version list \<Rightarrow> version list option" where
  "match_rows path snapshot [] got = Some got"
| "match_rows path snapshot (m # ms) got =
     (if as_str (json_index m ''path'') \<noteq> Some path \<or> json_index m ''type'' \<noteq> JStr ''file''
      then match_rows path snapshot ms got
      else
        (let size = (case as_u64 (json_index m ''size'') of Some n \<Rightarrow> n | None \<Rightarrow> 0)
         in if file_limit < size then match_rows path snapshot ms got
            else if 256 \<le> length got then None
            else match_rows path snapshot ms
                   (got @ [\<lparr>ve_snapshot = snapshot, ve_modified = modified_of (json_index m ''mtime''), ve_size = size\<rparr>])))"

fun entry_rows :: "string \<Rightarrow> json list \<Rightarrow> version list \<Rightarrow> version list option" where
  "entry_rows path [] got = Some got"
| "entry_rows path (e # es) got =
     (case (as_str (json_index e ''snapshot''), as_array (json_index e ''matches'')) of
        (Some s, Some ms) \<Rightarrow>
          (if \<not> snapshot_id s \<or> 4096 < length ms then None
           else (case match_rows path s ms got of None \<Rightarrow> None | Some got' \<Rightarrow> entry_rows path es got'))
      | _ \<Rightarrow> None)"

definition find_args :: "backend \<Rightarrow> string \<Rightarrow> string list" where
  "find_args b path = [''find'', ''--json'', ''--tag'', ''seele'', ''--host'', be_host b, ''--'', pattern_of path]"

definition list_versions :: "backend_host \<Rightarrow> backend \<Rightarrow> string \<Rightarrow> version list option" where
  "list_versions h b path =
     (if \<not> valid_path path (be_home b) then None
      else (case Option.bind (backend_run h b (find_args b path) file_limit) (bk_json h) of
          Some (JArr entries) \<Rightarrow> if 4096 < length entries then None else entry_rows path entries []
        | _ \<Rightarrow> None))"

definition dump :: "backend_host \<Rightarrow> backend \<Rightarrow> string \<Rightarrow> string \<Rightarrow> string option" where
  "dump h b snapshot path =
     (if \<not> snapshot_id snapshot then None
      else (case list_versions h b path of
          None \<Rightarrow> None
        | Some got \<Rightarrow> (case find (\<lambda>r. ve_snapshot r = snapshot) got of
            None \<Rightarrow> None
          | Some r \<Rightarrow> (case backend_run h b [''dump'', snapshot, path] file_limit of
              None \<Rightarrow> None
            | Some bytes \<Rightarrow> if length bytes = ve_size r then Some bytes else None))))"

definition version_json :: "version \<Rightarrow> json" where
  "version_json r = JObj [(''snapshot'', JStr (ve_snapshot r)), (''modified'', JStr (ve_modified r)),
     (''size'', JNum (nat_digits (ve_size r)))]"

text \<open>The output of \<open>seele-backup-files\<close>: a list of versions or the bytes of one.\<close>

definition backup_files :: "backend_host \<Rightarrow> string list \<Rightarrow> (json + string) option" where
  "backup_files h args = (case backend_from_env h of
       None \<Rightarrow> None
     | Some b \<Rightarrow> (case args of
         [mode, path] \<Rightarrow>
           (if mode = ''versions'' then map_option (\<lambda>got. Inl (JArr (map version_json got))) (list_versions h b path) else None)
       | [mode, snapshot, path] \<Rightarrow> (if mode = ''dump'' then map_option Inr (dump h b snapshot path) else None)
       | _ \<Rightarrow> None))"

section \<open>The restore dialogs\<close>

datatype dialog = Answered string | Dismissed | Dialog_failed

type_synonym disk = "nat \<Rightarrow> string option"

text \<open>\<open>rs_place\<close> names the directory entry a path denotes, so that paths may alias. \<open>rs_linked\<close> is what
  else \<open>persist_noclobber\<close> needs beside a free name, \<open>rs_staged\<close> that a temporary file can be made, written
  and synced beside the destination.\<close>

record restore_host =
  rs_helper :: "string list \<Rightarrow> string option"   \<comment> \<open>\<open>run0\<close> on \<open>seele-backup-files\<close>\<close>
  rs_json :: "string \<Rightarrow> json option"
  rs_runtime :: bool                             \<comment> \<open>a private runtime directory of the user\<close>
  rs_temp :: "string option"                     \<comment> \<open>\<open>tempdir_in\<close>\<close>
  rs_place :: "string \<Rightarrow> nat"
  rs_preview :: "string \<Rightarrow> bool"                \<comment> \<open>Quick Look on the staged file\<close>
  rs_current :: "string \<Rightarrow> string option"        \<comment> \<open>\<open>current\<close>: the live file, at most 16 MiB\<close>
  rs_sha :: "string \<Rightarrow> string"
  rs_diff :: "string \<Rightarrow> string \<Rightarrow> (int \<times> string) option"
  rs_writes :: "string \<Rightarrow> bool"                 \<comment> \<open>\<open>fs::write\<close> and its mode on the staged file\<close>
  rs_staged :: "string \<Rightarrow> bool"
  rs_linked :: "string \<Rightarrow> bool"
  rs_synced :: "string \<Rightarrow> bool"

definition helper_trusted :: "string \<Rightarrow> file_meta \<Rightarrow> bool" where
  "helper_trusted program m \<longleftrightarrow> prefix [''/'', ''nix'', ''store''] (path_components program)
     \<and> last (path_components program) = ''seele-backup-files'' \<and> fm_file m \<and> fm_uid m = 0
     \<and> \<not> mode_has (fm_mode m) 0x12 \<and> mode_has (fm_mode m) 0x49"

definition helper_command :: "string \<Rightarrow> string \<Rightarrow> string list \<Rightarrow> string list" where
  "helper_command run0 program args = [run0, ''--pipe'', ''--property=RuntimeMaxSec=180'', ''--'', program] @ args"

definition safe_char :: "nat \<Rightarrow> bool" where
  "safe_char c \<longleftrightarrow> c = 10 \<or> c = 9 \<or> (\<not> is_control c \<and> \<not> (0x200B \<le> c \<and> c \<le> 0x200F)
     \<and> \<not> (0x202A \<le> c \<and> c \<le> 0x202E) \<and> \<not> (0x2060 \<le> c \<and> c \<le> 0x206F))"

definition safe_text :: "string \<Rightarrow> string" where
  "safe_text s = of_chars (filter safe_char (chars s))"

definition compare_header :: "restore_host \<Rightarrow> string \<Rightarrow> string \<Rightarrow> string" where
  "compare_header h live backup =
     ''Current: '' @ nat_digits (length live) @ '' bytes, SHA-256 '' @ rs_sha h live @ [newline]
     @ ''Backup: '' @ nat_digits (length backup) @ '' bytes, SHA-256 '' @ rs_sha h backup @ [newline, newline]"

definition text_bytes :: "string \<Rightarrow> bool" where
  "text_bytes s \<longleftrightarrow> length s \<le> 1024 * 1024 \<and> nul \<notin> set s \<and> valid_utf8 s"

definition unavailable_note :: string where
  "unavailable_note = ''The current file is unavailable or exceeds the 16 MiB comparison bound. ''
     @ ''The backup remains available for preview or a restored copy.''"

definition bytes_note :: string where
  "bytes_note = ''These bytes differ. Text diffs are available for UTF-8 files up to 1 MiB; ''
     @ ''larger or binary files show hashes and sizes.''"

text \<open>The text \<open>compare\<close> shows; the difference is the parameter's, read lossily there.\<close>

definition compare_text :: "restore_host \<Rightarrow> string \<Rightarrow> string \<Rightarrow> string option" where
  "compare_text h path backup = (case rs_current h path of
       None \<Rightarrow> Some unavailable_note
     | Some live \<Rightarrow>
         (if live = backup then Some (compare_header h live backup @ ''The bytes are identical.'')
          else if text_bytes live \<and> text_bytes backup
          then (case rs_diff h backup live of
                  None \<Rightarrow> None
                | Some (code, shown) \<Rightarrow>
                    Some (compare_header h live backup
                      @ (if code = 0 \<or> code = 1 then safe_text shown else bytes_note)))
          else Some (compare_header h live backup @ bytes_note)))"

definition choice_row :: "nat \<Rightarrow> json \<Rightarrow> string list option" where
  "choice_row index row =
     (case (as_str (json_index row ''snapshot''), as_u64 (json_index row ''size'')) of
        (Some s, Some n) \<Rightarrow>
          (if snapshot_id s
           then Some [nat_digits index,
             safe_text (case as_str (json_index row ''modified'') of Some m \<Rightarrow> m | None \<Rightarrow> ''Unknown''),
             nat_digits n, take 12 s]
           else None)
      | _ \<Rightarrow> None)"

definition choice_header :: "string list" where
  "choice_header = [''--list'', ''--title=Choose a backup version'', ''--column=Choice'', ''--column=Modified'',
     ''--column=Bytes'', ''--column=Snapshot'', ''--print-column=1'']"

definition choices :: "json list \<Rightarrow> string list option" where
  "choices listed = map_option (\<lambda>cells. choice_header @ concat cells)
     (those (map (\<lambda>i. choice_row i (listed ! i)) [0..<length listed]))"

definition last_name :: "string \<Rightarrow> string option" where
  "last_name p = (case rev (path_components p) of
       c # _ \<Rightarrow> if c = ''/'' \<or> c = ''.'' \<or> c = ''..'' then None else Some c | [] \<Rightarrow> None)"

definition suggested_copy :: "string \<Rightarrow> string \<Rightarrow> string" where
  "suggested_copy name snapshot = name @ ''-restored-'' @ take 12 snapshot"

definition chosen_version :: "restore_host \<Rightarrow> string \<Rightarrow> json list \<Rightarrow> string \<Rightarrow> (string \<times> string) option" where
  "chosen_version h path listed answer = (case parse_uint u64_max answer of
       None \<Rightarrow> None
     | Some i \<Rightarrow>
         (if length listed \<le> i then None
          else (case as_str (json_index (listed ! i) ''snapshot'') of
              None \<Rightarrow> None
            | Some snapshot \<Rightarrow> (case rs_helper h [''dump'', snapshot, path] of
                None \<Rightarrow> None
              | Some bytes \<Rightarrow>
                  (if file_limit < length bytes \<or> as_u64 (json_index (listed ! i) ''size'') \<noteq> Some (length bytes)
                   then None else Some (snapshot, bytes))))))"

datatype ended = Closed | Broken | Waiting_for_user

definition copy_target :: "string \<Rightarrow> string \<Rightarrow> bool" where
  "copy_target path dest \<longleftrightarrow> starts_with ''/'' dest
     \<and> path_components dest \<noteq> path_components path \<and> path_components dest \<noteq> [''/'']"

text \<open>\<open>persist_noclobber\<close>: the destination gets the bytes only where nothing is.\<close>

definition persist_new :: "restore_host \<Rightarrow> string \<Rightarrow> string \<Rightarrow> disk \<Rightarrow> disk option" where
  "persist_new h dest bytes d =
     (if d (rs_place h dest) \<noteq> None \<or> \<not> rs_linked h dest then None
      else Some (d(rs_place h dest \<mapsto> bytes)))"

datatype copy_end = Copy_failed | Copy_refused | Copy_saved

definition restore_copy :: "restore_host \<Rightarrow> string \<Rightarrow> string \<Rightarrow> string \<Rightarrow> disk \<Rightarrow> copy_end \<times> disk" where
  "restore_copy h path bytes dest d =
     (if \<not> copy_target path dest \<or> \<not> rs_staged h dest then (Copy_failed, d)
      else (case persist_new h dest bytes d of
          None \<Rightarrow> (Copy_refused, d)
        | Some d' \<Rightarrow> (if rs_synced h dest then Copy_saved else Copy_failed, d')))"

text \<open>The two nested loops over the answers of the user: choosing a version (\<open>None\<close>), then what to do
  with it. A message that is shown takes one answer. The session waits when the answers run out.\<close>

function session ::
    "restore_host \<Rightarrow> string \<Rightarrow> json list \<Rightarrow> string \<Rightarrow> (string \<times> string) option \<Rightarrow> dialog list \<Rightarrow> disk \<Rightarrow> ended \<times> disk" where
  "session h path listed stage v [] d = (Waiting_for_user, d)"
| "session h path listed stage None (a # as) d = (case a of
       Dialog_failed \<Rightarrow> (Broken, d)
     | Dismissed \<Rightarrow> (Closed, d)
     | Answered s \<Rightarrow> (case chosen_version h path listed s of
         None \<Rightarrow> (Broken, d)
       | Some v \<Rightarrow>
           (if \<not> rs_writes h stage then (Broken, d)
            else session h path listed stage (Some v) as (d(rs_place h stage \<mapsto> snd v)))))"
| "session h path listed stage (Some v) (a # as) d = (case a of
       Dialog_failed \<Rightarrow> (Broken, d)
     | Dismissed \<Rightarrow> (Closed, d)
     | Answered action \<Rightarrow>
         (if action = ''Choose another version'' then session h path listed stage None as d
          else if action = ''Restore a copy'' then (case as of
              [] \<Rightarrow> (Waiting_for_user, d)
            | Dialog_failed # r \<Rightarrow> (Broken, d)
            | Dismissed # r \<Rightarrow> session h path listed stage (Some v) r d
            | Answered dest # r \<Rightarrow> (case restore_copy h path (snd v) dest d of
                (Copy_failed, d') \<Rightarrow> (Broken, d')
              | (fate, d') \<Rightarrow> (case r of
                    [] \<Rightarrow> (Waiting_for_user, d')
                  | b # r' \<Rightarrow> if b = Dialog_failed then (Broken, d') else session h path listed stage (Some v) r' d')))
          else if action = ''Preview'' \<and> rs_preview h stage
              \<or> action = ''Compare with current'' \<and> compare_text h path (snd v) \<noteq> None
          then (case as of
              [] \<Rightarrow> (Waiting_for_user, d)
            | b # r \<Rightarrow> if b = Dialog_failed then (Broken, d) else session h path listed stage (Some v) r d)
          else (Broken, d)))"
  by pat_completeness auto

termination
  by (relation "measure (\<lambda>(h, path, listed, stage, v, as, d). length as)") auto

definition close_stage :: "restore_host \<Rightarrow> string \<Rightarrow> ended \<times> disk \<Rightarrow> ended \<times> disk" where
  "close_stage h stage r =
     (fst r, if fst r = Waiting_for_user then snd r else (snd r)(rs_place h stage := None))"

definition restore_file :: "restore_host \<Rightarrow> string \<Rightarrow> dialog list \<Rightarrow> disk \<Rightarrow> ended \<times> disk" where
  "restore_file h path answers d =
     (case Option.bind (rs_helper h [''versions'', path]) (rs_json h) of
        Some (JArr []) \<Rightarrow> (case answers of
            [] \<Rightarrow> (Waiting_for_user, d) | b # r \<Rightarrow> (if b = Dialog_failed then Broken else Closed, d))
      | Some (JArr listed) \<Rightarrow>
          (if 256 < length listed \<or> choices listed = None \<or> \<not> rs_runtime h then (Broken, d)
           else (case (rs_temp h, last_name path) of
               (Some temp, Some name) \<Rightarrow>
                 close_stage h (join_path temp name) (session h path listed (join_path temp name) None answers d)
             | (Some _, None) \<Rightarrow> (case answers of
                   [] \<Rightarrow> (Waiting_for_user, d) | Dismissed # r \<Rightarrow> (Closed, d) | _ \<Rightarrow> (Broken, d))
             | (None, _) \<Rightarrow> (Broken, d)))
      | _ \<Rightarrow> (Broken, d))"

definition restore_run :: "restore_host \<Rightarrow> string list \<Rightarrow> dialog list \<Rightarrow> disk \<Rightarrow> ended \<times> disk" where
  "restore_run h args answers d = (case args of
       [path] \<Rightarrow> restore_file h path answers d
     | [] \<Rightarrow> (case answers of
         [] \<Rightarrow> (Waiting_for_user, d)
       | Dialog_failed # r \<Rightarrow> (Broken, d)
       | Dismissed # r \<Rightarrow> (Closed, d)
       | Answered path # r \<Rightarrow> restore_file h path r d)
     | _ \<Rightarrow> (Broken, d))"

end
