(* ===== verification/Restore_Theorems.thy ===== *)
theory Restore_Theorems
  imports Restore_Model
begin

text \<open>
  The restore of a backed-up file: the pattern finds exactly its path, what is dumped is a listed
  version of that path, the dialogs accept what the privileged helper prints, and no file of the user is
  ever overwritten.
\<close>

section \<open>Patterns\<close>

text \<open>The matcher of restic as documented (Go's \<open>path.Match\<close>), as far as a pattern without wildcards needs
  it: an ordinary character stands for itself, and so does any character after a backslash.\<close>

definition glob_laws :: "(string \<Rightarrow> string \<Rightarrow> bool) \<Rightarrow> bool" where
  "glob_laws m \<longleftrightarrow> (\<forall>s. m [] s = (s = []))
     \<and> (\<forall>c p s. \<not> glob_special c \<longrightarrow> m (c # p) s = (\<exists>t. s = c # t \<and> m p t))
     \<and> (\<forall>c p s. m (backslash # c # p) s = (\<exists>t. s = c # t \<and> m p t))"

lemma pattern_of_Cons:
  "pattern_of (c # p) = (if glob_special c then backslash # c # pattern_of p else c # pattern_of p)"
  by (simp add: pattern_of_def)

text \<open>A backup is looked up for exactly one path. Under the documented matching of restic, the pattern
  built from a path matches that path and no other, whatever wildcards, brackets or backslashes the
  name contains.\<close>

theorem pattern_matches_itself:
  assumes "glob_laws m"
  shows "m (pattern_of p) s \<longleftrightarrow> s = p"
proof (induction p arbitrary: s)
  case Nil
  then show ?case using assms by (simp add: pattern_of_def glob_laws_def)
next
  case (Cons c p)
  have "m (pattern_of (c # p)) s \<longleftrightarrow> (\<exists>t. s = c # t \<and> m (pattern_of p) t)"
    using assms by (simp add: pattern_of_Cons glob_laws_def)
  then show ?case using Cons.IH by auto
qed

fun literal_match :: "string \<Rightarrow> string \<Rightarrow> bool" where
  "literal_match [] s = (s = [])"
| "literal_match (c # p) s =
     (if c = backslash then (case p of d # q \<Rightarrow> (case s of e # t \<Rightarrow> e = d \<and> literal_match q t | [] \<Rightarrow> False) | [] \<Rightarrow> False)
      else (case s of e # t \<Rightarrow> e = c \<and> literal_match p t | [] \<Rightarrow> False))"

lemma literal_match_laws: "glob_laws literal_match"
proof -
  have b: "glob_special backslash" by (simp add: glob_special_def)
  have "literal_match (c # p) s = (\<exists>t. s = c # t \<and> literal_match p t)" if "\<not> glob_special c" for c p s
    using that b by (cases s) auto
  moreover have "literal_match (backslash # c # p) s = (\<exists>t. s = c # t \<and> literal_match p t)" for c p s
    by (cases s) auto
  ultimately show ?thesis unfolding glob_laws_def by simp
qed

theorem pattern_matches_itself_witness:
  "literal_match (pattern_of ''/home/a*[b]'') ''/home/a*[b]'' \<and> \<not> literal_match (pattern_of ''/home/a*[b]'') ''/home/ab''"
  by (simp add: pattern_matches_itself [OF literal_match_laws])

section \<open>Listed versions\<close>

definition listed_match :: "string \<Rightarrow> json \<Rightarrow> version \<Rightarrow> bool" where
  "listed_match path e r \<longleftrightarrow> as_str (json_index e ''snapshot'') = Some (ve_snapshot r) \<and> snapshot_id (ve_snapshot r)
     \<and> ve_size r \<le> file_limit
     \<and> (\<exists>ms m. as_array (json_index e ''matches'') = Some ms \<and> m \<in> set ms \<and> as_str (json_index m ''path'') = Some path
          \<and> json_index m ''type'' = JStr ''file''
          \<and> ve_size r = (case as_u64 (json_index m ''size'') of Some n \<Rightarrow> n | None \<Rightarrow> 0))"

lemma match_rows_in:
  "match_rows path snapshot ms got = Some got' \<Longrightarrow> length got \<le> 256 \<Longrightarrow> length got' \<le> 256
    \<and> (\<forall>r \<in> set got'. r \<in> set got \<or> ve_snapshot r = snapshot \<and> ve_size r \<le> file_limit
        \<and> (\<exists>m \<in> set ms. as_str (json_index m ''path'') = Some path \<and> json_index m ''type'' = JStr ''file''
            \<and> ve_size r = (case as_u64 (json_index m ''size'') of Some n \<Rightarrow> n | None \<Rightarrow> 0)))"
proof (induction path snapshot ms got rule: match_rows.induct)
  case (2 path snapshot m ms got)
  define n where "n = (case as_u64 (json_index m ''size'') of Some n \<Rightarrow> n | None \<Rightarrow> 0)"
  consider (skip) "as_str (json_index m ''path'') \<noteq> Some path \<or> json_index m ''type'' \<noteq> JStr ''file''"
    | (large) "as_str (json_index m ''path'') = Some path" "json_index m ''type'' = JStr ''file''" "file_limit < n"
    | (row) "as_str (json_index m ''path'') = Some path" "json_index m ''type'' = JStr ''file''" "n \<le> file_limit"
        "length got < 256"
    using 2(4) by (auto simp: n_def split: if_splits) fastforce
  then show ?case
  proof cases
    case skip
    then show ?thesis using 2(1) [OF skip] 2(4,5) by auto
  next
    case large
    then show ?thesis using 2(2) [of n] 2(4,5) by (auto simp: n_def)
  next
    case row
    then show ?thesis using 2(3) [of n] 2(4,5) by (auto simp: n_def)
  qed
qed auto

lemma entry_rows_in:
  "entry_rows path es got = Some got' \<Longrightarrow> length got \<le> 256 \<Longrightarrow> length got' \<le> 256
    \<and> (\<forall>r \<in> set got'. r \<in> set got \<or> (\<exists>e \<in> set es. listed_match path e r))"
proof (induction path es got rule: entry_rows.induct)
  case (2 path e es got)
  obtain s ms mid where e: "as_str (json_index e ''snapshot'') = Some s" "as_array (json_index e ''matches'') = Some ms"
      "snapshot_id s" "length ms \<le> 4096"
    and m: "match_rows path s ms got = Some mid" and r: "entry_rows path es mid = Some got'"
    using 2(2) by (auto split: option.splits if_splits)
  have mid: "length mid \<le> 256" and first: "\<forall>r \<in> set mid. r \<in> set got \<or> listed_match path e r"
    using match_rows_in [OF m 2(3)] e by (auto simp: listed_match_def)
  then show ?case using 2(1) [OF refl e(1,2) _ m r mid] e(3,4) by fastforce
qed auto

lemma list_versions_in:
  assumes "list_versions h b path = Some got"
  shows "valid_path path (be_home b) \<and> length got \<le> 256
    \<and> (\<exists>listing entries. backend_run h b (find_args b path) file_limit = Some listing \<and> bk_json h listing = Some (JArr entries)
        \<and> (\<forall>r \<in> set got. \<exists>e \<in> set entries. listed_match path e r))"
proof -
  obtain listing entries where l: "valid_path path (be_home b)"
      "backend_run h b (find_args b path) file_limit = Some listing" "bk_json h listing = Some (JArr entries)"
    and r: "entry_rows path entries [] = Some got"
    using assms by (auto simp: list_versions_def bind_eq_Some_conv split: if_splits option.splits json.splits)
  show ?thesis using l entry_rows_in [OF r] by auto
qed

text \<open>C35: What is dumped is a listed version of the file. When the privileged helper hands out bytes, the
  path is a plain absolute path inside the configured home, the snapshot is listed, for the tag and host
  of the configuration, as holding exactly this path as a regular file, and the bytes are the output of
  restic for that snapshot and path, complete by the listed size and at most 16 MiB.\<close>

theorem dump_is_listed_version:
  assumes "dump h b snapshot path = Some bytes"
  shows "valid_path path (be_home b)
    \<and> backend_run h b [''dump'', snapshot, path] file_limit = Some bytes \<and> length bytes \<le> file_limit
    \<and> (\<exists>listing entries e r. backend_run h b (find_args b path) file_limit = Some listing
        \<and> bk_json h listing = Some (JArr entries) \<and> e \<in> set entries \<and> listed_match path e r
        \<and> ve_snapshot r = snapshot \<and> ve_size r = length bytes)"
proof -
  obtain got r where v: "list_versions h b path = Some got" and f: "find (\<lambda>r. ve_snapshot r = snapshot) got = Some r"
    and d: "backend_run h b [''dump'', snapshot, path] file_limit = Some bytes" "length bytes = ve_size r"
    using assms by (auto simp: dump_def split: if_splits option.splits)
  have r: "r \<in> set got" "ve_snapshot r = snapshot" using f by (auto simp: find_Some_iff)
  obtain listing entries e where l: "valid_path path (be_home b)"
      "backend_run h b (find_args b path) file_limit = Some listing" "bk_json h listing = Some (JArr entries)"
      "e \<in> set entries" "listed_match path e r"
    using list_versions_in [OF v] r(1) by blast
  have "ve_size r \<le> file_limit" using l(5) by (simp add: listed_match_def)
  then show ?thesis using l r(2) d by auto
qed

section \<open>The dialogs and the helper\<close>

lemma version_json_fields:
  "ve_size r \<le> file_limit \<Longrightarrow> as_str (json_index (version_json r) ''snapshot'') = Some (ve_snapshot r)
    \<and> as_u64 (json_index (version_json r) ''size'') = Some (ve_size r)"
  by (simp add: version_json_def json_index_def file_limit_def del: nat_digits.simps)

lemma those_map_Some: "(\<And>x. x \<in> set xs \<Longrightarrow> g x \<noteq> None) \<Longrightarrow> those (map g xs) \<noteq> None"
proof (induction xs)
  case (Cons x xs)
  then have "those (map g xs) \<noteq> None" by simp
  then show ?case using Cons.prems [of x] by (cases "g x") auto
qed simp

text \<open>The unprivileged dialogs accept what the privileged helper prints. Every list of versions the
  helper answers can be shown, and the version chosen from it is taken over with the bytes the helper
  dumps for it: the two programs agree on the bounds and on the size that is checked twice.\<close>

theorem dialogs_accept_helper:
  assumes "list_versions b_h b path = Some got" "i < length got"
    and "rs_helper h [''dump'', ve_snapshot (got ! i), path] = dump b_h b (ve_snapshot (got ! i)) path"
    and "dump b_h b (ve_snapshot (got ! i)) path = Some bytes"
    and "distinct (map ve_snapshot got)"
  shows "length got \<le> 256 \<and> choices (map version_json got) \<noteq> None
    \<and> chosen_version h path (map version_json got) (nat_digits i) = Some (ve_snapshot (got ! i), bytes)"
proof -
  have listed: "\<exists>e. listed_match path e r" if "r \<in> set got" for r
    using list_versions_in [OF assms(1)] that by blast
  have r: "ve_size r \<le> file_limit" "snapshot_id (ve_snapshot r)" if "r \<in> set got" for r
    using listed [OF that] by (auto simp: listed_match_def)
  have "choice_row k (version_json r) \<noteq> None" if "r \<in> set got" for k r
    using version_json_fields r [OF that] by (simp add: choice_row_def)
  then have shown: "choices (map version_json got) \<noteq> None"
    using those_map_Some [of "[0..<length got]" "\<lambda>i. choice_row i (map version_json got ! i)"]
    by (simp add: choices_def)
  obtain q where q: "find (\<lambda>r. ve_snapshot r = ve_snapshot (got ! i)) got = Some q" "length bytes = ve_size q"
    using assms(1,4) by (auto simp: dump_def split: if_splits option.splits)
  then have "q \<in> set got" "ve_snapshot q = ve_snapshot (got ! i)" by (auto simp: find_Some_iff)
  then have size: "length bytes = ve_size (got ! i)"
    using q(2) assms(2,5) by (metis in_set_conv_nth length_map nth_eq_iff_index_eq nth_map)
  have bound: "length got \<le> 256" using list_versions_in [OF assms(1)] by blast
  have "parse_uint u64_max (nat_digits i) = Some i" using bound assms(2) by (simp del: nat_digits.simps)
  then have "chosen_version h path (map version_json got) (nat_digits i) = Some (ve_snapshot (got ! i), bytes)"
    using version_json_fields [of "got ! i"] r [of "got ! i"] assms(2,3,4) size
    by (simp add: chosen_version_def del: nat_digits.simps)
  then show ?thesis using shown bound by simp
qed

section \<open>No file is overwritten\<close>

text \<open>An entry a session creates beside the staged file: the chosen version's bytes, at an absolute path
  the user entered that is not the original's.\<close>

definition copied :: "restore_host \<Rightarrow> string \<Rightarrow> json list \<Rightarrow> nat \<Rightarrow> string \<Rightarrow> bool" where
  "copied h path listed l bytes \<longleftrightarrow> (\<exists>answer snapshot dest. chosen_version h path listed answer = Some (snapshot, bytes)
     \<and> copy_target path dest \<and> l = rs_place h dest)"

definition gentle_to :: "restore_host \<Rightarrow> string \<Rightarrow> json list \<Rightarrow> nat \<Rightarrow> disk \<Rightarrow> disk \<Rightarrow> bool" where
  "gentle_to h path listed st d d' \<longleftrightarrow> (\<forall>l. l \<noteq> st \<longrightarrow> d' l = d l
     \<or> (d l = None \<and> (\<exists>bytes. d' l = Some bytes \<and> copied h path listed l bytes)))"

lemma gentle_refl [simp]: "gentle_to h path listed st d d"
  by (simp add: gentle_to_def)

lemma gentle_trans:
  assumes "gentle_to h path listed st d d'" "gentle_to h path listed st d' d''"
  shows "gentle_to h path listed st d d''"
  unfolding gentle_to_def
proof (intro allI impI)
  fix l
  assume "l \<noteq> st"
  then show "d'' l = d l \<or> (d l = None \<and> (\<exists>bytes. d'' l = Some bytes \<and> copied h path listed l bytes))"
    using assms [unfolded gentle_to_def, rule_format, of l] by auto
qed

lemma gentle_stage: "gentle_to h path listed st (d(st := v)) d' \<Longrightarrow> gentle_to h path listed st d d'"
  by (auto simp: gentle_to_def)

lemma copiedI:
  "chosen_version h path listed answer = Some (snapshot, bytes) \<Longrightarrow> copy_target path dest
    \<Longrightarrow> copied h path listed (rs_place h dest) bytes"
  unfolding copied_def by blast

lemma restore_copy_gentle:
  assumes "restore_copy h path bytes dest d = (fate, d')" "chosen_version h path listed answer = Some (snapshot, bytes)"
  shows "gentle_to h path listed st d d'"
  using assms by (auto simp: restore_copy_def persist_new_def gentle_to_def intro: copiedI split: if_splits option.splits)

text \<open>One iteration: the session ends with a disk it may leave, or goes on with fewer answers.\<close>

definition chosen :: "restore_host \<Rightarrow> string \<Rightarrow> json list \<Rightarrow> (string \<times> string) option \<Rightarrow> bool" where
  "chosen h path listed v \<longleftrightarrow> (\<forall>w. v = Some w \<longrightarrow> (\<exists>answer. chosen_version h path listed answer = Some w))"

definition onward ::
    "restore_host \<Rightarrow> string \<Rightarrow> json list \<Rightarrow> string \<Rightarrow> nat \<Rightarrow> disk \<Rightarrow> ended \<times> disk \<Rightarrow> bool" where
  "onward h path listed stage n d r \<longleftrightarrow> gentle_to h path listed (rs_place h stage) d (snd r)
     \<or> (\<exists>v as d'. length as < n \<and> chosen h path listed v \<and> gentle_to h path listed (rs_place h stage) d d'
          \<and> session h path listed stage v as d' = r)"

lemma onward_stop: "gentle_to h path listed (rs_place h stage) d d' \<Longrightarrow> onward h path listed stage n d (e, d')"
  by (simp add: onward_def)

lemma onward_go:
  "length as < n \<Longrightarrow> chosen h path listed v \<Longrightarrow> gentle_to h path listed (rs_place h stage) d d'
    \<Longrightarrow> onward h path listed stage n d (session h path listed stage v as d')"
  unfolding onward_def by blast

lemma staged_gentle: "gentle_to h path listed (rs_place h stage) d (d(rs_place h stage \<mapsto> bytes))"
  by (simp add: gentle_to_def)

lemma choosing_iteration:
  "onward h path listed stage (length (a # r)) d (session h path listed stage None (a # r) d)"
proof -
  have "chosen h path listed (Some w)" if "chosen_version h path listed s = Some w" for s w
    using that by (auto simp: chosen_def)
  then show ?thesis
    by (auto intro!: onward_stop onward_go staged_gentle split: dialog.split option.split)
qed

lemma acting_iteration:
  assumes "chosen h path listed (Some w)"
  shows "onward h path listed stage (length (a # r)) d (session h path listed stage (Some w) (a # r) d)"
proof -
  obtain answer where w: "chosen_version h path listed answer = Some (fst w, snd w)"
    using assms by (auto simp: chosen_def)
  have none: "chosen h path listed None" by (simp add: chosen_def)
  have copy: "gentle_to h path listed (rs_place h stage) d d'"
    if "restore_copy h path (snd w) dest d = (fate, d')" for dest fate d'
    by (rule restore_copy_gentle [OF that w])
  show ?thesis
  proof (cases a)
    case (Answered action)
    consider (again) "action = ''Choose another version''" | (restore) "action = ''Restore a copy''"
      | (other) "action \<noteq> ''Choose another version''" "action \<noteq> ''Restore a copy''" by blast
    then show ?thesis
    proof cases
      case again
      then show ?thesis using Answered none by (simp add: onward_go)
    next
      case other
      then show ?thesis
        using Answered assms by (cases r) (simp_all add: onward_stop onward_go)
    next
      case restore
      show ?thesis
      proof (cases r)
        case (Cons b q)
        show ?thesis
        proof (cases b)
          case (Answered dest)
          obtain fate d' where c: "restore_copy h path (snd w) dest d = (fate, d')" by (cases "restore_copy h path (snd w) dest d")
          note g = copy [OF c]
          show ?thesis
            using restore \<open>a = Answered action\<close> Cons Answered c g assms
            by (cases fate; cases q) (simp_all add: onward_stop onward_go)
        qed (use restore \<open>a = Answered action\<close> Cons assms in \<open>simp_all add: onward_stop onward_go\<close>)
      qed (use restore Answered in \<open>simp add: onward_stop\<close>)
    qed
  qed (simp_all add: onward_stop)
qed

lemma session_iteration:
  "chosen h path listed v \<Longrightarrow> onward h path listed stage (length as) d (session h path listed stage v as d)"
  by (cases as; cases v) (simp_all add: onward_stop choosing_iteration acting_iteration del: session.simps(2,3) list.size)

lemma session_gentle:
  "session h path listed stage v as d = (e, d') \<Longrightarrow> chosen h path listed v
    \<Longrightarrow> gentle_to h path listed (rs_place h stage) d d'"
proof (induction as arbitrary: v d rule: length_induct)
  case (1 as)
  have "onward h path listed stage (length as) d (e, d')"
    using session_iteration [OF 1(3), of stage as d] 1(2) by simp
  then consider "gentle_to h path listed (rs_place h stage) d d'"
    | v' bs d'' where "length bs < length as" "chosen h path listed v'"
        "gentle_to h path listed (rs_place h stage) d d''" "session h path listed stage v' bs d'' = (e, d')"
    by (auto simp: onward_def)
  then show ?case
  proof cases
    case 2
    then show ?thesis using 1(1) gentle_trans by blast
  qed assumption
qed


section \<open>A backup\<close>

definition demo_snapshot :: string where "demo_snapshot = replicate 64 (CHR ''a'')"

definition demo_version :: version where
  "demo_version = \<lparr>ve_snapshot = demo_snapshot, ve_modified = ''2026-01-02T03:04:05Z'', ve_size = 5\<rparr>"

definition demo_listing :: json where
  "demo_listing = JArr [JObj [(''snapshot'', JStr demo_snapshot),
     (''matches'', JArr [JObj [(''path'', JStr ''/home/u/notes''), (''type'', JStr ''file''), (''size'', JNum ''5''),
        (''mtime'', JStr ''2026-01-02T03:04:05Z'')]])]]"

definition demo_backend_host :: backend_host where
  "demo_backend_host = \<lparr>bk_env = (\<lambda>k. None), bk_meta = (\<lambda>p. None), bk_real = (\<lambda>p. None), bk_uid = 0, bk_private = (\<lambda>p. None),
     bk_capture = (\<lambda>c. Some (if ''find'' \<in> set (rc_args c) then ''listing'' else ''hello'')),
     bk_json = (\<lambda>s. if s = ''listing'' then Some demo_listing else None)\<rparr>"

definition demo_backend :: backend where
  "demo_backend = \<lparr>be_restic = ''/bin/restic'', be_repository = ''/run/repo'', be_password = ''/run/password'',
     be_environment = None, be_home = ''/home/u'', be_host = ''desk''\<rparr>"

text \<open>The original of the file is entry 1; \<open>/home/u/alias\<close> denotes it too.\<close>

definition demo_restore :: restore_host where
  "demo_restore = \<lparr>
     rs_helper = (\<lambda>args. if args = [''versions'', ''/home/u/notes''] then Some ''printed''
       else if args = [''dump'', demo_snapshot, ''/home/u/notes''] then Some ''hello'' else None),
     rs_json = (\<lambda>s. if s = ''printed'' then Some (JArr [version_json demo_version]) else None),
     rs_runtime = True, rs_temp = Some ''/run/user/seele-restore'',
     rs_place = (\<lambda>p. if p = ''/home/u/notes'' \<or> p = ''/home/u/alias'' then 1 else if p = ''/home/u/copy'' then 2 else 0),
     rs_preview = (\<lambda>p. True), rs_current = (\<lambda>p. Some ''newer''), rs_sha = (\<lambda>s. ''digest''),
     rs_diff = (\<lambda>a b. Some (1, ''diff'')), rs_writes = (\<lambda>p. True), rs_staged = (\<lambda>p. True), rs_linked = (\<lambda>p. True),
     rs_synced = (\<lambda>p. True)\<rparr>"

definition demo_answers :: "dialog list" where
  "demo_answers = [Answered ''0'', Answered ''Restore a copy'', Answered ''/home/u/alias'', Dismissed,
     Answered ''Restore a copy'', Answered ''/home/u/copy'', Dismissed, Dismissed]"

lemma demo_dump: "dump demo_backend_host demo_backend demo_snapshot ''/home/u/notes'' = Some ''hello''"
  by code_simp

theorem dump_is_listed_version_witness:
  "valid_path ''/home/u/notes'' ''/home/u'' \<and> length ''hello'' \<le> file_limit"
  using dump_is_listed_version [OF demo_dump] by (simp add: demo_backend_def)

theorem dialogs_accept_helper_witness:
  "chosen_version demo_restore ''/home/u/notes'' (map version_json [demo_version]) ''0'' = Some (demo_snapshot, ''hello'')"
proof -
  have l: "list_versions demo_backend_host demo_backend ''/home/u/notes'' = Some [demo_version]" by code_simp
  have z: "nat_digits 0 = ''0''" by code_simp
  have s: "ve_snapshot ([demo_version] ! 0) = demo_snapshot" by (simp add: demo_version_def)
  have h: "rs_helper demo_restore [''dump'', ve_snapshot ([demo_version] ! 0), ''/home/u/notes'']
      = dump demo_backend_host demo_backend (ve_snapshot ([demo_version] ! 0)) ''/home/u/notes''"
    by (simp only: s demo_dump) (simp add: demo_restore_def)
  show ?thesis
    using dialogs_accept_helper [OF l _ h] demo_dump z by (simp add: s [simplified] demo_version_def)
qed


end
