(* ===== verification/Notes_Text.thy ===== *)
theory Notes_Text
  imports Restore_Model
begin

text \<open>
  The Markdown half of \<open>projects/tools/src/notes.rs\<close>: what a list row shows of a note, the recordings it
  embeds, and the file name its first line gives it. A panic of the standard library is \<open>None\<close>.
\<close>

section \<open>Strings\<close>

definition trim_front :: "string \<Rightarrow> string" where
  "trim_front s = of_chars (dropWhile is_whitespace (chars s))"

definition trim_matches :: "string \<Rightarrow> string \<Rightarrow> string" where
  "trim_matches p s = rev (dropWhile (\<lambda>c. c \<in> set p) (rev (dropWhile (\<lambda>c. c \<in> set p) s)))"

definition take_chars :: "nat \<Rightarrow> string \<Rightarrow> string" where
  "take_chars n s = of_chars (take n (chars s))"

definition join_words :: "string list \<Rightarrow> string" where
  "join_words ws = concat (map (\<lambda>i. (if i = 0 then [] else '' '') @ ws ! i) [0..<length ws])"

text \<open>\<open>split_inclusive\<close>: lines that keep their newline.\<close>

fun lines_kept :: "string \<Rightarrow> string list" where
  "lines_kept [] = []"
| "lines_kept (c # s) =
     (if c = newline then [c] # lines_kept s
      else (case lines_kept s of l # ls \<Rightarrow> (c # l) # ls | [] \<Rightarrow> [[c]]))"

text \<open>\<open>str::split_at\<close> panics inside a character: a byte of the form \<open>10xxxxxx\<close> continues one.\<close>

definition continuation :: "char \<Rightarrow> bool" where
  "continuation c \<longleftrightarrow> 128 \<le> (of_char c :: nat) \<and> (of_char c :: nat) < 192"

definition str_split_at :: "string \<Rightarrow> nat \<Rightarrow> (string \<times> string) option" where
  "str_split_at s i =
     (if i = 0 \<or> i = length s \<or> i < length s \<and> \<not> continuation (s ! i) then Some (take i s, drop i s) else None)"

text \<open>\<open>String::from_utf8_lossy\<close>: each maximal broken piece becomes U+FFFD.\<close>

definition cont :: "nat \<Rightarrow> bool" where
  "cont b \<longleftrightarrow> 128 \<le> b \<and> b < 192"

definition second_ok :: "nat \<Rightarrow> nat \<Rightarrow> bool" where
  "second_ok b c \<longleftrightarrow> cont c \<and> (b = 0xE0 \<longrightarrow> 0xA0 \<le> c) \<and> (b = 0xED \<longrightarrow> c < 0xA0)
     \<and> (b = 0xF0 \<longrightarrow> 0x90 \<le> c) \<and> (b = 0xF4 \<longrightarrow> c < 0x90)"

definition seq_width :: "nat \<Rightarrow> nat" where
  "seq_width b = (if b < 128 then 1 else if 0xC2 \<le> b \<and> b < 0xE0 then 2 else if 0xE0 \<le> b \<and> b < 0xF0 then 3
     else if 0xF0 \<le> b \<and> b \<le> 0xF4 then 4 else 0)"

text \<open>How many bytes after the lead belong to it, of the \<open>k\<close> it announces.\<close>

fun run_of :: "nat \<Rightarrow> nat list \<Rightarrow> nat" where
  "run_of k [] = 0"
| "run_of k (c # r) = (if 0 < k \<and> cont c then Suc (run_of (k - 1) r) else 0)"

definition piece_len :: "nat \<Rightarrow> nat list \<Rightarrow> nat" where
  "piece_len b r = (case r of
       c # q \<Rightarrow> if 1 < seq_width b \<and> second_ok b c then Suc (run_of (seq_width b - 2) q) else 0
     | [] \<Rightarrow> 0)"

function lossy_chars :: "nat list \<Rightarrow> nat list" where
  "lossy_chars [] = []"
| "lossy_chars (b # r) =
     (if Suc (piece_len b r) = seq_width b then utf8_decode (take (seq_width b) (b # r)) @ lossy_chars (drop (piece_len b r) r)
      else 0xFFFD # lossy_chars (drop (piece_len b r) r))"
  by pat_completeness auto

termination
  by (relation "measure length") auto

definition from_utf8_lossy :: "string \<Rightarrow> string" where
  "from_utf8_lossy s = of_chars (lossy_chars (map of_char s))"

section \<open>Lines\<close>

fun after_marker :: "string list \<Rightarrow> string option" where
  "after_marker [] = None"
| "after_marker (l # ls) =
     (let kept = rev (dropWhile (\<lambda>c. c = newline \<or> c = carriage) (rev l))
      in if kept = ''---'' \<or> kept = ''...'' then Some (concat ls) else after_marker ls)"

definition body_after_frontmatter :: "string \<Rightarrow> string" where
  "body_after_frontmatter s =
     (case strip_pre ''---'' s of
        None \<Rightarrow> s
      | Some r \<Rightarrow> (case (case strip_pre [newline] r of Some q \<Rightarrow> Some q | None \<Rightarrow> strip_pre [carriage, newline] r) of
          None \<Rightarrow> s
        | Some q \<Rightarrow> (case after_marker (lines_kept q) of Some b \<Rightarrow> b | None \<Rightarrow> s)))"

abbreviation (input) ch :: "char \<Rightarrow> nat" where "ch c \<equiv> of_char c"

text \<open>Past the target of a Markdown link: the bracket that closes the one it starts with.\<close>

fun skip_target :: "nat \<Rightarrow> nat list \<Rightarrow> nat list" where
  "skip_target depth [] = []"
| "skip_target depth (c # r) =
     (if c = ch CHR ''('' then skip_target (Suc depth) r
      else if c = ch CHR '')'' then (if depth \<le> 1 then r else skip_target (depth - 1) r)
      else skip_target depth r)"

lemma length_skip_target [simp]: "length (skip_target d cs) \<le> length cs"
  by (induction d cs rule: skip_target.induct) auto

text \<open>A wikilink shows what follows its last bar.\<close>

definition link_words :: "nat list \<Rightarrow> nat list" where
  "link_words inner = trim_chars is_whitespace (last (split_chars (\<lambda>c. c = ch CHR ''|'') inner))"

definition is_bracket :: "nat \<Rightarrow> bool" where "is_bracket c \<longleftrightarrow> c = ch CHR '']''"

definition emphasis :: "nat \<Rightarrow> bool" where
  "emphasis c \<longleftrightarrow> c \<in> {ch CHR ''*'', ch CHR ''_'', ch CHR 0x60, ch CHR ''~''}"

function plain_chars :: "nat list \<Rightarrow> nat list" where
  "plain_chars [] = []"
| "plain_chars (c # r) =
     (if c = ch CHR ''!'' \<and> r \<noteq> [] \<and> hd r = ch CHR ''['' then plain_chars r
      else if c = ch CHR ''['' then
        (if r \<noteq> [] \<and> hd r = ch CHR ''['' then
           link_words (takeWhile (\<lambda>d. \<not> is_bracket d) (tl r))
             @ plain_chars (dropWhile is_bracket (dropWhile (\<lambda>d. \<not> is_bracket d) (tl r)))
         else plain_chars r)
      else if is_bracket c then plain_chars (if r \<noteq> [] \<and> hd r = ch CHR ''('' then skip_target 0 r else r)
      else if emphasis c then plain_chars r
      else c # plain_chars r)"
  by pat_completeness auto

termination
proof (relation "measure length", goal_cases)
  case (3 c r)
  then show ?case
    using length_dropWhile_le [of is_bracket "dropWhile (\<lambda>d. \<not> is_bracket d) (tl r)"]
      length_dropWhile_le [of "\<lambda>d. \<not> is_bracket d" "tl r"] by simp
qed (simp_all add: le_imp_less_Suc)

definition plain_line :: "string \<Rightarrow> string" where
  "plain_line l = join_words (split_whitespace (of_chars (plain_chars (chars l))))"

fun strip_box :: "string list \<Rightarrow> string \<Rightarrow> string" where
  "strip_box [] s = s"
| "strip_box (b # bs) s = (case strip_pre b s of Some r \<Rightarrow> trim_front r | None \<Rightarrow> strip_box bs s)"

definition checkboxes :: "string list" where
  "checkboxes = [''[ ] '', ''[x] '', ''[X] '']"

fun strip_any :: "string list \<Rightarrow> string \<Rightarrow> string option" where
  "strip_any [] s = None"
| "strip_any (p # ps) s = (case strip_pre p s of Some r \<Rightarrow> Some r | None \<Rightarrow> strip_any ps s)"

definition strip_number :: "string \<Rightarrow> string option" where
  "strip_number s =
     (let digits = length (takeWhile is_ascii_digit s)
      in if 0 < digits \<and> digits + 1 < length s
         then (case str_split_at s (digits + 1) of
             None \<Rightarrow> None
           | Some (marker, after) \<Rightarrow>
               Some (if (ends_with ''.'' marker \<or> ends_with '')'' marker) \<and> starts_with '' '' after
                     then trim_front after else s))
         else Some s)"

definition strip_marker :: "string \<Rightarrow> string option" where
  "strip_marker l =
     (let s = trim_front l
      in map_option (strip_box checkboxes)
           (case strip_any [''- '', ''* '', ''+ ''] s of Some r \<Rightarrow> Some (trim_front r) | None \<Rightarrow> strip_number s))"

definition heading_text :: "string \<Rightarrow> string option" where
  "heading_text l =
     (let s = trim_front l; hashes = length (takeWhile (\<lambda>c. c = CHR ''#'') s); r = drop hashes s
      in if hashes = 0 \<or> 6 < hashes then None
         else if \<not> starts_with '' '' r \<and> r \<noteq> [] then None
         else (let words = plain_line (trim (trim_matches ''#'' r)) in if words = [] then None else Some words))"

definition fence :: "string \<Rightarrow> bool" where
  "fence l \<longleftrightarrow> starts_with ''```'' l \<or> starts_with ''~~~'' l"

section \<open>Recordings\<close>

definition is_audio :: "string \<Rightarrow> bool" where
  "is_audio target \<longleftrightarrow>
     list_ex (\<lambda>x. ends_with x (to_ascii_lowercase target)) [''.wav'', ''.ogg'', ''.mp3'', ''.m4a'', ''.flac'', ''.webm'', ''.opus'']"

definition hex_nibble :: "char \<Rightarrow> nat" where
  "hex_nibble c = (if is_ascii_digit c then ch c - 48 else ch (to_ascii_lower c) - 87)"

fun percent_bytes :: "string \<Rightarrow> string" where
  "percent_bytes (c # a # b # r) =
     (if c = CHR ''%'' \<and> is_ascii_hexdigit a \<and> is_ascii_hexdigit b
      then char_of (hex_nibble a * 16 + hex_nibble b) # percent_bytes r
      else c # percent_bytes (a # b # r))"
| "percent_bytes s = s"

definition percent_decode :: "string \<Rightarrow> string" where
  "percent_decode s = from_utf8_lossy (percent_bytes s)"

text \<open>Up to the closing brackets, which the last character cannot be the first of.\<close>

fun wiki_inner :: "nat list \<Rightarrow> nat list \<times> nat list" where
  "wiki_inner (c # d # r) =
     (if is_bracket c \<and> is_bracket d then ([], c # d # r)
      else (let (i, q) = wiki_inner (d # r) in (c # i, q)))"
| "wiki_inner r = ([], r)"

lemma wiki_inner_split: "wiki_inner cs = (i, q) \<Longrightarrow> cs = i @ q"
  by (induction cs arbitrary: i q rule: wiki_inner.induct) (auto split: if_splits prod.splits)

definition wiki_target :: "nat list \<Rightarrow> string" where
  "wiki_target inner =
     of_chars (trim_chars is_whitespace (takeWhile (\<lambda>c. c \<noteq> ch CHR ''|'' \<and> c \<noteq> ch CHR ''#'') inner))"

definition link_target :: "nat list \<Rightarrow> string" where
  "link_target inner =
     percent_decode (trim_matches ''<>'' (case split_whitespace (of_chars inner) of w # ws \<Rightarrow> w | [] \<Rightarrow> []))"

definition found_target :: "string \<Rightarrow> string list" where
  "found_target s = (if length s \<le> 4096 \<and> is_audio s then [s] else [])"

definition is_paren :: "nat \<Rightarrow> bool" where "is_paren c \<longleftrightarrow> c = ch CHR '')''"

text \<open>One step of the scan: the targets found and the rest.\<close>

definition embed_step :: "nat list \<Rightarrow> string list \<times> nat list" where
  "embed_step cs =
     (if cs ! 0 \<noteq> ch CHR ''!'' \<or> cs ! 1 \<noteq> ch CHR ''['' then ([], tl cs)
      else if cs ! 2 = ch CHR ''[''
      then (let (inner, q) = wiki_inner (drop 3 cs) in (found_target (wiki_target inner), drop 2 q))
      else
        (let q = dropWhile (\<lambda>c. \<not> is_bracket c) (drop 2 cs)
         in if 1 < length q \<and> q ! 1 = ch CHR ''(''
            then (found_target (link_target (takeWhile (\<lambda>c. \<not> is_paren c) (drop 2 q))),
                  drop 1 (dropWhile (\<lambda>c. \<not> is_paren c) (drop 2 q)))
            else ([], drop 1 q)))"

lemma embed_step_shrinks: "\<not> length cs < 3 \<Longrightarrow> length (snd (embed_step cs)) < length cs"
proof -
  assume long: "\<not> length cs < 3"
  have a: "length (dropWhile (\<lambda>c. \<not> is_bracket c) (drop 2 cs)) \<le> length cs - 2"
    using length_dropWhile_le [of "\<lambda>c. \<not> is_bracket c" "drop 2 cs"] by simp
  have b: "length (dropWhile (\<lambda>c. \<not> is_paren c) q) \<le> length q" for q
    by (rule length_dropWhile_le)
  have c: "length (snd (wiki_inner q)) \<le> length q" for q
    using wiki_inner_split [of q "fst (wiki_inner q)" "snd (wiki_inner q)"] by (metis le_add2 length_append prod.collapse)
  show ?thesis
    using long a b [of "drop 2 (dropWhile (\<lambda>c. \<not> is_bracket c) (drop 2 cs))"] c [of "drop 3 cs"]
    by (auto simp: embed_step_def Let_def split: prod.splits)
qed

function embeds_loop :: "nat \<Rightarrow> nat list \<Rightarrow> string list" where
  "embeds_loop n cs =
     (if length cs < 3 \<or> 256 \<le> n then []
      else (let (got, q) = embed_step cs in got @ embeds_loop (n + length got) q))"
  by pat_completeness auto

termination
proof (relation "measure (\<lambda>(n, cs). length cs)", goal_cases)
  case (2 n cs x got q)
  then show ?case using embed_step_shrinks [of cs] by (metis case_prod_conv in_measure linorder_not_le snd_conv)
qed simp

declare embeds_loop.simps [simp del]

definition embeds :: "string \<Rightarrow> string list" where
  "embeds s = embeds_loop 0 (chars s)"

section \<open>The row of a note\<close>

record summary =
  sy_title :: string
  sy_excerpt :: string
  sy_audio :: nat

text \<open>The title and the excerpt, or the panic of \<open>strip_marker\<close>.\<close>

fun summary_loop :: "bool \<Rightarrow> string \<Rightarrow> string list \<Rightarrow> (string \<times> string) option" where
  "summary_loop fenced title [] = Some (title, [])"
| "summary_loop fenced title (l # ls) =
     (let s = trim l
      in if fence s then summary_loop (\<not> fenced) title ls
         else if fenced \<or> s = [] then summary_loop fenced title ls
         else (case (if title = [] then heading_text s else None) of
             Some h \<Rightarrow> summary_loop fenced (take_chars 120 h) ls
           | None \<Rightarrow> (case strip_marker s of
               None \<Rightarrow> None
             | Some m \<Rightarrow>
                 (let words = plain_line m
                  in if words = [] then summary_loop fenced title ls
                     else if title = [] then summary_loop fenced (take_chars 120 words) ls
                     else Some (title, take_chars 200 words)))))"

definition summarize :: "string \<Rightarrow> string \<Rightarrow> summary option" where
  "summarize name s =
     map_option (\<lambda>(title, excerpt). \<lparr>sy_title = (if title = [] then name else title), sy_excerpt = excerpt,
         sy_audio = length (embeds s)\<rparr>)
       (summary_loop False [] (str_lines (body_after_frontmatter s)))"

section \<open>The name of a note\<close>

definition max_name :: nat where "max_name = 60"

definition forbidden :: "nat \<Rightarrow> bool" where
  "forbidden c \<longleftrightarrow> c < 32 \<or> c = ch CHR 0x5C \<or> c = ch CHR 0x22 \<or> c \<in> ch ` set ''/:*?<>|#^[]''"

definition sanitize :: "string \<Rightarrow> string" where
  "sanitize s =
     (let out = of_chars (map (\<lambda>c. if forbidden c then 32 else c) (take (max_name * 2) (chars s)))
      in take_chars max_name (trim_matches ''. '' (join_words (split_whitespace out))))"

fun name_loop :: "string list \<Rightarrow> string option" where
  "name_loop [] = Some []"
| "name_loop (l # ls) =
     (let s = trim l
      in if s = [] \<or> starts_with ''```'' s \<or> starts_with ''---'' s \<or> starts_with ''!'' s \<and> embeds s \<noteq> []
         then name_loop ls
         else (case (case heading_text s of Some h \<Rightarrow> Some h | None \<Rightarrow> map_option plain_line (strip_marker s)) of
             None \<Rightarrow> None
           | Some words \<Rightarrow> if sanitize words \<noteq> [] then Some (sanitize words) else name_loop ls))"

text \<open>\<open>stamp\<close> is the local time, which the caller passes.\<close>

definition name_for :: "string \<Rightarrow> string \<Rightarrow> string option" where
  "name_for now_name s =
     map_option (\<lambda>n. if n = [] then now_name else n) (name_loop (str_lines (body_after_frontmatter s)))"

end
