(* ===== verification/Notes_Disk.thy ===== *)
theory Notes_Disk
  imports Notes_Text Transfer_Service
begin

text \<open>
  The file system under the notes store: \<open>runtime/src/fs.rs\<close> and the calls of the standard library that
  \<open>projects/tools/src/notes.rs\<close> makes. A path is its list of components below the root directory, the
  tree an association list in the order directories are read. Every operation of the kernel can fail:
  \<open>nh_ok\<close> says of an operation, a path and the tree whether it does its work. Other programs change
  files between two requests, not within one, and no directory on the way to a file is a symbolic link
  unless \<open>checked_path\<close> has looked at it.
\<close>

section \<open>The tree\<close>

type_synonym npath = "string list"

text \<open>A file with its bytes and whether it is private (owned by the user, one link, no access for
  others); a directory and whether only the user can write to it.\<close>

datatype node = Regular string bool | Folder bool | Symlink | Special

type_synonym disk_tree = "(npath \<times> node) list"

datatype disk_op = Stat | Read | Enumerate | Mkdir | Stage | Publish | Rename | Sync | Unlink

record settings =
  se_vault :: "string option"
  se_directory :: "string option"
  se_attachments :: "string option"
  se_sidebar :: "int option"
  se_collapsed :: "bool option"

record legacy_note =
  lg_title :: string
  lg_body :: string
  lg_updated :: int
  lg_trashed :: bool

record notes_host =
  nh_ok :: "disk_op \<Rightarrow> npath \<Rightarrow> disk_tree \<Rightarrow> bool"
  nh_modified :: "npath \<Rightarrow> disk_tree \<Rightarrow> int"       \<comment> \<open>seconds of the last change\<close>
  nh_access :: "npath \<Rightarrow> disk_tree \<Rightarrow> bool"        \<comment> \<open>\<open>access(W_OK)\<close>\<close>
  nh_umask :: bool                               \<comment> \<open>new directories are not writable for others\<close>
  nh_sha :: "string \<Rightarrow> string"                   \<comment> \<open>SHA-256 in hexadecimal digits\<close>
  nh_parse :: "string \<Rightarrow> json option"
  nh_show :: "json \<Rightarrow> string"
  nh_stamp :: string                             \<comment> \<open>the local time\<close>
  nh_now :: int
  nh_settings :: "string \<Rightarrow> settings option"     \<comment> \<open>serde on the settings file\<close>
  nh_show_settings :: "settings \<Rightarrow> string"
  nh_legacy :: "string \<Rightarrow> legacy_note option"
  nh_declared :: settings                        \<comment> \<open>the defaults of the flake\<close>
  nh_home :: npath
  nh_config :: npath
  nh_state :: npath
  nh_data :: npath
  nh_canonical :: "npath \<Rightarrow> npath option"
  nh_guarded :: "npath \<Rightarrow> bool"                  \<comment> \<open>no ancestor lets another account exchange the vault\<close>
  nh_copied :: "npath \<Rightarrow> disk_tree \<Rightarrow> string option" \<comment> \<open>\<open>io::copy\<close> of an opened file\<close>
  nh_lower :: "string \<Rightarrow> string"                 \<comment> \<open>\<open>to_lowercase\<close>\<close>

section \<open>Operations that end\<close>

text \<open>\<open>Said\<close> is an error of the program's own, \<open>Io\<close> one of the kernel.\<close>

datatype io_kind = Not_found | Already_exists | Other_io

datatype 'a ending = Good 'a | Said string | Io io_kind | Panic

type_synonym 'a note_op = "disk_tree \<Rightarrow> 'a ending \<times> disk_tree"

definition give :: "'a \<Rightarrow> 'a note_op" where
  "give a t = (Good a, t)"

definition fail :: "string \<Rightarrow> 'a note_op" where
  "fail s t = (Said s, t)"

definition look :: "(disk_tree \<Rightarrow> 'a ending) \<Rightarrow> 'a note_op" where
  "look f t = (f t, t)"

definition seq :: "'a note_op \<Rightarrow> ('a \<Rightarrow> 'b note_op) \<Rightarrow> 'b note_op" where
  "seq m k t = (case m t of
       (Good a, t') \<Rightarrow> k a t' | (Said s, t') \<Rightarrow> (Said s, t') | (Io e, t') \<Rightarrow> (Io e, t') | (Panic, t') \<Rightarrow> (Panic, t'))"

text \<open>\<open>let _ = \<dots>\<close>: an error is passed over, a panic is not.\<close>

definition ignored :: "'a note_op \<Rightarrow> unit note_op" where
  "ignored m t = (case m t of (Panic, t') \<Rightarrow> (Panic, t') | (r, t') \<Rightarrow> (Good (), t'))"

definition require :: "bool \<Rightarrow> string \<Rightarrow> unit note_op" where
  "require b s = (if b then give () else fail s)"

definition need :: "'a option \<Rightarrow> string \<Rightarrow> 'a note_op" where
  "need x s = (case x of Some a \<Rightarrow> give a | None \<Rightarrow> fail s)"

definition sure :: "'a option \<Rightarrow> 'a note_op" where
  "sure x t = (case x of Some a \<Rightarrow> Good a | None \<Rightarrow> Panic, t)"

section \<open>Reading\<close>

definition max_text :: nat where "max_text = 2 * 1024 * 1024"
definition max_request :: nat where "max_request = max_text * 6 + 65536"
definition max_response :: nat where "max_response = 32 * 1024 * 1024"
definition max_listed :: nat where "max_listed = 4096"
definition max_search_dirs :: nat where "max_search_dirs = 512"

fun below_file :: "npath \<Rightarrow> disk_tree \<Rightarrow> bool" where
  "below_file p t = (p \<noteq> [] \<and> (case map_of t (butlast p) of
       Some (Regular b k) \<Rightarrow> True | Some Special \<Rightarrow> True | _ \<Rightarrow> False))"

text \<open>\<open>symlink_metadata\<close>.\<close>

definition lstat :: "notes_host \<Rightarrow> npath \<Rightarrow> disk_tree \<Rightarrow> io_kind + node" where
  "lstat h p t =
     (if \<not> nh_ok h Stat p t then Inl Other_io
      else (case map_of t p of
          Some n \<Rightarrow> Inr n
        | None \<Rightarrow> Inl (if below_file p t then Other_io else Not_found)))"

definition is_file :: "notes_host \<Rightarrow> npath \<Rightarrow> disk_tree \<Rightarrow> bool" where
  "is_file h p t = (case lstat h p t of Inr (Regular b k) \<Rightarrow> True | _ \<Rightarrow> False)"

definition is_dir :: "notes_host \<Rightarrow> npath \<Rightarrow> disk_tree \<Rightarrow> bool" where
  "is_dir h p t = (case lstat h p t of Inr (Folder s) \<Rightarrow> True | _ \<Rightarrow> False)"

definition exists :: "notes_host \<Rightarrow> npath \<Rightarrow> disk_tree \<Rightarrow> bool" where
  "exists h p t = (case lstat h p t of Inr n \<Rightarrow> True | Inl e \<Rightarrow> False)"

definition read_bounded :: "notes_host \<Rightarrow> npath \<Rightarrow> nat \<Rightarrow> bool \<Rightarrow> disk_tree \<Rightarrow> string ending" where
  "read_bounded h p limit private t = (case map_of t p of
       Some (Regular b k) \<Rightarrow> (if nh_ok h Read p t \<and> length b \<le> limit \<and> (private \<longrightarrow> k) then Good b else Io Other_io)
     | Some n \<Rightarrow> Io Other_io
     | None \<Rightarrow> Io Not_found)"

definition utf8_ending :: "string ending \<Rightarrow> string ending" where
  "utf8_ending r = (case r of Good b \<Rightarrow> if valid_utf8 b then Good b else Io Other_io | _ \<Rightarrow> r)"

definition read_text :: "notes_host \<Rightarrow> npath \<Rightarrow> disk_tree \<Rightarrow> string ending" where
  "read_text h p t = utf8_ending (read_bounded h p max_text False t)"

definition read_state :: "notes_host \<Rightarrow> npath \<Rightarrow> disk_tree \<Rightarrow> string ending" where
  "read_state h p t = utf8_ending (read_bounded h p max_request True t)"

fun good :: "'a ending \<Rightarrow> 'a option" where
  "good (Good a) = Some a"
| "good (Said s) = None"
| "good (Io e) = None"
| "good Panic = None"

text \<open>The names in a directory, in the order it is read.\<close>

definition read_dir :: "notes_host \<Rightarrow> npath \<Rightarrow> disk_tree \<Rightarrow> string list option" where
  "read_dir h p t = (case map_of t p of
       Some (Folder s) \<Rightarrow>
         if nh_ok h Enumerate p t then Some (map last (filter (\<lambda>q. q \<noteq> [] \<and> butlast q = p) (map fst t))) else None
     | _ \<Rightarrow> None)"

section \<open>Writing\<close>

definition make_dir :: "notes_host \<Rightarrow> bool \<Rightarrow> npath \<Rightarrow> unit note_op" where
  "make_dir h safe p t = (case map_of t p of
       Some (Folder s) \<Rightarrow> (Good (), t)
     | Some n \<Rightarrow> (Io Other_io, t)
     | None \<Rightarrow> (if nh_ok h Mkdir p t then (Good (), AList.update p (Folder safe) t) else (Io Other_io, t)))"

fun make_below :: "notes_host \<Rightarrow> bool \<Rightarrow> npath \<Rightarrow> string list \<Rightarrow> unit note_op" where
  "make_below h safe p [] = give ()"
| "make_below h safe p (c # cs) = seq (make_dir h safe (p @ [c])) (\<lambda>_. make_below h safe (p @ [c]) cs)"

text \<open>\<open>create_dir_all\<close>, and \<open>DirBuilder\<close> with mode 0700 where \<open>safe\<close>.\<close>

definition make_dirs :: "notes_host \<Rightarrow> bool \<Rightarrow> npath \<Rightarrow> unit note_op" where
  "make_dirs h safe p = make_below h safe [] p"

definition private_directory :: "notes_host \<Rightarrow> npath \<Rightarrow> unit note_op" where
  "private_directory h p = seq (make_dirs h True p)
     (\<lambda>_. look (\<lambda>t. if p = [] \<or> map_of t p = Some (Folder True) then Good () else Io Other_io))"

definition base_name_ok :: "npath \<Rightarrow> bool" where
  "base_name_ok p \<longleftrightarrow> p \<noteq> [] \<and> nul \<notin> set (last p) \<and> last p \<noteq> ''.'' \<and> last p \<noteq> ''..'' \<and> last p \<noteq> []"

text \<open>\<open>publish_at\<close>: the bytes are staged in a file of a random name, then linked or renamed to theirs.\<close>

definition publish_at :: "notes_host \<Rightarrow> bool \<Rightarrow> bool \<Rightarrow> npath \<Rightarrow> string \<Rightarrow> unit note_op" where
  "publish_at h exclusive private p bytes t =
     (if \<not> base_name_ok p \<or> \<not> nh_ok h Stage p t then (Io Other_io, t)
      else if exclusive \<and> map_of t p \<noteq> None then (Io Already_exists, t)
      else if (\<exists>s \<in> {True, False}. map_of t p = Some (Folder s)) \<or> \<not> nh_ok h Publish p t then (Io Other_io, t)
      else (let t' = AList.update p (Regular bytes private) t
            in (if nh_ok h Sync p t' then Good () else Io Other_io, t')))"

definition publish_path :: "notes_host \<Rightarrow> bool \<Rightarrow> bool \<Rightarrow> npath \<Rightarrow> string \<Rightarrow> unit note_op" where
  "publish_path h exclusive private p bytes =
     seq (private_directory h (butlast p)) (\<lambda>_. publish_at h exclusive private p bytes)"

text \<open>\<open>rename_noreplace\<close> of a file.\<close>

definition move_file :: "notes_host \<Rightarrow> npath \<Rightarrow> npath \<Rightarrow> unit note_op" where
  "move_file h src dst t =
     (if \<not> base_name_ok src \<or> \<not> base_name_ok dst then (Io Other_io, t)
      else (case map_of t src of
          None \<Rightarrow> (Io Not_found, t)
        | Some n \<Rightarrow>
            (if map_of t dst \<noteq> None then (Io Already_exists, t)
             else if (\<exists>s \<in> {True, False}. n = Folder s) \<or> \<not> nh_ok h Rename dst t then (Io Other_io, t)
             else (let t' = AList.update dst n (AList.delete src t)
                   in (if nh_ok h Sync dst t' then Good () else Io Other_io, t')))))"

definition rename_noreplace :: "notes_host \<Rightarrow> npath \<Rightarrow> npath \<Rightarrow> unit note_op" where
  "rename_noreplace h src dst = seq (private_directory h (butlast src))
     (\<lambda>_. seq (private_directory h (butlast dst)) (\<lambda>_. move_file h src dst))"

definition remove_file :: "notes_host \<Rightarrow> npath \<Rightarrow> unit note_op" where
  "remove_file h p t = (case map_of t p of
       None \<Rightarrow> (Io Not_found, t)
     | Some (Folder s) \<Rightarrow> (Io Other_io, t)
     | Some n \<Rightarrow> (if nh_ok h Unlink p t then (Good (), AList.delete p t) else (Io Other_io, t)))"

section \<open>Free names\<close>

definition file_name :: "string \<Rightarrow> string \<Rightarrow> nat \<Rightarrow> string" where
  "file_name name extension k =
     (if k = 1 then name @ ''.'' @ extension else name @ '' '' @ nat_digits k @ ''.'' @ extension)"

fun unique_loop :: "(npath \<Rightarrow> unit note_op) \<Rightarrow> npath \<Rightarrow> string \<Rightarrow> string \<Rightarrow> nat list \<Rightarrow> npath note_op" where
  "unique_loop pub dir name extension [] t = (Said ''No available filename'', t)"
| "unique_loop pub dir name extension (k # ks) t =
     (let target = dir @ [file_name name extension k]
      in case pub target t of
           (Good _, t') \<Rightarrow> (Good target, t')
         | (Io Already_exists, t') \<Rightarrow> unique_loop pub dir name extension ks t'
         | (Said s, t') \<Rightarrow> (Said s, t') | (Io e, t') \<Rightarrow> (Io e, t') | (Panic, t') \<Rightarrow> (Panic, t'))"

definition unique :: "(npath \<Rightarrow> unit note_op) \<Rightarrow> npath \<Rightarrow> string \<Rightarrow> string \<Rightarrow> npath note_op" where
  "unique pub dir name extension = unique_loop pub dir name extension [1..<10001]"

definition limit_message :: string where
  "limit_message = ''This note exceeds the 2 MiB text limit''"

definition write_new :: "notes_host \<Rightarrow> npath \<Rightarrow> string \<Rightarrow> string \<Rightarrow> npath note_op" where
  "write_new h dir name text =
     (if max_text < length text then fail limit_message
      else unique (\<lambda>p. publish_path h True False p text) dir name ''md'')"

definition move_new :: "notes_host \<Rightarrow> npath \<Rightarrow> npath \<Rightarrow> string \<Rightarrow> string \<Rightarrow> npath note_op" where
  "move_new h src dir name extension = unique (rename_noreplace h src) dir name extension"

definition write_atomic :: "notes_host \<Rightarrow> npath \<Rightarrow> string \<Rightarrow> unit note_op" where
  "write_atomic h p text =
     (if max_text < length text then fail limit_message else publish_path h False False p text)"

end
