(* ===== verification/Notes_Store.thy ===== *)
theory Notes_Store
  imports Notes_Disk
begin

text \<open>
  The vault of \<open>projects/tools/src/notes.rs\<close>: paths that stay inside it, drafts and indexes, the listing,
  recordings, saving, conflicts, the trash. The summaries are computed at every listing; the cache of
  \<open>cached_entry\<close> and its invalidation by inotify are not modelled.
\<close>

section \<open>Paths of the vault\<close>

definition comps :: "string \<Rightarrow> string list" where
  "comps s = filter (\<lambda>c. c \<noteq> [] \<and> c \<noteq> ''.'') (split_on (CHR ''/'') s)"

definition relative_path :: "string \<Rightarrow> bool" where
  "relative_path s \<longleftrightarrow> s \<noteq> [] \<and> length s \<le> 4096 \<and> nul \<notin> set s \<and> \<not> starts_with ''/'' s \<and> ''..'' \<notin> set (comps s)"

text \<open>\<open>file_stem\<close> and \<open>extension\<close> of a name.\<close>

definition split_dot :: "string \<Rightarrow> string \<times> string option" where
  "split_dot n = (case rsplit_once (CHR ''.'') n of
       Some (before, after) \<Rightarrow> if before = [] then (n, None) else (before, Some after)
     | None \<Rightarrow> (n, None))"

definition markdown_name :: "string \<Rightarrow> bool" where
  "markdown_name n \<longleftrightarrow> map_option to_ascii_lowercase (snd (split_dot n)) = Some ''md''"

definition is_markdown :: "npath \<Rightarrow> bool" where
  "is_markdown p \<longleftrightarrow> p \<noteq> [] \<and> markdown_name (last p)"

definition stem :: "npath \<Rightarrow> string" where
  "stem p = (if p \<noteq> [] \<and> valid_utf8 (fst (split_dot (last p))) then fst (split_dot (last p)) else [])"

definition stat_check :: "notes_host \<Rightarrow> npath \<Rightarrow> unit note_op" where
  "stat_check h p = look (\<lambda>t. case lstat h p t of
       Inr Symlink \<Rightarrow> Said ''Unsafe vault path''
     | Inr (Folder False) \<Rightarrow> Said ''Unsafe vault path''
     | Inr n \<Rightarrow> Good ()
     | Inl Not_found \<Rightarrow> Good ()
     | Inl e \<Rightarrow> Io e)"

fun checked_walk :: "notes_host \<Rightarrow> npath \<Rightarrow> string list \<Rightarrow> npath note_op" where
  "checked_walk h p [] = give p"
| "checked_walk h p (c # cs) =
     (if c = ''..'' then fail ''A path cannot leave the vault''
      else seq (stat_check h (p @ [c])) (\<lambda>_. checked_walk h (p @ [c]) cs))"

definition checked_path :: "notes_host \<Rightarrow> npath \<Rightarrow> string list \<Rightarrow> npath note_op" where
  "checked_path h base cs = seq (stat_check h base) (\<lambda>_. checked_walk h base cs)"

record vault =
  vt_root :: npath
  vt_directory :: string
  vt_attachments :: string
  vt_state :: npath

definition notes_dir :: "vault \<Rightarrow> npath" where
  "notes_dir v = vt_root v @ comps (vt_directory v)"

definition attachments_dir :: "vault \<Rightarrow> npath" where
  "attachments_dir v = notes_dir v @ comps (vt_attachments v)"

definition trash_dir :: "vault \<Rightarrow> npath" where
  "trash_dir v = vt_root v @ [''.trash'']"

definition resolve_path :: "notes_host \<Rightarrow> vault \<Rightarrow> string \<Rightarrow> npath note_op" where
  "resolve_path h v s =
     seq (require (relative_path s \<and> is_markdown (comps s)) ''A note must be a vault-relative Markdown file'')
       (\<lambda>_. checked_path h (vt_root v) (comps s))"

definition join_comps :: "string list \<Rightarrow> string" where
  "join_comps cs = concat (map (\<lambda>i. (if i = 0 then [] else ''/'') @ cs ! i) [0..<length cs])"

definition relative_of :: "vault \<Rightarrow> npath \<Rightarrow> string option" where
  "relative_of v p =
     (let s = join_comps (drop (length (vt_root v)) p)
      in if prefix (vt_root v) p \<and> valid_utf8 s then Some s else None)"

definition absolute :: "npath \<Rightarrow> string" where
  "absolute p = ''/'' @ join_comps p"

section \<open>Drafts and indexes\<close>

definition drafts_dir :: "vault \<Rightarrow> npath" where
  "drafts_dir v = vt_state v @ [''drafts'']"

definition draft_path :: "notes_host \<Rightarrow> vault \<Rightarrow> string \<Rightarrow> npath" where
  "draft_path h v s = drafts_dir v @ [nh_sha h s @ ''.json'']"

definition jint :: "int \<Rightarrow> json" where "jint i = JNum (show_int i)"
definition jnat :: "nat \<Rightarrow> json" where "jnat n = JNum (nat_digits n)"
definition int_of :: "json \<Rightarrow> int" where "int_of j = (case as_i64 j of Some i \<Rightarrow> i | None \<Rightarrow> 0)"

definition keep_draft :: "notes_host \<Rightarrow> vault \<Rightarrow> string \<Rightarrow> string \<Rightarrow> string \<Rightarrow> unit note_op" where
  "keep_draft h v s text reason =
     seq (ignored (private_directory h (drafts_dir v)))
       (\<lambda>_. ignored (publish_path h False True (draft_path h v s)
          (nh_show h (json_obj [(''path'', JStr s), (''text'', JStr text), (''reason'', JStr reason), (''saved'', jint (nh_now h))]))))"

definition draft_of :: "notes_host \<Rightarrow> npath \<Rightarrow> disk_tree \<Rightarrow> json option" where
  "draft_of h p t = Option.bind (good (read_state h p t)) (nh_parse h)"

text \<open>The records of older releases are found by the path they hold.\<close>

definition drop_matching :: "notes_host \<Rightarrow> string \<Rightarrow> npath \<Rightarrow> unit note_op" where
  "drop_matching h s p t =
     (if (case draft_of h p t of Some d \<Rightarrow> as_str (json_index d ''path'') = Some s | None \<Rightarrow> False)
      then ignored (remove_file h p) t else (Good (), t))"

fun drop_each :: "notes_host \<Rightarrow> string \<Rightarrow> npath list \<Rightarrow> unit note_op" where
  "drop_each h s [] = give ()"
| "drop_each h s (p # ps) = seq (drop_matching h s p) (\<lambda>_. drop_each h s ps)"

definition drop_draft :: "notes_host \<Rightarrow> vault \<Rightarrow> string \<Rightarrow> unit note_op" where
  "drop_draft h v s =
     seq (ignored (remove_file h (draft_path h v s)))
       (\<lambda>_ t. case read_dir h (drafts_dir v) t of
          None \<Rightarrow> (Good (), t)
        | Some names \<Rightarrow> drop_each h s (map (\<lambda>n. drafts_dir v @ [n]) (take 128 names)) t)"

fun draft_rows :: "notes_host \<Rightarrow> nat \<Rightarrow> npath list \<Rightarrow> disk_tree \<Rightarrow> json list" where
  "draft_rows h sofar [] t = []"
| "draft_rows h sofar (p # ps) t = (case good (read_state h p t) of
       None \<Rightarrow> draft_rows h sofar ps t
     | Some b \<Rightarrow>
         (if max_response div 2 < sofar + length b then []
          else (case nh_parse h b of Some j \<Rightarrow> [j] | None \<Rightarrow> []) @ draft_rows h (sofar + length b) ps t))"

definition drafts :: "notes_host \<Rightarrow> vault \<Rightarrow> disk_tree \<Rightarrow> json list" where
  "drafts h v t = (case read_dir h (drafts_dir v) t of
       None \<Rightarrow> []
     | Some names \<Rightarrow>
         sort_key (\<lambda>j. int_of (json_index j ''saved'')) (draft_rows h 0 (map (\<lambda>n. drafts_dir v @ [n]) (take 128 names)) t))"

definition index_at :: "notes_host \<Rightarrow> npath \<Rightarrow> disk_tree \<Rightarrow> (string \<times> json) list" where
  "index_at h p t = (case Option.bind (draft_of h p t) as_object of Some m \<Rightarrow> m | None \<Rightarrow> [])"

definition index_of_vault :: "notes_host \<Rightarrow> vault \<Rightarrow> string \<Rightarrow> disk_tree \<Rightarrow> (string \<times> json) list" where
  "index_of_vault h v name = index_at h (vt_state v @ [name])"

definition write_index :: "notes_host \<Rightarrow> vault \<Rightarrow> string \<Rightarrow> (string \<times> json) list \<Rightarrow> unit note_op" where
  "write_index h v name m = publish_path h False True (vt_state v @ [name]) (nh_show h (JObj m))"

section \<open>The listing\<close>

definition ensure_vault :: "notes_host \<Rightarrow> vault \<Rightarrow> unit note_op" where
  "ensure_vault h v t =
     (if \<not> is_dir h (vt_root v) t then (Said ''That vault directory does not exist'', t)
      else seq (checked_path h (vt_root v) (comps (vt_directory v))) (\<lambda>_. make_dirs h True (notes_dir v)) t)"

definition writable :: "notes_host \<Rightarrow> vault \<Rightarrow> disk_tree \<Rightarrow> bool" where
  "writable h v t \<longleftrightarrow> is_dir h (notes_dir v) t \<and> nul \<notin> set (absolute (notes_dir v)) \<and> nh_access h (notes_dir v) t"

definition entry_text :: "notes_host \<Rightarrow> vault \<Rightarrow> npath \<Rightarrow> string \<Rightarrow> disk_tree \<Rightarrow> json ending" where
  "entry_text h v p text t = (case relative_of v p of
       None \<Rightarrow> Said ''That note is outside the vault''
     | Some s \<Rightarrow> (case summarize (stem p) text of
         None \<Rightarrow> Panic
       | Some y \<Rightarrow> Good (json_obj
           [(''path'', JStr s), (''name'', JStr (stem p)), (''title'', JStr (sy_title y)), (''excerpt'', JStr (sy_excerpt y)),
            (''audio'', jnat (sy_audio y)), (''updated'', jint (nh_modified h p t)), (''hash'', JStr (nh_sha h text))])))"

definition note_entry :: "notes_host \<Rightarrow> vault \<Rightarrow> npath \<Rightarrow> disk_tree \<Rightarrow> json ending" where
  "note_entry h v p t = (case read_text h p t of
       Good b \<Rightarrow> entry_text h v p b t | Said s \<Rightarrow> Said s | Io e \<Rightarrow> Io e | Panic \<Rightarrow> Panic)"

text \<open>The rows of the notes and the number of those that could not be read.\<close>

fun note_rows :: "notes_host \<Rightarrow> vault \<Rightarrow> npath list \<Rightarrow> disk_tree \<Rightarrow> (json list \<times> nat) option" where
  "note_rows h v [] t = Some ([], 0)"
| "note_rows h v (p # ps) t =
     (if \<not> is_markdown p \<or> \<not> is_file h p t then note_rows h v ps t
      else (case note_entry h v p t of
          Panic \<Rightarrow> None
        | Good j \<Rightarrow> map_option (\<lambda>(shown, bad). (j # shown, bad)) (note_rows h v ps t)
        | _ \<Rightarrow> map_option (\<lambda>(shown, bad). (shown, Suc bad)) (note_rows h v ps t)))"

definition trash_id :: "string \<Rightarrow> bool" where
  "trash_id i \<longleftrightarrow> relative_path i \<and> length (path_components i) = 1 \<and> is_markdown (comps i)"

definition trash_row :: "notes_host \<Rightarrow> vault \<Rightarrow> string \<times> json \<Rightarrow> npath \<Rightarrow> disk_tree \<Rightarrow> json option" where
  "trash_row h v r p t =
     (let text = (case good (read_text h p t) of Some b \<Rightarrow> b | None \<Rightarrow> [])
      in map_option (\<lambda>y. json_obj
           [(''id'', JStr (fst r)), (''name'', JStr (stem p)), (''title'', JStr (sy_title y)), (''excerpt'', JStr (sy_excerpt y)),
            (''audio'', jnat (sy_audio y)), (''origin'', json_index (snd r) ''origin''),
            (''updated'', jint (case as_i64 (json_index (snd r) ''trashed'') of Some i \<Rightarrow> i | None \<Rightarrow> nh_modified h p t))])
         (summarize (stem p) text))"

fun trash_rows :: "notes_host \<Rightarrow> vault \<Rightarrow> (string \<times> json) list \<Rightarrow> json list note_op" where
  "trash_rows h v [] = give []"
| "trash_rows h v (r # rs) =
     (if \<not> trash_id (fst r) then trash_rows h v rs
      else seq (checked_path h (vt_root v) (''.trash'' # comps (fst r)))
        (\<lambda>p t. if \<not> is_file h p t then trash_rows h v rs t
               else seq (sure (trash_row h v r p t)) (\<lambda>j. seq (trash_rows h v rs) (\<lambda>js. give (j # js))) t))"

definition trashed :: "notes_host \<Rightarrow> vault \<Rightarrow> json list note_op" where
  "trashed h v t =
     seq (trash_rows h v (take max_listed (index_of_vault h v ''trash.json'' t)))
       (\<lambda>js. give (sort_key (\<lambda>j. - int_of (json_index j ''updated'')) js)) t"

definition name_key :: "json \<Rightarrow> string option" where
  "name_key j = as_str (json_index j ''name'')"

definition row_order :: "json list \<Rightarrow> json list" where
  "row_order shown = sort_key (\<lambda>j. - int_of (json_index j ''updated''))
     (sort_key (\<lambda>j. case name_key j of Some n \<Rightarrow> n | None \<Rightarrow> []) shown)"

definition listing :: "notes_host \<Rightarrow> vault \<Rightarrow> json note_op" where
  "listing h v =
     seq (checked_path h (vt_root v) (comps (vt_directory v)))
       (\<lambda>dir. seq (\<lambda>t. sure (case read_dir h dir t of
            None \<Rightarrow> Some ([], 0)
          | Some names \<Rightarrow> note_rows h v (map (\<lambda>n. dir @ [n]) (take max_listed names)) t) t)
         (\<lambda>(shown, bad). seq (trashed h v)
           (\<lambda>old t. (Good (json_obj [(''notes'', JArr (row_order shown)), (''trash'', JArr old),
              (''unreadable'', jnat bad), (''writable'', JBool (writable h v t))]), t))))"

section \<open>Recordings\<close>

text \<open>The entries of one directory of the sweep: the recording, or the directories still to look at.\<close>

fun sweep_entries :: "notes_host \<Rightarrow> vault \<Rightarrow> string \<Rightarrow> npath \<Rightarrow> string list \<Rightarrow> npath list \<Rightarrow> disk_tree \<Rightarrow> npath + npath list" where
  "sweep_entries h v name dir [] queue t = Inr queue"
| "sweep_entries h v name dir (n # ns) queue t = (case map_of t (dir @ [n]) of
       Some (Folder s) \<Rightarrow>
         sweep_entries h v name dir ns
           (if \<not> starts_with ''.'' (from_utf8_lossy n) \<and> length queue < max_search_dirs
               \<and> fst (checked_path h (vt_root v) (drop (length (vt_root v)) (dir @ [n])) t) = Good (dir @ [n])
            then queue @ [dir @ [n]] else queue) t
     | Some (Regular b k) \<Rightarrow> (if n = name then Inl (dir @ [n]) else sweep_entries h v name dir ns queue t)
     | _ \<Rightarrow> sweep_entries h v name dir ns queue t)"

fun sweep :: "notes_host \<Rightarrow> vault \<Rightarrow> string \<Rightarrow> nat \<Rightarrow> npath list \<Rightarrow> disk_tree \<Rightarrow> npath option" where
  "sweep h v name visits queue t =
     (if queue = [] \<or> visits = 0 then None
      else (case read_dir h (last queue) t of
          None \<Rightarrow> None
        | Some names \<Rightarrow> (case sweep_entries h v name (last queue) (take max_listed names) (butlast queue) t of
            Inl p \<Rightarrow> Some p
          | Inr rest \<Rightarrow> sweep h v name (visits - 1) rest t)))"

declare sweep.simps [simp del]

definition candidates_of :: "vault \<Rightarrow> string \<Rightarrow> string \<Rightarrow> npath list" where
  "candidates_of v s target =
     [attachments_dir v @ [last (comps target)], vt_root v @ butlast (comps s) @ comps target,
      notes_dir v @ comps target, vt_root v @ comps target]"

definition locate :: "notes_host \<Rightarrow> vault \<Rightarrow> string \<Rightarrow> string \<Rightarrow> disk_tree \<Rightarrow> npath option" where
  "locate h v s target t =
     (if \<not> relative_path target \<or> comps target = [] then None
      else (case find (\<lambda>p. fst (checked_path h (vt_root v) (drop (length (vt_root v)) p) t) = Good p \<and> is_file h p t)
                   (candidates_of v s target) of
          Some p \<Rightarrow> Some p
        | None \<Rightarrow> sweep h v (last (comps target)) max_search_dirs [vt_root v] t))"

definition sample_rate :: nat where "sample_rate = 16000"

definition wav_duration :: "npath \<Rightarrow> disk_tree \<Rightarrow> nat" where
  "wav_duration p t = (case map_of t p of
       Some (Regular b k) \<Rightarrow> (length b - 44) * 1000 div (sample_rate * 2) | _ \<Rightarrow> 0)"

definition audio_row :: "notes_host \<Rightarrow> vault \<Rightarrow> string \<Rightarrow> disk_tree \<Rightarrow> nat \<times> string \<Rightarrow> json" where
  "audio_row h v s t r =
     (let target = snd r; spot = locate h v s target t
      in json_obj
          [(''index'', jnat (fst r)), (''target'', JStr target),
           (''name'', JStr (if comps target = [] \<or> last (comps target) = ''..'' then target else last (comps target))),
           (''path'', case spot of Some p \<Rightarrow> JStr (from_utf8_lossy (absolute p)) | None \<Rightarrow> JNull),
           (''duration'', jnat (case spot of Some p \<Rightarrow> wav_duration p t | None \<Rightarrow> 0))])"

definition audio_of :: "notes_host \<Rightarrow> vault \<Rightarrow> string \<Rightarrow> string \<Rightarrow> disk_tree \<Rightarrow> json" where
  "audio_of h v s text t = JArr (map (audio_row h v s t) (enumerate 0 (embeds text)))"

definition read_note :: "notes_host \<Rightarrow> vault \<Rightarrow> string \<Rightarrow> json note_op" where
  "read_note h v s =
     seq (resolve_path h v s) (\<lambda>p. seq (look (read_text h p)) (\<lambda>b. seq (look (entry_text h v p b)) (\<lambda>j t.
       (Good (json_obj [(''note'', j), (''text'', JStr b), (''hash'', JStr (nh_sha h b)), (''audio'', audio_of h v s b t)]), t))))"

section \<open>Saving\<close>

definition saved_reply :: "notes_host \<Rightarrow> string \<Rightarrow> (string \<times> json) list \<Rightarrow> json \<Rightarrow> json" where
  "saved_reply h text extra j = json_obj ([(''note'', j), (''hash'', JStr (nh_sha h text))] @ extra)"

definition save_new :: "notes_host \<Rightarrow> vault \<Rightarrow> string \<Rightarrow> json note_op" where
  "save_new h v text =
     seq (sure (name_for (nh_stamp h) text)) (\<lambda>name. seq (write_new h (notes_dir v) name text)
       (\<lambda>p. seq (look (note_entry h v p)) (\<lambda>j. give (saved_reply h text [(''created'', JBool True)] j))))"

definition save_over :: "notes_host \<Rightarrow> vault \<Rightarrow> string \<Rightarrow> npath \<Rightarrow> string \<Rightarrow> json note_op" where
  "save_over h v s p text t = (case write_atomic h p text t of
       (Good _, t') \<Rightarrow>
         seq (drop_draft h v s) (\<lambda>_. seq (look (note_entry h v p)) (\<lambda>j. give (saved_reply h text [] j))) t'
     | (Said e, t') \<Rightarrow> seq (keep_draft h v s text ''failed'') (\<lambda>_. fail e) t'
     | (Io e, t') \<Rightarrow> seq (keep_draft h v s text ''failed'') (\<lambda>_ t. (Io e, t)) t'
     | (Panic, t') \<Rightarrow> (Panic, t'))"

definition save_at :: "notes_host \<Rightarrow> vault \<Rightarrow> string \<Rightarrow> npath \<Rightarrow> string \<Rightarrow> string \<Rightarrow> json note_op" where
  "save_at h v s p text baseline t =
     (if \<not> exists h p t
      then seq (keep_draft h v s text ''gone'') (\<lambda>_. give (json_obj [(''gone'', JBool True), (''path'', JStr s)])) t
      else seq (look (read_text h p)) (\<lambda>current.
        if nh_sha h current \<noteq> baseline
        then seq (keep_draft h v s text ''conflict'') (\<lambda>_. give (json_obj [(''conflict'',
               json_obj [(''path'', JStr s), (''text'', JStr current), (''hash'', JStr (nh_sha h current))])]))
        else if current = text
        then seq (drop_draft h v s) (\<lambda>_. seq (look (note_entry h v p)) (\<lambda>j. give (saved_reply h text [(''unchanged'', JBool True)] j)))
        else save_over h v s p text) t)"

definition save_note :: "notes_host \<Rightarrow> vault \<Rightarrow> string option \<Rightarrow> string \<Rightarrow> string \<Rightarrow> json note_op" where
  "save_note h v relative text baseline =
     seq (require (length text \<le> max_text) limit_message)
       (\<lambda>_. seq (checked_path h (vt_root v) (comps (vt_directory v)))
         (\<lambda>_. seq (\<lambda>t. require (is_dir h (notes_dir v) t) ''The configured notes directory is missing'' t)
           (\<lambda>_. case relative of
                None \<Rightarrow> save_new h v text
              | Some s \<Rightarrow> seq (resolve_path h v s) (\<lambda>p. save_at h v s p text baseline))))"

section \<open>Conflicts\<close>

definition copy_name :: "notes_host \<Rightarrow> npath \<Rightarrow> string \<Rightarrow> string" where
  "copy_name h p owner = stem p @ '' ('' @ owner @ '' '' @ nh_stamp h @ '')''"

definition keep_external :: "notes_host \<Rightarrow> npath \<Rightarrow> unit note_op" where
  "keep_external h p t =
     (let current = (case good (read_text h p t) of Some b \<Rightarrow> b | None \<Rightarrow> [])
      in if current = [] then (Good (), t)
         else seq (write_new h (butlast p) (copy_name h p ''external'') current) (\<lambda>_. give ()) t)"

definition settle_conflict :: "notes_host \<Rightarrow> vault \<Rightarrow> string \<Rightarrow> string \<Rightarrow> string \<Rightarrow> npath \<Rightarrow> json note_op" where
  "settle_conflict h v s mode text p =
     (if mode = ''copy''
      then seq (write_new h (butlast p) (copy_name h p ''Seele'') text) (\<lambda>c. seq (drop_draft h v s)
             (\<lambda>_. seq (look (note_entry h v c)) (\<lambda>j. give (saved_reply h text [(''switched'', JBool True)] j))))
      else if mode = ''mine''
      then seq (keep_external h p) (\<lambda>_. seq (write_atomic h p text) (\<lambda>_. seq (drop_draft h v s)
             (\<lambda>_. seq (look (note_entry h v p)) (\<lambda>j. give (saved_reply h text [] j)))))
      else if mode = ''theirs''
      then seq (look (read_text h p)) (\<lambda>current. seq (keep_draft h v s text ''replaced'')
             (\<lambda>_. seq (look (note_entry h v p)) (\<lambda>j t.
               (Good (json_obj [(''note'', j), (''text'', JStr current), (''hash'', JStr (nh_sha h current)),
                  (''audio'', audio_of h v s current t), (''reload'', JBool True)]), t))))
      else fail ''Unknown conflict resolution'')"

definition resolve_conflict :: "notes_host \<Rightarrow> vault \<Rightarrow> string \<Rightarrow> string \<Rightarrow> string \<Rightarrow> json note_op" where
  "resolve_conflict h v s mode text = seq (resolve_path h v s) (settle_conflict h v s mode text)"

section \<open>The trash\<close>

definition preview :: "notes_host \<Rightarrow> vault \<Rightarrow> string \<Rightarrow> json note_op" where
  "preview h v i =
     seq (require (trash_id i) ''Invalid trash identifier'')
       (\<lambda>_. seq (checked_path h (vt_root v) (''.trash'' # comps i))
         (\<lambda>p. seq (look (read_text h p)) (\<lambda>b. seq (sure (summarize (stem p) b)) (\<lambda>y.
            give (json_obj [(''preview'', JBool True), (''id'', JStr i), (''name'', JStr (stem p)),
              (''title'', JStr (sy_title y)), (''text'', JStr b)])))))"

definition trash_note :: "notes_host \<Rightarrow> vault \<Rightarrow> string \<Rightarrow> json note_op" where
  "trash_note h v s =
     seq (resolve_path h v s)
       (\<lambda>p. seq (\<lambda>t. require (is_file h p t) ''That note is no longer there'' t)
         (\<lambda>_. seq (checked_path h (vt_root v) [''.trash''])
           (\<lambda>dir. seq (make_dirs h (nh_umask h) dir)
             (\<lambda>_. seq (move_new h p dir (stem p) ''md'')
               (\<lambda>d. seq (require (valid_utf8 (last d)) ''Invalid trash name'')
                 (\<lambda>_. seq (\<lambda>t. write_index h v ''trash.json''
                        (bt_insert (last d) (json_obj [(''origin'', JStr s), (''trashed'', jint (nh_now h))])
                          (index_of_vault h v ''trash.json'' t)) t)
                   (\<lambda>_. seq (drop_draft h v s) (\<lambda>_. give (json_obj [(''trashed'', JStr (last d))])))))))))"

definition restore_target :: "notes_host \<Rightarrow> vault \<Rightarrow> string \<Rightarrow> (string \<times> json) list \<Rightarrow> npath note_op" where
  "restore_target h v i index =
     (case Option.bind (map_of index i) (\<lambda>r. as_str (json_index r ''origin'')) of
        Some origin \<Rightarrow> resolve_path h v origin
      | None \<Rightarrow> give (notes_dir v @ comps i))"

definition restore_note :: "notes_host \<Rightarrow> vault \<Rightarrow> string \<Rightarrow> json note_op" where
  "restore_note h v i =
     seq (require (trash_id i) ''Invalid trash identifier'')
       (\<lambda>_. seq (checked_path h (vt_root v) (''.trash'' # comps i))
         (\<lambda>source. seq (\<lambda>t. require (is_file h source t) ''That note is no longer in the trash'' t)
           (\<lambda>_. seq (look (\<lambda>t. Good (index_of_vault h v ''trash.json'' t)))
             (\<lambda>index. seq (restore_target h v i index)
               (\<lambda>target. seq (make_dirs h (nh_umask h) (butlast target))
                 (\<lambda>_. seq (move_new h source (butlast target) (stem target) ''md'')
                   (\<lambda>d. seq (write_index h v ''trash.json'' (AList.delete i index))
                     (\<lambda>_. give (json_obj [(''restored'', case relative_of v d of Some s \<Rightarrow> JStr s | None \<Rightarrow> JNull)])))))))))"

end
