(* ===== verification/Notes_Session.thy ===== *)
theory Notes_Session
  imports Notes_Store
begin

text \<open>
  The rest of \<open>projects/tools/src/notes.rs\<close>: copies from the shelf, the migration of the private library,
  the choice of the vault and the requests of the window. Writing a reply to the standard output, the
  watch on the vault and recording are left to the environment.
\<close>

section \<open>Files from the shelf\<close>

definition attachment_limit :: nat where "attachment_limit = 32 * 1024 * 1024"
definition batch_limit :: nat where "batch_limit = 128 * 1024 * 1024"

definition capture_extension :: "npath \<Rightarrow> string" where
  "capture_extension p =
     to_ascii_lowercase (case (if p = [] then None else snd (split_dot (last p))) of
       Some e \<Rightarrow> if length e \<le> 12 \<and> list_all is_ascii_alphanumeric e then e else ''bin'' | None \<Rightarrow> ''bin'')"

definition open_source :: "notes_host \<Rightarrow> npath \<Rightarrow> disk_tree \<Rightarrow> nat ending" where
  "open_source h p t = (case map_of t p of
       Some (Regular b k) \<Rightarrow>
         if \<not> nh_ok h Read p t then Io Other_io
         else if attachment_limit < length b then Said ''Each attachment must be a regular file up to 32 MiB'' else Good (length b)
     | Some Symlink \<Rightarrow> Io Other_io
     | Some n \<Rightarrow> Said ''Each attachment must be a regular file up to 32 MiB''
     | None \<Rightarrow> Io Not_found)"

fun capture_inputs :: "notes_host \<Rightarrow> nat \<Rightarrow> string list \<Rightarrow> (npath \<times> string) list note_op" where
  "capture_inputs h sofar [] = give []"
| "capture_inputs h sofar (s # ss) =
     seq (require (starts_with ''/'' s \<and> length s \<le> 4096) ''Choose absolute local file paths'')
       (\<lambda>_. seq (look (open_source h (comps s)))
         (\<lambda>n. seq (require (sofar + n \<le> batch_limit) ''Attachments must fit in 128 MiB together'')
           (\<lambda>_. seq (capture_inputs h (sofar + n) ss) (\<lambda>r. give ((comps s, capture_extension (comps s)) # r)))))"

text \<open>A source can have grown since it was opened.\<close>

fun stage_inputs :: "notes_host \<Rightarrow> npath \<Rightarrow> nat \<Rightarrow> (npath \<times> string) list \<Rightarrow> (string \<times> string) list note_op" where
  "stage_inputs h dir sofar [] = give []"
| "stage_inputs h dir sofar ((p, e) # ps) =
     seq (look (\<lambda>t. if nh_ok h Stage dir t
            then (case nh_copied h p t of Some b \<Rightarrow> Good (take (attachment_limit + 1) b) | None \<Rightarrow> Io Other_io) else Io Other_io))
       (\<lambda>b. seq (require (length b \<le> attachment_limit \<and> sofar + length b \<le> batch_limit) ''An attachment grew beyond the size limit'')
         (\<lambda>_. seq (stage_inputs h dir (sofar + length b) ps) (\<lambda>r. give ((b, e) # r))))"

text \<open>\<open>rename_noreplace\<close> of a staged file.\<close>

definition place_staged :: "notes_host \<Rightarrow> bool \<Rightarrow> string \<Rightarrow> npath \<Rightarrow> unit note_op" where
  "place_staged h private bytes p = seq (private_directory h (butlast p)) (\<lambda>_ t.
     if \<not> base_name_ok p then (Io Other_io, t)
     else if map_of t p \<noteq> None then (Io Already_exists, t)
     else if \<not> nh_ok h Rename p t then (Io Other_io, t)
     else (let t' = AList.update p (Regular bytes private) t in (if nh_ok h Sync p t' then Good () else Io Other_io, t')))"

definition embedded_extensions :: "string list" where
  "embedded_extensions = [''png'', ''jpg'', ''jpeg'', ''gif'', ''webp'', ''pdf'', ''wav'', ''mp3'', ''ogg'', ''mp4'', ''webm'']"

definition embed_line :: "string \<Rightarrow> string \<Rightarrow> string" where
  "embed_line extension name =
     (if extension \<in> set embedded_extensions then ''!'' else []) @ ''[['' @ name @ '']]'' @ [newline]"

fun place_all :: "notes_host \<Rightarrow> npath \<Rightarrow> nat \<Rightarrow> (string \<times> string) list \<Rightarrow> string note_op" where
  "place_all h dir k [] = give []"
| "place_all h dir k ((b, e) # r) =
     seq (unique (place_staged h True b) dir (''Shelf '' @ nh_stamp h @ '' '' @ nat_digits k) e)
       (\<lambda>p. seq (require (valid_utf8 (last p)) ''Invalid attachment name'')
         (\<lambda>_. seq (place_all h dir (Suc k) r) (\<lambda>text. give (embed_line e (last p) @ text))))"

definition capture_files :: "notes_host \<Rightarrow> vault \<Rightarrow> string list \<Rightarrow> json note_op" where
  "capture_files h v picked =
     seq (require (picked \<noteq> [] \<and> length picked \<le> 16) ''Choose one to 16 attachments'')
      (\<lambda>_. seq (ensure_vault h v)
       (\<lambda>_. seq (checked_path h (vt_root v) (comps (vt_directory v) @ comps (vt_attachments v)))
        (\<lambda>_. seq (capture_inputs h 0 picked)
         (\<lambda>inputs. seq (make_dirs h True (attachments_dir v))
          (\<lambda>_. seq (checked_path h (vt_root v) (comps (vt_directory v) @ comps (vt_attachments v)))
           (\<lambda>_. seq (stage_inputs h (attachments_dir v) 0 inputs)
            (\<lambda>staged. seq (place_all h (attachments_dir v) 1 staged)
             (\<lambda>text. save_note h v None (''# Shelf capture'' @ [newline, newline] @ text) []))))))))"

section \<open>The migration of the private library\<close>

definition legacy_dir :: "notes_host \<Rightarrow> npath" where
  "legacy_dir h = nh_data h @ [''seele-shell'', ''notes'']"

definition legacy_entries :: "notes_host \<Rightarrow> disk_tree \<Rightarrow> (string \<times> npath) list" where
  "legacy_entries h t = (case read_dir h (legacy_dir h) t of
       None \<Rightarrow> []
     | Some names \<Rightarrow> sort_key fst (map (\<lambda>n. (from_utf8_lossy n, legacy_dir h @ [n]))
         (filter (\<lambda>n. (\<exists>s \<in> {True, False}. map_of t (legacy_dir h @ [n]) = Some (Folder s))
            \<and> is_file h (legacy_dir h @ [n, ''note.json'']) t) names)))"

definition legacy_at :: "notes_host \<Rightarrow> npath \<Rightarrow> disk_tree \<Rightarrow> legacy_note option" where
  "legacy_at h dir t = Option.bind (good (read_text h (dir @ [''note.json'']) t)) (nh_legacy h)"

definition legacy_pending :: "notes_host \<Rightarrow> disk_tree \<Rightarrow> nat" where
  "legacy_pending h t =
     (let finished = index_at h (nh_state h @ [''seele-notes'', ''migrated.json'']) t
      in length (filter (\<lambda>(i, dir). map_of finished i = None \<and> legacy_at h dir t \<noteq> None) (legacy_entries h t)))"

definition legacy_audio :: "notes_host \<Rightarrow> npath \<Rightarrow> disk_tree \<Rightarrow> npath list" where
  "legacy_audio h dir t = (case read_dir h dir t of
       None \<Rightarrow> []
     | Some names \<Rightarrow> map (\<lambda>n. dir @ [n]) (sort (filter (\<lambda>n. snd (split_dot n) = Some ''wav'') names)))"

definition legacy_name :: "notes_host \<Rightarrow> legacy_note \<Rightarrow> string option" where
  "legacy_name h n =
     (if trim_is_empty (lg_title n) then name_for (nh_stamp h) (lg_body n) else Some (sanitize (trim (lg_title n))))"

definition max_audio :: nat where "max_audio = sample_rate * 2 * 60 * 60"

definition copy_recording :: "notes_host \<Rightarrow> npath \<Rightarrow> npath \<Rightarrow> string ending note_op" where
  "copy_recording h dir p t = (Good (case map_of t p of
       Some (Regular b k) \<Rightarrow>
         if \<not> nh_ok h Read p t then Io Other_io
         else if max_audio + 44 < length b then Said ''Invalid legacy recording''
         else if \<not> nh_ok h Stage dir t then Io Other_io
         else (case nh_copied h p t of
             None \<Rightarrow> Io Other_io
           | Some c \<Rightarrow> if max_audio + 44 < length c then Said ''Legacy recording grew while reading'' else Good c)
     | Some Symlink \<Rightarrow> Io Other_io
     | Some n \<Rightarrow> Said ''Invalid legacy recording''
     | None \<Rightarrow> Io Not_found), t)"

fun copy_recordings :: "notes_host \<Rightarrow> vault \<Rightarrow> string \<Rightarrow> npath list \<Rightarrow> string list note_op" where
  "copy_recordings h v name [] = give []"
| "copy_recordings h v name (p # ps) =
     seq (copy_recording h (attachments_dir v) p)
       (\<lambda>c. seq (look (\<lambda>t. c))
         (\<lambda>b. seq (unique (place_staged h False b) (attachments_dir v) (''Voice memo '' @ name @ '' '' @ take_chars 8 (stem p)) ''wav'')
           (\<lambda>d. seq (copy_recordings h v name ps)
             (\<lambda>r. give ((''![['' @ (if valid_utf8 (last d) then last d else []) @ '']]'') # r)))))"

definition legacy_text :: "legacy_note \<Rightarrow> string list \<Rightarrow> string" where
  "legacy_text n found =
     (let text = (if trim_is_empty (lg_title n) then [] else ''# '' @ trim (lg_title n) @ [newline, newline])
        @ (if trim_is_empty (lg_body n) then []
           else of_chars (rev (dropWhile is_whitespace (rev (chars (lg_body n))))) @ [newline, newline])
        @ concat (map (\<lambda>e. e @ [newline]) found)
      in if text = [] then [newline] else text)"

definition migrate_trashed :: "notes_host \<Rightarrow> vault \<Rightarrow> string \<Rightarrow> legacy_note \<Rightarrow> string \<Rightarrow> string note_op" where
  "migrate_trashed h v name n text =
     seq (checked_path h (vt_root v) [''.trash''])
      (\<lambda>dir. seq (make_dirs h (nh_umask h) dir)
       (\<lambda>_. seq (write_new h dir name text)
        (\<lambda>p. seq (require (valid_utf8 (last p)) ''Invalid trash name'')
         (\<lambda>_. seq (\<lambda>t. write_index h v ''trash.json''
             (bt_insert (last p) (json_obj [(''origin'', JStr (vt_directory v @ ''/'' @ name @ ''.md'')),
                (''trashed'', jint (if 0 < lg_updated n then lg_updated n else nh_now h))])
              (index_of_vault h v ''trash.json'' t)) t)
          (\<lambda>_. give (''.trash/'' @ last p))))))"

definition migrate_one :: "notes_host \<Rightarrow> vault \<Rightarrow> string \<Rightarrow> string \<Rightarrow> legacy_note \<Rightarrow> npath list \<Rightarrow> string note_op" where
  "migrate_one h v i name n recordings =
     seq (checked_path h (vt_root v) (comps (vt_directory v)))
      (\<lambda>_. seq (make_dirs h True (notes_dir v))
       (\<lambda>_. seq (if recordings = [] then give () else make_dirs h True (attachments_dir v))
        (\<lambda>_. seq (copy_recordings h v name recordings)
         (\<lambda>found. seq (if lg_trashed n then migrate_trashed h v name n (legacy_text n found)
              else seq (write_new h (notes_dir v) name (legacy_text n found))
                (\<lambda>p. give (case relative_of v p of Some s \<Rightarrow> s | None \<Rightarrow> [])))
          (\<lambda>destination. seq (\<lambda>t. write_index h v ''migrated.json''
                (bt_insert i (JStr destination) (index_of_vault h v ''migrated.json'' t)) t)
            (\<lambda>_. give destination))))))"

record migration =
  mg_pending :: nat
  mg_memos :: nat
  mg_malformed :: nat
  mg_migrated :: nat
  mg_failures :: "json list"
  mg_items :: "json list"

text \<open>\<open>error.to_string()\<close>; what the kernel's errors say is not modelled.\<close>

definition error_text :: "'a ending \<Rightarrow> json" where
  "error_text r = (case r of Said e \<Rightarrow> JStr e | _ \<Rightarrow> JNull)"

definition migrate_item :: "string \<Rightarrow> string \<Rightarrow> json \<Rightarrow> bool \<Rightarrow> nat \<Rightarrow> string \<Rightarrow> json" where
  "migrate_item i name target gone memos state = json_obj
     [(''id'', JStr i), (''name'', JStr name), (''target'', target), (''trashed'', JBool gone), (''memos'', jnat memos), (''state'', JStr state)]"

definition migrate_step ::
    "notes_host \<Rightarrow> vault \<Rightarrow> bool \<Rightarrow> (string \<times> json) list \<Rightarrow> string \<times> npath \<Rightarrow> migration \<Rightarrow> migration note_op" where
  "migrate_step h v run finished r m t = (case legacy_at h (snd r) t of
       None \<Rightarrow> (Good (m\<lparr>mg_malformed := Suc (mg_malformed m),
            mg_items := mg_items m @ [json_obj [(''id'', JStr (fst r)), (''state'', JStr ''malformed'')]]\<rparr>), t)
     | Some n \<Rightarrow> (case legacy_name h n of
         None \<Rightarrow> (Panic, t)
       | Some name \<Rightarrow>
           (let recordings = legacy_audio h (snd r) t; memos = length recordings;
                m' = m\<lparr>mg_memos := mg_memos m + memos\<rparr>
            in case map_of finished (fst r) of
                 Some target \<Rightarrow>
                   (Good (m'\<lparr>mg_items := mg_items m @ [migrate_item (fst r) name target (lg_trashed n) memos ''done'']\<rparr>), t)
               | None \<Rightarrow>
                   (if \<not> run
                    then (Good (m'\<lparr>mg_pending := Suc (mg_pending m), mg_items := mg_items m
                        @ [migrate_item (fst r) name (JStr (vt_directory v @ ''/'' @ name @ ''.md'')) (lg_trashed n) memos ''pending'']\<rparr>), t)
                    else (case migrate_one h v (fst r) name n recordings t of
                        (Panic, t') \<Rightarrow> (Panic, t')
                      | (Good target, t') \<Rightarrow> (Good (m'\<lparr>mg_migrated := Suc (mg_migrated m), mg_items := mg_items m
                          @ [migrate_item (fst r) name (JStr target) (lg_trashed n) memos ''done'']\<rparr>), t')
                      | (e, t') \<Rightarrow> (Good (m'\<lparr>mg_pending := Suc (mg_pending m), mg_failures := mg_failures m
                            @ [json_obj [(''id'', JStr (fst r)), (''name'', JStr name), (''error'', error_text e)]],
                          mg_items := mg_items m @ [json_obj [(''id'', JStr (fst r)), (''name'', JStr name), (''state'', JStr ''failed'')]]\<rparr>), t'))))))"

fun migrate_loop ::
    "notes_host \<Rightarrow> vault \<Rightarrow> bool \<Rightarrow> (string \<times> json) list \<Rightarrow> (string \<times> npath) list \<Rightarrow> migration \<Rightarrow> migration note_op" where
  "migrate_loop h v run finished [] m = give m"
| "migrate_loop h v run finished (r # rs) m =
     seq (migrate_step h v run finished r m) (migrate_loop h v run finished rs)"

definition new_migration :: migration where
  "new_migration = \<lparr>mg_pending = 0, mg_memos = 0, mg_malformed = 0, mg_migrated = 0, mg_failures = [], mg_items = []\<rparr>"

definition migration_json :: "notes_host \<Rightarrow> vault \<Rightarrow> bool \<Rightarrow> migration \<Rightarrow> disk_tree \<Rightarrow> json" where
  "migration_json h v run m t = json_obj [(''migration'', json_obj
     [(''present'', JBool (legacy_entries h t \<noteq> [])), (''source'', JStr (absolute (legacy_dir h))),
      (''destination'', JStr (vt_directory v)), (''pending'', jnat (mg_pending m)), (''memos'', jnat (mg_memos m)),
      (''malformed'', jnat (mg_malformed m)), (''migrated'', jnat (mg_migrated m)),
      (''failures'', JArr (mg_failures m)), (''items'', JArr (mg_items m)), (''ran'', JBool run)])]"

definition migrate :: "notes_host \<Rightarrow> vault \<Rightarrow> bool \<Rightarrow> json note_op" where
  "migrate h v run t =
     seq (migrate_loop h v run (index_of_vault h v ''migrated.json'' t) (legacy_entries h t) new_migration)
       (\<lambda>m t'. (Good (migration_json h v run m t'), t')) t"

section \<open>Choosing the vault\<close>

definition settings_path :: "notes_host \<Rightarrow> npath" where
  "settings_path h = nh_config h @ [''seele-notes'', ''settings.json'']"

definition no_settings :: settings where
  "no_settings = \<lparr>se_vault = None, se_directory = None, se_attachments = None, se_sidebar = None, se_collapsed = None\<rparr>"

definition read_settings :: "notes_host \<Rightarrow> disk_tree \<Rightarrow> settings" where
  "read_settings h t = (case Option.bind (good (read_state h (settings_path h) t)) (nh_settings h) of
       Some s \<Rightarrow> s | None \<Rightarrow> no_settings)"

definition write_settings :: "notes_host \<Rightarrow> settings \<Rightarrow> unit note_op" where
  "write_settings h s = publish_path h False True (settings_path h) (nh_show_settings h s)"

fun or_else :: "'a option \<Rightarrow> 'a option \<Rightarrow> 'a option" where
  "or_else (Some a) b = Some a"
| "or_else None b = b"

definition expand_path :: "notes_host \<Rightarrow> string \<Rightarrow> npath option" where
  "expand_path h s = (case strip_pre ''~/'' s of
       Some r \<Rightarrow> Some (if starts_with ''/'' r then comps r else nh_home h @ comps r)
     | None \<Rightarrow> if starts_with ''/'' s then Some (comps s) else None)"

definition vault_at :: "notes_host \<Rightarrow> string \<Rightarrow> string \<Rightarrow> npath \<Rightarrow> disk_tree \<Rightarrow> vault option" where
  "vault_at h dir att base t =
     (if nh_guarded h base \<and> good (fst (checked_path h base (comps dir) t)) \<noteq> None
         \<and> good (fst (checked_path h base (comps dir @ comps att) t)) \<noteq> None
      then Some \<lparr>vt_root = base, vt_directory = trim_matches ''/'' dir, vt_attachments = trim_matches ''/'' att,
        vt_state = nh_state h @ [''seele-notes'']\<rparr>
      else None)"

definition vault_from :: "notes_host \<Rightarrow> settings \<Rightarrow> disk_tree \<Rightarrow> vault option" where
  "vault_from h s t =
     (let d = nh_declared h;
          dir = (case or_else (se_directory s) (se_directory d) of Some x \<Rightarrow> x | None \<Rightarrow> ''Inbox'');
          att = (case or_else (se_attachments s) (se_attachments d) of Some x \<Rightarrow> x | None \<Rightarrow> ''Attachments'')
      in case or_else (se_vault s) (se_vault d) of
           None \<Rightarrow> None
         | Some base \<Rightarrow>
             (if trim_is_empty base \<or> \<not> relative_path dir \<or> \<not> relative_path att then None
              else (case expand_path h base of
                  None \<Rightarrow> None
                | Some p \<Rightarrow> vault_at h dir att (case nh_canonical h p of Some q \<Rightarrow> q | None \<Rightarrow> p) t)))"

definition browse_row :: "notes_host \<Rightarrow> npath \<Rightarrow> disk_tree \<Rightarrow> string \<Rightarrow> json" where
  "browse_row h p t n = json_obj [(''name'', JStr (from_utf8_lossy n)), (''path'', JStr (from_utf8_lossy (absolute (p @ [n])))),
     (''vault'', JBool (is_dir h (p @ [n, ''.obsidian'']) t))]"

definition browse :: "notes_host \<Rightarrow> string \<Rightarrow> disk_tree \<Rightarrow> json" where
  "browse h s t =
     (let p = (if trim_is_empty s then nh_home h else case expand_path h s of Some p \<Rightarrow> p | None \<Rightarrow> comps s);
          q = (case nh_canonical h p of Some q \<Rightarrow> q | None \<Rightarrow> p);
          found = (case read_dir h q t of
              None \<Rightarrow> []
            | Some names \<Rightarrow> filter (\<lambda>n. \<not> starts_with ''.'' (from_utf8_lossy n)
                \<and> (\<exists>s \<in> {True, False}. map_of t (q @ [n]) = Some (Folder s))) names)
      in json_obj [(''browse'', json_obj
          [(''path'', JStr (from_utf8_lossy (absolute q))),
           (''parent'', if q = [] then JNull else JStr (from_utf8_lossy (absolute (butlast q)))),
           (''vault'', JBool (is_dir h (q @ [''.obsidian'']) t)), (''readable'', JBool (is_dir h q t)),
           (''entries'', JArr (map (browse_row h q t) (sort_key (\<lambda>n. nh_lower h (from_utf8_lossy n)) found)))])])"

text \<open>The stack of \<open>discover_vaults\<close>: directories with their depth.\<close>

fun discover_loop :: "notes_host \<Rightarrow> nat \<Rightarrow> (npath \<times> nat) list \<Rightarrow> json list \<Rightarrow> disk_tree \<Rightarrow> json list" where
  "discover_loop h visits queue found t =
     (if queue = [] \<or> visits = 0 \<or> 16 \<le> length found then found
      else (let (p, depth) = last queue
            in if is_dir h (p @ [''.obsidian'']) t
               then discover_loop h (visits - 1) (butlast queue)
                 (found @ [json_obj [(''name'', if p = [] then JNull else JStr (from_utf8_lossy (last p))),
                    (''path'', JStr (from_utf8_lossy (absolute p)))]]) t
               else if 4 \<le> depth then discover_loop h (visits - 1) (butlast queue) found t
               else discover_loop h (visits - 1) (butlast queue @ (case read_dir h p t of
                   None \<Rightarrow> []
                 | Some names \<Rightarrow> map (\<lambda>n. (p @ [n], Suc depth))
                     (filter (\<lambda>n. (\<exists>s \<in> {True, False}. map_of t (p @ [n]) = Some (Folder s))
                        \<and> \<not> starts_with ''.'' (from_utf8_lossy n)) names))) found t))"

declare discover_loop.simps [simp del]

definition discover_vaults :: "notes_host \<Rightarrow> disk_tree \<Rightarrow> json list" where
  "discover_vaults h t = discover_loop h max_search_dirs [(nh_home h, 0)] [] t"

section \<open>Requests\<close>

record nsession =
  ss_library :: "vault option"
  ss_settings :: settings

definition load_session :: "notes_host \<Rightarrow> disk_tree \<Rightarrow> nsession" where
  "load_session h t = \<lparr>ss_library = vault_from h (read_settings h t) t, ss_settings = read_settings h t\<rparr>"

definition ui_json :: "nsession \<Rightarrow> json" where
  "ui_json s = json_obj
     [(''sidebar'', jint (case se_sidebar (ss_settings s) of Some n \<Rightarrow> n | None \<Rightarrow> 0)),
      (''collapsed'', JBool (case se_collapsed (ss_settings s) of Some b \<Rightarrow> b | None \<Rightarrow> False))]"

definition config_json :: "notes_host \<Rightarrow> vault option \<Rightarrow> disk_tree \<Rightarrow> json" where
  "config_json h vo t = (case vo of
       None \<Rightarrow> json_obj [(''configured'', JBool False), (''vault'', JStr []), (''directory'', JStr []), (''attachments'', JStr []),
          (''path'', JStr []), (''exists'', JBool False), (''writable'', JBool False), (''legacy'', jnat (legacy_pending h t))]
     | Some v \<Rightarrow> json_obj [(''configured'', JBool True), (''vault'', JStr (from_utf8_lossy (absolute (vt_root v)))),
          (''directory'', JStr (vt_directory v)), (''attachments'', JStr (vt_attachments v)),
          (''path'', JStr (from_utf8_lossy (absolute (notes_dir v)))), (''exists'', JBool (is_dir h (notes_dir v) t)),
          (''isVault'', JBool (is_dir h (vt_root v @ [''.obsidian'']) t)), (''writable'', JBool (writable h v t)),
          (''legacy'', jnat (legacy_pending h t))])"

definition state_json :: "notes_host \<Rightarrow> nsession \<Rightarrow> disk_tree \<Rightarrow> json" where
  "state_json h s t = json_obj [(''config'', config_json h (ss_library s) t), (''ui'', ui_json s),
     (''drafts'', JArr (case ss_library s of None \<Rightarrow> [] | Some v \<Rightarrow> drafts h v t))]"

definition merge_json :: "json \<Rightarrow> json \<Rightarrow> json" where
  "merge_json target source = (case (target, source) of
       (JObj m, JObj n) \<Rightarrow> JObj (foldl (\<lambda>m (k, x). bt_insert k x m) m n) | _ \<Rightarrow> target)"

text \<open>An answer that carries the listing.\<close>

definition with_list :: "notes_host \<Rightarrow> vault \<Rightarrow> json note_op \<Rightarrow> json note_op" where
  "with_list h v m = seq m (\<lambda>a. seq (listing h v) (\<lambda>b. give (merge_json a b)))"

definition text_of :: "json \<Rightarrow> string \<Rightarrow> string" where
  "text_of msg k = (case as_str (json_index msg k) of Some s \<Rightarrow> s | None \<Rightarrow> [])"

definition arg_of :: "json \<Rightarrow> string \<Rightarrow> string \<Rightarrow> string note_op" where
  "arg_of msg k e = need (as_str (json_index msg k)) e"

definition path_required :: string where "path_required = ''A note path is required''"

definition drafts_reply :: "notes_host \<Rightarrow> vault \<Rightarrow> json note_op" where
  "drafts_reply h v t = (Good (json_obj [(''drafts'', JArr (drafts h v t))]), t)"

text \<open>The requests about the notes of a chosen vault.\<close>

definition vault_request :: "notes_host \<Rightarrow> vault \<Rightarrow> string \<Rightarrow> json \<Rightarrow> json note_op" where
  "vault_request h v action msg =
     (if action = ''list'' then listing h v
      else if action = ''read'' then
        (case as_str (json_index msg ''id'') of
           Some i \<Rightarrow> preview h v i
         | None \<Rightarrow> seq (arg_of msg ''path'' path_required) (read_note h v))
      else if action = ''audio'' then
        seq (arg_of msg ''path'' path_required) (\<lambda>s. seq (resolve_path h v s) (\<lambda>p. seq (look (read_text h p))
          (\<lambda>b t. (Good (json_obj [(''audio'', audio_of h v s b t)]), t))))
      else if action = ''save'' then
        with_list h v (seq (arg_of msg ''text'' ''Note text is required'') (\<lambda>text.
          save_note h v (case text_of msg ''path'' of [] \<Rightarrow> None | c # s \<Rightarrow> Some (c # s)) text (text_of msg ''baseline'')))
      else if action = ''resolve'' then
        with_list h v (seq (arg_of msg ''path'' path_required) (\<lambda>s. resolve_conflict h v s (text_of msg ''mode'') (text_of msg ''text'')))
      else if action = ''draft'' then
        seq (arg_of msg ''path'' path_required) (\<lambda>s. seq (keep_draft h v s (text_of msg ''text'') ''pending'') (\<lambda>_. drafts_reply h v))
      else if action = ''discard'' then
        seq (arg_of msg ''path'' path_required) (\<lambda>s. seq (drop_draft h v s) (\<lambda>_. drafts_reply h v))
      else if action = ''trash'' then with_list h v (seq (arg_of msg ''path'' path_required) (trash_note h v))
      else if action = ''restore'' then with_list h v (seq (arg_of msg ''id'' ''A trash item is required'') (restore_note h v))
      else if as_str (json_index msg ''mode'') = Some ''run'' then with_list h v (migrate h v True)
      else migrate h v False)"

definition vault_actions :: "string list" where
  "vault_actions = [''list'', ''read'', ''audio'', ''save'', ''resolve'', ''draft'', ''discard'', ''trash'', ''restore'', ''migrate'']"

definition chosen_settings :: "notes_host \<Rightarrow> json \<Rightarrow> string \<Rightarrow> string \<Rightarrow> disk_tree \<Rightarrow> settings" where
  "chosen_settings h msg base dir t =
     (let s = (read_settings h t)\<lparr>se_vault := Some base, se_directory := Some (trim_matches ''/'' dir)\<rparr>
      in case as_str (json_index msg ''attachments'') of
           Some a \<Rightarrow> s\<lparr>se_attachments := Some (trim_matches ''/'' a)\<rparr> | None \<Rightarrow> s)"

definition configured :: "notes_host \<Rightarrow> json \<Rightarrow> (vault \<times> settings) note_op" where
  "configured h msg =
     seq (arg_of msg ''vault'' ''A vault directory is required'') (\<lambda>base.
       let dir = trim (case as_str (json_index msg ''directory'') of Some d \<Rightarrow> d | None \<Rightarrow> ''Inbox'')
       in seq (require (dir \<noteq> []) ''A notes directory is required'')
         (\<lambda>_. seq (require (\<not> starts_with ''/'' dir \<and> \<not> contains_str ''..'' dir) ''The notes directory must be inside the vault'')
           (\<lambda>_. seq (look (\<lambda>t. Good (chosen_settings h msg base dir t)))
             (\<lambda>s. seq (\<lambda>t. need (vault_from h s t) ''A vault directory is required'' t)
               (\<lambda>v. seq (ensure_vault h v)
                 (\<lambda>_. seq (\<lambda>t. require (writable h v t) ''That directory cannot be written to'' t)
                   (\<lambda>_. seq (write_settings h s) (\<lambda>_. give (v, s)))))))))"

type_synonym note_answer = "json ending \<times> nsession \<times> disk_tree"

definition refused_as :: "'a ending \<Rightarrow> json ending" where
  "refused_as r = (case r of Said e \<Rightarrow> Said e | Io e \<Rightarrow> Io e | _ \<Rightarrow> Panic)"

definition configure :: "notes_host \<Rightarrow> json \<Rightarrow> nsession \<Rightarrow> disk_tree \<Rightarrow> note_answer" where
  "configure h msg s t = (case configured h msg t of
       (Good (v, se), t') \<Rightarrow>
         (let s' = \<lparr>ss_library = Some v, ss_settings = se\<rparr>; r = with_list h v (give (state_json h s' t')) t'
          in (fst r, s', snd r))
     | (r, t') \<Rightarrow> (refused_as r, s, t'))"

definition change_ui :: "notes_host \<Rightarrow> json \<Rightarrow> nsession \<Rightarrow> disk_tree \<Rightarrow> note_answer" where
  "change_ui h msg s t =
     (let se = ss_settings s;
          se1 = (case as_i64 (json_index msg ''sidebar'') of Some n \<Rightarrow> se\<lparr>se_sidebar := Some n\<rparr> | None \<Rightarrow> se);
          se2 = (case as_bool (json_index msg ''collapsed'') of Some b \<Rightarrow> se1\<lparr>se_collapsed := Some b\<rparr> | None \<Rightarrow> se1);
          s' = s\<lparr>ss_settings := se2\<rparr>;
          r = seq (write_settings h se2) (\<lambda>_. give (json_obj [(''ui'', ui_json s')])) t
      in (fst r, s', snd r))"

definition notes_request :: "notes_host \<Rightarrow> json \<Rightarrow> nsession \<Rightarrow> disk_tree \<Rightarrow> note_answer" where
  "notes_request h msg s t =
     (let action = text_of msg ''action''
      in if max_text < length (text_of msg ''text'') then (Said limit_message, s, t)
         else if action = ''config'' then (Good (state_json h s t), s, t)
         else if action = ''vaults'' then (Good (json_obj [(''vaults'', JArr (discover_vaults h t))]), s, t)
         else if action = ''browse'' then (Good (browse h (text_of msg ''path'') t), s, t)
         else if action = ''configure'' then configure h msg s t
         else if action = ''ui'' then change_ui h msg s t
         else if action \<in> set vault_actions then
           (case ss_library s of
              None \<Rightarrow> (Said ''Choose a vault directory first'', s, t)
            | Some v \<Rightarrow> (let r = vault_request h v action msg t in (fst r, s, snd r)))
         else (Said ''Unknown Notes action'', s, t))"

text \<open>The first message of \<open>watch\<close>; \<open>None\<close> when the program ends before it. A listing that
  fails is answered with its error.\<close>

definition ready_message :: "notes_host \<Rightarrow> disk_tree \<Rightarrow> json option" where
  "ready_message h t =
     (let s = load_session h t; first = state_json h s t
      in case ss_library s of
           None \<Rightarrow> Some (json_put ''ready'' (JBool True) first)
         | Some v \<Rightarrow> (case fst (listing h v t) of
             Panic \<Rightarrow> None
           | Good l \<Rightarrow> Some (json_put ''ready'' (JBool True) (merge_json first l))
           | e \<Rightarrow> Some (json_put ''ready'' (JBool True) (merge_json first
               (json_obj [(''notes'', JArr []), (''trash'', JArr []), (''error'', error_text e)])))))"

text \<open>Requests in the order they arrive, and what other programs do to the files in between. A panic
  ends the program.\<close>

datatype notes_event = Request json | Outside disk_tree

fun serve_notes :: "notes_host \<Rightarrow> notes_event list \<Rightarrow> nsession \<Rightarrow> disk_tree \<Rightarrow> json ending list \<times> disk_tree" where
  "serve_notes h [] s t = ([], t)"
| "serve_notes h (Outside u # es) s t = serve_notes h es s u"
| "serve_notes h (Request msg # es) s t = (case notes_request h msg s t of
       (Panic, s', t') \<Rightarrow> ([Panic], t')
     | (r, s', t') \<Rightarrow> (let (rs, u) = serve_notes h es s' t' in (r # rs, u)))"

end
