(* ===== verification/Notes_Facts.thy ===== *)
theory Notes_Facts
  imports Notes_Session
begin

text \<open>
  What the operations of the notes store do to the files. \<open>obeys R P m\<close> says that the operation \<open>m\<close> relates
  the trees before and after it by \<open>R\<close>, errors and panics included, and that its result satisfies \<open>P\<close>. The
  rules for sequences are proved once for every reflexive and transitive relation.
\<close>

section \<open>Relations between trees\<close>

definition obeys :: "(disk_tree \<Rightarrow> disk_tree \<Rightarrow> bool) \<Rightarrow> ('a \<Rightarrow> bool) \<Rightarrow> 'a note_op \<Rightarrow> bool" where
  "obeys R P m \<longleftrightarrow> (\<forall>t. R t (snd (m t)) \<and> (\<forall>a. fst (m t) = Good a \<longrightarrow> P a))"

abbreviation free :: "'a \<Rightarrow> bool" where "free \<equiv> \<lambda>_. True"

lemma obeysI: "(\<And>t. R t (snd (m t))) \<Longrightarrow> (\<And>t a. fst (m t) = Good a \<Longrightarrow> P a) \<Longrightarrow> obeys R P m"
  by (simp add: obeys_def)

lemma obeys_tree: "obeys R P m \<Longrightarrow> R t (snd (m t))"
  by (simp add: obeys_def)

lemma obeys_result: "obeys R P m \<Longrightarrow> fst (m t) = Good a \<Longrightarrow> P a"
  by (simp add: obeys_def)

lemma obeys_mono: "obeys R P m \<Longrightarrow> (\<And>a. P a \<Longrightarrow> Q a) \<Longrightarrow> obeys R Q m"
  by (auto simp: obeys_def)

lemma obeys_weaken: "obeys R P m \<Longrightarrow> (\<And>t u. R t u \<Longrightarrow> S t u) \<Longrightarrow> obeys S P m"
  by (auto simp: obeys_def)

lemma seq_cases:
  obtains (good) a u where "m t = (Good a, u)" "seq m k t = k a u"
    | (bad) u where "snd (m t) = u" "snd (seq m k t) = u" "\<And>a. fst (seq m k t) \<noteq> Good a" "\<And>a. fst (m t) \<noteq> Good a"
  by (cases "m t"; cases "fst (m t)") (auto simp: seq_def)

lemma seq_Good: "seq m k t = (Good b, u) \<longleftrightarrow> (\<exists>a w. m t = (Good a, w) \<and> k a w = (Good b, u))"
  by (cases "m t"; cases "fst (m t)") (auto simp: seq_def)

lemma pure_simps [simp]:
  "snd (give a t) = t" "fst (give a t) = Good a" "snd (fail e t) = t" "fst (fail e t) = Said e"
  "snd (look f t) = t" "fst (look f t) = f t" "snd (sure x t) = t" "snd (require c e t) = t" "snd (need x e t) = t"
  by (simp_all add: give_def fail_def look_def sure_def require_def need_def split: option.splits)

lemma require_Good [simp]: "fst (require c e t) = Good a \<longleftrightarrow> c"
  by (simp add: require_def)

lemma sure_Good [simp]: "fst (sure x t) = Good a \<longleftrightarrow> x = Some a"
  by (simp add: sure_def split: option.splits)

lemma snd_ignored [simp]: "snd (ignored m t) = snd (m t)"
  by (cases "m t"; cases "fst (m t)") (auto simp: ignored_def)

locale tree_relation =
  fixes R :: "disk_tree \<Rightarrow> disk_tree \<Rightarrow> bool"
  assumes same: "R t t"
    and onward: "R t u \<Longrightarrow> R u w \<Longrightarrow> R t w"
begin

lemma obeys_pure: "(\<And>t. snd (m t) = t) \<Longrightarrow> (\<And>t a. fst (m t) = Good a \<Longrightarrow> P a) \<Longrightarrow> obeys R P m"
  by (simp add: obeys_def same)

lemma obeys_seq: "obeys R P m \<Longrightarrow> (\<And>a. P a \<Longrightarrow> obeys R Q (k a)) \<Longrightarrow> obeys R Q (seq m k)"
proof (rule obeysI)
  fix t assume m: "obeys R P m" and k: "\<And>a. P a \<Longrightarrow> obeys R Q (k a)"
  show "R t (snd (seq m k t))"
  proof (cases rule: seq_cases [of m t k])
    case (good a u)
    then have "R t u" "P a" using obeys_tree [OF m, of t] obeys_result [OF m, of t a] by auto
    then show ?thesis using good onward [of t u] obeys_tree [OF k, of a u] by simp
  next
    case bad
    then show ?thesis using obeys_tree [OF m, of t] by simp
  qed
next
  fix t a assume m: "obeys R P m" and k: "\<And>a. P a \<Longrightarrow> obeys R Q (k a)" and r: "fst (seq m k t) = Good a"
  show "Q a"
  proof (cases rule: seq_cases [of m t k])
    case (good b u)
    then show ?thesis using r obeys_result [OF m, of t b] obeys_result [OF k, of b u a] by simp
  next
    case (bad u)
    from bad(3) [of a] r show ?thesis by blast
  qed
qed

lemma obeys_then: "obeys R free m \<Longrightarrow> (\<And>a. obeys R Q (k a)) \<Longrightarrow> obeys R Q (seq m k)"
  by (rule obeys_seq)

lemma obeys_ignored: "obeys R P m \<Longrightarrow> obeys R free (ignored m)"
  using obeys_tree [of R P m] by (auto intro!: obeysI)

lemma obeys_basic:
  "P a \<Longrightarrow> obeys R P (give a)" "obeys R P (fail e)" "(\<And>t a. f t = Good a \<Longrightarrow> P a) \<Longrightarrow> obeys R P (look f)"
  "(\<And>a. x = Some a \<Longrightarrow> P a) \<Longrightarrow> obeys R P (sure x)" "obeys R free (require c e)"
  "(\<And>a. x = Some a \<Longrightarrow> P a) \<Longrightarrow> obeys R P (need x e)"
  by (auto intro!: obeys_pure simp: need_def split: option.splits)

lemma obeys_at: "(\<And>t. obeys R P (m t)) \<Longrightarrow> obeys R P (\<lambda>t. m t t)"
  by (simp add: obeys_def)

text \<open>Steps that only read, as they stand in the operations.\<close>

lemma obeys_reads:
  "obeys R free (give a)" "obeys R free (fail e)" "obeys R free (look f)" "obeys R free (sure x)"
  "obeys R free (require c e)" "obeys R free (need x e)" "obeys R free (\<lambda>t. (g t, t))"
  "obeys R free (\<lambda>t. require (c' t) e t)" "obeys R free (\<lambda>t. sure (x' t) t)" "obeys R free (\<lambda>t. need (x'' t) e t)"
  by (auto intro: obeys_pure)

text \<open>The first free name, when every attempt is harmless.\<close>

lemma obeys_unique_loop:
  "(\<And>p. obeys R free (pub (dir @ [p]))) \<Longrightarrow> obeys R (\<lambda>q. \<exists>n. q = dir @ [n]) (unique_loop pub dir name e ks)"
proof (induction ks)
  case Nil
  show ?case by (rule obeys_pure) simp_all
next
  case (Cons k ks)
  have one: "R t (snd (pub (dir @ [file_name name e k]) t))" for t
    using Cons.prems by (rule obeys_tree)
  have more: "R t (snd (unique_loop pub dir name e ks t))" for t
    using Cons.IH [OF Cons.prems] by (rule obeys_tree)
  have named: "fst (unique_loop pub dir name e ks t) = Good q \<Longrightarrow> \<exists>n. q = dir @ [n]" for t q
    using obeys_result [OF Cons.IH [OF Cons.prems]] by simp
  show ?case
  proof (rule obeysI)
    fix t
    show "R t (snd (unique_loop pub dir name e (k # ks) t))"
      using one [of t] onward [OF one [of t] more]
      by (auto simp: Let_def split: prod.splits ending.splits io_kind.splits)
  next
    fix t q
    assume "fst (unique_loop pub dir name e (k # ks) t) = Good q"
    then show "\<exists>n. q = dir @ [n]"
      by (auto simp: Let_def named split: prod.splits ending.splits io_kind.splits)
  qed
qed

lemma unique_loop_Good:
  assumes "\<And>p. obeys R free (pub (dir @ [p]))" and "unique_loop pub dir name e ks t = (Good q, u)"
  shows "\<exists>w n. q = dir @ [n] \<and> R t w \<and> pub q w = (Good (), u)"
  using assms(2)
proof (induction ks arbitrary: t)
  case (Cons k ks)
  let ?q = "dir @ [file_name name e k]"
  have first: "R t (snd (pub ?q t))"
    using assms(1) by (rule obeys_tree)
  have more: ?case if "snd (pub ?q t) = w" "unique_loop pub dir name e ks w = (Good q, u)" for w
    using Cons.IH [OF that(2)] first onward that(1) by blast
  show ?case
    using Cons.prems more same [of t]
    by (auto simp: Let_def split: prod.splits ending.splits io_kind.splits)
qed simp

lemma obeys_unique:
  "(\<And>p. obeys R free (pub (dir @ [p]))) \<Longrightarrow> obeys R (\<lambda>q. \<exists>n. q = dir @ [n]) (unique pub dir name e)"
  unfolding unique_def by (rule obeys_unique_loop)

lemma obeys_stat: "obeys R free (stat_check h p)"
  unfolding stat_check_def by (rule obeys_basic) simp

lemma obeys_walk: "obeys R (\<lambda>q. q = p @ cs) (checked_walk h p cs)"
proof (induction cs arbitrary: p)
  case (Cons c cs)
  from Cons.IH [of "p @ [c]"] show ?case
    by (auto intro!: obeys_basic obeys_then obeys_stat elim: obeys_mono)
qed (simp add: obeys_basic)

lemma obeys_checked: "obeys R (\<lambda>q. q = p @ cs) (checked_path h p cs)"
  unfolding checked_path_def by (intro obeys_then obeys_stat obeys_walk)

lemma obeys_resolve: "obeys R (\<lambda>q. q = vt_root v @ comps s \<and> comps s \<noteq> []) (resolve_path h v s)"
  unfolding resolve_path_def
proof (rule obeys_seq)
  show "obeys R (\<lambda>_. comps s \<noteq> []) (require (relative_path s \<and> is_markdown (comps s))
      ''A note must be a vault-relative Markdown file'')"
    by (rule obeys_pure) (simp_all add: is_markdown_def)
qed (auto intro: obeys_mono [OF obeys_checked])

text \<open>The listing only reads.\<close>

lemma obeys_trash_rows: "obeys R free (trash_rows h v rs)"
proof (induction rs)
  case Nil
  show ?case by (simp add: obeys_reads)
next
  case (Cons r rs)
  have row: "obeys R free (\<lambda>t. if \<not> is_file h p t then trash_rows h v rs t
      else seq (sure (trash_row h v r p t)) (\<lambda>j. seq (trash_rows h v rs) (\<lambda>js. give (j # js))) t)" for p
  proof (rule obeysI)
    fix t
    show "R t (snd (if \<not> is_file h p t then trash_rows h v rs t
        else seq (sure (trash_row h v r p t)) (\<lambda>j. seq (trash_rows h v rs) (\<lambda>js. give (j # js))) t))"
      using obeys_tree [OF Cons.IH] obeys_tree [OF obeys_then [OF obeys_reads(4) obeys_then [OF Cons.IH obeys_reads(1)]]]
      by auto
  qed simp
  show ?case by (auto intro: Cons.IH obeys_seq [OF obeys_checked row])
qed

lemma obeys_trashed: "obeys R free (trashed h v)"
  unfolding trashed_def by (rule obeys_at) (intro obeys_then obeys_trash_rows obeys_reads)

lemma obeys_listing: "obeys R free (listing h v)"
  unfolding listing_def
  by (rule obeys_seq [OF obeys_checked], rule obeys_then [OF obeys_reads(9)])
    (auto intro!: obeys_then obeys_trashed obeys_reads split: prod.split)

lemma obeys_with_list: "obeys R free m \<Longrightarrow> obeys R free (with_list h v m)"
  unfolding with_list_def by (intro obeys_then obeys_listing obeys_reads)

end

interpretation still: tree_relation "(=)"
  by unfold_locales auto

section \<open>Trees that only grow\<close>

definition grows :: "disk_tree \<Rightarrow> disk_tree \<Rightarrow> bool" where
  "grows t u \<longleftrightarrow> (\<forall>p b k. map_of t p = Some (Regular b k) \<longrightarrow> map_of u p = Some (Regular b k))"

interpretation grow: tree_relation grows
  by unfold_locales (auto simp: grows_def)

lemma map_of_update: "map_of (AList.update p n t) q = (if q = p then Some n else map_of t q)"
  by (simp add: update_conv')

lemma map_of_delete: "map_of (AList.delete p t) q = (if q = p then None else map_of t q)"
  by (simp add: delete_conv')

lemma grows_update: "map_of t p = None \<Longrightarrow> grows t (AList.update p n t)"
  by (auto simp: grows_def map_of_update)

lemma grows_make_dir: "obeys grows free (make_dir h s p)"
  by (rule obeysI) (auto simp: make_dir_def grows_update grow.same split: option.splits node.splits)

lemma grows_make_below: "obeys grows free (make_below h s p cs)"
  by (induction cs arbitrary: p) (auto intro!: grow.obeys_basic grow.obeys_then grows_make_dir)

lemma grows_make_dirs: "obeys grows free (make_dirs h s p)"
  unfolding make_dirs_def by (rule grows_make_below)

lemma grows_private: "obeys grows free (private_directory h p)"
  unfolding private_directory_def by (intro grow.obeys_then grows_make_dirs grow.obeys_basic) simp

lemma grows_publish_new: "obeys grows free (publish_path h True k p b)"
proof -
  have "obeys grows free (publish_at h True k p b)"
    by (rule obeysI) (auto simp: publish_at_def Let_def grows_update grow.same)
  then show ?thesis unfolding publish_path_def by (intro grow.obeys_then grows_private)
qed

lemma grows_place: "obeys grows free (place_staged h k b p)"
  unfolding place_staged_def
  by (rule grow.obeys_then [OF grows_private]) (rule obeysI, auto simp: Let_def grows_update grow.same)

lemma grows_write_new: "obeys grows (\<lambda>q. \<exists>n. q = dir @ [n]) (write_new h dir name text)"
  unfolding write_new_def by (auto intro!: grow.obeys_basic grow.obeys_unique grows_publish_new)

text \<open>A note that could be written new stands where nothing stood.\<close>

lemma write_new_Good:
  assumes "write_new h dir name text t = (Good q, u)"
  shows "grows t u" "\<exists>n. q = dir @ [n]" "map_of u q = Some (Regular text False)" "\<And>b k. map_of t q \<noteq> Some (Regular b k)"
proof -
  obtain w n where q: "q = dir @ [n]" and w: "grows t w" and pub: "publish_path h True False q text w = (Good (), u)"
    using assms grow.unique_loop_Good [of "\<lambda>p. publish_path h True False p text" dir name "''md''" "[1..<10001]" t q u,
        OF grows_publish_new]
    by (auto simp: write_new_def unique_def fail_def split: if_splits)
  obtain w' where w': "grows w w'" and at: "publish_at h True False q text w' = (Good (), u)"
    using pub obeys_tree [OF grows_private, of w h "butlast q"] by (auto simp: publish_path_def seq_Good)
  have "map_of w' q = None" and u: "u = AList.update q (Regular text False) w'"
    using at by (auto simp: publish_at_def Let_def split: if_splits)
  then show "grows t u" "\<exists>n. q = dir @ [n]" "map_of u q = Some (Regular text False)" "map_of t q \<noteq> Some (Regular b k)" for b k
    using q grow.onward [OF grow.onward [OF w w'] grows_update, of q "Regular text False"] grow.onward [OF w w']
    by (auto simp: map_of_update grows_def)
qed

lemma read_text_Good: "read_text h p t = Good b \<Longrightarrow> \<exists>k. map_of t p = Some (Regular b k)"
  by (auto simp: read_text_def utf8_ending_def read_bounded_def split: ending.splits option.splits node.splits if_splits)

end
