(* ===== verification/Notes_Safety.thy ===== *)
theory Notes_Safety
  imports Notes_Facts
begin

text \<open>
  No request loses what a file of the vault holds, but for the two cases in which the client gives it up:
  it saves over the version it names by its digest, or it resolves a conflict in favour of its own text.
\<close>

section \<open>Contents that stay\<close>

definition holds :: "vault \<Rightarrow> string \<Rightarrow> disk_tree \<Rightarrow> bool" where
  "holds v b t \<longleftrightarrow> (\<exists>p k. prefix (vt_root v) p \<and> map_of t p = Some (Regular b k))"

definition retains :: "vault \<Rightarrow> (string \<Rightarrow> bool) \<Rightarrow> disk_tree \<Rightarrow> disk_tree \<Rightarrow> bool" where
  "retains v B t u \<longleftrightarrow> (\<forall>b. \<not> B b \<longrightarrow> holds v b t \<longrightarrow> holds v b u)"

interpretation keep: tree_relation "retains v B" for v B
  by unfold_locales (auto simp: retains_def)

text \<open>Making directories changes no file.\<close>

definition same_files :: "disk_tree \<Rightarrow> disk_tree \<Rightarrow> bool" where
  "same_files t u \<longleftrightarrow> (\<forall>p b k. map_of u p = Some (Regular b k) \<longleftrightarrow> map_of t p = Some (Regular b k))"

interpretation calm_files: tree_relation same_files
  by unfold_locales (auto simp: same_files_def)

lemma same_files_make_below: "obeys same_files free (make_below h s p cs)"
proof (induction cs arbitrary: p)
  case Nil
  show ?case by (simp add: calm_files.obeys_basic)
next
  case (Cons c cs)
  have "obeys same_files free (make_dir h s (p @ [c]))"
    by (rule obeysI) (auto simp: make_dir_def same_files_def map_of_update split: option.splits node.splits)
  with Cons show ?case by (auto intro!: calm_files.obeys_then)
qed

lemma same_files_private: "obeys same_files free (private_directory h p)"
  unfolding private_directory_def make_dirs_def
  by (intro calm_files.obeys_then same_files_make_below calm_files.obeys_basic) simp

lemma retains_grows: "grows t u \<Longrightarrow> retains v B t u"
  unfolding grows_def retains_def holds_def by blast

lemma retains_same: "same_files t u \<Longrightarrow> retains v B t u"
  unfolding same_files_def retains_def holds_def by blast

lemma keep_grow: "obeys grows P m \<Longrightarrow> obeys (retains v B) P m"
  by (erule obeys_weaken) (rule retains_grows)

lemmas keep_dirs = keep_grow [OF grows_make_dirs]
lemmas keep_private = keep_grow [OF grows_private]
lemmas keep_write_new = keep_grow [OF grows_write_new]

text \<open>A path outside the vault can be written and removed.\<close>

lemma retains_update: "\<not> prefix (vt_root v) p \<Longrightarrow> retains v B t (AList.update p n t)"
  unfolding retains_def holds_def map_of_update by metis

lemma retains_delete: "\<not> prefix (vt_root v) p \<Longrightarrow> retains v B t (AList.delete p t)"
  unfolding retains_def holds_def map_of_delete by metis

lemma keep_publish: "\<not> prefix (vt_root v) p \<Longrightarrow> obeys (retains v B) free (publish_path h e k p b)"
proof -
  assume "\<not> prefix (vt_root v) p"
  then have "obeys (retains v B) free (publish_at h e k p b)"
    by (intro obeysI) (auto simp: publish_at_def Let_def retains_update keep.same)
  then show ?thesis unfolding publish_path_def by (intro keep.obeys_then keep_private)
qed

lemma keep_remove: "\<not> prefix (vt_root v) p \<Longrightarrow> obeys (retains v B) free (remove_file h p)"
  by (intro obeysI) (auto simp: remove_file_def retains_delete keep.same split: option.splits node.splits)

text \<open>A file that moves within the vault stays.\<close>

lemma retains_move:
  assumes src: "map_of t src = Some n" and dst: "map_of t dst = None" and inside: "prefix (vt_root v) dst"
  shows "retains v B t (AList.update dst n (AList.delete src t))"
  unfolding retains_def holds_def
proof (intro allI impI, elim exE conjE)
  fix b p k
  assume p: "prefix (vt_root v) p" "map_of t p = Some (Regular b k)"
  let ?u = "AList.update dst n (AList.delete src t)" and ?q = "if p = src then dst else p"
  have "prefix (vt_root v) ?q" "map_of ?u ?q = Some (Regular b k)"
    using p src dst inside by (auto simp: map_of_update map_of_delete)
  then show "\<exists>p k. prefix (vt_root v) p \<and> map_of ?u p = Some (Regular b k)" by blast
qed

lemma keep_move: "prefix (vt_root v) dst \<Longrightarrow> obeys (retains v B) free (rename_noreplace h src dst)"
proof -
  assume "prefix (vt_root v) dst"
  then have "obeys (retains v B) free (move_file h src dst)"
    by (intro obeysI) (auto simp: move_file_def Let_def keep.same retains_move split: option.splits)
  then show ?thesis unfolding rename_noreplace_def by (intro keep.obeys_then keep_private)
qed

lemma keep_move_new:
  "prefix (vt_root v) dir \<Longrightarrow> obeys (retains v B) (\<lambda>q. \<exists>n. q = dir @ [n]) (move_new h src dir name e)"
  unfolding move_new_def by (intro keep.obeys_unique keep_move) simp

text \<open>Writing over a file gives up what it held.\<close>

lemma retains_write:
  assumes "\<And>b k. map_of t p = Some (Regular b k) \<Longrightarrow>
    B b \<or> (\<exists>q k. q \<noteq> p \<and> prefix (vt_root v) q \<and> map_of t q = Some (Regular b k))"
  shows "retains v B t (snd (write_atomic h p text t))"
proof -
  have over: "retains v B t (AList.update p n u)" if same: "same_files t u" for n u
    unfolding retains_def holds_def
  proof (intro allI impI, elim exE conjE)
    fix b q k
    assume b: "\<not> B b" and q: "prefix (vt_root v) q" "map_of t q = Some (Regular b k)"
    obtain q' k' where "q' \<noteq> p" "prefix (vt_root v) q'" "map_of t q' = Some (Regular b k')"
      using b q assms [of b k] by (cases "q = p") auto
    then have "map_of (AList.update p n u) q' = Some (Regular b k')"
      using same by (simp add: same_files_def map_of_update)
    with \<open>prefix (vt_root v) q'\<close>
    show "\<exists>q k. prefix (vt_root v) q \<and> map_of (AList.update p n u) q = Some (Regular b k)" by blast
  qed
  have "retains v B t (snd (publish_path h False False p text t))"
    unfolding publish_path_def
  proof (cases rule: seq_cases [of "private_directory h (butlast p)" t "\<lambda>_. publish_at h False False p text"])
    case (good a u)
    then have "same_files t u"
      using obeys_tree [OF same_files_private, of t h "butlast p"] by simp
    then show "retains v B t (snd (seq (private_directory h (butlast p)) (\<lambda>_. publish_at h False False p text) t))"
      using good by (simp add: publish_at_def Let_def retains_same over)
  next
    case (bad u)
    then show "retains v B t (snd (seq (private_directory h (butlast p)) (\<lambda>_. publish_at h False False p text) t))"
      using obeys_tree [OF same_files_private, of t h "butlast p"] by (simp add: retains_same)
  qed
  then show ?thesis by (simp add: write_atomic_def keep.same)
qed

section \<open>State files\<close>

definition kept_apart :: "notes_host \<Rightarrow> vault \<Rightarrow> bool" where
  "kept_apart h v \<longleftrightarrow> \<not> prefix (vt_root v) (vt_state v) \<and> \<not> prefix (vt_state v) (vt_root v)
     \<and> \<not> prefix (vt_root v) (settings_path h)"

lemma state_outside: "kept_apart h v \<Longrightarrow> \<not> prefix (vt_root v) (vt_state v @ q)"
  by (auto simp: kept_apart_def prefix_append dest: prefix_same_cases [of "vt_root v" "vt_state v @ q" "vt_state v"])

lemma drafts_outside: "kept_apart h v \<Longrightarrow> \<not> prefix (vt_root v) (drafts_dir v @ q)"
  using state_outside [of h v "[''drafts''] @ q"] by (simp add: drafts_dir_def)

lemma keep_keep_draft: "kept_apart h v \<Longrightarrow> obeys (retains v B) free (keep_draft h v s text reason)"
  unfolding keep_draft_def draft_path_def
  by (intro keep.obeys_then keep.obeys_ignored [OF keep_private] keep.obeys_ignored [OF keep_publish] drafts_outside)

lemma keep_drop_each:
  "list_all (\<lambda>p. \<not> prefix (vt_root v) p) ps \<Longrightarrow> obeys (retains v B) free (drop_each h s ps)"
proof (induction ps)
  case (Cons p ps)
  then have "obeys (retains v B) free (drop_matching h s p)"
    using obeys_tree [OF keep_remove, of v p B] by (intro obeysI) (auto simp: drop_matching_def keep.same)
  with Cons show ?case by (auto intro!: keep.obeys_then)
qed (simp add: keep.obeys_basic)

lemma keep_drop_draft: "kept_apart h v \<Longrightarrow> obeys (retains v B) free (drop_draft h v s)"
proof -
  assume apart: "kept_apart h v"
  have each: "list_all (\<lambda>p. \<not> prefix (vt_root v) p) (map (\<lambda>n. drafts_dir v @ [n]) ns)" for ns
    using drafts_outside [OF apart] by (auto simp: list_all_iff simp del: prefix_snoc)
  have "obeys (retains v B) free (\<lambda>t. case read_dir h (drafts_dir v) t of None \<Rightarrow> (Good (), t)
      | Some names \<Rightarrow> drop_each h s (map (\<lambda>n. drafts_dir v @ [n]) (take 128 names)) t)"
    using obeys_tree [OF keep_drop_each [OF each]] by (intro obeysI) (auto simp: keep.same split: option.split)
  then show ?thesis
    unfolding drop_draft_def draft_path_def
    by (intro keep.obeys_then keep.obeys_ignored [OF keep_remove] drafts_outside [OF apart])
qed

lemma keep_index: "kept_apart h v \<Longrightarrow> obeys (retains v B) free (write_index h v name m)"
  unfolding write_index_def by (intro keep_publish state_outside)

lemma keep_settings: "kept_apart h v \<Longrightarrow> obeys (retains v B) free (write_settings h s)"
  unfolding write_settings_def by (intro keep_publish) (simp add: kept_apart_def)

section \<open>The operations\<close>

text \<open>A sequence is taken apart from its first step.\<close>

lemmas first_reads = keep.obeys_reads [THEN keep.obeys_then]
lemmas first_path = keep.obeys_checked [THEN keep.obeys_seq] keep.obeys_resolve [THEN keep.obeys_seq]
lemmas first_writes = keep_dirs [THEN keep.obeys_then] keep_private [THEN keep.obeys_then] keep_write_new [THEN keep.obeys_seq]

lemmas keep_steps = first_reads first_path first_writes keep.obeys_reads

lemma keep_index_at: "kept_apart h v \<Longrightarrow> obeys (retains v B) free (\<lambda>t. write_index h v name (m t) t)"
  by (rule keep.obeys_at) (rule keep_index)

lemmas first_state = keep_keep_draft [THEN keep.obeys_then] keep_drop_draft [THEN keep.obeys_then]
  keep_index [THEN keep.obeys_then] keep_index_at [THEN keep.obeys_then] keep_settings [THEN keep.obeys_then]

lemma keep_read_note: "obeys (retains v B) free (read_note h v s)"
  unfolding read_note_def by (intro keep_steps)

lemma keep_preview: "obeys (retains v B) free (preview h v i)"
  unfolding preview_def by (intro keep_steps)

lemma keep_save_new: "obeys (retains v B) free (save_new h v text)"
  unfolding save_new_def by (intro keep_steps)

lemma keep_trash_note: "kept_apart h v \<Longrightarrow> obeys (retains v B) free (trash_note h v s)"
  unfolding trash_note_def
  by (intro keep_steps first_state keep_move_new [THEN keep.obeys_seq]) auto

lemma keep_restore_target:
  "comps i \<noteq> [] \<Longrightarrow> obeys (retains v B) (\<lambda>q. prefix (vt_root v) (butlast q)) (restore_target h v i index)"
  by (auto simp: restore_target_def notes_dir_def butlast_append split: option.split
      intro!: keep.obeys_basic obeys_mono [OF keep.obeys_resolve])

lemma keep_restore_note: "kept_apart h v \<Longrightarrow> obeys (retains v B) free (restore_note h v i)"
  unfolding restore_note_def
proof (rule keep.obeys_seq)
  show "obeys (retains v B) (\<lambda>_. comps i \<noteq> []) (require (trash_id i) ''Invalid trash identifier'')"
    by (rule keep.obeys_pure) (simp_all add: trash_id_def is_markdown_def)
qed (intro keep_steps first_state keep_restore_target [THEN keep.obeys_seq] keep_move_new [THEN keep.obeys_seq], auto)

section \<open>Saving over a version\<close>

lemma keep_save_over:
  assumes apart: "kept_apart h v" and read: "read_text h p t = Good c" and B: "B c"
  shows "retains v B t (snd (save_over h v s p text t))"
proof -
  obtain r u where w: "write_atomic h p text t = (r, u)" by (cases "write_atomic h p text t")
  have "retains v B t (snd (write_atomic h p text t))"
    using read B by (intro retains_write) (auto dest: read_text_Good)
  then have step: "retains v B t u" by (simp add: w)
  have saved: "retains v B u (snd (seq (drop_draft h v s)
      (\<lambda>_. seq (look (note_entry h v p)) (\<lambda>j. give (saved_reply h text [] j))) u))"
    by (rule obeys_tree [where P = free]) (intro first_state apart keep_steps)
  have failed: "retains v B u (snd (seq (keep_draft h v s text ''failed'') (\<lambda>_. fail e) u))"
    "retains v B u (snd (seq (keep_draft h v s text ''failed'') (\<lambda>_ t. (Io i, t)) u))" for e i
    by (rule obeys_tree [where P = free], intro first_state apart keep_steps)+
  show ?thesis
    using step keep.onward [OF step] saved failed by (auto simp: save_over_def w split: ending.splits)
qed

lemma keep_save_at:
  assumes apart: "kept_apart h v"
  shows "obeys (retains v (\<lambda>b. nh_sha h b = baseline)) free (save_at h v s p text baseline)"
proof (rule obeysI)
  fix t
  let ?B = "\<lambda>b. nh_sha h b = baseline"
  have gone: "obeys (retains v ?B) free (seq (keep_draft h v s text ''gone'') (\<lambda>_. give (r :: json)))" for r
    by (intro first_state apart keep_steps)
  have conflict: "obeys (retains v ?B) free (seq (keep_draft h v s text ''conflict'') (\<lambda>_. give (r :: json)))" for r
    by (intro first_state apart keep_steps)
  have unchanged: "obeys (retains v ?B) free (seq (drop_draft h v s)
      (\<lambda>_. seq (look (note_entry h v p)) (\<lambda>j. give (saved_reply h text x j))))" for x
    by (intro first_state apart keep_steps)
  show "retains v ?B t (snd (save_at h v s p text baseline t))"
  proof (cases "exists h p t")
    case False
    then show ?thesis using obeys_tree [OF gone] by (simp add: save_at_def)
  next
    case True
    show ?thesis
    proof (cases "read_text h p t")
      case (Good c)
      then have "save_at h v s p text baseline t =
        (if nh_sha h c \<noteq> baseline
         then seq (keep_draft h v s text ''conflict'') (\<lambda>_. give (json_obj [(''conflict'',
               json_obj [(''path'', JStr s), (''text'', JStr c), (''hash'', JStr (nh_sha h c))])])) t
         else if c = text
         then seq (drop_draft h v s) (\<lambda>_. seq (look (note_entry h v p)) (\<lambda>j. give (saved_reply h text [(''unchanged'', JBool True)] j))) t
         else save_over h v s p text t)"
        using True by (simp add: save_at_def seq_def look_def)
      then show ?thesis
        using obeys_tree [OF conflict] obeys_tree [OF unchanged] keep_save_over [OF apart Good, of ?B] by auto
    qed (use True in \<open>simp_all add: save_at_def seq_def look_def keep.same\<close>)
  qed
qed simp

lemma keep_save_note:
  assumes apart: "kept_apart h v"
  shows "obeys (retains v (\<lambda>b. s \<noteq> None \<and> nh_sha h b = baseline)) free (save_note h v s text baseline)"
proof -
  have "obeys (retains v (\<lambda>b. s \<noteq> None \<and> nh_sha h b = baseline)) free
      (case s of None \<Rightarrow> save_new h v text | Some s \<Rightarrow> seq (resolve_path h v s) (\<lambda>p. save_at h v s p text baseline))"
    by (auto split: option.split intro!: keep_save_new first_path keep_save_at [OF apart])
  then show ?thesis unfolding save_note_def by (intro keep_steps)
qed

section \<open>Resolving a conflict\<close>

definition unread :: "notes_host \<Rightarrow> npath \<Rightarrow> disk_tree \<Rightarrow> string \<Rightarrow> bool" where
  "unread h p t b \<longleftrightarrow> b = [] \<or> ((\<exists>k. map_of t p = Some (Regular b k)) \<and> read_text h p t \<noteq> Good b)"

lemma keep_mine:
  assumes apart: "kept_apart h v" and p: "p = vt_root v @ cs" "cs \<noteq> []"
    and rest: "obeys (retains v (unread h p t)) free rest"
  shows "retains v (unread h p t) t (snd (seq (keep_external h p) (\<lambda>_. seq (write_atomic h p body) (\<lambda>_. rest)) t))"
proof -
  let ?R = "retains v (unread h p t)"
  have on: "?R t (snd (seq (write_atomic h p body) (\<lambda>_. rest) u))"
    if "?R t u" "?R u (snd (write_atomic h p body u))" for u
    using keep.onward [OF keep.onward [OF that] obeys_tree [OF rest]] keep.onward [OF that]
    by (cases rule: seq_cases [of "write_atomic h p body" u "\<lambda>_. rest"]) auto
  show ?thesis
  proof (cases "case good (read_text h p t) of Some b \<Rightarrow> b | None \<Rightarrow> []")
    case Nil
    have "?R t (snd (write_atomic h p body t))"
    proof (rule retains_write)
      fix b k assume "map_of t p = Some (Regular b k)"
      then show "unread h p t b \<or> (\<exists>q k. q \<noteq> p \<and> prefix (vt_root v) q \<and> map_of t q = Some (Regular b k))"
        using Nil by (cases "read_text h p t = Good b") (auto simp: unread_def)
    qed
    then show ?thesis using on [of t] Nil by (simp add: keep_external_def seq_def keep.same)
  next
    case (Cons c d)
    then obtain b k where b: "read_text h p t = Good b" "b = c # d" "map_of t p = Some (Regular b k)"
      by (cases "read_text h p t") (auto dest: read_text_Good)
    let ?new = "write_new h (butlast p) (copy_name h p ''external'') b"
    have ext: "keep_external h p t = seq ?new (\<lambda>_. give ()) t"
      using b by (simp add: keep_external_def)
    show ?thesis
    proof (cases rule: seq_cases [of "keep_external h p" t "\<lambda>_. seq (write_atomic h p body) (\<lambda>_. rest)"])
      case (good a u)
      then obtain q where new: "?new t = (Good q, u)"
        by (auto simp: ext seq_Good give_def)
      obtain n where q: "q = butlast p @ [n]" "map_of u q = Some (Regular b False)" and grown: "grows t u"
        using write_new_Good(1-3) [OF new] by blast
      have "q \<noteq> p" using write_new_Good(4) [OF new] b(3) by blast
      have "?R u (snd (write_atomic h p body u))"
      proof (rule retains_write)
        fix b' k' assume "map_of u p = Some (Regular b' k')"
        then have "b' = b" using grown b(3) by (auto simp: grows_def)
        moreover have "prefix (vt_root v) q" using q p by (simp add: butlast_append)
        ultimately show "unread h p t b' \<or> (\<exists>q k. q \<noteq> p \<and> prefix (vt_root v) q \<and> map_of u q = Some (Regular b' k))"
          using q(2) \<open>q \<noteq> p\<close> by blast
      qed
      then show ?thesis using good on [of u] retains_grows [OF grown] by simp
    next
      case (bad u)
      have "?R t (snd (seq ?new (\<lambda>_. give ()) t))"
        by (rule obeys_tree [where P = free]) (intro keep_steps)
      then show ?thesis using bad by (simp flip: ext)
    qed
  qed
qed

lemma keep_resolve_conflict:
  assumes apart: "kept_apart h v"
  shows "retains v (\<lambda>b. mode = ''mine'' \<and> unread h (vt_root v @ comps s) t b) t (snd (resolve_conflict h v s mode text t))"
    (is "?R t (snd _)")
proof -
  let ?act = "settle_conflict h v s mode text"
  have "?R t (snd (?act p t))" if p: "p = vt_root v @ comps s" "comps s \<noteq> []" for p
  proof (cases "mode = ''mine''")
    case True
    then show ?thesis
      using keep_mine [OF apart p, where t = t and body = "text" and rest = "seq (drop_draft h v s)
             (\<lambda>_. seq (look (note_entry h v p)) (\<lambda>j. give (saved_reply h text [] j)))"]
      by (simp add: settle_conflict_def p keep_steps first_state apart)
  next
    case False
    then have "obeys ?R free (?act p)"
      by (simp add: settle_conflict_def) (intro conjI impI keep_steps first_state apart)
    then show ?thesis by (rule obeys_tree)
  qed
  moreover have "snd (resolve_path h v s t) = t"
    using obeys_tree [OF still.obeys_resolve [of v s h], of t] by simp
  ultimately show ?thesis
    using obeys_result [OF still.obeys_resolve [of v s h], of t]
    by (cases rule: seq_cases [of "resolve_path h v s" t ?act]) (auto simp: resolve_conflict_def keep.same)
qed

section \<open>Captures and the migration\<close>

lemma keep_inputs: "obeys (retains v B) free (capture_inputs h n ss)"
  by (induction h n ss rule: capture_inputs.induct) (auto intro!: keep_steps keep.obeys_then)

lemma keep_stage: "obeys (retains v B) free (stage_inputs h dir n ps)"
  by (induction h dir n ps rule: stage_inputs.induct) (auto intro!: keep_steps keep.obeys_then)

lemma keep_place: "obeys (retains v B) (\<lambda>q. \<exists>n. q = dir @ [n]) (unique (place_staged h k b) dir name e)"
  by (intro keep.obeys_unique keep_grow [OF grows_place])

lemma keep_place_all: "obeys (retains v B) free (place_all h dir k staged)"
  by (induction h dir k staged rule: place_all.induct)
    (auto intro!: keep_steps keep.obeys_then keep_place [THEN keep.obeys_seq])

lemma keep_ensure: "obeys (retains v B) free (ensure_vault h w)"
proof -
  have "obeys (retains v B) free (seq (checked_path h (vt_root w) (comps (vt_directory w))) (\<lambda>_. make_dirs h True (notes_dir w)))"
    by (intro keep_steps keep_dirs)
  from obeys_tree [OF this] show ?thesis
    by (intro obeysI) (auto simp: ensure_vault_def keep.same)
qed

lemma keep_capture:
  assumes apart: "kept_apart h v"
  shows "obeys (retains v B) free (capture_files h v picked)"
proof -
  have "obeys (retains v B) free (save_note h v None x [])" for x
    using obeys_weaken [OF keep_save_note [OF apart, of None]] by (simp add: retains_def)
  then show ?thesis
    unfolding capture_files_def
    by (intro keep_steps keep_ensure [THEN keep.obeys_then] keep_inputs [THEN keep.obeys_then]
        keep_stage [THEN keep.obeys_then] keep_place_all [THEN keep.obeys_then])
qed

lemma keep_recordings: "obeys (retains v B) free (copy_recordings h w name ps)"
proof (induction ps)
  case (Cons p ps)
  have "obeys (retains v B) free (copy_recording h dir p)" for dir
    by (rule keep.obeys_pure) (simp_all add: copy_recording_def)
  with Cons show ?case
    by (auto intro!: keep.obeys_then keep_place [THEN keep.obeys_seq] keep.obeys_reads)
qed (simp add: keep.obeys_reads)

lemma keep_migrate_trashed: "kept_apart h v \<Longrightarrow> obeys (retains v B) free (migrate_trashed h v name n x)"
  unfolding migrate_trashed_def by (intro keep_steps first_state)

lemma keep_migrate_one: "kept_apart h v \<Longrightarrow> obeys (retains v B) free (migrate_one h v i name n ps)"
proof -
  assume apart: "kept_apart h v"
  have dirs: "obeys (retains v B) free (if ps = [] then give () else make_dirs h True (attachments_dir v))"
    by (auto intro: keep.obeys_reads keep_dirs)
  have put: "obeys (retains v B) free (if lg_trashed n then migrate_trashed h v name n x
      else seq (write_new h (notes_dir v) name x) (\<lambda>p. give (case relative_of v p of Some s \<Rightarrow> s | None \<Rightarrow> [])))" for x
    by (auto intro!: keep_migrate_trashed [OF apart] keep_steps)
  show ?thesis
    unfolding migrate_one_def
    by (intro keep_steps first_state dirs [THEN keep.obeys_then] put [THEN keep.obeys_then]
        keep_recordings [THEN keep.obeys_then] apart)
qed

lemma keep_migrate_step: "kept_apart h v \<Longrightarrow> obeys (retains v B) free (migrate_step h v run finished r m)"
proof (rule obeysI)
  fix t assume apart: "kept_apart h v"
  have one: "retains v B t u" if "migrate_one h v i name n ps t = (a, u)" for i name n ps a u
    using obeys_tree [OF keep_migrate_one [OF apart, of B i name n ps], of t] that by simp
  show "retains v B t (snd (migrate_step h v run finished r m t))"
    by (auto simp: migrate_step_def Let_def keep.same one split: option.splits prod.splits ending.splits)
qed simp

lemma keep_migrate: "kept_apart h v \<Longrightarrow> obeys (retains v B) free (migrate h v run)"
proof -
  assume apart: "kept_apart h v"
  have "obeys (retains v B) free (migrate_loop h v run finished rs m)" for finished rs m
    by (induction rs arbitrary: m) (auto intro!: keep.obeys_reads keep.obeys_then keep_migrate_step [OF apart])
  then have "obeys (retains v B) free (seq (migrate_loop h v run finished rs new_migration)
      (\<lambda>m t'. (Good (migration_json h v run m t'), t')))" for finished rs
    by (intro keep.obeys_then keep.obeys_reads)
  from obeys_tree [OF this] show ?thesis
    by (intro obeysI) (simp_all add: migrate_def)
qed

section \<open>Requests\<close>

definition may_lose :: "notes_host \<Rightarrow> vault \<Rightarrow> json \<Rightarrow> disk_tree \<Rightarrow> string \<Rightarrow> bool" where
  "may_lose h v msg t b \<longleftrightarrow>
     text_of msg ''action'' = ''save'' \<and> text_of msg ''path'' \<noteq> [] \<and> nh_sha h b = text_of msg ''baseline''
     \<or> text_of msg ''action'' = ''resolve'' \<and> text_of msg ''mode'' = ''mine''
         \<and> unread h (vt_root v @ comps (text_of msg ''path'')) t b"

lemma keep_free: "obeys (retains v (\<lambda>b. False)) free m \<Longrightarrow> retains v B t (snd (m t))"
  by (drule obeys_tree [of _ _ _ t]) (simp add: retains_def)

lemma retains_mono: "retains v B t u \<Longrightarrow> (\<And>b. B b \<Longrightarrow> C b) \<Longrightarrow> retains v C t u"
  by (auto simp: retains_def)

lemma arg_Good: "arg_of msg k e t = (if as_str (json_index msg k) = None then Said e else Good (text_of msg k), t)"
  by (auto simp: arg_of_def need_def give_def fail_def text_of_def split: option.split)

lemma with_list_retains: "retains v B t (snd (m t)) \<Longrightarrow> retains v B t (snd (with_list h w m t))"
proof (cases rule: seq_cases [of m t "\<lambda>a. seq (listing h w) (\<lambda>b. give (merge_json a b))"])
  case (good a u)
  moreover have "retains v B u (snd (seq (listing h w) (\<lambda>b. give (merge_json a b)) u))"
    by (rule obeys_tree [where P = free]) (intro keep.obeys_then keep.obeys_listing keep.obeys_reads)
  moreover assume "retains v B t (snd (m t))"
  ultimately show ?thesis by (auto simp: with_list_def intro: keep.onward)
qed (simp add: with_list_def)

lemma retains_choice:
  "(c \<Longrightarrow> retains v B t (snd (m u))) \<Longrightarrow> (\<not> c \<Longrightarrow> retains v B t (snd (n u))) \<Longrightarrow> retains v B t (snd ((if c then m else n) u))"
  "retains v B t (snd (k u)) \<Longrightarrow> (\<And>a. retains v B t (snd (f a u))) \<Longrightarrow>
     retains v B t (snd ((case x of Some a \<Rightarrow> f a | None \<Rightarrow> k) u))"
  by (auto split: option.split)

lemma vault_request_retains:
  assumes apart: "kept_apart h v" and action: "action = text_of msg ''action''"
  shows "retains v (may_lose h v msg t) t (snd (vault_request h v action msg t))"
proof -
  let ?R = "retains v (may_lose h v msg t) t"
  have save: "?R (snd (seq (arg_of msg ''text'' e) (\<lambda>text. save_note h v (case text_of msg ''path'' of [] \<Rightarrow> None | c # s \<Rightarrow> Some (c # s))
      text (text_of msg ''baseline'')) t))" if "action = ''save''" for e
  proof -
    let ?s = "case text_of msg ''path'' of [] \<Rightarrow> None | c # s \<Rightarrow> Some (c # s)"
    have "?R (snd (save_note h v ?s x (text_of msg ''baseline'') t))" for x
      using obeys_tree [OF keep_save_note [OF apart, of ?s "text_of msg ''baseline''" x], of t]
      by (rule retains_mono) (auto simp: may_lose_def action [symmetric] that split: list.splits)
    then show ?thesis by (simp add: seq_def arg_Good keep.same)
  qed
  have resolve: "?R (snd (seq (arg_of msg ''path'' e) (\<lambda>s. resolve_conflict h v s (text_of msg ''mode'') (text_of msg ''text'')) t))"
    if "action = ''resolve''" for e
  proof -
    have "?R (snd (resolve_conflict h v (text_of msg ''path'') (text_of msg ''mode'') (text_of msg ''text'') t))"
      using keep_resolve_conflict [OF apart] by (rule retains_mono) (auto simp: may_lose_def action [symmetric] that)
    then show ?thesis by (simp add: seq_def arg_Good keep.same)
  qed
  have other: "obeys (retains v (\<lambda>b. False)) free (m :: json note_op) \<Longrightarrow> ?R (snd (m t))" for m
    by (rule keep_free)
  have argument: "obeys (retains v (\<lambda>b. False)) free (arg_of msg k e)" for k e
    by (rule keep.obeys_pure) (simp_all add: arg_Good)
  note arg_of = argument [THEN keep.obeys_then]
  have audio: "obeys (retains v (\<lambda>b. False)) free (seq (arg_of msg ''path'' path_required) (\<lambda>s. seq (resolve_path h v s)
      (\<lambda>p. seq (look (read_text h p)) (\<lambda>b t. (Good (json_obj [(''audio'', audio_of h v s b t)]), t)))))"
    by (intro arg_of keep_steps)
  have draft: "obeys (retains v (\<lambda>b. False)) free (seq (arg_of msg ''path'' path_required)
      (\<lambda>s. seq (keep_draft h v s x y) (\<lambda>_. drafts_reply h v)))"
    "obeys (retains v (\<lambda>b. False)) free (seq (arg_of msg ''path'' path_required)
      (\<lambda>s. seq (drop_draft h v s) (\<lambda>_. drafts_reply h v)))" for x y
    unfolding drafts_reply_def by (intro arg_of first_state apart keep_steps)+
  have pages: "obeys (retains v (\<lambda>b. False)) free (seq (arg_of msg k e) (read_note h v))"
    "obeys (retains v (\<lambda>b. False)) free (seq (arg_of msg k e) (trash_note h v))"
    "obeys (retains v (\<lambda>b. False)) free (seq (arg_of msg k e) (restore_note h v))" for k e
    by (intro arg_of keep_read_note keep_trash_note keep_restore_note apart)+
  note simple = other [OF keep.obeys_listing] other [OF keep_preview] other [OF audio] other [OF draft(1)] other [OF draft(2)]
    other [OF pages(1)] other [OF keep_migrate [OF apart]]
  note more = other [OF pages(2)] other [OF pages(3)] other [OF keep_migrate [OF apart]] save resolve
  have listed: "?R (snd (m t)) \<Longrightarrow> ?R (snd (with_list h v m t))" for m
    by (rule with_list_retains)
  show ?thesis
    unfolding vault_request_def by (intro retains_choice listed simple more)
qed

lemma keep_configured: "kept_apart h v \<Longrightarrow> obeys (retains v B) free (configured h msg)"
  unfolding configured_def arg_of_def Let_def
  by (intro keep_steps keep_ensure [THEN keep.obeys_then] keep_settings [THEN keep.obeys_then])

lemma keep_configure:
  assumes apart: "kept_apart h v"
  shows "retains v B t (snd (snd (configure h msg s t)))"
proof -
  have first: "retains v B t (snd (configured h msg t))"
    using keep_configured [OF apart] by (rule obeys_tree)
  have then_list: "retains v B u (snd (with_list h w (give j) u))" for u w j
    by (rule with_list_retains) (simp add: keep.same)
  show ?thesis
    using first keep.onward [OF first then_list]
    by (auto simp: configure_def Let_def split: prod.split ending.split)
qed

lemma keep_change_ui: "kept_apart h v \<Longrightarrow> retains v B t (snd (snd (change_ui h msg s t)))"
proof -
  assume apart: "kept_apart h v"
  have "obeys (retains v B) free (seq (write_settings h x) (\<lambda>_. give (j :: json)))" for x j
    by (intro keep_settings [THEN keep.obeys_then] apart keep_steps)
  from obeys_tree [OF this] show ?thesis by (simp add: change_ui_def Let_def)
qed

lemma request_retains:
  assumes chosen: "ss_library s = Some v" and apart: "kept_apart h v"
  shows "retains v (may_lose h v msg t) t (snd (snd (notes_request h msg s t)))"
  using vault_request_retains [OF apart refl, of msg t] keep_configure [OF apart] keep_change_ui [OF apart] chosen
  by (simp add: notes_request_def Let_def keep.same)

text \<open>C37: No request loses what a file of the vault holds. Whatever the request, however it ends (errors
  of the kernel at any point and panics included), the bytes of every file of the vault are afterwards in
  some file of the vault, unless the request saves a note over the very version whose digest it names, or
  resolves a conflict in favour of the client's text while the version on disk is empty or cannot be read
  as a note.\<close>

theorem no_request_loses_notes:
  assumes "ss_library s = Some v" "kept_apart h v" "notes_request h msg s t = (r, s', u)"
    and "prefix (vt_root v) p" "map_of t p = Some (Regular b k)"
  shows "(\<exists>q k'. prefix (vt_root v) q \<and> map_of u q = Some (Regular b k'))
    \<or> text_of msg ''action'' = ''save'' \<and> text_of msg ''path'' \<noteq> [] \<and> nh_sha h b = text_of msg ''baseline''
    \<or> text_of msg ''action'' = ''resolve'' \<and> text_of msg ''mode'' = ''mine''
        \<and> (b = [] \<or> ((\<exists>k. map_of t (vt_root v @ comps (text_of msg ''path'')) = Some (Regular b k))
             \<and> read_text h (vt_root v @ comps (text_of msg ''path'')) t \<noteq> Good b))"
proof -
  have "retains v (may_lose h v msg t) t u"
    using request_retains [OF assms(1,2), of msg t] assms(3) by simp
  moreover have "holds v b t" using assms(4,5) by (auto simp: holds_def)
  ultimately have "may_lose h v msg t b \<or> holds v b u" by (auto simp: retains_def)
  then show ?thesis unfolding may_lose_def unread_def holds_def by blast
qed

end
