(* ===== verification/Notes_Lines.thy ===== *)
theory Notes_Lines
  imports Notes_Safety
begin

text \<open>
  What a first line can do to the store: the names it gives to files, and the line that stops the program.
\<close>

section \<open>Characters and bytes\<close>

lemma of_chars_append [simp]: "of_chars (xs @ ys) = of_chars xs @ of_chars ys"
  by (simp add: of_chars_def utf8_encode_def)

lemma of_chars_Nil [simp]: "of_chars [] = []"
  by (simp add: of_chars_def utf8_encode_def)

lemma of_chars_ascii_id: "ascii s \<Longrightarrow> of_chars (map of_char s) = s"
  by (induction s) (auto simp: of_chars_def utf8_encode_def utf8_char_def)

lemma of_chars_Cons: "of_chars (c # cs) = map char_of (utf8_char c) @ of_chars cs"
  by (simp add: of_chars_def utf8_encode_def)

lemma digit_ascii: "is_ascii_digit d \<Longrightarrow> (of_char d :: nat) < 128"
  by (simp add: is_ascii_digit_def)

lemma digit_scalar: "is_ascii_digit d \<Longrightarrow> scalar (of_char d)"
  by (auto simp: is_ascii_digit_def scalar_def)

lemma digit_not_space: "is_ascii_digit d \<Longrightarrow> \<not> is_whitespace (of_char d)"
  by (auto simp: is_ascii_digit_def is_whitespace_def)

text \<open>A character beyond ASCII is a lead byte and continuation bytes.\<close>

lemma wide_char:
  assumes "scalar c" "128 \<le> c"
  obtains a b r where "map char_of (utf8_char c) = a # b # r" "\<not> is_ascii_digit a" "continuation b"
    "(of_char a :: nat) \<ge> 192"
proof -
  have "c < 0x110000" using assms by (simp add: scalar_def)
  consider "c < 0x800" | "0x800 \<le> c" "c < 0x10000" | "0x10000 \<le> c" by linarith
  then show ?thesis
  proof cases
    case 1
    then have "c div 64 < 32" by auto
    with 1 assms show ?thesis
      by (intro that [of "char_of (192 + c div 64)" "char_of (128 + c mod 64)" "[]"])
        (auto simp: utf8_char_def is_ascii_digit_def continuation_def of_char_of take_bit_eq_mod)
  next
    case 2
    then have "c div 4096 < 16" by auto
    with 2 show ?thesis
      by (intro that [of "char_of (224 + c div 4096)" "char_of (128 + c div 64 mod 64)" "[char_of (128 + c mod 64)]"])
        (auto simp: utf8_char_def is_ascii_digit_def continuation_def of_char_of take_bit_eq_mod)
  next
    case 3
    then have "c div 262144 < 8" using \<open>c < 0x110000\<close> by auto
    with 3 show ?thesis
      by (intro that [of "char_of (240 + c div 262144)" "char_of (128 + c div 4096 mod 64)"
            "[char_of (128 + c div 64 mod 64), char_of (128 + c mod 64)]"])
        (auto simp: utf8_char_def is_ascii_digit_def continuation_def of_char_of take_bit_eq_mod)
  qed
qed

section \<open>A number before a character beyond ASCII\<close>

text \<open>A line that starts like \<open>5\<euro> for lunch\<close>: digits, then a character of several bytes.\<close>

definition digit_line :: "string \<Rightarrow> nat \<Rightarrow> nat list \<Rightarrow> string" where
  "digit_line ds c cs = ds @ of_chars (c # cs)"

definition digit_line_ok :: "string \<Rightarrow> nat \<Rightarrow> nat list \<Rightarrow> bool" where
  "digit_line_ok ds c cs \<longleftrightarrow> ds \<noteq> [] \<and> list_all is_ascii_digit ds \<and> scalar c \<and> 128 \<le> c \<and> \<not> is_whitespace c
     \<and> list_all (\<lambda>x. scalar x \<and> x \<noteq> 10 \<and> x \<noteq> 13) cs"

lemma digit_line_chars: "digit_line_ok ds c cs \<Longrightarrow> chars (digit_line ds c cs) = map of_char ds @ c # cs"
proof -
  assume ok: "digit_line_ok ds c cs"
  then have "digit_line ds c cs = of_chars (map of_char ds @ c # cs)"
    by (simp add: digit_line_def digit_line_ok_def of_chars_ascii_id list_all_iff digit_ascii)
  moreover have "list_all scalar (map of_char ds @ c # cs)"
    using ok by (auto simp: digit_line_ok_def list_all_iff digit_scalar)
  ultimately show ?thesis by (metis chars_of_chars)
qed

lemma digit_line_trim_front: "digit_line_ok ds c cs \<Longrightarrow> trim_front (digit_line ds c cs) = digit_line ds c cs"
proof -
  assume ok: "digit_line_ok ds c cs"
  then obtain d r where ds: "ds = d # r" "is_ascii_digit d" by (cases ds) (auto simp: digit_line_ok_def)
  then have "dropWhile is_whitespace (chars (digit_line ds c cs)) = map of_char ds @ c # cs"
    using digit_line_chars [OF ok] digit_not_space by simp
  with ok show ?thesis
    by (simp add: trim_front_def digit_line_def digit_line_ok_def of_chars_ascii_id list_all_iff digit_ascii)
qed

lemma digit_line_trim:
  assumes ok: "digit_line_ok ds c cs"
  obtains cs' where "trim (digit_line ds c cs) = digit_line ds c cs'" "digit_line_ok ds c cs'"
proof -
  obtain d r where ds: "ds = d # r" "is_ascii_digit d" using ok by (cases ds) (auto simp: digit_line_ok_def)
  define cs' where "cs' = rev (dropWhile is_whitespace (rev cs))"
  have "dropWhile is_whitespace (rev cs @ c # rev (map of_char ds)) = rev cs' @ c # rev (map of_char ds)"
    using ok by (simp add: cs'_def dropWhile_append digit_line_ok_def dropWhile_eq_Nil_conv)
  then have "trim_chars is_whitespace (map of_char ds @ c # cs) = map of_char ds @ c # cs'"
    using ds digit_not_space by (simp add: trim_chars_def)
  then have "trim (digit_line ds c cs) = of_chars (map of_char ds @ c # cs')"
    using digit_line_chars [OF ok] by (simp add: trim_def)
  also have "\<dots> = digit_line ds c cs'"
    using ok by (simp add: digit_line_def digit_line_ok_def of_chars_ascii_id list_all_iff digit_ascii)
  finally have "trim (digit_line ds c cs) = digit_line ds c cs'" .
  moreover have "set cs' \<subseteq> set cs"
    unfolding cs'_def using set_dropWhileD by fastforce
  then have "digit_line_ok ds c cs'"
    using ok by (auto simp: digit_line_ok_def list_all_iff)
  ultimately show ?thesis by (rule that)
qed

lemma digit_line_marker: "digit_line_ok ds c cs \<Longrightarrow> strip_marker (digit_line ds c cs) = None"
proof -
  assume ok: "digit_line_ok ds c cs"
  then obtain d r where ds: "ds = d # r" "is_ascii_digit d" by (cases ds) (auto simp: digit_line_ok_def)
  obtain a b q where c: "map char_of (utf8_char c) = a # b # q" "\<not> is_ascii_digit a" "continuation b"
    using ok by (auto simp: digit_line_ok_def elim: wide_char)
  let ?s = "digit_line ds c cs"
  have s: "?s = ds @ a # b # q @ of_chars cs" using c by (simp add: digit_line_def of_chars_Cons)
  have "strip_any [''- '', ''* '', ''+ ''] ?s = None"
    using ds by (auto simp: digit_line_def is_ascii_digit_def)
  moreover have digits: "takeWhile is_ascii_digit ?s = ds"
    using ok c(2) by (simp add: s digit_line_ok_def list_all_iff takeWhile_append)
  moreover have "str_split_at ?s (length ds + 1) = None"
    using c(3) by (simp add: str_split_at_def s nth_append)
  moreover have "length ds + 1 < length ?s" "0 < length ds"
    using ok by (simp_all add: s digit_line_ok_def)
  ultimately have "strip_number ?s = None"
    by (simp add: strip_number_def Let_def)
  then show ?thesis
    unfolding strip_marker_def Let_def digit_line_trim_front [OF ok] \<open>strip_any _ ?s = None\<close> by simp
qed

lemma digit_line_plain:
  assumes ok: "digit_line_ok ds c cs"
  shows "heading_text (digit_line ds c cs) = None" "\<not> fence (digit_line ds c cs)" "digit_line ds c cs \<noteq> []"
    "\<not> starts_with ''---'' (digit_line ds c cs @ r)" "\<not> starts_with ''```'' (digit_line ds c cs)"
    "\<not> starts_with ''!'' (digit_line ds c cs)"
proof -
  obtain d r' where ds: "ds = d # r'" "is_ascii_digit d" using ok by (cases ds) (auto simp: digit_line_ok_def)
  then have "d \<noteq> CHR ''#'' \<and> d \<noteq> CHR ''-'' \<and> d \<noteq> CHR 0x60 \<and> d \<noteq> CHR ''~'' \<and> d \<noteq> CHR ''!''"
    by (auto simp: is_ascii_digit_def)
  then show "heading_text (digit_line ds c cs) = None" "\<not> fence (digit_line ds c cs)" "digit_line ds c cs \<noteq> []"
    "\<not> starts_with ''---'' (digit_line ds c cs @ r)" "\<not> starts_with ''```'' (digit_line ds c cs)"
    "\<not> starts_with ''!'' (digit_line ds c cs)"
    unfolding heading_text_def Let_def digit_line_trim_front [OF ok]
    using ds by (auto simp: fence_def starts_with_prefix digit_line_def)
qed

lemma utf8_bytes_apart: "scalar x \<Longrightarrow> x \<noteq> n \<Longrightarrow> n < 128 \<Longrightarrow> n \<notin> set (utf8_char x)"
  by (auto simp: utf8_char_def)

lemma of_chars_apart: "list_all (\<lambda>x. scalar x \<and> x \<noteq> n) cs \<Longrightarrow> n < 128 \<Longrightarrow> char_of n \<notin> set (of_chars cs)"
proof (induction cs)
  case (Cons x cs)
  have "char_of n \<notin> char_of ` set (utf8_char x)"
  proof
    assume "char_of n \<in> (char_of ` set (utf8_char x) :: char set)"
    then obtain b where b: "b \<in> set (utf8_char x)" "(char_of n :: char) = char_of b" by blast
    with Cons.prems have "b < 256" by (auto dest: utf8_char_byte)
    with b Cons.prems have "n = b" by (simp add: char_of_eq_iff take_bit_eq_mod)
    with b Cons.prems show False by (auto dest: utf8_bytes_apart)
  qed
  with Cons show ?case by (simp add: of_chars_Cons)
qed simp

lemma digit_line_breaks:
  assumes ok: "digit_line_ok ds c cs"
  shows "newline \<notin> set (digit_line ds c cs)" "carriage \<notin> set (digit_line ds c cs)"
proof -
  have "char_of n \<notin> set (digit_line ds c cs)" if n: "n = 10 \<or> n = 13" for n :: nat
  proof -
    have "char_of n \<notin> set (of_chars (c # cs))"
      using ok n by (intro of_chars_apart) (auto simp: digit_line_ok_def list_all_iff)
    moreover have "\<not> is_ascii_digit (char_of n)" using n by (auto simp: is_ascii_digit_def)
    then have "char_of n \<notin> set ds" using ok by (auto simp: digit_line_ok_def list_all_iff)
    ultimately show ?thesis by (simp add: digit_line_def)
  qed
  from this [of 10] this [of 13] show "newline \<notin> set (digit_line ds c cs)" "carriage \<notin> set (digit_line ds c cs)"
    by (simp_all add: newline_def carriage_def)
qed

lemma digit_line_first:
  assumes ok: "digit_line_ok ds c cs" and tail: "r = [] \<or> hd r = newline"
  obtains ls where "str_lines (body_after_frontmatter (digit_line ds c cs @ r)) = digit_line ds c cs # ls"
proof -
  let ?l = "digit_line ds c cs"
  have body: "body_after_frontmatter (?l @ r) = ?l @ r"
    using digit_line_plain(4) [OF ok, of r] by (simp add: body_after_frontmatter_def starts_with_def)
  have "last ?l \<noteq> carriage"
    using digit_line_breaks(2) [OF ok] digit_line_plain(3) [OF ok] by (metis last_in_set)
  moreover have "\<exists>fs. split_on newline (?l @ r) = ?l # fs \<and> (r = [] \<longleftrightarrow> fs = [])"
  proof (cases r)
    case Nil
    then show ?thesis using digit_line_breaks(1) [OF ok] by (simp add: split_on_notin)
  next
    case (Cons x q)
    with tail digit_line_breaks(1) [OF ok] show ?thesis by (auto simp: split_on_append)
  qed
  ultimately show ?thesis
    using that digit_line_plain(3) [OF ok] by (auto simp: body str_lines_def Let_def)
qed

lemma digit_line_panics:
  assumes "digit_line_ok ds c cs" "r = [] \<or> hd r = newline"
  shows "summarize name (digit_line ds c cs @ r) = None" "name_for now_name (digit_line ds c cs @ r) = None"
proof -
  obtain ls where ls: "str_lines (body_after_frontmatter (digit_line ds c cs @ r)) = digit_line ds c cs # ls"
    using digit_line_first [OF assms] .
  obtain cs' where t: "trim (digit_line ds c cs) = digit_line ds c cs'" and ok: "digit_line_ok ds c cs'"
    using digit_line_trim [OF assms(1)] .
  show "summarize name (digit_line ds c cs @ r) = None" "name_for now_name (digit_line ds c cs @ r) = None"
    using digit_line_plain [OF ok] digit_line_marker [OF ok] digit_line_plain(4) [OF ok, of "[]"]
    by (simp_all add: summarize_def name_for_def ls t)
qed

section \<open>The program stops\<close>

lemma note_rows_panic:
  "p \<in> set ps \<Longrightarrow> is_markdown p \<Longrightarrow> is_file h p t \<Longrightarrow> note_entry h v p t = Panic \<Longrightarrow> note_rows h v ps t = None"
  by (induction h v ps t rule: note_rows.induct) (auto split: ending.splits)

lemma listing_panics:
  assumes checked: "fst (checked_path h (vt_root v) (comps (vt_directory v)) t) = Good (notes_dir v)"
    and dir: "read_dir h (notes_dir v) t = Some names" "n \<in> set (take max_listed names)" "markdown_name n"
    and entry: "is_file h (notes_dir v @ [n]) t" "note_entry h v (notes_dir v @ [n]) t = Panic"
  shows "fst (listing h v t) = Panic"
proof -
  have "checked_path h (vt_root v) (comps (vt_directory v)) t = (Good (notes_dir v), t)"
    using checked obeys_tree [OF still.obeys_checked [of "vt_root v" "comps (vt_directory v)" h], of t]
    by (cases "checked_path h (vt_root v) (comps (vt_directory v)) t") simp
  moreover have "note_rows h v (map (\<lambda>n. notes_dir v @ [n]) (take max_listed names)) t = None"
    by (rule note_rows_panic [of "notes_dir v @ [n]"]) (use dir entry in \<open>auto simp: is_markdown_def\<close>)
  ultimately show ?thesis
    using dir(1) by (simp add: listing_def seq_def sure_def)
qed

text \<open>C38: A note of the notes directory whose text starts with a number that is followed at once by a character
  beyond ASCII stops the program: the split after the number lies inside that character, so every listing
  panics, the store ends before its first message to the window, and a new note with such a text cannot be
  saved.\<close>

theorem number_line_stops_store:
  assumes vault: "vault_from h (read_settings h t) t = Some v"
    and line: "digit_line_ok ds c cs" "r = [] \<or> hd r = newline"
    and kept: "map_of t (notes_dir v @ [n]) = Some (Regular (digit_line ds c cs @ r) k)" "markdown_name n"
      "valid_utf8 (digit_line ds c cs @ r)" "length (digit_line ds c cs @ r) \<le> max_text"
      "valid_utf8 (join_comps (comps (vt_directory v) @ [n]))"
    and readable: "nh_ok h Stat (notes_dir v @ [n]) t" "nh_ok h Read (notes_dir v @ [n]) t"
      "fst (checked_path h (vt_root v) (comps (vt_directory v)) t) = Good (notes_dir v)"
      "read_dir h (notes_dir v) t = Some names" "n \<in> set (take max_listed names)"
  shows "ready_message h t = None
    \<and> fst (notes_request h (json_obj [(''action'', JStr ''list'')]) (load_session h t) t) = Panic
    \<and> save_new h v (digit_line ds c cs @ r) t = (Panic, t)"
proof -
  let ?p = "notes_dir v @ [n]" and ?b = "digit_line ds c cs @ r"
  have "relative_of v ?p = Some (join_comps (comps (vt_directory v) @ [n]))"
    using kept(5) by (simp add: relative_of_def notes_dir_def)
  moreover have "read_text h ?p t = Good ?b"
    using kept readable by (simp add: read_text_def utf8_ending_def read_bounded_def)
  ultimately have "note_entry h v ?p t = Panic"
    using digit_line_panics(1) [OF line] by (simp add: note_entry_def entry_text_def)
  moreover have "is_file h ?p t" using kept(1) readable(1) by (simp add: is_file_def lstat_def)
  ultimately have list: "fst (listing h v t) = Panic"
    using listing_panics readable(3-5) kept(2) by blast
  then have "ready_message h t = None"
    using vault by (simp add: ready_message_def load_session_def)
  moreover have "fst (notes_request h (json_obj [(''action'', JStr ''list'')]) (load_session h t) t) = Panic"
    using list vault by (simp add: notes_request_def load_session_def text_of_def json_index_def vault_actions_def
        vault_request_def max_text_def)
  moreover have "save_new h v ?b t = (Panic, t)"
    using digit_line_panics(2) [OF line, of "nh_stamp h"] by (simp add: save_new_def seq_def sure_def)
  ultimately show ?thesis by blast
qed

end
