(* ===== verification/Notes_Theorems.thy ===== *)
theory Notes_Theorems
  imports Notes_Lines
begin

text \<open>
  What the operations do when the kernel does its work: a note that is trashed and restored comes back, and
  a conflict resolved in favour of the client's text loses a version that is not a note. The witnesses of the
  properties of the store are at the end.
\<close>

section \<open>Operations that succeed\<close>

definition kernel_works :: "notes_host \<Rightarrow> bool" where
  "kernel_works h \<longleftrightarrow> (\<forall>op p t. nh_ok h op p t)"

text \<open>Every directory down to \<open>p\<close> stands and is safe.\<close>

definition dirs_safe :: "disk_tree \<Rightarrow> npath \<Rightarrow> bool" where
  "dirs_safe t p \<longleftrightarrow> (\<forall>c. c \<noteq> [] \<longrightarrow> prefix c p \<longrightarrow> map_of t c = Some (Folder True))"

lemma dirs_safe_prefix: "dirs_safe t p \<Longrightarrow> prefix q p \<Longrightarrow> dirs_safe t q"
  by (auto simp: dirs_safe_def dest: prefix_order.trans)

lemma dirs_safe_agree: "dirs_safe t p \<Longrightarrow> (\<And>c. prefix c p \<Longrightarrow> map_of u c = map_of t c) \<Longrightarrow> dirs_safe u p"
  by (auto simp: dirs_safe_def)

lemma dirs_safe_Folder: "dirs_safe t p \<Longrightarrow> p \<noteq> [] \<Longrightarrow> map_of t p = Some (Folder True)"
  by (auto simp: dirs_safe_def)

lemma make_below_stands: "dirs_safe t (p @ cs) \<Longrightarrow> make_below h s p cs t = (Good (), t)"
proof (induction cs arbitrary: p)
  case (Cons c cs)
  have "map_of t (p @ [c]) = Some (Folder True)"
    using Cons.prems dirs_safe_Folder [OF dirs_safe_prefix, of t "p @ c # cs" "p @ [c]"] by simp
  with Cons.IH [of "p @ [c]"] Cons.prems show ?case
    by (simp add: seq_def make_dir_def)
qed (simp add: give_def)

lemma make_dirs_stands: "dirs_safe t p \<Longrightarrow> make_dirs h s p t = (Good (), t)"
  using make_below_stands [of t "[]" p] by (simp add: make_dirs_def)

lemma private_stands: "dirs_safe t p \<Longrightarrow> private_directory h p t = (Good (), t)"
  using dirs_safe_Folder [of t p] by (auto simp: private_directory_def seq_def make_dirs_stands look_def)

lemma walk_stands:
  assumes works: "kernel_works h"
  shows "dirs_safe t (p @ butlast cs) \<Longrightarrow> p \<noteq> [] \<Longrightarrow> ''..'' \<notin> set cs \<Longrightarrow>
    map_of t (p @ cs) \<notin> {Some Symlink, Some (Folder False)} \<Longrightarrow> checked_walk h p cs t = (Good (p @ cs), t)"
proof (induction cs arbitrary: p)
  case Nil
  then show ?case by (simp add: give_def)
next
  case (Cons c cs)
  have "map_of t p = Some (Folder True)"
    using Cons.prems(1,2) dirs_safe_Folder [OF dirs_safe_prefix, of t "p @ butlast (c # cs)" p] by simp
  moreover have "map_of t (p @ [c]) \<notin> {Some Symlink, Some (Folder False)}"
    using Cons.prems(1,4) dirs_safe_Folder [OF dirs_safe_prefix, of t "p @ butlast (c # cs)" "p @ [c]"]
    by (cases cs) auto
  ultimately have "stat_check h (p @ [c]) t = (Good (), t)"
    using works by (auto simp: stat_check_def look_def lstat_def kernel_works_def
        split: option.splits node.splits bool.splits)
  moreover have "checked_walk h (p @ [c]) cs t = (Good (p @ c # cs), t)"
    using Cons.IH [of "p @ [c]"] Cons.prems by (cases cs) (auto simp: give_def)
  ultimately show ?case using Cons.prems(3) by (auto simp: seq_def)
qed

lemma checked_stands:
  assumes "kernel_works h" "dirs_safe t (p @ butlast cs)" "p \<noteq> []" "''..'' \<notin> set cs"
    "map_of t (p @ cs) \<notin> {Some Symlink, Some (Folder False)}"
  shows "checked_path h p cs t = (Good (p @ cs), t)"
proof -
  have "map_of t p = Some (Folder True)"
    using assms(2,3) dirs_safe_Folder [OF dirs_safe_prefix, of t "p @ butlast cs" p] by simp
  then have "stat_check h p t = (Good (), t)"
    using assms(1) by (simp add: stat_check_def look_def lstat_def kernel_works_def)
  then show ?thesis using walk_stands [OF assms] by (simp add: checked_path_def seq_def)
qed

lemma unique_first: "unique pub dir name e = unique_loop pub dir name e (1 # [Suc 1..<10001])"
  unfolding unique_def by (subst upt_conv_Cons) (simp, rule refl)

lemma move_new_free:
  assumes "kernel_works h" "dirs_safe t (butlast src)" "dirs_safe t dir" "base_name_ok src" "base_name_ok (dir @ [name @ ''.'' @ e])"
    "map_of t src = Some (Regular b k)" "map_of t (dir @ [name @ ''.'' @ e]) = None"
  shows "move_new h src dir name e t =
    (Good (dir @ [name @ ''.'' @ e]), AList.update (dir @ [name @ ''.'' @ e]) (Regular b k) (AList.delete src t))"
proof -
  have "rename_noreplace h src (dir @ [name @ ''.'' @ e]) t =
      (Good (), AList.update (dir @ [name @ ''.'' @ e]) (Regular b k) (AList.delete src t))"
    using assms by (simp add: rename_noreplace_def seq_def private_stands move_file_def kernel_works_def Let_def)
  then show ?thesis
    unfolding move_new_def unique_first unique_loop.simps Let_def file_name_def by simp
qed

lemma publish_over:
  assumes "kernel_works h" "dirs_safe t (butlast p)" "base_name_ok p" "\<And>s. map_of t p \<noteq> Some (Folder s)"
  shows "publish_path h False k p b t = (Good (), AList.update p (Regular b k) t)"
  using assms by (simp add: publish_path_def seq_def private_stands publish_at_def kernel_works_def Let_def)

text \<open>Dropping a draft ends well and changes nothing but drafts.\<close>

definition same_but :: "npath \<Rightarrow> disk_tree \<Rightarrow> disk_tree \<Rightarrow> bool" where
  "same_but d t u \<longleftrightarrow> (\<forall>p. \<not> prefix d p \<longrightarrow> map_of u p = map_of t p)
     \<and> (\<forall>p n. map_of u p = Some n \<longrightarrow> map_of t p = Some n)"

interpretation but: tree_relation "same_but d" for d
proof unfold_locales
  show "same_but d t t" for t by (simp add: same_but_def)
  show "same_but d t w" if t: "same_but d t u" and u: "same_but d u w" for t u w
    unfolding same_but_def
  proof (intro conjI allI impI)
    fix p assume "\<not> prefix d p"
    then have "map_of w p = map_of u p" "map_of u p = map_of t p"
      using t u unfolding same_but_def by blast+
    then show "map_of w p = map_of t p" by (rule trans)
  next
    fix p n assume "map_of w p = Some n"
    with t u show "map_of t p = Some n" unfolding same_but_def by blast
  qed
qed

lemma remove_same_but: "prefix d p \<Longrightarrow> obeys (same_but d) free (remove_file h p)"
  by (rule obeysI) (auto simp: remove_file_def same_but_def map_of_delete split: option.splits node.splits if_splits)

lemma drop_each_same: "obeys (same_but d) free (drop_each h s (map (\<lambda>n. d @ [n]) ns))"
proof (induction ns)
  case (Cons n ns)
  have "obeys (same_but d) free (drop_matching h s (d @ [n]))"
    using obeys_tree [OF remove_same_but, of d "d @ [n]"] by (intro obeysI) (auto simp: drop_matching_def but.same)
  with Cons show ?case by (auto intro!: but.obeys_then)
qed (simp add: but.obeys_reads)

lemma drop_draft_same: "same_but (drafts_dir v) t (snd (drop_draft h v s t))"
proof -
  have "obeys (same_but (drafts_dir v)) free (\<lambda>t. case read_dir h (drafts_dir v) t of None \<Rightarrow> (Good (), t)
      | Some names \<Rightarrow> drop_each h s (map (\<lambda>n. drafts_dir v @ [n]) (take 128 names)) t)"
    using obeys_tree [OF drop_each_same] by (intro obeysI) (auto simp: but.same split: option.split)
  then have "obeys (same_but (drafts_dir v)) free (drop_draft h v s)"
    unfolding drop_draft_def draft_path_def
    by (intro but.obeys_then but.obeys_ignored [OF remove_same_but]) simp_all
  then show ?thesis by (rule obeys_tree)
qed

lemma ignored_remove: "fst (ignored (remove_file h p) t) = Good ()"
  by (auto simp: ignored_def remove_file_def split: option.split node.split)

lemma drop_each_Good: "fst (drop_each h s ps t) = Good ()"
proof (induction ps arbitrary: t)
  case (Cons p ps)
  have "fst (drop_matching h s p t) = Good ()" by (simp add: drop_matching_def ignored_remove)
  with Cons show ?case by (cases "drop_matching h s p t") (simp add: seq_def)
qed simp

lemma drop_draft_Good: "fst (drop_draft h v s t) = Good ()"
proof -
  have "fst (ignored (remove_file h (draft_path h v s)) t) = Good ()" by (rule ignored_remove)
  then show ?thesis
    by (cases "ignored (remove_file h (draft_path h v s)) t")
      (auto simp: drop_draft_def seq_def drop_each_Good split: option.split)
qed

lemma comps_names: "relative_path s \<Longrightarrow> c \<in> set (comps s) \<Longrightarrow> nul \<notin> set c \<and> c \<noteq> [] \<and> c \<noteq> ''.'' \<and> c \<noteq> ''..''"
proof -
  assume s: "relative_path s" and c: "c \<in> set (comps s)"
  have "set c \<subseteq> set s" if "c \<in> set (split_on (CHR ''/'') s)" for c
    using that
  proof (induction s arbitrary: c)
    case (Cons a s)
    then show ?case
      by (cases "split_on (CHR ''/'') s") (fastforce split: if_splits)+
  qed simp
  with s c show ?thesis by (auto simp: relative_path_def comps_def)
qed

lemma resolve_stands:
  assumes "kernel_works h" "vt_root v \<noteq> []" "relative_path s" "is_markdown (comps s)"
    and "dirs_safe t (butlast (vt_root v @ comps s))" "map_of t (vt_root v @ comps s) \<notin> {Some Symlink, Some (Folder False)}"
  shows "resolve_path h v s t = (Good (vt_root v @ comps s), t)" "base_name_ok (vt_root v @ comps s)"
proof -
  have ne: "comps s \<noteq> []" using assms(4) by (simp add: is_markdown_def)
  have up: "''..'' \<notin> set (comps s)" using assms(3) by (simp add: relative_path_def)
  have "dirs_safe t (vt_root v @ butlast (comps s))" using assms(5) ne by (simp add: butlast_append)
  from checked_stands [OF assms(1) this assms(2) up assms(6)]
  show "resolve_path h v s t = (Good (vt_root v @ comps s), t)"
    using assms(3,4) by (simp add: resolve_path_def seq_def require_def give_def)
  show "base_name_ok (vt_root v @ comps s)"
    using comps_names [OF assms(3) last_in_set [OF ne]] ne by (simp add: base_name_ok_def)
qed

lemma drafts_apart: "kept_apart h v \<Longrightarrow> \<not> prefix (drafts_dir v) (vt_root v @ cs)"
proof
  assume apart: "kept_apart h v" and "prefix (drafts_dir v) (vt_root v @ cs)"
  then have "prefix (vt_root v) (drafts_dir v) \<or> prefix (drafts_dir v) (vt_root v)"
    by (meson prefixI prefix_same_cases)
  then show False
    using drafts_outside [OF apart, of "[]"] apart by (auto simp: kept_apart_def drafts_dir_def dest: append_prefixD)
qed

text \<open>C39: Resolving a conflict in favour of the client's text loses the other version when that is not a note
  any more: of a file that is not UTF-8, or longer than the limit, no copy is made, and it is overwritten.\<close>

theorem mine_overwrites_unreadable:
  assumes works: "kernel_works h" and vault: "vt_root v \<noteq> []" "kept_apart h v"
    and note_path: "relative_path s" "is_markdown (comps s)" "dirs_safe t (butlast (vt_root v @ comps s))"
    and external: "map_of t (vt_root v @ comps s) = Some (Regular b k)" "\<not> valid_utf8 b \<or> max_text < length b"
      "\<And>q k. map_of t q = Some (Regular b k) \<Longrightarrow> q = vt_root v @ comps s"
    and own: "valid_utf8 own" "length own \<le> max_text"
  shows "map_of (snd (resolve_conflict h v s ''mine'' own t)) (vt_root v @ comps s) = Some (Regular own False)
    \<and> (\<forall>q k. map_of (snd (resolve_conflict h v s ''mine'' own t)) q \<noteq> Some (Regular b k))"
proof -
  let ?p = "vt_root v @ comps s"
  define u where "u = AList.update ?p (Regular own False) t"
  define w where "w = snd (drop_draft h v s u)"
  have path: "resolve_path h v s t = (Good ?p, t)" "base_name_ok ?p"
    using resolve_stands [OF works vault(1) note_path] external(1) by simp_all
  have "good (read_text h ?p t) = None"
    using external(1,2) by (auto simp: read_text_def utf8_ending_def read_bounded_def)
  then have ext: "keep_external h ?p t = (Good (), t)" by (simp add: keep_external_def)
  have wrote: "write_atomic h ?p own t = (Good (), u)"
    using publish_over [OF works note_path(3) path(2), of False own] external(1) own(2)
    by (simp add: write_atomic_def u_def)
  have dropped: "drop_draft h v s u = (Good (), w)"
    unfolding w_def by (metis drop_draft_Good prod.collapse)
  have end_tree: "snd (resolve_conflict h v s ''mine'' own t) = w"
  proof (cases rule: seq_cases [of "look (note_entry h v ?p)" w "\<lambda>j. give (saved_reply h own [] j)"])
    case (good a x)
    then show ?thesis by (simp add: resolve_conflict_def settle_conflict_def seq_def path(1) ext wrote dropped look_def give_def)
  next
    case (bad x)
    then show ?thesis
      by (simp add: resolve_conflict_def settle_conflict_def seq_def path(1) ext wrote dropped look_def give_def)
  qed
  have same: "same_but (drafts_dir v) u w"
    using drop_draft_same [of v u h s] by (simp add: w_def)
  have "\<not> prefix (drafts_dir v) ?p"
    using drafts_apart [OF vault(2)] .
  then have "map_of w ?p = Some (Regular own False)"
    using same by (simp add: same_but_def u_def map_of_update)
  moreover have "map_of w q \<noteq> Some (Regular b k')" for q k'
  proof
    assume "map_of w q = Some (Regular b k')"
    then have "map_of u q = Some (Regular b k')" using same by (simp add: same_but_def)
    then show False using external(2,3) own by (auto simp: u_def map_of_update split: if_splits)
  qed
  ultimately show ?thesis by (simp add: end_tree)
qed

section \<open>There and back again\<close>

lemma name_trash_id:
  assumes "relative_path s" "c \<in> set (comps s)" "markdown_name c"
  shows "trash_id c" "comps c = [c]"
proof -
  have slash: "CHR ''/'' \<notin> set d \<and> length d \<le> length s" if "d \<in> set (split_on (CHR ''/'') s)" for d s
    using that
  proof (induction s arbitrary: d)
    case (Cons a s)
    then show ?case by (cases "split_on (CHR ''/'') s") (fastforce split: if_splits)+
  qed simp
  have c: "CHR ''/'' \<notin> set c" "length c \<le> length s" "nul \<notin> set c" "c \<noteq> []" "c \<noteq> ''.''" "c \<noteq> ''..''"
    using slash [of c s] comps_names [OF assms(1,2)] assms(2) by (auto simp: comps_def)
  then have plain: "split_on (CHR ''/'') c = [c]" "\<not> starts_with ''/'' c"
    by (auto simp: split_on_notin starts_with_prefix prefix_def)
  show "comps c = [c]" using c plain by (simp add: comps_def)
  then show "trash_id c"
    using c plain assms(1,3) by (auto simp: trash_id_def relative_path_def path_components_def is_markdown_def)
qed

definition trash_record :: "notes_host \<Rightarrow> string \<Rightarrow> json" where
  "trash_record h s = json_obj [(''origin'', JStr s), (''trashed'', jint (nh_now h))]"

text \<open>The index after a note of the name \<open>c\<close> went to the trash.\<close>

definition trash_index :: "notes_host \<Rightarrow> vault \<Rightarrow> string \<Rightarrow> string \<Rightarrow> disk_tree \<Rightarrow> (string \<times> json) list" where
  "trash_index h v s c t = bt_insert c (trash_record h s) (index_of_vault h v ''trash.json'' t)"

text \<open>The frame of both directions: where the note, its place in the trash and the index are.\<close>

lemma trash_names:
  assumes names: "relative_path s" "is_markdown (comps s)" "last (comps s) = stem (comps s) @ ''.md''"
    and c: "c = last (comps s)" and p: "p = vt_root v @ comps s" and d: "d = trash_dir v @ [c]"
    and ix: "ix = vt_state v @ [''trash.json'']"
  shows "butlast p @ [c] = p" "trash_id c" "comps c = [c]" "c \<noteq> ''..''" "stem p @ ''.md'' = c"
    "base_name_ok p" "base_name_ok d" "base_name_ok ix"
proof -
  have ne: "comps s \<noteq> []" using names(2) by (simp add: is_markdown_def)
  then have at: "c \<in> set (comps s)" "markdown_name c" "last p = c"
    using names(2) by (auto simp: c p is_markdown_def)
  show "butlast p @ [c] = p" using ne by (simp add: c p butlast_append)
  show "trash_id c" "comps c = [c]" using name_trash_id [OF names(1) at(1,2)] .
  have cn: "nul \<notin> set c \<and> c \<noteq> [] \<and> c \<noteq> ''.'' \<and> c \<noteq> ''..''" using comps_names [OF names(1) at(1)] .
  then show "c \<noteq> ''..''" by simp
  have "stem p = stem (comps s)" using ne by (simp add: stem_def p)
  then show "stem p @ ''.md'' = c" using names(3) by (metis c)
  show "base_name_ok p" "base_name_ok d" "base_name_ok ix"
    using cn at(3) ne by (auto simp: base_name_ok_def d ix p nul_def char_of_def)
qed

lemma trash_apart:
  assumes "kept_apart h v" "p = vt_root v @ comps s" "d = trash_dir v @ [c]" "ix = vt_state v @ [''trash.json'']"
  shows "ix \<noteq> p" "ix \<noteq> d" "\<not> prefix (drafts_dir v) p" "\<not> prefix (drafts_dir v) d" "\<not> prefix (drafts_dir v) ix"
    "\<not> prefix (drafts_dir v) (trash_dir v)" "\<not> prefix (drafts_dir v) (vt_state v)"
  using assms state_outside [OF assms(1), of "[''trash.json'']"] drafts_apart [OF assms(1), of "comps s"]
    drafts_apart [OF assms(1), of "[''.trash'', c]"] drafts_apart [OF assms(1), of "[''.trash'']"]
  by (auto simp: trash_dir_def drafts_dir_def prefix_def)

lemma trash_takes_away:
  assumes works: "kernel_works h" and vault: "vt_root v \<noteq> []" "kept_apart h v"
    and names: "relative_path s" "is_markdown (comps s)" "last (comps s) = stem (comps s) @ ''.md''" "valid_utf8 c"
    and c: "c = last (comps s)" and p: "p = vt_root v @ comps s" and d: "d = trash_dir v @ [c]"
    and ix: "ix = vt_state v @ [''trash.json'']"
    and dirs: "dirs_safe t (butlast p)" "dirs_safe t (trash_dir v)" "dirs_safe t (vt_state v)"
    and files: "map_of t p = Some (Regular b k)" "map_of t d = None" "\<And>f. map_of t ix \<noteq> Some (Folder f)"
  shows "\<exists>u. trash_note h v s t = (Good (json_obj [(''trashed'', JStr c)]), u)
    \<and> map_of u p = None \<and> map_of u d = Some (Regular b k)
    \<and> map_of u ix = Some (Regular (nh_show h (JObj (trash_index h v s c t))) True)
    \<and> dirs_safe u (butlast p) \<and> dirs_safe u (trash_dir v) \<and> dirs_safe u (vt_state v)"
proof -
  define u1 where "u1 = AList.update d (Regular b k) (AList.delete p t)"
  define u2 where "u2 = AList.update ix (Regular (nh_show h (JObj (trash_index h v s c t))) True) u1"
  define u where "u = snd (drop_draft h v s u2)"
  note base = trash_names [OF names(1-3) c p d ix]
  note apart = trash_apart [OF vault(2) p d ix]
  have "d \<noteq> p" using files(1,2) by auto
  have same: "same_but (drafts_dir v) u2 u" using drop_draft_same [of v u2 h s] by (simp add: u_def)
  have at: "map_of u p = None" "map_of u d = Some (Regular b k)"
    "map_of u ix = Some (Regular (nh_show h (JObj (trash_index h v s c t))) True)"
    using same apart \<open>d \<noteq> p\<close> by (simp_all add: same_but_def u2_def u1_def map_of_update map_of_delete)
  have keeps1: "dirs_safe u1 q" if "dirs_safe t q" for q
    using that files(1,2) by (auto simp: dirs_safe_def u1_def map_of_update map_of_delete)
  have keeps: "dirs_safe u q" if q: "dirs_safe t q" "\<not> prefix (drafts_dir v) q" for q
    unfolding dirs_safe_def
  proof (intro allI impI)
    fix e assume e: "e \<noteq> []" "prefix e q"
    then have "map_of u1 e = Some (Folder True)" "map_of t e = Some (Folder True)"
      using keeps1 [OF q(1)] q(1) by (auto simp: dirs_safe_def)
    moreover have "e \<noteq> ix" "\<not> prefix (drafts_dir v) e"
      using calculation(2) files(3) e(2) q(2) prefix_order.trans by auto
    ultimately show "map_of u e = Some (Folder True)"
      using same by (simp add: same_but_def u2_def map_of_update)
  qed
  have "map_of u1 ix = map_of t ix" using apart by (simp add: u1_def map_of_update map_of_delete)
  then have "read_bounded h ix max_request True u1 = read_bounded h ix max_request True t"
    using works by (auto simp: read_bounded_def kernel_works_def split: option.split node.split)
  then have index: "index_of_vault h v ''trash.json'' u1 = index_of_vault h v ''trash.json'' t"
    by (simp add: index_of_vault_def index_at_def draft_of_def read_state_def ix)
  have written: "write_index h v ''trash.json'' (trash_index h v s c t) u1 = (Good (), u2)"
    using publish_over [OF works, of u1 ix True] keeps1 [OF dirs(3)] base files(3) \<open>map_of u1 ix = map_of t ix\<close>
    by (simp add: write_index_def u2_def ix)
  have checked: "checked_path h (vt_root v) [''.trash''] t = (Good (trash_dir v), t)"
    using checked_stands [OF works _ vault(1), of t "[''.trash'']"] dirs_safe_Folder [OF dirs(2)]
      dirs_safe_prefix [OF dirs(2), of "vt_root v"] by (simp add: trash_dir_def)
  have moved: "move_new h p (trash_dir v) (stem p) ''md'' t = (Good d, u1)"
    using move_new_free [OF works dirs(1,2), of "stem p" "''md''" b k] base files(1,2) by (simp add: u1_def d)
  have dropped: "drop_draft h v s u2 = (Good (), u)"
    unfolding u_def by (metis drop_draft_Good prod.collapse)
  have "resolve_path h v s t = (Good p, t)"
    using resolve_stands(1) [OF works vault(1) names(1,2), of t] dirs(1) files(1) by (simp add: p)
  then have "trash_note h v s t = (Good (json_obj [(''trashed'', JStr c)]), u)"
    using files(1) works names(4) checked make_dirs_stands [OF dirs(2)] moved written dropped index
    by (simp add: trash_note_def seq_def is_file_def lstat_def kernel_works_def require_def give_def d
        trash_index_def trash_record_def)
  moreover have "\<not> prefix (drafts_dir v) (butlast p)"
    using apart(3) prefix_order.trans prefixeq_butlast by blast
  ultimately show ?thesis using at keeps dirs apart(6,7) by blast
qed

lemma restore_brings_back:
  assumes works: "kernel_works h" and vault: "vt_root v \<noteq> []" "kept_apart h v"
    and names: "relative_path s" "is_markdown (comps s)" "last (comps s) = stem (comps s) @ ''.md''"
    and c: "c = last (comps s)" and p: "p = vt_root v @ comps s" and d: "d = trash_dir v @ [c]"
    and ix: "ix = vt_state v @ [''trash.json'']"
    and at: "map_of u p = None" "map_of u d = Some (Regular b k)" "map_of u ix = Some (Regular x True)"
    and dirs: "dirs_safe u (butlast p)" "dirs_safe u (trash_dir v)" "dirs_safe u (vt_state v)"
    and index: "index_of_vault h v ''trash.json'' u = m" "map_of m c = Some r" "json_index r ''origin'' = JStr s"
  shows "\<exists>w. restore_note h v c u = (Good (json_obj [(''restored'',
      case relative_of v p of Some r \<Rightarrow> JStr r | None \<Rightarrow> JNull)]), w) \<and> map_of w p = Some (Regular b k) \<and> map_of w d = None"
proof -
  define v1 where "v1 = AList.update p (Regular b k) (AList.delete d u)"
  define w where "w = AList.update ix (Regular (nh_show h (JObj (AList.delete c m))) True) v1"
  note base = trash_names [OF names c p d ix]
  note apart = trash_apart [OF vault(2) p d ix]
  have "d \<noteq> p" using at(1,2) by auto
  have trash_file: "checked_path h (vt_root v) [''.trash'', c] u = (Good d, u)"
    using checked_stands [OF works _ vault(1), of u "[''.trash'', c]"] dirs(2) at(2) base(4)
    by (auto simp: trash_dir_def d)
  have target: "resolve_path h v s u = (Good p, u)"
    using resolve_stands(1) [OF works vault(1) names(1,2), of u] dirs(1) at(1) by (simp add: p)
  have moved: "move_new h d (butlast p) (stem p) ''md'' u = (Good p, v1)"
    using move_new_free [OF works _ dirs(1), of d "stem p" "''md''" b k] dirs(2) base at(1,2) by (simp add: v1_def d)
  have "dirs_safe v1 (vt_state v)"
    using dirs(3) at(1,2) by (auto simp: dirs_safe_def v1_def map_of_update map_of_delete)
  moreover have "map_of v1 ix = map_of u ix"
    using apart by (simp add: v1_def map_of_update map_of_delete)
  ultimately have written: "write_index h v ''trash.json'' (AList.delete c m) v1 = (Good (), w)"
    using publish_over [OF works, of v1 ix True] base at(3) by (simp add: write_index_def w_def ix)
  have "restore_note h v c u = (Good (json_obj [(''restored'',
      case relative_of v p of Some r \<Rightarrow> JStr r | None \<Rightarrow> JNull)]), w)"
    using trash_file base(2,3) target moved written make_dirs_stands [OF dirs(1)] at(2) works index
    by (simp add: restore_note_def seq_def require_def give_def look_def restore_target_def
        is_file_def lstat_def kernel_works_def)
  moreover have "map_of w p = Some (Regular b k)" "map_of w d = None"
    using apart \<open>d \<noteq> p\<close> by (simp_all add: w_def v1_def map_of_update map_of_delete)
  ultimately show ?thesis by blast
qed


section \<open>Witnesses\<close>

text \<open>A vault with one note, on a kernel that does its work.\<close>

definition demo_notes :: "json \<Rightarrow> notes_host" where
  "demo_notes j = \<lparr>nh_ok = (\<lambda>op p t. True), nh_modified = (\<lambda>p t. 0), nh_access = (\<lambda>p t. True), nh_umask = True,
     nh_sha = (\<lambda>b. b), nh_parse = (\<lambda>b. Some j), nh_show = (\<lambda>j. ''{}''), nh_stamp = ''now'', nh_now = 0,
     nh_settings = (\<lambda>b. None), nh_show_settings = (\<lambda>s. ''{}''), nh_legacy = (\<lambda>b. None),
     nh_declared = no_settings\<lparr>se_vault := Some ''/v''\<rparr>, nh_home = [''h''], nh_config = [''c''], nh_state = [''s''],
     nh_data = [''d''], nh_canonical = Some, nh_guarded = (\<lambda>p. True), nh_copied = (\<lambda>p t. None), nh_lower = (\<lambda>s. s)\<rparr>"

definition demo_vault :: vault where
  "demo_vault = \<lparr>vt_root = [''v''], vt_directory = ''Inbox'', vt_attachments = ''Attachments'', vt_state = [''s'', ''seele-notes'']\<rparr>"

definition demo_disk :: "string \<Rightarrow> disk_tree" where
  "demo_disk b = [([''v''], Folder True), ([''v'', ''Inbox''], Folder True), ([''v'', ''.trash''], Folder True),
     ([''s''], Folder True), ([''s'', ''seele-notes''], Folder True), ([''v'', ''Inbox'', ''a.md''], Regular b False)]"

lemma demo_fields [simp]:
  "vt_root demo_vault = [''v'']" "vt_directory demo_vault = ''Inbox''" "trash_dir demo_vault = [''v'', ''.trash'']"
  "vt_state demo_vault = [''s'', ''seele-notes'']"
  by (simp_all add: demo_vault_def trash_dir_def)

lemma demo_files:
  "map_of (demo_disk b) [''v'', ''Inbox'', ''a.md''] = Some (Regular b False)"
  "map_of (demo_disk b) [''v'', ''.trash'', ''a.md''] = None" "map_of (demo_disk b) [''s'', ''seele-notes'', ''trash.json''] = None"
  "map_of (demo_disk b) q = Some (Regular b k) \<Longrightarrow> q = [''v'', ''Inbox'', ''a.md'']"
  by (auto simp: demo_disk_def split: if_splits)

lemma demo_works: "kernel_works (demo_notes j)"
  by (simp add: kernel_works_def demo_notes_def)

lemma demo_apart: "kept_apart (demo_notes j) demo_vault"
  by (simp add: kept_apart_def demo_vault_def settings_path_def demo_notes_def)

lemma demo_path: "comps ''Inbox/a.md'' = [''Inbox'', ''a.md'']" "relative_path ''Inbox/a.md''" "is_markdown [''Inbox'', ''a.md'']"
  "stem [''Inbox'', ''a.md''] = ''a''" "markdown_name ''a.md''"
  by code_simp+

lemma dirs_safe_two:
  "map_of t [a] = Some (Folder True) \<Longrightarrow> map_of t [a, b] = Some (Folder True) \<Longrightarrow> dirs_safe t [a, b]"
  unfolding dirs_safe_def
proof (intro allI impI)
  fix c assume t: "map_of t [a] = Some (Folder True)" "map_of t [a, b] = Some (Folder True)"
    and "c \<noteq> []" "prefix c [a, b]"
  then have "c = [a] \<or> c = [a, b]" by (auto simp: prefix_Cons)
  with t show "map_of t c = Some (Folder True)" by auto
qed

lemma demo_dirs: "dirs_safe (demo_disk b) [''v'', ''Inbox'']" "dirs_safe (demo_disk b) [''v'', ''.trash'']"
  "dirs_safe (demo_disk b) [''s'', ''seele-notes'']"
  by (rule dirs_safe_two; simp add: demo_disk_def)+

theorem no_request_loses_notes_witness:
  "\<exists>q k. prefix [''v''] q \<and> map_of (snd (snd (notes_request (demo_notes JNull)
     (json_obj [(''action'', JStr ''trash''), (''path'', JStr ''Inbox/a.md'')])
     \<lparr>ss_library = Some demo_vault, ss_settings = no_settings\<rparr> (demo_disk ''hello'')))) q = Some (Regular ''hello'' k)"
proof -
  let ?s = "\<lparr>ss_library = Some demo_vault, ss_settings = no_settings\<rparr>"
  let ?m = "json_obj [(''action'', JStr ''trash''), (''path'', JStr ''Inbox/a.md'')]"
  let ?a = "notes_request (demo_notes JNull) ?m ?s (demo_disk ''hello'')"
  have "?a = (fst ?a, fst (snd ?a), snd (snd ?a))" by simp
  moreover have "prefix (vt_root demo_vault) [''v'', ''Inbox'', ''a.md'']"
    "map_of (demo_disk ''hello'') [''v'', ''Inbox'', ''a.md''] = Some (Regular ''hello'' False)"
    by (simp_all add: demo_files)
  moreover have "text_of ?m ''action'' = ''trash''" by (simp add: text_of_def json_index_def)
  ultimately show ?thesis
    using no_request_loses_notes [of ?s demo_vault "demo_notes JNull" ?m "demo_disk ''hello''" "fst ?a" "fst (snd ?a)"
        "snd (snd ?a)" "[''v'', ''Inbox'', ''a.md'']" "''hello''" False] demo_apart [of JNull]
    by (simp add: demo_vault_def)
qed

theorem mine_overwrites_unreadable_witness:
  "map_of (snd (resolve_conflict (demo_notes JNull) demo_vault ''Inbox/a.md'' ''mine'' ''mine'' (demo_disk [CHR 0xFF])))
     [''v'', ''Inbox'', ''a.md''] = Some (Regular ''mine'' False)"
proof -
  have path: "vt_root demo_vault @ comps ''Inbox/a.md'' = [''v'', ''Inbox'', ''a.md'']" by (simp add: demo_path)
  have broken: "\<not> valid_utf8 [CHR 0xFF]" by (simp add: valid_utf8_def chars_def of_chars_def utf8_encode_def)
  have own: "valid_utf8 ''mine''" by code_simp
  show ?thesis
    using mine_overwrites_unreadable [OF demo_works [of JNull] _ demo_apart demo_path(2), unfolded path,
        OF _ _ _ demo_files(1) disjI1 [OF broken] demo_files(4) own]
    by (simp add: demo_path demo_dirs max_text_def)
qed

text \<open>The index of a trash that holds the one note.\<close>

definition demo_index :: "(string \<times> json) list" where
  "demo_index = [(''a.md'', json_obj [(''origin'', JStr ''Inbox/a.md''), (''trashed'', jint 0)])]"

lemma demo_trash_index: "trash_index (demo_notes j) demo_vault ''Inbox/a.md'' ''a.md'' (demo_disk b) = demo_index"
proof -
  have "index_of_vault (demo_notes j) demo_vault ''trash.json'' (demo_disk b) = []"
    by (simp add: index_of_vault_def index_at_def draft_of_def read_state_def read_bounded_def utf8_ending_def demo_files)
  then show ?thesis by (simp add: trash_index_def trash_record_def demo_index_def demo_notes_def)
qed


lemma demo_checked:
  "checked_path (demo_notes j) [''v''] [''Inbox''] (demo_disk b) = (Good [''v'', ''Inbox''], demo_disk b)"
  "checked_path (demo_notes j) [''v''] [''Inbox'', ''Attachments''] (demo_disk b) = (Good [''v'', ''Inbox'', ''Attachments''], demo_disk b)"
  by (simp_all add: checked_path_def seq_def stat_check_def look_def lstat_def demo_notes_def demo_disk_def give_def)

lemma demo_vault_from: "vault_from (demo_notes j) (read_settings (demo_notes j) (demo_disk b)) (demo_disk b) = Some demo_vault"
proof -
  have "read_settings (demo_notes j) (demo_disk b) = no_settings"
    by (simp add: read_settings_def settings_path_def read_state_def read_bounded_def utf8_ending_def demo_notes_def demo_disk_def)
  moreover have "vault_at (demo_notes j) ''Inbox'' ''Attachments'' [''v''] (demo_disk b) = Some demo_vault"
  proof -
    have "comps ''Inbox'' = [''Inbox'']" "comps ''Attachments'' = [''Attachments'']" "trim_matches ''/'' ''Inbox'' = ''Inbox''"
      "trim_matches ''/'' ''Attachments'' = ''Attachments''"
      by code_simp+
    moreover have "nh_guarded (demo_notes j) [''v'']" "nh_state (demo_notes j) = [''s'']" by (simp_all add: demo_notes_def)
    ultimately show ?thesis by (simp add: vault_at_def demo_checked demo_vault_def)
  qed
  moreover have "relative_path ''Inbox''" "relative_path ''Attachments''" "\<not> trim_is_empty ''/v''" "comps ''/v'' = [''v'']" "strip_pre ''~/'' ''/v'' = None"
    "starts_with ''/'' ''/v''" by code_simp+
  moreover have "nh_declared (demo_notes j) = no_settings\<lparr>se_vault := Some ''/v''\<rparr>" "nh_canonical (demo_notes j) = Some"
    by (simp_all add: demo_notes_def)
  ultimately show ?thesis
    by (simp add: vault_from_def no_settings_def expand_path_def)
qed

theorem number_line_stops_store_witness:
  "ready_message (demo_notes JNull) (demo_disk (digit_line ''5'' 0x20AC (map of_char '' for lunch''))) = None"
proof -
  let ?b = "digit_line ''5'' 0x20AC (map of_char '' for lunch'')" and ?h = "demo_notes JNull"
  have line: "digit_line_ok ''5'' 0x20AC (map of_char '' for lunch'')" by code_simp
  have b: "valid_utf8 (?b @ [])" "length (?b @ []) < 64" by code_simp+
  have name: "valid_utf8 (join_comps (comps (vt_directory demo_vault) @ [''a.md'']))" by code_simp
  have dir: "notes_dir demo_vault = [''v'', ''Inbox'']" by code_simp
  have list: "read_dir ?h (notes_dir demo_vault) (demo_disk ?b) = Some [''a.md'']"
    by (simp add: dir read_dir_def demo_notes_def demo_disk_def)
  have ok: "nh_ok ?h op q t" for op q t by (simp add: demo_notes_def)
  have inbox: "comps ''Inbox'' = [''Inbox'']" by code_simp
  show ?thesis
    using number_line_stops_store [of ?h "demo_disk ?b" demo_vault "''5''" "0x20AC" "map of_char '' for lunch''" "[]" "''a.md''" False,
        OF demo_vault_from line _ _ demo_path(5) b(1) _ name ok ok _ list] b(2)
    by (simp add: dir demo_files inbox demo_checked max_text_def max_listed_def)
qed

end
