(* ===== verification/Spec2Isabelle.thy ===== *)
theory Spec2Isabelle
  imports Prelude Rust_Str Json Broker_Validation Broker_Lifecycle Broker_Safety Broker_Steps
    Broker_Invariant Broker_Theorems Broker_Interface Broker_Runner Maintenance_Inbox
    Maintenance_Facts Maintenance_Service Maintenance_Theorems
    Qml_Value Qml_Value_Theorems Notifications Notification_State Notification_Events
    Notification_Facts Notification_Invariant Notification_Theorems Notification_Policy
    Analysis_Retry Ports_Procfs Ports_Model Ports_Helper Ports_Facts Ports_Worker Ports_Theorems
    Row_Plan Civil_Time Civil_Theorems Durations
    Transfers Transfer_Service Transfer_Jobs Transfer_Facts Transfer_Steps Transfer_Invariant
    Transfer_Theorems Caffeinate_Tasks Caffeinate_Session Caffeinate_Theorems
    Drift_Model Drift_Apply Drift_Theorems
    Clock_Catalog Meeting_Model Meeting_Plan Meeting_Reply Meeting_Facts Meeting_Days
    Meeting_Theorems
    Maintenance_Probes Maintenance_Restart Probe_Theorems Probe_Dates Restart_Theorems
    Restore_Model Restore_Theorems
    Notes_Text Notes_Disk Notes_Store Notes_Session Notes_Facts Notes_Safety Notes_Lines
    Notes_Theorems
begin

text \<open>
  \<^bold>\<open>Seele shell: a verification development.\<close> The program is a desktop shell: native Rust
  services and helpers (under \<open>projects/\<close>) with a QML interface. This development models the
  services that keep state, decide on the user's behalf or act with privileges, and proves what
  makes each of them correct.

  \<^bold>\<open>The parts and how they interact.\<close>

  \<^item> The \<^emph>\<open>broker\<close> (\<open>projects/broker\<close>) is the only process that runs models. Clients submit
    requests over a socket; a fixed set of workers takes jobs from one table.
    \<open>Broker_Validation\<close> is \<open>validation.rs\<close> (admission of a request), \<open>Broker_Lifecycle\<close> is
    \<open>lifecycle.rs\<close> (job table, worker loop \<open>work_pick\<close>/\<open>work_select\<close>/\<open>work_finish\<close>, protocol
    \<open>call\<close>), \<open>Broker_Runner\<close> is \<open>runner.rs\<close>, \<open>routing.rs\<close>, \<open>health.rs\<close> and \<open>runtime/src/codex.rs\<close>
    (event streams, provider choice, health). \<open>Broker_Safety\<close> composes table and workers to a
    concurrent system, one step per critical section, and states its invariant;
    \<open>Broker_Steps\<close> and \<open>Broker_Invariant\<close> preserve it; \<open>Broker_Theorems\<close> and \<open>Broker_Interface\<close>
    hold the properties.
  \<^item> \<^emph>\<open>Maintenance\<close> (\<open>projects/maintenance\<close>) collects findings of publishers into an inbox and runs
    confirmed actions. \<open>Maintenance_Inbox\<close> is \<open>model.rs\<close> and \<open>runtime/src/redact.rs\<close>,
    \<open>Maintenance_Service\<close> is \<open>service.rs\<close> with the checks it takes from \<open>publishers.rs\<close> and
    \<open>lib.rs\<close>; \<open>Maintenance_Facts\<close> and \<open>Maintenance_Theorems\<close> hold invariants and properties.
    \<open>Maintenance_Probes\<close> is \<open>publishers.rs\<close>, the collectors whose snapshots the checks report, and
    \<open>Maintenance_Restart\<close> is \<open>restart.rs\<close>, the collector that compares the booted system with the
    current one; \<open>Probe_Theorems\<close>, \<open>Probe_Dates\<close> and \<open>Restart_Theorems\<close> hold their properties and
    how they meet the inbox. \<open>Restore_Model\<close> is \<open>restic_files.rs\<close> and the two programs that read
    single files of a backup and restore a copy (\<open>bin/seele-backup-files.rs\<close>,
    \<open>bin/seele-restore-file.rs\<close>), \<open>Restore_Theorems\<close> their properties.
    The service is a client of the broker: \<open>Analysis_Retry\<close> composes the two models.
  \<^item> The \<^emph>\<open>UI policy\<close> (\<open>projects/qml-core\<close>) is called by QML through a C ABI with JSON values.
    \<open>Qml_Value\<close> is \<open>value.rs\<close> (ECMAScript coercions, exact \<open>toFixed\<close>); \<open>Notifications\<close>,
    \<open>Notification_State\<close> and \<open>Notification_Events\<close> are \<open>notifications.rs\<close> (entries and groups;
    eviction, clock and automatic silence; the events of \<open>transition\<close>), with
    \<open>Notification_Facts\<close>, \<open>Notification_Invariant\<close>, \<open>Notification_Theorems\<close> and
    \<open>Notification_Policy\<close> on top. \<open>Row_Plan\<close> is \<open>models.rs\<close> (edit plans for list models),
    \<open>Civil_Time\<close> is \<open>time.rs\<close> (calendar arithmetic), \<open>Durations\<close> the duration policy of
    \<open>caffeinate.rs\<close>.
  \<^item> The \<^emph>\<open>port inspector\<close> (\<open>projects/tools/src/ports\<close>) shows listening sockets and stops their
    owners. \<open>Ports_Procfs\<close> is \<open>procfs.rs\<close>, \<open>Ports_Model\<close> is \<open>model.rs\<close> (rows, targets, review
    token, query), \<open>Ports_Helper\<close> is \<open>privileged.rs\<close> (the helper that runs as root, with
    \<open>signal_checked\<close> of \<open>runtime/src/process.rs\<close>), \<open>Ports_Worker\<close> is \<open>worker.rs\<close> (the resident
    panel, which calls the helper through run0). \<open>Ports_Facts\<close> holds what any scan can contain,
    \<open>Ports_Theorems\<close> the properties.
  \<^item> The \<^emph>\<open>transfer service\<close> (\<open>projects/integrations/src/transfers\<close>) sends and receives files over
    a provider. \<open>Transfers\<close> is \<open>model.rs\<close> and the history of \<open>service.rs\<close>, \<open>Transfer_Service\<close> its
    requests, the background loop and the checks of \<open>provider.rs\<close>, \<open>Transfer_Jobs\<close> the jobs
    (\<open>run\<close>, \<open>run_files\<close>) as state machines and the interleaving \<open>transfer_step\<close> with restarts.
    \<open>Transfer_Facts\<close> states the invariant and reduces every operation to primitive edits,
    \<open>Transfer_Steps\<close> decomposes the operations, \<open>Transfer_Invariant\<close> the regions of a job,
    \<open>Transfer_Theorems\<close> holds the properties.
  \<^item> \<^emph>\<open>Caffeinate\<close> (\<open>projects/tools/src/caffeinate.rs\<close>) holds an idle inhibitor until a deadline, a
    process or a transfer ends. \<open>Caffeinate_Tasks\<close> is what it lists (with \<open>Identity\<close> of
    \<open>daemon.rs\<close>), \<open>Caffeinate_Session\<close> the session and the threads of the service,
    \<open>Caffeinate_Theorems\<close> the properties. It asks the UI policy what a duration means
    (\<open>Durations\<close>) and the transfer service what runs; the theorems compose the three models.
  \<^item> The \<^emph>\<open>drift check\<close> (\<open>projects/tools/src/drift.rs\<close>) compares the running session with its
    declaration and restores what the user selects. \<open>Drift_Model\<close> holds the catalog, the parsers
    and the analyses, \<open>Drift_Apply\<close> the commands, the root helper and the run of \<open>apply\<close> against
    a machine, \<open>Drift_Theorems\<close> the properties.
  \<^item> The \<^emph>\<open>clock\<close> (\<open>projects/tools/src/clock.rs\<close>, \<open>clock/meeting.rs\<close>) shows time zones and plans
    meetings across them. \<open>Clock_Catalog\<close> is the zone catalog, the pins and the request lines,
    \<open>Meeting_Model\<close> the readings of one participant, \<open>Meeting_Plan\<close> local days, requests, cache and
    ranking, \<open>Meeting_Reply\<close> the replies and the resident loop. \<open>Meeting_Facts\<close> shows what measured
    rows mean, \<open>Meeting_Days\<close> what a local day is (on the calendar of \<open>Civil_Time\<close>),
    \<open>Meeting_Theorems\<close> holds the other properties.
  \<^item> The \<^emph>\<open>notes store\<close> (\<open>projects/tools/src/notes.rs\<close>) keeps Markdown notes in a vault that other
    programs write to as well. \<open>Notes_Text\<close> is what it reads in a note, \<open>Notes_Disk\<close> the tree of files
    with the publication and the moves of \<open>runtime/src/fs.rs\<close>, \<open>Notes_Store\<close> the vault (paths, drafts,
    listing, recordings, saving, conflicts, trash), \<open>Notes_Session\<close> the shelf, the migration, the
    choice of the vault and the requests. \<open>Notes_Facts\<close> is the calculus of what operations preserve,
    \<open>Notes_Safety\<close> shows it of every request, \<open>Notes_Lines\<close> and \<open>Notes_Theorems\<close> hold the other
    properties.
  \<^item> \<open>Prelude\<close>, \<open>Rust_Str\<close> and \<open>Json\<close> are shared: the interfaces (locales), association lists in
    key order, UTF-8 strings with the Rust operations the sources use, and \<open>serde_json\<close> values.

  \<^bold>\<open>Interfaces.\<close> \<open>invariant_system\<close> (reachability and preservation) is interpreted by the broker
  and by Caffeinate; \<open>event_machine\<close> (its deterministic form, a fold of events) by the inbox, the
  notification policy and the port panel; \<open>bounded_log\<close> by the broker's list of released jobs and
  the inbox's outcomes; \<open>codec\<close> (a printer and its parser) by UTF-8, decimal numbers and token
  fields; \<open>key_value\<close> by the two kinds of association lists (\<open>hash\<close>, \<open>btree\<close>); \<open>tree_relation\<close> (what a
  sequence of file operations preserves) by the notes store, for reading, creating directories, keeping
  contents, files left alone and one path changed. Each is interpreted
  on the model's own definitions in the theory that provides them, and the properties use the
  facts so obtained.

  \<^bold>\<open>Conventions.\<close> A region that the source runs under a mutex is one function of the state; an
  effect on the outside is a value in a list; an error is a value of a sum. Numbers whose width
  matters are bounded naturals with the wrap, saturation or check written out, or machine words
  (\<open>f64\<close> bit patterns). An \<open>Instant\<close> or \<open>Duration\<close> is a natural number of nanoseconds. Times as
  \<open>f64\<close> seconds are exact rationals in the broker and the inbox; in the UI policy an \<open>f64\<close> is the
  datatype of \<open>Qml_Value\<close> (finite rational, infinities, NaN) with exact arithmetic that
  overflows at the format's bound, so rounding of sums is the one thing left out. A string is
  its UTF-8 bytes. A shared atomic flag is an address in a store. Maps with an order are sorted
  association lists, hash maps association lists whose order nothing depends on.

  \<^bold>\<open>Parameters.\<close> What is not under \<open>projects/\<close> is an argument of the definitions: the JSON Schema
  compiler and the serialized size of a value, JSON parsing and printing, the redaction regular
  expressions, SHA-256, fresh UUIDs, Unicode lower-casing and float printing (the record
  \<open>host\<close>), the replies of the transfer provider and the outcome of a write (\<open>world\<close>), the JSON text
  of the transfer history (\<open>ser\<close>, \<open>deser\<close>; \<open>journal\<close> says that reading returns identifiers and
  files as written), pidfds and logind (\<open>caf_world\<close>), the answers of systemctl
  and of the root helper (\<open>machine\<close>), the commands, files and links the collectors read
  (\<open>probe_host\<close>, \<open>tree_host\<close>; \<open>gregorian_timegm\<close> is the manual's \<open>timegm\<close>), restic, the dialogs' host and
  the directory entries paths denote (\<open>backend_host\<close>, \<open>restore_host\<close>; \<open>glob_laws\<close> is restic's documented
  matching), libc's time functions and the zone database (\<open>clock_host\<close>;
  \<open>libc_sound\<close>, \<open>zone_regular\<close> and \<open>calm_zone\<close> say what they promise), the look at \<open>/proc\<close> (\<open>proc_view\<close>; an operation that reads it at several moments gets
  several), systemctl, run0 and pidfd (\<open>helper_host\<close>, \<open>penv\<close>), and which operations of the kernel fail,
  the text of settings and old notes and the local time (\<open>notes_host\<close>; \<open>kernel_works\<close> says that none fails). Theorems quantify over all of
  them; the few with a hypothesis on one have a witness on a concrete instance.

  \<^bold>\<open>Bounds and fuel.\<close> Nothing is fuelled: loops are structural recursion or a \<open>function\<close> with a
  measure (eviction: the retained entries; hexadecimal and decimal printing: the number; scans of a
  note: its rest); a count of visits is the code's own limit. The
  limits of the code (job table, retired log, watermarks, inbox rows, notification bytes and
  entries, listeners, descriptors, owners, escalations) are named constants of the model.

  \<^bold>\<open>What the theorems show.\<close> For the broker: its invariant, validated results, newest revision per
  item, the life cycle of a job, refinement of a worker's last section to one function of the
  job and the exact fallback rule (bounds, back-off, queue order, admission and the isolation of
  the model processes are lemmas beside them). For maintenance: the invariants of inbox and
  service, the rules of reports and checks, guarded tasks and the fixed commands, and the
  composition with the broker that shows an advertised retry can never succeed; what the
  collectors return is accepted, they are silent only on evidence, dates of certificates are read
  exactly, one escaped unit name stops a check, and a
  restored copy is a listed version that overwrites nothing. For the UI
  policy: what silence, toasts, focus and reminders do; edit plans, the calendar and typed
  durations. For the port inspector: what can be signalled and that it was reviewed. For the
  transfer service: its invariant, checked uploads, the end of every job, and a retry that strands its transfer. For Caffeinate: the
  inhibitor follows the session (ends for cause, exact deadlines, pinned processes, private labels and
  the transfers it waits for are lemmas beside it). For the
  drift check: the only commands a restoring run can issue, exact verdicts, that a restored unit
  settles, and that its report admits every change it made. For the clock: measured rows are exact,
  moves by days keep the wall time, indices are in range and the cache is invisible (the axis, the
  suggestions, the next opening and request lines are lemmas beside them). For the notes store: no request
  loses what a file of the vault holds, save for the two replacements it names; a trashed note is restored
  as it was; a conflict settled in favour of the client can overwrite a version it cannot read; and a
  number followed at once by a character beyond ASCII stops the store.

  \<^bold>\<open>Not modelled.\<close> Socket loops, process execution and the C ABI are I/O; the
  network integrations rest on HTTP, WebSocket and MCP crates; theme generation on
  floating-point colour science; previews, links and highlighting on the url and regex crates;
  QML, TypeScript and C++ are other languages. Within the modelled files, what is left out is
  named in the component's note (regular-expression functions of the notifications, the URI
  percent-encoding of the coercions, the socket loop of maintenance, the cache of summaries, the watch on
  the vault, the poll loop and the recorder of the notes store).

  \<^bold>\<open>Plan.\<close> What would extend the development best is the text workbench, then the resource and agent
  monitors.
\<close>

end
